(* ===== verification/CBC_Prelude.thy ===== *)
theory CBC_Prelude
  imports Main "HOL-Library.Word"
begin

text \<open>
  Shared vocabulary of the development: the names of the C integer types, the C
  conversions between them, the lemma collections the component theories fill and
  use, and a few generic facts on words and lists.
\<close>

unbundle bit_operations_syntax

named_theorems c_cast \<comment> \<open>conversions that do not lose anything on values in range\<close>
named_theorems frame \<comment> \<open>what an operation leaves unchanged\<close>

section \<open>C integer types\<close>

type_synonym u_8 = "8 word"
type_synonym u_16 = "16 word"
type_synonym u_32 = "32 word"
type_synonym u_64 = "64 word"

text \<open>
  Fields whose width is not that of a word type are kept as \<open>int\<close>, and every
  assignment that narrows is written as one of these two conversions. Signed
  arithmetic that overflows is undefined in C; it stays unbounded here.
\<close>

definition cast_u :: "nat \<Rightarrow> int \<Rightarrow> int" where
  "cast_u w x = x mod 2 ^ w"

definition cast_s :: "nat \<Rightarrow> int \<Rightarrow> int" where
  "cast_s w x = (x + 2 ^ (w - 1)) mod 2 ^ w - 2 ^ (w - 1)"

abbreviation to_unsigned :: "int \<Rightarrow> int" where
  "to_unsigned \<equiv> cast_u 32"

abbreviation to_int :: "int \<Rightarrow> int" where
  "to_int \<equiv> cast_s 32"

abbreviation to_uchar :: "int \<Rightarrow> int" where
  "to_uchar \<equiv> cast_u 8"

lemma cast_u_id [c_cast]: "0 \<le> x \<Longrightarrow> x < 2 ^ w \<Longrightarrow> cast_u w x = x"
  by (simp add: cast_u_def)

lemma cast_u_nonneg [simp]: "0 \<le> cast_u w x"
  by (simp add: cast_u_def)

lemma cast_u_less [simp]: "cast_u w x < 2 ^ w"
  by (simp add: cast_u_def)

lemma cast_s_id [c_cast]:
  assumes "0 < w" and "- (2 ^ (w - 1)) \<le> x" and "x < 2 ^ (w - 1)"
  shows "cast_s w x = x"
proof -
  have "(2::int) ^ w = 2 ^ (w - 1) + 2 ^ (w - 1)"
    using assms(1) by (cases w) simp_all
  with assms show ?thesis by (simp add: cast_s_def)
qed

lemma cast_u_zero [simp]: "cast_u w 0 = 0"
  by (simp add: cast_u_def)

section \<open>The two byte orders\<close>

datatype CByteOrder = CBO_BIG_ENDIAN | CBO_LITTLE_ENDIAN

section \<open>NUL-terminated strings\<close>

text \<open>
  A C string is the list of its characters before the terminator; reading at the
  end gives the terminator.
\<close>

abbreviation NUL :: char where
  "NUL \<equiv> CHR 0x00"

definition peek :: "string \<Rightarrow> char" where
  "peek s = (case s of [] \<Rightarrow> NUL | c # _ \<Rightarrow> c)"

lemma peek_simps [simp]: "peek [] = NUL" "peek (c # s) = c"
  by (simp_all add: peek_def)

text \<open>The classification macros of \<open>ctype.h\<close> in the C locale.\<close>

definition char_nat :: "char \<Rightarrow> nat" where
  "char_nat c = of_char c"

definition isspace :: "char \<Rightarrow> bool" where
  "isspace c \<longleftrightarrow> c = CHR 0x20 \<or> (9 \<le> char_nat c \<and> char_nat c \<le> 13)"

definition isdigit :: "char \<Rightarrow> bool" where
  "isdigit c \<longleftrightarrow> 48 \<le> char_nat c \<and> char_nat c \<le> 57"

definition isupper :: "char \<Rightarrow> bool" where
  "isupper c \<longleftrightarrow> 65 \<le> char_nat c \<and> char_nat c \<le> 90"

definition islower :: "char \<Rightarrow> bool" where
  "islower c \<longleftrightarrow> 97 \<le> char_nat c \<and> char_nat c \<le> 122"

definition isalpha :: "char \<Rightarrow> bool" where
  "isalpha c \<longleftrightarrow> isupper c \<or> islower c"

definition isalnum :: "char \<Rightarrow> bool" where
  "isalnum c \<longleftrightarrow> isalpha c \<or> isdigit c"

definition isxdigit :: "char \<Rightarrow> bool" where
  "isxdigit c \<longleftrightarrow> isdigit c \<or> (65 \<le> char_nat c \<and> char_nat c \<le> 70)
                   \<or> (97 \<le> char_nat c \<and> char_nat c \<le> 102)"

lemmas ctype_defs = isspace_def isdigit_def isupper_def islower_def isalpha_def
  isalnum_def isxdigit_def char_nat_def

definition digit_char :: "nat \<Rightarrow> char" where
  "digit_char d = char_of (48 + d)"

lemma char_nat_digit_char [simp]: "d < 10 \<Longrightarrow> char_nat (digit_char d) = 48 + d"
  by (simp add: char_nat_def digit_char_def)

lemma isdigit_digit_char [simp]: "d < 10 \<Longrightarrow> isdigit (digit_char d)"
  by (simp add: isdigit_def)

lemma isspace_not_digit: "isspace c \<Longrightarrow> \<not> isdigit c"
  by (auto simp: ctype_defs)

lemma isdigit_NUL [simp]: "\<not> isdigit NUL"
  by (simp add: ctype_defs)

lemma isspace_NUL [simp]: "\<not> isspace NUL"
  by (simp add: ctype_defs)

lemma dropWhile_peek: "\<not> P (peek s) \<Longrightarrow> dropWhile P s = s"
  by (cases s) simp_all

section \<open>Faults\<close>

text \<open>
  What ends a run without a result: a failed \<open>assert\<close>, a call of \<open>fatal_error\<close>, an
  operation C leaves undefined (division by zero, reading an unset variable, following
  a null or dangling pointer), an access outside a buffer, a loop that does not end, a Perl
  exception with its message, or the fuel of the model.
\<close>

datatype fault = Assertion_failed | Fatal_error | Undefined_behaviour | Outside_buffer | Diverges
  | Croaked string | Out_of_fuel

type_synonym 'a run = "fault + 'a"

definition and_then :: "'a run \<Rightarrow> ('a \<Rightarrow> 'b run) \<Rightarrow> 'b run" where
  "and_then r f = (case r of Inl e \<Rightarrow> Inl e | Inr x \<Rightarrow> f x)"

definition check :: "fault \<Rightarrow> bool \<Rightarrow> unit run" where
  "check e b = (if b then Inr () else Inl e)"

lemma and_then_simps [simp]: "and_then (Inl e) f = Inl e" "and_then (Inr x) f = f x"
  by (simp_all add: and_then_def)

lemma and_then_Inr: "and_then r f = Inr y \<longleftrightarrow> (\<exists>x. r = Inr x \<and> f x = Inr y)"
  by (cases r) simp_all

lemma check_Inr [simp]: "check e b = Inr u \<longleftrightarrow> b"
  by (simp add: check_def)

lemma check_true [simp]: "check e True = Inr ()" "check e False = Inl e"
  by (simp_all add: check_def)

text \<open>Division by zero is undefined in C; on non-negative operands \<open>%\<close> is \<open>mod\<close>.\<close>

definition c_mod :: "int \<Rightarrow> int \<Rightarrow> int run" where
  "c_mod a b = (if b = 0 then Inl Undefined_behaviour
     else Inr (if a < 0 then - ((- a) mod \<bar>b\<bar>) else a mod \<bar>b\<bar>))"

lemma c_mod_pos: "0 \<le> a \<Longrightarrow> 0 < b \<Longrightarrow> c_mod a b = Inr (a mod b)"
  by (simp add: c_mod_def)

text \<open>Some bit of a mask is set.\<close>

definition has_flag :: "'a::len word \<Rightarrow> 'a word \<Rightarrow> bool" where
  "has_flag flags bits \<longleftrightarrow> flags AND bits \<noteq> 0"

lemma has_flag_or: "has_flag (f OR g) m \<longleftrightarrow> has_flag f m \<or> has_flag g m"
proof -
  have "(f OR g) AND m = f AND m OR g AND m"
    by (rule bit_word_eqI) (auto simp: bit_or_iff bit_and_iff)
  moreover have "x OR y = 0 \<longleftrightarrow> x = 0 \<and> y = 0" for x y :: "'a word"
    by (auto simp: bit_eq_iff bit_or_iff)
  ultimately show ?thesis by (simp add: has_flag_def)
qed

end
