(* ===== verification/Byte_Order.thy ===== *)
theory Byte_Order
  imports CBC_Prelude "HOL-Library.Monad_Syntax"
begin

text \<open>
  \<^verbatim>\<open>ctlib/byteorder.c\<close>: reading and writing 1, 2, 4 and 8 byte integers, whole or
  as bit-fields inside such a unit, in either byte order.
\<close>

section \<open>Memory and the host\<close>

text \<open>
  Memory is byte addressed. The macros of the file depend on the byte order of the
  host and on whether it can load misaligned words.
\<close>

type_synonym mem = "nat \<Rightarrow> u_8"

record arch =
  native_byteorder :: CByteOrder
  can_unaligned_access :: bool

section \<open>Byte-wise access macros\<close>

definition le_word :: "mem \<Rightarrow> nat \<Rightarrow> u_16" where
  "le_word m p = ucast (m p) OR push_bit 8 (ucast (m (p + 1)))"

definition le_long :: "mem \<Rightarrow> nat \<Rightarrow> u_32" where
  "le_long m p = ucast (m p) OR push_bit 8 (ucast (m (p + 1)))
     OR push_bit 16 (ucast (m (p + 2))) OR push_bit 24 (ucast (m (p + 3)))"

definition le_longlong :: "mem \<Rightarrow> nat \<Rightarrow> u_64" where
  "le_longlong m p = ucast (m p) OR push_bit 8 (ucast (m (p + 1)))
     OR push_bit 16 (ucast (m (p + 2))) OR push_bit 24 (ucast (m (p + 3)))
     OR push_bit 32 (ucast (m (p + 4))) OR push_bit 40 (ucast (m (p + 5)))
     OR push_bit 48 (ucast (m (p + 6))) OR push_bit 56 (ucast (m (p + 7)))"

definition be_word :: "mem \<Rightarrow> nat \<Rightarrow> u_16" where
  "be_word m p = push_bit 8 (ucast (m p)) OR ucast (m (p + 1))"

definition be_long :: "mem \<Rightarrow> nat \<Rightarrow> u_32" where
  "be_long m p = push_bit 24 (ucast (m p)) OR push_bit 16 (ucast (m (p + 1)))
     OR push_bit 8 (ucast (m (p + 2))) OR ucast (m (p + 3))"

definition be_longlong :: "mem \<Rightarrow> nat \<Rightarrow> u_64" where
  "be_longlong m p = push_bit 56 (ucast (m p)) OR push_bit 48 (ucast (m (p + 1)))
     OR push_bit 40 (ucast (m (p + 2))) OR push_bit 32 (ucast (m (p + 3)))
     OR push_bit 24 (ucast (m (p + 4))) OR push_bit 16 (ucast (m (p + 5)))
     OR push_bit 8 (ucast (m (p + 6))) OR ucast (m (p + 7))"

definition byte_of :: "nat \<Rightarrow> 'a::len word \<Rightarrow> u_8" where
  "byte_of k v = ucast (drop_bit k v AND 0xFF)"

definition put_le_word :: "mem \<Rightarrow> nat \<Rightarrow> u_16 \<Rightarrow> mem" where
  "put_le_word m p v = m(p := byte_of 0 v, p + 1 := byte_of 8 v)"

definition put_le_long :: "mem \<Rightarrow> nat \<Rightarrow> u_32 \<Rightarrow> mem" where
  "put_le_long m p v = m(p := byte_of 0 v, p + 1 := byte_of 8 v,
     p + 2 := byte_of 16 v, p + 3 := byte_of 24 v)"

definition put_le_longlong :: "mem \<Rightarrow> nat \<Rightarrow> u_64 \<Rightarrow> mem" where
  "put_le_longlong m p v = m(p := byte_of 0 v, p + 1 := byte_of 8 v,
     p + 2 := byte_of 16 v, p + 3 := byte_of 24 v, p + 4 := byte_of 32 v,
     p + 5 := byte_of 40 v, p + 6 := byte_of 48 v, p + 7 := byte_of 56 v)"

definition put_be_word :: "mem \<Rightarrow> nat \<Rightarrow> u_16 \<Rightarrow> mem" where
  "put_be_word m p v = m(p := byte_of 8 v, p + 1 := byte_of 0 v)"

definition put_be_long :: "mem \<Rightarrow> nat \<Rightarrow> u_32 \<Rightarrow> mem" where
  "put_be_long m p v = m(p := byte_of 24 v, p + 1 := byte_of 16 v,
     p + 2 := byte_of 8 v, p + 3 := byte_of 0 v)"

definition put_be_longlong :: "mem \<Rightarrow> nat \<Rightarrow> u_64 \<Rightarrow> mem" where
  "put_be_longlong m p v = m(p := byte_of 56 v, p + 1 := byte_of 48 v,
     p + 2 := byte_of 40 v, p + 3 := byte_of 32 v, p + 4 := byte_of 24 v,
     p + 5 := byte_of 16 v, p + 6 := byte_of 8 v, p + 7 := byte_of 0 v)"

lemma byte_of_eq: "byte_of k v = ucast (take_bit 8 (drop_bit k v))"
  by (simp add: byte_of_def take_bit_eq_mask mask_eq_exp_minus_1)

lemma bit_byte_of: "bit (byte_of k v) n \<longleftrightarrow> n < 8 \<and> bit v (k + n)"
  for v :: "'a::len word"
  by (auto simp: byte_of_eq bit_simps dest: bit_imp_le_length)

lemma byte_of_parts:
  "bit (push_bit k (ucast (byte_of k v)) :: 'a::len word) n \<longleftrightarrow> k \<le> n \<and> n < k + 8 \<and> bit v n"
  "bit (ucast (byte_of 0 v) :: 'a word) n \<longleftrightarrow> n < 8 \<and> bit v n"
  for v :: "'a::len word"
  by (auto simp: bit_byte_of bit_push_bit_iff bit_ucast_iff dest: bit_imp_le_length)

lemma le_word_put [simp]: "le_word (put_le_word m p v) p = v"
  by (rule bit_word_eqI)
    (simp add: le_word_def put_le_word_def bit_or_iff byte_of_parts, arith)

lemma be_word_put [simp]: "be_word (put_be_word m p v) p = v"
  by (rule bit_word_eqI)
    (simp add: be_word_def put_be_word_def bit_or_iff byte_of_parts, arith)

lemma le_long_put [simp]: "le_long (put_le_long m p v) p = v"
  by (rule bit_word_eqI)
    (simp add: le_long_def put_le_long_def bit_or_iff byte_of_parts, arith)

lemma be_long_put [simp]: "be_long (put_be_long m p v) p = v"
  by (rule bit_word_eqI)
    (simp add: be_long_def put_be_long_def bit_or_iff byte_of_parts, arith)

lemma le_longlong_put [simp]: "le_longlong (put_le_longlong m p v) p = v"
  by (rule bit_word_eqI)
    (simp add: le_longlong_def put_le_longlong_def bit_or_iff byte_of_parts, arith)

lemma be_longlong_put [simp]: "be_longlong (put_be_longlong m p v) p = v"
  by (rule bit_word_eqI)
    (simp add: be_longlong_def put_be_longlong_def bit_or_iff byte_of_parts, arith)

section \<open>The access macros of the file\<close>

text \<open>
  A native access reads or writes in the order of the host. On a big-endian host the
  \<open>BE\<close> macros use native accesses where alignment allows them and the \<open>LE\<close> macros go
  byte by byte; on a little-endian host the roles are swapped. The 64-bit macros use a
  native access only where misaligned words can be loaded.
\<close>

definition load_word :: "arch \<Rightarrow> mem \<Rightarrow> nat \<Rightarrow> u_16" where
  "load_word a m p = (case native_byteorder a of
     CBO_BIG_ENDIAN \<Rightarrow> be_word m p | CBO_LITTLE_ENDIAN \<Rightarrow> le_word m p)"

definition load_long :: "arch \<Rightarrow> mem \<Rightarrow> nat \<Rightarrow> u_32" where
  "load_long a m p = (case native_byteorder a of
     CBO_BIG_ENDIAN \<Rightarrow> be_long m p | CBO_LITTLE_ENDIAN \<Rightarrow> le_long m p)"

definition load_longlong :: "arch \<Rightarrow> mem \<Rightarrow> nat \<Rightarrow> u_64" where
  "load_longlong a m p = (case native_byteorder a of
     CBO_BIG_ENDIAN \<Rightarrow> be_longlong m p | CBO_LITTLE_ENDIAN \<Rightarrow> le_longlong m p)"

definition save_word :: "arch \<Rightarrow> mem \<Rightarrow> nat \<Rightarrow> u_16 \<Rightarrow> mem" where
  "save_word a m p v = (case native_byteorder a of
     CBO_BIG_ENDIAN \<Rightarrow> put_be_word m p v | CBO_LITTLE_ENDIAN \<Rightarrow> put_le_word m p v)"

definition save_long :: "arch \<Rightarrow> mem \<Rightarrow> nat \<Rightarrow> u_32 \<Rightarrow> mem" where
  "save_long a m p v = (case native_byteorder a of
     CBO_BIG_ENDIAN \<Rightarrow> put_be_long m p v | CBO_LITTLE_ENDIAN \<Rightarrow> put_le_long m p v)"

definition save_longlong :: "arch \<Rightarrow> mem \<Rightarrow> nat \<Rightarrow> u_64 \<Rightarrow> mem" where
  "save_longlong a m p v = (case native_byteorder a of
     CBO_BIG_ENDIAN \<Rightarrow> put_be_longlong m p v | CBO_LITTLE_ENDIAN \<Rightarrow> put_le_longlong m p v)"

definition GET_LE_WORD :: "arch \<Rightarrow> mem \<Rightarrow> nat \<Rightarrow> u_16" where
  "GET_LE_WORD a m p = (case native_byteorder a of
     CBO_BIG_ENDIAN \<Rightarrow> le_word m p
   | CBO_LITTLE_ENDIAN \<Rightarrow>
       if can_unaligned_access a then load_word a m p
       else if p mod 2 \<noteq> 0 then le_word m p else load_word a m p)"

definition GET_LE_LONG :: "arch \<Rightarrow> mem \<Rightarrow> nat \<Rightarrow> u_32" where
  "GET_LE_LONG a m p = (case native_byteorder a of
     CBO_BIG_ENDIAN \<Rightarrow> le_long m p
   | CBO_LITTLE_ENDIAN \<Rightarrow>
       if can_unaligned_access a then load_long a m p
       else if p mod 4 = 0 then load_long a m p
       else if p mod 4 = 2 then
         ucast (load_word a m p) OR push_bit 16 (ucast (load_word a m (p + 2)))
       else ucast (m p) OR push_bit 8 (ucast (load_word a m (p + 1)))
         OR push_bit 24 (ucast (m (p + 3))))"

definition GET_LE_LONGLONG :: "arch \<Rightarrow> mem \<Rightarrow> nat \<Rightarrow> u_64" where
  "GET_LE_LONGLONG a m p = (case native_byteorder a of
     CBO_BIG_ENDIAN \<Rightarrow> le_longlong m p
   | CBO_LITTLE_ENDIAN \<Rightarrow>
       if can_unaligned_access a then load_longlong a m p else le_longlong m p)"

definition GET_BE_WORD :: "arch \<Rightarrow> mem \<Rightarrow> nat \<Rightarrow> u_16" where
  "GET_BE_WORD a m p = (case native_byteorder a of
     CBO_BIG_ENDIAN \<Rightarrow>
       if can_unaligned_access a then load_word a m p
       else if p mod 2 \<noteq> 0 then be_word m p else load_word a m p
   | CBO_LITTLE_ENDIAN \<Rightarrow> be_word m p)"

definition GET_BE_LONG :: "arch \<Rightarrow> mem \<Rightarrow> nat \<Rightarrow> u_32" where
  "GET_BE_LONG a m p = (case native_byteorder a of
     CBO_BIG_ENDIAN \<Rightarrow>
       if can_unaligned_access a then load_long a m p
       else if p mod 4 = 0 then load_long a m p
       else if p mod 4 = 2 then
         push_bit 16 (ucast (load_word a m p)) OR ucast (load_word a m (p + 2))
       else push_bit 24 (ucast (m p)) OR push_bit 8 (ucast (load_word a m (p + 1)))
         OR ucast (m (p + 3))
   | CBO_LITTLE_ENDIAN \<Rightarrow> be_long m p)"

definition GET_BE_LONGLONG :: "arch \<Rightarrow> mem \<Rightarrow> nat \<Rightarrow> u_64" where
  "GET_BE_LONGLONG a m p = (case native_byteorder a of
     CBO_BIG_ENDIAN \<Rightarrow>
       if can_unaligned_access a then load_longlong a m p else be_longlong m p
   | CBO_LITTLE_ENDIAN \<Rightarrow> be_longlong m p)"

definition SET_LE_WORD :: "arch \<Rightarrow> mem \<Rightarrow> nat \<Rightarrow> u_16 \<Rightarrow> mem" where
  "SET_LE_WORD a m p v = (case native_byteorder a of
     CBO_BIG_ENDIAN \<Rightarrow> put_le_word m p v
   | CBO_LITTLE_ENDIAN \<Rightarrow>
       if can_unaligned_access a then save_word a m p v
       else if p mod 2 \<noteq> 0 then put_le_word m p v else save_word a m p v)"

definition SET_LE_LONG :: "arch \<Rightarrow> mem \<Rightarrow> nat \<Rightarrow> u_32 \<Rightarrow> mem" where
  "SET_LE_LONG a m p v = (case native_byteorder a of
     CBO_BIG_ENDIAN \<Rightarrow> put_le_long m p v
   | CBO_LITTLE_ENDIAN \<Rightarrow>
       if can_unaligned_access a then save_long a m p v
       else if p mod 4 = 0 then save_long a m p v
       else if p mod 4 = 2 then
         (let m = save_word a m p (ucast (v AND 0xFFFF))
          in save_word a m (p + 2) (ucast (drop_bit 16 v AND 0xFFFF)))
       else
         (let m = m(p := byte_of 0 v);
              m = save_word a m (p + 1) (ucast (drop_bit 8 v AND 0xFFFF))
          in m(p + 3 := byte_of 24 v)))"

definition SET_LE_LONGLONG :: "arch \<Rightarrow> mem \<Rightarrow> nat \<Rightarrow> u_64 \<Rightarrow> mem" where
  "SET_LE_LONGLONG a m p v = (case native_byteorder a of
     CBO_BIG_ENDIAN \<Rightarrow> put_le_longlong m p v
   | CBO_LITTLE_ENDIAN \<Rightarrow>
       if can_unaligned_access a then save_longlong a m p v else put_le_longlong m p v)"

definition SET_BE_WORD :: "arch \<Rightarrow> mem \<Rightarrow> nat \<Rightarrow> u_16 \<Rightarrow> mem" where
  "SET_BE_WORD a m p v = (case native_byteorder a of
     CBO_BIG_ENDIAN \<Rightarrow>
       if can_unaligned_access a then save_word a m p v
       else if p mod 2 \<noteq> 0 then put_be_word m p v else save_word a m p v
   | CBO_LITTLE_ENDIAN \<Rightarrow> put_be_word m p v)"

definition SET_BE_LONG :: "arch \<Rightarrow> mem \<Rightarrow> nat \<Rightarrow> u_32 \<Rightarrow> mem" where
  "SET_BE_LONG a m p v = (case native_byteorder a of
     CBO_BIG_ENDIAN \<Rightarrow>
       if can_unaligned_access a then save_long a m p v
       else if p mod 4 = 0 then save_long a m p v
       else if p mod 4 = 2 then
         (let m = save_word a m p (ucast (drop_bit 16 v AND 0xFFFF))
          in save_word a m (p + 2) (ucast (v AND 0xFFFF)))
       else
         (let m = m(p := byte_of 24 v);
              m = save_word a m (p + 1) (ucast (drop_bit 8 v AND 0xFFFF))
          in m(p + 3 := byte_of 0 v))
   | CBO_LITTLE_ENDIAN \<Rightarrow> put_be_long m p v)"

definition SET_BE_LONGLONG :: "arch \<Rightarrow> mem \<Rightarrow> nat \<Rightarrow> u_64 \<Rightarrow> mem" where
  "SET_BE_LONGLONG a m p v = (case native_byteorder a of
     CBO_BIG_ENDIAN \<Rightarrow>
       if can_unaligned_access a then save_longlong a m p v else put_be_longlong m p v
   | CBO_LITTLE_ENDIAN \<Rightarrow> put_be_longlong m p v)"

lemmas native_defs = load_word_def load_long_def load_longlong_def
  save_word_def save_long_def save_longlong_def

text \<open>Every variant computes the byte-wise one.\<close>

lemma ucast_byte_in_half:
  "ucast (push_bit 8 (ucast b) :: u_16) = (push_bit 8 (ucast b) :: u_32)"
  "ucast (ucast b :: u_16) = (ucast b :: u_32)"
  for b :: u_8
  by (rule bit_word_eqI; auto simp: bit_push_bit_iff bit_ucast_iff dest: bit_imp_le_length)+

lemma join_halves:
  fixes b0 b1 b2 b3 :: u_8
  shows "ucast (ucast b0 OR push_bit 8 (ucast b1) :: u_16)
      OR push_bit 16 (ucast (ucast b2 OR push_bit 8 (ucast b3) :: u_16))
    = (ucast b0 OR push_bit 8 (ucast b1) OR push_bit 16 (ucast b2) OR push_bit 24 (ucast b3) :: u_32)"
    (is "?a = ?c")
  and "ucast b0 OR push_bit 8 (ucast (ucast b1 OR push_bit 8 (ucast b2) :: u_16))
      OR push_bit 24 (ucast b3)
    = (ucast b0 OR push_bit 8 (ucast b1) OR push_bit 16 (ucast b2) OR push_bit 24 (ucast b3) :: u_32)"
    (is "?b = ?c")
  and "push_bit 16 (ucast (push_bit 8 (ucast b0) OR ucast b1 :: u_16))
      OR ucast (push_bit 8 (ucast b2) OR ucast b3 :: u_16)
    = (push_bit 24 (ucast b0) OR push_bit 16 (ucast b1) OR push_bit 8 (ucast b2) OR ucast b3 :: u_32)"
    (is "?d = ?f")
  and "push_bit 24 (ucast b0) OR push_bit 8 (ucast (push_bit 8 (ucast b1) OR ucast b2 :: u_16))
      OR ucast b3
    = (push_bit 24 (ucast b0) OR push_bit 16 (ucast b1) OR push_bit 8 (ucast b2) OR ucast b3 :: u_32)"
    (is "?e = ?f")
  by (simp_all only: unsigned_or_eq ucast_byte_in_half push_bit_or push_bit_push_bit or.assoc
      numeral_plus_numeral add_num_simps)

lemmas next_byte = add.assoc one_add_one numeral_plus_one add_num_simps

lemma le_long_halves:
  "ucast (le_word m p) OR push_bit 16 (ucast (le_word m (p + 2))) = le_long m p"
  "ucast (m p) OR push_bit 8 (ucast (le_word m (p + 1))) OR push_bit 24 (ucast (m (p + 3)))
    = le_long m p"
  by (simp_all only: le_word_def le_long_def next_byte join_halves)

lemma be_long_halves:
  "push_bit 16 (ucast (be_word m p)) OR ucast (be_word m (p + 2)) = be_long m p"
  "push_bit 24 (ucast (m p)) OR push_bit 8 (ucast (be_word m (p + 1))) OR ucast (m (p + 3))
    = be_long m p"
  by (simp_all only: be_word_def be_long_def next_byte join_halves)

lemma byte_of_drop: "byte_of k (drop_bit j v) = byte_of (j + k) v"
  for v :: "'a::len word"
  by (rule bit_word_eqI) (simp add: bit_byte_of bit_drop_bit_eq add.assoc)

lemma byte_of_half: "k + 8 \<le> 16 \<Longrightarrow> byte_of k (ucast (v AND 0xFFFF) :: u_16) = byte_of k v"
  for v :: u_32
proof -
  assume k: "k + 8 \<le> 16"
  have m: "(0xFFFF :: u_32) = mask 16" by (simp add: mask_eq_exp_minus_1)
  show ?thesis
    by (rule bit_word_eqI)
      (use k in \<open>auto simp: m bit_byte_of bit_ucast_iff bit_and_iff bit_mask_iff\<close>)
qed

lemma byte_of_quarter:
  "byte_of 0 (ucast (v AND 0xFFFF) :: u_16) = byte_of 0 v"
  "byte_of 8 (ucast (v AND 0xFFFF) :: u_16) = byte_of 8 v"
  for v :: u_32
  by (simp_all add: byte_of_half)

lemmas byte_offsets = byte_of_quarter byte_of_drop next_byte add_0_right numeral_plus_numeral

lemma put_le_long_halves:
  "put_le_word (put_le_word m p (ucast (v AND 0xFFFF))) (p + 2) (ucast (drop_bit 16 v AND 0xFFFF))
    = put_le_long m p v"
  "(put_le_word (m(p := byte_of 0 v)) (p + 1) (ucast (drop_bit 8 v AND 0xFFFF)))(p + 3 := byte_of 24 v)
    = put_le_long m p v"
  by (simp_all only: put_le_word_def put_le_long_def byte_offsets)

lemma put_be_long_halves:
  "put_be_word (put_be_word m p (ucast (drop_bit 16 v AND 0xFFFF))) (p + 2) (ucast (v AND 0xFFFF))
    = put_be_long m p v"
  "(put_be_word (m(p := byte_of 24 v)) (p + 1) (ucast (drop_bit 8 v AND 0xFFFF)))(p + 3 := byte_of 0 v)
    = put_be_long m p v"
  by (simp_all only: put_be_word_def put_be_long_def byte_offsets)

named_theorems access_eq \<comment> \<open>every access macro against its byte-wise form\<close>

lemmas by_host = CByteOrder.case if_cancel Let_def
  le_long_halves be_long_halves put_le_long_halves put_be_long_halves

lemma GET_LE_eq [access_eq]:
  "GET_LE_WORD a m p = le_word m p"
  "GET_LE_LONG a m p = le_long m p"
  "GET_LE_LONGLONG a m p = le_longlong m p"
  unfolding GET_LE_WORD_def GET_LE_LONG_def GET_LE_LONGLONG_def native_defs
  by (cases "native_byteorder a"; simp only: by_host)+

lemma GET_BE_eq [access_eq]:
  "GET_BE_WORD a m p = be_word m p"
  "GET_BE_LONG a m p = be_long m p"
  "GET_BE_LONGLONG a m p = be_longlong m p"
  unfolding GET_BE_WORD_def GET_BE_LONG_def GET_BE_LONGLONG_def native_defs
  by (cases "native_byteorder a"; simp only: by_host)+

lemma SET_LE_eq [access_eq]:
  "SET_LE_WORD a m p v = put_le_word m p v"
  "SET_LE_LONG a m p w = put_le_long m p w"
  "SET_LE_LONGLONG a m p x = put_le_longlong m p x"
  unfolding SET_LE_WORD_def SET_LE_LONG_def SET_LE_LONGLONG_def native_defs
  by (cases "native_byteorder a"; simp only: by_host)+

lemma SET_BE_eq [access_eq]:
  "SET_BE_WORD a m p v = put_be_word m p v"
  "SET_BE_LONG a m p w = put_be_long m p w"
  "SET_BE_LONGLONG a m p x = put_be_longlong m p x"
  unfolding SET_BE_WORD_def SET_BE_LONG_def SET_BE_LONGLONG_def native_defs
  by (cases "native_byteorder a"; simp only: by_host)+

section \<open>Shifting, masking and merging\<close>

text \<open>
  A C shift by the width of the type or more is undefined, as is a failed assertion's
  continuation; both are \<open>None\<close>.
\<close>

definition c_shl :: "'a::len word \<Rightarrow> nat \<Rightarrow> 'a word option" where
  "c_shl x n = (if n < LENGTH('a) then Some (push_bit n x) else None)"

definition c_shr :: "'a::len word \<Rightarrow> nat \<Rightarrow> 'a word option" where
  "c_shr x n = (if n < LENGTH('a) then Some (drop_bit n x) else None)"

definition c_assert :: "bool \<Rightarrow> unit option" where
  "c_assert b = (if b then Some () else None)"

datatype shift_direction = SHIFT_LEFT | SHIFT_RIGHT

definition ALL_64_BITS :: u_64 where
  "ALL_64_BITS = NOT 0"

definition ALL_32_BITS :: u_32 where
  "ALL_32_BITS = NOT 0"

subsection \<open>With a native 64-bit integer\<close>

definition shift_integer :: "u_64 \<Rightarrow> nat \<Rightarrow> shift_direction \<Rightarrow> u_64 option" where
  "shift_integer v bits dir = do {
     c_assert (bits \<le> 64);
     (case dir of SHIFT_LEFT \<Rightarrow> c_shl v bits | SHIFT_RIGHT \<Rightarrow> c_shr v bits)
   }"

definition mask_integer :: "u_64 \<Rightarrow> nat \<Rightarrow> nat \<Rightarrow> bool \<Rightarrow> u_64 option" where
  "mask_integer v bits shift extend_msb = (let msb = bits + shift - 1 in do {
     c_assert (bits \<le> 64);
     c_assert (shift \<le> 64);
     c_assert (bits + shift \<le> 64);
     ones \<leftarrow> c_shr ALL_64_BITS (64 - bits);
     mask \<leftarrow> c_shl ones shift;
     let v = v AND mask;
     (if extend_msb \<and> 0 < bits then do {
        test \<leftarrow> c_shl 1 msb;
        (if v AND test \<noteq> 0 then do {
           high \<leftarrow> c_shl ALL_64_BITS msb;
           Some (v OR high)
         } else Some v)
      } else Some v)
   })"

definition merge_integer :: "u_64 \<Rightarrow> u_64 \<Rightarrow> nat \<Rightarrow> nat \<Rightarrow> u_64 option" where
  "merge_integer dest src bits shift = do {
     c_assert (bits \<le> 64);
     c_assert (shift \<le> 64);
     c_assert (bits + shift \<le> 64);
     ones \<leftarrow> c_shr ALL_64_BITS (64 - bits);
     mask \<leftarrow> c_shl ones shift;
     Some ((dest AND NOT mask) OR (src AND mask))
   }"

subsection \<open>Without one: two 32-bit halves\<close>

record u64_pair =
  hi :: u_32
  lo :: u_32

definition shift_integer_32 :: "u64_pair \<Rightarrow> nat \<Rightarrow> shift_direction \<Rightarrow> u64_pair option" where
  "shift_integer_32 v bits dir = do {
     c_assert (bits \<le> 64);
     (case dir of
        SHIFT_LEFT \<Rightarrow>
          if 32 \<le> bits then do {
            h \<leftarrow> c_shl (lo v) (bits - 32);
            Some (v\<lparr>hi := h, lo := 0\<rparr>)
          } else do {
            a \<leftarrow> c_shl (hi v) bits;
            b \<leftarrow> c_shr (lo v) (32 - bits);
            l \<leftarrow> c_shl (lo v) bits;
            Some (v\<lparr>hi := a OR b, lo := l\<rparr>)
          }
      | SHIFT_RIGHT \<Rightarrow>
          if 32 \<le> bits then do {
            l \<leftarrow> c_shr (hi v) (bits - 32);
            Some (v\<lparr>lo := l, hi := 0\<rparr>)
          } else do {
            a \<leftarrow> c_shr (lo v) bits;
            b \<leftarrow> c_shl (hi v) (32 - bits);
            h \<leftarrow> c_shr (hi v) bits;
            Some (v\<lparr>lo := a OR b, hi := h\<rparr>)
          })
   }"

definition field_mask_32 :: "nat \<Rightarrow> nat \<Rightarrow> u64_pair option" where
  "field_mask_32 bits shift = do {
     mask \<leftarrow> (if 32 < bits then do {
                 h \<leftarrow> c_shr ALL_32_BITS (64 - bits);
                 Some \<lparr>hi = h, lo = ALL_32_BITS\<rparr>
               } else do {
                 l \<leftarrow> c_shr ALL_32_BITS (32 - bits);
                 Some \<lparr>hi = 0, lo = l\<rparr>
               });
     (if 0 < shift then shift_integer_32 mask shift SHIFT_LEFT else Some mask)
   }"

definition mask_integer_32 :: "u64_pair \<Rightarrow> nat \<Rightarrow> nat \<Rightarrow> bool \<Rightarrow> u64_pair option" where
  "mask_integer_32 v bits shift extend_msb = (let msb = bits + shift - 1 in do {
     c_assert (bits \<le> 64);
     c_assert (shift \<le> 64);
     c_assert (bits + shift \<le> 64);
     mask \<leftarrow> field_mask_32 bits shift;
     let v = v\<lparr>hi := hi v AND hi mask, lo := lo v AND lo mask\<rparr>;
     (if extend_msb \<and> 0 < bits then
        (if 32 \<le> msb then do {
           test \<leftarrow> c_shl 1 (msb - 32);
           (if hi v AND test \<noteq> 0 then do {
              high \<leftarrow> c_shl ALL_32_BITS (msb - 32);
              Some (v\<lparr>hi := hi v OR high\<rparr>)
            } else Some v)
         } else do {
           test \<leftarrow> c_shl 1 msb;
           (if lo v AND test \<noteq> 0 then do {
              high \<leftarrow> c_shl ALL_32_BITS msb;
              Some (v\<lparr>hi := ALL_32_BITS, lo := lo v OR high\<rparr>)
            } else Some v)
         })
      else Some v)
   })"

definition merge_integer_32 :: "u64_pair \<Rightarrow> u64_pair \<Rightarrow> nat \<Rightarrow> nat \<Rightarrow> u64_pair option" where
  "merge_integer_32 dest src bits shift = do {
     c_assert (bits \<le> 64);
     c_assert (shift \<le> 64);
     c_assert (bits + shift \<le> 64);
     mask \<leftarrow> field_mask_32 bits shift;
     Some (dest\<lparr>hi := (hi dest AND NOT (hi mask)) OR (hi src AND hi mask),
                lo := (lo dest AND NOT (lo mask)) OR (lo src AND lo mask)\<rparr>)
   }"

section \<open>Integers and their textual form\<close>

record IntValue =
  int_value :: u_64
  int_sign :: bool
  int_string :: "string option"

text \<open>\<open>integer2string\<close>: the digits are stacked lowest first, then written back.\<close>

function dec_stack :: "u_64 \<Rightarrow> nat list" where
  "dec_stack val = (if 0 < val then unat (val mod 10) # dec_stack (val div 10) else [])"
  by pat_completeness auto
termination
  by (relation "measure unat") (auto simp: word_less_nat_alt unat_div word_neq_0_conv)

declare dec_stack.simps [simp del]

definition integer2string :: "IntValue \<Rightarrow> nat \<times> IntValue" where
  "integer2string iv = (case int_string iv of
     None \<Rightarrow> (0, iv)
   | Some _ \<Rightarrow>
       (let neg = int_sign iv \<and> sint (int_value iv) < 0;
            val = (if neg then - int_value iv else int_value iv);
            stack = dec_stack val;
            str = (if neg then ''-'' else [])
                  @ (if stack = [] then ''0'' else map digit_char (rev stack))
        in ((if neg then 1 else 0) + length stack, iv\<lparr>int_string := Some str\<rparr>)))"

text \<open>\<open>string2integer\<close>: one loop per base; each stops at the first character that is not a digit.\<close>

definition hex_digit_value :: "char \<Rightarrow> int" where
  "hex_digit_value c =
     (if isdigit c then int (char_nat c) - int (char_nat CHR ''0'')
      else if isupper c then int (char_nat c) - (int (char_nat CHR ''A'') - 10)
      else int (char_nat c) - (int (char_nat CHR ''a'') - 10))"

fun hex_loop :: "u_64 \<Rightarrow> string \<Rightarrow> u_64" where
  "hex_loop iv s = (case s of
     [] \<Rightarrow> iv
   | c # s' \<Rightarrow> if isxdigit c
       then hex_loop (push_bit 4 iv OR (word_of_int (hex_digit_value c) AND 0xF)) s' else iv)"

fun bin_loop :: "u_64 \<Rightarrow> string \<Rightarrow> u_64" where
  "bin_loop iv s = (case s of
     [] \<Rightarrow> iv
   | c # s' \<Rightarrow> if c = CHR ''0'' \<or> c = CHR ''1''
       then bin_loop (push_bit 1 iv
              OR (word_of_int (int (char_nat c) - int (char_nat CHR ''0'')) AND 0x1)) s' else iv)"

fun oct_loop :: "u_64 \<Rightarrow> string \<Rightarrow> u_64" where
  "oct_loop iv s = (case s of
     [] \<Rightarrow> iv
   | c # s' \<Rightarrow> if isdigit c \<and> c \<noteq> CHR ''8'' \<and> c \<noteq> CHR ''9''
       then oct_loop (push_bit 3 iv
              OR (word_of_int (int (char_nat c) - int (char_nat CHR ''0'')) AND 0x7)) s' else iv)"

fun dec_loop :: "u_64 \<Rightarrow> string \<Rightarrow> u_64" where
  "dec_loop iv s = (case s of
     [] \<Rightarrow> iv
   | c # s' \<Rightarrow> if isdigit c
       then dec_loop (10 * iv + word_of_int (int (char_nat c) - int (char_nat CHR ''0''))) s'
       else iv)"

declare hex_loop.simps [simp del] bin_loop.simps [simp del]
  oct_loop.simps [simp del] dec_loop.simps [simp del]

text \<open>The prefix both readers of numbers skip: white space, one sign, white space.\<close>

definition skip_sign :: "string \<Rightarrow> bool \<times> string" where
  "skip_sign s = (let s = dropWhile isspace s in
     if peek s = CHR ''-'' then (True, dropWhile isspace (tl s))
     else if peek s = CHR ''+'' then (False, dropWhile isspace (tl s))
     else (False, s))"

definition string2integer :: "IntValue \<Rightarrow> string \<Rightarrow> IntValue" where
  "string2integer v str = (let
     (sign, s) = skip_sign str;
     iv = (if peek s = CHR ''0'' then
             (let s = tl s in
              if peek s = CHR ''x'' then hex_loop 0 (tl s)
              else if peek s = CHR ''b'' then bin_loop 0 (tl s)
              else oct_loop 0 s)
           else dec_loop 0 s)
     in v\<lparr>int_sign := sign, int_value := (if sign then - iv else iv)\<rparr>)"

definition string_is_integer :: "string \<Rightarrow> nat" where
  "string_is_integer str = (let
     (_, s) = skip_sign str;
     (s, rval) =
       (if peek s = CHR ''0'' then
          (let s = tl s in
           if peek s = CHR ''x'' then (dropWhile isxdigit (tl s), 16)
           else if peek s = CHR ''b'' then (dropWhile (\<lambda>c. c = CHR ''0'' \<or> c = CHR ''1'') (tl s), 2)
           else (dropWhile (\<lambda>c. isdigit c \<and> c \<noteq> CHR ''8'' \<and> c \<noteq> CHR ''9'') s, 8))
        else (dropWhile isdigit s, 10));
     s = dropWhile isspace s
     in if peek s \<noteq> NUL then 0 else rval)"

subsection \<open>The same on two 32-bit halves\<close>

record IntValue_32 =
  value_32 :: u64_pair
  sign_32 :: bool
  string_32 :: "string option"

definition CDIV :: "u_32 list" where
  "CDIV = [0x00000000, 0x19999999, 0x33333333, 0x4CCCCCCC, 0x66666666,
           0x80000000, 0x99999999, 0xB3333333, 0xCCCCCCCC, 0xE6666666]"

definition CMOD :: "u_32 list" where
  "CMOD = [0, 6, 2, 8, 4, 0, 6, 2, 8, 4]"

text \<open>One pass of the loop of \<open>integer2string\<close>: divide the pair by ten.\<close>

definition div10_step :: "u64_pair \<Rightarrow> u64_pair \<times> u_32" where
  "div10_step v = (let
     umod = hi v mod 10; hval = hi v div 10;
     lmod = lo v mod 10; lval = lo v div 10;
     lmod = lmod + CMOD ! unat umod;
     tval = CDIV ! unat umod;
     (lmod, tval) = (if 10 \<le> lmod then (lmod - 10, tval + 1) else (lmod, tval));
     lval = lval + tval;
     hval = (if lval < tval then hval + 1 else hval)
     in (\<lparr>hi = hval, lo = lval\<rparr>, lmod))"

fun lo_stack :: "nat \<Rightarrow> u_32 \<Rightarrow> nat list" where
  "lo_stack 0 _ = []"
| "lo_stack (Suc n) l = (if 0 < l then unat (l mod 10) # lo_stack n (l div 10) else [])"

fun dec_stack_32 :: "nat \<Rightarrow> u64_pair \<Rightarrow> nat list" where
  "dec_stack_32 0 _ = []"
| "dec_stack_32 (Suc n) v =
     (if 0 < hi v then (case div10_step v of (v', d) \<Rightarrow> unat d # dec_stack_32 n v')
      else lo_stack (Suc n) (lo v))"

definition negate_32 :: "u64_pair \<Rightarrow> u64_pair" where
  "negate_32 v = (let
     hval = (if lo v = 0 then hi v - 1 else hi v); lval = lo v - 1
     in \<lparr>hi = NOT hval, lo = NOT lval\<rparr>)"

definition integer2string_32 :: "IntValue_32 \<Rightarrow> nat \<times> IntValue_32" where
  "integer2string_32 iv = (case string_32 iv of
     None \<Rightarrow> (0, iv)
   | Some _ \<Rightarrow>
       (let neg = sign_32 iv \<and> sint (hi (value_32 iv)) < 0;
            val = (if neg then negate_32 (value_32 iv) else value_32 iv);
            stack = dec_stack_32 20 val;
            str = (if neg then ''-'' else [])
                  @ (if stack = [] then ''0'' else map digit_char (rev stack))
        in ((if neg then 1 else 0) + length stack, iv\<lparr>string_32 := Some str\<rparr>)))"

text \<open>The loops of \<open>string2integer\<close> shift or multiply the pair.\<close>

definition shift_in :: "nat \<Rightarrow> u64_pair \<Rightarrow> int \<Rightarrow> u64_pair" where
  "shift_in k v d = \<lparr>hi = push_bit k (hi v) OR drop_bit (32 - k) (lo v),
                     lo = push_bit k (lo v) OR (word_of_int d AND mask k)\<rparr>"

fun hex_loop_32 :: "u64_pair \<Rightarrow> string \<Rightarrow> u64_pair" where
  "hex_loop_32 v s = (case s of
     [] \<Rightarrow> v
   | c # s' \<Rightarrow> if isxdigit c then hex_loop_32 (shift_in 4 v (hex_digit_value c)) s' else v)"

fun bin_loop_32 :: "u64_pair \<Rightarrow> string \<Rightarrow> u64_pair" where
  "bin_loop_32 v s = (case s of
     [] \<Rightarrow> v
   | c # s' \<Rightarrow> if c = CHR ''0'' \<or> c = CHR ''1''
       then bin_loop_32 (shift_in 1 v (int (char_nat c) - int (char_nat CHR ''0''))) s' else v)"

fun oct_loop_32 :: "u64_pair \<Rightarrow> string \<Rightarrow> u64_pair" where
  "oct_loop_32 v s = (case s of
     [] \<Rightarrow> v
   | c # s' \<Rightarrow> if isdigit c \<and> c \<noteq> CHR ''8'' \<and> c \<noteq> CHR ''9''
       then oct_loop_32 (shift_in 3 v (int (char_nat c) - int (char_nat CHR ''0''))) s' else v)"

definition dec_step_32 :: "u64_pair \<Rightarrow> u_32 \<Rightarrow> u64_pair" where
  "dec_step_32 v d = (let
     hval = (push_bit 3 (hi v) OR drop_bit 29 (lo v)) + (push_bit 1 (hi v) OR drop_bit 31 (lo v));
     lval = push_bit 1 (lo v);
     temp = lval + push_bit 2 lval;
     hval = (if temp < lval then hval + 1 else hval);
     lval = temp + d;
     hval = (if lval < temp then hval + 1 else hval)
     in \<lparr>hi = hval, lo = lval\<rparr>)"

fun dec_loop_32 :: "u64_pair \<Rightarrow> string \<Rightarrow> u64_pair" where
  "dec_loop_32 v s = (case s of
     [] \<Rightarrow> v
   | c # s' \<Rightarrow> if isdigit c
       then dec_loop_32 (dec_step_32 v (word_of_int (int (char_nat c) - int (char_nat CHR ''0'')))) s'
       else v)"

text \<open>The first, cheaper loop runs while ten times the low half still fits.\<close>

fun dec_head_32 :: "u_32 \<Rightarrow> string \<Rightarrow> u64_pair" where
  "dec_head_32 lval s = (case s of
     [] \<Rightarrow> \<lparr>hi = 0, lo = lval\<rparr>
   | c # s' \<Rightarrow> if \<not> isdigit c then \<lparr>hi = 0, lo = lval\<rparr>
       else (let lval = 10 * lval + word_of_int (int (char_nat c) - int (char_nat CHR ''0''))
             in if lval < 429496729 then dec_head_32 lval s'
                else dec_loop_32 \<lparr>hi = 0, lo = lval\<rparr> s'))"

declare hex_loop_32.simps [simp del] bin_loop_32.simps [simp del]
  oct_loop_32.simps [simp del] dec_loop_32.simps [simp del] dec_head_32.simps [simp del]

definition string2integer_32 :: "IntValue_32 \<Rightarrow> string \<Rightarrow> IntValue_32" where
  "string2integer_32 v str = (let
     (sign, s) = skip_sign str;
     zero = \<lparr>hi = 0, lo = 0\<rparr>;
     iv = (if peek s = CHR ''0'' then
             (let s = tl s in
              if peek s = CHR ''x'' then hex_loop_32 zero (tl s)
              else if peek s = CHR ''b'' then bin_loop_32 zero (tl s)
              else oct_loop_32 zero s)
           else dec_head_32 0 s)
     in v\<lparr>sign_32 := sign,
          value_32 := (if sign \<and> (hi iv \<noteq> 0 \<or> lo iv \<noteq> 0) then negate_32 iv else iv)\<rparr>)"

section \<open>Fetching and storing\<close>

definition extend :: "bool \<Rightarrow> 'a::len word \<Rightarrow> 'b::len word" where
  "extend sign w = (if sign then scast w else ucast w)"

definition fetch_raw :: "arch \<Rightarrow> nat \<Rightarrow> bool \<Rightarrow> CByteOrder \<Rightarrow> mem \<Rightarrow> nat \<Rightarrow> u_64 \<Rightarrow> u_64" where
  "fetch_raw a sz sign bo m p old =
     (if sz = 1 then extend sign (m p)
      else if sz = 2 then
        extend sign (if bo = CBO_BIG_ENDIAN then GET_BE_WORD a m p else GET_LE_WORD a m p)
      else if sz = 4 then
        extend sign (if bo = CBO_BIG_ENDIAN then GET_BE_LONG a m p else GET_LE_LONG a m p)
      else if sz = 8 then
        (if bo = CBO_BIG_ENDIAN then GET_BE_LONGLONG a m p else GET_LE_LONGLONG a m p)
      else old)"

definition fetch_integer ::
  "arch \<Rightarrow> nat \<Rightarrow> bool \<Rightarrow> nat \<Rightarrow> nat \<Rightarrow> CByteOrder \<Rightarrow> mem \<Rightarrow> nat \<Rightarrow> IntValue \<Rightarrow> IntValue option" where
  "fetch_integer a sz sign bits shift bo m p iv = do {
     let v = fetch_raw a sz sign bo m p (int_value iv);
     v \<leftarrow> (if 0 < bits then do {
             v \<leftarrow> (if 0 < shift then shift_integer v shift SHIFT_RIGHT else Some v);
             mask_integer v bits 0 sign
           } else Some v);
     Some (snd (integer2string (iv\<lparr>int_value := v, int_sign := sign\<rparr>)))
   }"

definition store_raw :: "arch \<Rightarrow> nat \<Rightarrow> CByteOrder \<Rightarrow> mem \<Rightarrow> nat \<Rightarrow> u_64 \<Rightarrow> mem" where
  "store_raw a sz bo m p v =
     (if sz = 1 then m(p := ucast v)
      else if sz = 2 then
        (if bo = CBO_BIG_ENDIAN then SET_BE_WORD a m p (ucast v) else SET_LE_WORD a m p (ucast v))
      else if sz = 4 then
        (if bo = CBO_BIG_ENDIAN then SET_BE_LONG a m p (ucast v) else SET_LE_LONG a m p (ucast v))
      else if sz = 8 then
        (if bo = CBO_BIG_ENDIAN then SET_BE_LONGLONG a m p v else SET_LE_LONGLONG a m p v)
      else m)"

text \<open>
  The temporary \<open>orig\<close> starts uninitialised in C; \<open>garbage\<close> is what it holds. It is
  overwritten by the fetch for every size that is stored.
\<close>

definition store_integer ::
  "u_64 \<Rightarrow> arch \<Rightarrow> nat \<Rightarrow> nat \<Rightarrow> nat \<Rightarrow> CByteOrder \<Rightarrow> mem \<Rightarrow> nat \<Rightarrow> IntValue \<Rightarrow> mem option" where
  "store_integer garbage a sz bits shift bo m p iv = do {
     let iv = (case int_string iv of None \<Rightarrow> iv | Some s \<Rightarrow> string2integer iv s);
     v \<leftarrow> (if 0 < bits then do {
             orig \<leftarrow> fetch_integer a sz False 0 0 bo m p
                      \<lparr>int_value = garbage, int_sign = False, int_string = None\<rparr>;
             v \<leftarrow> (if 0 < shift then shift_integer (int_value iv) shift SHIFT_LEFT
                   else Some (int_value iv));
             merge_integer (int_value orig) v bits shift
           } else Some (int_value iv));
     Some (store_raw a sz bo m p v)
   }"

subsection \<open>Without a native 64-bit integer\<close>

definition fetch_raw_32 ::
  "arch \<Rightarrow> nat \<Rightarrow> bool \<Rightarrow> CByteOrder \<Rightarrow> mem \<Rightarrow> nat \<Rightarrow> u64_pair \<Rightarrow> u64_pair" where
  "fetch_raw_32 a sz sign bo m p old =
     (let widen = (\<lambda>l. \<lparr>hi = (if sign \<and> sint l < 0 then -1 else 0), lo = l\<rparr>)
      in if sz = 1 then widen (extend sign (m p))
      else if sz = 2 then
        widen (extend sign (if bo = CBO_BIG_ENDIAN then GET_BE_WORD a m p else GET_LE_WORD a m p))
      else if sz = 4 then
        widen (if bo = CBO_BIG_ENDIAN then GET_BE_LONG a m p else GET_LE_LONG a m p)
      else if sz = 8 then
        (if bo = CBO_BIG_ENDIAN
         then \<lparr>hi = GET_BE_LONG a m p, lo = GET_BE_LONG a m (p + 4)\<rparr>
         else \<lparr>hi = GET_LE_LONG a m (p + 4), lo = GET_LE_LONG a m p\<rparr>)
      else old)"

definition fetch_integer_32 ::
  "arch \<Rightarrow> nat \<Rightarrow> bool \<Rightarrow> nat \<Rightarrow> nat \<Rightarrow> CByteOrder \<Rightarrow> mem \<Rightarrow> nat \<Rightarrow> IntValue_32 \<Rightarrow> IntValue_32 option" where
  "fetch_integer_32 a sz sign bits shift bo m p iv = do {
     let v = fetch_raw_32 a sz sign bo m p (value_32 iv);
     v \<leftarrow> (if 0 < bits then do {
             v \<leftarrow> (if 0 < shift then shift_integer_32 v shift SHIFT_RIGHT else Some v);
             mask_integer_32 v bits 0 sign
           } else Some v);
     Some (snd (integer2string_32 (iv\<lparr>value_32 := v, sign_32 := sign\<rparr>)))
   }"

definition store_raw_32 :: "arch \<Rightarrow> nat \<Rightarrow> CByteOrder \<Rightarrow> mem \<Rightarrow> nat \<Rightarrow> u64_pair \<Rightarrow> mem" where
  "store_raw_32 a sz bo m p v =
     (if sz = 1 then m(p := ucast (lo v))
      else if sz = 2 then
        (if bo = CBO_BIG_ENDIAN then SET_BE_WORD a m p (ucast (lo v))
         else SET_LE_WORD a m p (ucast (lo v)))
      else if sz = 4 then
        (if bo = CBO_BIG_ENDIAN then SET_BE_LONG a m p (lo v) else SET_LE_LONG a m p (lo v))
      else if sz = 8 then
        (if bo = CBO_BIG_ENDIAN
         then SET_BE_LONG a (SET_BE_LONG a m p (hi v)) (p + 4) (lo v)
         else SET_LE_LONG a (SET_LE_LONG a m p (lo v)) (p + 4) (hi v))
      else m)"

definition store_integer_32 ::
  "u64_pair \<Rightarrow> arch \<Rightarrow> nat \<Rightarrow> nat \<Rightarrow> nat \<Rightarrow> CByteOrder \<Rightarrow> mem \<Rightarrow> nat \<Rightarrow> IntValue_32 \<Rightarrow> mem option" where
  "store_integer_32 garbage a sz bits shift bo m p iv = do {
     let iv = (case string_32 iv of None \<Rightarrow> iv | Some s \<Rightarrow> string2integer_32 iv s);
     v \<leftarrow> (if 0 < bits then do {
             orig \<leftarrow> fetch_integer_32 a sz False 0 0 bo m p
                      \<lparr>value_32 = garbage, sign_32 = False, string_32 = None\<rparr>;
             v \<leftarrow> (if 0 < shift then shift_integer_32 (value_32 iv) shift SHIFT_LEFT
                   else Some (value_32 iv));
             merge_integer_32 (value_32 orig) v bits shift
           } else Some (value_32 iv));
     Some (store_raw_32 a sz bo m p v)
   }"

end
