(* ===== verification/Byte_Order_Facts.thy ===== *)
theory Byte_Order_Facts
  imports Byte_Order
begin

text \<open>
  Facts on \<open>Byte_Order\<close>: closed forms of the bit operations, what a store leaves
  unchanged, the round trips of integers and bit-fields, the equivalence of the 32-bit
  code with the 64-bit code, and the round trip of the textual form.
\<close>

section \<open>Closed forms of the bit operations\<close>

lemma bit_ALL [simp]: "bit ALL_64_BITS n \<longleftrightarrow> n < 64" "bit ALL_32_BITS n \<longleftrightarrow> n < 32"
  by (simp_all add: ALL_64_BITS_def ALL_32_BITS_def bit_not_iff)

lemma ones_shr:
  "0 < b \<Longrightarrow> b \<le> 64 \<Longrightarrow> c_shr ALL_64_BITS (64 - b) = Some (mask b)"
  "0 < b \<Longrightarrow> b \<le> 32 \<Longrightarrow> c_shr ALL_32_BITS (32 - b) = Some (mask b)"
  by (auto simp: c_shr_def intro!: bit_word_eqI simp: bit_drop_bit_eq bit_mask_iff)

lemma c_assert_simps [simp]: "b \<Longrightarrow> c_assert b = Some ()" "\<not> b \<Longrightarrow> c_assert b = None"
  by (simp_all add: c_assert_def)

lemma and_single_bit: "v AND push_bit k 1 \<noteq> 0 \<longleftrightarrow> bit v k" for v :: "'a::len word"
  by (simp add: push_bit_of_1 and_exp_eq_0_iff_not_bit)

lemma mask_integer_eq:
  assumes "0 < b" and "b \<le> 64"
  shows "mask_integer v b 0 sign = Some (if sign then signed_take_bit (b - 1) v else take_bit b v)"
proof -
  have m: "v AND mask b = take_bit b v" by (simp add: take_bit_eq_mask)
  have s: "take_bit b v OR push_bit (b - 1) ALL_64_BITS = signed_take_bit (b - 1) v"
    if "bit v (b - 1)"
    using that assms
    by (intro bit_word_eqI) (auto simp: bit_or_iff bit_take_bit_iff bit_push_bit_iff
        bit_signed_take_bit_iff min_def le_less not_less dest: bit_imp_le_length)
  have u: "take_bit b v = signed_take_bit (b - 1) v" if "\<not> bit v (b - 1)"
    using that assms
    by (intro bit_word_eqI) (auto simp: bit_take_bit_iff bit_signed_take_bit_iff min_def
        le_less not_less less_Suc_eq_le)
  have "b - Suc 0 < 64" using assms by arith
  with assms show ?thesis
    by (simp add: mask_integer_def Let_def ones_shr c_shl_def m and_exp_eq_0_iff_not_bit
        bit_take_bit_iff s [simplified] u [simplified])
qed

lemma merge_integer_eq:
  assumes "0 < b" and "b + s \<le> 64"
  shows "merge_integer d v b s
    = Some ((d AND NOT (push_bit s (mask b))) OR (v AND push_bit s (mask b)))"
  using assms by (simp add: merge_integer_def ones_shr c_shl_def)

lemma bit_field_mask:
  "bit (push_bit s (mask b) :: u_64) n \<longleftrightarrow> s \<le> n \<and> n < s + b \<and> n < 64"
  by (auto simp: bit_push_bit_iff bit_mask_iff)

lemma bit_merge:
  "bit ((d AND NOT (push_bit s (mask b))) OR (v AND push_bit s (mask b)) :: u_64) n
    \<longleftrightarrow> (if s \<le> n \<and> n < s + b then bit v n else bit d n)"
  by (auto simp: bit_or_iff bit_and_iff bit_not_iff bit_field_mask dest: bit_imp_le_length)

lemma shift_integer_eq:
  "s < 64 \<Longrightarrow> shift_integer v s SHIFT_LEFT = Some (push_bit s v)"
  "s < 64 \<Longrightarrow> shift_integer v s SHIFT_RIGHT = Some (drop_bit s v)"
  by (simp_all add: shift_integer_def c_shl_def c_shr_def)

section \<open>Whole units\<close>

abbreviation unit_size :: "nat \<Rightarrow> bool" where
  "unit_size sz \<equiv> sz \<in> {1, 2, 4, 8}"

lemma fetch_store_raw:
  "unit_size sz \<Longrightarrow> fetch_raw a sz False bo (store_raw a sz bo m p v) p old = take_bit (8 * sz) v"
  by (cases bo)
    (auto simp: fetch_raw_def store_raw_def access_eq extend_def intro!: bit_word_eqI
      simp: bit_ucast_iff bit_take_bit_iff dest: bit_imp_le_length)

lemma bit_extend:
  "bit (extend sign w :: 'b::len word) n \<longleftrightarrow> n < LENGTH('b) \<and> (if sign then bit w (min n (LENGTH('a) - 1)) else bit w n)"
  for w :: "'a::len word"
proof (cases "n < LENGTH('a) - 1")
  case True
  then have "n < LENGTH('a)" by arith
  with True show ?thesis by (simp add: extend_def bit_ucast_iff bit_signed_iff min_def)
next
  case False
  then have "n < LENGTH('a) \<Longrightarrow> n = LENGTH('a) - 1" by arith
  with False show ?thesis
    by (auto simp: extend_def bit_ucast_iff bit_signed_iff min_def not_less
        dest: bit_imp_le_length)
qed

lemma extend_signed:
  "extend True w = (signed_take_bit (LENGTH('a) - 1) (extend False w) :: u_64)"
  for w :: "'a::len word"
  by (rule bit_word_eqI) (simp add: bit_extend bit_signed_take_bit_iff min.commute, auto simp: min_def)

lemma signed_take_bit_63: "signed_take_bit 63 w = w" for w :: u_64
proof (rule bit_word_eqI)
  fix n assume "n < LENGTH(64)"
  then have "min 63 n = n" by simp
  then show "bit (signed_take_bit 63 w) n = bit w n"
    using \<open>n < LENGTH(64)\<close> by (simp only: bit_signed_take_bit_iff) simp
qed

lemma fetch_raw_signed:
  "unit_size sz \<Longrightarrow> fetch_raw a sz True bo m p old
     = signed_take_bit (8 * sz - 1) (fetch_raw a sz False bo m p old)"
  by (auto simp: fetch_raw_def extend_signed signed_take_bit_63)

lemma bit_fetch_raw_sign:
  assumes "unit_size sz" and "n < 8 * sz"
  shows "bit (fetch_raw a sz sign bo m p old) n = bit (fetch_raw a sz False bo m p old) n"
proof (cases sign)
  case True
  with assms have "min (8 * sz - 1) n = n" and "n < 64" by auto
  with True assms(1) show ?thesis by (simp only: fetch_raw_signed bit_signed_take_bit_iff) simp
qed simp

lemma put_bytes_frame [frame]:
  "q < p \<or> p + 2 \<le> q \<Longrightarrow> put_le_word m p w q = m q"
  "q < p \<or> p + 2 \<le> q \<Longrightarrow> put_be_word m p w q = m q"
  "q < p \<or> p + 4 \<le> q \<Longrightarrow> put_le_long m p l q = m q"
  "q < p \<or> p + 4 \<le> q \<Longrightarrow> put_be_long m p l q = m q"
  "q < p \<or> p + 8 \<le> q \<Longrightarrow> put_le_longlong m p x q = m q"
  "q < p \<or> p + 8 \<le> q \<Longrightarrow> put_be_longlong m p x q = m q"
  by (auto simp: put_le_word_def put_be_word_def put_le_long_def put_be_long_def
      put_le_longlong_def put_be_longlong_def)

lemma store_raw_frame [frame]:
  "q < p \<or> p + sz \<le> q \<Longrightarrow> store_raw a sz bo m p v q = m q"
  by (auto simp: store_raw_def access_eq frame)

section \<open>Integers and bit-fields in memory\<close>

text \<open>
  The value a bit-field of \<open>b\<close> bits at \<open>shift\<close> denotes inside a unit.
\<close>

definition field_value :: "bool \<Rightarrow> nat \<Rightarrow> nat \<Rightarrow> u_64 \<Rightarrow> u_64" where
  "field_value sign b shift w =
     (if sign then signed_take_bit (b - 1) (drop_bit shift w) else take_bit b (drop_bit shift w))"

lemma field_value_cong:
  assumes "0 < b" and "\<And>n. shift \<le> n \<Longrightarrow> n < shift + b \<Longrightarrow> bit v n = bit w n"
  shows "field_value sign b shift v = field_value sign b shift w"
proof -
  have "take_bit b (drop_bit shift v) = take_bit b (drop_bit shift w)"
    by (rule bit_word_eqI) (auto simp: bit_take_bit_iff bit_drop_bit_eq assms(2))
  moreover from this assms(1)
  have "signed_take_bit (b - 1) (drop_bit shift v) = signed_take_bit (b - 1) (drop_bit shift w)"
    by (simp add: signed_take_bit_eq_iff_take_bit_eq)
  ultimately show ?thesis by (simp add: field_value_def)
qed

text \<open>A bit-field that lies inside its unit: what the layout engines promise.\<close>

definition in_unit :: "nat \<Rightarrow> nat \<Rightarrow> nat \<Rightarrow> bool" where
  "in_unit sz b shift \<longleftrightarrow> unit_size sz \<and> 0 < b \<and> b + shift \<le> 8 * sz"

lemma in_unitD:
  assumes "in_unit sz b shift"
  shows "unit_size sz" "0 < b" "b + shift \<le> 64" "shift < 64" "b \<le> 64" "b + shift \<le> 8 * sz"
  using assms by (auto simp: in_unit_def)

lemma fetch_integer_whole:
  "int_string iv = None \<Longrightarrow> fetch_integer a sz sign 0 shift bo m p iv
     = Some (iv\<lparr>int_value := fetch_raw a sz sign bo m p (int_value iv), int_sign := sign\<rparr>)"
  by (simp add: fetch_integer_def integer2string_def)

lemma fetch_integer_field:
  assumes "int_string iv = None" and "in_unit sz b shift"
  shows "fetch_integer a sz sign b shift bo m p iv
    = Some (iv\<lparr>int_value := field_value sign b shift (fetch_raw a sz False bo m p 0),
               int_sign := sign\<rparr>)"
proof -
  note u = in_unitD [OF assms(2)]
  let ?v = "fetch_raw a sz sign bo m p (int_value iv)"
  have "(if 0 < shift then shift_integer ?v shift SHIFT_RIGHT else Some ?v) = Some (drop_bit shift ?v)"
    using u by (simp add: shift_integer_eq)
  moreover have "field_value sign b shift ?v = field_value sign b shift (fetch_raw a sz False bo m p 0)"
  proof (rule field_value_cong [OF u(2)])
    fix n assume "n < shift + b"
    with u have "n < 8 * sz" by simp
    with u(1) have "bit ?v n = bit (fetch_raw a sz False bo m p (int_value iv)) n"
      by (rule bit_fetch_raw_sign)
    also have "fetch_raw a sz False bo m p (int_value iv) = fetch_raw a sz False bo m p 0"
      using u(1) by (auto simp: fetch_raw_def)
    finally show "bit ?v n = bit (fetch_raw a sz False bo m p 0) n" .
  qed
  ultimately show ?thesis
    using u assms(1)
    by (simp add: fetch_integer_def mask_integer_eq integer2string_def field_value_def)
qed

lemma fetch_raw_unit: "unit_size sz \<Longrightarrow> fetch_raw a sz sign bo m p old = fetch_raw a sz sign bo m p 0"
  by (auto simp: fetch_raw_def)

definition stored_field :: "nat \<Rightarrow> nat \<Rightarrow> u_64 \<Rightarrow> u_64 \<Rightarrow> u_64" where
  "stored_field b shift v w =
     (w AND NOT (push_bit shift (mask b))) OR (push_bit shift v AND push_bit shift (mask b))"

lemma bit_stored_field:
  "bit (stored_field b shift v w) n
    \<longleftrightarrow> (if shift \<le> n \<and> n < shift + b then n < 64 \<and> bit v (n - shift) else bit w n)"
  by (auto simp: stored_field_def bit_merge bit_push_bit_iff)

lemma store_integer_field:
  assumes "int_string iv = None" and "in_unit sz b shift"
  shows "store_integer g a sz b shift bo m p iv
    = Some (store_raw a sz bo m p
        (stored_field b shift (int_value iv) (fetch_raw a sz False bo m p 0)))"
proof -
  note u = in_unitD [OF assms(2)]
  have "(if 0 < shift then shift_integer (int_value iv) shift SHIFT_LEFT else Some (int_value iv))
      = Some (push_bit shift (int_value iv))"
    using u by (simp add: shift_integer_eq)
  then show ?thesis
    using u assms(1)
    by (simp add: store_integer_def fetch_integer_whole merge_integer_eq stored_field_def
        fetch_raw_unit [OF u(1), of a False bo m p g])
qed

lemma bit_unit_after_store:
  assumes "int_string iv = None" and "in_unit sz b shift"
    and "store_integer g a sz b shift bo m p iv = Some m'"
  shows "bit (fetch_raw a sz False bo m' p 0) n \<longleftrightarrow>
    (if shift \<le> n \<and> n < shift + b then bit (int_value iv) (n - shift)
     else n < 8 * sz \<and> bit (fetch_raw a sz False bo m p 0) n)"
proof -
  note u = in_unitD [OF assms(2)]
  from assms have "m' = store_raw a sz bo m p
      (stored_field b shift (int_value iv) (fetch_raw a sz False bo m p 0))"
    by (simp add: store_integer_field)
  then have "fetch_raw a sz False bo m' p 0
      = take_bit (8 * sz) (stored_field b shift (int_value iv) (fetch_raw a sz False bo m p 0))"
    using u(1) by (simp add: fetch_store_raw)
  then show ?thesis using u(3,6) by (auto simp: bit_take_bit_iff bit_stored_field)
qed

section \<open>Decimal digits\<close>

text \<open>The decimal digits of a number, lowest first: what the digit stacks hold.\<close>

fun digits10 :: "nat \<Rightarrow> nat list" where
  "digits10 n = (if n = 0 then [] else n mod 10 # digits10 (n div 10))"

declare digits10.simps [simp del]

lemma digits10_0 [simp]: "digits10 0 = []"
  by (simp add: digits10.simps)

lemma digits10_pos: "0 < n \<Longrightarrow> digits10 n = n mod 10 # digits10 (n div 10)"
  by (simp add: digits10.simps [of n])

lemma dec_stack_digits: "dec_stack v = digits10 (unat v)"
proof (induction v rule: dec_stack.induct)
  case (1 v)
  show ?case
  proof (cases "0 < v")
    case True
    then have "0 < unat v" by (simp add: word_less_nat_alt)
    with True 1 show ?thesis
      by (simp add: dec_stack.simps [of v] digits10_pos unat_mod unat_div)
  next
    case False
    then have "v = 0" by (simp add: word_gt_0)
    then show ?thesis by (simp add: dec_stack.simps [of 0])
  qed
qed

lemma digits10_less: "d \<in> set (digits10 n) \<Longrightarrow> d < 10"
proof (induction n rule: digits10.induct)
  case (1 n)
  then show ?case by (cases "n = 0") (auto simp: digits10_pos)
qed

lemma digits10_last: "0 < n \<Longrightarrow> digits10 n \<noteq> [] \<and> last (digits10 n) \<noteq> 0"
proof (induction n rule: digits10.induct)
  case (1 n)
  then show ?case by (cases "n div 10 = 0") (auto simp: digits10_pos)
qed

lemma digits10_length: "n < 10 ^ k \<Longrightarrow> length (digits10 n) \<le> k"
proof (induction k arbitrary: n)
  case 0
  then show ?case by simp
next
  case (Suc k)
  then show ?case by (cases "n = 0") (simp_all add: digits10_pos less_mult_imp_div_less mult.commute)
qed

lemma unat_64_less: "unat (v :: u_64) < 10 ^ 20"
  using unsigned_less [of v, where 'a = nat] by (rule less_le_trans) simp

section \<open>The textual form\<close>

lemma dec_loop_digits:
  assumes "\<forall>d \<in> set ds. d < 10"
  shows "dec_loop iv (map digit_char ds) = fold (\<lambda>d a. 10 * a + of_nat d) ds iv"
  using assms
proof (induction ds arbitrary: iv)
  case (Cons d ds)
  then have "char_nat (digit_char d) = 48 + d" by simp
  moreover have "char_nat CHR ''0'' = 48" by (simp add: char_nat_def)
  ultimately show ?case
    using Cons by (simp add: dec_loop.simps [of _ "_ # _"])
qed (simp add: dec_loop.simps)

lemma fold_digits10: "fold (\<lambda>d a. 10 * a + of_nat d) (rev (digits10 n)) 0 = (of_nat n :: u_64)"
proof (induction n rule: digits10.induct)
  case (1 n)
  show ?case
  proof (cases "n = 0")
    case False
    have "10 * of_nat (n div 10) + of_nat (n mod 10) = (of_nat (10 * (n div 10) + n mod 10) :: u_64)"
      by (simp only: of_nat_add of_nat_mult of_nat_numeral)
    also have "\<dots> = of_nat n" by simp
    finally show ?thesis using False 1 by (simp add: digits10_pos)
  qed simp
qed

definition number_string :: "nat \<Rightarrow> string" where
  "number_string n = (if n = 0 then ''0'' else map digit_char (rev (digits10 n)))"

lemma digits10_eq_Nil: "digits10 n = [] \<longleftrightarrow> n = 0"
  using digits10_last [of n] by auto

lemma number_string_digits: "n \<noteq> 0 \<Longrightarrow> number_string n = map digit_char (rev (digits10 n))"
  by (simp add: number_string_def)

lemma number_string_isdigit: "c \<in> set (number_string n) \<Longrightarrow> isdigit c"
  by (auto simp: number_string_def isdigit_def char_nat_def dest: digits10_less split: if_splits)
    (auto simp: digit_char_def dest: digits10_less)

lemma number_string_nonempty: "number_string n \<noteq> []"
  using digits10_last [of n] by (auto simp: number_string_def)

lemma peek_number_string: "isdigit (peek (number_string n))"
  using number_string_isdigit [of "peek (number_string n)" n] number_string_nonempty [of n]
  by (cases "number_string n") auto

lemma digit_char_eq_0: "d < 10 \<Longrightarrow> digit_char d = CHR ''0'' \<Longrightarrow> d = 0"
  using char_nat_digit_char [of d] by (simp add: char_nat_def)

lemma peek_nonzero:
  assumes "n \<noteq> 0"
  shows "peek (number_string n) \<noteq> CHR ''0''"
proof -
  obtain ds d where ds: "digits10 n = ds @ [d]" and d: "d \<noteq> 0"
    using digits10_last [of n] assms by (metis append_butlast_last_id neq0_conv)
  then have "d < 10" using digits10_less [of d n] by simp
  with d digit_char_eq_0 show ?thesis by (auto simp: number_string_digits assms ds)
qed

text \<open>The three ways an integer prints; both readers skip exactly the sign.\<close>

lemma digit_not_sign: "isdigit c \<Longrightarrow> c \<noteq> CHR ''-'' \<and> c \<noteq> CHR ''+''"
  by (auto simp: isdigit_def char_nat_def)

lemma skip_sign_number:
  "skip_sign (number_string n) = (False, number_string n)"
  "skip_sign (''-'' @ number_string n) = (True, number_string n)"
proof -
  have d: "dropWhile isspace (number_string n) = number_string n"
    using peek_number_string [of n] isspace_not_digit by (intro dropWhile_peek) blast
  show "skip_sign (number_string n) = (False, number_string n)"
    using digit_not_sign [OF peek_number_string [of n]] by (simp add: skip_sign_def d Let_def)
  have "\<not> isspace CHR ''-''" by (simp add: ctype_defs)
  then show "skip_sign (''-'' @ number_string n) = (True, number_string n)"
    by (simp add: skip_sign_def d Let_def)
qed

lemma string2integer_number:
  "string2integer v (number_string n) = v\<lparr>int_sign := False, int_value := of_nat n\<rparr>"
  "string2integer v (''-'' @ number_string n) = v\<lparr>int_sign := True, int_value := - of_nat n\<rparr>"
proof -
  have "(if peek (number_string n) = CHR ''0'' then
             (let s = tl (number_string n) in
              if peek s = CHR ''x'' then hex_loop 0 (tl s)
              else if peek s = CHR ''b'' then bin_loop 0 (tl s)
              else oct_loop 0 s)
           else dec_loop 0 (number_string n)) = (of_nat n :: u_64)"
  proof (cases "n = 0")
    case True
    then show ?thesis by (simp add: number_string_def oct_loop.simps)
  next
    case False
    with peek_nonzero show ?thesis
      by (simp add: number_string_digits dec_loop_digits digits10_less fold_digits10)
  qed
  then show "string2integer v (number_string n) = v\<lparr>int_sign := False, int_value := of_nat n\<rparr>"
    and "string2integer v (''-'' @ number_string n) = v\<lparr>int_sign := True, int_value := - of_nat n\<rparr>"
    unfolding string2integer_def skip_sign_number by (simp_all add: Let_def)
qed

lemma string_is_integer_number:
  "string_is_integer (number_string n) = (if n = 0 then 8 else 10)"
  "string_is_integer (''-'' @ number_string n) = (if n = 0 then 8 else 10)"
proof -
  have d: "dropWhile isdigit (number_string n) = []"
    using number_string_isdigit by simp
  show "string_is_integer (number_string n) = (if n = 0 then 8 else 10)"
    and "string_is_integer (''-'' @ number_string n) = (if n = 0 then 8 else 10)"
    unfolding string_is_integer_def skip_sign_number
    using peek_nonzero [of n] by (cases "n = 0"; simp add: d Let_def number_string_def [of 0])+
qed

lemma integer2string_number:
  assumes "int_string iv = Some b"
  shows "int_string (snd (integer2string iv)) = Some
    (if int_sign iv \<and> sint (int_value iv) < 0
     then ''-'' @ number_string (unat (- int_value iv)) else number_string (unat (int_value iv)))"
  using assms by (auto simp: digits10_eq_Nil integer2string_def Let_def dec_stack_digits number_string_def)

text \<open>
  C34 Number strings round-trip: the string \<open>integer2string\<close> writes for a value, signed or
  unsigned, is recognised as an integer by \<open>string_is_integer\<close> and read back by
  \<open>string2integer\<close> as the same 64-bit value, with the sign flag set exactly for a negative one.
\<close>
theorem string_roundtrip:
  assumes "int_string iv = Some b"
  shows "\<exists>s. int_string (snd (integer2string iv)) = Some s
    \<and> string_is_integer s \<noteq> 0
    \<and> int_value (string2integer v s) = int_value iv
    \<and> int_sign (string2integer v s) = (int_sign iv \<and> sint (int_value iv) < 0)"
  unfolding integer2string_number [OF assms]
  by (auto simp: string2integer_number string_is_integer_number
      simp del: append_Cons append_Nil)

text \<open>
  The digit stack of \<open>integer2string\<close> never outgrows its 20 entries, so the
  largest 64-bit value is printed without overrunning the array.
\<close>
theorem digits_fit: "length (dec_stack v) \<le> 20"
  unfolding dec_stack_digits by (rule digits10_length [OF unat_64_less])

section \<open>The access interface\<close>

text \<open>
  What the rest of the library relies on when it reads and writes units of \<open>n\<close> bytes:
  a write is read back up to the width of the unit, touches those bytes only, and a read
  looks at those bytes only.
\<close>

locale unit_access =
  fixes n :: nat
    and get :: "mem \<Rightarrow> nat \<Rightarrow> u_64"
    and put :: "mem \<Rightarrow> nat \<Rightarrow> u_64 \<Rightarrow> mem"
  assumes get_put: "get (put m p v) p = take_bit (8 * n) v"
    and put_frame: "q < p \<or> p + n \<le> q \<Longrightarrow> put m p v q = m q"
    and get_local: "(\<And>k. k < n \<Longrightarrow> m (p + k) = m' (p + k)) \<Longrightarrow> get m p = get m' p"
begin

lemma get_put_disjoint:
  assumes "q + n \<le> p \<or> p + n \<le> q"
  shows "get (put m p v) q = get m q"
proof (rule get_local)
  fix k assume "k < n"
  with assms have "q + k < p \<or> p + n \<le> q + k" by auto
  then show "put m p v (q + k) = m (q + k)" by (rule put_frame)
qed

end

lemma byte_local:
  "(\<And>k. k < 2 \<Longrightarrow> m (p + k) = m' (p + k)) \<Longrightarrow> le_word m p = le_word m' p \<and> be_word m p = be_word m' p"
  "(\<And>k. k < 4 \<Longrightarrow> m (p + k) = m' (p + k)) \<Longrightarrow> le_long m p = le_long m' p \<and> be_long m p = be_long m' p"
  "(\<And>k. k < 8 \<Longrightarrow> m (p + k) = m' (p + k)) \<Longrightarrow>
    le_longlong m p = le_longlong m' p \<and> be_longlong m p = be_longlong m' p"
proof -
  have at: "m p = m' p \<and> m (p + 1) = m' (p + 1)" if "\<And>k. k < n \<Longrightarrow> m (p + k) = m' (p + k)" and "1 < n" for n
    using that(1) [of 0] that(1) [of 1] that(2) by simp
  show "le_word m p = le_word m' p \<and> be_word m p = be_word m' p"
    if "\<And>k. k < 2 \<Longrightarrow> m (p + k) = m' (p + k)"
    using at [OF that] by (simp add: le_word_def be_word_def)
  show "le_long m p = le_long m' p \<and> be_long m p = be_long m' p"
    if "\<And>k. k < 4 \<Longrightarrow> m (p + k) = m' (p + k)"
    using at [OF that] that [of 2] that [of 3] by (simp add: le_long_def be_long_def)
  show "le_longlong m p = le_longlong m' p \<and> be_longlong m p = be_longlong m' p"
    if "\<And>k. k < 8 \<Longrightarrow> m (p + k) = m' (p + k)"
    using at [OF that] that [of 2] that [of 3] that [of 4] that [of 5] that [of 6] that [of 7]
    by (simp add: le_longlong_def be_longlong_def)
qed

lemma fetch_raw_local:
  assumes "\<And>k. k < sz \<Longrightarrow> m (p + k) = m' (p + k)"
  shows "fetch_raw a sz sign bo m p old = fetch_raw a sz sign bo m' p old"
  using byte_local [of m p m'] assms assms [of 0] by (auto simp: fetch_raw_def access_eq)

interpretation bytes1: unit_access 1 "\<lambda>m p. fetch_raw a 1 False bo m p 0" "store_raw a 1 bo" for a bo
  by unfold_locales (rule fetch_store_raw, simp, erule store_raw_frame, erule fetch_raw_local)

interpretation bytes2: unit_access 2 "\<lambda>m p. fetch_raw a 2 False bo m p 0" "store_raw a 2 bo" for a bo
  by unfold_locales (rule fetch_store_raw, simp, erule store_raw_frame, erule fetch_raw_local)

interpretation bytes4: unit_access 4 "\<lambda>m p. fetch_raw a 4 False bo m p 0" "store_raw a 4 bo" for a bo
  by unfold_locales (rule fetch_store_raw, simp, erule store_raw_frame, erule fetch_raw_local)

interpretation bytes8: unit_access 8 "\<lambda>m p. fetch_raw a 8 False bo m p 0" "store_raw a 8 bo" for a bo
  by unfold_locales (rule fetch_store_raw, simp, erule store_raw_frame, erule fetch_raw_local)

lemma raw_units_independent:
  "unit_size sz \<Longrightarrow> q + sz \<le> p \<or> p + sz \<le> q \<Longrightarrow>
   fetch_raw a sz False bo (store_raw a sz bo m p v) q 0 = fetch_raw a sz False bo m q 0"
  using bytes1.get_put_disjoint bytes2.get_put_disjoint bytes4.get_put_disjoint
    bytes8.get_put_disjoint
  by auto

section \<open>Properties\<close>

text \<open>
  C31 Storing a whole 1, 2, 4 or 8 byte integer and fetching it again, in either byte
  order and on any host, gives the low bytes of the value, sign-extended when the fetch is signed.
\<close>
theorem whole_roundtrip:
  assumes "unit_size sz" and "int_string iv = None" and "int_string jv = None"
  shows "\<exists>m'. store_integer g a sz 0 s bo m p iv = Some m'
    \<and> fetch_integer a sz sign 0 t bo m' p jv
      = Some (jv\<lparr>int_value := (if sign then signed_take_bit (8 * sz - 1) (int_value iv)
                                  else take_bit (8 * sz) (int_value iv)),
                 int_sign := sign\<rparr>)"
proof -
  let ?v = "int_value iv"
  have s: "signed_take_bit (8 * sz - 1) (take_bit (8 * sz) ?v) = signed_take_bit (8 * sz - 1) ?v"
    using assms(1) by (auto simp: signed_take_bit_eq_iff_take_bit_eq)
  have "fetch_raw a sz sign bo (store_raw a sz bo m p ?v) p (int_value jv)
    = (if sign then signed_take_bit (8 * sz - 1) ?v else take_bit (8 * sz) ?v)"
    using assms(1) fetch_raw_signed [OF assms(1)] s by (cases sign) (simp_all add: fetch_store_raw)
  then show ?thesis
    using assms by (simp add: store_integer_def fetch_integer_whole)
qed

text \<open>
  C6 A bit-field stored into its unit is fetched back as its low \<open>b\<close> bits, sign-extended
  when the fetch is signed, whatever the unit held before.
\<close>
theorem field_roundtrip:
  assumes "in_unit sz b s" and "int_string iv = None" and "int_string jv = None"
  shows "\<exists>m'. store_integer g a sz b s bo m p iv = Some m'
    \<and> fetch_integer a sz sign b s bo m' p jv
      = Some (jv\<lparr>int_value := (if sign then signed_take_bit (b - 1) (int_value iv)
                                  else take_bit b (int_value iv)),
                 int_sign := sign\<rparr>)"
proof -
  note u = in_unitD [OF assms(1)]
  obtain m' where m': "store_integer g a sz b s bo m p iv = Some m'"
    using assms store_integer_field by blast
  have "field_value sign b s (fetch_raw a sz False bo m' p 0)
      = field_value sign b s (push_bit s (int_value iv))"
    by (rule field_value_cong [OF u(2)])
      (use bit_unit_after_store [OF assms(2,1) m'] u in \<open>auto simp: bit_push_bit_iff\<close>)
  moreover have "field_value sign b s (push_bit s (int_value iv)) = field_value sign b 0 (int_value iv)"
  proof -
    have "take_bit b (drop_bit s (push_bit s (int_value iv))) = take_bit b (int_value iv)"
      by (rule bit_word_eqI) (use u in \<open>auto simp: bit_take_bit_iff bit_drop_bit_eq bit_push_bit_iff\<close>)
    then show ?thesis
      using u(2) by (simp add: field_value_def signed_take_bit_eq_iff_take_bit_eq)
  qed
  ultimately show ?thesis
    using m' by (simp add: fetch_integer_field [OF assms(3,1)] field_value_def)
qed

text \<open>
  C30 Two bit-fields with disjoint bit ranges in the same unit do not disturb each
  other: storing one leaves what is fetched for the other unchanged.
\<close>
theorem fields_independent:
  assumes "in_unit sz b s" and "in_unit sz b' s'" and "s + b \<le> s' \<or> s' + b' \<le> s"
    and "int_string iv = None" and "int_string jv = None"
    and "store_integer g a sz b s bo m p iv = Some m'"
  shows "fetch_integer a sz sign b' s' bo m' p jv = fetch_integer a sz sign b' s' bo m p jv"
proof -
  note u = in_unitD [OF assms(2)]
  have "field_value sign b' s' (fetch_raw a sz False bo m' p 0)
      = field_value sign b' s' (fetch_raw a sz False bo m p 0)"
    by (rule field_value_cong [OF u(2)])
      (use bit_unit_after_store [OF assms(4,1,6)] assms(3) u in auto)
  then show ?thesis by (simp add: fetch_integer_field [OF assms(5,2)])
qed

text \<open>
  C32 A store, of a whole integer or of a bit-field, in any mode and from a number or a
  string, changes no byte outside the \<open>sz\<close> bytes at its address.
\<close>
theorem store_local:
  assumes "store_integer g a sz b s bo m p iv = Some m'" and "q < p \<or> p + sz \<le> q"
  shows "m' q = m q"
  using assms by (auto simp: store_integer_def Let_def store_raw_frame
      split: bind_splits option.splits if_splits)

text \<open>
  C33 The byte image does not depend on the host: big- and little-endian hosts, with or
  without misaligned loads, fetch and store the same integers at every address.
\<close>
theorem host_independent:
  "fetch_integer a sz sign b s bo m p iv = fetch_integer a' sz sign b s bo m p iv
   \<and> store_integer g a sz b s bo m p iv = store_integer g a' sz b s bo m p iv"
proof -
  have "fetch_raw a = fetch_raw a'" and "store_raw a = store_raw a'"
    by (simp_all add: fun_eq_iff fetch_raw_def store_raw_def access_eq)
  then have f: "fetch_integer a = fetch_integer a'" and s: "store_raw a = store_raw a'"
    by (simp_all add: fun_eq_iff fetch_integer_def)
  show ?thesis unfolding store_integer_def f s by simp
qed

section \<open>Witnesses\<close>

definition x86 :: arch where
  "x86 = \<lparr>native_byteorder = CBO_LITTLE_ENDIAN, can_unaligned_access = True\<rparr>"

definition number :: "u_64 \<Rightarrow> IntValue" where
  "number v = \<lparr>int_value = v, int_sign = False, int_string = None\<rparr>"

theorem string_roundtrip_witness:
  "\<exists>s. int_string (snd (integer2string \<lparr>int_value = -42, int_sign = True, int_string = Some []\<rparr>)) = Some s
    \<and> string_is_integer s \<noteq> 0
    \<and> int_value (string2integer (number 0) s) = -42
    \<and> int_sign (string2integer (number 0) s)"
  using string_roundtrip [of "\<lparr>int_value = -42, int_sign = True, int_string = Some []\<rparr>" "[]" "number 0"]
  by simp

theorem whole_roundtrip_witness:
  "\<exists>m'. store_integer 0 x86 2 0 0 CBO_BIG_ENDIAN (\<lambda>_. 7) 100 (number 0x12345) = Some m'
    \<and> fetch_integer x86 2 True 0 0 CBO_BIG_ENDIAN m' 100 (number 0)
      = Some ((number 0)\<lparr>int_value := 0x2345, int_sign := True\<rparr>)"
  using whole_roundtrip [of 2 "number 0x12345" "number 0" 0 x86 0 CBO_BIG_ENDIAN "\<lambda>_. 7" 100 True 0]
  by (simp add: number_def)

theorem field_roundtrip_witness:
  "\<exists>m'. store_integer 0 x86 4 5 3 CBO_LITTLE_ENDIAN (\<lambda>_. 7) 100 (number 0x3F) = Some m'
    \<and> fetch_integer x86 4 True 5 3 CBO_LITTLE_ENDIAN m' 100 (number 0)
      = Some ((number 0)\<lparr>int_value := -1, int_sign := True\<rparr>)"
  using field_roundtrip [of 4 5 3 "number 0x3F" "number 0" 0 x86 CBO_LITTLE_ENDIAN "\<lambda>_. 7" 100 True]
  by (simp add: number_def in_unit_def)

theorem fields_independent_witness:
  "\<exists>m'. store_integer 0 x86 4 5 3 CBO_LITTLE_ENDIAN (\<lambda>_. 7) 100 (number 0x3F) = Some m'
    \<and> fetch_integer x86 4 False 2 8 CBO_LITTLE_ENDIAN m' 100 (number 0)
      = fetch_integer x86 4 False 2 8 CBO_LITTLE_ENDIAN (\<lambda>_. 7) 100 (number 0)"
proof -
  have u: "in_unit 4 5 3" "in_unit 4 2 8" and n: "\<And>v. int_string (number v) = None"
    by (simp_all add: in_unit_def number_def)
  obtain m' where m': "store_integer 0 x86 4 5 3 CBO_LITTLE_ENDIAN (\<lambda>_. 7) 100 (number 0x3F) = Some m'"
    using store_integer_field [OF n u(1)] by blast
  with fields_independent [OF u _ n n m', of False "0"] show ?thesis by auto
qed

theorem store_local_witness:
  "\<exists>m'. store_integer 0 x86 4 5 3 CBO_LITTLE_ENDIAN (\<lambda>_. 7) 100 (number 0x3F) = Some m' \<and> m' 104 = 7"
proof -
  have "in_unit 4 5 3" and "int_string (number 0x3F) = None"
    by (simp_all add: in_unit_def number_def)
  then obtain m' where m': "store_integer 0 x86 4 5 3 CBO_LITTLE_ENDIAN (\<lambda>_. 7) 100 (number 0x3F) = Some m'"
    using store_integer_field by blast
  with store_local [OF m', of 104] show ?thesis by simp
qed

end
