(* ===== verification/Byte_Order_32.thy ===== *)
theory Byte_Order_32
  imports Byte_Order_Facts
begin

text \<open>
  The code for hosts without a 64-bit integer keeps a value as two 32-bit halves. Here
  each such routine is shown to compute the same as the routine for 64-bit hosts.
\<close>

definition join :: "u64_pair \<Rightarrow> u_64" where
  "join v = push_bit 32 (ucast (hi v)) OR ucast (lo v)"

definition IntValue_of_32 :: "IntValue_32 \<Rightarrow> IntValue" where
  "IntValue_of_32 iv =
     \<lparr>int_value = join (value_32 iv), int_sign = sign_32 iv, int_string = string_32 iv\<rparr>"

lemma bit_join: "bit (join v) n \<longleftrightarrow> (if n < 32 then bit (lo v) n else bit (hi v) (n - 32))"
  by (auto simp: join_def bit_or_iff bit_push_bit_iff bit_ucast_iff dest: bit_imp_le_length)

lemma bit32_less: "bit w n \<Longrightarrow> n < 32" for w :: u_32
  by (drule bit_imp_le_length) simp

lemma join_eqI:
  assumes "\<And>n. n < 32 \<Longrightarrow> bit (lo v) n = bit w n" and "\<And>n. n < 32 \<Longrightarrow> bit (hi v) n = bit w (n + 32)"
  shows "join v = w"
proof (rule bit_word_eqI)
  fix n :: nat assume "n < LENGTH(64)"
  then show "bit (join v) n = bit w n"
    using assms(1) [of n] assms(2) [of "n - 32"] by (simp add: bit_join)
qed

lemma pair_update [simp]: "v\<lparr>hi := a, lo := b\<rparr> = \<lparr>hi = a, lo = b\<rparr>"
  "v\<lparr>lo := b, hi := a\<rparr> = \<lparr>hi = a, lo = b\<rparr>"
  by (cases v, simp)+

lemma unat_widen: "unat (ucast w :: u_64) = unat w" for w :: u_32
  using unsigned_less [of w, where 'a = nat] by (simp add: unsigned_ucast_eq take_bit_eq_mod)

lemma unat_join: "unat (join v) = unat (hi v) * 2 ^ 32 + unat (lo v)"
proof -
  have "join v = push_bit 32 (ucast (hi v)) + ucast (lo v)"
    unfolding join_def
    by (rule disjunctive_add [symmetric]) (auto simp: bit_push_bit_iff bit_ucast_iff dest: bit32_less)
  moreover have "unat (hi v) < 2 ^ 32" "unat (lo v) < 2 ^ 32"
    using unsigned_less [of "hi v"] unsigned_less [of "lo v"] by simp_all
  ultimately show ?thesis
    by (simp add: unat_word_ariths push_bit_eq_mult unat_widen)
qed

lemma join_zero: "join \<lparr>hi = 0, lo = 0\<rparr> = 0"
  by (simp add: join_def)

section \<open>Shift, mask, merge\<close>

lemma shift_integer_32:
  assumes "0 < b"
  shows "map_option join (shift_integer_32 v b dir) = shift_integer (join v) b dir"
proof (cases "b < 64")
  case False
  with assms show ?thesis
    by (cases dir; cases "b = 64") (simp_all add: shift_integer_32_def shift_integer_def c_shl_def c_shr_def)
next
  case True
  have b: "32 - b < 32" "b - 32 < 32" using assms True by auto
  show ?thesis
  proof (cases dir)
    case SHIFT_LEFT
    have "join \<lparr>hi = push_bit (b - 32) (lo v), lo = 0\<rparr> = push_bit b (join v)" if "32 \<le> b"
      by (rule join_eqI)
        (use that True in \<open>auto simp: bit_push_bit_iff bit_join dest: bit32_less\<close>)
    moreover have "join \<lparr>hi = push_bit b (hi v) OR drop_bit (32 - b) (lo v), lo = push_bit b (lo v)\<rparr>
        = push_bit b (join v)" if "b < 32"
      by (rule join_eqI)
        (use that assms in \<open>auto simp: bit_or_iff bit_drop_bit_eq bit_push_bit_iff bit_join
          add.commute dest: bit32_less\<close>)
    ultimately show ?thesis
      using SHIFT_LEFT True b by (auto simp: shift_integer_32_def shift_integer_eq c_shl_def c_shr_def)
  next
    case SHIFT_RIGHT
    have "join \<lparr>hi = 0, lo = drop_bit (b - 32) (hi v)\<rparr> = drop_bit b (join v)" if "32 \<le> b"
      by (rule join_eqI)
        (use that True in \<open>auto simp: bit_drop_bit_eq bit_join dest: bit32_less\<close>)
    moreover have "join \<lparr>hi = drop_bit b (hi v), lo = drop_bit b (lo v) OR push_bit (32 - b) (hi v)\<rparr>
        = drop_bit b (join v)" if "b < 32"
      by (rule join_eqI)
        (use that assms in \<open>auto simp: bit_or_iff bit_drop_bit_eq bit_push_bit_iff bit_join
          add.commute dest: bit32_less\<close>)
    ultimately show ?thesis
      using SHIFT_RIGHT True b by (auto simp: shift_integer_32_def shift_integer_eq c_shl_def c_shr_def)
  qed
qed

lemma field_mask_32:
  assumes "0 < b" and "b + s \<le> 64"
  shows "\<exists>m. field_mask_32 b s = Some m \<and> join m = push_bit s (mask b)"
proof -
  let ?m = "if 32 < b then \<lparr>hi = mask (b - 32), lo = ALL_32_BITS\<rparr> else \<lparr>hi = 0, lo = mask b\<rparr>"
  have "c_shr ALL_32_BITS (64 - b) = Some (mask (b - 32))" if "32 < b"
    using ones_shr(2) [of "b - 32"] that assms by simp
  then have f: "field_mask_32 b s = (if 0 < s then shift_integer_32 ?m s SHIFT_LEFT else Some ?m)"
    using assms by (simp add: field_mask_32_def ones_shr)
  have j: "join ?m = mask b"
    by (rule join_eqI) (use assms in \<open>auto simp: bit_mask_iff\<close>)
  show ?thesis
  proof (cases "0 < s")
    case True
    then have "map_option join (field_mask_32 b s) = Some (push_bit s (mask b))"
      using assms f j shift_integer_32 [of s ?m SHIFT_LEFT] by (simp add: shift_integer_eq)
    then show ?thesis by auto
  next
    case False
    then show ?thesis using f j by simp
  qed
qed

lemma join_bitwise:
  "join \<lparr>hi = hi a AND hi m, lo = lo a AND lo m\<rparr> = join a AND join m"
  "join \<lparr>hi = (hi d AND NOT (hi m)) OR (hi a AND hi m), lo = (lo d AND NOT (lo m)) OR (lo a AND lo m)\<rparr>
    = (join d AND NOT (join m)) OR (join a AND join m)"
  by (rule join_eqI; simp add: bit_join bit_and_iff bit_or_iff bit_not_iff)+

lemma merge_integer_32:
  assumes "0 < b"
  shows "map_option join (merge_integer_32 d v b s) = merge_integer (join d) (join v) b s"
proof (cases "b + s \<le> 64")
  case True
  with assms obtain m where "field_mask_32 b s = Some m" and "join m = push_bit s (mask b)"
    using field_mask_32 by blast
  with assms True show ?thesis
    by (simp add: merge_integer_32_def merge_integer_eq join_bitwise)
next
  case False
  then show ?thesis by (simp add: merge_integer_32_def merge_integer_def c_assert_def)
qed

lemma mask_integer_64:
  assumes "0 < b" and "b + s \<le> 64"
  shows "mask_integer v b s ext = (let w = v AND push_bit s (mask b) in
    Some (if ext \<and> bit w (b + s - 1) then w OR push_bit (b + s - 1) ALL_64_BITS else w))"
  using assms
  by (simp add: mask_integer_def Let_def ones_shr c_shl_def and_exp_eq_0_iff_not_bit
      less_diff_conv2)

lemma mask_integer_32:
  assumes "0 < b"
  shows "map_option join (mask_integer_32 v b s ext) = mask_integer (join v) b s ext"
proof (cases "b + s \<le> 64")
  case False
  then show ?thesis by (simp add: mask_integer_32_def mask_integer_def c_assert_def Let_def)
next
  case True
  with assms obtain m where m: "field_mask_32 b s = Some m" "join m = push_bit s (mask b)"
    using field_mask_32 by blast
  define w where "w = \<lparr>hi = hi v AND hi m, lo = lo v AND lo m\<rparr>"
  have w: "join v AND push_bit s (mask b) = join w"
    by (simp add: w_def join_bitwise m)
  let ?k = "b + s - 1"
  have hiw: "join (w\<lparr>hi := hi w OR push_bit (?k - 32) ALL_32_BITS\<rparr>) = join w OR push_bit ?k ALL_64_BITS"
    if "32 \<le> ?k"
    by (rule join_eqI)
      (use that True in \<open>auto simp: bit_or_iff bit_push_bit_iff bit_join dest: bit32_less\<close>)
  have low: "join \<lparr>hi = ALL_32_BITS, lo = lo w OR push_bit ?k ALL_32_BITS\<rparr> = join w OR push_bit ?k ALL_64_BITS"
    if "?k < 32"
    by (rule join_eqI)
      (use that True in \<open>auto simp: bit_or_iff bit_push_bit_iff bit_join dest: bit32_less\<close>)
  have "mask_integer_32 v b s ext = Some (if ext then
      (if 32 \<le> ?k
       then (if bit (hi w) (?k - 32) then w\<lparr>hi := hi w OR push_bit (?k - 32) ALL_32_BITS\<rparr> else w)
       else (if bit (lo w) ?k then \<lparr>hi = ALL_32_BITS, lo = lo w OR push_bit ?k ALL_32_BITS\<rparr> else w))
      else w)"
    using assms True m
    by (simp add: mask_integer_32_def Let_def c_shl_def and_exp_eq_0_iff_not_bit w_def)
  then show ?thesis
    using assms True hiw low by (simp add: mask_integer_64 w Let_def bit_join)
qed

section \<open>Access to memory\<close>

lemma ucast_byte_in_long:
  "k \<le> 24 \<Longrightarrow> ucast (push_bit k (ucast b) :: u_32) = (push_bit k (ucast b) :: u_64)"
  "ucast (ucast b :: u_32) = (ucast b :: u_64)"
  for b :: u_8
  by (rule bit_word_eqI; auto simp: bit_push_bit_iff bit_ucast_iff dest: bit_imp_le_length)+

lemma byte_in_long:
  "ucast (push_bit 8 (ucast b) :: u_32) = (push_bit 8 (ucast b) :: u_64)"
  "ucast (push_bit 16 (ucast b) :: u_32) = (push_bit 16 (ucast b) :: u_64)"
  "ucast (push_bit 24 (ucast b) :: u_32) = (push_bit 24 (ucast b) :: u_64)"
  for b :: u_8
  by (simp_all only: ucast_byte_in_long(1) numeral_le_iff le_num_simps order.refl)

lemmas long_halves = join_def u64_pair.simps byte_in_long ucast_byte_in_long(2) unsigned_or_eq
  push_bit_or push_bit_push_bit numeral_plus_numeral add_num_simps add.assoc one_add_one
  numeral_plus_one

lemma longlong_halves:
  "join \<lparr>hi = le_long m (p + 4), lo = le_long m p\<rparr> = le_longlong m p"
  "join \<lparr>hi = be_long m p, lo = be_long m (p + 4)\<rparr> = be_longlong m p"
  by (simp_all only: le_long_def le_longlong_def be_long_def be_longlong_def long_halves)
    (simp_all only: ac_simps)

lemma byte_of_join:
  "k + 8 \<le> 32 \<Longrightarrow> byte_of k (lo v) = byte_of k (join v)"
  "k + 8 \<le> 32 \<Longrightarrow> byte_of k (hi v) = byte_of (k + 32) (join v)"
  by (rule bit_word_eqI; auto simp: bit_byte_of bit_join)+

lemma put_longlong_halves:
  "put_le_long (put_le_long m p (lo v)) (p + 4) (hi v) = put_le_longlong m p (join v)"
  "put_be_long (put_be_long m p (hi v)) (p + 4) (lo v) = put_be_longlong m p (join v)"
  by (simp_all add: put_le_long_def put_be_long_def put_le_longlong_def put_be_longlong_def
      byte_of_join add.commute fun_eq_iff)

lemma ucast_join: "LENGTH('a) \<le> 32 \<Longrightarrow> (ucast (lo v) :: 'a::len word) = ucast (join v)"
  by (rule bit_word_eqI) (auto simp: bit_ucast_iff bit_join)

lemma ucast_join_32: "lo v = ucast (join v)"
  by (rule bit_word_eqI) (auto simp: bit_ucast_iff bit_join)

lemma store_raw_32: "store_raw_32 a sz bo m p v = store_raw a sz bo m p (join v)"
  unfolding store_raw_32_def store_raw_def
  by (simp add: access_eq put_longlong_halves ucast_join)
    (simp add: ucast_join_32)

lemma join_widen:
  assumes "LENGTH('a) \<le> 32"
  shows "join \<lparr>hi = (if sign \<and> sint (extend sign w :: u_32) < 0 then -1 else 0), lo = extend sign w\<rparr>
    = extend sign (w :: 'a::len word)"
proof (rule join_eqI)
  show "bit (lo \<lparr>hi = (if sign \<and> sint (extend sign w :: u_32) < 0 then -1 else 0), lo = extend sign w\<rparr>) n
    = bit (extend sign w :: u_64) n" if "n < 32" for n
    using that by (simp add: bit_extend)
  have s: "sint (extend sign w :: u_32) < 0 \<longleftrightarrow> bit (extend sign w :: u_32) 31"
    using bit_last_iff [of "extend sign w :: u_32"] by simp
  show "bit (hi \<lparr>hi = (if sign \<and> sint (extend sign w :: u_32) < 0 then -1 else 0), lo = extend sign w\<rparr>) n
    = bit (extend sign w :: u_64) (n + 32)" if "n < 32" for n
  proof -
    have "min 31 (LENGTH('a) - Suc 0) = LENGTH('a) - Suc 0"
      and "min (n + 32) (LENGTH('a) - Suc 0) = LENGTH('a) - Suc 0"
      using assms by simp_all
    with that assms show ?thesis by (auto simp: s bit_extend dest: bit_imp_le_length)
  qed
qed

lemma extend_extend:
  "LENGTH('a) \<le> 32 \<Longrightarrow> extend sign (extend sign w :: u_32) = (extend sign w :: u_64)"
  for w :: "'a::len word"
proof (rule bit_word_eqI)
  fix n :: nat
  assume "LENGTH('a) \<le> 32"
  then have "min (min n 31) (LENGTH('a) - Suc 0) = min n (LENGTH('a) - Suc 0)" by simp
  with \<open>LENGTH('a) \<le> 32\<close>
  show "bit (extend sign (extend sign w :: u_32) :: u_64) n = bit (extend sign w :: u_64) n"
    by (auto simp: bit_extend dest: bit_imp_le_length)
qed

lemma fetch_raw_32: "join (fetch_raw_32 a sz sign bo m p old) = fetch_raw a sz sign bo m p (join old)"
proof -
  have id32: "(extend sign l :: u_32) = l" for l :: u_32
    by (simp add: extend_def)
  have "join \<lparr>hi = (if sign \<and> sint l < 0 then -1 else 0), lo = l\<rparr> = extend sign l" for l :: u_32
    using join_widen [of sign l] by (simp add: id32)
  then show ?thesis
    by (simp add: fetch_raw_32_def fetch_raw_def Let_def access_eq extend_extend longlong_halves)
qed

section \<open>Digits\<close>

lemma CDIV_CMOD:
  assumes "u < 10"
  shows "unat (CDIV ! u) = u * 2 ^ 32 div 10" and "unat (CMOD ! u) = u * 2 ^ 32 mod 10"
proof -
  have "u \<in> {0, 1, 2, 3, 4, 5, 6, 7, 8, 9}" using assms by auto
  then show "unat (CDIV ! u) = u * 2 ^ 32 div 10" and "unat (CMOD ! u) = u * 2 ^ 32 mod 10"
    by (auto simp: CDIV_def CMOD_def)
qed

text \<open>One division step works on the exact quotient and remainder.\<close>

lemma div_mod_10:
  fixes k x :: nat
  assumes "x < 20"
  shows "(10 * k + x) div 10 = k + (if 10 \<le> x then 1 else 0)"
    and "(10 * k + x) mod 10 = (if 10 \<le> x then x - 10 else x)"
proof -
  show d: "(10 * k + x) div 10 = k + (if 10 \<le> x then 1 else 0)"
    by (rule div_nat_eqI) (use assms in auto)
  show "(10 * k + x) mod 10 = (if 10 \<le> x then x - 10 else x)"
    unfolding minus_mult_div_eq_mod [symmetric, of "10 * k + x" 10] d by simp
qed

lemma div10_arith:
  fixes h l :: nat
  assumes "l < 2 ^ 32"
  defines "u \<equiv> h mod 10" and "s \<equiv> l mod 10"
  defines "c \<equiv> u * 2 ^ 32 div 10" and "e \<equiv> u * 2 ^ 32 mod 10"
  shows "(h * 2 ^ 32 + l) div 10 = h div 10 * 2 ^ 32 + (l div 10 + c + (if 10 \<le> s + e then 1 else 0))"
    and "(h * 2 ^ 32 + l) mod 10 = (if 10 \<le> s + e then s + e - 10 else s + e)"
    and "l div 10 + c + 1 \<le> 2 ^ 32" and "c + 1 < 2 ^ 32"
proof -
  have "h = h div 10 * 10 + u" unfolding u_def by simp
  then have h: "h * 2 ^ 32 = h div 10 * 2 ^ 32 * 10 + u * 2 ^ 32"
    by (metis add_mult_distrib mult.assoc mult.commute)
  have ce: "u * 2 ^ 32 = c * 10 + e" unfolding c_def e_def by (simp only: div_mult_mod_eq)
  have ls: "l = l div 10 * 10 + s" unfolding s_def by simp
  define q r where "q = h div 10 * 2 ^ 32" and "r = l div 10"
  have "h * 2 ^ 32 = 10 * q + (10 * c + e)" and "l = 10 * r + s"
    using h ce ls by (simp_all only: q_def r_def mult.commute)
  then have sum: "h * 2 ^ 32 + l = 10 * (q + (r + c)) + (s + e)"
    by (simp only: add_mult_distrib2 add_mult_distrib ac_simps)
  have small: "s < 10" "e < 10" "u < 10" by (simp_all add: s_def e_def u_def)
  note d = div_mod_10 [of "s + e" "q + (r + c)"]
  show "(h * 2 ^ 32 + l) div 10 = h div 10 * 2 ^ 32 + (l div 10 + c + (if 10 \<le> s + e then 1 else 0))"
    unfolding sum using d(1) small by (simp add: q_def r_def)
  show "(h * 2 ^ 32 + l) mod 10 = (if 10 \<le> s + e then s + e - 10 else s + e)"
    unfolding sum using d(2) small by simp
  have "c \<le> 9 * 2 ^ 32 div 10" unfolding c_def using small by (intro div_le_mono) simp
  moreover have "l div 10 \<le> 429496729" using assms(1) by simp
  ultimately show "l div 10 + c + 1 \<le> 2 ^ 32" and "c + 1 < 2 ^ 32" by simp_all
qed

lemma carry_32: "a + b < b \<longleftrightarrow> 2 ^ 32 \<le> unat a + unat b" for a b :: u_32
proof -
  have "unat a < 2 ^ 32" "unat b < 2 ^ 32"
    using unsigned_less [of a, where 'a = nat] unsigned_less [of b, where 'a = nat] by simp_all
  then show ?thesis by (auto simp: word_less_nat_alt unat_word_ariths mod_if)
qed

lemma div10_step:
  assumes "div10_step v = (v', d)"
  shows "unat (join v') = unat (join v) div 10" and "unat d = unat (join v) mod 10"
proof -
  let ?h = "unat (hi v)" and ?l = "unat (lo v)"
  let ?u = "?h mod 10" and ?s = "?l mod 10"
  let ?c = "?u * 2 ^ 32 div 10" and ?e = "?u * 2 ^ 32 mod 10"
  let ?t = "?c + (if 10 \<le> ?s + ?e then 1 else 0)"
  let ?umod = "unat (hi v mod 10)"
  have l: "?l < 2 ^ 32" and h: "?h < 2 ^ 32"
    using unsigned_less [of "lo v", where 'a = nat] unsigned_less [of "hi v", where 'a = nat]
    by simp_all
  note ar = div10_arith [OF l, of ?h]
  have u: "?umod = ?u" by (simp add: unat_mod)
  note tab = CDIV_CMOD [of ?u, simplified]
  define lmod where "lmod = lo v mod 10 + CMOD ! ?umod"
  have lmod: "unat lmod = ?s + ?e"
    unfolding lmod_def by (simp add: unat_word_ariths u tab)
  have le: "10 \<le> lmod \<longleftrightarrow> 10 \<le> ?s + ?e"
    by (simp add: word_le_nat_alt lmod)
  define tval where "tval = (if 10 \<le> lmod then CDIV ! ?umod + 1 else CDIV ! ?umod)"
  have tval: "unat tval = ?t"
    unfolding tval_def using ar(4) by (simp add: le u tab unat_word_ariths)
  define lval where "lval = lo v div 10 + tval"
  define hval where "hval = (if lval < tval then hi v div 10 + 1 else hi v div 10)"
  have v': "v' = \<lparr>hi = hval, lo = lval\<rparr>" and d: "d = (if 10 \<le> lmod then lmod - 10 else lmod)"
    using assms by (auto simp: div10_step_def Let_def lmod_def tval_def lval_def hval_def split: if_splits)
  have r: "unat (lo v div 10) = ?l div 10" by (simp add: unat_div)
  have ov: "lval < tval \<longleftrightarrow> 2 ^ 32 \<le> ?l div 10 + ?t"
    unfolding lval_def by (simp only: carry_32 r tval)
  have lval: "unat lval = (if lval < tval then ?l div 10 + ?t - 2 ^ 32 else ?l div 10 + ?t)"
  proof -
    obtain n where n: "n = ?l div 10 + ?t" by blast
    have "unat lval = n mod 2 ^ 32"
      unfolding lval_def n by (simp only: unat_word_ariths(1) r tval) simp
    moreover have "n \<le> 2 ^ 32" unfolding n using ar(3) by (simp only: split: if_splits) simp_all
    ultimately show ?thesis unfolding ov n [symmetric] by (cases "n = 2 ^ 32") simp_all
  qed
  have hval: "unat hval = ?h div 10 + (if lval < tval then 1 else 0)"
    unfolding hval_def using h by (auto simp: unat_word_ariths unat_div)
  show "unat (join v') = unat (join v) div 10"
    unfolding unat_join ar(1) v' using ov by (auto simp: lval hval)
  show "unat d = unat (join v) mod 10"
    unfolding unat_join ar(2) d using le lmod by (auto simp: unat_sub_if')
qed

lemma lo_stack_digits: "unat l < 10 ^ n \<Longrightarrow> lo_stack n l = digits10 (unat l)"
proof (induction n arbitrary: l)
  case 0
  then show ?case by simp
next
  case (Suc n)
  show ?case
  proof (cases "0 < l")
    case True
    then have "0 < unat l" by (simp add: word_less_nat_alt)
    moreover have "unat (l div 10) < 10 ^ n"
      using Suc.prems by (simp add: unat_div less_mult_imp_div_less mult.commute)
    ultimately show ?thesis
      using True Suc.IH [of "l div 10"] by (simp add: digits10_pos unat_div unat_mod)
  next
    case False
    then have "l = 0" by (simp add: word_gt_0)
    then show ?thesis by simp
  qed
qed

lemma dec_stack_32_digits:
  "unat (join v) < 10 ^ n \<Longrightarrow> dec_stack_32 n v = digits10 (unat (join v))"
proof (induction n arbitrary: v)
  case 0
  then show ?case by simp
next
  case (Suc n)
  obtain v' d where step: "div10_step v = (v', d)" by (cases "div10_step v")
  note vd = div10_step [OF step]
  show ?case
  proof (cases "0 < hi v")
    case True
    then have "0 < unat (hi v)" by (simp add: word_less_nat_alt)
    then have pos: "0 < unat (join v)" by (simp add: unat_join)
    have "unat (join v') < 10 ^ n"
      using Suc.prems by (simp add: vd(1) less_mult_imp_div_less mult.commute)
    then show ?thesis
      using True Suc.IH [of v'] pos by (simp add: step vd digits10_pos)
  next
    case False
    then have "hi v = 0" by (simp add: word_gt_0)
    then have "unat (join v) = unat (lo v)" by (simp add: unat_join)
    with Suc.prems False show ?thesis by (simp only: dec_stack_32.simps if_False lo_stack_digits)
  qed
qed

lemma dec_stack_32_eq: "dec_stack_32 20 v = dec_stack (join v)"
  by (simp only: dec_stack_digits dec_stack_32_digits unat_64_less)

lemma join_as_sum: "join v = 2 ^ 32 * ucast (hi v) + ucast (lo v)"
proof -
  have "join v = push_bit 32 (ucast (hi v)) + ucast (lo v)"
    unfolding join_def
    by (rule disjunctive_add [symmetric]) (auto simp: bit_push_bit_iff bit_ucast_iff dest: bit32_less)
  then show ?thesis by (simp add: push_bit_eq_mult mult.commute)
qed

lemma ucast_add_carry:
  "(ucast (a + b) :: u_64) + (if a + b < b then 2 ^ 32 else 0) = ucast a + ucast b" for a b :: u_32
proof -
  have ab: "unat a < 2 ^ 32" "unat b < 2 ^ 32"
    using unsigned_less [of a, where 'a = nat] unsigned_less [of b, where 'a = nat] by simp_all
  have "unat ((ucast (a + b) :: u_64) + (if a + b < b then 2 ^ 32 else 0)) = unat a + unat b"
  proof (cases "2 ^ 32 \<le> unat a + unat b")
    case True
    then have "unat (a + b) = unat a + unat b - 2 ^ 32"
      using ab by (simp add: unat_word_ariths mod_if)
    with True ab show ?thesis by (simp add: carry_32 unat_word_ariths unat_widen)
  next
    case False
    then have "unat (a + b) = unat a + unat b" by (simp add: unat_word_ariths)
    with False ab show ?thesis by (simp add: carry_32 unat_widen)
  qed
  moreover have "unat (ucast a + ucast b :: u_64) = unat a + unat b"
    using ab by (simp add: unat_word_ariths unat_widen)
  ultimately show ?thesis by (simp only: word_unat_eq_iff)
qed

lemma high_add:
  "2 ^ 32 * (ucast (a + b) :: u_64) = 2 ^ 32 * ucast a + 2 ^ 32 * ucast b" for a b :: u_32
proof -
  have "2 ^ 32 * (ucast (a + b) + (if a + b < b then 2 ^ 32 else 0)) = 2 ^ 32 * (ucast a + ucast b :: u_64)"
    by (simp only: ucast_add_carry)
  moreover have "(2 ^ 32 * 2 ^ 32 :: u_64) = 0" by simp
  ultimately show ?thesis by (simp only: distrib_left split: if_splits) simp_all
qed

lemma join_negate: "join (negate_32 v) = - join v"
proof -
  let ?h = "if lo v = 0 then hi v - 1 else hi v"
  let ?w = "\<lparr>hi = ?h, lo = lo v - 1\<rparr>"
  have not: "join (negate_32 v) = NOT (join ?w)"
    unfolding negate_32_def Let_def by (rule join_eqI) (simp_all add: bit_not_iff bit_join)
  have "join v = join ?w + 1"
  proof (cases "lo v = 0")
    case True
    have "2 ^ 32 * (ucast (hi v - 1 + 1) :: u_64) = 2 ^ 32 * ucast (hi v - 1) + 2 ^ 32 * ucast (1 :: u_32)"
      by (rule high_add)
    moreover have "(ucast (-1 :: u_32) :: u_64) = mask 32"
      by (rule bit_word_eqI) (auto simp: bit_ucast_iff bit_mask_iff)
    then have "(ucast (-1 :: u_32) :: u_64) + 1 = 2 ^ 32" by (simp add: mask_eq_exp_minus_1)
    ultimately show ?thesis using True by (simp add: join_as_sum add.assoc)
  next
    case False
    then have "\<not> lo v - 1 + 1 < 1" by (simp only: diff_add_cancel word_less_1 not_False_eq_True)
    then have "ucast (lo v) = (ucast (lo v - 1) + 1 :: u_64)"
      using ucast_add_carry [of "lo v - 1" 1] by simp
    with False show ?thesis by (simp add: join_as_sum)
  qed
  then have "join v - 1 = join ?w" by simp
  then show ?thesis unfolding not minus_eq_not_minus_1 by (rule arg_cong [OF sym])
qed

lemma join_shift_in:
  assumes "0 < k" and "k < 32"
  shows "join (shift_in k v d) = push_bit k (join v) OR (word_of_int d AND mask k)"
  unfolding shift_in_def
  by (rule join_eqI)
    (use assms in \<open>auto simp: bit_or_iff bit_and_iff bit_push_bit_iff bit_drop_bit_eq bit_join
      bit_mask_iff bit_word_of_int_iff add.commute dest: bit32_less\<close>)

lemma hex_loop_32: "join (hex_loop_32 v s) = hex_loop (join v) s"
proof (induction s arbitrary: v)
  case (Cons c s)
  then show ?case
    by (simp add: hex_loop_32.simps [of _ "c # s"] hex_loop.simps [of _ "c # s"] join_shift_in
        mask_eq_exp_minus_1)
qed (simp add: hex_loop_32.simps hex_loop.simps)

lemma bin_loop_32: "join (bin_loop_32 v s) = bin_loop (join v) s"
proof (induction s arbitrary: v)
  case (Cons c s)
  then show ?case
    by (simp add: bin_loop_32.simps [of _ "c # s"] bin_loop.simps [of _ "c # s"] join_shift_in
        mask_eq_exp_minus_1)
qed (simp add: bin_loop_32.simps bin_loop.simps)

lemma oct_loop_32: "join (oct_loop_32 v s) = oct_loop (join v) s"
proof (induction s arbitrary: v)
  case (Cons c s)
  then show ?case
    by (simp add: oct_loop_32.simps [of _ "c # s"] oct_loop.simps [of _ "c # s"] join_shift_in
        mask_eq_exp_minus_1)
qed (simp add: oct_loop_32.simps oct_loop.simps)

lemma join_push: "k \<in> {1, 3} \<Longrightarrow>
  join \<lparr>hi = push_bit k (hi v) OR drop_bit (32 - k) (lo v), lo = push_bit k (lo v)\<rparr> = 2 ^ k * join v"
proof -
  assume "k \<in> {1, 3}"
  then have "join (shift_in k v 0) = push_bit k (join v)" by (auto simp: join_shift_in)
  then show ?thesis by (simp add: shift_in_def push_bit_eq_mult mult.commute)
qed

lemma sum_two_carries:
  fixes x :: "'a::comm_monoid_add"
  assumes "x = p + c1 + c2" and "l2 + c2 = l1 + d" and "l1 + c1 = a + b"
  shows "x + l2 = p + (a + b) + d"
proof -
  have "x + l2 = p + c1 + (l2 + c2)" by (simp only: assms(1) ac_simps)
  also have "\<dots> = p + (l1 + c1) + d" unfolding assms(2) by (simp only: ac_simps)
  finally show ?thesis unfolding assms(3) .
qed

lemma join_two_carries:
  fixes h1 h3 l1 l3 d :: u_32
  shows "2 ^ 32 * ucast (let h = h3 + h1; h = (if l1 + l3 < l1 then h + 1 else h)
                         in if l1 + l3 + d < l1 + l3 then h + 1 else h) + ucast (l1 + l3 + d)
    = (2 ^ 32 * ucast h3 + ucast l3) + (2 ^ 32 * ucast h1 + ucast l1) + (ucast d :: u_64)"
proof -
  have one: "2 ^ 32 * (ucast (h + 1 :: u_32) :: u_64) = 2 ^ 32 * ucast h + 2 ^ 32" for h
    by (simp only: high_add) simp
  have x: "2 ^ 32 * ucast (let h = h3 + h1; h = (if l1 + l3 < l1 then h + 1 else h)
                         in if l1 + l3 + d < l1 + l3 then h + 1 else h)
     = (2 ^ 32 * ucast h3 + 2 ^ 32 * ucast h1) + (if l1 + l3 < l1 then 2 ^ 32 else 0)
        + (if l1 + l3 + d < l1 + l3 then 2 ^ 32 else 0 :: u_64)"
    unfolding Let_def by (simp only: one high_add split: if_split) simp
  have l: "ucast (l1 + l3) + (if l1 + l3 < l1 then 2 ^ 32 else 0) = (ucast l1 + ucast l3 :: u_64)"
    using ucast_add_carry [of l3 l1] by (simp only: add.commute)
  have d: "ucast (l1 + l3 + d) + (if l1 + l3 + d < l1 + l3 then 2 ^ 32 else 0)
      = (ucast (l1 + l3) + ucast d :: u_64)"
    using ucast_add_carry [of d "l1 + l3"] by (simp only: add.commute)
  from sum_two_carries [OF x d l] show ?thesis by (simp only: ac_simps)
qed

lemma join_dec_step: "join (dec_step_32 v d) = 10 * join v + ucast d"
proof -
  let ?l1 = "push_bit 1 (lo v)"
  let ?h3 = "push_bit 3 (hi v) OR drop_bit 29 (lo v)" and ?h1 = "push_bit 1 (hi v) OR drop_bit 31 (lo v)"
  have l3: "push_bit 2 ?l1 = push_bit 3 (lo v)" by (simp only: push_bit_push_bit) simp
  have p: "2 ^ 32 * ucast ?h3 + ucast (push_bit 3 (lo v)) = 8 * join v"
    "2 ^ 32 * ucast ?h1 + ucast ?l1 = 2 * join v"
    using join_push [of 3 v] join_push [of 1 v] unfolding join_as_sum [of "\<lparr>hi = _, lo = _\<rparr>"]
    by (simp_all only: u64_pair.simps insert_iff simp_thms) simp_all
  have "join (dec_step_32 v d) = 8 * join v + 2 * join v + ucast d"
    unfolding p [symmetric] l3 [symmetric] join_two_carries [symmetric]
    by (simp only: join_as_sum dec_step_32_def Let_def u64_pair.simps)
  then show ?thesis by simp
qed

lemma dec_loop_32: "join (dec_loop_32 v s) = dec_loop (join v) s"
proof (induction s arbitrary: v)
  case (Cons c s)
  have "(ucast (word_of_int (int (char_nat c) - 48) :: u_32) :: u_64) = word_of_int (int (char_nat c) - 48)"
    if "isdigit c"
  proof -
    from that obtain n where n: "int (char_nat c) - 48 = int n" "n < 10"
      by (auto simp: isdigit_def intro: that [of "char_nat c - 48"])
    then have "n \<in> {0, 1, 2, 3, 4, 5, 6, 7, 8, 9}" by auto
    then show ?thesis unfolding n(1) by auto
  qed
  with Cons show ?case
    by (simp add: dec_loop_32.simps [of _ "c # s"] dec_loop.simps [of _ "c # s"] join_dec_step
        char_nat_def)
qed (simp add: dec_loop_32.simps dec_loop.simps)

lemma join_low: "join \<lparr>hi = 0, lo = l\<rparr> = ucast l"
  by (simp add: join_as_sum)

lemma digit_word:
  assumes "isdigit c"
  obtains n where "n < 10" and "int (char_nat c) - int (char_nat CHR ''0'') = int n"
proof
  show "char_nat c - 48 < 10" and "int (char_nat c) - int (char_nat CHR ''0'') = int (char_nat c - 48)"
    using assms by (auto simp: isdigit_def char_nat_def)
qed

lemma dec_head_32: "unat l < 429496729 \<Longrightarrow> join (dec_head_32 l s) = dec_loop (ucast l) s"
proof (induction s arbitrary: l)
  case Nil
  then show ?case by (simp add: dec_head_32.simps dec_loop.simps join_low)
next
  case (Cons c s)
  show ?case
  proof (cases "isdigit c")
    case False
    then show ?thesis
      by (simp add: dec_head_32.simps [of _ "c # s"] dec_loop.simps [of _ "c # s"] join_low)
  next
    case True
    then obtain n where n: "n < 10" "int (char_nat c) - int (char_nat CHR ''0'') = int n"
      by (rule digit_word)
    let ?l = "10 * l + of_nat n"
    have ul: "unat ?l = 10 * unat l + n"
      using Cons.prems n(1) by (simp add: unat_word_ariths unat_of_nat)
    have "unat (ucast ?l :: u_64) = unat (10 * ucast l + of_nat n :: u_64)"
      using Cons.prems n(1) by (simp add: unat_widen ul unat_word_ariths unat_of_nat)
    then have w: "(ucast ?l :: u_64) = 10 * ucast l + of_nat n"
      by (simp only: word_unat_eq_iff)
    have "join (dec_head_32 l (c # s)) = dec_loop (ucast ?l) s"
      using Cons.IH [of ?l] True
      by (simp add: dec_head_32.simps [of _ "c # s"] n(2) dec_loop_32 join_low
          word_less_nat_alt Let_def)
    then show ?thesis
      using True w by (simp add: dec_loop.simps [of _ "c # s"] n(2))
  qed
qed

lemma join_eq_0: "join v = 0 \<longleftrightarrow> hi v = 0 \<and> lo v = 0"
proof
  assume "join v = 0"
  then have "unat (join v) = 0" by simp
  then show "hi v = 0 \<and> lo v = 0" unfolding unat_join by (simp add: unat_eq_0)
qed (simp add: join_as_sum)

lemma string2integer_32: "IntValue_of_32 (string2integer_32 v s) = string2integer (IntValue_of_32 v) s"
proof -
  have n: "join (if sign \<and> (hi w \<noteq> 0 \<or> lo w \<noteq> 0) then negate_32 w else w)
      = (if sign then - join w else join w)" for sign w
  proof (cases "join w = 0")
    case True
    then show ?thesis by (simp add: join_negate)
  next
    case False
    then show ?thesis by (auto simp: join_eq_0 join_negate)
  qed
  obtain sg t where sk: "skip_sign s = (sg, t)" by fastforce
  let ?w = "if peek t = CHR ''0'' then
      if peek (tl t) = CHR ''x'' then hex_loop_32 \<lparr>hi = 0, lo = 0\<rparr> (tl (tl t))
      else if peek (tl t) = CHR ''b'' then bin_loop_32 \<lparr>hi = 0, lo = 0\<rparr> (tl (tl t))
      else oct_loop_32 \<lparr>hi = 0, lo = 0\<rparr> (tl t)
    else dec_head_32 0 t"
  have w: "join ?w = (if peek t = CHR ''0'' then
      if peek (tl t) = CHR ''x'' then hex_loop 0 (tl (tl t))
      else if peek (tl t) = CHR ''b'' then bin_loop 0 (tl (tl t))
      else oct_loop 0 (tl t)
    else dec_loop 0 t)"
    by (simp add: join_zero hex_loop_32 bin_loop_32 oct_loop_32 dec_head_32)
  show ?thesis
    unfolding string2integer_32_def string2integer_def sk Let_def prod.case w [symmetric] n [symmetric]
    by (simp add: IntValue_of_32_def)
qed

lemma sint_join: "sint (hi v) < 0 \<longleftrightarrow> sint (join v) < 0"
  using bit_last_iff [of "hi v"] bit_last_iff [of "join v"] by (simp add: bit_join)

lemma integer2string_32:
  "map_prod id IntValue_of_32 (integer2string_32 iv) = integer2string (IntValue_of_32 iv)"
  by (simp add: integer2string_32_def integer2string_def IntValue_of_32_def Let_def
      dec_stack_32_eq sint_join join_negate split: option.split)

lemma snd_integer2string_32:
  "IntValue_of_32 (snd (integer2string_32 iv)) = snd (integer2string (IntValue_of_32 iv))"
  using arg_cong [OF integer2string_32 [of iv], of snd] by (simp add: snd_map_prod)

section \<open>The two builds of the library agree\<close>

lemma fetch_integer_32_eq:
  "map_option IntValue_of_32 (fetch_integer_32 a sz sign b s bo m p iv)
    = fetch_integer a sz sign b s bo m p (IntValue_of_32 iv)"
proof -
  let ?r = "fetch_raw_32 a sz sign bo m p (value_32 iv)"
  have v: "map_option join (if 0 < b then do {
             v \<leftarrow> (if 0 < s then shift_integer_32 ?r s SHIFT_RIGHT else Some ?r);
             mask_integer_32 v b 0 sign } else Some ?r)
    = (if 0 < b then do {
             v \<leftarrow> (if 0 < s then shift_integer (join ?r) s SHIFT_RIGHT else Some (join ?r));
             mask_integer v b 0 sign } else Some (join ?r))"
    by (cases "shift_integer_32 ?r s SHIFT_RIGHT")
      (simp_all add: mask_integer_32 shift_integer_32 [symmetric])
  have fin: "map_option IntValue_of_32 (do { v \<leftarrow> ov;
        Some (snd (integer2string_32 (iv\<lparr>value_32 := v, sign_32 := sign\<rparr>))) })
    = do { v \<leftarrow> map_option join ov;
        Some (snd (integer2string ((IntValue_of_32 iv)\<lparr>int_value := v, int_sign := sign\<rparr>))) }" for ov
    by (cases ov) (simp_all add: snd_integer2string_32, simp add: IntValue_of_32_def)
  show ?thesis
    unfolding fetch_integer_32_def fetch_integer_def Let_def fin v
    by (simp add: fetch_raw_32 IntValue_of_32_def)
qed

lemma store_integer_32_eq:
  "store_integer_32 g a sz b s bo m p iv = store_integer (join g) a sz b s bo m p (IntValue_of_32 iv)"
proof -
  let ?i = "case string_32 iv of None \<Rightarrow> iv | Some s \<Rightarrow> string2integer_32 iv s"
  have i: "IntValue_of_32 ?i = (case int_string (IntValue_of_32 iv) of None \<Rightarrow> IntValue_of_32 iv
      | Some s \<Rightarrow> string2integer (IntValue_of_32 iv) s)"
    by (simp add: string2integer_32 IntValue_of_32_def [of iv] split: option.split)
  then have val: "int_value (case int_string (IntValue_of_32 iv) of None \<Rightarrow> IntValue_of_32 iv
      | Some s \<Rightarrow> string2integer (IntValue_of_32 iv) s) = join (value_32 ?i)"
    by (simp only: i [symmetric]) (simp add: IntValue_of_32_def)
  let ?o = "\<lparr>value_32 = g, sign_32 = False, string_32 = None\<rparr>"
  have o: "fetch_integer a sz False 0 0 bo m p \<lparr>int_value = join g, int_sign = False, int_string = None\<rparr>
    = map_option IntValue_of_32 (fetch_integer_32 a sz False 0 0 bo m p ?o)"
    by (simp add: fetch_integer_32_eq IntValue_of_32_def)
  have iv: "int_value (IntValue_of_32 w) = join (value_32 w)" for w
    by (simp add: IntValue_of_32_def)
  have fin: "do { v \<leftarrow> ov; Some (store_raw_32 a sz bo m p v) }
    = do { v \<leftarrow> map_option join ov; Some (store_raw a sz bo m p v) }" for ov
    by (cases ov) (simp_all add: store_raw_32)
  have v: "map_option join (if 0 < b then do {
             orig \<leftarrow> fetch_integer_32 a sz False 0 0 bo m p ?o;
             v \<leftarrow> (if 0 < s then shift_integer_32 (value_32 ?i) s SHIFT_LEFT else Some (value_32 ?i));
             merge_integer_32 (value_32 orig) v b s } else Some (value_32 ?i))
    = (if 0 < b then do {
             orig \<leftarrow> map_option IntValue_of_32 (fetch_integer_32 a sz False 0 0 bo m p ?o);
             v \<leftarrow> (if 0 < s then shift_integer (join (value_32 ?i)) s SHIFT_LEFT
                   else Some (join (value_32 ?i)));
             merge_integer (int_value orig) v b s } else Some (join (value_32 ?i)))"
    by (cases "fetch_integer_32 a sz False 0 0 bo m p ?o";
        cases "shift_integer_32 (value_32 ?i) s SHIFT_LEFT")
      (simp_all add: merge_integer_32 shift_integer_32 [symmetric] iv)
  show ?thesis
    unfolding store_integer_32_def store_integer_def Let_def fin v val o ..
qed
text \<open>
  C21 The library built for hosts without a 64-bit integer type fetches and stores
  exactly the integers, bit-fields and number strings the 64-bit build does, for every
  size, byte order, field and memory; undefined shifts and failed assertions coincide too.
\<close>
theorem builds_agree:
  "map_option IntValue_of_32 (fetch_integer_32 a sz sign b s bo m p iv)
     = fetch_integer a sz sign b s bo m p (IntValue_of_32 iv)
   \<and> store_integer_32 g a sz b s bo m p iv = store_integer (join g) a sz b s bo m p (IntValue_of_32 iv)"
  by (simp only: fetch_integer_32_eq store_integer_32_eq simp_thms)

end
