(* ===== verification/Ct_Tags.thy ===== *)
theory Ct_Tags
  imports CBC_Prelude
begin

text \<open>
  \<^verbatim>\<open>ctlib/cttags.c\<close>: the singly linked lists of tags hung on types and declarators. The
  list cell \<open>tag->next\<close> is the list itself; the callbacks of a tag's vtable belong to the
  caller and are a parameter.
\<close>

record CtTag =
  tag_type :: u_16
  tag_flags :: u_16
  tag_any :: nat
  tag_vtable :: "nat option"

type_synonym CtTagList = "CtTag list"

text \<open>The callbacks behind a vtable; each pointer may be null.\<close>

record CtTagVtable =
  vt_init :: "(CtTag \<Rightarrow> CtTag) option"
  vt_clone :: "(CtTag \<Rightarrow> CtTag \<Rightarrow> CtTag) option"
  vt_free :: "(CtTag \<Rightarrow> unit) option"

type_synonym vtables = "nat \<Rightarrow> CtTagVtable"

definition tag_new :: "vtables \<Rightarrow> u_16 \<Rightarrow> nat option \<Rightarrow> CtTag" where
  "tag_new vt type vtable =
     (let tag = \<lparr>tag_type = type, tag_flags = 0, tag_any = 0, tag_vtable = vtable\<rparr>
      in case vtable of None \<Rightarrow> tag
         | Some v \<Rightarrow> (case vt_init (vt v) of None \<Rightarrow> tag | Some init \<Rightarrow> init tag))"

definition tag_clone :: "vtables \<Rightarrow> CtTag \<Rightarrow> CtTag" where
  "tag_clone vt stag = (case tag_vtable stag of None \<Rightarrow> stag
     | Some v \<Rightarrow> (case vt_clone (vt v) of None \<Rightarrow> stag | Some clone \<Rightarrow> clone stag stag))"

text \<open>Deleting a tag calls its \<open>free\<close> callback: the result lists the tags it was called on.\<close>

definition tag_delete :: "vtables \<Rightarrow> CtTag \<Rightarrow> CtTag list" where
  "tag_delete vt tag = (case tag_vtable tag of None \<Rightarrow> []
     | Some v \<Rightarrow> (case vt_free (vt v) of None \<Rightarrow> [] | Some _ \<Rightarrow> [tag]))"

fun find_tag :: "CtTagList \<Rightarrow> u_16 \<Rightarrow> CtTag option" where
  "find_tag [] type = None"
| "find_tag (tag # list) type = (if tag_type tag \<noteq> type then find_tag list type else Some tag)"

definition insert_tag :: "CtTagList \<Rightarrow> CtTag \<Rightarrow> CtTagList" where
  "insert_tag list tag = tag # list"

fun remove_tag :: "CtTagList \<Rightarrow> u_16 \<Rightarrow> CtTag option \<times> CtTagList" where
  "remove_tag [] type = (None, [])"
| "remove_tag (tag # list) type =
     (if tag_type tag = type then (Some tag, list)
      else (case remove_tag list type of (r, list') \<Rightarrow> (r, tag # list')))"

fun delete_taglist :: "vtables \<Rightarrow> CtTagList \<Rightarrow> CtTagList \<times> CtTag list" where
  "delete_taglist vt [] = ([], [])"
| "delete_taglist vt (tag # list) =
     (let freed = tag_delete vt tag; (rest, more) = delete_taglist vt list
      in (rest, freed @ more))"

fun clone_taglist :: "vtables \<Rightarrow> CtTagList \<Rightarrow> CtTagList" where
  "clone_taglist vt [] = []"
| "clone_taglist vt (tag # list) = tag_clone vt tag # clone_taglist vt list"

section \<open>The list as a map from tag types\<close>

lemma find_tag_insert:
  "find_tag (insert_tag list tag) type = (if tag_type tag = type then Some tag else find_tag list type)"
  by (simp add: insert_tag_def)

lemma find_tag_type: "find_tag list type = Some tag \<Longrightarrow> tag_type tag = type \<and> tag \<in> set list"
  by (induction list) (auto split: if_splits)

lemma remove_tag_find: "fst (remove_tag list type) = find_tag list type"
  by (induction list) (auto split: prod.split)

lemma remove_tag_other: "type' \<noteq> type \<Longrightarrow> find_tag (snd (remove_tag list type)) type' = find_tag list type'"
  by (induction list) (auto split: prod.split)

lemma remove_insert_tag: "remove_tag (insert_tag list tag) (tag_type tag) = (Some tag, list)"
  by (simp add: insert_tag_def)

text \<open>At most one tag of each type: what the callers establish by removing before they insert.\<close>

definition unique_tags :: "CtTagList \<Rightarrow> bool" where
  "unique_tags list \<longleftrightarrow> distinct (map tag_type list)"

lemma unique_insert_tag:
  "unique_tags list \<Longrightarrow> find_tag list (tag_type tag) = None \<Longrightarrow> unique_tags (insert_tag list tag)"
proof -
  have "find_tag list type = None \<Longrightarrow> type \<notin> tag_type ` set list" for type
    by (induction list) (auto split: if_splits)
  then show "unique_tags list \<Longrightarrow> find_tag list (tag_type tag) = None \<Longrightarrow> unique_tags (insert_tag list tag)"
    by (auto simp: unique_tags_def insert_tag_def)
qed

lemma set_remove_tag: "set (snd (remove_tag list type)) \<subseteq> set list"
  by (induction list) (auto split: prod.splits)

lemma unique_remove_tag:
  "unique_tags list \<Longrightarrow> unique_tags (snd (remove_tag list type))
     \<and> find_tag (snd (remove_tag list type)) type = None"
proof (induction list)
  case (Cons t ts)
  have "find_tag ts type = None" if "type \<notin> tag_type ` set ts" for type
    using that by (induction ts) auto
  with Cons show ?case
    using set_remove_tag [of ts type]
    by (auto simp: unique_tags_def split: prod.splits dest: image_mono)
qed (simp add: unique_tags_def)

lemma clone_taglist_map: "clone_taglist vt list = map (tag_clone vt) list"
  by (induction list) simp_all

section \<open>Properties\<close>

text \<open>
  C35 A tag list behaves as a finite map from tag types to tags: inserting overrides
  the entry of the tag's type, and removing, on a list with one tag per type, hands out
  that entry, leaves none of that type, keeps all others and keeps the list well formed.
\<close>

theorem tags_map:
  assumes "unique_tags list"
  shows "find_tag (insert_tag list tag) = (find_tag list)(tag_type tag \<mapsto> tag)
     \<and> fst (remove_tag list type) = find_tag list type
     \<and> find_tag (snd (remove_tag list type)) = (find_tag list)(type := None)
     \<and> unique_tags (snd (remove_tag list type))
     \<and> unique_tags (insert_tag (snd (remove_tag list (tag_type tag))) tag)"
  using assms
  by (auto simp: find_tag_insert remove_tag_find remove_tag_other unique_remove_tag unique_insert_tag)

text \<open>A list with a byte-order tag (type 0) and a format tag (type 1).\<close>

definition byte_order_tag :: CtTag where
  "byte_order_tag = \<lparr>tag_type = 0, tag_flags = 1, tag_any = 0, tag_vtable = None\<rparr>"

definition format_tag :: CtTag where
  "format_tag = \<lparr>tag_type = 1, tag_flags = 0, tag_any = 7, tag_vtable = None\<rparr>"

theorem tags_map_witness:
  "unique_tags [byte_order_tag, format_tag]
     \<and> find_tag (snd (remove_tag [byte_order_tag, format_tag] 1)) 1 = None"
proof -
  have u: "unique_tags [byte_order_tag, format_tag]"
    by (simp add: unique_tags_def byte_order_tag_def format_tag_def)
  show ?thesis using u tags_map [OF u, of _ 1] by simp
qed

end
