(* ===== verification/C_Types.thy ===== *)
theory C_Types
  imports Ct_Tags
begin

text \<open>
  \<^verbatim>\<open>ctlib/cttype.h\<close> and \<^verbatim>\<open>ctlib/cttype.c\<close>: the objects a parsed C declaration consists of.
  The linked lists of an object are HOL lists, a null list is \<open>None\<close>. Objects that are
  shared through pointers (compounds, enums, typedefs) are referred to by number and live
  in a store. Narrow struct members are integers and every assignment to one truncates.
\<close>

section \<open>Flags\<close>

abbreviation V_IS_UNDEF :: u_32 where "V_IS_UNDEF \<equiv> 0x00000001"
abbreviation V_IS_UNSAFE :: u_32 where "V_IS_UNSAFE \<equiv> 0x08000000"
abbreviation V_IS_UNSAFE_UNDEF :: u_32 where "V_IS_UNSAFE_UNDEF \<equiv> 0x10000000"
abbreviation V_IS_UNSAFE_CAST :: u_32 where "V_IS_UNSAFE_CAST \<equiv> 0x20000000"
abbreviation V_IS_UNSAFE_PTROP :: u_32 where "V_IS_UNSAFE_PTROP \<equiv> 0x40000000"

abbreviation T_VOID :: u_32 where "T_VOID \<equiv> 0x00000001"
abbreviation T_CHAR :: u_32 where "T_CHAR \<equiv> 0x00000002"
abbreviation T_SHORT :: u_32 where "T_SHORT \<equiv> 0x00000004"
abbreviation T_INT :: u_32 where "T_INT \<equiv> 0x00000008"
abbreviation T_LONG :: u_32 where "T_LONG \<equiv> 0x00000010"
abbreviation T_FLOAT :: u_32 where "T_FLOAT \<equiv> 0x00000020"
abbreviation T_DOUBLE :: u_32 where "T_DOUBLE \<equiv> 0x00000040"
abbreviation T_SIGNED :: u_32 where "T_SIGNED \<equiv> 0x00000080"
abbreviation T_UNSIGNED :: u_32 where "T_UNSIGNED \<equiv> 0x00000100"
abbreviation T_ENUM :: u_32 where "T_ENUM \<equiv> 0x00000200"
abbreviation T_STRUCT :: u_32 where "T_STRUCT \<equiv> 0x00000400"
abbreviation T_UNION :: u_32 where "T_UNION \<equiv> 0x00000800"
abbreviation T_COMPOUND :: u_32 where "T_COMPOUND \<equiv> 0x00000C00"
abbreviation T_TYPE :: u_32 where "T_TYPE \<equiv> 0x00001000"
abbreviation T_TYPEDEF :: u_32 where "T_TYPEDEF \<equiv> 0x00002000"
abbreviation T_LONGLONG :: u_32 where "T_LONGLONG \<equiv> 0x00004000"
abbreviation T_HASBITFIELD :: u_32 where "T_HASBITFIELD \<equiv> 0x40000000"
abbreviation T_UNSAFE_VAL :: u_32 where "T_UNSAFE_VAL \<equiv> 0x80000000"

section \<open>Objects\<close>

datatype CType = TYP_ENUM | TYP_STRUCT | TYP_TYPEDEF | TYP_TYPEDEF_LIST

record Value =
  iv :: int
  v_flags :: u_32

definition IS_UNSAFE_VAL :: "Value \<Rightarrow> bool" where
  "IS_UNSAFE_VAL val = has_flag (v_flags val)
     (V_IS_UNSAFE OR V_IS_UNSAFE_UNDEF OR V_IS_UNSAFE_CAST OR V_IS_UNSAFE_PTROP)"

text \<open>
  \<open>ts_ptr\<close> is the number of the enum, compound or typedef the flags say it points to.
\<close>

record TypeSpec =
  ts_ptr :: "nat option"
  ts_tflags :: u_32

record Enumerator =
  en_value :: Value
  en_id_len :: int
  en_identifier :: string

text \<open>
  The two sizes stay unset when an enum is created without its enumerators. The place where an
  enum or a compound was defined, its \<open>context\<close>, is kept with the parse information.
\<close>

record EnumSpecifier =
  es_tflags :: u_32
  es_refcount :: int
  es_unsigned_size :: "int option"
  es_signed_size :: "int option"
  es_enumerators :: "Enumerator list option"
  es_tags :: CtTagList
  es_id_len :: int
  es_identifier :: string

record BitfieldInfo =
  bf_size :: int
  bf_bits :: int
  bf_pos :: int

text \<open>
  \<open>d_offset\<close> is a 29-bit signed member. The union \<open>ext\<close> holds the array dimensions or the
  bit-field, chosen by the flags.
\<close>

record Declarator =
  d_offset :: int
  pointer_flag :: bool
  array_flag :: bool
  bitfield_flag :: bool
  d_size :: int
  d_item_size :: int
  d_tags :: CtTagList
  ext_array :: "Value list option"
  ext_bitfield :: BitfieldInfo
  d_id_len :: int
  d_identifier :: string

record StructDeclaration =
  sd_type :: TypeSpec
  sd_declarators :: "Declarator list option"
  sd_offset :: int
  sd_size :: int

record Struct =
  s_tflags :: u_32
  s_refcount :: int
  s_align :: int
  s_pack :: int
  s_size :: int
  s_declarations :: "StructDeclaration list option"
  s_tags :: CtTagList
  s_id_len :: int
  s_identifier :: string

text \<open>\<open>pType\<close> points at the \<open>type\<close> member of a typedef list, named here by its number.\<close>

record Typedef =
  td_list :: "nat option"
  td_decl :: "Declarator option"

record TypedefList =
  tl_type :: TypeSpec
  tl_typedefs :: "Typedef list option"

section \<open>Identifiers\<close>

text \<open>
  The text of an identifier follows its object; a length of 255 stands for 255 or more,
  and the rest is then counted up to the terminator.
\<close>

definition ident_len :: "string option \<Rightarrow> int \<Rightarrow> int" where
  "ident_len identifier id_len = (case identifier of
     Some s \<Rightarrow> if id_len = 0 then int (length s) else id_len | None \<Rightarrow> id_len)"

definition CONSTRUCT_IDENT :: "string option \<Rightarrow> int \<Rightarrow> int \<times> string" where
  "CONSTRUCT_IDENT identifier id_len =
     (let n = ident_len identifier id_len
      in (if n < 255 then n else 255,
          case identifier of Some s \<Rightarrow> take (nat n) s | None \<Rightarrow> []))"

definition CTT_IDLEN :: "int \<Rightarrow> string \<Rightarrow> int" where
  "CTT_IDLEN id_len identifier =
     (if id_len < 255 then id_len else 255 + int (length (drop 255 identifier)))"

text \<open>Cloning copies the terminator and \<open>CTT_IDLEN\<close> characters, if the length is not zero.\<close>

definition CLONE_IDENT :: "int \<Rightarrow> string \<Rightarrow> string" where
  "CLONE_IDENT id_len identifier =
     take (nat (if id_len \<noteq> 0 then CTT_IDLEN id_len identifier else 0)) identifier"

section \<open>Constructors and copies\<close>

definition value_new :: "int \<Rightarrow> u_32 \<Rightarrow> Value" where
  "value_new v flags = \<lparr>iv = v, v_flags = flags\<rparr>"

definition value_clone :: "Value option \<Rightarrow> Value option" where
  "value_clone pSrc = pSrc"

definition enum_new :: "string option \<Rightarrow> int \<Rightarrow> Value option \<Rightarrow> Enumerator" where
  "enum_new identifier id_len pValue =
     (let (n, s) = CONSTRUCT_IDENT identifier id_len;
          v = (case pValue of
                 Some val \<Rightarrow> if has_flag (v_flags val) V_IS_UNDEF
                   then val\<lparr>v_flags := v_flags val OR V_IS_UNSAFE_UNDEF\<rparr> else val
               | None \<Rightarrow> \<lparr>iv = 0, v_flags = V_IS_UNDEF\<rparr>)
      in \<lparr>en_value = v, en_id_len = n, en_identifier = s\<rparr>)"

definition enum_clone :: "Enumerator \<Rightarrow> Enumerator" where
  "enum_clone pSrc = pSrc\<lparr>en_identifier := CLONE_IDENT (en_id_len pSrc) (en_identifier pSrc)\<rparr>"

text \<open>The extreme values of the enumerators, both starting from zero.\<close>

fun min_max :: "Enumerator list \<Rightarrow> int \<Rightarrow> int \<Rightarrow> int \<times> int" where
  "min_max [] mn mx = (mn, mx)"
| "min_max (e # es) mn mx =
     (let x = iv (en_value e)
      in if x > mx then min_max es mn x
         else if x < mn then min_max es x mx
         else min_max es mn mx)"

fun unsafe_flags :: "Enumerator list \<Rightarrow> u_32 \<Rightarrow> u_32" where
  "unsafe_flags [] flags = flags"
| "unsafe_flags (e # es) flags =
     unsafe_flags es (if IS_UNSAFE_VAL (en_value e) then flags OR T_UNSAFE_VAL else flags)"

definition enumspec_update :: "EnumSpecifier \<Rightarrow> Enumerator list \<Rightarrow> EnumSpecifier" where
  "enumspec_update pEnumSpec enumerators =
     (let (mn, mx) = min_max enumerators 0 0;
          flags = unsafe_flags enumerators 0;
          spec = pEnumSpec\<lparr>es_enumerators := Some enumerators\<rparr>
      in if mn < 0 then
           (let size = (if mn \<ge> -128 \<and> mx < 128 then 1
                        else if mn \<ge> -32768 \<and> mx < 32768 then 2 else 4)
            in spec\<lparr>es_tflags := flags OR T_SIGNED,
                    es_signed_size := Some size, es_unsigned_size := Some size\<rparr>)
         else
           spec\<lparr>es_tflags := flags OR T_UNSIGNED,
                es_unsigned_size := Some (if mx < 256 then 1 else if mx < 65536 then 2 else 4),
                es_signed_size := Some (if mx < 128 then 1 else if mx < 32768 then 2 else 4)\<rparr>)"

definition enumspec_new :: "string option \<Rightarrow> int \<Rightarrow> Enumerator list option \<Rightarrow> EnumSpecifier" where
  "enumspec_new identifier id_len enumerators =
     (let (n, s) = CONSTRUCT_IDENT identifier id_len;
          spec = \<lparr>es_tflags = T_ENUM, es_refcount = 0, es_unsigned_size = None,
                  es_signed_size = None, es_enumerators = None, es_tags = [],
                  es_id_len = n, es_identifier = s\<rparr>
      in case enumerators of None \<Rightarrow> spec | Some es \<Rightarrow> enumspec_update spec es)"

definition enumspec_clone :: "vtables \<Rightarrow> EnumSpecifier \<Rightarrow> EnumSpecifier" where
  "enumspec_clone vt pSrc = pSrc\<lparr>
     es_identifier := CLONE_IDENT (es_id_len pSrc) (es_identifier pSrc),
     es_enumerators := map_option (map enum_clone) (es_enumerators pSrc),
     es_tags := clone_taglist vt (es_tags pSrc)\<rparr>"

definition decl_new :: "string option \<Rightarrow> int \<Rightarrow> Declarator" where
  "decl_new identifier id_len =
     (let (n, s) = CONSTRUCT_IDENT identifier id_len
      in \<lparr>d_offset = -1, pointer_flag = False, array_flag = False, bitfield_flag = False,
          d_size = -1, d_item_size = -1, d_tags = [], ext_array = None,
          ext_bitfield = \<lparr>bf_size = 0, bf_bits = 0, bf_pos = 0\<rparr>,
          d_id_len = n, d_identifier = s\<rparr>)"

definition decl_clone :: "vtables \<Rightarrow> Declarator \<Rightarrow> Declarator" where
  "decl_clone vt pSrc = pSrc\<lparr>
     d_identifier := CLONE_IDENT (d_id_len pSrc) (d_identifier pSrc),
     ext_array := (if array_flag pSrc
       then map_option (map (\<lambda>v. the (value_clone (Some v)))) (ext_array pSrc)
       else ext_array pSrc),
     d_tags := clone_taglist vt (d_tags pSrc)\<rparr>"

definition structdecl_new :: "TypeSpec \<Rightarrow> Declarator list option \<Rightarrow> StructDeclaration" where
  "structdecl_new type declarators =
     \<lparr>sd_type = type, sd_declarators = declarators, sd_offset = 0, sd_size = 0\<rparr>"

definition structdecl_clone :: "vtables \<Rightarrow> StructDeclaration \<Rightarrow> StructDeclaration" where
  "structdecl_clone vt pSrc =
     pSrc\<lparr>sd_declarators := map_option (map (decl_clone vt)) (sd_declarators pSrc)\<rparr>"

definition struct_new ::
  "string option \<Rightarrow> int \<Rightarrow> u_32 \<Rightarrow> int \<Rightarrow> StructDeclaration list option \<Rightarrow> Struct" where
  "struct_new identifier id_len tflags pack declarations =
     (let (n, s) = CONSTRUCT_IDENT identifier id_len
      in \<lparr>s_tflags = tflags, s_refcount = 0, s_align = 0, s_pack = cast_u 16 pack, s_size = 0,
          s_declarations = declarations, s_tags = [], s_id_len = n, s_identifier = s\<rparr>)"

definition struct_clone :: "vtables \<Rightarrow> Struct \<Rightarrow> Struct" where
  "struct_clone vt pSrc = pSrc\<lparr>
     s_identifier := CLONE_IDENT (s_id_len pSrc) (s_identifier pSrc),
     s_declarations := map_option (map (structdecl_clone vt)) (s_declarations pSrc),
     s_tags := clone_taglist vt (s_tags pSrc)\<rparr>"

definition typedef_new :: "nat option \<Rightarrow> Declarator option \<Rightarrow> Typedef" where
  "typedef_new pType pDecl = \<lparr>td_list = pType, td_decl = pDecl\<rparr>"

definition typedef_clone :: "vtables \<Rightarrow> Typedef \<Rightarrow> Typedef" where
  "typedef_clone vt pSrc = pSrc\<lparr>td_decl := map_option (decl_clone vt) (td_decl pSrc)\<rparr>"

definition typedef_list_new :: "TypeSpec \<Rightarrow> Typedef list option \<Rightarrow> TypedefList" where
  "typedef_list_new type typedefs = \<lparr>tl_type = type, tl_typedefs = typedefs\<rparr>"

text \<open>The copies of the typedefs point at the new list, \<open>self\<close>.\<close>

definition typedef_list_clone :: "vtables \<Rightarrow> nat \<Rightarrow> TypedefList \<Rightarrow> TypedefList" where
  "typedef_list_clone vt self pSrc = pSrc\<lparr>tl_typedefs :=
     map_option (map (\<lambda>t. (typedef_clone vt t)\<lparr>td_list := Some self\<rparr>)) (tl_typedefs pSrc)\<rparr>"

text \<open>
  Deleting an object frees all it owns. What can be observed are the \<open>free\<close> callbacks of the
  tags: the tags they run on, in order.
\<close>

definition enumspec_delete :: "vtables \<Rightarrow> EnumSpecifier option \<Rightarrow> CtTag list" where
  "enumspec_delete vt p = (case p of None \<Rightarrow> [] | Some e \<Rightarrow> snd (delete_taglist vt (es_tags e)))"

definition decl_delete :: "vtables \<Rightarrow> Declarator option \<Rightarrow> CtTag list" where
  "decl_delete vt p = (case p of None \<Rightarrow> [] | Some d \<Rightarrow> snd (delete_taglist vt (d_tags d)))"

definition structdecl_delete :: "vtables \<Rightarrow> StructDeclaration option \<Rightarrow> CtTag list" where
  "structdecl_delete vt p = (case p of None \<Rightarrow> [] | Some sd \<Rightarrow>
     concat (map (\<lambda>d. decl_delete vt (Some d)) (case sd_declarators sd of None \<Rightarrow> [] | Some ds \<Rightarrow> ds)))"

definition struct_delete :: "vtables \<Rightarrow> Struct option \<Rightarrow> CtTag list" where
  "struct_delete vt p = (case p of None \<Rightarrow> [] | Some s \<Rightarrow>
     concat (map (\<lambda>sd. structdecl_delete vt (Some sd))
       (case s_declarations s of None \<Rightarrow> [] | Some sds \<Rightarrow> sds))
     @ snd (delete_taglist vt (s_tags s)))"

definition typedef_delete :: "vtables \<Rightarrow> Typedef option \<Rightarrow> CtTag list" where
  "typedef_delete vt p = (case p of None \<Rightarrow> [] | Some t \<Rightarrow> decl_delete vt (td_decl t))"

definition typedef_list_delete :: "vtables \<Rightarrow> TypedefList option \<Rightarrow> CtTag list" where
  "typedef_list_delete vt p = (case p of None \<Rightarrow> [] | Some l \<Rightarrow>
     concat (map (\<lambda>t. typedef_delete vt (Some t)) (case tl_typedefs l of None \<Rightarrow> [] | Some ts \<Rightarrow> ts)))"

text \<open>A typedef knows its list through the address of the list's \<open>type\<close> member.\<close>

definition get_typedef_list :: "Typedef option \<Rightarrow> nat option" where
  "get_typedef_list pTypedef = (case pTypedef of None \<Rightarrow> None | Some t \<Rightarrow> td_list t)"

text \<open>Reference counts saturate at the largest \<open>unsigned\<close>.\<close>

datatype ctt_object =
  Ctt_enum EnumSpecifier | Ctt_struct Struct | Ctt_typedef Typedef | Ctt_typedef_list TypedefList

abbreviation UINT_MAX :: int where
  "UINT_MAX \<equiv> 2 ^ 32 - 1"

definition ctt_refcount_inc :: "ctt_object option \<Rightarrow> ctt_object option" where
  "ctt_refcount_inc ptr = (case ptr of None \<Rightarrow> None
     | Some (Ctt_enum e) \<Rightarrow> Some (Ctt_enum
         (if es_refcount e < UINT_MAX then e\<lparr>es_refcount := es_refcount e + 1\<rparr> else e))
     | Some (Ctt_struct s) \<Rightarrow> Some (Ctt_struct
         (if s_refcount s < UINT_MAX then s\<lparr>s_refcount := s_refcount s + 1\<rparr> else s))
     | Some obj \<Rightarrow> Some obj)"

section \<open>Identifiers survive\<close>

text \<open>The recorded length of an identifier is its length, cut at 255.\<close>

definition ident_ok :: "int \<Rightarrow> string \<Rightarrow> bool" where
  "ident_ok n s \<longleftrightarrow> n = min 255 (int (length s))"

lemma construct_ident_ok:
  "0 \<le> id_len \<Longrightarrow> id_len \<le> int (length s) \<Longrightarrow> CONSTRUCT_IDENT (Some s) id_len = (n, t) \<Longrightarrow>
   ident_ok n t"
  by (auto simp: CONSTRUCT_IDENT_def ident_len_def ident_ok_def Let_def split: if_splits)

lemma CTT_IDLEN_length: "ident_ok n s \<Longrightarrow> CTT_IDLEN n s = int (length s)"
  by (auto simp: ident_ok_def CTT_IDLEN_def)

lemma clone_ident: "ident_ok n s \<Longrightarrow> CLONE_IDENT n s = s"
  by (auto simp: CLONE_IDENT_def CTT_IDLEN_length) (auto simp: ident_ok_def min_def split: if_splits)

definition enumerator_ok :: "Enumerator \<Rightarrow> bool" where
  "enumerator_ok e \<longleftrightarrow> ident_ok (en_id_len e) (en_identifier e)"

definition declarator_ok :: "Declarator \<Rightarrow> bool" where
  "declarator_ok d \<longleftrightarrow> ident_ok (d_id_len d) (d_identifier d)"

definition structdecl_ok :: "StructDeclaration \<Rightarrow> bool" where
  "structdecl_ok sd \<longleftrightarrow> (\<forall>ds. sd_declarators sd = Some ds \<longrightarrow> (\<forall>d\<in>set ds. declarator_ok d))"

definition struct_ok :: "Struct \<Rightarrow> bool" where
  "struct_ok s \<longleftrightarrow> ident_ok (s_id_len s) (s_identifier s)
     \<and> (\<forall>sds. s_declarations s = Some sds \<longrightarrow> (\<forall>sd\<in>set sds. structdecl_ok sd))"

text \<open>A copy is the original up to what the \<open>clone\<close> callbacks do to the tags.\<close>

definition retag_decl :: "vtables \<Rightarrow> Declarator \<Rightarrow> Declarator" where
  "retag_decl vt d = d\<lparr>d_tags := map (tag_clone vt) (d_tags d)\<rparr>"

definition retag_struct :: "vtables \<Rightarrow> Struct \<Rightarrow> Struct" where
  "retag_struct vt s = s\<lparr>s_tags := map (tag_clone vt) (s_tags s),
     s_declarations := map_option (map (\<lambda>sd. sd\<lparr>sd_declarators :=
        map_option (map (retag_decl vt)) (sd_declarators sd)\<rparr>)) (s_declarations s)\<rparr>"

lemma decl_clone_retag: "declarator_ok d \<Longrightarrow> decl_clone vt d = retag_decl vt d"
  by (cases "ext_array d")
    (simp_all add: decl_clone_def retag_decl_def declarator_ok_def clone_ident clone_taglist_map
      value_clone_def)

lemma structdecl_clone_retag:
  "structdecl_ok sd \<Longrightarrow>
   structdecl_clone vt sd = sd\<lparr>sd_declarators := map_option (map (retag_decl vt)) (sd_declarators sd)\<rparr>"
  by (cases "sd_declarators sd")
    (simp_all add: structdecl_clone_def structdecl_ok_def decl_clone_retag)

section \<open>The range of an enum\<close>

lemma min_max_bounds:
  "min_max es mn mx = (a, b) \<Longrightarrow> mn \<le> mx \<Longrightarrow>
     a \<le> mn \<and> mx \<le> b \<and> (\<forall>e\<in>set es. a \<le> iv (en_value e) \<and> iv (en_value e) \<le> b)
     \<and> a \<in> insert mn ((iv \<circ> en_value) ` set es) \<and> b \<in> insert mx ((iv \<circ> en_value) ` set es)"
proof (induction es arbitrary: mn mx)
  case (Cons e es)
  let ?x = "iv (en_value e)"
  consider (gt) "mx < ?x" | (lt) "?x < mn" | (mid) "mn \<le> ?x" "?x \<le> mx" by linarith
  then show ?case
  proof cases
    case gt
    with Cons.prems Cons.IH [of mn ?x] show ?thesis by (auto simp: Let_def)
  next
    case lt
    with Cons.prems Cons.IH [of ?x mx] show ?thesis by (auto simp: Let_def)
  next
    case mid
    with Cons.prems Cons.IH [of mn mx] show ?thesis by (auto simp: Let_def)
  qed
qed auto

lemma unsafe_flags_has_flag:
  "has_flag m T_UNSAFE_VAL = False \<Longrightarrow> has_flag (unsafe_flags es f) m = has_flag f m"
proof (induction es arbitrary: f)
  case (Cons e es)
  have "has_flag T_UNSAFE_VAL m = False"
    using Cons.prems by (simp add: has_flag_def and.commute)
  then show ?case by (simp add: Cons has_flag_or)
qed simp

text \<open>\<open>n\<close> bytes hold \<open>x\<close>, unsigned or signed.\<close>

definition holds :: "bool \<Rightarrow> int \<Rightarrow> int \<Rightarrow> bool" where
  "holds sg n x \<longleftrightarrow> (if sg then - (2 ^ nat (8 * n - 1)) \<le> x \<and> x < 2 ^ nat (8 * n - 1)
     else 0 \<le> x \<and> x < 2 ^ nat (8 * n))"

lemma holds_sizes:
  "holds False 1 x \<longleftrightarrow> 0 \<le> x \<and> x < 256" "holds False 2 x \<longleftrightarrow> 0 \<le> x \<and> x < 65536"
  "holds False 4 x \<longleftrightarrow> 0 \<le> x \<and> x < 4294967296"
  "holds True 1 x \<longleftrightarrow> -128 \<le> x \<and> x < 128" "holds True 2 x \<longleftrightarrow> -32768 \<le> x \<and> x < 32768"
  "holds True 4 x \<longleftrightarrow> -2147483648 \<le> x \<and> x < 2147483648"
  by (simp_all add: holds_def)

text \<open>\<open>n\<close> is the least of the sizes 1, 2 and 4 that holds all values.\<close>

definition least_size :: "bool \<Rightarrow> int \<Rightarrow> Enumerator list \<Rightarrow> bool" where
  "least_size sg n es \<longleftrightarrow> n \<in> {1, 2, 4} \<and> (\<forall>e\<in>set es. holds sg n (iv (en_value e)))
     \<and> (\<forall>k\<in>{1, 2}. k < n \<longrightarrow> (\<exists>e\<in>set es. \<not> holds sg k (iv (en_value e))))"

lemma holds_between: "holds sg n a \<Longrightarrow> holds sg n b \<Longrightarrow> a \<le> x \<Longrightarrow> x \<le> b \<Longrightarrow> holds sg n x"
  by (cases sg) (auto simp: holds_def)

lemma holds_zero: "holds sg k 0"
  by (simp add: holds_def)

lemma least_size_min_max:
  assumes "min_max es 0 0 = (a, b)" and "holds sg 4 a" and "holds sg 4 b"
  shows "least_size sg (if holds sg 1 a \<and> holds sg 1 b then 1
    else if holds sg 2 a \<and> holds sg 2 b then 2 else 4) es" (is "least_size sg ?n es")
proof -
  note m = min_max_bounds [OF assms(1) order_refl]
  have "holds sg ?n a \<and> holds sg ?n b" using assms by simp
  then have 1: "\<forall>e\<in>set es. holds sg ?n (iv (en_value e))"
    using m holds_between [of sg ?n a b] by blast
  have w: "\<exists>e\<in>set es. \<not> holds sg k (iv (en_value e))" if "\<not> (holds sg k a \<and> holds sg k b)" for k
    using m that holds_zero [of sg k] by auto
  have "\<forall>k\<in>{1, 2}. k < ?n \<longrightarrow> (\<exists>e\<in>set es. \<not> holds sg k (iv (en_value e)))"
    using w [of 1] w [of 2] by simp
  with 1 show ?thesis unfolding least_size_def by simp
qed

section \<open>Properties\<close>

text \<open>
  Cloning a compound whose identifiers were recorded by the constructors yields the
  same compound, with all declarations, declarators, array dimensions and bit-fields; only the
  tags go through their \<open>clone\<close> callbacks. No identifier is truncated, however long it is.
\<close>

theorem struct_clone_faithful:
  assumes "struct_ok s"
  shows "struct_clone vt s = retag_struct vt s"
  using assms
  by (cases "s_declarations s")
    (simp_all add: struct_clone_def retag_struct_def struct_ok_def clone_ident clone_taglist_map
      structdecl_clone_retag)

text \<open>
  The sizes of an enum are the least that hold its values: for enumerators in the
  32-bit range, the enum is flagged signed exactly when some value is negative, its natural size
  is the least of 1, 2 and 4 bytes that holds every value in that signedness, and its signed
  size is the least that holds every value as a signed number.
\<close>

theorem enum_sizes_least:
  assumes "\<forall>e\<in>set es. holds True 4 (iv (en_value e))"
  shows "\<exists>u g. es_unsigned_size (enumspec_update spec es) = Some u
     \<and> es_signed_size (enumspec_update spec es) = Some g
     \<and> has_flag (es_tflags (enumspec_update spec es)) T_SIGNED = (\<exists>e\<in>set es. iv (en_value e) < 0)
     \<and> least_size (\<exists>e\<in>set es. iv (en_value e) < 0) u es \<and> least_size True g es"
proof -
  obtain a b where ab: "min_max es 0 0 = (a, b)" by force
  note m = min_max_bounds [OF ab order_refl]
  have sgn: "(\<exists>e\<in>set es. iv (en_value e) < 0) = (a < 0)" using m by force
  have flag: "has_flag (es_tflags (enumspec_update spec es)) T_SIGNED = (a < 0)"
    using ab unsafe_flags_has_flag [of T_SIGNED es 0]
    by (simp add: enumspec_update_def Let_def has_flag_or) (simp add: has_flag_def)
  have in4: "holds True 4 a" "holds True 4 b"
    using m assms holds_zero [of True 4] by auto
  have u: "es_unsigned_size (enumspec_update spec es) = Some
      (if holds (a < 0) 1 a \<and> holds (a < 0) 1 b then 1
       else if holds (a < 0) 2 a \<and> holds (a < 0) 2 b then 2 else 4)"
    using ab m by (cases "a < 0") (simp_all add: enumspec_update_def Let_def holds_sizes)
  have g: "es_signed_size (enumspec_update spec es) = Some
      (if holds True 1 a \<and> holds True 1 b then 1 else if holds True 2 a \<and> holds True 2 b then 2 else 4)"
    using ab m by (cases "a < 0") (simp_all add: enumspec_update_def Let_def holds_sizes)
  have "holds (a < 0) 4 a" "holds (a < 0) 4 b"
    using in4 m by (cases "a < 0"; simp add: holds_sizes)+
  then show ?thesis
    unfolding sgn flag u g
    using least_size_min_max [OF ab] in4 by blast
qed

section \<open>Witnesses\<close>

definition enumerator :: "string \<Rightarrow> int \<Rightarrow> Enumerator" where
  "enumerator s v = enum_new (Some s) 0 (Some (value_new v 0))"

theorem enum_sizes_least_witness:
  "\<exists>u g. least_size True u [enumerator ''A'' (-1), enumerator ''B'' 200]
     \<and> es_unsigned_size (enumspec_update (enumspec_new None 0 None)
          [enumerator ''A'' (-1), enumerator ''B'' 200]) = Some u
     \<and> least_size True g [enumerator ''A'' (-1), enumerator ''B'' 200]"
proof -
  have v: "iv (en_value (enumerator s v)) = v" for s v
    by (simp add: enumerator_def enum_new_def value_new_def CONSTRUCT_IDENT_def ident_len_def has_flag_def)
  show ?thesis
    using enum_sizes_least [of "[enumerator ''A'' (-1), enumerator ''B'' 200]" "enumspec_new None 0 None"]
    by (auto simp: v holds_sizes)
qed

text \<open>\<open>struct s { int x; };\<close>, and the same with a bit-field.\<close>

definition small_struct :: Struct where
  "small_struct = struct_new (Some ''s'') 0 T_STRUCT 0 (Some
     [structdecl_new \<lparr>ts_ptr = None, ts_tflags = T_INT\<rparr> (Some [decl_new (Some ''x'') 0])])"

theorem struct_clone_faithful_witness:
  "struct_clone (\<lambda>_. \<lparr>vt_init = None, vt_clone = None, vt_free = None\<rparr>) small_struct
     = retag_struct (\<lambda>_. \<lparr>vt_init = None, vt_clone = None, vt_free = None\<rparr>) small_struct"
  by (rule struct_clone_faithful)
    (simp add: struct_ok_def structdecl_ok_def declarator_ok_def ident_ok_def small_struct_def
      struct_new_def structdecl_new_def decl_new_def CONSTRUCT_IDENT_def ident_len_def)

end
