(* ===== verification/Bitfields.thy ===== *)
theory Bitfields
  imports C_Types
begin

text \<open>
  \<^verbatim>\<open>ctlib/bitfields.h\<close> and \<^verbatim>\<open>ctlib/bitfields.c\<close>: the three bit-field layout engines behind
  one table of operations, with the property accessors that \<^verbatim>\<open>token/blproperty.pl\<close> emits
  for them. A push returns the engine's error, its new state and the placed declarator.
\<close>

section \<open>Properties and parameters\<close>

datatype BLError = BLE_NO_ERROR | BLE_INVALID_PROPERTY | BLE_BITFIELD_TOO_WIDE

datatype BLProperty = BLP_ALIGN | BLP_BLOCK_SIZE | BLP_BYTE_ORDER | BLP_MAX_ALIGN | BLP_OFFSET
  | INVALID_BLPROPERTY

datatype BLPropValStr = BLPV_BIG_ENDIAN | BLPV_LITTLE_ENDIAN | INVALID_BLPROPVAL

datatype BLPropValue = BLPVT_INT int | BLPVT_STR BLPropValStr

record BLPushParam =
  pp_decl :: Declarator
  pp_type_size :: int
  pp_type_align :: int

definition BITS :: "int \<Rightarrow> int" where
  "BITS bytes = 8 * bytes"

record BL_Common =
  byte_order :: BLPropValStr
  max_align :: int
  align :: int
  offset :: int

record BL_Generic = BL_Common +
  bit_offset :: int
  cur_type_size :: int
  cur_type_align :: int

type_synonym BL_Microsoft = BL_Generic

record BL_Simple = BL_Common +
  block_size :: int
  pos :: int
  bits_left :: int

text \<open>The generated accessors; every engine has the four mandatory properties.\<close>

definition common_get :: "'a BL_Common_scheme \<Rightarrow> BLProperty \<Rightarrow> BLError \<times> BLPropValue option" where
  "common_get self prop = (case prop of
     BLP_ALIGN \<Rightarrow> (BLE_NO_ERROR, Some (BLPVT_INT (align self)))
   | BLP_BYTE_ORDER \<Rightarrow> (BLE_NO_ERROR, Some (BLPVT_STR (byte_order self)))
   | BLP_MAX_ALIGN \<Rightarrow> (BLE_NO_ERROR, Some (BLPVT_INT (max_align self)))
   | BLP_OFFSET \<Rightarrow> (BLE_NO_ERROR, Some (BLPVT_INT (offset self)))
   | _ \<Rightarrow> (BLE_INVALID_PROPERTY, None))"

definition common_set ::
  "'a BL_Common_scheme \<Rightarrow> BLProperty \<Rightarrow> BLPropValue \<Rightarrow> (BLError \<times> 'a BL_Common_scheme) run" where
  "common_set self prop value = (case (prop, value) of
     (BLP_ALIGN, BLPVT_INT v) \<Rightarrow> Inr (BLE_NO_ERROR, self\<lparr>align := v\<rparr>)
   | (BLP_BYTE_ORDER, BLPVT_STR v) \<Rightarrow> Inr (BLE_NO_ERROR, self\<lparr>byte_order := v\<rparr>)
   | (BLP_MAX_ALIGN, BLPVT_INT v) \<Rightarrow> Inr (BLE_NO_ERROR, self\<lparr>max_align := v\<rparr>)
   | (BLP_OFFSET, BLPVT_INT v) \<Rightarrow> Inr (BLE_NO_ERROR, self\<lparr>offset := v\<rparr>)
   | (BLP_BLOCK_SIZE, _) \<Rightarrow> Inr (BLE_INVALID_PROPERTY, self)
   | (INVALID_BLPROPERTY, _) \<Rightarrow> Inr (BLE_INVALID_PROPERTY, self)
   | _ \<Rightarrow> Inl Assertion_failed)"

definition Simple_get :: "BL_Simple \<Rightarrow> BLProperty \<Rightarrow> BLError \<times> BLPropValue option" where
  "Simple_get self prop = (case prop of
     BLP_BLOCK_SIZE \<Rightarrow> (BLE_NO_ERROR, Some (BLPVT_INT (block_size self)))
   | _ \<Rightarrow> common_get self prop)"

definition Simple_set ::
  "BL_Simple \<Rightarrow> BLProperty \<Rightarrow> BLPropValue \<Rightarrow> (BLError \<times> BL_Simple) run" where
  "Simple_set self prop value = (case prop of
     BLP_BLOCK_SIZE \<Rightarrow> (case value of
         BLPVT_INT v \<Rightarrow> Inr (BLE_NO_ERROR, self\<lparr>block_size := v\<rparr>)
       | BLPVT_STR _ \<Rightarrow> Inl Assertion_failed)
   | _ \<Rightarrow> common_set self prop value)"

section \<open>Placing a field\<close>

text \<open>
  The writes to the declarator of a push: its offset, its size, and the position of the
  field in its unit, with the assertion on the position.
\<close>

definition place_field :: "Declarator \<Rightarrow> int \<Rightarrow> int \<Rightarrow> int \<Rightarrow> Declarator" where
  "place_field d off sz p = d\<lparr>d_offset := cast_s 29 off, d_size := to_int sz,
     ext_bitfield := (ext_bitfield d)\<lparr>bf_size := to_uchar sz, bf_pos := to_uchar p\<rparr>\<rparr>"

definition field_pos :: "BLPropValStr \<Rightarrow> int \<Rightarrow> int \<Rightarrow> int \<Rightarrow> int run" where
  "field_pos order unit used_bits bits = (case order of
     BLPV_LITTLE_ENDIAN \<Rightarrow> Inr used_bits
   | BLPV_BIG_ENDIAN \<Rightarrow> Inr (unit - used_bits - bits)
   | INVALID_BLPROPVAL \<Rightarrow> Inl Fatal_error)"

section \<open>Generic\<close>

definition Generic_init :: "BL_Generic \<Rightarrow> BL_Generic" where
  "Generic_init self = self\<lparr>byte_order := BLPV_LITTLE_ENDIAN\<rparr>"

definition Generic_reset :: "BL_Generic \<Rightarrow> BL_Generic" where
  "Generic_reset self = self\<lparr>bit_offset := 0, cur_type_size := 0, cur_type_align := 0\<rparr>"

text \<open>
  The loop that moves the cursor until the field fits the current type: \<open>None\<close> when it
  never does.
\<close>

partial_function (option) move_offset :: "int \<Rightarrow> int \<Rightarrow> int \<Rightarrow> int \<Rightarrow> int \<Rightarrow> (int \<times> int) option" where
  "move_offset bits ts ta off bo =
     (if bits > BITS ts - bo
      then move_offset bits ts ta (off + ta) (if bo > BITS ta then bo - BITS ta else 0)
      else Some (off, bo))"

declare move_offset.simps [code]

definition Generic_type_change :: "BL_Generic \<Rightarrow> int \<Rightarrow> int \<Rightarrow> BL_Generic run" where
  "Generic_type_change self tsize talign =
     (if cur_type_size self \<noteq> to_int tsize then
        let al = (if to_int talign < max_align self then to_int talign else max_align self) in
        and_then (c_mod (offset self) al) (\<lambda>delta.
        Inr (self\<lparr>align := (if al > align self then al else align self),
             offset := offset self - delta,
             bit_offset := bit_offset self + BITS delta,
             cur_type_size := to_int tsize, cur_type_align := al\<rparr>))
      else Inr self)"

text \<open>The bytes a field ending at bit \<open>n\<close> of its unit needs; beyond 8 bytes it stays unset.\<close>

definition bytes_used :: "int \<Rightarrow> int option" where
  "bytes_used n = (if n \<le> BITS 1 then Some 1 else if n \<le> BITS 2 then Some 2
     else if n \<le> BITS 4 then Some 4 else if n \<le> BITS 8 then Some 8 else None)"

definition Generic_push ::
  "BL_Generic \<Rightarrow> BLPushParam \<Rightarrow> (BLError \<times> BL_Generic \<times> Declarator) run" where
  "Generic_push self0 pParam =
     (let d = pp_decl pParam; bits = bf_bits (ext_bitfield d) in
      and_then (check Assertion_failed (bitfield_flag d)) (\<lambda>_.
      and_then (Generic_type_change self0 (pp_type_size pParam) (pp_type_align pParam)) (\<lambda>self1.
      case move_offset bits (cur_type_size self1) (cur_type_align self1)
             (offset self1) (bit_offset self1) of
        None \<Rightarrow> Inl Diverges
      | Some (off, bo) \<Rightarrow>
          let self = self1\<lparr>offset := off, bit_offset := bo\<rparr> in
          if bits = 0 then
            if bo > 0 then
              and_then (c_mod off (cur_type_size self)) (\<lambda>m.
              Inr (BLE_NO_ERROR, self\<lparr>offset := off + (cur_type_size self - m), bit_offset := 0\<rparr>, d))
            else Inr (BLE_NO_ERROR, self, d)
          else
            let new_bit_offset = bo + bits in
            case bytes_used new_bit_offset of
              None \<Rightarrow> Inl Undefined_behaviour
            | Some used \<Rightarrow>
                and_then (check Assertion_failed (used \<le> cur_type_size self)) (\<lambda>_.
                and_then (field_pos (byte_order self) (BITS used) bo bits) (\<lambda>p.
                and_then (check Assertion_failed (to_uchar p < 64)) (\<lambda>_.
                Inr (BLE_NO_ERROR, self\<lparr>bit_offset := new_bit_offset\<rparr>, place_field d off used p)))))))"

definition Generic_finalize :: "BL_Generic \<Rightarrow> BLError \<times> BL_Generic" where
  "Generic_finalize self =
     (BLE_NO_ERROR, self\<lparr>offset := offset self + (bit_offset self + (BITS 1 - 1)) div BITS 1\<rparr>)"

section \<open>Microsoft\<close>

definition Microsoft_init :: "BL_Microsoft \<Rightarrow> BL_Microsoft" where
  "Microsoft_init self = self\<lparr>byte_order := BLPV_LITTLE_ENDIAN\<rparr>"

definition Microsoft_reset :: "BL_Microsoft \<Rightarrow> BL_Microsoft" where
  "Microsoft_reset self = self\<lparr>bit_offset := 0, cur_type_size := 0, cur_type_align := 0\<rparr>"

text \<open>Leaving a unit that is partly filled.\<close>

definition Microsoft_skip :: "BL_Microsoft \<Rightarrow> BL_Microsoft" where
  "Microsoft_skip self =
     (if bit_offset self > 0 then self\<lparr>offset := offset self + cur_type_size self, bit_offset := 0\<rparr>
      else self)"

definition Microsoft_type_change :: "BL_Microsoft \<Rightarrow> int \<Rightarrow> int \<Rightarrow> BL_Microsoft run" where
  "Microsoft_type_change self tsize talign =
     (if cur_type_size self \<noteq> to_int tsize then
        let al = (if to_int talign < max_align self then to_int talign else max_align self);
            self1 = Microsoft_skip (self\<lparr>align := (if al > align self then al else align self)\<rparr>) in
        and_then (c_mod (offset self1) al) (\<lambda>delta.
        let self2 = (if delta \<noteq> 0 then self1\<lparr>offset := offset self1 + (al - delta), bit_offset := 0\<rparr>
                     else self1)
        in Inr (self2\<lparr>cur_type_size := to_int tsize, cur_type_align := al\<rparr>))
      else Inr self)"

definition Microsoft_push ::
  "BL_Microsoft \<Rightarrow> BLPushParam \<Rightarrow> (BLError \<times> BL_Microsoft \<times> Declarator) run" where
  "Microsoft_push self0 pParam =
     (let d = pp_decl pParam; bits = bf_bits (ext_bitfield d) in
      and_then (check Assertion_failed (bitfield_flag d)) (\<lambda>_.
      and_then (Microsoft_type_change self0 (pp_type_size pParam) (pp_type_align pParam)) (\<lambda>self1.
      if bits = 0 then Inr (BLE_NO_ERROR, Microsoft_skip self1, d)
      else
        let full = bits > BITS (cur_type_size self1) - bit_offset self1 in
        if full \<and> bits > BITS (cur_type_size self1) then Inr (BLE_BITFIELD_TOO_WIDE, self1, d)
        else
          let self = (if full then self1\<lparr>offset := offset self1 + cur_type_size self1, bit_offset := 0\<rparr>
                      else self1) in
          and_then (field_pos (byte_order self) (BITS (cur_type_size self)) (bit_offset self) bits) (\<lambda>p.
          and_then (check Assertion_failed (to_uchar p < 64)) (\<lambda>_.
          Inr (BLE_NO_ERROR, self\<lparr>bit_offset := bit_offset self + bits\<rparr>,
               place_field d (offset self) (cur_type_size self) p))))))"

definition Microsoft_finalize :: "BL_Microsoft \<Rightarrow> BLError \<times> BL_Microsoft" where
  "Microsoft_finalize self = (BLE_NO_ERROR,
     if bit_offset self > 0 then self\<lparr>offset := offset self + cur_type_size self\<rparr> else self)"

section \<open>Simple\<close>

definition Simple_init :: "BL_Simple \<Rightarrow> BL_Simple" where
  "Simple_init self = self\<lparr>byte_order := BLPV_LITTLE_ENDIAN, block_size := 4\<rparr>"

definition Simple_reset :: "BL_Simple \<Rightarrow> BL_Simple run" where
  "Simple_reset self = and_then (c_mod (offset self) (block_size self)) (\<lambda>m.
     Inr (self\<lparr>offset := offset self + (block_size self - m), pos := 0,
               bits_left := BITS (block_size self)\<rparr>))"

definition Simple_next_block :: "BL_Simple \<Rightarrow> BL_Simple" where
  "Simple_next_block self =
     self\<lparr>pos := pos self + block_size self, bits_left := BITS (block_size self)\<rparr>"

definition Simple_push ::
  "BL_Simple \<Rightarrow> BLPushParam \<Rightarrow> (BLError \<times> BL_Simple \<times> Declarator) run" where
  "Simple_push self0 pParam =
     (let d = pp_decl pParam; bits = bf_bits (ext_bitfield d) in
      and_then (check Assertion_failed (bitfield_flag d)) (\<lambda>_.
      if bits = 0 then Inr (BLE_NO_ERROR, Simple_next_block self0, d)
      else
        let self = (if bits > bits_left self0 then Simple_next_block self0 else self0) in
        and_then (field_pos (byte_order self) (BITS (block_size self))
                    (BITS (block_size self) - bits_left self) bits) (\<lambda>p.
        Inr (BLE_NO_ERROR, self\<lparr>bits_left := bits_left self - bits\<rparr>,
             place_field d (offset self + pos self) (block_size self) p))))"

definition Simple_finalize :: "BL_Simple \<Rightarrow> BLError \<times> BL_Simple" where
  "Simple_finalize self0 =
     (let self = (if bits_left self0 \<noteq> BITS (block_size self0)
                  then self0\<lparr>pos := pos self0 + block_size self0\<rparr> else self0)
      in (BLE_NO_ERROR, self\<lparr>offset := offset self + pos self, align := block_size self\<rparr>))"

section \<open>The table of operations\<close>

datatype BitfieldLayouter = Generic BL_Generic | Microsoft BL_Microsoft | Simple BL_Simple

definition bl_reset :: "BitfieldLayouter \<Rightarrow> BitfieldLayouter run" where
  "bl_reset bl = (case bl of Generic g \<Rightarrow> Inr (Generic (Generic_reset g))
     | Microsoft g \<Rightarrow> Inr (Microsoft (Microsoft_reset g))
     | Simple s \<Rightarrow> and_then (Simple_reset s) (\<lambda>s'. Inr (Simple s')))"

definition bl_push ::
  "BitfieldLayouter \<Rightarrow> BLPushParam \<Rightarrow> (BLError \<times> BitfieldLayouter \<times> Declarator) run" where
  "bl_push bl p = (case bl of
       Generic g \<Rightarrow> and_then (Generic_push g p) (\<lambda>(e, g', d). Inr (e, Generic g', d))
     | Microsoft g \<Rightarrow> and_then (Microsoft_push g p) (\<lambda>(e, g', d). Inr (e, Microsoft g', d))
     | Simple s \<Rightarrow> and_then (Simple_push s p) (\<lambda>(e, s', d). Inr (e, Simple s', d)))"

definition bl_finalize :: "BitfieldLayouter \<Rightarrow> BLError \<times> BitfieldLayouter" where
  "bl_finalize bl = (case bl of Generic g \<Rightarrow> map_prod id Generic (Generic_finalize g)
     | Microsoft g \<Rightarrow> map_prod id Microsoft (Microsoft_finalize g)
     | Simple s \<Rightarrow> map_prod id Simple (Simple_finalize s))"

definition bl_get :: "BitfieldLayouter \<Rightarrow> BLProperty \<Rightarrow> BLError \<times> BLPropValue option" where
  "bl_get bl prop = (case bl of Generic g \<Rightarrow> common_get g prop | Microsoft g \<Rightarrow> common_get g prop
     | Simple s \<Rightarrow> Simple_get s prop)"

definition bl_set ::
  "BitfieldLayouter \<Rightarrow> BLProperty \<Rightarrow> BLPropValue \<Rightarrow> (BLError \<times> BitfieldLayouter) run" where
  "bl_set bl prop value = (case bl of
       Generic g \<Rightarrow> and_then (common_set g prop value) (\<lambda>(e, g'). Inr (e, Generic g'))
     | Microsoft g \<Rightarrow> and_then (common_set g prop value) (\<lambda>(e, g'). Inr (e, Microsoft g'))
     | Simple s \<Rightarrow> and_then (Simple_set s prop value) (\<lambda>(e, s'). Inr (e, Simple s')))"

definition bl_class_name :: "BitfieldLayouter \<Rightarrow> string" where
  "bl_class_name bl = (case bl of Generic _ \<Rightarrow> ''Generic'' | Microsoft _ \<Rightarrow> ''Microsoft''
     | Simple _ \<Rightarrow> ''Simple'')"

definition bl_clone :: "BitfieldLayouter \<Rightarrow> BitfieldLayouter" where
  "bl_clone self = self"

text \<open>A new engine is zeroed, then initialised; zero is the first of the byte orders.\<close>

definition zero_generic :: BL_Generic where
  "zero_generic = \<lparr>byte_order = BLPV_BIG_ENDIAN, max_align = 0, align = 0, offset = 0,
     bit_offset = 0, cur_type_size = 0, cur_type_align = 0\<rparr>"

definition zero_simple :: BL_Simple where
  "zero_simple = \<lparr>byte_order = BLPV_BIG_ENDIAN, max_align = 0, align = 0, offset = 0,
     block_size = 0, pos = 0, bits_left = 0\<rparr>"

definition bl_create :: "string \<Rightarrow> BitfieldLayouter option" where
  "bl_create class_name =
     (if class_name = ''Generic'' then Some (Generic (Generic_init zero_generic))
      else if class_name = ''Microsoft'' then Some (Microsoft (Microsoft_init zero_generic))
      else if class_name = ''Simple'' then Some (Simple (Simple_init zero_simple))
      else None)"

end
