(* ===== verification/Layout.thy ===== *)
theory Layout
  imports Bitfields
begin

text \<open>
  \<^verbatim>\<open>ctlib/layout.h\<close> and \<^verbatim>\<open>ctlib/layout.c\<close>: sizes and alignments of C types, and the offsets of
  the members of structs and unions. The state is the store of shared objects, the two
  cached host alignments, and the bit-field layouter, which all compounds share.
\<close>

section \<open>Parameters, host and state\<close>

datatype ErrorGTI = GTI_NO_ERROR | GTI_NO_STRUCT_DECL

record LayoutParam =
  alignment :: int
  compound_alignment :: int
  char_size :: int
  int_size :: int
  short_size :: int
  long_size :: int
  long_long_size :: int
  enum_size :: int
  ptr_size :: int
  float_size :: int
  double_size :: int
  long_double_size :: int
  lp_byte_order :: CByteOrder

text \<open>What the compiler of the host says: sizes, and offsets of a type after a \<open>char\<close>.\<close>

record Host =
  sizeof_char :: int
  sizeof_short :: int
  sizeof_int :: int
  sizeof_long :: int
  sizeof_long_long :: int
  sizeof_float :: int
  sizeof_double :: int
  sizeof_long_double :: int
  sizeof_ptr :: int
  aligned_offsets :: "int list"
  compound_offset :: int

record CState =
  structs :: "nat \<rightharpoonup> Struct"
  enums :: "nat \<rightharpoonup> EnumSpecifier"
  typedefs :: "nat \<rightharpoonup> Typedef"
  typedef_lists :: "nat \<rightharpoonup> TypedefList"
  layouter :: BitfieldLayouter
  native_alignment :: int
  native_compound_alignment :: int

record TypeInfo =
  ti_size :: int
  ti_align :: int
  ti_item_size :: int
  ti_flags :: u_32

section \<open>Host properties\<close>

text \<open>The offsets are those of \<open>int\<close>, \<open>int *\<close>, \<open>long\<close>, the floating types and the long types.\<close>

fun check_alignments :: "int list \<Rightarrow> int \<Rightarrow> int" where
  "check_alignments [] al = al"
| "check_alignments (o1 # os) al = check_alignments os (if o1 > al then o1 else al)"

definition get_native_alignment :: "Host \<Rightarrow> CState \<Rightarrow> int \<times> CState" where
  "get_native_alignment h st =
     (let al = check_alignments (aligned_offsets h) 0 in (al, st\<lparr>native_alignment := al\<rparr>))"

definition get_native_compound_alignment :: "Host \<Rightarrow> CState \<Rightarrow> int \<times> CState" where
  "get_native_compound_alignment h st =
     (compound_offset h, st\<lparr>native_compound_alignment := compound_offset h\<rparr>)"

definition LAYOUT_ALIGNMENT :: "Host \<Rightarrow> LayoutParam \<Rightarrow> CState \<Rightarrow> int \<times> CState" where
  "LAYOUT_ALIGNMENT h lp st =
     (if alignment lp \<noteq> 0 then (alignment lp, st)
      else if native_alignment st \<noteq> 0 then (native_alignment st, st)
      else get_native_alignment h st)"

definition LAYOUT_COMPOUND_ALIGNMENT :: "Host \<Rightarrow> LayoutParam \<Rightarrow> CState \<Rightarrow> int \<times> CState" where
  "LAYOUT_COMPOUND_ALIGNMENT h lp st =
     (if compound_alignment lp \<noteq> 0 then (compound_alignment lp, st)
      else if native_compound_alignment st \<noteq> 0 then (native_compound_alignment st, st)
      else get_native_compound_alignment h st)"

text \<open>The sizes of the six probe enums, in the order of their declaration.\<close>

definition get_native_enum_size :: "int \<times> int \<times> int \<times> int \<times> int \<times> int \<Rightarrow> int run" where
  "get_native_enum_size sizes = (case sizes of (pbyte, nbyte, pword, nword, plong, nlong) \<Rightarrow>
     if pbyte = 2 \<and> nbyte = 1 \<and> pword = 4 \<and> nword = 2 \<and> plong = 4 \<and> nlong = 4 then Inr (-1)
     else if pbyte = 1 \<and> nbyte = 1 \<and> pword = 2 \<and> nword = 2 \<and> plong = 4 \<and> nlong = 4 then Inr 0
     else if pbyte = nbyte \<and> pbyte = pword \<and> pbyte = nword \<and> pbyte = plong \<and> pbyte = nlong
     then Inr pbyte
     else Inl Fatal_error)"

text \<open>What \<open>-1\<close> becomes in a plain \<open>char\<close>, or in a plain 3-bit field, read back as an \<open>int\<close>.\<close>

definition get_native_unsigned_chars :: "int \<Rightarrow> int run" where
  "get_native_unsigned_chars i = (if i = -1 then Inr 0 else if i > 0 then Inr 1 else Inl Fatal_error)"

definition get_native_unsigned_bitfields :: "int \<Rightarrow> int run" where
  "get_native_unsigned_bitfields i = (if i = -1 then Inr 0 else if i > 0 then Inr 1 else Inl Fatal_error)"

section \<open>Type information\<close>

definition or_native :: "int \<Rightarrow> int \<Rightarrow> int" where
  "or_native configured native = (if configured \<noteq> 0 then configured else native)"

definition basic_size :: "Host \<Rightarrow> LayoutParam \<Rightarrow> u_32 \<Rightarrow> int" where
  "basic_size h lp flags =
     (if has_flag flags T_VOID then 1
      else if flags AND (T_LONG OR T_DOUBLE) = T_LONG OR T_DOUBLE
        then or_native (long_double_size lp) (sizeof_long_double h)
      else if has_flag flags T_LONGLONG then or_native (long_long_size lp) (sizeof_long_long h)
      else if has_flag flags T_FLOAT then or_native (float_size lp) (sizeof_float h)
      else if has_flag flags T_DOUBLE then or_native (double_size lp) (sizeof_double h)
      else if has_flag flags T_CHAR then or_native (char_size lp) (sizeof_char h)
      else if has_flag flags T_SHORT then or_native (short_size lp) (sizeof_short h)
      else if has_flag flags T_LONG then or_native (long_size lp) (sizeof_long h)
      else or_native (int_size lp) (sizeof_int h))"

text \<open>The size of an enum: configured, or one of the two sizes of its specifier.\<close>

definition enum_type_size :: "LayoutParam \<Rightarrow> CState \<Rightarrow> nat option \<Rightarrow> int run" where
  "enum_type_size lp st ptr =
     (if enum_size lp > 0 then Inr (enum_size lp)
      else case ptr of None \<Rightarrow> Inl Assertion_failed
      | Some k \<Rightarrow> (case enums st k of None \<Rightarrow> Inl Undefined_behaviour
          | Some e \<Rightarrow> (case (if enum_size lp = 0 then es_unsigned_size e
                            else if enum_size lp = -1 then es_signed_size e else None) of
              None \<Rightarrow> Inl Undefined_behaviour | Some n \<Rightarrow> Inr n)))"

text \<open>The dimensions of an array multiply the size, in 32 bits.\<close>

fun array_dims :: "Value list \<Rightarrow> int \<Rightarrow> u_32 \<Rightarrow> int \<times> u_32" where
  "array_dims [] sz flags = (sz, flags)"
| "array_dims (v # vs) sz flags =
     array_dims vs (to_unsigned (sz * iv v)) (if IS_UNSAFE_VAL v then flags OR T_UNSAFE_VAL else flags)"

definition apply_array :: "Declarator option \<Rightarrow> TypeInfo \<Rightarrow> TypeInfo" where
  "apply_array pDecl info = (case pDecl of
     Some d \<Rightarrow> if array_flag d then
         (let (sz, flags) = array_dims (case ext_array d of None \<Rightarrow> [] | Some vs \<Rightarrow> vs)
            (ti_item_size info) (ti_flags info)
          in info\<lparr>ti_size := sz, ti_flags := flags\<rparr>)
       else info\<lparr>ti_size := ti_item_size info\<rparr>
   | None \<Rightarrow> info\<lparr>ti_size := ti_item_size info\<rparr>)"

type_synonym gti = "CState \<Rightarrow> TypeSpec \<Rightarrow> Declarator option \<Rightarrow> (ErrorGTI \<times> TypeInfo \<times> CState) run"

definition plain_info :: "int \<Rightarrow> TypeInfo" where
  "plain_info n = \<lparr>ti_size = n, ti_align = n, ti_item_size = n, ti_flags = 0\<rparr>"

text \<open>
  One call of \<open>get_type_info_generic\<close> asking for everything; \<open>gti\<close> and \<open>layout\<close> are the
  recursive calls. What a format does not ask for is computed and not used.
\<close>

definition type_info_step ::
  "gti \<Rightarrow> (CState \<Rightarrow> nat \<Rightarrow> CState run) \<Rightarrow> Host \<Rightarrow> LayoutParam \<Rightarrow> gti" where
  "type_info_step gti layout h lp st pTS pDecl =
     (let flags = ts_tflags pTS;
          done = (\<lambda>(err, info, st'). Inr (err, apply_array pDecl info, st')) in
      if (case pDecl of Some d \<Rightarrow> pointer_flag d | None \<Rightarrow> False) then
        done (GTI_NO_ERROR, plain_info (or_native (ptr_size lp) (sizeof_ptr h)), st)
      else if has_flag flags T_TYPE then
        (case ts_ptr pTS of None \<Rightarrow> Inl Assertion_failed
         | Some t \<Rightarrow> (case typedefs st t of None \<Rightarrow> Inl Undefined_behaviour
           | Some td \<Rightarrow> (case td_list td of None \<Rightarrow> Inl Undefined_behaviour
             | Some l \<Rightarrow> (case typedef_lists st l of None \<Rightarrow> Inl Undefined_behaviour
               | Some lst \<Rightarrow> and_then (gti st (tl_type lst) (td_decl td)) (\<lambda>(err, info, st').
                   done (err, info\<lparr>ti_item_size := ti_size info\<rparr>, st'))))))
      else if has_flag flags T_ENUM then
        and_then (enum_type_size lp st (ts_ptr pTS)) (\<lambda>n. done (GTI_NO_ERROR, plain_info n, st))
      else if has_flag flags T_COMPOUND then
        (case ts_ptr pTS of None \<Rightarrow> Inl Assertion_failed
         | Some k \<Rightarrow> (case structs st k of None \<Rightarrow> Inl Undefined_behaviour
           | Some s \<Rightarrow>
               if s_declarations s = None then
                 done (GTI_NO_STRUCT_DECL, (plain_info (or_native (int_size lp) (sizeof_int h)))
                   \<lparr>ti_flags := s_tflags s AND (T_HASBITFIELD OR T_UNSAFE_VAL)\<rparr>, st)
               else
                 and_then (if s_align s = 0 then layout st k else Inr st) (\<lambda>st'.
                 case structs st' k of None \<Rightarrow> Inl Undefined_behaviour
                 | Some s' \<Rightarrow> done (GTI_NO_ERROR,
                     \<lparr>ti_size = s_size s', ti_align = s_align s', ti_item_size = s_size s',
                      ti_flags = s_tflags s' AND (T_HASBITFIELD OR T_UNSAFE_VAL)\<rparr>, st'))))
      else done (GTI_NO_ERROR, plain_info (basic_size h lp flags), st))"

section \<open>Laying out a compound\<close>

text \<open>Writes to the compound being laid out, number \<open>k\<close>.\<close>

definition upd_struct :: "nat \<Rightarrow> (Struct \<Rightarrow> Struct) \<Rightarrow> CState \<Rightarrow> CState" where
  "upd_struct k f st = st\<lparr>structs := (structs st)(k := map_option f (structs st k))\<rparr>"

definition the_struct :: "CState \<Rightarrow> nat \<Rightarrow> Struct run" where
  "the_struct st k = (case structs st k of None \<Rightarrow> Inl Undefined_behaviour | Some s \<Rightarrow> Inr s)"

text \<open>A property that cannot be set or read ends the run.\<close>

definition BL_SET :: "CState \<Rightarrow> BLProperty \<Rightarrow> BLPropValue \<Rightarrow> CState run" where
  "BL_SET st prop val = and_then (bl_set (layouter st) prop val) (\<lambda>(err, bl).
     and_then (check Fatal_error (err = BLE_NO_ERROR)) (\<lambda>_. Inr (st\<lparr>layouter := bl\<rparr>)))"

definition BL_SET_BYTE_ORDER :: "CState \<Rightarrow> CByteOrder \<Rightarrow> CState run" where
  "BL_SET_BYTE_ORDER st order = BL_SET st BLP_BYTE_ORDER (BLPVT_STR
     (case order of CBO_BIG_ENDIAN \<Rightarrow> BLPV_BIG_ENDIAN | CBO_LITTLE_ENDIAN \<Rightarrow> BLPV_LITTLE_ENDIAN))"

definition BL_GET :: "CState \<Rightarrow> BLProperty \<Rightarrow> int run" where
  "BL_GET st prop = (case bl_get (layouter st) prop of
     (BLE_NO_ERROR, Some (BLPVT_INT n)) \<Rightarrow> Inr n
   | (BLE_NO_ERROR, _) \<Rightarrow> Inl Assertion_failed
   | _ \<Rightarrow> Inl Fatal_error)"

definition FINISH_BITFIELD :: "CState \<Rightarrow> nat \<Rightarrow> CState run" where
  "FINISH_BITFIELD st k =
     (let st1 = st\<lparr>layouter := snd (bl_finalize (layouter st))\<rparr> in
      and_then (BL_GET st1 BLP_OFFSET) (\<lambda>off.
      and_then (BL_GET st1 BLP_ALIGN) (\<lambda>al.
      Inr (upd_struct k (\<lambda>s. s\<lparr>s_size := to_unsigned off, s_align := cast_u 16 al\<rparr>) st1))))"

text \<open>Starting a run of bit-fields in a struct, or a single one in a union.\<close>

definition start_bitfield :: "CState \<Rightarrow> Struct \<Rightarrow> CState run" where
  "start_bitfield st s = and_then (bl_reset (layouter st)) (\<lambda>bl.
     and_then (BL_SET (st\<lparr>layouter := bl\<rparr>) BLP_ALIGN (BLPVT_INT (s_align s))) (\<lambda>st1.
     BL_SET st1 BLP_OFFSET (BLPVT_INT (if has_flag (s_tflags s) T_STRUCT then s_size s else 0))))"

text \<open>Rounding up: the padding of a member and the tail of the compound.\<close>

definition pad :: "int \<Rightarrow> int \<Rightarrow> int run" where
  "pad sz al = and_then (c_mod sz al) (\<lambda>m.
     Inr (if m \<noteq> 0 then to_unsigned (sz + (al - m)) else sz))"

text \<open>The bits a member's type passes on to the compound.\<close>

definition inherit_flags :: "u_32 \<Rightarrow> bool \<Rightarrow> u_32 \<Rightarrow> u_32" where
  "inherit_flags flags is_bitfield tflags =
     (let tf = (if has_flag flags T_HASBITFIELD \<or> is_bitfield then tflags OR T_HASBITFIELD else tflags)
      in if has_flag flags T_UNSAFE_VAL then tf OR T_UNSAFE_VAL else tf)"

definition place_bitfield ::
  "nat \<Rightarrow> TypeInfo \<Rightarrow> Declarator \<Rightarrow> CState \<times> bool \<Rightarrow> (Declarator \<times> CState \<times> bool) run" where
  "place_bitfield k info d = (\<lambda>(st, in_bitfield).
     and_then (the_struct st k) (\<lambda>s.
     and_then (if in_bitfield then Inr st else start_bitfield st s) (\<lambda>st1.
     and_then (bl_push (layouter st1)
       \<lparr>pp_decl = d, pp_type_size = ti_item_size info, pp_type_align = ti_align info\<rparr>)
       (\<lambda>(err, bl, d').
     and_then (check Fatal_error (err = BLE_NO_ERROR)) (\<lambda>_.
     let st2 = st1\<lparr>layouter := bl\<rparr> in
     and_then (if has_flag (s_tflags s) T_UNION then FINISH_BITFIELD st2 k else Inr st2) (\<lambda>st3.
     Inr (d', st3, in_bitfield \<or> has_flag (s_tflags s) T_STRUCT)))))))"

text \<open>
  A member that is not a bit-field, named or not: the alignment is capped by the packing,
  raises that of the compound, and the member goes behind the padding, or over the others
  in a union. The results are the member's offset and the new offset of the declaration.
\<close>

definition place_member ::
  "int \<Rightarrow> nat \<Rightarrow> TypeInfo \<Rightarrow> int \<Rightarrow> CState \<times> bool \<Rightarrow> (int \<times> int \<times> CState \<times> bool) run" where
  "place_member al k info sd_off = (\<lambda>(st, in_bitfield).
     and_then (if in_bitfield then FINISH_BITFIELD st k else Inr st) (\<lambda>st1.
     and_then (the_struct st1 k) (\<lambda>s.
     let a = (if ti_align info > al then al else ti_align info);
         st2 = upd_struct k (\<lambda>s. if a > s_align s then s\<lparr>s_align := cast_u 16 a\<rparr> else s) st1 in
     if has_flag (s_tflags s) T_STRUCT then
       and_then (pad (s_size s) a) (\<lambda>off.
       Inr (off, if sd_off < 0 then to_int off else sd_off,
            upd_struct k (\<lambda>s. s\<lparr>s_size := to_unsigned (off + ti_size info)\<rparr>) st2, False))
     else
       Inr (0, sd_off,
            upd_struct k (\<lambda>s. if ti_size info > s_size s then s\<lparr>s_size := ti_size info\<rparr> else s) st2,
            False))))"

definition layout_declarator ::
  "gti \<Rightarrow> int \<Rightarrow> nat \<Rightarrow> TypeSpec \<Rightarrow> Declarator \<Rightarrow> int \<Rightarrow> CState \<times> bool
     \<Rightarrow> (Declarator \<times> int \<times> CState \<times> bool) run" where
  "layout_declarator gti al k ts d sd_off = (\<lambda>(st, in_bitfield).
     and_then (gti st ts (Some d)) (\<lambda>(_, info, st1).
     let st2 = upd_struct k
       (\<lambda>s. s\<lparr>s_tflags := inherit_flags (ti_flags info) (bitfield_flag d) (s_tflags s)\<rparr>) st1 in
     if bitfield_flag d then
       and_then (place_bitfield k info d (st2, in_bitfield)) (\<lambda>(d', st3, inb).
       Inr (d', sd_off, st3, inb))
     else
       and_then (place_member al k info sd_off (st2, in_bitfield)) (\<lambda>(off, sd_off', st3, inb).
       Inr (d\<lparr>d_size := to_int (ti_size info), d_item_size := to_int (ti_item_size info),
              d_offset := cast_s 29 off\<rparr>, sd_off', st3, inb))))"

fun layout_declarators ::
  "gti \<Rightarrow> int \<Rightarrow> nat \<Rightarrow> TypeSpec \<Rightarrow> Declarator list \<Rightarrow> int \<Rightarrow> CState \<times> bool
     \<Rightarrow> (Declarator list \<times> int \<times> CState \<times> bool) run" where
  "layout_declarators gti al k ts [] sd_off st = Inr ([], sd_off, st)"
| "layout_declarators gti al k ts (d # ds) sd_off st =
     and_then (layout_declarator gti al k ts d sd_off st) (\<lambda>(d', sd_off1, st1).
     and_then (layout_declarators gti al k ts ds sd_off1 st1) (\<lambda>(ds', sd_off2, st2).
     Inr (d' # ds', sd_off2, st2)))"

text \<open>
  A declaration without declarators is an unnamed compound. Its bit-fields are finished
  before its type is looked at.
\<close>

definition layout_unnamed ::
  "gti \<Rightarrow> int \<Rightarrow> nat \<Rightarrow> TypeSpec \<Rightarrow> int \<Rightarrow> CState \<times> bool \<Rightarrow> (int \<times> CState \<times> bool) run" where
  "layout_unnamed gti al k ts sd_off = (\<lambda>(st, in_bitfield).
     and_then (if in_bitfield then FINISH_BITFIELD st k else Inr st) (\<lambda>st1.
     and_then (gti st1 ts None) (\<lambda>(_, info, st2).
     let st3 = upd_struct k
       (\<lambda>s. s\<lparr>s_tflags := inherit_flags (ti_flags info) False (s_tflags s)\<rparr>) st2 in
     and_then (place_member al k info sd_off (st3, False)) (\<lambda>(_, sd_off', st4).
     Inr (sd_off', st4)))))"

definition layout_declaration ::
  "gti \<Rightarrow> int \<Rightarrow> nat \<Rightarrow> StructDeclaration \<Rightarrow> CState \<times> bool
     \<Rightarrow> (StructDeclaration \<times> CState \<times> bool) run" where
  "layout_declaration gti al k sd = (\<lambda>(st, in_bitfield).
     and_then (the_struct st k) (\<lambda>s.
     let off0 = (if has_flag (s_tflags s) T_STRUCT then -1 else 0) in
     and_then (case sd_declarators sd of
         Some ds \<Rightarrow> and_then (layout_declarators gti al k (sd_type sd) ds off0 (st, in_bitfield))
           (\<lambda>(ds', sd_off, st'). Inr (Some ds', sd_off, st'))
       | None \<Rightarrow> and_then (layout_unnamed gti al k (sd_type sd) off0 (st, in_bitfield))
           (\<lambda>(sd_off, st'). Inr (None, sd_off, st')))
       (\<lambda>(ds', sd_off, st', inb).
     and_then (the_struct st' k) (\<lambda>s'.
     let sd_off' = (if sd_off < 0 then to_int (s_size s') else sd_off) in
     Inr (sd\<lparr>sd_declarators := ds', sd_offset := sd_off',
             sd_size := to_int (to_unsigned (s_size s' - sd_off'))\<rparr>, st', inb)))))"

fun layout_declarations ::
  "gti \<Rightarrow> int \<Rightarrow> nat \<Rightarrow> StructDeclaration list \<Rightarrow> CState \<times> bool
     \<Rightarrow> (StructDeclaration list \<times> CState \<times> bool) run" where
  "layout_declarations gti al k [] st = Inr ([], st)"
| "layout_declarations gti al k (sd # sds) st =
     and_then (layout_declaration gti al k sd st) (\<lambda>(sd', st1).
     and_then (layout_declarations gti al k sds st1) (\<lambda>(sds', st2).
     Inr (sd' # sds', st2)))"

definition layout_compound_step :: "gti \<Rightarrow> Host \<Rightarrow> LayoutParam \<Rightarrow> CState \<Rightarrow> nat \<Rightarrow> CState run" where
  "layout_compound_step gti h lp st k =
     and_then (the_struct st k) (\<lambda>s.
     case s_declarations s of None \<Rightarrow> Inr st
     | Some sds \<Rightarrow>
         (let (al, st1) = (if s_pack s \<noteq> 0 then (s_pack s, st) else LAYOUT_ALIGNMENT h lp st);
              (cal, st2) = LAYOUT_COMPOUND_ALIGNMENT h lp st1;
              st3 = upd_struct k (\<lambda>s. s\<lparr>s_align := cast_u 16 (if al < cal then al else cal)\<rparr>) st2 in
          and_then (BL_SET st3 BLP_MAX_ALIGN (BLPVT_INT al)) (\<lambda>st4.
          and_then (BL_SET_BYTE_ORDER st4 (lp_byte_order lp)) (\<lambda>st5.
          and_then (layout_declarations gti al k sds (st5, False)) (\<lambda>(sds', st6, in_bitfield).
          and_then (if in_bitfield then FINISH_BITFIELD st6 k else Inr st6) (\<lambda>st7.
          and_then (the_struct st7 k) (\<lambda>s7.
          and_then (pad (s_size s7) (s_align s7)) (\<lambda>sz.
          Inr (upd_struct k (\<lambda>s. s\<lparr>s_size := sz, s_declarations := Some sds'\<rparr>) st7)))))))))"

text \<open>
  The recursion follows pointers between objects, so it is bounded by fuel: one unit per
  typedef or compound entered.
\<close>

fun get_type_info_generic :: "nat \<Rightarrow> Host \<Rightarrow> LayoutParam \<Rightarrow> gti" where
  "get_type_info_generic 0 h lp = (\<lambda>_ _ _. Inl Out_of_fuel)"
| "get_type_info_generic (Suc n) h lp =
     type_info_step (get_type_info_generic n h lp)
       (layout_compound_step (get_type_info_generic n h lp) h lp) h lp"

definition layout_compound_generic ::
  "nat \<Rightarrow> Host \<Rightarrow> LayoutParam \<Rightarrow> CState \<Rightarrow> nat \<Rightarrow> CState run" where
  "layout_compound_generic n h lp = layout_compound_step (get_type_info_generic n h lp) h lp"

end
