(* ===== verification/Bitfield_Facts.thy ===== *)
theory Bitfield_Facts
  imports Bitfields
begin

text \<open>
  What the layout engines promise: the fields a sequence of pushes places lie inside their
  units, in order and without overlap, and finalizing moves past the last of them. The
  engines share this contract as the locale \<open>layout_engine\<close>.
\<close>

section \<open>Fields as bit ranges\<close>

text \<open>
  Bits are counted from the start of the compound in the order the byte order fills them:
  from the least significant bit of each byte on little endian, from the most significant
  on big endian.
\<close>

definition field_start :: "BLPropValStr \<Rightarrow> Declarator \<Rightarrow> int" where
  "field_start order d = 8 * d_offset d +
     (if order = BLPV_BIG_ENDIAN
      then 8 * bf_size (ext_bitfield d) - bf_pos (ext_bitfield d) - bf_bits (ext_bitfield d)
      else bf_pos (ext_bitfield d))"

definition field_end :: "BLPropValStr \<Rightarrow> Declarator \<Rightarrow> int" where
  "field_end order d = field_start order d + bf_bits (ext_bitfield d)"

text \<open>The field lies inside a unit of 1, 2, 4 or 8 bytes.\<close>

definition field_in_unit :: "Declarator \<Rightarrow> bool" where
  "field_in_unit d \<longleftrightarrow> bf_size (ext_bitfield d) \<in> {1, 2, 4, 8} \<and> d_size d = bf_size (ext_bitfield d)
     \<and> 0 \<le> d_offset d \<and> 0 \<le> bf_pos (ext_bitfield d)
     \<and> bf_pos (ext_bitfield d) + bf_bits (ext_bitfield d) \<le> 8 * bf_size (ext_bitfield d)"

definition same_field :: "Declarator \<Rightarrow> Declarator \<Rightarrow> bool" where
  "same_field d d' \<longleftrightarrow> bf_bits (ext_bitfield d') = bf_bits (ext_bitfield d)
     \<and> d_identifier d' = d_identifier d \<and> bitfield_flag d' = bitfield_flag d"

abbreviation pp_bits :: "BLPushParam \<Rightarrow> int" where
  "pp_bits p \<equiv> bf_bits (ext_bitfield (pp_decl p))"

text \<open>No offset of a compound gets near the limit of the 29-bit member that holds it.\<close>

definition bit_limit :: int where
  "bit_limit = 2 ^ 30"

text \<open>The most bits one push moves the cursor by.\<close>

definition push_growth :: int where
  "push_growth = 512"

text \<open>Pushing one declarator after the other, as the layout of a compound does.\<close>

fun push_all :: "('s \<Rightarrow> BLPushParam \<Rightarrow> (BLError \<times> 's \<times> Declarator) run) \<Rightarrow> 's \<Rightarrow>
    BLPushParam list \<Rightarrow> ('s \<times> Declarator list) run" where
  "push_all push s [] = Inr (s, [])"
| "push_all push s (p # ps) = and_then (push s p) (\<lambda>(e, s', d).
     and_then (check Fatal_error (e = BLE_NO_ERROR)) (\<lambda>_.
     and_then (push_all push s' ps) (\<lambda>(s'', ds). Inr (s'', d # ds))))"

definition bit_fields :: "Declarator list \<Rightarrow> Declarator list" where
  "bit_fields = filter (\<lambda>d. bf_bits (ext_bitfield d) \<noteq> 0)"

text \<open>The fields are placed one after the other, inside their units, from bit \<open>lo\<close> to bit \<open>hi\<close>.\<close>

definition fields_between :: "BLPropValStr \<Rightarrow> int \<Rightarrow> int \<Rightarrow> Declarator list \<Rightarrow> bool" where
  "fields_between order lo hi ds \<longleftrightarrow>
     (\<forall>d\<in>set (bit_fields ds). field_in_unit d \<and> lo \<le> field_start order d \<and> field_end order d \<le> hi)
     \<and> sorted_wrt (\<lambda>d d'. field_end order d \<le> field_start order d') (bit_fields ds)"

lemma fields_between_Nil [simp]: "fields_between order lo hi []"
  by (simp add: fields_between_def bit_fields_def)

lemma fields_between_Cons:
  assumes "bf_bits (ext_bitfield d) \<noteq> 0 \<longrightarrow>
      field_in_unit d \<and> lo \<le> field_start order d \<and> field_end order d \<le> mid"
    and "fields_between order mid hi ds" and "lo \<le> mid" and "mid \<le> hi"
  shows "fields_between order lo hi (d # ds)"
proof (cases "bf_bits (ext_bitfield d) = 0")
  case True
  with assms show ?thesis by (force simp: fields_between_def bit_fields_def)
next
  case False
  with assms(1) have d: "field_in_unit d" "lo \<le> field_start order d" "field_end order d \<le> mid" by auto
  have rest: "field_in_unit e \<and> mid \<le> field_start order e \<and> field_end order e \<le> hi"
    if "e \<in> set (bit_fields ds)" for e
    using assms(2) that by (simp add: fields_between_def)
  have "bit_fields (d # ds) = d # bit_fields ds" using False by (simp add: bit_fields_def)
  moreover have "sorted_wrt (\<lambda>d d'. field_end order d \<le> field_start order d') (bit_fields ds)"
    using assms(2) by (simp add: fields_between_def)
  ultimately show ?thesis
    using d rest assms(3,4) unfolding fields_between_def by (fastforce dest: rest)
qed

section \<open>The contract of an engine\<close>

locale layout_engine =
  fixes push :: "'s \<Rightarrow> BLPushParam \<Rightarrow> (BLError \<times> 's \<times> Declarator) run"
    and finalize :: "'s \<Rightarrow> BLError \<times> 's"
    and cursor :: "'s \<Rightarrow> int"
    and order :: "'s \<Rightarrow> BLPropValStr"
    and next_offset :: "'s \<Rightarrow> int"
    and valid :: "'s \<Rightarrow> bool"
    and fits :: "'s \<Rightarrow> BLPushParam \<Rightarrow> bool"
  assumes push_places: "valid s \<Longrightarrow> fits s p \<Longrightarrow> cursor s + push_growth \<le> bit_limit \<Longrightarrow>
      \<exists>s' d. push s p = Inr (BLE_NO_ERROR, s', d) \<and> valid s' \<and> order s' = order s
        \<and> (\<forall>q. fits s' q = fits s q)
        \<and> cursor s \<le> cursor s' \<and> cursor s' \<le> cursor s + push_growth
        \<and> same_field (pp_decl p) d
        \<and> (pp_bits p \<noteq> 0 \<longrightarrow> field_in_unit d \<and> cursor s \<le> field_start (order s) d
             \<and> field_end (order s) d \<le> cursor s')"
    and finalize_covers: "valid s \<Longrightarrow> \<exists>s'. finalize s = (BLE_NO_ERROR, s') \<and> cursor s \<le> 8 * next_offset s'"
begin

lemma push_all_places:
  assumes "valid s" and "\<forall>p\<in>set ps. fits s p"
    and "cursor s + push_growth * int (length ps) \<le> bit_limit"
  shows "\<exists>s' ds. push_all push s ps = Inr (s', ds) \<and> valid s' \<and> order s' = order s
    \<and> cursor s \<le> cursor s' \<and> cursor s' \<le> cursor s + push_growth * int (length ps)
    \<and> list_all2 (\<lambda>p d. same_field (pp_decl p) d) ps ds
    \<and> fields_between (order s) (cursor s) (cursor s') ds"
  using assms
proof (induction ps arbitrary: s)
  case Nil
  then show ?case by simp
next
  case (Cons p ps)
  have g: "0 \<le> push_growth" by (simp add: push_growth_def)
  have len: "push_growth * int (length (p # ps)) = push_growth + push_growth * int (length ps)"
    by (simp add: algebra_simps)
  have "0 \<le> push_growth * int (length ps)" using g by simp
  with Cons.prems(3) len have lim: "cursor s + push_growth \<le> bit_limit" by linarith
  obtain s1 d where s1: "push s p = Inr (BLE_NO_ERROR, s1, d)" "valid s1" "order s1 = order s"
      "\<forall>q. fits s1 q = fits s q" "cursor s \<le> cursor s1" "cursor s1 \<le> cursor s + push_growth"
      "same_field (pp_decl p) d"
      "pp_bits p \<noteq> 0 \<longrightarrow> field_in_unit d \<and> cursor s \<le> field_start (order s) d
         \<and> field_end (order s) d \<le> cursor s1"
    using push_places [OF Cons.prems(1) _ lim, of p] Cons.prems(2) by auto
  have "cursor s1 + push_growth * int (length ps) \<le> bit_limit"
    using s1(6) Cons.prems(3) len by linarith
  then obtain s2 ds where s2: "push_all push s1 ps = Inr (s2, ds)" "valid s2" "order s2 = order s"
      "cursor s1 \<le> cursor s2" "cursor s2 \<le> cursor s1 + push_growth * int (length ps)"
      "list_all2 (\<lambda>p d. same_field (pp_decl p) d) ps ds"
      "fields_between (order s) (cursor s1) (cursor s2) ds"
    using Cons.IH [OF s1(2)] Cons.prems(2) s1(3,4) by auto
  show ?case
  proof (intro exI conjI)
    show "push_all push s (p # ps) = Inr (s2, d # ds)" using s1(1) s2(1) by simp
    show "cursor s \<le> cursor s2" using s1(5) s2(4) by linarith
    show "cursor s2 \<le> cursor s + push_growth * int (length (p # ps))"
      using s1(6) s2(5) len by linarith
    show "fields_between (order s) (cursor s) (cursor s2) (d # ds)"
      using s1(5,7,8) s2(4) by (intro fields_between_Cons [OF _ s2(7)]) (simp_all add: same_field_def)
    show "list_all2 (\<lambda>p d. same_field (pp_decl p) d) (p # ps) (d # ds)" using s1(7) s2(6) by simp
  qed (use s2 in auto)
qed

text \<open>A whole run of bit-fields, finalized: everything lies below the final offset.\<close>

lemma run_places:
  assumes "valid s" and "\<forall>p\<in>set ps. fits s p"
    and "cursor s + push_growth * int (length ps) \<le> bit_limit"
  shows "\<exists>s' ds s''. push_all push s ps = Inr (s', ds) \<and> finalize s' = (BLE_NO_ERROR, s'')
    \<and> list_all2 (\<lambda>p d. same_field (pp_decl p) d) ps ds
    \<and> fields_between (order s) (cursor s) (8 * next_offset s'') ds"
proof -
  obtain s' ds where run: "push_all push s ps = Inr (s', ds)" "valid s'"
      "list_all2 (\<lambda>p d. same_field (pp_decl p) d) ps ds"
      "fields_between (order s) (cursor s) (cursor s') ds"
    using push_all_places [OF assms] by blast
  obtain s'' where fin: "finalize s' = (BLE_NO_ERROR, s'')" "cursor s' \<le> 8 * next_offset s''"
    using finalize_covers [OF run(2)] by blast
  have "fields_between (order s) (cursor s) (8 * next_offset s'') ds"
    using run(4) fin(2) unfolding fields_between_def by force
  with run fin show ?thesis by blast
qed

end

section \<open>Generic\<close>

lemma move_offset_fits:
  assumes "bits \<le> BITS ts" and "0 < ta" and "0 \<le> bo"
  shows "\<exists>off' bo'. move_offset bits ts ta off bo = Some (off', bo') \<and> bits + bo' \<le> BITS ts \<and> 0 \<le> bo'
    \<and> BITS off + bo \<le> BITS off' + bo' \<and> BITS off' + bo' \<le> BITS off + bo + BITS ta
    \<and> off \<le> off' \<and> ta dvd (off' - off)"
  using assms(3)
proof (induction "nat bo" arbitrary: off bo rule: less_induct)
  case less
  show ?case
  proof (cases "bits > BITS ts - bo")
    case False
    then show ?thesis
      using less.prems assms by (simp add: move_offset.simps [of bits ts ta off bo] BITS_def)
  next
    case True
    define bo1 where "bo1 = (if bo > BITS ta then bo - BITS ta else 0)"
    have step: "move_offset bits ts ta off bo = move_offset bits ts ta (off + ta) bo1"
      using True by (simp add: move_offset.simps [of bits ts ta off bo] bo1_def)
    have "0 < bo" using True assms(1) by (simp add: BITS_def)
    then have "nat bo1 < nat bo" "0 \<le> bo1" using assms(2) by (auto simp: bo1_def BITS_def)
    show ?thesis
    proof (cases "bo > BITS ta")
      case True
      then show ?thesis
        using less.hyps [OF \<open>nat bo1 < nat bo\<close> \<open>0 \<le> bo1\<close>, of "off + ta"] assms(2)
        unfolding step by (auto simp: bo1_def BITS_def algebra_simps dvd_diff_right_iff)
    next
      case False
      then have "move_offset bits ts ta off bo = Some (off + ta, 0)"
        using assms(1) unfolding step
        by (simp add: bo1_def move_offset.simps [of bits ts ta "off + ta" 0] BITS_def)
      then show ?thesis using False assms less.prems by (simp add: BITS_def)
    qed
  qed
qed

abbreviation int_sizes :: "int set" where
  "int_sizes \<equiv> {1, 2, 4, 8}"

definition generic_cursor :: "BL_Generic \<Rightarrow> int" where
  "generic_cursor g = BITS (offset g) + bit_offset g"

definition ordered :: "BLPropValStr \<Rightarrow> bool" where
  "ordered b \<longleftrightarrow> b \<in> {BLPV_BIG_ENDIAN, BLPV_LITTLE_ENDIAN}"

definition generic_valid :: "BL_Generic \<Rightarrow> bool" where
  "generic_valid g \<longleftrightarrow> ordered (byte_order g) \<and> 1 \<le> max_align g \<and> 0 \<le> offset g \<and> 0 \<le> bit_offset g
     \<and> (cur_type_size g = 0 \<or> cur_type_size g \<in> int_sizes
          \<and> cur_type_align g = min (cur_type_size g) (max_align g) \<and> cur_type_align g dvd offset g)"

text \<open>
  The declared type has a plain integer's size and alignment and is wide enough; a
  zero-width field is only used where packing does not cut the type's alignment.
\<close>

definition typed_fits :: "BLPushParam \<Rightarrow> bool" where
  "typed_fits p \<longleftrightarrow> bitfield_flag (pp_decl p) \<and> pp_type_size p \<in> int_sizes
     \<and> pp_type_align p = pp_type_size p \<and> 0 \<le> pp_bits p \<and> pp_bits p \<le> BITS (pp_type_size p)"

definition generic_fits :: "BL_Generic \<Rightarrow> BLPushParam \<Rightarrow> bool" where
  "generic_fits g p \<longleftrightarrow> typed_fits p \<and> (pp_bits p = 0 \<longrightarrow> pp_type_size p \<le> max_align g)"

lemma to_int_id [simp]: "0 \<le> x \<Longrightarrow> x < 2147483648 \<Longrightarrow> to_int x = x"
  by (rule cast_s_id) simp_all

lemma int_sizes_small: "x \<in> int_sizes \<Longrightarrow> 1 \<le> x \<and> x \<le> 8"
  by auto

lemma to_int_int_sizes: "x \<in> int_sizes \<Longrightarrow> to_int x = x"
  by auto

lemma place_field_simps:
  assumes "0 \<le> off" and "off < 2 ^ 28" and "sz \<in> int_sizes" and "0 \<le> p" and "p < 256"
  shows "d_offset (place_field d off sz p) = off" "d_size (place_field d off sz p) = sz"
    "bf_size (ext_bitfield (place_field d off sz p)) = sz"
    "bf_pos (ext_bitfield (place_field d off sz p)) = p"
    "bf_bits (ext_bitfield (place_field d off sz p)) = bf_bits (ext_bitfield d)"
    "same_field d (place_field d off sz p)"
  using assms by (auto simp: place_field_def same_field_def cast_s_id cast_u_id)

text \<open>A field of \<open>bits\<close> bits, \<open>before\<close> bits into its unit of \<open>sz\<close> bytes.\<close>

lemma placed_in_unit:
  assumes "ordered b" and "0 \<le> off" and "off < 2 ^ 28" and "sz \<in> int_sizes" and "0 \<le> before"
    and "before + bits \<le> BITS sz" and "0 < bits" and "bf_bits (ext_bitfield d) = bits"
  shows "\<exists>p. field_pos b (BITS sz) before bits = Inr p \<and> to_uchar p < 64
    \<and> field_in_unit (place_field d off sz p) \<and> same_field d (place_field d off sz p)
    \<and> field_start b (place_field d off sz p) = BITS off + before
    \<and> field_end b (place_field d off sz p) = BITS off + before + bits"
proof -
  define p where "p = (if b = BLPV_BIG_ENDIAN then BITS sz - before - bits else before)"
  have p: "field_pos b (BITS sz) before bits = Inr p" "0 \<le> p" "p < 64" "p + bits \<le> BITS sz"
    using assms int_sizes_small [OF assms(4)] by (auto simp: p_def ordered_def field_pos_def BITS_def)
  have "to_uchar p < 64" using p by (simp add: cast_u_id)
  moreover note s = place_field_simps [OF assms(2,3,4) p(2), of d]
  have "p < 256" using p by simp
  note s = s [OF this]
  have "field_start b (place_field d off sz p) = BITS off + before"
    using s assms(1,8) by (auto simp: field_start_def p_def BITS_def)
  moreover have "field_in_unit (place_field d off sz p)"
    using s p assms by (simp add: field_in_unit_def BITS_def)
  ultimately show ?thesis using p s assms(8) by (auto simp: field_end_def)
qed

lemma generic_type_change:
  assumes "generic_valid g" and "ts \<in> int_sizes"
  shows "\<exists>g1. Generic_type_change g ts ts = Inr g1 \<and> generic_valid g1 \<and> cur_type_size g1 = ts
    \<and> generic_cursor g1 = generic_cursor g \<and> byte_order g1 = byte_order g \<and> max_align g1 = max_align g"
proof (cases "cur_type_size g = ts")
  case True
  then show ?thesis using assms by (simp add: Generic_type_change_def to_int_int_sizes)
next
  case False
  define al where "al = min ts (max_align g)"
  have al: "0 < al" "(if to_int ts < max_align g then to_int ts else max_align g) = al"
    using assms by (auto simp: al_def generic_valid_def to_int_int_sizes)
  have "0 \<le> offset g" using assms by (simp add: generic_valid_def)
  then have m: "c_mod (offset g) al = Inr (offset g mod al)" "0 \<le> offset g mod al"
      "offset g mod al \<le> offset g" "al dvd offset g - offset g mod al"
    using al by (simp_all add: c_mod_pos zmod_le_nonneg_dividend)
  then show ?thesis
    using False assms al
    by (auto simp: Generic_type_change_def to_int_int_sizes Let_def generic_valid_def
        generic_cursor_def BITS_def al_def)
qed

lemma bytes_used_covers:
  "0 < n \<Longrightarrow> n \<le> BITS ts \<Longrightarrow> ts \<in> int_sizes \<Longrightarrow>
   \<exists>u. bytes_used n = Some u \<and> u \<in> int_sizes \<and> u \<le> ts \<and> n \<le> BITS u"
  by (auto simp: bytes_used_def BITS_def)

lemma Generic_push_places:
  assumes "generic_valid g" and "generic_fits g p" and lim: "generic_cursor g + push_growth \<le> bit_limit"
  shows "\<exists>g' d. Generic_push g p = Inr (BLE_NO_ERROR, g', d) \<and> generic_valid g'
    \<and> byte_order g' = byte_order g \<and> (\<forall>q. generic_fits g' q = generic_fits g q)
    \<and> generic_cursor g \<le> generic_cursor g' \<and> generic_cursor g' \<le> generic_cursor g + push_growth
    \<and> same_field (pp_decl p) d
    \<and> (pp_bits p \<noteq> 0 \<longrightarrow> field_in_unit d \<and> generic_cursor g \<le> field_start (byte_order g) d
         \<and> field_end (byte_order g) d \<le> generic_cursor g')"
proof -
  let ?ts = "pp_type_size p" and ?bits = "pp_bits p"
  have p: "?ts \<in> int_sizes" "pp_type_align p = ?ts" "0 \<le> ?bits" "?bits \<le> BITS ?ts"
      "bitfield_flag (pp_decl p)" "?bits = 0 \<longrightarrow> ?ts \<le> max_align g"
    using assms(2) by (simp_all add: generic_fits_def typed_fits_def)
  obtain g1 where g1: "Generic_type_change g ?ts ?ts = Inr g1" "generic_valid g1" "cur_type_size g1 = ?ts"
      "generic_cursor g1 = generic_cursor g" "byte_order g1 = byte_order g" "max_align g1 = max_align g"
    using generic_type_change [OF assms(1) p(1)] by blast
  have v: "0 \<le> offset g1" "0 \<le> bit_offset g1" "1 \<le> max_align g1" "ordered (byte_order g1)"
      "cur_type_align g1 = min ?ts (max_align g1)" "cur_type_align g1 dvd offset g1"
    using g1(2,3) p(1) by (auto simp: generic_valid_def)
  have ta: "0 < cur_type_align g1" "cur_type_align g1 \<le> ?ts" "?ts \<le> 8"
    using v p(1) by auto
  obtain off bo where mv: "move_offset ?bits ?ts (cur_type_align g1) (offset g1) (bit_offset g1) = Some (off, bo)"
      "?bits + bo \<le> BITS ?ts" "0 \<le> bo" "generic_cursor g1 \<le> BITS off + bo"
      "BITS off + bo \<le> generic_cursor g1 + BITS (cur_type_align g1)" "offset g1 \<le> off"
      "cur_type_align g1 dvd off - offset g1"
    using move_offset_fits [OF p(4) ta(1) v(2), of "offset g1"] by (auto simp: generic_cursor_def)
  have dv: "cur_type_align g1 dvd off" using v(6) mv(7) by (metis dvd_add diff_add_cancel)
  have growth: "BITS off + bo \<le> generic_cursor g + 64" using mv(5) ta g1(4) by (simp add: BITS_def)
  have off: "0 \<le> off" "off < 2 ^ 28"
    using growth lim v(1) mv(3,6) by (simp_all add: push_growth_def bit_limit_def BITS_def)
  show ?thesis
  proof (cases "?bits = 0")
    case True
    show ?thesis
    proof (cases "bo > 0")
      case False
      then have "Generic_push g p = Inr (BLE_NO_ERROR, g1\<lparr>offset := off, bit_offset := bo\<rparr>, pp_decl p)"
        using True p g1 mv(1) by (simp add: Generic_push_def Let_def)
      then show ?thesis
        using True g1 v mv growth off dv p(1)
        by (auto simp: generic_valid_def generic_fits_def generic_cursor_def same_field_def push_growth_def)
    next
      case bo: True
      have al: "cur_type_align g1 = ?ts" using True p(6) g1(6) v(5) by simp
      with dv have "?ts dvd off" by simp
      then have "c_mod off ?ts = Inr 0" using off(1) p(1) by (auto simp: c_mod_pos)
      then have "Generic_push g p
          = Inr (BLE_NO_ERROR, g1\<lparr>offset := off + ?ts, bit_offset := 0\<rparr>, pp_decl p)"
        using True bo p g1 mv(1) by (simp add: Generic_push_def Let_def)
      moreover have "cur_type_align g1 dvd off + ?ts" using al \<open>?ts dvd off\<close> by simp
      ultimately show ?thesis
        using True g1 v mv growth off p(1) ta(3)
        by (auto simp: generic_valid_def generic_fits_def generic_cursor_def same_field_def
            push_growth_def BITS_def)
    qed
  next
    case False
    obtain u where u: "bytes_used (bo + ?bits) = Some u" "u \<in> int_sizes" "u \<le> ?ts" "bo + ?bits \<le> BITS u"
      using bytes_used_covers [of "bo + ?bits" ?ts] mv(2,3) p(1,3) False by (auto simp: add.commute)
    have "0 < ?bits" using False p(3) by simp
    obtain q where q: "field_pos (byte_order g1) (BITS u) bo ?bits = Inr q" "to_uchar q < 64"
        "field_in_unit (place_field (pp_decl p) off u q)" "same_field (pp_decl p) (place_field (pp_decl p) off u q)"
        "field_start (byte_order g1) (place_field (pp_decl p) off u q) = BITS off + bo"
        "field_end (byte_order g1) (place_field (pp_decl p) off u q) = BITS off + bo + ?bits"
      using placed_in_unit [OF v(4) off u(2) mv(3) u(4) \<open>0 < ?bits\<close> refl] by blast
    have "Generic_push g p = Inr (BLE_NO_ERROR,
        g1\<lparr>offset := off, bit_offset := bo + ?bits\<rparr>, place_field (pp_decl p) off u q)"
      using False p g1 mv(1) u q by (simp add: Generic_push_def Let_def)
    moreover have "generic_valid (g1\<lparr>offset := off, bit_offset := bo + ?bits\<rparr>)"
      using v off mv(3) p(1,3) g1(3) dv by (simp add: generic_valid_def)
    moreover have "?bits \<le> 64" using p(4) ta(3) by (simp add: BITS_def)
    ultimately show ?thesis
      using q g1 mv(3,4) growth p(3)
      by (auto simp: generic_fits_def generic_cursor_def push_growth_def)
  qed
qed

lemma Generic_finalize_covers:
  "generic_valid g \<Longrightarrow> \<exists>g'. Generic_finalize g = (BLE_NO_ERROR, g') \<and> generic_cursor g \<le> 8 * offset g'"
  by (simp add: Generic_finalize_def generic_cursor_def BITS_def)

interpretation generic: layout_engine Generic_push Generic_finalize generic_cursor byte_order offset
  generic_valid generic_fits
  by unfold_locales (erule (2) Generic_push_places, erule Generic_finalize_covers)

section \<open>Microsoft\<close>

definition microsoft_valid :: "BL_Microsoft \<Rightarrow> bool" where
  "microsoft_valid g \<longleftrightarrow> ordered (byte_order g) \<and> 1 \<le> max_align g \<and> 0 \<le> offset g
     \<and> 0 \<le> bit_offset g \<and> bit_offset g \<le> BITS (cur_type_size g)
     \<and> cur_type_size g \<in> insert 0 int_sizes"

definition microsoft_fits :: "BL_Microsoft \<Rightarrow> BLPushParam \<Rightarrow> bool" where
  "microsoft_fits g p \<longleftrightarrow> typed_fits p"

lemma microsoft_skip:
  assumes "microsoft_valid g"
  shows "microsoft_valid (Microsoft_skip g) \<and> bit_offset (Microsoft_skip g) = 0
    \<and> generic_cursor g \<le> generic_cursor (Microsoft_skip g)
    \<and> generic_cursor (Microsoft_skip g) \<le> generic_cursor g + 64
    \<and> byte_order (Microsoft_skip g) = byte_order g \<and> max_align (Microsoft_skip g) = max_align g
    \<and> cur_type_size (Microsoft_skip g) = cur_type_size g"
  using assms by (auto simp: Microsoft_skip_def microsoft_valid_def generic_cursor_def BITS_def)

lemma microsoft_type_change:
  assumes "microsoft_valid g" and "ts \<in> int_sizes"
  shows "\<exists>g1. Microsoft_type_change g ts ts = Inr g1 \<and> microsoft_valid g1 \<and> cur_type_size g1 = ts
    \<and> generic_cursor g \<le> generic_cursor g1 \<and> generic_cursor g1 \<le> generic_cursor g + 128
    \<and> byte_order g1 = byte_order g \<and> max_align g1 = max_align g"
proof (cases "cur_type_size g = ts")
  case True
  then show ?thesis using assms by (simp add: Microsoft_type_change_def to_int_int_sizes)
next
  case False
  define al where "al = min ts (max_align g)"
  have al: "0 < al" "al \<le> 8" "(if to_int ts < max_align g then to_int ts else max_align g) = al"
    using assms by (auto simp: al_def microsoft_valid_def to_int_int_sizes)
  define g0 where "g0 = g\<lparr>align := (if al > align g then al else align g)\<rparr>"
  have g0: "microsoft_valid g0" "generic_cursor g0 = generic_cursor g" "byte_order g0 = byte_order g"
      "max_align g0 = max_align g"
    using assms by (simp_all add: g0_def microsoft_valid_def generic_cursor_def)
  define g1 where "g1 = Microsoft_skip g0"
  note k = microsoft_skip [OF g0(1), folded g1_def]
  have "0 \<le> offset g1" using k by (simp add: microsoft_valid_def)
  then have m: "c_mod (offset g1) al = Inr (offset g1 mod al)" "0 \<le> offset g1 mod al"
      "offset g1 mod al < al"
    using al by (simp_all add: c_mod_pos)
  define g2 where "g2 = (if offset g1 mod al \<noteq> 0
    then g1\<lparr>offset := offset g1 + (al - offset g1 mod al), bit_offset := 0\<rparr> else g1)"
  have "Microsoft_type_change g ts ts = Inr (g2\<lparr>cur_type_size := ts, cur_type_align := al\<rparr>)"
    unfolding Microsoft_type_change_def Let_def al(3) g0_def [symmetric] g1_def [symmetric] m(1)
      and_then_simps g2_def [symmetric]
    using False by (simp only: to_int_int_sizes [OF assms(2)] if_True not_False_eq_True)
  moreover have "0 \<le> offset g2" "bit_offset g2 = 0" "byte_order g2 = byte_order g" "max_align g2 = max_align g"
      "generic_cursor g1 \<le> generic_cursor g2" "generic_cursor g2 \<le> generic_cursor g1 + 64"
    using k m al(2) g0 \<open>0 \<le> offset g1\<close> by (auto simp: g2_def generic_cursor_def BITS_def)
  ultimately show ?thesis
    using k g0(2) assms by (auto simp: microsoft_valid_def generic_cursor_def BITS_def)
qed

lemma Microsoft_push_places:
  assumes "microsoft_valid g" and "microsoft_fits g p"
    and lim: "generic_cursor g + push_growth \<le> bit_limit"
  shows "\<exists>g' d. Microsoft_push g p = Inr (BLE_NO_ERROR, g', d) \<and> microsoft_valid g'
    \<and> byte_order g' = byte_order g \<and> (\<forall>q. microsoft_fits g' q = microsoft_fits g q)
    \<and> generic_cursor g \<le> generic_cursor g' \<and> generic_cursor g' \<le> generic_cursor g + push_growth
    \<and> same_field (pp_decl p) d
    \<and> (pp_bits p \<noteq> 0 \<longrightarrow> field_in_unit d \<and> generic_cursor g \<le> field_start (byte_order g) d
         \<and> field_end (byte_order g) d \<le> generic_cursor g')"
proof -
  let ?ts = "pp_type_size p" and ?bits = "pp_bits p"
  have p: "?ts \<in> int_sizes" "pp_type_align p = ?ts" "0 \<le> ?bits" "?bits \<le> BITS ?ts"
      "bitfield_flag (pp_decl p)"
    using assms(2) by (simp_all add: microsoft_fits_def typed_fits_def)
  obtain g1 where g1: "Microsoft_type_change g ?ts ?ts = Inr g1" "microsoft_valid g1" "cur_type_size g1 = ?ts"
      "generic_cursor g \<le> generic_cursor g1" "generic_cursor g1 \<le> generic_cursor g + 128"
      "byte_order g1 = byte_order g" "max_align g1 = max_align g"
    using microsoft_type_change [OF assms(1) p(1)] by blast
  show ?thesis
  proof (cases "?bits = 0")
    case True
    then have "Microsoft_push g p = Inr (BLE_NO_ERROR, Microsoft_skip g1, pp_decl p)"
      using p g1 by (simp add: Microsoft_push_def Let_def)
    then show ?thesis
      using True g1 microsoft_skip [OF g1(2)]
      by (auto simp: microsoft_fits_def same_field_def push_growth_def)
  next
    case False
    define g2 where "g2 = (if ?bits > BITS ?ts - bit_offset g1
      then g1\<lparr>offset := offset g1 + ?ts, bit_offset := 0\<rparr> else g1)"
    have g2: "microsoft_valid g2" "cur_type_size g2 = ?ts" "byte_order g2 = byte_order g"
        "max_align g2 = max_align g" "bit_offset g2 + ?bits \<le> BITS ?ts"
        "generic_cursor g1 \<le> generic_cursor g2" "generic_cursor g2 \<le> generic_cursor g1 + 64"
      using g1 p by (auto simp: g2_def microsoft_valid_def generic_cursor_def BITS_def)
    have v: "ordered (byte_order g2)" "0 \<le> offset g2" "0 \<le> bit_offset g2"
      using g2(1) by (simp_all add: microsoft_valid_def)
    have "offset g2 < 2 ^ 28"
      using g2(7) g1(5) lim v by (simp add: generic_cursor_def push_growth_def bit_limit_def BITS_def)
    have "0 < ?bits" using False p(3) by simp
    obtain q where q: "field_pos (byte_order g2) (BITS ?ts) (bit_offset g2) ?bits = Inr q" "to_uchar q < 64"
        "field_in_unit (place_field (pp_decl p) (offset g2) ?ts q)"
        "same_field (pp_decl p) (place_field (pp_decl p) (offset g2) ?ts q)"
        "field_start (byte_order g2) (place_field (pp_decl p) (offset g2) ?ts q) = BITS (offset g2) + bit_offset g2"
        "field_end (byte_order g2) (place_field (pp_decl p) (offset g2) ?ts q)
           = BITS (offset g2) + bit_offset g2 + ?bits"
      using placed_in_unit [OF v(1,2) \<open>offset g2 < 2 ^ 28\<close> p(1) v(3) g2(5) \<open>0 < ?bits\<close> refl] by blast
    have "\<not> ?bits > BITS ?ts" using p(4) by simp
    then have "Microsoft_push g p = Inr (BLE_NO_ERROR, g2\<lparr>bit_offset := bit_offset g2 + ?bits\<rparr>,
        place_field (pp_decl p) (offset g2) ?ts q)"
      using False p(2,5) g1(1,3) q(1,2)
      by (cases "?bits > BITS ?ts - bit_offset g1") (simp_all add: Microsoft_push_def Let_def g2_def)
    moreover have "microsoft_valid (g2\<lparr>bit_offset := bit_offset g2 + ?bits\<rparr>)"
      using g2 p(3) by (simp add: microsoft_valid_def)
    moreover have "?bits \<le> 64" using p(1,4) by (auto simp: BITS_def)
    ultimately show ?thesis
      using q g1 g2 p(3) by (auto simp: microsoft_fits_def generic_cursor_def push_growth_def)
  qed
qed

lemma Microsoft_finalize_covers:
  "microsoft_valid g \<Longrightarrow> \<exists>g'. Microsoft_finalize g = (BLE_NO_ERROR, g') \<and> generic_cursor g \<le> 8 * offset g'"
  by (auto simp: Microsoft_finalize_def generic_cursor_def microsoft_valid_def BITS_def)

interpretation microsoft: layout_engine Microsoft_push Microsoft_finalize generic_cursor byte_order offset
  microsoft_valid microsoft_fits
  by unfold_locales (erule (2) Microsoft_push_places, erule Microsoft_finalize_covers)

section \<open>Simple\<close>

definition simple_cursor :: "BL_Simple \<Rightarrow> int" where
  "simple_cursor s = BITS (offset s + pos s + block_size s) - bits_left s"

definition simple_valid :: "BL_Simple \<Rightarrow> bool" where
  "simple_valid s \<longleftrightarrow> ordered (byte_order s) \<and> block_size s \<in> int_sizes \<and> 0 \<le> offset s \<and> 0 \<le> pos s
     \<and> 0 \<le> bits_left s \<and> bits_left s \<le> BITS (block_size s)"

text \<open>The engine looks at its block size only, so a field has to fit a block.\<close>

definition simple_fits :: "BL_Simple \<Rightarrow> BLPushParam \<Rightarrow> bool" where
  "simple_fits s p \<longleftrightarrow> bitfield_flag (pp_decl p) \<and> 0 \<le> pp_bits p \<and> pp_bits p \<le> BITS (block_size s)"

lemma Simple_push_places:
  assumes "simple_valid s" and "simple_fits s p" and lim: "simple_cursor s + push_growth \<le> bit_limit"
  shows "\<exists>s' d. Simple_push s p = Inr (BLE_NO_ERROR, s', d) \<and> simple_valid s'
    \<and> byte_order s' = byte_order s \<and> (\<forall>q. simple_fits s' q = simple_fits s q)
    \<and> simple_cursor s \<le> simple_cursor s' \<and> simple_cursor s' \<le> simple_cursor s + push_growth
    \<and> same_field (pp_decl p) d
    \<and> (pp_bits p \<noteq> 0 \<longrightarrow> field_in_unit d \<and> simple_cursor s \<le> field_start (byte_order s) d
         \<and> field_end (byte_order s) d \<le> simple_cursor s')"
proof -
  let ?bs = "block_size s" and ?bits = "pp_bits p"
  have p: "bitfield_flag (pp_decl p)" "0 \<le> ?bits" "?bits \<le> BITS ?bs"
    using assms(2) by (simp_all add: simple_fits_def)
  have v: "?bs \<in> int_sizes" "0 \<le> offset s" "0 \<le> pos s" "0 \<le> bits_left s" "bits_left s \<le> BITS ?bs"
    using assms(1) by (simp_all add: simple_valid_def)
  have bs: "1 \<le> ?bs" "?bs \<le> 8" using int_sizes_small [OF v(1)] by auto
  show ?thesis
  proof (cases "?bits = 0")
    case True
    then have "Simple_push s p = Inr (BLE_NO_ERROR, Simple_next_block s, pp_decl p)"
      using p by (simp add: Simple_push_def Let_def)
    then show ?thesis
      using True assms(1) v bs
      by (auto simp: Simple_next_block_def simple_valid_def simple_fits_def simple_cursor_def
          same_field_def push_growth_def BITS_def)
  next
    case False
    define s2 where "s2 = (if ?bits > bits_left s then Simple_next_block s else s)"
    have s2: "simple_valid s2" "block_size s2 = ?bs" "byte_order s2 = byte_order s" "?bits \<le> bits_left s2"
        "simple_cursor s \<le> simple_cursor s2" "simple_cursor s2 \<le> simple_cursor s + 64"
      using assms(1) p v bs
      by (auto simp: s2_def Simple_next_block_def simple_valid_def simple_cursor_def BITS_def)
    have w: "ordered (byte_order s2)" "0 \<le> offset s2 + pos s2" "0 \<le> BITS ?bs - bits_left s2"
      using s2(1,2) by (simp_all add: simple_valid_def)
    have "offset s2 + pos s2 < 2 ^ 28"
      using s2(1,2,6) lim w
      by (simp add: simple_valid_def simple_cursor_def push_growth_def bit_limit_def BITS_def)
    have fit: "BITS ?bs - bits_left s2 + ?bits \<le> BITS ?bs" using s2(4) by simp
    have "0 < ?bits" using False p(2) by simp
    obtain q where q: "field_pos (byte_order s2) (BITS ?bs) (BITS ?bs - bits_left s2) ?bits = Inr q"
        "field_in_unit (place_field (pp_decl p) (offset s2 + pos s2) ?bs q)"
        "same_field (pp_decl p) (place_field (pp_decl p) (offset s2 + pos s2) ?bs q)"
        "field_start (byte_order s2) (place_field (pp_decl p) (offset s2 + pos s2) ?bs q)
           = BITS (offset s2 + pos s2) + (BITS ?bs - bits_left s2)"
        "field_end (byte_order s2) (place_field (pp_decl p) (offset s2 + pos s2) ?bs q)
           = BITS (offset s2 + pos s2) + (BITS ?bs - bits_left s2) + ?bits"
      using placed_in_unit [OF w(1,2) \<open>offset s2 + pos s2 < 2 ^ 28\<close> v(1) w(3) fit \<open>0 < ?bits\<close> refl]
      by blast
    have "Simple_push s p = Inr (BLE_NO_ERROR, s2\<lparr>bits_left := bits_left s2 - ?bits\<rparr>,
        place_field (pp_decl p) (offset s2 + pos s2) ?bs q)"
      using False p(1) q(1)
      by (cases "?bits > bits_left s")
        (simp_all add: Simple_push_def Let_def s2_def Simple_next_block_def)
    moreover have "simple_valid (s2\<lparr>bits_left := bits_left s2 - ?bits\<rparr>)"
      using s2 p(2) by (simp add: simple_valid_def)
    moreover have "?bits \<le> 64" using p(3) bs by (simp add: BITS_def)
    ultimately show ?thesis
      using q s2 p(2)
      by (auto simp: simple_fits_def simple_cursor_def push_growth_def BITS_def)
  qed
qed

lemma Simple_finalize_covers:
  "simple_valid s \<Longrightarrow> \<exists>s'. Simple_finalize s = (BLE_NO_ERROR, s') \<and> simple_cursor s \<le> 8 * offset s'"
  by (auto simp: Simple_finalize_def simple_cursor_def simple_valid_def Let_def BITS_def)

interpretation simple: layout_engine Simple_push Simple_finalize simple_cursor byte_order offset
  simple_valid simple_fits
  by unfold_locales (erule (2) Simple_push_places, erule Simple_finalize_covers)

end
