(* ===== verification/Bitfield_Laws.thy ===== *)
theory Bitfield_Laws
  imports Bitfield_Facts
begin

text \<open>
  The contract of the table of operations, whichever engine is behind it, and what goes
  wrong outside of it: fields too wide for their type, and zero-width fields under packing.
\<close>

section \<open>The table of operations\<close>

definition bl_cursor :: "BitfieldLayouter \<Rightarrow> int" where
  "bl_cursor bl = (case bl of Generic g \<Rightarrow> generic_cursor g | Microsoft g \<Rightarrow> generic_cursor g
     | Simple s \<Rightarrow> simple_cursor s)"

definition bl_order :: "BitfieldLayouter \<Rightarrow> BLPropValStr" where
  "bl_order bl = (case bl of Generic g \<Rightarrow> byte_order g | Microsoft g \<Rightarrow> byte_order g
     | Simple s \<Rightarrow> byte_order s)"

definition bl_offset :: "BitfieldLayouter \<Rightarrow> int" where
  "bl_offset bl = (case bl of Generic g \<Rightarrow> offset g | Microsoft g \<Rightarrow> offset g | Simple s \<Rightarrow> offset s)"

definition bl_valid :: "BitfieldLayouter \<Rightarrow> bool" where
  "bl_valid bl = (case bl of Generic g \<Rightarrow> generic_valid g | Microsoft g \<Rightarrow> microsoft_valid g
     | Simple s \<Rightarrow> simple_valid s)"

definition bl_fits :: "BitfieldLayouter \<Rightarrow> BLPushParam \<Rightarrow> bool" where
  "bl_fits bl p = (case bl of Generic g \<Rightarrow> generic_fits g p | Microsoft g \<Rightarrow> microsoft_fits g p
     | Simple s \<Rightarrow> simple_fits s p)"

lemmas bl_defs = bl_cursor_def bl_order_def bl_offset_def bl_valid_def bl_fits_def

lemma bl_push_places:
  assumes "bl_valid bl" and "bl_fits bl p" and "bl_cursor bl + push_growth \<le> bit_limit"
  shows "\<exists>bl' d. bl_push bl p = Inr (BLE_NO_ERROR, bl', d) \<and> bl_valid bl'
    \<and> bl_order bl' = bl_order bl \<and> (\<forall>q. bl_fits bl' q = bl_fits bl q)
    \<and> bl_cursor bl \<le> bl_cursor bl' \<and> bl_cursor bl' \<le> bl_cursor bl + push_growth
    \<and> same_field (pp_decl p) d
    \<and> (pp_bits p \<noteq> 0 \<longrightarrow> field_in_unit d \<and> bl_cursor bl \<le> field_start (bl_order bl) d
         \<and> field_end (bl_order bl) d \<le> bl_cursor bl')"
proof (cases bl)
  case (Generic g)
  with Generic_push_places [of g p] assms show ?thesis
    by (fastforce simp: bl_defs bl_push_def)
next
  case (Microsoft g)
  with Microsoft_push_places [of g p] assms show ?thesis
    by (fastforce simp: bl_defs bl_push_def)
next
  case (Simple s)
  with Simple_push_places [of s p] assms show ?thesis
    by (fastforce simp: bl_defs bl_push_def)
qed

lemma bl_finalize_covers:
  assumes "bl_valid bl"
  shows "\<exists>bl'. bl_finalize bl = (BLE_NO_ERROR, bl') \<and> bl_cursor bl \<le> 8 * bl_offset bl'"
  using assms Generic_finalize_covers Microsoft_finalize_covers Simple_finalize_covers
  by (cases bl) (fastforce simp: bl_defs bl_finalize_def)+

interpretation engine: layout_engine bl_push bl_finalize bl_cursor bl_order bl_offset bl_valid bl_fits
  by unfold_locales (erule (2) bl_push_places, erule bl_finalize_covers)

section \<open>Starting a run of bit-fields\<close>

text \<open>The properties of a prepared engine, after a reset and with its offset set.\<close>

definition block_sizes_ok :: "BitfieldLayouter \<Rightarrow> bool" where
  "block_sizes_ok bl = (case bl of Simple s \<Rightarrow> block_size s \<in> int_sizes | _ \<Rightarrow> True)"

definition bl_max_align :: "BitfieldLayouter \<Rightarrow> int" where
  "bl_max_align bl = (case bl of Generic g \<Rightarrow> max_align g | Microsoft g \<Rightarrow> max_align g
     | Simple s \<Rightarrow> max_align s)"

definition prepare :: "BitfieldLayouter \<Rightarrow> int \<Rightarrow> int \<Rightarrow> BitfieldLayouter run" where
  "prepare bl al off = and_then (bl_reset bl) (\<lambda>bl1.
     and_then (bl_set bl1 BLP_ALIGN (BLPVT_INT al)) (\<lambda>(_, bl2).
     and_then (bl_set bl2 BLP_OFFSET (BLPVT_INT off)) (\<lambda>(_, bl3). Inr bl3)))"

lemma prepare_valid:
  assumes "ordered (bl_order bl)" and "1 \<le> bl_max_align bl" and "block_sizes_ok bl" and "0 \<le> off"
  shows "\<exists>bl'. prepare bl al off = Inr bl' \<and> bl_valid bl' \<and> bl_cursor bl' = 8 * off
    \<and> bl_order bl' = bl_order bl \<and> (\<forall>p. bl_fits bl' p = bl_fits bl p)"
proof (cases bl)
  case (Generic g)
  then show ?thesis
    using assms
    by (simp add: prepare_def bl_reset_def bl_set_def common_set_def Generic_reset_def bl_defs
        generic_valid_def generic_fits_def generic_cursor_def bl_max_align_def BITS_def)
next
  case (Microsoft g)
  then show ?thesis
    using assms
    by (simp add: prepare_def bl_reset_def bl_set_def common_set_def Microsoft_reset_def bl_defs
        microsoft_valid_def microsoft_fits_def generic_cursor_def bl_max_align_def BITS_def)
next
  case (Simple s)
  then show ?thesis
    using assms
    by (auto simp: prepare_def bl_reset_def bl_set_def Simple_set_def common_set_def Simple_reset_def
        bl_defs simple_valid_def simple_fits_def simple_cursor_def block_sizes_ok_def c_mod_def BITS_def)
qed

section \<open>Fields that are too wide\<close>

lemma move_offset_never:
  assumes "move_offset bits ts ta off bo = Some r" and "0 \<le> bo"
  shows "bits \<le> BITS ts"
proof -
  have "0 \<le> bo \<longrightarrow> bits \<le> BITS ts"
  proof (rule move_offset.raw_induct [where P = "\<lambda>bits ts ta off bo r. 0 \<le> bo \<longrightarrow> bits \<le> BITS ts",
        OF _ assms(1)])
    fix move bits ts ta off bo r
    assume IH: "\<And>b t a f o' r. move b t a f o' = Some r \<Longrightarrow> 0 \<le> o' \<longrightarrow> b \<le> BITS t"
      and step: "(if BITS ts - bo < bits
        then move bits ts ta (off + ta) (if BITS ta < bo then bo - BITS ta else 0)
        else Some (off, bo)) = Some r"
    show "0 \<le> bo \<longrightarrow> bits \<le> BITS ts"
    proof (cases "BITS ts - bo < bits")
      case True
      with step have "move bits ts ta (off + ta) (if BITS ta < bo then bo - BITS ta else 0) = Some r"
        by simp
      from IH [OF this] show ?thesis by simp
    qed simp
  qed
  with assms(2) show ?thesis by simp
qed

section \<open>Properties\<close>

text \<open>
  C11 Whatever the engine, the bit-fields of a run lie inside their units of 1, 2, 4
  or 8 bytes, in declaration order and without a shared bit, from the offset the run starts
  at up to the offset the compound continues at; no push fails. The fields fit their types,
  and with the generic engine zero-width fields are not packed below their type's alignment.
\<close>

theorem bit_fields_disjoint:
  assumes "ordered (bl_order bl)" and "1 \<le> bl_max_align bl" and "block_sizes_ok bl"
    and "0 \<le> off" and "8 * off + push_growth * int (length ps) \<le> bit_limit"
    and "\<forall>p\<in>set ps. bl_fits bl p"
  shows "\<exists>bl1 bl2 ds bl3. prepare bl al off = Inr bl1 \<and> push_all bl_push bl1 ps = Inr (bl2, ds)
    \<and> bl_finalize bl2 = (BLE_NO_ERROR, bl3)
    \<and> list_all2 (\<lambda>p d. same_field (pp_decl p) d) ps ds
    \<and> fields_between (bl_order bl) (8 * off) (8 * bl_offset bl3) ds"
proof -
  obtain bl1 where bl1: "prepare bl al off = Inr bl1" "bl_valid bl1" "bl_cursor bl1 = 8 * off"
      "bl_order bl1 = bl_order bl" "\<forall>p. bl_fits bl1 p = bl_fits bl p"
    using prepare_valid [OF assms(1-4)] by blast
  show ?thesis
    using engine.run_places [OF bl1(2), of ps] assms(5,6) bl1 by auto
qed

text \<open>
  C36 A bit-field wider than its declared type: the Microsoft engine reports
  \<open>BLE_BITFIELD_TOO_WIDE\<close>, the generic engine never returns from its loop.
\<close>

theorem too_wide:
  assumes "bitfield_flag (pp_decl p)" and "pp_type_size p \<in> int_sizes"
    and "pp_type_align p = pp_type_size p" and "BITS (pp_type_size p) < pp_bits p"
  shows "(generic_valid g \<longrightarrow> Generic_push g p = Inl Diverges)
    \<and> (microsoft_valid m \<longrightarrow> (\<exists>m'. Microsoft_push m p = Inr (BLE_BITFIELD_TOO_WIDE, m', pp_decl p)))"
proof (intro conjI impI)
  assume "generic_valid g"
  from generic_type_change [OF this assms(2)] obtain g1 where
    g1: "Generic_type_change g (pp_type_size p) (pp_type_size p) = Inr g1" "generic_valid g1"
      "cur_type_size g1 = pp_type_size p" by blast
  have "move_offset (pp_bits p) (pp_type_size p) (cur_type_align g1) (offset g1) (bit_offset g1) = None"
    using move_offset_never [of "pp_bits p" "pp_type_size p" "cur_type_align g1" "offset g1" "bit_offset g1"]
      g1(2) assms(4) by (metis generic_valid_def not_None_eq not_less)
  then show "Generic_push g p = Inl Diverges"
    using assms g1 by (simp add: Generic_push_def Let_def)
next
  assume "microsoft_valid m"
  from microsoft_type_change [OF this assms(2)] obtain m1 where
    m1: "Microsoft_type_change m (pp_type_size p) (pp_type_size p) = Inr m1" "microsoft_valid m1"
      "cur_type_size m1 = pp_type_size p" by blast
  have "BITS (pp_type_size p) - bit_offset m1 < pp_bits p" "pp_bits p \<noteq> 0"
    using assms(2,4) m1(2) by (auto simp: microsoft_valid_def BITS_def)
  then show "\<exists>m'. Microsoft_push m p = Inr (BLE_BITFIELD_TOO_WIDE, m', pp_decl p)"
    using assms m1 by (simp add: Microsoft_push_def Let_def)
qed

text \<open>
  After a zero-width bit-field the generic engine stands at the start of a unit of
  its type: the field declared next cannot share a unit of that type with the fields before.
\<close>

theorem zero_width_aligns:
  assumes "generic_valid g" and "generic_fits g p" and "pp_bits p = 0"
    and "generic_cursor g + push_growth \<le> bit_limit"
  shows "\<exists>g'. Generic_push g p = Inr (BLE_NO_ERROR, g', pp_decl p)
    \<and> BITS (pp_type_size p) dvd generic_cursor g' \<and> generic_cursor g \<le> generic_cursor g'"
proof -
  obtain g' d where push: "Generic_push g p = Inr (BLE_NO_ERROR, g', d)" "generic_valid g'"
      "generic_cursor g \<le> generic_cursor g'"
    using Generic_push_places [OF assms(1,2,4)] by blast
  obtain g1 where g1: "Generic_type_change g (pp_type_size p) (pp_type_size p) = Inr g1"
      "generic_valid g1" "cur_type_size g1 = pp_type_size p" "max_align g1 = max_align g"
    using generic_type_change [OF assms(1), of "pp_type_size p"] assms(2)
    by (auto simp: generic_fits_def typed_fits_def)
  have p: "pp_type_align p = pp_type_size p" "pp_type_size p \<in> int_sizes" "pp_type_size p \<le> max_align g"
      "bitfield_flag (pp_decl p)"
    using assms(2,3) by (auto simp: generic_fits_def typed_fits_def)
  have al: "cur_type_align g1 = pp_type_size p" "pp_type_size p dvd offset g1" "0 \<le> bit_offset g1"
    using g1 p by (auto simp: generic_valid_def)
  obtain off bo where mv: "move_offset 0 (pp_type_size p) (pp_type_size p) (offset g1) (bit_offset g1)
      = Some (off, bo)" "0 \<le> bo" "pp_type_size p dvd off - offset g1" "offset g1 \<le> off"
    using move_offset_fits [of 0 "pp_type_size p" "pp_type_size p" "bit_offset g1" "offset g1"] p(2) al
    by (auto simp: BITS_def)
  have off: "pp_type_size p dvd off" "0 \<le> off"
    using mv(3,4) al(2) g1(2) by (metis dvd_add diff_add_cancel) (use mv(4) g1(2) in \<open>simp add: generic_valid_def\<close>)
  then have "c_mod off (pp_type_size p) = Inr 0" using p(2) by (auto simp: c_mod_pos)
  then have "d = pp_decl p \<and> (\<exists>k. g' = g1\<lparr>offset := k, bit_offset := 0\<rparr> \<and> pp_type_size p dvd k)"
    using push(1) assms(3) p g1 al mv off
    by (auto simp: Generic_push_def Let_def split: if_splits)
  with push show ?thesis by (auto simp: generic_cursor_def BITS_def)
qed

section \<open>Witnesses\<close>

definition bit_field :: "string \<Rightarrow> int \<Rightarrow> Declarator" where
  "bit_field name bits = (decl_new (Some name) 0)
     \<lparr>bitfield_flag := True, ext_bitfield := \<lparr>bf_size = 0, bf_bits = bits, bf_pos = 0\<rparr>\<rparr>"

definition int_field :: "string \<Rightarrow> int \<Rightarrow> BLPushParam" where
  "int_field name bits = \<lparr>pp_decl = bit_field name bits, pp_type_size = 4, pp_type_align = 4\<rparr>"

definition new_engine :: "int \<Rightarrow> BL_Generic" where
  "new_engine ma = Generic_init (zero_generic\<lparr>max_align := ma\<rparr>)"

lemma int_field_simps [simp]:
  "bitfield_flag (pp_decl (int_field s n))" "pp_bits (int_field s n) = n"
  "pp_type_size (int_field s n) = 4" "pp_type_align (int_field s n) = 4"
  by (simp_all add: int_field_def bit_field_def)

lemma new_engine_valid [simp]:
  "1 \<le> ma \<Longrightarrow> generic_valid (new_engine ma)" "1 \<le> ma \<Longrightarrow> microsoft_valid (new_engine ma)"
  "max_align (new_engine ma) = ma" "byte_order (new_engine ma) = BLPV_LITTLE_ENDIAN"
  "generic_cursor (new_engine ma) = 0"
  by (simp_all add: new_engine_def Generic_init_def zero_generic_def generic_valid_def
      microsoft_valid_def ordered_def generic_cursor_def BITS_def)

theorem bit_fields_disjoint_witness:
  "\<exists>bl1 bl2 ds bl3. prepare (Generic (new_engine 8)) 1 6 = Inr bl1
     \<and> push_all bl_push bl1 [int_field ''a'' 7, int_field [] 0, int_field ''b'' 32] = Inr (bl2, ds)
     \<and> bl_finalize bl2 = (BLE_NO_ERROR, bl3)
     \<and> fields_between BLPV_LITTLE_ENDIAN 48 (8 * bl_offset bl3) ds"
proof -
  have "\<exists>bl1 bl2 ds bl3. prepare (Generic (new_engine 8)) 1 6 = Inr bl1
     \<and> push_all bl_push bl1 [int_field ''a'' 7, int_field [] 0, int_field ''b'' 32] = Inr (bl2, ds)
     \<and> bl_finalize bl2 = (BLE_NO_ERROR, bl3)
     \<and> list_all2 (\<lambda>p d. same_field (pp_decl p) d) [int_field ''a'' 7, int_field [] 0, int_field ''b'' 32] ds
     \<and> fields_between (bl_order (Generic (new_engine 8))) (8 * 6) (8 * bl_offset bl3) ds"
    by (rule bit_fields_disjoint)
      (simp_all add: bl_defs bl_max_align_def block_sizes_ok_def ordered_def push_growth_def
        bit_limit_def generic_fits_def typed_fits_def BITS_def)
  then show ?thesis by (simp add: bl_order_def) blast
qed

theorem too_wide_witness:
  "Generic_push (new_engine 8) (int_field ''a'' 33) = Inl Diverges
    \<and> (\<exists>m. Microsoft_push (new_engine 8) (int_field ''a'' 33)
             = Inr (BLE_BITFIELD_TOO_WIDE, m, pp_decl (int_field ''a'' 33)))"
  using too_wide [of "int_field ''a'' 33" "new_engine 8" "new_engine 8"] by (simp add: BITS_def)

theorem zero_width_aligns_witness:
  "\<exists>g'. Generic_push (new_engine 8\<lparr>offset := 5\<rparr>) (int_field [] 0)
     = Inr (BLE_NO_ERROR, g', pp_decl (int_field [] 0)) \<and> 32 dvd generic_cursor g'"
  using zero_width_aligns [of "new_engine 8\<lparr>offset := 5\<rparr>" "int_field [] 0"]
  by (auto simp: generic_valid_def generic_fits_def typed_fits_def new_engine_def Generic_init_def
      zero_generic_def ordered_def generic_cursor_def push_growth_def bit_limit_def BITS_def)

section \<open>Zero-width fields under packing\<close>

text \<open>
  Outside the bounds of the contract the generic engine is wrong: packed to one byte, in
  \<open>struct { char x; int a : 31; int : 0; int b : 5; }\<close> the field \<open>a\<close> takes bits 8 to 38 and
  \<open>b\<close>, after the zero-width field, bits 32 to 36.
\<close>

theorem packed_zero_width_overlap:
  "map_sum id (\<lambda>(_, ds). map (\<lambda>d. (field_start BLPV_LITTLE_ENDIAN d, field_end BLPV_LITTLE_ENDIAN d))
       (bit_fields ds))
     (and_then (prepare (Generic (new_engine 1)) 1 1) (\<lambda>bl.
        push_all bl_push bl [int_field ''a'' 31, int_field [] 0, int_field ''b'' 5]))
   = Inr [(8, 39), (32, 37)]"
  by code_simp

end
