(* ===== verification/Layout_Facts.thy ===== *)
theory Layout_Facts
  imports Layout Bitfield_Laws
begin

text \<open>
  The layout of structs: members are aligned, in order and without overlap, bit-fields
  included. The loop over the declarations relies on the type information of the members
  through the locale \<open>settled_types\<close> and on the layouter through its contract.
\<close>

section \<open>The alignment an engine asks for\<close>

definition bl_align :: "BitfieldLayouter \<Rightarrow> int" where
  "bl_align bl = (case bl of Generic g \<Rightarrow> align g | Microsoft g \<Rightarrow> align g | Simple s \<Rightarrow> align s)"

text \<open>What no operation of a run changes: the engine, its cap and its block size.\<close>

definition same_engine :: "BitfieldLayouter \<Rightarrow> BitfieldLayouter \<Rightarrow> bool" where
  "same_engine a b \<longleftrightarrow> bl_max_align b = bl_max_align a \<and> (block_sizes_ok b \<longleftrightarrow> block_sizes_ok a)
     \<and> bl_order b = bl_order a \<and> (\<forall>p. bl_fits b p = bl_fits a p)"

lemma same_engine_refl [simp]: "same_engine a a"
  by (simp add: same_engine_def)

lemma same_engine_trans: "same_engine a b \<Longrightarrow> same_engine b c \<Longrightarrow> same_engine a c"
  by (simp add: same_engine_def)

lemma Generic_type_change_align:
  "Generic_type_change g ts ta = Inr g' \<Longrightarrow> align g \<le> align g'
     \<and> align g' \<le> max (align g) (max_align g) \<and> max_align g' = max_align g \<and> byte_order g' = byte_order g"
  by (auto simp: Generic_type_change_def and_then_Inr Let_def split: if_splits)

lemma Generic_push_align:
  assumes "Generic_push g p = Inr (e, g', d)"
  shows "align g \<le> align g' \<and> align g' \<le> max (align g) (max_align g) \<and> max_align g' = max_align g
    \<and> byte_order g' = byte_order g"
proof -
  obtain g1 where g1: "Generic_type_change g (pp_type_size p) (pp_type_align p) = Inr g1"
    using assms by (auto simp: Generic_push_def and_then_Inr Let_def)
  have "align g' = align g1 \<and> max_align g' = max_align g1 \<and> byte_order g' = byte_order g1"
    using assms g1
    by (auto simp: Generic_push_def and_then_Inr Let_def split: option.splits prod.splits if_splits)
  with Generic_type_change_align [OF g1] show ?thesis by simp
qed

lemma Microsoft_skip_align:
  "align (Microsoft_skip g) = align g" "max_align (Microsoft_skip g) = max_align g"
  "byte_order (Microsoft_skip g) = byte_order g"
  by (simp_all add: Microsoft_skip_def)

lemma Microsoft_type_change_align:
  "Microsoft_type_change g ts ta = Inr g' \<Longrightarrow> align g \<le> align g'
     \<and> align g' \<le> max (align g) (max_align g) \<and> max_align g' = max_align g \<and> byte_order g' = byte_order g"
  by (auto simp: Microsoft_type_change_def and_then_Inr Let_def Microsoft_skip_align split: if_splits)

lemma Microsoft_push_align:
  assumes "Microsoft_push g p = Inr (e, g', d)"
  shows "align g \<le> align g' \<and> align g' \<le> max (align g) (max_align g) \<and> max_align g' = max_align g
    \<and> byte_order g' = byte_order g"
proof -
  obtain g1 where g1: "Microsoft_type_change g (pp_type_size p) (pp_type_align p) = Inr g1"
    using assms by (auto simp: Microsoft_push_def and_then_Inr Let_def)
  have "align g' = align g1 \<and> max_align g' = max_align g1 \<and> byte_order g' = byte_order g1"
    using assms g1
    by (auto simp: Microsoft_push_def and_then_Inr Let_def Microsoft_skip_align split: if_splits)
  with Microsoft_type_change_align [OF g1] show ?thesis by simp
qed

lemma Simple_push_align:
  "Simple_push s p = Inr (e, s', d) \<Longrightarrow> align s' = align s \<and> max_align s' = max_align s
     \<and> block_size s' = block_size s \<and> byte_order s' = byte_order s"
  by (auto simp: Simple_push_def and_then_Inr Let_def Simple_next_block_def split: if_splits)

lemma bl_push_align:
  assumes "bl_push bl p = Inr (e, bl', d)"
  shows "same_engine bl bl' \<and> bl_align bl \<le> bl_align bl' \<and> bl_align bl' \<le> max (bl_align bl) (bl_max_align bl)"
proof (cases bl)
  case (Generic g)
  with assms obtain g' where "Generic_push g p = Inr (e, g', d)" "bl' = Generic g'"
    by (auto simp: bl_push_def and_then_Inr)
  with Generic_push_align [of g p e g' d] Generic show ?thesis
    by (auto simp: same_engine_def bl_align_def bl_max_align_def block_sizes_ok_def bl_defs generic_fits_def)
next
  case (Microsoft g)
  with assms obtain g' where "Microsoft_push g p = Inr (e, g', d)" "bl' = Microsoft g'"
    by (auto simp: bl_push_def and_then_Inr)
  with Microsoft_push_align [of g p e g' d] Microsoft show ?thesis
    by (auto simp: same_engine_def bl_align_def bl_max_align_def block_sizes_ok_def bl_defs microsoft_fits_def)
next
  case (Simple s)
  with assms obtain s' where "Simple_push s p = Inr (e, s', d)" "bl' = Simple s'"
    by (auto simp: bl_push_def and_then_Inr)
  with Simple_push_align [of s p e s' d] Simple show ?thesis
    by (auto simp: same_engine_def bl_align_def bl_max_align_def block_sizes_ok_def bl_defs simple_fits_def)
qed

text \<open>An engine whose alignments are positive and within the 16-bit member of a compound.\<close>

definition engine_ok :: "BitfieldLayouter \<Rightarrow> bool" where
  "engine_ok bl \<longleftrightarrow> ordered (bl_order bl) \<and> 1 \<le> bl_max_align bl \<and> bl_max_align bl < 2 ^ 16
     \<and> block_sizes_ok bl"

lemma engine_ok_same: "same_engine a b \<Longrightarrow> engine_ok b = engine_ok a"
  by (simp add: same_engine_def engine_ok_def)

lemma bl_finalize_facts:
  assumes "bl_valid bl" and "1 \<le> bl_align bl" and "bl_align bl < 2 ^ 16" and "engine_ok bl"
  shows "\<exists>bl'. bl_finalize bl = (BLE_NO_ERROR, bl') \<and> same_engine bl bl' \<and> 1 \<le> bl_align bl'
    \<and> bl_align bl' < 2 ^ 16 \<and> bl_cursor bl \<le> 8 * bl_offset bl' \<and> 8 * bl_offset bl' \<le> bl_cursor bl + 64
    \<and> 0 \<le> bl_offset bl' \<and> bl_get bl' BLP_OFFSET = (BLE_NO_ERROR, Some (BLPVT_INT (bl_offset bl')))
    \<and> bl_get bl' BLP_ALIGN = (BLE_NO_ERROR, Some (BLPVT_INT (bl_align bl')))"
proof (cases bl)
  case (Generic g)
  have "b \<le> 8 * ((b + 7) div 8) \<and> 8 * ((b + 7) div 8) \<le> b + 64 \<and> (0 \<le> b \<longrightarrow> 0 \<le> (b + 7) div 8)" for b :: int
    by presburger
  with Generic assms show ?thesis
    by (simp add: bl_finalize_def Generic_finalize_def same_engine_def bl_align_def bl_max_align_def
        block_sizes_ok_def bl_defs generic_fits_def generic_cursor_def generic_valid_def bl_get_def
        common_get_def BITS_def)
next
  case (Microsoft g)
  with assms show ?thesis
    by (auto simp: bl_finalize_def Microsoft_finalize_def same_engine_def bl_align_def bl_max_align_def
        block_sizes_ok_def bl_defs microsoft_fits_def generic_cursor_def microsoft_valid_def bl_get_def
        common_get_def BITS_def)
next
  case (Simple s)
  with assms show ?thesis
    by (auto simp: bl_finalize_def Simple_finalize_def same_engine_def bl_align_def bl_max_align_def
        block_sizes_ok_def bl_defs simple_fits_def simple_cursor_def simple_valid_def bl_get_def
        Simple_get_def common_get_def Let_def BITS_def)
qed

lemma prepare_facts:
  assumes "engine_ok bl" and "0 \<le> off"
  shows "\<exists>bl'. prepare bl al off = Inr bl' \<and> bl_valid bl' \<and> bl_cursor bl' = 8 * off
    \<and> same_engine bl bl' \<and> bl_align bl' = al"
proof (cases bl)
  case (Generic g)
  then show ?thesis
    using assms
    by (simp add: prepare_def bl_reset_def bl_set_def common_set_def Generic_reset_def bl_defs
        generic_valid_def generic_fits_def generic_cursor_def bl_max_align_def engine_ok_def BITS_def
        same_engine_def bl_align_def block_sizes_ok_def)
next
  case (Microsoft g)
  then show ?thesis
    using assms
    by (simp add: prepare_def bl_reset_def bl_set_def common_set_def Microsoft_reset_def bl_defs
        microsoft_valid_def microsoft_fits_def generic_cursor_def bl_max_align_def engine_ok_def BITS_def
        same_engine_def bl_align_def block_sizes_ok_def)
next
  case (Simple s)
  then show ?thesis
    using assms
    by (auto simp: prepare_def bl_reset_def bl_set_def Simple_set_def common_set_def Simple_reset_def
        bl_defs simple_valid_def simple_fits_def simple_cursor_def block_sizes_ok_def c_mod_def BITS_def
        engine_ok_def bl_max_align_def same_engine_def bl_align_def)
qed

lemma bl_set_align_offset:
  "bl_set bl BLP_ALIGN (BLPVT_INT n) = Inr (BLE_NO_ERROR, (case bl of Generic g \<Rightarrow> Generic (g\<lparr>align := n\<rparr>)
     | Microsoft g \<Rightarrow> Microsoft (g\<lparr>align := n\<rparr>) | Simple s \<Rightarrow> Simple (s\<lparr>align := n\<rparr>)))"
  "bl_set bl BLP_OFFSET (BLPVT_INT n) = Inr (BLE_NO_ERROR, (case bl of Generic g \<Rightarrow> Generic (g\<lparr>offset := n\<rparr>)
     | Microsoft g \<Rightarrow> Microsoft (g\<lparr>offset := n\<rparr>) | Simple s \<Rightarrow> Simple (s\<lparr>offset := n\<rparr>)))"
  by (cases bl; simp add: bl_set_def common_set_def Simple_set_def)+

lemma start_bitfield_prepare:
  "start_bitfield st s = and_then (prepare (layouter st) (s_align s)
     (if has_flag (s_tflags s) T_STRUCT then s_size s else 0)) (\<lambda>bl. Inr (st\<lparr>layouter := bl\<rparr>))"
  by (cases "bl_reset (layouter st)")
    (simp_all add: start_bitfield_def prepare_def BL_SET_def bl_set_align_offset check_def)

end
