(* ===== verification/Struct_Layout.thy ===== *)
theory Struct_Layout
  imports Layout_Facts
begin

text \<open>
  The loop of \<open>layout_compound_generic\<close> over a struct, members and bit-fields mixed: an
  invariant of the state it threads, and what each step adds to the regions laid out.
\<close>

section \<open>Regions\<close>

text \<open>Bit ranges one after the other, between two bounds.\<close>

fun in_order :: "int \<Rightarrow> (int \<times> int) list \<Rightarrow> int \<Rightarrow> bool" where
  "in_order lo [] hi \<longleftrightarrow> lo \<le> hi"
| "in_order lo ((a, b) # rs) hi \<longleftrightarrow> lo \<le> a \<and> a \<le> b \<and> in_order b rs hi"

lemma in_order_le: "in_order lo rs hi \<Longrightarrow> lo \<le> hi"
  by (induction lo rs hi rule: in_order.induct) auto

lemma in_order_append: "in_order lo xs mid \<Longrightarrow> in_order mid ys hi \<Longrightarrow> in_order lo (xs @ ys) hi"
proof (induction lo xs mid rule: in_order.induct)
  case (1 lo mid)
  then show ?case by (cases ys) (auto intro: order_trans)
qed auto

lemma in_order_weaken: "in_order lo rs hi \<Longrightarrow> hi \<le> hi' \<Longrightarrow> in_order lo rs hi'"
  using in_order_append [of lo rs hi "[]" hi'] by simp

lemma in_order_disjoint:
  "in_order lo rs hi \<Longrightarrow> sorted_wrt (\<lambda>r r'. snd r \<le> fst r') rs \<and> (\<forall>r\<in>set rs. lo \<le> fst r \<and> snd r \<le> hi)"
proof (induction lo rs hi rule: in_order.induct)
  case (2 lo a b rs hi)
  then have rest: "in_order b rs hi" "lo \<le> a" "a \<le> b" by auto
  with 2 in_order_le [OF rest(1)] show ?case by force
qed simp

definition decl_regions :: "BLPropValStr \<Rightarrow> Declarator \<Rightarrow> (int \<times> int) list" where
  "decl_regions order d =
     (if bitfield_flag d then
        if bf_bits (ext_bitfield d) = 0 then [] else [(field_start order d, field_end order d)]
      else [(8 * d_offset d, 8 * (d_offset d + d_size d))])"

definition declaration_regions :: "BLPropValStr \<Rightarrow> StructDeclaration \<Rightarrow> (int \<times> int) list" where
  "declaration_regions order sd = (case sd_declarators sd of
     Some ds \<Rightarrow> concat (map (decl_regions order) ds)
   | None \<Rightarrow> [(8 * sd_offset sd, 8 * (sd_offset sd + sd_size sd))])"

definition regions :: "BLPropValStr \<Rightarrow> StructDeclaration list \<Rightarrow> (int \<times> int) list" where
  "regions order sds = concat (map (declaration_regions order) sds)"

section \<open>The state of the loop\<close>

definition same_but :: "nat \<Rightarrow> CState \<Rightarrow> CState \<Rightarrow> bool" where
  "same_but k st0 st \<longleftrightarrow> enums st = enums st0 \<and> typedefs st = typedefs st0
     \<and> typedef_lists st = typedef_lists st0 \<and> (\<forall>j. j \<noteq> k \<longrightarrow> structs st j = structs st0 j)"

definition struct_building :: "Struct \<Rightarrow> bool" where
  "struct_building s \<longleftrightarrow> has_flag (s_tflags s) T_STRUCT \<and> \<not> has_flag (s_tflags s) T_UNION
     \<and> 1 \<le> s_align s \<and> s_align s < 2 ^ 16 \<and> 0 \<le> s_size s"

definition building :: "nat \<Rightarrow> CState \<Rightarrow> BitfieldLayouter \<Rightarrow> CState \<times> bool \<Rightarrow> bool" where
  "building k st0 bl0 = (\<lambda>(st, in_bitfield). same_but k st0 st \<and> engine_ok (layouter st)
     \<and> same_engine bl0 (layouter st)
     \<and> (\<exists>s. structs st k = Some s \<and> struct_building s)
     \<and> (in_bitfield \<longrightarrow> bl_valid (layouter st) \<and> 1 \<le> bl_align (layouter st) \<and> bl_align (layouter st) < 2 ^ 16))"

definition position :: "nat \<Rightarrow> CState \<times> bool \<Rightarrow> int" where
  "position k = (\<lambda>(st, in_bitfield). if in_bitfield then bl_cursor (layouter st)
     else 8 * s_size (the (structs st k)))"

lemma upd_struct_simps [simp]:
  "structs (upd_struct k f st) k = map_option f (structs st k)"
  "j \<noteq> k \<Longrightarrow> structs (upd_struct k f st) j = structs st j"
  "layouter (upd_struct k f st) = layouter st"
  "same_but k st0 (upd_struct k f st) = same_but k st0 st"
  by (simp_all add: upd_struct_def same_but_def)

lemma same_but_layouter [simp]:
  "same_but k st0 (st\<lparr>layouter := bl\<rparr>) = same_but k st0 st"
  by (simp add: same_but_def)

lemma struct_building_inherit [simp]:
  "struct_building (s\<lparr>s_tflags := inherit_flags f b (s_tflags s)\<rparr>) = struct_building s"
proof -
  have "has_flag T_HASBITFIELD T_STRUCT = False" "has_flag T_UNSAFE_VAL T_STRUCT = False"
    "has_flag T_HASBITFIELD T_UNION = False" "has_flag T_UNSAFE_VAL T_UNION = False"
    by (simp_all add: has_flag_def)
  then show ?thesis by (simp add: struct_building_def inherit_flags_def Let_def has_flag_or)
qed

lemma buildingE:
  assumes "building k st0 bl0 (st, inb)"
  obtains s where "structs st k = Some s" "struct_building s" "same_but k st0 st"
    "engine_ok (layouter st)" "same_engine bl0 (layouter st)"
    "inb \<Longrightarrow> bl_valid (layouter st) \<and> 1 \<le> bl_align (layouter st) \<and> bl_align (layouter st) < 2 ^ 16"
  using assms by (auto simp: building_def)

lemma position_nonneg: "building k st0 bl0 (st, False) \<Longrightarrow> 0 \<le> position k (st, False)"
  by (auto simp: building_def position_def struct_building_def)

lemma to_unsigned_id [simp]: "0 \<le> x \<Longrightarrow> x < 4294967296 \<Longrightarrow> to_unsigned x = x"
  by (simp add: cast_u_id)

lemma cast_u_16_id [simp]: "0 \<le> x \<Longrightarrow> x < 65536 \<Longrightarrow> cast_u 16 x = x"
  by (simp add: cast_u_id)

lemma cast_s_29_id [simp]: "0 \<le> x \<Longrightarrow> x < 268435456 \<Longrightarrow> cast_s 29 x = x"
  by (simp add: cast_s_id)

section \<open>Single steps\<close>

lemma finish_building:
  assumes b: "building k st0 bl0 (st, True)" and lim: "position k (st, True) + 64 \<le> bit_limit"
  shows "\<exists>st'. FINISH_BITFIELD st k = Inr st' \<and> building k st0 bl0 (st', False)
    \<and> position k (st, True) \<le> position k (st', False) \<and> position k (st', False) \<le> position k (st, True) + 64"
proof -
  from b obtain s where s: "structs st k = Some s" "struct_building s" "same_but k st0 st"
      "engine_ok (layouter st)" "same_engine bl0 (layouter st)" "bl_valid (layouter st)"
      "1 \<le> bl_align (layouter st)" "bl_align (layouter st) < 2 ^ 16"
    by (rule buildingE) simp
  obtain bl where bl: "bl_finalize (layouter st) = (BLE_NO_ERROR, bl)" "same_engine (layouter st) bl"
      "1 \<le> bl_align bl" "bl_align bl < 2 ^ 16" "bl_cursor (layouter st) \<le> 8 * bl_offset bl"
      "8 * bl_offset bl \<le> bl_cursor (layouter st) + 64" "0 \<le> bl_offset bl"
      "bl_get bl BLP_OFFSET = (BLE_NO_ERROR, Some (BLPVT_INT (bl_offset bl)))"
      "bl_get bl BLP_ALIGN = (BLE_NO_ERROR, Some (BLPVT_INT (bl_align bl)))"
    using bl_finalize_facts [OF s(6,7,8,4)] by blast
  have "8 * bl_offset bl \<le> 2 ^ 30" using bl(6) lim by (simp add: position_def bit_limit_def)
  then have off: "to_unsigned (bl_offset bl) = bl_offset bl" using bl(7) by simp
  define st' where "st' = upd_struct k (\<lambda>s. s\<lparr>s_size := bl_offset bl, s_align := bl_align bl\<rparr>) (st\<lparr>layouter := bl\<rparr>)"
  have "FINISH_BITFIELD st k = Inr st'"
    using bl off by (simp add: FINISH_BITFIELD_def BL_GET_def Let_def st'_def)
  moreover have "building k st0 bl0 (st', False)"
    using s bl engine_ok_same [OF bl(2)] same_engine_trans [OF s(5) bl(2)]
    by (simp add: building_def st'_def struct_building_def)
  moreover have "position k (st', False) = 8 * bl_offset bl"
    using s(1) by (simp add: position_def st'_def)
  ultimately show ?thesis using bl(5,6) by (auto simp: position_def)
qed

lemma start_building:
  assumes "building k st0 bl0 (st, False)" and "structs st k = Some s"
  shows "\<exists>st'. start_bitfield st s = Inr st' \<and> building k st0 bl0 (st', True)
    \<and> position k (st', True) = position k (st, False) \<and> structs st' k = Some s"
proof -
  from assms(1) obtain t where "structs st k = Some t" "struct_building t" "same_but k st0 st"
      "engine_ok (layouter st)" "same_engine bl0 (layouter st)"
    by (rule buildingE) simp
  with assms(2) have s: "struct_building s" "same_but k st0 st" "engine_ok (layouter st)"
      "same_engine bl0 (layouter st)" by auto
  then have "0 \<le> s_size s" "has_flag (s_tflags s) T_STRUCT" by (auto simp: struct_building_def)
  then obtain bl where bl: "prepare (layouter st) (s_align s) (s_size s) = Inr bl" "bl_valid bl"
      "bl_cursor bl = 8 * s_size s" "same_engine (layouter st) bl" "bl_align bl = s_align s"
    using prepare_facts [OF s(3), of "s_size s" "s_align s"] by blast
  have "start_bitfield st s = Inr (st\<lparr>layouter := bl\<rparr>)"
    using bl \<open>has_flag (s_tflags s) T_STRUCT\<close> by (simp add: start_bitfield_prepare)
  moreover have "building k st0 bl0 (st\<lparr>layouter := bl\<rparr>, True)"
    using s bl assms(2) engine_ok_same [OF bl(4)] same_engine_trans [OF s(4) bl(4)]
    by (simp add: building_def struct_building_def)
  ultimately show ?thesis using bl assms(2) by (simp add: position_def)
qed

lemma place_bitfield_building:
  assumes b: "building k st0 bl0 (st, inb)" and lim: "position k (st, inb) + push_growth \<le> bit_limit"
    and fit: "bl_fits bl0 \<lparr>pp_decl = d, pp_type_size = ti_item_size info, pp_type_align = ti_align info\<rparr>"
    and flag: "bitfield_flag d"
  shows "\<exists>d' st'. place_bitfield k info d (st, inb) = Inr (d', st', True) \<and> building k st0 bl0 (st', True)
    \<and> in_order (position k (st, inb)) (decl_regions (bl_order bl0) d') (position k (st', True))
    \<and> position k (st', True) \<le> position k (st, inb) + push_growth
    \<and> same_field d d'"
proof -
  from b obtain s where s: "structs st k = Some s" "struct_building s"
    by (rule buildingE) simp
  then have u: "has_flag (s_tflags s) T_STRUCT" "\<not> has_flag (s_tflags s) T_UNION"
    by (auto simp: struct_building_def)
  obtain st1 where st1: "(if inb then Inr st else start_bitfield st s) = Inr st1"
      "building k st0 bl0 (st1, True)" "position k (st1, True) = position k (st, inb)" "structs st1 k = Some s"
    using start_building [of k st0 bl0 st s] b s(1) by (cases inb) auto
  from st1(2) have t: "same_but k st0 st1" "engine_ok (layouter st1)" "same_engine bl0 (layouter st1)"
      "bl_valid (layouter st1)" "1 \<le> bl_align (layouter st1)" "bl_align (layouter st1) < 2 ^ 16"
    by (auto elim: buildingE)
  let ?p = "\<lparr>pp_decl = d, pp_type_size = ti_item_size info, pp_type_align = ti_align info\<rparr>"
  have fit1: "bl_fits (layouter st1) ?p" using fit t(3) by (simp add: same_engine_def)
  have ord: "bl_order (layouter st1) = bl_order bl0" using t(3) by (simp add: same_engine_def)
  have "bl_cursor (layouter st1) + push_growth \<le> bit_limit" using lim st1(3) by (simp add: position_def)
  from bl_push_places [OF t(4) fit1 this] obtain bl d' where
    push: "bl_push (layouter st1) ?p = Inr (BLE_NO_ERROR, bl, d')" "bl_valid bl"
      "bl_cursor (layouter st1) \<le> bl_cursor bl" "bl_cursor bl \<le> bl_cursor (layouter st1) + push_growth"
      "same_field d d'"
      "bf_bits (ext_bitfield d) \<noteq> 0 \<longrightarrow> field_in_unit d' \<and> bl_cursor (layouter st1) \<le> field_start (bl_order bl0) d'
         \<and> field_end (bl_order bl0) d' \<le> bl_cursor bl"
    using ord by auto
  note al = bl_push_align [OF push(1)]
  have "bl_max_align (layouter st1) < 2 ^ 16" using t(2) by (simp add: engine_ok_def)
  then have al2: "1 \<le> bl_align bl" "bl_align bl < 2 ^ 16" using al t(5,6) by auto
  have run: "place_bitfield k info d (st, inb) = Inr (d', st1\<lparr>layouter := bl\<rparr>, True)"
    using s(1) st1(1) push(1) u by (simp add: place_bitfield_def the_struct_def Let_def)
  have "0 \<le> bf_bits (ext_bitfield d)"
    using fit by (auto simp: bl_fits_def generic_fits_def microsoft_fits_def simple_fits_def typed_fits_def
        split: BitfieldLayouter.splits)
  moreover have "bitfield_flag d'" "bf_bits (ext_bitfield d') = bf_bits (ext_bitfield d)"
    using push(5) flag by (auto simp: same_field_def)
  ultimately have "in_order (position k (st, inb)) (decl_regions (bl_order bl0) d') (bl_cursor bl)"
    using push(3,6) st1(3) by (auto simp: decl_regions_def position_def field_end_def)
  moreover have "building k st0 bl0 (st1\<lparr>layouter := bl\<rparr>, True)"
    using t al al2 push(2) st1(4) s(2) engine_ok_same [of "layouter st1" bl]
      same_engine_trans [OF t(3)]
    by (auto simp: building_def)
  ultimately show ?thesis
    using run push(4,5) st1(3) by (auto simp: position_def)
qed

lemma pad_up:
  assumes "0 \<le> n" and "1 \<le> a" and "n + a < 2 ^ 32"
  shows "\<exists>m. pad n a = Inr m \<and> n \<le> m \<and> m < n + a \<and> a dvd m"
proof -
  define r where "r = n mod a"
  have r: "0 \<le> r" "r < a" using assms by (simp_all add: r_def)
  have "a dvd n - r" by (simp add: r_def)
  then have dvd: "a dvd n + (a - r)" by (metis add_diff_eq diff_add_eq dvd_add_right_iff dvd_refl add.commute)
  have pad: "pad n a = Inr (if r \<noteq> 0 then to_unsigned (n + (a - r)) else n)"
    using assms by (simp add: pad_def c_mod_pos r_def)
  show ?thesis
  proof (cases "r = 0")
    case True
    then show ?thesis using pad assms \<open>a dvd n - r\<close> by simp
  next
    case False
    then have "to_unsigned (n + (a - r)) = n + (a - r)" using r assms by simp
    then show ?thesis using pad r dvd False by auto
  qed
qed

lemma place_member_building:
  assumes b: "building k st0 bl0 (st, inb)" and al: "1 \<le> al" "al < 2 ^ 16"
    and i: "1 \<le> ti_align info" "0 \<le> ti_size info"
    and lim: "position k (st, inb) + push_growth + 8 * (al + ti_size info) \<le> bit_limit"
  shows "\<exists>off st'. place_member al k info sd_off (st, inb)
      = Inr (off, if sd_off < 0 then off else sd_off, st', False)
    \<and> building k st0 bl0 (st', False) \<and> position k (st, inb) \<le> 8 * off \<and> 0 \<le> off
    \<and> min al (ti_align info) dvd off
    \<and> position k (st', False) = 8 * (off + ti_size info)
    \<and> position k (st', False) \<le> position k (st, inb) + push_growth + 8 * (al + ti_size info)"
proof -
  define a where "a = (if ti_align info > al then al else ti_align info)"
  have a: "1 \<le> a" "a \<le> al" "a = min al (ti_align info)" using al i by (auto simp: a_def)
  have "position k (st, inb) + 64 \<le> bit_limit" using lim i al by (simp add: push_growth_def)
  then obtain st1 where st1: "(if inb then FINISH_BITFIELD st k else Inr st) = Inr st1"
      "building k st0 bl0 (st1, False)" "position k (st, inb) \<le> position k (st1, False)"
      "position k (st1, False) \<le> position k (st, inb) + 64"
    using finish_building [of k st0 bl0 st] b by (cases inb) auto
  from st1(2) obtain s where s: "structs st1 k = Some s" "struct_building s" "same_but k st0 st1"
      "engine_ok (layouter st1)" "same_engine bl0 (layouter st1)"
    by (rule buildingE) simp
  have sz: "position k (st1, False) = 8 * s_size s" "0 \<le> s_size s" "has_flag (s_tflags s) T_STRUCT"
    using s by (auto simp: position_def struct_building_def)
  have bound: "8 * (s_size s + al + ti_size info) + 448 \<le> 2 ^ 30"
    using st1(4) sz(1) lim by (simp add: push_growth_def bit_limit_def)
  obtain off where off: "pad (s_size s) a = Inr off" "s_size s \<le> off" "off < s_size s + a" "a dvd off"
    using pad_up [OF sz(2) a(1)] bound a(2) i by auto
  define st' where "st' = upd_struct k (\<lambda>s. s\<lparr>s_size := off + ti_size info\<rparr>)
    (upd_struct k (\<lambda>s. if a > s_align s then s\<lparr>s_align := cast_u 16 a\<rparr> else s) st1)"
  have cast: "to_unsigned (off + ti_size info) = off + ti_size info" "to_int off = off" "cast_u 16 a = a"
    using off sz(2) bound a al i by auto
  then have "place_member al k info sd_off (st, inb)
      = Inr (off, if sd_off < 0 then off else sd_off, st', False)"
    using st1(1) s(1) sz(3) off(1) cast(1,2)
    by (simp add: place_member_def the_struct_def Let_def st'_def flip: a_def)
  moreover have "building k st0 bl0 (st', False)"
    using s a al off(2) sz i cast(3) by (auto simp: building_def st'_def struct_building_def)
  moreover have "position k (st', False) = 8 * (off + ti_size info)"
    using s(1) by (simp add: position_def st'_def)
  ultimately show ?thesis
    using off st1(3,4) sz(1,2) a(2,3) by (auto simp: push_growth_def)
qed

section \<open>The loop\<close>

text \<open>
  What is asked of a member: its type is settled, a bit-field fits, any other member has an
  alignment and a size. A budget bounds what it adds to the compound.
\<close>

definition sized :: "TypeInfo \<Rightarrow> bool" where
  "sized info \<longleftrightarrow> 1 \<le> ti_align info \<and> 0 \<le> ti_size info"

definition push_param :: "TypeInfo \<Rightarrow> Declarator \<Rightarrow> BLPushParam" where
  "push_param info d = \<lparr>pp_decl = d, pp_type_size = ti_item_size info, pp_type_align = ti_align info\<rparr>"

definition member_ok ::
  "(TypeSpec \<Rightarrow> Declarator option \<Rightarrow> bool) \<Rightarrow> (TypeSpec \<Rightarrow> Declarator option \<Rightarrow> TypeInfo)
     \<Rightarrow> BitfieldLayouter \<Rightarrow> TypeSpec \<Rightarrow> Declarator \<Rightarrow> bool" where
  "member_ok settled info bl ts d \<longleftrightarrow> settled ts (Some d) \<and>
     (if bitfield_flag d then bl_fits bl (push_param (info ts (Some d)) d) else sized (info ts (Some d)))"

definition declaration_ok ::
  "(TypeSpec \<Rightarrow> Declarator option \<Rightarrow> bool) \<Rightarrow> (TypeSpec \<Rightarrow> Declarator option \<Rightarrow> TypeInfo)
     \<Rightarrow> BitfieldLayouter \<Rightarrow> StructDeclaration \<Rightarrow> bool" where
  "declaration_ok settled info bl sd = (case sd_declarators sd of
     Some ds \<Rightarrow> list_all (member_ok settled info bl (sd_type sd)) ds
   | None \<Rightarrow> settled (sd_type sd) None \<and> sized (info (sd_type sd) None))"

definition member_weight ::
  "int \<Rightarrow> (TypeSpec \<Rightarrow> Declarator option \<Rightarrow> TypeInfo) \<Rightarrow> TypeSpec \<Rightarrow> Declarator \<Rightarrow> int" where
  "member_weight al info ts d =
     push_growth + 8 * (al + (if bitfield_flag d then 0 else ti_size (info ts (Some d))))"

definition declaration_weight ::
  "int \<Rightarrow> (TypeSpec \<Rightarrow> Declarator option \<Rightarrow> TypeInfo) \<Rightarrow> StructDeclaration \<Rightarrow> int" where
  "declaration_weight al info sd = (case sd_declarators sd of
     Some ds \<Rightarrow> sum_list (map (member_weight al info (sd_type sd)) ds)
   | None \<Rightarrow> 2 * push_growth + 8 * (al + ti_size (info (sd_type sd) None)))"

lemma member_weight_nonneg:
  "member_ok settled info bl ts d \<Longrightarrow> 1 \<le> al \<Longrightarrow> 0 \<le> member_weight al info ts d"
  by (auto simp: member_weight_def member_ok_def sized_def push_growth_def split: if_splits)

lemma member_weights_nonneg:
  "list_all (member_ok settled info bl ts) ds \<Longrightarrow> 1 \<le> al \<Longrightarrow>
   0 \<le> sum_list (map (member_weight al info ts) ds)"
  by (induction ds) (auto dest: member_weight_nonneg)

lemma declaration_weight_nonneg:
  "declaration_ok settled info bl sd \<Longrightarrow> 1 \<le> al \<Longrightarrow> 0 \<le> declaration_weight al info sd"
  by (cases "sd_declarators sd")
    (auto simp: declaration_weight_def declaration_ok_def sized_def push_growth_def
      intro: member_weights_nonneg)

lemma declaration_weights_nonneg:
  "list_all (declaration_ok settled info bl) sds \<Longrightarrow> 1 \<le> al \<Longrightarrow>
   0 \<le> sum_list (map (declaration_weight al info) sds)"
  by (induction sds) (auto dest: declaration_weight_nonneg)

text \<open>What becomes of a member: the same declarator, with a size and an aligned offset.\<close>

definition member_placed ::
  "int \<Rightarrow> (TypeSpec \<Rightarrow> Declarator option \<Rightarrow> TypeInfo) \<Rightarrow> TypeSpec \<Rightarrow> Declarator \<Rightarrow> Declarator \<Rightarrow> bool" where
  "member_placed al info ts d d' \<longleftrightarrow> same_field d d' \<and> (\<not> bitfield_flag d \<longrightarrow>
     d_size d' = ti_size (info ts (Some d)) \<and> min al (ti_align (info ts (Some d))) dvd d_offset d')"

definition declaration_placed ::
  "int \<Rightarrow> (TypeSpec \<Rightarrow> Declarator option \<Rightarrow> TypeInfo) \<Rightarrow> StructDeclaration \<Rightarrow> StructDeclaration \<Rightarrow> bool" where
  "declaration_placed al info sd sd' \<longleftrightarrow> sd_type sd' = sd_type sd \<and>
     (case sd_declarators sd of
        Some ds \<Rightarrow> (\<exists>ds'. sd_declarators sd' = Some ds' \<and> list_all2 (member_placed al info (sd_type sd)) ds ds')
      | None \<Rightarrow> sd_declarators sd' = None \<and> sd_size sd' = ti_size (info (sd_type sd) None)
          \<and> min al (ti_align (info (sd_type sd) None)) dvd sd_offset sd')"

locale settled_types =
  fixes gti :: gti
    and k :: nat
    and st0 :: CState
    and settled :: "TypeSpec \<Rightarrow> Declarator option \<Rightarrow> bool"
    and info :: "TypeSpec \<Rightarrow> Declarator option \<Rightarrow> TypeInfo"
  assumes gti_settled: "settled ts d \<Longrightarrow> same_but k st0 st \<Longrightarrow> \<exists>e. gti st ts d = Inr (e, info ts d, st)"
begin

lemma building_inherit:
  assumes "building k st0 bl0 (st, inb)"
  shows "building k st0 bl0 (upd_struct k (\<lambda>s. s\<lparr>s_tflags := inherit_flags f b (s_tflags s)\<rparr>) st, inb)"
    and "position k (upd_struct k (\<lambda>s. s\<lparr>s_tflags := inherit_flags f b (s_tflags s)\<rparr>) st, inb)
      = position k (st, inb)"
  using assms by (auto simp: building_def position_def)

lemma layout_declarator_building:
  assumes b: "building k st0 bl0 (st, inb)" and ok: "member_ok settled info bl0 ts d"
    and al: "1 \<le> al" "al < 2 ^ 16"
    and lim: "position k (st, inb) + member_weight al info ts d \<le> bit_limit"
  shows "\<exists>d' sd' st' inb'. layout_declarator gti al k ts d sd_off (st, inb) = Inr (d', sd', st', inb')
    \<and> building k st0 bl0 (st', inb')
    \<and> in_order (position k (st, inb)) (decl_regions (bl_order bl0) d') (position k (st', inb'))
    \<and> position k (st', inb') \<le> position k (st, inb) + member_weight al info ts d
    \<and> member_placed al info ts d d'"
proof -
  let ?i = "info ts (Some d)"
  define st1 where "st1 = upd_struct k
    (\<lambda>s. s\<lparr>s_tflags := inherit_flags (ti_flags ?i) (bitfield_flag d) (s_tflags s)\<rparr>) st"
  have st1: "building k st0 bl0 (st1, inb)" "position k (st1, inb) = position k (st, inb)"
    using building_inherit [OF b] by (simp_all add: st1_def)
  have "same_but k st0 st" using b by (auto elim: buildingE)
  with ok obtain e where g: "gti st ts (Some d) = Inr (e, ?i, st)"
    using gti_settled [of ts "Some d" st] unfolding member_ok_def by blast
  show ?thesis
  proof (cases "bitfield_flag d")
    case True
    have "position k (st1, inb) + push_growth \<le> bit_limit"
      using lim st1(2) True al by (simp add: member_weight_def)
    from place_bitfield_building [OF st1(1) this _ True, of ?i] obtain d' st' where pb:
      "place_bitfield k ?i d (st1, inb) = Inr (d', st', True)" "building k st0 bl0 (st', True)"
      "in_order (position k (st, inb)) (decl_regions (bl_order bl0) d') (position k (st', True))"
      "position k (st', True) \<le> position k (st, inb) + push_growth" "same_field d d'"
      using ok True st1(2) by (auto simp: member_ok_def push_param_def)
    have "layout_declarator gti al k ts d sd_off (st, inb) = Inr (d', sd_off, st', True)"
      using g True pb(1) by (simp add: layout_declarator_def Let_def st1_def)
    moreover have "push_growth \<le> member_weight al info ts d"
      using True al by (simp add: member_weight_def)
    moreover have "member_placed al info ts d d'" using True pb(5) by (simp add: member_placed_def)
    ultimately show ?thesis using pb(2-4) by force
  next
    case False
    then have i: "1 \<le> ti_align ?i" "0 \<le> ti_size ?i" using ok by (auto simp: member_ok_def sized_def)
    have w: "member_weight al info ts d = push_growth + 8 * (al + ti_size ?i)"
      using False by (simp add: member_weight_def)
    have "position k (st1, inb) + push_growth + 8 * (al + ti_size ?i) \<le> bit_limit"
      using lim st1(2) w by simp
    from place_member_building [OF st1(1) al i this, of sd_off] obtain off st' where
      pm: "place_member al k ?i sd_off (st1, inb) = Inr (off, if sd_off < 0 then off else sd_off, st', False)"
        "building k st0 bl0 (st', False)" "position k (st, inb) \<le> 8 * off" "0 \<le> off"
        "min al (ti_align ?i) dvd off" "position k (st', False) = 8 * (off + ti_size ?i)"
        "position k (st', False) \<le> position k (st, inb) + member_weight al info ts d"
      using st1(2) w by auto
    have "8 * (off + ti_size ?i) \<le> 2 ^ 30" using pm(6,7) lim by (simp add: bit_limit_def)
    then have c: "cast_s 29 off = off" "to_int (ti_size ?i) = ti_size ?i" using pm(4) i(2) by auto
    define d' where "d' = d\<lparr>d_size := ti_size ?i, d_item_size := to_int (ti_item_size ?i), d_offset := off\<rparr>"
    have "layout_declarator gti al k ts d sd_off (st, inb)
        = Inr (d', if sd_off < 0 then off else sd_off, st', False)"
      using g False pm(1) c by (simp add: layout_declarator_def Let_def d'_def st1_def)
    moreover have "in_order (position k (st, inb)) (decl_regions (bl_order bl0) d') (position k (st', False))"
      using False pm(3,6) i by (simp add: decl_regions_def d'_def)
    moreover have "member_placed al info ts d d'"
      using False pm(5) by (simp add: member_placed_def same_field_def d'_def)
    ultimately show ?thesis using pm(2,7) by blast
  qed
qed

lemma layout_declarators_building:
  assumes "building k st0 bl0 (st, inb)" and "list_all (member_ok settled info bl0 ts) ds"
    and al: "1 \<le> al" "al < 2 ^ 16"
    and "position k (st, inb) + sum_list (map (member_weight al info ts) ds) \<le> bit_limit"
  shows "\<exists>ds' sd' st' inb'. layout_declarators gti al k ts ds sd_off (st, inb) = Inr (ds', sd', st', inb')
    \<and> building k st0 bl0 (st', inb')
    \<and> in_order (position k (st, inb)) (concat (map (decl_regions (bl_order bl0)) ds')) (position k (st', inb'))
    \<and> position k (st', inb') \<le> position k (st, inb) + sum_list (map (member_weight al info ts) ds)
    \<and> list_all2 (member_placed al info ts) ds ds'"
  using assms
proof (induction ds arbitrary: st inb sd_off)
  case Nil
  then show ?case by simp
next
  case (Cons d ds)
  have nonneg: "0 \<le> sum_list (map (member_weight al info ts) ds)"
    using Cons.prems(2) al by (auto intro: member_weights_nonneg)
  have ok: "member_ok settled info bl0 ts d" "list_all (member_ok settled info bl0 ts) ds"
    using Cons.prems(2) by auto
  have lim: "position k (st, inb) + member_weight al info ts d \<le> bit_limit"
    using Cons.prems(5) nonneg by simp
  from layout_declarator_building [OF Cons.prems(1) ok(1) al lim, of sd_off] obtain d' sd1 st1 inb1 where
    d: "layout_declarator gti al k ts d sd_off (st, inb) = Inr (d', sd1, st1, inb1)"
      "building k st0 bl0 (st1, inb1)"
      "in_order (position k (st, inb)) (decl_regions (bl_order bl0) d') (position k (st1, inb1))"
      "position k (st1, inb1) \<le> position k (st, inb) + member_weight al info ts d"
      "member_placed al info ts d d'"
    by blast
  have "position k (st1, inb1) + sum_list (map (member_weight al info ts) ds) \<le> bit_limit"
    using d(4) Cons.prems(5) by simp
  from Cons.IH [OF d(2) ok(2) al this, of sd1] obtain ds' sd2 st2 inb2 where r:
    "layout_declarators gti al k ts ds sd1 (st1, inb1) = Inr (ds', sd2, st2, inb2)"
    "building k st0 bl0 (st2, inb2)"
    "in_order (position k (st1, inb1)) (concat (map (decl_regions (bl_order bl0)) ds')) (position k (st2, inb2))"
    "position k (st2, inb2) \<le> position k (st1, inb1) + sum_list (map (member_weight al info ts) ds)"
    "list_all2 (member_placed al info ts) ds ds'"
    by blast
  have "layout_declarators gti al k ts (d # ds) sd_off (st, inb) = Inr (d' # ds', sd2, st2, inb2)"
    using d(1) r(1) by simp
  moreover have "in_order (position k (st, inb)) (concat (map (decl_regions (bl_order bl0)) (d' # ds')))
      (position k (st2, inb2))"
    using in_order_append [OF d(3) r(3)] by simp
  moreover have "position k (st2, inb2)
      \<le> position k (st, inb) + sum_list (map (member_weight al info ts) (d # ds))"
    using d(4) r(4) by simp
  moreover have "list_all2 (member_placed al info ts) (d # ds) (d' # ds')" using d(5) r(5) by simp
  ultimately show ?case using r(2) by blast
qed

lemma layout_unnamed_building:
  assumes b: "building k st0 bl0 (st, inb)" and "settled ts None" and i: "sized (info ts None)"
    and al: "1 \<le> al" "al < 2 ^ 16"
    and lim: "position k (st, inb) + 2 * push_growth + 8 * (al + ti_size (info ts None)) \<le> bit_limit"
  shows "\<exists>off st'. layout_unnamed gti al k ts sd_off (st, inb) = Inr (if sd_off < 0 then off else sd_off, st', False)
    \<and> building k st0 bl0 (st', False) \<and> position k (st, inb) \<le> 8 * off \<and> 0 \<le> off
    \<and> min al (ti_align (info ts None)) dvd off
    \<and> position k (st', False) = 8 * (off + ti_size (info ts None))
    \<and> position k (st', False) \<le> position k (st, inb) + 2 * push_growth + 8 * (al + ti_size (info ts None))"
proof -
  let ?i = "info ts None"
  have i: "1 \<le> ti_align ?i" "0 \<le> ti_size ?i" using i by (auto simp: sized_def)
  have "position k (st, inb) + 64 \<le> bit_limit" using lim i al by (simp add: push_growth_def)
  then obtain st1 where st1: "(if inb then FINISH_BITFIELD st k else Inr st) = Inr st1"
      "building k st0 bl0 (st1, False)" "position k (st, inb) \<le> position k (st1, False)"
      "position k (st1, False) \<le> position k (st, inb) + 64"
    using finish_building [of k st0 bl0 st] b by (cases inb) auto
  have "same_but k st0 st1" using st1(2) by (auto elim: buildingE)
  with assms(2) obtain e where g: "gti st1 ts None = Inr (e, ?i, st1)" using gti_settled by blast
  define st2 where "st2 = upd_struct k
    (\<lambda>s. s\<lparr>s_tflags := inherit_flags (ti_flags ?i) False (s_tflags s)\<rparr>) st1"
  have st2: "building k st0 bl0 (st2, False)" "position k (st2, False) = position k (st1, False)"
    using building_inherit [OF st1(2)] by (simp_all add: st2_def)
  have "position k (st2, False) + push_growth + 8 * (al + ti_size ?i) \<le> bit_limit"
    using lim st2(2) st1(4) by (simp add: push_growth_def)
  from place_member_building [OF st2(1) al i this, of sd_off] obtain off st' where
    pm: "place_member al k ?i sd_off (st2, False) = Inr (off, if sd_off < 0 then off else sd_off, st', False)"
      "building k st0 bl0 (st', False)" "position k (st2, False) \<le> 8 * off" "0 \<le> off"
      "min al (ti_align ?i) dvd off" "position k (st', False) = 8 * (off + ti_size ?i)"
      "position k (st', False) \<le> position k (st2, False) + push_growth + 8 * (al + ti_size ?i)"
    by blast
  have "layout_unnamed gti al k ts sd_off (st, inb) = Inr (if sd_off < 0 then off else sd_off, st', False)"
    using st1(1) g pm(1) by (simp add: layout_unnamed_def Let_def flip: st2_def)
  with pm st1(3,4) st2(2) show ?thesis by (auto simp: push_growth_def)
qed

lemma layout_declaration_building:
  assumes b: "building k st0 bl0 (st, inb)" and ok: "declaration_ok settled info bl0 sd"
    and al: "1 \<le> al" "al < 2 ^ 16"
    and lim: "position k (st, inb) + declaration_weight al info sd \<le> bit_limit"
  shows "\<exists>sd' st' inb'. layout_declaration gti al k sd (st, inb) = Inr (sd', st', inb')
    \<and> building k st0 bl0 (st', inb')
    \<and> in_order (position k (st, inb)) (declaration_regions (bl_order bl0) sd') (position k (st', inb'))
    \<and> position k (st', inb') \<le> position k (st, inb) + declaration_weight al info sd
    \<and> declaration_placed al info sd sd'"
proof -
  from b obtain s where s: "structs st k = Some s" "struct_building s" by (rule buildingE) simp
  then have flag: "has_flag (s_tflags s) T_STRUCT" by (simp add: struct_building_def)
  show ?thesis
  proof (cases "sd_declarators sd")
    case (Some ds)
    from layout_declarators_building [OF b _ al, of "sd_type sd" ds "-1"] ok lim Some obtain ds' sd1 st1 inb1 where
      l: "layout_declarators gti al k (sd_type sd) ds (-1) (st, inb) = Inr (ds', sd1, st1, inb1)"
        "building k st0 bl0 (st1, inb1)"
        "in_order (position k (st, inb)) (concat (map (decl_regions (bl_order bl0)) ds')) (position k (st1, inb1))"
        "position k (st1, inb1) \<le> position k (st, inb) + declaration_weight al info sd"
        "list_all2 (member_placed al info (sd_type sd)) ds ds'"
      by (auto simp: declaration_ok_def declaration_weight_def)
    from l(2) obtain s1 where s1: "structs st1 k = Some s1" by (rule buildingE) simp
    define sd' where "sd' = sd\<lparr>sd_declarators := Some ds',
      sd_offset := (if sd1 < 0 then to_int (s_size s1) else sd1),
      sd_size := to_int (to_unsigned (s_size s1 - (if sd1 < 0 then to_int (s_size s1) else sd1)))\<rparr>"
    have "layout_declaration gti al k sd (st, inb) = Inr (sd', st1, inb1)"
      using l(1) s(1) s1 flag Some by (simp add: layout_declaration_def the_struct_def Let_def sd'_def)
    moreover have "declaration_regions (bl_order bl0) sd' = concat (map (decl_regions (bl_order bl0)) ds')"
      by (simp add: declaration_regions_def sd'_def)
    moreover have "declaration_placed al info sd sd'"
      using l(5) Some by (simp add: declaration_placed_def sd'_def)
    ultimately show ?thesis using l(2-4) by (metis (no_types))
  next
    case None
    let ?i = "info (sd_type sd) None"
    have ok': "settled (sd_type sd) None" "sized ?i" using ok None by (auto simp: declaration_ok_def)
    have "position k (st, inb) + 2 * push_growth + 8 * (al + ti_size ?i) \<le> bit_limit"
      using lim None by (simp add: declaration_weight_def)
    from layout_unnamed_building [OF b ok' al this, of "-1"] obtain off st1 where
      l: "layout_unnamed gti al k (sd_type sd) (-1) (st, inb) = Inr (off, st1, False)"
        "building k st0 bl0 (st1, False)" "position k (st, inb) \<le> 8 * off" "0 \<le> off"
        "min al (ti_align ?i) dvd off" "position k (st1, False) = 8 * (off + ti_size ?i)"
        "position k (st1, False) \<le> position k (st, inb) + declaration_weight al info sd"
      using None by (auto simp: declaration_weight_def)
    from l(2) obtain s1 where s1: "structs st1 k = Some s1" by (rule buildingE) simp
    have sz: "s_size s1 = off + ti_size ?i" using l(6) s1 by (simp add: position_def)
    have "8 * (off + ti_size ?i) \<le> 2 ^ 30" using l(6,7) lim by (simp add: bit_limit_def)
    moreover have i: "0 \<le> ti_size ?i" using ok'(2) by (simp add: sized_def)
    ultimately have "to_int (to_unsigned (s_size s1 - off)) = ti_size ?i" using l(4) by (simp add: sz)
    define sd' where "sd' = sd\<lparr>sd_declarators := None, sd_offset := off, sd_size := ti_size ?i\<rparr>"
    have "layout_declaration gti al k sd (st, inb) = Inr (sd', st1, False)"
      using \<open>to_int (to_unsigned (s_size s1 - off)) = ti_size ?i\<close> l(1,4) s(1) s1 flag None
      by (simp add: layout_declaration_def the_struct_def Let_def sd'_def)
    moreover have "in_order (position k (st, inb)) (declaration_regions (bl_order bl0) sd') (position k (st1, False))"
      using l(3,6) i by (simp add: declaration_regions_def sd'_def)
    moreover have "declaration_placed al info sd sd'"
      using l(5) None by (simp add: declaration_placed_def sd'_def)
    ultimately show ?thesis using l(2,7) by blast
  qed
qed

lemma layout_declarations_building:
  assumes "building k st0 bl0 (st, inb)" and "list_all (declaration_ok settled info bl0) sds"
    and al: "1 \<le> al" "al < 2 ^ 16"
    and "position k (st, inb) + sum_list (map (declaration_weight al info) sds) \<le> bit_limit"
  shows "\<exists>sds' st' inb'. layout_declarations gti al k sds (st, inb) = Inr (sds', st', inb')
    \<and> building k st0 bl0 (st', inb')
    \<and> in_order (position k (st, inb)) (regions (bl_order bl0) sds') (position k (st', inb'))
    \<and> position k (st', inb') \<le> position k (st, inb) + sum_list (map (declaration_weight al info) sds)
    \<and> list_all2 (declaration_placed al info) sds sds'"
  using assms
proof (induction sds arbitrary: st inb)
  case Nil
  then show ?case by (simp add: regions_def)
next
  case (Cons sd sds)
  have nonneg: "0 \<le> sum_list (map (declaration_weight al info) sds)"
    using Cons.prems(2) al by (auto intro: declaration_weights_nonneg)
  have ok: "declaration_ok settled info bl0 sd" "list_all (declaration_ok settled info bl0) sds"
    using Cons.prems(2) by auto
  have lim: "position k (st, inb) + declaration_weight al info sd \<le> bit_limit"
    using Cons.prems(5) nonneg by simp
  from layout_declaration_building [OF Cons.prems(1) ok(1) al lim] obtain sd' st1 inb1 where
    d: "layout_declaration gti al k sd (st, inb) = Inr (sd', st1, inb1)"
      "building k st0 bl0 (st1, inb1)"
      "in_order (position k (st, inb)) (declaration_regions (bl_order bl0) sd') (position k (st1, inb1))"
      "position k (st1, inb1) \<le> position k (st, inb) + declaration_weight al info sd"
      "declaration_placed al info sd sd'"
    by blast
  have "position k (st1, inb1) + sum_list (map (declaration_weight al info) sds) \<le> bit_limit"
    using d(4) Cons.prems(5) by simp
  from Cons.IH [OF d(2) ok(2) al this] obtain sds' st2 inb2 where r:
    "layout_declarations gti al k sds (st1, inb1) = Inr (sds', st2, inb2)"
    "building k st0 bl0 (st2, inb2)"
    "in_order (position k (st1, inb1)) (regions (bl_order bl0) sds') (position k (st2, inb2))"
    "position k (st2, inb2) \<le> position k (st1, inb1) + sum_list (map (declaration_weight al info) sds)"
    "list_all2 (declaration_placed al info) sds sds'"
    by blast
  have "layout_declarations gti al k (sd # sds) (st, inb) = Inr (sd' # sds', st2, inb2)"
    using d(1) r(1) by simp
  moreover have "in_order (position k (st, inb)) (regions (bl_order bl0) (sd' # sds')) (position k (st2, inb2))"
    using in_order_append [OF d(3) r(3)] by (simp add: regions_def)
  moreover have "position k (st2, inb2)
      \<le> position k (st, inb) + sum_list (map (declaration_weight al info) (sd # sds))"
    using d(4) r(4) by simp
  moreover have "list_all2 (declaration_placed al info) (sd # sds) (sd' # sds')" using d(5) r(5) by simp
  ultimately show ?case using r(2) by blast
qed

end

end
