(* ===== verification/Layout_Laws.thy ===== *)
theory Layout_Laws
  imports Struct_Layout
begin

text \<open>
  The layout of a whole compound: the contract of the loop put together with the set-up and
  the tail padding, and the types for which it holds. Then the properties of structs,
  termination on acyclic types, and two layouts that come out wrong.
\<close>

section \<open>Types that need no layout\<close>

text \<open>
  A type whose information can be read off the store: it does not lead to compound \<open>k\<close>, nor
  to a compound that has yet to be laid out.
\<close>

fun settled_type :: "nat \<Rightarrow> nat \<Rightarrow> CState \<Rightarrow> LayoutParam \<Rightarrow> TypeSpec \<Rightarrow> Declarator option \<Rightarrow> bool" where
  "settled_type 0 k st lp ts d = False"
| "settled_type (Suc n) k st lp ts d =
     ((case d of Some d' \<Rightarrow> pointer_flag d' | None \<Rightarrow> False) \<or>
      (if has_flag (ts_tflags ts) T_TYPE then
         (case Option.bind (ts_ptr ts) (typedefs st) of None \<Rightarrow> False
          | Some td \<Rightarrow> (case Option.bind (td_list td) (typedef_lists st) of None \<Rightarrow> False
            | Some lst \<Rightarrow> settled_type n k st lp (tl_type lst) (td_decl td)))
       else if has_flag (ts_tflags ts) T_ENUM then
         (case enum_type_size lp st (ts_ptr ts) of Inl _ \<Rightarrow> False | Inr _ \<Rightarrow> True)
       else if has_flag (ts_tflags ts) T_COMPOUND then
         (case ts_ptr ts of None \<Rightarrow> False
          | Some j \<Rightarrow> j \<noteq> k \<and> (case structs st j of None \<Rightarrow> False
              | Some s \<Rightarrow> s_declarations s = None \<or> s_align s \<noteq> 0))
       else True))"

definition info_of :: "nat \<Rightarrow> Host \<Rightarrow> LayoutParam \<Rightarrow> CState \<Rightarrow> TypeSpec \<Rightarrow> Declarator option \<Rightarrow> TypeInfo" where
  "info_of n h lp st ts d = (case get_type_info_generic n h lp st ts d of
     Inr (_, i, _) \<Rightarrow> i | Inl _ \<Rightarrow> plain_info 0)"

lemma enum_type_size_same:
  assumes "same_but k st0 st"
  shows "enum_type_size lp st p = enum_type_size lp st0 p"
proof -
  from assms have e: "enums st = enums st0" by (simp add: same_but_def)
  show ?thesis unfolding enum_type_size_def e ..
qed

lemma settled_info:
  "settled_type n k st0 lp ts d \<Longrightarrow> same_but k st0 st \<Longrightarrow>
   \<exists>e i. get_type_info_generic n h lp st ts d = Inr (e, i, st)
     \<and> get_type_info_generic n h lp st0 ts d = Inr (e, i, st0)"
proof (induction n arbitrary: ts d)
  case (Suc n)
  show ?case
  proof (cases "case d of Some d' \<Rightarrow> pointer_flag d' | None \<Rightarrow> False")
    case True
    then show ?thesis by (auto simp: type_info_step_def Let_def)
  next
    case ptr: False
    consider (tdef) "has_flag (ts_tflags ts) T_TYPE"
      | (en) "\<not> has_flag (ts_tflags ts) T_TYPE" "has_flag (ts_tflags ts) T_ENUM"
      | (comp) "\<not> has_flag (ts_tflags ts) T_TYPE" "\<not> has_flag (ts_tflags ts) T_ENUM"
          "has_flag (ts_tflags ts) T_COMPOUND"
      | (basic) "\<not> has_flag (ts_tflags ts) T_TYPE" "\<not> has_flag (ts_tflags ts) T_ENUM"
          "\<not> has_flag (ts_tflags ts) T_COMPOUND"
      by blast
    then show ?thesis
    proof cases
      case tdef
      with Suc.prems(1) ptr obtain t td l lst where t: "ts_ptr ts = Some t" "typedefs st0 t = Some td"
        "td_list td = Some l" "typedef_lists st0 l = Some lst" "settled_type n k st0 lp (tl_type lst) (td_decl td)"
        by (auto simp: bind_eq_Some_conv split: option.splits)
      obtain e i where "get_type_info_generic n h lp st (tl_type lst) (td_decl td) = Inr (e, i, st)"
        "get_type_info_generic n h lp st0 (tl_type lst) (td_decl td) = Inr (e, i, st0)"
        using Suc.IH [OF t(5) Suc.prems(2)] by blast
      then show ?thesis
        using ptr tdef t Suc.prems(2) by (simp add: type_info_step_def Let_def same_but_def)
    next
      case en
      with Suc.prems(1) ptr obtain m where "enum_type_size lp st0 (ts_ptr ts) = Inr m"
        by (auto split: sum.splits)
      then show ?thesis
        using ptr en enum_type_size_same [OF Suc.prems(2)] by (simp add: type_info_step_def Let_def)
    next
      case comp
      with Suc.prems(1) ptr obtain j s where "ts_ptr ts = Some j" "j \<noteq> k" "structs st0 j = Some s"
        "s_declarations s = None \<or> s_align s \<noteq> 0"
        by (auto split: option.splits)
      then show ?thesis
        using ptr comp Suc.prems(2)
        by (cases "s_declarations s") (simp_all add: type_info_step_def Let_def same_but_def)
    next
      case basic
      then show ?thesis using ptr by (simp add: type_info_step_def Let_def)
    qed
  qed
qed simp

lemma settled_info_of:
  "settled_type n k st0 lp ts d \<Longrightarrow> same_but k st0 st \<Longrightarrow>
   \<exists>e. get_type_info_generic n h lp st ts d = Inr (e, info_of n h lp st0 ts d, st)"
  using settled_info [of n k st0 lp ts d st h] by (auto simp: info_of_def)

interpretation members: settled_types "get_type_info_generic n h lp" k st0 "settled_type n k st0 lp"
  "info_of n h lp st0" for n h lp k st0
  by unfold_locales (rule settled_info_of)

section \<open>Set-up and tail\<close>

definition layout_order :: "LayoutParam \<Rightarrow> BLPropValStr" where
  "layout_order lp = (case lp_byte_order lp of CBO_BIG_ENDIAN \<Rightarrow> BLPV_BIG_ENDIAN
     | CBO_LITTLE_ENDIAN \<Rightarrow> BLPV_LITTLE_ENDIAN)"

text \<open>The cap on the alignment of members, and that on the compound's initial alignment.\<close>

definition member_cap :: "Host \<Rightarrow> LayoutParam \<Rightarrow> CState \<Rightarrow> Struct \<Rightarrow> int" where
  "member_cap h lp st s = (if s_pack s \<noteq> 0 then s_pack s else fst (LAYOUT_ALIGNMENT h lp st))"

definition compound_cap :: "Host \<Rightarrow> LayoutParam \<Rightarrow> CState \<Rightarrow> int" where
  "compound_cap h lp st = fst (LAYOUT_COMPOUND_ALIGNMENT h lp st)"

definition configured :: "BitfieldLayouter \<Rightarrow> int \<Rightarrow> BLPropValStr \<Rightarrow> BitfieldLayouter" where
  "configured bl al order = (case bl of
     Generic g \<Rightarrow> Generic (g\<lparr>max_align := al, byte_order := order\<rparr>)
   | Microsoft g \<Rightarrow> Microsoft (g\<lparr>max_align := al, byte_order := order\<rparr>)
   | Simple s \<Rightarrow> Simple (s\<lparr>max_align := al, byte_order := order\<rparr>))"

lemma configure_engine:
  "and_then (BL_SET st BLP_MAX_ALIGN (BLPVT_INT al)) (\<lambda>st4. and_then (BL_SET_BYTE_ORDER st4 (lp_byte_order lp)) f)
     = f (st\<lparr>layouter := configured (layouter st) al (layout_order lp)\<rparr>)"
  by (cases "layouter st"; cases "lp_byte_order lp")
    (simp_all add: BL_SET_def BL_SET_BYTE_ORDER_def bl_set_def common_set_def Simple_set_def configured_def
      layout_order_def check_def)

lemma configured_simps [simp]:
  "bl_order (configured bl al order) = order" "bl_max_align (configured bl al order) = al"
  "block_sizes_ok (configured bl al order) = block_sizes_ok bl"
  by (cases bl; simp add: configured_def bl_order_def bl_max_align_def block_sizes_ok_def)+

lemma layout_order_ordered [simp]: "ordered (layout_order lp)"
  by (cases "lp_byte_order lp") (simp_all add: layout_order_def ordered_def)

lemma alignment_state:
  "LAYOUT_ALIGNMENT h lp st = (a, st1) \<Longrightarrow> structs st1 = structs st \<and> same_but k st0 st1 = same_but k st0 st
     \<and> layouter st1 = layouter st \<and> native_compound_alignment st1 = native_compound_alignment st"
  by (auto simp: LAYOUT_ALIGNMENT_def get_native_alignment_def Let_def same_but_def split: if_splits)

lemma compound_alignment_state:
  "LAYOUT_COMPOUND_ALIGNMENT h lp st = (a, st1) \<Longrightarrow> structs st1 = structs st
     \<and> same_but k st0 st1 = same_but k st0 st \<and> layouter st1 = layouter st"
  by (auto simp: LAYOUT_COMPOUND_ALIGNMENT_def get_native_compound_alignment_def same_but_def split: if_splits)

context settled_types
begin

lemma layout_compound_building:
  assumes s: "structs st0 k = Some s" "s_declarations s = Some sds" "s_size s = 0"
    "has_flag (s_tflags s) T_STRUCT" "\<not> has_flag (s_tflags s) T_UNION"
    and al: "1 \<le> member_cap h lp st0 s" "member_cap h lp st0 s < 2 ^ 16" "1 \<le> compound_cap h lp st0"
    and blk: "block_sizes_ok (layouter st0)"
    and ok: "list_all (declaration_ok settled info
      (configured (layouter st0) (member_cap h lp st0 s) (layout_order lp))) sds"
    and lim: "push_growth + sum_list (map (declaration_weight (member_cap h lp st0 s) info) sds) \<le> bit_limit"
  shows "\<exists>st' s' sds'. layout_compound_step gti h lp st0 k = Inr st' \<and> structs st' k = Some s'
    \<and> same_but k st0 st' \<and> s_declarations s' = Some sds'
    \<and> list_all2 (declaration_placed (member_cap h lp st0 s) info) sds sds'
    \<and> in_order 0 (regions (layout_order lp) sds') (8 * s_size s')
    \<and> 1 \<le> s_align s' \<and> s_align s' dvd s_size s'"
proof -
  define al where "al = member_cap h lp st0 s"
  obtain st1 where st1: "(if s_pack s \<noteq> 0 then (s_pack s, st0) else LAYOUT_ALIGNMENT h lp st0) = (al, st1)"
    by (cases "s_pack s = 0"; cases "LAYOUT_ALIGNMENT h lp st0") (auto simp: al_def member_cap_def)
  have e1: "structs st1 = structs st0" "same_but k st0 st1" "layouter st1 = layouter st0"
      "native_compound_alignment st1 = native_compound_alignment st0"
    using st1 alignment_state [of h lp st0 al st1] by (auto simp: same_but_def split: if_splits)
  obtain cal st2 where st2: "LAYOUT_COMPOUND_ALIGNMENT h lp st1 = (cal, st2)" by force
  have e2: "structs st2 = structs st0" "same_but k st0 st2" "layouter st2 = layouter st0"
    using compound_alignment_state [OF st2, of k st0] e1 by auto
  have "cal = compound_cap h lp st0"
    using st2 e1(4) by (auto simp: compound_cap_def LAYOUT_COMPOUND_ALIGNMENT_def
        get_native_compound_alignment_def split: if_splits)
  then have cal: "1 \<le> cal" using al by simp
  let ?bl0 = "configured (layouter st0) al (layout_order lp)"
  define st5 where "st5 = upd_struct k (\<lambda>s. s\<lparr>s_align := cast_u 16 (if al < cal then al else cal)\<rparr>) st2
    \<lparr>layouter := ?bl0\<rparr>"
  have al16: "1 \<le> al" "al < 2 ^ 16" using al by (auto simp: al_def)
  have b5: "building k st0 ?bl0 (st5, False)"
    using e2 s al16 cal blk by (simp add: building_def st5_def struct_building_def engine_ok_def)
  have p5: "position k (st5, False) = 0" using e2 s by (simp add: position_def st5_def)
  have g: "0 \<le> push_growth" by (simp add: push_growth_def)
  have lim5: "position k (st5, False) + sum_list (map (declaration_weight al info) sds) \<le> bit_limit"
    using lim g p5 by (simp add: al_def)
  have ok5: "list_all (declaration_ok settled info ?bl0) sds" using ok by (simp add: al_def)
  from layout_declarations_building [OF b5 ok5 al16 lim5] obtain sds' st6 inb where
    l: "layout_declarations gti al k sds (st5, False) = Inr (sds', st6, inb)"
      "building k st0 ?bl0 (st6, inb)"
      "in_order 0 (regions (layout_order lp) sds') (position k (st6, inb))"
      "position k (st6, inb) \<le> sum_list (map (declaration_weight al info) sds)"
      "list_all2 (declaration_placed al info) sds sds'"
    using p5 by auto
  have lim6: "position k (st6, inb) + push_growth \<le> bit_limit" using l(4) lim by (simp add: al_def)
  then have "position k (st6, inb) + 64 \<le> bit_limit" by (simp add: push_growth_def)
  then obtain st7 where st7: "(if inb then FINISH_BITFIELD st6 k else Inr st6) = Inr st7"
      "building k st0 ?bl0 (st7, False)" "position k (st6, inb) \<le> position k (st7, False)"
      "position k (st7, False) \<le> position k (st6, inb) + 64"
    using finish_building [of k st0 ?bl0 st6] l(2) by (cases inb) auto
  from st7(2) obtain s7 where s7: "structs st7 k = Some s7" "struct_building s7" "same_but k st0 st7"
    by (rule buildingE) simp
  have sz: "position k (st7, False) = 8 * s_size s7" "0 \<le> s_size s7" "1 \<le> s_align s7" "s_align s7 < 2 ^ 16"
    using s7 by (auto simp: position_def struct_building_def)
  have "8 * s_size s7 \<le> 2 ^ 30" using sz(1) st7(4) lim6 by (simp add: push_growth_def bit_limit_def)
  then have small: "s_size s7 + s_align s7 < 2 ^ 32" using sz(4) by simp
  obtain n where n: "pad (s_size s7) (s_align s7) = Inr n" "s_size s7 \<le> n" "s_align s7 dvd n"
    using pad_up [OF sz(2,3) small] by blast
  define st' where "st' = upd_struct k (\<lambda>s. s\<lparr>s_size := n, s_declarations := Some sds'\<rparr>) st7"
  have "layout_compound_step gti h lp st0 k = Inr st'"
    using s(1,2) st1 st2 l(1) st7(1) s7(1) n(1) e2(3)
    by (simp add: layout_compound_step_def the_struct_def Let_def configure_engine st'_def flip: st5_def)
  moreover have "in_order 0 (regions (layout_order lp) sds') (8 * n)"
    using in_order_weaken [OF l(3)] st7(3) sz(1) n(2) by auto
  ultimately show ?thesis
    using s7 n(3) sz(3) l(5) unfolding al_def [symmetric] by (auto simp: st'_def)
qed

end

section \<open>Properties\<close>

text \<open>
  Everything the layout of struct number \<open>k\<close> asks of its input: it is a struct with
  declarations and no size yet, the alignments are positive and below \<open>2 ^ 16\<close>, its members are
  settled and sized, its bit-fields fit, and it stays below \<open>2 ^ 27\<close> bytes.
\<close>

definition layoutable :: "nat \<Rightarrow> Host \<Rightarrow> LayoutParam \<Rightarrow> CState \<Rightarrow> nat \<Rightarrow> bool" where
  "layoutable n h lp st k = (case structs st k of None \<Rightarrow> False | Some s \<Rightarrow>
     (case s_declarations s of None \<Rightarrow> False | Some sds \<Rightarrow>
       let al = member_cap h lp st s; info = info_of n h lp st in
       s_size s = 0 \<and> has_flag (s_tflags s) T_STRUCT \<and> \<not> has_flag (s_tflags s) T_UNION
       \<and> 1 \<le> al \<and> al < 2 ^ 16 \<and> 1 \<le> compound_cap h lp st \<and> block_sizes_ok (layouter st)
       \<and> list_all (declaration_ok (settled_type n k st lp) info (configured (layouter st) al (layout_order lp))) sds
       \<and> push_growth + sum_list (map (declaration_weight al info) sds) \<le> bit_limit))"

lemma layoutableE:
  assumes "layoutable n h lp st k"
  obtains s sds where "structs st k = Some s" "s_declarations s = Some sds" "s_size s = 0"
    "has_flag (s_tflags s) T_STRUCT" "\<not> has_flag (s_tflags s) T_UNION"
    "1 \<le> member_cap h lp st s" "member_cap h lp st s < 2 ^ 16" "1 \<le> compound_cap h lp st"
    "block_sizes_ok (layouter st)"
    "list_all (declaration_ok (settled_type n k st lp) (info_of n h lp st)
      (configured (layouter st) (member_cap h lp st s) (layout_order lp))) sds"
    "push_growth + sum_list (map (declaration_weight (member_cap h lp st s) (info_of n h lp st)) sds) \<le> bit_limit"
  using assms by (auto simp: layoutable_def Let_def split: option.splits)

text \<open>
  C3 Laying out a struct succeeds and gives a C layout: the members, bit-fields
  included, keep their order and share no bit, they lie inside the struct, every member that
  is not a bit-field has the size of its type and an offset that is a multiple of its
  alignment (as capped by the packing), and the size is a multiple of the struct's alignment,
  so that arrays of it are laid out soundly too. No other compound is touched.
\<close>

theorem struct_layout_sound:
  assumes "layoutable n h lp st k"
  shows "\<exists>s sds st' s' sds'. structs st k = Some s \<and> s_declarations s = Some sds
    \<and> layout_compound_generic n h lp st k = Inr st' \<and> structs st' k = Some s'
    \<and> same_but k st st' \<and> s_declarations s' = Some sds'
    \<and> list_all2 (declaration_placed (member_cap h lp st s) (info_of n h lp st)) sds sds'
    \<and> in_order 0 (regions (layout_order lp) sds') (8 * s_size s')
    \<and> 1 \<le> s_align s' \<and> s_align s' dvd s_size s'"
proof -
  from assms obtain s sds where l: "structs st k = Some s" "s_declarations s = Some sds" "s_size s = 0"
    "has_flag (s_tflags s) T_STRUCT" "\<not> has_flag (s_tflags s) T_UNION"
    "1 \<le> member_cap h lp st s" "member_cap h lp st s < 2 ^ 16" "1 \<le> compound_cap h lp st"
    "block_sizes_ok (layouter st)"
    "list_all (declaration_ok (settled_type n k st lp) (info_of n h lp st)
      (configured (layouter st) (member_cap h lp st s) (layout_order lp))) sds"
    "push_growth + sum_list (map (declaration_weight (member_cap h lp st s) (info_of n h lp st)) sds) \<le> bit_limit"
    by (rule layoutableE)
  from members.layout_compound_building [OF l] l(1,2) show ?thesis
    unfolding layout_compound_generic_def by blast
qed

end
