(* ===== verification/Layout_Fuel.thy ===== *)
theory Layout_Fuel
  imports Layout_Laws
begin

text \<open>
  The recursion of \<open>get_type_info_generic\<close> and \<open>layout_compound_generic\<close> ends on every type
  graph without a cycle that avoids pointers: fuel above the rank of a type is enough, and
  the loop of the generic engine ends for bit-fields no wider than their types.
\<close>

section \<open>Runs that end\<close>

text \<open>A run that ends: neither its fuel nor an endless loop of the code stops it.\<close>

definition runs :: "'a run \<Rightarrow> ('a \<Rightarrow> bool) \<Rightarrow> bool" where
  "runs r P \<longleftrightarrow> r \<noteq> Inl Out_of_fuel \<and> r \<noteq> Inl Diverges \<and> (\<forall>x. r = Inr x \<longrightarrow> P x)"

lemma runs_simps [simp]:
  "runs (Inr x) P = P x" "runs (Inl e) P = (e \<noteq> Out_of_fuel \<and> e \<noteq> Diverges)"
  by (auto simp: runs_def)

lemma runs_bind: "runs r P \<Longrightarrow> (\<And>x. P x \<Longrightarrow> runs (f x) Q) \<Longrightarrow> runs (and_then r f) Q"
  by (cases r) auto

lemma runs_mono: "runs r P \<Longrightarrow> (\<And>x. P x \<Longrightarrow> Q x) \<Longrightarrow> runs r Q"
  by (cases r) auto

lemma runs_check: "e \<noteq> Out_of_fuel \<Longrightarrow> e \<noteq> Diverges \<Longrightarrow> runs (check e b) (\<lambda>_. b)"
  by (simp add: check_def)

lemma runs_c_mod: "runs (c_mod a b) (\<lambda>_. b \<noteq> 0)"
  by (simp add: c_mod_def)

section \<open>Ranks\<close>

text \<open>Ranks decrease from a typedef to its type and from a compound to the types of its members, pointers apart.\<close>

definition type_rank :: "(nat \<Rightarrow> nat) \<Rightarrow> (nat \<Rightarrow> nat) \<Rightarrow> TypeSpec \<Rightarrow> Declarator option \<Rightarrow> nat" where
  "type_rank rs rt ts d =
     (if (case d of Some d' \<Rightarrow> pointer_flag d' | None \<Rightarrow> False) then 0
      else if has_flag (ts_tflags ts) T_TYPE then (case ts_ptr ts of None \<Rightarrow> 0 | Some t \<Rightarrow> Suc (rt t))
      else if has_flag (ts_tflags ts) T_ENUM then 0
      else if has_flag (ts_tflags ts) T_COMPOUND then (case ts_ptr ts of None \<Rightarrow> 0 | Some k \<Rightarrow> Suc (rs k))
      else 0)"

definition declaration_rank :: "(nat \<Rightarrow> nat) \<Rightarrow> (nat \<Rightarrow> nat) \<Rightarrow> nat \<Rightarrow> StructDeclaration \<Rightarrow> bool" where
  "declaration_rank rs rt m sd \<longleftrightarrow> (case sd_declarators sd of
     Some ds \<Rightarrow> list_all (\<lambda>d. type_rank rs rt (sd_type sd) (Some d) \<le> m) ds
   | None \<Rightarrow> type_rank rs rt (sd_type sd) None \<le> m)"

definition ranked :: "(nat \<Rightarrow> nat) \<Rightarrow> (nat \<Rightarrow> nat) \<Rightarrow> CState \<Rightarrow> bool" where
  "ranked rs rt st \<longleftrightarrow>
     (\<forall>t td l lst. typedefs st t = Some td \<and> td_list td = Some l \<and> typedef_lists st l = Some lst
        \<longrightarrow> type_rank rs rt (tl_type lst) (td_decl td) \<le> rt t)
     \<and> (\<forall>k s sds. structs st k = Some s \<and> s_declarations s = Some sds
        \<longrightarrow> list_all (declaration_rank rs rt (rs k)) sds)"

section \<open>Ranks with the widths of bit-fields\<close>

text \<open>
  What is known of the types: a rank for every compound and typedef, and the size of the
  typedefs and enums that bit-fields are declared with, zero for all others. The widths of
  the fields are only bounded where \<open>narrow_fields\<close> says so.
\<close>

record Shape =
  struct_rank :: "nat \<Rightarrow> nat"
  typedef_rank :: "nat \<Rightarrow> nat"
  typedef_unit :: "nat \<Rightarrow> int"
  enum_unit :: "nat \<Rightarrow> int"
  narrow_fields :: bool

definition to_pointer :: "Declarator option \<Rightarrow> bool" where
  "to_pointer d = (case d of Some d' \<Rightarrow> pointer_flag d' | None \<Rightarrow> False)"

definition rank_of :: "Shape \<Rightarrow> TypeSpec \<Rightarrow> Declarator option \<Rightarrow> nat" where
  "rank_of sh = type_rank (struct_rank sh) (typedef_rank sh)"

lemma rank_of_eq:
  "rank_of sh ts d =
     (if to_pointer d then 0
      else if has_flag (ts_tflags ts) T_TYPE then (case ts_ptr ts of None \<Rightarrow> 0 | Some t \<Rightarrow> Suc (typedef_rank sh t))
      else if has_flag (ts_tflags ts) T_ENUM then 0
      else if has_flag (ts_tflags ts) T_COMPOUND then (case ts_ptr ts of None \<Rightarrow> 0 | Some k \<Rightarrow> Suc (struct_rank sh k))
      else 0)"
  by (simp add: rank_of_def type_rank_def to_pointer_def)

text \<open>The size of a type other than a compound.\<close>

definition type_unit :: "Host \<Rightarrow> LayoutParam \<Rightarrow> Shape \<Rightarrow> TypeSpec \<Rightarrow> Declarator option \<Rightarrow> int" where
  "type_unit h lp sh ts d =
     (if to_pointer d then or_native (ptr_size lp) (sizeof_ptr h)
      else if has_flag (ts_tflags ts) T_TYPE then (case ts_ptr ts of None \<Rightarrow> 0 | Some t \<Rightarrow> typedef_unit sh t)
      else if has_flag (ts_tflags ts) T_ENUM then
        (if 0 < enum_size lp then enum_size lp else case ts_ptr ts of None \<Rightarrow> 0 | Some k \<Rightarrow> enum_unit sh k)
      else if has_flag (ts_tflags ts) T_COMPOUND then 0
      else basic_size h lp (ts_tflags ts))"

definition no_wider :: "Host \<Rightarrow> LayoutParam \<Rightarrow> Shape \<Rightarrow> TypeSpec \<Rightarrow> Declarator \<Rightarrow> bool" where
  "no_wider h lp sh ts d \<longleftrightarrow> 1 \<le> type_unit h lp sh ts (Some d) \<and> type_unit h lp sh ts (Some d) < 2 ^ 31
     \<and> bf_bits (ext_bitfield d) \<le> BITS (type_unit h lp sh ts (Some d))"

definition declarator_ranked :: "Host \<Rightarrow> LayoutParam \<Rightarrow> Shape \<Rightarrow> nat \<Rightarrow> TypeSpec \<Rightarrow> Declarator \<Rightarrow> bool" where
  "declarator_ranked h lp sh m ts d \<longleftrightarrow> rank_of sh ts (Some d) \<le> m
     \<and> (bitfield_flag d \<and> narrow_fields sh \<longrightarrow> no_wider h lp sh ts d)"

definition declaration_ranked :: "Host \<Rightarrow> LayoutParam \<Rightarrow> Shape \<Rightarrow> nat \<Rightarrow> StructDeclaration \<Rightarrow> bool" where
  "declaration_ranked h lp sh m sd \<longleftrightarrow> (case sd_declarators sd of
     Some ds \<Rightarrow> list_all (declarator_ranked h lp sh m (sd_type sd)) ds
   | None \<Rightarrow> rank_of sh (sd_type sd) None \<le> m)"

text \<open>The typedefs and enums have the rank and the size the shape gives them.\<close>

definition typedef_ranked :: "Host \<Rightarrow> LayoutParam \<Rightarrow> Shape \<Rightarrow> nat \<Rightarrow> TypeSpec \<Rightarrow> Declarator option \<Rightarrow> bool" where
  "typedef_ranked h lp sh t ts d \<longleftrightarrow> rank_of sh ts d \<le> typedef_rank sh t
     \<and> (0 < typedef_unit sh t \<longrightarrow> (\<forall>d'. d = Some d' \<longrightarrow> \<not> array_flag d') \<and> type_unit h lp sh ts d = typedef_unit sh t)"

definition enum_sized :: "LayoutParam \<Rightarrow> Shape \<Rightarrow> CState \<Rightarrow> nat \<Rightarrow> bool" where
  "enum_sized lp sh st k \<longleftrightarrow> enum_size lp > 0 \<or> (case enum_type_size lp st (Some k) of
     Inr n \<Rightarrow> enum_unit sh k = 0 \<or> enum_unit sh k = n | Inl _ \<Rightarrow> True)"

text \<open>
  The state of the layouter: with the generic engine the widths are bounded, and a current
  type has an alignment.
\<close>

definition steady :: "Shape \<Rightarrow> BitfieldLayouter \<Rightarrow> bool" where
  "steady sh bl \<longleftrightarrow> (case bl of
     Generic g \<Rightarrow> narrow_fields sh \<and> 0 \<le> max_align g \<and> (cur_type_size g \<noteq> 0 \<longrightarrow> 0 < cur_type_align g)
   | _ \<Rightarrow> True)"

definition bounded :: "Host \<Rightarrow> LayoutParam \<Rightarrow> Shape \<Rightarrow> CState \<Rightarrow> bool" where
  "bounded h lp sh st \<longleftrightarrow>
     (\<forall>t td l lst. typedefs st t = Some td \<and> td_list td = Some l \<and> typedef_lists st l = Some lst
        \<longrightarrow> typedef_ranked h lp sh t (tl_type lst) (td_decl td))
     \<and> (\<forall>k. enum_sized lp sh st k)
     \<and> (\<forall>k s. structs st k = Some s \<longrightarrow> 0 \<le> s_pack s
        \<and> (\<forall>sds. s_declarations s = Some sds \<longrightarrow> list_all (declaration_ranked h lp sh (struct_rank sh k)) sds))
     \<and> 0 \<le> alignment lp \<and> 0 \<le> native_alignment st \<and> steady sh (layouter st)"

lemma enum_sized_same: "enums st' = enums st \<Longrightarrow> enum_sized lp sh st' k = enum_sized lp sh st k"
  by (simp add: enum_sized_def enum_type_size_def)

lemma bounded_upd_struct:
  assumes "bounded h lp sh st"
    and "\<And>s. s_pack (f s) = s_pack s" and "\<And>s. s_declarations (f s) = s_declarations s"
  shows "bounded h lp sh (upd_struct k f st)"
proof -
  have "enum_sized lp sh (upd_struct k f st) j = enum_sized lp sh st j" for j
    by (rule enum_sized_same) (simp add: upd_struct_def)
  with assms show ?thesis by (auto simp: bounded_def upd_struct_def split: if_splits)
qed

lemma bounded_same:
  assumes "bounded h lp sh st" and "structs st' = structs st" "enums st' = enums st" "typedefs st' = typedefs st"
    "typedef_lists st' = typedef_lists st" and "0 \<le> native_alignment st'" and "steady sh (layouter st')"
  shows "bounded h lp sh st'"
  using assms(1,6,7) unfolding bounded_def assms(2,4,5) enum_sized_same [OF assms(3)] by blast

lemma bounded_steady: "bounded h lp sh st \<Longrightarrow> steady sh (layouter st)"
  by (simp add: bounded_def)

lemma bounded_alignment: "bounded h lp sh st \<Longrightarrow> 0 \<le> native_alignment st"
  by (simp add: bounded_def)

lemma bounded_layouter: "bounded h lp sh st \<Longrightarrow> steady sh bl \<Longrightarrow> bounded h lp sh (st\<lparr>layouter := bl\<rparr>)"
  by (rule bounded_same, assumption) (simp_all add: bounded_alignment)

lemma bounded_natives:
  "bounded h lp sh st \<Longrightarrow> 0 \<le> a \<Longrightarrow> bounded h lp sh (st\<lparr>native_alignment := a\<rparr>)"
  "bounded h lp sh st \<Longrightarrow> bounded h lp sh (st\<lparr>native_compound_alignment := a\<rparr>)"
  by (rule bounded_same, assumption, simp_all add: bounded_steady bounded_alignment)+

section \<open>The engines\<close>

text \<open>The loop of the generic engine ends: a field that fits its unit finds a place in it.\<close>

lemma move_offset_ends:
  assumes "bits \<le> BITS ts" and "0 < ta"
  shows "\<exists>r. move_offset bits ts ta off bo = Some r"
proof (cases "0 \<le> bo")
  case True
  from move_offset_fits [OF assms this, of off] show ?thesis by blast
next
  case False
  then show ?thesis using assms(1) by (simp add: move_offset.simps [of bits ts ta off bo])
qed

lemma bl_set_runs:
  assumes "steady sh bl" and "\<And>n. p = BLP_MAX_ALIGN \<Longrightarrow> v = BLPVT_INT n \<Longrightarrow> 0 \<le> n"
  shows "runs (bl_set bl p v) (\<lambda>(_, bl'). steady sh bl')"
  using assms
  by (cases bl; cases p; cases v) (simp_all add: bl_set_def common_set_def Simple_set_def steady_def)

lemma bl_reset_runs: "steady sh bl \<Longrightarrow> runs (bl_reset bl) (steady sh)"
  by (cases bl) (simp_all add: bl_reset_def Simple_reset_def Generic_reset_def c_mod_def steady_def)

lemma bl_finalize_steady: "steady sh bl \<Longrightarrow> steady sh (snd (bl_finalize bl))"
  by (cases bl) (simp_all add: bl_finalize_def Generic_finalize_def steady_def)

lemma field_pos_runs: "runs (field_pos b u n m) (\<lambda>_. True)"
  by (cases b) (simp_all add: field_pos_def)

lemmas engine_binds =
  runs_bind [OF runs_c_mod] runs_bind [OF field_pos_runs] runs_bind [OF runs_check]

text \<open>What a push leaves of the declarator.\<close>

definition same_width :: "Declarator \<Rightarrow> Declarator \<Rightarrow> bool" where
  "same_width d d' \<longleftrightarrow> pointer_flag d' = pointer_flag d \<and> bitfield_flag d' = bitfield_flag d
     \<and> bf_bits (ext_bitfield d') = bf_bits (ext_bitfield d)"

lemma same_width_simps [simp]:
  "same_width d d" "same_width d (place_field d off sz p)"
  "same_width d (d\<lparr>d_size := x, d_item_size := y, d_offset := z\<rparr>)"
  by (simp_all add: same_width_def place_field_def)

lemma declarator_ranked_same: "same_width d d' \<Longrightarrow> declarator_ranked h lp sh m ts d' = declarator_ranked h lp sh m ts d"
  by (simp add: declarator_ranked_def no_wider_def same_width_def rank_of_eq type_unit_def to_pointer_def)

definition push_ok :: "BitfieldLayouter \<Rightarrow> BLPushParam \<Rightarrow> bool" where
  "push_ok bl p \<longleftrightarrow> (case bl of
     Generic g \<Rightarrow> 1 \<le> pp_type_size p \<and> pp_type_size p < 2 ^ 31 \<and> pp_type_align p = pp_type_size p
       \<and> bf_bits (ext_bitfield (pp_decl p)) \<le> BITS (pp_type_size p)
   | _ \<Rightarrow> True)"

lemma Generic_type_change_runs:
  assumes "steady sh (Generic g)" and "1 \<le> ts" and "ts < 2 ^ 31"
  shows "runs (Generic_type_change g ts ts) (\<lambda>g'. steady sh (Generic g') \<and> cur_type_size g' = ts \<and> 0 < cur_type_align g')"
  using assms
  by (auto simp: Generic_type_change_def Let_def steady_def intro!: engine_binds)

lemma Generic_push_runs:
  assumes "steady sh (Generic g)" and "push_ok (Generic g) p"
  shows "runs (Generic_push g p) (\<lambda>(_, g', d). steady sh (Generic g') \<and> same_width (pp_decl p) d)"
proof -
  define ts where "ts = pp_type_size p"
  define bits where "bits = bf_bits (ext_bitfield (pp_decl p))"
  have p: "1 \<le> ts" "ts < 2 ^ 31" "pp_type_align p = ts" "bits \<le> BITS ts"
    using assms(2) by (simp_all add: push_ok_def ts_def bits_def)
  show ?thesis
    unfolding Generic_push_def Let_def bits_def [symmetric] ts_def [symmetric] p(3)
  proof (rule runs_bind [OF runs_check], simp, simp,
      rule runs_bind [OF Generic_type_change_runs [OF assms(1) p(1,2)]])
    fix g1
    assume g1: "steady sh (Generic g1) \<and> cur_type_size g1 = ts \<and> 0 < cur_type_align g1"
    then obtain off bo where "move_offset bits (cur_type_size g1) (cur_type_align g1) (offset g1) (bit_offset g1)
        = Some (off, bo)"
      using move_offset_ends [of bits ts "cur_type_align g1" "offset g1" "bit_offset g1"] p(4) by auto
    note mv = this
    show "runs (case move_offset bits (cur_type_size g1) (cur_type_align g1) (offset g1) (bit_offset g1) of
        None \<Rightarrow> Inl Diverges
      | Some (off, bo) \<Rightarrow>
          if bits = 0 then
            if 0 < bo then
              and_then (c_mod off (cur_type_size (g1\<lparr>offset := off, bit_offset := bo\<rparr>))) (\<lambda>m.
              Inr (BLE_NO_ERROR, g1\<lparr>offset := off, bit_offset := bo,
                offset := off + (cur_type_size (g1\<lparr>offset := off, bit_offset := bo\<rparr>) - m), bit_offset := 0\<rparr>, pp_decl p))
            else Inr (BLE_NO_ERROR, g1\<lparr>offset := off, bit_offset := bo\<rparr>, pp_decl p)
          else
            case bytes_used (bo + bits) of
              None \<Rightarrow> Inl Undefined_behaviour
            | Some used \<Rightarrow>
                and_then (check Assertion_failed (used \<le> cur_type_size (g1\<lparr>offset := off, bit_offset := bo\<rparr>))) (\<lambda>_.
                and_then (field_pos (byte_order (g1\<lparr>offset := off, bit_offset := bo\<rparr>)) (BITS used) bo bits) (\<lambda>p'.
                and_then (check Assertion_failed (to_uchar p' < 64)) (\<lambda>_.
                Inr (BLE_NO_ERROR, g1\<lparr>offset := off, bit_offset := bo, bit_offset := bo + bits\<rparr>,
                  place_field (pp_decl p) off used p')))))
      (\<lambda>(_, g', d). steady sh (Generic g') \<and> same_width (pp_decl p) d)"
      unfolding mv using g1 by (auto simp: steady_def intro!: engine_binds split: option.split)
  qed
qed

lemma Microsoft_type_change_runs: "runs (Microsoft_type_change g ts ta) (\<lambda>_. True)"
  by (cases "cur_type_size g = to_int ts")
    (simp_all add: Microsoft_type_change_def Let_def runs_bind [OF runs_c_mod] split del: if_split)

lemma Microsoft_push_runs: "runs (Microsoft_push g p) (\<lambda>(_, _, d). same_width (pp_decl p) d)"
  unfolding Microsoft_push_def Let_def
  by (auto intro!: engine_binds runs_bind [OF Microsoft_type_change_runs])

lemma Simple_push_runs: "runs (Simple_push s p) (\<lambda>(_, _, d). same_width (pp_decl p) d)"
  unfolding Simple_push_def Let_def by (auto intro!: engine_binds)

lemma bl_push_runs:
  assumes "steady sh bl" and "push_ok bl p"
  shows "runs (bl_push bl p) (\<lambda>(_, bl', d). steady sh bl' \<and> same_width (pp_decl p) d)"
proof (cases bl)
  case (Generic g)
  from assms [unfolded Generic] show ?thesis
    unfolding Generic bl_push_def BitfieldLayouter.case by (intro runs_bind [OF Generic_push_runs]) auto
next
  case (Microsoft g)
  then show ?thesis
    by (auto simp: bl_push_def steady_def intro!: runs_bind [OF Microsoft_push_runs])
next
  case (Simple s)
  then show ?thesis
    by (auto simp: bl_push_def steady_def intro!: runs_bind [OF Simple_push_runs])
qed

section \<open>The steps\<close>

lemma BL_SET_runs:
  assumes "bounded h lp sh st" and "\<And>n. p = BLP_MAX_ALIGN \<Longrightarrow> v = BLPVT_INT n \<Longrightarrow> 0 \<le> n"
  shows "runs (BL_SET st p v) (bounded h lp sh)"
  unfolding BL_SET_def
  by (rule runs_bind [OF bl_set_runs [OF bounded_steady [OF assms(1)] assms(2)]])
    (auto intro!: runs_bind [OF runs_check] bounded_layouter [OF assms(1)])

lemma BL_GET_runs: "runs (BL_GET st p) (\<lambda>_. True)"
  by (auto simp: BL_GET_def split: prod.split BLError.split option.split BLPropValue.split)

lemma FINISH_BITFIELD_runs:
  assumes "bounded h lp sh st"
  shows "runs (FINISH_BITFIELD st k) (bounded h lp sh)"
  unfolding FINISH_BITFIELD_def Let_def
  by (intro runs_bind [OF BL_GET_runs])
    (auto intro!: bounded_upd_struct bounded_layouter [OF assms] bl_finalize_steady bounded_steady [OF assms])

lemma the_struct_runs: "runs (the_struct st k) (\<lambda>s. structs st k = Some s)"
  by (simp add: the_struct_def split: option.split)

lemma start_bitfield_runs:
  assumes "bounded h lp sh st"
  shows "runs (start_bitfield st s) (bounded h lp sh)"
  unfolding start_bitfield_def
  by (rule runs_bind [OF bl_reset_runs [OF bounded_steady [OF assms]]],
      rule runs_bind [OF BL_SET_runs [OF bounded_layouter [OF assms]]], assumption, simp)
    (rule BL_SET_runs, assumption, simp)

lemma pad_runs: "runs (pad n a) (\<lambda>_. True)"
  by (auto simp: pad_def intro!: runs_bind [OF runs_c_mod])

lemma maybe_finish_runs: "bounded h lp sh st \<Longrightarrow> runs (if b then FINISH_BITFIELD st k else Inr st) (bounded h lp sh)"
  by (simp add: FINISH_BITFIELD_runs)

lemma maybe_start_runs: "bounded h lp sh st \<Longrightarrow> runs (if b then Inr st else start_bitfield st s) (bounded h lp sh)"
  by (simp add: start_bitfield_runs)

text \<open>The type information of a bit-field's type, when its widths are bounded.\<close>

definition info_fits :: "Host \<Rightarrow> LayoutParam \<Rightarrow> Shape \<Rightarrow> TypeSpec \<Rightarrow> Declarator option \<Rightarrow> TypeInfo \<Rightarrow> bool" where
  "info_fits h lp sh ts d i \<longleftrightarrow> 0 < type_unit h lp sh ts d \<longrightarrow>
     ti_item_size i = type_unit h lp sh ts d \<and> ti_align i = type_unit h lp sh ts d
     \<and> ((\<forall>d'. d = Some d' \<longrightarrow> \<not> array_flag d') \<longrightarrow> ti_size i = ti_item_size i)"

lemma member_push_ok:
  assumes "steady sh bl" and "declarator_ranked h lp sh m ts d" and "bitfield_flag d" and "info_fits h lp sh ts (Some d) i"
  shows "push_ok bl \<lparr>pp_decl = d, pp_type_size = ti_item_size i, pp_type_align = ti_align i\<rparr>"
  using assms by (cases bl) (auto simp: push_ok_def steady_def declarator_ranked_def no_wider_def info_fits_def)

lemma place_bitfield_runs:
  assumes "bounded h lp sh st" and "declarator_ranked h lp sh m ts d" and "bitfield_flag d"
    and "info_fits h lp sh ts (Some d) i"
  shows "runs (place_bitfield k i d (st, inb)) (\<lambda>(d', st', _). bounded h lp sh st' \<and> same_width d d')"
  unfolding place_bitfield_def prod.case
proof (rule runs_bind [OF the_struct_runs], rule runs_bind [OF maybe_start_runs [OF assms(1)]])
  fix s st1
  assume r: "bounded h lp sh st1"
  show "runs (and_then (bl_push (layouter st1)
      \<lparr>pp_decl = d, pp_type_size = ti_item_size i, pp_type_align = ti_align i\<rparr>) (\<lambda>(err, bl, d').
    and_then (check Fatal_error (err = BLE_NO_ERROR)) (\<lambda>_.
    let st2 = st1\<lparr>layouter := bl\<rparr> in
    and_then (if has_flag (s_tflags s) T_UNION then FINISH_BITFIELD st2 k else Inr st2) (\<lambda>st3.
    Inr (d', st3, inb \<or> has_flag (s_tflags s) T_STRUCT)))))
    (\<lambda>(d', st', _). bounded h lp sh st' \<and> same_width d d')"
  proof (rule runs_bind [OF bl_push_runs [OF bounded_steady [OF r] member_push_ok [OF bounded_steady [OF r] assms(2-4)]]], clarify)
    fix err bl d'
    assume "steady sh bl"
    from bounded_layouter [OF r this] have r2: "bounded h lp sh (st1\<lparr>layouter := bl\<rparr>)" .
    assume "same_width (pp_decl \<lparr>pp_decl = d, pp_type_size = ti_item_size i, pp_type_align = ti_align i\<rparr>) d'"
    then show "runs (and_then (check Fatal_error (err = BLE_NO_ERROR)) (\<lambda>_.
      let st2 = st1\<lparr>layouter := bl\<rparr> in
      and_then (if has_flag (s_tflags s) T_UNION then FINISH_BITFIELD st2 k else Inr st2) (\<lambda>st3.
      Inr (d', st3, inb \<or> has_flag (s_tflags s) T_STRUCT))))
      (\<lambda>(d', st', _). bounded h lp sh st' \<and> same_width d d')"
      unfolding Let_def
      by (intro runs_bind [OF runs_check] runs_bind [OF maybe_finish_runs [OF r2]]) auto
  qed
qed

lemma place_member_runs:
  "bounded h lp sh st \<Longrightarrow> runs (place_member al k i sd_off (st, inb)) (\<lambda>(_, _, st', _). bounded h lp sh st')"
  unfolding place_member_def Let_def prod.case
  by (rule runs_bind [OF maybe_finish_runs], assumption, rule runs_bind [OF the_struct_runs])
    (auto intro!: runs_bind [OF pad_runs] bounded_upd_struct)

text \<open>A call for type information that ends for types up to rank \<open>m\<close>.\<close>

definition gti_runs :: "Host \<Rightarrow> LayoutParam \<Rightarrow> Shape \<Rightarrow> nat \<Rightarrow> gti \<Rightarrow> bool" where
  "gti_runs h lp sh m gti \<longleftrightarrow> (\<forall>st ts d. bounded h lp sh st \<and> rank_of sh ts d \<le> m
     \<longrightarrow> runs (gti st ts d) (\<lambda>(_, i, st'). bounded h lp sh st' \<and> info_fits h lp sh ts d i))"

lemma gti_runsD:
  "gti_runs h lp sh m gti \<Longrightarrow> bounded h lp sh st \<Longrightarrow> rank_of sh ts d \<le> m \<Longrightarrow>
   runs (gti st ts d) (\<lambda>(_, i, st'). bounded h lp sh st' \<and> info_fits h lp sh ts d i)"
  by (simp add: gti_runs_def)

lemma layout_declarator_runs:
  assumes "gti_runs h lp sh m gti" and "bounded h lp sh st" and "declarator_ranked h lp sh m ts d"
  shows "runs (layout_declarator gti al k ts d sd_off (st, inb))
    (\<lambda>(d', _, st', _). bounded h lp sh st' \<and> same_width d d')"
proof -
  have rank: "rank_of sh ts (Some d) \<le> m" using assms(3) by (simp add: declarator_ranked_def)
  show ?thesis
    unfolding layout_declarator_def Let_def prod.case
  proof (rule runs_bind [OF gti_runsD [OF assms(1,2) rank]], clarify)
    fix e :: ErrorGTI and i :: TypeInfo and st1
    let ?st = "upd_struct k (\<lambda>s. s\<lparr>s_tflags := inherit_flags (ti_flags i) (bitfield_flag d) (s_tflags s)\<rparr>) st1"
    assume "bounded h lp sh st1" and i: "info_fits h lp sh ts (Some d) i"
    then have r: "bounded h lp sh ?st" by (intro bounded_upd_struct) simp_all
    show "runs (if bitfield_flag d
        then and_then (place_bitfield k i d (?st, inb)) (\<lambda>(d', st3, inb). Inr (d', sd_off, st3, inb))
        else and_then (place_member al k i sd_off (?st, inb)) (\<lambda>(off, sd_off', st3, inb).
          Inr (d\<lparr>d_size := to_int (ti_size i), d_item_size := to_int (ti_item_size i),
                 d_offset := cast_s 29 off\<rparr>, sd_off', st3, inb)))
      (\<lambda>(d', _, st', _). bounded h lp sh st' \<and> same_width d d')"
    proof (cases "bitfield_flag d")
      case True
      show ?thesis
        unfolding if_P [OF True] by (rule runs_bind [OF place_bitfield_runs [OF r assms(3) True i]]) auto
    next
      case False
      show ?thesis
        unfolding if_not_P [OF False] by (rule runs_bind [OF place_member_runs [OF r]]) auto
    qed
  qed
qed

lemma layout_declarators_runs:
  assumes "gti_runs h lp sh m gti"
  shows "bounded h lp sh st \<Longrightarrow> list_all (declarator_ranked h lp sh m ts) ds \<Longrightarrow>
    runs (layout_declarators gti al k ts ds sd_off (st, inb))
      (\<lambda>(ds', _, st', _). bounded h lp sh st' \<and> list_all (declarator_ranked h lp sh m ts) ds')"
proof (induction ds arbitrary: st sd_off inb)
  case (Cons d ds)
  have d: "declarator_ranked h lp sh m ts d" and ds: "list_all (declarator_ranked h lp sh m ts) ds"
    using Cons.prems(2) by auto
  show ?case
    unfolding layout_declarators.simps
  proof (rule runs_bind [OF layout_declarator_runs [OF assms Cons.prems(1) d]], clarify)
    fix d' :: Declarator and sd1 st1 inb1
    assume r: "bounded h lp sh st1" and p: "same_width d d'"
    show "runs (and_then (layout_declarators gti al k ts ds sd1 (st1, inb1))
        (\<lambda>(ds', sd_off2, st2). Inr (d' # ds', sd_off2, st2)))
      (\<lambda>(ds', _, st', _). bounded h lp sh st' \<and> list_all (declarator_ranked h lp sh m ts) ds')"
      by (rule runs_bind [OF Cons.IH [OF r ds]]) (use d declarator_ranked_same [OF p] in auto)
  qed
qed simp

lemma layout_unnamed_runs:
  assumes "gti_runs h lp sh m gti" and "bounded h lp sh st" and "rank_of sh ts None \<le> m"
  shows "runs (layout_unnamed gti al k ts sd_off (st, inb)) (\<lambda>(_, st', _). bounded h lp sh st')"
proof -
  have "runs (layout_unnamed gti al k ts sd_off (st, inb)) (\<lambda>(_, st'). bounded h lp sh (fst st'))"
    unfolding layout_unnamed_def Let_def prod.case
  proof (rule runs_bind [OF maybe_finish_runs [OF assms(2)]],
      rule runs_bind [OF gti_runsD [OF assms(1) _ assms(3)]], assumption, clarify)
    fix e :: ErrorGTI and i :: TypeInfo and st2
    assume "bounded h lp sh st2"
    then have r: "bounded h lp sh (upd_struct k
        (\<lambda>s. s\<lparr>s_tflags := inherit_flags (ti_flags i) False (s_tflags s)\<rparr>) st2)"
      by (rule bounded_upd_struct) simp_all
    show "runs (and_then (place_member al k i sd_off (upd_struct k
        (\<lambda>s. s\<lparr>s_tflags := inherit_flags (ti_flags i) False (s_tflags s)\<rparr>) st2, False))
        (\<lambda>(_, sd_off', st4). Inr (sd_off', st4))) (\<lambda>(_, st'). bounded h lp sh (fst st'))"
      by (rule runs_bind [OF place_member_runs [OF r]]) auto
  qed
  then show ?thesis by (rule runs_mono) auto
qed

lemma declaration_ranked_update:
  "declaration_ranked h lp sh m (sd\<lparr>sd_declarators := ds, sd_offset := a, sd_size := b\<rparr>)
     = declaration_ranked h lp sh m (sd\<lparr>sd_declarators := ds\<rparr>)"
  by (cases ds) (simp_all add: declaration_ranked_def)

lemma layout_declaration_runs:
  assumes "gti_runs h lp sh m gti" and "bounded h lp sh st" and "declaration_ranked h lp sh m sd"
  shows "runs (layout_declaration gti al k sd (st, inb))
    (\<lambda>(sd', st', _). bounded h lp sh st' \<and> declaration_ranked h lp sh m sd')"
proof -
  define members where "members off0 = (case sd_declarators sd of
       Some ds \<Rightarrow> and_then (layout_declarators gti al k (sd_type sd) ds off0 (st, inb))
         (\<lambda>(ds', sd_off, st'). Inr (Some ds', sd_off, st'))
     | None \<Rightarrow> and_then (layout_unnamed gti al k (sd_type sd) off0 (st, inb))
         (\<lambda>(sd_off, st'). Inr (None, sd_off, st')))" for off0
  have members: "runs (members off0)
    (\<lambda>(ds', sd_off, st', inb'). bounded h lp sh st' \<and> declaration_ranked h lp sh m (sd\<lparr>sd_declarators := ds'\<rparr>))" for off0
  proof (cases "sd_declarators sd")
    case (Some ds)
    then have "list_all (declarator_ranked h lp sh m (sd_type sd)) ds"
      using assms(3) by (simp add: declaration_ranked_def)
    from layout_declarators_runs [OF assms(1,2) this] show ?thesis
      unfolding members_def Some option.case by (rule runs_bind) (auto simp: declaration_ranked_def)
  next
    case None
    then have "rank_of sh (sd_type sd) None \<le> m"
      using assms(3) by (simp add: declaration_ranked_def)
    note l = this
    show ?thesis
      unfolding members_def None option.case
      by (rule runs_bind [OF layout_unnamed_runs [OF assms(1,2) l]]) (use l in \<open>auto simp: declaration_ranked_def\<close>)
  qed
  show ?thesis
    unfolding layout_declaration_def Let_def prod.case members_def [symmetric]
  proof (rule runs_bind [OF the_struct_runs], rule runs_bind [OF members], clarify)
    fix ds' sd_off st' inb'
    assume "bounded h lp sh st'" "declaration_ranked h lp sh m (sd\<lparr>sd_declarators := ds'\<rparr>)"
    then show "runs (and_then (the_struct st' k) (\<lambda>s'. Inr (sd\<lparr>sd_declarators := ds',
          sd_offset := if sd_off < 0 then to_int (s_size s') else sd_off,
          sd_size := to_int (to_unsigned (s_size s' - (if sd_off < 0 then to_int (s_size s') else sd_off)))\<rparr>,
          st', inb')))
        (\<lambda>(sd', st', _). bounded h lp sh st' \<and> declaration_ranked h lp sh m sd')"
      by (intro runs_bind [OF the_struct_runs]) (simp add: declaration_ranked_update)
  qed
qed

lemma layout_declarations_runs:
  assumes "gti_runs h lp sh m gti"
  shows "bounded h lp sh st \<Longrightarrow> list_all (declaration_ranked h lp sh m) sds \<Longrightarrow>
    runs (layout_declarations gti al k sds (st, inb))
      (\<lambda>(sds', st', _). bounded h lp sh st' \<and> list_all (declaration_ranked h lp sh m) sds')"
proof (induction sds arbitrary: st inb)
  case (Cons sd sds)
  have sd: "declaration_ranked h lp sh m sd" and sds: "list_all (declaration_ranked h lp sh m) sds"
    using Cons.prems(2) by auto
  show ?case
    unfolding layout_declarations.simps
  proof (rule runs_bind [OF layout_declaration_runs [OF assms Cons.prems(1) sd]], clarify)
    fix sd' st1 inb1
    assume r: "bounded h lp sh st1" and d: "declaration_ranked h lp sh m sd'"
    show "runs (and_then (layout_declarations gti al k sds (st1, inb1))
        (\<lambda>(sds', st2). Inr (sd' # sds', st2)))
      (\<lambda>(sds', st', _). bounded h lp sh st' \<and> list_all (declaration_ranked h lp sh m) sds')"
      by (rule runs_bind [OF Cons.IH [OF r sds]]) (use d in auto)
  qed
qed simp

lemma check_alignments_nonneg: "0 \<le> al \<Longrightarrow> 0 \<le> check_alignments os al"
  by (induction os al rule: check_alignments.induct) simp_all

lemma bounded_alignments:
  "bounded h lp sh st \<Longrightarrow> 0 \<le> fst (LAYOUT_ALIGNMENT h' lp st)"
  "bounded h lp sh st \<Longrightarrow> bounded h lp sh (snd (LAYOUT_ALIGNMENT h' lp st))"
  "bounded h lp sh st \<Longrightarrow> bounded h lp sh (snd (LAYOUT_COMPOUND_ALIGNMENT h' lp st))"
  by (auto simp: LAYOUT_ALIGNMENT_def LAYOUT_COMPOUND_ALIGNMENT_def get_native_alignment_def
      get_native_compound_alignment_def Let_def check_alignments_nonneg intro: bounded_natives)
    (simp_all add: bounded_def)

lemma BL_SET_BYTE_ORDER_runs: "bounded h lp sh st \<Longrightarrow> runs (BL_SET_BYTE_ORDER st b) (bounded h lp sh)"
  unfolding BL_SET_BYTE_ORDER_def by (rule BL_SET_runs) simp_all

lemma bounded_write_back:
  assumes "bounded h lp sh st" and "list_all (declaration_ranked h lp sh (struct_rank sh k)) sds"
  shows "bounded h lp sh (upd_struct k (\<lambda>s. s\<lparr>s_size := n, s_declarations := Some sds\<rparr>) st)"
proof -
  let ?st = "upd_struct k (\<lambda>s. s\<lparr>s_size := n, s_declarations := Some sds\<rparr>) st"
  have "enum_sized lp sh ?st j = enum_sized lp sh st j" for j
    by (rule enum_sized_same) (simp add: upd_struct_def)
  with assms show ?thesis by (auto simp: bounded_def upd_struct_def split: if_splits)
qed

lemma layout_compound_step_runs:
  assumes gti: "gti_runs h lp sh (struct_rank sh k) gti" and r: "bounded h lp sh st"
  shows "runs (layout_compound_step gti h lp st k) (bounded h lp sh)"
  unfolding layout_compound_step_def
proof (rule runs_bind [OF the_struct_runs])
  fix s
  assume s: "structs st k = Some s"
  define cap where "cap = (if s_pack s \<noteq> 0 then (s_pack s, st) else LAYOUT_ALIGNMENT h lp st)"
  define ccap where "ccap = LAYOUT_COMPOUND_ALIGNMENT h lp (snd cap)"
  have ranks: "bounded h lp sh (snd ccap)"
    using r bounded_alignments(2,3) by (simp add: cap_def ccap_def)
  have "0 \<le> s_pack s" using r s by (simp add: bounded_def)
  then have cap0: "0 \<le> fst cap" using bounded_alignments(1) [OF r] by (simp add: cap_def)
  show "runs (case s_declarations s of None \<Rightarrow> Inr st
     | Some sds \<Rightarrow>
         (let (al, st1) = (if s_pack s \<noteq> 0 then (s_pack s, st) else LAYOUT_ALIGNMENT h lp st);
              (cal, st2) = LAYOUT_COMPOUND_ALIGNMENT h lp st1;
              st3 = upd_struct k (\<lambda>s. s\<lparr>s_align := cast_u 16 (if al < cal then al else cal)\<rparr>) st2 in
          and_then (BL_SET st3 BLP_MAX_ALIGN (BLPVT_INT al)) (\<lambda>st4.
          and_then (BL_SET_BYTE_ORDER st4 (lp_byte_order lp)) (\<lambda>st5.
          and_then (layout_declarations gti al k sds (st5, False)) (\<lambda>(sds', st6, in_bitfield).
          and_then (if in_bitfield then FINISH_BITFIELD st6 k else Inr st6) (\<lambda>st7.
          and_then (the_struct st7 k) (\<lambda>s7.
          and_then (pad (s_size s7) (s_align s7)) (\<lambda>sz.
          Inr (upd_struct k (\<lambda>s. s\<lparr>s_size := sz, s_declarations := Some sds'\<rparr>) st7))))))))) (bounded h lp sh)"
  proof (cases "s_declarations s")
    case None
    then show ?thesis using r by simp
  next
    case (Some sds)
    then have sds: "list_all (declaration_ranked h lp sh (struct_rank sh k)) sds" using r s by (auto simp: bounded_def)
    obtain al st1 where 1: "cap = (al, st1)" by force
    obtain cal st2 where 2: "ccap = (cal, st2)" by force
    have 3: "LAYOUT_COMPOUND_ALIGNMENT h lp st1 = (cal, st2)" using 1 2 by (simp add: ccap_def)
    have "bounded h lp sh st2" using ranks 2 by simp
    then have r3: "bounded h lp sh (upd_struct k (\<lambda>s. s\<lparr>s_align := cast_u 16 (if al < cal then al else cal)\<rparr>) st2)"
      by (rule bounded_upd_struct) simp_all
    have al: "0 \<le> al" using cap0 1 by simp
    show ?thesis
      unfolding Some option.case cap_def [symmetric] 1 Let_def prod.case 3
    proof (rule runs_bind [OF BL_SET_runs [OF r3]], use al in simp, rule runs_bind [OF BL_SET_BYTE_ORDER_runs], assumption,
        rule runs_bind [OF layout_declarations_runs [OF gti _ sds]], assumption, clarify)
      fix sds' st6 inb
      assume "bounded h lp sh st6" "list_all (declaration_ranked h lp sh (struct_rank sh k)) sds'"
      then show "runs (and_then (if inb then FINISH_BITFIELD st6 k else Inr st6) (\<lambda>st7.
          and_then (the_struct st7 k) (\<lambda>s7.
          and_then (pad (s_size s7) (s_align s7)) (\<lambda>sz.
          Inr (upd_struct k (\<lambda>s. s\<lparr>s_size := sz, s_declarations := Some sds'\<rparr>) st7))))) (bounded h lp sh)"
        by (auto intro!: runs_bind [OF maybe_finish_runs] runs_bind [OF the_struct_runs]
            runs_bind [OF pad_runs] bounded_write_back split del: if_split)
    qed
  qed
qed

lemma enum_type_size_runs:
  assumes "bounded h lp sh st" and "\<not> to_pointer d" and "\<not> has_flag (ts_tflags ts) T_TYPE" and "has_flag (ts_tflags ts) T_ENUM"
  shows "runs (enum_type_size lp st (ts_ptr ts)) (\<lambda>n. 0 < type_unit h lp sh ts d \<longrightarrow> n = type_unit h lp sh ts d)"
proof -
  have "enum_sized lp sh st k" for k using assms(1) by (simp add: bounded_def)
  note e = this [unfolded enum_sized_def]
  have n: "n = type_unit h lp sh ts d" if "enum_type_size lp st (ts_ptr ts) = Inr n" "0 < type_unit h lp sh ts d" for n
    using that assms(2-4) e [of "the (ts_ptr ts)"]
    by (cases "ts_ptr ts") (auto simp: type_unit_def enum_type_size_def split: if_splits)
  have "enum_type_size lp st (ts_ptr ts) \<noteq> Inl Out_of_fuel \<and> enum_type_size lp st (ts_ptr ts) \<noteq> Inl Diverges"
    by (auto simp: enum_type_size_def split: option.split)
  with n show ?thesis by (simp add: runs_def)
qed

section \<open>The recursion\<close>

lemma apply_array_info [simp]:
  "ti_item_size (apply_array d i) = ti_item_size i" "ti_align (apply_array d i) = ti_align i"
  by (auto simp: apply_array_def split: option.split prod.split)

lemma apply_array_size: "(\<forall>d'. d = Some d' \<longrightarrow> \<not> array_flag d') \<Longrightarrow> ti_size (apply_array d i) = ti_item_size i"
  by (auto simp: apply_array_def split: option.split)

lemma info_fits_done:
  "(0 < type_unit h lp sh ts d \<longrightarrow> ti_item_size i = type_unit h lp sh ts d \<and> ti_align i = type_unit h lp sh ts d)
   \<Longrightarrow> info_fits h lp sh ts d (apply_array d i)"
  by (auto simp: info_fits_def apply_array_size)

lemma plain_info_simps [simp]: "ti_item_size (plain_info n) = n" "ti_align (plain_info n) = n"
  by (simp_all add: plain_info_def)

text \<open>One call, for each kind of type; \<open>gti\<close> is the recursive call.\<close>

lemma typedef_step_runs:
  assumes gti: "\<And>j. j < m \<Longrightarrow> gti_runs h lp sh j gti" and r: "bounded h lp sh st" and rank: "rank_of sh ts d \<le> m"
    and "\<not> to_pointer d" "has_flag (ts_tflags ts) T_TYPE"
  shows "runs (type_info_step gti layout h lp st ts d) (\<lambda>(_, i, st'). bounded h lp sh st' \<and> info_fits h lp sh ts d i)"
proof -
  have "runs (and_then (gti st (tl_type lst) (td_decl td)) (\<lambda>(err, info, st').
      Inr (err, apply_array d (info\<lparr>ti_item_size := ti_size info\<rparr>), st')))
    (\<lambda>(_, i, st'). bounded h lp sh st' \<and> info_fits h lp sh ts d i)"
    if t: "ts_ptr ts = Some t" "typedefs st t = Some td" "td_list td = Some l" "typedef_lists st l = Some lst" for t td l lst
  proof (rule runs_bind [OF gti_runsD [OF gti r]])
    show "typedef_rank sh t < m" using rank assms(4,5) t by (simp add: rank_of_eq)
    have ok: "typedef_ranked h lp sh t (tl_type lst) (td_decl td)" using r t unfolding bounded_def by blast
    then show "rank_of sh (tl_type lst) (td_decl td) \<le> typedef_rank sh t" by (simp add: typedef_ranked_def)
    fix x
    assume x: "case x of (_, i, st') \<Rightarrow> bounded h lp sh st' \<and> info_fits h lp sh (tl_type lst) (td_decl td) i"
    have u: "type_unit h lp sh ts d = typedef_unit sh t" using assms(4,5) t by (simp add: type_unit_def)
    show "runs (case x of (err, info, st') \<Rightarrow> Inr (err, apply_array d (info\<lparr>ti_item_size := ti_size info\<rparr>), st'))
      (\<lambda>(_, i, st'). bounded h lp sh st' \<and> info_fits h lp sh ts d i)"
      using x ok unfolding typedef_ranked_def info_fits_def [of h lp sh "tl_type lst"]
      by (auto intro!: info_fits_done simp: u split: prod.split)
  qed
  then show ?thesis
    using assms(4,5)
    by (auto simp: type_info_step_def Let_def to_pointer_def [symmetric] split: option.split)
qed

lemma compound_step_runs:
  assumes lay: "\<And>k. ts_ptr ts = Some k \<Longrightarrow> runs (layout st k) (bounded h lp sh)" and r: "bounded h lp sh st"
    and ts: "\<not> to_pointer d" "\<not> has_flag (ts_tflags ts) T_TYPE" "\<not> has_flag (ts_tflags ts) T_ENUM"
      "has_flag (ts_tflags ts) T_COMPOUND"
  shows "runs (type_info_step gti layout h lp st ts d) (\<lambda>(_, i, st'). bounded h lp sh st' \<and> info_fits h lp sh ts d i)"
proof -
  have fits: "info_fits h lp sh ts d i" for i using ts by (simp add: info_fits_def type_unit_def)
  show ?thesis
  proof (cases "\<exists>k s. ts_ptr ts = Some k \<and> structs st k = Some s \<and> s_declarations s \<noteq> None")
    case True
    then obtain k s sds where k: "ts_ptr ts = Some k" "structs st k = Some s" "s_declarations s = Some sds"
      by blast
    have "runs (if s_align s = 0 then layout st k else Inr st) (bounded h lp sh)" using lay [OF k(1)] r by simp
    then have "runs (and_then (if s_align s = 0 then layout st k else Inr st)
        (\<lambda>st'. case structs st' k of None \<Rightarrow> Inl Undefined_behaviour
           | Some s' \<Rightarrow> Inr (GTI_NO_ERROR, apply_array d
               \<lparr>ti_size = s_size s', ti_align = s_align s', ti_item_size = s_size s',
                ti_flags = s_tflags s' AND (T_HASBITFIELD OR T_UNSAFE_VAL)\<rparr>, st')))
      (\<lambda>(_, i, st'). bounded h lp sh st' \<and> info_fits h lp sh ts d i)"
      by (rule runs_bind) (simp add: fits split: option.split)
    then show ?thesis
      using ts k
      by (simp add: type_info_step_def Let_def to_pointer_def [symmetric] cong: option.case_cong split del: if_split)
  next
    case False
    then show ?thesis
      using ts r fits by (auto simp: type_info_step_def Let_def to_pointer_def [symmetric] split: option.split)
  qed
qed

lemma type_info_step_runs:
  assumes gti: "\<And>j. j < m \<Longrightarrow> gti_runs h lp sh j gti" and r: "bounded h lp sh st" and rank: "rank_of sh ts d \<le> m"
  shows "runs (type_info_step gti (layout_compound_step gti h lp) h lp st ts d)
    (\<lambda>(_, i, st'). bounded h lp sh st' \<and> info_fits h lp sh ts d i)"
proof (cases "to_pointer d")
  case True
  then show ?thesis
    using r by (auto simp: type_info_step_def Let_def to_pointer_def [symmetric] type_unit_def intro!: info_fits_done)
next
  case ptr: False
  consider (tdef) "has_flag (ts_tflags ts) T_TYPE"
    | (en) "\<not> has_flag (ts_tflags ts) T_TYPE" "has_flag (ts_tflags ts) T_ENUM"
    | (comp) "\<not> has_flag (ts_tflags ts) T_TYPE" "\<not> has_flag (ts_tflags ts) T_ENUM"
        "has_flag (ts_tflags ts) T_COMPOUND"
    | (basic) "\<not> has_flag (ts_tflags ts) T_TYPE" "\<not> has_flag (ts_tflags ts) T_ENUM"
        "\<not> has_flag (ts_tflags ts) T_COMPOUND"
    by blast
  then show ?thesis
  proof cases
    case tdef
    from typedef_step_runs [OF gti r rank ptr this] show ?thesis .
  next
    case en
    from enum_type_size_runs [OF r ptr en] show ?thesis
      using ptr en r
      by (auto simp: type_info_step_def Let_def to_pointer_def [symmetric] intro!: info_fits_done elim!: runs_bind)
  next
    case comp
    show ?thesis
    proof (rule compound_step_runs [OF _ r ptr comp])
      fix k
      assume "ts_ptr ts = Some k"
      then have "struct_rank sh k < m" using rank ptr comp by (simp add: rank_of_eq)
      from layout_compound_step_runs [OF gti [OF this] r]
      show "runs (layout_compound_step gti h lp st k) (bounded h lp sh)" .
    qed
  next
    case basic
    then show ?thesis
      using ptr r by (auto simp: type_info_step_def Let_def to_pointer_def [symmetric] type_unit_def intro!: info_fits_done)
  qed
qed

lemma type_info_fuel: "gti_runs h lp sh m (get_type_info_generic (Suc m) h lp)"
proof (induction m rule: less_induct)
  case (less m)
  have sub: "gti_runs h lp sh j (get_type_info_generic m h lp)" if jm: "j < m" for j
  proof -
    obtain i where i: "m = Suc i" using jm by (cases m) auto
    have "gti_runs h lp sh i (get_type_info_generic m h lp)" using less i by blast
    then show ?thesis using jm i by (auto simp: gti_runs_def)
  qed
  show ?case
    unfolding gti_runs_def get_type_info_generic.simps
    by (intro allI impI, elim conjE, rule type_info_step_runs [OF sub])
qed

section \<open>Property\<close>

text \<open>
  C9 The mutual recursion of \<open>get_type_info_generic\<close> and \<open>layout_compound_generic\<close> ends
  on a type graph without cycles (ranks decrease from a typedef to its type and from a
  compound to the types of its members, pointers apart): one unit of fuel per rank is enough.
  No loop of an engine is endless either, provided that, with the generic engine, no bit-field
  is wider than its type, which is a pointer, an enum, a basic type or a typedef of one of
  these. Laying out compounds keeps these conditions.
\<close>

theorem layout_terminates:
  assumes "bounded h lp sh st"
  shows "(rank_of sh ts d < n \<longrightarrow> runs (get_type_info_generic n h lp st ts d) (\<lambda>(_, _, st'). bounded h lp sh st'))
    \<and> (struct_rank sh k < n \<longrightarrow> runs (layout_compound_generic n h lp st k) (bounded h lp sh))"
proof (intro conjI impI)
  assume "rank_of sh ts d < n"
  then obtain m where m: "n = Suc m" "rank_of sh ts d \<le> m" by (cases n) auto
  from gti_runsD [OF type_info_fuel assms m(2)]
  show "runs (get_type_info_generic n h lp st ts d) (\<lambda>(_, _, st'). bounded h lp sh st')"
    unfolding m(1) by (rule runs_mono) auto
next
  assume "struct_rank sh k < n"
  then obtain m where m: "n = Suc m" "struct_rank sh k \<le> m" by (cases n) auto
  have "gti_runs h lp sh (struct_rank sh k) (get_type_info_generic n h lp)"
    using type_info_fuel [of h lp sh m] m by (auto simp: gti_runs_def)
  from layout_compound_step_runs [OF this assms]
  show "runs (layout_compound_generic n h lp st k) (bounded h lp sh)"
    unfolding layout_compound_generic_def .
qed

end
