(* ===== verification/Union_Layout.thy ===== *)
theory Union_Layout
  imports Layout_Laws
begin

text \<open>
  The layout of a union without bit-fields, with its exact size and alignment.
\<close>

section \<open>The loop over a union\<close>

text \<open>The greatest of a starting value and the entries of a list.\<close>

definition largest :: "int \<Rightarrow> int list \<Rightarrow> int" where
  "largest n xs = fold max xs n"

lemma largest_simps [simp]: "largest n [] = n" "largest n (x # xs) = largest (max x n) xs"
  by (simp_all add: largest_def)

lemma largest_append: "largest n (xs @ ys) = largest (largest n xs) ys"
  by (simp add: largest_def)

lemma largest_ge: "n \<le> largest n xs"
proof (induction xs arbitrary: n)
  case (Cons x xs)
  from Cons.IH [of "max x n"] show ?case by simp
qed simp

lemma largest_upper: "x \<in> set xs \<Longrightarrow> x \<le> largest n xs"
proof (induction xs arbitrary: n)
  case (Cons y ys)
  then show ?case using largest_ge [of "max y n" ys] by auto
qed simp

lemma largest_less: "n < b \<Longrightarrow> \<forall>x\<in>set xs. x < b \<Longrightarrow> largest n xs < b"
  by (induction xs arbitrary: n) auto

text \<open>The types of the members of a declaration, in order.\<close>

definition member_types :: "StructDeclaration \<Rightarrow> Declarator option list" where
  "member_types sd = (case sd_declarators sd of Some ds \<Rightarrow> map Some ds | None \<Rightarrow> [None])"

definition infos :: "(TypeSpec \<Rightarrow> Declarator option \<Rightarrow> TypeInfo) \<Rightarrow> StructDeclaration \<Rightarrow> TypeInfo list" where
  "infos info sd = map (info (sd_type sd)) (member_types sd)"

definition plain_declaration ::
  "(TypeSpec \<Rightarrow> Declarator option \<Rightarrow> bool) \<Rightarrow> (TypeSpec \<Rightarrow> Declarator option \<Rightarrow> TypeInfo)
     \<Rightarrow> StructDeclaration \<Rightarrow> bool" where
  "plain_declaration settled info sd \<longleftrightarrow> list_all (\<lambda>d. settled (sd_type sd) d
     \<and> (case d of Some d' \<Rightarrow> \<not> bitfield_flag d' | None \<Rightarrow> True)
     \<and> sized (info (sd_type sd) d) \<and> ti_size (info (sd_type sd) d) < 2 ^ 31) (member_types sd)"

definition union_building :: "nat \<Rightarrow> CState \<Rightarrow> int \<Rightarrow> int \<Rightarrow> CState \<Rightarrow> bool" where
  "union_building k st0 al sz st \<longleftrightarrow> same_but k st0 st
     \<and> (\<exists>s. structs st k = Some s \<and> \<not> has_flag (s_tflags s) T_STRUCT \<and> s_align s = al \<and> s_size s = sz)"

text \<open>What becomes of a declaration: everything at offset zero, with the size of its type.\<close>

definition overlaid :: "(TypeSpec \<Rightarrow> Declarator option \<Rightarrow> TypeInfo) \<Rightarrow> StructDeclaration \<Rightarrow> StructDeclaration \<Rightarrow> bool" where
  "overlaid info sd sd' \<longleftrightarrow> sd_type sd' = sd_type sd \<and> sd_offset sd' = 0 \<and>
     (case sd_declarators sd of
        Some ds \<Rightarrow> (\<exists>ds'. sd_declarators sd' = Some ds' \<and> list_all2 (\<lambda>d d'. same_field d d'
          \<and> d_offset d' = 0 \<and> d_size d' = ti_size (info (sd_type sd) (Some d))) ds ds')
      | None \<Rightarrow> sd_declarators sd' = None)"

lemma inherit_not_struct [simp]: "has_flag (inherit_flags f b t) T_STRUCT = has_flag t T_STRUCT"
proof -
  have "has_flag T_HASBITFIELD T_STRUCT = False" "has_flag T_UNSAFE_VAL T_STRUCT = False"
    by (simp_all add: has_flag_def)
  then show ?thesis by (simp add: inherit_flags_def Let_def has_flag_or)
qed

lemma place_member_union:
  assumes "union_building k st0 a sz st" and "sized i" and "1 \<le> al" "al < 2 ^ 16" and "1 \<le> a"
  shows "\<exists>st'. place_member al k i 0 (st, False) = Inr (0, 0, st', False)
    \<and> union_building k st0 (max (min al (ti_align i)) a) (max (ti_size i) sz) st'"
proof -
  obtain s where s: "same_but k st0 st" "structs st k = Some s" "\<not> has_flag (s_tflags s) T_STRUCT"
      "s_align s = a" "s_size s = sz"
    using assms(1) by (auto simp: union_building_def)
  have c: "cast_u 16 (min al (ti_align i)) = min al (ti_align i)"
    using assms(2-4) by (auto simp: sized_def)
  have m: "(if ti_align i > al then al else ti_align i) = min al (ti_align i)" by simp
  show ?thesis
    using s by (auto simp: place_member_def the_struct_def Let_def m c union_building_def)
qed

context settled_types
begin

lemma union_inherit:
  "union_building k st0 a sz st \<Longrightarrow>
   union_building k st0 a sz (upd_struct k (\<lambda>s. s\<lparr>s_tflags := inherit_flags f b (s_tflags s)\<rparr>) st)"
  by (auto simp: union_building_def)

lemma union_declarators:
  assumes al: "1 \<le> al" "al < 2 ^ 16"
  shows "union_building k st0 a sz st \<Longrightarrow> 1 \<le> a \<Longrightarrow>
    list_all (\<lambda>d. settled ts (Some d) \<and> \<not> bitfield_flag d \<and> sized (info ts (Some d))
      \<and> ti_size (info ts (Some d)) < 2 ^ 31) ds \<Longrightarrow>
    \<exists>ds' st'. layout_declarators gti al k ts ds 0 (st, False) = Inr (ds', 0, st', False)
      \<and> union_building k st0 (largest a (map (\<lambda>d. min al (ti_align (info ts (Some d)))) ds))
          (largest sz (map (\<lambda>d. ti_size (info ts (Some d))) ds)) st'
      \<and> list_all2 (\<lambda>d d'. same_field d d' \<and> d_offset d' = 0 \<and> d_size d' = ti_size (info ts (Some d))) ds ds'"
proof (induction ds arbitrary: a sz st)
  case (Cons d ds)
  let ?i = "info ts (Some d)"
  from Cons.prems(3) have d: "settled ts (Some d)" "\<not> bitfield_flag d" "sized ?i" "ti_size ?i < 2 ^ 31"
    by auto
  obtain e where g: "gti st ts (Some d) = Inr (e, ?i, st)"
    using gti_settled [OF d(1)] Cons.prems(1) unfolding union_building_def by blast
  let ?st = "upd_struct k (\<lambda>s. s\<lparr>s_tflags := inherit_flags (ti_flags ?i) (bitfield_flag d) (s_tflags s)\<rparr>) st"
  from place_member_union [OF union_inherit [OF Cons.prems(1)] d(3) al Cons.prems(2)]
  obtain st1 where st1: "place_member al k ?i 0 (?st, False) = Inr (0, 0, st1, False)"
      "union_building k st0 (max (min al (ti_align ?i)) a) (max (ti_size ?i) sz) st1"
    by blast
  define d' where "d' = d\<lparr>d_size := to_int (ti_size ?i), d_item_size := to_int (ti_item_size ?i), d_offset := 0\<rparr>"
  have step: "layout_declarator gti al k ts d 0 (st, False) = Inr (d', 0, st1, False)"
    using g d(2) st1(1) by (simp add: layout_declarator_def Let_def d'_def)
  have d': "same_field d d' \<and> d_offset d' = 0 \<and> d_size d' = ti_size ?i"
    using d(3,4) by (simp add: d'_def same_field_def sized_def)
  have "1 \<le> max (min al (ti_align ?i)) a" using Cons.prems(2) by simp
  from Cons.IH [OF st1(2) this] Cons.prems(3) obtain ds' st2 where
    "layout_declarators gti al k ts ds 0 (st1, False) = Inr (ds', 0, st2, False)"
    "union_building k st0 (largest (max (min al (ti_align ?i)) a) (map (\<lambda>d. min al (ti_align (info ts (Some d)))) ds))
          (largest (max (ti_size ?i) sz) (map (\<lambda>d. ti_size (info ts (Some d))) ds)) st2"
    "list_all2 (\<lambda>d d'. same_field d d' \<and> d_offset d' = 0 \<and> d_size d' = ti_size (info ts (Some d))) ds ds'"
    by auto
  then show ?case using step d' by simp
qed simp

lemma union_declaration:
  assumes b: "union_building k st0 a sz st" and a: "1 \<le> a" and al: "1 \<le> al" "al < 2 ^ 16"
    and ok: "plain_declaration settled info sd"
  shows "\<exists>sd' st'. layout_declaration gti al k sd (st, False) = Inr (sd', st', False)
    \<and> union_building k st0 (largest a (map (\<lambda>i. min al (ti_align i)) (infos info sd)))
        (largest sz (map ti_size (infos info sd))) st'
    \<and> overlaid info sd sd'"
proof -
  obtain s where s: "structs st k = Some s" "\<not> has_flag (s_tflags s) T_STRUCT"
    using b by (auto simp: union_building_def)
  show ?thesis
  proof (cases "sd_declarators sd")
    case (Some ds)
    then have "list_all (\<lambda>d. settled (sd_type sd) (Some d) \<and> \<not> bitfield_flag d
        \<and> sized (info (sd_type sd) (Some d)) \<and> ti_size (info (sd_type sd) (Some d)) < 2 ^ 31) ds"
      using ok by (simp add: plain_declaration_def member_types_def list_all_iff)
    from union_declarators [OF al b a this] obtain ds' st1 where
      l: "layout_declarators gti al k (sd_type sd) ds 0 (st, False) = Inr (ds', 0, st1, False)"
        "union_building k st0 (largest a (map (\<lambda>i. min al (ti_align i)) (infos info sd)))
          (largest sz (map ti_size (infos info sd))) st1"
        "list_all2 (\<lambda>d d'. same_field d d' \<and> d_offset d' = 0
          \<and> d_size d' = ti_size (info (sd_type sd) (Some d))) ds ds'"
      by (auto simp: infos_def member_types_def Some comp_def)
    from l(2) obtain s1 where s1: "structs st1 k = Some s1" by (auto simp: union_building_def)
    have "layout_declaration gti al k sd (st, False) = Inr (sd\<lparr>sd_declarators := Some ds', sd_offset := 0,
        sd_size := to_int (to_unsigned (s_size s1))\<rparr>, st1, False)"
      using l(1) s s1 Some by (simp add: layout_declaration_def the_struct_def Let_def)
    moreover have "overlaid info sd (sd\<lparr>sd_declarators := Some ds', sd_offset := 0,
        sd_size := to_int (to_unsigned (s_size s1))\<rparr>)"
      using l(3) Some by (simp add: overlaid_def)
    ultimately show ?thesis using l(2) by blast
  next
    case None
    let ?i = "info (sd_type sd) None"
    have i: "settled (sd_type sd) None" "sized ?i"
      using ok None by (simp_all add: plain_declaration_def member_types_def)
    obtain e where g: "gti st (sd_type sd) None = Inr (e, ?i, st)"
      using gti_settled [OF i(1)] b unfolding union_building_def by blast
    from place_member_union [OF union_inherit [OF b] i(2) al a]
    obtain st1 where st1: "place_member al k ?i 0 (upd_struct k
        (\<lambda>s. s\<lparr>s_tflags := inherit_flags (ti_flags ?i) False (s_tflags s)\<rparr>) st, False) = Inr (0, 0, st1, False)"
        "union_building k st0 (max (min al (ti_align ?i)) a) (max (ti_size ?i) sz) st1"
      by blast
    from st1(2) obtain s1 where s1: "structs st1 k = Some s1" by (auto simp: union_building_def)
    have "layout_declaration gti al k sd (st, False) = Inr (sd\<lparr>sd_declarators := None, sd_offset := 0,
        sd_size := to_int (to_unsigned (s_size s1))\<rparr>, st1, False)"
      using g st1(1) s s1 None by (simp add: layout_declaration_def layout_unnamed_def the_struct_def Let_def)
    moreover have "overlaid info sd (sd\<lparr>sd_declarators := None, sd_offset := 0,
        sd_size := to_int (to_unsigned (s_size s1))\<rparr>)"
      using None by (simp add: overlaid_def)
    ultimately show ?thesis using st1(2) None by (auto simp: infos_def member_types_def)
  qed
qed

lemma union_declarations:
  assumes al: "1 \<le> al" "al < 2 ^ 16"
  shows "union_building k st0 a sz st \<Longrightarrow> 1 \<le> a \<Longrightarrow> list_all (plain_declaration settled info) sds \<Longrightarrow>
    \<exists>sds' st'. layout_declarations gti al k sds (st, False) = Inr (sds', st', False)
      \<and> union_building k st0 (largest a (map (\<lambda>i. min al (ti_align i)) (concat (map (infos info) sds))))
          (largest sz (map ti_size (concat (map (infos info) sds)))) st'
      \<and> list_all2 (overlaid info) sds sds'"
proof (induction sds arbitrary: a sz st)
  case (Cons sd sds)
  from union_declaration [OF Cons.prems(1,2) al, of sd] Cons.prems(3) obtain sd' st1 where
    1: "layout_declaration gti al k sd (st, False) = Inr (sd', st1, False)"
      "union_building k st0 (largest a (map (\<lambda>i. min al (ti_align i)) (infos info sd)))
        (largest sz (map ti_size (infos info sd))) st1"
      "overlaid info sd sd'"
    by auto
  have "1 \<le> largest a (map (\<lambda>i. min al (ti_align i)) (infos info sd))"
    using Cons.prems(2) largest_ge order_trans by blast
  from Cons.IH [OF 1(2) this] Cons.prems(3) obtain sds' st2 where
    "layout_declarations gti al k sds (st1, False) = Inr (sds', st2, False)"
    "union_building k st0 (largest (largest a (map (\<lambda>i. min al (ti_align i)) (infos info sd)))
        (map (\<lambda>i. min al (ti_align i)) (concat (map (infos info) sds))))
      (largest (largest sz (map ti_size (infos info sd))) (map ti_size (concat (map (infos info) sds)))) st2"
    "list_all2 (overlaid info) sds sds'"
    by auto
  with 1 show ?case by (simp add: largest_append)
qed simp

lemma layout_union_compound:
  assumes s: "structs st0 k = Some s" "s_declarations s = Some sds" "s_size s = 0"
    "\<not> has_flag (s_tflags s) T_STRUCT"
    and al: "1 \<le> member_cap h lp st0 s" "member_cap h lp st0 s < 2 ^ 16" "1 \<le> compound_cap h lp st0"
    and ok: "list_all (plain_declaration settled info) sds"
  defines "align_of \<equiv> largest (min (member_cap h lp st0 s) (compound_cap h lp st0))
      (map (\<lambda>i. min (member_cap h lp st0 s) (ti_align i)) (concat (map (infos info) sds)))"
    and "size_of \<equiv> largest 0 (map ti_size (concat (map (infos info) sds)))"
  shows "\<exists>st' s' sds'. layout_compound_step gti h lp st0 k = Inr st' \<and> structs st' k = Some s'
    \<and> same_but k st0 st' \<and> s_declarations s' = Some sds' \<and> list_all2 (overlaid info) sds sds'
    \<and> s_align s' = align_of \<and> align_of dvd s_size s' \<and> size_of \<le> s_size s' \<and> s_size s' < size_of + align_of"
proof -
  define al where "al = member_cap h lp st0 s"
  obtain st1 where st1: "(if s_pack s \<noteq> 0 then (s_pack s, st0) else LAYOUT_ALIGNMENT h lp st0) = (al, st1)"
    by (cases "s_pack s = 0"; cases "LAYOUT_ALIGNMENT h lp st0") (auto simp: al_def member_cap_def)
  have e1: "structs st1 = structs st0" "same_but k st0 st1" "layouter st1 = layouter st0"
      "native_compound_alignment st1 = native_compound_alignment st0"
    using st1 alignment_state [of h lp st0 al st1] by (auto simp: same_but_def split: if_splits)
  obtain cal st2 where st2: "LAYOUT_COMPOUND_ALIGNMENT h lp st1 = (cal, st2)" by force
  have e2: "structs st2 = structs st0" "same_but k st0 st2" "layouter st2 = layouter st0"
    using compound_alignment_state [OF st2, of k st0] e1 by auto
  have cal: "cal = compound_cap h lp st0"
    using st2 e1(4) by (auto simp: compound_cap_def LAYOUT_COMPOUND_ALIGNMENT_def
        get_native_compound_alignment_def split: if_splits)
  have al16: "1 \<le> al" "al < 2 ^ 16" using al by (auto simp: al_def)
  define a0 where "a0 = min al cal"
  have a0: "1 \<le> a0" "a0 < 2 ^ 16" using al16 al(3) cal by (auto simp: a0_def)
  define st5 where "st5 = upd_struct k (\<lambda>s. s\<lparr>s_align := cast_u 16 (if al < cal then al else cal)\<rparr>) st2
    \<lparr>layouter := configured (layouter st0) al (layout_order lp)\<rparr>"
  have "(if al < cal then al else cal) = a0" by (simp add: a0_def)
  then have b5: "union_building k st0 a0 0 st5"
    using e2 s a0 by (simp add: union_building_def st5_def)
  from union_declarations [OF al16 b5 a0(1) ok] obtain sds' st6 where
    l: "layout_declarations gti al k sds (st5, False) = Inr (sds', st6, False)"
      "union_building k st0 align_of size_of st6" "list_all2 (overlaid info) sds sds'"
    unfolding align_of_def size_of_def a0_def al_def cal by blast
  then obtain s6 where s6: "structs st6 k = Some s6" "s_align s6 = align_of" "s_size s6 = size_of" "same_but k st0 st6"
    by (auto simp: union_building_def)
  have members: "\<forall>i\<in>set (concat (map (infos info) sds)). 1 \<le> ti_align i \<and> 0 \<le> ti_size i \<and> ti_size i < 2 ^ 31"
    using ok by (force simp: list_all_iff plain_declaration_def infos_def sized_def)
  have "a0 \<le> align_of" unfolding align_of_def a0_def al_def cal by (rule largest_ge)
  then have "1 \<le> align_of" using a0 by simp
  moreover have "align_of < 2 ^ 16"
    unfolding align_of_def using a0(2) al16(2) by (intro largest_less) (auto simp: a0_def al_def cal)
  moreover have "0 \<le> size_of" unfolding size_of_def by (rule largest_ge)
  moreover have "size_of < 2 ^ 31" unfolding size_of_def using members by (intro largest_less) auto
  ultimately have "0 \<le> size_of" "1 \<le> align_of" "size_of + align_of < 2 ^ 32" by simp_all
  then obtain n where n: "pad size_of align_of = Inr n" "size_of \<le> n" "n < size_of + align_of" "align_of dvd n"
    using pad_up [of size_of align_of] by blast
  define st' where "st' = upd_struct k (\<lambda>s. s\<lparr>s_size := n, s_declarations := Some sds'\<rparr>) st6"
  have "layout_compound_step gti h lp st0 k = Inr st'"
    using s(1,2) st1 st2 l(1) s6 n(1) e2(3)
    by (simp add: layout_compound_step_def the_struct_def Let_def configure_engine st'_def flip: st5_def)
  then show ?thesis using s6 n l(3) by (auto simp: st'_def)
qed

end

section \<open>Property\<close>

definition layoutable_union :: "nat \<Rightarrow> Host \<Rightarrow> LayoutParam \<Rightarrow> CState \<Rightarrow> nat \<Rightarrow> Struct \<Rightarrow> StructDeclaration list \<Rightarrow> bool" where
  "layoutable_union n h lp st k s sds \<longleftrightarrow> structs st k = Some s \<and> s_declarations s = Some sds
     \<and> s_size s = 0 \<and> \<not> has_flag (s_tflags s) T_STRUCT
     \<and> 1 \<le> member_cap h lp st s \<and> member_cap h lp st s < 2 ^ 16 \<and> 1 \<le> compound_cap h lp st
     \<and> list_all (plain_declaration (settled_type n k st lp) (info_of n h lp st)) sds"

text \<open>The alignment of a union and the size of its largest member.\<close>

definition union_alignment :: "nat \<Rightarrow> Host \<Rightarrow> LayoutParam \<Rightarrow> CState \<Rightarrow> Struct \<Rightarrow> StructDeclaration list \<Rightarrow> int" where
  "union_alignment n h lp st s sds = largest (min (member_cap h lp st s) (compound_cap h lp st))
     (map (\<lambda>i. min (member_cap h lp st s) (ti_align i)) (concat (map (infos (info_of n h lp st)) sds)))"

definition largest_member :: "nat \<Rightarrow> Host \<Rightarrow> LayoutParam \<Rightarrow> CState \<Rightarrow> StructDeclaration list \<Rightarrow> int" where
  "largest_member n h lp st sds = largest 0 (map ti_size (concat (map (infos (info_of n h lp st)) sds)))"

text \<open>
  C19 A union without bit-fields is laid out exactly: every member lies at offset zero
  with the size of its type, the alignment is the largest of the members' alignments, capped
  by the packing, and of the compound alignment, and the size is the least multiple of it
  that holds the largest member.
\<close>

theorem union_layout_exact:
  assumes "layoutable_union n h lp st k s sds"
  defines "a \<equiv> union_alignment n h lp st s sds" and "m \<equiv> largest_member n h lp st sds"
  shows "\<exists>st' s' sds'. layout_compound_generic n h lp st k = Inr st' \<and> structs st' k = Some s'
    \<and> same_but k st st' \<and> s_declarations s' = Some sds' \<and> list_all2 (overlaid (info_of n h lp st)) sds sds'
    \<and> s_align s' = a \<and> a dvd s_size s' \<and> m \<le> s_size s' \<and> s_size s' < m + a"
  unfolding layout_compound_generic_def a_def m_def union_alignment_def largest_member_def
  by (rule members.layout_union_compound) (use assms(1) in \<open>auto simp: layoutable_union_def\<close>)

end
