(* ===== verification/Layout_Examples.thy ===== *)
theory Layout_Examples
  imports Layout_Fuel Union_Layout
begin

text \<open>
  Concrete layouts on a 64-bit host: the layout theorems at work, and two inputs on which
  the code does not compute a C layout.
\<close>

section \<open>A host and some declarations\<close>

definition x64 :: Host where
  "x64 = \<lparr>sizeof_char = 1, sizeof_short = 2, sizeof_int = 4, sizeof_long = 8, sizeof_long_long = 8,
     sizeof_float = 4, sizeof_double = 8, sizeof_long_double = 16, sizeof_ptr = 8,
     aligned_offsets = [4, 8, 8, 4, 8, 8, 16], compound_offset = 1\<rparr>"

definition native_layout :: LayoutParam where
  "native_layout = \<lparr>alignment = 0, compound_alignment = 0, char_size = 0, int_size = 0, short_size = 0,
     long_size = 0, long_long_size = 0, enum_size = 0, ptr_size = 0, float_size = 0, double_size = 0,
     long_double_size = 0, lp_byte_order = CBO_LITTLE_ENDIAN\<rparr>"

definition array_member :: "string \<Rightarrow> int \<Rightarrow> Declarator" where
  "array_member name n = (decl_new (Some name) 0)\<lparr>array_flag := True, ext_array := Some [value_new n 0]\<rparr>"

definition pointer_member :: "string \<Rightarrow> Declarator" where
  "pointer_member name = (decl_new (Some name) 0)\<lparr>pointer_flag := True\<rparr>"

definition declare_members :: "u_32 \<Rightarrow> nat option \<Rightarrow> Declarator list \<Rightarrow> StructDeclaration" where
  "declare_members flags ptr ds = structdecl_new \<lparr>ts_ptr = ptr, ts_tflags = flags\<rparr> (Some ds)"

definition store :: "Struct list \<Rightarrow> CState" where
  "store ss = \<lparr>structs = (\<lambda>k. if k < length ss then Some (ss ! k) else None), enums = Map.empty,
     typedefs = Map.empty, typedef_lists = Map.empty, layouter = Generic (Generic_init zero_generic),
     native_alignment = 0, native_compound_alignment = 0\<rparr>"

definition size_and_offsets :: "nat \<Rightarrow> CState run \<Rightarrow> (int \<times> int list) run" where
  "size_and_offsets k r = and_then r (\<lambda>st. and_then (the_struct st k) (\<lambda>s.
     Inr (s_size s, concat (map (\<lambda>sd. case sd_declarators sd of None \<Rightarrow> [sd_offset sd]
       | Some ds \<Rightarrow> map d_offset ds) (case s_declarations s of None \<Rightarrow> [] | Some sds \<Rightarrow> sds)))))"

text \<open>\<open>struct mixed { char c; int a : 3, b : 7; double d; struct mixed *next; short s[3]; };\<close>\<close>

definition mixed :: Struct where
  "mixed = struct_new (Some ''mixed'') 0 T_STRUCT 0 (Some
     [declare_members T_CHAR None [decl_new (Some ''c'') 0],
      declare_members T_INT None [bit_field ''a'' 3, bit_field ''b'' 7],
      declare_members T_DOUBLE None [decl_new (Some ''d'') 0],
      declare_members T_STRUCT (Some 0) [pointer_member ''next''],
      declare_members T_SHORT None [array_member ''s'' 3]])"

lemma mixed_layoutable: "layoutable 2 x64 native_layout (store [mixed]) 0"
  by code_simp

theorem struct_layout_sound_witness:
  "\<exists>st' s' sds'. layout_compound_generic 2 x64 native_layout (store [mixed]) 0 = Inr st'
    \<and> structs st' 0 = Some s' \<and> s_declarations s' = Some sds'
    \<and> in_order 0 (regions BLPV_LITTLE_ENDIAN sds') (8 * s_size s') \<and> s_align s' dvd s_size s'"
proof -
  have "layout_order native_layout = BLPV_LITTLE_ENDIAN" by (simp add: layout_order_def native_layout_def)
  with struct_layout_sound [OF mixed_layoutable] show ?thesis by auto
qed

text \<open>\<open>union word { char bytes[6]; int i; };\<close>\<close>

definition word_union :: Struct where
  "word_union = struct_new (Some ''word'') 0 T_UNION 0 (Some
     [declare_members T_CHAR None [array_member ''bytes'' 6], declare_members T_INT None [decl_new (Some ''i'') 0]])"

theorem union_layout_exact_witness:
  "\<exists>st' s'. layout_compound_generic 2 x64 native_layout (store [word_union]) 0 = Inr st'
    \<and> structs st' 0 = Some s' \<and> s_align s' = 4 \<and> s_size s' = 8"
proof -
  define sds where "sds = the (s_declarations word_union)"
  have "layoutable_union 2 x64 native_layout (store [word_union]) 0 word_union sds"
    unfolding sds_def by code_simp
  note u = union_layout_exact [OF this]
  have a: "union_alignment 2 x64 native_layout (store [word_union]) word_union sds = 4"
    and m: "largest_member 2 x64 native_layout (store [word_union]) sds = 6"
    unfolding sds_def by code_simp+
  from u [unfolded a m] obtain st' s' where
    "layout_compound_generic 2 x64 native_layout (store [word_union]) 0 = Inr st'" "structs st' 0 = Some s'"
    "s_align s' = 4" "4 dvd s_size s'" "6 \<le> s_size s'" "s_size s' < 10"
    by auto
  moreover from this have "s_size s' = 8" by presburger
  ultimately show ?thesis by blast
qed

section \<open>Layouts that come out wrong\<close>

text \<open>\<open>union { char x[8]; int b : 3; };\<close>\<close>

definition shrunk_union :: Struct where
  "shrunk_union = struct_new None 0 T_UNION 0 (Some
     [declare_members T_CHAR None [array_member [] 8], declare_members T_INT None [bit_field [] 3]])"

text \<open>
  A bit-field resets the size of the union it is a member of:
  \<open>union { char x[8]; int b : 3; }\<close> gets the size 4 although its first member has 8 bytes.
\<close>

theorem union_bit_field_shrinks:
  "size_and_offsets 0 (layout_compound_generic 2 x64 native_layout (store [shrunk_union]) 0) = Inr (4, [0, 0])"
  by code_simp

text \<open>
  \<open>struct inner { char x[5]; int b : 5; }\<close>, number 1, and
  \<open>struct { int a : 3; struct inner i; }\<close>, number 0.
\<close>

definition inner_struct :: Struct where
  "inner_struct = struct_new None 0 T_STRUCT 0 (Some
     [declare_members T_CHAR None [array_member [] 5], declare_members T_INT None [bit_field [] 5]])"

definition outer_struct :: Struct where
  "outer_struct = struct_new None 0 T_STRUCT 0 (Some
     [declare_members T_INT None [bit_field [] 3], declare_members T_STRUCT (Some 1) [decl_new None 0]])"

text \<open>
  The layouter is shared: when a struct whose bit-fields are still open reaches a
  compound that has yet to be laid out (it was declared later), that layout resets the
  layouter and the outer struct continues at the inner one's offset. The outer struct gets
  16 bytes and its member the offset 8; when the inner struct is laid out first it gets 12
  bytes and the member the offset 4.
\<close>

theorem nested_layout_clobbers:
  "size_and_offsets 0 (layout_compound_generic 2 x64 native_layout (store [outer_struct, inner_struct]) 0)
     = Inr (16, [0, 8])
   \<and> size_and_offsets 0 (and_then
       (layout_compound_generic 1 x64 native_layout (store [outer_struct, inner_struct]) 1)
       (\<lambda>st. layout_compound_generic 2 x64 native_layout st 0))
     = Inr (12, [0, 4])"
  by (rule conjI) code_simp+

text \<open>
  \<open>struct inner { char y[5]; int b : 5; }\<close>, number 1, and
  \<open>struct outer { char x[20]; int a : 3; struct inner i; }\<close>, number 0: with \<open>struct outer;\<close>
  declared first, the outer struct comes first in the list that \<open>update_parse_info\<close> lays out.
\<close>

definition small_inner :: Struct where
  "small_inner = struct_new None 0 T_STRUCT 0 (Some
     [declare_members T_CHAR None [array_member [] 5], declare_members T_INT None [bit_field [] 5]])"

definition large_outer :: Struct where
  "large_outer = struct_new None 0 T_STRUCT 0 (Some
     [declare_members T_CHAR None [array_member [] 20], declare_members T_INT None [bit_field [] 3],
      declare_members T_STRUCT (Some 1) [decl_new None 0]])"

text \<open>
  The member \<open>i\<close> gets the offset 8, inside \<open>x\<close>, and the struct 16 bytes, fewer than \<open>x\<close> has.
\<close>

theorem nested_layout_overlaps:
  "size_and_offsets 0 (layout_compound_generic 2 x64 native_layout (store [large_outer, small_inner]) 0)
     = Inr (16, [0, 20, 8])"
  by code_simp

lemma bounded_store:
  assumes "list_all (\<lambda>k. 0 \<le> s_pack (ss ! k) \<and> (case s_declarations (ss ! k) of None \<Rightarrow> True
      | Some sds \<Rightarrow> list_all (declaration_ranked h lp sh (struct_rank sh k)) sds)) [0..<length ss]"
    and "steady sh (layouter (store ss))" and "0 \<le> alignment lp"
  shows "bounded h lp sh (store ss)"
  unfolding bounded_def
proof (intro conjI allI impI)
  fix k s sds
  assume "structs (store ss) k = Some s"
  then have k: "k < length ss" "s = ss ! k" by (simp_all add: store_def split: if_splits)
  with assms(1) have a: "0 \<le> s_pack s" "case s_declarations s of None \<Rightarrow> True
      | Some sds \<Rightarrow> list_all (declaration_ranked h lp sh (struct_rank sh k)) sds"
    by (simp_all add: list_all_iff)
  from a(1) show "0 \<le> s_pack s" .
  assume "s_declarations s = Some sds"
  with a(2) show "list_all (declaration_ranked h lp sh (struct_rank sh k)) sds" by simp
qed (use assms(2,3) in \<open>simp_all add: store_def enum_sized_def enum_type_size_def split: option.split\<close>)

text \<open>
  The two structs have no cycle, ranks 1 and 0 bound the recursion, and their bit-fields
  have fewer bits than an \<open>int\<close>.
\<close>

definition two_ranks :: Shape where
  "two_ranks = \<lparr>struct_rank = (\<lambda>k. if k = 0 then 1 else 0), typedef_rank = (\<lambda>_. 0),
     typedef_unit = (\<lambda>_. 0), enum_unit = (\<lambda>_. 0), narrow_fields = True\<rparr>"

theorem layout_terminates_witness:
  "layout_compound_generic 2 x64 native_layout (store [outer_struct, inner_struct]) 0 \<noteq> Inl Out_of_fuel
   \<and> layout_compound_generic 2 x64 native_layout (store [outer_struct, inner_struct]) 0 \<noteq> Inl Diverges"
proof -
  have "bounded x64 native_layout two_ranks (store [outer_struct, inner_struct])"
    by (rule bounded_store) code_simp+
  from layout_terminates [OF this, of _ _ 2 0] show ?thesis by (simp add: runs_def two_ranks_def)
qed

end
