(* ===== verification/Simulation.thy ===== *)
theory Simulation
  imports CBC_Prelude
begin

text \<open>
  Sequences of operations on a component, and on the abstract state it stands for: when every
  operation simulates its specification, so does every sequence of operations.
\<close>

fun run_ops :: "('o \<Rightarrow> 's \<Rightarrow> ('b \<times> 's) run) \<Rightarrow> 'o list \<Rightarrow> 's \<Rightarrow> ('b list \<times> 's) run" where
  "run_ops step [] s = Inr ([], s)"
| "run_ops step (op # ops) s = and_then (step op s) (\<lambda>(b, s).
     and_then (run_ops step ops s) (\<lambda>(bs, s). Inr (b # bs, s)))"

fun spec_ops :: "('o \<Rightarrow> 'a \<Rightarrow> 'b \<times> 'a) \<Rightarrow> 'o list \<Rightarrow> 'a \<Rightarrow> 'b list \<times> 'a" where
  "spec_ops step [] a = ([], a)"
| "spec_ops step (op # ops) a = (let (b, a) = step op a; (bs, a) = spec_ops step ops a in (b # bs, a))"

locale simulation =
  fixes represents :: "'s \<Rightarrow> 'a \<Rightarrow> bool"
    and step :: "'o \<Rightarrow> 's \<Rightarrow> ('b \<times> 's) run" and spec :: "'o \<Rightarrow> 'a \<Rightarrow> 'b \<times> 'a"
  assumes step_simulates: "represents s a \<Longrightarrow> \<exists>s'. step op s = Inr (fst (spec op a), s') \<and> represents s' (snd (spec op a))"
begin

lemma ops_simulate:
  "represents s a \<Longrightarrow> \<exists>s'. run_ops step ops s = Inr (fst (spec_ops spec ops a), s') \<and>
     represents s' (snd (spec_ops spec ops a))"
proof (induction ops arbitrary: s a)
  case (Cons op ops)
  obtain s' where s: "step op s = Inr (fst (spec op a), s')" "represents s' (snd (spec op a))"
    using step_simulates [OF Cons.prems] by blast
  with Cons.IH [OF s(2)] show ?case by (auto simp: case_prod_unfold Let_def)
qed simp

end

end
