(* ===== verification/Hash_Table.thy ===== *)
theory Hash_Table
  imports CBC_Prelude
begin

text \<open>
  \<^verbatim>\<open>util/hash.h\<close> and \<^verbatim>\<open>util/hash.c\<close>: the hash tables that hold the names of a parse. A bucket
  is the list of its nodes; a node has the address it was allocated at, since two functions
  look for a node by its address. Objects are pointers and may be null (\<open>None\<close>).
\<close>

section \<open>Hash sums\<close>

type_synonym HashSum = u_64

text \<open>A plain \<open>char\<close> is signed or not, depending on the compiler.\<close>

definition char_sum :: "bool \<Rightarrow> char \<Rightarrow> HashSum" where
  "char_sum unsigned_chars c =
     (if unsigned_chars \<or> of_char c < (128 :: nat) then of_nat (of_char c) else of_nat (of_char c) - 256)"

definition hash_step :: "bool \<Rightarrow> HashSum \<Rightarrow> char \<Rightarrow> HashSum" where
  "hash_step uc h c =
     (let h1 = h + char_sum uc c; h2 = h1 + push_bit 10 h1 in xor h2 (drop_bit 6 h2))"

definition hash_finish :: "HashSum \<Rightarrow> HashSum" where
  "hash_finish h =
     (let h1 = h + push_bit 3 h; h2 = xor h1 (drop_bit 11 h1) in h2 + push_bit 15 h2)"

definition HASH_DATA :: "bool \<Rightarrow> nat \<Rightarrow> string \<Rightarrow> HashSum" where
  "HASH_DATA uc len data = hash_finish (foldl (hash_step uc) 0 (take len data))"

fun str_loop :: "bool \<Rightarrow> HashSum \<Rightarrow> nat \<Rightarrow> string \<Rightarrow> HashSum \<times> nat" where
  "str_loop uc h len [] = (h, len)"
| "str_loop uc h len (c # s) = (if c = NUL then (h, len) else str_loop uc (hash_step uc h c) (len + 1) s)"

definition HASH_STR_LEN :: "bool \<Rightarrow> string \<Rightarrow> HashSum \<times> nat" where
  "HASH_STR_LEN uc str = (let (h, len) = str_loop uc 0 0 str in (hash_finish h, len))"

definition HASH_STRING :: "bool \<Rightarrow> string \<Rightarrow> HashSum" where
  "HASH_STRING uc str = fst (HASH_STR_LEN uc str)"

section \<open>Nodes and tables\<close>

record 'v HashNode =
  hn_addr :: nat
  hn_obj :: "'v option"
  hn_hash :: HashSum
  hn_key :: string

record 'v HashTable =
  ht_count :: nat
  ht_size :: nat
  ht_flags :: u_64
  ht_bmask :: u_64
  ht_root :: "'v HashNode list list"

abbreviation MAX_HASH_TABLE_SIZE :: nat where "MAX_HASH_TABLE_SIZE \<equiv> 16"
abbreviation HT_AUTOGROW :: u_64 where "HT_AUTOGROW \<equiv> 1"
abbreviation HT_AUTOSHRINK :: u_64 where "HT_AUTOSHRINK \<equiv> 2"
abbreviation AUTOSIZE_DYADES :: nat where "AUTOSIZE_DYADES \<equiv> 3"

text \<open>Comparing an entry: by hash sum, by key length, by the bytes of the key.\<close>

definition CMPHASH :: "HashSum \<Rightarrow> HashSum \<Rightarrow> int" where
  "CMPHASH a b = (if a = b then 0 else if a < b then -1 else 1)"

fun memcmp :: "string \<Rightarrow> string \<Rightarrow> int" where
  "memcmp (a # as) (b # bs) = (if a = b then memcmp as bs else int (of_char a) - int (of_char b))"
| "memcmp _ _ = 0"

definition entry_cmp :: "HashSum \<Rightarrow> string \<Rightarrow> 'v HashNode \<Rightarrow> int" where
  "entry_cmp hash key n =
     (if CMPHASH hash (hn_hash n) \<noteq> 0 then CMPHASH hash (hn_hash n)
      else if length key \<noteq> length (hn_key n) then int (length key) - int (length (hn_key n))
      else memcmp key (hn_key n))"

definition bucket_of :: "HashSum \<Rightarrow> u_64 \<Rightarrow> nat" where
  "bucket_of hash bmask = unat (hash AND bmask)"

section \<open>Resizing\<close>

text \<open>
  Growing moves the nodes with one of the new bits set to the end of their new bucket;
  the other nodes stay.
\<close>

fun grow_bucket ::
  "u_64 \<Rightarrow> u_64 \<Rightarrow> 'v HashNode list \<Rightarrow> 'v HashNode list list \<Rightarrow> 'v HashNode list \<times> 'v HashNode list list" where
  "grow_bucket msk bmask [] root = ([], root)"
| "grow_bucket msk bmask (n # ns) root =
     (if has_flag (hn_hash n) msk then
        (let i = bucket_of (hn_hash n) bmask in grow_bucket msk bmask ns (root[i := root ! i @ [n]]))
      else (let (stay, root') = grow_bucket msk bmask ns root in (n # stay, root')))"

definition grow_step :: "u_64 \<Rightarrow> u_64 \<Rightarrow> 'v HashNode list list \<Rightarrow> nat \<Rightarrow> 'v HashNode list list" where
  "grow_step msk bmask root b =
     (let (stay, root') = grow_bucket msk bmask (root ! b) root in root'[b := stay])"

definition size_mask :: "nat \<Rightarrow> u_64" where
  "size_mask sz = of_nat (2 ^ sz - 1)"

definition grow_mask :: "nat \<Rightarrow> nat \<Rightarrow> u_64" where
  "grow_mask old_size sz = push_bit old_size (size_mask (sz - old_size))"

definition ht_grow :: "'v HashTable \<Rightarrow> nat \<Rightarrow> 'v HashTable" where
  "ht_grow table sz =
     (let old_size = ht_size table;
          bmask = size_mask sz;
          root = ht_root table @ replicate (2 ^ sz - 2 ^ old_size) [];
          msk = grow_mask old_size sz
      in table\<lparr>ht_size := sz, ht_bmask := bmask,
               ht_root := foldl (grow_step msk bmask) root [0..<2 ^ old_size]\<rparr>)"

text \<open>Shrinking inserts the nodes of the buckets that go at their place in the others.\<close>

fun insert_sorted :: "'v HashNode \<Rightarrow> 'v HashNode list \<Rightarrow> 'v HashNode list" where
  "insert_sorted n [] = [n]"
| "insert_sorted n (m # ms) =
     (if entry_cmp (hn_hash n) (hn_key n) m < 0 then n # m # ms else m # insert_sorted n ms)"

definition shrink_node :: "u_64 \<Rightarrow> 'v HashNode list list \<Rightarrow> 'v HashNode \<Rightarrow> 'v HashNode list list" where
  "shrink_node bmask root n =
     (let i = bucket_of (hn_hash n) bmask in root[i := insert_sorted n (root ! i)])"

definition ht_shrink :: "'v HashTable \<Rightarrow> nat \<Rightarrow> 'v HashTable" where
  "ht_shrink table sz =
     (let bmask = size_mask sz;
          root = foldl (\<lambda>root b. foldl (shrink_node bmask) root (root ! b)) (ht_root table)
                   [2 ^ sz..<2 ^ ht_size table]
      in table\<lparr>ht_size := sz, ht_bmask := bmask, ht_root := take (2 ^ sz) root\<rparr>)"

definition CHECK_AUTOGROW :: "'v HashTable \<Rightarrow> 'v HashTable" where
  "CHECK_AUTOGROW table =
     (if has_flag (ht_flags table) HT_AUTOGROW \<and> ht_size table < MAX_HASH_TABLE_SIZE
         \<and> ht_count table div 2 ^ (ht_size table + AUTOSIZE_DYADES) > 0
      then ht_grow table (ht_size table + 1) else table)"

text \<open>The count is shifted by a negative number when the size is 2.\<close>

definition CHECK_AUTOSHRINK :: "'v HashTable \<Rightarrow> 'v HashTable run" where
  "CHECK_AUTOSHRINK table =
     (if has_flag (ht_flags table) HT_AUTOSHRINK \<and> ht_size table > 1 then
        if ht_size table < AUTOSIZE_DYADES then Inl Undefined_behaviour
        else if ht_count table div 2 ^ (ht_size table - AUTOSIZE_DYADES) = 0
        then Inr (ht_shrink table (ht_size table - 1)) else Inr table
      else Inr table)"

section \<open>Operations on whole tables\<close>

definition HT_new_ex :: "int \<Rightarrow> u_64 \<Rightarrow> 'v HashTable run" where
  "HT_new_ex sz flags =
     (if sz > 0 \<and> sz \<le> int MAX_HASH_TABLE_SIZE then
        Inr \<lparr>ht_count = 0, ht_size = nat sz, ht_flags = flags, ht_bmask = size_mask (nat sz),
             ht_root = replicate (2 ^ nat sz) []\<rparr>
      else Inl Assertion_failed)"

definition HT_delete :: "'v HashTable option \<Rightarrow> unit run" where
  "HT_delete table = (case table of None \<Rightarrow> Inr ()
     | Some t \<Rightarrow> check Assertion_failed (ht_count t = 0))"

text \<open>Flushing reports the objects it calls the destructor on, in order.\<close>

definition HT_flush :: "'v HashTable option \<Rightarrow> 'v HashTable option \<times> 'v option list" where
  "HT_flush table = (case table of None \<Rightarrow> (None, [])
     | Some t \<Rightarrow> if ht_count t = 0 then (Some t, [])
         else (Some (t\<lparr>ht_root := map (\<lambda>_. []) (ht_root t), ht_count := 0\<rparr>),
               map hn_obj (concat (ht_root t))))"

definition HT_destroy :: "'v HashTable option \<Rightarrow> 'v option list" where
  "HT_destroy table = (case table of None \<Rightarrow> [] | Some t \<Rightarrow> snd (HT_flush (Some t)))"

text \<open>Cloning allocates its nodes one after the other from address \<open>a\<close> on.\<close>

fun clone_nodes :: "('v option \<Rightarrow> 'v option) option \<Rightarrow> nat \<Rightarrow> 'v HashNode list \<Rightarrow> 'v HashNode list" where
  "clone_nodes func a [] = []"
| "clone_nodes func a (n # ns) =
     n\<lparr>hn_addr := a, hn_obj := (case func of Some f \<Rightarrow> f (hn_obj n) | None \<Rightarrow> hn_obj n)\<rparr>
       # clone_nodes func (a + 1) ns"

fun clone_buckets ::
  "('v option \<Rightarrow> 'v option) option \<Rightarrow> nat \<Rightarrow> 'v HashNode list list \<Rightarrow> 'v HashNode list list" where
  "clone_buckets func a [] = []"
| "clone_buckets func a (ns # root) = clone_nodes func a ns # clone_buckets func (a + length ns) root"

definition HT_clone ::
  "'v HashTable option \<Rightarrow> ('v option \<Rightarrow> 'v option) option \<Rightarrow> nat \<Rightarrow> 'v HashTable option run" where
  "HT_clone table func a = (case table of None \<Rightarrow> Inr None
     | Some t \<Rightarrow> and_then (HT_new_ex (int (ht_size t)) (ht_flags t)) (\<lambda>clone.
         Inr (Some (if ht_count t > 0
           then clone\<lparr>ht_root := clone_buckets func a (ht_root t), ht_count := ht_count t\<rparr>
           else clone))))"

definition HT_resize :: "'v HashTable option \<Rightarrow> int \<Rightarrow> (bool \<times> 'v HashTable option) run" where
  "HT_resize table sz =
     (if sz > 0 \<and> sz \<le> int MAX_HASH_TABLE_SIZE then
        (case table of None \<Rightarrow> Inr (False, None)
         | Some t \<Rightarrow>
             if nat sz = ht_size t then Inr (False, Some t)
             else if nat sz > ht_size t then Inr (True, Some (ht_grow t (nat sz)))
             else Inr (True, Some (ht_shrink t (nat sz))))
      else Inl Assertion_failed)"

definition HT_size :: "'v HashTable option \<Rightarrow> int" where
  "HT_size table = (case table of None \<Rightarrow> -1 | Some t \<Rightarrow> int (ht_size t))"

definition HT_count :: "'v HashTable option \<Rightarrow> int" where
  "HT_count table = (case table of None \<Rightarrow> -1 | Some t \<Rightarrow> int (ht_count t))"

section \<open>Operations on entries\<close>

text \<open>
  The arguments of a lookup: without a hash sum it is computed, without a length too, over
  a terminated string. The result is the key and its hash sum.
\<close>

definition key_and_hash :: "bool \<Rightarrow> string \<Rightarrow> nat \<Rightarrow> HashSum \<Rightarrow> string \<times> HashSum" where
  "key_and_hash uc key keylen hash =
     (if hash = 0 then
        if keylen \<noteq> 0 then (take keylen key, HASH_DATA uc keylen key)
        else (let (h, len) = HASH_STR_LEN uc key in (take len key, h))
      else (take keylen key, hash))"

definition HN_new :: "bool \<Rightarrow> nat \<Rightarrow> string \<Rightarrow> nat \<Rightarrow> HashSum \<Rightarrow> 'v HashNode" where
  "HN_new uc a key keylen hash = (let (k, h) = key_and_hash uc key keylen hash
     in \<lparr>hn_addr = a, hn_obj = None, hn_hash = h, hn_key = k\<rparr>)"

definition HN_delete :: "'v HashNode option \<Rightarrow> unit run" where
  "HN_delete node = (case node of None \<Rightarrow> Inr ()
     | Some n \<Rightarrow> check Assertion_failed (hn_obj n = None))"

text \<open>The walk down a bucket; \<open>None\<close> when the entry is already there.\<close>

fun insert_entry :: "'v HashNode \<Rightarrow> 'v HashNode list \<Rightarrow> 'v HashNode list option" where
  "insert_entry n [] = Some [n]"
| "insert_entry n (m # ms) =
     (let cmp = entry_cmp (hn_hash n) (hn_key n) m in
      if cmp = 0 then None else if cmp < 0 then Some (n # m # ms)
      else map_option ((#) m) (insert_entry n ms))"

definition put_node :: "'v HashTable \<Rightarrow> 'v HashNode \<Rightarrow> nat \<times> 'v HashTable" where
  "put_node table n =
     (let i = bucket_of (hn_hash n) (ht_bmask table) in
      case insert_entry n (ht_root table ! i) of
        None \<Rightarrow> (0, table)
      | Some ns \<Rightarrow> (ht_count table + 1,
          table\<lparr>ht_root := (ht_root table)[i := ns], ht_count := ht_count table + 1\<rparr>))"

definition HT_storenode :: "'v HashTable \<Rightarrow> 'v HashNode \<Rightarrow> 'v option \<Rightarrow> nat \<times> 'v HashTable" where
  "HT_storenode table node pObj = put_node (CHECK_AUTOGROW table) (node\<lparr>hn_obj := pObj\<rparr>)"

text \<open>Storing a key allocates its node, at address \<open>a\<close>.\<close>

definition HT_store ::
  "bool \<Rightarrow> nat \<Rightarrow> 'v HashTable \<Rightarrow> string \<Rightarrow> nat \<Rightarrow> HashSum \<Rightarrow> 'v option \<Rightarrow> nat \<times> 'v HashTable" where
  "HT_store uc a table key keylen hash pObj =
     (let (k, h) = key_and_hash uc key keylen hash
      in put_node (CHECK_AUTOGROW table) \<lparr>hn_addr = a, hn_obj = pObj, hn_hash = h, hn_key = k\<rparr>)"

fun unlink_node :: "nat \<Rightarrow> 'v HashNode list \<Rightarrow> ('v HashNode \<times> 'v HashNode list) option" where
  "unlink_node a [] = None"
| "unlink_node a (n # ns) =
     (if hn_addr n = a then Some (n, ns)
      else map_option (map_prod id ((#) n)) (unlink_node a ns))"

definition take_node :: "'v HashTable \<Rightarrow> nat \<Rightarrow> ('v HashNode \<times> 'v HashNode list) option
    \<Rightarrow> ('v HashNode option \<times> 'v HashTable) run" where
  "take_node table i found = (case found of None \<Rightarrow> Inr (None, table)
     | Some (n, ns) \<Rightarrow>
         and_then (CHECK_AUTOSHRINK (table\<lparr>ht_root := (ht_root table)[i := ns], ht_count := ht_count table - 1\<rparr>))
           (\<lambda>t. Inr (Some n, t)))"

text \<open>
  Taking a node out by its address: the object and, unless it is freed, the node without
  its object.
\<close>

definition HT_fetchnode ::
  "'v HashTable \<Rightarrow> 'v HashNode \<Rightarrow> ('v option \<times> 'v HashNode \<times> 'v HashTable) run" where
  "HT_fetchnode table node =
     (let i = bucket_of (hn_hash node) (ht_bmask table) in
      and_then (take_node table i (unlink_node (hn_addr node) (ht_root table ! i))) (\<lambda>(r, t).
      Inr (case r of None \<Rightarrow> (None, node, t) | Some n \<Rightarrow> (hn_obj n, n\<lparr>hn_obj := None\<rparr>, t))))"

definition HT_rmnode :: "'v HashTable \<Rightarrow> 'v HashNode \<Rightarrow> ('v option \<times> 'v HashTable) run" where
  "HT_rmnode table node =
     (let i = bucket_of (hn_hash node) (ht_bmask table) in
      and_then (take_node table i (unlink_node (hn_addr node) (ht_root table ! i))) (\<lambda>(r, t).
      Inr (case r of None \<Rightarrow> (None, t) | Some n \<Rightarrow> (hn_obj n, t))))"

fun fetch_entry :: "HashSum \<Rightarrow> string \<Rightarrow> 'v HashNode list \<Rightarrow> ('v HashNode \<times> 'v HashNode list) option" where
  "fetch_entry hash key [] = None"
| "fetch_entry hash key (n # ns) =
     (let cmp = entry_cmp hash key n in
      if cmp = 0 then Some (n, ns) else if cmp < 0 then None
      else map_option (map_prod id ((#) n)) (fetch_entry hash key ns))"

definition HT_fetch ::
  "bool \<Rightarrow> 'v HashTable \<Rightarrow> string \<Rightarrow> nat \<Rightarrow> HashSum \<Rightarrow> ('v option \<times> 'v HashTable) run" where
  "HT_fetch uc table key keylen hash =
     (if ht_count table = 0 then Inr (None, table)
      else let (k, h) = key_and_hash uc key keylen hash; i = bucket_of h (ht_bmask table) in
        and_then (take_node table i (fetch_entry h k (ht_root table ! i))) (\<lambda>(r, t).
        Inr (case r of None \<Rightarrow> (None, t) | Some n \<Rightarrow> (hn_obj n, t))))"

fun find_entry :: "HashSum \<Rightarrow> string \<Rightarrow> 'v HashNode list \<Rightarrow> 'v HashNode option" where
  "find_entry hash key [] = None"
| "find_entry hash key (n # ns) =
     (let cmp = entry_cmp hash key n in
      if cmp = 0 then Some n else if cmp < 0 then None else find_entry hash key ns)"

definition HT_get :: "bool \<Rightarrow> 'v HashTable \<Rightarrow> string \<Rightarrow> nat \<Rightarrow> HashSum \<Rightarrow> 'v option" where
  "HT_get uc table key keylen hash =
     (if ht_count table = 0 then None
      else let (k, h) = key_and_hash uc key keylen hash in
        case find_entry h k (ht_root table ! bucket_of h (ht_bmask table)) of
          None \<Rightarrow> None | Some n \<Rightarrow> hn_obj n)"

definition HT_exists :: "bool \<Rightarrow> 'v HashTable \<Rightarrow> string \<Rightarrow> nat \<Rightarrow> HashSum \<Rightarrow> bool" where
  "HT_exists uc table key keylen hash =
     (if ht_count table = 0 then False
      else let (k, h) = key_and_hash uc key keylen hash in
        find_entry h k (ht_root table ! bucket_of h (ht_bmask table)) \<noteq> None)"

section \<open>Iteration\<close>

text \<open>
  An iterator holds the rest of its bucket and the buckets after it; for a null table it
  stays as it was.
\<close>

record 'v HashIterator =
  hi_node :: "'v HashNode list"
  hi_bucket :: "'v HashNode list list"
  hi_remain :: int

definition HI_init :: "'v HashIterator \<Rightarrow> 'v HashTable option \<Rightarrow> 'v HashIterator" where
  "HI_init it table = (case table of None \<Rightarrow> it
     | Some t \<Rightarrow> \<lparr>hi_node = hd (ht_root t), hi_bucket = tl (ht_root t), hi_remain = 2 ^ ht_size t\<rparr>)"

function hi_advance :: "'v HashIterator \<Rightarrow> 'v HashNode option \<times> 'v HashIterator" where
  "hi_advance it =
     (if hi_remain it > 0 then
        (case hi_node it of
           n # ns \<Rightarrow> (Some n, it\<lparr>hi_node := ns\<rparr>)
         | [] \<Rightarrow> hi_advance
             (if hi_remain it - 1 > 0
              then it\<lparr>hi_remain := hi_remain it - 1, hi_node := hd (hi_bucket it), hi_bucket := tl (hi_bucket it)\<rparr>
              else it\<lparr>hi_remain := hi_remain it - 1, hi_node := [], hi_bucket := []\<rparr>))
      else (None, it))"
  by pat_completeness auto
termination by (relation "measure (\<lambda>it. nat (hi_remain it))") auto

definition HI_next :: "'v HashIterator option
    \<Rightarrow> (string \<times> nat \<times> 'v option) option \<times> 'v HashIterator option" where
  "HI_next it = (case it of None \<Rightarrow> (None, None)
     | Some i \<Rightarrow> (case hi_advance i of (r, i') \<Rightarrow>
         (map_option (\<lambda>n. (hn_key n, length (hn_key n), hn_obj n)) r, Some i')))"

end
