(* ===== verification/Hash_Facts.thy ===== *)
theory Hash_Facts
  imports Hash_Table
begin

text \<open>
  The hash table as a finite map: the order of the entries of a bucket, the table invariant
  and what the walks down a bucket compute under it.
\<close>

section \<open>The order of the entries\<close>

lemma memcmp_eq_0: "length a = length b \<Longrightarrow> memcmp a b = 0 \<longleftrightarrow> a = b"
  by (induction rule: list_induct2) auto

lemma memcmp_neg: "memcmp b a = - memcmp a b"
  by (induction a b rule: memcmp.induct) (auto split: list.splits)

lemma memcmp_trans:
  "length a = length b \<Longrightarrow> length b = length c \<Longrightarrow> memcmp a b < 0 \<Longrightarrow> memcmp b c < 0 \<Longrightarrow> memcmp a c < 0"
proof (induction arbitrary: rule: list_induct3)
  case (Cons x xs y ys z zs)
  consider "x = y" "y = z" | "x = y" "y \<noteq> z" | "x \<noteq> y" "y = z" | "x \<noteq> y" "y \<noteq> z" by blast
  then show ?case
    by cases (use Cons in \<open>auto split: if_splits\<close>)
qed simp

lemma entry_cmp_eq_0: "entry_cmp h k n = 0 \<longleftrightarrow> h = hn_hash n \<and> k = hn_key n"
  by (auto simp: entry_cmp_def CMPHASH_def memcmp_eq_0)

lemma entry_cmp_neg: "entry_cmp (hn_hash b) (hn_key b) a = - entry_cmp (hn_hash a) (hn_key a) b"
  using memcmp_neg [of "hn_key b" "hn_key a"] by (auto simp: entry_cmp_def CMPHASH_def)

definition node_less :: "'v HashNode \<Rightarrow> 'v HashNode \<Rightarrow> bool" where
  "node_less a b \<longleftrightarrow> entry_cmp (hn_hash a) (hn_key a) b < 0"

lemma entry_cmp_trans: "entry_cmp h k a < 0 \<Longrightarrow> node_less a b \<Longrightarrow> entry_cmp h k b < 0"
  using memcmp_trans [of k "hn_key a" "hn_key b"]
  by (auto simp: node_less_def entry_cmp_def CMPHASH_def split: if_splits)

lemma node_less_trans: "node_less a b \<Longrightarrow> node_less b c \<Longrightarrow> node_less a c"
  using entry_cmp_trans [of "hn_hash a" "hn_key a" b c] by (simp add: node_less_def)

definition node_key :: "'v HashNode \<Rightarrow> HashSum \<times> string" where
  "node_key n = (hn_hash n, hn_key n)"

lemma node_less_key: "node_less a b \<Longrightarrow> node_key a \<noteq> node_key b"
  using entry_cmp_eq_0 [of "hn_hash a" "hn_key a" b] by (auto simp: node_less_def node_key_def)

lemma node_order:
  obtains "node_key a = node_key b" | "node_less a b" | "node_less b a"
proof -
  consider "entry_cmp (hn_hash a) (hn_key a) b = 0" | "node_less a b" | "node_less b a"
    using entry_cmp_neg [of b a] unfolding node_less_def by linarith
  then show thesis
    using that by cases (simp_all add: entry_cmp_eq_0 node_key_def)
qed

lemma sorted_keys: "sorted_wrt node_less ns \<Longrightarrow> distinct (map node_key ns)"
  by (induction ns) (auto dest: node_less_key)

lemma above_none:
  assumes "entry_cmp h k n < 0" and "sorted_wrt node_less (n # ns)" and "m \<in> set (n # ns)"
  shows "node_key m \<noteq> (h, k)"
proof -
  have "m = n \<or> node_less n m" using assms(2,3) by auto
  then have "entry_cmp h k m < 0" using assms(1) entry_cmp_trans [of h k n m] by auto
  then show ?thesis using entry_cmp_eq_0 [of h k m] by (auto simp: node_key_def)
qed

section \<open>Walking down a bucket\<close>

lemma find_entry_iff:
  "sorted_wrt node_less ns \<Longrightarrow> find_entry h k ns = Some n \<longleftrightarrow> n \<in> set ns \<and> node_key n = (h, k)"
proof (induction ns)
  case (Cons m ns)
  consider "entry_cmp h k m = 0" | "entry_cmp h k m < 0" | "entry_cmp h k m > 0" by linarith
  then show ?case
  proof cases
    case 1
    then have "node_key m = (h, k)" by (simp add: entry_cmp_eq_0 node_key_def)
    moreover have "node_key n \<noteq> node_key m" if "n \<in> set ns"
      using Cons.prems that node_less_key [of m n] by auto
    ultimately show ?thesis using 1 by auto
  next
    case 2
    with above_none [OF 2 Cons.prems] show ?thesis by auto
  next
    case 3
    then have "node_key m \<noteq> (h, k)" using entry_cmp_eq_0 [of h k m] by (auto simp: node_key_def)
    with 3 Cons show ?thesis by auto
  qed
qed simp

lemma find_entry_None:
  "sorted_wrt node_less ns \<Longrightarrow> find_entry h k ns = None \<longleftrightarrow> (\<forall>n\<in>set ns. node_key n \<noteq> (h, k))"
  using find_entry_iff [of ns h k] by (metis not_None_eq)

lemma insert_sorted_set: "set (insert_sorted n ns) = insert n (set ns)"
  by (induction ns) auto

lemma insert_sorted_length: "length (insert_sorted n ns) = Suc (length ns)"
  by (induction ns) auto

lemma insert_sorted_sorted:
  "sorted_wrt node_less ns \<Longrightarrow> \<forall>m\<in>set ns. node_key m \<noteq> node_key n \<Longrightarrow> sorted_wrt node_less (insert_sorted n ns)"
proof (induction ns)
  case (Cons m ns)
  show ?case
  proof (cases "node_less n m")
    case True
    with Cons.prems show ?thesis
      using node_less_trans [OF True] by (auto simp: node_less_def)
  next
    case False
    then have "node_less m n" using Cons.prems(2) node_order [of n m] by (metis list.set_intros(1))
    with False Cons show ?thesis by (auto simp: node_less_def insert_sorted_set)
  qed
qed simp

lemma insert_entry_eq:
  "sorted_wrt node_less ns \<Longrightarrow>
   insert_entry n ns = (if \<exists>m\<in>set ns. node_key m = node_key n then None else Some (insert_sorted n ns))"
proof (induction ns)
  case (Cons m ns)
  consider "entry_cmp (hn_hash n) (hn_key n) m = 0" | "entry_cmp (hn_hash n) (hn_key n) m < 0"
    | "entry_cmp (hn_hash n) (hn_key n) m > 0" by linarith
  then show ?case
  proof cases
    case 1
    then have "node_key m = node_key n" by (simp add: entry_cmp_eq_0 node_key_def)
    with 1 show ?thesis by auto
  next
    case 2
    with above_none [OF 2 Cons.prems] show ?thesis by (auto simp: node_key_def)
  next
    case 3
    then have "node_key m \<noteq> node_key n"
      using entry_cmp_eq_0 [of "hn_hash n" "hn_key n" m] by (auto simp: node_key_def)
    with 3 Cons show ?thesis by auto
  qed
qed simp

lemma fetch_entry_eq:
  "sorted_wrt node_less ns \<Longrightarrow>
   fetch_entry h k ns = (case find_entry h k ns of None \<Rightarrow> None | Some n \<Rightarrow> Some (n, remove1 n ns))"
proof (induction ns)
  case (Cons m ns)
  have "m \<notin> set ns" using Cons.prems node_less_key [of m m] by auto
  moreover have "n \<in> set ns" if "find_entry h k ns = Some n" for n
    using that Cons.prems find_entry_iff [of ns h k n] by simp
  ultimately show ?case
    using Cons by (auto simp: Let_def split: option.split)
qed simp

lemma unlink_node_Some:
  "unlink_node a ns = Some (n, ms) \<Longrightarrow> n \<in> set ns \<and> hn_addr n = a \<and> ms = remove1 n ns"
proof (induction ns arbitrary: ms)
  case (Cons m ns)
  then show ?case by (auto split: if_splits)
qed simp

lemma unlink_node_None: "unlink_node a ns = None \<longleftrightarrow> (\<forall>n\<in>set ns. hn_addr n \<noteq> a)"
  by (induction ns) auto

section \<open>Buckets and bits\<close>

lemma size_mask_mask: "s < 64 \<Longrightarrow> size_mask s = (Bit_Operations.mask s :: u_64)"
  by (simp add: size_mask_def mask_eq_exp_minus_1 of_nat_diff)

lemma bucket_of_mod: "s < 64 \<Longrightarrow> bucket_of h (size_mask s) = unat h mod 2 ^ s"
  by (simp add: bucket_of_def size_mask_mask unsigned_take_bit_eq flip: take_bit_eq_mask)
    (simp add: take_bit_eq_mod)

lemma bucket_of_less: "s < 64 \<Longrightarrow> bucket_of h (size_mask s) < 2 ^ s"
  by (simp add: bucket_of_mod)

text \<open>The bits a grown table looks at in addition decide whether a node moves.\<close>

lemma grow_mask_iff:
  assumes "s < s'" and "s' < 64"
  shows "has_flag h (grow_mask s s') \<longleftrightarrow> bucket_of h (size_mask s') \<noteq> bucket_of h (size_mask s)"
proof -
  have "grow_mask s s' = push_bit s (Bit_Operations.mask (s' - s))"
    using assms by (simp add: grow_mask_def size_mask_mask)
  moreover have "h AND push_bit s (Bit_Operations.mask (s' - s)) = 0 \<longleftrightarrow> take_bit s' h = take_bit s h"
    using assms by (fastforce simp: bit_eq_iff bit_simps)
  moreover have "bucket_of h (size_mask s') = bucket_of h (size_mask s) \<longleftrightarrow> take_bit s' h = take_bit s h"
    using assms by (simp add: bucket_of_def size_mask_mask word_unat_eq_iff flip: take_bit_eq_mask)
  ultimately show ?thesis by (simp add: has_flag_def)
qed

lemma bucket_of_mod_less:
  "s \<le> s' \<Longrightarrow> s' < 64 \<Longrightarrow> bucket_of h (size_mask s') mod 2 ^ s = bucket_of h (size_mask s)"
  by (simp add: bucket_of_mod mod_mod_cancel le_imp_power_dvd)

end
