(* ===== verification/Hash_Map.thy ===== *)
theory Hash_Map
  imports Hash_Facts
begin

text \<open>
  A hash table is a finite map from pairs of a hash sum and a key to objects: the table
  invariant, the abstraction to a map, and the table operations as operations of the map.
\<close>

section \<open>Well-formed buckets\<close>

definition buckets_ok :: "nat \<Rightarrow> 'v HashNode list list \<Rightarrow> bool" where
  "buckets_ok s root \<longleftrightarrow> length root = 2 ^ s \<and>
     (\<forall>i<2 ^ s. sorted_wrt node_less (root ! i) \<and>
        (\<forall>n\<in>set (root ! i). bucket_of (hn_hash n) (size_mask s) = i))"

definition table_ok :: "'v HashTable \<Rightarrow> bool" where
  "table_ok t \<longleftrightarrow> 0 < ht_size t \<and> ht_size t \<le> MAX_HASH_TABLE_SIZE \<and>
     ht_bmask t = size_mask (ht_size t) \<and> buckets_ok (ht_size t) (ht_root t) \<and>
     ht_count t = length (concat (ht_root t))"

definition nodes :: "'v HashNode list list \<Rightarrow> 'v HashNode set" where
  "nodes root = set (concat root)"

lemma nodes_iff: "n \<in> nodes root \<longleftrightarrow> (\<exists>i<length root. n \<in> set (root ! i))"
  unfolding nodes_def set_concat UN_iff by (metis in_set_conv_nth)

lemma nodes_update: "i < length root \<Longrightarrow>
    nodes (root[i := ns]) = {n. n \<in> set ns \<or> (\<exists>j<length root. j \<noteq> i \<and> n \<in> set (root ! j))}"
  by (auto simp: nodes_iff nth_list_update split: if_splits)

lemma nodes_insert:
  assumes "i < length root" and "set ns = insert n (set (root ! i))"
  shows "nodes (root[i := ns]) = insert n (nodes root)"
proof -
  have "nodes root = nodes (root[i := root ! i])" by simp
  then show ?thesis unfolding nodes_update [OF assms(1)] assms(2) by auto
qed

lemma nodes_remove:
  assumes "i < length root" and "set ns = set (root ! i) - {n}" and "\<And>j. j < length root \<Longrightarrow> j \<noteq> i \<Longrightarrow> n \<notin> set (root ! j)"
  shows "nodes (root[i := ns]) = nodes root - {n}"
proof -
  have "nodes root = nodes (root[i := root ! i])" by simp
  then show ?thesis unfolding nodes_update [OF assms(1)] assms(2) using assms(3) by auto
qed

lemma buckets_sorted: "buckets_ok s root \<Longrightarrow> i < 2 ^ s \<Longrightarrow> sorted_wrt node_less (root ! i)"
  by (simp add: buckets_ok_def)

lemma bucket_nodes:
  assumes "buckets_ok s root" and "i < 2 ^ s"
  shows "set (root ! i) = {n \<in> nodes root. bucket_of (hn_hash n) (size_mask s) = i}"
  using assms by (auto simp: buckets_ok_def nodes_iff)

lemma concat_distinct:
  assumes "\<And>i. i < length xs \<Longrightarrow> distinct (map f (xs ! i)) \<and> (\<forall>n\<in>set (xs ! i). g n = i + a)"
    and "\<And>m n. f m = f n \<Longrightarrow> g m = g n"
  shows "distinct (map f (concat xs))"
  using assms(1)
proof (induction xs arbitrary: a)
  case (Cons x xs)
  have front: "distinct (map f x)" and head: "\<forall>n\<in>set x. g n = a" using Cons.prems [of 0] by auto
  have tails: "i < length xs \<Longrightarrow> distinct (map f (xs ! i)) \<and> (\<forall>n\<in>set (xs ! i). g n = i + Suc a)" for i
    using Cons.prems [of "Suc i"] by auto
  have sep: "f m \<noteq> f n" if m: "m \<in> set x" and n: "n \<in> set (concat xs)" for m n
  proof -
    obtain i where "i < length xs" "n \<in> set (xs ! i)"
      using n unfolding set_concat UN_iff by (metis in_set_conv_nth)
    with tails have "g n = i + Suc a" by blast
    with head m have "g m \<noteq> g n" by simp
    then show ?thesis using assms(2) [of m n] by auto
  qed
  have "f ` set x \<inter> f ` set (concat xs) = {}" using sep by blast
  then show ?case using front Cons.IH [OF tails] by simp
qed simp

lemma buckets_distinct: "buckets_ok s root \<Longrightarrow> distinct (map node_key (concat root))"
  by (rule concat_distinct [where a = 0 and g = "\<lambda>n. bucket_of (hn_hash n) (size_mask s)"])
    (auto simp: buckets_ok_def sorted_keys node_key_def)

lemma buckets_inj: "buckets_ok s root \<Longrightarrow> inj_on node_key (nodes root)"
  using buckets_distinct [of s root] unfolding nodes_def by (metis distinct_map)

lemma buckets_length: "buckets_ok s root \<Longrightarrow> length (concat root) = card (nodes root)"
  using buckets_distinct [of s root] unfolding nodes_def by (metis distinct_card distinct_map)

lemma empty_buckets_ok: "buckets_ok s (replicate (2 ^ s) [])"
  by (simp add: buckets_ok_def)

lemma buckets_find:
  assumes "buckets_ok s root" and "s < 64"
  shows "find_entry h k (root ! bucket_of h (size_mask s)) = Some n \<longleftrightarrow> n \<in> nodes root \<and> node_key n = (h, k)"
  using assms bucket_nodes [OF assms(1) bucket_of_less]
    find_entry_iff [OF buckets_sorted [OF assms(1) bucket_of_less]]
  by (auto simp: node_key_def)

section \<open>The map of a table\<close>

definition table_map :: "'v HashTable \<Rightarrow> HashSum \<times> string \<Rightarrow> 'v option option" where
  "table_map t key = map_option hn_obj
     (find_entry (fst key) (snd key) (ht_root t ! bucket_of (fst key) (ht_bmask t)))"

lemma table_map_Some:
  assumes "table_ok t"
  shows "table_map t key = Some v \<longleftrightarrow> (\<exists>n\<in>nodes (ht_root t). node_key n = key \<and> hn_obj n = v)"
proof -
  have "buckets_ok (ht_size t) (ht_root t)" "ht_bmask t = size_mask (ht_size t)" "ht_size t < 64"
    using assms by (auto simp: table_ok_def)
  then show ?thesis
    using buckets_find [of "ht_size t" "ht_root t" "fst key" "snd key"] by (auto simp: table_map_def)
qed

lemma table_dom: "table_ok t \<Longrightarrow> dom (table_map t) = node_key ` nodes (ht_root t)"
  by (force simp: table_map_Some)

lemma map_eqI: "(\<And>k v. m k = Some v \<longleftrightarrow> m' k = Some v) \<Longrightarrow> m = m'"
  by (rule ext) (metis option.exhaust)

text \<open>The map depends on the nodes only, not on the buckets they are in.\<close>

lemma table_map_cong:
  "table_ok t \<Longrightarrow> table_ok t' \<Longrightarrow> nodes (ht_root t') = nodes (ht_root t) \<Longrightarrow> table_map t' = table_map t"
  by (rule map_eqI) (simp add: table_map_Some)

lemma table_count:
  assumes "table_ok t"
  shows "ht_count t = card (dom (table_map t))"
proof -
  have ok: "buckets_ok (ht_size t) (ht_root t)" using assms by (simp add: table_ok_def)
  show ?thesis
    using assms table_dom [OF assms] card_image [OF buckets_inj [OF ok]] buckets_length [OF ok]
    by (simp add: table_ok_def)
qed

section \<open>Growing\<close>

lemma grow_bucket_eq:
  assumes "\<forall>n\<in>set ns. bucket_of (hn_hash n) bmask < length root"
  shows "fst (grow_bucket msk bmask ns root) = filter (\<lambda>n. \<not> has_flag (hn_hash n) msk) ns \<and>
    length (snd (grow_bucket msk bmask ns root)) = length root \<and>
    (\<forall>i<length root. snd (grow_bucket msk bmask ns root) ! i =
       root ! i @ filter (\<lambda>n. has_flag (hn_hash n) msk \<and> bucket_of (hn_hash n) bmask = i) ns)"
  using assms
proof (induction msk bmask ns root rule: grow_bucket.induct)
  case (2 msk bmask n ns root)
  then show ?case by (auto simp: Let_def nth_list_update split: prod.splits)
qed simp

text \<open>After the first \<open>B\<close> buckets have been looked at:\<close>

definition grown :: "nat \<Rightarrow> nat \<Rightarrow> 'v HashNode list list \<Rightarrow> nat \<Rightarrow> 'v HashNode list list \<Rightarrow> bool" where
  "grown s s' root B root' \<longleftrightarrow> length root' = 2 ^ s' \<and>
     (\<forall>j<2 ^ s'. root' ! j =
        (if j mod 2 ^ s < B then filter (\<lambda>n. bucket_of (hn_hash n) (size_mask s') = j) (root ! (j mod 2 ^ s))
         else if j < 2 ^ s then root ! j else []))"

lemma grown_step:
  assumes "s < s'" and "s' < 64" and "buckets_ok s root" and "B < 2 ^ s" and g: "grown s s' root B root'"
  shows "grown s s' root (Suc B) (grow_step (grow_mask s s') (size_mask s') root' B)"
proof -
  have pow: "(2::nat) ^ s < 2 ^ s'" using assms(1) by simp
  define r where "r = grow_bucket (grow_mask s s') (size_mask s') (root ! B) root'"
  have B: "B < 2 ^ s'" by (rule less_trans [OF assms(4) pow])
  have len: "length root' = 2 ^ s'" and old: "root' ! B = root ! B"
    using g assms(4) B by (simp_all add: grown_def)
  have bucket: "bucket_of (hn_hash n) (size_mask s) = B" if "n \<in> set (root ! B)" for n
    using that assms(3,4) by (simp add: buckets_ok_def)
  have flag: "has_flag (hn_hash n) (grow_mask s s') \<longleftrightarrow> bucket_of (hn_hash n) (size_mask s') \<noteq> B"
    if "n \<in> set (root ! B)" for n
    using grow_mask_iff [OF assms(1,2)] bucket [OF that] by simp
  have home: "bucket_of (hn_hash n) (size_mask s') mod 2 ^ s = B" if "n \<in> set (root ! B)" for n
    using bucket_of_mod_less [of s s'] assms(1,2) bucket [OF that] by simp
  have "\<forall>n\<in>set (root ! B). bucket_of (hn_hash n) (size_mask s') < length root'"
    using bucket_of_less [OF assms(2)] len by simp
  from grow_bucket_eq [OF this, of "grow_mask s s'"] have r:
    "fst r = filter (\<lambda>n. bucket_of (hn_hash n) (size_mask s') = B) (root ! B)" "length (snd r) = 2 ^ s'"
    "\<And>i. i < 2 ^ s' \<Longrightarrow> snd r ! i = root' ! i @
       filter (\<lambda>n. bucket_of (hn_hash n) (size_mask s') \<noteq> B \<and> bucket_of (hn_hash n) (size_mask s') = i) (root ! B)"
    using flag len by (auto simp: r_def cong: filter_cong)
  have step: "grow_step (grow_mask s s') (size_mask s') root' B = (snd r)[B := fst r]"
    by (simp add: grow_step_def old r_def case_prod_unfold Let_def)
  have "(snd r)[B := fst r] ! j =
     (if j mod 2 ^ s < Suc B then filter (\<lambda>n. bucket_of (hn_hash n) (size_mask s') = j) (root ! (j mod 2 ^ s))
      else if j < 2 ^ s then root ! j else [])" if j: "j < 2 ^ s'" for j
  proof -
    consider "j = B" | "j \<noteq> B" "j mod 2 ^ s = B" | "j mod 2 ^ s \<noteq> B" by blast
    then show ?thesis
    proof cases
      case 1
      then show ?thesis using r j assms(4) by simp
    next
      case 2
      then have "\<not> j < 2 ^ s" by auto
      then have "root' ! j = []" using g j 2 by (simp add: grown_def)
      then show ?thesis using r j 2 by (auto intro: filter_cong)
    next
      case 3
      then have "filter (\<lambda>n. bucket_of (hn_hash n) (size_mask s') \<noteq> B \<and> bucket_of (hn_hash n) (size_mask s') = j) (root ! B) = []"
        using home by (auto simp: filter_empty_conv)
      moreover have "j \<noteq> B" using 3 assms(4) by auto
      ultimately show ?thesis using r j 3 g by (auto simp: grown_def less_Suc_eq)
    qed
  qed
  then show ?thesis using r(2) by (simp add: grown_def step)
qed

lemma grown_all:
  assumes "s < s'" and "s' < 64" and "buckets_ok s root" and "B \<le> 2 ^ s"
  shows "grown s s' root B (foldl (grow_step (grow_mask s s') (size_mask s'))
           (root @ replicate (2 ^ s' - 2 ^ s) []) [0..<B])"
  using assms(4)
proof (induction B)
  case 0
  have "(2::nat) ^ s < 2 ^ s'" using assms(1) by simp
  with assms(3) show ?case by (auto simp: grown_def buckets_ok_def nth_append)
next
  case (Suc B)
  then show ?case using grown_step [OF assms(1-3)] by simp
qed

lemma grown_ok:
  assumes "s < s'" and "s' < 64" and "buckets_ok s root" and g: "grown s s' root (2 ^ s) root'"
  shows "buckets_ok s' root' \<and> nodes root' = nodes root"
proof
  have nth: "root' ! j = filter (\<lambda>n. bucket_of (hn_hash n) (size_mask s') = j) (root ! (j mod 2 ^ s))"
    if "j < 2 ^ s'" for j
    using g that by (simp add: grown_def)
  have len: "length root' = 2 ^ s'" "length root = 2 ^ s" using g assms(3) by (auto simp: grown_def buckets_ok_def)
  show "buckets_ok s' root'"
    using assms(3) by (auto simp: buckets_ok_def len nth intro: sorted_wrt_filter)
  show "nodes root' = nodes root"
  proof (intro set_eqI iffI)
    fix n assume "n \<in> nodes root'"
    then obtain j where "j < 2 ^ s'" "n \<in> set (root ! (j mod 2 ^ s))" by (auto simp: nodes_iff len nth)
    then show "n \<in> nodes root" using len by (auto simp: nodes_iff intro!: exI [of _ "j mod 2 ^ s"])
  next
    fix n assume n: "n \<in> nodes root"
    define j where "j = bucket_of (hn_hash n) (size_mask s')"
    have j: "j < 2 ^ s'" using bucket_of_less [OF assms(2)] by (simp add: j_def)
    have "n \<in> set (root ! bucket_of (hn_hash n) (size_mask s))"
      using bucket_nodes [OF assms(3) bucket_of_less, of "hn_hash n"] n assms(1,2) by simp
    moreover have "bucket_of (hn_hash n) (size_mask s) = j mod 2 ^ s"
      using bucket_of_mod_less [of s s'] assms(1,2) by (simp add: j_def)
    ultimately have "n \<in> set (root' ! j)" using nth [OF j] by (simp add: j_def)
    then show "n \<in> nodes root'" using j len by (auto simp: nodes_iff)
  qed
qed

lemma ht_grow_ok:
  assumes "table_ok t" and "ht_size t < s" and "s \<le> MAX_HASH_TABLE_SIZE"
  shows "table_ok (ht_grow t s)" and "table_map (ht_grow t s) = table_map t"
proof -
  have ok: "buckets_ok (ht_size t) (ht_root t)" using assms(1) by (simp add: table_ok_def)
  have "buckets_ok s (ht_root (ht_grow t s)) \<and> nodes (ht_root (ht_grow t s)) = nodes (ht_root t)"
    using grown_ok [OF assms(2) _ ok] grown_all [OF assms(2) _ ok order_refl] assms(3)
    by (simp add: ht_grow_def Let_def)
  moreover from this have "length (concat (ht_root (ht_grow t s))) = length (concat (ht_root t))"
    using buckets_length ok by metis
  ultimately show grow: "table_ok (ht_grow t s)"
    using assms by (simp add: table_ok_def ht_grow_def Let_def)
  show "table_map (ht_grow t s) = table_map t"
    using table_map_cong [OF assms(1) grow] \<open>_ \<and> nodes _ = _\<close> by simp
qed

section \<open>Shrinking\<close>

definition spread :: "u_64 \<Rightarrow> 'v HashNode list list \<Rightarrow> 'v HashNode list \<Rightarrow> 'v HashNode list list" where
  "spread bmask = foldl (shrink_node bmask)"

lemma spread_simps [simp]:
  "spread bmask root [] = root"
  "spread bmask root (n # ns) = spread bmask (shrink_node bmask root n) ns"
  "spread bmask root (ns @ ms) = spread bmask (spread bmask root ns) ms"
  by (simp_all add: spread_def)

lemma shrink_node_length [simp]: "length (shrink_node bmask root n) = length root"
  by (simp add: shrink_node_def Let_def)

lemma spread_length [simp]: "length (spread bmask root ns) = length root"
  by (induction ns arbitrary: root) auto

lemma spread_above:
  assumes "s < 64" and "2 ^ s \<le> b"
  shows "spread (size_mask s) root ns ! b = root ! b"
proof (induction ns arbitrary: root)
  case (Cons n ns)
  have "bucket_of (hn_hash n) (size_mask s) \<noteq> b" using bucket_of_less [OF assms(1), of "hn_hash n"] assms(2) by linarith
  with Cons show ?case by (simp add: shrink_node_def Let_def)
qed simp

text \<open>The buckets that go are not changed while their nodes are moved.\<close>

lemma shrink_spread:
  assumes "s < 64" and "2 ^ s \<le> a"
  shows "foldl (\<lambda>root b. foldl (shrink_node (size_mask s)) root (root ! b)) root [a..<b] =
    spread (size_mask s) root (concat (map ((!) root) [a..<b]))"
proof (induction b)
  case (Suc b)
  then show ?case
    using spread_above [of s b root] assms by (cases "a \<le> b") (simp_all add: spread_def)
qed simp

lemma spread_ok:
  assumes "s < 64" and "s \<le> s'" and "length root = 2 ^ s'"
    and "\<And>i. i < 2 ^ s \<Longrightarrow> sorted_wrt node_less (root ! i) \<and> (\<forall>n\<in>set (root ! i). bucket_of (hn_hash n) (size_mask s) = i)"
    and "distinct (map node_key ns)" and "\<forall>n\<in>set ns. \<forall>i<2 ^ s. \<forall>m\<in>set (root ! i). node_key m \<noteq> node_key n"
  shows "buckets_ok s (take (2 ^ s) (spread (size_mask s) root ns)) \<and>
    nodes (take (2 ^ s) (spread (size_mask s) root ns)) = nodes (take (2 ^ s) root) \<union> set ns"
  using assms(3-)
proof (induction ns arbitrary: root)
  case Nil
  then have "(2::nat) ^ s \<le> length root" using assms(2) by simp
  then show ?case using Nil.prems(2) by (simp add: buckets_ok_def)
next
  case (Cons n ns)
  define i where "i = bucket_of (hn_hash n) (size_mask s)"
  have i: "i < 2 ^ s" using bucket_of_less [OF assms(1)] by (simp add: i_def)
  have le: "(2::nat) ^ s \<le> length root" using assms(2) Cons.prems(1) by simp
  have eq: "shrink_node (size_mask s) root n = root[i := insert_sorted n (root ! i)]"
    by (simp add: shrink_node_def i_def Let_def)
  have new: "root[i := insert_sorted n (root ! i)] ! j = (if j = i then insert_sorted n (root ! i) else root ! j)"
    for j using i le by (simp add: nth_list_update)
  have sorted: "sorted_wrt node_less (insert_sorted n (root ! i))"
    using insert_sorted_sorted [of "root ! i" n] Cons.prems(2) [OF i] Cons.prems(4) i by auto
  have "nodes (take (2 ^ s) (root[i := insert_sorted n (root ! i)])) = insert n (nodes (take (2 ^ s) root))"
    using nodes_insert [of i "take (2 ^ s) root" "insert_sorted n (root ! i)" n] i le
    by (simp add: take_update_swap insert_sorted_set)
  moreover have "buckets_ok s (take (2 ^ s) (spread (size_mask s) (root[i := insert_sorted n (root ! i)]) ns)) \<and>
    nodes (take (2 ^ s) (spread (size_mask s) (root[i := insert_sorted n (root ! i)]) ns)) =
    nodes (take (2 ^ s) (root[i := insert_sorted n (root ! i)])) \<union> set ns"
  proof (rule Cons.IH)
    fix j :: nat assume "j < 2 ^ s"
    then show "sorted_wrt node_less (root[i := insert_sorted n (root ! i)] ! j) \<and>
      (\<forall>m\<in>set (root[i := insert_sorted n (root ! i)] ! j). bucket_of (hn_hash m) (size_mask s) = j)"
      using Cons.prems(2) sorted by (auto simp: new insert_sorted_set simp flip: i_def)
  next
    show "\<forall>m\<in>set ns. \<forall>j<2 ^ s. \<forall>k\<in>set (root[i := insert_sorted n (root ! i)] ! j). node_key k \<noteq> node_key m"
      using Cons.prems(3,4) by (auto simp: new insert_sorted_set image_iff split: if_splits)
  qed (use Cons.prems in auto)
  ultimately show ?case by (simp add: eq)
qed

lemma ht_shrink_ok:
  assumes t: "table_ok t" and s: "0 < s" "s < ht_size t"
  shows "table_ok (ht_shrink t s)" and "table_map (ht_shrink t s) = table_map t"
proof -
  define root where "root = ht_root t"
  have ok: "buckets_ok (ht_size t) root" and s64: "s < 64" "ht_size t < 64" and len: "length root = 2 ^ ht_size t"
    using t s by (auto simp: table_ok_def buckets_ok_def root_def)
  have pow: "(2::nat) ^ s < 2 ^ ht_size t" using s(2) by simp
  have drop: "map ((!) root) [2 ^ s..<2 ^ ht_size t] = drop (2 ^ s) root"
    using s(2) by (intro nth_equalityI) (simp_all add: len)
  have split: "concat root = concat (take (2 ^ s) root) @ concat (drop (2 ^ s) root)"
    by (simp flip: concat_append)
  have low: "root ! i = take (2 ^ s) root ! i" if "i < 2 ^ s" for i using that by simp
  have bucket: "bucket_of (hn_hash n) (size_mask s) = i" if "i < 2 ^ s" "n \<in> set (root ! i)" for i n
  proof -
    have "i < 2 ^ ht_size t" by (rule less_trans [OF that(1) pow])
    then have "bucket_of (hn_hash n) (size_mask (ht_size t)) = i" using that(2) ok by (simp add: buckets_ok_def)
    then show ?thesis using bucket_of_mod_less [of s "ht_size t" "hn_hash n"] s s64 that(1) by simp
  qed
  have "buckets_ok s (take (2 ^ s) (spread (size_mask s) root (concat (drop (2 ^ s) root)))) \<and>
    nodes (take (2 ^ s) (spread (size_mask s) root (concat (drop (2 ^ s) root)))) =
    nodes (take (2 ^ s) root) \<union> set (concat (drop (2 ^ s) root))"
  proof (rule spread_ok [OF s64(1) less_imp_le [OF s(2)] len])
    fix i :: nat assume i: "i < 2 ^ s"
    have "i < 2 ^ ht_size t" by (rule less_trans [OF i pow])
    then show "sorted_wrt node_less (root ! i) \<and> (\<forall>n\<in>set (root ! i). bucket_of (hn_hash n) (size_mask s) = i)"
      using ok bucket [OF i] by (auto simp: buckets_ok_def)
  next
    show "distinct (map node_key (concat (drop (2 ^ s) root)))"
      using buckets_distinct [OF ok] split by simp
  next
    have "\<forall>m\<in>set (concat (take (2 ^ s) root)). \<forall>n\<in>set (concat (drop (2 ^ s) root)). node_key m \<noteq> node_key n"
      using buckets_distinct [OF ok] unfolding split map_append distinct_append by auto
    moreover have "m \<in> set (concat (take (2 ^ s) root))" if "i < 2 ^ s" "m \<in> set (root ! i)" for i m
    proof -
      have "root ! i \<in> set (take (2 ^ s) root)"
        using that(1) len s(2) unfolding in_set_conv_nth by (intro exI [of _ i]) simp
      with that(2) show ?thesis by auto
    qed
    ultimately show "\<forall>n\<in>set (concat (drop (2 ^ s) root)). \<forall>i<2 ^ s. \<forall>m\<in>set (root ! i). node_key m \<noteq> node_key n"
      by blast
  qed
  moreover have "ht_root (ht_shrink t s) = take (2 ^ s) (spread (size_mask s) root (concat (drop (2 ^ s) root)))"
    using shrink_spread [OF s64(1) order_refl, of root "2 ^ ht_size t"] drop
    by (simp add: ht_shrink_def Let_def root_def)
  moreover have "nodes root = nodes (take (2 ^ s) root) \<union> set (concat (drop (2 ^ s) root))"
    unfolding nodes_def by (subst split) simp
  ultimately have *: "buckets_ok s (ht_root (ht_shrink t s))" "nodes (ht_root (ht_shrink t s)) = nodes root"
    by simp_all
  then have "length (concat (ht_root (ht_shrink t s))) = length (concat root)"
    using buckets_length ok by metis
  then show shrink: "table_ok (ht_shrink t s)"
    using t s * by (simp add: table_ok_def ht_shrink_def Let_def root_def)
  show "table_map (ht_shrink t s) = table_map t"
    using table_map_cong [OF t shrink] *(2) by (simp add: root_def)
qed

lemma CHECK_AUTOGROW_ok:
  "table_ok t \<Longrightarrow> table_ok (CHECK_AUTOGROW t) \<and> table_map (CHECK_AUTOGROW t) = table_map t"
  using ht_grow_ok [of t "ht_size t + 1"] by (auto simp: CHECK_AUTOGROW_def)

lemma CHECK_AUTOSHRINK_ok:
  assumes "table_ok t"
  shows "CHECK_AUTOSHRINK t = Inl Undefined_behaviour \<and> has_flag (ht_flags t) HT_AUTOSHRINK \<and> ht_size t = 2 \<or>
    (\<exists>t'. CHECK_AUTOSHRINK t = Inr t' \<and> table_ok t' \<and> table_map t' = table_map t \<and> ht_flags t' = ht_flags t \<and>
          \<not> (has_flag (ht_flags t) HT_AUTOSHRINK \<and> ht_size t = 2))"
proof -
  consider "\<not> has_flag (ht_flags t) HT_AUTOSHRINK" | "ht_size t \<le> 1" | "has_flag (ht_flags t) HT_AUTOSHRINK" "ht_size t = 2"
    | "ht_size t > 2" by linarith
  then show ?thesis
    by cases (use assms ht_shrink_ok [of t "ht_size t - 1"] in \<open>auto simp: CHECK_AUTOSHRINK_def ht_shrink_def Let_def\<close>)
qed

end
