(* ===== verification/Hash_Ops.thy ===== *)
theory Hash_Ops
  imports Hash_Map
begin

text \<open>
  The operations of the hash table as operations of its map: storing, looking up, taking
  out, resizing, cloning and flushing; the interface \<open>dictionary\<close> they provide; iteration.
\<close>

section \<open>Entries\<close>

lemma buckets_insert:
  assumes ok: "buckets_ok s root" and s: "s < 64" and fresh: "\<forall>m\<in>nodes root. node_key m \<noteq> node_key n"
  defines "i \<equiv> bucket_of (hn_hash n) (size_mask s)"
  shows "buckets_ok s (root[i := insert_sorted n (root ! i)])"
    and "nodes (root[i := insert_sorted n (root ! i)]) = insert n (nodes root)"
proof -
  have i: "i < 2 ^ s" "i < length root" using bucket_of_less [OF s] ok by (auto simp: i_def buckets_ok_def)
  have "\<forall>m\<in>set (root ! i). node_key m \<noteq> node_key n" using fresh i by (auto simp: nodes_iff)
  then have "sorted_wrt node_less (insert_sorted n (root ! i))"
    using insert_sorted_sorted [of "root ! i" n] ok i by (auto simp: buckets_ok_def)
  then show "buckets_ok s (root[i := insert_sorted n (root ! i)])"
    using ok i by (auto simp: buckets_ok_def nth_list_update insert_sorted_set i_def [symmetric])
  show "nodes (root[i := insert_sorted n (root ! i)]) = insert n (nodes root)"
    using nodes_insert [OF i(2) insert_sorted_set] .
qed

lemma buckets_remove:
  assumes ok: "buckets_ok s root" and i: "i < 2 ^ s" and n: "n \<in> set (root ! i)"
  shows "buckets_ok s (root[i := remove1 n (root ! i)])"
    and "nodes (root[i := remove1 n (root ! i)]) = nodes root - {n}"
proof -
  have len: "length root = 2 ^ s" and sorted: "sorted_wrt node_less (root ! i)" using ok i by (auto simp: buckets_ok_def)
  have "distinct (root ! i)" using sorted_keys [OF sorted] by (simp add: distinct_map)
  then have set: "set (remove1 n (root ! i)) = set (root ! i) - {n}" by simp
  have "sorted_wrt node_less (remove1 n (root ! i))"
    using sorted \<open>distinct _\<close> by (simp add: distinct_remove1_removeAll removeAll_filter_not_eq sorted_wrt_filter)
  then show "buckets_ok s (root[i := remove1 n (root ! i)])"
    using ok i len set by (auto simp: buckets_ok_def nth_list_update)
  have "n \<notin> set (root ! j)" if "j < length root" "j \<noteq> i" for j
  proof
    assume "n \<in> set (root ! j)"
    then have "bucket_of (hn_hash n) (size_mask s) = j" using ok that len by (simp add: buckets_ok_def)
    moreover have "bucket_of (hn_hash n) (size_mask s) = i" using ok i n by (simp add: buckets_ok_def)
    ultimately show False using that by simp
  qed
  then show "nodes (root[i := remove1 n (root ! i)]) = nodes root - {n}"
    using nodes_remove [of i root] i len set by simp
qed

lemma put_node_ok:
  assumes t: "table_ok t"
  shows "case table_map t (node_key n) of
     Some _ \<Rightarrow> put_node t n = (0, t)
   | None \<Rightarrow> \<exists>t'. put_node t n = (ht_count t + 1, t') \<and> table_ok t' \<and> ht_flags t' = ht_flags t \<and>
       table_map t' = (table_map t)(node_key n \<mapsto> hn_obj n)"
proof -
  define i where "i = bucket_of (hn_hash n) (ht_bmask t)"
  define t' where "t' = t\<lparr>ht_root := (ht_root t)[i := insert_sorted n (ht_root t ! i)], ht_count := ht_count t + 1\<rparr>"
  have ok: "buckets_ok (ht_size t) (ht_root t)" and s: "ht_size t < 64"
    and i_eq: "i = bucket_of (hn_hash n) (size_mask (ht_size t))"
    using t by (auto simp: table_ok_def i_def)
  have i: "i < 2 ^ ht_size t" using bucket_of_less [OF s] by (simp add: i_eq)
  have walk: "insert_entry n (ht_root t ! i) =
      (if node_key n \<in> dom (table_map t) then None else Some (insert_sorted n (ht_root t ! i)))"
    using insert_entry_eq [OF buckets_sorted [OF ok i], of n] bucket_nodes [OF ok i] i_eq
    by (auto simp: table_dom [OF t] node_key_def image_iff) metis
  show ?thesis
  proof (cases "table_map t (node_key n)")
    case (Some v)
    then have "insert_entry n (ht_root t ! i) = None" using walk by auto
    then show ?thesis using Some by (simp add: put_node_def i_def Let_def)
  next
    case None
    then have fresh: "\<forall>m\<in>nodes (ht_root t). node_key m \<noteq> node_key n"
      using table_map_Some [OF t, of "node_key n"] by auto
    note new = buckets_insert [OF ok s fresh, folded i_eq]
    have put: "put_node t n = (ht_count t + 1, t')"
      using walk None by (simp add: put_node_def t'_def Let_def dom_def flip: i_def)
    have nodes': "nodes (ht_root t') = insert n (nodes (ht_root t))" using new(2) by (simp add: t'_def)
    have "n \<notin> nodes (ht_root t)" using fresh by auto
    then have "length (concat (ht_root t')) = ht_count t + 1"
      using t new buckets_length [OF new(1)] buckets_length [OF ok]
      by (simp add: t'_def table_ok_def nodes_def)
    then have ok': "table_ok t'" using t new by (simp add: table_ok_def t'_def)
    have "table_map t' = (table_map t)(node_key n \<mapsto> hn_obj n)"
      using fresh by (intro map_eqI) (auto simp: table_map_Some [OF ok'] table_map_Some [OF t] nodes')
    then show ?thesis using None put ok' by (simp add: t'_def)
  qed
qed

lemma take_node_ok:
  assumes t: "table_ok t" and i: "i < 2 ^ ht_size t" and n: "n \<in> set (ht_root t ! i)"
  shows "case take_node t i (Some (n, remove1 n (ht_root t ! i))) of
     Inl e \<Rightarrow> e = Undefined_behaviour \<and> has_flag (ht_flags t) HT_AUTOSHRINK \<and> ht_size t = 2
   | Inr (r, t') \<Rightarrow> r = Some n \<and> table_ok t' \<and> ht_flags t' = ht_flags t \<and>
       \<not> (has_flag (ht_flags t) HT_AUTOSHRINK \<and> ht_size t = 2) \<and>
       table_map t' = (table_map t)(node_key n := None)"
proof -
  define t' where "t' = t\<lparr>ht_root := (ht_root t)[i := remove1 n (ht_root t ! i)], ht_count := ht_count t - 1\<rparr>"
  have ok: "buckets_ok (ht_size t) (ht_root t)" using t by (simp add: table_ok_def)
  note new = buckets_remove [OF ok i n]
  have mem: "n \<in> nodes (ht_root t)" using ok i n by (auto simp: nodes_iff buckets_ok_def)
  have nodes': "nodes (ht_root t') = nodes (ht_root t) - {n}" using new(2) by (simp add: t'_def)
  have "length (concat (ht_root t')) = ht_count t - 1" using mem
    using t new buckets_length [OF new(1)] buckets_length [OF ok]
    by (simp add: t'_def table_ok_def nodes_def)
  then have ok': "table_ok t'" using t new by (simp add: table_ok_def t'_def)
  have inj: "m = n" if "m \<in> nodes (ht_root t)" "node_key m = node_key n" for m
    using inj_onD [OF buckets_inj [OF ok] that(2) that(1) mem] .
  have "table_map t' = (table_map t)(node_key n := None)"
    by (intro map_eqI) (auto simp: table_map_Some [OF ok'] table_map_Some [OF t] nodes' dest: inj)
  with CHECK_AUTOSHRINK_ok [OF ok'] consider
      "CHECK_AUTOSHRINK t' = Inl Undefined_behaviour" "has_flag (ht_flags t) HT_AUTOSHRINK" "ht_size t = 2"
    | u where "CHECK_AUTOSHRINK t' = Inr u" "table_ok u" "table_map u = (table_map t)(node_key n := None)"
        "ht_flags u = ht_flags t" "\<not> (has_flag (ht_flags t) HT_AUTOSHRINK \<and> ht_size t = 2)"
    unfolding t'_def by fastforce
  then show ?thesis
    by cases (simp_all add: take_node_def t'_def)
qed

section \<open>Storing, looking up and taking out\<close>

lemma CHECK_AUTOGROW_flags [simp]: "ht_flags (CHECK_AUTOGROW t) = ht_flags t"
  by (simp add: CHECK_AUTOGROW_def ht_grow_def Let_def)

lemma store_eq:
  assumes t: "table_ok t" and k: "key_and_hash uc key keylen hash = (k, h)"
  shows "\<exists>t'. HT_store uc a t key keylen hash obj =
      (if (h, k) \<in> dom (table_map t) then 0 else card (dom (table_map t)) + 1, t') \<and>
    table_ok t' \<and> ht_flags t' = ht_flags t \<and>
    table_map t' = (if (h, k) \<in> dom (table_map t) then table_map t else (table_map t)((h, k) \<mapsto> obj))"
proof -
  let ?n = "\<lparr>hn_addr = a, hn_obj = obj, hn_hash = h, hn_key = k\<rparr>"
  have g: "table_ok (CHECK_AUTOGROW t)" "table_map (CHECK_AUTOGROW t) = table_map t"
    using CHECK_AUTOGROW_ok [OF t] by simp_all
  have "node_key ?n = (h, k)" by (simp add: node_key_def)
  then show ?thesis
    using put_node_ok [OF g(1), of ?n] g table_count [OF g(1)] k
    by (cases "table_map t (h, k)") (auto simp: HT_store_def dom_def)
qed

lemma empty_count: "table_ok t \<Longrightarrow> ht_count t = 0 \<Longrightarrow> table_map t = Map.empty"
  by (rule map_eqI) (auto simp: table_map_Some table_ok_def nodes_def)

lemma get_eq:
  assumes t: "table_ok t" and k: "key_and_hash uc key keylen hash = (k, h)"
  shows "HT_get uc t key keylen hash = Option.bind (table_map t (h, k)) id"
    and "HT_exists uc t key keylen hash \<longleftrightarrow> (h, k) \<in> dom (table_map t)"
proof -
  have "ht_count t = 0 \<Longrightarrow> table_map t (h, k) = None" using empty_count [OF t] by simp
  then show "HT_get uc t key keylen hash = Option.bind (table_map t (h, k)) id"
    and "HT_exists uc t key keylen hash \<longleftrightarrow> (h, k) \<in> dom (table_map t)"
    using k by (auto simp: HT_get_def HT_exists_def table_map_def dom_def split: option.split)
qed

lemma fetch_eq:
  assumes t: "table_ok t" and k: "key_and_hash uc key keylen hash = (k, h)"
  shows "case HT_fetch uc t key keylen hash of
      Inl e \<Rightarrow> e = Undefined_behaviour \<and> has_flag (ht_flags t) HT_AUTOSHRINK \<and> ht_size t = 2 \<and> (h, k) \<in> dom (table_map t)
    | Inr (r, t') \<Rightarrow> r = Option.bind (table_map t (h, k)) id \<and> table_ok t' \<and> ht_flags t' = ht_flags t \<and>
        table_map t' = (table_map t)((h, k) := None)"
proof -
  define i where "i = bucket_of h (ht_bmask t)"
  have ok: "buckets_ok (ht_size t) (ht_root t)" and s: "ht_size t < 64" and i_eq: "i = bucket_of h (size_mask (ht_size t))"
    using t by (auto simp: table_ok_def i_def)
  have i: "i < 2 ^ ht_size t" using bucket_of_less [OF s] by (simp add: i_eq)
  note sorted = buckets_sorted [OF ok i]
  have run: "HT_fetch uc t key keylen hash = and_then (take_node t i (fetch_entry h k (ht_root t ! i)))
      (\<lambda>(r, t). Inr (case r of None \<Rightarrow> (None, t) | Some n \<Rightarrow> (hn_obj n, t)))" if "ht_count t \<noteq> 0"
    using that k by (simp add: HT_fetch_def i_def Let_def)
  have map: "table_map t (h, k) = map_option hn_obj (find_entry h k (ht_root t ! i))"
    by (simp add: table_map_def i_def)
  consider "ht_count t = 0" | "ht_count t \<noteq> 0" "find_entry h k (ht_root t ! i) = None"
    | n where "ht_count t \<noteq> 0" "find_entry h k (ht_root t ! i) = Some n" by fastforce
  then show ?thesis
  proof cases
    case 1
    then show ?thesis using empty_count [OF t] t by (simp add: HT_fetch_def fun_upd_idem)
  next
    case 2
    then show ?thesis using t map by (simp add: run fetch_entry_eq [OF sorted] take_node_def fun_upd_idem)
  next
    case (3 n)
    then have n: "n \<in> set (ht_root t ! i)" "node_key n = (h, k)" using find_entry_iff [OF sorted] by auto
    show ?thesis
      using take_node_ok [OF t i n(1)] 3 map n(2)
      by (auto simp: run fetch_entry_eq [OF sorted] split: sum.splits)
  qed
qed

end
