(* ===== verification/Hash_Dictionary.thy ===== *)
theory Hash_Dictionary
  imports Simulation Hash_Ops
begin

text \<open>
  The interface of a dictionary, what any sequence of its operations answers, and the hash
  table as its provider.
\<close>

section \<open>The interface\<close>

datatype ('a, 'v) dict_op = Put 'a "'v option" | Get 'a | Has 'a | Del 'a

datatype 'v dict_answer = Stored nat | Object "'v option" | Present bool

text \<open>An operation on the provider, and on a finite map; \<open>canon\<close> gives the key of an argument.\<close>

definition dict_step ::
  "('t \<Rightarrow> 'a \<Rightarrow> 'v option \<Rightarrow> nat \<times> 't) \<Rightarrow> ('t \<Rightarrow> 'a \<Rightarrow> 'v option) \<Rightarrow> ('t \<Rightarrow> 'a \<Rightarrow> bool) \<Rightarrow> ('t \<Rightarrow> 'a \<Rightarrow> ('v option \<times> 't) run)
    \<Rightarrow> ('a, 'v) dict_op \<Rightarrow> 't \<Rightarrow> ('v dict_answer \<times> 't) run" where
  "dict_step put look has del op t = (case op of
     Put a v \<Rightarrow> (case put t a v of (n, t') \<Rightarrow> Inr (Stored n, t'))
   | Get a \<Rightarrow> Inr (Object (look t a), t)
   | Has a \<Rightarrow> Inr (Present (has t a), t)
   | Del a \<Rightarrow> and_then (del t a) (\<lambda>(v, t'). Inr (Object v, t')))"

definition map_step :: "('a \<Rightarrow> 'k) \<Rightarrow> ('a, 'v) dict_op \<Rightarrow> ('k \<Rightarrow> 'v option option) \<Rightarrow> 'v dict_answer \<times> ('k \<Rightarrow> 'v option option)" where
  "map_step canon op m = (case op of
     Put a v \<Rightarrow> if canon a \<in> dom m then (Stored 0, m)
               else (Stored (card (dom m) + 1), m(canon a \<mapsto> v))
   | Get a \<Rightarrow> (Object (Option.bind (m (canon a)) id), m)
   | Has a \<Rightarrow> (Present (canon a \<in> dom m), m)
   | Del a \<Rightarrow> (Object (Option.bind (m (canon a)) id), m(canon a := None)))"

locale dictionary =
  fixes valid :: "'t \<Rightarrow> bool" and content :: "'t \<Rightarrow> 'k \<Rightarrow> 'v option option" and canon :: "'a \<Rightarrow> 'k"
    and put :: "'t \<Rightarrow> 'a \<Rightarrow> 'v option \<Rightarrow> nat \<times> 't" and look :: "'t \<Rightarrow> 'a \<Rightarrow> 'v option"
    and has :: "'t \<Rightarrow> 'a \<Rightarrow> bool" and del :: "'t \<Rightarrow> 'a \<Rightarrow> ('v option \<times> 't) run"
  assumes put_law: "valid t \<Longrightarrow> \<exists>t'. put t a v = (if canon a \<in> dom (content t) then 0 else card (dom (content t)) + 1, t') \<and>
        valid t' \<and> content t' = (if canon a \<in> dom (content t) then content t else (content t)(canon a \<mapsto> v))"
    and look_law: "valid t \<Longrightarrow> look t a = Option.bind (content t (canon a)) id"
    and has_law: "valid t \<Longrightarrow> has t a \<longleftrightarrow> canon a \<in> dom (content t)"
    and del_law: "valid t \<Longrightarrow> \<exists>t'. del t a = Inr (Option.bind (content t (canon a)) id, t') \<and>
        valid t' \<and> content t' = (content t)(canon a := None)"
begin

lemma op_simulates:
  assumes "valid t \<and> content t = m"
  shows "\<exists>t'. dict_step put look has del op t = Inr (fst (map_step canon op m), t') \<and>
    valid t' \<and> content t' = snd (map_step canon op m)"
proof (cases op)
  case (Put a v)
  with assms put_law [of t a v] show ?thesis by (auto simp: dict_step_def map_step_def)
next
  case (Del a)
  with assms del_law [of t a] show ?thesis by (auto simp: dict_step_def map_step_def)
qed (use assms look_law has_law in \<open>auto simp: dict_step_def map_step_def\<close>)

end

sublocale dictionary \<subseteq> sim: simulation "\<lambda>t m. valid t \<and> content t = m" "dict_step put look has del" "map_step canon"
  by unfold_locales (rule op_simulates)

section \<open>The hash table provides it\<close>

text \<open>The arguments of a lookup are the key, its length and its hash sum (or zeros).\<close>

type_synonym key_args = "string \<times> nat \<times> HashSum"

definition arg_key :: "bool \<Rightarrow> key_args \<Rightarrow> HashSum \<times> string" where
  "arg_key uc = (\<lambda>(key, len, hash). prod.swap (key_and_hash uc key len hash))"

definition ht_put :: "bool \<Rightarrow> nat \<Rightarrow> 'v HashTable \<Rightarrow> key_args \<Rightarrow> 'v option \<Rightarrow> nat \<times> 'v HashTable" where
  "ht_put uc a t = (\<lambda>(key, len, hash) v. HT_store uc a t key len hash v)"

definition ht_look :: "bool \<Rightarrow> 'v HashTable \<Rightarrow> key_args \<Rightarrow> 'v option" where
  "ht_look uc t = (\<lambda>(key, len, hash). HT_get uc t key len hash)"

definition ht_has :: "bool \<Rightarrow> 'v HashTable \<Rightarrow> key_args \<Rightarrow> bool" where
  "ht_has uc t = (\<lambda>(key, len, hash). HT_exists uc t key len hash)"

definition ht_del :: "bool \<Rightarrow> 'v HashTable \<Rightarrow> key_args \<Rightarrow> ('v option \<times> 'v HashTable) run" where
  "ht_del uc t = (\<lambda>(key, len, hash). HT_fetch uc t key len hash)"

definition no_shrink :: "'v HashTable \<Rightarrow> bool" where
  "no_shrink t \<longleftrightarrow> table_ok t \<and> \<not> has_flag (ht_flags t) HT_AUTOSHRINK"

interpretation hash_dict: dictionary no_shrink table_map "arg_key uc" "ht_put uc a" "ht_look uc" "ht_has uc" "ht_del uc"
  for uc a
proof
  fix t :: "'a HashTable" and args :: key_args and v :: "'a option"
  obtain key len hash where args: "args = (key, len, hash)" by (cases args) auto
  obtain k h where k: "key_and_hash uc key len hash = (k, h)" by fastforce
  have canon: "arg_key uc args = (h, k)" by (simp add: arg_key_def args k)
  assume t: "no_shrink t"
  then have ok: "table_ok t" by (simp add: no_shrink_def)
  show "\<exists>t'. ht_put uc a t args v =
      (if arg_key uc args \<in> dom (table_map t) then 0 else card (dom (table_map t)) + 1, t') \<and>
      no_shrink t' \<and> table_map t' =
      (if arg_key uc args \<in> dom (table_map t) then table_map t else (table_map t)(arg_key uc args \<mapsto> v))"
    using store_eq [OF ok k, of a v] t unfolding canon by (auto simp: ht_put_def args no_shrink_def)
  show "ht_look uc t args = Option.bind (table_map t (arg_key uc args)) id"
    "ht_has uc t args \<longleftrightarrow> arg_key uc args \<in> dom (table_map t)"
    using get_eq [OF ok k] by (simp_all add: ht_look_def ht_has_def args canon [unfolded args])
  show "\<exists>t'. ht_del uc t args = Inr (Option.bind (table_map t (arg_key uc args)) id, t') \<and>
      no_shrink t' \<and> table_map t' = (table_map t)(arg_key uc args := None)"
    using fetch_eq [OF ok k] t unfolding canon by (auto simp: ht_del_def args no_shrink_def split: sum.splits)
qed

end
