(* ===== verification/Hash_Props.thy ===== *)
theory Hash_Props
  imports Hash_Dictionary
begin

text \<open>
  What the hash table guarantees: its operations against a finite map, resizing, cloning,
  flushing and iterating.
\<close>

section \<open>Iterating\<close>

type_synonym 'v entry = "string \<times> nat \<times> 'v option"

definition entry_of :: "'v HashNode \<Rightarrow> 'v entry" where
  "entry_of n = (hn_key n, length (hn_key n), hn_obj n)"

text \<open>The loop of \<open>HT_foreach\<close>: initialise, then fetch entries until there is none.\<close>

fun next_all :: "nat \<Rightarrow> 'v HashIterator \<Rightarrow> 'v entry list run" where
  "next_all 0 it = Inl Out_of_fuel"
| "next_all (Suc fuel) it = (case HI_next (Some it) of
     (Some e, Some it') \<Rightarrow> and_then (next_all fuel it') (\<lambda>es. Inr (e # es))
   | _ \<Rightarrow> Inr [])"

definition HT_foreach :: "nat \<Rightarrow> 'v HashIterator \<Rightarrow> 'v HashTable option \<Rightarrow> 'v entry list run" where
  "HT_foreach fuel iter table = next_all fuel (HI_init iter table)"

definition to_come :: "'v HashIterator \<Rightarrow> 'v HashNode list" where
  "to_come it = (if hi_remain it > 0 then hi_node it @ concat (take (nat (hi_remain it - 1)) (hi_bucket it)) else [])"

declare hi_advance.simps [simp del]

lemma hi_advance_eq:
  "nat (hi_remain it - 1) \<le> length (hi_bucket it) \<Longrightarrow> (case to_come it of
     [] \<Rightarrow> fst (hi_advance it) = None
   | n # ns \<Rightarrow> \<exists>it'. hi_advance it = (Some n, it') \<and> nat (hi_remain it' - 1) \<le> length (hi_bucket it') \<and> to_come it' = ns)"
proof (induction it rule: hi_advance.induct)
  case (1 it)
  consider "hi_remain it \<le> 0" | "hi_remain it > 0" "hi_node it \<noteq> []"
    | "hi_remain it = 1" "hi_node it = []" | "hi_remain it > 1" "hi_node it = []"
    by linarith
  then show ?case
  proof cases
    case 2
    then obtain n ns where "hi_node it = n # ns" by (cases "hi_node it") auto
    with 2 "1.prems" show ?thesis by (simp add: to_come_def hi_advance.simps [of it])
  next
    case 4
    let ?it = "it\<lparr>hi_remain := hi_remain it - 1, hi_node := hd (hi_bucket it), hi_bucket := tl (hi_bucket it)\<rparr>"
    obtain b bs where b: "hi_bucket it = b # bs" using 4 "1.prems" by (cases "hi_bucket it") auto
    have m: "nat (hi_remain it - 1) = Suc (nat (hi_remain ?it - 1))" using 4 by simp
    have "to_come it = to_come ?it" using 4 b by (simp add: to_come_def m)
    moreover have "hi_advance it = hi_advance ?it" using 4 by (subst hi_advance.simps) simp
    moreover have "nat (hi_remain ?it - 1) \<le> length (hi_bucket ?it)" using "1.prems" b m by simp
    moreover have "hi_remain it - 1 > 0" using 4 by simp
    note ih = "1.IH" [unfolded if_P [OF this]]
    ultimately show ?thesis using 4 by (simp only: ih)
  next
    case 3
    have "to_come it = []" using 3 by (simp add: to_come_def)
    moreover have "fst (hi_advance it) = None"
      using 3 by (subst hi_advance.simps) (simp add: hi_advance.simps)
    ultimately show ?thesis by simp
  qed (use "1.prems" in \<open>simp_all add: to_come_def hi_advance.simps [of it]\<close>)
qed

lemma next_all_eq:
  "nat (hi_remain it - 1) \<le> length (hi_bucket it) \<Longrightarrow> length (to_come it) < fuel \<Longrightarrow>
   next_all fuel it = Inr (map entry_of (to_come it))"
proof (induction fuel arbitrary: it)
  case (Suc fuel)
  show ?case
  proof (cases "to_come it")
    case Nil
    with hi_advance_eq [OF Suc.prems(1)] have "fst (hi_advance it) = None" by simp
    with Nil show ?thesis by (auto simp: HI_next_def split: prod.split)
  next
    case (Cons n ns)
    with hi_advance_eq [OF Suc.prems(1)] obtain it' where "hi_advance it = (Some n, it')"
        "nat (hi_remain it' - 1) \<le> length (hi_bucket it')" "to_come it' = ns" by auto
    with Cons Suc show ?thesis by (simp add: HI_next_def entry_of_def)
  qed
qed simp

lemma foreach_eq:
  assumes t: "table_ok t" and fuel: "ht_count t < fuel"
  shows "HT_foreach fuel iter (Some t) = Inr (map entry_of (concat (ht_root t)))"
proof -
  have len: "length (ht_root t) = 2 ^ ht_size t" using t by (simp add: table_ok_def buckets_ok_def)
  then obtain b bs where b: "ht_root t = b # bs" by (cases "ht_root t") auto
  have n: "nat (2 ^ ht_size t - 1 :: int) = length bs" using len b by (simp add: nat_diff_distrib' nat_power_eq)
  then have "to_come (HI_init iter (Some t)) = concat (ht_root t)" by (simp add: to_come_def HI_init_def b)
  then show ?thesis
    using next_all_eq [of "HI_init iter (Some t)" fuel] n fuel t by (simp add: HT_foreach_def HI_init_def b table_ok_def)
qed

section \<open>Cloning\<close>

definition clone_obj :: "('v option \<Rightarrow> 'v option) option \<Rightarrow> 'v option \<Rightarrow> 'v option" where
  "clone_obj func v = (case func of Some f \<Rightarrow> f v | None \<Rightarrow> v)"

lemma clone_nodes_entries:
  "map (\<lambda>n. (node_key n, hn_obj n)) (clone_nodes func a ns) = map (\<lambda>n. (node_key n, clone_obj func (hn_obj n))) ns"
  by (induction func a ns rule: clone_nodes.induct) (simp_all add: node_key_def clone_obj_def)

lemma clone_nodes_addr: "map hn_addr (clone_nodes func a ns) = [a..<a + length ns]"
  by (induction func a ns rule: clone_nodes.induct) (simp_all add: upt_conv_Cons del: upt_Suc)

lemma clone_nodes_keys: "map node_key (clone_nodes func a ns) = map node_key ns"
  by (induction func a ns rule: clone_nodes.induct) (simp_all add: node_key_def)

lemma clone_nodes_length [simp]: "length (clone_nodes func a ns) = length ns"
  by (induction func a ns rule: clone_nodes.induct) simp_all

lemma clone_nodes_append:
  "clone_nodes func a (ns @ ms) = clone_nodes func a ns @ clone_nodes func (a + length ns) ms"
  by (induction func a ns rule: clone_nodes.induct) simp_all

lemma clone_buckets_concat: "concat (clone_buckets func a root) = clone_nodes func a (concat root)"
  by (induction func a root rule: clone_buckets.induct) (simp_all add: clone_nodes_append)

lemma clone_buckets_map: "map (map node_key) (clone_buckets func a root) = map (map node_key) root"
  by (induction func a root rule: clone_buckets.induct) (simp_all add: clone_nodes_keys)

text \<open>Well-formedness of the buckets only looks at the keys of the nodes.\<close>

lemma buckets_ok_keys:
  fixes root root' :: "'w HashNode list list"
  assumes "map (map node_key) root' = map (map node_key) root" and "buckets_ok s root"
  shows "buckets_ok s root'"
proof -
  define lt where "lt x y \<longleftrightarrow> entry_cmp (fst x) (snd x)
     \<lparr>hn_addr = 0, hn_obj = None :: 'v option, hn_hash = fst y, hn_key = snd y\<rparr> < 0" for x y :: "HashSum \<times> string"
  have "node_less = (\<lambda>m n :: 'w HashNode. lt (node_key m) (node_key n))"
    by (intro ext) (simp add: node_less_def lt_def entry_cmp_def node_key_def)
  then have less: "sorted_wrt node_less ns \<longleftrightarrow> sorted_wrt lt (map node_key ns)" for ns :: "'w HashNode list"
    by (simp add: sorted_wrt_map)
  have len: "length root' = length root" using arg_cong [OF assms(1), of length] by simp
  have nth: "map node_key (root' ! i) = map node_key (root ! i)" if "i < length root" for i
    using arg_cong [OF assms(1), of "\<lambda>xs. xs ! i"] that len by simp
  have hash: "(\<forall>n\<in>set ns. bucket_of (hn_hash n) m = i) \<longleftrightarrow> (\<forall>x\<in>set (map node_key ns). bucket_of (fst x) m = i)"
    for ns :: "'w HashNode list" and m i by (simp add: node_key_def)
  show ?thesis using assms(2) unfolding buckets_ok_def less hash by (simp add: len nth)
qed

lemma clone_eq:
  assumes t: "table_ok t"
  shows "\<exists>c. HT_clone (Some t) func a = Inr (Some c) \<and> table_ok c \<and> ht_flags c = ht_flags t \<and> ht_size c = ht_size t \<and>
    table_map c = map_option (clone_obj func) \<circ> table_map t \<and>
    map hn_addr (concat (ht_root c)) = [a..<a + ht_count t]"
proof -
  define c where "c = t\<lparr>ht_root := clone_buckets func a (ht_root t)\<rparr>"
  have cnt: "ht_count t = length (concat (ht_root t))" and ok: "buckets_ok (ht_size t) (ht_root t)"
    and s: "0 < ht_size t" "ht_size t \<le> MAX_HASH_TABLE_SIZE" and m: "ht_bmask t = size_mask (ht_size t)"
    using t by (simp_all add: table_ok_def)
  have len: "length (ht_root t) = 2 ^ ht_size t" using ok by (simp add: buckets_ok_def)
  have empty: "clone_buckets func a root = root" if "concat root = []" for root :: "'a HashNode list list"
    using that by (induction root arbitrary: a) auto
  have run: "HT_clone (Some t) func a = Inr (Some c)"
  proof (cases "ht_count t > 0")
    case True
    then show ?thesis using s m by (simp add: HT_clone_def HT_new_ex_def c_def)
  next
    case False
    then have "ht_root t = replicate (2 ^ ht_size t) []"
      using cnt len by (auto intro: replicate_eqI)
    with False show ?thesis using s m cnt empty [of "ht_root t"] by (simp add: HT_clone_def HT_new_ex_def c_def)
  qed
  have root: "ht_root c = clone_buckets func a (ht_root t)" by (simp add: c_def)
  have "map (map node_key) (ht_root c) = map (map node_key) (ht_root t)"
    by (simp add: c_def clone_buckets_map)
  then have "buckets_ok (ht_size t) (ht_root c)" using ok by (rule buckets_ok_keys)
  then have c: "table_ok c" using t by (simp add: table_ok_def c_def clone_buckets_concat)
  moreover have "table_map c = map_option (clone_obj func) \<circ> table_map t"
  proof (rule map_eqI)
    fix k v
    have entries: "set (map (\<lambda>n. (node_key n, hn_obj n)) (concat (ht_root c))) =
        set (map (\<lambda>n. (node_key n, clone_obj func (hn_obj n))) (concat (ht_root t)))"
      by (simp only: root clone_buckets_concat clone_nodes_entries)
    have "table_map c k = Some v \<longleftrightarrow> (k, v) \<in> set (map (\<lambda>n. (node_key n, hn_obj n)) (concat (ht_root c)))"
      unfolding table_map_Some [OF c] nodes_def by auto
    also have "\<dots> \<longleftrightarrow> (\<exists>w. table_map t k = Some w \<and> clone_obj func w = v)"
      unfolding entries table_map_Some [OF t] nodes_def by auto
    finally show "table_map c k = Some v \<longleftrightarrow> (map_option (clone_obj func) \<circ> table_map t) k = Some v" by auto
  qed
  ultimately show ?thesis using run cnt by (auto simp: c_def clone_buckets_concat clone_nodes_addr)
qed

section \<open>Resizing and flushing\<close>

lemma HT_resize_ok:
  assumes "table_ok t" and "0 < sz" and "sz \<le> int MAX_HASH_TABLE_SIZE"
  shows "\<exists>t'. HT_resize (Some t) sz = Inr (nat sz \<noteq> ht_size t, Some t') \<and> table_ok t' \<and>
    ht_size t' = nat sz \<and> table_map t' = table_map t"
proof -
  consider "nat sz = ht_size t" | "nat sz > ht_size t" | "nat sz < ht_size t" by linarith
  then show ?thesis
    by cases (use assms ht_grow_ok [of t "nat sz"] ht_shrink_ok [of t "nat sz"]
      in \<open>simp_all add: HT_resize_def ht_grow_def ht_shrink_def Let_def\<close>)
qed

lemma flush_eq:
  assumes t: "table_ok t"
  shows "\<exists>t'. HT_flush (Some t) = (Some t', map hn_obj (concat (ht_root t))) \<and> table_ok t' \<and>
    table_map t' = Map.empty \<and> HT_delete (Some t') = Inr ()"
proof (cases "ht_count t = 0")
  case True
  then show ?thesis using t empty_count [OF t]
    by (auto simp: HT_flush_def HT_delete_def check_def table_ok_def)
next
  case False
  let ?t = "t\<lparr>ht_root := map (\<lambda>_. []) (ht_root t), ht_count := 0\<rparr>"
  have ok: "table_ok ?t" using t by (auto simp: table_ok_def buckets_ok_def)
  then show ?thesis using False empty_count [OF ok] by (auto simp: HT_flush_def HT_delete_def check_def)
qed

section \<open>The properties\<close>

definition sample_table :: "nat HashTable" where
  "sample_table = \<lparr>ht_count = 2, ht_size = 1, ht_flags = HT_AUTOGROW, ht_bmask = 1,
     ht_root = [[\<lparr>hn_addr = 7, hn_obj = Some 70, hn_hash = 2, hn_key = ''x''\<rparr>],
                [\<lparr>hn_addr = 8, hn_obj = None, hn_hash = 5, hn_key = ''yz''\<rparr>]]\<rparr>"

lemma sample_ok: "table_ok sample_table"
  by code_simp

text \<open>
  C28 Storing a key: when it is not there, \<open>HT_store\<close> answers the number of entries the
  table then has and the map gets the entry; when it is there, it answers zero and the object
  that is there stays. The invariant holds afterwards, also when the table has grown.
\<close>

theorem hash_store:
  assumes "table_ok t" and "key_and_hash uc key keylen hash = (k, h)"
  shows "\<exists>t'. HT_store uc a t key keylen hash obj =
      (if (h, k) \<in> dom (table_map t) then 0 else card (dom (table_map t)) + 1, t') \<and>
    table_ok t' \<and>
    table_map t' = (if (h, k) \<in> dom (table_map t) then table_map t else (table_map t)((h, k) \<mapsto> obj))"
  using store_eq [OF assms] by blast

lemma hash_store_witness:
  "\<exists>t'. HT_store False 9 sample_table ''abc'' 2 4 (Some 1) =
      (if (4, ''ab'') \<in> dom (table_map sample_table) then 0 else card (dom (table_map sample_table)) + 1, t') \<and>
    table_ok t' \<and>
    table_map t' = (if (4, ''ab'') \<in> dom (table_map sample_table) then table_map sample_table
                    else (table_map sample_table)((4, ''ab'') \<mapsto> Some 1))"
  by (rule hash_store [OF sample_ok]) (simp add: key_and_hash_def)

text \<open>
  C37 Taking a key out answers its object, or null when the key is not there, and leaves
  the map without the key, also when the table has shrunk. It goes wrong only for a table of
  size 2 that shrinks automatically, where the code shifts by a negative number.
\<close>

theorem hash_fetch:
  assumes "table_ok t" and "key_and_hash uc key keylen hash = (k, h)"
  shows "case HT_fetch uc t key keylen hash of
      Inl e \<Rightarrow> e = Undefined_behaviour \<and> has_flag (ht_flags t) HT_AUTOSHRINK \<and> ht_size t = 2 \<and>
        (h, k) \<in> dom (table_map t)
    | Inr (r, t') \<Rightarrow> r = Option.bind (table_map t (h, k)) id \<and> table_ok t' \<and>
        table_map t' = (table_map t)((h, k) := None)"
  using fetch_eq [OF assms] by (auto split: sum.splits)

lemma hash_fetch_witness:
  "case HT_fetch False sample_table ''x'' 1 2 of
      Inl e \<Rightarrow> e = Undefined_behaviour \<and> has_flag (ht_flags sample_table) HT_AUTOSHRINK \<and>
        ht_size sample_table = 2 \<and> (2, ''x'') \<in> dom (table_map sample_table)
    | Inr (r, t') \<Rightarrow> r = Option.bind (table_map sample_table (2, ''x'')) id \<and> table_ok t' \<and>
        table_map t' = (table_map sample_table)((2, ''x'') := None)"
  by (rule hash_fetch [OF sample_ok]) (simp add: key_and_hash_def)

text \<open>
  C7 A new table of a size between 1 and 16 that does not shrink automatically behaves as
  a finite map: any sequence of stores, lookups, tests and removals gives the answers that the
  operations of a map give from the empty map on, and the table then holds that map.
\<close>

theorem hash_refines_map:
  assumes "HT_new_ex sz flags = Inr t" and "\<not> has_flag flags HT_AUTOSHRINK"
  shows "\<exists>answers t'. run_ops (dict_step (ht_put uc a) (ht_look uc) (ht_has uc) (ht_del uc)) ops t = Inr (answers, t') \<and>
    spec_ops (map_step (arg_key uc)) ops Map.empty = (answers, table_map t') \<and> table_ok t'"
proof -
  have sz: "0 < sz" "sz \<le> 16" and t_eq: "t = \<lparr>ht_count = 0, ht_size = nat sz, ht_flags = flags,
      ht_bmask = size_mask (nat sz), ht_root = replicate (2 ^ nat sz) []\<rparr>"
    using assms(1) by (auto simp: HT_new_ex_def split: if_splits)
  then have t: "table_ok t" by (simp add: table_ok_def empty_buckets_ok)
  moreover have "table_map t = Map.empty" using empty_count [OF t] by (simp add: t_eq)
  ultimately show ?thesis
    using hash_dict.sim.ops_simulate [of t Map.empty uc a ops] assms(2)
    by (auto simp: no_shrink_def t_eq prod_eq_iff)
qed

lemma hash_refines_map_witness:
  "\<exists>answers t'. run_ops (dict_step (ht_put True 0) (ht_look True) (ht_has True) (ht_del True))
      [Put (''a'', 1, 3) (Some (1 :: nat)), Put (''a'', 1, 3) None, Get (''a'', 1, 3), Del (''a'', 1, 3), Has (''a'', 1, 3)]
      \<lparr>ht_count = 0, ht_size = 1, ht_flags = HT_AUTOGROW, ht_bmask = 1, ht_root = [[], []]\<rparr> = Inr (answers, t') \<and>
    spec_ops (map_step (arg_key True))
      [Put (''a'', 1, 3) (Some (1 :: nat)), Put (''a'', 1, 3) None, Get (''a'', 1, 3), Del (''a'', 1, 3), Has (''a'', 1, 3)]
      Map.empty = (answers, table_map t') \<and> table_ok t'"
  by (rule hash_refines_map [of 1 HT_AUTOGROW]) code_simp+

text \<open>
  C29 Resizing to any size between 1 and 16 reports whether the size has changed and keeps
  the invariant and every entry: growing splits the buckets, shrinking merges them in order.
\<close>

theorem hash_resize:
  assumes "table_ok t" and "0 < sz" and "sz \<le> 16"
  shows "\<exists>t'. HT_resize (Some t) sz = Inr (nat sz \<noteq> ht_size t, Some t') \<and> table_ok t' \<and>
    ht_size t' = nat sz \<and> table_map t' = table_map t"
  using HT_resize_ok [OF assms(1,2)] assms(3) by simp

lemma hash_resize_witness:
  "\<exists>t'. HT_resize (Some sample_table) 3 = Inr (nat 3 \<noteq> ht_size sample_table, Some t') \<and> table_ok t' \<and>
    ht_size t' = nat 3 \<and> table_map t' = table_map sample_table"
  by (rule hash_resize [OF sample_ok]) simp_all

text \<open>
  The loop over a table ends and visits every entry of the map once, with its key, the
  length of the key and its object; one more round than there are entries is enough.
\<close>

theorem hash_foreach:
  assumes "table_ok t" and "ht_count t < fuel"
  shows "\<exists>ns. HT_foreach fuel iter (Some t) = Inr (map entry_of ns) \<and> distinct (map node_key ns) \<and>
    (\<forall>k v. table_map t k = Some v \<longleftrightarrow> (\<exists>n\<in>set ns. node_key n = k \<and> hn_obj n = v))"
  using foreach_eq [OF assms] assms(1) table_map_Some [OF assms(1)] buckets_distinct
  by (intro exI [of _ "concat (ht_root t)"]) (auto simp: nodes_def table_ok_def)

lemma hash_foreach_witness:
  "\<exists>ns. HT_foreach 3 \<lparr>hi_node = [], hi_bucket = [], hi_remain = 0\<rparr> (Some sample_table) = Inr (map entry_of ns) \<and>
    distinct (map node_key ns) \<and>
    (\<forall>k v. table_map sample_table k = Some v \<longleftrightarrow> (\<exists>n\<in>set ns. node_key n = k \<and> hn_obj n = v))"
  by (rule hash_foreach [OF sample_ok]) (simp add: sample_table_def)

text \<open>
  C38 A clone has the same keys, each with its object cloned by the given function (or
  shared, without one), in nodes of its own.
\<close>

theorem hash_clone:
  assumes "table_ok t"
  shows "\<exists>c. HT_clone (Some t) func a = Inr (Some c) \<and> table_ok c \<and> ht_size c = ht_size t \<and>
    table_map c = map_option (clone_obj func) \<circ> table_map t \<and>
    map hn_addr (concat (ht_root c)) = [a..<a + ht_count t]"
  using clone_eq [OF assms] by blast

lemma hash_clone_witness:
  "\<exists>c. HT_clone (Some sample_table) (Some (map_option Suc)) 20 = Inr (Some c) \<and> table_ok c \<and>
    ht_size c = ht_size sample_table \<and>
    table_map c = map_option (clone_obj (Some (map_option Suc))) \<circ> table_map sample_table \<and>
    map hn_addr (concat (ht_root c)) = [20..<20 + ht_count sample_table]"
  by (rule hash_clone [OF sample_ok])

text \<open>
  A table of size 2 that resizes automatically, with one entry stored, cannot have that entry
  taken out with a defined result.
\<close>

theorem hash_shrink_undefined:
  "and_then (HT_new_ex 2 (HT_AUTOGROW OR HT_AUTOSHRINK)) (\<lambda>t.
     HT_fetch False (snd (HT_store False 0 t ''key'' 3 0 (Some (1 :: nat)))) ''key'' 3 0) = Inl Undefined_behaviour"
  by code_simp

end
