(* ===== verification/Linked_List.thy ===== *)
theory Linked_List
  imports CBC_Prelude
begin

text \<open>
  \<^verbatim>\<open>util/list.h\<close> and \<^verbatim>\<open>util/list.c\<close>: doubly linked rings. A store holds the links of all
  lists, one function per field; the address of a list is the address of its sentinel link.
  Reading or writing a link that is not allocated is undefined.
\<close>

section \<open>The store\<close>

record 'v ListStore =
  lk_obj :: "nat \<Rightarrow> 'v option"
  lk_prev :: "nat \<Rightarrow> nat"
  lk_next :: "nat \<Rightarrow> nat"
  ll_size :: "nat \<Rightarrow> int"
  live :: "nat \<Rightarrow> bool"
  fresh :: nat

definition access :: "'v ListStore \<Rightarrow> nat \<Rightarrow> 'a \<Rightarrow> 'a run" where
  "access s a x = (if live s a then Inr x else Inl Undefined_behaviour)"

definition rd_obj :: "'v ListStore \<Rightarrow> nat \<Rightarrow> 'v option run" where
  "rd_obj s a = access s a (lk_obj s a)"

definition rd_prev :: "'v ListStore \<Rightarrow> nat \<Rightarrow> nat run" where
  "rd_prev s a = access s a (lk_prev s a)"

definition rd_next :: "'v ListStore \<Rightarrow> nat \<Rightarrow> nat run" where
  "rd_next s a = access s a (lk_next s a)"

definition rd_size :: "'v ListStore \<Rightarrow> nat \<Rightarrow> int run" where
  "rd_size s a = access s a (ll_size s a)"

definition wr_obj :: "nat \<Rightarrow> 'v option \<Rightarrow> 'v ListStore \<Rightarrow> 'v ListStore run" where
  "wr_obj a v s = access s a (s\<lparr>lk_obj := (lk_obj s)(a := v)\<rparr>)"

definition wr_prev :: "nat \<Rightarrow> nat \<Rightarrow> 'v ListStore \<Rightarrow> 'v ListStore run" where
  "wr_prev a b s = access s a (s\<lparr>lk_prev := (lk_prev s)(a := b)\<rparr>)"

definition wr_next :: "nat \<Rightarrow> nat \<Rightarrow> 'v ListStore \<Rightarrow> 'v ListStore run" where
  "wr_next a b s = access s a (s\<lparr>lk_next := (lk_next s)(a := b)\<rparr>)"

definition wr_size :: "nat \<Rightarrow> int \<Rightarrow> 'v ListStore \<Rightarrow> 'v ListStore run" where
  "wr_size a n s = access s a (s\<lparr>ll_size := (ll_size s)(a := n)\<rparr>)"

definition alloc :: "'v ListStore \<Rightarrow> nat \<times> 'v ListStore" where
  "alloc s = (fresh s, s\<lparr>live := (live s)(fresh s := True), fresh := fresh s + 1\<rparr>)"

definition free :: "nat \<Rightarrow> 'v ListStore \<Rightarrow> 'v ListStore run" where
  "free a s = access s a (s\<lparr>live := (live s)(a := False)\<rparr>)"

lemmas store_ops = access_def rd_obj_def rd_prev_def rd_next_def rd_size_def wr_obj_def wr_prev_def
  wr_next_def wr_size_def free_def

section \<open>Links\<close>

fun walk_prev :: "nat \<Rightarrow> nat \<Rightarrow> 'v ListStore \<Rightarrow> nat run" where
  "walk_prev 0 a s = Inr a"
| "walk_prev (Suc n) a s = and_then (rd_prev s a) (\<lambda>b. walk_prev n b s)"

fun walk_next :: "nat \<Rightarrow> nat \<Rightarrow> 'v ListStore \<Rightarrow> nat run" where
  "walk_next 0 a s = Inr a"
| "walk_next (Suc n) a s = and_then (rd_next s a) (\<lambda>b. walk_next n b s)"

text \<open>A negative item counts from the end; negating the least \<open>int\<close>, undefined in C, is taken as exact.\<close>

definition GetLink :: "nat \<Rightarrow> int \<Rightarrow> 'v ListStore \<Rightarrow> nat option run" where
  "GetLink list item s = and_then (rd_size s list) (\<lambda>n.
     if item < 0 then
       if - item > n then Inr None else and_then (walk_prev (nat (- item)) list s) (\<lambda>a. Inr (Some a))
     else
       if item \<ge> n then Inr None else and_then (walk_next (nat (item + 1)) list s) (\<lambda>a. Inr (Some a)))"

definition Extract :: "nat \<Rightarrow> nat \<Rightarrow> 'v ListStore \<Rightarrow> ('v option \<times> 'v ListStore) run" where
  "Extract list p s =
     and_then (rd_obj s p) (\<lambda>v.
     and_then (rd_prev s p) (\<lambda>b. and_then (rd_next s p) (\<lambda>c. and_then (wr_next b c s) (\<lambda>s.
     and_then (rd_next s p) (\<lambda>c. and_then (rd_prev s p) (\<lambda>b. and_then (wr_prev c b s) (\<lambda>s.
     and_then (rd_size s list) (\<lambda>n. and_then (wr_size list (n - 1) s) (\<lambda>s.
     and_then (free p s) (\<lambda>s. Inr (v, s)))))))))))"

definition Insert :: "nat \<Rightarrow> nat \<Rightarrow> 'v option \<Rightarrow> 'v ListStore \<Rightarrow> 'v ListStore run" where
  "Insert list p v s = (case alloc s of (a, s) \<Rightarrow>
     and_then (wr_obj a v s) (\<lambda>s.
     and_then (rd_prev s p) (\<lambda>b. and_then (wr_prev a b s) (\<lambda>s. and_then (wr_next a p s) (\<lambda>s.
     and_then (rd_prev s p) (\<lambda>b. and_then (wr_next b a s) (\<lambda>s. and_then (wr_prev p a s) (\<lambda>s.
     and_then (rd_size s list) (\<lambda>n. wr_size list (n + 1) s)))))))))"

section \<open>Lists\<close>

definition LL_new :: "'v ListStore \<Rightarrow> nat \<times> 'v ListStore" where
  "LL_new s = (case alloc s of (a, s) \<Rightarrow>
     (a, s\<lparr>lk_prev := (lk_prev s)(a := a), lk_next := (lk_next s)(a := a), lk_obj := (lk_obj s)(a := None),
           ll_size := (ll_size s)(a := 0)\<rparr>))"

definition LL_delete :: "nat option \<Rightarrow> 'v ListStore \<Rightarrow> 'v ListStore run" where
  "LL_delete list s = (case list of None \<Rightarrow> Inr s
     | Some l \<Rightarrow> and_then (rd_size s l) (\<lambda>n. if n \<noteq> 0 then Inr s else free l s))"

definition LL_count :: "nat option \<Rightarrow> 'v ListStore \<Rightarrow> int run" where
  "LL_count list s = (case list of None \<Rightarrow> Inr (- 1) | Some l \<Rightarrow> rd_size s l)"

definition LL_push :: "nat option \<Rightarrow> 'v option \<Rightarrow> 'v ListStore \<Rightarrow> 'v ListStore run" where
  "LL_push list v s = (case list of Some l \<Rightarrow> if v = None then Inr s else Insert l l v s | None \<Rightarrow> Inr s)"

definition LL_pop :: "nat option \<Rightarrow> 'v ListStore \<Rightarrow> ('v option \<times> 'v ListStore) run" where
  "LL_pop list s = (case list of None \<Rightarrow> Inr (None, s)
     | Some l \<Rightarrow> and_then (rd_size s l) (\<lambda>n. if n = 0 then Inr (None, s)
         else and_then (rd_prev s l) (\<lambda>p. Extract l p s)))"

definition LL_unshift :: "nat option \<Rightarrow> 'v option \<Rightarrow> 'v ListStore \<Rightarrow> 'v ListStore run" where
  "LL_unshift list v s = (case list of
     Some l \<Rightarrow> if v = None then Inr s else and_then (rd_next s l) (\<lambda>p. Insert l p v s)
   | None \<Rightarrow> Inr s)"

definition LL_shift :: "nat option \<Rightarrow> 'v ListStore \<Rightarrow> ('v option \<times> 'v ListStore) run" where
  "LL_shift list s = (case list of None \<Rightarrow> Inr (None, s)
     | Some l \<Rightarrow> and_then (rd_size s l) (\<lambda>n. if n = 0 then Inr (None, s)
         else and_then (rd_next s l) (\<lambda>p. Extract l p s)))"

definition LL_insert :: "nat option \<Rightarrow> int \<Rightarrow> 'v option \<Rightarrow> 'v ListStore \<Rightarrow> 'v ListStore run" where
  "LL_insert list item v s = (case list of None \<Rightarrow> Inr s
     | Some l \<Rightarrow> if v = None then Inr s else
         and_then (if item < 0 then (if item = - 1 then Inr (Some l) else GetLink l (item + 1) s)
                   else and_then (rd_size s l) (\<lambda>n. if item = n then Inr (Some l) else GetLink l item s))
           (\<lambda>p. case p of None \<Rightarrow> Inr s | Some a \<Rightarrow> Insert l a v s))"

definition LL_extract :: "nat option \<Rightarrow> int \<Rightarrow> 'v ListStore \<Rightarrow> ('v option \<times> 'v ListStore) run" where
  "LL_extract list item s = (case list of None \<Rightarrow> Inr (None, s)
     | Some l \<Rightarrow> and_then (rd_size s l) (\<lambda>n. if n = 0 then Inr (None, s)
         else and_then (GetLink l item s) (\<lambda>p. case p of None \<Rightarrow> Inr (None, s) | Some a \<Rightarrow> Extract l a s)))"

definition LL_get :: "nat option \<Rightarrow> int \<Rightarrow> 'v ListStore \<Rightarrow> 'v option run" where
  "LL_get list item s = (case list of None \<Rightarrow> Inr None
     | Some l \<Rightarrow> and_then (rd_size s l) (\<lambda>n. if n = 0 then Inr None
         else and_then (GetLink l item s) (\<lambda>p. case p of None \<Rightarrow> Inr None | Some a \<Rightarrow> rd_obj s a)))"

text \<open>Flushing shifts until there is nothing left; the objects are destroyed in that order.\<close>

fun LL_flush :: "nat \<Rightarrow> nat option \<Rightarrow> 'v ListStore \<Rightarrow> ('v list \<times> 'v ListStore) run" where
  "LL_flush 0 list s = Inl Out_of_fuel"
| "LL_flush (Suc fuel) list s = (case list of None \<Rightarrow> Inr ([], s)
     | Some l \<Rightarrow> and_then (LL_shift list s) (\<lambda>(v, s). case v of None \<Rightarrow> Inr ([], s)
         | Some x \<Rightarrow> and_then (LL_flush fuel list s) (\<lambda>(xs, s). Inr (x # xs, s))))"

definition LL_destroy :: "nat \<Rightarrow> nat option \<Rightarrow> 'v ListStore \<Rightarrow> ('v list \<times> 'v ListStore) run" where
  "LL_destroy fuel list s = (case list of None \<Rightarrow> Inr ([], s)
     | Some l \<Rightarrow> and_then (LL_flush fuel list s) (\<lambda>(xs, s). and_then (LL_delete list s) (\<lambda>s. Inr (xs, s))))"

section \<open>Iterators\<close>

text \<open>For a null list the current link of an iterator stays what it was.\<close>

record ListIterator =
  li_list :: "nat option"
  li_cur :: nat

definition LI_init :: "ListIterator \<Rightarrow> nat option \<Rightarrow> ListIterator" where
  "LI_init it list = (case list of None \<Rightarrow> it\<lparr>li_list := None\<rparr> | Some l \<Rightarrow> \<lparr>li_list = Some l, li_cur = l\<rparr>)"

definition LI_next :: "ListIterator option \<Rightarrow> 'v ListStore \<Rightarrow> (bool \<times> ListIterator option) run" where
  "LI_next it s = (case it of None \<Rightarrow> Inr (False, None)
     | Some i \<Rightarrow> (case li_list i of None \<Rightarrow> Inr (False, Some i)
         | Some l \<Rightarrow> and_then (rd_next s (li_cur i)) (\<lambda>c. Inr (c \<noteq> l, Some (i\<lparr>li_cur := c\<rparr>)))))"

definition LI_prev :: "ListIterator option \<Rightarrow> 'v ListStore \<Rightarrow> (bool \<times> ListIterator option) run" where
  "LI_prev it s = (case it of None \<Rightarrow> Inr (False, None)
     | Some i \<Rightarrow> (case li_list i of None \<Rightarrow> Inr (False, Some i)
         | Some l \<Rightarrow> and_then (rd_prev s (li_cur i)) (\<lambda>c. Inr (c \<noteq> l, Some (i\<lparr>li_cur := c\<rparr>)))))"

definition LI_curr :: "ListIterator option \<Rightarrow> 'v ListStore \<Rightarrow> 'v option run" where
  "LI_curr it s = (case it of None \<Rightarrow> Inr None
     | Some i \<Rightarrow> (case li_list i of None \<Rightarrow> Inr None | Some l \<Rightarrow> rd_obj s (li_cur i)))"

text \<open>
  The loop \<open>LL_foreach\<close> over a body \<open>f\<close> that passes on a value and the store; it ends at the end
  of the list or at a null object.
\<close>

fun foreach_loop ::
  "nat \<Rightarrow> ('v \<Rightarrow> 'a \<times> 'v ListStore \<Rightarrow> ('a \<times> 'v ListStore) run) \<Rightarrow> ListIterator option \<Rightarrow> 'a \<times> 'v ListStore
    \<Rightarrow> ('a \<times> 'v ListStore) run" where
  "foreach_loop 0 f it c = Inl Out_of_fuel"
| "foreach_loop (Suc fuel) f it c =
     and_then (LI_next it (snd c)) (\<lambda>(more, it).
     if more then and_then (LI_curr it (snd c)) (\<lambda>v. case v of None \<Rightarrow> Inr c
       | Some x \<Rightarrow> and_then (f x c) (foreach_loop fuel f it))
     else Inr c)"

definition LL_foreach ::
  "nat \<Rightarrow> ('v \<Rightarrow> 'a \<times> 'v ListStore \<Rightarrow> ('a \<times> 'v ListStore) run) \<Rightarrow> ListIterator \<Rightarrow> nat option \<Rightarrow> 'a
    \<Rightarrow> 'v ListStore \<Rightarrow> ('a \<times> 'v ListStore) run" where
  "LL_foreach fuel f it list x s = foreach_loop fuel f (Some (LI_init it list)) (x, s)"

definition LL_clone ::
  "nat \<Rightarrow> ('v \<Rightarrow> 'v option) option \<Rightarrow> ListIterator \<Rightarrow> nat option \<Rightarrow> 'v ListStore \<Rightarrow> (nat option \<times> 'v ListStore) run" where
  "LL_clone fuel func it list s = (case list of None \<Rightarrow> Inr (None, s)
     | Some l \<Rightarrow> (case LL_new s of (c, s) \<Rightarrow>
         and_then (LL_foreach fuel
           (\<lambda>v (_, s). and_then (LL_push (Some c) (case func of Some f \<Rightarrow> f v | None \<Rightarrow> Some v) s) (\<lambda>s. Inr ((), s)))
           it list () s) (\<lambda>(_, s). Inr (Some c, s))))"

section \<open>Splicing\<close>

text \<open>The loop that looks for the last link to cut out; the new list counts along.\<close>

fun splice_last :: "nat \<Rightarrow> nat \<Rightarrow> int \<Rightarrow> nat \<Rightarrow> 'v ListStore \<Rightarrow> (nat \<times> 'v ListStore) run" where
  "splice_last 0 nlist len p s = Inl Out_of_fuel"
| "splice_last (Suc fuel) nlist len p s =
     and_then (rd_size s nlist) (\<lambda>n. and_then (wr_size nlist (n + 1) s) (\<lambda>s.
     if n + 1 < len then
       and_then (rd_next s p) (\<lambda>q. and_then (rd_obj s q) (\<lambda>v.
       if v \<noteq> None then splice_last fuel nlist len q s else Inr (p, s)))
     else Inr (p, s)))"

definition splice_out :: "nat \<Rightarrow> nat \<Rightarrow> nat \<Rightarrow> int \<Rightarrow> nat \<Rightarrow> 'v ListStore \<Rightarrow> (nat \<times> 'v ListStore) run" where
  "splice_out fuel list nlist len p s =
     and_then (splice_last fuel nlist len p s) (\<lambda>(q, s).
     and_then (rd_prev s p) (\<lambda>b. and_then (rd_next s q) (\<lambda>c. and_then (wr_next b c s) (\<lambda>s.
     and_then (rd_next s q) (\<lambda>c. and_then (rd_prev s p) (\<lambda>b. and_then (wr_prev c b s) (\<lambda>s.
     and_then (wr_next nlist p s) (\<lambda>s. and_then (wr_prev nlist q s) (\<lambda>s.
     and_then (wr_prev p nlist s) (\<lambda>s.
     and_then (rd_next s q) (\<lambda>p'. and_then (wr_next q nlist s) (\<lambda>s.
     and_then (rd_size s list) (\<lambda>n. and_then (rd_size s nlist) (\<lambda>m. and_then (wr_size list (n - m) s) (\<lambda>s.
     Inr (p', s))))))))))))))))"

definition splice_in :: "nat \<Rightarrow> nat \<Rightarrow> nat \<Rightarrow> 'v ListStore \<Rightarrow> 'v ListStore run" where
  "splice_in list rlist q s =
     and_then (rd_prev s q) (\<lambda>p.
     and_then (rd_next s rlist) (\<lambda>a. and_then (wr_prev a p s) (\<lambda>s.
     and_then (rd_prev s rlist) (\<lambda>b. and_then (wr_next b q s) (\<lambda>s.
     and_then (rd_next s rlist) (\<lambda>a. and_then (wr_next p a s) (\<lambda>s.
     and_then (rd_prev s rlist) (\<lambda>b. and_then (wr_prev q b s) (\<lambda>s.
     and_then (rd_size s list) (\<lambda>n. and_then (rd_size s rlist) (\<lambda>m. and_then (wr_size list (n + m) s) (\<lambda>s.
     free rlist s))))))))))))"

definition LL_splice ::
  "nat \<Rightarrow> nat option \<Rightarrow> int \<Rightarrow> int \<Rightarrow> nat option \<Rightarrow> 'v ListStore \<Rightarrow> (nat option \<times> 'v ListStore) run" where
  "LL_splice fuel list off len rlist s = (case list of None \<Rightarrow> Inr (None, s)
     | Some l \<Rightarrow> and_then (rd_size s l) (\<lambda>n.
         and_then (if off = n then Inr (Some l) else GetLink l off s) (\<lambda>p. case p of
           None \<Rightarrow> Inr (None, s)
         | Some p \<Rightarrow> (case LL_new s of (nlist, s) \<Rightarrow>
             let len = (if len < 0 then (if off < 0 then - off else n - off) else len) in
             and_then (if len > 0 then splice_out fuel l nlist len p s else Inr (p, s)) (\<lambda>(p, s).
             and_then (case rlist of None \<Rightarrow> Inr s | Some r \<Rightarrow> splice_in l r p s) (\<lambda>s.
             Inr (Some nlist, s)))))))"

section \<open>Sorting\<close>

definition call_cmp :: "('v \<Rightarrow> 'v \<Rightarrow> int) \<Rightarrow> 'v option \<Rightarrow> 'v option \<Rightarrow> int run" where
  "call_cmp cmp x y = (case (x, y) of (Some a, Some b) \<Rightarrow> Inr (cmp a b) | _ \<Rightarrow> Inl Undefined_behaviour)"

fun scan_up :: "nat \<Rightarrow> ('v \<Rightarrow> 'v \<Rightarrow> int) \<Rightarrow> 'v option \<Rightarrow> 'v ListStore \<Rightarrow> nat \<Rightarrow> int \<Rightarrow> (nat \<times> int) run" where
  "scan_up 0 cmp p s i lp = Inl Out_of_fuel"
| "scan_up (Suc fuel) cmp p s i lp =
     and_then (rd_obj s i) (\<lambda>x. and_then (call_cmp cmp x p) (\<lambda>c.
     if c < 0 then and_then (rd_next s i) (\<lambda>i. scan_up fuel cmp p s i (lp + 1)) else Inr (i, lp)))"

fun scan_down :: "nat \<Rightarrow> ('v \<Rightarrow> 'v \<Rightarrow> int) \<Rightarrow> 'v option \<Rightarrow> 'v ListStore \<Rightarrow> nat \<Rightarrow> int \<Rightarrow> (nat \<times> int) run" where
  "scan_down 0 cmp p s j rp = Inl Out_of_fuel"
| "scan_down (Suc fuel) cmp p s j rp =
     and_then (rd_obj s j) (\<lambda>x. and_then (call_cmp cmp x p) (\<lambda>c.
     if c > 0 then and_then (rd_prev s j) (\<lambda>j. scan_down fuel cmp p s j (rp - 1)) else Inr (j, rp)))"

fun partition_loop :: "nat \<Rightarrow> ('v \<Rightarrow> 'v \<Rightarrow> int) \<Rightarrow> 'v option \<Rightarrow> nat \<Rightarrow> nat \<Rightarrow> int \<Rightarrow> int \<Rightarrow> 'v ListStore
    \<Rightarrow> (nat \<times> nat \<times> int \<times> int \<times> 'v ListStore) run" where
  "partition_loop 0 cmp p i j lp rp s = Inl Out_of_fuel"
| "partition_loop (Suc fuel) cmp p i j lp rp s =
     and_then (scan_up fuel cmp p s i lp) (\<lambda>(i, lp).
     if lp > rp then Inr (i, j, lp, rp, s) else
     and_then (scan_down fuel cmp p s j rp) (\<lambda>(j, rp).
     if lp > rp then Inr (i, j, lp, rp, s) else
     and_then (rd_obj s i) (\<lambda>t. and_then (rd_obj s j) (\<lambda>u.
     and_then (wr_obj i u s) (\<lambda>s. and_then (wr_obj j t s) (\<lambda>s.
     and_then (rd_next s i) (\<lambda>i. and_then (rd_prev s j) (\<lambda>j.
     partition_loop fuel cmp p i j (lp + 1) (rp - 1) s))))))))"

text \<open>The pivot is the object of the link half way (the first one when there are less than four).\<close>

fun QuickSort :: "nat \<Rightarrow> nat \<Rightarrow> nat \<Rightarrow> int \<Rightarrow> ('v \<Rightarrow> 'v \<Rightarrow> int) \<Rightarrow> 'v ListStore \<Rightarrow> 'v ListStore run" where
  "QuickSort 0 l r sz cmp s = Inl Out_of_fuel"
| "QuickSort (Suc fuel) l r sz cmp s =
     and_then (walk_next (nat (sz div 2 - 1)) l s) (\<lambda>m. and_then (rd_obj s m) (\<lambda>p.
     and_then (partition_loop (nat sz + 2) cmp p l r 0 (sz - 1) s) (\<lambda>(i, j, lp, rp, s).
     and_then (if rp + 1 > 1 then QuickSort fuel l j (rp + 1) cmp s else Inr s) (\<lambda>s.
     if sz - lp > 1 then QuickSort fuel i r (sz - lp) cmp s else Inr s))))"

definition LL_sort :: "nat \<Rightarrow> nat option \<Rightarrow> ('v \<Rightarrow> 'v \<Rightarrow> int) \<Rightarrow> 'v ListStore \<Rightarrow> 'v ListStore run" where
  "LL_sort fuel list cmp s = (case list of None \<Rightarrow> Inr s
     | Some l \<Rightarrow> and_then (rd_size s l) (\<lambda>n. if n \<le> 1 then Inr s else
         and_then (rd_next s l) (\<lambda>a. and_then (rd_prev s l) (\<lambda>b. QuickSort fuel a b n cmp s))))"

end
