(* ===== verification/List_Facts.thy ===== *)
theory List_Facts
  imports Linked_List
begin

text \<open>
  Rings of links: the invariant of a list in the store, inserting and extracting one link,
  walking along the links, and what an operation on one list leaves of the others.
\<close>

section \<open>Chains and rings\<close>

fun chain :: "'v ListStore \<Rightarrow> nat list \<Rightarrow> bool" where
  "chain s (a # b # ps) \<longleftrightarrow> lk_next s a = b \<and> lk_prev s b = a \<and> chain s (b # ps)"
| "chain s ps \<longleftrightarrow> True"

definition ring :: "'v ListStore \<Rightarrow> nat \<Rightarrow> nat list \<Rightarrow> 'v list \<Rightarrow> bool" where
  "ring s l as xs \<longleftrightarrow> distinct (l # as) \<and> chain s (l # as @ [l]) \<and> map (lk_obj s) as = map Some xs \<and>
     lk_obj s l = None \<and> ll_size s l = int (length xs) \<and> (\<forall>a\<in>set (l # as). live s a \<and> a < fresh s)"

definition same_but :: "nat set \<Rightarrow> 'v ListStore \<Rightarrow> 'v ListStore \<Rightarrow> bool" where
  "same_but A s s' \<longleftrightarrow> fresh s \<le> fresh s' \<and> (\<forall>a. a \<notin> A \<longrightarrow> lk_obj s' a = lk_obj s a \<and> lk_prev s' a = lk_prev s a \<and>
     lk_next s' a = lk_next s a \<and> ll_size s' a = ll_size s a \<and> live s' a = live s a)"

lemma chain_append: "chain s (ps @ a # qs) \<longleftrightarrow> chain s (ps @ [a]) \<and> chain s (a # qs)"
  by (induction s ps rule: chain.induct) (cases qs, auto)+

lemma chain_cong:
  "(\<And>a. a \<in> set (butlast ps) \<Longrightarrow> lk_next s' a = lk_next s a) \<Longrightarrow>
   (\<And>a. a \<in> set (tl ps) \<Longrightarrow> lk_prev s' a = lk_prev s a) \<Longrightarrow> chain s' ps = chain s ps"
  by (induction s ps rule: chain.induct) auto

lemma ring_frame:
  assumes "ring s l as xs" and "same_but A s s'" and "A \<inter> set (l # as) = {}"
  shows "ring s' l as xs"
proof -
  have eq: "lk_obj s' a = lk_obj s a" "lk_prev s' a = lk_prev s a" "lk_next s' a = lk_next s a"
      "ll_size s' a = ll_size s a" "live s' a = live s a" if "a \<in> set (l # as)" for a
    using assms(2,3) that by (auto simp: same_but_def)
  have "chain s' (l # as @ [l]) = chain s (l # as @ [l])"
    by (rule chain_cong) (use eq in \<open>auto dest: in_set_butlastD\<close>)
  moreover have "map (lk_obj s') as = map (lk_obj s) as" using eq(1) by simp
  moreover have "a < fresh s'" if "a \<in> set (l # as)" for a
    using that assms(1,2) unfolding ring_def same_but_def by fastforce
  ultimately show ?thesis using assms(1) eq unfolding ring_def by simp
qed

lemma ring_length: "ring s l as xs \<Longrightarrow> length as = length xs"
  unfolding ring_def by (metis length_map)

lemma ring_obj: "ring s l as xs \<Longrightarrow> i < length xs \<Longrightarrow> lk_obj s (as ! i) = Some (xs ! i)"
  using ring_length [of s l as xs] unfolding ring_def by (metis nth_map)

lemma ring_live: "ring s l as xs \<Longrightarrow> a \<in> set (l # as) \<Longrightarrow> live s a \<and> a < fresh s"
  by (auto simp: ring_def)

section \<open>Inserting and extracting a link\<close>

lemma last_Cons_append: "\<exists>ps. l # us = ps @ [last (l # us)]"
  by (metis append_butlast_last_id list.distinct(1))

lemma hd_append_single: "\<exists>qs. vs @ [l] = hd (vs @ [l]) # qs"
  by (cases vs) auto

lemma ring_ends:
  assumes "ring s l (us @ vs) xs"
  shows "lk_prev s (hd (vs @ [l])) = last (l # us) \<and> lk_next s (last (l # us)) = hd (vs @ [l])"
proof -
  obtain ps qs where e: "l # us = ps @ [last (l # us)]" "vs @ [l] = hd (vs @ [l]) # qs"
    using last_Cons_append hd_append_single by metis
  have "chain s ((l # us) @ (vs @ [l]))" using assms by (simp add: ring_def)
  then have "chain s (ps @ last (l # us) # hd (vs @ [l]) # qs)"
    using e by (metis append.assoc append_Cons append_Nil)
  then show ?thesis by (subst (asm) chain_append) simp
qed

lemma Insert_ring:
  assumes r: "ring s l (us @ vs) (xs @ ys)" and len: "length us = length xs"
  shows "\<exists>s'. Insert l (hd (vs @ [l])) (Some v) s = Inr s' \<and> ring s' l (us @ fresh s # vs) (xs @ v # ys) \<and>
    same_but (insert (fresh s) (set (l # us @ vs))) s s'"
proof -
  define p where "p = hd (vs @ [l])"
  define b where "b = last (l # us)"
  define a where "a = fresh s"
  obtain ps qs where e: "l # us = ps @ [b]" "vs @ [l] = p # qs"
    using last_Cons_append hd_append_single unfolding p_def b_def by metis
  have pb: "p \<in> set (l # vs)" "b \<in> set (l # us)" by (auto simp: p_def b_def hd_append)
  have ends: "lk_prev s p = b" "lk_next s b = p" using ring_ends [OF r] by (simp_all add: p_def b_def)
  have lv: "live s p" "live s b" "live s l" using r pb by (auto simp: ring_def)
  have new: "a \<notin> set (l # us @ vs)" using r by (auto simp: ring_def a_def)
  define s' where "s' = s\<lparr>live := (live s)(a := True), fresh := a + 1, lk_obj := (lk_obj s)(a := Some v),
    lk_prev := (lk_prev s)(a := b, p := a), lk_next := (lk_next s)(a := p, b := a),
    ll_size := (ll_size s)(l := ll_size s l + 1)\<rparr>"
  have ne: "p \<noteq> a" "b \<noteq> a" "l \<noteq> a" using new pb by auto
  have "Insert l p (Some v) s = Inr s'"
    using lv ends ne by (simp add: Insert_def alloc_def store_ops s'_def a_def fun_upd_twist)
  moreover have "ring s' l (us @ a # vs) (xs @ v # ys)"
  proof -
    have d: "distinct (l # us @ vs)" using r by (simp add: ring_def)
    have c: "chain s (ps @ [b])" "chain s (p # qs)"
    proof -
      have "chain s ((l # us) @ (vs @ [l]))" using r by (simp add: ring_def)
      then have "chain s (ps @ b # p # qs)" unfolding e by simp
      then show "chain s (ps @ [b])" "chain s (p # qs)" by (subst (asm) chain_append; simp)+
    qed
    have "distinct (ps @ [b])" "set (ps @ [b]) = set (l # us)" "tl (ps @ [b]) = us"
      unfolding e(1) [symmetric] using d by auto
    then have "chain s' (ps @ [b]) = chain s (ps @ [b])"
      using new d pb by (intro chain_cong) (auto simp: s'_def)
    have "butlast (p # qs) = vs" "distinct (p # qs)" "set (p # qs) = set (vs @ [l])"
      unfolding e(2) [symmetric] using d by auto
    then have "chain s' (p # qs) = chain s (p # qs)"
      using new d pb by (intro chain_cong) (auto simp: s'_def)
    then have "chain s' (ps @ b # a # p # qs)"
      using c \<open>chain s' (ps @ [b]) = _\<close> ne by (subst chain_append) (simp add: s'_def)
    then have "chain s' ((l # us) @ a # (vs @ [l]))" unfolding e by simp
    moreover have "map (lk_obj s) us = map Some xs" "map (lk_obj s) vs = map Some ys"
      using r len by (simp_all add: ring_def)
    then have "map (lk_obj s') us = map Some xs" "map (lk_obj s') vs = map Some ys"
      using new by (auto simp: s'_def intro: map_cong)
    ultimately show ?thesis
      using r new unfolding ring_def by (auto simp: s'_def a_def less_Suc_eq)
  qed
  moreover have "same_but (insert a (set (l # us @ vs))) s s'"
    using pb by (auto simp: same_but_def s'_def a_def)
  ultimately show ?thesis unfolding p_def a_def by blast
qed

lemma Extract_ring:
  assumes r: "ring s l (us @ p # vs) (xs @ v # ys)" and len: "length us = length xs"
  shows "\<exists>s'. Extract l p s = Inr (Some v, s') \<and> ring s' l (us @ vs) (xs @ ys) \<and>
    same_but (set (l # us @ p # vs)) s s'"
proof -
  define b where "b = last (l # us)"
  define c where "c = hd (vs @ [l])"
  obtain ps qs where e: "l # us = ps @ [b]" "vs @ [l] = c # qs"
    using last_Cons_append hd_append_single unfolding b_def c_def by metis
  have bc: "b \<in> set (l # us)" "c \<in> set (l # vs)" by (auto simp: b_def c_def hd_append)
  have d: "distinct (l # us @ p # vs)" using r by (simp add: ring_def)
  have "chain s ((l # us) @ p # (vs @ [l]))" using r by (simp add: ring_def)
  then have c1: "chain s (ps @ [b])" "lk_next s b = p" "lk_prev s p = b" "chain s (p # c # qs)"
    unfolding e using chain_append [of s ps b "p # c # qs"] by simp_all
  then have c2: "lk_next s p = c" "lk_prev s c = p" "chain s (c # qs)" by simp_all
  have lv: "live s p" "live s b" "live s c" "live s l" using r bc by (auto simp: ring_def)
  have ne: "p \<noteq> b" "p \<noteq> c" "p \<noteq> l" using d bc by auto
  have v: "lk_obj s p = Some v" "map (lk_obj s) us = map Some xs" "map (lk_obj s) vs = map Some ys"
    using r len by (auto simp: ring_def)
  define s' where "s' = s\<lparr>live := (live s)(p := False), lk_prev := (lk_prev s)(c := b), lk_next := (lk_next s)(b := c),
    ll_size := (ll_size s)(l := ll_size s l - 1)\<rparr>"
  have "Extract l p s = Inr (Some v, s')"
    using lv c1 c2 ne v by (simp add: Extract_def store_ops s'_def)
  moreover have "ring s' l (us @ vs) (xs @ ys)"
  proof -
    have "distinct (ps @ [b])" "set (ps @ [b]) = set (l # us)" "tl (ps @ [b]) = us"
      unfolding e(1) [symmetric] using d by auto
    then have 1: "chain s' (ps @ [b])"
      using c1(1) d bc by (subst chain_cong [where s = s]) (auto simp: s'_def)
    have "butlast (c # qs) = vs" "distinct (c # qs)" "set (c # qs) = set (vs @ [l])"
      unfolding e(2) [symmetric] using d by auto
    then have 2: "chain s' (c # qs)"
      using c2(3) d bc by (subst chain_cong [where s = s]) (auto simp: s'_def)
    have "chain s' (ps @ b # c # qs)"
      using 1 2 by (subst chain_append) (simp add: s'_def)
    then have "chain s' ((l # us) @ (vs @ [l]))" unfolding e by simp
    then show ?thesis using r v d unfolding ring_def by (auto simp: s'_def)
  qed
  moreover have "same_but (set (l # us @ p # vs)) s s'"
    using bc by (auto simp: same_but_def s'_def)
  ultimately show ?thesis by blast
qed

section \<open>Walking\<close>

lemma chain_nth: "chain s ps \<Longrightarrow> Suc i < length ps \<Longrightarrow> lk_next s (ps ! i) = ps ! Suc i \<and> lk_prev s (ps ! Suc i) = ps ! i"
proof (induction s ps arbitrary: i rule: chain.induct)
  case (1 s a b ps)
  then show ?case by (cases i) auto
qed simp_all

lemma walk_next_chain:
  "chain s ps \<Longrightarrow> \<forall>a\<in>set ps. live s a \<Longrightarrow> i + n < length ps \<Longrightarrow> walk_next n (ps ! i) s = Inr (ps ! (i + n))"
  by (induction n arbitrary: i) (auto simp: rd_next_def access_def chain_nth)

lemma walk_prev_chain:
  "chain s ps \<Longrightarrow> \<forall>a\<in>set ps. live s a \<Longrightarrow> i < length ps \<Longrightarrow> n \<le> i \<Longrightarrow> walk_prev n (ps ! i) s = Inr (ps ! (i - n))"
proof (induction n arbitrary: i)
  case (Suc n)
  then obtain j where i: "i = Suc j" by (cases i) auto
  with Suc show ?case using chain_nth [of s ps j] by (simp add: rd_prev_def access_def)
qed simp

text \<open>The position an item number means: from the front, or from the back when negative.\<close>

definition item_pos :: "int \<Rightarrow> nat \<Rightarrow> nat option" where
  "item_pos item n = (if 0 \<le> item \<and> item < int n then Some (nat item)
     else if item < 0 \<and> - item \<le> int n then Some (nat (int n + item)) else None)"

lemma item_pos_less: "item_pos item n = Some i \<Longrightarrow> i < n"
  by (auto simp: item_pos_def split: if_splits)

lemma GetLink_ring:
  assumes r: "ring s l as xs"
  shows "GetLink l item s = Inr (map_option ((!) as) (item_pos item (length xs)))"
proof -
  have len: "length as = length xs" by (rule ring_length [OF r])
  have c: "chain s (l # as @ [l])" and lv: "\<forall>a\<in>set (l # as @ [l]). live s a" and n: "ll_size s l = int (length xs)"
    using r by (auto simp: ring_def)
  have fwd: "walk_next (Suc i) l s = Inr (as ! i)" if "i < length xs" for i
    using walk_next_chain [OF c lv, of 0 "Suc i"] that len by (simp add: nth_append)
  have bwd: "walk_prev i l s = Inr (as ! (length xs - i))" if "0 < i" "i \<le> length xs" for i
    using walk_prev_chain [OF c lv, of "Suc (length as)" i] that len by (auto simp: nth_append nth_Cons' split: if_splits)
  have "rd_size s l = Inr (int (length xs))" using lv n by (simp add: rd_size_def access_def)
  moreover have "nat (item + 1) = Suc (nat item)" if "0 \<le> item" using that by simp
  moreover have "length xs - nat (- item) = nat (int (length xs) + item)" if "item < 0" "- item \<le> int (length xs)"
    using that by linarith
  ultimately show ?thesis
    using fwd [of "nat item"] bwd [of "nat (- item)"]
    by (auto simp: GetLink_def item_pos_def simp del: walk_next.simps walk_prev.simps)
qed

end
