(* ===== verification/List_Ops.thy ===== *)
theory List_Ops
  imports Simulation List_Facts
begin

text \<open>
  The operations on a linked list as operations on a sequence: the simulation of any sequence
  of operations, iteration, cloning and flushing.
\<close>

section \<open>Operations and their specification\<close>

datatype 'v list_op = Push "'v option" | Pop | Unshift "'v option" | Shift | Insert_at int "'v option"
  | Extract_at int | Get_at int | Count

datatype 'v list_answer = Done | Obj "'v option" | Number int

definition list_step :: "nat \<Rightarrow> 'v list_op \<Rightarrow> 'v ListStore \<Rightarrow> ('v list_answer \<times> 'v ListStore) run" where
  "list_step l op s = (case op of
     Push v \<Rightarrow> and_then (LL_push (Some l) v s) (\<lambda>s. Inr (Done, s))
   | Pop \<Rightarrow> and_then (LL_pop (Some l) s) (\<lambda>(v, s). Inr (Obj v, s))
   | Unshift v \<Rightarrow> and_then (LL_unshift (Some l) v s) (\<lambda>s. Inr (Done, s))
   | Shift \<Rightarrow> and_then (LL_shift (Some l) s) (\<lambda>(v, s). Inr (Obj v, s))
   | Insert_at i v \<Rightarrow> and_then (LL_insert (Some l) i v s) (\<lambda>s. Inr (Done, s))
   | Extract_at i \<Rightarrow> and_then (LL_extract (Some l) i s) (\<lambda>(v, s). Inr (Obj v, s))
   | Get_at i \<Rightarrow> and_then (LL_get (Some l) i s) (\<lambda>v. Inr (Obj v, s))
   | Count \<Rightarrow> and_then (LL_count (Some l) s) (\<lambda>n. Inr (Number n, s)))"

text \<open>
  The position \<open>LL_insert\<close> inserts before: \<open>n\<close> for the end; negative item numbers count from the
  end, \<open>-1\<close> being after the last item.
\<close>

definition insert_pos :: "int \<Rightarrow> nat \<Rightarrow> nat option" where
  "insert_pos item n = (if item = -1 \<or> item = int n then Some n
     else item_pos (if item < 0 then item + 1 else item) n)"

definition insert_nth :: "nat \<Rightarrow> 'v \<Rightarrow> 'v list \<Rightarrow> 'v list" where
  "insert_nth i v xs = take i xs @ v # drop i xs"

definition remove_nth :: "nat \<Rightarrow> 'v list \<Rightarrow> 'v list" where
  "remove_nth i xs = take i xs @ drop (Suc i) xs"

definition seq_insert :: "nat option \<Rightarrow> 'v option \<Rightarrow> 'v list \<Rightarrow> 'v list" where
  "seq_insert p v xs = (case (p, v) of (Some i, Some x) \<Rightarrow> insert_nth i x xs | _ \<Rightarrow> xs)"

definition seq_extract :: "nat option \<Rightarrow> 'v list \<Rightarrow> 'v option \<times> 'v list" where
  "seq_extract p xs = (case p of Some i \<Rightarrow> (Some (xs ! i), remove_nth i xs) | None \<Rightarrow> (None, xs))"

definition list_spec :: "'v list_op \<Rightarrow> 'v list \<Rightarrow> 'v list_answer \<times> 'v list" where
  "list_spec op xs = (case op of
     Push v \<Rightarrow> (Done, seq_insert (Some (length xs)) v xs)
   | Pop \<Rightarrow> map_prod Obj id (seq_extract (item_pos (-1) (length xs)) xs)
   | Unshift v \<Rightarrow> (Done, seq_insert (Some 0) v xs)
   | Shift \<Rightarrow> map_prod Obj id (seq_extract (item_pos 0 (length xs)) xs)
   | Insert_at i v \<Rightarrow> (Done, seq_insert (insert_pos i (length xs)) v xs)
   | Extract_at i \<Rightarrow> map_prod Obj id (seq_extract (item_pos i (length xs)) xs)
   | Get_at i \<Rightarrow> (Obj (map_option ((!) xs) (item_pos i (length xs))), xs)
   | Count \<Rightarrow> (Number (int (length xs)), xs))"

section \<open>One operation\<close>

text \<open>The list is at \<open>l\<close>, and everything outside its links and the new ones stays as it was.\<close>

definition list_at :: "nat \<Rightarrow> 'v ListStore \<Rightarrow> 'v list \<Rightarrow> bool" where
  "list_at l s xs \<longleftrightarrow> (\<exists>as. ring s l as xs)"

lemma Insert_at_pos:
  assumes "ring s l as xs" and "i \<le> length xs"
  shows "\<exists>s'. Insert l ((as @ [l]) ! i) (Some v) s = Inr s' \<and> list_at l s' (insert_nth i v xs) \<and>
    same_but (insert (fresh s) (set (l # as))) s s'"
proof -
  have len: "length as = length xs" by (rule ring_length [OF assms(1)])
  have hd: "hd (drop i as @ [l]) = (as @ [l]) ! i"
    using len assms(2) by (cases "i = length as") (simp_all add: hd_drop_conv_nth nth_append hd_append)
  show ?thesis
    using Insert_ring [of s l "take i as" "drop i as" "take i xs" "drop i xs" v] assms len
    unfolding hd by (auto simp: list_at_def insert_nth_def)
qed

lemma Extract_at_pos:
  assumes "ring s l as xs" and "i < length xs"
  shows "\<exists>s'. Extract l (as ! i) s = Inr (Some (xs ! i), s') \<and> list_at l s' (remove_nth i xs) \<and>
    same_but (set (l # as)) s s'"
proof -
  have len: "length as = length xs" by (rule ring_length [OF assms(1)])
  have "as = take i as @ as ! i # drop (Suc i) as" "xs = take i xs @ xs ! i # drop (Suc i) xs"
    using assms(2) len by (simp_all add: Cons_nth_drop_Suc)
  then show ?thesis
    using Extract_ring [of s l "take i as" "as ! i" "drop (Suc i) as" "take i xs" "xs ! i" "drop (Suc i) xs"] assms len
    by (auto simp: list_at_def remove_nth_def)
qed

lemma list_sizes: "ring s l as xs \<Longrightarrow> rd_size s l = Inr (int (length xs))"
  by (simp add: ring_def rd_size_def access_def)

lemma list_first: "ring s l as xs \<Longrightarrow> rd_next s l = Inr ((as @ [l]) ! 0)"
  by (cases as) (auto simp: ring_def rd_next_def access_def)

lemma list_last: "ring s l as xs \<Longrightarrow> rd_prev s l = Inr ((l # as) ! length as)"
  using chain_nth [of s "l # as @ [l]" "length as"]
  by (auto simp: ring_def rd_prev_def access_def nth_append nth_Cons')

lemma step_ok:
  assumes r: "ring s l as xs"
  shows "\<exists>s'. list_step l op s = Inr (fst (list_spec op xs), s') \<and> list_at l s' (snd (list_spec op xs)) \<and>
    same_but (insert (fresh s) (set (l # as))) s s'"
proof -
  let ?n = "length xs"
  have len: "length as = ?n" by (rule ring_length [OF r])
  have here: "list_at l s xs" using r by (auto simp: list_at_def)
  have refl: "same_but A s s" for A by (simp add: same_but_def)
  have wide: "same_but (insert (fresh s) (set (l # as))) s s'" if "same_but (set (l # as)) s s'" for s'
    using that by (simp add: same_but_def)
  note facts = list_sizes [OF r] list_first [OF r] list_last [OF r] GetLink_ring [OF r]
  have ins: "\<exists>s'. Insert l ((as @ [l]) ! i) (Some v) s = Inr s' \<and> list_at l s' (insert_nth i v xs) \<and>
      same_but (insert (fresh s) (set (l # as))) s s'" if "i \<le> ?n" for i v
    using Insert_at_pos [OF r that] .
  have ext: "\<exists>s'. Extract l (as ! i) s = Inr (Some (xs ! i), s') \<and> list_at l s' (remove_nth i xs) \<and>
      same_but (insert (fresh s) (set (l # as))) s s'" if "i < ?n" for i
    using Extract_at_pos [OF r that] wide by blast
  show ?thesis
  proof (cases op)
    case (Push v)
    then show ?thesis using ins [of ?n "the v"] here refl len
      by (cases v) (auto simp: list_step_def list_spec_def LL_push_def seq_insert_def nth_append)
  next
    case (Unshift v)
    then show ?thesis using ins [of 0 "the v"] here refl facts
      by (cases v) (auto simp: list_step_def list_spec_def LL_unshift_def seq_insert_def)
  next
    case Pop
    then show ?thesis using ext [of "?n - 1"] here refl facts len
      by (cases "xs = []") (auto simp: list_step_def list_spec_def LL_pop_def seq_extract_def item_pos_def nth_Cons' nat_diff_distrib' Suc_le_eq)
  next
    case Shift
    then show ?thesis using ext [of 0] here refl facts len
      by (cases "xs = []") (auto simp: list_step_def list_spec_def LL_shift_def seq_extract_def item_pos_def nth_append)
  next
    case (Insert_at i v)
    have at: "(as @ [l]) ! j = as ! j" if "j < ?n" for j using that len by (simp add: nth_append)
    show ?thesis
    proof (cases "insert_pos i ?n")
      case None
      then show ?thesis using Insert_at here refl facts
        by (cases v) (auto simp: list_step_def list_spec_def LL_insert_def seq_insert_def insert_pos_def split: if_splits)
    next
      case (Some j)
      then have "j \<le> ?n" by (auto simp: insert_pos_def split: if_splits dest: item_pos_less)
      moreover have "i = -1 \<or> i = int ?n \<Longrightarrow> (as @ [l]) ! j = l" using Some len by (auto simp: insert_pos_def nth_append)
      moreover have "\<not> (i = -1 \<or> i = int ?n) \<Longrightarrow> item_pos (if i < 0 then i + 1 else i) ?n = Some j \<and> (as @ [l]) ! j = as ! j"
        using Some at item_pos_less [of _ ?n j] by (auto simp: insert_pos_def)
      ultimately show ?thesis using Insert_at here refl facts ins [of j "the v"] Some
        by (cases v) (auto simp: list_step_def list_spec_def LL_insert_def seq_insert_def split: if_splits)
    qed
  next
    case (Extract_at i)
    then show ?thesis using ext [of "the (item_pos i ?n)"] here refl facts item_pos_less [of i ?n]
      by (cases "item_pos i ?n") (auto simp: list_step_def list_spec_def LL_extract_def seq_extract_def)
  next
    case (Get_at i)
    then show ?thesis using here refl facts item_pos_less [of i ?n] ring_obj [OF r] r len
      by (cases "item_pos i ?n") (auto simp: list_step_def list_spec_def LL_get_def rd_obj_def access_def ring_def)
  next
    case Count
    then show ?thesis using here refl facts by (auto simp: list_step_def list_spec_def LL_count_def)
  qed
qed

interpretation linked: simulation "list_at l" "list_step l" list_spec for l
proof
  fix s :: "'a ListStore" and xs op
  assume "list_at l s xs"
  then obtain as where "ring s l as xs" by (auto simp: list_at_def)
  from step_ok [OF this, of op] show "\<exists>s'. list_step l op s = Inr (fst (list_spec op xs), s') \<and>
      list_at l s' (snd (list_spec op xs))" by blast
qed

section \<open>Looping, cloning, flushing\<close>

lemma foreach_ring:
  assumes body: "\<And>i c. i < length xs \<Longrightarrow> ring (snd c) l as xs \<Longrightarrow> P i c \<Longrightarrow>
      \<exists>c'. f (xs ! i) c = Inr c' \<and> ring (snd c') l as xs \<and> P (Suc i) c'"
    and start: "ring (snd c) l as xs" "P 0 c" and fuel: "length xs < fuel"
  shows "\<exists>c'. foreach_loop fuel f (Some (LI_init it (Some l))) c = Inr c' \<and> ring (snd c') l as xs \<and> P (length xs) c'"
proof -
  have "\<exists>c'. foreach_loop fuel f (Some \<lparr>li_list = Some l, li_cur = (l # as) ! i\<rparr>) c = Inr c' \<and>
      ring (snd c') l as xs \<and> P (length xs) c'"
    if "ring (snd c) l as xs" "P i c" "i \<le> length xs" "length xs - i < fuel" for i c
    using that
  proof (induction fuel arbitrary: i c)
    case (Suc fuel)
    have len: "length as = length xs" by (rule ring_length [OF Suc.prems(1)])
    have "live (snd c) ((l # as) ! i)"
      using ring_live [OF Suc.prems(1)] Suc.prems(3) len by (metis le_imp_less_Suc length_Cons nth_mem)
    moreover have "(l # as @ [l]) ! i = (l # as) ! i"
      using Suc.prems(3) len nth_append [of "l # as" "[l]" i] by simp
    then have "lk_next (snd c) ((l # as) ! i) = (as @ [l]) ! i"
      using chain_nth [of "snd c" "l # as @ [l]" i] Suc.prems(1,3) len by (auto simp: ring_def)
    ultimately have nxt: "LI_next (Some \<lparr>li_list = Some l, li_cur = (l # as) ! i\<rparr>) (snd c) =
        Inr ((as @ [l]) ! i \<noteq> l, Some \<lparr>li_list = Some l, li_cur = (as @ [l]) ! i\<rparr>)"
      by (simp add: LI_next_def rd_next_def access_def)
    show ?case
    proof (cases "i < length xs")
      case True
      then have at: "(as @ [l]) ! i = as ! i" "as ! i \<noteq> l" "live (snd c) (as ! i)" "lk_obj (snd c) (as ! i) = Some (xs ! i)"
        using Suc.prems(1) len ring_obj [OF Suc.prems(1)] by (auto simp: ring_def nth_append)
      obtain c' where c': "f (xs ! i) c = Inr c'" "ring (snd c') l as xs" "P (Suc i) c'"
        using body [OF True Suc.prems(1,2)] by blast
      have "\<exists>c''. foreach_loop fuel f (Some \<lparr>li_list = Some l, li_cur = (l # as) ! Suc i\<rparr>) c' = Inr c'' \<and>
          ring (snd c'') l as xs \<and> P (length xs) c''"
        using Suc.IH [OF c'(2,3)] True Suc.prems(4) by simp
      then show ?thesis using at c'(1) by (simp add: nxt LI_curr_def rd_obj_def access_def)
    next
      case False
      then have "(as @ [l]) ! i = l" "i = length xs"
        using Suc.prems(3) len nth_append_length [of as l "[]"] by simp_all
      then show ?thesis using Suc.prems nxt by simp
    qed
  qed simp
  from this [of c 0] show ?thesis using start fuel by (simp add: LI_init_def)
qed

definition clone_list :: "('v \<Rightarrow> 'v option) option \<Rightarrow> 'v list \<Rightarrow> 'v list" where
  "clone_list func xs = (case func of Some f \<Rightarrow> List.map_filter f xs | None \<Rightarrow> xs)"

lemma clone_list_snoc:
  "clone_list func (xs @ [x]) = clone_list func xs @ (case (case func of Some f \<Rightarrow> f x | None \<Rightarrow> Some x) of
     None \<Rightarrow> [] | Some y \<Rightarrow> [y])"
  by (cases func) (auto simp: clone_list_def map_filter_simps List.map_filter_def split: option.split)

lemma push_ring:
  "ring s l as xs \<Longrightarrow> \<exists>s'. LL_push (Some l) (Some v) s = Inr s' \<and> ring s' l (as @ [fresh s]) (xs @ [v]) \<and>
     same_but (insert (fresh s) (set (l # as))) s s'"
  using Insert_ring [of s l as "[]" xs "[]" v] ring_length [of s l as xs] by (simp add: LL_push_def)

lemma new_ring: "case LL_new s of (c, s') \<Rightarrow> c = fresh s \<and> ring s' c [] [] \<and> same_but {c} s s'"
  by (simp add: LL_new_def alloc_def ring_def same_but_def)

lemma clone_ring:
  assumes r: "ring s l as xs" and fuel: "length xs < fuel"
  shows "\<exists>c s'. LL_clone fuel func it (Some l) s = Inr (Some c, s') \<and> list_at c s' (clone_list func xs) \<and>
    ring s' l as xs \<and> c \<notin> set (l # as)"
proof -
  obtain c s0 where n: "LL_new s = (c, s0)" "c = fresh s" "ring s0 c [] []" "same_but {c} s s0"
    using new_ring [of s] by (cases "LL_new s") auto
  have c: "c \<notin> set (l # as)" using r n(2) by (auto simp: ring_def)
  define P where "P i k \<longleftrightarrow> (\<exists>cs. ring (snd k) c cs (clone_list func (take i xs)) \<and> set (c # cs) \<inter> set (l # as) = {})"
    for i and k :: "unit \<times> 'a ListStore"
  define g where "g = (\<lambda>v (_ :: unit, s). and_then (LL_push (Some c) (case func of Some f \<Rightarrow> f v | None \<Rightarrow> Some v) s) (\<lambda>s. Inr ((), s)))"
  have body: "\<exists>k'. g (xs ! i) k = Inr k' \<and> ring (snd k') l as xs \<and> P (Suc i) k'"
    if i: "i < length xs" and l: "ring (snd k) l as xs" and P: "P i k" for i k
  proof -
    obtain u t where k: "k = (u, t)" by (cases k)
    obtain cs where cs: "ring t c cs (clone_list func (take i xs))" "set (c # cs) \<inter> set (l # as) = {}"
      using P by (auto simp: P_def k)
    let ?v = "case func of Some f \<Rightarrow> f (xs ! i) | None \<Rightarrow> Some (xs ! i)"
    have step: "clone_list func (take (Suc i) xs) = clone_list func (take i xs) @ (case ?v of None \<Rightarrow> [] | Some y \<Rightarrow> [y])"
      using i by (simp add: take_Suc_conv_app_nth clone_list_snoc)
    show ?thesis
    proof (cases ?v)
      case None
      then show ?thesis using l cs step k by (auto simp: LL_push_def P_def g_def)
    next
      case (Some y)
      obtain t' where t': "LL_push (Some c) (Some y) t = Inr t'" "ring t' c (cs @ [fresh t]) (clone_list func (take i xs) @ [y])"
          "same_but (insert (fresh t) (set (c # cs))) t t'" using push_ring [OF cs(1)] by blast
      have "fresh t \<notin> set (l # as)" using l k by (auto simp: ring_def)
      then have "ring t' l as xs" "set (c # cs @ [fresh t]) \<inter> set (l # as) = {}"
        using ring_frame [OF _ t'(3), of l as xs] l k cs(2) by auto
      then show ?thesis using t' step Some k by (auto simp: P_def g_def intro!: exI [of _ "cs @ [fresh t]"])
    qed
  qed
  have "P 0 ((), s0)" using n(3) c by (auto simp: P_def clone_list_def List.map_filter_def split: option.split)
  moreover have "ring s0 l as xs" using ring_frame [OF r n(4)] c by simp
  ultimately obtain k where "foreach_loop fuel g (Some (LI_init it (Some l))) ((), s0) = Inr k"
      "ring (snd k) l as xs" "P (length xs) k"
    using foreach_ring [where c = "((), s0)" and f = g and P = P and xs = xs and l = l and as = as and fuel = fuel and it = it, OF body] fuel by auto
  then show ?thesis
    using n(1) c by (auto simp: LL_clone_def LL_foreach_def P_def g_def list_at_def case_prod_unfold intro!: exI [of _ c])
qed

lemma flush_ring:
  "list_at l s xs \<Longrightarrow> length xs < fuel \<Longrightarrow> \<exists>s'. LL_flush fuel (Some l) s = Inr (xs, s') \<and> list_at l s' []"
proof (induction fuel arbitrary: s xs)
  case (Suc fuel)
  obtain s' where s': "list_step l Shift s = Inr (fst (list_spec Shift xs), s')" "list_at l s' (snd (list_spec Shift xs))"
    using linked.step_simulates [OF Suc.prems(1), of Shift] by blast
  then have shift: "LL_shift (Some l) s = Inr (if xs = [] then None else Some (hd xs), s')" "list_at l s' (tl xs)"
    by (auto simp: list_step_def list_spec_def seq_extract_def item_pos_def remove_nth_def and_then_Inr hd_conv_nth drop_Suc
        split: if_splits)
  show ?case
    using Suc.IH [OF shift(2)] Suc.prems shift by (cases xs) auto
qed simp

end
