(* ===== verification/List_Sort.thy ===== *)
theory List_Sort
  imports List_Ops "HOL-Library.Multiset"
begin

text \<open>
  The in-place quicksort: it never leaves its segment of the ring, ends, and sorts.
\<close>

section \<open>Segments of a ring\<close>

definition segment :: "'v ListStore \<Rightarrow> nat \<Rightarrow> nat list \<Rightarrow> nat \<Rightarrow> 'v list \<Rightarrow> bool" where
  "segment s b as c xs \<longleftrightarrow> chain s (b # as @ [c]) \<and> distinct as \<and> (\<forall>a\<in>set as. live s a) \<and>
     map (lk_obj s) as = map Some xs"

text \<open>Only objects of links in \<open>A\<close> have changed.\<close>

definition objs_changed :: "nat set \<Rightarrow> 'v ListStore \<Rightarrow> 'v ListStore \<Rightarrow> bool" where
  "objs_changed A s s' \<longleftrightarrow> (\<exists>f. s' = s\<lparr>lk_obj := f\<rparr> \<and> (\<forall>a. a \<notin> A \<longrightarrow> f a = lk_obj s a))"

lemma objs_changed_refl [simp]: "objs_changed A s s"
  by (auto simp: objs_changed_def intro!: exI [of _ "lk_obj s"])

lemma objs_changed_trans:
  assumes "objs_changed A s t" and "objs_changed B t u" and "A \<union> B \<subseteq> C"
  shows "objs_changed C s u"
proof -
  obtain f g where "t = s\<lparr>lk_obj := f\<rparr>" "\<forall>a. a \<notin> A \<longrightarrow> f a = lk_obj s a" "u = t\<lparr>lk_obj := g\<rparr>" "\<forall>a. a \<notin> B \<longrightarrow> g a = lk_obj t a"
    using assms(1,2) by (auto simp: objs_changed_def)
  then show ?thesis using assms(3) unfolding objs_changed_def by (intro exI [of _ g]) (auto, metis subsetD)
qed

lemma objs_changed_chain: "objs_changed A s s' \<Longrightarrow> chain s' ps = chain s ps"
  by (rule chain_cong) (auto simp: objs_changed_def)

lemma chain_mid:
  assumes "chain s (ps @ qs @ rs)"
  shows "chain s qs"
proof (cases qs)
  case (Cons q qs')
  then have False: "qs \<noteq> []" and "chain s (qs @ rs)" using assms chain_append [of s ps q "qs' @ rs"] by simp_all
  then have "chain s (butlast qs @ last qs # rs)" by (metis append.assoc append_Cons append_Nil append_butlast_last_id)
  then have "chain s (butlast qs @ [last qs])" by (subst (asm) chain_append) simp
  then show ?thesis using False by simp
qed simp

lemma segment_length: "segment s b as c xs \<Longrightarrow> length as = length xs"
  unfolding segment_def by (metis length_map)

lemma segment_nth:
  assumes "segment s b as c xs" and "i < length xs"
  shows "live s (as ! i)" and "lk_obj s (as ! i) = Some (xs ! i)" and "lk_next s (as ! i) = (as @ [c]) ! Suc i"
    and "lk_prev s (as ! i) = (b # as) ! i"
proof -
  have len: "length as = length xs" by (rule segment_length [OF assms(1)])
  then show "live s (as ! i)" "lk_obj s (as ! i) = Some (xs ! i)"
    using assms nth_map [of i as "lk_obj s"] by (auto simp: segment_def)
  have "(b # as @ [c]) ! Suc i = as ! i" "(b # as @ [c]) ! Suc (Suc i) = (as @ [c]) ! Suc i"
    "(b # as @ [c]) ! i = (b # as) ! i"
    using assms(2) len nth_append [of "b # as" "[c]" i] by (simp_all add: nth_append)
  then show "lk_next s (as ! i) = (as @ [c]) ! Suc i" "lk_prev s (as ! i) = (b # as) ! i"
    using chain_nth [of s "b # as @ [c]" "Suc i"] chain_nth [of s "b # as @ [c]" i] assms len
    by (auto simp: segment_def)
qed

lemma segment_sub:
  assumes "segment s b (us @ ms @ vs) c (xs @ zs @ ys)" and "length us = length xs" and "length ms = length zs"
  shows "segment s (last (b # us)) ms (hd (vs @ [c])) zs"
proof -
  obtain ps qs where e: "b # us = ps @ [last (b # us)]" "vs @ [c] = hd (vs @ [c]) # qs"
    using last_Cons_append hd_append_single by metis
  have "chain s ((b # us) @ ms @ (vs @ [c]))" using assms(1) by (simp add: segment_def)
  then have "chain s (ps @ last (b # us) # ms @ hd (vs @ [c]) # qs)" using e by (metis append.assoc append_Cons append_Nil)
  then have "chain s (last (b # us) # ms @ hd (vs @ [c]) # qs)" by (subst (asm) chain_append) simp
  then have "chain s ((last (b # us) # ms) @ [hd (vs @ [c])])"
    using chain_append [of s "last (b # us) # ms" "hd (vs @ [c])" qs] by simp
  then show ?thesis using assms by (auto simp: segment_def)
qed

lemma segment_put:
  assumes "segment s b (us @ ms @ vs) c (xs @ zs @ ys)" and "length us = length xs" and "length ms = length zs"
    and "objs_changed (set ms) s s'" and "segment s' b' ms c' zs'"
  shows "segment s' b (us @ ms @ vs) c (xs @ zs' @ ys)"
proof -
  have d: "distinct (us @ ms @ vs)" and m: "map (lk_obj s) us = map Some xs" "map (lk_obj s) vs = map Some ys"
    using assms(1-3) by (auto simp: segment_def)
  obtain f where f: "s' = s\<lparr>lk_obj := f\<rparr>" "\<forall>a. a \<notin> set ms \<longrightarrow> f a = lk_obj s a"
    using assms(4) by (auto simp: objs_changed_def)
  have "map (lk_obj s') us = map (lk_obj s) us" "map (lk_obj s') vs = map (lk_obj s) vs"
    using d f by auto
  then show ?thesis
    using assms(1,5) m f(1) objs_changed_chain [OF assms(4)] by (auto simp: segment_def)
qed

section \<open>Scanning\<close>

lemma scan_up_ok:
  "segment s b as c xs \<Longrightarrow> i \<le> K \<Longrightarrow> K < length xs \<Longrightarrow> cmp (xs ! K) p \<ge> 0 \<Longrightarrow> K - i < fuel \<Longrightarrow>
   \<exists>k. scan_up fuel cmp (Some p) s (as ! i) (int i) = Inr (as ! k, int k) \<and> i \<le> k \<and> k \<le> K \<and> cmp (xs ! k) p \<ge> 0 \<and>
     (\<forall>j. i \<le> j \<and> j < k \<longrightarrow> cmp (xs ! j) p < 0)"
proof (induction fuel arbitrary: i)
  case (Suc fuel)
  note at = segment_nth [OF Suc.prems(1), of i]
  have i: "i < length xs" using Suc.prems by simp
  show ?case
  proof (cases "cmp (xs ! i) p < 0")
    case True
    then have "i \<noteq> K" using Suc.prems(4) by auto
    then have K: "Suc i \<le> K" "K - Suc i < fuel" using Suc.prems by auto
    have "(as @ [c]) ! Suc i = as ! Suc i"
      using K(1) Suc.prems(3) segment_length [OF Suc.prems(1)] by (simp add: nth_append)
    with Suc.IH [OF Suc.prems(1) K(1) Suc.prems(3,4) K(2)] True at i obtain k
      where "scan_up (Suc fuel) cmp (Some p) s (as ! i) (int i) = Inr (as ! k, int k)" "Suc i \<le> k" "k \<le> K"
        "cmp (xs ! k) p \<ge> 0" "\<forall>j. Suc i \<le> j \<and> j < k \<longrightarrow> cmp (xs ! j) p < 0"
      by (auto simp: rd_obj_def rd_next_def access_def call_cmp_def add.commute)
    then show ?thesis using True by (metis Suc_leD le_neq_implies_less Suc_leI)
  next
    case False
    then show ?thesis using at i Suc.prems(2) by (auto simp: rd_obj_def access_def call_cmp_def)
  qed
qed simp

lemma scan_down_ok:
  "segment s b as c xs \<Longrightarrow> K \<le> i \<Longrightarrow> i < length xs \<Longrightarrow> cmp (xs ! K) p \<le> 0 \<Longrightarrow> i - K < fuel \<Longrightarrow>
   \<exists>k. scan_down fuel cmp (Some p) s (as ! i) (int i) = Inr (as ! k, int k) \<and> k \<le> i \<and> K \<le> k \<and> cmp (xs ! k) p \<le> 0 \<and>
     (\<forall>j. k < j \<and> j \<le> i \<longrightarrow> cmp (xs ! j) p > 0)"
proof (induction fuel arbitrary: i)
  case (Suc fuel)
  note at = segment_nth [OF Suc.prems(1), of i]
  show ?case
  proof (cases "cmp (xs ! i) p > 0")
    case True
    then have "i \<noteq> K" using Suc.prems(4) by auto
    then obtain h where h: "i = Suc h" "K \<le> h" "h < length xs" "h - K < fuel" using Suc.prems by (cases i) auto
    with Suc.IH [OF Suc.prems(1) h(2,3) Suc.prems(4) h(4)] True at Suc.prems(3) obtain k
      where "scan_down (Suc fuel) cmp (Some p) s (as ! i) (int i) = Inr (as ! k, int k)" "k \<le> h" "K \<le> k"
        "cmp (xs ! k) p \<le> 0" "\<forall>j. k < j \<and> j \<le> h \<longrightarrow> cmp (xs ! j) p > 0"
      by (auto simp: rd_obj_def rd_prev_def access_def call_cmp_def)
    then show ?thesis using True h(1) by (metis le_Suc_eq)
  next
    case False
    then show ?thesis using at Suc.prems by (auto simp: rd_obj_def access_def call_cmp_def)
  qed
qed simp

section \<open>Partitioning\<close>

text \<open>Before a round: what lies left of \<open>i\<close> and right of \<open>j\<close> (at position \<open>r - 1\<close>) is on its side of the pivot.\<close>

definition halves :: "('v \<Rightarrow> 'v \<Rightarrow> int) \<Rightarrow> 'v \<Rightarrow> 'v list \<Rightarrow> nat \<Rightarrow> nat \<Rightarrow> bool" where
  "halves cmp p xs l r \<longleftrightarrow> (\<forall>k<l. cmp (xs ! k) p \<le> 0) \<and> (\<forall>k. r \<le> k \<and> k < length xs \<longrightarrow> cmp (xs ! k) p \<ge> 0)"

definition round_ok :: "('v \<Rightarrow> 'v \<Rightarrow> int) \<Rightarrow> 'v \<Rightarrow> 'v list \<Rightarrow> nat \<Rightarrow> nat \<Rightarrow> bool" where
  "round_ok cmp p xs l r \<longleftrightarrow> l < length xs \<and> r \<le> length xs \<and> l \<le> r + 1 \<and> halves cmp p xs l r \<and>
     (l = 0 \<and> r = length xs \<and> (\<exists>m. Suc m < length xs \<and> cmp (xs ! m) p = 0) \<or> 1 \<le> l \<and> r < length xs)"

lemma round_stops:
  assumes "round_ok cmp p xs l r"
  shows "\<exists>K. l \<le> K \<and> K < length xs \<and> cmp (xs ! K) p \<ge> 0 \<and> (r = length xs \<longrightarrow> Suc K < length xs)"
    and "l < r \<Longrightarrow> \<exists>K<r. cmp (xs ! K) p \<le> 0"
proof -
  show "\<exists>K. l \<le> K \<and> K < length xs \<and> cmp (xs ! K) p \<ge> 0 \<and> (r = length xs \<longrightarrow> Suc K < length xs)"
  proof (cases "l = 0 \<and> r = length xs")
    case True
    then obtain m where "Suc m < length xs" "cmp (xs ! m) p = 0" using assms by (auto simp: round_ok_def)
    then show ?thesis using True by (intro exI [of _ m]) simp
  next
    case False
    then show ?thesis using assms by (intro exI [of _ "max l r"]) (auto simp: round_ok_def halves_def)
  qed
  show "\<exists>K<r. cmp (xs ! K) p \<le> 0" if "l < r"
  proof (cases "l = 0 \<and> r = length xs")
    case True
    then obtain m where "Suc m < length xs" "cmp (xs ! m) p = 0" using assms by (auto simp: round_ok_def)
    then show ?thesis using True by (intro exI [of _ m]) simp
  next
    case False
    then show ?thesis using assms that by (intro exI [of _ "l - 1"]) (auto simp: round_ok_def halves_def)
  qed
qed

lemma round_swap:
  assumes "round_ok cmp p xs l r" and "l \<le> k" "k \<le> m" "m < r" and "cmp (xs ! k) p \<ge> 0" "cmp (xs ! m) p \<le> 0"
    and "\<forall>j. l \<le> j \<and> j < k \<longrightarrow> cmp (xs ! j) p < 0" "\<forall>j. m < j \<and> j < r \<longrightarrow> cmp (xs ! j) p > 0"
    and "r = length xs \<longrightarrow> Suc k < length xs"
  shows "round_ok cmp p (xs[k := xs ! m, m := xs ! k]) (k + 1) m"
proof -
  have low: "cmp (xs ! j) p \<le> 0" if "j < k" for j
    using that assms(1,7) unfolding round_ok_def halves_def by (cases "j < l") (auto simp: less_imp_le)
  have high: "cmp (xs ! j) p \<ge> 0" if "m < j" "j < length xs" for j
    using that assms(1,8) unfolding round_ok_def halves_def by (cases "j < r") (auto simp: less_imp_le)
  have "halves cmp p (xs[k := xs ! m, m := xs ! k]) (k + 1) m"
    using low high assms(1-6) by (auto simp: halves_def nth_list_update less_Suc_eq round_ok_def)
  moreover have "k + 1 < length xs" "m < length xs" using assms(1-4,9) by (auto simp: round_ok_def)
  ultimately show ?thesis using assms(3) by (auto simp: round_ok_def)
qed

lemma swap_segment:
  assumes s: "segment s b as c xs" and "k < length xs" "m < length xs"
  shows "\<exists>s'. and_then (wr_obj (as ! k) (Some (xs ! m)) s) (wr_obj (as ! m) (Some (xs ! k))) = Inr s' \<and>
    segment s' b as c (xs[k := xs ! m, m := xs ! k]) \<and> objs_changed (set as) s s'"
proof -
  define s' where "s' = s\<lparr>lk_obj := (lk_obj s)(as ! k := Some (xs ! m), as ! m := Some (xs ! k))\<rparr>"
  have len: "length as = length xs" by (rule segment_length [OF s])
  have ch: "objs_changed (set as) s s'" using assms(2,3) len unfolding objs_changed_def s'_def by (intro exI conjI) (rule refl, simp)
  have d: "distinct as" and m: "map (lk_obj s) as = map Some xs" using s by (auto simp: segment_def)
  have "map (lk_obj s') as = map Some (xs[k := xs ! m, m := xs ! k])"
  proof (rule nth_equalityI)
    fix i assume "i < length (map (lk_obj s') as)"
    then show "map (lk_obj s') as ! i = map Some (xs[k := xs ! m, m := xs ! k]) ! i"
      using len assms(2,3) segment_nth(2) [OF s, of i] d by (auto simp: s'_def nth_list_update nth_eq_iff_index_eq)
  qed (simp add: len)
  then have "segment s' b as c (xs[k := xs ! m, m := xs ! k])"
    using s objs_changed_chain [OF ch] by (auto simp: segment_def s'_def)
  moreover have "and_then (wr_obj (as ! k) (Some (xs ! m)) s) (wr_obj (as ! m) (Some (xs ! k))) = Inr s'"
    using segment_nth(1) [OF s] assms(2,3) by (simp add: store_ops s'_def)
  ultimately show ?thesis using ch by blast
qed

lemma partition_ok:
  "segment s b as c xs \<Longrightarrow> round_ok cmp p xs l r \<Longrightarrow> length xs < fuel + l \<Longrightarrow> r < fuel \<Longrightarrow>
   \<exists>l' r' ys s'. partition_loop fuel cmp (Some p) (as ! l) ((b # as) ! r) (int l) (int r - 1) s =
       Inr (as ! l', (b # as) ! r', int l', int r' - 1, s') \<and>
     segment s' b as c ys \<and> objs_changed (set as) s s' \<and> mset ys = mset xs \<and>
     halves cmp p ys l' r' \<and> r' \<le> l' \<and> 1 \<le> l' \<and> l' < length xs \<and> r' < length xs"
proof (induction fuel arbitrary: s xs l r)
  case (Suc fuel)
  let ?n = "length xs"
  note seg = Suc.prems(1) and rnd = Suc.prems(2)
  have len: "length as = ?n" by (rule segment_length [OF seg])
  obtain K where K: "l \<le> K" "K < ?n" "cmp (xs ! K) p \<ge> 0" "r = ?n \<longrightarrow> Suc K < ?n"
    using round_stops(1) [OF rnd] by blast
  have "K - l < fuel" using K Suc.prems(3) by simp
  then obtain k where up: "scan_up fuel cmp (Some p) s (as ! l) (int l) = Inr (as ! k, int k)" "l \<le> k" "k \<le> K"
      "cmp (xs ! k) p \<ge> 0" "\<forall>j. l \<le> j \<and> j < k \<longrightarrow> cmp (xs ! j) p < 0"
    using scan_up_ok [where cmp = cmp and p = p, OF seg K(1-3)] by blast
  have low: "cmp (xs ! j) p \<le> 0" if "j < k" for j
    using that rnd up(5) unfolding round_ok_def halves_def by (cases "j < l") (auto simp: less_imp_le)
  show ?case
  proof (cases "k < r")
    case False
    then have "r < ?n" using up(3) K(2) by simp
    then have "1 \<le> l" using rnd by (auto simp: round_ok_def)
    moreover have "halves cmp p xs k r" using low rnd by (auto simp: halves_def round_ok_def)
    ultimately show ?thesis using up(1-3) False K(2) \<open>r < ?n\<close> seg
      by (intro exI [of _ k] exI [of _ r] exI [of _ xs] exI [of _ s]) auto
  next
    case True
    obtain H where H: "H < r" "cmp (xs ! H) p \<le> 0" using round_stops(2) [OF rnd] True up(2) by auto
    have "r - 1 < ?n" "r - 1 - H < fuel" "H \<le> r - 1" using H rnd Suc.prems(4) by (auto simp: round_ok_def)
    then obtain m where down: "scan_down fuel cmp (Some p) s (as ! (r - 1)) (int (r - 1)) = Inr (as ! m, int m)"
        "m \<le> r - 1" "cmp (xs ! m) p \<le> 0" "\<forall>j. m < j \<and> j \<le> r - 1 \<longrightarrow> cmp (xs ! j) p > 0"
      using scan_down_ok [where cmp = cmp and p = p, OF seg] H(2) by blast
    have j: "(b # as) ! r = as ! (r - 1)" "int r - 1 = int (r - 1)" using True by (auto simp: nth_Cons')
    have scan: "scan_down fuel cmp (Some p) s (as ! (r - Suc 0)) (int r - 1) = Inr (as ! m, int m)"
      using down(1) by (simp only: j One_nat_def)
    have m: "m < r" "m < ?n" using down(2) True rnd by (auto simp: round_ok_def)
    have high: "cmp (xs ! i) p \<ge> 0" if "m < i" "i < ?n" for i
      using that rnd down(4) unfolding round_ok_def halves_def by (cases "i < r") (auto simp: less_imp_le)
    show ?thesis
    proof (cases "k \<le> m")
      case False
      then have "halves cmp p xs k (Suc m)" using low high by (auto simp: halves_def)
      moreover have "partition_loop (Suc fuel) cmp (Some p) (as ! l) ((b # as) ! r) (int l) (int r - 1) s =
          Inr (as ! k, (b # as) ! Suc m, int k, int (Suc m) - 1, s)"
        using False \<open>k < r\<close> by (simp add: up(1) scan)
      moreover have "Suc m \<le> k" "k < ?n" using False up(3) K(2) by simp_all
      ultimately show ?thesis using seg
        by (intro exI [of _ k] exI [of _ "Suc m"] exI [of _ xs] exI [of _ s]) simp
    next
      case True
      let ?ys = "xs[k := xs ! m, m := xs ! k]"
      have k: "k < ?n" using True m by simp
      obtain t where t: "and_then (wr_obj (as ! k) (Some (xs ! m)) s) (wr_obj (as ! m) (Some (xs ! k))) = Inr t"
          "segment t b as c ?ys" "objs_changed (set as) s t" using swap_segment [OF seg k m(2)] by blast
      have "\<forall>j. m < j \<and> j < r \<longrightarrow> cmp (xs ! j) p > 0" using down(4) by auto
      moreover have "r = ?n \<longrightarrow> Suc k < ?n" using K(4) up(3) by auto
      ultimately have "round_ok cmp p ?ys (k + 1) m"
        by (rule round_swap [OF rnd up(2) True m(1) up(4) down(3) up(5)])
      then have "\<exists>l' r' ys s'. partition_loop fuel cmp (Some p) (as ! (k + 1)) ((b # as) ! m) (int (k + 1)) (int m - 1) t =
          Inr (as ! l', (b # as) ! r', int l', int r' - 1, s') \<and>
        segment s' b as c ys \<and> objs_changed (set as) t s' \<and> mset ys = mset ?ys \<and>
        halves cmp p ys l' r' \<and> r' \<le> l' \<and> 1 \<le> l' \<and> l' < length ?ys \<and> r' < length ?ys"
        using Suc.prems(3,4) up(2) m(1) by (intro Suc.IH [OF t(2)]) auto
      then obtain l' r' ys s' where rest: "partition_loop fuel cmp (Some p) (as ! (k + 1)) ((b # as) ! m) (int (k + 1)) (int m - 1) t =
          Inr (as ! l', (b # as) ! r', int l', int r' - 1, s')"
        "segment s' b as c ys" "objs_changed (set as) t s'" "mset ys = mset xs"
        "halves cmp p ys l' r'" "r' \<le> l'" "1 \<le> l'" "l' < ?n" "r' < ?n"
        using mset_swap [OF m(2) k] by auto
      have "k + 1 < ?n" using \<open>round_ok cmp p ?ys (k + 1) m\<close> by (simp add: round_ok_def)
      then have i': "rd_next t (as ! k) = Inr (as ! (k + 1))" and j': "rd_prev t (as ! m) = Inr ((b # as) ! m)"
        using segment_nth [OF t(2), of k] segment_nth [OF t(2), of m] k m(2) len
        by (auto simp: rd_next_def rd_prev_def access_def nth_append)
      have objs: "rd_obj s (as ! k) = Inr (Some (xs ! k))" "rd_obj s (as ! m) = Inr (Some (xs ! m))"
        using segment_nth [OF seg] k m(2) by (auto simp: rd_obj_def access_def)
      have "partition_loop (Suc fuel) cmp (Some p) (as ! l) ((b # as) ! r) (int l) (int r - 1) s =
          Inr (as ! l', (b # as) ! r', int l', int r' - 1, s')"
        using True \<open>k < r\<close> t(1) rest(1)
        by (auto simp: up(1) scan objs i' j' and_then_Inr add.commute)
      then show ?thesis
        using rest objs_changed_trans [OF t(3) rest(3)] by blast
    qed
  qed
qed simp

section \<open>Sorting\<close>

text \<open>The comparison orders the objects: it is transitive, and swapping its arguments swaps its sign.\<close>

definition total_cmp :: "('v \<Rightarrow> 'v \<Rightarrow> int) \<Rightarrow> bool" where
  "total_cmp cmp \<longleftrightarrow> (\<forall>x y. cmp x y < 0 \<longleftrightarrow> cmp y x > 0) \<and>
     (\<forall>x y z. cmp x y \<le> 0 \<longrightarrow> cmp y z \<le> 0 \<longrightarrow> cmp x z \<le> 0)"

definition sorted_by :: "('v \<Rightarrow> 'v \<Rightarrow> int) \<Rightarrow> 'v list \<Rightarrow> bool" where
  "sorted_by cmp xs \<longleftrightarrow> sorted_wrt (\<lambda>x y. cmp x y \<le> 0) xs"

lemma total_cmp_same: "total_cmp cmp \<Longrightarrow> cmp x x = 0"
  unfolding total_cmp_def by (metis less_irrefl not_less_iff_gr_or_eq)

lemma total_cmp_swap: "total_cmp cmp \<Longrightarrow> cmp x y \<ge> 0 \<longleftrightarrow> cmp y x \<le> 0"
  unfolding total_cmp_def by (metis not_less)

lemma halves_sorted:
  assumes t: "total_cmp cmp" and h: "halves cmp p ys l r" and "r \<le> l" "l \<le> length ys"
    and left: "mset us = mset (take r ys)" "sorted_by cmp us" and right: "mset vs = mset (drop l ys)" "sorted_by cmp vs"
  shows "sorted_by cmp (us @ take (l - r) (drop r ys) @ vs)"
proof -
  have sets: "set us = set (take r ys)" "set vs = set (drop l ys)"
    using left(1) right(1) by (metis set_mset_mset)+
  have le: "cmp x p \<le> 0" if "x \<in> set (take l ys)" for x
    using that h by (auto simp: halves_def in_set_conv_nth)
  have ge: "cmp p x \<le> 0" if "x \<in> set (drop r ys)" for x
    using that h total_cmp_swap [OF t] by (auto simp: halves_def in_set_conv_nth)
  have trans: "cmp x y \<le> 0" if "cmp x p \<le> 0" "cmp p y \<le> 0" for x y
    using that t unfolding total_cmp_def by blast
  define mid where "mid = take (l - r) (drop r ys)"
  have "take l ys = take r ys @ mid" "drop r ys = mid @ drop l ys"
    using take_add [of r "l - r" ys] append_take_drop_id [of "l - r" "drop r ys"] assms(3) by (simp_all add: mid_def)
  then have split: "set (take l ys) = set us \<union> set mid" "set (drop r ys) = set mid \<union> set vs"
    by (simp_all add: sets)
  have mid: "sorted_by cmp mid"
    unfolding sorted_by_def sorted_wrt_iff_nth_less using split le ge trans by (metis UnI1 UnI2 nth_mem less_trans)
  have "\<forall>x\<in>set us. \<forall>y\<in>set (mid @ vs). cmp x y \<le> 0" "\<forall>x\<in>set mid. \<forall>y\<in>set vs. cmp x y \<le> 0"
    using split le ge trans by auto
  then show ?thesis
    using left(2) right(2) mid unfolding sorted_by_def mid_def [symmetric] sorted_wrt_append by auto
qed

lemma QuickSort_ok:
  "total_cmp cmp \<Longrightarrow> segment s b as c xs \<Longrightarrow> 2 \<le> length xs \<Longrightarrow> length xs \<le> fuel \<Longrightarrow>
   \<exists>s' ys. QuickSort fuel (hd as) (last as) (int (length xs)) cmp s = Inr s' \<and> segment s' b as c ys \<and>
     objs_changed (set as) s s' \<and> mset ys = mset xs \<and> sorted_by cmp ys"
proof (induction fuel arbitrary: s b as c xs)
  case (Suc fuel)
  let ?n = "length xs"
  note t = Suc.prems(1) and seg = Suc.prems(2)
  have len: "length as = ?n" by (rule segment_length [OF seg])
  have "as \<noteq> []" "xs \<noteq> []" using len Suc.prems(3) by auto
  then have ends: "hd as = as ! 0" "last as = (b # as) ! ?n"
    using Suc.prems(3) len by (simp_all add: hd_conv_nth last_conv_nth nth_Cons')
  define m where "m = nat (int ?n div 2 - 1)"
  have m: "Suc m < ?n" using Suc.prems(3) by (simp add: m_def)
  have ch: "chain s as" using seg chain_mid [of s "[b]" as "[c]"] by (simp add: segment_def)
  have walk: "walk_next m (as ! 0) s = Inr (as ! m)"
    using walk_next_chain [OF ch, of 0 m] seg m len by (simp add: segment_def)
  have obj: "rd_obj s (as ! m) = Inr (Some (xs ! m))"
    using segment_nth [OF seg, of m] m by (simp add: rd_obj_def access_def)
  have "round_ok cmp (xs ! m) xs 0 ?n"
    using m total_cmp_same [OF t] by (auto simp: round_ok_def halves_def)
  moreover have "?n < nat (int ?n) + 2 + 0" "?n < nat (int ?n) + 2" by simp_all
  ultimately obtain l r ys s1 where
      "partition_loop (nat (int ?n) + 2) cmp (Some (xs ! m)) (as ! 0) ((b # as) ! ?n) (int 0) (int ?n - 1) s =
        Inr (as ! l, (b # as) ! r, int l, int r - 1, s1)" and
      s1: "segment s1 b as c ys" "objs_changed (set as) s s1" "mset ys = mset xs"
        "halves cmp (xs ! m) ys l r" "r \<le> l" "1 \<le> l" "l < ?n" "r < ?n"
    using partition_ok [where cmp = cmp and p = "xs ! m", OF seg] by blast
  then have part: "partition_loop (nat (int ?n) + 2) cmp (Some (xs ! m)) (hd as) (last as) 0 (int ?n - 1) s =
        Inr (as ! l, (b # as) ! r, int l, int r - 1, s1)" by (simp only: ends semiring_1_class.of_nat_0)
  have n': "length ys = ?n" using s1(3) by (metis size_mset)
  define us where "us = take r as"
  define ms where "ms = take (l - r) (drop r as)"
  define vs where "vs = drop l as"
  define u where "u = take r ys"
  define mm where "mm = take (l - r) (drop r ys)"
  define v where "v = drop l ys"
  have as: "as = us @ ms @ vs" and ys: "ys = u @ mm @ v"
    using s1(5) append_take_drop_id [of "l - r" "drop r as"] append_take_drop_id [of "l - r" "drop r ys"]
    by (simp_all add: us_def ms_def vs_def u_def mm_def v_def)
  have lens: "length us = length u" "length ms = length mm" "length vs = length v" "length u = r" "length v = ?n - l"
    using len n' s1(5,7,8) by (auto simp: us_def ms_def vs_def u_def mm_def v_def)
  have left: "\<exists>s2 zs. (if int r - 1 + 1 > 1 then QuickSort fuel (hd as) ((b # as) ! r) (int r - 1 + 1) cmp s1 else Inr s1) = Inr s2 \<and>
      segment s2 (last (b # [])) us (hd ((ms @ vs) @ [c])) zs \<and> objs_changed (set us) s1 s2 \<and> mset zs = mset u \<and> sorted_by cmp zs"
  proof -
    have sub: "segment s1 (last (b # [])) us (hd ((ms @ vs) @ [c])) u"
      using segment_sub [of s1 b "[]" us "ms @ vs" c "[]" u "mm @ v"] s1(1) lens as ys by simp
    show ?thesis
    proof (cases "r \<le> 1")
      case True
      then have "sorted_by cmp u" using lens(4) by (cases u) (auto simp: sorted_by_def)
      then show ?thesis using True sub by auto
    next
      case False
      moreover from this have "us \<noteq> []" "length us = r" using lens by auto
      ultimately have e: "hd us = hd as" "last us = (b # as) ! r"
        using len s1(8) last_conv_nth [of us] by (simp_all add: us_def hd_take nth_Cons')
      show ?thesis
        using Suc.IH [OF t sub] False lens(4) s1(8) Suc.prems(4) by (simp add: e)
    qed
  qed
  then obtain s2 zs where run2: "(if int r - 1 + 1 > 1 then QuickSort fuel (hd as) ((b # as) ! r) (int r - 1 + 1) cmp s1 else Inr s1) = Inr s2"
      and s2: "segment s2 (last (b # [])) us (hd ((ms @ vs) @ [c])) zs" "objs_changed (set us) s1 s2" "mset zs = mset u" "sorted_by cmp zs"
    by blast
  have "segment s1 b ([] @ us @ (ms @ vs)) c ([] @ u @ (mm @ v))" using s1(1) as ys by simp
  from segment_put [OF this _ lens(1) s2(2,1)] have seg2: "segment s2 b as c (zs @ mm @ v)" using as by simp
  have lz: "length zs = length u" using s2(3) by (metis size_mset)
  have right: "\<exists>s3 ws. (if int ?n - int l > 1 then QuickSort fuel (as ! l) (last as) (int ?n - int l) cmp s2 else Inr s2) = Inr s3 \<and>
      segment s3 (last (b # us @ ms)) vs (hd ([] @ [c])) ws \<and> objs_changed (set vs) s2 s3 \<and> mset ws = mset v \<and> sorted_by cmp ws"
  proof -
    have sub: "segment s2 (last (b # us @ ms)) vs (hd ([] @ [c])) v"
      using segment_sub [of s2 b "us @ ms" vs "[]" c "zs @ mm" v "[]"] seg2 lens as lz by simp
    show ?thesis
    proof (cases "?n - l \<le> 1")
      case True
      then have "length v \<le> 1" using lens(5) by simp
      then have "sorted_by cmp v" by (cases v) (auto simp: sorted_by_def)
      then show ?thesis using True sub by auto
    next
      case False
      then have e: "hd vs = as ! l" "last vs = last as"
        using len s1(7) by (auto simp: vs_def hd_drop_conv_nth)
      have "int (length v) = int ?n - int l" "int ?n - int l > 1" using lens(5) s1(7) False by linarith+
      then show ?thesis
        using Suc.IH [OF t sub] False lens(5) s1(6) Suc.prems(4) by (simp add: e)
    qed
  qed
  then obtain s3 ws where run3: "(if int ?n - int l > 1 then QuickSort fuel (as ! l) (last as) (int ?n - int l) cmp s2 else Inr s2) = Inr s3"
      and s3: "segment s3 (last (b # us @ ms)) vs (hd ([] @ [c])) ws" "objs_changed (set vs) s2 s3" "mset ws = mset v" "sorted_by cmp ws"
    by blast
  have "segment s2 b ((us @ ms) @ vs @ []) c ((zs @ mm) @ v @ [])" using seg2 as by simp
  from segment_put [OF this _ lens(3) s3(2,1)] have seg3: "segment s3 b as c (zs @ mm @ ws)" using as lens lz by simp
  have "QuickSort (Suc fuel) (hd as) (last as) (int ?n) cmp s = Inr s3"
  proof -
    have "walk_next (nat (int ?n div 2 - 1)) (hd as) s = Inr (as ! m)" using walk by (simp add: ends(1) flip: m_def)
    then show ?thesis by (simp only: QuickSort.simps obj part and_then_simps prod.case run2 run3)
  qed
  moreover have "objs_changed (set as) s s3"
    by (rule objs_changed_trans [OF s1(2) objs_changed_trans [OF s2(2) s3(2) order_refl]]) (auto simp: as)
  moreover have "mset (zs @ mm @ ws) = mset xs" using s2(3) s3(3) s1(3) ys by simp
  moreover have "sorted_by cmp (zs @ mm @ ws)"
    using halves_sorted [OF t s1(4,5) _ s2(3,4)[unfolded u_def] s3(3,4)[unfolded v_def]] s1(7) n' by (simp add: mm_def)
  ultimately show ?case using seg3 by blast
qed simp

lemma sort_ring:
  assumes t: "total_cmp cmp" and r: "ring s l as xs" and fuel: "length xs \<le> fuel"
  shows "\<exists>s' ys. LL_sort fuel (Some l) cmp s = Inr s' \<and> ring s' l as ys \<and> mset ys = mset xs \<and> sorted_by cmp ys"
proof (cases "length xs \<le> 1")
  case True
  then have "sorted_by cmp xs" by (cases xs) (auto simp: sorted_by_def)
  then show ?thesis using True r list_sizes [OF r] by (auto simp: LL_sort_def)
next
  case False
  have len: "length as = length xs" by (rule ring_length [OF r])
  have "segment s l as l xs" using r by (auto simp: ring_def segment_def)
  from QuickSort_ok [OF t this _ fuel] False obtain s' ys where
    sort: "QuickSort fuel (hd as) (last as) (int (length xs)) cmp s = Inr s'" "segment s' l as l ys"
      "objs_changed (set as) s s'" "mset ys = mset xs" "sorted_by cmp ys" by auto
  have ends: "rd_next s l = Inr (hd as)" "rd_prev s l = Inr (last as)"
  proof -
    have "as \<noteq> []" using False len by auto
    then show "rd_next s l = Inr (hd as)" "rd_prev s l = Inr (last as)"
      using list_first [OF r] list_last [OF r] by (simp_all add: hd_conv_nth last_conv_nth nth_append nth_Cons')
  qed
  have "LL_sort fuel (Some l) cmp s = Inr s'"
    using sort(1) ends list_sizes [OF r] False by (simp add: LL_sort_def)
  moreover have "length ys = length xs" using sort(4) by (metis size_mset)
  then have "ring s' l as ys"
    using r sort(2,3) by (auto simp: ring_def segment_def objs_changed_def)
  ultimately show ?thesis using sort(4,5) by blast
qed

end
