(* ===== verification/List_Props.thy ===== *)
theory List_Props
  imports List_Sort
begin

text \<open>
  What linked lists guarantee: sequences of operations, iteration, cloning, sorting, and
  splicing a list in; and where splicing corrupts the ring.
\<close>

section \<open>Splicing a list in\<close>

lemma splice_in_ring:
  assumes l: "ring s l (us @ vs) (xs @ ys)" and len: "length us = length xs"
    and r: "ring s r rs zs" "zs \<noteq> []" and dis: "set (l # us @ vs) \<inter> set (r # rs) = {}"
  shows "\<exists>s'. splice_in l r (hd (vs @ [l])) s = Inr s' \<and> ring s' l (us @ rs @ vs) (xs @ zs @ ys) \<and>
    same_but (set (l # us @ vs) \<union> set (r # rs)) s s' \<and> \<not> live s' r"
proof -
  define q where "q = hd (vs @ [l])"
  define p where "p = last (l # us)"
  define a where "a = hd rs"
  define b where "b = last rs"
  have rs: "rs \<noteq> []" using ring_length [OF r(1)] r(2) by auto
  obtain ps qs where e: "l # us = ps @ [p]" "vs @ [l] = q # qs"
    using last_Cons_append hd_append_single unfolding p_def q_def by metis
  have mem: "p \<in> set (l # us)" "q \<in> set (l # vs)" "a \<in> set rs" "b \<in> set rs"
    using rs by (auto simp: p_def q_def a_def b_def hd_append)
  have ends: "lk_prev s q = p" using ring_ends [OF l] by (simp add: p_def q_def)
  have rends: "lk_next s r = a" "lk_prev s r = b"
    using ring_ends [of s r "[]" rs zs] ring_ends [of s r rs "[]" zs] r(1) rs by (simp_all add: a_def b_def)
  have lv: "live s q" "live s p" "live s a" "live s b" "live s r" "live s l"
    using ring_live [OF l] ring_live [OF r(1)] mem by auto
  have d: "distinct (l # us @ vs)" "distinct (r # rs)" using l r(1) by (auto simp: ring_def)
  have ne: "a \<noteq> r" "b \<noteq> r" "p \<noteq> r" "q \<noteq> r" "r \<noteq> l" using mem d(2) dis by auto
  define s' where "s' = s\<lparr>lk_prev := (lk_prev s)(a := p, q := b), lk_next := (lk_next s)(b := q, p := a),
    ll_size := (ll_size s)(l := ll_size s l + ll_size s r), live := (live s)(r := False)\<rparr>"
  have "splice_in l r q s = Inr s'"
    using lv ends rends ne by (simp add: splice_in_def store_ops s'_def fun_upd_twist)
  moreover have "ring s' l (us @ rs @ vs) (xs @ zs @ ys)"
  proof -
    have "chain s ((l # us) @ (vs @ [l]))" using l by (simp add: ring_def)
    then have c: "chain s (ps @ [p])" "chain s (q # qs)"
      unfolding e using chain_mid [of s "[]" "ps @ [p]" "q # qs"] chain_mid [of s "ps @ [p]" "q # qs" "[]"] by simp_all
    have cr: "chain s rs" using chain_mid [of s "[r]" rs "[r]"] r(1) by (simp add: ring_def)
    have "distinct (ps @ [p])" "set (ps @ [p]) = set (l # us)" "tl (ps @ [p]) = us" unfolding e(1) [symmetric] using d by auto
    then have 1: "chain s' (ps @ [p])"
      using c(1) d dis mem by (subst chain_cong [where s = s]) (auto simp: s'_def)
    have "butlast (q # qs) = vs" "distinct (q # qs)" "set (q # qs) = set (vs @ [l])" unfolding e(2) [symmetric] using d by auto
    then have 2: "chain s' (q # qs)"
      using c(2) d dis mem by (subst chain_cong [where s = s]) (auto simp: s'_def)
    have "b \<notin> set (butlast rs)" "a \<notin> set (tl rs)"
      using d(2) rs by (simp_all add: a_def b_def) (metis append_butlast_last_id distinct_append distinct.simps(2) disjoint_iff list.set_intros(1), metis distinct.simps(2) list.exhaust_sel)
    then have 3: "chain s' rs"
      using cr dis mem by (subst chain_cong [where s = s]) (auto simp: s'_def dest: in_set_butlastD list.set_sel(2) [OF rs])
    obtain rs1 rs2 where "rs = a # rs1" "rs = rs2 @ [b]" using rs by (metis a_def b_def append_butlast_last_id list.exhaust_sel)
    have "chain s' (ps @ p # rs @ q # qs)"
    proof -
      have "p \<noteq> b" "a \<noteq> q" using mem dis by auto
      have "chain s' (rs2 @ b # q # qs)"
        using 2 3 \<open>rs = rs2 @ [b]\<close> \<open>p \<noteq> b\<close> by (subst chain_append) (simp add: s'_def)
      then have "chain s' (rs @ q # qs)" unfolding \<open>rs = rs2 @ [b]\<close> by simp
      then have "chain s' (p # rs @ q # qs)"
        unfolding \<open>rs = a # rs1\<close> using \<open>a \<noteq> q\<close> by (simp add: s'_def)
      with 1 show ?thesis by (subst chain_append) simp
    qed
    then have "chain s' ((l # us) @ rs @ (vs @ [l]))" unfolding e by simp
    then show ?thesis
      using l r(1) dis len unfolding ring_def by (auto simp: s'_def)
  qed
  moreover have "same_but (set (l # us @ vs) \<union> set (r # rs)) s s'" using mem by (auto simp: same_but_def s'_def)
  ultimately show ?thesis unfolding q_def by (auto simp: s'_def)
qed

lemma LL_splice_in:
  assumes l: "ring s l as xs" and r: "ring s r rs zs" "zs \<noteq> []" and dis: "set (l # as) \<inter> set (r # rs) = {}"
    and i: "(if off = int (length xs) then Some (length xs) else item_pos off (length xs)) = Some i"
  shows "\<exists>n s'. LL_splice fuel (Some l) off 0 (Some r) s = Inr (Some n, s') \<and>
    list_at l s' (take i xs @ zs @ drop i xs) \<and> list_at n s' [] \<and> \<not> live s' r"
proof -
  have len: "length as = length xs" by (rule ring_length [OF l])
  have i': "i \<le> length xs" using i item_pos_less [of off "length xs" i] by (auto split: if_splits)
  obtain n s0 where n: "LL_new s = (n, s0)" "n = fresh s" "ring s0 n [] []" "same_but {n} s s0"
    using new_ring [of s] by (cases "LL_new s") auto
  have fresh: "n \<notin> set (l # as) \<union> set (r # rs)" using ring_live [OF l] ring_live [OF r(1)] n(2) by auto
  have l0: "ring s0 l (take i as @ drop i as) (take i xs @ drop i xs)" using ring_frame [OF l n(4)] fresh by simp
  have r0: "ring s0 r rs zs" using ring_frame [OF r(1) n(4)] fresh by simp
  have hd: "hd (drop i as @ [l]) = (as @ [l]) ! i"
    using len i' by (cases "i = length as") (simp_all add: hd_drop_conv_nth nth_append hd_append)
  have cut: "take i as @ drop i as = as" by simp
  from splice_in_ring [OF l0 _ r0 r(2)] len dis obtain s' where s': "splice_in l r ((as @ [l]) ! i) s0 = Inr s'"
      "ring s' l (take i as @ rs @ drop i as) (take i xs @ zs @ drop i xs)"
      "same_but (set (l # as) \<union> set (r # rs)) s0 s'" "\<not> live s' r"
    unfolding hd cut by (auto simp: min_def)
  have "ring s' n [] []" using ring_frame [OF n(3) s'(3)] fresh by simp
  moreover have "(if off = int (length xs) then Inr (Some l) else GetLink l off s) = Inr (Some ((as @ [l]) ! i))"
    using i len GetLink_ring [OF l, of off] item_pos_less [of off "length xs" i] nth_append_length [of as l "[]"]
    by (auto simp: nth_append split: if_splits)
  then have "LL_splice fuel (Some l) off 0 (Some r) s = Inr (Some n, s')"
    using list_sizes [OF l] n(1) s'(1) by (simp add: LL_splice_def)
  ultimately show ?thesis using s'(2,4) by (auto simp: list_at_def)
qed

section \<open>The properties\<close>

definition empty_store :: "'v ListStore" where
  "empty_store = \<lparr>lk_obj = \<lambda>_. None, lk_prev = \<lambda>_. 0, lk_next = \<lambda>_. 0, ll_size = \<lambda>_. 0, live = \<lambda>_. False, fresh = 1\<rparr>"

definition two_items :: "nat ListStore" where
  "two_items = empty_store\<lparr>lk_obj := (\<lambda>_. None)(2 := Some 20, 3 := Some 10), lk_prev := (\<lambda>_. 0)(1 := 3, 2 := 1, 3 := 2),
     lk_next := (\<lambda>_. 0)(1 := 2, 2 := 3, 3 := 1), ll_size := (\<lambda>_. 0)(1 := 2), live := (\<lambda>a. 1 \<le> a \<and> a \<le> 3), fresh := 4\<rparr>"

lemma two_items_ring: "ring two_items 1 [2, 3] [20, 10]"
  by (simp add: ring_def two_items_def empty_store_def)

lemma two_items_list: "list_at 1 two_items [20, 10]"
  using two_items_ring by (auto simp: list_at_def)

text \<open>
  C8 Any sequence of pushes, pops, shifts, unshifts, insertions, extractions, lookups and
  counts on a linked list touches only allocated links, gives the answers the operations on a
  sequence give, and leaves a ring that holds the resulting sequence.
\<close>

theorem list_refines_sequence:
  assumes "list_at l s xs"
  shows "\<exists>s'. run_ops (list_step l) ops s = Inr (fst (spec_ops list_spec ops xs), s') \<and>
    list_at l s' (snd (spec_ops list_spec ops xs))"
  by (rule linked.ops_simulate [OF assms])

lemma list_refines_sequence_witness:
  "\<exists>s'. run_ops (list_step 1) [Push (Some 5), Shift, Insert_at (-2) (Some 7), Get_at 1, Extract_at (-1), Count] two_items =
      Inr (fst (spec_ops list_spec [Push (Some 5), Shift, Insert_at (-2) (Some 7), Get_at 1, Extract_at (-1), Count] [20, 10]), s') \<and>
    list_at 1 s' (snd (spec_ops list_spec [Push (Some 5), Shift, Insert_at (-2) (Some 7), Get_at 1, Extract_at (-1), Count] [20, 10]))"
  by (rule list_refines_sequence [OF two_items_list])

text \<open>
  Cloning a list gives a new list of the cloned objects in order (those the clone
  function gives null for are dropped) and leaves the list as it was.
\<close>

theorem list_clone:
  assumes "ring s l as xs" and "length xs < fuel"
  shows "\<exists>c s'. LL_clone fuel func it (Some l) s = Inr (Some c, s') \<and> list_at c s' (clone_list func xs) \<and>
    ring s' l as xs \<and> c \<notin> set (l # as)"
  by (rule clone_ring [OF assms])

lemma list_clone_witness:
  "\<exists>c s'. LL_clone 3 (Some (\<lambda>x. Some (x + 1))) \<lparr>li_list = None, li_cur = 0\<rparr> (Some 1) two_items = Inr (Some c, s') \<and>
    list_at c s' (clone_list (Some (\<lambda>x. Some (x + 1))) [20, 10]) \<and> ring s' 1 [2, 3] [20, 10] \<and> c \<notin> set (1 # [2, 3])"
  by (rule list_clone [OF two_items_ring]) simp

text \<open>
  C26 Sorting with a comparison that orders the objects ends, never leaves the links of the
  list, and leaves the same objects in order, in the same links; recursion as deep as the list
  is long is enough.
\<close>

theorem list_sort:
  assumes "total_cmp cmp" and "ring s l as xs" and "length xs \<le> fuel"
  shows "\<exists>s' ys. LL_sort fuel (Some l) cmp s = Inr s' \<and> ring s' l as ys \<and> mset ys = mset xs \<and> sorted_by cmp ys"
  by (rule sort_ring [OF assms])

lemma list_sort_witness:
  "\<exists>s' ys. LL_sort 2 (Some 1) (\<lambda>x y. int x - int y) two_items = Inr s' \<and> ring s' 1 [2, 3] ys \<and>
    mset ys = mset [20, 10] \<and> sorted_by (\<lambda>x y. int x - int y) ys"
  by (rule list_sort [OF _ two_items_ring]) (simp_all add: total_cmp_def)

text \<open>
  Splicing a list that is not empty into another one at a valid offset, removing nothing,
  puts its objects there in order and frees its sentinel; the list returned is empty.
\<close>

theorem list_splice_in:
  assumes "ring s l as xs" and "ring s r rs zs" and "zs \<noteq> []" and "set (l # as) \<inter> set (r # rs) = {}"
    and "(if off = int (length xs) then Some (length xs) else item_pos off (length xs)) = Some i"
  shows "\<exists>n s'. LL_splice fuel (Some l) off 0 (Some r) s = Inr (Some n, s') \<and>
    list_at l s' (take i xs @ zs @ drop i xs) \<and> list_at n s' [] \<and> \<not> live s' r"
  by (rule LL_splice_in [OF assms])

definition two_lists :: "nat ListStore" where
  "two_lists = two_items\<lparr>lk_obj := (lk_obj two_items)(5 := Some 30), lk_prev := (lk_prev two_items)(4 := 5, 5 := 4),
     lk_next := (lk_next two_items)(4 := 5, 5 := 4), ll_size := (ll_size two_items)(4 := 1),
     live := (\<lambda>a. 1 \<le> a \<and> a \<le> 5), fresh := 6\<rparr>"

lemma two_lists_rings: "ring two_lists 1 [2, 3] [20, 10]" "ring two_lists 4 [5] [30]"
  by (simp_all add: ring_def two_lists_def two_items_def empty_store_def)

lemma list_splice_in_witness:
  "\<exists>n s'. LL_splice 0 (Some 1) 0 0 (Some 4) two_lists = Inr (Some n, s') \<and>
    list_at 1 s' (take 0 [20, 10] @ [30] @ drop 0 [20, 10]) \<and> list_at n s' [] \<and> \<not> live s' 4"
  by (rule list_splice_in [OF two_lists_rings]) (simp_all add: item_pos_def)

text \<open>
  Splicing corrupts the ring in two cases the code does not exclude. Removing an item at the
  offset after the last one moves the sentinel itself to the new list: the list then counts one
  item, but has none. Splicing in an empty list links the list to the freed sentinel, so that
  the next shift is undefined.
\<close>

theorem list_splice_corrupts:
  "and_then (LL_splice 5 (Some 1) 2 1 None two_items) (\<lambda>(_, s).
     and_then (LL_count (Some 1) s) (\<lambda>n. and_then (LL_get (Some 1) 0 s) (\<lambda>v. Inr (n, v)))) = Inr (1, None) \<and>
   (case LL_new two_items of (e, s) \<Rightarrow>
      and_then (LL_splice 5 (Some 1) 0 0 (Some e) s) (\<lambda>(_, s).
        and_then (LL_shift (Some 1) s) (\<lambda>(v, _). Inr v))) = Inl Undefined_behaviour"
  by code_simp

end
