(* ===== verification/C_Library.thy ===== *)
theory C_Library
  imports CBC_Prelude
begin

text \<open>
  What the code uses of the C library besides \<open>ctype.h\<close>: decimal and hexadecimal output of
  \<open>printf\<close>, \<open>atoi\<close>, \<open>strncpy\<close>-style truncation and division, with the facts on reading back
  what was printed.
\<close>

section \<open>Printing and reading numbers\<close>

fun decimal_nat :: "nat \<Rightarrow> string" where
  "decimal_nat n = (if n < 10 then [digit_char n] else decimal_nat (n div 10) @ [digit_char (n mod 10)])"

declare decimal_nat.simps [simp del]

definition decimal :: "int \<Rightarrow> string" where
  "decimal i = (if i < 0 then CHR ''-'' # decimal_nat (nat (- i)) else decimal_nat (nat i))"

definition hex_digit :: "nat \<Rightarrow> char" where
  "hex_digit d = (if d < 10 then digit_char d else char_of (55 + d))"

text \<open>\<open>%02X\<close> of a plain char: a negative one is extended to the width of an int.\<close>

definition hex_char :: "char \<Rightarrow> string" where
  "hex_char c = (let n = char_nat c; s = [hex_digit (n div 16), hex_digit (n mod 16)]
     in if n < 128 then s else ''FFFFFF'' @ s)"

fun digits_value :: "int \<Rightarrow> string \<Rightarrow> int" where
  "digits_value v (c # s) = (if isdigit c then digits_value (10 * v + (int (char_nat c) - 48)) s else v)"
| "digits_value v [] = v"

text \<open>The number a string starts with, of any size.\<close>

definition leading_number :: "string \<Rightarrow> int" where
  "leading_number s = (let s = dropWhile isspace s in
     if peek s = CHR ''-'' then - digits_value 0 (tl s)
     else if peek s = CHR ''+'' then digits_value 0 (tl s)
     else digits_value 0 s)"

text \<open>
  \<open>atoi\<close> is \<open>(int) strtol (s, NULL, 10)\<close> as in the GNU library: \<open>strtol\<close> stays within the 64 bits
  of a \<open>long\<close>, and the conversion keeps the low 32 of them. (The standard leaves the result of
  \<open>atoi\<close> open for numbers that no \<open>int\<close> holds.)
\<close>

definition strtol10 :: "string \<Rightarrow> int" where
  "strtol10 s = max (- (2 ^ 63)) (min (2 ^ 63 - 1) (leading_number s))"

definition atoi :: "string \<Rightarrow> int" where
  "atoi s = to_int (strtol10 s)"

text \<open>The values of an \<open>int\<close>, and those of an \<open>int\<close> that counts bytes from a start.\<close>

definition fits_int :: "int \<Rightarrow> bool" where
  "fits_int i \<longleftrightarrow> - (2 ^ 31) \<le> i \<and> i < 2 ^ 31"

definition is_offset :: "int \<Rightarrow> bool" where
  "is_offset n \<longleftrightarrow> 0 \<le> n \<and> n < 2 ^ 31"

lemma is_offset_nonneg [dest]: "is_offset n \<Longrightarrow> 0 \<le> n"
  by (simp add: is_offset_def)

lemma is_offset_fits [simp]: "is_offset n \<Longrightarrow> fits_int n"
  by (simp add: is_offset_def fits_int_def)

lemma is_offset_mono: "is_offset n \<Longrightarrow> 0 \<le> m \<Longrightarrow> m \<le> n \<Longrightarrow> is_offset m"
  by (simp add: is_offset_def)

lemma is_offset_div: "is_offset n \<Longrightarrow> 0 < k \<Longrightarrow> is_offset (n div k)"
  using div_by_1 [of n] zdiv_mono2 [of n 1 k] by (intro is_offset_mono [of n "n div k"]) (auto simp: pos_imp_zdiv_nonneg_iff)

lemma is_offset_mod: "is_offset n \<Longrightarrow> 0 < k \<Longrightarrow> is_offset (n mod k)"
  by (intro is_offset_mono [of n "n mod k"]) (auto simp: zmod_le_nonneg_dividend)

lemma decimal_nat_digits: "\<forall>c\<in>set (decimal_nat n). isdigit c"
  by (induction n rule: decimal_nat.induct) (subst decimal_nat.simps, auto)

lemma decimal_nat_nonempty: "decimal_nat n \<noteq> []"
  by (subst decimal_nat.simps) simp

lemma digits_value_append:
  "\<forall>c\<in>set s. isdigit c \<Longrightarrow> digits_value v (s @ t) = digits_value (digits_value v s) t"
  by (induction s arbitrary: v) auto

lemma digits_value_decimal: "digits_value 0 (decimal_nat n) = int n"
proof (induction n rule: decimal_nat.induct)
  case (1 n)
  show ?case
  proof (cases "n < 10")
    case True
    then show ?thesis by (subst decimal_nat.simps) simp
  next
    case False
    have "digits_value 0 (decimal_nat n) = 10 * int (n div 10) + int (n mod 10)"
      using False 1 by (subst decimal_nat.simps) (simp add: digits_value_append [OF decimal_nat_digits])
    moreover have "int n = 10 * int (n div 10) + int (n mod 10)" by presburger
    ultimately show ?thesis by simp
  qed
qed

lemma digits_value_stop: "\<not> isdigit (peek t) \<Longrightarrow> digits_value v t = v"
  by (cases t) auto

lemma decimal_nat_hd: "isdigit (hd (decimal_nat n))"
  using decimal_nat_digits [of n] decimal_nat_nonempty [of n] by (cases "decimal_nat n") auto

lemma isdigit_not_sign: "isdigit c \<Longrightarrow> c \<noteq> CHR ''-'' \<and> c \<noteq> CHR ''+'' \<and> \<not> isspace c \<and> c \<noteq> NUL"
  by (auto simp: ctype_defs)

text \<open>What \<open>%d\<close> wrote is read back, up to the first character that is not a digit.\<close>

lemma leading_number_decimal: "\<not> isdigit (peek t) \<Longrightarrow> leading_number (decimal i @ t) = i"
proof -
  assume t: "\<not> isdigit (peek t)"
  have val: "digits_value 0 (decimal_nat n @ t) = int n" for n
    using digits_value_append [OF decimal_nat_digits, of 0 n t] digits_value_decimal t by (simp add: digits_value_stop)
  obtain c s where c: "decimal_nat (nat i) = c # s" "isdigit c"
    using decimal_nat_nonempty decimal_nat_hd [of "nat i"] by (cases "decimal_nat (nat i)") auto
  have minus: "\<not> isspace (CHR ''-'')" by (simp add: ctype_defs)
  show ?thesis
  proof (cases "i < 0")
    case True
    then show ?thesis using val [of "nat (- i)"] minus by (simp add: leading_number_def decimal_def)
  next
    case False
    then show ?thesis
      using val [of "nat i"] isdigit_not_sign [OF c(2)] by (simp add: leading_number_def decimal_def c(1) Let_def)
  qed
qed

lemma atoi_decimal: "fits_int i \<Longrightarrow> \<not> isdigit (peek t) \<Longrightarrow> atoi (decimal i @ t) = i"
  by (simp add: atoi_def strtol10_def leading_number_decimal fits_int_def cast_s_id)

section \<open>Division and names in messages\<close>

text \<open>Division truncates towards zero, and is undefined for a zero divisor.\<close>

definition c_div :: "int \<Rightarrow> int \<Rightarrow> int run" where
  "c_div a b = (if b = 0 then Inl Undefined_behaviour
     else Inr (if (a < 0) = (b < 0) then \<bar>a\<bar> div \<bar>b\<bar> else - (\<bar>a\<bar> div \<bar>b\<bar>)))"

lemma c_div_pos: "0 \<le> a \<Longrightarrow> 0 < b \<Longrightarrow> c_div a b = Inr (a div b)"
  by (simp add: c_div_def)

end
