(* ===== verification/Member_Expr.thy ===== *)
theory Member_Expr
  imports C_Library
begin

text \<open>
  The member expression walker of \<^verbatim>\<open>cbc/member.c\<close>: the state machine that splits
  \<open>.name[1][2].x+4\<close> into its parts. The buffer for the name is the name of the result.
\<close>

section \<open>The walker\<close>

datatype me_state = ST_MEMBER | ST_INDEX | ST_FINISH_INDEX | ST_SEARCH | ST_TERM

text \<open>The constructors are the return codes with the member of the union they come with.\<close>

datatype me_walk_info = MERV_COMPOUND_MEMBER string bool | MERV_ARRAY_INDEX int | MERV_OFFSET int
  | MERV_ERR_INVALID_MEMBER_START | MERV_ERR_INVALID_INDEX | MERV_ERR_INVALID_CHAR char
  | MERV_ERR_INDEX_NOT_TERMINATED | MERV_ERR_INCOMPLETE | MERV_ERR_TERMINATED | MERV_END

record member_expr =
  me_st :: me_state
  me_p :: string
  startup :: bool
  has_dot :: bool

definition member_expr_walker_new :: "string \<Rightarrow> member_expr" where
  "member_expr_walker_new expr = \<lparr>me_st = ST_SEARCH, me_p = expr, startup = True, has_dot = False\<rparr>"

definition ident_start :: "char \<Rightarrow> bool" where
  "ident_start c \<longleftrightarrow> isalpha c \<or> c = CHR ''_''"

definition ident_char :: "char \<Rightarrow> bool" where
  "ident_char c \<longleftrightarrow> isalnum c \<or> c = CHR ''_''"

text \<open>
  An offset: a plus, digits, blanks and then the end of the string, with at least one
  character after the plus. The result is the number the offset reads.
\<close>

definition offset_here :: "string \<Rightarrow> int option" where
  "offset_here c = (case c of x # rest \<Rightarrow>
       if x = CHR ''+'' \<and> rest \<noteq> [] \<and> dropWhile isspace (dropWhile isdigit rest) = [] then Some (atoi rest) else None
     | [] \<Rightarrow> None)"

text \<open>One turn of the loop: a result with the new state, or the state and position to go on with.\<close>

datatype me_flow = Stop me_walk_info member_expr | Go member_expr string string

definition me_error :: "me_walk_info \<Rightarrow> member_expr \<Rightarrow> me_flow" where
  "me_error info me = Stop info (me\<lparr>me_st := ST_TERM\<rparr>)"

definition me_found :: "me_walk_info \<Rightarrow> member_expr \<Rightarrow> string \<Rightarrow> me_flow" where
  "me_found info me c = Stop info (me\<lparr>me_p := c, me_st := ST_SEARCH\<rparr>)"

definition me_goto :: "me_state \<Rightarrow> member_expr \<Rightarrow> string \<Rightarrow> string \<Rightarrow> me_flow" where
  "me_goto st me ixstr c = Go (me\<lparr>me_st := st, startup := False\<rparr>) ixstr c"

definition me_index :: "member_expr \<Rightarrow> string \<Rightarrow> me_flow" where
  "me_index me c =
     (let d = (if peek c = CHR ''-'' \<or> peek c = CHR ''+'' then tl c else c) in
      if \<not> isdigit (peek d) then me_error MERV_ERR_INVALID_INDEX me
      else me_goto ST_FINISH_INDEX me c (dropWhile isdigit d))"

definition me_search :: "member_expr \<Rightarrow> string \<Rightarrow> string \<Rightarrow> me_flow" where
  "me_search me ixstr c =
     (case offset_here c of Some n \<Rightarrow> me_found (MERV_OFFSET n) me []
      | None \<Rightarrow>
          if peek c = CHR ''.'' then me_goto ST_MEMBER (me\<lparr>has_dot := True\<rparr>) ixstr (tl c)
          else if peek c = CHR ''['' then me_goto ST_INDEX me ixstr (tl c)
          else if \<not> startup me \<or> \<not> ident_start (peek c) then me_error (MERV_ERR_INVALID_CHAR (peek c)) me
          else me_goto ST_MEMBER (me\<lparr>has_dot := False\<rparr>) ixstr c)"

definition me_turn :: "member_expr \<Rightarrow> string \<Rightarrow> string \<Rightarrow> me_flow" where
  "me_turn me ixstr p =
     (let c = dropWhile isspace p in
      if c = [] then
        if me_st me \<noteq> ST_SEARCH then me_error MERV_ERR_INCOMPLETE me
        else Stop MERV_END (me\<lparr>me_st := ST_TERM\<rparr>)
      else case me_st me of
        ST_MEMBER \<Rightarrow>
          if \<not> ident_start (peek c) then me_error MERV_ERR_INVALID_MEMBER_START me
          else me_found (MERV_COMPOUND_MEMBER (hd c # takeWhile ident_char (tl c)) (has_dot me)) me
                 (dropWhile ident_char (tl c))
      | ST_INDEX \<Rightarrow> me_index me c
      | ST_FINISH_INDEX \<Rightarrow>
          if peek c \<noteq> CHR '']'' then me_error MERV_ERR_INDEX_NOT_TERMINATED me
          else me_found (MERV_ARRAY_INDEX (atoi ixstr)) me (tl c)
      | ST_SEARCH \<Rightarrow> me_search me ixstr c
      | ST_TERM \<Rightarrow> me_error MERV_ERR_TERMINATED me)"

lemma me_turn_Nil: "dropWhile isspace p = [] \<Longrightarrow> me_turn me ixstr p =
    (if me_st me \<noteq> ST_SEARCH then me_error MERV_ERR_INCOMPLETE me else Stop MERV_END (me\<lparr>me_st := ST_TERM\<rparr>))"
  unfolding me_turn_def Let_def by (simp only: if_True refl)

lemma me_turn_Cons: "dropWhile isspace p = x # c \<Longrightarrow> me_turn me ixstr p = (case me_st me of
     ST_MEMBER \<Rightarrow>
       if \<not> ident_start x then me_error MERV_ERR_INVALID_MEMBER_START me
       else me_found (MERV_COMPOUND_MEMBER (x # takeWhile ident_char c) (has_dot me)) me (dropWhile ident_char c)
   | ST_INDEX \<Rightarrow> me_index me (x # c)
   | ST_FINISH_INDEX \<Rightarrow>
       if x \<noteq> CHR '']'' then me_error MERV_ERR_INDEX_NOT_TERMINATED me
       else me_found (MERV_ARRAY_INDEX (atoi ixstr)) me c
   | ST_SEARCH \<Rightarrow> me_search me ixstr (x # c)
   | ST_TERM \<Rightarrow> me_error MERV_ERR_TERMINATED me)"
  unfolding me_turn_def Let_def by (simp cong: me_state.case_cong)

lemma me_turn_Go: "me_turn me ixstr p = Go me' ixstr' c' \<Longrightarrow> \<exists>x c. dropWhile isspace p = x # c"
  by (cases "dropWhile isspace p") (auto simp: me_turn_Nil me_error_def split: if_splits)

lemmas me_results = me_index_def me_search_def me_error_def me_found_def me_goto_def

section \<open>The loop ends\<close>

definition me_todo :: "member_expr \<Rightarrow> string \<Rightarrow> nat" where
  "me_todo me c = 2 * length c + (if me_st me = ST_SEARCH then 1 else 0)"

lemma dropWhile_shorter: "length (dropWhile P s) \<le> length s"
  by (induction s) auto

lemma me_turn_shorter: "me_turn me ixstr p = Go me' ixstr' c' \<Longrightarrow> me_todo me' c' < me_todo me p"
proof -
  assume go: "me_turn me ixstr p = Go me' ixstr' c'"
  obtain x c where c: "dropWhile isspace p = x # c" using me_turn_Go [OF go] by blast
  have len: "Suc (length c) \<le> length p" using dropWhile_shorter [of isspace p] c by simp
  have digits: "length (dropWhile isdigit d) < length d" if "isdigit (peek d)" for d
    using that dropWhile_shorter [of isdigit "tl d"] by (cases d) auto
  consider "me_st me = ST_MEMBER" | "me_st me = ST_INDEX" | "me_st me = ST_FINISH_INDEX" | "me_st me = ST_SEARCH" | "me_st me = ST_TERM"
    by (cases "me_st me") auto
  then show ?thesis
  proof cases
    case 2
    define d where "d = (if x = CHR ''-'' \<or> x = CHR ''+'' then c else x # c)"
    have "length d \<le> Suc (length c)" by (simp add: d_def)
    moreover have "isdigit (peek d) \<and> c' = dropWhile isdigit d \<and> me_st me' = ST_FINISH_INDEX"
      using go 2 by (auto simp: me_turn_Cons [OF c] me_results d_def Let_def split: if_splits)
    ultimately show ?thesis using digits [of d] len 2 by (simp add: me_todo_def)
  next
    case 4
    have "(c' = c \<or> c' = x # c) \<and> me_st me' \<noteq> ST_SEARCH"
      using go 4 by (auto simp: me_turn_Cons [OF c] me_results split: if_splits option.splits)
    then show ?thesis using len 4 by (auto simp: me_todo_def)
  qed (use go in \<open>auto simp: me_turn_Cons [OF c] me_results split: if_splits\<close>)
qed

function me_loop :: "member_expr \<Rightarrow> string \<Rightarrow> string \<Rightarrow> me_walk_info \<times> member_expr" where
  "me_loop me ixstr c = (case me_turn me ixstr c of
     Stop info me' \<Rightarrow> (info, me')
   | Go me' ixstr' c' \<Rightarrow> me_loop me' ixstr' c')"
  by pat_completeness auto
termination by (relation "measure (\<lambda>(me, _, c). me_todo me c)") (simp_all add: me_turn_shorter)

declare me_loop.simps [simp del]

definition member_expr_walker_walk :: "member_expr \<Rightarrow> me_walk_info \<times> member_expr" where
  "member_expr_walker_walk me =
     (if me_st me = ST_TERM then (MERV_ERR_TERMINATED, me) else me_loop me [] (me_p me))"

definition member_expr_walker_retval_string :: "me_walk_info \<Rightarrow> string" where
  "member_expr_walker_retval_string info = (case info of
     MERV_COMPOUND_MEMBER _ _ \<Rightarrow> ''MERV_COMPOUND_MEMBER''
   | MERV_ARRAY_INDEX _ \<Rightarrow> ''MERV_ARRAY_INDEX''
   | MERV_OFFSET _ \<Rightarrow> ''MERV_OFFSET''
   | MERV_ERR_INVALID_MEMBER_START \<Rightarrow> ''MERV_ERR_INVALID_MEMBER_START''
   | MERV_ERR_INVALID_INDEX \<Rightarrow> ''MERV_ERR_INVALID_INDEX''
   | MERV_ERR_INVALID_CHAR _ \<Rightarrow> ''MERV_ERR_INVALID_CHAR''
   | MERV_ERR_INDEX_NOT_TERMINATED \<Rightarrow> ''MERV_ERR_INDEX_NOT_TERMINATED''
   | MERV_ERR_INCOMPLETE \<Rightarrow> ''MERV_ERR_INCOMPLETE''
   | MERV_ERR_TERMINATED \<Rightarrow> ''MERV_ERR_TERMINATED''
   | MERV_END \<Rightarrow> ''MERV_END'')"

section \<open>Walking to the end\<close>

definition terminal :: "me_walk_info \<Rightarrow> bool" where
  "terminal info = (case info of MERV_COMPOUND_MEMBER _ _ \<Rightarrow> False | MERV_ARRAY_INDEX _ \<Rightarrow> False
     | MERV_OFFSET _ \<Rightarrow> False | _ \<Rightarrow> True)"

lemma turn_Stop:
  assumes "me_turn me ixstr p = Stop info me'" and "\<not> terminal info"
  shows "length (me_p me') < length p \<and> me_st me' = ST_SEARCH"
proof -
  obtain x c where c: "dropWhile isspace p = x # c"
    using assms by (cases "dropWhile isspace p") (auto simp: me_turn_Nil me_error_def terminal_def split: if_splits)
  have len: "Suc (length c) \<le> length p" using dropWhile_shorter [of isspace p] c by simp
  have "length (dropWhile ident_char c) < length p" using dropWhile_shorter [of ident_char c] len by simp
  then show ?thesis
    using assms len by (cases "me_st me") (auto simp: me_turn_Cons [OF c] me_results terminal_def Let_def split: if_splits option.splits)
qed

lemma me_loop_shorter:
  "me_loop me ixstr c = (info, me') \<Longrightarrow> \<not> terminal info \<Longrightarrow> length (me_p me') < length c \<and> me_st me' = ST_SEARCH"
proof (induction me ixstr c rule: me_loop.induct)
  case (1 me ixstr c)
  show ?case
  proof (cases "me_turn me ixstr c")
    case (Stop info0 me0)
    then show ?thesis using 1 turn_Stop by (auto simp: me_loop.simps [of me])
  next
    case (Go me0 ix0 c0)
    have "length c0 \<le> length c"
    proof -
      obtain x d where d: "dropWhile isspace c = x # d" using me_turn_Go [OF Go] by blast
      have "length (dropWhile isdigit e) \<le> length e" for e by (rule dropWhile_shorter)
      then have "length (dropWhile isdigit e) \<le> Suc (length d)" if "length e \<le> Suc (length d)" for e
        using that le_trans by blast
      then have "length c0 \<le> Suc (length d)"
        using Go by (cases "me_st me") (auto simp: me_turn_Cons [OF d] me_results Let_def split: if_splits option.splits)
      then show ?thesis using dropWhile_shorter [of isspace c] d by simp
    qed
    moreover have "length (me_p me') < length c0 \<and> me_st me' = ST_SEARCH"
      using 1 Go by (simp add: me_loop.simps [of me])
    ultimately show ?thesis by simp
  qed
qed

lemma walk_shorter:
  "member_expr_walker_walk me = (info, me') \<Longrightarrow> \<not> terminal info \<Longrightarrow> length (me_p me') < length (me_p me)"
  using me_loop_shorter [of me "[]" "me_p me" info me']
  by (auto simp: member_expr_walker_walk_def terminal_def split: if_splits)

function walk_all :: "member_expr \<Rightarrow> me_walk_info list" where
  "walk_all me = (case member_expr_walker_walk me of (info, me') \<Rightarrow>
     if terminal info then [info] else info # walk_all me')"
  by pat_completeness auto
termination by (relation "measure (\<lambda>me. length (me_p me))") (auto dest: walk_shorter [OF sym])

declare walk_all.simps [simp del]

section \<open>Reading back what was written\<close>

definition render :: "me_walk_info \<Rightarrow> string" where
  "render info = (case info of
     MERV_COMPOUND_MEMBER name _ \<Rightarrow> CHR ''.'' # name
   | MERV_ARRAY_INDEX i \<Rightarrow> CHR ''['' # decimal i @ '']''
   | MERV_OFFSET n \<Rightarrow> CHR ''+'' # decimal n
   | _ \<Rightarrow> [])"

definition identifier_ok :: "string \<Rightarrow> bool" where
  "identifier_ok s \<longleftrightarrow> s \<noteq> [] \<and> ident_start (hd s) \<and> (\<forall>c\<in>set (tl s). ident_char c)"

text \<open>The parts an expression can have: indices and offsets are C integers.\<close>

fun well_formed :: "me_walk_info list \<Rightarrow> bool" where
  "well_formed [] = True"
| "well_formed (MERV_COMPOUND_MEMBER name dot # ts) = (identifier_ok name \<and> dot \<and> well_formed ts)"
| "well_formed (MERV_ARRAY_INDEX i # ts) = (fits_int i \<and> well_formed ts)"
| "well_formed (MERV_OFFSET n # ts) = (is_offset n \<and> ts = [])"
| "well_formed (_ # ts) = False"

definition render_all :: "me_walk_info list \<Rightarrow> string" where
  "render_all ts = concat (map render ts)"

lemma render_all_simps [simp]: "render_all [] = []" "render_all (t # ts) = render t @ render_all ts"
  "render_all (ts @ us) = render_all ts @ render_all us"
  by (simp_all add: render_all_def)

lemma punctuation:
  "\<not> isspace (CHR ''.'')" "\<not> isspace (CHR ''['')" "\<not> isspace (CHR '']'')" "\<not> isspace (CHR ''+'')" "\<not> isspace (CHR ''-'')"
  "\<not> isdigit (CHR '']'')" "\<not> isdigit (CHR ''-'')" "\<not> ident_char (CHR ''.'')" "\<not> ident_char (CHR ''['')" "\<not> ident_char (CHR ''+'')"
  "\<not> ident_char NUL" "\<not> isdigit (CHR ''.'')"
  by (simp_all add: ctype_defs ident_char_def)

lemma render_stops: "well_formed ts \<Longrightarrow> \<not> ident_char (peek (render_all ts))"
  by (cases ts rule: well_formed.cases) (auto simp: render_def punctuation)

lemma ident_start_not_space: "ident_start c \<Longrightarrow> \<not> isspace c"
  by (auto simp: ident_start_def ctype_defs)

lemma dropWhile_ident: "\<forall>c\<in>set s. P c \<Longrightarrow> \<not> P (peek t) \<Longrightarrow> P NUL = False \<Longrightarrow> takeWhile P (s @ t) = s \<and> dropWhile P (s @ t) = t"
  by (cases t) (auto simp: takeWhile_append dropWhile_append)

lemma walk_member:
  assumes "identifier_ok name" and "\<not> ident_char (peek t)" and "me_st me = ST_SEARCH" and "me_p me = render (MERV_COMPOUND_MEMBER name d) @ t"
  shows "\<exists>me'. member_expr_walker_walk me = (MERV_COMPOUND_MEMBER name True, me') \<and> me_st me' = ST_SEARCH \<and> me_p me' = t"
proof -
  obtain c s where n: "name = c # s" "ident_start c" "\<forall>x\<in>set s. ident_char x" using assms(1) by (cases name) (auto simp: identifier_ok_def)
  have "takeWhile ident_char (s @ t) = s \<and> dropWhile ident_char (s @ t) = t"
    using dropWhile_ident [OF n(3) assms(2)] by (simp add: punctuation)
  then show ?thesis
    using assms(3,4) n(2) ident_start_not_space [OF n(2)]
    by (simp add: member_expr_walker_walk_def me_loop.simps me_turn_Cons me_results offset_here_def render_def n(1) punctuation)
qed

lemma decimal_shape: "\<exists>s c. decimal i = s @ c \<and> (s = [] \<or> s = ''-'') \<and> c \<noteq> [] \<and> (\<forall>x\<in>set c. isdigit x)"
proof (cases "i < 0")
  case True
  then show ?thesis using decimal_nat_digits decimal_nat_nonempty unfolding decimal_def by (intro exI [of _ "''-''"] exI [of _ "decimal_nat (nat (- i))"]) auto
next
  case False
  then show ?thesis using decimal_nat_digits decimal_nat_nonempty unfolding decimal_def by (intro exI [of _ "[]"] exI [of _ "decimal_nat (nat i)"]) auto
qed

lemma walk_index:
  assumes "fits_int i" and "me_st me = ST_SEARCH" and "me_p me = render (MERV_ARRAY_INDEX i) @ t"
  shows "\<exists>me'. member_expr_walker_walk me = (MERV_ARRAY_INDEX i, me') \<and> me_st me' = ST_SEARCH \<and> me_p me' = t"
proof -
  obtain s c where d: "decimal i = s @ c" "s = [] \<or> s = ''-''" "c \<noteq> []" "\<forall>x\<in>set c. isdigit x" using decimal_shape by blast
  obtain x c' where c: "c = x # c'" "isdigit x" using d(3,4) by (cases c) auto
  have "dropWhile isdigit (c @ CHR '']'' # t) = CHR '']'' # t"
    using dropWhile_ident [OF d(4), of "CHR '']'' # t"] by (simp add: punctuation)
  then have rest: "dropWhile isdigit (c' @ CHR '']'' # t) = CHR '']'' # t" using c by simp
  have num: "atoi (decimal i @ CHR '']'' # t) = i" by (rule atoi_decimal [OF assms(1)]) (simp add: punctuation)
  show ?thesis
    using assms(2,3) d(2) num rest isdigit_not_sign [OF c(2)] c(2)
    by (auto simp: member_expr_walker_walk_def me_loop.simps me_turn_Cons me_results offset_here_def
        render_def d(1) c(1) punctuation Let_def)
qed

lemma walk_offset:
  assumes "is_offset n" and "me_st me = ST_SEARCH" and "me_p me = render (MERV_OFFSET n)"
  shows "\<exists>me'. member_expr_walker_walk me = (MERV_OFFSET n, me') \<and> me_st me' = ST_SEARCH \<and> me_p me' = []"
proof -
  have d: "decimal n = decimal_nat (nat n)" using assms(1) by (auto simp: decimal_def)
  have dw: "dropWhile isdigit (decimal n) = []" using decimal_nat_digits d by simp
  have "atoi (decimal n) = n" using atoi_decimal [of n "[]"] assms(1) by simp
  moreover have "decimal n \<noteq> []" using decimal_nat_nonempty d by simp
  ultimately show ?thesis
    using assms(2,3) by (simp add: member_expr_walker_walk_def me_loop.simps me_turn_Cons me_results offset_here_def render_def punctuation dw)
qed

lemma walk_end: "me_st me = ST_SEARCH \<Longrightarrow> me_p me = [] \<Longrightarrow> fst (member_expr_walker_walk me) = MERV_END"
  by (simp add: member_expr_walker_walk_def me_loop.simps me_turn_Nil)

lemma walk_all_render:
  "well_formed ts \<Longrightarrow> me_st me = ST_SEARCH \<Longrightarrow> me_p me = render_all ts \<Longrightarrow> walk_all me = ts @ [MERV_END]"
proof (induction ts arbitrary: me rule: well_formed.induct)
  case 1
  then show ?case using walk_end [of me] by (subst walk_all.simps) (auto simp: terminal_def split: prod.split)
next
  case (2 name dot ts)
  then obtain me' where "member_expr_walker_walk me = (MERV_COMPOUND_MEMBER name True, me')" "me_st me' = ST_SEARCH" "me_p me' = render_all ts"
    using walk_member [of name "render_all ts" me dot] render_stops [of ts] by auto
  with 2 show ?case by (subst walk_all.simps) (simp add: terminal_def)
next
  case (3 i ts)
  then obtain me' where "member_expr_walker_walk me = (MERV_ARRAY_INDEX i, me')" "me_st me' = ST_SEARCH" "me_p me' = render_all ts"
    using walk_index [of i me "render_all ts"] by auto
  with 3 show ?case by (subst walk_all.simps) (simp add: terminal_def)
next
  case (4 n ts)
  then obtain me' where me': "member_expr_walker_walk me = (MERV_OFFSET n, me')" "me_st me' = ST_SEARCH" "me_p me' = []"
    using walk_offset [of n me] by auto
  have "walk_all me' = [MERV_END]" using walk_end [OF me'(2,3)] by (subst walk_all.simps) (auto simp: terminal_def split: prod.split)
  with 4 me' show ?case by (subst walk_all.simps) (simp add: terminal_def)
qed simp_all

end
