(* ===== verification/Member.thy ===== *)
theory Member
  imports Member_Expr Hash_Table Layout
begin

text \<open>
  \<^verbatim>\<open>cbc/member.h\<close> and \<^verbatim>\<open>cbc/member.c\<close>: from an offset to the name of a member, from a member
  expression to its type and offset, and the names of all members. A message that ends a
  call with an exception is the left value of the inner sum. Lists that only grow by
  \<open>LL_push\<close> are HOL lists; recursion over types has fuel. The warnings for compounds without
  declarations (\<open>WARN_UNDEF_STRUCT\<close>) change no result and are left out, and offsets are computed
  without the bounds of an \<open>int\<close>.
\<close>

section \<open>Types\<close>

definition pTypedef :: "CState \<Rightarrow> TypeSpec \<Rightarrow> (TypeSpec \<times> Declarator) run" where
  "pTypedef st ts = (case ts_ptr ts of None \<Rightarrow> Inl Undefined_behaviour
     | Some n \<Rightarrow> (case typedefs st n of None \<Rightarrow> Inl Undefined_behaviour
         | Some td \<Rightarrow> (case (td_list td, td_decl td) of
             (Some l, Some d) \<Rightarrow> (case typedef_lists st l of None \<Rightarrow> Inl Undefined_behaviour
               | Some tds \<Rightarrow> Inr (tl_type tds, d))
           | _ \<Rightarrow> Inl Undefined_behaviour)))"

text \<open>Follow type names until a pointer, an array or a type that is not a type name.\<close>

fun follow_typedefs :: "nat \<Rightarrow> CState \<Rightarrow> TypeSpec \<Rightarrow> (TypeSpec \<times> Declarator) run" where
  "follow_typedefs 0 st ts = Inl Out_of_fuel"
| "follow_typedefs (Suc fuel) st ts = and_then (pTypedef st ts) (\<lambda>(t, d).
     if \<not> pointer_flag d \<and> has_flag (ts_tflags t) T_TYPE \<and> \<not> array_flag d then follow_typedefs fuel st t
     else Inr (t, d))"

definition FOLLOW_AND_CHECK_TSPTR :: "nat \<Rightarrow> CState \<Rightarrow> TypeSpec \<Rightarrow> nat run" where
  "FOLLOW_AND_CHECK_TSPTR fuel st ts =
     and_then (if has_flag (ts_tflags ts) T_TYPE
               then and_then (follow_typedefs fuel st ts) (\<lambda>(t, d). Inr t) else Inr ts) (\<lambda>t.
     if \<not> has_flag (ts_tflags t) T_COMPOUND then Inl Fatal_error
     else case ts_ptr t of None \<Rightarrow> Inl Fatal_error | Some n \<Rightarrow> Inr n)"

definition struct_at :: "CState \<Rightarrow> nat option \<Rightarrow> Struct run" where
  "struct_at st p = (case p of None \<Rightarrow> Inl Undefined_behaviour
     | Some n \<Rightarrow> (case structs st n of None \<Rightarrow> Inl Undefined_behaviour | Some s \<Rightarrow> Inr s))"

definition dimension_count :: "Declarator \<Rightarrow> int" where
  "dimension_count d = (case ext_array d of None \<Rightarrow> -1 | Some vs \<Rightarrow> int (length vs))"

definition dimension_at :: "Declarator \<Rightarrow> int \<Rightarrow> Value run" where
  "dimension_at d i = (case ext_array d of None \<Rightarrow> Inl Undefined_behaviour
     | Some vs \<Rightarrow> if 0 \<le> i \<and> i < int (length vs) then Inr (vs ! nat i) else Inl Undefined_behaviour)"

section \<open>All members\<close>

definition MAX_IXSTR :: nat where "MAX_IXSTR = 15"

text \<open>The digits of an index are written backwards into the buffer, 13 at most.\<close>

function ixstr :: "nat \<Rightarrow> int \<Rightarrow> string \<Rightarrow> string run" where
  "ixstr ixlen ix digits =
     (if ixlen < MAX_IXSTR then
        (let digits = digit_char (nat (ix mod 10)) # digits in
         if ix < 10 then Inr digits else ixstr (ixlen + 1) (ix div 10) digits)
      else Inl Undefined_behaviour)"
  by pat_completeness auto
termination by (relation "measure (\<lambda>(ixlen, _). MAX_IXSTR - ixlen)") auto

declare ixstr.simps [simp del]

text \<open>Without a name the members are only counted.\<close>

datatype AMSInfo = AMS_list "string list" | AMS_count int

definition ams_basic :: "string option \<Rightarrow> AMSInfo \<Rightarrow> AMSInfo" where
  "ams_basic name info = (case (name, info) of
     (Some s, AMS_list l) \<Rightarrow> AMS_list (l @ [s])
   | (_, AMS_count n) \<Rightarrow> AMS_count (n + 1)
   | _ \<Rightarrow> info)"

fun run_fold :: "('x \<Rightarrow> 'i \<Rightarrow> 'i run) \<Rightarrow> 'x list \<Rightarrow> 'i \<Rightarrow> 'i run" where
  "run_fold f [] i = Inr i"
| "run_fold f (x # xs) i = and_then (f x i) (run_fold f xs)"

definition ams_elements ::
  "(string option \<Rightarrow> AMSInfo \<Rightarrow> AMSInfo run) \<Rightarrow> string option \<Rightarrow> int \<Rightarrow> AMSInfo \<Rightarrow> AMSInfo run" where
  "ams_elements f name s = run_fold (\<lambda>i info. case name of
     None \<Rightarrow> f None info
   | Some n \<Rightarrow> and_then (ixstr 2 i []) (\<lambda>ix. f (Some (n @ ''['' @ ix @ '']'')) info)) (map int [0..<nat s])"

definition ams_struct ::
  "(TypeSpec \<Rightarrow> Declarator option \<Rightarrow> int \<Rightarrow> string option \<Rightarrow> AMSInfo \<Rightarrow> AMSInfo run)
    \<Rightarrow> (nat option \<Rightarrow> string option \<Rightarrow> AMSInfo \<Rightarrow> AMSInfo run) \<Rightarrow> nat \<Rightarrow> CState \<Rightarrow> nat option \<Rightarrow> string option \<Rightarrow> AMSInfo \<Rightarrow> AMSInfo run" where
  "ams_struct rec_type rec_struct fuel st p name info = and_then (struct_at st p) (\<lambda>s.
     run_fold (\<lambda>sd info. case sd_declarators sd of
         Some ds \<Rightarrow> run_fold (\<lambda>d info.
             if bitfield_flag d \<and> d_identifier d = [] then Inr info
             else rec_type (sd_type sd) (Some d) 0 (map_option (\<lambda>n. n @ ''.'' @ d_identifier d) name) info) ds info
       | None \<Rightarrow> and_then (FOLLOW_AND_CHECK_TSPTR fuel st (sd_type sd)) (\<lambda>n. rec_struct (Some n) name info))
       (case s_declarations s of None \<Rightarrow> [] | Some sds \<Rightarrow> sds) info)"

fun get_ams_type :: "nat \<Rightarrow> CState \<Rightarrow> TypeSpec \<Rightarrow> Declarator option \<Rightarrow> int \<Rightarrow> string option \<Rightarrow> AMSInfo \<Rightarrow> AMSInfo run"
and get_ams_struct :: "nat \<Rightarrow> CState \<Rightarrow> nat option \<Rightarrow> string option \<Rightarrow> AMSInfo \<Rightarrow> AMSInfo run" where
  "get_ams_type 0 st ts decl dim name info = Inl Out_of_fuel"
| "get_ams_type (Suc fuel) st ts decl dim name info =
     (case decl of
        Some d \<Rightarrow>
          if array_flag d \<and> dim < dimension_count d then
            and_then (dimension_at d dim) (\<lambda>v.
            if has_flag (v_flags v) V_IS_UNDEF then Inr info
            else ams_elements (\<lambda>n i. get_ams_type fuel st ts decl (dim + 1) n i) name (iv v) info)
          else if pointer_flag d then Inr (ams_basic name info)
          else if has_flag (ts_tflags ts) T_TYPE then
            and_then (pTypedef st ts) (\<lambda>(t, d). get_ams_type fuel st t (Some d) 0 name info)
          else if has_flag (ts_tflags ts) T_COMPOUND then get_ams_struct fuel st (ts_ptr ts) name info
          else Inr (ams_basic name info)
      | None \<Rightarrow>
          if has_flag (ts_tflags ts) T_TYPE then
            and_then (pTypedef st ts) (\<lambda>(t, d). get_ams_type fuel st t (Some d) 0 name info)
          else if has_flag (ts_tflags ts) T_COMPOUND then get_ams_struct fuel st (ts_ptr ts) name info
          else Inr (ams_basic name info))"
| "get_ams_struct 0 st p name info = Inl Out_of_fuel"
| "get_ams_struct (Suc fuel) st p name info =
     ams_struct (\<lambda>ts d dim n i. get_ams_type fuel st ts d dim n i) (\<lambda>p n i. get_ams_struct fuel st p n i) fuel st p name info"

record MemberInfo =
  mi_type :: TypeSpec
  mi_parent :: "nat option"
  mi_decl :: "Declarator option"
  mi_level :: int
  mi_offset :: int
  mi_size :: u_32
  mi_flags :: u_32

text \<open>With a list the names are added to it, which the count includes; without one they are counted.\<close>

definition get_all_member_strings :: "nat \<Rightarrow> CState \<Rightarrow> MemberInfo \<Rightarrow> string list option \<Rightarrow> (int \<times> string list option) run" where
  "get_all_member_strings fuel st mi list =
     and_then (get_ams_type fuel st (mi_type mi) (mi_decl mi) (mi_level mi)
       (case list of Some _ \<Rightarrow> Some [] | None \<Rightarrow> None)
       (case list of Some l \<Rightarrow> AMS_list l | None \<Rightarrow> AMS_count 0)) (\<lambda>info.
     Inr (case info of AMS_list l \<Rightarrow> (int (length l), Some l) | AMS_count n \<Rightarrow> (n, None)))"

section \<open>The member at an offset\<close>

datatype GMSRV = GMS_NONE | GMS_PAD | GMS_HIT_OFF | GMS_HIT

definition gms_rank :: "GMSRV \<Rightarrow> nat" where
  "gms_rank r = (case r of GMS_NONE \<Rightarrow> 0 | GMS_PAD \<Rightarrow> 1 | GMS_HIT_OFF \<Rightarrow> 2 | GMS_HIT \<Rightarrow> 3)"

text \<open>The three lists may be missing; the hash table keeps the padding regions apart.\<close>

record GMSInfo =
  gi_hit :: "string list option"
  gi_off :: "string list option"
  gi_pad :: "string list option"
  gi_htpad :: "unit HashTable"

type_synonym gms = "GMSRV \<times> string \<times> GMSInfo option"

definition push_sv :: "string list option \<Rightarrow> string \<Rightarrow> string list option" where
  "push_sv list sv = map_option (\<lambda>l. l @ [sv]) list"

definition gms_pad :: "bool \<Rightarrow> int \<Rightarrow> string \<Rightarrow> GMSInfo option \<Rightarrow> gms" where
  "gms_pad uc realoffset sv info =
     (let sv = sv @ CHR ''+'' # decimal realoffset in
      (GMS_PAD, sv, case info of None \<Rightarrow> None
       | Some gi \<Rightarrow> if gi_pad gi = None then Some gi
           else (let (n, t) = HT_store uc 0 (gi_htpad gi) sv (length sv) 0 None in
             Some (if n \<noteq> 0 then gi\<lparr>gi_htpad := t, gi_pad := push_sv (gi_pad gi) sv\<rparr> else gi\<lparr>gi_htpad := t\<rparr>))))"

fun append_dims :: "Value list \<Rightarrow> int \<Rightarrow> int \<Rightarrow> string \<Rightarrow> (int \<times> string) run" where
  "append_dims [] sz off sv = Inr (off, sv)"
| "append_dims (v # vs) sz off sv =
     and_then (c_div sz (iv v)) (\<lambda>sz. and_then (c_div off sz) (\<lambda>index.
     append_dims vs sz (off - index * sz) (sv @ CHR ''['' # decimal index @ '']'')))"

fun append_decls ::
  "nat \<Rightarrow> CState \<Rightarrow> TypeSpec \<Rightarrow> Declarator \<Rightarrow> int \<Rightarrow> string \<Rightarrow> (TypeSpec \<times> Declarator \<times> int \<times> string) run" where
  "append_decls 0 st ts d off sv = Inl Out_of_fuel"
| "append_decls (Suc fuel) st ts d off sv =
     (if d_size d < 0 then Inl Fatal_error else
      and_then (if array_flag d then append_dims (case ext_array d of None \<Rightarrow> [] | Some vs \<Rightarrow> vs) (d_size d) off sv
                else Inr (off, sv)) (\<lambda>(off, sv).
      if pointer_flag d \<or> \<not> has_flag (ts_tflags ts) T_TYPE then Inr (ts, d, off, sv)
      else and_then (follow_typedefs fuel st ts) (\<lambda>(ts, d). append_decls fuel st ts d off sv)))"

definition append_end ::
  "(nat option \<Rightarrow> int \<Rightarrow> int \<Rightarrow> string \<Rightarrow> GMSInfo option \<Rightarrow> gms run) \<Rightarrow> TypeSpec \<Rightarrow> bool \<Rightarrow> int \<Rightarrow> string \<Rightarrow> GMSInfo option \<Rightarrow> gms run" where
  "append_end rec_struct ts pointer off sv info =
     (if \<not> pointer \<and> has_flag (ts_tflags ts) T_COMPOUND then rec_struct (ts_ptr ts) off off sv info
      else if off > 0 then
        (let sv = sv @ CHR ''+'' # decimal off
         in Inr (GMS_HIT_OFF, sv, map_option (\<lambda>gi. gi\<lparr>gi_off := push_sv (gi_off gi) sv\<rparr>) info))
      else Inr (GMS_HIT, sv, map_option (\<lambda>gi. gi\<lparr>gi_hit := push_sv (gi_hit gi) sv\<rparr>) info))"

definition append_decl ::
  "(nat option \<Rightarrow> int \<Rightarrow> int \<Rightarrow> string \<Rightarrow> GMSInfo option \<Rightarrow> gms run) \<Rightarrow> nat \<Rightarrow> CState \<Rightarrow> TypeSpec \<Rightarrow> Declarator \<Rightarrow> int
    \<Rightarrow> string \<Rightarrow> GMSInfo option \<Rightarrow> gms run" where
  "append_decl rec_struct fuel st ts d off sv info =
     and_then (append_decls fuel st ts d (if d_offset d > 0 then off - d_offset d else off) sv) (\<lambda>(ts, d, off, sv).
     append_end rec_struct ts (pointer_flag d) off sv info)"

definition append_member_string_rec ::
  "(nat option \<Rightarrow> int \<Rightarrow> int \<Rightarrow> string \<Rightarrow> GMSInfo option \<Rightarrow> gms run) \<Rightarrow> nat \<Rightarrow> CState \<Rightarrow> TypeSpec \<Rightarrow> Declarator option \<Rightarrow> int
    \<Rightarrow> string \<Rightarrow> GMSInfo option \<Rightarrow> gms run" where
  "append_member_string_rec rec_struct fuel st ts decl off sv info = (case decl of
     Some d \<Rightarrow> append_decl rec_struct fuel st ts d off
                 (if d_identifier d \<noteq> [] then sv @ CHR ''.'' # d_identifier d else sv) info
   | None \<Rightarrow>
       if has_flag (ts_tflags ts) T_TYPE then
         and_then (pTypedef st ts) (\<lambda>(ts, d). append_decl rec_struct fuel st ts d off sv info)
       else append_end rec_struct ts False off sv info)"

text \<open>A turn of the loops over the members returns, goes on, or goes to the end of a union.\<close>

datatype gms_flow = Ret gms | Cont GMSRV "string option" "GMSInfo option" | Union_end GMSRV "string option" "GMSInfo option"

definition gms_best :: "gms \<Rightarrow> GMSRV \<Rightarrow> string option \<Rightarrow> gms_flow" where
  "gms_best r best bestSV = (case r of (rval, sv, info) \<Rightarrow>
     let (best, bestSV) = (if gms_rank rval > gms_rank best then (rval, Some sv) else (best, bestSV))
     in if best = GMS_HIT \<and> info = None then Union_end best bestSV info else Cont best bestSV info)"

definition gms_take :: "bool \<Rightarrow> gms run \<Rightarrow> GMSRV \<Rightarrow> string option \<Rightarrow> gms_flow run" where
  "gms_take isUnion r best bestSV =
     and_then r (\<lambda>r. Inr (if isUnion then gms_best r best bestSV else Ret r))"

fun gms_declarators ::
  "bool \<Rightarrow> (Declarator \<Rightarrow> GMSInfo option \<Rightarrow> gms run) \<Rightarrow> bool \<Rightarrow> int \<Rightarrow> int \<Rightarrow> string \<Rightarrow> Declarator list
    \<Rightarrow> GMSRV \<Rightarrow> string option \<Rightarrow> GMSInfo option \<Rightarrow> gms_flow run" where
  "gms_declarators uc app isUnion off real sv [] best bestSV info = Inr (Cont best bestSV info)"
| "gms_declarators uc app isUnion off real sv (d # ds) best bestSV info =
     (if d_offset d > off then Inr (Ret (gms_pad uc real sv info))
      else if d_offset d \<le> off \<and> off < d_offset d + d_size d then
        and_then (gms_take isUnion (app d info) best bestSV) (\<lambda>flow. case flow of
          Cont best bestSV info \<Rightarrow> gms_declarators uc app isUnion off real sv ds best bestSV info
        | _ \<Rightarrow> Inr flow)
      else gms_declarators uc app isUnion off real sv ds best bestSV info)"

text \<open>For an unnamed compound in a union the offset is passed on as it is.\<close>

fun gms_declarations ::
  "bool \<Rightarrow> (TypeSpec \<Rightarrow> Declarator \<Rightarrow> GMSInfo option \<Rightarrow> gms run) \<Rightarrow> (TypeSpec \<Rightarrow> int \<Rightarrow> GMSInfo option \<Rightarrow> gms run) \<Rightarrow> bool
    \<Rightarrow> int \<Rightarrow> int \<Rightarrow> string \<Rightarrow> StructDeclaration list \<Rightarrow> GMSRV \<Rightarrow> string option \<Rightarrow> GMSInfo option \<Rightarrow> gms_flow run" where
  "gms_declarations uc app unnamed isUnion off real sv [] best bestSV info = Inr (Cont best bestSV info)"
| "gms_declarations uc app unnamed isUnion off real sv (sd # sds) best bestSV info =
     (if sd_offset sd > off then Inr (Ret (gms_pad uc real sv info))
      else if sd_offset sd \<le> off \<and> off < sd_offset sd + sd_size sd then
        and_then (case sd_declarators sd of
            None \<Rightarrow> gms_take isUnion (unnamed (sd_type sd) (if isUnion then off else off - sd_offset sd) info) best bestSV
          | Some ds \<Rightarrow> gms_declarators uc (app (sd_type sd)) isUnion off real sv ds best bestSV info) (\<lambda>flow. case flow of
          Cont best bestSV info \<Rightarrow> gms_declarations uc app unnamed isUnion off real sv sds best bestSV info
        | _ \<Rightarrow> Inr flow)
      else gms_declarations uc app unnamed isUnion off real sv sds best bestSV info)"

definition gms_finish :: "bool \<Rightarrow> bool \<Rightarrow> int \<Rightarrow> string \<Rightarrow> gms_flow \<Rightarrow> gms run" where
  "gms_finish uc isUnion real sv flow = (case flow of
     Ret r \<Rightarrow> Inr r
   | Cont best bestSV info \<Rightarrow> if \<not> isUnion then Inr (gms_pad uc real sv info)
       else (case bestSV of None \<Rightarrow> Inr (gms_pad uc real sv info) | Some s \<Rightarrow> Inr (best, s, info))
   | Union_end best bestSV info \<Rightarrow> if \<not> isUnion then Inl Fatal_error
       else (case bestSV of None \<Rightarrow> Inl Fatal_error | Some s \<Rightarrow> Inr (best, s, info)))"

fun get_member_string_rec ::
  "nat \<Rightarrow> bool \<Rightarrow> CState \<Rightarrow> nat option \<Rightarrow> int \<Rightarrow> int \<Rightarrow> string \<Rightarrow> GMSInfo option \<Rightarrow> gms run" where
  "get_member_string_rec 0 uc st p off real sv info = Inl Out_of_fuel"
| "get_member_string_rec (Suc fuel) uc st p off real sv info =
     and_then (struct_at st p) (\<lambda>s. case s_declarations s of
       None \<Rightarrow> Inr (GMS_NONE, sv, info)
     | Some sds \<Rightarrow>
         (let isUnion = has_flag (s_tflags s) T_UNION in
          and_then (gms_declarations uc
            (\<lambda>ts d i. append_member_string_rec (\<lambda>p off real sv i. get_member_string_rec fuel uc st p off real sv i) fuel st ts (Some d) off sv i)
            (\<lambda>ts pos i. and_then (FOLLOW_AND_CHECK_TSPTR fuel st ts) (\<lambda>n. get_member_string_rec fuel uc st (Some n) pos real sv i))
            isUnion off real sv sds GMS_NONE None info)
          (gms_finish uc isUnion real sv)))"

text \<open>The remaining dimensions of an array come first; the name is undefined when nothing was found.\<close>

definition get_member_string ::
  "nat \<Rightarrow> bool \<Rightarrow> CState \<Rightarrow> MemberInfo \<Rightarrow> int \<Rightarrow> GMSInfo option \<Rightarrow> (string option \<times> GMSInfo option) run" where
  "get_member_string fuel uc st mi off info =
     and_then (case info of None \<Rightarrow> Inr None
       | Some gi \<Rightarrow> and_then (HT_new_ex 4 0) (\<lambda>t. Inr (Some (gi\<lparr>gi_htpad := t\<rparr>)))) (\<lambda>info.
     and_then (case mi_decl mi of
         Some d \<Rightarrow> if array_flag d \<and> mi_level mi < dimension_count d
           then append_dims (drop (nat (mi_level mi)) (the (ext_array d))) (sint (mi_size mi)) off []
           else Inr (off, [])
       | None \<Rightarrow> Inr (off, [])) (\<lambda>(off, sv).
     and_then (append_member_string_rec (get_member_string_rec fuel uc st) fuel st (mi_type mi) None off sv info) (\<lambda>(rval, sv, info).
     Inr (if rval = GMS_NONE then None else Some sv, info))))"

end
