(* ===== verification/Get_Member.thy ===== *)
theory Get_Member
  imports Member
begin

text \<open>
  \<open>get_member\<close> of \<^verbatim>\<open>cbc/member.c\<close>: following a member expression through a type.
\<close>

section \<open>Looking for a member\<close>

text \<open>Unnamed compounds are searched in place; a negative offset counts as zero.\<close>

fun search_declarations ::
  "(TypeSpec \<Rightarrow> (int \<times> StructDeclaration \<times> Declarator) option run) \<Rightarrow> string \<Rightarrow> StructDeclaration list
    \<Rightarrow> (int \<times> StructDeclaration \<times> Declarator) option run" where
  "search_declarations unnamed elem [] = Inr None"
| "search_declarations unnamed elem (sd # sds) = (case sd_declarators sd of
     Some ds \<Rightarrow> (case find (\<lambda>d. d_identifier d = elem) ds of
         Some d \<Rightarrow> Inr (Some (d_offset d, sd, d))
       | None \<Rightarrow> search_declarations unnamed elem sds)
   | None \<Rightarrow> and_then (unnamed (sd_type sd)) (\<lambda>r. case r of
         Some (at, sd', d) \<Rightarrow> Inr (Some (sd_offset sd + at, sd', d))
       | None \<Rightarrow> search_declarations unnamed elem sds))"

fun search_struct_member :: "nat \<Rightarrow> CState \<Rightarrow> nat \<Rightarrow> string \<Rightarrow> (int \<times> StructDeclaration \<times> Declarator) option run" where
  "search_struct_member 0 st n elem = Inl Out_of_fuel"
| "search_struct_member (Suc fuel) st n elem = and_then (struct_at st (Some n)) (\<lambda>s.
     and_then (search_declarations
         (\<lambda>ts. and_then (FOLLOW_AND_CHECK_TSPTR fuel st ts) (\<lambda>m. search_struct_member fuel st m elem)) elem
         (case s_declarations s of None \<Rightarrow> [] | Some sds \<Rightarrow> sds)) (\<lambda>r.
     Inr (map_option (\<lambda>(at, sd, d). (if at < 0 then 0 else at, sd, d)) r)))"

section \<open>Messages\<close>

text \<open>
  Names longer than 20 characters are cut; one of exactly 20 characters is copied without a
  terminator into a buffer that has not been written before.
\<close>

definition TRUNC_NAME :: "string \<Rightarrow> string run" where
  "TRUNC_NAME name = (if length name = 20 then Inl Undefined_behaviour
     else Inr (if length name > 20 then take 17 name @ ''...'' else name))"

definition quoted :: "string \<Rightarrow> string" where
  "quoted s = CHR 0x27 # s @ [CHR 0x27]"

definition croak :: "string \<Rightarrow> (string + 'a) run" where
  "croak msg = Inr (Inl msg)"

definition invalid_char_message :: "char \<Rightarrow> string" where
  "invalid_char_message c = ''Invalid character '' @ quoted [c] @ '' (0x'' @ hex_char c @ '') in compound member expression''"

definition cannot_access_member :: "string \<Rightarrow> string \<Rightarrow> (string + 'a) run" where
  "cannot_access_member name kind = and_then (TRUNC_NAME name) (\<lambda>t.
     croak (''Cannot access member '' @ quoted t @ '' of '' @ kind @ '' type''))"

definition walk_error :: "me_walk_info \<Rightarrow> string" where
  "walk_error info = (case info of
     MERV_ERR_INVALID_MEMBER_START \<Rightarrow> ''Struct members must start with a character or an underscore''
   | MERV_ERR_INVALID_INDEX \<Rightarrow> ''Array indices must be constant decimal values''
   | MERV_ERR_INVALID_CHAR c \<Rightarrow> invalid_char_message c
   | MERV_ERR_INDEX_NOT_TERMINATED \<Rightarrow> ''Index operator not terminated correctly''
   | _ \<Rightarrow> ''Incomplete compound member expression'')"

section \<open>One part of the expression\<close>

abbreviation CBC_GM_ACCEPT_DOTLESS_MEMBER :: u_32 where "CBC_GM_ACCEPT_DOTLESS_MEMBER \<equiv> 0x00000001"
abbreviation CBC_GM_DONT_CROAK :: u_32 where "CBC_GM_DONT_CROAK \<equiv> 0x00000002"
abbreviation CBC_GM_NO_OFFSET_SIZE_CALC :: u_32 where "CBC_GM_NO_OFFSET_SIZE_CALC \<equiv> 0x00000004"
abbreviation CBC_GM_REJECT_OUT_OF_BOUNDS_INDEX :: u_32 where "CBC_GM_REJECT_OUT_OF_BOUNDS_INDEX \<equiv> 0x00000008"
abbreviation CBC_GM_REJECT_OFFSET :: u_32 where "CBC_GM_REJECT_OFFSET \<equiv> 0x00000010"

definition do_calc :: "u_32 \<Rightarrow> bool" where
  "do_calc gm_flags \<longleftrightarrow> \<not> has_flag gm_flags CBC_GM_NO_OFFSET_SIZE_CALC"

record gm =
  g_type :: TypeSpec
  g_decl :: "Declarator option"
  g_struct :: "nat option"
  g_level :: int
  g_size :: int
  g_offset :: int
  g_name :: "string option"
  g_flags :: u_32
  g_dotless :: bool

definition PROPAGATE_FLAGS :: "u_32 \<Rightarrow> gm \<Rightarrow> gm" where
  "PROPAGATE_FLAGS from g = g\<lparr>g_flags := g_flags g OR (from AND (T_HASBITFIELD OR T_UNSAFE_VAL))\<rparr>"

text \<open>Type names are followed when the dimensions of the declarator are used up.\<close>

definition gm_follow :: "nat \<Rightarrow> CState \<Rightarrow> u_32 \<Rightarrow> gm \<Rightarrow> gm run" where
  "gm_follow fuel st gm_flags g = (case g_decl g of None \<Rightarrow> Inr g
     | Some d \<Rightarrow>
         if \<not> pointer_flag d \<and> has_flag (ts_tflags (g_type g)) T_TYPE
            \<and> g_level g = (if array_flag d then dimension_count d else 0) then
           and_then (follow_typedefs fuel st (g_type g)) (\<lambda>(t, d).
           Inr (g\<lparr>g_type := t, g_decl := Some d, g_level := 0,
                  g_size := (if do_calc gm_flags then d_size d else g_size g)\<rparr>))
         else Inr g)"

definition gm_member :: "nat \<Rightarrow> CState \<Rightarrow> u_32 \<Rightarrow> string \<Rightarrow> bool \<Rightarrow> gm \<Rightarrow> (string + gm) run" where
  "gm_member fuel st gm_flags name dot g =
     (if \<not> g_dotless g \<and> \<not> dot then croak (invalid_char_message (peek name))
      else if (case g_decl g of Some d \<Rightarrow> array_flag d \<and> g_level g < dimension_count d | None \<Rightarrow> False)
        then cannot_access_member name ''array''
      else if (case g_decl g of Some d \<Rightarrow> pointer_flag d | None \<Rightarrow> False) then cannot_access_member name ''pointer''
      else if \<not> has_flag (ts_tflags (g_type g)) T_COMPOUND then cannot_access_member name ''non-compound''
      else and_then (struct_at st (ts_ptr (g_type g))) (\<lambda>s.
        and_then (search_struct_member fuel st (the (ts_ptr (g_type g))) name) (\<lambda>r. case r of
          None \<Rightarrow> and_then (TRUNC_NAME name) (\<lambda>t.
            croak (''Cannot find '' @ (if has_flag (s_tflags s) T_STRUCT then ''struct'' else ''union'') @ '' member '' @ quoted t))
        | Some (t_off, sd, d) \<Rightarrow>
            Inr (Inr ((PROPAGATE_FLAGS (s_tflags s) g)\<lparr>g_type := sd_type sd, g_decl := Some d, g_struct := ts_ptr (g_type g),
              g_size := (if do_calc gm_flags then d_size d else g_size g),
              g_offset := (if do_calc gm_flags then g_offset g + t_off else g_offset g),
              g_level := 0, g_name := Some name\<rparr>)))))"

text \<open>The elements of an array without a first dimension: the item size times the inner dimensions.\<close>

fun inner_size :: "Value list \<Rightarrow> int \<Rightarrow> int" where
  "inner_size [] sz = sz"
| "inner_size (v # vs) sz = inner_size vs (sz * iv v)"

definition gm_index :: "u_32 \<Rightarrow> int \<Rightarrow> gm \<Rightarrow> (string + gm) run" where
  "gm_index gm_flags index g =
     (case g_decl g of
        Some d \<Rightarrow>
          if g_level g = 0 \<and> \<not> array_flag d then
            (case g_name g of Some n \<Rightarrow> and_then (TRUNC_NAME n) (\<lambda>t. croak (''Cannot use '' @ quoted t @ '' as an array''))
             | None \<Rightarrow> croak ''Cannot use type as an array'')
          else and_then (check Assertion_failed (array_flag d)) (\<lambda>_.
            if g_level g \<ge> dimension_count d then
              (case g_name g of
                 Some n \<Rightarrow> and_then (TRUNC_NAME n) (\<lambda>t. croak (''Cannot use '' @ quoted t @ '' as a '' @ decimal (g_level g + 1) @ ''-dimensional array''))
               | None \<Rightarrow> croak (''Cannot use type as a '' @ decimal (g_level g + 1) @ ''-dimensional array''))
            else and_then (dimension_at d (g_level g)) (\<lambda>v.
              and_then
                (if has_flag (v_flags v) V_IS_UNDEF then
                   (if do_calc gm_flags then
                      (if d_item_size d \<le> 0 then Inl Fatal_error
                       else Inr (Inr (inner_size (rev (drop (nat (g_level g + 1)) (the (ext_array d)))) (d_item_size d))))
                    else Inr (Inr (g_size g)))
                 else if has_flag gm_flags CBC_GM_REJECT_OUT_OF_BOUNDS_INDEX \<and> index < 0
                   then croak (''Cannot use negative index '' @ decimal index @ '' into array'')
                 else if has_flag gm_flags CBC_GM_REJECT_OUT_OF_BOUNDS_INDEX \<and> index \<ge> iv v
                   then croak (''Cannot use index '' @ decimal index @ '' into array of size '' @ decimal (iv v))
                 else if do_calc gm_flags then
                   (if g_size g < 0 then Inl Fatal_error else and_then (c_div (g_size g) (iv v)) (\<lambda>sz. Inr (Inr sz)))
                 else Inr (Inr (g_size g))) (\<lambda>r. case r of
                Inl msg \<Rightarrow> croak msg
              | Inr sz \<Rightarrow>
                  if do_calc gm_flags \<and> sz < 0 then Inl Fatal_error
                  else Inr (Inr (g\<lparr>g_size := sz, g_offset := (if do_calc gm_flags then g_offset g + index * sz else g_offset g),
                         g_level := g_level g + 1\<rparr>)))))
      | None \<Rightarrow>
          (case g_name g of Some n \<Rightarrow> and_then (TRUNC_NAME n) (\<lambda>t. croak (''Cannot use '' @ quoted t @ '' as an array''))
           | None \<Rightarrow> croak ''Cannot use type as an array''))"

definition gm_offset :: "u_32 \<Rightarrow> int \<Rightarrow> gm \<Rightarrow> (string + gm) run" where
  "gm_offset gm_flags k g =
     (if has_flag gm_flags CBC_GM_REJECT_OFFSET then croak ''Cannot use offset in compound member expression''
      else Inr (Inr (g\<lparr>g_offset := (if do_calc gm_flags then g_offset g + k else g_offset g)\<rparr>)))"

definition gm_step :: "nat \<Rightarrow> CState \<Rightarrow> u_32 \<Rightarrow> me_walk_info \<Rightarrow> gm \<Rightarrow> (string + gm) run" where
  "gm_step fuel st gm_flags info g =
     (if terminal info then (if info = MERV_ERR_TERMINATED then Inl Fatal_error else croak (walk_error info))
      else and_then (gm_follow fuel st gm_flags (PROPAGATE_FLAGS (ts_tflags (g_type g)) g)) (\<lambda>g.
        and_then (case info of
            MERV_COMPOUND_MEMBER name dot \<Rightarrow> gm_member fuel st gm_flags name dot g
          | MERV_ARRAY_INDEX index \<Rightarrow> gm_index gm_flags index g
          | MERV_OFFSET k \<Rightarrow> gm_offset gm_flags k g
          | _ \<Rightarrow> Inl Fatal_error) (\<lambda>r. Inr (map_sum id (\<lambda>g. g\<lparr>g_dotless := False\<rparr>) r))))"

section \<open>The whole expression\<close>

function gm_loop :: "nat \<Rightarrow> CState \<Rightarrow> u_32 \<Rightarrow> member_expr \<Rightarrow> gm \<Rightarrow> (string + gm) run" where
  "gm_loop fuel st gm_flags walker g = (case member_expr_walker_walk walker of (info, walker) \<Rightarrow>
     if info = MERV_END then Inr (Inr g)
     else if terminal info then gm_step fuel st gm_flags info g
     else and_then (gm_step fuel st gm_flags info g) (\<lambda>r. case r of
       Inl msg \<Rightarrow> croak msg | Inr g \<Rightarrow> gm_loop fuel st gm_flags walker g))"
  by pat_completeness auto
termination by (relation "measure (\<lambda>(_, _, _, w, _). length (me_p w))") (auto dest: walk_shorter [OF sym])

declare gm_loop.simps [simp del]

fun level_size :: "Declarator \<Rightarrow> nat \<Rightarrow> int \<Rightarrow> int run" where
  "level_size d 0 sz = Inr sz"
| "level_size d (Suc i) sz = and_then (level_size d i sz) (\<lambda>sz. and_then (dimension_at d (int i)) (\<lambda>v. c_div sz (iv v)))"

definition gm_start :: "CState \<Rightarrow> MemberInfo \<Rightarrow> u_32 \<Rightarrow> gm run" where
  "gm_start st mi gm_flags =
     and_then (if mi_decl mi = None \<and> has_flag (ts_tflags (mi_type mi)) T_TYPE
               then and_then (pTypedef st (mi_type mi)) (\<lambda>(t, d). Inr (t, Some d)) else Inr (mi_type mi, mi_decl mi)) (\<lambda>(t, decl).
     and_then (if \<not> do_calc gm_flags then Inr 0 else (case decl of None \<Rightarrow> Inr (-1)
        | Some d \<Rightarrow> if mi_level mi > 0 then
            and_then (check Assertion_failed (array_flag d)) (\<lambda>_.
            if d_size d < 0 then Inl Fatal_error else level_size d (nat (mi_level mi)) (d_size d))
          else Inr (d_size d))) (\<lambda>sz.
     Inr \<lparr>g_type = t, g_decl = decl, g_struct = None, g_level = mi_level mi, g_size = sz, g_offset = 0, g_name = None,
          g_flags = 0, g_dotless = has_flag gm_flags CBC_GM_ACCEPT_DOTLESS_MEMBER\<rparr>))"

text \<open>\<open>None\<close> is the result zero, when the caller wants no exception.\<close>

definition get_member :: "nat \<Rightarrow> CState \<Rightarrow> MemberInfo \<Rightarrow> string \<Rightarrow> u_32 \<Rightarrow> (string + MemberInfo option) run" where
  "get_member fuel st mi expr gm_flags =
     and_then (gm_start st mi gm_flags) (\<lambda>g.
     and_then (gm_loop fuel st gm_flags (member_expr_walker_new expr) g) (\<lambda>r. case r of
       Inl msg \<Rightarrow> if has_flag gm_flags CBC_GM_DONT_CROAK then Inr (Inr None) else croak msg
     | Inr g \<Rightarrow> Inr (Inr (Some \<lparr>mi_type = g_type g, mi_parent = g_struct g, mi_decl = g_decl g, mi_level = g_level g,
          mi_offset = g_offset g, mi_size = word_of_int (g_size g), mi_flags = g_flags g\<rparr>))))"

end
