(* ===== verification/Member_Sound.thy ===== *)
theory Member_Sound
  imports Get_Member
begin

text \<open>
  When a compound is laid out soundly down to its last member, and what it means that a list
  of parts of a member expression leads to an offset.
\<close>

section \<open>Sound members\<close>

fun dims_divide :: "Value list \<Rightarrow> int \<Rightarrow> bool" where
  "dims_divide [] sz = True"
| "dims_divide (v # vs) sz =
     (\<not> has_flag (v_flags v) V_IS_UNDEF \<and> 0 < iv v \<and> 0 < sz div iv v \<and> dims_divide vs (sz div iv v))"

text \<open>An array has dimensions, each with a positive size, and they leave a positive element size.\<close>

definition dims_ok :: "Declarator \<Rightarrow> bool" where
  "dims_ok d \<longleftrightarrow> 0 \<le> d_size d \<and> (array_flag d \<longrightarrow>
     (case ext_array d of None \<Rightarrow> False | Some vs \<Rightarrow> vs \<noteq> [] \<and> dims_divide vs (d_size d)))"

text \<open>The type names behind a declarator lead to a sound compound, a pointer or a basic type.\<close>

fun chain_ok :: "(nat \<Rightarrow> bool) \<Rightarrow> nat \<Rightarrow> CState \<Rightarrow> TypeSpec \<Rightarrow> Declarator \<Rightarrow> bool" where
  "chain_ok sound 0 st ts d \<longleftrightarrow> False"
| "chain_ok sound (Suc k) st ts d \<longleftrightarrow> dims_ok d \<and>
     (if pointer_flag d then True
      else if has_flag (ts_tflags ts) T_TYPE then
        (case follow_typedefs k st ts of Inl _ \<Rightarrow> False | Inr (ts, d) \<Rightarrow> chain_ok sound k st ts d)
      else has_flag (ts_tflags ts) T_COMPOUND \<longrightarrow> (case ts_ptr ts of None \<Rightarrow> False | Some n \<Rightarrow> sound n))"

text \<open>The members of a compound, with those of its unnamed compounds, and their offsets.\<close>

type_synonym member_entry = "string \<times> int \<times> StructDeclaration \<times> Declarator"

definition declared :: "StructDeclaration \<Rightarrow> Declarator list \<Rightarrow> member_entry list" where
  "declared sd ds = map (\<lambda>d. (d_identifier d, max 0 (d_offset d), sd, d)) ds"

definition shifted :: "int \<Rightarrow> member_entry list \<Rightarrow> member_entry list" where
  "shifted n ms = map (\<lambda>(name, at, sd, d). (name, n + at, sd, d)) ms"

fun members :: "nat \<Rightarrow> CState \<Rightarrow> nat \<Rightarrow> member_entry list" where
  "members 0 st n = []"
| "members (Suc k) st n = (case structs st n of None \<Rightarrow> []
     | Some s \<Rightarrow> concat (map (\<lambda>sd. case sd_declarators sd of
           Some ds \<Rightarrow> declared sd ds
         | None \<Rightarrow> (case FOLLOW_AND_CHECK_TSPTR k st (sd_type sd) of
             Inl _ \<Rightarrow> [] | Inr m \<Rightarrow> shifted (sd_offset sd) (members k st m)))
         (case s_declarations s of None \<Rightarrow> [] | Some sds \<Rightarrow> sds)))"

text \<open>
  A compound is sound when it is defined, its named members have distinct names, a member that
  takes room has a name and a sound type (a declaration of bit-fields only takes none), and an unnamed compound is sound and lies at offset
  zero in a union.
\<close>

definition declaration_sound :: "(nat \<Rightarrow> bool) \<Rightarrow> nat \<Rightarrow> CState \<Rightarrow> bool \<Rightarrow> StructDeclaration \<Rightarrow> bool" where
  "declaration_sound sound k st isUnion sd \<longleftrightarrow> (case sd_declarators sd of
     Some ds \<Rightarrow> (\<forall>d\<in>set ds. 0 < sd_size sd \<longrightarrow> 0 < d_size d \<longrightarrow> identifier_ok (d_identifier d) \<and> chain_ok sound k st (sd_type sd) d)
   | None \<Rightarrow> 0 \<le> sd_offset sd \<and> (isUnion \<longrightarrow> sd_offset sd = 0)
        \<and> (case FOLLOW_AND_CHECK_TSPTR k st (sd_type sd) of Inl _ \<Rightarrow> False | Inr m \<Rightarrow> sound m))"

fun compound_sound :: "nat \<Rightarrow> CState \<Rightarrow> nat \<Rightarrow> bool" where
  "compound_sound 0 st n \<longleftrightarrow> False"
| "compound_sound (Suc k) st n \<longleftrightarrow> (case structs st n of None \<Rightarrow> False
     | Some s \<Rightarrow> (case s_declarations s of None \<Rightarrow> False
       | Some sds \<Rightarrow> (\<forall>sd\<in>set sds. declaration_sound (compound_sound k st) k st (has_flag (s_tflags s) T_UNION) sd)
          \<and> distinct (filter (\<lambda>name. name \<noteq> []) (map fst (members (Suc k) st n)))))"

text \<open>A type to start from: a sound compound, a basic type, or a type name for a sound type.\<close>

definition type_sound :: "nat \<Rightarrow> CState \<Rightarrow> TypeSpec \<Rightarrow> bool" where
  "type_sound k st ts \<longleftrightarrow>
     (if has_flag (ts_tflags ts) T_TYPE then
        (case pTypedef st ts of Inl _ \<Rightarrow> False | Inr (t, d) \<Rightarrow> d_offset d \<le> 0 \<and> chain_ok (compound_sound k st) k st t d)
      else has_flag (ts_tflags ts) T_COMPOUND \<longrightarrow> (case ts_ptr ts of None \<Rightarrow> False | Some n \<Rightarrow> compound_sound k st n))"

section \<open>Following the parts of an expression\<close>

fun gm_run :: "nat \<Rightarrow> CState \<Rightarrow> u_32 \<Rightarrow> me_walk_info list \<Rightarrow> gm \<Rightarrow> (string + gm) run" where
  "gm_run fuel st fl [] g = Inr (Inr g)"
| "gm_run fuel st fl (t # ts) g = and_then (gm_step fuel st fl t g) (\<lambda>r. case r of
     Inl msg \<Rightarrow> croak msg | Inr g \<Rightarrow> gm_run fuel st fl ts g)"

text \<open>A loop of \<open>get_member\<close> runs the parts that the walker yields.\<close>

lemma gm_loop_run:
  "walk_all me = ts @ [MERV_END] \<Longrightarrow> \<forall>t\<in>set ts. \<not> terminal t \<Longrightarrow> gm_loop fuel st fl me g = gm_run fuel st fl ts g"
proof (induction ts arbitrary: me g)
  case Nil
  obtain info me' where w: "member_expr_walker_walk me = (info, me')" by fastforce
  have "info = MERV_END" using Nil w by (subst (asm) walk_all.simps) (auto split: if_splits)
  then show ?case using w by (subst gm_loop.simps) simp
next
  case (Cons t ts)
  obtain info me' where w: "member_expr_walker_walk me = (info, me')" by fastforce
  have "info = t \<and> walk_all me' = ts @ [MERV_END]"
    using Cons.prems w by (subst (asm) walk_all.simps) (auto split: if_splits)
  moreover have "t \<noteq> MERV_END" using Cons.prems(2) by (auto simp: terminal_def)
  moreover have "gm_loop fuel st fl me' = gm_run fuel st fl ts" using calculation(1) Cons by auto
  ultimately show ?case using w Cons.prems by (subst gm_loop.simps) simp
qed

text \<open>The state after a name: the type and the declarator of the member, no index used.\<close>

definition at_member :: "TypeSpec \<Rightarrow> Declarator \<Rightarrow> gm \<Rightarrow> bool" where
  "at_member ts d g \<longleftrightarrow> g_type g = ts \<and> g_decl g = Some d \<and> g_level g = 0 \<and> g_size g = d_size d"

definition leads_to :: "nat \<Rightarrow> CState \<Rightarrow> gm \<Rightarrow> me_walk_info list \<Rightarrow> int \<Rightarrow> bool" where
  "leads_to fuel st g ts n \<longleftrightarrow> (\<exists>g'. gm_run fuel st 0 ts g = Inr (Inr g') \<and> g_offset g' = g_offset g + n)"

text \<open>The parts after a compound: padding, or a member of it and what leads on from there.\<close>

definition inside :: "nat \<Rightarrow> nat \<Rightarrow> CState \<Rightarrow> nat \<Rightarrow> int \<Rightarrow> int \<Rightarrow> me_walk_info list \<Rightarrow> bool" where
  "inside fuel k st n off real ts \<longleftrightarrow> ts = [MERV_OFFSET real] \<or>
     (\<exists>name rest at sd d. ts = MERV_COMPOUND_MEMBER name True # rest \<and> name \<noteq> []
        \<and> (name, at, sd, d) \<in> set (members k st n)
        \<and> (\<forall>g. at_member (sd_type sd) d g \<longrightarrow> leads_to fuel st g rest (off - at)))"

end
