(* ===== verification/Member_Facts.thy ===== *)
theory Member_Facts
  imports Member_Sound
begin

text \<open>
  The name \<open>get_member_string\<close> writes for an offset is one that \<open>get_member\<close> reads back as that
  offset: the lookup of a name in a sound compound, the indices of an array and the type names
  behind it, and the search through the members, by induction on the depth of the compound.
\<close>

section \<open>More fuel\<close>

lemma follow_typedefs_mono: "follow_typedefs k st ts = Inr x \<Longrightarrow> k \<le> k' \<Longrightarrow> follow_typedefs k' st ts = Inr x"
proof (induction k st ts arbitrary: k' rule: follow_typedefs.induct)
  case (2 k st ts)
  from 2(3) obtain j where j: "k' = Suc j" "k \<le> j" by (cases k') auto
  obtain y where y: "pTypedef st ts = Inr y" using 2(2) by (cases "pTypedef st ts") auto
  obtain t d where td: "y = (t, d)" by fastforce
  show ?case using 2 y j by (auto simp: td split: if_splits)
qed simp

lemma follow_typedefs_last:
  "follow_typedefs k st ts = Inr (t, d) \<Longrightarrow> pointer_flag d \<or> \<not> has_flag (ts_tflags t) T_TYPE \<or> array_flag d"
proof (induction k st ts rule: follow_typedefs.induct)
  case (2 k st ts)
  obtain y where y: "pTypedef st ts = Inr y" using 2(2) by (cases "pTypedef st ts") auto
  obtain t' d' where td: "y = (t', d')" by fastforce
  show ?case using 2 y by (auto simp: td split: if_splits)
qed simp

lemma FOLLOW_mono:
  assumes "FOLLOW_AND_CHECK_TSPTR k st ts = Inr x" "k \<le> k'" shows "FOLLOW_AND_CHECK_TSPTR k' st ts = Inr x"
proof (cases "has_flag (ts_tflags ts) T_TYPE")
  case True
  obtain y where y: "follow_typedefs k st ts = Inr y" using assms True
    by (cases "follow_typedefs k st ts") (auto simp: FOLLOW_AND_CHECK_TSPTR_def)
  show ?thesis using assms True y follow_typedefs_mono [OF y assms(2)] by (simp add: FOLLOW_AND_CHECK_TSPTR_def)
next
  case False
  then show ?thesis using assms by (simp add: FOLLOW_AND_CHECK_TSPTR_def)
qed

lemma search_declarations_mono:
  "search_declarations f elem sds = Inr r \<Longrightarrow> (\<And>ts x. f ts = Inr x \<Longrightarrow> g ts = Inr x) \<Longrightarrow> search_declarations g elem sds = Inr r"
proof (induction sds)
  case (Cons sd sds)
  show ?case
  proof (cases "sd_declarators sd")
    case None
    obtain y where y: "f (sd_type sd) = Inr y" using Cons None by (cases "f (sd_type sd)") auto
    then show ?thesis using Cons None Cons.prems(2) [OF y] by (auto split: option.splits)
  next
    case (Some ds)
    then show ?thesis using Cons by (auto split: option.splits)
  qed
qed simp

lemma search_mono: "search_struct_member k st n elem = Inr r \<Longrightarrow> k \<le> k' \<Longrightarrow> search_struct_member k' st n elem = Inr r"
proof (induction k arbitrary: k' n r)
  case (Suc k)
  from Suc(3) obtain j where j: "k' = Suc j" "k \<le> j" by (cases k') auto
  obtain s where s: "struct_at st (Some n) = Inr s" using Suc(2) by (cases "struct_at st (Some n)") auto
  let ?f = "\<lambda>k ts. and_then (FOLLOW_AND_CHECK_TSPTR k st ts) (\<lambda>m. search_struct_member k st m elem)"
  let ?sds = "case s_declarations s of None \<Rightarrow> [] | Some sds \<Rightarrow> sds"
  obtain y where y: "search_declarations (?f k) elem ?sds = Inr y"
    using Suc(2) s by (cases "search_declarations (?f k) elem ?sds") auto
  have mono: "?f j ts = Inr x" if fk: "?f k ts = Inr x" for ts x
  proof -
    obtain m where m: "FOLLOW_AND_CHECK_TSPTR k st ts = Inr m" using fk by (cases "FOLLOW_AND_CHECK_TSPTR k st ts") auto
    show ?thesis using Suc(1) [OF _ j(2)] fk m FOLLOW_mono [OF m j(2)] by simp
  qed
  have "search_declarations (?f j) elem ?sds = Inr y" by (rule search_declarations_mono [OF y]) (rule mono)
  then show ?case using Suc(2) s y by (simp add: j(1))
qed simp

section \<open>Looking for a member\<close>

lemma map_of_shifted: "map_of (shifted n ms) name = map_option (\<lambda>(at, sd, d). (n + at, sd, d)) (map_of ms name)"
  by (induction ms) (auto simp: shifted_def)

lemma map_of_declared:
  "map_of (declared sd ds) name = map_option (\<lambda>d. (max 0 (d_offset d), sd, d)) (find (\<lambda>d. d_identifier d = name) ds)"
  by (induction ds) (auto simp: declared_def)

lemma unnamed_sound:
  "declaration_sound sound k st u sd \<Longrightarrow> sd_declarators sd = None \<Longrightarrow>
    \<exists>m. FOLLOW_AND_CHECK_TSPTR k st (sd_type sd) = Inr m \<and> sound m \<and> 0 \<le> sd_offset sd \<and> (u \<longrightarrow> sd_offset sd = 0)"
  by (auto simp: declaration_sound_def split: sum.splits)

lemma compound_soundE:
  assumes "compound_sound k st n"
  obtains j s sds where "k = Suc j" "structs st n = Some s" "s_declarations s = Some sds"
    "\<forall>sd\<in>set sds. declaration_sound (compound_sound j st) j st (has_flag (s_tflags s) T_UNION) sd"
    "distinct (filter (\<lambda>name. name \<noteq> []) (map fst (members k st n)))"
  using assms by (cases k) (auto split: option.splits simp del: members.simps)

lemma search_members:
  "compound_sound k st n \<Longrightarrow> search_struct_member k st n elem = Inr (map_of (members k st n) elem)
     \<and> (\<forall>e\<in>set (members k st n). 0 \<le> fst (snd e))"
proof (induction k arbitrary: n)
  case (Suc k)
  obtain s sds where s: "structs st n = Some s" "s_declarations s = Some sds"
    and sd: "\<forall>sd\<in>set sds. declaration_sound (compound_sound k st) k st (has_flag (s_tflags s) T_UNION) sd"
    using Suc.prems by (rule compound_soundE) auto
  define un where "un = (\<lambda>ts. and_then (FOLLOW_AND_CHECK_TSPTR k st ts) (\<lambda>m. search_struct_member k st m elem))"
  define entries where "entries = (\<lambda>sd. case sd_declarators sd of Some ds \<Rightarrow> declared sd ds
    | None \<Rightarrow> (case FOLLOW_AND_CHECK_TSPTR k st (sd_type sd) of Inl _ \<Rightarrow> [] | Inr m \<Rightarrow> shifted (sd_offset sd) (members k st m)))"
  define clamp :: "int \<times> StructDeclaration \<times> Declarator \<Rightarrow> int \<times> StructDeclaration \<times> Declarator"
    where "clamp = (\<lambda>(at, sd, d). (if at < 0 then 0 else at, sd, d))"
  have mem: "members (Suc k) st n = concat (map entries sds)" using s by (simp add: entries_def cong: option.case_cong)
  have *: "\<exists>r. search_declarations un elem sds' = Inr r \<and> map_option clamp r = map_of (concat (map entries sds')) elem
      \<and> (\<forall>e\<in>set (concat (map entries sds')). 0 \<le> fst (snd e))" if "set sds' \<subseteq> set sds" for sds'
    using that
  proof (induction sds')
    case (Cons sd sds')
    then obtain r where r: "search_declarations un elem sds' = Inr r" "map_option clamp r = map_of (concat (map entries sds')) elem"
      "\<forall>e\<in>set (concat (map entries sds')). 0 \<le> fst (snd e)" by auto
    show ?case
    proof (cases "sd_declarators sd")
      case None
      then obtain m where m: "FOLLOW_AND_CHECK_TSPTR k st (sd_type sd) = Inr m" "compound_sound k st m" "0 \<le> sd_offset sd"
        using unnamed_sound Cons.prems sd by (meson list.set_intros(1) subsetD)
      note IH = Suc.IH [OF m(2)]
      have e: "entries sd = shifted (sd_offset sd) (members k st m)" using None m by (simp add: entries_def)
      have u: "un (sd_type sd) = Inr (map_of (members k st m) elem)" using IH m by (simp add: un_def)
      have nn: "\<forall>e\<in>set (entries sd). 0 \<le> fst (snd e)" using IH m(3) by (auto simp: e shifted_def)
      show ?thesis
      proof (cases "map_of (members k st m) elem")
        case None
        then show ?thesis using r u nn \<open>sd_declarators sd = None\<close> by (auto simp: e map_of_shifted map_add_def)
      next
        case (Some x)
        then obtain at sd' d where x: "x = (at, sd', d)" by (cases x) auto
        then have "(elem, at, sd', d) \<in> set (members k st m)" using Some map_of_SomeD by fastforce
        then have "0 \<le> at" using IH by force
        then show ?thesis using r u nn None Some x m(3) by (auto simp: e map_of_shifted map_add_def clamp_def)
      qed
    next
      case (Some ds)
      then have e: "entries sd = declared sd ds" by (simp add: entries_def)
      have nn: "\<forall>e\<in>set (entries sd). 0 \<le> fst (snd e)" by (auto simp: e declared_def)
      show ?thesis
        using r Some nn by (auto simp: e map_of_declared map_add_def clamp_def split: option.splits)
    qed
  qed simp
  obtain r where r: "search_declarations un elem sds = Inr r" "map_option clamp r = map_of (members (Suc k) st n) elem"
    "\<forall>e\<in>set (members (Suc k) st n). 0 \<le> fst (snd e)" using * [of sds] unfolding mem by blast
  have "search_struct_member (Suc k) st n elem = Inr (map_option clamp r)"
    using r(1) s by (simp add: struct_at_def un_def clamp_def)
  then show ?case using r by simp
qed simp

lemma map_of_distinct:
  "distinct (filter P (map fst xs)) \<Longrightarrow> P x \<Longrightarrow> (x, v) \<in> set xs \<Longrightarrow> map_of xs x = Some v"
proof (induction xs)
  case (Cons e xs)
  show ?case
  proof (cases "fst e = x")
    case True
    have "x \<notin> fst ` set xs" using Cons.prems True by (auto simp: image_iff)
    then have "(x, v) = e" using Cons.prems(3) by (auto simp: image_iff)
    then show ?thesis by (cases e) auto
  next
    case False
    then show ?thesis using Cons by (cases e) (auto split: if_splits)
  qed
qed simp

lemma search_finds:
  assumes "compound_sound k st n" "k \<le> fuel" "name \<noteq> []" "(name, at, sd, d) \<in> set (members k st n)"
  shows "search_struct_member fuel st n name = Inr (Some (at, sd, d))"
proof -
  have dist: "distinct (filter (\<lambda>name. name \<noteq> []) (map fst (members k st n)))" using assms(1) by (rule compound_soundE)
  have "map_of (members k st n) name = Some (at, sd, d)"
    by (rule map_of_distinct [OF dist]) (use assms in auto)
  then show ?thesis using search_members [OF assms(1)] search_mono [OF _ assms(2)] by simp
qed

section \<open>Where a walk stands\<close>

text \<open>What the next part finds after type names have been followed.\<close>

definition standing :: "nat \<Rightarrow> CState \<Rightarrow> TypeSpec \<Rightarrow> Declarator option \<Rightarrow> int \<Rightarrow> int \<Rightarrow> gm \<Rightarrow> bool" where
  "standing fuel st ts decl level sz g \<longleftrightarrow> (\<forall>f. \<exists>g'. gm_follow fuel st 0 (PROPAGATE_FLAGS f g) = Inr g' \<and> g_type g' = ts
     \<and> g_decl g' = decl \<and> g_level g' = level \<and> g_size g' = sz \<and> g_offset g' = g_offset g)"

definition at_level :: "TypeSpec \<Rightarrow> Declarator \<Rightarrow> int \<Rightarrow> int \<Rightarrow> gm \<Rightarrow> bool" where
  "at_level ts d level sz g \<longleftrightarrow> g_type g = ts \<and> g_decl g = Some d \<and> g_level g = level \<and> g_size g = sz"

definition end_level :: "Declarator option \<Rightarrow> int" where
  "end_level decl = (case decl of None \<Rightarrow> 0 | Some d \<Rightarrow> if array_flag d then dimension_count d else 0)"

definition final :: "TypeSpec \<Rightarrow> Declarator \<Rightarrow> bool" where
  "final ts d \<longleftrightarrow> pointer_flag d \<or> \<not> has_flag (ts_tflags ts) T_TYPE"

lemma do_calc_0 [simp]: "do_calc 0" "\<not> has_flag 0 b"
  by (simp_all add: do_calc_def has_flag_def)

lemma standing_here:
  "at_level ts d level sz g \<Longrightarrow> final ts d \<or> level \<noteq> end_level (Some d) \<Longrightarrow> standing fuel st ts (Some d) level sz g"
  by (auto simp: standing_def at_level_def gm_follow_def PROPAGATE_FLAGS_def final_def end_level_def)

lemma standing_follow:
  "at_level ts d (end_level (Some d)) sz g \<Longrightarrow> \<not> final ts d \<Longrightarrow> follow_typedefs fuel st ts = Inr (t, d')
    \<Longrightarrow> standing fuel st t (Some d') 0 (d_size d') g"
  by (auto simp: standing_def at_level_def gm_follow_def PROPAGATE_FLAGS_def final_def end_level_def)

lemma gm_step_standing:
  assumes "standing fuel st ts decl level sz g" "\<not> terminal t"
  obtains g' where "g_type g' = ts" "g_decl g' = decl" "g_level g' = level" "g_size g' = sz" "g_offset g' = g_offset g"
    "gm_step fuel st 0 t g = and_then (case t of
            MERV_COMPOUND_MEMBER name dot \<Rightarrow> gm_member fuel st 0 name dot g'
          | MERV_ARRAY_INDEX index \<Rightarrow> gm_index 0 index g'
          | MERV_OFFSET k \<Rightarrow> gm_offset 0 k g'
          | _ \<Rightarrow> Inl Fatal_error) (\<lambda>r. Inr (map_sum id (\<lambda>g. g\<lparr>g_dotless := False\<rparr>) r))"
proof -
  obtain g' where "gm_follow fuel st 0 (PROPAGATE_FLAGS (ts_tflags (g_type g)) g) = Inr g'" "g_type g' = ts"
    "g_decl g' = decl" "g_level g' = level" "g_size g' = sz" "g_offset g' = g_offset g"
    using assms(1) unfolding standing_def by blast
  with that [of g'] assms(2) show ?thesis by (simp add: gm_step_def)
qed

section \<open>Offsets, indices and members\<close>

lemma step_offset:
  assumes "standing fuel st ts decl level sz g"
  shows "leads_to fuel st g [MERV_OFFSET k] k"
proof -
  have "\<not> terminal (MERV_OFFSET k)" by (simp add: terminal_def)
  from assms this show ?thesis by (rule gm_step_standing) (simp add: leads_to_def gm_offset_def)
qed

lemma step_index:
  assumes g: "standing fuel st ts (Some d) (int (length vs)) sz g"
    and d: "array_flag d" "ext_array d = Some (vs @ v # ws)"
    and v: "dims_divide (v # ws) sz" "0 \<le> sz"
  shows "\<exists>g'. gm_step fuel st 0 (MERV_ARRAY_INDEX i) g = Inr (Inr g')
    \<and> at_level ts d (int (length vs) + 1) (sz div iv v) g' \<and> g_offset g' = g_offset g + i * (sz div iv v)"
proof -
  have "\<not> terminal (MERV_ARRAY_INDEX i)" by (simp add: terminal_def)
  from g this show ?thesis
    by (rule gm_step_standing)
      (use d v in \<open>simp add: gm_index_def dimension_count_def dimension_at_def nth_append c_div_pos at_level_def\<close>)
qed

lemma step_member:
  assumes g: "standing fuel st ts decl (end_level decl) sz g"
    and ts: "case decl of Some d \<Rightarrow> \<not> pointer_flag d | None \<Rightarrow> True" "has_flag (ts_tflags ts) T_COMPOUND" "ts_ptr ts = Some n"
    and s: "structs st n = Some s" "search_struct_member fuel st n name = Inr (Some (at, sd, d))"
  shows "\<exists>g'. gm_step fuel st 0 (MERV_COMPOUND_MEMBER name True) g = Inr (Inr g')
    \<and> at_member (sd_type sd) d g' \<and> g_offset g' = g_offset g + at"
proof -
  have "\<not> terminal (MERV_COMPOUND_MEMBER name True)" by (simp add: terminal_def)
  from g this show ?thesis
    by (rule gm_step_standing)
      (use ts s in \<open>auto simp: gm_member_def end_level_def struct_at_def PROPAGATE_FLAGS_def at_member_def split: option.splits\<close>)
qed

end
