(* ===== verification/Member_Walk.thy ===== *)
theory Member_Walk
  imports Member_Facts
begin

text \<open>
  The induction behind the round trip of \<^verbatim>\<open>cbc/member.c\<close>: what \<open>get_member_string_rec\<close> writes is
  a list of parts that leads \<open>get_member\<close> to the offset.
\<close>

section \<open>Lists of parts\<close>

lemma gm_run_append:
  "gm_run fuel st fl (ts @ us) g = and_then (gm_run fuel st fl ts g) (\<lambda>r. case r of
     Inl msg \<Rightarrow> croak msg | Inr g \<Rightarrow> gm_run fuel st fl us g)"
proof (induction ts arbitrary: g)
  case (Cons t ts)
  show ?case
  proof (cases "gm_step fuel st fl t g")
    case (Inr r)
    then show ?thesis using Cons by (cases r) (simp_all add: croak_def)
  qed simp
qed simp

lemma leads_to_append:
  "gm_run fuel st 0 ts g = Inr (Inr g') \<Longrightarrow> g_offset g' = g_offset g + m \<Longrightarrow> leads_to fuel st g' us n \<Longrightarrow> leads_to fuel st g (ts @ us) (m + n)"
  by (auto simp: leads_to_def gm_run_append)

abbreviation indices :: "int list \<Rightarrow> me_walk_info list" where
  "indices is \<equiv> map MERV_ARRAY_INDEX is"

lemma well_formed_indices [simp]: "well_formed (indices is @ ts) = (list_all fits_int is \<and> well_formed ts)"
  by (induction "is") auto

lemma render_index [simp]: "render (MERV_ARRAY_INDEX i) = CHR ''['' # decimal i @ '']''"
  "render (MERV_OFFSET n) = CHR ''+'' # decimal n" "render (MERV_COMPOUND_MEMBER name dot) = CHR ''.'' # name"
  by (simp_all add: render_def)

section \<open>The dimensions of an array\<close>

lemma append_dims_leads:
  assumes "dims_divide ws sz" "0 \<le> sz" "is_offset off"
  shows "\<exists>is off'. append_dims ws sz off sv = Inr (off', sv @ render_all (indices is)) \<and> list_all fits_int is \<and> is_offset off' \<and>
    (\<forall>vs g. array_flag d \<longrightarrow> ext_array d = Some (vs @ ws) \<longrightarrow> ws \<noteq> [] \<longrightarrow> standing fuel st ts (Some d) (int (length vs)) sz g
      \<longrightarrow> (\<exists>g' sz'. gm_run fuel st 0 (indices is) g = Inr (Inr g') \<and> at_level ts d (end_level (Some d)) sz' g'
            \<and> g_offset g' = g_offset g + (off - off')))"
  using assms
proof (induction ws arbitrary: sz off sv)
  case Nil
  then show ?case by (intro exI [of _ "[]"]) simp
next
  case (Cons w ws)
  let ?sz = "sz div iv w"
  let ?i = "off div ?sz"
  have w: "0 < iv w" "0 < ?sz" "dims_divide ws ?sz" using Cons.prems by auto
  have rest: "off - ?i * ?sz = off mod ?sz" by (simp add: minus_div_mult_eq_mod)
  have off: "is_offset (off mod ?sz)" "0 \<le> ?sz" "is_offset ?i" using w Cons.prems(3) by (simp_all add: is_offset_mod is_offset_div)
  from Cons.IH [OF w(3) off(2,1), of "sv @ render (MERV_ARRAY_INDEX ?i)"]
  obtain "is" off' where IH: "append_dims ws ?sz (off mod ?sz) (sv @ render (MERV_ARRAY_INDEX ?i))
       = Inr (off', (sv @ render (MERV_ARRAY_INDEX ?i)) @ render_all (indices is))" "list_all fits_int is" "is_offset off'"
    and run: "\<And>vs g. array_flag d \<Longrightarrow> ext_array d = Some (vs @ ws) \<Longrightarrow> ws \<noteq> [] \<Longrightarrow> standing fuel st ts (Some d) (int (length vs)) ?sz g
      \<Longrightarrow> \<exists>g' sz'. gm_run fuel st 0 (indices is) g = Inr (Inr g') \<and> at_level ts d (end_level (Some d)) sz' g'
            \<and> g_offset g' = g_offset g + (off mod ?sz - off')" by blast
  have "append_dims (w # ws) sz off sv = Inr (off', sv @ render_all (indices (?i # is)))"
    using IH(1) w Cons.prems is_offset_nonneg [OF Cons.prems(3)] by (simp add: c_div_pos rest)
  moreover have "\<exists>g' sz'. gm_run fuel st 0 (indices (?i # is)) g = Inr (Inr g') \<and> at_level ts d (end_level (Some d)) sz' g'
            \<and> g_offset g' = g_offset g + (off - off')"
    if d: "array_flag d" "ext_array d = Some (vs @ w # ws)" and g: "standing fuel st ts (Some d) (int (length vs)) sz g" for vs g
  proof -
    obtain g1 where g1: "gm_step fuel st 0 (MERV_ARRAY_INDEX ?i) g = Inr (Inr g1)" "at_level ts d (int (length vs) + 1) ?sz g1"
      "g_offset g1 = g_offset g + ?i * ?sz" using step_index [OF g d Cons.prems(1,2)] by blast
    have eq: "g_offset g + ?i * ?sz + (off mod ?sz - off') = g_offset g + (off - off')" using rest by simp
    show ?thesis
    proof (cases "ws = []")
      case True
      then have "is = [] \<and> off' = off mod ?sz" using IH(1) by (cases "is") auto
      moreover have "end_level (Some d) = int (length vs) + 1" using d True by (simp add: end_level_def dimension_count_def)
      ultimately show ?thesis using g1 eq by auto
    next
      case False
      have "int (length vs) + 1 \<noteq> end_level (Some d)" using d False by (simp add: end_level_def dimension_count_def)
      then have "standing fuel st ts (Some d) (int (length vs) + 1) ?sz g1" using standing_here [OF g1(2)] by blast
      moreover have "int (length (vs @ [w])) = int (length vs) + 1" by simp
      ultimately have st: "standing fuel st ts (Some d) (int (length (vs @ [w]))) ?sz g1" by (simp only:)
      obtain g' sz' where "gm_run fuel st 0 (indices is) g1 = Inr (Inr g')" "at_level ts d (end_level (Some d)) sz' g'"
        "g_offset g' = g_offset g1 + (off mod ?sz - off')"
        using run [OF d(1) _ False st] d(2) by auto
      then show ?thesis using g1 eq by auto
    qed
  qed
  moreover have "list_all fits_int (?i # is)" using IH(2) off(3) by simp
  ultimately show ?case using IH(3) by (intro exI [of _ "?i # is"] exI [of _ off']) blast
qed

section \<open>The type names behind a declarator\<close>

definition entered :: "nat \<Rightarrow> CState \<Rightarrow> TypeSpec \<Rightarrow> Declarator \<Rightarrow> gm \<Rightarrow> bool" where
  "entered fuel st ts d g \<longleftrightarrow> at_level ts d 0 (d_size d) g
     \<or> standing fuel st ts (Some d) 0 (d_size d) g \<and> (array_flag d \<or> final ts d)"

definition arrived :: "nat \<Rightarrow> CState \<Rightarrow> TypeSpec \<Rightarrow> Declarator option \<Rightarrow> gm \<Rightarrow> bool" where
  "arrived fuel st ts decl g \<longleftrightarrow> (\<exists>sz. standing fuel st ts decl (end_level decl) sz g)"

lemma entered_standing: "entered fuel st ts d g \<Longrightarrow> dims_ok d \<Longrightarrow> array_flag d \<or> final ts d \<Longrightarrow> standing fuel st ts (Some d) 0 (d_size d) g"
proof -
  assume g: "entered fuel st ts d g" and d: "dims_ok d" "array_flag d \<or> final ts d"
  have "final ts d \<or> 0 \<noteq> end_level (Some d)" using d by (auto simp: dims_ok_def end_level_def dimension_count_def split: option.splits)
  then show ?thesis using g standing_here by (auto simp: entered_def)
qed

definition ends_in :: "(nat \<Rightarrow> bool) \<Rightarrow> TypeSpec \<Rightarrow> bool \<Rightarrow> bool" where
  "ends_in sound ts pointer \<longleftrightarrow> (\<not> pointer \<and> has_flag (ts_tflags ts) T_COMPOUND \<longrightarrow> (\<exists>n. ts_ptr ts = Some n \<and> sound n))"

lemma dims_then:
  assumes d: "dims_ok d" and off: "is_offset off"
  shows "\<exists>is off'. (if array_flag d then append_dims (case ext_array d of None \<Rightarrow> [] | Some vs \<Rightarrow> vs) (d_size d) off sv else Inr (off, sv))
      = Inr (off', sv @ render_all (indices is)) \<and> list_all fits_int is \<and> is_offset off' \<and>
    (\<forall>g. entered fuel st ts d g \<longrightarrow> (\<exists>g'. gm_run fuel st 0 (indices is) g = Inr (Inr g') \<and> g_offset g' = g_offset g + (off - off')
       \<and> (final ts d \<longrightarrow> arrived fuel st ts (Some d) g')
       \<and> (\<forall>t d'. \<not> final ts d \<longrightarrow> follow_typedefs fuel st ts = Inr (t, d') \<longrightarrow> entered fuel st t d' g')))"
proof -
  have enter: "entered fuel st t d' g"
    if "at_level ts d (end_level (Some d)) sz g" "\<not> final ts d" "follow_typedefs fuel st ts = Inr (t, d')" for g sz t d'
    using standing_follow [OF that] follow_typedefs_last [OF that(3)] by (auto simp: entered_def final_def)
  show ?thesis
  proof (cases "array_flag d")
    case True
    then obtain vs where vs: "ext_array d = Some vs" "vs \<noteq> []" "dims_divide vs (d_size d)" "0 \<le> d_size d"
      using d by (auto simp: dims_ok_def split: option.splits)
    from append_dims_leads [OF vs(3,4) off, of sv d fuel st ts]
    obtain "is" off' where dims: "append_dims vs (d_size d) off sv = Inr (off', sv @ render_all (indices is))" "list_all fits_int is" "is_offset off'"
      and run: "\<And>ws g. array_flag d \<Longrightarrow> ext_array d = Some (ws @ vs) \<Longrightarrow> vs \<noteq> [] \<Longrightarrow> standing fuel st ts (Some d) (int (length ws)) (d_size d) g
      \<Longrightarrow> \<exists>g' sz'. gm_run fuel st 0 (indices is) g = Inr (Inr g') \<and> at_level ts d (end_level (Some d)) sz' g'
            \<and> g_offset g' = g_offset g + (off - off')" by blast
    have "\<exists>g'. gm_run fuel st 0 (indices is) g = Inr (Inr g') \<and> g_offset g' = g_offset g + (off - off')
       \<and> (final ts d \<longrightarrow> arrived fuel st ts (Some d) g')
       \<and> (\<forall>t d'. \<not> final ts d \<longrightarrow> follow_typedefs fuel st ts = Inr (t, d') \<longrightarrow> entered fuel st t d' g')" if g: "entered fuel st ts d g" for g
    proof -
      have st: "standing fuel st ts (Some d) (int (length ([] :: Value list))) (d_size d) g" using entered_standing [OF g d] True by simp
      from run [OF True _ vs(2) st] vs(1) obtain g' sz' where g': "gm_run fuel st 0 (indices is) g = Inr (Inr g')"
        "at_level ts d (end_level (Some d)) sz' g'" "g_offset g' = g_offset g + (off - off')" by auto
      moreover have "final ts d \<Longrightarrow> arrived fuel st ts (Some d) g'" using standing_here [OF g'(2)] unfolding arrived_def by blast
      ultimately show ?thesis using enter [OF g'(2)] by blast
    qed
    then show ?thesis using dims True vs(1) by (intro exI [of _ "is"] exI [of _ off']) auto
  next
    case False
    have "(final ts d \<longrightarrow> arrived fuel st ts (Some d) g)
       \<and> (\<forall>t d'. \<not> final ts d \<longrightarrow> follow_typedefs fuel st ts = Inr (t, d') \<longrightarrow> entered fuel st t d' g)" if g: "entered fuel st ts d g" for g
    proof (cases "final ts d")
      case True
      then show ?thesis using entered_standing [OF g d] False by (auto simp: arrived_def end_level_def)
    next
      case notfinal: False
      then have "at_level ts d (end_level (Some d)) (d_size d) g" using g False by (auto simp: entered_def end_level_def)
      then show ?thesis using enter notfinal by blast
    qed
    then show ?thesis using False off by (intro exI [of _ "[]"] exI [of _ off]) auto
  qed
qed

lemma append_decls_leads:
  "chain_ok sound k st ts d \<Longrightarrow> is_offset off \<Longrightarrow> k \<le> fuel \<Longrightarrow>
   \<exists>ts' d' off' is. append_decls k st ts d off sv = Inr (ts', d', off', sv @ render_all (indices is)) \<and> list_all fits_int is \<and> is_offset off'
     \<and> ends_in sound ts' (pointer_flag d')
     \<and> (\<forall>g. entered fuel st ts d g \<longrightarrow> (\<exists>g'. gm_run fuel st 0 (indices is) g = Inr (Inr g') \<and> g_offset g' = g_offset g + (off - off')
            \<and> arrived fuel st ts' (Some d') g'))"
proof (induction k arbitrary: ts d off sv)
  case (Suc k)
  have d: "dims_ok d" and size: "\<not> d_size d < 0" using Suc.prems by (auto simp: dims_ok_def)
  from dims_then [OF d Suc.prems(2), of sv fuel st ts]
  obtain "is" off1 where dims: "(if array_flag d then append_dims (case ext_array d of None \<Rightarrow> [] | Some vs \<Rightarrow> vs) (d_size d) off sv else Inr (off, sv))
      = Inr (off1, sv @ render_all (indices is))" "list_all fits_int is" "is_offset off1"
    and run: "\<And>g. entered fuel st ts d g \<Longrightarrow> (\<exists>g'. gm_run fuel st 0 (indices is) g = Inr (Inr g') \<and> g_offset g' = g_offset g + (off - off1)
       \<and> (final ts d \<longrightarrow> arrived fuel st ts (Some d) g')
       \<and> (\<forall>t d'. \<not> final ts d \<longrightarrow> follow_typedefs fuel st ts = Inr (t, d') \<longrightarrow> entered fuel st t d' g'))" by blast
  show ?case
  proof (cases "final ts d")
    case True
    then have "append_decls (Suc k) st ts d off sv = Inr (ts, d, off1, sv @ render_all (indices is))"
      using dims size by (simp add: final_def)
    moreover have "ends_in sound ts (pointer_flag d)"
      using True Suc.prems(1) by (auto simp: ends_in_def final_def split: option.splits if_splits)
    ultimately show ?thesis using run dims(2,3) True by blast
  next
    case False
    then obtain t d1 where f: "follow_typedefs k st ts = Inr (t, d1)" "chain_ok sound k st t d1"
      using Suc.prems(1) by (auto simp: final_def split: sum.splits)
    have f': "follow_typedefs fuel st ts = Inr (t, d1)" using follow_typedefs_mono [OF f(1)] Suc.prems(3) by simp
    have "k \<le> fuel" using Suc.prems(3) by simp
    from Suc.IH [OF f(2) dims(3) this, of "sv @ render_all (indices is)"]
    obtain ts' d' off' js where IH: "append_decls k st t d1 off1 (sv @ render_all (indices is))
        = Inr (ts', d', off', (sv @ render_all (indices is)) @ render_all (indices js))" "list_all fits_int js" "is_offset off'" "ends_in sound ts' (pointer_flag d')"
      "\<And>g. entered fuel st t d1 g \<Longrightarrow> (\<exists>g'. gm_run fuel st 0 (indices js) g = Inr (Inr g') \<and> g_offset g' = g_offset g + (off1 - off')
            \<and> arrived fuel st ts' (Some d') g')" by blast
    have "append_decls (Suc k) st ts d off sv = Inr (ts', d', off', sv @ render_all (indices (is @ js)))"
      using dims size False f(1) IH(1) by (simp add: final_def)
    moreover have "\<exists>g'. gm_run fuel st 0 (indices (is @ js)) g = Inr (Inr g') \<and> g_offset g' = g_offset g + (off - off')
            \<and> arrived fuel st ts' (Some d') g'" if g: "entered fuel st ts d g" for g
    proof -
      obtain g1 where g1: "gm_run fuel st 0 (indices is) g = Inr (Inr g1)" "g_offset g1 = g_offset g + (off - off1)" "entered fuel st t d1 g1"
        using run [OF g] False f' by blast
      obtain g' where "gm_run fuel st 0 (indices js) g1 = Inr (Inr g')" "g_offset g' = g_offset g1 + (off1 - off')"
        "arrived fuel st ts' (Some d') g'" using IH(5) [OF g1(3)] by blast
      then show ?thesis using g1 by (auto simp: gm_run_append)
    qed
    moreover have "list_all fits_int (is @ js)" using dims(2) IH(2) by simp
    ultimately show ?thesis using IH(3,4) by blast
  qed
qed simp

section \<open>What is written for an offset\<close>

definition written :: "(me_walk_info list \<Rightarrow> bool) \<Rightarrow> string \<Rightarrow> gms \<Rightarrow> bool" where
  "written P sv r \<longleftrightarrow> fst r \<noteq> GMS_NONE \<and> (\<exists>ts. fst (snd r) = sv @ render_all ts \<and> well_formed ts \<and> P ts)"

lemma written_mono: "written P sv r \<Longrightarrow> (\<And>ts. P ts \<Longrightarrow> Q ts) \<Longrightarrow> written Q sv r"
  by (auto simp: written_def)

lemma written_append:
  "written P (sv @ render_all (indices is)) r \<Longrightarrow> list_all fits_int is \<Longrightarrow> (\<And>ts. P ts \<Longrightarrow> Q (indices is @ ts)) \<Longrightarrow> written Q sv r"
proof -
  assume "written P (sv @ render_all (indices is)) r" and "list_all fits_int is" and Q: "\<And>ts. P ts \<Longrightarrow> Q (indices is @ ts)"
  then obtain ts where "fst r \<noteq> GMS_NONE" "fst (snd r) = (sv @ render_all (indices is)) @ render_all ts" "well_formed ts" "P ts"
    by (auto simp: written_def)
  then show ?thesis using Q \<open>list_all fits_int is\<close> by (auto simp: written_def intro!: exI [of _ "indices is @ ts"])
qed

definition pointing :: "Declarator option \<Rightarrow> bool" where
  "pointing decl = (case decl of None \<Rightarrow> False | Some d \<Rightarrow> pointer_flag d)"

text \<open>The search in a compound is sound up to a depth.\<close>

definition search_writes :: "nat \<Rightarrow> nat \<Rightarrow> bool \<Rightarrow> CState \<Rightarrow> bool" where
  "search_writes fuel k uc st \<longleftrightarrow> (\<forall>n off real sv info. compound_sound k st n \<longrightarrow> is_offset off \<longrightarrow> is_offset real \<longrightarrow>
     (\<exists>r. get_member_string_rec k uc st (Some n) off real sv info = Inr r \<and> written (inside fuel k st n off real) sv r))"

lemma inside_leads:
  assumes ts: "inside fuel k st n off off ts" and g: "arrived fuel st t decl g"
    and n: "\<not> pointing decl" "has_flag (ts_tflags t) T_COMPOUND" "ts_ptr t = Some n" "compound_sound k st n" "k \<le> fuel"
  shows "leads_to fuel st g ts off"
proof -
  obtain sz where st: "standing fuel st t decl (end_level decl) sz g" using g by (auto simp: arrived_def)
  from ts show ?thesis unfolding inside_def
  proof (elim disjE exE conjE)
    assume "ts = [MERV_OFFSET off]"
    then show ?thesis using step_offset [OF st] by simp
  next
    fix name rest at sd d
    assume eq: "ts = MERV_COMPOUND_MEMBER name True # rest" and mem: "name \<noteq> []" "(name, at, sd, d) \<in> set (members k st n)"
      and rest: "\<forall>g. at_member (sd_type sd) d g \<longrightarrow> leads_to fuel st g rest (off - at)"
    obtain s where s: "structs st n = Some s" using n(4) by (rule compound_soundE)
    have dd: "case decl of Some d \<Rightarrow> \<not> pointer_flag d | None \<Rightarrow> True" using n(1) by (auto simp: pointing_def split: option.splits)
    obtain g' where g': "gm_step fuel st 0 (MERV_COMPOUND_MEMBER name True) g = Inr (Inr g')" "at_member (sd_type sd) d g'"
      "g_offset g' = g_offset g + at"
      using step_member [OF st dd n(2,3) s search_finds [OF n(4,5) mem]] by blast
    have "leads_to fuel st g' rest (off - at)" using rest g'(2) by blast
    then show ?thesis using g' by (simp add: eq leads_to_def)
  qed
qed

lemma append_end_writes:
  assumes rec_ok: "search_writes fuel k uc st" "k \<le> fuel" and ts: "ends_in (compound_sound k st) t (pointing decl)" and off: "is_offset off"
  shows "\<exists>r. append_end (get_member_string_rec k uc st) t (pointing decl) off sv info = Inr r
    \<and> written (\<lambda>ts. \<forall>g. arrived fuel st t decl g \<longrightarrow> leads_to fuel st g ts off) sv r"
proof (cases "\<not> pointing decl \<and> has_flag (ts_tflags t) T_COMPOUND")
  case True
  then obtain n where n: "ts_ptr t = Some n" "compound_sound k st n" using ts by (auto simp: ends_in_def)
  then obtain r where r: "get_member_string_rec k uc st (Some n) off off sv info = Inr r" "written (inside fuel k st n off off) sv r"
    using rec_ok(1) off unfolding search_writes_def by blast
  have "written (\<lambda>ts. \<forall>g. arrived fuel st t decl g \<longrightarrow> leads_to fuel st g ts off) sv r"
    by (rule written_mono [OF r(2)]) (use inside_leads True n rec_ok(2) in blast)
  then show ?thesis using True n(1) r(1) by (simp add: append_end_def)
next
  case False
  have off_end: "written (\<lambda>ts. \<forall>g. arrived fuel st t decl g \<longrightarrow> leads_to fuel st g ts off) sv (GMS_HIT_OFF, sv @ CHR ''+'' # decimal off, i)" for i
    using step_offset off by (auto simp: written_def arrived_def intro!: exI [of _ "[MERV_OFFSET off]"])
  have hit: "written (\<lambda>ts. \<forall>g. arrived fuel st t decl g \<longrightarrow> leads_to fuel st g ts 0) sv (GMS_HIT, sv, i)" for i
    by (auto simp: written_def leads_to_def intro!: exI [of _ "[]"])
  from False show ?thesis using off_end hit off by (cases "off = 0") (auto simp: append_end_def Let_def)
qed

lemma append_decl_writes:
  assumes rec_ok: "search_writes fuel k uc st" "k \<le> fuel" and ts: "chain_ok (compound_sound k st) k' st t d" "k' \<le> fuel"
    and off: "max 0 (d_offset d) \<le> off" "is_offset off"
  shows "\<exists>r. append_decl (get_member_string_rec k uc st) k' st t d off sv info = Inr r
    \<and> written (\<lambda>ts. \<forall>g. entered fuel st t d g \<longrightarrow> leads_to fuel st g ts (off - max 0 (d_offset d))) sv r"
proof -
  let ?off = "off - max 0 (d_offset d)"
  have o: "(if d_offset d > 0 then off - d_offset d else off) = ?off" "is_offset ?off" using off by (auto simp: is_offset_def)
  from append_decls_leads [OF ts(1) o(2) ts(2), of sv]
  obtain t' d' off' "is" where decls: "append_decls k' st t d ?off sv = Inr (t', d', off', sv @ render_all (indices is))" "list_all fits_int is" "is_offset off'"
    "ends_in (compound_sound k st) t' (pointer_flag d')"
    and run: "\<And>g. entered fuel st t d g \<Longrightarrow> (\<exists>g'. gm_run fuel st 0 (indices is) g = Inr (Inr g') \<and> g_offset g' = g_offset g + (?off - off')
            \<and> arrived fuel st t' (Some d') g')" by blast
  have p: "pointing (Some d') = pointer_flag d'" by (simp add: pointing_def)
  have e: "ends_in (compound_sound k st) t' (pointing (Some d'))" using decls(4) p by simp
  obtain r where r: "append_end (get_member_string_rec k uc st) t' (pointer_flag d') off' (sv @ render_all (indices is)) info = Inr r"
    "written (\<lambda>ts. \<forall>g. arrived fuel st t' (Some d') g \<longrightarrow> leads_to fuel st g ts off') (sv @ render_all (indices is)) r"
    using append_end_writes [OF rec_ok e decls(3), unfolded p] by blast
  have "written (\<lambda>ts. \<forall>g. entered fuel st t d g \<longrightarrow> leads_to fuel st g ts ?off) sv r"
  proof (rule written_append [OF r(2) decls(2)], intro allI impI)
    fix ts g assume ts: "\<forall>g. arrived fuel st t' (Some d') g \<longrightarrow> leads_to fuel st g ts off'" and g: "entered fuel st t d g"
    obtain g' where g': "gm_run fuel st 0 (indices is) g = Inr (Inr g')" "g_offset g' = g_offset g + (?off - off')" "arrived fuel st t' (Some d') g'"
      using run [OF g] by blast
    have "leads_to fuel st g' ts off'" using ts g'(3) by blast
    from leads_to_append [OF g'(1,2) this] show "leads_to fuel st g (indices is @ ts) ?off" by simp
  qed
  then show ?thesis using decls(1) r(1) o(1) by (simp add: append_decl_def)
qed

end
