(* ===== verification/Member_Search.thy ===== *)
theory Member_Search
  imports Member_Walk
begin

text \<open>
  The search through the members of a compound in \<^verbatim>\<open>cbc/member.c\<close> always finds a name for the
  offset, and the name leads back to it.
\<close>

section \<open>The loops over declarations and declarators\<close>

definition best_ok :: "(me_walk_info list \<Rightarrow> bool) \<Rightarrow> string \<Rightarrow> GMSRV \<Rightarrow> string option \<Rightarrow> bool" where
  "best_ok P sv best bestSV \<longleftrightarrow> (case bestSV of None \<Rightarrow> best = GMS_NONE | Some s \<Rightarrow> written P sv (best, s, None))"

definition flow_ok :: "(me_walk_info list \<Rightarrow> bool) \<Rightarrow> string \<Rightarrow> bool \<Rightarrow> gms_flow \<Rightarrow> bool" where
  "flow_ok P sv u flow \<longleftrightarrow> (case flow of Ret r \<Rightarrow> written P sv r
     | Cont best bestSV info \<Rightarrow> best_ok P sv best bestSV
     | Union_end best bestSV info \<Rightarrow> u \<and> bestSV \<noteq> None \<and> best_ok P sv best bestSV)"

lemma written_info: "written P sv (rval, s, i) = written P sv (rval, s, j)"
  by (simp add: written_def)

lemma pad_written: "P [MERV_OFFSET real] \<Longrightarrow> is_offset real \<Longrightarrow> written P sv (gms_pad uc real sv info)"
  by (auto simp: gms_pad_def Let_def written_def intro!: exI [of _ "[MERV_OFFSET real]"])

lemma take_ok:
  assumes "x = Inr r" "written P sv r" "best_ok P sv best bestSV"
  shows "\<exists>flow. gms_take u x best bestSV = Inr flow \<and> flow_ok P sv u flow"
proof -
  obtain rval s i where r: "r = (rval, s, i)" by (cases r)
  have w: "written P sv (rval, s, None)" using assms(2) written_info r by fastforce
  have rank: "gms_rank rval > 0" using w by (cases rval) (auto simp: written_def gms_rank_def)
  have some: "best = GMS_HIT \<Longrightarrow> bestSV \<noteq> None" using assms(3) by (auto simp: best_ok_def split: option.splits)
  have none: "best_ok P sv best None \<Longrightarrow> gms_rank best = 0" by (simp add: best_ok_def gms_rank_def)
  show ?thesis
    using assms w r some none rank
    by (auto simp: gms_take_def gms_best_def flow_ok_def best_ok_def Let_def split: option.splits if_splits)
qed

lemma declarators_ok:
  assumes "\<And>d i. d \<in> set ds \<Longrightarrow> d_offset d \<le> off \<Longrightarrow> off < d_offset d + d_size d \<Longrightarrow> \<exists>r. app d i = Inr r \<and> written P sv r"
    and "P [MERV_OFFSET real]" "is_offset real" "best_ok P sv best bestSV"
  shows "\<exists>flow. gms_declarators uc app u off real sv ds best bestSV info = Inr flow \<and> flow_ok P sv u flow"
  using assms
proof (induction ds arbitrary: best bestSV info)
  case Nil
  then show ?case by (simp add: flow_ok_def)
next
  case (Cons d ds)
  have IH: "\<exists>flow. gms_declarators uc app u off real sv ds best bestSV info = Inr flow \<and> flow_ok P sv u flow"
    if "best_ok P sv best bestSV" for best bestSV info using Cons.IH Cons.prems(1-3) that by simp
  consider "d_offset d > off" | "d_offset d \<le> off" "off < d_offset d + d_size d" | "d_offset d \<le> off" "\<not> off < d_offset d + d_size d" by linarith
  then show ?case
  proof cases
    case 1
    then show ?thesis using pad_written [where P = P, OF Cons.prems(2,3)] by (simp add: flow_ok_def)
  next
    case 2
    obtain r where "app d info = Inr r" "written P sv r" using Cons.prems(1) [of d info] 2 by auto
    from take_ok [OF this Cons.prems(4), of u] obtain flow where flow: "gms_take u (app d info) best bestSV = Inr flow" "flow_ok P sv u flow" by blast
    show ?thesis
    proof (cases flow)
      case (Cont b bsv i)
      then have "best_ok P sv b bsv" using flow(2) by (simp add: flow_ok_def)
      from IH [OF this, of i] show ?thesis using 2 flow Cont by simp
    qed (use 2 flow in auto)
  next
    case 3
    then show ?thesis using IH [OF Cons.prems(4), of info] by simp
  qed
qed

lemma declarations_ok:
  assumes "\<And>sd ds d i. sd \<in> set sds \<Longrightarrow> sd_declarators sd = Some ds \<Longrightarrow> d \<in> set ds
      \<Longrightarrow> sd_offset sd \<le> off \<Longrightarrow> off < sd_offset sd + sd_size sd \<Longrightarrow> d_offset d \<le> off \<Longrightarrow> off < d_offset d + d_size d
      \<Longrightarrow> \<exists>r. app (sd_type sd) d i = Inr r \<and> written P sv r"
    and "\<And>sd i. sd \<in> set sds \<Longrightarrow> sd_declarators sd = None \<Longrightarrow> sd_offset sd \<le> off
      \<Longrightarrow> \<exists>r. unnamed (sd_type sd) (if u then off else off - sd_offset sd) i = Inr r \<and> written P sv r"
    and "P [MERV_OFFSET real]" "is_offset real" "best_ok P sv best bestSV"
  shows "\<exists>flow. gms_declarations uc app unnamed u off real sv sds best bestSV info = Inr flow \<and> flow_ok P sv u flow"
  using assms
proof (induction sds arbitrary: best bestSV info)
  case Nil
  then show ?case by (simp add: flow_ok_def)
next
  case (Cons sd sds)
  have IH: "\<exists>flow. gms_declarations uc app unnamed u off real sv sds best bestSV info = Inr flow \<and> flow_ok P sv u flow"
    if best: "best_ok P sv best bestSV" for best bestSV info
    by (rule Cons.IH [OF _ _ Cons.prems(3,4) best]) (use Cons.prems(1,2) in auto)
  consider "sd_offset sd > off" | "sd_offset sd \<le> off" "off < sd_offset sd + sd_size sd" | "sd_offset sd \<le> off" "\<not> off < sd_offset sd + sd_size sd" by linarith
  then show ?case
  proof cases
    case 1
    then show ?thesis using pad_written [where P = P, OF Cons.prems(3,4)] by (simp add: flow_ok_def)
  next
    case 2
    define x where "x = (case sd_declarators sd of
            None \<Rightarrow> gms_take u (unnamed (sd_type sd) (if u then off else off - sd_offset sd) info) best bestSV
          | Some ds \<Rightarrow> gms_declarators uc (app (sd_type sd)) u off real sv ds best bestSV info)"
    have "\<exists>flow. x = Inr flow \<and> flow_ok P sv u flow"
    proof (cases "sd_declarators sd")
      case None
      obtain r where "unnamed (sd_type sd) (if u then off else off - sd_offset sd) info = Inr r" "written P sv r"
        using Cons.prems(2) [of sd info] None 2 by auto
      from take_ok [OF this Cons.prems(5), of u] show ?thesis by (simp add: x_def None)
    next
      case (Some ds)
      have "\<exists>flow. gms_declarators uc (app (sd_type sd)) u off real sv ds best bestSV info = Inr flow \<and> flow_ok P sv u flow"
        by (rule declarators_ok [OF _ Cons.prems(3,4,5)]) (use Cons.prems(1) [of sd ds] Some 2 in auto)
      then show ?thesis by (simp add: x_def Some)
    qed
    then obtain flow where flow: "x = Inr flow" "flow_ok P sv u flow" by blast
    have eq: "gms_declarations uc app unnamed u off real sv (sd # sds) best bestSV info = and_then x (\<lambda>flow. case flow of
          Cont best bestSV info \<Rightarrow> gms_declarations uc app unnamed u off real sv sds best bestSV info
        | _ \<Rightarrow> Inr flow)" using 2 by (simp add: x_def)
    show ?thesis
    proof (cases flow)
      case (Cont b bsv i)
      then have "best_ok P sv b bsv" using flow(2) by (simp add: flow_ok_def)
      from IH [OF this, of i] show ?thesis using eq flow Cont by simp
    qed (use eq flow in auto)
  next
    case 3
    then show ?thesis using IH [OF Cons.prems(5), of info] by simp
  qed
qed

lemma finish_ok:
  "flow_ok P sv u flow \<Longrightarrow> P [MERV_OFFSET real] \<Longrightarrow> is_offset real \<Longrightarrow> \<exists>r. gms_finish uc u real sv flow = Inr r \<and> written P sv r"
proof -
  assume ok: "flow_ok P sv u flow" and P: "P [MERV_OFFSET real]" "is_offset real"
  have pad: "written P sv (gms_pad uc real sv info)" for info using P by (rule pad_written)
  have best: "written P sv (best, s, info)" if "best_ok P sv best (Some s)" for best s info
    using that by (simp add: best_ok_def written_def)
  show ?thesis
  proof (cases flow)
    case (Ret r)
    then show ?thesis using ok by (simp add: gms_finish_def flow_ok_def)
  next
    case (Cont b bsv i)
    then show ?thesis using ok best pad by (cases bsv) (auto simp: gms_finish_def flow_ok_def simp del: split_paired_Ex)
  next
    case (Union_end b bsv i)
    then show ?thesis using ok best by (cases bsv) (auto simp: gms_finish_def flow_ok_def)
  qed
qed

section \<open>The search\<close>

lemma inside_nested:
  assumes "inside fuel k st m (off - sd_offset sd) real ts" "structs st n = Some s" "s_declarations s = Some sds" "sd \<in> set sds"
    "sd_declarators sd = None" "FOLLOW_AND_CHECK_TSPTR k st (sd_type sd) = Inr m"
  shows "inside fuel (Suc k) st n off real ts"
  using assms(1) unfolding inside_def
proof (elim disjE exE conjE)
  fix name rest at sd' d
  assume ts: "ts = MERV_COMPOUND_MEMBER name True # rest" "name \<noteq> []" and mem: "(name, at, sd', d) \<in> set (members k st m)"
    and rest: "\<forall>g. at_member (sd_type sd') d g \<longrightarrow> leads_to fuel st g rest (off - sd_offset sd - at)"
  have "(name, sd_offset sd + at, sd', d) \<in> set (shifted (sd_offset sd) (members k st m))" using mem by (force simp: shifted_def)
  then have "(name, sd_offset sd + at, sd', d) \<in> set (members (Suc k) st n)" using assms(2-) by (auto intro!: bexI [of _ sd])
  moreover have "off - sd_offset sd - at = off - (sd_offset sd + at)" by simp
  ultimately have "\<exists>name rest at sd d. ts = MERV_COMPOUND_MEMBER name True # rest \<and> name \<noteq> [] \<and> (name, at, sd, d) \<in> set (members (Suc k) st n)
        \<and> (\<forall>g. at_member (sd_type sd) d g \<longrightarrow> leads_to fuel st g rest (off - at))" using ts rest by metis
  then show "ts = [MERV_OFFSET real] \<or> (\<exists>name rest at sd d. ts = MERV_COMPOUND_MEMBER name True # rest \<and> name \<noteq> []
        \<and> (name, at, sd, d) \<in> set (members (Suc k) st n) \<and> (\<forall>g. at_member (sd_type sd) d g \<longrightarrow> leads_to fuel st g rest (off - at)))" by blast
qed simp

lemma inside_member:
  assumes ts: "\<forall>g. entered fuel st (sd_type sd) d g \<longrightarrow> leads_to fuel st g ts (off - max 0 (d_offset d))"
    and s: "structs st n = Some s" "s_declarations s = Some sds" "sd \<in> set sds" "sd_declarators sd = Some ds" "d \<in> set ds" "d_identifier d \<noteq> []"
  shows "inside fuel (Suc k) st n off real (MERV_COMPOUND_MEMBER (d_identifier d) True # ts)"
proof -
  have "(d_identifier d, max 0 (d_offset d), sd, d) \<in> set (declared sd ds)" using s by (auto simp: declared_def)
  then have "(d_identifier d, max 0 (d_offset d), sd, d) \<in> set (members (Suc k) st n)" using s(1-4) by (auto intro!: bexI [of _ sd])
  moreover have "at_member (sd_type sd) d g \<Longrightarrow> leads_to fuel st g ts (off - max 0 (d_offset d))" for g
    using ts by (auto simp: at_member_def entered_def at_level_def)
  ultimately show ?thesis using s(6) unfolding inside_def by blast
qed

lemma search_writes_all: "k \<le> fuel \<Longrightarrow> search_writes fuel k uc st"
proof (induction k)
  case 0
  then show ?case by (simp add: search_writes_def)
next
  case (Suc k)
  then have IH: "search_writes fuel k uc st" and k: "k \<le> fuel" by simp_all
  show ?case unfolding search_writes_def
  proof (intro allI impI)
    fix n and off real :: int and sv and info :: "GMSInfo option"
    assume n: "compound_sound (Suc k) st n" and off: "is_offset off" and real: "is_offset real"
    obtain s sds where s: "structs st n = Some s" "s_declarations s = Some sds"
      and sds: "\<forall>sd\<in>set sds. declaration_sound (compound_sound k st) k st (has_flag (s_tflags s) T_UNION) sd"
      using n by (rule compound_soundE) auto
    define u where "u = has_flag (s_tflags s) T_UNION"
    define app where "app = (\<lambda>ts d i. append_member_string_rec (get_member_string_rec k uc st) k st ts (Some d) off sv i)"
    define un where "un = (\<lambda>ts at i. and_then (FOLLOW_AND_CHECK_TSPTR k st ts) (\<lambda>n. get_member_string_rec k uc st (Some n) at real sv i))"
    let ?P = "inside fuel (Suc k) st n off real"
    have named: "\<exists>r. app (sd_type sd) d i = Inr r \<and> written ?P sv r"
      if sd: "sd \<in> set sds" "sd_declarators sd = Some ds" "d \<in> set ds"
        and room: "sd_offset sd \<le> off" "off < sd_offset sd + sd_size sd" and d: "d_offset d \<le> off" "off < d_offset d + d_size d" for sd ds d i
    proof -
      have d1: "0 < sd_size sd" "0 < d_size d" using room d by linarith+
      then have ok: "identifier_ok (d_identifier d)" "chain_ok (compound_sound k st) k st (sd_type sd) d"
        using sds sd by (auto simp: declaration_sound_def split: option.splits)
      have d2: "max 0 (d_offset d) \<le> off" using d(1) off by auto
      obtain r where r: "append_decl (get_member_string_rec k uc st) k st (sd_type sd) d off (sv @ CHR ''.'' # d_identifier d) i = Inr r"
        "written (\<lambda>ts. \<forall>g. entered fuel st (sd_type sd) d g \<longrightarrow> leads_to fuel st g ts (off - max 0 (d_offset d))) (sv @ CHR ''.'' # d_identifier d) r"
        using append_decl_writes [OF IH k ok(2) k d2 off] by blast
      have ne: "d_identifier d \<noteq> []" using ok(1) by (auto simp: identifier_ok_def)
      obtain ts where ts: "fst r \<noteq> GMS_NONE" "fst (snd r) = (sv @ CHR ''.'' # d_identifier d) @ render_all ts" "well_formed ts"
        "\<forall>g. entered fuel st (sd_type sd) d g \<longrightarrow> leads_to fuel st g ts (off - max 0 (d_offset d))" using r(2) by (auto simp: written_def)
      have "?P (MERV_COMPOUND_MEMBER (d_identifier d) True # ts)"
        by (rule inside_member [OF ts(4) s sd ne])
      then have "written ?P sv r"
        using ts ok(1) by (auto simp: written_def intro!: exI [of _ "MERV_COMPOUND_MEMBER (d_identifier d) True # ts"])
      then show ?thesis using r(1) ne by (simp add: app_def append_member_string_rec_def)
    qed
    have unnamed: "\<exists>r. un (sd_type sd) (if u then off else off - sd_offset sd) i = Inr r \<and> written ?P sv r"
      if sd: "sd \<in> set sds" "sd_declarators sd = None" "sd_offset sd \<le> off" for sd i
    proof -
      obtain m where m: "FOLLOW_AND_CHECK_TSPTR k st (sd_type sd) = Inr m" "compound_sound k st m" "0 \<le> sd_offset sd" "u \<longrightarrow> sd_offset sd = 0"
        using unnamed_sound sds sd unfolding u_def by blast
      have at: "(if u then off else off - sd_offset sd) = off - sd_offset sd" "is_offset (off - sd_offset sd)"
        using m sd off by (auto simp: is_offset_def)
      obtain r where r: "get_member_string_rec k uc st (Some m) (off - sd_offset sd) real sv i = Inr r"
        "written (inside fuel k st m (off - sd_offset sd) real) sv r"
        using IH m(2) at(2) real unfolding search_writes_def by blast
      have "written ?P sv r" by (rule written_mono [OF r(2)]) (rule inside_nested [OF _ s sd(1,2) m(1)])
      then show ?thesis using r(1) m(1) at(1) by (simp add: un_def)
    qed
    have P: "?P [MERV_OFFSET real]" by (simp add: inside_def)
    have none: "best_ok ?P sv GMS_NONE None" by (simp add: best_ok_def)
    have "\<exists>flow. gms_declarations uc app un u off real sv sds GMS_NONE None info = Inr flow \<and> flow_ok ?P sv u flow"
      by (rule declarations_ok [where P = ?P, OF _ _ P real none]) (erule (6) named, erule (2) unnamed)
    then obtain flow where flow: "gms_declarations uc app un u off real sv sds GMS_NONE None info = Inr flow" "flow_ok ?P sv u flow" by blast
    obtain r where r: "gms_finish uc u real sv flow = Inr r" "written ?P sv r" using finish_ok [where P = ?P, OF flow(2) P real] by blast
    have "get_member_string_rec (Suc k) uc st (Some n) off real sv info = Inr r"
      using s flow(1) r(1) by (simp add: struct_at_def u_def app_def un_def)
    then show "\<exists>r. get_member_string_rec (Suc k) uc st (Some n) off real sv info = Inr r \<and> written ?P sv r" using r(2) by blast
  qed
qed

end
