(* ===== verification/Member_Props.thy ===== *)
theory Member_Props
  imports Member_Search Layout_Examples
begin

text \<open>The properties of \<^verbatim>\<open>cbc/member.c\<close>, with the structs of the examples laid out by the code.\<close>

section \<open>Reading expressions\<close>

text \<open>
  C20 The walker splits a member expression into the parts it was written from, then reports
  its end: names after a dot, indices of either sign, and an offset in the last place, both
  within the range of an \<open>int\<close>.
\<close>

theorem member_expr_roundtrip:
  "well_formed ts \<Longrightarrow> walk_all (member_expr_walker_new (render_all ts)) = ts @ [MERV_END]"
  by (rule walk_all_render) (simp_all add: member_expr_walker_new_def)

lemma identifier_example: "identifier_ok ''_x1''"
  by (simp add: identifier_ok_def ident_start_def ident_char_def ctype_defs)

theorem member_expr_roundtrip_witness:
  "walk_all (member_expr_walker_new (render_all [MERV_COMPOUND_MEMBER ''_x1'' True, MERV_ARRAY_INDEX (-12), MERV_OFFSET 30]))
     = [MERV_COMPOUND_MEMBER ''_x1'' True, MERV_ARRAY_INDEX (-12), MERV_OFFSET 30, MERV_END]"
  by (subst member_expr_roundtrip) (simp_all add: identifier_example fits_int_def is_offset_def)

section \<open>From an offset to a name and back\<close>

text \<open>
  C4 For a type whose compounds are laid out soundly, every offset (an \<open>int\<close> that is not negative) has
  a name, and the member expression with that name has the offset it was written for, whether
  it names a member, a place inside one, or padding.
\<close>

theorem member_string_roundtrip:
  assumes "type_sound fuel st (mi_type mi)" and "mi_decl mi = None" and "mi_level mi = 0" and "is_offset off"
  shows "\<exists>s info' r. get_member_string fuel uc st mi off info = Inr (Some s, info')
    \<and> get_member fuel st mi s 0 = Inr (Inr (Some r)) \<and> mi_offset r = off"
proof -
  define rec_struct where "rec_struct = get_member_string_rec fuel uc st"
  obtain info0 where info0: "(case info of None \<Rightarrow> Inr None
       | Some gi \<Rightarrow> and_then (HT_new_ex 4 0) (\<lambda>t. Inr (Some (gi\<lparr>gi_htpad := t\<rparr>)))) = (Inr info0 :: GMSInfo option run)"
    by (cases info) (auto simp: HT_new_ex_def check_def)
  have "\<exists>r g. append_member_string_rec rec_struct fuel st (mi_type mi) None off [] info0 = Inr r \<and> gm_start st mi 0 = Inr g
      \<and> g_offset g = 0 \<and> written (\<lambda>ts. leads_to fuel st g ts off) [] r"
  proof (cases "has_flag (ts_tflags (mi_type mi)) T_TYPE")
    case True
    then obtain t d where td: "pTypedef st (mi_type mi) = Inr (t, d)" "d_offset d \<le> 0" "chain_ok (compound_sound fuel st) fuel st t d"
      using assms(1) by (auto simp: type_sound_def split: sum.splits)
    obtain g where g: "gm_start st mi 0 = Inr g" "g_offset g = 0" "at_level t d 0 (d_size d) g"
      using assms(2,3) True td(1) by (simp add: gm_start_def at_level_def)
    have off: "max 0 (d_offset d) \<le> off" using td(2) assms(4) by auto
    obtain r where r: "append_decl rec_struct fuel st t d off [] info0 = Inr r"
      "written (\<lambda>ts. \<forall>g. entered fuel st t d g \<longrightarrow> leads_to fuel st g ts (off - max 0 (d_offset d))) [] r"
      using append_decl_writes [OF search_writes_all [OF order_refl] order_refl td(3) order_refl off assms(4)] unfolding rec_struct_def by blast
    have "written (\<lambda>ts. leads_to fuel st g ts off) [] r"
      by (rule written_mono [OF r(2)]) (use td(2) g(3) in \<open>auto simp: entered_def\<close>)
    then show ?thesis using r(1) g td(1) True by (simp add: append_member_string_rec_def)
  next
    case False
    obtain g where g: "gm_start st mi 0 = Inr g" "g_offset g = 0" "g_type g = mi_type mi" "g_decl g = None" "g_level g = 0"
      using assms(2,3) False by (simp add: gm_start_def)
    have arr: "arrived fuel st (mi_type mi) None g"
      using g by (simp add: arrived_def standing_def gm_follow_def PROPAGATE_FLAGS_def end_level_def)
    have "ends_in (compound_sound fuel st) (mi_type mi) (pointing None)"
      using assms(1) False by (auto simp: ends_in_def type_sound_def split: option.splits)
    from append_end_writes [OF search_writes_all [OF order_refl] order_refl this assms(4)]
    obtain r where r: "append_end rec_struct (mi_type mi) False off [] info0 = Inr r"
      "written (\<lambda>ts. \<forall>g. arrived fuel st (mi_type mi) None g \<longrightarrow> leads_to fuel st g ts off) [] r"
      unfolding rec_struct_def pointing_def option.case by blast
    have "written (\<lambda>ts. leads_to fuel st g ts off) [] r" by (rule written_mono [OF r(2)]) (use arr in blast)
    then show ?thesis using r(1) g False by (simp add: append_member_string_rec_def)
  qed
  then obtain rval sv info' g where r: "append_member_string_rec rec_struct fuel st (mi_type mi) None off [] info0 = Inr (rval, sv, info')"
    and g: "gm_start st mi 0 = Inr g" "g_offset g = 0" and w: "written (\<lambda>ts. leads_to fuel st g ts off) [] (rval, sv, info')"
    by (metis prod_cases3)
  obtain ts where ts: "rval \<noteq> GMS_NONE" "sv = render_all ts" "well_formed ts" "leads_to fuel st g ts off" using w by (auto simp: written_def)
  have "\<forall>t\<in>set ts. \<not> terminal t" using ts(3) by (induction ts rule: well_formed.induct) (auto simp: terminal_def)
  then have loop: "gm_loop fuel st 0 (member_expr_walker_new sv) g = gm_run fuel st 0 ts g"
    using gm_loop_run [OF walk_all_render [OF ts(3)]] ts(2) by (simp add: member_expr_walker_new_def)
  have "get_member_string fuel uc st mi off info = Inr (Some sv, info')"
    using r ts(1) assms(2) info0 unfolding get_member_string_def rec_struct_def by simp
  moreover have "\<exists>r. get_member fuel st mi sv 0 = Inr (Inr (Some r)) \<and> mi_offset r = off"
    using g ts(4) loop by (auto simp: get_member_def leads_to_def)
  ultimately show ?thesis by blast
qed

text \<open>
  \<open>struct shape { char tag; union { int id; short wh[2][2]; }; struct point at[3]; }\<close> with
  \<open>struct point { char x; int y; }\<close>.
\<close>

definition placed :: "Declarator \<Rightarrow> int \<Rightarrow> int \<Rightarrow> Declarator" where
  "placed d off n = d\<lparr>d_offset := off, d_size := n\<rparr>"

definition declare_placed :: "u_32 \<Rightarrow> nat option \<Rightarrow> int \<Rightarrow> int \<Rightarrow> Declarator list option \<Rightarrow> StructDeclaration" where
  "declare_placed flags ptr off n ds = \<lparr>sd_type = \<lparr>ts_ptr = ptr, ts_tflags = flags\<rparr>, sd_declarators = ds, sd_offset = off, sd_size = n\<rparr>"

definition point_struct :: Struct where
  "point_struct = struct_new (Some ''point'') 0 T_STRUCT 0 (Some
     [declare_placed T_CHAR None 0 1 (Some [placed (decl_new (Some ''x'') 0) 0 1]),
      declare_placed T_INT None 4 4 (Some [placed (decl_new (Some ''y'') 0) 4 4])])"

definition shape_union :: Struct where
  "shape_union = struct_new None 0 T_UNION 0 (Some
     [declare_placed T_INT None 0 4 (Some [placed (decl_new (Some ''id'') 0) 0 4]),
      declare_placed T_SHORT None 0 8 (Some [placed ((array_member ''wh'' 2)\<lparr>ext_array := Some [value_new 2 0, value_new 2 0]\<rparr>) 0 8])])"

definition shape_struct :: Struct where
  "shape_struct = struct_new (Some ''shape'') 0 T_STRUCT 0 (Some
     [declare_placed T_CHAR None 0 1 (Some [placed (decl_new (Some ''tag'') 0) 0 1]),
      declare_placed T_UNION (Some 1) 4 8 None,
      declare_placed T_STRUCT (Some 2) 12 24 (Some [placed (array_member ''at'' 3) 12 24])])"

definition whole :: "u_32 \<Rightarrow> nat \<Rightarrow> MemberInfo" where
  "whole flags n = \<lparr>mi_type = \<lparr>ts_ptr = Some n, ts_tflags = flags\<rparr>, mi_parent = None, mi_decl = None, mi_level = 0,
     mi_offset = 0, mi_size = 0, mi_flags = 0\<rparr>"

definition shape_state :: CState where
  "shape_state = store [shape_struct, shape_union, point_struct]"

lemma shape_sound: "type_sound 6 shape_state (mi_type (whole T_STRUCT 0))"
  by code_simp

theorem member_string_roundtrip_witness:
  "\<exists>s info' r. get_member_string 6 True shape_state (whole T_STRUCT 0) 17 None = Inr (Some s, info')
    \<and> get_member 6 shape_state (whole T_STRUCT 0) s 0 = Inr (Inr (Some r)) \<and> mi_offset r = 17"
  using member_string_roundtrip [OF shape_sound, of 17 True None] by (simp add: whole_def is_offset_def)

section \<open>Names that are not there\<close>

text \<open>
  C40 A name that is no member of a struct is reported, cut to 17 characters and three dots
  when it is longer than 20; a name of exactly 20 characters is copied without its end, and the
  message reads on behind it.
\<close>

theorem unknown_member:
  assumes "compound_sound fuel st n" and "structs st n = Some s" and "has_flag (s_tflags s) T_STRUCT"
    and "has_flag flags T_COMPOUND" and "\<not> has_flag flags T_TYPE"
    and "identifier_ok name" and "name \<notin> fst ` set (members fuel st n)"
  shows "get_member fuel st (whole flags n) (CHR ''.'' # name) 0 =
    (if length name = 20 then Inl Undefined_behaviour
     else Inr (Inl (''Cannot find struct member '' @ quoted (if length name > 20 then take 17 name @ ''...'' else name))))"
proof -
  let ?ts = "[MERV_COMPOUND_MEMBER name True]"
  have wf: "well_formed ?ts" using assms(6) by simp
  have me: "render_all ?ts = CHR ''.'' # name" by simp
  obtain g where g: "gm_start st (whole flags n) 0 = Inr g" "g_type g = \<lparr>ts_ptr = Some n, ts_tflags = flags\<rparr>" "g_decl g = None"
    using assms(5) by (simp add: gm_start_def whole_def)
  have loop: "gm_loop fuel st 0 (member_expr_walker_new (CHR ''.'' # name)) g = gm_run fuel st 0 ?ts g"
    by (rule gm_loop_run [OF walk_all_render [OF wf]]) (simp_all add: member_expr_walker_new_def terminal_def)
  have search: "search_struct_member fuel st n name = Inr None"
    using search_members [OF assms(1), of name] assms(7) by (simp add: map_of_eq_None_iff)
  have "gm_run fuel st 0 ?ts g = (if length name = 20 then Inl Undefined_behaviour
     else croak (''Cannot find struct member '' @ quoted (if length name > 20 then take 17 name @ ''...'' else name)))"
    using assms(2-5) g(2,3) search
    by (simp add: gm_step_def terminal_def gm_follow_def PROPAGATE_FLAGS_def gm_member_def struct_at_def TRUNC_NAME_def croak_def)
  then show ?thesis using g(1) loop by (simp add: get_member_def croak_def)
qed

lemma point_sound: "compound_sound 6 shape_state 2" "fst ` set (members 6 shape_state 2) = {''x'', ''y''}"
  by code_simp+

lemma point_is_struct: "structs shape_state 2 = Some point_struct" "has_flag (s_tflags point_struct) T_STRUCT"
  by (simp add: shape_state_def store_def) code_simp

theorem unknown_member_witness:
  "get_member 6 shape_state (whole T_STRUCT 2) ''.abcdefghijklmnopqrst'' 0 = Inl Undefined_behaviour
   \<and> get_member 6 shape_state (whole T_STRUCT 2) ''.z'' 0 = Inr (Inl (''Cannot find struct member '' @ quoted ''z''))"
proof -
  have name: "identifier_ok ''abcdefghijklmnopqrst''" "identifier_ok ''z''"
    by (simp_all add: identifier_ok_def ident_start_def ident_char_def ctype_defs)
  have flags: "has_flag T_STRUCT T_COMPOUND" "\<not> has_flag T_STRUCT T_TYPE" by (simp_all add: has_flag_def)
  note u = unknown_member [OF point_sound(1) point_is_struct flags, unfolded point_sound(2)]
  show ?thesis using u [OF name(1)] u [OF name(2)] by simp
qed

section \<open>Arrays of pointers\<close>

text \<open>\<open>struct holder { struct point *p[2]; }\<close>, with pointers of 8 bytes.\<close>

definition holder_struct :: Struct where
  "holder_struct = struct_new (Some ''holder'') 0 T_STRUCT 0 (Some
     [declare_placed T_STRUCT (Some 1) 0 16 (Some [placed ((array_member ''p'' 2)\<lparr>pointer_flag := True\<rparr>) 0 16])])"

definition holder_state :: CState where
  "holder_state = store [holder_struct, point_struct]"

definition name_in_member :: "CState \<Rightarrow> MemberInfo \<Rightarrow> string \<Rightarrow> int \<Rightarrow> (string + string option) run" where
  "name_in_member st mi name off = and_then (get_member 4 st mi name 0) (\<lambda>x. case x of
     Inr (Some m) \<Rightarrow> and_then (get_member_string 4 True st m off None) (\<lambda>(s, _). Inr (Inr s))
   | Inr None \<Rightarrow> Inr (Inr None) | Inl msg \<Rightarrow> Inr (Inl msg))"

text \<open>
  For an array of pointers to structs, which the method \<open>member\<close> accepts, the pointer is
  forgotten: offset 12 of the member \<open>p\<close> is named \<open>[1].y\<close>, a member of what the pointer points to,
  and \<open>get_member\<close> refuses that name.
\<close>

theorem pointer_array_name:
  "name_in_member holder_state (whole T_STRUCT 0) ''.p'' 12 = Inr (Inr (Some ''[1].y''))
   \<and> get_member 4 holder_state (whole T_STRUCT 0) ''.p[1].y'' 0
     = Inr (Inl (''Cannot access member '' @ quoted ''y'' @ '' of pointer type''))"
  by (rule conjI) code_simp+

section \<open>All members\<close>

lemma run_fold_counts:
  assumes "\<And>x l r. x \<in> set xs \<Longrightarrow> f x (AMS_list l) = Inr r \<Longrightarrow> \<exists>m. r = AMS_list (l @ m) \<and> (\<forall>n. g x (AMS_count n) = Inr (AMS_count (n + int (length m))))"
    and "run_fold f xs (AMS_list l) = Inr r"
  shows "\<exists>m. r = AMS_list (l @ m) \<and> (\<forall>n. run_fold g xs (AMS_count n) = Inr (AMS_count (n + int (length m))))"
  using assms
proof (induction xs arbitrary: l)
  case (Cons x xs)
  obtain r1 where r1: "f x (AMS_list l) = Inr r1" "run_fold f xs r1 = Inr r"
    using Cons.prems(2) by (auto simp: and_then_Inr)
  obtain m1 where m1: "r1 = AMS_list (l @ m1)" "\<And>n. g x (AMS_count n) = Inr (AMS_count (n + int (length m1)))"
    using Cons.prems(1) [OF _ r1(1)] by auto
  have "\<exists>m. r = AMS_list ((l @ m1) @ m) \<and> (\<forall>n. run_fold g xs (AMS_count n) = Inr (AMS_count (n + int (length m))))"
    by (rule Cons.IH) (use Cons.prems(1) r1(2) m1(1) in auto)
  then obtain m where m: "r = AMS_list ((l @ m1) @ m)" "\<And>n. run_fold g xs (AMS_count n) = Inr (AMS_count (n + int (length m)))" by blast
  show ?case using m m1(2) by (intro exI [of _ "m1 @ m"]) (simp add: algebra_simps)
qed simp

text \<open>One that lists and one that counts agree.\<close>

definition counts :: "(string option \<Rightarrow> AMSInfo \<Rightarrow> AMSInfo run) \<Rightarrow> bool" where
  "counts f \<longleftrightarrow> (\<forall>name l r. f (Some name) (AMS_list l) = Inr r \<longrightarrow>
     (\<exists>m. r = AMS_list (l @ m) \<and> (\<forall>n. f None (AMS_count n) = Inr (AMS_count (n + int (length m))))))"

lemma counts_basic: "counts (\<lambda>n i. Inr (ams_basic n i))"
  by (simp add: counts_def ams_basic_def)

lemma counts_return: "counts (\<lambda>n i. Inr i)"
  by (simp add: counts_def)

lemma counts_fail: "counts (\<lambda>n i. Inl e)"
  by (simp add: counts_def)

lemma counts_bind: "(\<And>x. c = Inr x \<Longrightarrow> counts (f x)) \<Longrightarrow> counts (\<lambda>n i. and_then c (\<lambda>x. f x n i))"
  by (cases c) (simp_all add: counts_fail)

lemma counts_if: "counts f \<Longrightarrow> counts g \<Longrightarrow> counts (\<lambda>n i. if b then f n i else g n i)"
  by (cases b) simp_all

lemma counts_fold: "(\<And>x. x \<in> set xs \<Longrightarrow> counts (F x)) \<Longrightarrow> counts (\<lambda>n i. run_fold (\<lambda>x. F x n) xs i)"
  unfolding counts_def [of "\<lambda>n i. run_fold (\<lambda>x. F x n) xs i"]
proof (intro allI impI)
  fix name l r assume F: "\<And>x. x \<in> set xs \<Longrightarrow> counts (F x)" and run: "run_fold (\<lambda>x. F x (Some name)) xs (AMS_list l) = Inr r"
  show "\<exists>m. r = AMS_list (l @ m) \<and> (\<forall>n. run_fold (\<lambda>x. F x None) xs (AMS_count n) = Inr (AMS_count (n + int (length m))))"
    by (rule run_fold_counts [OF _ run]) (use F in \<open>auto simp: counts_def\<close>)
qed

lemma counts_name: "counts f \<Longrightarrow> counts (\<lambda>n i. f (map_option g n) i)"
  by (simp add: counts_def)

lemma counts_elements: "counts f \<Longrightarrow> counts (\<lambda>n i. ams_elements f n s i)"
  unfolding ams_elements_def by (rule counts_fold) (auto simp: counts_def and_then_Inr)

lemma counts_struct:
  assumes "\<And>ts d. counts (\<lambda>n i. rec_type ts (Some d) 0 n i)" "\<And>p. counts (rec_struct p)"
  shows "counts (\<lambda>n i. ams_struct rec_type rec_struct k st p n i)"
  unfolding ams_struct_def
proof (rule counts_bind, rule counts_fold)
  fix sd
  show "counts (\<lambda>n i. case sd_declarators sd of
         Some ds \<Rightarrow> run_fold (\<lambda>d info.
             if bitfield_flag d \<and> d_identifier d = [] then Inr info
             else rec_type (sd_type sd) (Some d) 0 (map_option (\<lambda>n. n @ ''.'' @ d_identifier d) n) info) ds i
       | None \<Rightarrow> and_then (FOLLOW_AND_CHECK_TSPTR k st (sd_type sd)) (\<lambda>m. rec_struct (Some m) n i))"
  proof (cases "sd_declarators sd")
    case None
    then show ?thesis using counts_bind [of _ "\<lambda>m. rec_struct (Some m)"] assms(2) by simp
  next
    case (Some ds)
    have "counts (\<lambda>n i. if bitfield_flag d \<and> d_identifier d = [] then Inr i
             else rec_type (sd_type sd) (Some d) 0 (map_option (\<lambda>n. n @ ''.'' @ d_identifier d) n) i)" for d
      by (rule counts_if [OF counts_return counts_name [OF assms(1)]])
    then show ?thesis unfolding Some option.case by (rule counts_fold)
  qed
qed

lemma counts_all:
  "counts (\<lambda>n i. get_ams_type k st ts decl dim n i)" "counts (\<lambda>n i. get_ams_struct k st p n i)"
proof (induction k arbitrary: ts decl dim p)
  case 0
  { case 1 then show ?case by (simp add: counts_fail) next case 2 then show ?case by (simp add: counts_fail) }
next
  case (Suc k)
  {
    case 1
    have td: "counts (\<lambda>n i. and_then (pTypedef st ts) (\<lambda>(t, d). get_ams_type k st t (Some d) 0 n i))"
      using counts_bind [of "pTypedef st ts" "\<lambda>x n i. get_ams_type k st (fst x) (Some (snd x)) 0 n i"] Suc.IH(1) by (simp add: case_prod_unfold)
    have el: "counts (\<lambda>n i. and_then (dimension_at d dim) (\<lambda>v. if has_flag (v_flags v) V_IS_UNDEF then Inr i
             else ams_elements (\<lambda>n i. get_ams_type k st ts decl (dim + 1) n i) n (iv v) i))" for d
      by (rule counts_bind [of "dimension_at d dim" "\<lambda>v n i. if has_flag (v_flags v) V_IS_UNDEF then Inr i
             else ams_elements (\<lambda>n i. get_ams_type k st ts decl (dim + 1) n i) n (iv v) i"])
        (rule counts_if [OF counts_return counts_elements [OF Suc.IH(1)]])
    note rest = counts_if [OF td counts_if [OF Suc.IH(2) counts_basic]]
    show ?case
    proof (cases decl)
      case None
      show ?thesis unfolding None get_ams_type.simps option.case by (rule rest)
    next
      case (Some d)
      show ?thesis unfolding Some get_ams_type.simps option.case
        by (rule counts_if [OF el [unfolded Some] counts_if [OF counts_basic rest]])
    qed
  next
    case 2
    show ?case using counts_struct [OF Suc.IH(1) Suc.IH(2)] by simp
  }
qed

text \<open>
  C39 In scalar context \<open>get_all_member_strings\<close> returns without building a name how many
  names the list context returns; a list that is passed in keeps what it holds.
\<close>

theorem members_counted:
  assumes "get_all_member_strings fuel st mi (Some l) = Inr (k, l')"
  shows "\<exists>names. l' = Some (l @ names) \<and> k = int (length (l @ names))
    \<and> get_all_member_strings fuel st mi None = Inr (int (length names), None)"
proof -
  obtain info where info: "get_ams_type fuel st (mi_type mi) (mi_decl mi) (mi_level mi) (Some []) (AMS_list l) = Inr info"
    using assms by (auto simp: get_all_member_strings_def and_then_Inr)
  obtain m where m: "info = AMS_list (l @ m)" "\<And>n. get_ams_type fuel st (mi_type mi) (mi_decl mi) (mi_level mi) None (AMS_count n)
      = Inr (AMS_count (n + int (length m)))"
    using counts_all(1) [of fuel st "mi_type mi" "mi_decl mi" "mi_level mi", unfolded counts_def] info by blast
  show ?thesis using assms info m by (auto simp: get_all_member_strings_def)
qed

theorem members_counted_witness:
  "get_all_member_strings 6 shape_state (whole T_STRUCT 0) None = Inr (12, None)"
proof -
  have "get_all_member_strings 6 shape_state (whole T_STRUCT 0) (Some []) = Inr (12, Some
     [''.tag'', ''.id'', ''.wh[0][0]'', ''.wh[0][1]'', ''.wh[1][0]'', ''.wh[1][1]'',
      ''.at[0].x'', ''.at[0].y'', ''.at[1].x'', ''.at[1].y'', ''.at[2].x'', ''.at[2].y''])" by code_simp
  from members_counted [OF this] show ?thesis by auto
qed

end
