(* ===== verification/Perl_Values.thy ===== *)
theory Perl_Values
  imports C_Library C_Types
begin

text \<open>
  The Perl values the conversions work on. What only the interpreter decides (numeric and
  string values of a scalar, calls of Perl code, host floating point, the memory there is) is
  a parameter of type \<open>perl\<close>; from \<^verbatim>\<open>cbc/util.c\<close> the model has the names of values and types.
\<close>

section \<open>Values\<close>

datatype HookArgType = HOOK_ARG_SELF | HOOK_ARG_TYPE | HOOK_ARG_DATA | HOOK_ARG_HOOK

type_synonym NV = u_64

text \<open>
  A defined scalar has an integer (negative, or up to the largest unsigned one), a floating
  point number or a string, or several of them; a slot of an array may not exist. A hash is the
  list of its entries in the order they were stored.
\<close>

datatype SV = Undef
  | Scalar "int option" "NV option" "string option"
  | AVref "SV option list"
  | HVref "(string \<times> SV) list"
  | CVref nat
  | ARGref HookArgType
  | Otherref

type_synonym HV = "(string \<times> SV) list"

definition SvOK :: "SV \<Rightarrow> bool" where
  "SvOK sv \<longleftrightarrow> sv \<noteq> Undef"

definition SvROK :: "SV \<Rightarrow> bool" where
  "SvROK sv = (case sv of Undef \<Rightarrow> False | Scalar _ _ _ \<Rightarrow> False | _ \<Rightarrow> True)"

definition SvIOK :: "SV \<Rightarrow> bool" where
  "SvIOK sv = (case sv of Scalar (Some _) _ _ \<Rightarrow> True | _ \<Rightarrow> False)"

definition SvNOK :: "SV \<Rightarrow> bool" where
  "SvNOK sv = (case sv of Scalar _ (Some _) _ \<Rightarrow> True | _ \<Rightarrow> False)"

definition SvPOK :: "SV \<Rightarrow> bool" where
  "SvPOK sv = (case sv of Scalar _ _ (Some _) \<Rightarrow> True | _ \<Rightarrow> False)"

definition newSViv :: "int \<Rightarrow> SV" where
  "newSViv i = Scalar (Some i) None None"

definition newSVnv :: "NV \<Rightarrow> SV" where
  "newSVnv n = Scalar None (Some n) None"

definition newSVpv :: "string \<Rightarrow> SV" where
  "newSVpv s = Scalar None None (Some s)"

section \<open>Arrays and hashes\<close>

definition av_len :: "SV option list \<Rightarrow> int" where
  "av_len av = int (length av) - 1"

text \<open>A negative index counts from the end.\<close>

definition av_fetch :: "SV option list \<Rightarrow> int \<Rightarrow> SV option" where
  "av_fetch av i = (let j = (if i < 0 then i + int (length av) else i) in
     if 0 \<le> j \<and> j < int (length av) then av ! nat j else None)"

definition hv_fetch :: "HV \<Rightarrow> string \<Rightarrow> SV option" where
  "hv_fetch hv key = map_of hv key"

fun hv_store :: "HV \<Rightarrow> string \<Rightarrow> SV \<Rightarrow> HV" where
  "hv_store [] key sv = [(key, sv)]"
| "hv_store ((k, v) # hv) key sv = (if k = key then (k, sv) # hv else (k, v) # hv_store hv key sv)"

lemma hv_fetch_store: "hv_fetch (hv_store hv key sv) = (hv_fetch hv)(key \<mapsto> sv)"
proof -
  have "map_of (hv_store hv key sv) k = ((map_of hv)(key \<mapsto> sv)) k" for k by (induction hv key sv rule: hv_store.induct) auto
  then show ?thesis by (auto simp: hv_fetch_def)
qed

lemma hv_store_new: "hv_fetch hv key = None \<Longrightarrow> hv_store hv key sv = hv @ [(key, sv)]"
  by (induction hv key sv rule: hv_store.induct) (auto simp: hv_fetch_def split: if_splits)

section \<open>The interpreter\<close>

text \<open>
  The integer conversions give the 64 bits of an \<open>IV\<close> or \<open>UV\<close>; \<open>nv_bytes\<close> are the bytes of a
  number as a host floating point type of some size, in host order, and \<open>bytes_nv\<close> reads them.
\<close>

record perl =
  SvIV :: "SV \<Rightarrow> u_64"
  SvUV :: "SV \<Rightarrow> u_64"
  SvNV :: "SV \<Rightarrow> NV"
  SvPV :: "SV \<Rightarrow> string"
  looks_like_number :: "SV \<Rightarrow> bool"
  call_sv :: "nat \<Rightarrow> SV list \<Rightarrow> SV run"
  nv_bytes :: "nat \<Rightarrow> NV \<Rightarrow> u_8 list"
  bytes_nv :: "nat \<Rightarrow> u_8 list \<Rightarrow> NV"
  largest_allocation :: int

section \<open>Warnings\<close>

text \<open>A run that may warn returns the warnings, in order, with its result.\<close>

type_synonym 'a logged = "('a \<times> string list) run"

definition quiet :: "'a \<Rightarrow> 'a logged" where
  "quiet x = Inr (x, [])"

definition warned :: "string \<Rightarrow> 'a \<Rightarrow> 'a logged" where
  "warned msg x = Inr (x, [msg])"

definition log_then :: "'a logged \<Rightarrow> ('a \<Rightarrow> 'b logged) \<Rightarrow> 'b logged" where
  "log_then r f = and_then r (\<lambda>(x, ws). and_then (f x) (\<lambda>(y, ws'). Inr (y, ws @ ws')))"

definition single_quoted :: "string \<Rightarrow> string" where
  "single_quoted s = CHR 0x27 # s @ [CHR 0x27]"

section \<open>Names of values and types\<close>

definition identify_sv :: "SV \<Rightarrow> string" where
  "identify_sv sv =
     (if \<not> SvOK sv then ''an undefined value''
      else if SvROK sv then (case sv of AVref _ \<Rightarrow> ''an array reference'' | HVref _ \<Rightarrow> ''a hash reference''
        | CVref _ \<Rightarrow> ''a code reference'' | _ \<Rightarrow> ''a reference'')
      else if SvIOK sv then ''an integer value''
      else if SvNOK sv then ''a numeric value''
      else if SvPOK sv then ''a string value''
      else ''an unknown value'')"

definition basic_type_words :: "(u_32 \<times> string) list" where
  "basic_type_words = [(T_SIGNED, ''signed''), (T_UNSIGNED, ''unsigned''), (T_SHORT, ''short''), (T_LONGLONG, ''long''),
     (T_LONG, ''long''), (T_VOID, ''void''), (T_CHAR, ''char''), (T_INT, ''int''), (T_FLOAT, ''float''), (T_DOUBLE, ''double'')]"

text \<open>The words are joined by blanks; an existing string is continued without one.\<close>

fun spec_words :: "(u_32 \<times> string) list \<Rightarrow> u_32 \<Rightarrow> bool \<Rightarrow> string option \<Rightarrow> string option" where
  "spec_words [] flags first sv = sv"
| "spec_words ((flag, word) # spec) flags first sv =
     (if has_flag flag flags then
        spec_words spec flags False (case sv of Some s \<Rightarrow> Some (s @ (if first then word else CHR '' '' # word)) | None \<Rightarrow> Some word)
      else spec_words spec flags first sv)"

definition get_basic_type_spec_string :: "string option \<Rightarrow> u_32 \<Rightarrow> string option" where
  "get_basic_type_spec_string sv flags = spec_words basic_type_words flags True sv"

end
