(* ===== verification/Hooks.thy ===== *)
theory Hooks
  imports Perl_Values
begin

text \<open>
  \<^verbatim>\<open>cbc/hook.c\<close> and \<^verbatim>\<open>token/hook.pl\<close>: the Perl subs hung on a type, with their arguments. Hooks
  are values here, so taking and dropping references has no counterpart.
\<close>

section \<open>Hooks of a type\<close>

datatype HookId = HOOKID_pack | HOOKID_unpack | HOOKID_pack_ptr | HOOKID_unpack_ptr

definition gs_HookIdStr :: "(HookId \<times> string) list" where
  "gs_HookIdStr = [(HOOKID_pack, ''pack''), (HOOKID_unpack, ''unpack''), (HOOKID_pack_ptr, ''pack_ptr''),
     (HOOKID_unpack_ptr, ''unpack_ptr'')]"

definition hook_id_str :: "HookId \<Rightarrow> string" where
  "hook_id_str i = (case i of HOOKID_pack \<Rightarrow> ''pack'' | HOOKID_unpack \<Rightarrow> ''unpack'' | HOOKID_pack_ptr \<Rightarrow> ''pack_ptr''
     | HOOKID_unpack_ptr \<Rightarrow> ''unpack_ptr'')"

definition get_hook_id :: "string \<Rightarrow> HookId option" where
  "get_hook_id hook = map_option fst (find (\<lambda>(i, s). s = hook) gs_HookIdStr)"

record SingleHook =
  hk_sub :: "nat option"
  hk_arg :: "SV list option"

definition no_hook :: SingleHook where
  "no_hook = \<lparr>hk_sub = None, hk_arg = None\<rparr>"

record TypeHooks =
  th_pack :: SingleHook
  th_unpack :: SingleHook
  th_pack_ptr :: SingleHook
  th_unpack_ptr :: SingleHook

definition get_hook :: "TypeHooks \<Rightarrow> HookId \<Rightarrow> SingleHook" where
  "get_hook th i = (case i of HOOKID_pack \<Rightarrow> th_pack th | HOOKID_unpack \<Rightarrow> th_unpack th | HOOKID_pack_ptr \<Rightarrow> th_pack_ptr th
     | HOOKID_unpack_ptr \<Rightarrow> th_unpack_ptr th)"

definition set_hook :: "HookId \<Rightarrow> SingleHook \<Rightarrow> TypeHooks \<Rightarrow> TypeHooks" where
  "set_hook i h th = (case i of HOOKID_pack \<Rightarrow> th\<lparr>th_pack := h\<rparr> | HOOKID_unpack \<Rightarrow> th\<lparr>th_unpack := h\<rparr>
     | HOOKID_pack_ptr \<Rightarrow> th\<lparr>th_pack_ptr := h\<rparr> | HOOKID_unpack_ptr \<Rightarrow> th\<lparr>th_unpack_ptr := h\<rparr>)"

definition hook_new :: "TypeHooks option \<Rightarrow> TypeHooks" where
  "hook_new h = (case h of Some h \<Rightarrow> h
     | None \<Rightarrow> \<lparr>th_pack = no_hook, th_unpack = no_hook, th_pack_ptr = no_hook, th_unpack_ptr = no_hook\<rparr>)"

definition single_hook_new :: "SingleHook \<Rightarrow> SingleHook" where
  "single_hook_new src = src"

definition hook_update :: "TypeHooks \<Rightarrow> TypeHooks \<Rightarrow> TypeHooks" where
  "hook_update dst src = src"

section \<open>Reading a hook from a Perl value\<close>

abbreviation SHF_ALLOW_ARG_SELF :: u_32 where "SHF_ALLOW_ARG_SELF \<equiv> 0x00000001"
abbreviation SHF_ALLOW_ARG_TYPE :: u_32 where "SHF_ALLOW_ARG_TYPE \<equiv> 0x00000002"
abbreviation SHF_ALLOW_ARG_DATA :: u_32 where "SHF_ALLOW_ARG_DATA \<equiv> 0x00000004"
abbreviation SHF_ALLOW_ARG_HOOK :: u_32 where "SHF_ALLOW_ARG_HOOK \<equiv> 0x00000008"

definition arg_flag :: "HookArgType \<Rightarrow> u_32" where
  "arg_flag t = (case t of HOOK_ARG_SELF \<Rightarrow> SHF_ALLOW_ARG_SELF | HOOK_ARG_TYPE \<Rightarrow> SHF_ALLOW_ARG_TYPE
     | HOOK_ARG_DATA \<Rightarrow> SHF_ALLOW_ARG_DATA | HOOK_ARG_HOOK \<Rightarrow> SHF_ALLOW_ARG_HOOK)"

definition arg_name :: "HookArgType \<Rightarrow> string" where
  "arg_name t = (case t of HOOK_ARG_SELF \<Rightarrow> ''SELF'' | HOOK_ARG_TYPE \<Rightarrow> ''TYPE'' | HOOK_ARG_DATA \<Rightarrow> ''DATA''
     | HOOK_ARG_HOOK \<Rightarrow> ''HOOK'')"

text \<open>The arguments are checked, then copied; a missing slot is fatal.\<close>

fun fill_args :: "u_32 \<Rightarrow> SV option list \<Rightarrow> SV list run" where
  "fill_args allowed [] = Inr []"
| "fill_args allowed (None # svs) = Inl Fatal_error"
| "fill_args allowed (Some sv # svs) =
     (case sv of ARGref t \<Rightarrow>
        if has_flag allowed (arg_flag t) then and_then (fill_args allowed svs) (\<lambda>args. Inr (sv # args))
        else Inl (Croaked (arg_name t @ '' argument not allowed''))
      | _ \<Rightarrow> and_then (fill_args allowed svs) (\<lambda>args. Inr (sv # args)))"

definition not_code_or_array_ref :: "string \<Rightarrow> string \<Rightarrow> SingleHook run" where
  "not_code_or_array_ref hook type = Inl (Croaked (hook @ '' hook defined for '' @ single_quoted type @ '' is not a code or array reference''))"

definition single_hook_fill :: "string \<Rightarrow> string \<Rightarrow> SV \<Rightarrow> u_32 \<Rightarrow> SingleHook run" where
  "single_hook_fill hook type sub allowed =
     (if \<not> SvOK sub then Inr no_hook
      else case sub of
        CVref cv \<Rightarrow> Inr \<lparr>hk_sub = Some cv, hk_arg = None\<rparr>
      | AVref av \<Rightarrow>
          if av_len av < 0 then
            Inl (Croaked (''Need at least a code reference in '' @ hook @ '' hook for type '' @ single_quoted type))
          else (case av_fetch av 0 of
              Some (CVref cv) \<Rightarrow> and_then (fill_args allowed (tl av)) (\<lambda>args.
                Inr \<lparr>hk_sub = Some cv, hk_arg = Some args\<rparr>)
            | _ \<Rightarrow> Inl (Croaked (hook @ '' hook defined for '' @ single_quoted type @ '' is not a code reference'')))
      | _ \<Rightarrow> not_code_or_array_ref hook type)"

fun find_hooks_in :: "string \<Rightarrow> HV \<Rightarrow> TypeHooks \<Rightarrow> TypeHooks run" where
  "find_hooks_in type [] th = Inr th"
| "find_hooks_in type ((key, sub) # hv) th = (case get_hook_id key of
     None \<Rightarrow> Inl (Croaked (''Invalid hook type '' @ single_quoted key))
   | Some i \<Rightarrow> and_then (single_hook_fill key type sub
         (SHF_ALLOW_ARG_SELF OR SHF_ALLOW_ARG_TYPE OR SHF_ALLOW_ARG_DATA OR SHF_ALLOW_ARG_HOOK)) (\<lambda>h.
       find_hooks_in type hv (set_hook i h th)))"

definition all_hooks :: "TypeHooks \<Rightarrow> SingleHook list" where
  "all_hooks th = map (\<lambda>(i, _). get_hook th i) gs_HookIdStr"

definition find_hooks :: "string \<Rightarrow> HV \<Rightarrow> TypeHooks \<Rightarrow> (nat \<times> TypeHooks) run" where
  "find_hooks type hv th = and_then (find_hooks_in type hv th) (\<lambda>th.
     Inr (length (filter (\<lambda>h. hk_sub h \<noteq> None) (all_hooks th)), th))"

section \<open>Giving hooks back\<close>

definition get_single_hook :: "SingleHook \<Rightarrow> SV option" where
  "get_single_hook hook = (case hk_sub hook of None \<Rightarrow> None
     | Some cv \<Rightarrow> (case hk_arg hook of None \<Rightarrow> Some (CVref cv)
         | Some args \<Rightarrow> Some (AVref (Some (CVref cv) # map Some args))))"

fun get_hooks_in :: "TypeHooks \<Rightarrow> (HookId \<times> string) list \<Rightarrow> HV" where
  "get_hooks_in th [] = []"
| "get_hooks_in th ((i, s) # ids) = (case get_single_hook (get_hook th i) of
     None \<Rightarrow> get_hooks_in th ids | Some sv \<Rightarrow> (s, sv) # get_hooks_in th ids)"

definition get_hooks :: "TypeHooks \<Rightarrow> HV" where
  "get_hooks th = get_hooks_in th gs_HookIdStr"

section \<open>Calling a hook\<close>

definition hook_arg :: "SV \<Rightarrow> string option \<Rightarrow> string option \<Rightarrow> string option \<Rightarrow> SV option \<Rightarrow> SV \<Rightarrow> SV run" where
  "hook_arg self hid pre ident in_sv arg = (case arg of
     ARGref HOOK_ARG_SELF \<Rightarrow> Inr self
   | ARGref HOOK_ARG_DATA \<Rightarrow> (case in_sv of None \<Rightarrow> Inl Assertion_failed | Some sv \<Rightarrow> Inr sv)
   | ARGref HOOK_ARG_TYPE \<Rightarrow> (case ident of None \<Rightarrow> Inl Assertion_failed
       | Some s \<Rightarrow> Inr (newSVpv ((case pre of None \<Rightarrow> [] | Some p \<Rightarrow> p) @ s)))
   | ARGref HOOK_ARG_HOOK \<Rightarrow> Inr (case hid of None \<Rightarrow> Undef | Some s \<Rightarrow> newSVpv s)
   | _ \<Rightarrow> Inr arg)"

fun run_map :: "('x \<Rightarrow> 'y run) \<Rightarrow> 'x list \<Rightarrow> 'y list run" where
  "run_map f [] = Inr []"
| "run_map f (x # xs) = and_then (f x) (\<lambda>y. and_then (run_map f xs) (\<lambda>ys. Inr (y # ys)))"

definition single_hook_call ::
  "perl \<Rightarrow> SV \<Rightarrow> string option \<Rightarrow> string option \<Rightarrow> string option \<Rightarrow> SingleHook \<Rightarrow> SV option \<Rightarrow> SV option run" where
  "single_hook_call pl self hid pre ident hook in_sv = (case hk_sub hook of None \<Rightarrow> Inr in_sv
     | Some cv \<Rightarrow> and_then (case hk_arg hook of
           Some args \<Rightarrow> run_map (hook_arg self hid pre ident in_sv) args
         | None \<Rightarrow> Inr (case in_sv of None \<Rightarrow> [] | Some sv \<Rightarrow> [sv])) (\<lambda>args.
         and_then (call_sv pl cv args) (\<lambda>out. Inr (Some out))))"

definition hook_call :: "perl \<Rightarrow> SV \<Rightarrow> string option \<Rightarrow> string \<Rightarrow> TypeHooks \<Rightarrow> HookId \<Rightarrow> SV \<Rightarrow> SV run" where
  "hook_call pl self pre ident th i in_sv =
     and_then (single_hook_call pl self (Some (hook_id_str i)) pre (Some ident) (get_hook th i) (Some in_sv)) (\<lambda>out.
     case out of None \<Rightarrow> Inl Undefined_behaviour | Some sv \<Rightarrow> Inr sv)"

section \<open>Setting what was given back\<close>

lemma fill_args_all: "\<forall>t. ARGref t \<in> set args \<longrightarrow> has_flag allowed (arg_flag t) \<Longrightarrow> fill_args allowed (map Some args) = Inr args"
  by (induction args) (auto split: SV.split)

lemma all_args_allowed: "has_flag (SHF_ALLOW_ARG_SELF OR SHF_ALLOW_ARG_TYPE OR SHF_ALLOW_ARG_DATA OR SHF_ALLOW_ARG_HOOK) (arg_flag t)"
  by (cases t) (simp_all add: arg_flag_def has_flag_def)

text \<open>A hook without a sub has no arguments.\<close>

definition hook_ok :: "SingleHook \<Rightarrow> bool" where
  "hook_ok h \<longleftrightarrow> (hk_sub h = None \<longrightarrow> hk_arg h = None)"

lemma fill_get_hook:
  assumes "hook_ok h" "get_single_hook h = Some sv"
  shows "single_hook_fill key type sv (SHF_ALLOW_ARG_SELF OR SHF_ALLOW_ARG_TYPE OR SHF_ALLOW_ARG_DATA OR SHF_ALLOW_ARG_HOOK) = Inr h"
  using assms fill_args_all [OF allI [OF impI [OF all_args_allowed]]]
  by (auto simp: get_single_hook_def single_hook_fill_def SvOK_def av_len_def av_fetch_def split: option.splits)

lemma fill_hook_ok: "single_hook_fill key type sub allowed = Inr h \<Longrightarrow> hook_ok h"
  by (auto simp: single_hook_fill_def hook_ok_def no_hook_def not_code_or_array_ref_def and_then_Inr
      split: if_splits SV.splits option.splits)

end
