(* ===== verification/Dimension.thy ===== *)
theory Dimension
  imports Hooks Get_Member
begin

text \<open>
  \<^verbatim>\<open>cbc/dimension.c\<close>: dimension tags, which give the number of elements of an array when it is
  packed or unpacked: a fixed number, all the data there is, a member of the compound the array
  is in, or a Perl sub. From \<^verbatim>\<open>cbc/type.c\<close> the check of what a method accepts.
\<close>

section \<open>Accepted types\<close>

abbreviation ALLOW_UNIONS :: u_32 where "ALLOW_UNIONS \<equiv> 0x00000001"
abbreviation ALLOW_STRUCTS :: u_32 where "ALLOW_STRUCTS \<equiv> 0x00000002"
abbreviation ALLOW_ENUMS :: u_32 where "ALLOW_ENUMS \<equiv> 0x00000004"
abbreviation ALLOW_POINTERS :: u_32 where "ALLOW_POINTERS \<equiv> 0x00000008"
abbreviation ALLOW_ARRAYS :: u_32 where "ALLOW_ARRAYS \<equiv> 0x00000010"
abbreviation ALLOW_BASIC_TYPES :: u_32 where "ALLOW_BASIC_TYPES \<equiv> 0x00000020"

definition CHECK_ALLOWED :: "u_32 \<Rightarrow> u_32 \<Rightarrow> string \<Rightarrow> string option" where
  "CHECK_ALLOWED allowed flag s = (if \<not> has_flag allowed flag then Some s else None)"

text \<open>The result is the name of what is not allowed.\<close>

definition check_allowed_types_string :: "nat \<Rightarrow> CState \<Rightarrow> MemberInfo \<Rightarrow> u_32 \<Rightarrow> string option run" where
  "check_allowed_types_string fuel st mi allowed =
     and_then (if has_flag (ts_tflags (mi_type mi)) T_TYPE
                  \<and> (case mi_decl mi of None \<Rightarrow> True | Some d \<Rightarrow> \<not> pointer_flag d \<and> \<not> array_flag d)
               then and_then (follow_typedefs fuel st (mi_type mi)) (\<lambda>(t, d). Inr (t, Some d, 0))
               else Inr (mi_type mi, mi_decl mi, mi_level mi)) (\<lambda>(t, decl, level).
     Inr (if (case decl of None \<Rightarrow> False | Some d \<Rightarrow> array_flag d \<and> level < dimension_count d)
            then CHECK_ALLOWED allowed ALLOW_ARRAYS ''an array type''
          else if (case decl of None \<Rightarrow> False | Some d \<Rightarrow> pointer_flag d)
            then CHECK_ALLOWED allowed ALLOW_POINTERS ''a pointer type''
          else if ts_ptr t = None then CHECK_ALLOWED allowed ALLOW_BASIC_TYPES ''a basic type''
          else if has_flag (ts_tflags t) T_UNION then CHECK_ALLOWED allowed ALLOW_UNIONS ''a union''
          else if has_flag (ts_tflags t) T_STRUCT then CHECK_ALLOWED allowed ALLOW_STRUCTS ''a struct''
          else if has_flag (ts_tflags t) T_ENUM then CHECK_ALLOWED allowed ALLOW_ENUMS ''an enum''
          else None))"

definition check_allowed_types :: "nat \<Rightarrow> CState \<Rightarrow> MemberInfo \<Rightarrow> string \<Rightarrow> u_32 \<Rightarrow> unit run" where
  "check_allowed_types fuel st mi method allowed =
     and_then (check_allowed_types_string fuel st mi allowed) (\<lambda>failed. case failed of None \<Rightarrow> Inr ()
     | Some s \<Rightarrow> Inl (Croaked (''Cannot use '' @ method @ '' on '' @ s)))"

section \<open>Tags\<close>

datatype DimensionTag = DTT_NONE | DTT_FLEXIBLE | DTT_FIXED int | DTT_MEMBER string | DTT_HOOK SingleHook

definition dimtag_init :: "DimensionTag \<Rightarrow> DimensionTag" where
  "dimtag_init dim = (case dim of DTT_HOOK h \<Rightarrow> DTT_HOOK (single_hook_new h) | _ \<Rightarrow> dim)"

definition dimtag_new :: "DimensionTag option \<Rightarrow> DimensionTag" where
  "dimtag_new src = (case src of Some dim \<Rightarrow> dimtag_init dim | None \<Rightarrow> DTT_NONE)"

definition dimtag_update :: "DimensionTag \<Rightarrow> DimensionTag \<Rightarrow> DimensionTag" where
  "dimtag_update dst src = src"

definition dimtag_is_flexible :: "DimensionTag \<Rightarrow> bool" where
  "dimtag_is_flexible dim \<longleftrightarrow> dim = DTT_FLEXIBLE"

definition dimtag_get :: "DimensionTag \<Rightarrow> SV option run" where
  "dimtag_get dim = (case dim of
     DTT_FLEXIBLE \<Rightarrow> Inr (Some (newSVpv ''*''))
   | DTT_FIXED n \<Rightarrow> Inr (Some (newSViv n))
   | DTT_MEMBER s \<Rightarrow> Inr (Some (newSVpv s))
   | DTT_HOOK h \<Rightarrow> Inr (get_single_hook h)
   | DTT_NONE \<Rightarrow> Inl Fatal_error)"

section \<open>Reading a tag\<close>

definition unless_croaked :: "(string + MemberInfo option) run \<Rightarrow> MemberInfo run" where
  "unless_croaked r = and_then r (\<lambda>x. case x of Inl msg \<Rightarrow> Inl (Croaked msg) | Inr (Some m) \<Rightarrow> Inr m
     | Inr None \<Rightarrow> Inl Undefined_behaviour)"

definition validate_member_expression :: "nat \<Rightarrow> CState \<Rightarrow> MemberInfo \<Rightarrow> string \<Rightarrow> string \<Rightarrow> unit run" where
  "validate_member_expression fuel st pmi member type =
     (case mi_parent pmi of
        None \<Rightarrow> Inl (Croaked (''Cannot use member expression '' @ single_quoted member @ '' as Dimension tag for ''
                  @ single_quoted type @ '' when not within a compound type''))
      | Some p \<Rightarrow> and_then (struct_at st (Some p)) (\<lambda>s.
          and_then (unless_croaked (get_member fuel st
              \<lparr>mi_type = \<lparr>ts_ptr = Some p, ts_tflags = s_tflags s\<rparr>, mi_parent = None, mi_decl = None, mi_level = 0,
               mi_offset = 0, mi_size = 0, mi_flags = 0\<rparr> member
              (CBC_GM_ACCEPT_DOTLESS_MEMBER OR CBC_GM_REJECT_OUT_OF_BOUNDS_INDEX OR CBC_GM_REJECT_OFFSET))) (\<lambda>mi2.
          and_then (check_allowed_types_string fuel st mi2 ALLOW_BASIC_TYPES) (\<lambda>failed. case failed of
            Some t \<Rightarrow> Inl (Croaked (''Cannot use '' @ t @ '' in member '' @ single_quoted member
                @ '' to determine a dimension for '' @ single_quoted type))
          | None \<Rightarrow>
              if mi_offset mi2 + sint (mi_size mi2) > mi_offset pmi then
                (let place = (if mi_offset mi2 = mi_offset pmi then ''located at same offset as''
                    else if mi_offset mi2 < mi_offset pmi then ''overlapping with'' else ''located behind'') in
                 Inl (Croaked (''Cannot use member '' @ single_quoted member @ '' '' @ place @ '' '' @ single_quoted type
                   @ '' in layout to determine a dimension'')))
              else Inr ()))))"

definition dimtag_verify :: "nat \<Rightarrow> CState \<Rightarrow> MemberInfo \<Rightarrow> string \<Rightarrow> unit run" where
  "dimtag_verify fuel st pmi type =
     and_then (check Assertion_failed (mi_level pmi = 0)) (\<lambda>_.
     and_then (check_allowed_types_string fuel st pmi ALLOW_ARRAYS) (\<lambda>failed. case failed of None \<Rightarrow> Inr ()
     | Some t \<Rightarrow> Inl (Croaked (''Cannot use Dimension tag on '' @ t @ '' '' @ single_quoted type))))"

datatype dimension_tag_type = TT_NONE | TT_FLEXIBLE | TT_FIXED | TT_MEMBER | TT_HOOK

definition dimension_kind :: "perl \<Rightarrow> SV \<Rightarrow> dimension_tag_type" where
  "dimension_kind pl tag =
     (if SvROK tag then (case tag of CVref _ \<Rightarrow> TT_HOOK | AVref _ \<Rightarrow> TT_HOOK | _ \<Rightarrow> TT_NONE)
      else if SvPOK tag then
        (let s = SvPV pl tag in
         if length s > 0 then
           (if s = ''*'' then TT_FLEXIBLE else if looks_like_number pl tag then TT_FIXED else TT_MEMBER)
         else TT_NONE)
      else if SvIOK tag then TT_FIXED else TT_NONE)"

definition dimtag_parse :: "perl \<Rightarrow> nat \<Rightarrow> CState \<Rightarrow> MemberInfo \<Rightarrow> string \<Rightarrow> SV \<Rightarrow> DimensionTag run" where
  "dimtag_parse pl fuel st pmi type tag =
     and_then (check Assertion_failed (SvOK tag)) (\<lambda>_. case dimension_kind pl tag of
       TT_NONE \<Rightarrow> Inl (Croaked (''Invalid Dimension tag for '' @ single_quoted type))
     | TT_FLEXIBLE \<Rightarrow> Inr DTT_FLEXIBLE
     | TT_FIXED \<Rightarrow>
         (let n = sint (SvIV pl tag) in
          if n < 0 then Inl (Croaked (''Cannot use negative value '' @ decimal n @ '' in Dimension tag for '' @ single_quoted type))
          else Inr (DTT_FIXED n))
     | TT_MEMBER \<Rightarrow> and_then (validate_member_expression fuel st pmi (SvPV pl tag) type) (\<lambda>_.
         Inr (DTT_MEMBER (SvPV pl tag)))
     | TT_HOOK \<Rightarrow> and_then (single_hook_fill ''Dimension'' type tag
           (if mi_parent pmi = None then SHF_ALLOW_ARG_SELF OR SHF_ALLOW_ARG_HOOK
            else SHF_ALLOW_ARG_SELF OR SHF_ALLOW_ARG_HOOK OR SHF_ALLOW_ARG_DATA)) (\<lambda>h.
         Inr (DTT_HOOK (single_hook_new h))))"

section \<open>Evaluating a tag\<close>

definition sv_to_dimension :: "perl \<Rightarrow> SV \<Rightarrow> string option \<Rightarrow> int logged" where
  "sv_to_dimension pl sv member =
     (if SvOK sv \<and> \<not> SvROK sv \<and> looks_like_number pl sv then quiet (sint (SvIV pl sv))
      else warned (''Cannot use '' @ identify_sv sv
          @ (if SvOK sv \<and> \<not> SvROK sv then '' ('' @ single_quoted (SvPV pl sv) @ '')'' else [])
          @ (case member of None \<Rightarrow> [] | Some m \<Rightarrow> '' in '' @ single_quoted m) @ '' as dimension'') 0)"

text \<open>One part of the expression: the value it leads to, or a failed lookup.\<close>

definition dimension_step :: "string \<Rightarrow> HV \<Rightarrow> me_walk_info \<Rightarrow> SV option \<Rightarrow> SV option logged" where
  "dimension_step member parent info sv = (case info of
     MERV_COMPOUND_MEMBER name _ \<Rightarrow>
       (case (case sv of None \<Rightarrow> Inr parent | Some (HVref hv) \<Rightarrow> Inr hv | Some s \<Rightarrow> Inl s) of
          Inl s \<Rightarrow> warned (''Expected a hash reference to look up member '' @ single_quoted name @ '' in ''
              @ single_quoted member @ '', not '' @ identify_sv s) None
        | Inr hv \<Rightarrow> (case hv_fetch hv name of Some v \<Rightarrow> quiet (Some v)
            | None \<Rightarrow> warned (''Cannot find member '' @ single_quoted name @ '' in hash (in '' @ single_quoted member @ '')'') None))
   | MERV_ARRAY_INDEX index \<Rightarrow>
       (case sv of None \<Rightarrow> Inl Assertion_failed
        | Some (AVref av) \<Rightarrow>
            if index > av_len av then
              warned (''Cannot lookup index '' @ single_quoted (decimal index) @ '' in array of size ''
                @ single_quoted (decimal (av_len av + 1)) @ '' (in '' @ single_quoted member @ '')'') None
            else (case av_fetch av index of None \<Rightarrow> Inl Fatal_error | Some v \<Rightarrow> quiet (Some v))
        | Some s \<Rightarrow> warned (''Expected an array reference to look up index '' @ single_quoted (decimal index) @ '' in ''
              @ single_quoted member @ '', not '' @ identify_sv s) None)
   | _ \<Rightarrow> Inl Fatal_error)"

function dimension_loop :: "string \<Rightarrow> HV \<Rightarrow> member_expr \<Rightarrow> SV option \<Rightarrow> SV option option logged" where
  "dimension_loop member parent walker sv = (case member_expr_walker_walk walker of (info, walker) \<Rightarrow>
     if info = MERV_END then quiet (Some sv)
     else if terminal info then Inl Fatal_error
     else log_then (dimension_step member parent info sv) (\<lambda>r. case r of
       None \<Rightarrow> quiet None | Some v \<Rightarrow> dimension_loop member parent walker (Some v)))"
  by pat_completeness auto
termination by (relation "measure (\<lambda>(_, _, w, _). length (me_p w))") (auto dest: walk_shorter [OF sym])

declare dimension_loop.simps [simp del]

definition dimension_from_member :: "perl \<Rightarrow> string \<Rightarrow> HV option \<Rightarrow> int logged" where
  "dimension_from_member pl member parent = (case parent of
     None \<Rightarrow> warned (''Missing parent to look up '' @ single_quoted member) 0
   | Some hv \<Rightarrow> log_then (dimension_loop member hv (member_expr_walker_new member) None) (\<lambda>r. case r of
       None \<Rightarrow> quiet 0
     | Some None \<Rightarrow> Inl Assertion_failed
     | Some (Some sv) \<Rightarrow> sv_to_dimension pl sv (Some member)))"

definition dimension_from_hook :: "perl \<Rightarrow> SingleHook \<Rightarrow> SV \<Rightarrow> HV option \<Rightarrow> int logged" where
  "dimension_from_hook pl hook self parent =
     and_then (single_hook_call pl self (Some ''dimension'') None None hook (map_option HVref parent)) (\<lambda>sv.
     case sv of None \<Rightarrow> Inl Assertion_failed | Some sv \<Rightarrow> sv_to_dimension pl sv None)"

definition dimtag_eval :: "perl \<Rightarrow> DimensionTag \<Rightarrow> int \<Rightarrow> SV \<Rightarrow> HV option \<Rightarrow> int logged" where
  "dimtag_eval pl dim avail self parent = (case dim of
     DTT_FLEXIBLE \<Rightarrow> quiet avail
   | DTT_FIXED n \<Rightarrow> quiet n
   | DTT_MEMBER s \<Rightarrow> dimension_from_member pl s parent
   | DTT_HOOK h \<Rightarrow> dimension_from_hook pl h self parent
   | DTT_NONE \<Rightarrow> Inl Fatal_error)"

end
