(* ===== verification/Id_List.thy ===== *)
theory Id_List
  imports C_Library
begin

text \<open>
  \<^verbatim>\<open>cbc/idl.h\<close> and \<^verbatim>\<open>cbc/idl.c\<close>: the path to the member being converted, for messages. The
  current entry is the last one; an entry has no value before it is set.
\<close>

datatype IDList_list = IDL_ID "string option" | IDL_IX "int option"

type_synonym IDList = "IDList_list list"

definition IDLIST_INIT :: IDList where
  "IDLIST_INIT = []"

definition IDLIST_PUSH :: "IDList_list \<Rightarrow> IDList \<Rightarrow> IDList" where
  "IDLIST_PUSH what idl = idl @ [what]"

definition IDLIST_SET_ID :: "string \<Rightarrow> IDList \<Rightarrow> IDList run" where
  "IDLIST_SET_ID s idl = (if idl = [] then Inl Undefined_behaviour else Inr (butlast idl @ [IDL_ID (Some s)]))"

definition IDLIST_SET_IX :: "int \<Rightarrow> IDList \<Rightarrow> IDList run" where
  "IDLIST_SET_IX i idl = (if idl = [] then Inl Undefined_behaviour else Inr (butlast idl @ [IDL_IX (Some i)]))"

definition IDLIST_POP :: "IDList \<Rightarrow> IDList run" where
  "IDLIST_POP idl = (if idl = [] then Inl Assertion_failed else Inr (butlast idl))"

fun idl_append :: "bool \<Rightarrow> IDList \<Rightarrow> string run" where
  "idl_append first [] = Inr []"
| "idl_append first (IDL_ID (Some s) # idl) = and_then (idl_append False idl) (\<lambda>t. Inr ((if first then s else CHR ''.'' # s) @ t))"
| "idl_append first (IDL_IX (Some i) # idl) = and_then (idl_append False idl) (\<lambda>t. Inr (''['' @ decimal i @ '']'' @ t))"
| "idl_append first (_ # idl) = Inl Undefined_behaviour"

definition idl_to_str :: "IDList \<Rightarrow> string run" where
  "idl_to_str idl = idl_append True idl"

end
