(* ===== verification/Pack_State.thy ===== *)
theory Pack_State
  imports Byte_Order_32 Dimension Id_List Hash_Table Layout
begin

text \<open>
  The state of a conversion in \<^verbatim>\<open>cbc/pack.c\<close>, its buffer and what reads and writes the buffer:
  integers, floating point numbers, pointers and formatted strings.
\<close>

section \<open>The state\<close>

datatype EnumType = ET_INTEGER | ET_STRING | ET_BOTH

text \<open>
  What a conversion is given: the object with its types and options, the build, and the
  interpreter. A tag's \<open>any\<close> is the number of its hooks or its dimension.
\<close>

record CBC =
  cbc_types :: CState
  cbc_layout :: LayoutParam
  cbc_host :: Host
  unsigned_chars :: bool
  unsigned_bitfields :: bool
  enumType :: EnumType
  htEnumerators :: "Enumerator HashTable"
  tag_hooks :: "nat \<Rightarrow> TypeHooks"
  tag_dimension :: "nat \<Rightarrow> DimensionTag"
  defined_in :: "nat \<Rightarrow> string \<times> int"
  cbc_self :: SV
  cbc_arch :: arch
  ieee_fp :: bool
  have_long_double :: bool
  char_is_unsigned :: bool
  uninitialised :: u_64
  cbc_perl :: perl

text \<open>The buffer has \<open>pk_length\<close> bytes in use; \<open>pk_allocated\<close> is what the string behind it has.\<close>

record PackInfo =
  pk_buffer :: mem
  pk_pos :: int
  pk_length :: int
  pk_allocated :: int
  pk_idl :: IDList
  pk_order :: CByteOrder
  pk_parent :: "HV option"
  pk_warnings :: "string list"

type_synonym 'a pk = "PackInfo \<Rightarrow> ('a \<times> PackInfo) run"

definition pk_return :: "'a \<Rightarrow> 'a pk" where
  "pk_return x = (\<lambda>s. Inr (x, s))"

definition pk_then :: "'a pk \<Rightarrow> ('a \<Rightarrow> 'b pk) \<Rightarrow> 'b pk" where
  "pk_then m f = (\<lambda>s. and_then (m s) (\<lambda>(x, s). f x s))"

definition pk_fail :: "fault \<Rightarrow> 'a pk" where
  "pk_fail e = (\<lambda>s. Inl e)"

definition pk_run :: "'a run \<Rightarrow> 'a pk" where
  "pk_run r = (\<lambda>s. and_then r (\<lambda>x. Inr (x, s)))"

definition pk_get :: "(PackInfo \<Rightarrow> 'a) \<Rightarrow> 'a pk" where
  "pk_get f = (\<lambda>s. Inr (f s, s))"

definition pk_update :: "(PackInfo \<Rightarrow> PackInfo) \<Rightarrow> unit pk" where
  "pk_update f = (\<lambda>s. Inr ((), f s))"

definition pk_check :: "bool \<Rightarrow> unit pk" where
  "pk_check b = pk_run (check Assertion_failed b)"

definition pk_when :: "bool \<Rightarrow> unit pk \<Rightarrow> unit pk" where
  "pk_when b m = (if b then m else pk_return ())"

definition WARN :: "string \<Rightarrow> unit pk" where
  "WARN msg = pk_update (\<lambda>s. s\<lparr>pk_warnings := pk_warnings s @ [msg]\<rparr>)"

definition pk_log :: "'a logged \<Rightarrow> 'a pk" where
  "pk_log r = pk_then (pk_run r) (\<lambda>(x, ws). pk_then (pk_update (\<lambda>s. s\<lparr>pk_warnings := pk_warnings s @ ws\<rparr>)) (\<lambda>_. pk_return x))"

text \<open>A warning that names the member being converted.\<close>

definition WARN_idl :: "(string \<Rightarrow> string) \<Rightarrow> unit pk" where
  "WARN_idl msg = pk_then (pk_get pk_idl) (\<lambda>idl. pk_then (pk_run (idl_to_str idl)) (\<lambda>name. WARN (msg name)))"

definition idl_do :: "(IDList \<Rightarrow> IDList run) \<Rightarrow> unit pk" where
  "idl_do f = pk_then (pk_get pk_idl) (\<lambda>idl. pk_then (pk_run (f idl)) (\<lambda>idl. pk_update (\<lambda>s. s\<lparr>pk_idl := idl\<rparr>)))"

definition set_pos :: "int \<Rightarrow> unit pk" where
  "set_pos p = pk_update (\<lambda>s. s\<lparr>pk_pos := p\<rparr>)"

definition set_order :: "CByteOrder \<Rightarrow> unit pk" where
  "set_order bo = pk_update (\<lambda>s. s\<lparr>pk_order := bo\<rparr>)"

definition set_parent :: "HV option \<Rightarrow> unit pk" where
  "set_parent hv = pk_update (\<lambda>s. s\<lparr>pk_parent := hv\<rparr>)"

section \<open>The buffer\<close>

text \<open>Positions and lengths are \<open>unsigned long\<close>.\<close>

definition to_ulong :: "int \<Rightarrow> int" where
  "to_ulong i = i mod 2 ^ 64"

definition to_long :: "int \<Rightarrow> int" where
  "to_long i = (i + 2 ^ 63) mod 2 ^ 64 - 2 ^ 63"

text \<open>
  With fewer bytes than needed, the rest is skipped and the value is undefined. The sum is not
  bounded here; in C it is an \<open>unsigned long\<close>, which only wraps for sizes near \<open>2 ^ 64\<close>.
\<close>

definition CHECK_BUFFER :: "int \<Rightarrow> SV pk \<Rightarrow> SV pk" where
  "CHECK_BUFFER n m = (\<lambda>s. if pk_pos s + n > pk_length s then Inr (Undef, s\<lparr>pk_pos := pk_length s\<rparr>) else m s)"

text \<open>
  Growing asks for one byte more than needed, for the terminator, and zeroes what is new; the
  string never gets smaller.
\<close>

definition zeroed :: "mem \<Rightarrow> int \<Rightarrow> int \<Rightarrow> mem" where
  "zeroed m p n = (\<lambda>a. if p \<le> int a \<and> int a < p + n then 0 else m a)"

definition GROW_BUFFER :: "CBC \<Rightarrow> int \<Rightarrow> unit pk" where
  "GROW_BUFFER c n = (\<lambda>s.
     let required = to_ulong (pk_pos s + n); alloc = to_ulong (required + 1) in
     if required > pk_length s then
       if alloc > largest_allocation (cbc_perl c) then Inl (Croaked ''Out of memory!'')
       else (let room = max alloc (pk_allocated s); new = to_ulong (alloc - pk_length s) in
         if pk_length s + new > room then Inl Outside_buffer
         else Inr ((), s\<lparr>pk_allocated := room, pk_buffer := zeroed (pk_buffer s) (pk_length s) new, pk_length := required\<rparr>))
     else Inr ((), s))"

text \<open>An access is inside the part of the buffer that is in use.\<close>

definition in_buffer :: "int \<Rightarrow> PackInfo \<Rightarrow> bool" where
  "in_buffer n s \<longleftrightarrow> n = 0 \<or> 0 \<le> n \<and> 0 \<le> pk_pos s \<and> pk_pos s + n \<le> pk_length s \<and> pk_pos s + n \<le> pk_allocated s"

definition write_bytes :: "mem \<Rightarrow> nat \<Rightarrow> u_8 list \<Rightarrow> mem" where
  "write_bytes m p bs = (\<lambda>a. if p \<le> a \<and> a < p + length bs then bs ! (a - p) else m a)"

definition read_bytes :: "mem \<Rightarrow> nat \<Rightarrow> nat \<Rightarrow> u_8 list" where
  "read_bytes m p n = map m [p..<p + n]"

definition put_bytes :: "u_8 list \<Rightarrow> unit pk" where
  "put_bytes bs = (\<lambda>s. if in_buffer (int (length bs)) s
     then Inr ((), s\<lparr>pk_buffer := write_bytes (pk_buffer s) (nat (pk_pos s)) bs\<rparr>) else Inl Outside_buffer)"

definition get_bytes :: "int \<Rightarrow> u_8 list pk" where
  "get_bytes n = (\<lambda>s. if in_buffer n s then Inr (read_bytes (pk_buffer s) (nat (pk_pos s)) (nat n), s) else Inl Outside_buffer)"

section \<open>Tags\<close>

abbreviation CBC_TAG_BYTE_ORDER :: u_16 where "CBC_TAG_BYTE_ORDER \<equiv> 0"
abbreviation CBC_TAG_DIMENSION :: u_16 where "CBC_TAG_DIMENSION \<equiv> 1"
abbreviation CBC_TAG_FORMAT :: u_16 where "CBC_TAG_FORMAT \<equiv> 2"
abbreviation CBC_TAG_HOOKS :: u_16 where "CBC_TAG_HOOKS \<equiv> 3"
abbreviation CBC_TAG_BYTE_ORDER_BIG_ENDIAN :: u_16 where "CBC_TAG_BYTE_ORDER_BIG_ENDIAN \<equiv> 0"
abbreviation CBC_TAG_BYTE_ORDER_LITTLE_ENDIAN :: u_16 where "CBC_TAG_BYTE_ORDER_LITTLE_ENDIAN \<equiv> 1"
abbreviation CBC_TAG_FORMAT_STRING :: u_16 where "CBC_TAG_FORMAT_STRING \<equiv> 0"
abbreviation CBC_TAG_FORMAT_BINARY :: u_16 where "CBC_TAG_FORMAT_BINARY \<equiv> 1"

definition SET_BYTEORDER :: "CtTagList \<Rightarrow> unit pk" where
  "SET_BYTEORDER tags = (case find_tag tags CBC_TAG_BYTE_ORDER of None \<Rightarrow> pk_return ()
     | Some tag \<Rightarrow> if tag_flags tag = CBC_TAG_BYTE_ORDER_BIG_ENDIAN then set_order CBO_BIG_ENDIAN
         else if tag_flags tag = CBC_TAG_BYTE_ORDER_LITTLE_ENDIAN then set_order CBO_LITTLE_ENDIAN
         else pk_fail Fatal_error)"

text \<open>The hook of a tag list, called on a value.\<close>

definition call_hook :: "CBC \<Rightarrow> CtTagList \<Rightarrow> string option \<Rightarrow> string \<Rightarrow> HookId \<Rightarrow> SV \<Rightarrow> SV pk" where
  "call_hook c tags pre ident i sv = (case find_tag tags CBC_TAG_HOOKS of None \<Rightarrow> pk_return sv
     | Some tag \<Rightarrow> pk_run (hook_call (cbc_perl c) (cbc_self c) pre ident (tag_hooks c (tag_any tag)) i sv))"

definition struct_prefix :: "u_32 \<Rightarrow> string option" where
  "struct_prefix flags = Some (if has_flag flags T_STRUCT then ''struct '' else ''union '')"

definition enum_at :: "CState \<Rightarrow> nat option \<Rightarrow> EnumSpecifier run" where
  "enum_at st p = (case p of None \<Rightarrow> Inl Undefined_behaviour
     | Some n \<Rightarrow> (case enums st n of None \<Rightarrow> Inl Undefined_behaviour | Some e \<Rightarrow> Inr e))"

definition typedef_decl :: "CState \<Rightarrow> TypeSpec \<Rightarrow> Declarator run" where
  "typedef_decl st ts = and_then (pTypedef st ts) (\<lambda>(t, d). Inr d)"

definition hook_call_typespec :: "CBC \<Rightarrow> TypeSpec \<Rightarrow> HookId \<Rightarrow> SV \<Rightarrow> SV pk" where
  "hook_call_typespec c ts i sv =
     (if has_flag (ts_tflags ts) T_TYPE then
        pk_then (pk_run (typedef_decl (cbc_types c) ts)) (\<lambda>d. call_hook c (d_tags d) None (d_identifier d) i sv)
      else if has_flag (ts_tflags ts) T_COMPOUND then
        pk_then (pk_run (struct_at (cbc_types c) (ts_ptr ts))) (\<lambda>s.
        call_hook c (s_tags s) (struct_prefix (ts_tflags ts)) (s_identifier s) i sv)
      else if has_flag (ts_tflags ts) T_ENUM then
        pk_then (pk_run (enum_at (cbc_types c) (ts_ptr ts))) (\<lambda>e. call_hook c (es_tags e) (Some ''enum '') (es_identifier e) i sv)
      else pk_return sv)"

section \<open>Sizes\<close>

definition GET_ENUM_SIZE :: "LayoutParam \<Rightarrow> EnumSpecifier \<Rightarrow> int run" where
  "GET_ENUM_SIZE lp e =
     (if enum_size lp > 0 then Inr (enum_size lp)
      else case (if enum_size lp = 0 then es_unsigned_size e else if enum_size lp = -1 then es_signed_size e else None) of
        None \<Rightarrow> Inl Undefined_behaviour | Some n \<Rightarrow> Inr n)"

definition load_size :: "CBC \<Rightarrow> u_32 \<Rightarrow> BitfieldInfo option \<Rightarrow> int \<times> u_32" where
  "load_size c flags bi = (let lp = cbc_layout c; h = cbc_host c; plain = \<not> has_flag flags (T_SIGNED OR T_UNSIGNED) in
     case bi of
       Some b \<Rightarrow> (bf_size b, if unsigned_bitfields c \<and> plain then flags OR T_UNSIGNED else flags)
     | None \<Rightarrow>
         if has_flag flags T_VOID then (1, flags)
         else if has_flag flags T_CHAR then
           (or_native (char_size lp) (sizeof_char h), if unsigned_chars c \<and> plain then flags OR T_UNSIGNED else flags)
         else if flags AND (T_LONG OR T_DOUBLE) = T_LONG OR T_DOUBLE then (or_native (long_double_size lp) (sizeof_long_double h), flags)
         else if has_flag flags T_LONGLONG then (or_native (long_long_size lp) (sizeof_long_long h), flags)
         else if has_flag flags T_FLOAT then (or_native (float_size lp) (sizeof_float h), flags)
         else if has_flag flags T_DOUBLE then (or_native (double_size lp) (sizeof_double h), flags)
         else if has_flag flags T_SHORT then (or_native (short_size lp) (sizeof_short h), flags)
         else if has_flag flags T_LONG then (or_native (long_size lp) (sizeof_long h), flags)
         else (or_native (int_size lp) (sizeof_int h), flags))"

definition pointer_size :: "CBC \<Rightarrow> int" where
  "pointer_size c = or_native (ptr_size (cbc_layout c)) (sizeof_ptr (cbc_host c))"

end
