(* ===== verification/Pack_Values.thy ===== *)
theory Pack_Values
  imports Pack_State
begin

text \<open>
  The leaves of a conversion in \<^verbatim>\<open>cbc/pack.c\<close>: integers, enums, floating point numbers, pointers
  and the strings of a format tag.
\<close>

section \<open>Floating point numbers\<close>

datatype FPType = FPT_UNKNOWN | FPT_FLOAT | FPT_DOUBLE | FPT_LONG_DOUBLE

definition get_fp_type :: "u_32 \<Rightarrow> FPType" where
  "get_fp_type flags =
     (let f = flags AND (T_VOID OR T_CHAR OR T_SHORT OR T_INT OR T_LONG OR T_FLOAT OR T_DOUBLE OR T_SIGNED OR T_UNSIGNED OR T_LONGLONG)
      in if f = T_LONG OR T_DOUBLE then FPT_LONG_DOUBLE else if f = T_DOUBLE then FPT_DOUBLE
         else if f = T_FLOAT then FPT_FLOAT else FPT_UNKNOWN)"

text \<open>The host type that is stored: with IEEE numbers chosen by the size, otherwise by the type.\<close>

definition host_fp :: "CBC \<Rightarrow> int \<Rightarrow> FPType \<Rightarrow> FPType" where
  "host_fp c n type = (let h = cbc_host c in
     if ieee_fp c then
       (if n = sizeof_float h then FPT_FLOAT else if n = sizeof_double h then FPT_DOUBLE
        else if have_long_double c \<and> n = sizeof_long_double h then FPT_LONG_DOUBLE else FPT_UNKNOWN)
     else (case type of
         FPT_FLOAT \<Rightarrow> if n = sizeof_float h then FPT_FLOAT else FPT_UNKNOWN
       | FPT_DOUBLE \<Rightarrow> if n = sizeof_double h then FPT_DOUBLE else FPT_UNKNOWN
       | FPT_LONG_DOUBLE \<Rightarrow> if have_long_double c \<and> n = sizeof_long_double h then FPT_LONG_DOUBLE else FPT_UNKNOWN
       | FPT_UNKNOWN \<Rightarrow> FPT_UNKNOWN))"

definition unsupported_fp :: "u_32 \<Rightarrow> string \<Rightarrow> unit pk" where
  "unsupported_fp flags what = (case get_basic_type_spec_string None flags of None \<Rightarrow> pk_fail Undefined_behaviour
     | Some s \<Rightarrow> WARN (''Unsupported floating point type '' @ single_quoted s @ '' in '' @ what))"

definition cannot_fp :: "CBC \<Rightarrow> string \<Rightarrow> int \<Rightarrow> unit pk" where
  "cannot_fp c what n = WARN (if ieee_fp c then ''Cannot '' @ what @ '' '' @ decimal n @ '' byte floating point values''
     else ''Cannot '' @ what @ '' non-native floating point values'')"

definition fp_order :: "CBC \<Rightarrow> CByteOrder \<Rightarrow> 'b list \<Rightarrow> 'b list" where
  "fp_order c bo bs = (if bo = native_byteorder (cbc_arch c) then bs else rev bs)"

definition native_only :: "CBC \<Rightarrow> CByteOrder \<Rightarrow> bool" where
  "native_only c bo \<longleftrightarrow> ieee_fp c \<or> bo = native_byteorder (cbc_arch c)"

definition store_float_sv :: "CBC \<Rightarrow> int \<Rightarrow> u_32 \<Rightarrow> SV \<Rightarrow> unit pk" where
  "store_float_sv c n flags sv =
     (if get_fp_type flags = FPT_UNKNOWN then unsupported_fp flags ''pack''
      else pk_then (pk_get pk_order) (\<lambda>bo.
        if native_only c bo \<and> host_fp c n (get_fp_type flags) \<noteq> FPT_UNKNOWN
        then put_bytes (fp_order c bo (nv_bytes (cbc_perl c) (nat n) (SvNV (cbc_perl c) sv)))
        else cannot_fp c ''pack'' n))"

definition fetch_float_sv :: "CBC \<Rightarrow> int \<Rightarrow> u_32 \<Rightarrow> SV pk" where
  "fetch_float_sv c n flags =
     (if get_fp_type flags = FPT_UNKNOWN then pk_then (unsupported_fp flags ''unpack'') (\<lambda>_. pk_return (newSVnv 0))
      else pk_then (pk_get pk_order) (\<lambda>bo.
        if native_only c bo \<and> host_fp c n (get_fp_type flags) \<noteq> FPT_UNKNOWN
        then pk_then (get_bytes n) (\<lambda>bs. pk_return (newSVnv (bytes_nv (cbc_perl c) (nat n) (fp_order c bo bs))))
        else pk_then (cannot_fp c ''unpack'' n) (\<lambda>_. pk_return (newSVnv 0))))"

section \<open>Integers\<close>

text \<open>A bit-field uses the configured byte order, everything else the one in force.\<close>

definition SF_ORDER :: "CBC \<Rightarrow> BitfieldInfo option \<Rightarrow> CByteOrder pk" where
  "SF_ORDER c bi = (case bi of Some b \<Rightarrow> pk_return (lp_byte_order (cbc_layout c)) | None \<Rightarrow> pk_get pk_order)"

definition bi_bits :: "BitfieldInfo option \<Rightarrow> nat" where
  "bi_bits bi = (case bi of None \<Rightarrow> 0 | Some b \<Rightarrow> nat (bf_bits b))"

definition bi_pos :: "BitfieldInfo option \<Rightarrow> nat" where
  "bi_pos bi = (case bi of None \<Rightarrow> 0 | Some b \<Rightarrow> nat (bf_pos b))"

definition or_assert :: "'a option \<Rightarrow> 'a run" where
  "or_assert r = (case r of None \<Rightarrow> Inl Assertion_failed | Some x \<Rightarrow> Inr x)"

definition put_integer :: "CBC \<Rightarrow> int \<Rightarrow> BitfieldInfo option \<Rightarrow> IntValue \<Rightarrow> unit pk" where
  "put_integer c n bi val = pk_then (SF_ORDER c bi) (\<lambda>bo s.
     if \<not> in_buffer n s then Inl Outside_buffer
     else and_then (or_assert (store_integer (uninitialised c) (cbc_arch c) (nat n) (bi_bits bi) (bi_pos bi) bo
            (pk_buffer s) (nat (pk_pos s)) val)) (\<lambda>m. Inr ((), s\<lparr>pk_buffer := m\<rparr>)))"

definition get_integer :: "CBC \<Rightarrow> int \<Rightarrow> bool \<Rightarrow> BitfieldInfo option \<Rightarrow> IntValue \<Rightarrow> IntValue pk" where
  "get_integer c n sign bi val = pk_then (SF_ORDER c bi) (\<lambda>bo s.
     if \<not> in_buffer n s then Inl Outside_buffer
     else and_then (or_assert (fetch_integer (cbc_arch c) (nat n) sign (bi_bits bi) (bi_pos bi) bo
            (pk_buffer s) (nat (pk_pos s)) val)) (\<lambda>val. Inr (val, s)))"

text \<open>A C function sees a string up to its first NUL.\<close>

definition c_string :: "string \<Rightarrow> string" where
  "c_string s = takeWhile (\<lambda>ch. ch \<noteq> NUL) s"

definition integer_string :: "SV \<Rightarrow> string option" where
  "integer_string sv = (case sv of
     Scalar _ _ (Some s) \<Rightarrow> if string_is_integer (c_string s) \<noteq> 0 then Some (c_string s) else None
   | _ \<Rightarrow> None)"

definition store_int_sv :: "CBC \<Rightarrow> int \<Rightarrow> bool \<Rightarrow> BitfieldInfo option \<Rightarrow> SV \<Rightarrow> unit pk" where
  "store_int_sv c n sign bi sv = put_integer c n bi (case integer_string sv of
     Some s \<Rightarrow> \<lparr>int_value = uninitialised c, int_sign = sign, int_string = Some s\<rparr>
   | None \<Rightarrow> \<lparr>int_value = (if sign then SvIV (cbc_perl c) sv else SvUV (cbc_perl c) sv), int_sign = sign, int_string = None\<rparr>)"

text \<open>An integer that does not fit into an \<open>IV\<close> is returned as a string.\<close>

definition fetch_int_sv :: "CBC \<Rightarrow> int \<Rightarrow> bool \<Rightarrow> BitfieldInfo option \<Rightarrow> SV pk" where
  "fetch_int_sv c n sign bi =
     pk_then (get_integer c n sign bi \<lparr>int_value = uninitialised c, int_sign = sign, int_string = (if n > 8 then Some [] else None)\<rparr>) (\<lambda>val.
     pk_return (case int_string val of Some s \<Rightarrow> newSVpv s
       | None \<Rightarrow> newSViv (if sign then sint (int_value val) else uint (int_value val))))"

section \<open>Pointers and basic types\<close>

definition defined_scalar :: "SV \<Rightarrow> bool" where
  "defined_scalar sv \<longleftrightarrow> SvOK sv \<and> \<not> SvROK sv"

definition pack_pointer :: "CBC \<Rightarrow> SV \<Rightarrow> unit pk" where
  "pack_pointer c sv = pk_then (GROW_BUFFER c (pointer_size c)) (\<lambda>_.
     pk_when (defined_scalar sv) (store_int_sv c (pointer_size c) False None sv))"

definition unpack_pointer :: "CBC \<Rightarrow> SV pk" where
  "unpack_pointer c = CHECK_BUFFER (pointer_size c) (fetch_int_sv c (pointer_size c) False None)"

definition pack_basic :: "CBC \<Rightarrow> u_32 \<Rightarrow> BitfieldInfo option \<Rightarrow> SV \<Rightarrow> unit pk" where
  "pack_basic c flags bi sv = (let (n, flags) = load_size c flags bi in
     pk_then (GROW_BUFFER c n) (\<lambda>_. pk_when (defined_scalar sv)
       (if has_flag flags (T_DOUBLE OR T_FLOAT) then pk_then (pk_check (bi = None)) (\<lambda>_. store_float_sv c n flags sv)
        else store_int_sv c n (\<not> has_flag flags T_UNSIGNED) bi sv)))"

definition unpack_basic :: "CBC \<Rightarrow> u_32 \<Rightarrow> BitfieldInfo option \<Rightarrow> SV pk" where
  "unpack_basic c flags bi = (let (n, flags) = load_size c flags bi in
     CHECK_BUFFER n
       (if has_flag flags (T_FLOAT OR T_DOUBLE) then pk_then (pk_check (bi = None)) (\<lambda>_. fetch_float_sv c n flags)
        else fetch_int_sv c n (\<not> has_flag flags T_UNSIGNED) bi))"

section \<open>Formatted strings\<close>

definition char_byte :: "char \<Rightarrow> u_8" where
  "char_byte ch = of_nat (char_nat ch)"

definition byte_char :: "u_8 \<Rightarrow> char" where
  "byte_char b = char_of (unat b)"

definition next_multiple :: "int \<Rightarrow> int \<Rightarrow> int" where
  "next_multiple len n = (if len mod n \<noteq> 0 then len + n - len mod n else len)"

text \<open>The first characters of a string for a message, with dots for what cannot be shown.\<close>

definition shown :: "string \<Rightarrow> string" where
  "shown s = (let t = map (\<lambda>ch. if char_nat ch < 32 \<or> char_nat ch > 127 then CHR ''.'' else ch) (take 15 s)
     in if length s > 15 then take 12 t @ ''...'' else t)"

definition format_name :: "CtTag \<Rightarrow> string pk" where
  "format_name tag = (if tag_flags tag = CBC_TAG_FORMAT_BINARY then pk_return ''Binary''
     else if tag_flags tag = CBC_TAG_FORMAT_STRING then pk_return ''String'' else pk_fail Fatal_error)"

definition plural :: "int \<Rightarrow> string" where
  "plural n = (if n = 1 then [] else ''s'')"

definition warn_too_long :: "CtTag \<Rightarrow> string \<Rightarrow> int \<Rightarrow> int \<Rightarrow> SV \<Rightarrow> unit pk" where
  "warn_too_long tag s len n sv = pk_then (format_name tag) (\<lambda>fmt. WARN_idl (\<lambda>name.
     ''Source string '' @ CHR 0x22 # shown (take (nat len) s) @ CHR 0x22 # '' is longer ('' @ decimal len @ '' byte'' @ plural len
     @ '') than '' @ single_quoted name @ '' ('' @ decimal n @ '' byte'' @ plural n @ '') while packing '' @ single_quoted fmt
     @ '' format'' @ (if SvROK sv then '' (Are you sure you want to pack a reference type?)'' else [])))"

text \<open>\<open>strncpy\<close> stops at a NUL and fills up with NULs.\<close>

definition strncpy_bytes :: "string \<Rightarrow> nat \<Rightarrow> u_8 list" where
  "strncpy_bytes s n = (let t = take n (c_string s) in map char_byte t @ replicate (n - length t) 0)"

definition format_bytes :: "CtTag \<Rightarrow> string \<Rightarrow> int \<Rightarrow> u_8 list pk" where
  "format_bytes tag s len =
     (if tag_flags tag = CBC_TAG_FORMAT_BINARY then pk_return (map char_byte (take (nat len) s))
      else if tag_flags tag = CBC_TAG_FORMAT_STRING then pk_return (strncpy_bytes s (nat len))
      else pk_fail Fatal_error)"

text \<open>\<open>flexible\<close> is the flag \<open>PACK_FLEXIBLE\<close>: the size is that of an element, and the string decides.\<close>

definition pack_format :: "CBC \<Rightarrow> CtTag \<Rightarrow> int \<Rightarrow> bool \<Rightarrow> SV \<Rightarrow> unit pk" where
  "pack_format c tag n flexible sv =
     (if \<not> SvOK sv then pk_when (\<not> flexible) (GROW_BUFFER c n)
      else pk_then (pk_when (\<not> flexible) (GROW_BUFFER c n)) (\<lambda>_.
        let s = SvPV (cbc_perl c) sv;
            len = (if flexible \<and> tag_flags tag = CBC_TAG_FORMAT_STRING then int (length (c_string s)) + 1 else int (length s)) in
        pk_then (if flexible then
                   (if n = 0 then pk_fail Undefined_behaviour
                    else pk_then (GROW_BUFFER c (next_multiple len n)) (\<lambda>_. pk_return (next_multiple len n)))
                 else pk_return n) (\<lambda>n.
        pk_then (pk_when (len > n) (warn_too_long tag s len n sv)) (\<lambda>_.
        pk_then (format_bytes tag s (min len n)) put_bytes))))"

definition unpack_format :: "CtTag \<Rightarrow> int \<Rightarrow> bool \<Rightarrow> SV pk" where
  "unpack_format tag n flexible = (\<lambda>s.
     if pk_pos s + n > pk_length s then Inr (newSVpv [], s)
     else (let remain = pk_length s - pk_pos s in
       pk_then (if flexible then if n = 0 then pk_fail Undefined_behaviour else pk_return (remain - remain mod n) else pk_return n) (\<lambda>n.
       pk_then (get_bytes n) (\<lambda>bs.
       if tag_flags tag = CBC_TAG_FORMAT_BINARY then pk_return (newSVpv (map byte_char bs))
       else if tag_flags tag = CBC_TAG_FORMAT_STRING then pk_return (newSVpv (c_string (map byte_char bs)))
       else pk_fail Fatal_error)) s))"

section \<open>Enums\<close>

definition enum_value :: "CBC \<Rightarrow> SV \<Rightarrow> u_64 pk" where
  "enum_value c sv = (case sv of
     Scalar (Some i) _ _ \<Rightarrow> pk_return (word_of_int i)
   | Scalar None _ (Some _) \<Rightarrow>
       (let s = SvPV (cbc_perl c) sv in
        case HT_get (char_is_unsigned c) (htEnumerators c) s (length s) 0 of
          None \<Rightarrow> pk_return (SvIV (cbc_perl c) sv)
        | Some en \<Rightarrow> pk_then (pk_when (IS_UNSAFE_VAL (en_value en)) (WARN (''Enumerator value '' @ single_quoted s @ '' is unsafe''))) (\<lambda>_.
            pk_return (word_of_int (iv (en_value en)))))
   | _ \<Rightarrow> pk_return (SvIV (cbc_perl c) sv))"

definition enum_bytes :: "CBC \<Rightarrow> EnumSpecifier \<Rightarrow> BitfieldInfo option \<Rightarrow> int run" where
  "enum_bytes c e bi = (case bi of Some b \<Rightarrow> Inr (bf_size b) | None \<Rightarrow> GET_ENUM_SIZE (cbc_layout c) e)"

text \<open>The byte order of a tag is in force up to the end; a format tag ends the work before.\<close>

definition pack_enum :: "CBC \<Rightarrow> EnumSpecifier \<Rightarrow> BitfieldInfo option \<Rightarrow> SV \<Rightarrow> unit pk" where
  "pack_enum c e bi sv = pk_then (pk_run (enum_bytes c e bi)) (\<lambda>n. pk_then (pk_get pk_order) (\<lambda>old.
     pk_then (call_hook c (es_tags e) (Some ''enum '') (es_identifier e) HOOKID_pack sv) (\<lambda>sv.
     case find_tag (es_tags e) CBC_TAG_FORMAT of
       Some tag \<Rightarrow> pk_then (pk_check (bi = None)) (\<lambda>_. pack_format c tag n False sv)
     | None \<Rightarrow>
       pk_then (SET_BYTEORDER (es_tags e)) (\<lambda>_.
       pk_then (GROW_BUFFER c n) (\<lambda>_.
       pk_then (pk_when (defined_scalar sv) (pk_then (enum_value c sv) (\<lambda>v.
         put_integer c n bi \<lparr>int_value = v, int_sign = sint v < 0, int_string = None\<rparr>))) (\<lambda>_.
       set_order old))))))"

definition find_enumerator :: "EnumSpecifier \<Rightarrow> int \<Rightarrow> Enumerator option" where
  "find_enumerator e v = (case es_enumerators e of None \<Rightarrow> None | Some ens \<Rightarrow> find (\<lambda>en. iv (en_value en) = v) ens)"

definition warn_unsafe_enum :: "EnumSpecifier \<Rightarrow> unit pk" where
  "warn_unsafe_enum e = pk_when (has_flag (es_tflags e) T_UNSAFE_VAL)
     (WARN (if es_identifier e \<noteq> [] then ''Enumeration '' @ single_quoted (es_identifier e) @ '' contains unsafe values''
            else ''Enumeration contains unsafe values''))"

definition enum_sv :: "CBC \<Rightarrow> EnumSpecifier \<Rightarrow> int \<Rightarrow> SV pk" where
  "enum_sv c e v = (let name = (case find_enumerator e v of Some en \<Rightarrow> en_identifier en | None \<Rightarrow> ''<ENUM:'' @ decimal v @ ''>'') in
     case enumType c of
       ET_INTEGER \<Rightarrow> pk_return (newSViv v)
     | ET_BOTH \<Rightarrow> pk_then (warn_unsafe_enum e) (\<lambda>_. pk_return (Scalar (Some v) None (Some name)))
     | ET_STRING \<Rightarrow> pk_then (warn_unsafe_enum e) (\<lambda>_. pk_return (newSVpv name)))"

text \<open>When the buffer is too short the byte order of the tag stays in force.\<close>

definition unpack_enum_value :: "CBC \<Rightarrow> EnumSpecifier \<Rightarrow> BitfieldInfo option \<Rightarrow> int \<Rightarrow> SV pk" where
  "unpack_enum_value c e bi n = pk_then (pk_get pk_order) (\<lambda>old. pk_then (SET_BYTEORDER (es_tags e)) (\<lambda>_.
     CHECK_BUFFER n
       (pk_then (get_integer c n (has_flag (es_tflags e) T_SIGNED) bi
           \<lparr>int_value = uninitialised c, int_sign = has_flag (es_tflags e) T_SIGNED, int_string = None\<rparr>) (\<lambda>val.
        pk_then (enum_sv c e (sint (int_value val))) (\<lambda>sv.
        pk_then (set_order old) (\<lambda>_.
        call_hook c (es_tags e) (Some ''enum '') (es_identifier e) HOOKID_unpack sv))))))"

definition unpack_enum :: "CBC \<Rightarrow> EnumSpecifier \<Rightarrow> BitfieldInfo option \<Rightarrow> SV pk" where
  "unpack_enum c e bi = pk_then (pk_run (enum_bytes c e bi)) (\<lambda>n.
     case find_tag (es_tags e) CBC_TAG_FORMAT of
       Some tag \<Rightarrow> pk_then (pk_check (bi = None)) (\<lambda>_. pk_then (unpack_format tag n False) (\<lambda>sv.
         call_hook c (es_tags e) (Some ''enum '') (es_identifier e) HOOKID_unpack sv))
     | None \<Rightarrow> unpack_enum_value c e bi n)"

end
