(* ===== verification/Pack_Bits.thy ===== *)
theory Pack_Bits
  imports Pack_Values
begin

text \<open>
  Memory as a sequence of bits, numbered in the byte order of the bit-fields. A member occupies
  an interval of bits; what a store leaves unchanged and what a fetch looks at are stated on
  intervals, so that bit-fields and whole integers are treated alike.
\<close>

section \<open>Numbering the bits\<close>

definition mem_bit :: "CByteOrder \<Rightarrow> mem \<Rightarrow> int \<Rightarrow> bool" where
  "mem_bit bo m i = bit (m (nat (i div 8))) (nat (if bo = CBO_BIG_ENDIAN then 7 - i mod 8 else i mod 8))"

definition agree :: "CByteOrder \<Rightarrow> int \<Rightarrow> int \<Rightarrow> mem \<Rightarrow> mem \<Rightarrow> bool" where
  "agree bo a b m m' \<longleftrightarrow> (\<forall>i. 0 \<le> i \<and> a \<le> i \<and> i < b \<longrightarrow> mem_bit bo m i = mem_bit bo m' i)"

definition outside :: "CByteOrder \<Rightarrow> int \<Rightarrow> int \<Rightarrow> mem \<Rightarrow> mem \<Rightarrow> bool" where
  "outside bo a b m m' \<longleftrightarrow> (\<forall>i. 0 \<le> i \<and> (i < a \<or> b \<le> i) \<longrightarrow> mem_bit bo m i = mem_bit bo m' i)"

lemma agree_refl [simp]: "agree bo a b m m"
  by (simp add: agree_def)

lemma agree_sym: "agree bo a b m m' \<Longrightarrow> agree bo a b m' m"
  by (simp add: agree_def)

lemma agree_trans: "agree bo a b m m' \<Longrightarrow> agree bo a b m' m'' \<Longrightarrow> agree bo a b m m''"
  by (simp add: agree_def)

lemma agree_sub: "agree bo a b m m' \<Longrightarrow> a \<le> a' \<Longrightarrow> b' \<le> b \<Longrightarrow> agree bo a' b' m m'"
  by (auto simp: agree_def)

lemma outside_refl [simp]: "outside bo a b m m"
  by (simp add: outside_def)

lemma outside_sym: "outside bo a b m m' \<Longrightarrow> outside bo a b m' m"
  by (simp add: outside_def)

lemma outside_trans: "outside bo a b m m' \<Longrightarrow> outside bo a b m' m'' \<Longrightarrow> outside bo a b m m''"
  by (simp add: outside_def)

lemma outside_super: "outside bo a b m m' \<Longrightarrow> a' \<le> a \<Longrightarrow> b \<le> b' \<Longrightarrow> outside bo a' b' m m'"
  by (auto simp: outside_def)

lemma outside_agree: "outside bo a b m m' \<Longrightarrow> d \<le> a \<or> b \<le> c \<Longrightarrow> agree bo c d m m'"
  by (auto simp: outside_def agree_def)

lemma byte_bits:
  assumes "k < 8"
  shows "bit (m q) k = mem_bit bo m (8 * int q + (if bo = CBO_BIG_ENDIAN then 7 - int k else int k))"
proof -
  have "(8 * int q + int k) div 8 = int q" "(8 * int q + int k) mod 8 = int k"
    "(8 * int q + (7 - int k)) div 8 = int q" "(8 * int q + (7 - int k)) mod 8 = 7 - int k" using assms by auto
  then show ?thesis using assms by (simp add: mem_bit_def)
qed

lemma byte_eqI:
  assumes "\<And>i. 8 * int q \<le> i \<Longrightarrow> i < 8 * int q + 8 \<Longrightarrow> mem_bit bo m i = mem_bit bo m' i"
  shows "m q = m' q"
proof (rule bit_word_eqI)
  fix k assume "k < LENGTH(8)"
  then have k: "k < 8" by simp
  show "bit (m q) k = bit (m' q) k" unfolding byte_bits [OF k, of m q bo] byte_bits [OF k, of m' q bo]
    by (rule assms) (use k in auto)
qed

lemma mem_bit_same: "m (nat (i div 8)) = m' (nat (i div 8)) \<Longrightarrow> mem_bit bo m i = mem_bit bo m' i"
  by (simp add: mem_bit_def)

lemma agree_bytes:
  assumes "agree bo (8 * int p) (8 * (int p + int n)) m m'" "p \<le> q" "q < p + n"
  shows "m q = m' q"
  by (rule byte_eqI [of _ bo]) (use assms in \<open>auto simp: agree_def\<close>)

lemma agree_bytesI:
  assumes "\<And>q. p \<le> q \<Longrightarrow> q < p + n \<Longrightarrow> m q = m' q"
  shows "agree bo (8 * int p) (8 * (int p + int n)) m m'"
  unfolding agree_def
proof (intro allI impI mem_bit_same assms)
  fix i assume "0 \<le> i \<and> 8 * int p \<le> i \<and> i < 8 * (int p + int n)"
  then have "int p \<le> i div 8" "i div 8 < int p + int n" by (auto simp: div_less_iff_less_mult)
  then show "p \<le> nat (i div 8)" "nat (i div 8) < p + n" by auto
qed

lemma outside_bytesI:
  assumes "\<And>q. q < p \<or> p + n \<le> q \<Longrightarrow> m q = m' q"
  shows "outside bo (8 * int p) (8 * (int p + int n)) m m'"
  unfolding outside_def
proof (intro allI impI mem_bit_same assms)
  fix i assume "0 \<le> i \<and> (i < 8 * int p \<or> 8 * (int p + int n) \<le> i)"
  then have "0 \<le> i div 8" "i div 8 < int p \<or> int p + int n \<le> i div 8" by auto
  then show "nat (i div 8) < p \<or> p + n \<le> nat (i div 8)" by auto
qed

lemma outside_bytes:
  assumes "outside bo (8 * int p) (8 * (int p + int n)) m m'" "q < p \<or> p + n \<le> q"
  shows "m q = m' q"
  by (rule byte_eqI [of _ bo]) (use assms in \<open>auto simp: outside_def\<close>)

section \<open>Units\<close>

text \<open>Bit \<open>j\<close> of a unit, counted from the least significant one, in the numbering of its order.\<close>

definition unit_bit :: "CByteOrder \<Rightarrow> nat \<Rightarrow> nat \<Rightarrow> nat \<Rightarrow> int" where
  "unit_bit bo sz p j = 8 * int p + (if bo = CBO_BIG_ENDIAN then 8 * int sz - 1 - int j else int j)"

lemma bit_be_byte:
  assumes "k < 8"
  shows "bit (m q) k = mem_bit CBO_BIG_ENDIAN m (8 * int q + 7 - int k)"
  using byte_bits [OF assms, of m q CBO_BIG_ENDIAN] by (simp add: algebra_simps)

lemma bit_le_byte:
  assumes "k < 8"
  shows "bit (m q) k = mem_bit CBO_LITTLE_ENDIAN m (8 * int q + int k)"
  using byte_bits [OF assms, of m q CBO_LITTLE_ENDIAN] by simp

lemma bit_byte_at:
  "bit (push_bit k (ucast b :: 'a::len word)) n \<longleftrightarrow> k \<le> n \<and> n < LENGTH('a) \<and> n < k + 8 \<and> bit b (n - k)" for b :: u_8
  by (auto simp: bit_push_bit_iff bit_ucast_iff dest: bit_imp_le_length)

lemma bit_byte_0: "bit (ucast b :: 'a::len word) n \<longleftrightarrow> n < LENGTH('a) \<and> n < 8 \<and> bit b n" for b :: u_8
  by (auto simp: bit_ucast_iff dest: bit_imp_le_length)

lemma split_8: "j < (8::nat) * n \<Longrightarrow> \<exists>q r. j = 8 * q + r \<and> r < 8 \<and> q < n"
  by (rule exI [of _ "j div 8"], rule exI [of _ "j mod 8"]) auto

lemma below_2: "q < 2 \<Longrightarrow> (q = 0 \<Longrightarrow> P) \<Longrightarrow> (q = Suc 0 \<Longrightarrow> P) \<Longrightarrow> P"
  by (auto simp: less_2_cases_iff)

lemma below_4: "q < (4::nat) \<Longrightarrow> (q = 0 \<Longrightarrow> P) \<Longrightarrow> (q = 1 \<Longrightarrow> P) \<Longrightarrow> (q = 2 \<Longrightarrow> P) \<Longrightarrow> (q = 3 \<Longrightarrow> P) \<Longrightarrow> P"
  by arith

lemma below_8: "q < (8::nat) \<Longrightarrow> (q < 4 \<Longrightarrow> P) \<Longrightarrow> (q = 4 \<Longrightarrow> P) \<Longrightarrow> (q = 5 \<Longrightarrow> P) \<Longrightarrow> (q = 6 \<Longrightarrow> P) \<Longrightarrow> (q = 7 \<Longrightarrow> P) \<Longrightarrow> P"
  by arith

lemma bit_le_word: "r < 8 \<Longrightarrow> q < 2 \<Longrightarrow> bit (le_word m p) (8 * q + r) = bit (m (p + q)) r"
  by (rule below_2 [of q], assumption, (simp add: le_word_def bit_or_iff bit_byte_at bit_byte_0)+)

lemma bit_le_long: "r < 8 \<Longrightarrow> q < 4 \<Longrightarrow> bit (le_long m p) (8 * q + r) = bit (m (p + q)) r"
  by (rule below_4 [of q], assumption, (simp add: le_long_def bit_or_iff bit_byte_at bit_byte_0)+)

lemma bit_le_longlong: "r < 8 \<Longrightarrow> q < 8 \<Longrightarrow> bit (le_longlong m p) (8 * q + r) = bit (m (p + q)) r"
  by (rule below_8 [of q], assumption, rule below_4 [of q], assumption, (simp add: le_longlong_def bit_or_iff bit_byte_at bit_byte_0)+)

lemma bit_be_word: "r < 8 \<Longrightarrow> q < 2 \<Longrightarrow> bit (be_word m p) (8 * q + r) = bit (m (p + (1 - q))) r"
  by (rule below_2 [of q], assumption, (simp add: be_word_def bit_or_iff bit_byte_at bit_byte_0)+)

lemma bit_be_long: "r < 8 \<Longrightarrow> q < 4 \<Longrightarrow> bit (be_long m p) (8 * q + r) = bit (m (p + (3 - q))) r"
  by (rule below_4 [of q], assumption, (simp add: be_long_def bit_or_iff bit_byte_at bit_byte_0)+)

lemma bit_be_longlong: "r < 8 \<Longrightarrow> q < 8 \<Longrightarrow> bit (be_longlong m p) (8 * q + r) = bit (m (p + (7 - q))) r"
  by (rule below_8 [of q], assumption, rule below_4 [of q], assumption, (simp add: be_longlong_def bit_or_iff bit_byte_at bit_byte_0)+)

lemma unit_byte:
  assumes "r < 8" "q < n"
  shows "bit (m (p + (if bo = CBO_BIG_ENDIAN then n - 1 - q else q))) r = mem_bit bo m (unit_bit bo n p (8 * q + r))"
  using byte_bits [OF assms(1), of m "p + (if bo = CBO_BIG_ENDIAN then n - 1 - q else q)" bo] assms
  by (simp add: unit_bit_def of_nat_diff algebra_simps)

lemma fetch_raw_bit:
  assumes sz: "unit_size sz" and j: "j < 8 * sz"
  shows "bit (fetch_raw a sz False bo m p old) j = mem_bit bo m (unit_bit bo sz p j)"
proof -
  from j obtain q r where qr: "j = 8 * q + r" "r < 8" "q < sz" using split_8 by blast
  have u: "bit (m (p + (if bo = CBO_BIG_ENDIAN then sz - 1 - q else q))) r = mem_bit bo m (unit_bit bo sz p j)"
    using unit_byte qr by blast
  from sz consider "sz = 1" | "sz = 2" | "sz = 4" | "sz = 8" by auto
  then have "bit (fetch_raw a sz False bo m p old) j = bit (m (p + (if bo = CBO_BIG_ENDIAN then sz - 1 - q else q))) r"
  proof cases
    case 1
    with qr show ?thesis by (simp add: fetch_raw_def Byte_Order.extend_def bit_byte_0)
  next
    case 2
    with qr show ?thesis by (simp add: fetch_raw_def Byte_Order.extend_def access_eq bit_ucast_iff bit_le_word bit_be_word)
  next
    case 3
    with qr show ?thesis by (simp add: fetch_raw_def Byte_Order.extend_def access_eq bit_ucast_iff bit_le_long bit_be_long)
  next
    case 4
    with qr show ?thesis by (simp add: fetch_raw_def access_eq bit_le_longlong bit_be_longlong)
  qed
  with u show ?thesis by simp
qed

text \<open>The interval of a bit-field: the bits \<open>shift\<close> to \<open>shift + b\<close> of its unit.\<close>

definition field_lo :: "CByteOrder \<Rightarrow> nat \<Rightarrow> nat \<Rightarrow> nat \<Rightarrow> nat \<Rightarrow> int" where
  "field_lo bo sz b shift p = 8 * int p + (if bo = CBO_BIG_ENDIAN then 8 * int sz - int shift - int b else int shift)"

lemma in_field:
  "field_lo bo sz b shift p \<le> unit_bit bo sz p n \<and> unit_bit bo sz p n < field_lo bo sz b shift p + int b
     \<longleftrightarrow> shift \<le> n \<and> n < shift + b"
  by (auto simp: field_lo_def unit_bit_def)

lemma unit_bit_surj:
  assumes "8 * int p \<le> i" "i < 8 * (int p + int sz)"
  obtains n where "n < 8 * sz" "i = unit_bit bo sz p n"
proof (cases "bo = CBO_BIG_ENDIAN")
  case True
  with assms that [of "nat (8 * (int p + int sz) - 1 - i)"] show ?thesis by (auto simp: unit_bit_def)
next
  case False
  with assms that [of "nat (i - 8 * int p)"] show ?thesis by (auto simp: unit_bit_def)
qed

lemma store_integer_outside:
  "store_integer g a sz b s bo m p ival = Some m' \<Longrightarrow> outside bo' (8 * int p) (8 * (int p + int sz)) m m'"
  by (rule outside_bytesI) (auto simp: store_integer_def Let_def store_raw_frame
      split: bind_splits option.splits if_splits)

lemma store_field_outside:
  assumes "int_string ival = None" and u: "in_unit sz b shift"
    and st: "store_integer g a sz b shift bo m p ival = Some m'"
  shows "outside bo (field_lo bo sz b shift p) (field_lo bo sz b shift p + int b) m m'"
  unfolding outside_def
proof (intro allI impI)
  fix i assume i: "0 \<le> i \<and> (i < field_lo bo sz b shift p \<or> field_lo bo sz b shift p + int b \<le> i)"
  note ud = in_unitD [OF u]
  show "mem_bit bo m i = mem_bit bo m' i"
  proof (cases "8 * int p \<le> i \<and> i < 8 * (int p + int sz)")
    case True
    then obtain n where n: "n < 8 * sz" "i = unit_bit bo sz p n" using unit_bit_surj by blast
    with i in_field [of bo sz b shift p n] have "\<not> (shift \<le> n \<and> n < shift + b)" by auto
    with bit_unit_after_store [OF assms, of n] n(1)
    have "bit (fetch_raw a sz False bo m' p 0) n = bit (fetch_raw a sz False bo m p 0) n" by auto
    with n show ?thesis by (simp add: fetch_raw_bit [OF ud(1)])
  next
    case False
    with store_integer_outside [OF st, of bo] i show ?thesis by (auto simp: outside_def)
  qed
qed

text \<open>A field is read from its interval, and what was stored is read back.\<close>

lemma field_value_agree:
  assumes u: "in_unit sz b shift" and "agree bo (field_lo bo sz b shift p) (field_lo bo sz b shift p + int b) m m'"
  shows "field_value sign b shift (fetch_raw a sz False bo m p 0) = field_value sign b shift (fetch_raw a sz False bo m' p 0)"
proof (rule field_value_cong)
  note ud = in_unitD [OF u]
  show "0 < b" by (rule ud(2))
  fix n assume n: "shift \<le> n" "n < shift + b"
  with ud have "n < 8 * sz" by auto
  moreover from this have "0 \<le> unit_bit bo sz p n" by (auto simp: unit_bit_def)
  ultimately show "bit (fetch_raw a sz False bo m p 0) n = bit (fetch_raw a sz False bo m' p 0) n"
    using assms(2) n in_field [of bo sz b shift p n] by (auto simp: fetch_raw_bit [OF ud(1)] agree_def)
qed

lemma field_value_stored:
  assumes "int_string ival = None" and u: "in_unit sz b shift"
    and "store_integer g a sz b shift bo m p ival = Some m'"
  shows "field_value sign b shift (fetch_raw a sz False bo m' p 0)
    = (if sign then signed_take_bit (b - 1) (int_value ival) else take_bit b (int_value ival))"
proof -
  note ud = in_unitD [OF u]
  have "field_value sign b shift (fetch_raw a sz False bo m' p 0) = field_value sign b shift (push_bit shift (int_value ival))"
    by (rule field_value_cong [OF ud(2)]) (use bit_unit_after_store [OF assms] ud in \<open>auto simp: bit_push_bit_iff\<close>)
  moreover have "take_bit b (drop_bit shift (push_bit shift (int_value ival))) = take_bit b (int_value ival)"
    by (rule bit_word_eqI) (use ud in \<open>auto simp: bit_take_bit_iff bit_drop_bit_eq bit_push_bit_iff\<close>)
  ultimately show ?thesis using ud(2) by (simp add: field_value_def signed_take_bit_eq_iff_take_bit_eq)
qed

text \<open>A whole integer is its unit.\<close>

lemma fetch_raw_agree:
  assumes "agree bo' (8 * int p) (8 * (int p + int sz)) m m'"
  shows "fetch_raw a sz sign bo m p old = fetch_raw a sz sign bo m' p old"
  by (rule fetch_raw_local) (use agree_bytes [OF assms] in simp)

lemma whole_value_stored:
  assumes "unit_size sz"
  shows "fetch_raw a sz sign bo (store_raw a sz bo m p v) p old
    = (if sign then signed_take_bit (8 * sz - 1) v else take_bit (8 * sz) v)"
  using assms fetch_raw_signed [OF assms] by (auto simp: fetch_store_raw signed_take_bit_eq_iff_take_bit_eq)

end
