(* ===== verification/Pack.thy ===== *)
theory Pack
  imports Pack_Values
begin

text \<open>
  \<open>pack\<close> of \<^verbatim>\<open>cbc/pack.c\<close>: writing a Perl value into the buffer along a type. The recursion
  over types has fuel; each step is a definition over the two recursive calls.
\<close>

section \<open>Shared by both directions\<close>

fun pk_each :: "('x \<Rightarrow> unit pk) \<Rightarrow> 'x list \<Rightarrow> unit pk" where
  "pk_each f [] = pk_return ()"
| "pk_each f (x # xs) = pk_then (f x) (\<lambda>_. pk_each f xs)"

definition member_key :: "Declarator \<Rightarrow> string" where
  "member_key d = take (nat (CTT_IDLEN (d_id_len d) (d_identifier d))) (d_identifier d)"

definition has_key :: "Declarator \<Rightarrow> bool" where
  "has_key d \<longleftrightarrow> CTT_IDLEN (d_id_len d) (d_identifier d) > 0"

definition bitfield_of :: "Declarator \<Rightarrow> BitfieldInfo option pk" where
  "bitfield_of d = (if bitfield_flag d then
       (let b = ext_bitfield d in
        pk_then (pk_check (bf_bits b > 0 \<and> bf_pos b < 64 \<and> bf_size b > 0 \<and> bf_size b \<le> 8)) (\<lambda>_. pk_return (Some b)))
     else pk_return None)"

text \<open>The tags of a declarator count only before its first dimension.\<close>

definition decl_tags :: "Declarator option \<Rightarrow> int \<Rightarrow> CtTagList" where
  "decl_tags decl dim = (case decl of Some d \<Rightarrow> if dim = 0 then d_tags d else [] | None \<Rightarrow> [])"

definition decl_name :: "Declarator option \<Rightarrow> string" where
  "decl_name decl = (case decl of Some d \<Rightarrow> d_identifier d | None \<Rightarrow> [])"

definition dimension_of :: "CBC \<Rightarrow> CtTag \<Rightarrow> DimensionTag" where
  "dimension_of c tag = tag_dimension c (tag_any tag)"

definition eval_dimension :: "CBC \<Rightarrow> CtTag \<Rightarrow> int \<Rightarrow> int pk" where
  "eval_dimension c tag avail = pk_then (pk_get pk_parent) (\<lambda>parent.
     pk_log (dimtag_eval (cbc_perl c) (dimension_of c tag) avail (cbc_self c) parent))"

definition array_dims_of :: "Declarator \<Rightarrow> Value list run" where
  "array_dims_of d = (case ext_array d of None \<Rightarrow> Inl Undefined_behaviour | Some vs \<Rightarrow> Inr vs)"

text \<open>The size of an element behind the first \<open>n\<close> dimensions.\<close>

definition element_size :: "Declarator \<Rightarrow> Value list \<Rightarrow> int \<Rightarrow> int" where
  "element_size d vs n = inner_size (rev (drop (nat n) vs)) (d_item_size d)"

definition one_element :: "Declarator \<Rightarrow> int run" where
  "one_element d = and_then (array_dims_of d) (\<lambda>vs.
     if d_size d = 0 then Inr (element_size d vs 1)
     else and_then (dimension_at d 0) (\<lambda>v. c_div (d_size d) (iv v)))"

text \<open>The size for a format tag, and whether it is that of an element of a flexible array.\<close>

definition prepare_pack_format :: "CBC \<Rightarrow> Declarator \<Rightarrow> CtTag option \<Rightarrow> (int \<times> bool) pk" where
  "prepare_pack_format c d dimtag =
     pk_then (if dimtag \<noteq> None \<or> d_size d = 0 then pk_run (one_element d) else pk_return 0) (\<lambda>one.
     pk_then (if array_flag d \<and> (case dimtag of Some tag \<Rightarrow> dimtag_is_flexible (dimension_of c tag) | None \<Rightarrow> d_size d = 0)
              then pk_then (pk_check (one > 0)) (\<lambda>_. pk_return (one, True))
              else (case dimtag of
                  Some tag \<Rightarrow> pk_then (pk_check (\<not> dimtag_is_flexible (dimension_of c tag) \<and> one > 0)) (\<lambda>_.
                    pk_then (eval_dimension c tag 0) (\<lambda>n. pk_return (to_int (one * n), False)))
                | None \<Rightarrow> pk_return (d_size d, False))) (\<lambda>(n, flexible).
     pk_then (pk_check (n > 0)) (\<lambda>_. pk_return (n, flexible))))"

definition is_array_at :: "Declarator option \<Rightarrow> int \<Rightarrow> bool" where
  "is_array_at decl dim \<longleftrightarrow> (case decl of Some d \<Rightarrow> array_flag d \<and> dim < dimension_count d | None \<Rightarrow> False)"

definition is_pointer :: "Declarator option \<Rightarrow> bool" where
  "is_pointer decl \<longleftrightarrow> (case decl of Some d \<Rightarrow> pointer_flag d | None \<Rightarrow> False)"

definition is_bitfield :: "Declarator option \<Rightarrow> bool" where
  "is_bitfield decl \<longleftrightarrow> (case decl of Some d \<Rightarrow> bitfield_flag d | None \<Rightarrow> False)"

definition WARN_UNDEF_STRUCT :: "Struct \<Rightarrow> unit pk" where
  "WARN_UNDEF_STRUCT s = WARN (''Got no definition for '' @
     single_quoted ((if has_flag (s_tflags s) T_UNION then ''union '' else ''struct '') @ s_identifier s))"

section \<open>Compounds\<close>

type_synonym pack_type_fun = "TypeSpec \<Rightarrow> Declarator option \<Rightarrow> int \<Rightarrow> BitfieldInfo option \<Rightarrow> SV \<Rightarrow> unit pk"
type_synonym pack_struct_fun = "nat option \<Rightarrow> SV \<Rightarrow> bool \<Rightarrow> unit pk"

definition pack_declarator :: "pack_type_fun \<Rightarrow> int \<Rightarrow> TypeSpec \<Rightarrow> HV \<Rightarrow> Declarator \<Rightarrow> unit pk" where
  "pack_declarator rec_type pos0 ts h d =
     (if has_key d then (case hv_fetch h (member_key d) of None \<Rightarrow> pk_return ()
        | Some e \<Rightarrow>
            pk_then (idl_do (IDLIST_SET_ID (d_identifier d))) (\<lambda>_.
            pk_then (pk_check (d_offset d \<ge> 0)) (\<lambda>_.
            pk_then (set_pos (pos0 + d_offset d)) (\<lambda>_.
            pk_then (bitfield_of d) (\<lambda>bi.
            pk_then (set_parent (Some h)) (\<lambda>_.
            pk_then (rec_type ts (Some d) 0 bi e) (\<lambda>_.
            set_parent None)))))))
      else pk_return ())"

definition pack_declaration ::
  "pack_type_fun \<Rightarrow> pack_struct_fun \<Rightarrow> nat \<Rightarrow> CBC \<Rightarrow> int \<Rightarrow> HV \<Rightarrow> StructDeclaration \<Rightarrow> unit pk" where
  "pack_declaration rec_type rec_struct k c pos0 h sd = (case sd_declarators sd of
     Some ds \<Rightarrow> pk_each (pack_declarator rec_type pos0 (sd_type sd) h) ds
   | None \<Rightarrow>
       pk_then (pk_run (FOLLOW_AND_CHECK_TSPTR k (cbc_types c) (sd_type sd))) (\<lambda>n.
       pk_then (idl_do IDLIST_POP) (\<lambda>_.
       pk_then (pk_check (sd_offset sd \<ge> 0)) (\<lambda>_.
       pk_then (set_pos (pos0 + sd_offset sd)) (\<lambda>_.
       pk_then (rec_struct (Some n) (HVref h) True) (\<lambda>_.
       idl_do (\<lambda>idl. Inr (IDLIST_PUSH (IDL_ID None) idl))))))))"

definition struct_declarations :: "Struct \<Rightarrow> StructDeclaration list" where
  "struct_declarations s = (case s_declarations s of None \<Rightarrow> [] | Some sds \<Rightarrow> sds)"

definition pack_members :: "pack_type_fun \<Rightarrow> pack_struct_fun \<Rightarrow> nat \<Rightarrow> CBC \<Rightarrow> Struct \<Rightarrow> SV \<Rightarrow> unit pk" where
  "pack_members rec_type rec_struct k c s sv = pk_then (pk_get pk_pos) (\<lambda>pos0. case sv of
     Undef \<Rightarrow> pk_return ()
   | HVref h \<Rightarrow>
       pk_then (idl_do (\<lambda>idl. Inr (IDLIST_PUSH (IDL_ID None) idl))) (\<lambda>_.
       pk_then (pk_each (pack_declaration rec_type rec_struct k c pos0 h) (struct_declarations s)) (\<lambda>_.
       idl_do IDLIST_POP))
   | _ \<Rightarrow> WARN_idl (\<lambda>name. single_quoted name @ '' should be a hash reference''))"

definition pack_struct_step ::
  "pack_type_fun \<Rightarrow> pack_struct_fun \<Rightarrow> nat \<Rightarrow> CBC \<Rightarrow> nat option \<Rightarrow> SV \<Rightarrow> bool \<Rightarrow> unit pk" where
  "pack_struct_step rec_type rec_struct k c p sv inlined = pk_then (pk_run (struct_at (cbc_types c) p)) (\<lambda>s.
     pk_then (pk_get pk_order) (\<lambda>old.
     if inlined then pk_then (pack_members rec_type rec_struct k c s sv) (\<lambda>_. set_order old)
     else
       pk_then (call_hook c (s_tags s) (struct_prefix (s_tflags s)) (s_identifier s) HOOKID_pack sv) (\<lambda>sv.
       case find_tag (s_tags s) CBC_TAG_FORMAT of
         Some tag \<Rightarrow> pack_format c tag (s_size s) False sv
       | None \<Rightarrow>
           pk_then (SET_BYTEORDER (s_tags s)) (\<lambda>_.
           pk_then (pack_members rec_type rec_struct k c s sv) (\<lambda>_.
           set_order old)))))"

section \<open>Arrays\<close>

text \<open>The number of elements to pack: that of the dimension tag, of the data, or of the type.\<close>

definition pack_count :: "CBC \<Rightarrow> CtTag option \<Rightarrow> int \<Rightarrow> Value \<Rightarrow> int \<Rightarrow> int \<Rightarrow> int pk" where
  "pack_count c dimtag dim v avail n = (case dimtag of
     Some tag \<Rightarrow> pk_then (pk_check (dim = 0)) (\<lambda>_. pk_then (eval_dimension c tag avail) (\<lambda>s.
       pk_then (GROW_BUFFER c (s * n)) (\<lambda>_. pk_return s)))
   | None \<Rightarrow> if has_flag (v_flags v) V_IS_UNDEF
       then pk_then (pk_check (dim = 0)) (\<lambda>_. pk_then (GROW_BUFFER c (avail * n)) (\<lambda>_. pk_return avail))
       else pk_return (iv v))"

definition pack_element :: "pack_type_fun \<Rightarrow> TypeSpec \<Rightarrow> Declarator \<Rightarrow> int \<Rightarrow> SV option list \<Rightarrow> int \<Rightarrow> int \<Rightarrow> int \<Rightarrow> unit pk" where
  "pack_element rec_type ts d dim a pos0 n i = (case av_fetch a i of None \<Rightarrow> pk_return ()
     | Some e \<Rightarrow>
         pk_then (idl_do (IDLIST_SET_IX i)) (\<lambda>_.
         pk_then (set_pos (pos0 + i * n)) (\<lambda>_.
         rec_type ts (Some d) (dim + 1) None e)))"

definition pack_array ::
  "pack_type_fun \<Rightarrow> CBC \<Rightarrow> TypeSpec \<Rightarrow> Declarator \<Rightarrow> int \<Rightarrow> CtTag option \<Rightarrow> BitfieldInfo option \<Rightarrow> SV \<Rightarrow> unit pk" where
  "pack_array rec_type c ts d dim dimtag bi sv =
     pk_then (pk_check (d_item_size d > 0 \<and> bi = None)) (\<lambda>_.
     pk_then (pk_run (array_dims_of d)) (\<lambda>vs. case sv of
       AVref a \<Rightarrow>
         pk_then (pk_run (dimension_at d dim)) (\<lambda>v.
         let n = element_size d vs (dim + 1) in
         pk_then (pack_count c dimtag dim v (av_len a + 1) n) (\<lambda>s.
         pk_then (idl_do (\<lambda>idl. Inr (IDLIST_PUSH (IDL_IX None) idl))) (\<lambda>_.
         pk_then (pk_get pk_pos) (\<lambda>pos0.
         pk_then (pk_each (pack_element rec_type ts d dim a pos0 n) (map int [0..<nat s])) (\<lambda>_.
         idl_do IDLIST_POP)))))
     | _ \<Rightarrow>
         pk_then (pk_when (SvOK sv) (WARN_idl (\<lambda>name. single_quoted name @ '' should be an array reference''))) (\<lambda>_.
         GROW_BUFFER c (element_size d vs dim))))"

section \<open>Types\<close>

definition warn_reference :: "SV \<Rightarrow> unit pk" where
  "warn_reference sv = pk_when (SvROK sv) (WARN_idl (\<lambda>name. single_quoted name @ '' should be a scalar value''))"

definition pack_untagged ::
  "pack_type_fun \<Rightarrow> pack_struct_fun \<Rightarrow> CBC \<Rightarrow> TypeSpec \<Rightarrow> Declarator option \<Rightarrow> int \<Rightarrow> CtTag option \<Rightarrow> BitfieldInfo option \<Rightarrow> SV \<Rightarrow> unit pk" where
  "pack_untagged rec_type rec_struct c ts decl dim dimtag bi sv =
     (if is_array_at decl dim then pack_array rec_type c ts (the decl) dim dimtag bi sv
      else if is_pointer decl then
        pk_then (pk_check (bi = None)) (\<lambda>_.
        pk_then (warn_reference sv) (\<lambda>_.
        pk_then (hook_call_typespec c ts HOOKID_pack_ptr sv) (\<lambda>sv. pack_pointer c sv)))
      else if has_flag (ts_tflags ts) T_TYPE then
        pk_then (pk_run (pTypedef (cbc_types c) ts)) (\<lambda>(t, d). rec_type t (Some d) 0 bi sv)
      else if has_flag (ts_tflags ts) T_COMPOUND then
        pk_then (pk_check (bi = None)) (\<lambda>_.
        pk_then (pk_run (struct_at (cbc_types c) (ts_ptr ts))) (\<lambda>s.
        if s_declarations s = None then WARN_UNDEF_STRUCT s else rec_struct (ts_ptr ts) sv False))
      else
        pk_then (warn_reference sv) (\<lambda>_.
        if has_flag (ts_tflags ts) T_ENUM then pk_then (pk_run (enum_at (cbc_types c) (ts_ptr ts))) (\<lambda>e. pack_enum c e bi sv)
        else pack_basic c (ts_tflags ts) bi sv))"

definition pack_type_step ::
  "pack_type_fun \<Rightarrow> pack_struct_fun \<Rightarrow> CBC \<Rightarrow> TypeSpec \<Rightarrow> Declarator option \<Rightarrow> int \<Rightarrow> BitfieldInfo option \<Rightarrow> SV \<Rightarrow> unit pk" where
  "pack_type_step rec_type rec_struct c ts decl dim bi sv = pk_then (pk_get pk_order) (\<lambda>old.
     let tags = decl_tags decl dim; dimtag = find_tag tags CBC_TAG_DIMENSION in
     pk_then (call_hook c tags None (decl_name decl) HOOKID_pack sv) (\<lambda>sv.
     case find_tag tags CBC_TAG_FORMAT of
       Some tag \<Rightarrow>
         pk_then (pk_check (bi = None)) (\<lambda>_.
         pk_then (prepare_pack_format c (the decl) dimtag) (\<lambda>(n, flexible). pack_format c tag n flexible sv))
     | None \<Rightarrow>
         pk_then (SET_BYTEORDER tags) (\<lambda>_.
         pk_then (pk_check (\<not> is_bitfield decl \<or> bi \<noteq> None)) (\<lambda>_.
         pk_then (pack_untagged rec_type rec_struct c ts decl dim dimtag bi sv) (\<lambda>_.
         set_order old)))))"

fun pack_type :: "nat \<Rightarrow> CBC \<Rightarrow> TypeSpec \<Rightarrow> Declarator option \<Rightarrow> int \<Rightarrow> BitfieldInfo option \<Rightarrow> SV \<Rightarrow> unit pk"
and pack_struct :: "nat \<Rightarrow> CBC \<Rightarrow> nat option \<Rightarrow> SV \<Rightarrow> bool \<Rightarrow> unit pk" where
  "pack_type 0 c ts decl dim bi sv = pk_fail Out_of_fuel"
| "pack_type (Suc k) c ts decl dim bi sv =
     pack_type_step (\<lambda>ts decl dim bi sv. pack_type k c ts decl dim bi sv) (\<lambda>p sv inlined. pack_struct k c p sv inlined)
       c ts decl dim bi sv"
| "pack_struct 0 c p sv inlined = pk_fail Out_of_fuel"
| "pack_struct (Suc k) c p sv inlined =
     pack_struct_step (\<lambda>ts decl dim bi sv. pack_type k c ts decl dim bi sv) (\<lambda>p sv inlined. pack_struct k c p sv inlined)
       k c p sv inlined"

declare pack_type.simps [simp del] pack_struct.simps [simp del]

section \<open>The interface\<close>

definition pk_create :: PackInfo where
  "pk_create = \<lparr>pk_buffer = (\<lambda>_. 0), pk_pos = 0, pk_length = 0, pk_allocated = 0, pk_idl = [], pk_order = CBO_BIG_ENDIAN,
     pk_parent = None, pk_warnings = []\<rparr>"

definition pk_set_type :: "string \<Rightarrow> PackInfo \<Rightarrow> PackInfo" where
  "pk_set_type name s = s\<lparr>pk_idl := [IDL_ID (Some name)]\<rparr>"

definition pk_set_buffer :: "mem \<Rightarrow> int \<Rightarrow> int \<Rightarrow> PackInfo \<Rightarrow> PackInfo" where
  "pk_set_buffer m len allocated s = s\<lparr>pk_buffer := m, pk_length := len, pk_allocated := allocated\<rparr>"

definition pk_set_buffer_pos :: "int \<Rightarrow> PackInfo \<Rightarrow> PackInfo" where
  "pk_set_buffer_pos p s = s\<lparr>pk_pos := p\<rparr>"

definition pk_pack :: "nat \<Rightarrow> CBC \<Rightarrow> TypeSpec \<Rightarrow> Declarator option \<Rightarrow> int \<Rightarrow> SV \<Rightarrow> unit pk" where
  "pk_pack fuel c ts decl dim sv = pk_then (set_order (lp_byte_order (cbc_layout c))) (\<lambda>_. pack_type fuel c ts decl dim None sv)"

end
