(* ===== verification/Unpack.thy ===== *)
theory Unpack
  imports Pack
begin

text \<open>\<open>unpack\<close> of \<^verbatim>\<open>cbc/pack.c\<close>: reading a Perl value from the buffer along a type.\<close>

section \<open>Compounds\<close>

type_synonym unpack_type_fun = "TypeSpec \<Rightarrow> Declarator option \<Rightarrow> int \<Rightarrow> BitfieldInfo option \<Rightarrow> SV pk"
type_synonym unpack_struct_fun = "nat option \<Rightarrow> HV option \<Rightarrow> (SV option \<times> HV) pk"

fun pk_fold :: "('x \<Rightarrow> 'a \<Rightarrow> 'a pk) \<Rightarrow> 'x list \<Rightarrow> 'a \<Rightarrow> 'a pk" where
  "pk_fold f [] a = pk_return a"
| "pk_fold f (x # xs) a = pk_then (f x a) (pk_fold f xs)"

fun pk_map :: "('x \<Rightarrow> 'y pk) \<Rightarrow> 'x list \<Rightarrow> 'y list pk" where
  "pk_map f [] = pk_return []"
| "pk_map f (x # xs) = pk_then (f x) (\<lambda>y. pk_then (pk_map f xs) (\<lambda>ys. pk_return (y # ys)))"

definition warn_used_twice :: "CBC \<Rightarrow> nat option \<Rightarrow> Struct \<Rightarrow> Declarator \<Rightarrow> unit pk" where
  "warn_used_twice c p s d = (case p of None \<Rightarrow> pk_fail Undefined_behaviour | Some n \<Rightarrow>
     (case defined_in c n of (file, line) \<Rightarrow>
       WARN (''Member '' @ single_quoted (d_identifier d) @ '' used more than once in ''
         @ (if has_flag (s_tflags s) T_UNION then ''union'' else ''struct'')
         @ (if s_identifier s \<noteq> [] then CHR '' '' # s_identifier s else [])
         @ '' defined in '' @ file @ ''('' @ decimal line @ '')'')))"

definition unpack_declarator ::
  "unpack_type_fun \<Rightarrow> CBC \<Rightarrow> nat option \<Rightarrow> Struct \<Rightarrow> int \<Rightarrow> TypeSpec \<Rightarrow> Declarator \<Rightarrow> HV \<Rightarrow> HV pk" where
  "unpack_declarator rec_type c p s pos0 ts d h =
     (if has_key d then
        (if hv_fetch h (member_key d) \<noteq> None then pk_then (warn_used_twice c p s d) (\<lambda>_. pk_return h)
         else
           pk_then (pk_check (d_offset d \<ge> 0)) (\<lambda>_.
           pk_then (set_pos (pos0 + d_offset d)) (\<lambda>_.
           pk_then (bitfield_of d) (\<lambda>bi.
           pk_then (set_parent (Some h)) (\<lambda>_.
           pk_then (rec_type ts (Some d) 0 bi) (\<lambda>sv.
           pk_then (set_parent None) (\<lambda>_.
           pk_return (hv_store h (member_key d) sv))))))))
      else pk_return h)"

definition unpack_declaration ::
  "unpack_type_fun \<Rightarrow> unpack_struct_fun \<Rightarrow> nat \<Rightarrow> CBC \<Rightarrow> nat option \<Rightarrow> Struct \<Rightarrow> int \<Rightarrow> StructDeclaration \<Rightarrow> HV \<Rightarrow> HV pk" where
  "unpack_declaration rec_type rec_struct k c p s pos0 sd h = (case sd_declarators sd of
     Some ds \<Rightarrow> pk_fold (unpack_declarator rec_type c p s pos0 (sd_type sd)) ds h
   | None \<Rightarrow>
       pk_then (pk_run (FOLLOW_AND_CHECK_TSPTR k (cbc_types c) (sd_type sd))) (\<lambda>n.
       pk_then (pk_check (sd_offset sd \<ge> 0)) (\<lambda>_.
       pk_then (set_pos (pos0 + sd_offset sd)) (\<lambda>_.
       pk_then (rec_struct (Some n) (Some h)) (\<lambda>(_, h). pk_return h)))))"

definition unpack_members :: "unpack_type_fun \<Rightarrow> unpack_struct_fun \<Rightarrow> nat \<Rightarrow> CBC \<Rightarrow> nat option \<Rightarrow> Struct \<Rightarrow> HV \<Rightarrow> HV pk" where
  "unpack_members rec_type rec_struct k c p s h = pk_then (pk_get pk_pos) (\<lambda>pos0.
     pk_fold (unpack_declaration rec_type rec_struct k c p s pos0) (struct_declarations s) h)"

text \<open>With a hash the members are added to it and there is no value of its own.\<close>

definition unpack_struct_step ::
  "unpack_type_fun \<Rightarrow> unpack_struct_fun \<Rightarrow> nat \<Rightarrow> CBC \<Rightarrow> nat option \<Rightarrow> HV option \<Rightarrow> (SV option \<times> HV) pk" where
  "unpack_struct_step rec_type rec_struct k c p hash = pk_then (pk_run (struct_at (cbc_types c) p)) (\<lambda>s.
     pk_then (pk_get pk_order) (\<lambda>old. case hash of
       Some h \<Rightarrow>
         pk_then (unpack_members rec_type rec_struct k c p s h) (\<lambda>h.
         pk_then (set_order old) (\<lambda>_. pk_return (None, h)))
     | None \<Rightarrow>
         pk_then (case find_tag (s_tags s) CBC_TAG_FORMAT of
             Some tag \<Rightarrow> unpack_format tag (s_size s) False
           | None \<Rightarrow>
               pk_then (SET_BYTEORDER (s_tags s)) (\<lambda>_.
               pk_then (unpack_members rec_type rec_struct k c p s []) (\<lambda>h.
               pk_then (set_order old) (\<lambda>_. pk_return (HVref h))))) (\<lambda>sv.
         pk_then (call_hook c (s_tags s) (struct_prefix (s_tflags s)) (s_identifier s) HOOKID_unpack sv) (\<lambda>sv.
         pk_return (Some sv, [])))))"

section \<open>Arrays\<close>

text \<open>
  The elements there may be in the rest of the buffer, rounded up, computed as an
  \<open>unsigned long\<close>.
\<close>

definition available :: "int \<Rightarrow> int pk" where
  "available n = pk_get (\<lambda>s. to_long (to_ulong (pk_length s - pk_pos s + (n - 1)) div n))"

definition unpack_count :: "CBC \<Rightarrow> CtTag option \<Rightarrow> int \<Rightarrow> Value \<Rightarrow> int \<Rightarrow> int pk" where
  "unpack_count c dimtag dim v avail = pk_then (case dimtag of
       Some tag \<Rightarrow> pk_then (pk_check (dim = 0)) (\<lambda>_. eval_dimension c tag avail)
     | None \<Rightarrow> if has_flag (v_flags v) V_IS_UNDEF then pk_then (pk_check (dim = 0)) (\<lambda>_. pk_return avail)
         else pk_return (iv v)) (\<lambda>s. pk_return (if s < 0 then 0 else s))"

text \<open>An array is extended to its length first; a slot takes 8 bytes.\<close>

definition av_extend :: "CBC \<Rightarrow> int \<Rightarrow> unit pk" where
  "av_extend c s = (if 8 * s > largest_allocation (cbc_perl c) then pk_fail (Croaked ''Out of memory!'') else pk_return ())"

definition unpack_element :: "unpack_type_fun \<Rightarrow> TypeSpec \<Rightarrow> Declarator \<Rightarrow> int \<Rightarrow> int \<Rightarrow> int \<Rightarrow> int \<Rightarrow> SV pk" where
  "unpack_element rec_type ts d dim pos0 n i = pk_then (set_pos (pos0 + i * n)) (\<lambda>_. rec_type ts (Some d) (dim + 1) None)"

definition unpack_array ::
  "unpack_type_fun \<Rightarrow> CBC \<Rightarrow> TypeSpec \<Rightarrow> Declarator \<Rightarrow> int \<Rightarrow> CtTag option \<Rightarrow> BitfieldInfo option \<Rightarrow> SV pk" where
  "unpack_array rec_type c ts d dim dimtag bi =
     pk_then (pk_run (dimension_at d dim)) (\<lambda>v.
     pk_then (pk_check (d_item_size d > 0 \<and> bi = None)) (\<lambda>_.
     pk_then (pk_run (array_dims_of d)) (\<lambda>vs.
     let n = element_size d vs (dim + 1) in
     if n = 0 then pk_fail Undefined_behaviour else
     pk_then (available n) (\<lambda>avail.
     pk_then (unpack_count c dimtag dim v avail) (\<lambda>s.
     pk_then (av_extend c s) (\<lambda>_.
     pk_then (pk_get pk_pos) (\<lambda>pos0.
     pk_then (pk_map (unpack_element rec_type ts d dim pos0 n) (map int [0..<nat s])) (\<lambda>svs.
     pk_return (AVref (map Some svs))))))))))"

section \<open>Types\<close>

definition unpack_untagged ::
  "unpack_type_fun \<Rightarrow> unpack_struct_fun \<Rightarrow> CBC \<Rightarrow> TypeSpec \<Rightarrow> Declarator option \<Rightarrow> int \<Rightarrow> CtTag option \<Rightarrow> BitfieldInfo option \<Rightarrow> SV pk" where
  "unpack_untagged rec_type rec_struct c ts decl dim dimtag bi =
     (if is_array_at decl dim then unpack_array rec_type c ts (the decl) dim dimtag bi
      else if is_pointer decl then
        pk_then (pk_check (bi = None)) (\<lambda>_. pk_then (unpack_pointer c) (hook_call_typespec c ts HOOKID_unpack_ptr))
      else if has_flag (ts_tflags ts) T_TYPE then
        pk_then (pk_run (pTypedef (cbc_types c) ts)) (\<lambda>(t, d). rec_type t (Some d) 0 bi)
      else if has_flag (ts_tflags ts) T_COMPOUND then
        pk_then (pk_check (bi = None)) (\<lambda>_.
        pk_then (pk_run (struct_at (cbc_types c) (ts_ptr ts))) (\<lambda>s.
        if s_declarations s = None then pk_then (WARN_UNDEF_STRUCT s) (\<lambda>_. pk_return Undef)
        else pk_then (rec_struct (ts_ptr ts) None) (\<lambda>(sv, _). pk_run (or_assert sv))))
      else if has_flag (ts_tflags ts) T_ENUM then
        pk_then (pk_run (enum_at (cbc_types c) (ts_ptr ts))) (\<lambda>e. unpack_enum c e bi)
      else unpack_basic c (ts_tflags ts) bi)"

definition unpack_type_step ::
  "unpack_type_fun \<Rightarrow> unpack_struct_fun \<Rightarrow> CBC \<Rightarrow> TypeSpec \<Rightarrow> Declarator option \<Rightarrow> int \<Rightarrow> BitfieldInfo option \<Rightarrow> SV pk" where
  "unpack_type_step rec_type rec_struct c ts decl dim bi = pk_then (pk_get pk_order) (\<lambda>old.
     let tags = decl_tags decl dim; dimtag = find_tag tags CBC_TAG_DIMENSION in
     pk_then (case find_tag tags CBC_TAG_FORMAT of
         Some tag \<Rightarrow>
           pk_then (pk_check (bi = None)) (\<lambda>_.
           pk_then (prepare_pack_format c (the decl) dimtag) (\<lambda>(n, flexible). unpack_format tag n flexible))
       | None \<Rightarrow>
           pk_then (SET_BYTEORDER tags) (\<lambda>_.
           pk_then (pk_check (\<not> is_bitfield decl \<or> bi \<noteq> None)) (\<lambda>_.
           pk_then (unpack_untagged rec_type rec_struct c ts decl dim dimtag bi) (\<lambda>sv.
           pk_then (set_order old) (\<lambda>_. pk_return sv))))) (\<lambda>sv.
     call_hook c tags None (decl_name decl) HOOKID_unpack sv))"

fun unpack_type :: "nat \<Rightarrow> CBC \<Rightarrow> TypeSpec \<Rightarrow> Declarator option \<Rightarrow> int \<Rightarrow> BitfieldInfo option \<Rightarrow> SV pk"
and unpack_struct :: "nat \<Rightarrow> CBC \<Rightarrow> nat option \<Rightarrow> HV option \<Rightarrow> (SV option \<times> HV) pk" where
  "unpack_type 0 c ts decl dim bi = pk_fail Out_of_fuel"
| "unpack_type (Suc k) c ts decl dim bi =
     unpack_type_step (\<lambda>ts decl dim bi. unpack_type k c ts decl dim bi) (\<lambda>p hash. unpack_struct k c p hash) c ts decl dim bi"
| "unpack_struct 0 c p hash = pk_fail Out_of_fuel"
| "unpack_struct (Suc k) c p hash =
     unpack_struct_step (\<lambda>ts decl dim bi. unpack_type k c ts decl dim bi) (\<lambda>p hash. unpack_struct k c p hash) k c p hash"

declare unpack_type.simps [simp del] unpack_struct.simps [simp del]

definition pk_unpack :: "nat \<Rightarrow> CBC \<Rightarrow> TypeSpec \<Rightarrow> Declarator option \<Rightarrow> int \<Rightarrow> SV pk" where
  "pk_unpack fuel c ts decl dim = pk_then (set_order (lp_byte_order (cbc_layout c))) (\<lambda>_. unpack_type fuel c ts decl dim None)"

end
