(* ===== verification/Pack_Fits.thy ===== *)
theory Pack_Fits
  imports Pack_Bits Unpack Struct_Layout
begin

text \<open>
  When a value fits a type in some number of bytes: arrays of the right length, hashes with
  exactly the members, integers in range. Such a value survives packing and unpacking. Byte
  order tags may be anywhere; hooks, formats and dimension tags may not, nor may flexible
  arrays and unions of several members.
\<close>

section \<open>Tags\<close>

definition plain_tags :: "CtTagList \<Rightarrow> bool" where
  "plain_tags tags \<longleftrightarrow> find_tag tags CBC_TAG_DIMENSION = None \<and> find_tag tags CBC_TAG_FORMAT = None
     \<and> find_tag tags CBC_TAG_HOOKS = None
     \<and> (case find_tag tags CBC_TAG_BYTE_ORDER of None \<Rightarrow> True
        | Some tag \<Rightarrow> tag_flags tag = CBC_TAG_BYTE_ORDER_BIG_ENDIAN \<or> tag_flags tag = CBC_TAG_BYTE_ORDER_LITTLE_ENDIAN)"

definition tagged_order :: "CtTagList \<Rightarrow> CByteOrder \<Rightarrow> CByteOrder" where
  "tagged_order tags old = (case find_tag tags CBC_TAG_BYTE_ORDER of None \<Rightarrow> old
     | Some tag \<Rightarrow> if tag_flags tag = CBC_TAG_BYTE_ORDER_BIG_ENDIAN then CBO_BIG_ENDIAN else CBO_LITTLE_ENDIAN)"

definition no_hooks :: "CBC \<Rightarrow> TypeSpec \<Rightarrow> bool" where
  "no_hooks c ts \<longleftrightarrow>
     (if has_flag (ts_tflags ts) T_TYPE then
        (case typedef_decl (cbc_types c) ts of Inl _ \<Rightarrow> False | Inr d \<Rightarrow> find_tag (d_tags d) CBC_TAG_HOOKS = None)
      else if has_flag (ts_tflags ts) T_COMPOUND then
        (case struct_at (cbc_types c) (ts_ptr ts) of Inl _ \<Rightarrow> False | Inr s \<Rightarrow> find_tag (s_tags s) CBC_TAG_HOOKS = None)
      else if has_flag (ts_tflags ts) T_ENUM then
        (case enum_at (cbc_types c) (ts_ptr ts) of Inl _ \<Rightarrow> False | Inr e \<Rightarrow> find_tag (es_tags e) CBC_TAG_HOOKS = None)
      else True)"

section \<open>Scalars\<close>

definition int_range :: "bool \<Rightarrow> nat \<Rightarrow> int \<Rightarrow> bool" where
  "int_range sign b i \<longleftrightarrow> (if sign then - (2 ^ (b - 1)) \<le> i \<and> i < 2 ^ (b - 1) else 0 \<le> i \<and> i < 2 ^ b)"

definition int_bits :: "int \<Rightarrow> BitfieldInfo option \<Rightarrow> nat" where
  "int_bits sz bi = (case bi of None \<Rightarrow> 8 * nat sz | Some b \<Rightarrow> nat (bf_bits b))"

text \<open>A whole unit, or a bit-field inside one.\<close>

definition unit_ok :: "int \<Rightarrow> BitfieldInfo option \<Rightarrow> bool" where
  "unit_ok sz bi \<longleftrightarrow> sz \<in> {1, 2, 4, 8} \<and> (case bi of None \<Rightarrow> True
     | Some b \<Rightarrow> bf_size b = sz \<and> 0 < bf_bits b \<and> 0 \<le> bf_pos b \<and> bf_bits b + bf_pos b \<le> 8 * sz)"

definition fits_int :: "CBC \<Rightarrow> int \<Rightarrow> bool \<Rightarrow> BitfieldInfo option \<Rightarrow> SV \<Rightarrow> bool" where
  "fits_int c sz sign bi sv \<longleftrightarrow> unit_ok sz bi \<and> (case sv of
       Scalar (Some i) None None \<Rightarrow> int_range sign (int_bits sz bi) i
         \<and> (if sign then SvIV (cbc_perl c) sv else SvUV (cbc_perl c) sv) = word_of_int i
     | _ \<Rightarrow> False)"

definition fits_float :: "CBC \<Rightarrow> int \<Rightarrow> u_32 \<Rightarrow> SV \<Rightarrow> bool" where
  "fits_float c sz flags sv \<longleftrightarrow> 0 < sz \<and> get_fp_type flags \<noteq> FPT_UNKNOWN \<and> ieee_fp c
     \<and> host_fp c sz (get_fp_type flags) \<noteq> FPT_UNKNOWN \<and> (case sv of
       Scalar None (Some x) None \<Rightarrow> SvNV (cbc_perl c) sv = x \<and> length (nv_bytes (cbc_perl c) (nat sz) x) = nat sz
         \<and> bytes_nv (cbc_perl c) (nat sz) (nv_bytes (cbc_perl c) (nat sz) x) = x
     | _ \<Rightarrow> False)"

definition fits_basic :: "CBC \<Rightarrow> u_32 \<Rightarrow> BitfieldInfo option \<Rightarrow> int \<Rightarrow> SV \<Rightarrow> bool" where
  "fits_basic c flags bi n sv = (let (sz, flags) = load_size c flags bi in sz \<le> n \<and>
     (if has_flag flags (T_DOUBLE OR T_FLOAT) then bi = None \<and> fits_float c sz flags sv
      else fits_int c sz (\<not> has_flag flags T_UNSIGNED) bi sv))"

text \<open>Enums are unpacked as integers, with a sign: the upper half of 8 unsigned bytes is lost.\<close>

definition fits_enum :: "CBC \<Rightarrow> EnumSpecifier \<Rightarrow> BitfieldInfo option \<Rightarrow> int \<Rightarrow> SV \<Rightarrow> bool" where
  "fits_enum c e bi n sv \<longleftrightarrow> plain_tags (es_tags e) \<and> enumType c = ET_INTEGER \<and> (case enum_bytes c e bi of Inl _ \<Rightarrow> False
     | Inr sz \<Rightarrow> sz \<le> n \<and> unit_ok sz bi \<and> (case sv of
         Scalar (Some i) None None \<Rightarrow> int_range (has_flag (es_tflags e) T_SIGNED) (int_bits sz bi) i \<and> i < 2 ^ 63
       | _ \<Rightarrow> False))"

section \<open>Arrays and compounds\<close>

definition fits_array :: "(int \<Rightarrow> SV \<Rightarrow> bool) \<Rightarrow> CBC \<Rightarrow> Declarator \<Rightarrow> int \<Rightarrow> int \<Rightarrow> SV \<Rightarrow> bool" where
  "fits_array elem c d dim n sv \<longleftrightarrow> 0 \<le> dim \<and> 0 < d_item_size d \<and> (case (ext_array d, sv) of
       (Some vs, AVref a) \<Rightarrow>
         let v = vs ! nat dim; m = element_size d vs (dim + 1) in
         \<not> has_flag (v_flags v) V_IS_UNDEF \<and> iv v = int (length a) \<and> 0 < m \<and> m * iv v \<le> n
         \<and> 8 * iv v \<le> largest_allocation (cbc_perl c)
         \<and> list_all (\<lambda>e. case e of None \<Rightarrow> False | Some e \<Rightarrow> elem m e) a
     | _ \<Rightarrow> False)"

definition declaration_keys :: "(nat option \<Rightarrow> string list) \<Rightarrow> nat \<Rightarrow> CBC \<Rightarrow> StructDeclaration \<Rightarrow> string list" where
  "declaration_keys keys k c sd = (case sd_declarators sd of
     Some ds \<Rightarrow> map member_key (filter has_key ds)
   | None \<Rightarrow> (case FOLLOW_AND_CHECK_TSPTR k (cbc_types c) (sd_type sd) of Inl _ \<Rightarrow> [] | Inr q \<Rightarrow> keys (Some q)))"

text \<open>The names of the members in order, those of unnamed compounds among them.\<close>

fun struct_keys :: "nat \<Rightarrow> CBC \<Rightarrow> nat option \<Rightarrow> string list" where
  "struct_keys 0 c q = []"
| "struct_keys (Suc k) c q = (case struct_at (cbc_types c) q of Inl _ \<Rightarrow> []
     | Inr s \<Rightarrow> concat (map (declaration_keys (struct_keys k c) k c) (struct_declarations s)))"

declare struct_keys.simps [simp del]

type_synonym fits_type_fun = "TypeSpec \<Rightarrow> Declarator option \<Rightarrow> int \<Rightarrow> BitfieldInfo option \<Rightarrow> int \<Rightarrow> SV \<Rightarrow> bool"
type_synonym fits_struct_fun = "nat option \<Rightarrow> int \<Rightarrow> HV \<Rightarrow> bool"

definition fits_member :: "fits_type_fun \<Rightarrow> TypeSpec \<Rightarrow> int \<Rightarrow> HV \<Rightarrow> Declarator \<Rightarrow> bool" where
  "fits_member rec_type ts n h d \<longleftrightarrow> (has_key d \<longrightarrow> 0 \<le> d_size d \<and> 0 \<le> d_offset d \<and> d_offset d + d_size d \<le> n
     \<and> (bitfield_flag d \<longrightarrow> bf_bits (ext_bitfield d) > 0 \<and> field_in_unit d)
     \<and> (case hv_fetch h (member_key d) of None \<Rightarrow> False
        | Some v \<Rightarrow> rec_type ts (Some d) 0 (if bitfield_flag d then Some (ext_bitfield d) else None) (d_size d) v))"

definition fits_declaration ::
  "fits_type_fun \<Rightarrow> fits_struct_fun \<Rightarrow> nat \<Rightarrow> CBC \<Rightarrow> int \<Rightarrow> HV \<Rightarrow> StructDeclaration \<Rightarrow> bool" where
  "fits_declaration rec_type rec_struct k c n h sd \<longleftrightarrow> (case sd_declarators sd of
     Some ds \<Rightarrow> list_all (fits_member rec_type (sd_type sd) n h) ds
   | None \<Rightarrow> 0 \<le> sd_offset sd \<and> 0 \<le> sd_size sd \<and> (case FOLLOW_AND_CHECK_TSPTR k (cbc_types c) (sd_type sd) of Inl _ \<Rightarrow> False
        | Inr q \<Rightarrow> rec_struct (Some q) (sd_size sd) h))"

definition bit_order :: "CBC \<Rightarrow> BLPropValStr" where
  "bit_order c = (case lp_byte_order (cbc_layout c) of CBO_BIG_ENDIAN \<Rightarrow> BLPV_BIG_ENDIAN | CBO_LITTLE_ENDIAN \<Rightarrow> BLPV_LITTLE_ENDIAN)"

definition fits_struct_step :: "fits_type_fun \<Rightarrow> fits_struct_fun \<Rightarrow> nat \<Rightarrow> CBC \<Rightarrow> nat option \<Rightarrow> int \<Rightarrow> HV \<Rightarrow> bool" where
  "fits_struct_step rec_type rec_struct k c q n h = (case struct_at (cbc_types c) q of Inl _ \<Rightarrow> False
     | Inr s \<Rightarrow> in_order 0 (regions (bit_order c) (struct_declarations s)) (8 * n)
         \<and> list_all (fits_declaration rec_type rec_struct k c n h) (struct_declarations s))"

section \<open>Types\<close>

definition fits_compound :: "fits_struct_fun \<Rightarrow> (nat option \<Rightarrow> string list) \<Rightarrow> CBC \<Rightarrow> nat option \<Rightarrow> int \<Rightarrow> SV \<Rightarrow> bool" where
  "fits_compound rec_struct keys c q n sv = (case (struct_at (cbc_types c) q, sv) of
     (Inr s, HVref h) \<Rightarrow> s_declarations s \<noteq> None \<and> plain_tags (s_tags s) \<and> rec_struct q n h
       \<and> map fst h = keys q \<and> distinct (keys q)
   | _ \<Rightarrow> False)"

definition fits_type_step ::
  "fits_type_fun \<Rightarrow> fits_struct_fun \<Rightarrow> (nat option \<Rightarrow> string list) \<Rightarrow> CBC \<Rightarrow> TypeSpec \<Rightarrow> Declarator option \<Rightarrow> int
     \<Rightarrow> BitfieldInfo option \<Rightarrow> int \<Rightarrow> SV \<Rightarrow> bool" where
  "fits_type_step rec_type rec_struct keys c ts decl dim bi n sv \<longleftrightarrow> 0 \<le> n \<and> plain_tags (decl_tags decl dim)
     \<and> (is_bitfield decl \<longrightarrow> bi \<noteq> None) \<and>
     (if is_array_at decl dim then
        bi = None \<and> fits_array (\<lambda>m e. rec_type ts decl (dim + 1) None m e) c (the decl) dim n sv
      else if is_pointer decl then
        bi = None \<and> no_hooks c ts \<and> pointer_size c \<le> n \<and> fits_int c (pointer_size c) False None sv
      else if has_flag (ts_tflags ts) T_TYPE then (case pTypedef (cbc_types c) ts of Inl _ \<Rightarrow> False
        | Inr (t, d) \<Rightarrow> rec_type t (Some d) 0 bi n sv)
      else if has_flag (ts_tflags ts) T_COMPOUND then bi = None \<and> fits_compound rec_struct keys c (ts_ptr ts) n sv
      else if has_flag (ts_tflags ts) T_ENUM then (case enum_at (cbc_types c) (ts_ptr ts) of Inl _ \<Rightarrow> False
        | Inr e \<Rightarrow> fits_enum c e bi n sv)
      else fits_basic c (ts_tflags ts) bi n sv)"

fun fits_type :: "nat \<Rightarrow> CBC \<Rightarrow> TypeSpec \<Rightarrow> Declarator option \<Rightarrow> int \<Rightarrow> BitfieldInfo option \<Rightarrow> int \<Rightarrow> SV \<Rightarrow> bool"
and fits_struct :: "nat \<Rightarrow> CBC \<Rightarrow> nat option \<Rightarrow> int \<Rightarrow> HV \<Rightarrow> bool" where
  "fits_type 0 c ts decl dim bi n sv = False"
| "fits_type (Suc k) c ts decl dim bi n sv =
     fits_type_step (\<lambda>ts decl dim bi n sv. fits_type k c ts decl dim bi n sv) (\<lambda>q n h. fits_struct k c q n h)
       (struct_keys k c) c ts decl dim bi n sv"
| "fits_struct 0 c q n h = False"
| "fits_struct (Suc k) c q n h =
     fits_struct_step (\<lambda>ts decl dim bi n sv. fits_type k c ts decl dim bi n sv) (\<lambda>q n h. fits_struct k c q n h) k c q n h"

declare fits_type.simps [simp del] fits_struct.simps [simp del]

end
