(* ===== verification/Pack_Leaves.thy ===== *)
theory Pack_Leaves
  imports Pack_Fits
begin

text \<open>
  What it means that packing and unpacking convert a value on an interval of bits, and that
  they do so for integers, floating point numbers, pointers and enums.
\<close>

section \<open>The steps of a conversion\<close>

lemmas pk_defs = pk_then_def pk_return_def pk_get_def pk_update_def pk_run_def pk_fail_def pk_check_def pk_when_def
  set_pos_def set_order_def set_parent_def idl_do_def

lemma pk_then_Inr [simp]: "m s = Inr (x, s') \<Longrightarrow> pk_then m f s = f x s'"
  by (simp add: pk_then_def)

lemma pk_steps [simp]:
  "pk_return x s = Inr (x, s)"
  "pk_get g s = Inr (g s, s)"
  "pk_update u s = Inr ((), u s)"
  "pk_run (Inr y) s = Inr (y, s)"
  "pk_check True s = Inr ((), s)"
  "pk_when True m s = m s"
  "pk_when False m s = Inr ((), s)"
  "set_pos p s = Inr ((), s\<lparr>pk_pos := p\<rparr>)"
  "set_order bo s = Inr ((), s\<lparr>pk_order := bo\<rparr>)"
  "set_parent hv s = Inr ((), s\<lparr>pk_parent := hv\<rparr>)"
  by (simp_all add: pk_defs)

lemma pk_then_return [simp]: "pk_then (pk_return x) f = f x" "pk_then (\<lambda>s. Inr (x, s)) f = f x"
  by (simp_all add: pk_then_def pk_return_def)

lemma pk_then_assoc: "pk_then (pk_then m f) g = pk_then m (\<lambda>x. pk_then (f x) g)"
  by (auto simp: pk_then_def fun_eq_iff and_then_def split: sum.split)

section \<open>States of a kind\<close>

definition like :: "PackInfo \<Rightarrow> PackInfo \<Rightarrow> bool" where
  "like s0 s \<longleftrightarrow> pk_length s = pk_length s0 \<and> pk_allocated s = pk_allocated s0 \<and> pk_order s = pk_order s0
     \<and> pk_warnings s = pk_warnings s0 \<and> pk_idl s = pk_idl s0"

definition reading :: "PackInfo \<Rightarrow> PackInfo \<Rightarrow> bool" where
  "reading s0 s \<longleftrightarrow> pk_length s = pk_length s0 \<and> pk_allocated s = pk_allocated s0 \<and> pk_order s = pk_order s0"

definition good :: "PackInfo \<Rightarrow> bool" where
  "good s \<longleftrightarrow> pk_length s \<le> pk_allocated s \<and> pk_length s < 2 ^ 64 \<and> pk_idl s \<noteq> []"

lemma like_refl [simp]: "like s s"
  by (simp add: like_def)

lemma like_trans: "like a b \<Longrightarrow> like b c \<Longrightarrow> like a c"
  by (simp add: like_def)

lemma like_upd [simp]:
  "like s0 (s\<lparr>pk_pos := p\<rparr>) = like s0 s" "like s0 (s\<lparr>pk_parent := hv\<rparr>) = like s0 s"
  "like s0 (s\<lparr>pk_buffer := m\<rparr>) = like s0 s"
  by (simp_all add: like_def)

lemma reading_upd [simp]:
  "reading s0 (s\<lparr>pk_pos := p\<rparr>) = reading s0 s" "reading s0 (s\<lparr>pk_parent := hv\<rparr>) = reading s0 s"
  "reading s0 (s\<lparr>pk_buffer := m\<rparr>) = reading s0 s"
  by (simp_all add: reading_def)

lemma reading_refl [simp]: "reading s s"
  by (simp add: reading_def)

lemma reading_like: "reading s0 s \<Longrightarrow> like s s' \<Longrightarrow> reading s0 s'"
  by (simp add: reading_def like_def)

text \<open>
  Packing with \<open>P\<close> at \<open>p\<close> changes bits of the interval only, and unpacking with \<open>U\<close> from any
  buffer with the same bits there gives \<open>v\<close>.
\<close>

definition converts ::
  "CByteOrder \<Rightarrow> PackInfo \<Rightarrow> int \<Rightarrow> int \<Rightarrow> int \<Rightarrow> unit pk \<Rightarrow> 'v pk \<Rightarrow> 'v \<Rightarrow> bool" where
  "converts bo s0 p ia ib P U v \<longleftrightarrow> (\<forall>s. like s0 s \<and> pk_pos s = p \<longrightarrow>
     (\<exists>s1. P s = Inr ((), s1) \<and> like s0 s1 \<and> outside bo ia ib (pk_buffer s) (pk_buffer s1) \<and>
       (\<forall>s2. reading s0 s2 \<and> pk_pos s2 = p \<and> agree bo ia ib (pk_buffer s1) (pk_buffer s2) \<longrightarrow>
         (\<exists>s3. U s2 = Inr (v, s3) \<and> like s2 s3 \<and> pk_buffer s3 = pk_buffer s2))))"

lemma convertsI:
  assumes "\<And>s. like s0 s \<Longrightarrow> pk_pos s = p \<Longrightarrow> \<exists>s1. P s = Inr ((), s1) \<and> like s0 s1
      \<and> outside bo ia ib (pk_buffer s) (pk_buffer s1)
      \<and> (\<forall>s2. reading s0 s2 \<and> pk_pos s2 = p \<and> agree bo ia ib (pk_buffer s1) (pk_buffer s2) \<longrightarrow>
         (\<exists>s3. U s2 = Inr (v, s3) \<and> like s2 s3 \<and> pk_buffer s3 = pk_buffer s2))"
  shows "converts bo s0 p ia ib P U v"
  using assms by (simp add: converts_def)

lemma convertsE:
  assumes "converts bo s0 p ia ib P U v" "like s0 s" "pk_pos s = p"
  obtains s1 where "P s = Inr ((), s1)" "like s0 s1" "outside bo ia ib (pk_buffer s) (pk_buffer s1)"
    "\<And>s2. reading s0 s2 \<Longrightarrow> pk_pos s2 = p \<Longrightarrow> agree bo ia ib (pk_buffer s1) (pk_buffer s2) \<Longrightarrow>
      \<exists>s3. U s2 = Inr (v, s3) \<and> like s2 s3 \<and> pk_buffer s3 = pk_buffer s2"
  using assms by (auto simp: converts_def)

lemma converts_wider:
  assumes "converts bo s0 p ia ib P U v" "ia' \<le> ia" "ib \<le> ib'"
  shows "converts bo s0 p ia' ib' P U v"
proof (rule convertsI)
  fix s assume s: "like s0 s" "pk_pos s = p"
  show "\<exists>s1. P s = Inr ((), s1) \<and> like s0 s1 \<and> outside bo ia' ib' (pk_buffer s) (pk_buffer s1)
      \<and> (\<forall>s2. reading s0 s2 \<and> pk_pos s2 = p \<and> agree bo ia' ib' (pk_buffer s1) (pk_buffer s2) \<longrightarrow>
         (\<exists>s3. U s2 = Inr (v, s3) \<and> like s2 s3 \<and> pk_buffer s3 = pk_buffer s2))"
    using assms(2,3) by (rule_tac convertsE [OF assms(1) s]) (blast intro: outside_super agree_sub)
qed

lemma converts_cong:
  assumes "\<And>s. like s0 s \<Longrightarrow> pk_pos s = p \<Longrightarrow> P s = P' s" and "\<And>s. reading s0 s \<Longrightarrow> pk_pos s = p \<Longrightarrow> U s = U' s"
    and "converts bo s0 p ia ib P' U' v"
  shows "converts bo s0 p ia ib P U v"
  using assms by (simp add: converts_def)

text \<open>Both directions set the byte order of the tags first and the old one at the end.\<close>

lemma converts_ordered:
  assumes "converts bo (s0\<lparr>pk_order := ob\<rparr>) p ia ib P U v"
  shows "converts bo s0 p ia ib
    (\<lambda>s. pk_then P (\<lambda>_. set_order (pk_order s0)) (s\<lparr>pk_order := ob\<rparr>))
    (\<lambda>s. pk_then U (\<lambda>v. pk_then (set_order (pk_order s0)) (\<lambda>_. pk_return v)) (s\<lparr>pk_order := ob\<rparr>)) v"
proof (rule convertsI)
  fix s assume s: "like s0 s" "pk_pos s = p"
  have "like (s0\<lparr>pk_order := ob\<rparr>) (s\<lparr>pk_order := ob\<rparr>)" "pk_pos (s\<lparr>pk_order := ob\<rparr>) = p" using s by (simp_all add: like_def)
  from convertsE [OF assms this] obtain s1 where
    s1: "P (s\<lparr>pk_order := ob\<rparr>) = Inr ((), s1)" "like (s0\<lparr>pk_order := ob\<rparr>) s1"
      "outside bo ia ib (pk_buffer s) (pk_buffer s1)"
      "\<And>s2. reading (s0\<lparr>pk_order := ob\<rparr>) s2 \<Longrightarrow> pk_pos s2 = p \<Longrightarrow> agree bo ia ib (pk_buffer s1) (pk_buffer s2) \<Longrightarrow>
      \<exists>s3. U s2 = Inr (v, s3) \<and> like s2 s3 \<and> pk_buffer s3 = pk_buffer s2" by auto
  have "\<exists>s3. pk_then U (\<lambda>v. pk_then (set_order (pk_order s0)) (\<lambda>_. pk_return v)) (s2\<lparr>pk_order := ob\<rparr>) = Inr (v, s3)
      \<and> like s2 s3 \<and> pk_buffer s3 = pk_buffer s2"
    if s2: "reading s0 s2" "pk_pos s2 = p" "agree bo ia ib (pk_buffer s1) (pk_buffer s2)" for s2
  proof -
    have "reading (s0\<lparr>pk_order := ob\<rparr>) (s2\<lparr>pk_order := ob\<rparr>)" using s2(1) by (simp add: reading_def)
    with s1(4) [of "s2\<lparr>pk_order := ob\<rparr>"] s2(2,3) obtain s3 where
      "U (s2\<lparr>pk_order := ob\<rparr>) = Inr (v, s3)" "like (s2\<lparr>pk_order := ob\<rparr>) s3" "pk_buffer s3 = pk_buffer s2" by auto
    with s2(1) show ?thesis by (simp add: like_def reading_def)
  qed
  with s1 show "\<exists>s1. pk_then P (\<lambda>_. set_order (pk_order s0)) (s\<lparr>pk_order := ob\<rparr>) = Inr ((), s1) \<and> like s0 s1
      \<and> outside bo ia ib (pk_buffer s) (pk_buffer s1)
      \<and> (\<forall>s2. reading s0 s2 \<and> pk_pos s2 = p \<and> agree bo ia ib (pk_buffer s1) (pk_buffer s2) \<longrightarrow>
         (\<exists>s3. pk_then U (\<lambda>v. pk_then (set_order (pk_order s0)) (\<lambda>_. pk_return v)) (s2\<lparr>pk_order := ob\<rparr>) = Inr (v, s3)
           \<and> like s2 s3 \<and> pk_buffer s3 = pk_buffer s2))"
    by (intro exI [of _ "s1\<lparr>pk_order := pk_order s0\<rparr>"]) (simp add: like_def)
qed

section \<open>The buffer is large enough\<close>

lemma GROW_BUFFER_enough:
  assumes "like s0 s" "good s0" "0 \<le> pk_pos s" "0 \<le> k" "pk_pos s + k \<le> pk_length s0"
  shows "GROW_BUFFER c k s = Inr ((), s)"
proof -
  have "to_ulong (pk_pos s + k) = pk_pos s + k" using assms by (simp add: to_ulong_def good_def)
  with assms show ?thesis by (simp add: GROW_BUFFER_def like_def)
qed

lemma CHECK_BUFFER_enough: "reading s0 s \<Longrightarrow> pk_pos s + k \<le> pk_length s0 \<Longrightarrow> CHECK_BUFFER k m s = m s"
  by (simp add: CHECK_BUFFER_def reading_def)

lemma in_buffer_enough:
  "good s0 \<Longrightarrow> reading s0 s \<Longrightarrow> 0 \<le> k \<Longrightarrow> 0 \<le> pk_pos s \<Longrightarrow> pk_pos s + k \<le> pk_length s0 \<Longrightarrow> in_buffer k s"
  by (auto simp: in_buffer_def reading_def good_def)

lemma like_reading: "like s0 s \<Longrightarrow> reading s0 s"
  by (simp add: like_def reading_def)

lemma SET_BYTEORDER_plain: "plain_tags tags \<Longrightarrow> SET_BYTEORDER tags s = Inr ((), s\<lparr>pk_order := tagged_order tags (pk_order s)\<rparr>)"
  by (auto simp: plain_tags_def SET_BYTEORDER_def tagged_order_def set_order_def pk_update_def pk_return_def split: option.splits)

lemma call_hook_none: "find_tag tags CBC_TAG_HOOKS = None \<Longrightarrow> call_hook c tags pre ident i sv = pk_return sv"
  by (simp add: call_hook_def)

lemma plain_tags_none:
  "plain_tags tags \<Longrightarrow> find_tag tags CBC_TAG_FORMAT = None" "plain_tags tags \<Longrightarrow> find_tag tags CBC_TAG_HOOKS = None"
  "plain_tags tags \<Longrightarrow> find_tag tags CBC_TAG_DIMENSION = None"
  by (simp_all add: plain_tags_def)

lemma hook_call_typespec_none: "no_hooks c ts \<Longrightarrow> hook_call_typespec c ts i sv s = Inr (sv, s)"
  by (auto simp: no_hooks_def hook_call_typespec_def call_hook_none split: if_splits sum.splits)

section \<open>Integers\<close>

text \<open>The bits a value occupies: all of its bytes, or the bit-field.\<close>

definition span_from :: "CByteOrder \<Rightarrow> int \<Rightarrow> BitfieldInfo option \<Rightarrow> int" where
  "span_from bo p bi = (case bi of None \<Rightarrow> 8 * p
     | Some b \<Rightarrow> 8 * p + (if bo = CBO_BIG_ENDIAN then 8 * bf_size b - bf_pos b - bf_bits b else bf_pos b))"

definition span_to :: "CByteOrder \<Rightarrow> int \<Rightarrow> int \<Rightarrow> BitfieldInfo option \<Rightarrow> int" where
  "span_to bo p n bi = (case bi of None \<Rightarrow> 8 * (p + n) | Some b \<Rightarrow> span_from bo p bi + bf_bits b)"

lemma unit_okD:
  assumes "unit_ok sz bi"
  shows "0 < sz" "sz \<le> 8" "unit_size (nat sz)" "0 < int_bits sz bi" "int_bits sz bi \<le> 64"
  using assms by (auto simp: unit_ok_def int_bits_def split: option.splits)

lemma unit_ok_field:
  assumes "unit_ok sz (Some b)"
  shows "in_unit (nat sz) (nat (bf_bits b)) (nat (bf_pos b))" "bi_bits (Some b) = nat (bf_bits b)" "bi_pos (Some b) = nat (bf_pos b)"
  using assms by (auto simp: unit_ok_def in_unit_def bi_bits_def bi_pos_def)

lemma span_field:
  assumes "unit_ok sz (Some b)" "0 \<le> p"
  shows "span_from bo p (Some b) = field_lo bo (nat sz) (nat (bf_bits b)) (nat (bf_pos b)) (nat p)"
    "span_to bo p n (Some b) = span_from bo p (Some b) + int (nat (bf_bits b))"
  using assms by (auto simp: span_from_def span_to_def field_lo_def unit_ok_def)

text \<open>What reading gives back: the low bits, with the sign.\<close>

definition low_bits :: "bool \<Rightarrow> nat \<Rightarrow> u_64 \<Rightarrow> u_64" where
  "low_bits sign b v = (if sign then signed_take_bit (b - 1) v else take_bit b v)"

lemma store_then_fetch:
  assumes u: "unit_ok sz bi" and p: "0 \<le> p" "sz \<le> n" and val: "int_string val = None" "int_string jval = None"
    and ord: "ob = (case bi of None \<Rightarrow> any | Some _ \<Rightarrow> bo)"
  obtains m' where "store_integer g a (nat sz) (bi_bits bi) (bi_pos bi) ob m (nat p) val = Some m'"
    "outside bo (span_from bo p bi) (span_to bo p n bi) m m'"
    "\<And>m2. agree bo (span_from bo p bi) (span_to bo p n bi) m' m2 \<Longrightarrow>
      fetch_integer a (nat sz) sign (bi_bits bi) (bi_pos bi) ob m2 (nat p) jval
        = Some (jval\<lparr>int_value := low_bits sign (int_bits sz bi) (int_value val), int_sign := sign\<rparr>)"
proof (cases bi)
  case None
  note us = unit_okD [OF u]
  let ?m' = "store_raw a (nat sz) ob m (nat p) (int_value val)"
  have st: "store_integer g a (nat sz) 0 0 ob m (nat p) val = Some ?m'" using val(1) by (simp add: store_integer_def)
  have iv: "8 * int (nat p) = 8 * p" "8 * (int (nat p) + int (nat sz)) \<le> 8 * (p + n)" using p us(1) by auto
  show ?thesis
  proof (rule that [of ?m'])
    show "store_integer g a (nat sz) (bi_bits bi) (bi_pos bi) ob m (nat p) val = Some ?m'"
      using st None by (simp add: bi_bits_def bi_pos_def)
    show "outside bo (span_from bo p bi) (span_to bo p n bi) m ?m'"
      using outside_super [OF store_integer_outside [OF st, of bo]] iv None by (simp add: span_from_def span_to_def)
    fix m2 assume "agree bo (span_from bo p bi) (span_to bo p n bi) ?m' m2"
    then have "agree bo (8 * int (nat p)) (8 * (int (nat p) + int (nat sz))) ?m' m2"
      using iv None by (simp only: span_from_def span_to_def option.case) (erule agree_sub, simp_all)
    from fetch_raw_agree [OF this, of a sign ob "int_value jval"]
    have "fetch_raw a (nat sz) sign ob m2 (nat p) (int_value jval) = low_bits sign (8 * nat sz) (int_value val)"
      by (simp add: whole_value_stored [OF us(3)] low_bits_def)
    then show "fetch_integer a (nat sz) sign (bi_bits bi) (bi_pos bi) ob m2 (nat p) jval
        = Some (jval\<lparr>int_value := low_bits sign (int_bits sz bi) (int_value val), int_sign := sign\<rparr>)"
      using None by (simp add: bi_bits_def bi_pos_def fetch_integer_whole [OF val(2)] int_bits_def)
  qed
next
  case (Some b)
  note us = unit_ok_field [OF u [unfolded Some]]
  note sp = span_field [OF u [unfolded Some] p(1), of bo]
  obtain m' where m': "store_integer g a (nat sz) (bi_bits bi) (bi_pos bi) ob m (nat p) val = Some m'"
    using store_integer_field [OF val(1) us(1)] us(2,3) Some by metis
  have st: "store_integer g a (nat sz) (nat (bf_bits b)) (nat (bf_pos b)) bo m (nat p) val = Some m'"
    using m' us(2,3) Some ord by simp
  show ?thesis
  proof (rule that [OF m'])
    show "outside bo (span_from bo p bi) (span_to bo p n bi) m m'"
      using store_field_outside [OF val(1) us(1) st] sp Some by simp
    fix m2 assume "agree bo (span_from bo p bi) (span_to bo p n bi) m' m2"
    then have ag: "agree bo (field_lo bo (nat sz) (nat (bf_bits b)) (nat (bf_pos b)) (nat p))
        (field_lo bo (nat sz) (nat (bf_bits b)) (nat (bf_pos b)) (nat p) + int (nat (bf_bits b))) m' m2"
      using sp Some by simp
    from field_value_agree [OF us(1) ag, of sign a] field_value_stored [OF val(1) us(1) st, of sign]
    show "fetch_integer a (nat sz) sign (bi_bits bi) (bi_pos bi) ob m2 (nat p) jval
        = Some (jval\<lparr>int_value := low_bits sign (int_bits sz bi) (int_value val), int_sign := sign\<rparr>)"
      using ord Some us(2,3) by (simp add: fetch_integer_field [OF val(2) us(1)] low_bits_def int_bits_def)
  qed
qed

lemma signed_low_bits:
  assumes "0 < b" "b \<le> 64" "int_range True b i"
  shows "sint (low_bits True b (word_of_int i)) = i"
proof -
  have i: "signed_take_bit (b - 1) i = i" using assms by (intro signed_take_bit_int_eq_self) (simp_all add: int_range_def)
  have "sint (signed_take_bit (b - 1) (word_of_int i :: u_64)) = signed_take_bit (b - 1) i"
  proof (rule bit_eqI)
    fix n
    have m: "min (b - 1) (min n 63) = min (b - 1) n" "min (b - 1) n < 64" "min n 63 < 64" using assms(1,2) by auto
    have "bit (sint (signed_take_bit (b - 1) (word_of_int i :: u_64))) n = bit (word_of_int i :: u_64) (min (b - 1) (min n 63))"
      using m(3) by (simp only: bit_sint_iff bit_signed_take_bit_iff) (auto simp: min.commute min_def)
    also have "\<dots> = bit (signed_take_bit (b - 1) i) n" using m by (simp add: bit_word_of_int_iff bit_signed_take_bit_iff)
    finally show "bit (sint (signed_take_bit (b - 1) (word_of_int i :: u_64))) n = bit (signed_take_bit (b - 1) i) n" .
  qed
  with i show ?thesis by (simp add: low_bits_def)
qed

lemma unsigned_low_bits:
  assumes "b \<le> 64" "int_range False b i"
  shows "low_bits False b (word_of_int i) = word_of_int i" "uint (low_bits False b (word_of_int i)) = i"
proof -
  have i: "0 \<le> i" "i < 2 ^ b" using assms(2) by (simp_all add: int_range_def)
  moreover have "(2::int) ^ b \<le> 2 ^ 64" using assms(1) by (intro power_increasing) simp_all
  ultimately have w: "uint (word_of_int i :: u_64) = i" by (simp add: word_of_int_inverse)
  have "uint (take_bit b (word_of_int i :: u_64)) = take_bit b (uint (word_of_int i :: u_64))"
    by (simp add: unsigned_take_bit_eq)
  also have "\<dots> = i" using i by (simp only: w) (rule take_bit_int_eq_self)
  finally have t: "uint (take_bit b (word_of_int i :: u_64)) = i" .
  then show "uint (low_bits False b (word_of_int i)) = i" by (simp add: low_bits_def)
  show "low_bits False b (word_of_int i) = word_of_int i" using t w by (simp add: low_bits_def word_uint_eq_iff)
qed

abbreviation bits_order :: "CBC \<Rightarrow> CByteOrder" where
  "bits_order c \<equiv> lp_byte_order (cbc_layout c)"

lemma converts_integer:
  assumes u: "unit_ok sz bi" and g: "good s0" and p: "0 \<le> p" "sz \<le> n" "p + n \<le> pk_length s0"
    and val: "int_string val = None" "int_string jval = None"
  shows "converts (bits_order c) s0 p (span_from (bits_order c) p bi) (span_to (bits_order c) p n bi)
    (put_integer c sz bi val) (get_integer c sz sign bi jval)
    (jval\<lparr>int_value := low_bits sign (int_bits sz bi) (int_value val), int_sign := sign\<rparr>)"
proof (rule convertsI)
  fix s assume s: "like s0 s" "pk_pos s = p"
  define ob where "ob = (case bi of None \<Rightarrow> pk_order s0 | Some _ \<Rightarrow> bits_order c)"
  have o: "SF_ORDER c bi s = Inr (ob, s)" if "reading s0 s" for s
    using that by (simp add: SF_ORDER_def ob_def reading_def split: option.split)
  have inb: "in_buffer sz s" if "reading s0 s" "pk_pos s = p" for s
    using in_buffer_enough [OF g that(1), of sz] that(2) p unit_okD(1) [OF u] by simp
  from store_then_fetch [OF u p(1,2) val ob_def, where g = "uninitialised c" and a = "cbc_arch c" and m = "pk_buffer s" and sign = sign]
  obtain m' where m': "store_integer (uninitialised c) (cbc_arch c) (nat sz) (bi_bits bi) (bi_pos bi) ob (pk_buffer s) (nat p) val = Some m'"
    "outside (bits_order c) (span_from (bits_order c) p bi) (span_to (bits_order c) p n bi) (pk_buffer s) m'"
    "\<And>m2. agree (bits_order c) (span_from (bits_order c) p bi) (span_to (bits_order c) p n bi) m' m2 \<Longrightarrow>
      fetch_integer (cbc_arch c) (nat sz) sign (bi_bits bi) (bi_pos bi) ob m2 (nat p) jval
        = Some (jval\<lparr>int_value := low_bits sign (int_bits sz bi) (int_value val), int_sign := sign\<rparr>)" by blast
  have "put_integer c sz bi val s = Inr ((), s\<lparr>pk_buffer := m'\<rparr>)"
    using o [OF like_reading [OF s(1)]] inb [OF like_reading [OF s(1)] s(2)] m'(1) s(2)
    by (simp add: put_integer_def or_assert_def)
  moreover have "get_integer c sz sign bi jval s2
      = Inr (jval\<lparr>int_value := low_bits sign (int_bits sz bi) (int_value val), int_sign := sign\<rparr>, s2)"
    if "reading s0 s2" "pk_pos s2 = p"
      "agree (bits_order c) (span_from (bits_order c) p bi) (span_to (bits_order c) p n bi) m' (pk_buffer s2)" for s2
    using o [OF that(1)] inb [OF that(1,2)] m'(3) [OF that(3)] that(2) by (simp add: get_integer_def or_assert_def)
  ultimately show "\<exists>s1. put_integer c sz bi val s = Inr ((), s1) \<and> like s0 s1
      \<and> outside (bits_order c) (span_from (bits_order c) p bi) (span_to (bits_order c) p n bi) (pk_buffer s) (pk_buffer s1)
      \<and> (\<forall>s2. reading s0 s2 \<and> pk_pos s2 = p
          \<and> agree (bits_order c) (span_from (bits_order c) p bi) (span_to (bits_order c) p n bi) (pk_buffer s1) (pk_buffer s2) \<longrightarrow>
         (\<exists>s3. get_integer c sz sign bi jval s2
            = Inr (jval\<lparr>int_value := low_bits sign (int_bits sz bi) (int_value val), int_sign := sign\<rparr>, s3)
            \<and> like s2 s3 \<and> pk_buffer s3 = pk_buffer s2))"
    using m'(2) s(1) by auto
qed

lemma converts_result:
  assumes "converts bo s0 p ia ib P U x"
  shows "converts bo s0 p ia ib P (pk_then U (\<lambda>x. pk_return (f x))) (f x)"
proof (rule convertsI)
  fix s assume "like s0 s" "pk_pos s = p"
  from convertsE [OF assms this] obtain s1 where s1: "P s = Inr ((), s1)" "like s0 s1" "outside bo ia ib (pk_buffer s) (pk_buffer s1)"
    "\<And>s2. reading s0 s2 \<Longrightarrow> pk_pos s2 = p \<Longrightarrow> agree bo ia ib (pk_buffer s1) (pk_buffer s2) \<Longrightarrow>
      \<exists>s3. U s2 = Inr (x, s3) \<and> like s2 s3 \<and> pk_buffer s3 = pk_buffer s2" by blast
  have "\<exists>s3. pk_then U (\<lambda>x. pk_return (f x)) s2 = Inr (f x, s3) \<and> like s2 s3 \<and> pk_buffer s3 = pk_buffer s2"
    if "reading s0 s2" "pk_pos s2 = p" "agree bo ia ib (pk_buffer s1) (pk_buffer s2)" for s2
    using s1(4) [OF that] by fastforce
  with s1(1-3) show "\<exists>s1. P s = Inr ((), s1) \<and> like s0 s1 \<and> outside bo ia ib (pk_buffer s) (pk_buffer s1)
      \<and> (\<forall>s2. reading s0 s2 \<and> pk_pos s2 = p \<and> agree bo ia ib (pk_buffer s1) (pk_buffer s2) \<longrightarrow>
         (\<exists>s3. pk_then U (\<lambda>x. pk_return (f x)) s2 = Inr (f x, s3) \<and> like s2 s3 \<and> pk_buffer s3 = pk_buffer s2))"
    by blast
qed

lemma fits_intD:
  assumes "fits_int c sz sign bi sv"
  obtains i where "sv = newSViv i" "unit_ok sz bi" "int_range sign (int_bits sz bi) i" "integer_string sv = None"
    "(if sign then SvIV (cbc_perl c) sv else SvUV (cbc_perl c) sv) = word_of_int i" "defined_scalar sv"
  using assms by (auto simp: fits_int_def newSViv_def integer_string_def defined_scalar_def SvOK_def SvROK_def
      split: SV.splits option.splits)

lemma converts_int_sv:
  assumes f: "fits_int c sz sign bi sv" and g: "good s0" and p: "0 \<le> p" "sz \<le> n" "p + n \<le> pk_length s0"
  shows "converts (bits_order c) s0 p (span_from (bits_order c) p bi) (span_to (bits_order c) p n bi)
    (store_int_sv c sz sign bi sv) (fetch_int_sv c sz sign bi) sv"
proof -
  from f obtain i where i: "sv = newSViv i" "unit_ok sz bi" "int_range sign (int_bits sz bi) i" "integer_string sv = None"
    "(if sign then SvIV (cbc_perl c) sv else SvUV (cbc_perl c) sv) = word_of_int i" "defined_scalar sv" by (rule fits_intD)
  note ud = unit_okD [OF i(2)]
  let ?v = "\<lparr>int_value = word_of_int i, int_sign = sign, int_string = None\<rparr>"
  let ?j = "\<lparr>int_value = uninitialised c, int_sign = sign, int_string = None\<rparr>"
  have st: "store_int_sv c sz sign bi sv = put_integer c sz bi ?v" using i(4,5) by (simp add: store_int_sv_def)
  have read_back: "(if sign then sint (low_bits sign (int_bits sz bi) (word_of_int i))
      else uint (low_bits sign (int_bits sz bi) (word_of_int i))) = i"
    using i(3) signed_low_bits [OF ud(4,5)] unsigned_low_bits(2) [OF ud(5)] by (cases sign) simp_all
  have ft: "fetch_int_sv c sz sign bi = pk_then (get_integer c sz sign bi ?j) (\<lambda>val. pk_return
      (case int_string val of Some s \<Rightarrow> newSVpv s
       | None \<Rightarrow> newSViv (if sign then sint (int_value val) else uint (int_value val))))"
    using ud(2) by (simp add: fetch_int_sv_def)
  have "int_string ?v = None" "int_string ?j = None" by simp_all
  from converts_result [OF converts_integer [OF i(2) g p this], of c sign
      "\<lambda>val. case int_string val of Some s \<Rightarrow> newSVpv s
       | None \<Rightarrow> newSViv (if sign then sint (int_value val) else uint (int_value val))"]
  show ?thesis using read_back unfolding st ft by (cases sign) (simp_all add: i(1))
qed

end
