(* ===== verification/Pack_Scalars.thy ===== *)
theory Pack_Scalars
  imports Pack_Leaves
begin

text \<open>Bytes, floating point numbers, pointers, basic types and enums are converted.\<close>

section \<open>Bytes and floating point numbers\<close>

lemma read_write_bytes: "read_bytes (write_bytes m p bs) p (length bs) = bs"
  by (rule nth_equalityI) (simp_all add: read_bytes_def write_bytes_def)

lemma converts_bytes:
  assumes g: "good s0" and p: "0 \<le> p" "int (length bs) \<le> n" "p + n \<le> pk_length s0"
  shows "converts bo s0 p (8 * p) (8 * (p + n)) (put_bytes bs) (get_bytes (int (length bs))) bs"
proof (rule convertsI)
  fix s assume s: "like s0 s" "pk_pos s = p"
  let ?m = "write_bytes (pk_buffer s) (nat p) bs"
  have inb: "in_buffer (int (length bs)) s" if "reading s0 s" "pk_pos s = p" for s
    using in_buffer_enough [OF g that(1), of "int (length bs)"] that(2) p by simp
  have P: "put_bytes bs s = Inr ((), s\<lparr>pk_buffer := ?m\<rparr>)"
    using inb [OF like_reading [OF s(1)] s(2)] s(2) by (simp add: put_bytes_def)
  have "outside bo (8 * int (nat p)) (8 * (int (nat p) + int (length bs))) (pk_buffer s) ?m"
    by (rule outside_bytesI) (auto simp: write_bytes_def)
  then have out: "outside bo (8 * p) (8 * (p + n)) (pk_buffer s) ?m"
    by (rule outside_super) (use p in simp_all)
  have U: "get_bytes (int (length bs)) s2 = Inr (bs, s2)"
    if "reading s0 s2" "pk_pos s2 = p" "agree bo (8 * p) (8 * (p + n)) ?m (pk_buffer s2)" for s2
  proof -
    have "agree bo (8 * int (nat p)) (8 * (int (nat p) + int (length bs))) ?m (pk_buffer s2)"
      using that(3) by (rule agree_sub) (use p in simp_all)
    from agree_bytes [OF this] have "read_bytes (pk_buffer s2) (nat p) (length bs) = read_bytes ?m (nat p) (length bs)"
      by (simp add: read_bytes_def)
    then show ?thesis using inb [OF that(1,2)] that(2) by (simp add: get_bytes_def read_write_bytes)
  qed
  show "\<exists>s1. put_bytes bs s = Inr ((), s1) \<and> like s0 s1 \<and> outside bo (8 * p) (8 * (p + n)) (pk_buffer s) (pk_buffer s1)
      \<and> (\<forall>s2. reading s0 s2 \<and> pk_pos s2 = p \<and> agree bo (8 * p) (8 * (p + n)) (pk_buffer s1) (pk_buffer s2) \<longrightarrow>
         (\<exists>s3. get_bytes (int (length bs)) s2 = Inr (bs, s3) \<and> like s2 s3 \<and> pk_buffer s3 = pk_buffer s2))"
    using P out U s(1) by auto
qed

lemma fp_order_twice [simp]: "fp_order c bo (fp_order c bo bs) = bs" "length (fp_order c bo bs) = length bs"
  by (simp_all add: fp_order_def)

lemma fits_floatD:
  assumes "fits_float c sz flags sv"
  obtains x where "sv = newSVnv x" "get_fp_type flags \<noteq> FPT_UNKNOWN" "ieee_fp c" "host_fp c sz (get_fp_type flags) \<noteq> FPT_UNKNOWN"
    "SvNV (cbc_perl c) sv = x" "int (length (nv_bytes (cbc_perl c) (nat sz) x)) = sz"
    "bytes_nv (cbc_perl c) (nat sz) (nv_bytes (cbc_perl c) (nat sz) x) = x" "defined_scalar sv" "0 < sz"
  using assms by (auto simp: fits_float_def newSVnv_def defined_scalar_def SvOK_def SvROK_def split: SV.splits option.splits)

lemma converts_float:
  assumes f: "fits_float c sz flags sv" and g: "good s0" and p: "0 \<le> p" "sz \<le> n" "p + n \<le> pk_length s0"
  shows "converts bo s0 p (8 * p) (8 * (p + n)) (store_float_sv c sz flags sv) (fetch_float_sv c sz flags) sv"
proof -
  from f obtain x where x: "sv = newSVnv x" "get_fp_type flags \<noteq> FPT_UNKNOWN" "ieee_fp c"
    "host_fp c sz (get_fp_type flags) \<noteq> FPT_UNKNOWN"
    "SvNV (cbc_perl c) sv = x" "int (length (nv_bytes (cbc_perl c) (nat sz) x)) = sz"
    "bytes_nv (cbc_perl c) (nat sz) (nv_bytes (cbc_perl c) (nat sz) x) = x" "defined_scalar sv" "0 < sz" by (rule fits_floatD)
  define bs where "bs = fp_order c (pk_order s0) (nv_bytes (cbc_perl c) (nat sz) x)"
  have len: "int (length bs) = sz" using x(6) by (simp add: bs_def)
  have n: "native_only c ob" for ob using x(3) by (simp add: native_only_def)
  have "converts bo s0 p (8 * p) (8 * (p + n)) (put_bytes bs)
      (pk_then (get_bytes (int (length bs))) (\<lambda>bs. pk_return (newSVnv (bytes_nv (cbc_perl c) (nat sz) (fp_order c (pk_order s0) bs)))))
      (newSVnv (bytes_nv (cbc_perl c) (nat sz) (fp_order c (pk_order s0) bs)))"
    by (rule converts_result, rule converts_bytes [OF g]) (use p len in simp_all)
  also have "newSVnv (bytes_nv (cbc_perl c) (nat sz) (fp_order c (pk_order s0) bs)) = sv"
    using x(1,7) by (simp add: bs_def)
  finally have conv: "converts bo s0 p (8 * p) (8 * (p + n)) (put_bytes bs)
      (pk_then (get_bytes (int (length bs))) (\<lambda>bs. pk_return (newSVnv (bytes_nv (cbc_perl c) (nat sz) (fp_order c (pk_order s0) bs))))) sv" .
  have st: "store_float_sv c sz flags sv s = put_bytes bs s" if "like s0 s" for s
    using that x(2,4,5) n by (simp add: store_float_sv_def bs_def like_def)
  have ft: "fetch_float_sv c sz flags s = pk_then (get_bytes (int (length bs)))
      (\<lambda>bs. pk_return (newSVnv (bytes_nv (cbc_perl c) (nat sz) (fp_order c (pk_order s0) bs)))) s" if "reading s0 s" for s
    using that x(2,4) n len by (simp add: fetch_float_sv_def reading_def)
  show ?thesis by (rule converts_cong [OF _ _ conv]) (erule st, erule ft)
qed

section \<open>Basic types and pointers\<close>

lemma converts_grown:
  assumes c1: "converts bo s0 p ia ib P U v" and g: "good s0" and p: "0 \<le> p" "0 \<le> sz" "p + sz \<le> pk_length s0"
  shows "converts bo s0 p ia ib (pk_then (GROW_BUFFER c sz) (\<lambda>_. pk_when True P)) (CHECK_BUFFER sz U) v"
proof (rule converts_cong [OF _ _ c1])
  fix s assume "like s0 s" "pk_pos s = p"
  then show "pk_then (GROW_BUFFER c sz) (\<lambda>_. pk_when True P) s = P s"
    using GROW_BUFFER_enough [OF _ g] p by simp
next
  fix s assume "reading s0 s" "pk_pos s = p"
  then show "CHECK_BUFFER sz U s = U s" using CHECK_BUFFER_enough p by blast
qed

lemma converts_pointer:
  assumes f: "fits_int c (pointer_size c) False None sv" and g: "good s0"
    and p: "0 \<le> p" "pointer_size c \<le> n" "p + n \<le> pk_length s0"
  shows "converts (bits_order c) s0 p (8 * p) (8 * (p + n)) (pack_pointer c sv) (unpack_pointer c) sv"
proof -
  from f have d: "defined_scalar sv" "0 < pointer_size c" by (auto elim: fits_intD dest: unit_okD)
  have "converts (bits_order c) s0 p (8 * p) (8 * (p + n)) (store_int_sv c (pointer_size c) False None sv)
      (fetch_int_sv c (pointer_size c) False None) sv"
    using converts_int_sv [OF f g p] by (simp add: span_from_def span_to_def)
  from converts_grown [OF this g p(1), of "pointer_size c" c] d p show ?thesis
    by (simp add: pack_pointer_def unpack_pointer_def)
qed

lemma converts_basic:
  assumes f: "fits_basic c flags bi n sv" and g: "good s0" and p: "0 \<le> p" "p + n \<le> pk_length s0"
  shows "converts (bits_order c) s0 p (span_from (bits_order c) p bi) (span_to (bits_order c) p n bi)
    (pack_basic c flags bi sv) (unpack_basic c flags bi) sv"
proof -
  obtain sz fl where sz: "load_size c flags bi = (sz, fl)" by fastforce
  show ?thesis
  proof (cases "has_flag fl (T_DOUBLE OR T_FLOAT)")
    case True
    with f sz have f': "sz \<le> n" "bi = None" "fits_float c sz fl sv" by (auto simp: fits_basic_def)
    from f'(3) have d: "defined_scalar sv" "0 < sz" by (auto elim: fits_floatD)
    have or: "has_flag fl (T_FLOAT OR T_DOUBLE)" using True by (simp add: or.commute)
    have "converts (bits_order c) s0 p (8 * p) (8 * (p + n)) (store_float_sv c sz fl sv) (fetch_float_sv c sz fl) sv"
      by (rule converts_float [OF f'(3) g p(1) f'(1) p(2)])
    then have "converts (bits_order c) s0 p (8 * p) (8 * (p + n)) (pk_then (pk_check True) (\<lambda>_. store_float_sv c sz fl sv))
        (pk_then (pk_check True) (\<lambda>_. fetch_float_sv c sz fl)) sv" by (rule converts_cong [rotated 2]) simp_all
    from converts_grown [OF this g p(1), of sz c] d p f' or True sz show ?thesis
      by (simp add: pack_basic_def unpack_basic_def span_from_def span_to_def)
  next
    case False
    with f sz have f': "sz \<le> n" "fits_int c sz (\<not> has_flag fl T_UNSIGNED) bi sv" by (auto simp: fits_basic_def)
    from f'(2) have d: "defined_scalar sv" "0 < sz" by (auto elim: fits_intD dest: unit_okD)
    have or: "\<not> has_flag fl (T_FLOAT OR T_DOUBLE)" using False by (simp add: or.commute)
    from converts_grown [OF converts_int_sv [OF f'(2) g p(1) f'(1) p(2)] g p(1), of sz c] d p f' or False sz show ?thesis
      by (simp add: pack_basic_def unpack_basic_def)
  qed
qed

section \<open>Enums\<close>

lemma enum_low_bits:
  assumes "0 < b" "b \<le> 64" "int_range sign b i" "i < 2 ^ 63"
  shows "sint (low_bits sign b (word_of_int i)) = i"
proof (cases sign)
  case True
  with assms signed_low_bits show ?thesis by simp
next
  case False
  with assms(3) have i: "0 \<le> i" by (simp add: int_range_def)
  have "sint (word_of_int i :: u_64) = signed_take_bit 63 i" by (simp add: sint_sbintrunc')
  also have "\<dots> = i" using i assms(4) by (intro signed_take_bit_int_eq_self) simp_all
  finally show ?thesis using False assms(2,3) by (simp add: unsigned_low_bits(1))
qed

lemma converts_enum:
  assumes f: "fits_enum c e bi n sv" and g: "good s0" and p: "0 \<le> p" "p + n \<le> pk_length s0"
  shows "converts (bits_order c) s0 p (span_from (bits_order c) p bi) (span_to (bits_order c) p n bi)
    (pack_enum c e bi sv) (unpack_enum c e bi) sv"
proof -
  from f obtain sz i where f: "enum_bytes c e bi = Inr sz" "sz \<le> n" "unit_ok sz bi" "sv = newSViv i"
      "int_range (has_flag (es_tflags e) T_SIGNED) (int_bits sz bi) i" "i < 2 ^ 63" "plain_tags (es_tags e)" "enumType c = ET_INTEGER"
    by (auto simp: fits_enum_def newSViv_def split: sum.splits SV.splits option.splits)
  note ud = unit_okD [OF f(3)]
  note tags = plain_tags_none [OF f(7)]
  let ?sign = "has_flag (es_tflags e) T_SIGNED"
  let ?v = "\<lparr>int_value = word_of_int i, int_sign = sint (word_of_int i :: u_64) < 0, int_string = None\<rparr>"
  let ?j = "\<lparr>int_value = uninitialised c, int_sign = ?sign, int_string = None\<rparr>"
  let ?s0 = "s0\<lparr>pk_order := tagged_order (es_tags e) (pk_order s0)\<rparr>"
  let ?U = "pk_then (get_integer c sz ?sign bi ?j) (\<lambda>val. pk_return (newSViv (sint (int_value val))))"
  have g': "good ?s0" "p + n \<le> pk_length ?s0" using g p by (simp_all add: good_def)
  have d: "defined_scalar sv" "enum_value c sv = pk_return (word_of_int i)"
    by (simp_all add: f(4) defined_scalar_def newSViv_def SvOK_def SvROK_def enum_value_def)
  have "converts (bits_order c) ?s0 p (span_from (bits_order c) p bi) (span_to (bits_order c) p n bi)
      (put_integer c sz bi ?v) ?U sv"
    using converts_result [OF converts_integer [OF f(3) g'(1) p(1) f(2) g'(2), of ?v ?j c ?sign], of "\<lambda>val. newSViv (sint (int_value val))"]
      enum_low_bits [OF ud(4,5) f(5,6)] f(4) by simp
  from converts_ordered [OF converts_grown [OF this g'(1) p(1), of sz c, simplified]] ud p f(2)
  have "converts (bits_order c) s0 p (span_from (bits_order c) p bi) (span_to (bits_order c) p n bi)
      (\<lambda>s. pk_then (pk_then (GROW_BUFFER c sz) (\<lambda>_. pk_when True (put_integer c sz bi ?v)))
         (\<lambda>_. set_order (pk_order s0)) (s\<lparr>pk_order := tagged_order (es_tags e) (pk_order s0)\<rparr>))
      (\<lambda>s. pk_then (CHECK_BUFFER sz ?U) (\<lambda>v. pk_then (set_order (pk_order s0)) (\<lambda>_. pk_return v))
         (s\<lparr>pk_order := tagged_order (es_tags e) (pk_order s0)\<rparr>)) sv"
    by simp
  then show ?thesis
  proof (rule converts_cong [rotated 2])
    fix s assume s: "like s0 s" "pk_pos s = p"
    then have "pk_order s = pk_order s0" by (simp add: like_def)
    then show "pack_enum c e bi sv s = pk_then (pk_then (GROW_BUFFER c sz) (\<lambda>_. pk_when True (put_integer c sz bi ?v)))
         (\<lambda>_. set_order (pk_order s0)) (s\<lparr>pk_order := tagged_order (es_tags e) (pk_order s0)\<rparr>)"
      using d f(1) tags by (simp add: pack_enum_def call_hook_none SET_BYTEORDER_plain [OF f(7)] pk_then_assoc)
  next
    fix s assume s: "reading s0 s" "pk_pos s = p"
    then have o: "pk_order s = pk_order s0" "CHECK_BUFFER sz m (s\<lparr>pk_order := ob\<rparr>) = m (s\<lparr>pk_order := ob\<rparr>)" for m ob
      using p f(2) by (simp_all add: reading_def CHECK_BUFFER_def)
    then show "unpack_enum c e bi s = pk_then (CHECK_BUFFER sz ?U) (\<lambda>v. pk_then (set_order (pk_order s0)) (\<lambda>_. pk_return v))
         (s\<lparr>pk_order := tagged_order (es_tags e) (pk_order s0)\<rparr>)"
      using f(1,8) tags
      by (simp add: unpack_enum_def unpack_enum_value_def call_hook_none SET_BYTEORDER_plain [OF f(7)] pk_then_assoc enum_sv_def
          pk_then_def [of "CHECK_BUFFER sz _"]) (auto simp: pk_then_def and_then_def split: sum.splits)
  qed
qed

end
