(* ===== verification/Pack_Compounds.thy ===== *)
theory Pack_Compounds
  imports Pack_Scalars
begin

text \<open>
  Sequences of members and elements: each is converted on its own interval of bits, one behind
  the other, so that all are converted.
\<close>

section \<open>Inside a compound or an array\<close>

text \<open>The path of names has one entry more than outside.\<close>

definition inside :: "PackInfo \<Rightarrow> PackInfo \<Rightarrow> bool" where
  "inside s0 s \<longleftrightarrow> (\<exists>e. like (s0\<lparr>pk_idl := pk_idl s0 @ [e]\<rparr>) s)"

definition gives :: "CByteOrder \<Rightarrow> PackInfo \<Rightarrow> int \<Rightarrow> int \<Rightarrow> unit pk \<Rightarrow> 'v pk \<Rightarrow> 'v \<Rightarrow> bool" where
  "gives bo s0 ia ib P U v \<longleftrightarrow> (\<forall>s. inside s0 s \<longrightarrow>
     (\<exists>s1. P s = Inr ((), s1) \<and> inside s0 s1 \<and> outside bo ia ib (pk_buffer s) (pk_buffer s1) \<and>
       (\<forall>s2. reading s0 s2 \<and> agree bo ia ib (pk_buffer s1) (pk_buffer s2) \<longrightarrow>
         (\<exists>s3. U s2 = Inr (v, s3) \<and> like s2 s3 \<and> pk_buffer s3 = pk_buffer s2))))"

lemma givesE:
  assumes "gives bo s0 ia ib P U v" "inside s0 s"
  obtains s1 where "P s = Inr ((), s1)" "inside s0 s1" "outside bo ia ib (pk_buffer s) (pk_buffer s1)"
    "\<And>s2. reading s0 s2 \<Longrightarrow> agree bo ia ib (pk_buffer s1) (pk_buffer s2) \<Longrightarrow>
      \<exists>s3. U s2 = Inr (v, s3) \<and> like s2 s3 \<and> pk_buffer s3 = pk_buffer s2"
  using assms unfolding gives_def by blast

lemma givesI:
  assumes "\<And>s. inside s0 s \<Longrightarrow> \<exists>s1. P s = Inr ((), s1) \<and> inside s0 s1 \<and> outside bo ia ib (pk_buffer s) (pk_buffer s1) \<and>
       (\<forall>s2. reading s0 s2 \<and> agree bo ia ib (pk_buffer s1) (pk_buffer s2) \<longrightarrow>
         (\<exists>s3. U s2 = Inr (v, s3) \<and> like s2 s3 \<and> pk_buffer s3 = pk_buffer s2))"
  shows "gives bo s0 ia ib P U v"
  using assms unfolding gives_def by blast

lemma gives_nothing: "gives bo s0 ia ib (pk_return ()) (pk_return v) v"
  by (rule givesI) auto

lemma gives_then:
  assumes a: "gives bo s0 ia im P U v" and b: "gives bo s0 im ib P' (U' v) v'" and le: "ia \<le> im" "im \<le> ib"
  shows "gives bo s0 ia ib (pk_then P (\<lambda>_. P')) (pk_then U U') v'"
proof (rule givesI)
  fix s assume "inside s0 s"
  from givesE [OF a this] obtain s1 where s1: "P s = Inr ((), s1)" "inside s0 s1" "outside bo ia im (pk_buffer s) (pk_buffer s1)"
    "\<And>s2. reading s0 s2 \<Longrightarrow> agree bo ia im (pk_buffer s1) (pk_buffer s2) \<Longrightarrow>
      \<exists>s3. U s2 = Inr (v, s3) \<and> like s2 s3 \<and> pk_buffer s3 = pk_buffer s2" by blast
  from givesE [OF b s1(2)] obtain t1 where t1: "P' s1 = Inr ((), t1)" "inside s0 t1" "outside bo im ib (pk_buffer s1) (pk_buffer t1)"
    "\<And>s2. reading s0 s2 \<Longrightarrow> agree bo im ib (pk_buffer t1) (pk_buffer s2) \<Longrightarrow>
      \<exists>s3. U' v s2 = Inr (v', s3) \<and> like s2 s3 \<and> pk_buffer s3 = pk_buffer s2" by blast
  have out: "outside bo ia ib (pk_buffer s) (pk_buffer t1)"
    using outside_trans [OF outside_super [OF s1(3) order_refl le(2)] outside_super [OF t1(3) le(1) order_refl]] .
  have both: "\<exists>s3. pk_then U U' s2 = Inr (v', s3) \<and> like s2 s3 \<and> pk_buffer s3 = pk_buffer s2"
    if s2: "reading s0 s2" "agree bo ia ib (pk_buffer t1) (pk_buffer s2)" for s2
  proof -
    have "agree bo ia im (pk_buffer s1) (pk_buffer s2)"
      using agree_trans [OF outside_agree [OF t1(3), of im ia] agree_sub [OF s2(2)]] le by simp
    from s1(4) [OF s2(1) this] obtain s3 where s3: "U s2 = Inr (v, s3)" "like s2 s3" "pk_buffer s3 = pk_buffer s2" by blast
    have "agree bo im ib (pk_buffer t1) (pk_buffer s3)" using agree_sub [OF s2(2) le(1) order_refl] s3(3) by simp
    from t1(4) [OF reading_like [OF s2(1) s3(2)] this] s3 show ?thesis by (auto intro: like_trans)
  qed
  show "\<exists>s1. pk_then P (\<lambda>_. P') s = Inr ((), s1) \<and> inside s0 s1 \<and> outside bo ia ib (pk_buffer s) (pk_buffer s1) \<and>
       (\<forall>s2. reading s0 s2 \<and> agree bo ia ib (pk_buffer s1) (pk_buffer s2) \<longrightarrow>
         (\<exists>s3. pk_then U U' s2 = Inr (v', s3) \<and> like s2 s3 \<and> pk_buffer s3 = pk_buffer s2))"
    using s1(1) t1(1,2) out both by auto
qed

lemma gives_wider:
  assumes "gives bo s0 ia ib P U v" "ia' \<le> ia" "ib \<le> ib'"
  shows "gives bo s0 ia' ib' P U v"
proof (rule givesI)
  fix s assume "inside s0 s"
  from givesE [OF assms(1) this] obtain s1 where "P s = Inr ((), s1)" "inside s0 s1" "outside bo ia ib (pk_buffer s) (pk_buffer s1)"
    "\<And>s2. reading s0 s2 \<Longrightarrow> agree bo ia ib (pk_buffer s1) (pk_buffer s2) \<Longrightarrow>
      \<exists>s3. U s2 = Inr (v, s3) \<and> like s2 s3 \<and> pk_buffer s3 = pk_buffer s2" by blast
  then show "\<exists>s1. P s = Inr ((), s1) \<and> inside s0 s1 \<and> outside bo ia' ib' (pk_buffer s) (pk_buffer s1) \<and>
       (\<forall>s2. reading s0 s2 \<and> agree bo ia' ib' (pk_buffer s1) (pk_buffer s2) \<longrightarrow>
         (\<exists>s3. U s2 = Inr (v, s3) \<and> like s2 s3 \<and> pk_buffer s3 = pk_buffer s2))"
    using outside_super [OF _ assms(2,3)] agree_sub [OF _ assms(2,3)] by blast
qed

lemma gives_result:
  assumes "gives bo s0 ia ib P U x"
  shows "gives bo s0 ia ib P (pk_then U (\<lambda>x. pk_return (f x))) (f x)"
proof (rule givesI)
  fix s assume "inside s0 s"
  from givesE [OF assms this] obtain s1 where s1: "P s = Inr ((), s1)" "inside s0 s1" "outside bo ia ib (pk_buffer s) (pk_buffer s1)"
    "\<And>s2. reading s0 s2 \<Longrightarrow> agree bo ia ib (pk_buffer s1) (pk_buffer s2) \<Longrightarrow>
      \<exists>s3. U s2 = Inr (x, s3) \<and> like s2 s3 \<and> pk_buffer s3 = pk_buffer s2" by blast
  have "\<exists>s3. pk_then U (\<lambda>x. pk_return (f x)) s2 = Inr (f x, s3) \<and> like s2 s3 \<and> pk_buffer s3 = pk_buffer s2"
    if "reading s0 s2" "agree bo ia ib (pk_buffer s1) (pk_buffer s2)" for s2
    using s1(4) [OF that] by fastforce
  with s1(1-3) show "\<exists>s1. P s = Inr ((), s1) \<and> inside s0 s1 \<and> outside bo ia ib (pk_buffer s) (pk_buffer s1) \<and>
       (\<forall>s2. reading s0 s2 \<and> agree bo ia ib (pk_buffer s1) (pk_buffer s2) \<longrightarrow>
         (\<exists>s3. pk_then U (\<lambda>x. pk_return (f x)) s2 = Inr (f x, s3) \<and> like s2 s3 \<and> pk_buffer s3 = pk_buffer s2))"
    by blast
qed

text \<open>A member or element: the path and the position are set, then its type does the work.\<close>

lemma gives_from:
  assumes P': "\<And>s. inside s0 s \<Longrightarrow> \<exists>s' K. P' s = and_then (P s') (\<lambda>(_, t). Inr ((), f t)) \<and> like (s0\<lparr>pk_idl := K\<rparr>) s'
      \<and> pk_pos s' = q \<and> pk_buffer s' = pk_buffer s \<and> converts bo (s0\<lparr>pk_idl := K\<rparr>) q ia ib P U v
      \<and> (\<forall>t. like (s0\<lparr>pk_idl := K\<rparr>) t \<longrightarrow> inside s0 (f t))"
    and U': "\<And>s. reading s0 s \<Longrightarrow> \<exists>s'. U' s = and_then (U s') (\<lambda>(v, t). Inr (r v, g t)) \<and> like s s'
      \<and> pk_pos s' = q \<and> pk_buffer s' = pk_buffer s"
    and fg: "\<And>t. pk_buffer (f t) = pk_buffer t" "\<And>t. pk_buffer (g t) = pk_buffer t" "\<And>t. like t (g t)"
  shows "gives bo s0 ia ib P' U' (r v)"
proof (rule givesI)
  fix s assume s: "inside s0 s"
  from P' [OF s] obtain s' K where s': "P' s = and_then (P s') (\<lambda>(_, t). Inr ((), f t))" "like (s0\<lparr>pk_idl := K\<rparr>) s'"
    "pk_pos s' = q" "pk_buffer s' = pk_buffer s" "converts bo (s0\<lparr>pk_idl := K\<rparr>) q ia ib P U v"
    "\<forall>t. like (s0\<lparr>pk_idl := K\<rparr>) t \<longrightarrow> inside s0 (f t)" by blast
  from convertsE [OF s'(5,2,3)] obtain s1 where s1: "P s' = Inr ((), s1)" "like (s0\<lparr>pk_idl := K\<rparr>) s1"
    "outside bo ia ib (pk_buffer s') (pk_buffer s1)"
    "\<And>s2. reading (s0\<lparr>pk_idl := K\<rparr>) s2 \<Longrightarrow> pk_pos s2 = q \<Longrightarrow> agree bo ia ib (pk_buffer s1) (pk_buffer s2) \<Longrightarrow>
      \<exists>s3. U s2 = Inr (v, s3) \<and> like s2 s3 \<and> pk_buffer s3 = pk_buffer s2" by blast
  have "\<exists>s3. U' s2 = Inr (r v, s3) \<and> like s2 s3 \<and> pk_buffer s3 = pk_buffer s2"
    if s2: "reading s0 s2" "agree bo ia ib (pk_buffer s1) (pk_buffer s2)" for s2
  proof -
    from U' [OF s2(1)] obtain s2' where s2': "U' s2 = and_then (U s2') (\<lambda>(v, t). Inr (r v, g t))" "like s2 s2'"
      "pk_pos s2' = q" "pk_buffer s2' = pk_buffer s2" by blast
    have "reading (s0\<lparr>pk_idl := K\<rparr>) s2'" using reading_like [OF s2(1) s2'(2)] by (simp add: reading_def)
    from s1(4) [OF this s2'(3)] s2(2) s2'(4) obtain s3 where "U s2' = Inr (v, s3)" "like s2' s3" "pk_buffer s3 = pk_buffer s2'"
      by auto
    with s2' fg show ?thesis by (auto intro: like_trans)
  qed
  with s1 s' fg(1) show "\<exists>s1. P' s = Inr ((), s1) \<and> inside s0 s1 \<and> outside bo ia ib (pk_buffer s) (pk_buffer s1) \<and>
       (\<forall>s2. reading s0 s2 \<and> agree bo ia ib (pk_buffer s1) (pk_buffer s2) \<longrightarrow>
         (\<exists>s3. U' s2 = Inr (r v, s3) \<and> like s2 s3 \<and> pk_buffer s3 = pk_buffer s2))"
    by auto
qed

text \<open>Around all members or elements an entry is pushed on the path and removed again.\<close>

definition push_entry :: "IDList_list \<Rightarrow> unit pk" where
  "push_entry e = idl_do (\<lambda>idl. Inr (IDLIST_PUSH e idl))"

lemma push_entry_run [simp]: "push_entry e s = Inr ((), s\<lparr>pk_idl := pk_idl s @ [e]\<rparr>)"
  by (simp add: push_entry_def idl_do_def IDLIST_PUSH_def)

lemma pop_entry: "inside s0 s \<Longrightarrow> idl_do IDLIST_POP s = Inr ((), s\<lparr>pk_idl := pk_idl s0\<rparr>)"
  by (auto simp: inside_def like_def idl_do_def IDLIST_POP_def)

lemma set_entry:
  "inside s0 s \<Longrightarrow> idl_do (IDLIST_SET_IX i) s = Inr ((), s\<lparr>pk_idl := pk_idl s0 @ [IDL_IX (Some i)]\<rparr>)"
  "inside s0 s \<Longrightarrow> idl_do (IDLIST_SET_ID n) s = Inr ((), s\<lparr>pk_idl := pk_idl s0 @ [IDL_ID (Some n)]\<rparr>)"
  by (auto simp: inside_def like_def idl_do_def IDLIST_SET_IX_def IDLIST_SET_ID_def)

lemma like_inside: "like s0 s \<Longrightarrow> inside s0 (s\<lparr>pk_idl := pk_idl s0 @ [e]\<rparr>)"
  by (auto simp: inside_def like_def)

lemma inside_like: "inside s0 s \<Longrightarrow> like (s0\<lparr>pk_idl := K\<rparr>) (s\<lparr>pk_idl := K\<rparr>)"
  by (auto simp: inside_def like_def)

lemma converts_inside:
  assumes "gives bo s0 ia ib P U v"
  shows "converts bo s0 p ia ib (pk_then (push_entry e) (\<lambda>_. pk_then P (\<lambda>_. idl_do IDLIST_POP))) U v"
proof (rule convertsI)
  fix s assume s: "like s0 s" "pk_pos s = p"
  then have i: "pk_idl s = pk_idl s0" by (simp add: like_def)
  from givesE [OF assms like_inside [OF s(1), of e]] obtain s1 where
    s1: "P (s\<lparr>pk_idl := pk_idl s0 @ [e]\<rparr>) = Inr ((), s1)" "inside s0 s1" "outside bo ia ib (pk_buffer s) (pk_buffer s1)"
    "\<And>s2. reading s0 s2 \<Longrightarrow> agree bo ia ib (pk_buffer s1) (pk_buffer s2) \<Longrightarrow>
      \<exists>s3. U s2 = Inr (v, s3) \<and> like s2 s3 \<and> pk_buffer s3 = pk_buffer s2" by auto
  from inside_like [OF s1(2), of "pk_idl s0"] have "like s0 (s1\<lparr>pk_idl := pk_idl s0\<rparr>)" by simp
  with i s1 show "\<exists>s1. pk_then (push_entry e) (\<lambda>_. pk_then P (\<lambda>_. idl_do IDLIST_POP)) s = Inr ((), s1) \<and> like s0 s1
      \<and> outside bo ia ib (pk_buffer s) (pk_buffer s1)
      \<and> (\<forall>s2. reading s0 s2 \<and> pk_pos s2 = p \<and> agree bo ia ib (pk_buffer s1) (pk_buffer s2) \<longrightarrow>
         (\<exists>s3. U s2 = Inr (v, s3) \<and> like s2 s3 \<and> pk_buffer s3 = pk_buffer s2))"
    by (intro exI [of _ "s1\<lparr>pk_idl := pk_idl s0\<rparr>"]) (simp add: pop_entry)
qed

lemma and_then_self [simp]: "and_then r (\<lambda>(_, t). Inr ((), t)) = r" "and_then r' (\<lambda>(v, t). Inr (v, t)) = r'" "and_then r' Inr = r'"
  by (auto simp: and_then_def split: sum.split)

end
