(* ===== verification/Pack_Roundtrip.thy ===== *)
theory Pack_Roundtrip
  imports Pack_Compounds
begin

text \<open>
  Arrays, compounds and types convert the values that fit them, by induction over the fuel.
\<close>

section \<open>Arrays\<close>

lemma reading_at [simp]:
  "reading (s0\<lparr>pk_idl := K\<rparr>) = reading s0" "good (s0\<lparr>pk_idl := pk_idl s0 @ [e]\<rparr>) = (pk_length s0 \<le> pk_allocated s0 \<and> pk_length s0 < 2 ^ 64)"
  by (simp_all add: reading_def good_def fun_eq_iff)

lemma gives_element:
  assumes conv: "\<And>x. converts bo (s0\<lparr>pk_idl := pk_idl s0 @ [x]\<rparr>) (p + i * m) ia ib (rec_p ts (Some d) (dim + 1) None e)
      (rec_u ts (Some d) (dim + 1) None) e"
    and a: "av_fetch a i = Some e"
  shows "gives bo s0 ia ib (pack_element rec_p ts d dim a p m i) (unpack_element rec_u ts d dim p m i) e"
proof (rule gives_from [where f = "\<lambda>t. t" and g = "\<lambda>t. t" and r = "\<lambda>v. v" and q = "p + i * m"])
  fix s assume s: "inside s0 s"
  let ?s = "s\<lparr>pk_idl := pk_idl s0 @ [IDL_IX (Some i)], pk_pos := p + i * m\<rparr>"
  show "\<exists>s' K. pack_element rec_p ts d dim a p m i s = and_then (rec_p ts (Some d) (dim + 1) None e s') (\<lambda>(_, t). Inr ((), t))
      \<and> like (s0\<lparr>pk_idl := K\<rparr>) s' \<and> pk_pos s' = p + i * m \<and> pk_buffer s' = pk_buffer s
      \<and> converts bo (s0\<lparr>pk_idl := K\<rparr>) (p + i * m) ia ib (rec_p ts (Some d) (dim + 1) None e) (rec_u ts (Some d) (dim + 1) None) e
      \<and> (\<forall>t. like (s0\<lparr>pk_idl := K\<rparr>) t \<longrightarrow> inside s0 t)"
    using a conv inside_like [OF s] s
    by (intro exI [of _ ?s] exI [of _ "pk_idl s0 @ [IDL_IX (Some i)]"]) (auto simp: pack_element_def set_entry inside_def)
next
  fix s assume s: "reading s0 s"
  show "\<exists>s'. unpack_element rec_u ts d dim p m i s = and_then (rec_u ts (Some d) (dim + 1) None s') (\<lambda>(v, t). Inr (v, t)) \<and> like s s'
      \<and> pk_pos s' = p + i * m \<and> pk_buffer s' = pk_buffer s"
    by (intro exI [of _ "s\<lparr>pk_pos := p + i * m\<rparr>"]) (simp add: unpack_element_def)
qed simp_all

lemma gives_elements:
  assumes "\<And>i. i0 \<le> i \<Longrightarrow> i < i0 + length es \<Longrightarrow> av_fetch a (int i) = Some (es ! (i - i0))"
    and "\<And>i e x. i0 \<le> i \<Longrightarrow> i < i0 + length es \<Longrightarrow> e = es ! (i - i0) \<Longrightarrow>
      converts bo (s0\<lparr>pk_idl := pk_idl s0 @ [x]\<rparr>) (p + int i * m) (8 * (p + int i * m)) (8 * (p + int i * m + m))
        (rec_p ts (Some d) (dim + 1) None e) (rec_u ts (Some d) (dim + 1) None) e"
    and "0 \<le> m"
  shows "gives bo s0 (8 * (p + int i0 * m)) (8 * (p + int (i0 + length es) * m))
      (pk_each (pack_element rec_p ts d dim a p m) (map int [i0..<i0 + length es]))
      (pk_map (unpack_element rec_u ts d dim p m) (map int [i0..<i0 + length es])) es"
  using assms
proof (induction es arbitrary: i0)
  case Nil
  show ?case using gives_nothing [of bo s0 _ _ "[]"] by (simp del: pk_steps)
next
  case (Cons e es)
  have up: "[i0..<i0 + length (e # es)] = i0 # [Suc i0..<Suc i0 + length es]" by (simp add: upt_rec)
  have e: "gives bo s0 (8 * (p + int i0 * m)) (8 * (p + int (Suc i0) * m))
      (pack_element rec_p ts d dim a p m (int i0)) (unpack_element rec_u ts d dim p m (int i0)) e"
  proof (rule gives_element)
    fix x
    show "converts bo (s0\<lparr>pk_idl := pk_idl s0 @ [x]\<rparr>) (p + int i0 * m) (8 * (p + int i0 * m)) (8 * (p + int (Suc i0) * m))
        (rec_p ts (Some d) (dim + 1) None e) (rec_u ts (Some d) (dim + 1) None) e"
      using Cons.prems(2) [of i0 e x] by (simp add: algebra_simps)
    show "av_fetch a (int i0) = Some e" using Cons.prems(1) [of i0] by simp
  qed
  have es: "gives bo s0 (8 * (p + int (Suc i0) * m)) (8 * (p + int (Suc i0 + length es) * m))
      (pk_each (pack_element rec_p ts d dim a p m) (map int [Suc i0..<Suc i0 + length es]))
      (pk_map (unpack_element rec_u ts d dim p m) (map int [Suc i0..<Suc i0 + length es])) es"
  proof (rule Cons.IH [OF _ _ Cons.prems(3)])
    fix i assume i: "Suc i0 \<le> i" "i < Suc i0 + length es"
    then have n: "(e # es) ! (i - i0) = es ! (i - Suc i0)" by (simp add: nth_Cons' Suc_diff_le)
    show "av_fetch a (int i) = Some (es ! (i - Suc i0))" using Cons.prems(1) [of i] i n by simp
    fix e' x assume "e' = es ! (i - Suc i0)"
    with Cons.prems(2) [of i e' x] i n
    show "converts bo (s0\<lparr>pk_idl := pk_idl s0 @ [x]\<rparr>) (p + int i * m) (8 * (p + int i * m)) (8 * (p + int i * m + m))
        (rec_p ts (Some d) (dim + 1) None e') (rec_u ts (Some d) (dim + 1) None) e'" by simp
  qed
  have le: "8 * (p + int i0 * m) \<le> 8 * (p + int (Suc i0) * m)" "8 * (p + int (Suc i0) * m) \<le> 8 * (p + int (Suc i0 + length es) * m)"
    using Cons.prems(3) by (simp_all add: algebra_simps mult_right_mono)
  define rest where "rest = (\<lambda>y. pk_then
      (pk_map (unpack_element rec_u ts d dim p m) (map int [Suc i0..<Suc i0 + length es])) (\<lambda>ys. pk_return (y # ys)))"
  have "gives bo s0 (8 * (p + int (Suc i0) * m)) (8 * (p + int (Suc i0 + length es) * m))
      (pk_each (pack_element rec_p ts d dim a p m) (map int [Suc i0..<Suc i0 + length es])) (rest e) (e # es)"
    unfolding rest_def by (rule gives_result [OF es])
  from gives_then [where v = e and U' = rest, OF e this le]
  show ?case unfolding up rest_def by (simp del: pk_steps)
qed

lemma converts_array:
  assumes f: "fits_array (\<lambda>m e. rec_f ts (Some d) (dim + 1) None m e) c d dim n sv" and at: "is_array_at (Some d) dim"
    and g: "good s0" and p: "0 \<le> p" "p + n \<le> pk_length s0"
    and rec: "\<And>s0 p m e. rec_f ts (Some d) (dim + 1) None m e \<Longrightarrow> good s0 \<Longrightarrow> 0 \<le> p \<Longrightarrow> p + m \<le> pk_length s0 \<Longrightarrow>
      converts bo s0 p (8 * p) (8 * (p + m)) (rec_p ts (Some d) (dim + 1) None e) (rec_u ts (Some d) (dim + 1) None) e"
  shows "converts bo s0 p (8 * p) (8 * (p + n)) (pack_array rec_p c ts d dim None None sv) (unpack_array rec_u c ts d dim None None) sv"
proof -
  from f obtain vs a v m where vs: "ext_array d = Some vs" "sv = AVref a" "v = vs ! nat dim" "m = element_size d vs (dim + 1)"
    "\<not> has_flag (v_flags v) V_IS_UNDEF" "iv v = int (length a)" "0 < m" "m * iv v \<le> n" "8 * iv v \<le> largest_allocation (cbc_perl c)"
    "list_all (\<lambda>e. case e of None \<Rightarrow> False | Some e \<Rightarrow> rec_f ts (Some d) (dim + 1) None m e) a" "0 \<le> dim" "0 < d_item_size d"
    by (auto simp: fits_array_def Let_def split: option.splits SV.splits)
  obtain es where es: "a = map Some es" "list_all (rec_f ts (Some d) (dim + 1) None m) es"
  proof
    show "a = map Some (map the a)" using vs(10) by (induction a) (auto split: option.splits)
    show "list_all (rec_f ts (Some d) (dim + 1) None m) (map the a)" using vs(10) by (induction a) (auto split: option.splits)
  qed
  have dim: "dimension_at d dim = Inr v" "array_dims_of d = Inr vs"
    using at vs(1,3,11) by (simp_all add: is_array_at_def dimension_count_def dimension_at_def array_dims_of_def)
  have len: "iv v = int (length es)" using vs(6) es(1) by simp
  have "gives bo s0 (8 * (p + int 0 * m)) (8 * (p + int (0 + length es) * m))
      (pk_each (pack_element rec_p ts d dim a p m) (map int [0..<0 + length es]))
      (pk_map (unpack_element rec_u ts d dim p m) (map int [0..<0 + length es])) es"
  proof (rule gives_elements)
    fix i :: nat assume "0 \<le> i" "i < 0 + length es"
    then show "av_fetch a (int i) = Some (es ! (i - 0))" by (simp add: av_fetch_def es(1))
  next
    fix i :: nat and e x assume i: "0 \<le> i" "i < 0 + length es" "e = es ! (i - 0)"
    have "(1 + int i) * m \<le> iv v * m" using i(2) len vs(7) by (intro mult_right_mono) simp_all
    then have "int i * m + m \<le> n" using vs(8) by (simp add: algebra_simps)
    moreover have "0 \<le> int i * m" using vs(7) by simp
    ultimately show "converts bo (s0\<lparr>pk_idl := pk_idl s0 @ [x]\<rparr>) (p + int i * m) (8 * (p + int i * m)) (8 * (p + int i * m + m))
        (rec_p ts (Some d) (dim + 1) None e) (rec_u ts (Some d) (dim + 1) None) e"
      using es(2) i g p by (intro rec) (auto simp: list_all_length good_def algebra_simps)
  qed (use vs(7) in simp)
  then have each: "gives bo s0 (8 * p) (8 * (p + n)) (pk_each (pack_element rec_p ts d dim a p m) (map int [0..<length es]))
      (pk_map (unpack_element rec_u ts d dim p m) (map int [0..<length es])) es"
    unfolding add_0 by (rule gives_wider) (use vs(8) len in \<open>simp_all add: algebra_simps\<close>)
  from converts_inside [OF gives_result [OF each, of "\<lambda>es. AVref (map Some es)"], of p "IDL_IX None"]
  have c1: "converts bo s0 p (8 * p) (8 * (p + n)) (pk_then (push_entry (IDL_IX None)) (\<lambda>_. pk_then (pk_each
      (pack_element rec_p ts d dim a p m) (map int [0..<length es])) (\<lambda>_. idl_do IDLIST_POP)))
      (pk_then (pk_map (unpack_element rec_u ts d dim p m) (map int [0..<length es])) (\<lambda>es. pk_return (AVref (map Some es)))) sv"
    using vs(2) es(1) by simp
  have P: "pack_array rec_p c ts d dim None None sv s = pk_then (push_entry (IDL_IX None)) (\<lambda>_. pk_then (pk_each
      (pack_element rec_p ts d dim a p m) (map int [0..<length es])) (\<lambda>_. idl_do IDLIST_POP)) s" if "pk_pos s = p" for s
    using that dim vs(2,4,5,12) len by (simp add: pack_array_def pack_count_def push_entry_def [symmetric])
  have U: "unpack_array rec_u c ts d dim None None s
      = pk_then (pk_map (unpack_element rec_u ts d dim p m) (map int [0..<length es])) (\<lambda>es. pk_return (AVref (map Some es))) s"
    if "pk_pos s = p" for s
    using that dim vs(4,5,7,9,12) len by (simp add: unpack_array_def available_def unpack_count_def av_extend_def Let_def)
  show ?thesis by (rule converts_cong [OF P U c1])
qed

section \<open>Members\<close>

definition entry :: "HV \<Rightarrow> string \<Rightarrow> string \<times> SV" where
  "entry h key = (key, the (hv_fetch h key))"

text \<open>New members can be added: none of the names is there yet, and no name comes twice.\<close>

definition addable :: "HV \<Rightarrow> string list \<Rightarrow> bool" where
  "addable h0 keys \<longleftrightarrow> distinct keys \<and> set (map fst h0) \<inter> set keys = {}"

lemma addable_append:
  assumes "addable h0 (xs @ ys)"
  shows "addable h0 xs" "addable (h0 @ map (entry h) xs) ys"
  using assms by (auto simp: addable_def entry_def)

lemma in_order_split:
  "in_order a (xs @ ys) b \<Longrightarrow> \<exists>m. in_order a xs m \<and> in_order m ys b"
  by (induction xs arbitrary: a) auto

lemma gives_fold:
  assumes "\<And>x a b h0. x \<in> set xs \<Longrightarrow> 0 \<le> a \<Longrightarrow> b \<le> 8 * n \<Longrightarrow> in_order a (R x) b \<Longrightarrow> addable h0 (Ks x) \<Longrightarrow>
      gives bo s0 (8 * p + a) (8 * p + b) (P x) (V x h0) (h0 @ map (entry h) (Ks x))"
    and "in_order a (concat (map R xs)) b" "addable h0 (concat (map Ks xs))" "0 \<le> a" "b \<le> 8 * n"
  shows "gives bo s0 (8 * p + a) (8 * p + b) (pk_each P xs) (pk_fold V xs h0) (h0 @ map (entry h) (concat (map Ks xs)))"
  using assms
proof (induction xs arbitrary: a h0)
  case Nil
  then show ?case using gives_nothing [of bo s0 _ _ h0] by (simp del: pk_steps)
next
  case (Cons x xs)
  from Cons.prems(2) obtain m where m: "in_order a (R x) m" "in_order m (concat (map R xs)) b"
    using in_order_split by fastforce
  note le = in_order_le [OF m(1)] in_order_le [OF m(2)]
  from Cons.prems(3) have ad: "addable h0 (Ks x @ concat (map Ks xs))" by simp
  have first: "gives bo s0 (8 * p + a) (8 * p + m) (P x) (V x h0) (h0 @ map (entry h) (Ks x))"
    by (rule Cons.prems(1)) (use Cons.prems(4,5) le m(1) addable_append(1) [OF ad] in simp_all)
  have rest: "gives bo s0 (8 * p + m) (8 * p + b) (pk_each P xs) (pk_fold V xs (h0 @ map (entry h) (Ks x)))
      ((h0 @ map (entry h) (Ks x)) @ map (entry h) (concat (map Ks xs)))"
    by (rule Cons.IH [OF _ m(2) addable_append(2) [OF ad]]) (use Cons.prems(1,4,5) le in auto)
  show ?case using gives_then [where U' = "pk_fold V xs", OF first rest] le by simp
qed

lemma fits_member_span:
  assumes "bitfield_flag d \<Longrightarrow> 0 < bf_bits (ext_bitfield d)"
    and "in_order a (decl_regions (bit_order c) d) b"
  shows "8 * p + a \<le> span_from (bits_order c) (p + d_offset d) (if bitfield_flag d then Some (ext_bitfield d) else None)"
    "span_to (bits_order c) (p + d_offset d) (d_size d) (if bitfield_flag d then Some (ext_bitfield d) else None) \<le> 8 * p + b"
  using assms by (auto simp: decl_regions_def span_from_def span_to_def bit_order_def field_start_def field_end_def
      split: if_splits CByteOrder.splits)

lemma addable_new: "addable h0 [key] \<Longrightarrow> hv_fetch h0 key = None"
  by (simp add: addable_def hv_fetch_def map_of_eq_None_iff)

lemma gives_declarator:
  assumes f: "fits_member rec_f ts n h d" and r: "in_order a (decl_regions (bit_order c) d) b"
    and ad: "addable h0 (if has_key d then [member_key d] else [])"
    and g: "good s0" and p: "0 \<le> p" "p + n \<le> pk_length s0"
    and rec: "\<And>s0 p ts decl dim bi n sv. rec_f ts decl dim bi n sv \<Longrightarrow> good s0 \<Longrightarrow> 0 \<le> p \<Longrightarrow> p + n \<le> pk_length s0 \<Longrightarrow>
      converts (bits_order c) s0 p (span_from (bits_order c) p bi) (span_to (bits_order c) p n bi)
        (rec_p ts decl dim bi sv) (rec_u ts decl dim bi) sv"
  shows "gives (bits_order c) s0 (8 * p + a) (8 * p + b) (pack_declarator rec_p p ts h d)
    (unpack_declarator rec_u c q s p ts d h0) (h0 @ map (entry h) (if has_key d then [member_key d] else []))"
proof (cases "has_key d")
  case False
  then show ?thesis using gives_nothing [of "bits_order c" s0 _ _ h0]
    by (simp add: pack_declarator_def unpack_declarator_def del: pk_steps)
next
  case True
  let ?bi = "if bitfield_flag d then Some (ext_bitfield d) else None"
  from f True obtain v where v: "0 \<le> d_size d" "0 \<le> d_offset d" "d_offset d + d_size d \<le> n"
    "bitfield_flag d \<Longrightarrow> bf_bits (ext_bitfield d) > 0 \<and> field_in_unit d" "hv_fetch h (member_key d) = Some v"
    "rec_f ts (Some d) 0 ?bi (d_size d) v"
    by (auto simp: fits_member_def split: option.splits)
  have bi: "bitfield_of d t = Inr (?bi, t)" for t
    using v(4) by (auto simp: bitfield_of_def Let_def field_in_unit_def)
  have new: "hv_fetch h0 (member_key d) = None" using ad True by (simp add: addable_new)
  have conv: "converts (bits_order c) (s0\<lparr>pk_idl := pk_idl s0 @ [x]\<rparr>) (p + d_offset d) (8 * p + a) (8 * p + b)
      (rec_p ts (Some d) 0 ?bi v) (rec_u ts (Some d) 0 ?bi) v" for x
    by (rule converts_wider [OF rec [OF v(6)] fits_member_span [OF _ r]]) (use g p v(1-4) in \<open>auto simp: good_def\<close>)
  have "gives (bits_order c) s0 (8 * p + a) (8 * p + b) (pack_declarator rec_p p ts h d)
    (unpack_declarator rec_u c q s p ts d h0) (hv_store h0 (member_key d) v)"
  proof (rule gives_from [where f = "\<lambda>t. t\<lparr>pk_parent := None\<rparr>" and g = "\<lambda>t. t\<lparr>pk_parent := None\<rparr>"
        and r = "\<lambda>v. hv_store h0 (member_key d) v" and q = "p + d_offset d"])
    fix s assume s: "inside s0 s"
    let ?s = "s\<lparr>pk_idl := pk_idl s0 @ [IDL_ID (Some (d_identifier d))], pk_pos := p + d_offset d, pk_parent := Some h\<rparr>"
    show "\<exists>s' K. pack_declarator rec_p p ts h d s = and_then (rec_p ts (Some d) 0 ?bi v s') (\<lambda>(_, t). Inr ((), t\<lparr>pk_parent := None\<rparr>))
      \<and> like (s0\<lparr>pk_idl := K\<rparr>) s' \<and> pk_pos s' = p + d_offset d \<and> pk_buffer s' = pk_buffer s
      \<and> converts (bits_order c) (s0\<lparr>pk_idl := K\<rparr>) (p + d_offset d) (8 * p + a) (8 * p + b)
          (rec_p ts (Some d) 0 ?bi v) (rec_u ts (Some d) 0 ?bi) v
      \<and> (\<forall>t. like (s0\<lparr>pk_idl := K\<rparr>) t \<longrightarrow> inside s0 (t\<lparr>pk_parent := None\<rparr>))"
      using conv inside_like [OF s] s v(2,5) True
      by (intro exI [of _ ?s] exI [of _ "pk_idl s0 @ [IDL_ID (Some (d_identifier d))]"])
        (auto simp: pack_declarator_def set_entry inside_def bi pk_then_def [of "rec_p _ _ _ _ _"])
  next
    fix s' assume "reading s0 s'"
    let ?s = "s'\<lparr>pk_pos := p + d_offset d, pk_parent := Some h0\<rparr>"
    show "\<exists>s''. unpack_declarator rec_u c q s p ts d h0 s'
        = and_then (rec_u ts (Some d) 0 ?bi s'') (\<lambda>(v, t). Inr (hv_store h0 (member_key d) v, t\<lparr>pk_parent := None\<rparr>))
      \<and> like s' s'' \<and> pk_pos s'' = p + d_offset d \<and> pk_buffer s'' = pk_buffer s'"
      using True new v(2) by (intro exI [of _ ?s]) (simp add: unpack_declarator_def bi pk_then_def [of "rec_u _ _ _ _"])
  qed simp_all
  then show ?thesis using True new v(5) by (simp add: hv_store_new entry_def)
qed

section \<open>Compounds\<close>

text \<open>What is known of the recursive calls.\<close>

definition types_convert :: "CBC \<Rightarrow> fits_type_fun \<Rightarrow> pack_type_fun \<Rightarrow> unpack_type_fun \<Rightarrow> bool" where
  "types_convert c rec_f rec_p rec_u \<longleftrightarrow> (\<forall>s0 p ts decl dim bi n sv.
     rec_f ts decl dim bi n sv \<and> good s0 \<and> 0 \<le> p \<and> p + n \<le> pk_length s0 \<longrightarrow>
     converts (bits_order c) s0 p (span_from (bits_order c) p bi) (span_to (bits_order c) p n bi)
        (rec_p ts decl dim bi sv) (rec_u ts decl dim bi) sv)"

definition members_convert ::
  "CBC \<Rightarrow> fits_struct_fun \<Rightarrow> (nat option \<Rightarrow> string list) \<Rightarrow> pack_struct_fun \<Rightarrow> unpack_struct_fun \<Rightarrow> bool" where
  "members_convert c rec_fs keys rec_ps rec_us \<longleftrightarrow> (\<forall>s0 p q n h h0.
     rec_fs q n h \<and> addable h0 (keys q) \<and> good s0 \<and> 0 \<le> p \<and> p + n \<le> pk_length s0 \<longrightarrow>
     converts (bits_order c) s0 p (8 * p) (8 * (p + n)) (rec_ps q (HVref h) True) (rec_us q (Some h0))
       (None, h0 @ map (entry h) (keys q)))"

definition structs_convert ::
  "CBC \<Rightarrow> fits_struct_fun \<Rightarrow> (nat option \<Rightarrow> string list) \<Rightarrow> pack_struct_fun \<Rightarrow> unpack_struct_fun \<Rightarrow> bool" where
  "structs_convert c rec_fs keys rec_ps rec_us \<longleftrightarrow> (\<forall>s0 p q n h.
     fits_compound rec_fs keys c q n (HVref h) \<and> good s0 \<and> 0 \<le> p \<and> p + n \<le> pk_length s0 \<longrightarrow>
     converts (bits_order c) s0 p (8 * p) (8 * (p + n)) (rec_ps q (HVref h) False) (rec_us q None) (Some (HVref h), []))"

lemma members_convertD:
  "members_convert c rec_fs keys rec_ps rec_us \<Longrightarrow> rec_fs q n h \<Longrightarrow> addable h0 (keys q) \<Longrightarrow> good s0 \<Longrightarrow> 0 \<le> p \<Longrightarrow> p + n \<le> pk_length s0 \<Longrightarrow>
   converts (bits_order c) s0 p (8 * p) (8 * (p + n)) (rec_ps q (HVref h) True) (rec_us q (Some h0)) (None, h0 @ map (entry h) (keys q))"
  unfolding members_convert_def by blast

lemma structs_convertD:
  "structs_convert c rec_fs keys rec_ps rec_us \<Longrightarrow> fits_compound rec_fs keys c q n (HVref h) \<Longrightarrow> good s0 \<Longrightarrow> 0 \<le> p \<Longrightarrow> p + n \<le> pk_length s0 \<Longrightarrow>
   converts (bits_order c) s0 p (8 * p) (8 * (p + n)) (rec_ps q (HVref h) False) (rec_us q None) (Some (HVref h), [])"
  unfolding structs_convert_def by blast

lemma types_convertD:
  "types_convert c rec_f rec_p rec_u \<Longrightarrow> rec_f ts decl dim bi n sv \<Longrightarrow> good s0 \<Longrightarrow> 0 \<le> p \<Longrightarrow> p + n \<le> pk_length s0 \<Longrightarrow>
   converts (bits_order c) s0 p (span_from (bits_order c) p bi) (span_to (bits_order c) p n bi) (rec_p ts decl dim bi sv) (rec_u ts decl dim bi) sv"
  unfolding types_convert_def by blast

lemma gives_unnamed:
  assumes f: "0 \<le> sd_offset sd" "sd_declarators sd = None" "FOLLOW_AND_CHECK_TSPTR k (cbc_types c) (sd_type sd) = Inr q"
    and r: "in_order a (declaration_regions ord sd) b"
    and conv: "converts bo s0 (p + sd_offset sd) (8 * (p + sd_offset sd)) (8 * (p + sd_offset sd + sd_size sd))
      (rec_ps (Some q) (HVref h) True) (rec_us (Some q) (Some h0)) (None, h1)"
  shows "gives bo s0 (8 * p + a) (8 * p + b) (pack_declaration rec_p rec_ps k c p h sd)
    (unpack_declaration rec_u rec_us k c sq s p sd h0) h1"
proof -
  have sub: "8 * p + a \<le> 8 * (p + sd_offset sd)" "8 * (p + sd_offset sd + sd_size sd) \<le> 8 * p + b"
    using r f(2) by (simp_all add: declaration_regions_def)
  have "gives bo s0 (8 * p + a) (8 * p + b) (pack_declaration rec_p rec_ps k c p h sd)
    (unpack_declaration rec_u rec_us k c sq s p sd h0) (snd (None :: SV option, h1))"
  proof (rule gives_from [where f = "\<lambda>t. t\<lparr>pk_idl := pk_idl t @ [IDL_ID None]\<rparr>" and g = "\<lambda>t. t" and r = snd
        and q = "p + sd_offset sd"])
    fix s assume s: "inside s0 s"
    let ?s = "s\<lparr>pk_idl := pk_idl s0, pk_pos := p + sd_offset sd\<rparr>"
    show "\<exists>s' K. pack_declaration rec_p rec_ps k c p h sd s
        = and_then (rec_ps (Some q) (HVref h) True s') (\<lambda>(_, t). Inr ((), t\<lparr>pk_idl := pk_idl t @ [IDL_ID None]\<rparr>))
      \<and> like (s0\<lparr>pk_idl := K\<rparr>) s' \<and> pk_pos s' = p + sd_offset sd \<and> pk_buffer s' = pk_buffer s
      \<and> converts bo (s0\<lparr>pk_idl := K\<rparr>) (p + sd_offset sd) (8 * p + a) (8 * p + b)
          (rec_ps (Some q) (HVref h) True) (rec_us (Some q) (Some h0)) (None, h1)
      \<and> (\<forall>t. like (s0\<lparr>pk_idl := K\<rparr>) t \<longrightarrow> inside s0 (t\<lparr>pk_idl := pk_idl t @ [IDL_ID None]\<rparr>))"
      using f converts_wider [OF conv sub] inside_like [OF s, of "pk_idl s0"] s
      by (intro exI [of _ ?s] exI [of _ "pk_idl s0"])
        (auto simp: pack_declaration_def pop_entry push_entry_def [symmetric] pk_then_def [of "rec_ps _ _ _"] inside_def like_def)
  next
    fix s' assume "reading s0 s'"
    let ?s = "s'\<lparr>pk_pos := p + sd_offset sd\<rparr>"
    show "\<exists>s''. unpack_declaration rec_u rec_us k c sq s p sd h0 s'
        = and_then (rec_us (Some q) (Some h0) s'') (\<lambda>(v, t). Inr (snd v, t))
      \<and> like s' s'' \<and> pk_pos s'' = p + sd_offset sd \<and> pk_buffer s'' = pk_buffer s'"
      using f by (intro exI [of _ ?s]) (auto simp: unpack_declaration_def pk_then_def [of "rec_us _ _"] and_then_def split: sum.split)
  qed simp_all
  then show ?thesis by simp
qed

lemma concat_keys: "concat (map (\<lambda>d. if has_key d then [member_key d] else []) ds) = map member_key (filter has_key ds)"
  by (induction ds) simp_all

lemma gives_declaration:
  assumes f: "fits_declaration rec_f rec_fs k c n h sd" and r: "in_order a (declaration_regions (bit_order c) sd) b"
    and ab: "0 \<le> a" "b \<le> 8 * n" and ad: "addable h0 (declaration_keys keys k c sd)"
    and g: "good s0" and p: "0 \<le> p" "p + n \<le> pk_length s0"
    and rec: "types_convert c rec_f rec_p rec_u" "members_convert c rec_fs keys rec_ps rec_us"
  shows "gives (bits_order c) s0 (8 * p + a) (8 * p + b) (pack_declaration rec_p rec_ps k c p h sd)
    (unpack_declaration rec_u rec_us k c q s p sd h0) (h0 @ map (entry h) (declaration_keys keys k c sd))"
proof (cases "sd_declarators sd")
  case (Some ds)
  have "gives (bits_order c) s0 (8 * p + a) (8 * p + b) (pk_each (pack_declarator rec_p p (sd_type sd) h) ds)
      (pk_fold (unpack_declarator rec_u c q s p (sd_type sd)) ds h0)
      (h0 @ map (entry h) (concat (map (\<lambda>d. if has_key d then [member_key d] else []) ds)))"
  proof (rule gives_fold [where R = "decl_regions (bit_order c)" and n = n])
    fix d a b h0 assume d: "d \<in> set ds" "in_order a (decl_regions (bit_order c) d) b"
      "addable h0 (if has_key d then [member_key d] else [])"
    from d(1) f Some have "fits_member rec_f (sd_type sd) n h d" by (auto simp: fits_declaration_def list_all_iff)
    from gives_declarator [OF this d(2,3) g p] rec(1)
    show "gives (bits_order c) s0 (8 * p + a) (8 * p + b) (pack_declarator rec_p p (sd_type sd) h d)
        (unpack_declarator rec_u c q s p (sd_type sd) d h0) (h0 @ map (entry h) (if has_key d then [member_key d] else []))"
      by (simp add: types_convert_def)
  qed (use r ad ab Some in \<open>simp_all add: declaration_regions_def declaration_keys_def concat_keys\<close>)
  then show ?thesis using Some by (simp add: pack_declaration_def unpack_declaration_def declaration_keys_def concat_keys)
next
  case None
  from f None obtain q' where q': "0 \<le> sd_offset sd" "0 \<le> sd_size sd"
    "FOLLOW_AND_CHECK_TSPTR k (cbc_types c) (sd_type sd) = Inr q'" "rec_fs (Some q') (sd_size sd) h"
    by (auto simp: fits_declaration_def split: sum.splits)
  have k: "declaration_keys keys k c sd = keys (Some q')" using None q'(3) by (simp add: declaration_keys_def)
  have "sd_offset sd + sd_size sd \<le> n" using r ab(2) None by (simp add: declaration_regions_def)
  then have "converts (bits_order c) s0 (p + sd_offset sd) (8 * (p + sd_offset sd)) (8 * (p + sd_offset sd + sd_size sd))
      (rec_ps (Some q') (HVref h) True) (rec_us (Some q') (Some h0)) (None, h0 @ map (entry h) (keys (Some q')))"
    by (intro members_convertD [OF rec(2)]) (use q' g p ad k in simp_all)
  from gives_unnamed [where rec_ps = rec_ps and rec_us = rec_us and p = p, OF q'(1) None q'(3) r this] k show ?thesis by simp
qed

lemma gives_members:
  assumes f: "fits_struct_step rec_f rec_fs k c q n h" and st: "struct_at (cbc_types c) q = Inr s"
    and ad: "addable h0 (concat (map (declaration_keys keys k c) (struct_declarations s)))"
    and g: "good s0" and p: "0 \<le> p" "p + n \<le> pk_length s0"
    and rec: "types_convert c rec_f rec_p rec_u" "members_convert c rec_fs keys rec_ps rec_us"
  shows "gives (bits_order c) s0 (8 * p) (8 * (p + n))
    (pk_each (pack_declaration rec_p rec_ps k c p h) (struct_declarations s))
    (pk_fold (unpack_declaration rec_u rec_us k c q s p) (struct_declarations s) h0)
    (h0 @ map (entry h) (concat (map (declaration_keys keys k c) (struct_declarations s))))"
proof -
  from f st have f: "in_order 0 (regions (bit_order c) (struct_declarations s)) (8 * n)"
      "list_all (fits_declaration rec_f rec_fs k c n h) (struct_declarations s)"
    by (simp_all add: fits_struct_step_def)
  have "gives (bits_order c) s0 (8 * p + 0) (8 * p + 8 * n)
    (pk_each (pack_declaration rec_p rec_ps k c p h) (struct_declarations s))
    (pk_fold (unpack_declaration rec_u rec_us k c q s p) (struct_declarations s) h0)
    (h0 @ map (entry h) (concat (map (declaration_keys keys k c) (struct_declarations s))))"
  proof (rule gives_fold [where R = "declaration_regions (bit_order c)" and n = n])
    fix sd a b h0 assume "sd \<in> set (struct_declarations s)" "0 \<le> a" "b \<le> 8 * n"
      "in_order a (declaration_regions (bit_order c) sd) b" "addable h0 (declaration_keys keys k c sd)"
    then show "gives (bits_order c) s0 (8 * p + a) (8 * p + b) (pack_declaration rec_p rec_ps k c p h sd)
        (unpack_declaration rec_u rec_us k c q s p sd h0) (h0 @ map (entry h) (declaration_keys keys k c sd))"
      using f(2) by (intro gives_declaration [OF _ _ _ _ _ g p rec]) (auto simp: list_all_iff)
  qed (use f(1) ad in \<open>simp_all add: regions_def\<close>)
  then show ?thesis by (simp add: algebra_simps)
qed

text \<open>The members of an unnamed compound, in the hash of the enclosing one.\<close>

lemma step_members_convert:
  assumes rec: "types_convert c rec_f rec_p rec_u" "members_convert c rec_fs (struct_keys k c) rec_ps rec_us"
  shows "members_convert c (fits_struct_step rec_f rec_fs k c) (struct_keys (Suc k) c)
    (pack_struct_step rec_p rec_ps k c) (unpack_struct_step rec_u rec_us k c)"
  unfolding members_convert_def
proof (intro allI impI, elim conjE)
  fix s0 p q n h h0
  assume f: "fits_struct_step rec_f rec_fs k c q n h" and ad: "addable h0 (struct_keys (Suc k) c q)"
    and g: "good s0" and p: "0 \<le> p" "p + n \<le> pk_length s0"
  from f obtain s where st: "struct_at (cbc_types c) q = Inr s" by (auto simp: fits_struct_step_def split: sum.splits)
  have k: "struct_keys (Suc k) c q = concat (map (declaration_keys (struct_keys k c) k c) (struct_declarations s))"
    by (simp add: struct_keys.simps st)
  let ?P = "pk_each (pack_declaration rec_p rec_ps k c p h) (struct_declarations s)"
  let ?U = "pk_fold (unpack_declaration rec_u rec_us k c q s p) (struct_declarations s) h0"
  from converts_inside [OF gives_result [OF gives_members [OF f st ad [unfolded k] g p rec], of "\<lambda>h. (None, h)"]]
  have conv: "converts (bits_order c) s0 p (8 * p) (8 * (p + n))
      (pk_then (push_entry (IDL_ID None)) (\<lambda>_. pk_then ?P (\<lambda>_. idl_do IDLIST_POP))) (pk_then ?U (\<lambda>h. pk_return (None, h)))
      (None, h0 @ map (entry h) (struct_keys (Suc k) c q))" by (simp add: k)
  have "s0\<lparr>pk_order := pk_order s0\<rparr> = s0" by simp
  from converts_ordered [where ?s0.0 = s0 and ob = "pk_order s0", unfolded this, OF conv]
  show "converts (bits_order c) s0 p (8 * p) (8 * (p + n)) (pack_struct_step rec_p rec_ps k c q (HVref h) True)
      (unpack_struct_step rec_u rec_us k c q (Some h0)) (None, h0 @ map (entry h) (struct_keys (Suc k) c q))"
  proof (rule converts_cong [rotated 2])
    fix s' assume s': "like s0 s'" "pk_pos s' = p"
    then have o: "pk_order s0 = pk_order s'" by (simp add: like_def)
    show "pack_struct_step rec_p rec_ps k c q (HVref h) True s'
        = pk_then (pk_then (push_entry (IDL_ID None)) (\<lambda>_. pk_then ?P (\<lambda>_. idl_do IDLIST_POP)))
            (\<lambda>_. set_order (pk_order s0)) (s'\<lparr>pk_order := pk_order s0\<rparr>)"
      using st s' by (simp add: o pack_struct_step_def pack_members_def push_entry_def [symmetric] pk_then_assoc)
  next
    fix s' assume s': "reading s0 s'" "pk_pos s' = p"
    then have o: "pk_order s0 = pk_order s'" by (simp add: reading_def)
    show "unpack_struct_step rec_u rec_us k c q (Some h0) s'
        = pk_then (pk_then ?U (\<lambda>h. pk_return (None, h))) (\<lambda>v. pk_then (set_order (pk_order s0)) (\<lambda>_. pk_return v))
            (s'\<lparr>pk_order := pk_order s0\<rparr>)"
      using st s' by (simp add: o unpack_struct_step_def unpack_members_def pk_then_assoc)
        (simp add: pk_then_def and_then_def split: sum.splits)
  qed
qed

text \<open>A compound of its own, with its byte order.\<close>

lemma whole_hash:
  assumes "map fst h = keys" "distinct keys"
  shows "map (entry h) keys = h"
proof -
  have "entry h (fst e) = e" if "e \<in> set h" for e
  proof -
    have "map_of h (fst e) = Some (snd e)" by (rule map_of_is_SomeI) (use that assms in simp_all)
    then show ?thesis by (simp add: entry_def hv_fetch_def)
  qed
  then show ?thesis unfolding assms(1) [symmetric] by (simp add: map_idI)
qed

lemma step_structs_convert:
  assumes rec: "types_convert c rec_f rec_p rec_u" "members_convert c rec_fs (struct_keys k c) rec_ps rec_us"
  shows "structs_convert c (fits_struct_step rec_f rec_fs k c) (struct_keys (Suc k) c)
    (pack_struct_step rec_p rec_ps k c) (unpack_struct_step rec_u rec_us k c)"
  unfolding structs_convert_def
proof (intro allI impI, elim conjE)
  fix s0 p q n h
  assume f: "fits_compound (fits_struct_step rec_f rec_fs k c) (struct_keys (Suc k) c) c q n (HVref h)"
    and g: "good s0" and p: "0 \<le> p" "p + n \<le> pk_length s0"
  from f obtain s where st: "struct_at (cbc_types c) q = Inr s" and tags: "plain_tags (s_tags s)"
    and fs: "fits_struct_step rec_f rec_fs k c q n h" and h: "map fst h = struct_keys (Suc k) c q" "distinct (struct_keys (Suc k) c q)"
    by (auto simp: fits_compound_def split: sum.splits)
  have k: "struct_keys (Suc k) c q = concat (map (declaration_keys (struct_keys k c) k c) (struct_declarations s))"
    by (simp add: struct_keys.simps st)
  let ?ob = "tagged_order (s_tags s) (pk_order s0)"
  let ?P = "pk_each (pack_declaration rec_p rec_ps k c p h) (struct_declarations s)"
  let ?U = "pk_fold (unpack_declaration rec_u rec_us k c q s p) (struct_declarations s) []"
  have g': "good (s0\<lparr>pk_order := ?ob\<rparr>)" "p + n \<le> pk_length (s0\<lparr>pk_order := ?ob\<rparr>)" using g p by (simp_all add: good_def)
  have ad: "addable [] (concat (map (declaration_keys (struct_keys k c) k c) (struct_declarations s)))"
    using h(2) k by (simp add: addable_def)
  from converts_inside [OF gives_result [OF gives_members [OF fs st ad g'(1) p(1) g'(2) rec], of HVref]] whole_hash [OF h] k
  have conv: "converts (bits_order c) (s0\<lparr>pk_order := ?ob\<rparr>) p (8 * p) (8 * (p + n))
      (pk_then (push_entry (IDL_ID None)) (\<lambda>_. pk_then ?P (\<lambda>_. idl_do IDLIST_POP))) (pk_then ?U (\<lambda>h. pk_return (HVref h)))
      (HVref h)" by simp
  from converts_result [OF converts_ordered [OF conv], of "\<lambda>sv. (Some sv, [])"]
  show "converts (bits_order c) s0 p (8 * p) (8 * (p + n)) (pack_struct_step rec_p rec_ps k c q (HVref h) False)
      (unpack_struct_step rec_u rec_us k c q None) (Some (HVref h), [])"
  proof (rule converts_cong [rotated 2])
    fix s' assume s': "like s0 s'" "pk_pos s' = p"
    then have o: "pk_order s0 = pk_order s'" by (simp add: like_def)
    show "pack_struct_step rec_p rec_ps k c q (HVref h) False s'
        = pk_then (pk_then (push_entry (IDL_ID None)) (\<lambda>_. pk_then ?P (\<lambda>_. idl_do IDLIST_POP)))
            (\<lambda>_. set_order (pk_order s0)) (s'\<lparr>pk_order := ?ob\<rparr>)"
      using st s' plain_tags_none [OF tags]
      by (simp add: o pack_struct_step_def pack_members_def push_entry_def [symmetric] pk_then_assoc call_hook_none
          SET_BYTEORDER_plain [OF tags])
  next
    fix s' assume s': "reading s0 s'" "pk_pos s' = p"
    then have o: "pk_order s0 = pk_order s'" by (simp add: reading_def)
    show "unpack_struct_step rec_u rec_us k c q None s'
        = pk_then (\<lambda>s. pk_then (pk_then ?U (\<lambda>h. pk_return (HVref h))) (\<lambda>v. pk_then (set_order (pk_order s0)) (\<lambda>_. pk_return v))
            (s\<lparr>pk_order := ?ob\<rparr>)) (\<lambda>sv. pk_return (Some sv, [])) s'"
      using st s' plain_tags_none [OF tags]
      by (simp add: o unpack_struct_step_def unpack_members_def pk_then_assoc call_hook_none SET_BYTEORDER_plain [OF tags])
        (simp add: pk_then_def and_then_def split: sum.splits)
  qed
qed

section \<open>Types\<close>

lemma converts_run:
  assumes "converts bo s0 p ia ib P U v" and "\<And>s. P' s = P s" and "\<And>s. U' s = U s"
  shows "converts bo s0 p ia ib P' U' v"
  by (rule converts_cong [OF assms(2,3,1)])

lemma converts_then_run:
  assumes "converts bo s0 p ia ib P U x" "r x = Inr y"
  shows "converts bo s0 p ia ib P (pk_then U (\<lambda>x. pk_run (r x))) y"
  using assms by (fastforce simp: converts_def)

lemma scalar_not_ref: "defined_scalar sv \<Longrightarrow> warn_reference sv s = Inr ((), s)"
  by (simp add: defined_scalar_def warn_reference_def)

lemma fits_scalar:
  "fits_int c sz sign bi sv \<Longrightarrow> defined_scalar sv" "fits_basic c flags bi n sv \<Longrightarrow> defined_scalar sv"
  "fits_enum c e bi n sv \<Longrightarrow> defined_scalar sv"
  by (auto simp: fits_int_def fits_basic_def fits_float_def fits_enum_def defined_scalar_def SvOK_def SvROK_def Let_def
      split: SV.splits option.splits if_splits prod.splits sum.splits)

lemma spans_whole [simp]: "span_from bo p None = 8 * p" "span_to bo p n None = 8 * (p + n)"
  by (simp_all add: span_from_def span_to_def)

lemma untagged_converts:
  assumes f: "fits_type_step rec_f rec_fs keys c ts decl dim bi n sv"
    and g: "good s0" and p: "0 \<le> p" "p + n \<le> pk_length s0"
    and rec: "types_convert c rec_f rec_p rec_u" "structs_convert c rec_fs keys rec_ps rec_us"
  shows "converts (bits_order c) s0 p (span_from (bits_order c) p bi) (span_to (bits_order c) p n bi)
    (pack_untagged rec_p rec_ps c ts decl dim None bi sv) (unpack_untagged rec_u rec_us c ts decl dim None bi) sv"
proof -
  consider (array) "is_array_at decl dim" | (pointer) "\<not> is_array_at decl dim" "is_pointer decl"
    | (type) "\<not> is_array_at decl dim" "\<not> is_pointer decl" "has_flag (ts_tflags ts) T_TYPE"
    | (compound) "\<not> is_array_at decl dim" "\<not> is_pointer decl" "\<not> has_flag (ts_tflags ts) T_TYPE" "has_flag (ts_tflags ts) T_COMPOUND"
    | (enum) "\<not> is_array_at decl dim" "\<not> is_pointer decl" "\<not> has_flag (ts_tflags ts) T_TYPE" "\<not> has_flag (ts_tflags ts) T_COMPOUND"
        "has_flag (ts_tflags ts) T_ENUM"
    | (basic) "\<not> is_array_at decl dim" "\<not> is_pointer decl" "\<not> has_flag (ts_tflags ts) T_TYPE" "\<not> has_flag (ts_tflags ts) T_COMPOUND"
        "\<not> has_flag (ts_tflags ts) T_ENUM" by blast
  then show ?thesis
  proof cases
    case array
    then obtain d where d: "decl = Some d" by (auto simp: is_array_at_def split: option.splits)
    from f array d have fa: "bi = None" "fits_array (\<lambda>m e. rec_f ts (Some d) (dim + 1) None m e) c d dim n sv"
      by (simp_all add: fits_type_step_def)
    have "converts (bits_order c) s0 p (8 * p) (8 * (p + n)) (pack_array rec_p c ts d dim None None sv) (unpack_array rec_u c ts d dim None None) sv"
      by (rule converts_array [where rec_f = rec_f, OF fa(2) array [unfolded d] g p]) (use types_convertD [OF rec(1), of _ _ _ None] in simp)
    then show ?thesis using array d fa(1) by (simp add: pack_untagged_def unpack_untagged_def)
  next
    case pointer
    with f have fp: "bi = None" "no_hooks c ts" "pointer_size c \<le> n" "fits_int c (pointer_size c) False None sv"
      by (simp_all add: fits_type_step_def)
    show ?thesis
      unfolding fp(1) spans_whole
      by (rule converts_run [OF converts_pointer [OF fp(4) g p(1) fp(3) p(2)]])
        (use pointer fp(1,2) in \<open>simp_all add: pack_untagged_def unpack_untagged_def scalar_not_ref fits_scalar(1) [OF fp(4)]
           hook_call_typespec_none pk_then_def [of "unpack_pointer _"]\<close>)
  next
    case type
    with f obtain t d where td: "pTypedef (cbc_types c) ts = Inr (t, d)" "rec_f t (Some d) 0 bi n sv"
      by (auto simp: fits_type_step_def split: sum.splits)
    show ?thesis
      by (rule converts_run [OF types_convertD [OF rec(1) td(2) g p]])
        (use type td(1) in \<open>simp_all add: pack_untagged_def unpack_untagged_def\<close>)
  next
    case compound
    with f have fc: "bi = None" "fits_compound rec_fs keys c (ts_ptr ts) n sv" by (simp_all add: fits_type_step_def)
    then obtain s h where s: "struct_at (cbc_types c) (ts_ptr ts) = Inr s" "sv = HVref h" "s_declarations s \<noteq> None"
      by (auto simp: fits_compound_def split: sum.splits SV.splits)
    have r: "(\<lambda>(sv, _). pk_run (or_assert sv)) = (\<lambda>(x :: SV option \<times> HV). pk_run (or_assert (fst x)))" by auto
    from structs_convertD [OF rec(2) fc(2) [unfolded s(2)] g p]
    have "converts (bits_order c) s0 p (8 * p) (8 * (p + n)) (rec_ps (ts_ptr ts) (HVref h) False)
        (pk_then (rec_us (ts_ptr ts) None) (\<lambda>x. pk_run (or_assert (fst x)))) (HVref h)"
      by (rule converts_then_run) (simp add: or_assert_def)
    then show ?thesis unfolding fc(1) s(2) spans_whole
      by (rule converts_run) (use compound fc(1) s in \<open>auto simp: pack_untagged_def unpack_untagged_def r\<close>)
  next
    case enum
    with f obtain e where e: "enum_at (cbc_types c) (ts_ptr ts) = Inr e" "fits_enum c e bi n sv"
      by (auto simp: fits_type_step_def split: sum.splits)
    show ?thesis
      by (rule converts_run [OF converts_enum [OF e(2) g p]])
        (use enum e(1) in \<open>simp_all add: pack_untagged_def unpack_untagged_def scalar_not_ref fits_scalar(3) [OF e(2)]\<close>)
  next
    case basic
    with f have fb: "fits_basic c (ts_tflags ts) bi n sv" by (simp add: fits_type_step_def)
    show ?thesis
      by (rule converts_run [OF converts_basic [OF fb g p]])
        (use basic in \<open>simp_all add: pack_untagged_def unpack_untagged_def scalar_not_ref fits_scalar(2) [OF fb]\<close>)
  qed
qed

lemma step_types_convert:
  assumes rec: "types_convert c rec_f rec_p rec_u" "structs_convert c rec_fs keys rec_ps rec_us"
  shows "types_convert c (fits_type_step rec_f rec_fs keys c) (pack_type_step rec_p rec_ps c) (unpack_type_step rec_u rec_us c)"
  unfolding types_convert_def
proof (intro allI impI, elim conjE)
  fix s0 p ts decl dim bi n sv
  assume f: "fits_type_step rec_f rec_fs keys c ts decl dim bi n sv" and g: "good s0" and p: "0 \<le> p" "p + n \<le> pk_length s0"
  let ?tags = "decl_tags decl dim"
  let ?ob = "tagged_order ?tags (pk_order s0)"
  let ?P = "pack_untagged rec_p rec_ps c ts decl dim None bi sv"
  let ?U = "unpack_untagged rec_u rec_us c ts decl dim None bi"
  from f have tags: "plain_tags ?tags" and b: "\<not> is_bitfield decl \<or> bi \<noteq> None" by (auto simp: fits_type_step_def)
  note t = plain_tags_none [OF tags]
  have g': "good (s0\<lparr>pk_order := ?ob\<rparr>)" "p + n \<le> pk_length (s0\<lparr>pk_order := ?ob\<rparr>)" using g p by (simp_all add: good_def)
  from converts_ordered [OF untagged_converts [OF f g'(1) p(1) g'(2) rec]]
  show "converts (bits_order c) s0 p (span_from (bits_order c) p bi) (span_to (bits_order c) p n bi)
      (pack_type_step rec_p rec_ps c ts decl dim bi sv) (unpack_type_step rec_u rec_us c ts decl dim bi) sv"
  proof (rule converts_cong [rotated 2])
    fix s' assume "like s0 s'" "pk_pos s' = p"
    then have o: "pk_order s0 = pk_order s'" by (simp add: like_def)
    show "pack_type_step rec_p rec_ps c ts decl dim bi sv s' = pk_then ?P (\<lambda>_. set_order (pk_order s0)) (s'\<lparr>pk_order := ?ob\<rparr>)"
      using t b by (simp add: o pack_type_step_def call_hook_none SET_BYTEORDER_plain [OF tags])
  next
    fix s' assume "reading s0 s'" "pk_pos s' = p"
    then have o: "pk_order s0 = pk_order s'" by (simp add: reading_def)
    show "unpack_type_step rec_u rec_us c ts decl dim bi s'
        = pk_then ?U (\<lambda>v. pk_then (set_order (pk_order s0)) (\<lambda>_. pk_return v)) (s'\<lparr>pk_order := ?ob\<rparr>)"
      using t b by (simp add: o unpack_type_step_def call_hook_none pk_then_assoc SET_BYTEORDER_plain [OF tags])
        (simp add: pk_then_def and_then_def split: sum.splits)
  qed
qed

lemma all_convert:
  "types_convert c (fits_type k c) (pack_type k c) (unpack_type k c)
   \<and> members_convert c (fits_struct k c) (struct_keys k c) (pack_struct k c) (unpack_struct k c)
   \<and> structs_convert c (fits_struct k c) (struct_keys k c) (pack_struct k c) (unpack_struct k c)"
proof (induction k)
  case 0
  have no: "fits_type 0 c ts decl dim bi n sv = False" "fits_struct 0 c q n h = False" for ts decl dim bi n sv q h
    by (simp_all add: fits_type.simps fits_struct.simps)
  show ?case by (simp add: types_convert_def members_convert_def structs_convert_def fits_compound_def no split: sum.split)
next
  case (Suc k)
  have eta: "fits_type (Suc k) c = fits_type_step (fits_type k c) (fits_struct k c) (struct_keys k c) c"
    "fits_struct (Suc k) c = fits_struct_step (fits_type k c) (fits_struct k c) k c"
    "pack_type (Suc k) c = pack_type_step (pack_type k c) (pack_struct k c) c"
    "pack_struct (Suc k) c = pack_struct_step (pack_type k c) (pack_struct k c) k c"
    "unpack_type (Suc k) c = unpack_type_step (unpack_type k c) (unpack_struct k c) c"
    "unpack_struct (Suc k) c = unpack_struct_step (unpack_type k c) (unpack_struct k c) k c"
    by (simp_all add: fun_eq_iff fits_type.simps fits_struct.simps pack_type.simps pack_struct.simps unpack_type.simps unpack_struct.simps)
  from Suc have IH: "types_convert c (fits_type k c) (pack_type k c) (unpack_type k c)"
    "members_convert c (fits_struct k c) (struct_keys k c) (pack_struct k c) (unpack_struct k c)"
    "structs_convert c (fits_struct k c) (struct_keys k c) (pack_struct k c) (unpack_struct k c)" by blast+
  show ?case unfolding eta
    using step_types_convert [OF IH(1,3)] step_members_convert [OF IH(1,2)] step_structs_convert [OF IH(1,2)] by blast
qed

end
