(* ===== verification/Unpack_Safe.thy ===== *)
theory Unpack_Safe
  imports Unpack
begin

text \<open>
  Unpacking never reads outside the buffer, whatever the type, the tags and the data: every
  read is behind a check of the length. A small calculus of pre- and postconditions carries the
  proof through the recursion.
\<close>

section \<open>Runs that stay inside\<close>

definition buffer_ok :: "PackInfo \<Rightarrow> bool" where
  "buffer_ok s \<longleftrightarrow> 0 \<le> pk_pos s \<and> 0 \<le> pk_length s \<and> pk_length s \<le> pk_allocated s"

definition stays :: "'a run \<Rightarrow> bool" where
  "stays r \<longleftrightarrow> r \<noteq> Inl Outside_buffer"

definition safe :: "(PackInfo \<Rightarrow> bool) \<Rightarrow> 'a pk \<Rightarrow> ('a \<Rightarrow> bool) \<Rightarrow> bool" where
  "safe P m Q \<longleftrightarrow> (\<forall>s. buffer_ok s \<and> P s \<longrightarrow>
     (case m s of Inl e \<Rightarrow> e \<noteq> Outside_buffer | Inr (x, s') \<Rightarrow> Q x \<and> buffer_ok s'))"

abbreviation always :: "'b \<Rightarrow> bool" where
  "always \<equiv> \<lambda>_. True"

named_theorems safe_rule \<comment> \<open>what each step of a conversion keeps\<close>

lemma stays_simps [simp]: "stays (Inr x)" "stays (Inl e) \<longleftrightarrow> e \<noteq> Outside_buffer"
  by (simp_all add: stays_def)

lemma stays_then: "stays r \<Longrightarrow> (\<And>x. r = Inr x \<Longrightarrow> stays (f x)) \<Longrightarrow> stays (and_then r f)"
  by (cases r) (simp_all add: stays_def)

lemma stays_check [simp]: "e \<noteq> Outside_buffer \<Longrightarrow> stays (check e b)"
  by (simp add: check_def)

lemma safe_then:
  assumes "safe P m Q" and "\<And>x. Q x \<Longrightarrow> safe always (f x) R"
  shows "safe P (pk_then m f) R"
  unfolding safe_def
proof (intro allI impI)
  fix s assume s: "buffer_ok s \<and> P s"
  show "case pk_then m f s of Inl e \<Rightarrow> e \<noteq> Outside_buffer | Inr (x, s') \<Rightarrow> R x \<and> buffer_ok s'"
  proof (cases "m s")
    case (Inl e)
    with assms(1) s show ?thesis by (fastforce simp: safe_def pk_then_def)
  next
    case (Inr y)
    obtain x s' where y: "y = (x, s')" by (cases y)
    with assms(1) s Inr have "Q x" "buffer_ok s'" by (fastforce simp: safe_def)+
    with assms(2) [of x] Inr y show ?thesis by (simp add: safe_def pk_then_def)
  qed
qed

lemma return_then: "pk_then (pk_return x) f = f x"
  by (simp add: pk_then_def pk_return_def)

lemma safe_weaken: "safe P m Q \<Longrightarrow> (\<And>s. P' s \<Longrightarrow> P s) \<Longrightarrow> (\<And>x. Q x \<Longrightarrow> Q' x) \<Longrightarrow> safe P' m Q'"
  by (fastforce simp: safe_def split: sum.splits)

lemma safe_any: "safe always m Q \<Longrightarrow> safe P m Q"
  by (simp add: safe_def)

lemma safe_return [safe_rule]: "Q x \<Longrightarrow> safe P (pk_return x) Q"
  by (simp add: safe_def pk_return_def)

lemma safe_fail [safe_rule]: "e \<noteq> Outside_buffer \<Longrightarrow> safe P (pk_fail e) Q"
  by (simp add: safe_def pk_fail_def)

lemma safe_get: "(\<And>s. buffer_ok s \<Longrightarrow> P s \<Longrightarrow> Q (g s)) \<Longrightarrow> safe P (pk_get g) Q"
  by (simp add: safe_def pk_get_def)

text \<open>Looking at the state or checking something does not change it.\<close>

lemma safe_get_then: "(\<And>x. safe P (f x) R) \<Longrightarrow> safe P (pk_then (pk_get g) f) R"
  by (simp add: safe_def pk_then_def pk_get_def)

lemma safe_check_then: "(b \<Longrightarrow> safe P (f ()) R) \<Longrightarrow> safe P (pk_then (pk_check b) f) R"
  by (cases b) (simp_all add: safe_def pk_then_def pk_check_def pk_run_def)

lemma safe_run: "stays r \<Longrightarrow> (\<And>x. r = Inr x \<Longrightarrow> Q x) \<Longrightarrow> safe P (pk_run r) Q"
  by (cases r) (simp_all add: safe_def pk_run_def)

lemma safe_check [safe_rule]: "safe P (pk_check b) (\<lambda>_. b)"
  by (cases b) (simp_all add: safe_def pk_check_def pk_run_def)

lemma safe_when [safe_rule]: "safe P m always \<Longrightarrow> safe P (pk_when b m) always"
  by (simp add: pk_when_def safe_return)

lemma safe_update [safe_rule]: "(\<And>s. buffer_ok s \<Longrightarrow> buffer_ok (u s)) \<Longrightarrow> safe P (pk_update u) always"
  by (simp add: safe_def pk_update_def)

lemma safe_sets [safe_rule]:
  "0 \<le> p \<Longrightarrow> safe P (set_pos p) always" "safe P (set_order bo) always" "safe P (set_parent hv) always" "safe P (WARN msg) always"
  by (auto simp: set_pos_def set_order_def set_parent_def WARN_def buffer_ok_def intro: safe_update)

lemma idl_append_stays: "stays (idl_append b idl)"
  by (induction b idl rule: idl_append.induct) (auto intro: stays_then)

lemma safe_warn_idl [safe_rule]: "safe P (WARN_idl msg) always"
  unfolding WARN_idl_def idl_to_str_def
  by (rule safe_then [OF safe_get [where Q = always]], simp, rule safe_then [OF safe_run [where Q = always]])
    (simp_all add: idl_append_stays safe_sets)

lemma safe_log [safe_rule]: "stays r \<Longrightarrow> safe P (pk_log r) always"
  unfolding pk_log_def
proof (rule safe_then [OF safe_run [where Q = always]])
  fix x :: "'a \<times> string list"
  show "safe always (case x of (x, ws) \<Rightarrow> pk_then (pk_update (\<lambda>s. s\<lparr>pk_warnings := pk_warnings s @ ws\<rparr>)) (\<lambda>_. pk_return x)) always"
    by (cases x) (auto simp: buffer_ok_def intro!: safe_then [OF safe_update] safe_return)
qed simp_all

lemma safe_fold:
  assumes "\<And>x a. x \<in> set xs \<Longrightarrow> safe always (f x a) always"
  shows "safe always (pk_fold f xs a) always"
  using assms by (induction xs arbitrary: a) (auto intro: safe_then safe_return)

lemma safe_map:
  assumes "\<And>x. x \<in> set xs \<Longrightarrow> safe always (f x) always"
  shows "safe always (pk_map f xs) always"
  using assms by (induction xs) (auto intro!: safe_return intro: safe_then)

text \<open>Behind a check there are enough bytes.\<close>

definition enough :: "int \<Rightarrow> PackInfo \<Rightarrow> bool" where
  "enough n s \<longleftrightarrow> pk_pos s + n \<le> pk_length s"

lemma safe_check_buffer [safe_rule]: "safe (enough n) m always \<Longrightarrow> safe P (CHECK_BUFFER n m) always"
  by (simp add: safe_def CHECK_BUFFER_def enough_def buffer_ok_def)

lemma enough_in_buffer: "buffer_ok s \<Longrightarrow> 0 \<le> n \<Longrightarrow> enough n s \<Longrightarrow> in_buffer n s"
  by (simp add: buffer_ok_def enough_def in_buffer_def)

lemma safe_get_integer: "0 \<le> n \<Longrightarrow> safe (enough n) (get_integer c n sign bi val) always"
  using enough_in_buffer
  by (auto simp: safe_def get_integer_def SF_ORDER_def pk_then_def pk_return_def pk_get_def and_then_def or_assert_def
      split: option.splits sum.splits)

lemma safe_get_bytes: "0 \<le> n \<Longrightarrow> safe (enough n) (get_bytes n) always"
  using enough_in_buffer by (auto simp: safe_def get_bytes_def)

section \<open>Tags and hooks\<close>

text \<open>The subs are Perl code: they end with a value or an exception.\<close>

definition perl_ok :: "perl \<Rightarrow> bool" where
  "perl_ok pl \<longleftrightarrow> (\<forall>cv args. stays (call_sv pl cv args))"

lemma single_hook_call_stays: "perl_ok pl \<Longrightarrow> stays (single_hook_call pl self hid pre ident hook in_sv)"
proof -
  assume pl: "perl_ok pl"
  have "stays (hook_arg self hid pre ident in_sv a)" for a
    by (auto simp: hook_arg_def split: SV.splits HookArgType.splits option.splits)
  then have "stays (run_map (hook_arg self hid pre ident in_sv) args)" for args
    by (induction args) (auto intro!: stays_then)
  with pl show ?thesis by (auto simp: single_hook_call_def perl_ok_def split: option.splits intro!: stays_then)
qed

lemma safe_call_hook [safe_rule]: "perl_ok (cbc_perl c) \<Longrightarrow> safe P (call_hook c tags pre ident i sv) always"
  by (auto simp: call_hook_def hook_call_def intro!: safe_return safe_run stays_then single_hook_call_stays split: option.splits)

lemma safe_SET_BYTEORDER [safe_rule]: "safe P (SET_BYTEORDER tags) always"
  by (auto simp: SET_BYTEORDER_def intro!: safe_return safe_sets safe_fail split: option.splits)

lemma log_then_stays: "stays r \<Longrightarrow> (\<And>x. stays (f x)) \<Longrightarrow> stays (log_then r f)"
  by (auto simp: log_then_def intro!: stays_then)

lemma dimension_step_stays: "stays (dimension_step member parent info sv)"
  by (auto simp: dimension_step_def warned_def quiet_def split: me_walk_info.splits option.splits SV.splits sum.splits)

lemma dimension_loop_stays: "stays (dimension_loop member parent w sv)"
proof (induction member parent w sv rule: dimension_loop.induct)
  case (1 member parent walker sv)
  show ?case
    by (subst dimension_loop.simps)
      (use 1 dimension_step_stays in \<open>auto simp: quiet_def log_then_def split: prod.splits option.splits intro!: stays_then\<close>)
qed

lemma sv_to_dimension_stays: "stays (sv_to_dimension pl sv member)"
  by (simp add: sv_to_dimension_def quiet_def warned_def)

lemma dimtag_eval_stays: "perl_ok pl \<Longrightarrow> stays (dimtag_eval pl dim avail self parent)"
  by (auto simp: dimtag_eval_def dimension_from_member_def dimension_from_hook_def quiet_def warned_def
      intro!: stays_then log_then_stays dimension_loop_stays single_hook_call_stays sv_to_dimension_stays
      split: DimensionTag.splits option.splits)

lemma safe_eval_dimension [safe_rule]: "perl_ok (cbc_perl c) \<Longrightarrow> safe P (eval_dimension c tag avail) always"
  unfolding eval_dimension_def
  by (rule safe_then [OF safe_get [where Q = always]]) (auto intro: safe_log dimtag_eval_stays)

lemma type_lookups_stay [simp]:
  "stays (pTypedef st ts)" "stays (struct_at st p)" "stays (enum_at st p)" "stays (dimension_at d i)" "stays (array_dims_of d)"
  "stays (or_assert r)" "stays (c_div a b)"
  by (auto simp: pTypedef_def struct_at_def enum_at_def dimension_at_def array_dims_of_def or_assert_def c_div_def
      split: option.splits)

lemma follow_stays [simp]: "stays (follow_typedefs k st ts)" "stays (FOLLOW_AND_CHECK_TSPTR k st ts)"
proof -
  show f: "stays (follow_typedefs k st ts)" for k ts
    by (induction k arbitrary: ts) (auto intro!: stays_then)
  show "stays (FOLLOW_AND_CHECK_TSPTR k st ts)"
    using f by (auto simp: FOLLOW_AND_CHECK_TSPTR_def intro!: stays_then split: option.splits)
qed

lemma safe_hook_call_typespec [safe_rule]: "perl_ok (cbc_perl c) \<Longrightarrow> safe P (hook_call_typespec c ts i sv) always"
  by (auto simp: hook_call_typespec_def typedef_decl_def intro!: safe_then [OF safe_run [where Q = always]] safe_call_hook safe_return stays_then)

section \<open>What the types have to be\<close>

text \<open>Sizes and dimensions are not negative, in the configuration, on the host and in the types.\<close>

definition layout_sizes_ok :: "CBC \<Rightarrow> bool" where
  "layout_sizes_ok c \<longleftrightarrow> (let lp = cbc_layout c; h = cbc_host c in list_all (\<lambda>n. 0 \<le> n)
     [char_size lp, int_size lp, short_size lp, long_size lp, long_long_size lp, ptr_size lp, float_size lp, double_size lp,
      long_double_size lp, sizeof_char h, sizeof_short h, sizeof_int h, sizeof_long h, sizeof_long_long h, sizeof_float h,
      sizeof_double h, sizeof_long_double h, sizeof_ptr h])"

definition dimensions_ok :: "Declarator \<Rightarrow> bool" where
  "dimensions_ok d \<longleftrightarrow> (case ext_array d of None \<Rightarrow> True | Some vs \<Rightarrow> list_all (\<lambda>v. 0 \<le> iv v) vs)"

definition members_ok :: "Struct \<Rightarrow> bool" where
  "members_ok s \<longleftrightarrow> 0 \<le> s_size s \<and> list_all (\<lambda>sd. case sd_declarators sd of None \<Rightarrow> True | Some ds \<Rightarrow> list_all dimensions_ok ds)
     (struct_declarations s)"

definition enum_ok :: "EnumSpecifier \<Rightarrow> bool" where
  "enum_ok e \<longleftrightarrow> (\<forall>n\<in>set_option (es_unsigned_size e) \<union> set_option (es_signed_size e). 0 \<le> n)"

definition types_ok :: "CState \<Rightarrow> bool" where
  "types_ok st \<longleftrightarrow> (\<forall>n s. structs st n = Some s \<longrightarrow> members_ok s) \<and> (\<forall>n e. enums st n = Some e \<longrightarrow> enum_ok e)
     \<and> (\<forall>n t d. typedefs st n = Some t \<longrightarrow> td_decl t = Some d \<longrightarrow> dimensions_ok d)"

definition cbc_ok :: "CBC \<Rightarrow> bool" where
  "cbc_ok c \<longleftrightarrow> types_ok (cbc_types c) \<and> layout_sizes_ok c \<and> perl_ok (cbc_perl c)"

definition field_ok :: "BitfieldInfo option \<Rightarrow> bool" where
  "field_ok bi \<longleftrightarrow> (case bi of None \<Rightarrow> True | Some b \<Rightarrow> 0 \<le> bf_size b)"

lemma or_native_nonneg: "0 \<le> a \<Longrightarrow> 0 \<le> b \<Longrightarrow> 0 \<le> or_native a b"
  by (simp add: or_native_def)

lemma load_size_nonneg: "cbc_ok c \<Longrightarrow> field_ok bi \<Longrightarrow> 0 \<le> fst (load_size c flags bi)"
  by (auto simp: load_size_def Let_def cbc_ok_def layout_sizes_ok_def field_ok_def intro!: or_native_nonneg split: option.splits)

lemma pointer_size_nonneg: "cbc_ok c \<Longrightarrow> 0 \<le> pointer_size c"
  by (simp add: pointer_size_def cbc_ok_def layout_sizes_ok_def Let_def or_native_nonneg)

lemma inner_size_nonneg: "0 \<le> n \<Longrightarrow> list_all (\<lambda>v. 0 \<le> iv v) vs \<Longrightarrow> 0 \<le> inner_size vs n"
  by (induction vs arbitrary: n) auto

lemma element_size_nonneg: "dimensions_ok d \<Longrightarrow> ext_array d = Some vs \<Longrightarrow> 0 < d_item_size d \<Longrightarrow> 0 \<le> element_size d vs n"
  unfolding element_size_def by (rule inner_size_nonneg) (auto simp: dimensions_ok_def list_all_iff dest: in_set_dropD)

lemma cbc_ok_perl [simp]: "cbc_ok c \<Longrightarrow> perl_ok (cbc_perl c)"
  by (simp add: cbc_ok_def)

section \<open>Scalars\<close>

lemma safe_fetch_int: "0 \<le> n \<Longrightarrow> safe (enough n) (fetch_int_sv c n sign bi) always"
  unfolding fetch_int_sv_def by (auto intro: safe_then [OF safe_get_integer] safe_return)

lemma safe_unsupported_fp: "safe P (unsupported_fp flags what) always" "safe P (cannot_fp c what n) always"
  by (auto simp: unsupported_fp_def cannot_fp_def intro: safe_fail safe_sets split: option.splits)

lemma safe_fetch_float: "0 \<le> n \<Longrightarrow> safe (enough n) (fetch_float_sv c n flags) always"
  unfolding fetch_float_sv_def
  by (auto intro!: safe_then [OF safe_unsupported_fp(1)] safe_then [OF safe_unsupported_fp(2)] safe_return safe_get_then
      safe_then [OF safe_get_bytes])

lemma safe_unpack_pointer: "cbc_ok c \<Longrightarrow> safe P (unpack_pointer c) always"
  unfolding unpack_pointer_def by (intro safe_check_buffer safe_fetch_int pointer_size_nonneg)

lemma safe_unpack_basic: "cbc_ok c \<Longrightarrow> field_ok bi \<Longrightarrow> safe P (unpack_basic c flags bi) always"
proof -
  assume ok: "cbc_ok c" "field_ok bi"
  obtain n fl where n: "load_size c flags bi = (n, fl)" by fastforce
  with load_size_nonneg [OF ok, of flags] have pos: "0 \<le> n" by simp
  with n show ?thesis by (auto simp: unpack_basic_def intro!: safe_check_buffer safe_fetch_int safe_check_then safe_fetch_float)
qed

lemma safe_unpack_format: "0 \<le> n \<Longrightarrow> safe P (unpack_format tag n flexible) always"
proof -
  assume n: "0 \<le> n"
  let ?read = "\<lambda>n. pk_then (get_bytes n) (\<lambda>bs.
       if tag_flags tag = CBC_TAG_FORMAT_BINARY then pk_return (newSVpv (map byte_char bs))
       else if tag_flags tag = CBC_TAG_FORMAT_STRING then pk_return (newSVpv (c_string (map byte_char bs)))
       else pk_fail Fatal_error)"
  have read: "safe (enough n) (?read n) always" if "0 \<le> n" for n
    by (rule safe_then [OF safe_get_bytes [OF that]]) (auto intro: safe_return safe_fail)
  show ?thesis unfolding safe_def
  proof (intro allI impI)
    fix s assume s: "buffer_ok s \<and> P s"
    define remain where "remain = pk_length s - pk_pos s"
    define m where "m = (if flexible then remain - remain mod n else n)"
    consider "pk_pos s + n > pk_length s" | "pk_pos s + n \<le> pk_length s" "flexible \<and> n = 0"
      | "pk_pos s + n \<le> pk_length s" "\<not> (flexible \<and> n = 0)" by linarith
    then show "case unpack_format tag n flexible s of Inl e \<Rightarrow> e \<noteq> Outside_buffer | Inr (x, s') \<Rightarrow> always x \<and> buffer_ok s'"
    proof cases
      case 1
      with s show ?thesis by (simp add: unpack_format_def)
    next
      case 2
      then show ?thesis by (simp add: unpack_format_def pk_then_def pk_fail_def)
    next
      case 3
      have "0 \<le> remain" using 3(1) n by (simp add: remain_def)
      moreover have "n \<le> remain" using 3(1) by (simp add: remain_def)
      ultimately have m: "0 \<le> m" "m \<le> remain"
        using n 3 pos_mod_sign [of n remain] zmod_le_nonneg_dividend [of remain n] by (auto simp: m_def)
      then have "enough m s" by (simp add: enough_def remain_def)
      moreover have "unpack_format tag n flexible s = ?read m s"
        using 3 by (auto simp: unpack_format_def m_def remain_def Let_def return_then)
      ultimately show ?thesis using read [OF m(1)] s by (simp add: safe_def)
    qed
  qed
qed

lemma enum_bytes_ok: "cbc_ok c \<Longrightarrow> enum_ok e \<Longrightarrow> field_ok bi \<Longrightarrow> enum_bytes c e bi = Inr n \<Longrightarrow> 0 \<le> n"
  by (auto simp: enum_bytes_def GET_ENUM_SIZE_def enum_ok_def field_ok_def split: option.splits if_splits)

lemma enum_bytes_stays: "stays (enum_bytes c e bi)"
  by (auto simp: enum_bytes_def GET_ENUM_SIZE_def split: option.splits)

lemma safe_enum_sv: "safe P (enum_sv c e v) always"
  by (auto simp: enum_sv_def Let_def warn_unsafe_enum_def intro!: safe_return safe_then [OF safe_when] safe_sets split: EnumType.splits)

lemma safe_unpack_enum:
  assumes ok: "cbc_ok c" "enum_ok e" "field_ok bi"
  shows "safe P (unpack_enum c e bi) always"
  unfolding unpack_enum_def
proof (rule safe_then [OF safe_run [OF enum_bytes_stays]])
  fix n assume "enum_bytes c e bi = Inr n"
  from enum_bytes_ok [OF ok this] show "0 \<le> n" .
next
  fix n :: int assume n: "0 \<le> n"
  have rest: "safe always (pk_then (enum_sv c e v) (\<lambda>sv. pk_then (set_order old) (\<lambda>_.
      call_hook c (es_tags e) (Some ''enum '') (es_identifier e) HOOKID_unpack sv))) always" for v old
    using ok by (intro safe_then [OF safe_enum_sv] safe_then [OF safe_sets(2)] safe_call_hook) simp
  have by_value: "safe always (unpack_enum_value c e bi n) always"
    unfolding unpack_enum_value_def
    by (rule safe_then [OF safe_get [where Q = always]], simp, rule safe_then [OF safe_SET_BYTEORDER], rule safe_check_buffer,
        rule safe_then [OF safe_get_integer [OF n]], rule rest)
  show "safe always (case find_tag (es_tags e) CBC_TAG_FORMAT of
       Some tag \<Rightarrow> pk_then (pk_check (bi = None)) (\<lambda>_. pk_then (unpack_format tag n False) (\<lambda>sv.
         call_hook c (es_tags e) (Some ''enum '') (es_identifier e) HOOKID_unpack sv))
     | None \<Rightarrow> unpack_enum_value c e bi n) always"
    using by_value n ok by (auto intro!: safe_then [OF safe_check] safe_then [OF safe_unpack_format] safe_call_hook split: option.splits)
qed

section \<open>Arrays and compounds\<close>

text \<open>What is known of the recursive calls.\<close>

definition decl_ok :: "Declarator option \<Rightarrow> bool" where
  "decl_ok decl \<longleftrightarrow> (case decl of None \<Rightarrow> True | Some d \<Rightarrow> dimensions_ok d)"

definition types_safe :: "unpack_type_fun \<Rightarrow> bool" where
  "types_safe rec_type \<longleftrightarrow> (\<forall>ts decl dim bi. decl_ok decl \<and> field_ok bi \<longrightarrow> safe always (rec_type ts decl dim bi) always)"

definition structs_safe :: "unpack_struct_fun \<Rightarrow> bool" where
  "structs_safe rec_struct \<longleftrightarrow> (\<forall>p hash. safe always (rec_struct p hash) always)"

lemma safe_position: "(\<And>p. 0 \<le> p \<Longrightarrow> safe always (f p) R) \<Longrightarrow> safe P (pk_then (pk_get pk_pos) f) R"
  by (rule safe_then [OF safe_get [where Q = "\<lambda>p. 0 \<le> p"]]) (simp_all add: buffer_ok_def)

lemma safe_run_then: "stays r \<Longrightarrow> (\<And>x. r = Inr x \<Longrightarrow> safe P (f x) R) \<Longrightarrow> safe P (pk_then (pk_run r) f) R"
  by (cases r) (simp_all add: safe_def pk_then_def pk_run_def)

lemma safe_bitfield_of: "safe P (bitfield_of d) field_ok"
  by (auto simp: bitfield_of_def Let_def field_ok_def intro!: safe_check_then safe_return)

lemma safe_unpack_array:
  assumes ok: "cbc_ok c" "dimensions_ok d" and rec: "types_safe rec_type"
  shows "safe P (unpack_array rec_type c ts d dim dimtag bi) always"
  unfolding unpack_array_def Let_def
proof (intro safe_run_then safe_check_then)
  fix v vs assume item: "0 < d_item_size d \<and> bi = None" and vs: "array_dims_of d = Inr vs"
  let ?n = "element_size d vs (dim + 1)"
  have "ext_array d = Some vs" using vs by (auto simp: array_dims_of_def split: option.splits)
  then have n: "0 \<le> ?n" using element_size_nonneg ok(2) item by blast
  have elem: "safe always (unpack_element rec_type ts d dim p ?n i) always" if "0 \<le> p" "0 \<le> i" for p i
    unfolding unpack_element_def
    by (rule safe_then [OF safe_sets(1)]) (use that n ok(2) rec in \<open>auto simp: types_safe_def decl_ok_def field_ok_def\<close>)
  have elems: "safe always (pk_map (unpack_element rec_type ts d dim p ?n) (map int [0..<k])) always" if "0 \<le> p" for p k
    by (rule safe_map) (use elem that in auto)
  have count: "safe P (unpack_count c dimtag dim v avail) always" for P :: "PackInfo \<Rightarrow> bool" and avail
    unfolding unpack_count_def
    by (rule safe_then [where Q = always])
      (use ok(1) in \<open>auto split: option.splits intro!: safe_check_then safe_eval_dimension safe_return\<close>)
  have ext: "safe P (av_extend c s) always" for P :: "PackInfo \<Rightarrow> bool" and s
    by (simp add: av_extend_def safe_fail safe_return)
  show "safe P (if ?n = 0 then pk_fail Undefined_behaviour
     else pk_then (available ?n) (\<lambda>avail. pk_then (unpack_count c dimtag dim v avail) (\<lambda>s. pk_then (av_extend c s) (\<lambda>_.
       pk_then (pk_get pk_pos) (\<lambda>pos0. pk_then (pk_map (unpack_element rec_type ts d dim pos0 ?n) (map int [0..<nat s])) (\<lambda>svs.
         pk_return (AVref (map Some svs)))))))) always"
    unfolding available_def
    by (auto intro!: safe_fail safe_get_then safe_then [OF count] safe_then [OF ext] safe_position safe_then [OF elems] safe_return)
qed simp_all

lemma safe_unpack_declarator:
  assumes d: "dimensions_ok d" "0 \<le> pos0" and rec: "types_safe rec_type"
  shows "safe P (unpack_declarator rec_type c p s pos0 ts d h) always"
proof -
  have twice: "safe P (warn_used_twice c p s d) always" for P :: "PackInfo \<Rightarrow> bool"
    by (auto simp: warn_used_twice_def intro: safe_fail safe_sets split: option.splits prod.splits)
  have "safe always (rec_type ts (Some d) 0 bi) always" if "field_ok bi" for bi
    using rec d(1) that by (simp add: types_safe_def decl_ok_def)
  then show ?thesis
    using d(2) by (auto simp: unpack_declarator_def intro!: safe_then [OF twice] safe_return safe_check_then safe_then [OF safe_sets(1)]
        safe_then [OF safe_bitfield_of] safe_then [OF safe_sets(3)] safe_then [where Q = always and m = "rec_type _ _ _ _"])
qed

lemma safe_unpack_declaration:
  assumes sd: "case sd_declarators sd of None \<Rightarrow> True | Some ds \<Rightarrow> list_all dimensions_ok ds" "0 \<le> pos0"
    and rec: "types_safe rec_type" "structs_safe rec_struct"
  shows "safe always (unpack_declaration rec_type rec_struct k c p s pos0 sd h) always"
proof (cases "sd_declarators sd")
  case (Some ds)
  then show ?thesis using sd rec(1)
    by (auto simp: unpack_declaration_def list_all_iff intro!: safe_fold safe_unpack_declarator)
next
  case None
  have "safe always (rec_struct (Some n) (Some h)) always" for n using rec(2) by (simp add: structs_safe_def)
  then show ?thesis using None sd(2)
    by (auto simp: unpack_declaration_def intro!: safe_run_then safe_check_then safe_then [OF safe_sets(1)]
        safe_then [where Q = always and m = "rec_struct _ _"] safe_return)
qed

lemma step_structs_safe:
  assumes ok: "cbc_ok c" and rec: "types_safe rec_type" "structs_safe rec_struct"
  shows "structs_safe (unpack_struct_step rec_type rec_struct k c)"
  unfolding structs_safe_def unpack_struct_step_def
proof (intro allI safe_run_then safe_get_then)
  fix p hash s old assume s: "struct_at (cbc_types c) p = Inr s"
  then have m: "members_ok s" using ok by (auto simp: struct_at_def cbc_ok_def types_ok_def split: option.splits)
  have members: "safe always (unpack_members rec_type rec_struct k c p s h) always" for h
    unfolding unpack_members_def
    by (rule safe_position, rule safe_fold, rule safe_unpack_declaration [OF _ _ rec]) (use m in \<open>auto simp: members_ok_def list_all_iff\<close>)
  have sz: "0 \<le> s_size s" using m by (simp add: members_ok_def)
  have value_of: "safe always (case find_tag (s_tags s) CBC_TAG_FORMAT of
             Some tag \<Rightarrow> unpack_format tag (s_size s) False
           | None \<Rightarrow> pk_then (SET_BYTEORDER (s_tags s)) (\<lambda>_.
               pk_then (unpack_members rec_type rec_struct k c p s []) (\<lambda>h.
               pk_then (set_order old) (\<lambda>_. pk_return (HVref h))))) always"
    using sz by (auto split: option.splits intro!: safe_unpack_format safe_then [OF safe_SET_BYTEORDER] safe_then [OF members]
        safe_then [OF safe_sets(2)] safe_return)
  show "safe always (case hash of
       Some h \<Rightarrow> pk_then (unpack_members rec_type rec_struct k c p s h) (\<lambda>h. pk_then (set_order old) (\<lambda>_. pk_return (None, h)))
     | None \<Rightarrow> pk_then (case find_tag (s_tags s) CBC_TAG_FORMAT of
             Some tag \<Rightarrow> unpack_format tag (s_size s) False
           | None \<Rightarrow> pk_then (SET_BYTEORDER (s_tags s)) (\<lambda>_.
               pk_then (unpack_members rec_type rec_struct k c p s []) (\<lambda>h.
               pk_then (set_order old) (\<lambda>_. pk_return (HVref h))))) (\<lambda>sv.
         pk_then (call_hook c (s_tags s) (struct_prefix (s_tflags s)) (s_identifier s) HOOKID_unpack sv) (\<lambda>sv.
         pk_return (Some sv, [])))) always"
    by (cases hash) (auto intro!: safe_then [OF members] safe_then [OF safe_sets(2)] safe_then [OF value_of]
        safe_then [OF safe_call_hook [OF cbc_ok_perl [OF ok]]] safe_return)
qed simp_all

lemma safe_prepare_pack_format:
  assumes "cbc_ok c"
  shows "safe P (prepare_pack_format c d dimtag) (\<lambda>(n, flexible). 0 \<le> n)"
proof -
  have one: "stays (one_element d)" by (auto simp: one_element_def intro!: stays_then)
  have final: "safe always (case r of (n, flexible) \<Rightarrow> pk_then (pk_check (n > 0)) (\<lambda>_. pk_return (n, flexible))) (\<lambda>(n, flexible). 0 \<le> n)"
    for r :: "int \<times> bool"
    by (cases r) (auto intro!: safe_check_then safe_return)
  have first: "safe P (if dimtag \<noteq> None \<or> d_size d = 0 then pk_run (one_element d) else pk_return 0) always"
    using one by (auto intro: safe_run safe_return)
  show ?thesis unfolding prepare_pack_format_def
    by (rule safe_then [OF first], rule safe_then [where Q = always, OF _ final])
      (use assms in \<open>auto intro!: safe_check_then safe_return safe_then [OF safe_eval_dimension] split: option.splits\<close>)
qed

section \<open>Types\<close>

lemma pTypedef_ok: "cbc_ok c \<Longrightarrow> pTypedef (cbc_types c) ts = Inr (t, d) \<Longrightarrow> decl_ok (Some d)"
  by (auto simp: pTypedef_def cbc_ok_def types_ok_def decl_ok_def split: option.splits prod.splits)

lemma safe_unpack_untagged:
  assumes ok: "cbc_ok c" "decl_ok decl" "field_ok bi" and rec: "types_safe rec_type" "structs_safe rec_struct"
  shows "safe P (unpack_untagged rec_type rec_struct c ts decl dim dimtag bi) always"
proof -
  have array: "is_array_at decl dim \<Longrightarrow> safe P (unpack_array rec_type c ts (the decl) dim dimtag bi) always"
    using ok(2) by (auto simp: is_array_at_def decl_ok_def intro: safe_unpack_array [OF ok(1) _ rec(1)] split: option.splits)
  have undef: "safe P (pk_then (WARN_UNDEF_STRUCT s) (\<lambda>_. pk_return Undef)) always" for P :: "PackInfo \<Rightarrow> bool" and s
    by (auto simp: WARN_UNDEF_STRUCT_def intro!: safe_then [OF safe_sets(4)] safe_return)
  have compound: "safe P (pk_then (rec_struct p None) (\<lambda>(sv, _). pk_run (or_assert sv))) always" for P :: "PackInfo \<Rightarrow> bool" and p
    using rec(2) by (auto simp: structs_safe_def intro!: safe_then [OF safe_any] safe_run split: prod.splits)
  have types: "safe P (rec_type t (Some d) 0 bi) always" if "pTypedef (cbc_types c) ts = Inr (t, d)" for P :: "PackInfo \<Rightarrow> bool" and t d
    using rec(1) ok(3) pTypedef_ok [OF ok(1) that] by (auto simp: types_safe_def intro: safe_any)
  have enum: "safe P (unpack_enum c e bi) always" if "enum_at (cbc_types c) p = Inr e" for P :: "PackInfo \<Rightarrow> bool" and e p
    using that ok by (auto simp: enum_at_def cbc_ok_def types_ok_def split: option.splits intro!: safe_unpack_enum)
  show ?thesis unfolding unpack_untagged_def
    using array undef compound types enum ok
    by (auto intro!: safe_check_then safe_then [OF safe_unpack_pointer] safe_hook_call_typespec safe_run_then safe_unpack_basic)
qed

lemma step_types_safe:
  assumes ok: "cbc_ok c" and rec: "types_safe rec_type" "structs_safe rec_struct"
  shows "types_safe (unpack_type_step rec_type rec_struct c)"
  unfolding types_safe_def unpack_type_step_def Let_def
proof (intro allI impI safe_get_then)
  fix ts decl dim bi old assume d: "decl_ok decl \<and> field_ok bi"
  let ?tags = "decl_tags decl dim"
  have fmt: "safe always (pk_then (prepare_pack_format c (the decl) dimtag) (\<lambda>(n, flexible). unpack_format tag n flexible)) always" for dimtag tag
    by (rule safe_then [OF safe_prepare_pack_format [OF ok]]) (auto intro: safe_unpack_format)
  have plain: "safe always (pk_then (SET_BYTEORDER ?tags) (\<lambda>_.
           pk_then (pk_check (\<not> is_bitfield decl \<or> bi \<noteq> None)) (\<lambda>_.
           pk_then (unpack_untagged rec_type rec_struct c ts decl dim (find_tag ?tags CBC_TAG_DIMENSION) bi) (\<lambda>sv.
           pk_then (set_order old) (\<lambda>_. pk_return sv))))) always"
    using d by (auto intro!: safe_then [OF safe_SET_BYTEORDER] safe_check_then
        safe_then [OF safe_unpack_untagged [OF ok _ _ rec]] safe_then [OF safe_sets(2)] safe_return)
  show "safe always (pk_then (case find_tag ?tags CBC_TAG_FORMAT of
         Some tag \<Rightarrow> pk_then (pk_check (bi = None)) (\<lambda>_.
           pk_then (prepare_pack_format c (the decl) (find_tag ?tags CBC_TAG_DIMENSION)) (\<lambda>(n, flexible). unpack_format tag n flexible))
       | None \<Rightarrow> pk_then (SET_BYTEORDER ?tags) (\<lambda>_.
           pk_then (pk_check (\<not> is_bitfield decl \<or> bi \<noteq> None)) (\<lambda>_.
           pk_then (unpack_untagged rec_type rec_struct c ts decl dim (find_tag ?tags CBC_TAG_DIMENSION) bi) (\<lambda>sv.
           pk_then (set_order old) (\<lambda>_. pk_return sv))))) (\<lambda>sv.
     call_hook c ?tags None (decl_name decl) HOOKID_unpack sv)) always"
    by (rule safe_then [where Q = always])
      (use fmt plain ok in \<open>auto split: option.splits intro!: safe_check_then safe_call_hook\<close>)
qed

lemma all_safe:
  assumes "cbc_ok c"
  shows "types_safe (unpack_type k c) \<and> structs_safe (unpack_struct k c)"
proof (induction k)
  case 0
  show ?case by (simp add: types_safe_def structs_safe_def unpack_type.simps unpack_struct.simps safe_fail)
next
  case (Suc k)
  have "unpack_type (Suc k) c = unpack_type_step (unpack_type k c) (unpack_struct k c) c"
    "unpack_struct (Suc k) c = unpack_struct_step (unpack_type k c) (unpack_struct k c) k c"
    by (simp_all add: fun_eq_iff unpack_type.simps unpack_struct.simps)
  with step_types_safe [OF assms] step_structs_safe [OF assms] Suc show ?case by simp
qed

end
