(* ===== verification/Pack_Props.thy ===== *)
theory Pack_Props
  imports Pack_Roundtrip Unpack_Safe Layout_Examples
begin

text \<open>The properties of \<^verbatim>\<open>cbc/pack.c\<close>.\<close>

section \<open>Packing and unpacking\<close>

text \<open>The buffer holds \<open>n\<close> bytes from the current position on.\<close>

definition buffer_holds :: "int \<Rightarrow> PackInfo \<Rightarrow> bool" where
  "buffer_holds n s \<longleftrightarrow> 0 \<le> pk_pos s \<and> pk_pos s + n \<le> pk_length s \<and> pk_length s \<le> pk_allocated s \<and> pk_length s < 2 ^ 64
     \<and> pk_idl s \<noteq> []"

lemma fits_nonneg: "fits_type k c ts decl dim bi n sv \<Longrightarrow> 0 \<le> n"
  by (cases k) (simp_all add: fits_type.simps fits_type_step_def)

lemma pack_then_unpack:
  assumes f: "fits_type k c ts decl dim None n sv" and b: "buffer_holds n s"
  shows "\<exists>s1 s2. pk_pack k c ts decl dim sv s = Inr ((), s1)
    \<and> (\<forall>a. int a < pk_pos s \<or> pk_pos s + n \<le> int a \<longrightarrow> pk_buffer s1 a = pk_buffer s a)
    \<and> pk_length s1 = pk_length s \<and> pk_warnings s1 = pk_warnings s
    \<and> pk_unpack k c ts decl dim (s1\<lparr>pk_pos := pk_pos s\<rparr>) = Inr (sv, s2) \<and> pk_warnings s2 = pk_warnings s"
proof -
  let ?s0 = "s\<lparr>pk_order := bits_order c\<rparr>" and ?p = "pk_pos s"
  have g: "good ?s0" "0 \<le> ?p" "?p + n \<le> pk_length ?s0" using b by (simp_all add: good_def buffer_holds_def)
  from all_convert [of c k] have "types_convert c (fits_type k c) (pack_type k c) (unpack_type k c)" by blast
  from types_convertD [OF this f g]
  have "converts (bits_order c) ?s0 ?p (8 * ?p) (8 * (?p + n)) (pack_type k c ts decl dim None sv) (unpack_type k c ts decl dim None) sv"
    by simp
  from convertsE [OF this, of ?s0] obtain s1 where s1: "pack_type k c ts decl dim None sv ?s0 = Inr ((), s1)" "like ?s0 s1"
    "outside (bits_order c) (8 * ?p) (8 * (?p + n)) (pk_buffer s) (pk_buffer s1)"
    "\<And>s2. reading ?s0 s2 \<Longrightarrow> pk_pos s2 = ?p \<Longrightarrow> agree (bits_order c) (8 * ?p) (8 * (?p + n)) (pk_buffer s1) (pk_buffer s2) \<Longrightarrow>
      \<exists>s3. unpack_type k c ts decl dim None s2 = Inr (sv, s3) \<and> like s2 s3 \<and> pk_buffer s3 = pk_buffer s2" by auto
  have rd: "reading ?s0 (s1\<lparr>pk_pos := ?p\<rparr>)" using s1(2) by (simp add: like_reading)
  then have eq: "s1\<lparr>pk_pos := ?p, pk_order := bits_order c\<rparr> = s1\<lparr>pk_pos := ?p\<rparr>" by (simp add: reading_def)
  from s1(4) [OF rd] obtain s2 where s2: "unpack_type k c ts decl dim None (s1\<lparr>pk_pos := ?p\<rparr>) = Inr (sv, s2)" "like (s1\<lparr>pk_pos := ?p\<rparr>) s2"
    by auto
  have "pk_buffer s1 a = pk_buffer s a" if "int a < ?p \<or> ?p + n \<le> int a" for a
  proof -
    have "a < nat ?p \<or> nat ?p + nat n \<le> a" using that g(2) fits_nonneg [OF f] by auto
    with outside_bytes [of "bits_order c" "nat ?p" "nat n" "pk_buffer s" "pk_buffer s1" a] s1(3) g(2) fits_nonneg [OF f]
    show ?thesis by simp
  qed
  with s1(1,2) s2 show ?thesis by (simp add: pk_pack_def pk_unpack_def eq like_def)
qed

text \<open>
  C1 A value that fits a type (structs with bit-fields, nested and unnamed compounds,
  arrays, pointers, enums and floating point numbers, in any byte order and with byte order
  tags) packs without a warning, changes no byte outside its own, and unpacks to itself.
\<close>

theorem pack_roundtrip:
  assumes "fits_type k c ts decl dim None n sv" and "buffer_holds n s"
  shows "\<exists>s1 s2. pk_pack k c ts decl dim sv s = Inr ((), s1)
    \<and> (\<forall>a. int a < pk_pos s \<or> pk_pos s + n \<le> int a \<longrightarrow> pk_buffer s1 a = pk_buffer s a)
    \<and> pk_length s1 = pk_length s \<and> pk_warnings s1 = pk_warnings s
    \<and> pk_unpack k c ts decl dim (s1\<lparr>pk_pos := pk_pos s\<rparr>) = Inr (sv, s2) \<and> pk_warnings s2 = pk_warnings s"
  by (rule pack_then_unpack [OF assms])

section \<open>An example\<close>

text \<open>
  \<open>struct sample { char c; unsigned a : 3, b : 7; short s[2]; struct { int x; }; struct sample *next; }\<close>
  laid out on a 64-bit host, the shorts in big-endian order by a tag.
\<close>

definition at_offset :: "Declarator \<Rightarrow> int \<Rightarrow> int \<Rightarrow> int \<Rightarrow> Declarator" where
  "at_offset d off n item = d\<lparr>d_offset := off, d_size := n, d_item_size := item\<rparr>"

definition field_at :: "string \<Rightarrow> int \<Rightarrow> int \<Rightarrow> int \<Rightarrow> int \<Rightarrow> Declarator" where
  "field_at name off n p b = at_offset ((decl_new (Some name) 0)\<lparr>bitfield_flag := True,
     ext_bitfield := \<lparr>bf_size = n, bf_bits = b, bf_pos = p\<rparr>\<rparr>) off n n"

definition big_endian_tag :: CtTag where
  "big_endian_tag = \<lparr>tag_type = CBC_TAG_BYTE_ORDER, tag_flags = CBC_TAG_BYTE_ORDER_BIG_ENDIAN, tag_any = 0, tag_vtable = None\<rparr>"

definition sample_struct :: Struct where
  "sample_struct = (struct_new (Some ''sample'') 0 T_STRUCT 0 (Some
     [structdecl_new \<lparr>ts_ptr = None, ts_tflags = T_CHAR\<rparr> (Some [at_offset (decl_new (Some ''c'') 0) 0 1 1]),
      structdecl_new \<lparr>ts_ptr = None, ts_tflags = T_UNSIGNED\<rparr> (Some [field_at ''a'' 2 2 0 3, field_at ''b'' 2 2 3 7]),
      structdecl_new \<lparr>ts_ptr = None, ts_tflags = T_SHORT\<rparr> (Some
        [at_offset ((array_member ''s'' 2)\<lparr>d_tags := [big_endian_tag]\<rparr>) 4 4 2]),
      (structdecl_new \<lparr>ts_ptr = Some 1, ts_tflags = T_STRUCT\<rparr> None)\<lparr>sd_offset := 8, sd_size := 4\<rparr>,
      structdecl_new \<lparr>ts_ptr = Some 0, ts_tflags = T_STRUCT\<rparr> (Some [at_offset (pointer_member ''next'') 16 8 8])]))
     \<lparr>s_size := 24, s_align := 8\<rparr>"

definition sample_part :: Struct where
  "sample_part = (struct_new None 0 T_STRUCT 0 (Some
     [structdecl_new \<lparr>ts_ptr = None, ts_tflags = T_INT\<rparr> (Some [at_offset (decl_new (Some ''x'') 0) 0 4 4])]))\<lparr>s_size := 4, s_align := 4\<rparr>"

definition plain_perl :: perl where
  "plain_perl = \<lparr>SvIV = (\<lambda>sv. case sv of Scalar (Some i) _ _ \<Rightarrow> word_of_int i | _ \<Rightarrow> 0),
     SvUV = (\<lambda>sv. case sv of Scalar (Some i) _ _ \<Rightarrow> word_of_int i | _ \<Rightarrow> 0),
     SvNV = (\<lambda>sv. case sv of Scalar _ (Some x) _ \<Rightarrow> x | _ \<Rightarrow> 0), SvPV = (\<lambda>sv. case sv of Scalar _ _ (Some s) \<Rightarrow> s | _ \<Rightarrow> []),
     looks_like_number = SvIOK, call_sv = (\<lambda>_ _. Inl (Croaked [])), nv_bytes = (\<lambda>n x. replicate n 0), bytes_nv = (\<lambda>_ _. 0),
     largest_allocation = 2 ^ 40\<rparr>"

definition native_cbc :: "CState \<Rightarrow> CBC" where
  "native_cbc st = \<lparr>cbc_types = st, cbc_layout = native_layout, cbc_host = x64, unsigned_chars = False, unsigned_bitfields = False,
     enumType = ET_INTEGER, htEnumerators = \<lparr>ht_count = 0, ht_size = 1, ht_flags = 0, ht_bmask = 1, ht_root = [[], []]\<rparr>, tag_hooks = (\<lambda>_. hook_new None),
     tag_dimension = (\<lambda>_. DTT_NONE), defined_in = (\<lambda>_. ([], 0)), cbc_self = Otherref, cbc_arch = x86, ieee_fp = True,
     have_long_double = True, char_is_unsigned = False, uninitialised = 0xDEAD, cbc_perl = plain_perl\<rparr>"

definition sample_cbc :: CBC where
  "sample_cbc = native_cbc (Layout_Examples.store [sample_struct, sample_part])"

definition sample_value :: SV where
  "sample_value = HVref [(''c'', newSViv (-5)), (''a'', newSViv 6), (''b'', newSViv 100),
     (''s'', AVref [Some (newSViv (-2)), Some (newSViv 1000)]), (''x'', newSViv (-70000)), (''next'', newSViv (2 ^ 63))]"

definition empty_buffer :: "int \<Rightarrow> PackInfo" where
  "empty_buffer n = pk_set_buffer (\<lambda>_. 0) n (n + 1) (pk_set_type ''sample'' pk_create)"

abbreviation sample_type :: TypeSpec where
  "sample_type \<equiv> \<lparr>ts_ptr = Some 0, ts_tflags = T_STRUCT\<rparr>"

lemma sample_fits: "fits_type 4 sample_cbc sample_type None 0 None 24 sample_value"
  by code_simp

theorem pack_roundtrip_witness:
  "\<exists>s1 s2. pk_pack 4 sample_cbc sample_type None 0 sample_value (empty_buffer 24) = Inr ((), s1)
    \<and> pk_unpack 4 sample_cbc sample_type None 0 (s1\<lparr>pk_pos := 0\<rparr>) = Inr (sample_value, s2)"
proof -
  have "buffer_holds 24 (empty_buffer 24)"
    by (simp add: buffer_holds_def empty_buffer_def pk_set_buffer_def pk_set_type_def pk_create_def)
  moreover have "pk_pos (empty_buffer 24) = 0" by (simp add: empty_buffer_def pk_set_buffer_def pk_set_type_def pk_create_def)
  ultimately show ?thesis using pack_roundtrip [OF sample_fits, of "empty_buffer 24"] by auto
qed

section \<open>Structs as the layout makes them\<close>

lemma bit_order_layout: "bit_order c = layout_order (cbc_layout c)"
  by (simp add: bit_order_def layout_order_def)

text \<open>
  C2 For a struct that layout_compound_generic has laid out nothing needs to be assumed
  of the order of its members: a hash with exactly the members, each a value that fits, packs
  and unpacks to itself.
\<close>

theorem laid_out_roundtrip:
  assumes "layoutable m h lp st q" and "layout_compound_generic m h lp st q = Inr (cbc_types c)" and "cbc_layout c = lp"
    and "structs (cbc_types c) q = Some s'" and "plain_tags (s_tags s')"
    and "list_all (fits_declaration (fits_type k c) (fits_struct k c) k c (s_size s') hv) (struct_declarations s')"
    and "map fst hv = struct_keys (Suc k) c (Some q)" and "distinct (map fst hv)"
    and "buffer_holds (s_size s') s"
  shows "\<exists>s1 s2. pk_pack (Suc (Suc k)) c \<lparr>ts_ptr = Some q, ts_tflags = T_STRUCT\<rparr> None 0 (HVref hv) s = Inr ((), s1)
    \<and> pk_unpack (Suc (Suc k)) c \<lparr>ts_ptr = Some q, ts_tflags = T_STRUCT\<rparr> None 0 (s1\<lparr>pk_pos := pk_pos s\<rparr>) = Inr (HVref hv, s2)"
proof -
  from assms(1) obtain s0 sds where l: "structs st q = Some s0" "s_declarations s0 = Some sds" "s_size s0 = 0"
    "has_flag (s_tflags s0) T_STRUCT" "\<not> has_flag (s_tflags s0) T_UNION"
    "1 \<le> member_cap h lp st s0" "member_cap h lp st s0 < 2 ^ 16" "1 \<le> compound_cap h lp st"
    "block_sizes_ok (layouter st)"
    "list_all (declaration_ok (settled_type m q st lp) (info_of m h lp st)
      (configured (layouter st) (member_cap h lp st s0) (layout_order lp))) sds"
    "push_growth + sum_list (map (declaration_weight (member_cap h lp st s0) (info_of m h lp st)) sds) \<le> bit_limit"
    by (rule layoutableE)
  from members.layout_compound_building [OF l] obtain sds' where r: "s_declarations s' = Some sds'"
    "in_order 0 (regions (bit_order c) sds') (8 * s_size s')"
    using assms(2-4) unfolding layout_compound_generic_def by (auto simp: bit_order_layout)
  have st: "struct_at (cbc_types c) (Some q) = Inr s'" using assms(4) by (simp add: struct_at_def)
  have decls: "struct_declarations s' = sds'" using r(1) by (simp add: struct_declarations_def)
  have "fits_struct (Suc k) c (Some q) (s_size s') hv"
    using st decls r(2) assms(6) by (simp add: fits_struct.simps fits_struct_step_def)
  moreover have "0 \<le> s_size s'" using in_order_le [OF r(2)] by simp
  ultimately have "fits_type (Suc (Suc k)) c \<lparr>ts_ptr = Some q, ts_tflags = T_STRUCT\<rparr> None 0 None (s_size s') (HVref hv)"
    using st r(1) assms(5,7,8)
    by (simp add: fits_type.simps fits_type_step_def fits_compound_def is_array_at_def is_pointer_def is_bitfield_def
        decl_tags_def has_flag_def) (simp add: plain_tags_def)
  from pack_then_unpack [OF this assms(9)] show ?thesis by blast
qed

text \<open>\<open>struct pair { char c; short s; }\<close>, to be laid out.\<close>

definition pair_state :: CState where
  "pair_state = Layout_Examples.store [struct_new (Some ''pair'') 0 T_STRUCT 0 (Some
     [declare_members T_CHAR None [decl_new (Some ''c'') 0], declare_members T_SHORT None [decl_new (Some ''s'') 0]])]"

definition pair_value :: HV where
  "pair_value = [(''c'', newSViv 7), (''s'', newSViv (-300))]"

definition pair_laid_out :: "(CBC \<Rightarrow> Struct \<Rightarrow> bool) \<Rightarrow> bool" where
  "pair_laid_out P = (case layout_compound_generic 2 x64 native_layout pair_state 0 of Inl _ \<Rightarrow> False
     | Inr st \<Rightarrow> (case structs st 0 of None \<Rightarrow> False | Some s \<Rightarrow> P (native_cbc st) s))"

lemma pair_facts:
  "layoutable 2 x64 native_layout pair_state 0"
  "pair_laid_out (\<lambda>c s. plain_tags (s_tags s) \<and> s_size s = 4
     \<and> list_all (fits_declaration (fits_type 1 c) (fits_struct 1 c) 1 c (s_size s) pair_value) (struct_declarations s)
     \<and> map fst pair_value = struct_keys (Suc 1) c (Some 0) \<and> distinct (map fst pair_value))"
  by code_simp+

theorem laid_out_roundtrip_witness:
  "\<exists>c s1 s2. layout_compound_generic 2 x64 native_layout pair_state 0 = Inr (cbc_types c)
    \<and> pk_pack 3 c \<lparr>ts_ptr = Some 0, ts_tflags = T_STRUCT\<rparr> None 0 (HVref pair_value) (empty_buffer 4) = Inr ((), s1)
    \<and> pk_unpack 3 c \<lparr>ts_ptr = Some 0, ts_tflags = T_STRUCT\<rparr> None 0 (s1\<lparr>pk_pos := 0\<rparr>) = Inr (HVref pair_value, s2)"
proof -
  from pair_facts(2) obtain st s' where st: "layout_compound_generic 2 x64 native_layout pair_state 0 = Inr st" "structs st 0 = Some s'"
    "plain_tags (s_tags s')" "s_size s' = 4"
    "list_all (fits_declaration (fits_type 1 (native_cbc st)) (fits_struct 1 (native_cbc st)) 1 (native_cbc st) (s_size s') pair_value)
      (struct_declarations s')"
    "map fst pair_value = struct_keys (Suc 1) (native_cbc st) (Some 0)" "distinct (map fst pair_value)"
    by (auto simp: pair_laid_out_def split: sum.splits option.splits)
  have c: "cbc_types (native_cbc st) = st" "cbc_layout (native_cbc st) = native_layout" by (simp_all add: native_cbc_def)
  have b: "buffer_holds (s_size s') (empty_buffer 4)" "pk_pos (empty_buffer 4) = 0"
    by (simp_all add: st(4) buffer_holds_def empty_buffer_def pk_set_buffer_def pk_set_type_def pk_create_def)
  have "\<exists>s1 s2. pk_pack (Suc (Suc 1)) (native_cbc st) \<lparr>ts_ptr = Some 0, ts_tflags = T_STRUCT\<rparr> None 0 (HVref pair_value) (empty_buffer 4) = Inr ((), s1)
    \<and> pk_unpack (Suc (Suc 1)) (native_cbc st) \<lparr>ts_ptr = Some 0, ts_tflags = T_STRUCT\<rparr> None 0 (s1\<lparr>pk_pos := pk_pos (empty_buffer 4)\<rparr>)
      = Inr (HVref pair_value, s2)"
    by (rule laid_out_roundtrip [OF pair_facts(1) _ c(2) _ st(3,5-7) b(1)]) (simp_all add: c(1) st(1,2))
  then show ?thesis using st(1) c(1) b(2) by (intro exI [of _ "native_cbc st"]) (simp add: numeral_3_eq_3)
qed

section \<open>The bounds of the buffer\<close>

text \<open>
  C5 Unpacking reads no byte outside the buffer: not with data that is too short, not
  with flexible arrays, formats, dimension tags of any value or hooks, from any position; with
  sizes and dimensions of types that are not negative and hooks that return or die.
\<close>

theorem unpack_in_bounds:
  assumes "cbc_ok c" and "decl_ok decl" and "buffer_ok s"
  shows "pk_unpack k c ts decl dim s \<noteq> Inl Outside_buffer"
proof -
  have "types_safe (unpack_type k c)" using all_safe [OF assms(1)] by blast
  then have "safe always (unpack_type k c ts decl dim None) always" using assms(2) by (simp add: types_safe_def field_ok_def)
  then have "safe always (pk_unpack k c ts decl dim) always"
    unfolding pk_unpack_def by (intro safe_then [OF safe_sets(2)])
  with assms(3) show ?thesis by (auto simp: safe_def split: sum.splits)
qed

lemma sample_cbc_ok: "cbc_ok sample_cbc"
proof -
  have "structs (cbc_types sample_cbc) n = Some s \<Longrightarrow> members_ok s" for n s
  proof -
    assume "structs (cbc_types sample_cbc) n = Some s"
    then have "s = sample_struct \<or> s = sample_part"
      by (auto simp: sample_cbc_def native_cbc_def Layout_Examples.store_def less_Suc_eq split: if_splits)
    moreover have "members_ok sample_struct" "members_ok sample_part" by code_simp+
    ultimately show "members_ok s" by blast
  qed
  moreover have "enums (cbc_types sample_cbc) n = None" "typedefs (cbc_types sample_cbc) n = None" for n
    by (simp_all add: sample_cbc_def native_cbc_def Layout_Examples.store_def)
  moreover have "layout_sizes_ok sample_cbc" by code_simp
  moreover have "perl_ok (cbc_perl sample_cbc)" by (simp add: perl_ok_def sample_cbc_def native_cbc_def plain_perl_def)
  ultimately show ?thesis by (simp add: cbc_ok_def types_ok_def)
qed

theorem unpack_in_bounds_witness:
  "pk_unpack 4 sample_cbc sample_type None 0 ((empty_buffer 9)\<lparr>pk_pos := 3\<rparr>) \<noteq> Inl Outside_buffer"
  by (rule unpack_in_bounds [OF sample_cbc_ok])
    (simp_all add: decl_ok_def buffer_ok_def empty_buffer_def pk_set_buffer_def pk_set_type_def pk_create_def)

section \<open>Negative dimensions\<close>

text \<open>
  When a dimension tag evaluates to a negative number, which the packed data or a hook
  decides, unpacking gives an array without elements, but packing computes the new length of
  the buffer with a wrap-around: it runs out of memory, or, one byte before position zero,
  grows the buffer by nothing and clears memory behind it.
\<close>

theorem negative_dimension:
  assumes eval: "\<And>avail. dimtag_eval (cbc_perl c) (dimension_of c tag) avail (cbc_self c) (pk_parent s) = Inr (i, ws)"
    and i: "i < 0" "0 < n" "pk_pos s + i * n < 0" "- (2 ^ 62) \<le> pk_pos s + i * n"
    and b: "0 < pk_length s" "pk_length s \<le> pk_allocated s" "pk_allocated s < 2 ^ 62"
      "0 \<le> largest_allocation (cbc_perl c)" "largest_allocation (cbc_perl c) < 2 ^ 62"
  shows "(\<exists>s'. unpack_count c (Some tag) 0 v avail s = Inr (0, s'))
    \<and> pack_count c (Some tag) 0 v avail n s = Inl (if pk_pos s + i * n = -1 then Outside_buffer else Croaked ''Out of memory!'')"
proof
  define s' where "s' = s\<lparr>pk_warnings := pk_warnings s @ ws\<rparr>"
  have e: "eval_dimension c tag a s = Inr (i, s')" for a
    by (simp add: eval_dimension_def eval pk_log_def pk_then_def pk_get_def pk_run_def pk_update_def pk_return_def s'_def)
  have ch: "pk_check ((0::int) = 0) s = Inr ((), s)" by (simp add: pk_check_def pk_run_def)
  show "\<exists>s'. unpack_count c (Some tag) 0 v avail s = Inr (0, s')"
    using e ch i(1) by (simp add: unpack_count_def pk_then_def pk_return_def)
  define r where "r = pk_pos s + i * n"
  have r: "r < 0" "- (2 ^ 62) \<le> r" using i by (simp_all add: r_def)
  have req: "to_ulong r = r + 2 ^ 64"
    unfolding to_ulong_def using r mod_pos_pos_trivial [of "r + 2 ^ 64" "2 ^ 64"] by simp
  have "GROW_BUFFER c (i * n) s' = Inl (if r = -1 then Outside_buffer else Croaked ''Out of memory!'')"
  proof (cases "r = -1")
    case True
    have "to_ulong (- pk_length s) = 2 ^ 64 - pk_length s"
      unfolding to_ulong_def using b mod_pos_pos_trivial [of "2 ^ 64 - pk_length s" "2 ^ 64"] by (simp add: zmod_zminus1_eq_if)
    then show ?thesis using True req b by (simp add: GROW_BUFFER_def s'_def r_def to_ulong_def Let_def)
  next
    case False
    with r have "to_ulong (to_ulong r + 1) = r + 2 ^ 64 + 1" unfolding req by (simp add: to_ulong_def)
    then show ?thesis using False req r b by (simp add: GROW_BUFFER_def s'_def r_def [symmetric] Let_def)
  qed
  then show "pack_count c (Some tag) 0 v avail n s = Inl (if pk_pos s + i * n = -1 then Outside_buffer else Croaked ''Out of memory!'')"
    using e ch by (simp add: pack_count_def pk_then_def r_def)
qed

definition negative_cbc :: CBC where
  "negative_cbc = sample_cbc\<lparr>tag_dimension := (\<lambda>_. DTT_HOOK \<lparr>hk_sub = Some 0, hk_arg = None\<rparr>),
     cbc_perl := plain_perl\<lparr>call_sv := (\<lambda>_ _. Inr (newSViv (-1)))\<rparr>\<rparr>"

theorem negative_dimension_witness:
  "pack_count negative_cbc (Some big_endian_tag) 0 (value_new 4 0) 4 1 (empty_buffer 8) = Inl Outside_buffer
   \<and> (\<exists>s'. unpack_count negative_cbc (Some big_endian_tag) 0 (value_new 4 0) 4 (empty_buffer 8) = Inr (0, s'))"
proof -
  have "dimtag_eval (cbc_perl negative_cbc) (dimension_of negative_cbc big_endian_tag) avail (cbc_self negative_cbc) (pk_parent (empty_buffer 8))
      = Inr (-1, [])" for avail
    by (simp add: dimtag_eval_def negative_cbc_def dimension_of_def dimension_from_hook_def single_hook_call_def sv_to_dimension_def
        plain_perl_def newSViv_def SvOK_def SvROK_def SvIOK_def quiet_def empty_buffer_def pk_set_buffer_def pk_set_type_def pk_create_def)
  from negative_dimension [where c = negative_cbc and s = "empty_buffer 8" and i = "-1" and ws = "[]" and n = 1 and v = "value_new 4 0"
      and avail = 4, OF this]
  show ?thesis
    by (simp add: empty_buffer_def pk_set_buffer_def pk_set_type_def pk_create_def negative_cbc_def sample_cbc_def native_cbc_def plain_perl_def)
qed

section \<open>Hooks\<close>

text \<open>
  C22 The hash of hooks the user gets back for a type can be set again: it gives the same
  hooks, with their arguments, and their number.
\<close>

theorem hooks_roundtrip:
  assumes "\<And>i. hook_ok (get_hook th i)"
  shows "find_hooks type (get_hooks th) (hook_new None) = Inr (length (get_hooks th), th)"
proof -
  have empty: "get_hook th i = no_hook" if "get_single_hook (get_hook th i) = None" for i
    using that assms [of i] by (cases "get_hook th i") (auto simp: get_single_hook_def hook_ok_def no_hook_def split: option.splits)
  have sub: "get_single_hook h = None \<longleftrightarrow> hk_sub h = None" for h by (auto simp: get_single_hook_def split: option.splits)
  have read: "find_hooks_in type (get_hooks_in th ids) th0 = Inr (fold (\<lambda>(i, _) t. set_hook i (get_hook th i) t) ids th0)"
    if "\<forall>(i, s)\<in>set ids. get_hook_id s = Some i \<and> get_hook th0 i = no_hook" "distinct (map fst ids)" for ids th0
    using that
  proof (induction ids arbitrary: th0)
    case (Cons e ids)
    obtain i s where e: "e = (i, s)" by (cases e)
    let ?th = "set_hook i (get_hook th i) th0"
    have other: "get_hook ?th j = get_hook th0 j" if "j \<noteq> i" for j
      using that by (cases i; cases j) (simp_all add: get_hook_def set_hook_def)
    have "\<forall>(j, s)\<in>set ids. get_hook_id s = Some j \<and> get_hook ?th j = no_hook" using Cons.prems e other by fastforce
    with Cons.IH [of ?th] Cons.prems(2) e have IH: "find_hooks_in type (get_hooks_in th ids) ?th
        = Inr (fold (\<lambda>(i, _) t. set_hook i (get_hook th i) t) ids ?th)" by simp
    show ?case
    proof (cases "get_single_hook (get_hook th i)")
      case None
      have "get_hook th0 i = no_hook" using Cons.prems(1) e by simp
      then have "?th = th0" using empty [OF None] by (cases i) (simp_all add: get_hook_def set_hook_def)
      with IH None e show ?thesis by simp
    next
      case (Some sv)
      from fill_get_hook [OF assms Some] Cons.prems(1) e IH Some show ?thesis by simp
    qed
  qed simp
  have ids: "get_hook_id ''pack'' = Some HOOKID_pack" "get_hook_id ''unpack'' = Some HOOKID_unpack"
    "get_hook_id ''pack_ptr'' = Some HOOKID_pack_ptr" "get_hook_id ''unpack_ptr'' = Some HOOKID_unpack_ptr"
    by (simp_all add: get_hook_id_def gs_HookIdStr_def)
  have "find_hooks_in type (get_hooks th) (hook_new None) = Inr (fold (\<lambda>(i, _) t. set_hook i (get_hook th i) t) gs_HookIdStr (hook_new None))"
    unfolding get_hooks_def by (rule read) (simp_all add: gs_HookIdStr_def ids hook_new_def get_hook_def)
  also have "fold (\<lambda>(i, _) t. set_hook i (get_hook th i) t) gs_HookIdStr (hook_new None) = th"
    by (simp add: gs_HookIdStr_def set_hook_def get_hook_def hook_new_def)
  finally have all: "find_hooks_in type (get_hooks th) (hook_new None) = Inr th" .
  have "length (get_hooks_in th ids) = length (filter (\<lambda>h. hk_sub h \<noteq> None) (map (\<lambda>(i, _). get_hook th i) ids))" for ids
    by (induction ids) (auto simp: sub [symmetric])
  with all show ?thesis by (simp add: find_hooks_def all_hooks_def get_hooks_def)
qed

definition example_hooks :: TypeHooks where
  "example_hooks = (hook_new None)\<lparr>th_pack := \<lparr>hk_sub = Some 3, hk_arg = Some [ARGref HOOK_ARG_DATA, newSViv 1]\<rparr>,
     th_unpack_ptr := \<lparr>hk_sub = Some 4, hk_arg = None\<rparr>\<rparr>"

theorem hooks_roundtrip_witness:
  "find_hooks ''t'' (get_hooks example_hooks) (hook_new None) = Inr (2, example_hooks)"
proof -
  have "hook_ok (get_hook example_hooks i)" for i
    by (cases i) (simp_all add: hook_ok_def get_hook_def example_hooks_def hook_new_def no_hook_def)
  from hooks_roundtrip [OF this, of "''t''"] show ?thesis
    by (simp add: get_hooks_def gs_HookIdStr_def get_single_hook_def get_hook_def example_hooks_def hook_new_def no_hook_def)
qed

end
