(* ===== verification/Parse_Info.thy ===== *)
theory Parse_Info
  imports Hash_Ops Layout Member
begin

text \<open>
  \<^verbatim>\<open>ctlib/ctparse.c\<close> without the calls of the preprocessor and the parser: the parsed types, their
  layout and their copies; with the file information of \<^verbatim>\<open>ctlib/fileinfo.c\<close> and the error stack of
  \<^verbatim>\<open>ctlib/cterror.c\<close>.
\<close>

section \<open>Files\<close>

text \<open>The name is read up to the terminator, so it is cut at the first NUL of the given length.\<close>

record FileInfo =
  fi_valid :: bool
  fi_size :: int
  access_time :: int
  modify_time :: int
  change_time :: int
  fi_name :: string

text \<open>\<open>stat\<close> is what \<open>fstat\<close> reports for an open file: size and access, modification and change time.\<close>

definition fileinfo_new :: "(int \<times> int \<times> int \<times> int) option \<Rightarrow> string option \<Rightarrow> nat \<Rightarrow> FileInfo" where
  "fileinfo_new stat name name_len =
     (let s = (case name of None \<Rightarrow> [] | Some s \<Rightarrow> if name_len = 0 then s else take name_len s)
      in case stat of
        Some (n, a, m, c) \<Rightarrow> \<lparr>fi_valid = True, fi_size = n, access_time = a, modify_time = m, change_time = c, fi_name = s\<rparr>
      | None \<Rightarrow> \<lparr>fi_valid = False, fi_size = 0, access_time = 0, modify_time = 0, change_time = 0, fi_name = s\<rparr>)"

definition fileinfo_clone :: "FileInfo option \<Rightarrow> FileInfo option" where
  "fileinfo_clone pSrc = pSrc"

text \<open>
  \<open>dos\<close> is a build for a system whose directory delimiter is the backslash. The last character
  of an empty directory name is read before its start.
\<close>

definition system_delimiter :: "bool \<Rightarrow> char" where
  "system_delimiter dos = (if dos then CHR 0x5C else CHR ''/'')"

definition any_delimiter :: "char \<Rightarrow> bool" where
  "any_delimiter c \<longleftrightarrow> c = CHR ''/'' \<or> c = CHR 0x5C"

definition get_path_name :: "bool \<Rightarrow> string option \<Rightarrow> string \<Rightarrow> string run" where
  "get_path_name dos dir file =
     and_then (case dir of None \<Rightarrow> Inr []
       | Some d \<Rightarrow> if d = [] then Inl Undefined_behaviour
           else Inr (if any_delimiter (last d) then d else d @ [system_delimiter dos])) (\<lambda>d.
     Inr (map (\<lambda>c. if any_delimiter c then system_delimiter dos else c) (d @ file)))"

section \<open>Errors\<close>

datatype CTErrorSeverity = CTES_INFORMATION | CTES_WARNING | CTES_ERROR

record CTLibError =
  err_severity :: CTErrorSeverity
  err_string :: string

definition error_new :: "CTErrorSeverity \<Rightarrow> string \<Rightarrow> CTLibError" where
  "error_new severity str = \<lparr>err_severity = severity, err_string = str\<rparr>"

text \<open>Without an error stack a message is fatal.\<close>

definition push_str :: "CTLibError list option \<Rightarrow> CTErrorSeverity \<Rightarrow> string \<Rightarrow> CTLibError list option run" where
  "push_str stack severity str = (case stack of None \<Rightarrow> Inl Fatal_error | Some es \<Rightarrow> Inr (Some (es @ [error_new severity str])))"

definition pop_all_errors :: "CTLibError list option \<Rightarrow> CTLibError list option" where
  "pop_all_errors stack = map_option (\<lambda>_. []) stack"

definition push_error :: "CTLibError list option \<Rightarrow> string \<Rightarrow> CTLibError list option run" where
  "push_error stack str = push_str stack CTES_ERROR str"

definition push_warning :: "CTLibError list option \<Rightarrow> string \<Rightarrow> CTLibError list option run" where
  "push_warning stack str = push_str stack CTES_WARNING str"

text \<open>The files that include the current one: their long name, if there is one, name and line.\<close>

definition included_from :: "(string option \<times> string \<times> int) list \<Rightarrow> string" where
  "included_from sc = concat (map (\<lambda>(long, short, line). [CHR 0x0A, CHR 0x09] @ ''included from ''
     @ (case long of Some s \<Rightarrow> s | None \<Rightarrow> short) @ '':'' @ decimal line) (takeWhile (\<lambda>(_, _, line). line \<ge> 0) sc))"

definition my_ucpp_error ::
  "string \<Rightarrow> (string option \<times> string \<times> int) list \<Rightarrow> int \<Rightarrow> string \<Rightarrow> CTLibError list option \<Rightarrow> CTLibError list option run" where
  "my_ucpp_error file sc line msg stack = push_str stack CTES_ERROR
     ((if line > 0 then file @ '', line '' @ decimal line @ '': '' else if line = 0 then file @ '': '' else [])
      @ msg @ (if line \<ge> 0 then included_from sc else []))"

definition my_ucpp_warning ::
  "string \<Rightarrow> (string option \<times> string \<times> int) list \<Rightarrow> int \<Rightarrow> string \<Rightarrow> CTLibError list option \<Rightarrow> CTLibError list option run" where
  "my_ucpp_warning file sc line msg stack = push_str stack CTES_WARNING
     ((if line > 0 then file @ '', line '' @ decimal line @ '': (warning) '' else if line = 0 then file @ '': (warning) ''
       else ''(warning) '')
      @ msg @ (if line \<ge> 0 then included_from sc else []))"

section \<open>Parse information\<close>

text \<open>
  What was parsed. Objects are numbered by the store of the types; the typedefs of a list are
  given by their numbers, and the place of a definition by a file and a line.
\<close>

record ParseData =
  pi_types :: CState
  typedefs_of :: "nat \<Rightarrow> nat list"
  pi_files :: "nat \<rightharpoonup> FileInfo"
  enum_context :: "nat \<Rightarrow> nat option \<times> int"
  struct_context :: "nat \<Rightarrow> nat option \<times> int"
  pi_enums :: "nat list"
  pi_structs :: "nat list"
  pi_typedef_lists :: "nat list"
  pi_htEnumerators :: "Enumerator HashTable"
  pi_htEnums :: "nat HashTable"
  pi_htStructs :: "nat HashTable"
  pi_htTypedefs :: "nat HashTable"
  pi_htFiles :: "nat HashTable"
  pi_htPredefined :: "unit HashTable"
  errorStack :: "CTLibError list option"

text \<open>All the pointers are set when the flag \<open>available\<close> is, and null otherwise.\<close>

record CParseInfo =
  cpi_data :: "ParseData option"
  cpi_ready :: bool

definition parse_available :: "CParseInfo \<Rightarrow> bool" where
  "parse_available cpi \<longleftrightarrow> cpi_data cpi \<noteq> None"

definition init_parse_info :: CParseInfo where
  "init_parse_info = \<lparr>cpi_data = None, cpi_ready = False\<rparr>"

text \<open>What \<open>parse_buffer\<close> does first: new lists and tables, or the old ones without their errors.\<close>

definition no_types :: "CState \<Rightarrow> CState" where
  "no_types st = st\<lparr>structs := Map.empty, enums := Map.empty, typedefs := Map.empty, typedef_lists := Map.empty\<rparr>"

definition new_tables :: "int \<Rightarrow> int \<Rightarrow> int \<Rightarrow> int \<Rightarrow> int \<Rightarrow> CState \<Rightarrow> ParseData run" where
  "new_tables n_enumerators n_enums n_structs n_typedefs n_files st =
     and_then (HT_new_ex n_enumerators HT_AUTOGROW) (\<lambda>enumerators.
     and_then (HT_new_ex n_enums HT_AUTOGROW) (\<lambda>ens.
     and_then (HT_new_ex n_structs HT_AUTOGROW) (\<lambda>ss.
     and_then (HT_new_ex n_typedefs HT_AUTOGROW) (\<lambda>ts.
     and_then (HT_new_ex n_files HT_AUTOGROW) (\<lambda>fs.
     and_then (HT_new_ex 3 HT_AUTOGROW) (\<lambda>ps.
     Inr \<lparr>pi_types = no_types st, typedefs_of = (\<lambda>_. []), pi_files = Map.empty, enum_context = (\<lambda>_. (None, 0)),
       struct_context = (\<lambda>_. (None, 0)), pi_enums = [], pi_structs = [], pi_typedef_lists = [],
       pi_htEnumerators = enumerators, pi_htEnums = ens, pi_htStructs = ss, pi_htTypedefs = ts, pi_htFiles = fs,
       pi_htPredefined = ps, errorStack = Some []\<rparr>))))))"

definition start_parsing :: "CState \<Rightarrow> CParseInfo \<Rightarrow> CParseInfo run" where
  "start_parsing st cpi = (case cpi_data cpi of
     None \<Rightarrow> and_then (new_tables 5 4 4 4 3 st) (\<lambda>pd. Inr \<lparr>cpi_data = Some pd, cpi_ready = False\<rparr>)
   | Some pd \<Rightarrow> Inr \<lparr>cpi_data = Some (pd\<lparr>errorStack := pop_all_errors (errorStack pd)\<rparr>), cpi_ready = False\<rparr>)"

text \<open>Freeing the types calls the \<open>free\<close> callbacks of their tags, in this order.\<close>

definition free_parse_info :: "vtables \<Rightarrow> CParseInfo \<Rightarrow> CParseInfo \<times> CtTag list" where
  "free_parse_info vt cpi = (init_parse_info, case cpi_data cpi of None \<Rightarrow> []
     | Some pd \<Rightarrow> (let st = pi_types pd in
         concat (map (\<lambda>n. enumspec_delete vt (enums st n)) (pi_enums pd))
         @ concat (map (\<lambda>n. struct_delete vt (structs st n)) (pi_structs pd))
         @ concat (map (\<lambda>l. concat (map (\<lambda>t. typedef_delete vt (typedefs st t)) (typedefs_of pd l))) (pi_typedef_lists pd))))"

section \<open>Layout of everything\<close>

fun run_fold :: "('x \<Rightarrow> 'a \<Rightarrow> 'a run) \<Rightarrow> 'x list \<Rightarrow> 'a \<Rightarrow> 'a run" where
  "run_fold f [] a = Inr a"
| "run_fold f (x # xs) a = and_then (f x a) (run_fold f xs)"

definition reset_struct :: "nat \<Rightarrow> CState \<Rightarrow> CState" where
  "reset_struct n st = st\<lparr>structs := (structs st)(n := map_option (\<lambda>s. s\<lparr>s_align := 0, s_size := 0\<rparr>) (structs st n))\<rparr>"

definition set_typedef_size :: "int \<Rightarrow> int \<Rightarrow> nat \<Rightarrow> CState \<Rightarrow> CState" where
  "set_typedef_size n item t st = st\<lparr>typedefs := (typedefs st)(t := map_option (\<lambda>td.
     td\<lparr>td_decl := map_option (\<lambda>d. d\<lparr>d_size := n, d_item_size := item\<rparr>) (td_decl td)\<rparr>) (typedefs st t))\<rparr>"

definition reset_parse_info :: "CParseInfo \<Rightarrow> CParseInfo" where
  "reset_parse_info cpi = cpi\<lparr>cpi_ready := False, cpi_data := map_option (\<lambda>pd. pd\<lparr>pi_types :=
     fold (set_typedef_size (-1) (-1)) (concat (map (typedefs_of pd) (pi_typedef_lists pd)))
       (fold reset_struct (pi_structs pd) (pi_types pd))\<rparr>) (cpi_data cpi)\<rparr>"

definition update_struct :: "nat \<Rightarrow> Host \<Rightarrow> LayoutParam \<Rightarrow> nat \<Rightarrow> CState \<Rightarrow> CState run" where
  "update_struct fuel h lp n st = and_then (struct_at st (Some n)) (\<lambda>s.
     if s_align s = 0 then layout_compound_generic fuel h lp st n else Inr st)"

definition update_typedef :: "nat \<Rightarrow> Host \<Rightarrow> LayoutParam \<Rightarrow> nat \<Rightarrow> CState \<Rightarrow> CState run" where
  "update_typedef fuel h lp t st = and_then (pTypedef st \<lparr>ts_ptr = Some t, ts_tflags = T_TYPE\<rparr>) (\<lambda>(ts, d).
     if d_size d < 0 then
       and_then (get_type_info_generic fuel h lp st ts (Some d)) (\<lambda>(err, info, st).
       Inr (if err = GTI_NO_ERROR then set_typedef_size (to_int (ti_size info)) (to_int (ti_item_size info)) t st else st))
     else Inr st)"

definition update_parse_info :: "nat \<Rightarrow> Host \<Rightarrow> LayoutParam \<Rightarrow> CParseInfo \<Rightarrow> CParseInfo run" where
  "update_parse_info fuel h lp cpi = (case cpi_data cpi of None \<Rightarrow> Inr (cpi\<lparr>cpi_ready := True\<rparr>)
     | Some pd \<Rightarrow>
         and_then (run_fold (update_struct fuel h lp) (pi_structs pd) (pi_types pd)) (\<lambda>st.
         and_then (run_fold (update_typedef fuel h lp) (concat (map (typedefs_of pd) (pi_typedef_lists pd))) st) (\<lambda>st.
         Inr \<lparr>cpi_data = Some (pd\<lparr>pi_types := st\<rparr>), cpi_ready = True\<rparr>)))"

section \<open>Copies\<close>

text \<open>
  The objects a pointer may lead to, and the map from old to new pointers, in which, as in any
  table, the first entry of a key stays. \<open>fresh\<close> is the number the allocator gives to the copy of
  an object.
\<close>

datatype Ptr = Enum_ptr nat | Struct_ptr nat | Typedef_ptr nat | File_ptr nat

type_synonym ptrmap = "Ptr \<rightharpoonup> nat"

definition store_ptr :: "Ptr \<Rightarrow> nat \<Rightarrow> ptrmap \<Rightarrow> ptrmap" where
  "store_ptr p q m = (if m p = None then m(p \<mapsto> q) else m)"

definition store_name :: "bool \<Rightarrow> string \<Rightarrow> nat \<Rightarrow> nat HashTable \<Rightarrow> nat HashTable" where
  "store_name uc name q t = snd (HT_store uc q t name 0 0 (Some q))"

definition clone_enum :: "bool \<Rightarrow> vtables \<Rightarrow> (Ptr \<Rightarrow> nat) \<Rightarrow> ParseData \<Rightarrow> nat \<Rightarrow> ParseData \<times> ptrmap \<Rightarrow> (ParseData \<times> ptrmap) run" where
  "clone_enum uc vt fresh src n = (\<lambda>(dest, m). case enums (pi_types src) n of None \<Rightarrow> Inl Undefined_behaviour
     | Some e \<Rightarrow> (let q = fresh (Enum_ptr n); e' = enumspec_clone vt e; st = pi_types dest in
         Inr (dest\<lparr>pi_types := st\<lparr>enums := (enums st)(q \<mapsto> e')\<rparr>, enum_context := (enum_context dest)(q := enum_context src n),
           pi_enums := pi_enums dest @ [q],
           pi_htEnums := (if es_identifier e' \<noteq> [] then store_name uc (es_identifier e') q (pi_htEnums dest) else pi_htEnums dest),
           pi_htEnumerators := fold (\<lambda>en t. snd (HT_store uc q t (en_identifier en) 0 0 (Some en)))
             (case es_enumerators e' of None \<Rightarrow> [] | Some ens \<Rightarrow> ens) (pi_htEnumerators dest)\<rparr>, store_ptr (Enum_ptr n) q m)))"

definition clone_struct :: "bool \<Rightarrow> vtables \<Rightarrow> (Ptr \<Rightarrow> nat) \<Rightarrow> ParseData \<Rightarrow> nat \<Rightarrow> ParseData \<times> ptrmap \<Rightarrow> (ParseData \<times> ptrmap) run" where
  "clone_struct uc vt fresh src n = (\<lambda>(dest, m). case structs (pi_types src) n of None \<Rightarrow> Inl Undefined_behaviour
     | Some s \<Rightarrow> (let q = fresh (Struct_ptr n); s' = struct_clone vt s; st = pi_types dest in
         Inr (dest\<lparr>pi_types := st\<lparr>structs := (structs st)(q \<mapsto> s')\<rparr>, struct_context := (struct_context dest)(q := struct_context src n),
           pi_structs := pi_structs dest @ [q],
           pi_htStructs := (if s_identifier s' \<noteq> [] then store_name uc (s_identifier s') q (pi_htStructs dest)
             else pi_htStructs dest)\<rparr>, store_ptr (Struct_ptr n) q m)))"

text \<open>The typedefs of a list are copied with it, then entered one by one.\<close>

definition clone_typedef :: "bool \<Rightarrow> vtables \<Rightarrow> (Ptr \<Rightarrow> nat) \<Rightarrow> ParseData \<Rightarrow> nat \<Rightarrow> nat \<Rightarrow> ParseData \<times> ptrmap \<Rightarrow> (ParseData \<times> ptrmap) run" where
  "clone_typedef uc vt fresh src l t = (\<lambda>(dest, m). case typedefs (pi_types src) t of None \<Rightarrow> Inl Undefined_behaviour
     | Some td \<Rightarrow> (case td_decl (typedef_clone vt td) of None \<Rightarrow> Inl Undefined_behaviour
       | Some d \<Rightarrow> (let q = fresh (Typedef_ptr t); st = pi_types dest in
           Inr (dest\<lparr>pi_types := st\<lparr>typedefs := (typedefs st)(q \<mapsto> (typedef_clone vt td)\<lparr>td_list := Some l\<rparr>)\<rparr>,
             pi_htTypedefs := store_name uc (d_identifier d) q (pi_htTypedefs dest)\<rparr>, store_ptr (Typedef_ptr t) q m))))"

definition clone_typedef_list ::
  "bool \<Rightarrow> vtables \<Rightarrow> (Ptr \<Rightarrow> nat) \<Rightarrow> (nat \<Rightarrow> nat) \<Rightarrow> ParseData \<Rightarrow> nat \<Rightarrow> ParseData \<times> ptrmap \<Rightarrow> (ParseData \<times> ptrmap) run" where
  "clone_typedef_list uc vt fresh fresh_list src l = (\<lambda>(dest, m).
     case typedef_lists (pi_types src) l of None \<Rightarrow> Inl Undefined_behaviour
     | Some tdl \<Rightarrow> (let l' = fresh_list l; st = pi_types dest in
         and_then (run_fold (clone_typedef uc vt fresh src l') (typedefs_of src l)
           (dest\<lparr>pi_types := st\<lparr>typedef_lists := (typedef_lists st)(l' \<mapsto> typedef_list_clone vt l' tdl)\<rparr>,
              typedefs_of := (typedefs_of dest)(l' := map (\<lambda>t. fresh (Typedef_ptr t)) (typedefs_of src l))\<rparr>, m)) (\<lambda>(dest, m).
         Inr (dest\<lparr>pi_typedef_lists := pi_typedef_lists dest @ [l']\<rparr>, m))))"

text \<open>
  The copies still point at the originals: every pointer is looked up in the map, and one that
  is not there is fatal.
\<close>

definition REMAP_PTR :: "ptrmap \<Rightarrow> (nat \<Rightarrow> Ptr) \<Rightarrow> nat option \<Rightarrow> nat option run" where
  "REMAP_PTR m kind target = (case target of None \<Rightarrow> Inr None
     | Some n \<Rightarrow> (case m (kind n) of None \<Rightarrow> Inl Fatal_error | Some q \<Rightarrow> Inr (Some q)))"

text \<open>What a type specifier points at follows from its flags.\<close>

definition target_kind :: "u_32 \<Rightarrow> nat \<Rightarrow> Ptr" where
  "target_kind flags = (if has_flag flags T_TYPE then Typedef_ptr else if has_flag flags T_ENUM then Enum_ptr else Struct_ptr)"

definition remap_type :: "ptrmap \<Rightarrow> TypeSpec \<Rightarrow> TypeSpec run" where
  "remap_type m ts = and_then (REMAP_PTR m (target_kind (ts_tflags ts)) (ts_ptr ts)) (\<lambda>p. Inr (ts\<lparr>ts_ptr := p\<rparr>))"

definition remap_context :: "ptrmap \<Rightarrow> nat option \<times> int \<Rightarrow> (nat option \<times> int) run" where
  "remap_context m = (\<lambda>(file, line). and_then (REMAP_PTR m File_ptr file) (\<lambda>file. Inr (file, line)))"

definition remap_enum :: "ptrmap \<Rightarrow> nat \<Rightarrow> ParseData \<Rightarrow> ParseData run" where
  "remap_enum m q dest = and_then (remap_context m (enum_context dest q)) (\<lambda>c.
     Inr (dest\<lparr>enum_context := (enum_context dest)(q := c)\<rparr>))"

fun remap_declarations :: "ptrmap \<Rightarrow> StructDeclaration list \<Rightarrow> StructDeclaration list run" where
  "remap_declarations m [] = Inr []"
| "remap_declarations m (sd # sds) = and_then (remap_type m (sd_type sd)) (\<lambda>t.
     and_then (remap_declarations m sds) (\<lambda>sds. Inr (sd\<lparr>sd_type := t\<rparr> # sds)))"

definition remap_struct :: "ptrmap \<Rightarrow> nat \<Rightarrow> ParseData \<Rightarrow> ParseData run" where
  "remap_struct m q dest = and_then (struct_at (pi_types dest) (Some q)) (\<lambda>s.
     and_then (case s_declarations s of None \<Rightarrow> Inr None
       | Some sds \<Rightarrow> and_then (remap_declarations m sds) (\<lambda>sds. Inr (Some sds))) (\<lambda>sds.
     and_then (remap_context m (struct_context dest q)) (\<lambda>c.
     let st = pi_types dest in
     Inr (dest\<lparr>pi_types := st\<lparr>structs := (structs st)(q \<mapsto> s\<lparr>s_declarations := sds\<rparr>)\<rparr>,
       struct_context := (struct_context dest)(q := c)\<rparr>))))"

definition remap_typedef_list :: "ptrmap \<Rightarrow> nat \<Rightarrow> ParseData \<Rightarrow> ParseData run" where
  "remap_typedef_list m q dest = (let st = pi_types dest in case typedef_lists st q of None \<Rightarrow> Inl Undefined_behaviour
     | Some tdl \<Rightarrow> and_then (remap_type m (tl_type tdl)) (\<lambda>t.
         Inr (dest\<lparr>pi_types := st\<lparr>typedef_lists := (typedef_lists st)(q \<mapsto> tdl\<lparr>tl_type := t\<rparr>)\<rparr>\<rparr>)))"

text \<open>A table of files is copied with the files in it; both copies have them in the same order.\<close>

definition file_numbers :: "nat HashTable \<Rightarrow> nat list" where
  "file_numbers t = concat (map (\<lambda>bucket. concat (map (\<lambda>n. case hn_obj n of None \<Rightarrow> [] | Some f \<Rightarrow> [f]) bucket)) (ht_root t))"

definition clone_files :: "(Ptr \<Rightarrow> nat) \<Rightarrow> ParseData \<Rightarrow> ParseData \<times> ptrmap \<Rightarrow> (ParseData \<times> ptrmap) run" where
  "clone_files fresh src = (\<lambda>(dest, m).
     and_then (HT_clone (Some (pi_htFiles src)) (Some (map_option (\<lambda>f. fresh (File_ptr f)))) 0) (\<lambda>t. case t of
       None \<Rightarrow> Inl Undefined_behaviour
     | Some t \<Rightarrow> Inr (dest\<lparr>pi_htFiles := t, pi_files := fold (\<lambda>f fs. fs(fresh (File_ptr f) := fileinfo_clone (pi_files src f)))
           (file_numbers (pi_htFiles src)) (pi_files dest)\<rparr>,
         fold (\<lambda>f. store_ptr (File_ptr f) (fresh (File_ptr f))) (file_numbers (pi_htFiles src)) m)))"

text \<open>
  \<open>st\<close> holds the state of the layout of the new object. The copy of the preprocessor, which
  \<open>clone_cpp\<close> makes, is not part of the parse data here.
\<close>

definition clone_parse_data :: "bool \<Rightarrow> vtables \<Rightarrow> (Ptr \<Rightarrow> nat) \<Rightarrow> (nat \<Rightarrow> nat) \<Rightarrow> CState \<Rightarrow> ParseData \<Rightarrow> ParseData run" where
  "clone_parse_data uc vt fresh fresh_list st src =
     and_then (new_tables (int (ht_size (pi_htEnumerators src))) (int (ht_size (pi_htEnums src))) (int (ht_size (pi_htStructs src)))
       (int (ht_size (pi_htTypedefs src))) (int (ht_size (pi_htFiles src))) st) (\<lambda>dest.
     and_then (run_fold (clone_enum uc vt fresh src) (pi_enums src) (dest, Map.empty)) (\<lambda>d.
     and_then (run_fold (clone_struct uc vt fresh src) (pi_structs src) d) (\<lambda>d.
     and_then (run_fold (clone_typedef_list uc vt fresh fresh_list src) (pi_typedef_lists src) d) (\<lambda>d.
     and_then (clone_files fresh src d) (\<lambda>(dest, m).
     and_then (HT_clone (Some (pi_htPredefined src)) None 0) (\<lambda>predefined.
     and_then (run_fold (remap_enum m) (pi_enums dest) (dest\<lparr>pi_htPredefined := the predefined\<rparr>)) (\<lambda>dest.
     and_then (run_fold (remap_struct m) (pi_structs dest) dest) (\<lambda>dest.
     run_fold (remap_typedef_list m) (pi_typedef_lists dest) dest))))))))"

definition clone_parse_info ::
  "bool \<Rightarrow> vtables \<Rightarrow> (Ptr \<Rightarrow> nat) \<Rightarrow> (nat \<Rightarrow> nat) \<Rightarrow> CState \<Rightarrow> CParseInfo \<Rightarrow> CParseInfo \<Rightarrow> CParseInfo run" where
  "clone_parse_info uc vt fresh fresh_list st dest src = (case cpi_data src of None \<Rightarrow> Inr dest
     | Some pd \<Rightarrow> and_then (clone_parse_data uc vt fresh fresh_list st pd) (\<lambda>pd'.
         Inr \<lparr>cpi_data = Some pd', cpi_ready = cpi_ready src\<rparr>))"

end
