(* ===== verification/Parse_Clone.thy ===== *)
theory Parse_Clone
  imports Parse_Info Hash_Props
begin

text \<open>
  A copy of the parse information is the original with its pointers renamed: what
  \<open>clone_parse_info\<close> promises to the \<open>clone\<close> method.
\<close>

section \<open>Updates along a list\<close>

lemma fold_update_other: "x \<notin> g ` set ns \<Longrightarrow> fold (\<lambda>n S. S(g n := h n)) ns S0 x = S0 x"
  by (induction ns arbitrary: S0) auto

lemma fold_update: "k \<in> set ns \<Longrightarrow> inj g \<Longrightarrow> fold (\<lambda>n S. S(g n := h n)) ns S0 (g k) = h k"
proof (induction ns arbitrary: S0)
  case (Cons n ns)
  then show ?case
  proof (cases "k \<in> set ns")
    case False
    then have "g k \<notin> g ` set ns" using Cons.prems(2) by (auto dest: injD)
    from fold_update_other [OF this, of h "S0(g n := h n)" for n] have "fold (\<lambda>n S. S(g n := h n)) ns (S0(g k := h k)) (g k) = h k"
      by (simp only: fun_upd_same)
    with False Cons.prems(1) show ?thesis by (simp add: fun_upd_def)
  qed (use Cons in simp)
qed simp

text \<open>A map that knows the copies of some objects.\<close>

definition knows :: "(Ptr \<Rightarrow> nat) \<Rightarrow> Ptr set \<Rightarrow> ptrmap \<Rightarrow> bool" where
  "knows fresh P m \<longleftrightarrow> (\<forall>p. m p = (if p \<in> P then Some (fresh p) else None))"

lemma knows_fold: "knows fresh P m \<Longrightarrow> knows fresh (P \<union> K ` set ns) (fold (\<lambda>n. store_ptr (K n) (fresh (K n))) ns m)"
proof (induction ns arbitrary: P m)
  case (Cons n ns)
  have "knows fresh (insert (K n) P) (store_ptr (K n) (fresh (K n)) m)"
    using Cons.prems by (auto simp: knows_def store_ptr_def)
  from Cons.IH [OF this] show ?case by simp
qed simp

section \<open>Tables of names\<close>

text \<open>Entering names in order: the first object of a name stays, and one without a name is skipped.\<close>

definition enter_name :: "bool \<Rightarrow> string \<times> nat \<Rightarrow> nat HashTable \<Rightarrow> nat HashTable" where
  "enter_name uc = (\<lambda>(s, q) t. if s \<noteq> [] then store_name uc s q t else t)"

lemma str_loop_plain: "NUL \<notin> set s \<Longrightarrow> str_loop uc h n s = (foldl (hash_step uc) h s, n + length s)"
  by (induction s arbitrary: h n) auto

lemma plain_key: "NUL \<notin> set s \<Longrightarrow> len = 0 \<or> len = length s \<Longrightarrow> key_and_hash uc s len 0 = (s, HASH_DATA uc (length s) s)"
  by (auto simp: key_and_hash_def HASH_STR_LEN_def str_loop_plain HASH_DATA_def)

lemma enter_names:
  assumes "table_ok t" and "\<forall>(s, q)\<in>set xs. NUL \<notin> set s"
  shows "table_ok (fold (enter_name uc) xs t) \<and> (\<forall>s. s \<noteq> [] \<longrightarrow> table_map (fold (enter_name uc) xs t) (HASH_DATA uc (length s) s, s)
     = (case table_map t (HASH_DATA uc (length s) s, s) of Some v \<Rightarrow> Some v | None \<Rightarrow> map_option Some (map_of xs s)))"
  using assms
proof (induction xs arbitrary: t)
  case (Cons x xs)
  obtain s q where x: "x = (s, q)" by (cases x)
  show ?case
  proof (cases "s = []")
    case True
    with Cons.IH [OF Cons.prems(1)] Cons.prems(2) show ?thesis unfolding x by (auto simp: enter_name_def split: option.split)
  next
    case False
    have n: "NUL \<notin> set s" using Cons.prems(2) x by simp
    from store_eq [OF Cons.prems(1) plain_key [OF n, of 0 uc], of q "Some q"]
    obtain t' where t': "snd (HT_store uc q t s 0 0 (Some q)) = t'" "table_ok t'"
      "table_map t' = (let k = (HASH_DATA uc (length s) s, s) in
         if k \<in> dom (table_map t) then table_map t else (table_map t)(k \<mapsto> Some q))" by auto
    with Cons.IH [OF t'(2)] Cons.prems(2) x False show ?thesis
      by (auto simp: enter_name_def store_name_def Let_def split: option.split)
  qed
qed (simp split: option.split)

lemma find_name:
  assumes "table_ok t" "table_map t = Map.empty" "\<forall>(s, q)\<in>set xs. NUL \<notin> set s"
    and "s \<noteq> []" "NUL \<notin> set s" "len = 0 \<or> len = length s"
  shows "HT_get uc (fold (enter_name uc) xs t) s len 0 = map_of xs s"
proof -
  let ?t = "fold (enter_name uc) xs t"
  from enter_names [OF assms(1,3), of uc] assms(2,4)
  have "table_ok ?t" "table_map ?t (HASH_DATA uc (length s) s, s) = map_option Some (map_of xs s)" by auto
  with get_eq(1) [OF this(1) plain_key [OF assms(5,6), of uc]] show ?thesis by (cases "map_of xs s") simp_all
qed

lemma new_table: "HT_new_ex n flags = Inr t \<Longrightarrow> table_ok t \<and> table_map t = Map.empty"
  using empty_buckets_ok [where ?'a = 'a, of "nat n"] empty_count [of t]
  by (auto simp: HT_new_ex_def table_ok_def split: if_splits)

section \<open>The copies\<close>

text \<open>The new object in parts; a step changes one of them.\<close>

definition enum_part where
  "enum_part (d :: ParseData) = (enums (pi_types d), enum_context d, pi_enums d, pi_htEnums d)"

definition struct_part where
  "struct_part (d :: ParseData) = (structs (pi_types d), struct_context d, pi_structs d, pi_htStructs d)"

definition typedef_part where
  "typedef_part (d :: ParseData) = (typedefs (pi_types d), typedef_lists (pi_types d), typedefs_of d, pi_typedef_lists d, pi_htTypedefs d)"

lemmas parts = enum_part_def struct_part_def typedef_part_def

definition enum_name :: "vtables \<Rightarrow> ParseData \<Rightarrow> nat \<Rightarrow> string" where
  "enum_name vt src n = (case enums (pi_types src) n of None \<Rightarrow> [] | Some e \<Rightarrow> es_identifier (enumspec_clone vt e))"

text \<open>The enumerators of an enum, under their names.\<close>

definition enum_entries :: "vtables \<Rightarrow> ParseData \<Rightarrow> nat \<Rightarrow> (string \<times> Enumerator) list" where
  "enum_entries vt src n = (case enums (pi_types src) n of None \<Rightarrow> [] | Some e \<Rightarrow>
     (case es_enumerators (enumspec_clone vt e) of None \<Rightarrow> [] | Some ens \<Rightarrow> map (\<lambda>en. (en_identifier en, en)) ens))"

definition struct_name :: "vtables \<Rightarrow> ParseData \<Rightarrow> nat \<Rightarrow> string" where
  "struct_name vt src n = (case structs (pi_types src) n of None \<Rightarrow> [] | Some s \<Rightarrow> s_identifier (struct_clone vt s))"

text \<open>\<open>entered g h ns S S'\<close>: the map \<open>S'\<close> is \<open>S\<close> with \<open>h n\<close> at \<open>g n\<close> for the numbers of a list.\<close>

definition entered :: "('n \<Rightarrow> 'a) \<Rightarrow> ('n \<Rightarrow> 'b) \<Rightarrow> 'n list \<Rightarrow> ('a \<Rightarrow> 'b) \<Rightarrow> ('a \<Rightarrow> 'b) \<Rightarrow> bool" where
  "entered g h ns S S' \<longleftrightarrow> (\<forall>n\<in>set ns. S' (g n) = h n) \<and> (\<forall>x. x \<notin> g ` set ns \<longrightarrow> S' x = S x)"

lemma entered_Nil [simp]: "entered g h [] S S' \<longleftrightarrow> S' = S"
  by (auto simp: entered_def)

lemma entered_append:
  assumes "inj g" "entered g h xs S S1" "entered g h ys S1 S2" shows "entered g h (xs @ ys) S S2"
proof -
  have "S2 (g n) = h n" if "n \<in> set xs" for n
  proof (cases "n \<in> set ys")
    case False
    then have "g n \<notin> g ` set ys" using assms(1) by (auto dest: injD)
    with that assms(2,3) show ?thesis by (simp add: entered_def)
  qed (use assms(3) in \<open>simp add: entered_def\<close>)
  with assms(2,3) show ?thesis by (auto simp: entered_def image_Un)
qed

lemma entered_Cons:
  assumes "inj g" "entered g h ns (S(g n := h n)) S'" shows "entered g h (n # ns) S S'"
proof -
  have "S' (g n) = h n" if "n \<notin> set ns"
  proof -
    have "g n \<notin> g ` set ns" using that assms(1) by (auto dest: injD)
    with assms(2) show ?thesis by (simp add: entered_def)
  qed
  with assms(2) show ?thesis by (cases "n \<in> set ns") (simp_all add: entered_def)
qed

text \<open>A stage of the copy enters the copies of some objects, and leaves \<open>frame\<close> alone.\<close>

lemma stage:
  fixes objs :: "ParseData \<Rightarrow> nat \<Rightarrow> 'o" and place :: "ParseData \<Rightarrow> nat \<Rightarrow> 'c" and frame :: "ParseData \<Rightarrow> 'f"
  assumes step: "\<And>n d m. n \<in> set ns \<Longrightarrow> \<exists>d1. f n (d, m) = Inr (d1, store_ptr (K n) (fresh (K n)) m) \<and> frame d1 = frame d
      \<and> objs d1 = (objs d)(fresh (K n) := h n) \<and> place d1 = (place d)(fresh (K n) := c n)
      \<and> list d1 = add n (list d) \<and> names d1 = enter_name uc (name n, fresh (K n)) (names d)"
    and inj: "inj (\<lambda>n. fresh (K n))" and m: "knows fresh P m"
  shows "\<exists>d' m'. run_fold f ns (d, m) = Inr (d', m') \<and> frame d' = frame d
    \<and> entered (\<lambda>n. fresh (K n)) h ns (objs d) (objs d') \<and> entered (\<lambda>n. fresh (K n)) c ns (place d) (place d')
    \<and> list d' = fold add ns (list d)
    \<and> names d' = fold (enter_name uc) (map (\<lambda>n. (name n, fresh (K n))) ns) (names d)
    \<and> knows fresh (P \<union> K ` set ns) m'"
  using step m
proof (induction ns arbitrary: d m P)
  case (Cons n ns)
  from Cons.prems(1) [of n d m] obtain d1 where d1: "f n (d, m) = Inr (d1, store_ptr (K n) (fresh (K n)) m)" "frame d1 = frame d"
    "objs d1 = (objs d)(fresh (K n) := h n)" "place d1 = (place d)(fresh (K n) := c n)"
    "list d1 = add n (list d)" "names d1 = enter_name uc (name n, fresh (K n)) (names d)"
    by (metis list.set_intros(1))
  have "knows fresh (insert (K n) P) (store_ptr (K n) (fresh (K n)) m)"
    using Cons.prems(2) by (auto simp: knows_def store_ptr_def)
  from Cons.IH [OF Cons.prems(1) [OF list.set_intros(2)] this, of d1] obtain d' m' where
    d': "run_fold f ns (d1, store_ptr (K n) (fresh (K n)) m) = Inr (d', m')" "frame d' = frame d1"
    and e: "entered (\<lambda>n. fresh (K n)) h ns (objs d1) (objs d')" "entered (\<lambda>n. fresh (K n)) c ns (place d1) (place d')"
    and r: "list d' = fold add ns (list d1)"
    "names d' = fold (enter_name uc) (map (\<lambda>n. (name n, fresh (K n))) ns) (names d1)"
    "knows fresh (insert (K n) P \<union> K ` set ns) m'"
    by blast
  note entered_Cons [OF inj e(1) [unfolded d1(3)]] entered_Cons [OF inj e(2) [unfolded d1(4)]]
  with d1(1,2,5,6) d' r show ?case by simp
qed simp

lemma clone_enums:
  assumes "\<forall>n\<in>set ns. enums (pi_types src) n \<noteq> None" and "inj fresh" and "knows fresh P m"
  shows "\<exists>d' m'. run_fold (clone_enum uc vt fresh src) ns (d, m) = Inr (d', m')
    \<and> (struct_part d', typedef_part d', pi_htFiles d') = (struct_part d, typedef_part d, pi_htFiles d)
    \<and> entered (\<lambda>n. fresh (Enum_ptr n)) (\<lambda>n. map_option (enumspec_clone vt) (enums (pi_types src) n)) ns
        (enums (pi_types d)) (enums (pi_types d'))
    \<and> entered (\<lambda>n. fresh (Enum_ptr n)) (enum_context src) ns (enum_context d) (enum_context d')
    \<and> pi_enums d' = fold (\<lambda>n l. l @ [fresh (Enum_ptr n)]) ns (pi_enums d)
    \<and> pi_htEnums d' = fold (enter_name uc) (map (\<lambda>n. (enum_name vt src n, fresh (Enum_ptr n))) ns) (pi_htEnums d)
    \<and> knows fresh (P \<union> Enum_ptr ` set ns) m'"
proof (rule stage [OF _ _ assms(3)])
  show "inj (\<lambda>n. fresh (Enum_ptr n))" using assms(2) by (auto simp: inj_def)
qed (use assms(1) in \<open>auto simp: clone_enum_def Let_def parts enum_name_def enter_name_def\<close>)

lemma clone_structs:
  assumes "\<forall>n\<in>set ns. structs (pi_types src) n \<noteq> None" and "inj fresh" and "knows fresh P m"
  shows "\<exists>d' m'. run_fold (clone_struct uc vt fresh src) ns (d, m) = Inr (d', m')
    \<and> (enum_part d', typedef_part d', pi_htFiles d') = (enum_part d, typedef_part d, pi_htFiles d)
    \<and> entered (\<lambda>n. fresh (Struct_ptr n)) (\<lambda>n. map_option (struct_clone vt) (structs (pi_types src) n)) ns
        (structs (pi_types d)) (structs (pi_types d'))
    \<and> entered (\<lambda>n. fresh (Struct_ptr n)) (struct_context src) ns (struct_context d) (struct_context d')
    \<and> pi_structs d' = fold (\<lambda>n l. l @ [fresh (Struct_ptr n)]) ns (pi_structs d)
    \<and> pi_htStructs d' = fold (enter_name uc) (map (\<lambda>n. (struct_name vt src n, fresh (Struct_ptr n))) ns) (pi_htStructs d)
    \<and> knows fresh (P \<union> Struct_ptr ` set ns) m'"
proof (rule stage [OF _ _ assms(3)])
  show "inj (\<lambda>n. fresh (Struct_ptr n))" using assms(2) by (auto simp: inj_def)
qed (use assms(1) in \<open>auto simp: clone_struct_def Let_def parts struct_name_def enter_name_def\<close>)

definition typedef_name :: "vtables \<Rightarrow> ParseData \<Rightarrow> nat \<Rightarrow> string" where
  "typedef_name vt src t = (case typedefs (pi_types src) t of None \<Rightarrow> []
     | Some td \<Rightarrow> (case td_decl (typedef_clone vt td) of None \<Rightarrow> [] | Some d \<Rightarrow> d_identifier d))"

definition copied_typedef :: "vtables \<Rightarrow> (nat \<Rightarrow> nat) \<Rightarrow> Typedef \<Rightarrow> Typedef" where
  "copied_typedef vt fresh_list td = (typedef_clone vt td)\<lparr>td_list := map_option fresh_list (td_list td)\<rparr>"

text \<open>A typedef has a name, and knows the list it is in.\<close>

definition typedef_in :: "vtables \<Rightarrow> ParseData \<Rightarrow> nat \<Rightarrow> nat \<Rightarrow> bool" where
  "typedef_in vt src l t \<longleftrightarrow> typedef_name vt src t \<noteq> []
     \<and> (case typedefs (pi_types src) t of None \<Rightarrow> False | Some td \<Rightarrow> td_list td = Some l \<and> td_decl td \<noteq> None)"

lemma clone_typedefs:
  assumes "\<forall>t\<in>set ts. typedef_in vt src l t" and "inj fresh" and "knows fresh P m"
  shows "\<exists>d' m'. run_fold (clone_typedef uc vt fresh src (fresh_list l)) ts (d, m) = Inr (d', m')
    \<and> (enum_part d', struct_part d', pi_htFiles d', typedef_lists (pi_types d'), typedefs_of d', pi_typedef_lists d')
       = (enum_part d, struct_part d, pi_htFiles d, typedef_lists (pi_types d), typedefs_of d, pi_typedef_lists d)
    \<and> entered (\<lambda>t. fresh (Typedef_ptr t)) (\<lambda>t. map_option (copied_typedef vt fresh_list) (typedefs (pi_types src) t)) ts
        (typedefs (pi_types d)) (typedefs (pi_types d'))
    \<and> entered (\<lambda>t. fresh (Typedef_ptr t)) (\<lambda>_. ()) ts (\<lambda>_. ()) (\<lambda>_. ()) \<and> () = fold (\<lambda>_ u. u) ts ()
    \<and> pi_htTypedefs d' = fold (enter_name uc) (map (\<lambda>t. (typedef_name vt src t, fresh (Typedef_ptr t))) ts) (pi_htTypedefs d)
    \<and> knows fresh (P \<union> Typedef_ptr ` set ts) m'"
proof (rule stage [OF _ _ assms(3)])
  show "inj (\<lambda>t. fresh (Typedef_ptr t))" using assms(2) by (auto simp: inj_def)
qed (use assms(1) in \<open>force simp: clone_typedef_def Let_def parts typedef_in_def typedef_name_def enter_name_def copied_typedef_def
      split: option.splits\<close>)

definition list_typedefs :: "ParseData \<Rightarrow> nat list \<Rightarrow> nat list" where
  "list_typedefs src ls = concat (map (typedefs_of src) ls)"

lemma clone_typedef_lists:
  assumes "\<forall>l\<in>set ls. typedef_lists (pi_types src) l \<noteq> None \<and> (\<forall>t\<in>set (typedefs_of src l). typedef_in vt src l t)"
    and "inj fresh" and "inj fresh_list" and "knows fresh P m"
  shows "\<exists>d' m'. run_fold (clone_typedef_list uc vt fresh fresh_list src) ls (d, m) = Inr (d', m')
    \<and> (enum_part d', struct_part d', pi_htFiles d') = (enum_part d, struct_part d, pi_htFiles d)
    \<and> entered (\<lambda>t. fresh (Typedef_ptr t)) (\<lambda>t. map_option (copied_typedef vt fresh_list) (typedefs (pi_types src) t)) (list_typedefs src ls)
        (typedefs (pi_types d)) (typedefs (pi_types d'))
    \<and> entered fresh_list (\<lambda>l. map_option (typedef_list_clone vt (fresh_list l)) (typedef_lists (pi_types src) l)) ls
        (typedef_lists (pi_types d)) (typedef_lists (pi_types d'))
    \<and> entered fresh_list (\<lambda>l. map (\<lambda>t. fresh (Typedef_ptr t)) (typedefs_of src l)) ls (typedefs_of d) (typedefs_of d')
    \<and> pi_typedef_lists d' = pi_typedef_lists d @ map fresh_list ls
    \<and> pi_htTypedefs d' = fold (enter_name uc) (map (\<lambda>t. (typedef_name vt src t, fresh (Typedef_ptr t))) (list_typedefs src ls)) (pi_htTypedefs d)
    \<and> knows fresh (P \<union> Typedef_ptr ` set (list_typedefs src ls)) m'"
  using assms(1,4)
proof (induction ls arbitrary: d m P)
  case (Cons l ls)
  let ?ts = "typedefs_of src l"
  from Cons.prems(1) obtain tdl where tdl: "typedef_lists (pi_types src) l = Some tdl" by auto
  define d0 where "d0 = d\<lparr>pi_types := (pi_types d)\<lparr>typedef_lists := (typedef_lists (pi_types d))(fresh_list l \<mapsto> typedef_list_clone vt (fresh_list l) tdl)\<rparr>,
    typedefs_of := (typedefs_of d)(fresh_list l := map (\<lambda>t. fresh (Typedef_ptr t)) ?ts)\<rparr>"
  have inj: "inj (\<lambda>t. fresh (Typedef_ptr t))" using assms(2) by (auto simp: inj_def)
  have "\<forall>t\<in>set ?ts. typedef_in vt src l t" using Cons.prems(1) by simp
  from clone_typedefs [where d = d0 and fresh_list = fresh_list and uc = uc, OF this assms(2) Cons.prems(2)] obtain d1 m1 where
    r1: "run_fold (clone_typedef uc vt fresh src (fresh_list l)) ?ts (d0, m) = Inr (d1, m1)"
    and p1: "(enum_part d1, struct_part d1, pi_htFiles d1, typedef_lists (pi_types d1), typedefs_of d1, pi_typedef_lists d1)
       = (enum_part d0, struct_part d0, pi_htFiles d0, typedef_lists (pi_types d0), typedefs_of d0, pi_typedef_lists d0)"
    and e1: "entered (\<lambda>t. fresh (Typedef_ptr t)) (\<lambda>t. map_option (copied_typedef vt fresh_list) (typedefs (pi_types src) t)) ?ts
        (typedefs (pi_types d0)) (typedefs (pi_types d1))"
    and n1: "pi_htTypedefs d1 = fold (enter_name uc) (map (\<lambda>t. (typedef_name vt src t, fresh (Typedef_ptr t))) ?ts) (pi_htTypedefs d0)"
    and k1: "knows fresh (P \<union> Typedef_ptr ` set ?ts) m1" by blast
  define d2 where "d2 = d1\<lparr>pi_typedef_lists := pi_typedef_lists d1 @ [fresh_list l]\<rparr>"
  have step: "clone_typedef_list uc vt fresh fresh_list src l (d, m) = Inr (d2, m1)"
    using r1 by (simp add: clone_typedef_list_def tdl Let_def d0_def d2_def)
  have parts2: "enum_part d2 = enum_part d" "struct_part d2 = struct_part d" "pi_htFiles d2 = pi_htFiles d"
    "typedefs (pi_types d2) = typedefs (pi_types d1)" "typedefs (pi_types d0) = typedefs (pi_types d)"
    "pi_typedef_lists d2 = pi_typedef_lists d @ [fresh_list l]" "pi_htTypedefs d2 = pi_htTypedefs d1" "pi_htTypedefs d0 = pi_htTypedefs d"
    using p1 by (simp_all add: d2_def d0_def parts)
  have lists2: "typedef_lists (pi_types d2)
      = (typedef_lists (pi_types d))(fresh_list l := map_option (typedef_list_clone vt (fresh_list l)) (typedef_lists (pi_types src) l))"
    "typedefs_of d2 = (typedefs_of d)(fresh_list l := map (\<lambda>t. fresh (Typedef_ptr t)) ?ts)"
    using p1 by (simp_all add: d2_def d0_def tdl)
  from Cons.IH [OF _ k1, of d2] Cons.prems(1) obtain d' m' where
    r: "run_fold (clone_typedef_list uc vt fresh fresh_list src) ls (d2, m1) = Inr (d', m')"
    and f: "(enum_part d', struct_part d', pi_htFiles d') = (enum_part d2, struct_part d2, pi_htFiles d2)"
    and e2: "entered (\<lambda>t. fresh (Typedef_ptr t)) (\<lambda>t. map_option (copied_typedef vt fresh_list) (typedefs (pi_types src) t)) (list_typedefs src ls)
        (typedefs (pi_types d2)) (typedefs (pi_types d'))"
    and e3: "entered fresh_list (\<lambda>l. map_option (typedef_list_clone vt (fresh_list l)) (typedef_lists (pi_types src) l)) ls
        (typedef_lists (pi_types d2)) (typedef_lists (pi_types d'))"
    and e4: "entered fresh_list (\<lambda>l. map (\<lambda>t. fresh (Typedef_ptr t)) (typedefs_of src l)) ls (typedefs_of d2) (typedefs_of d')"
    and n: "pi_typedef_lists d' = pi_typedef_lists d2 @ map fresh_list ls"
      "pi_htTypedefs d' = fold (enter_name uc) (map (\<lambda>t. (typedef_name vt src t, fresh (Typedef_ptr t))) (list_typedefs src ls)) (pi_htTypedefs d2)"
      "knows fresh (P \<union> Typedef_ptr ` set ?ts \<union> Typedef_ptr ` set (list_typedefs src ls)) m'"
    by (metis (no_types, lifting) list.set_intros(2))
  have ts: "list_typedefs src (l # ls) = ?ts @ list_typedefs src ls" by (simp add: list_typedefs_def)
  note e1 = e1 [unfolded parts2(5)] and e2 = e2 [unfolded parts2(4)]
  have "knows fresh (P \<union> Typedef_ptr ` set (list_typedefs src (l # ls))) m'" using n(3) by (simp add: ts image_Un Un_assoc)
  moreover have "(enum_part d', struct_part d', pi_htFiles d') = (enum_part d, struct_part d, pi_htFiles d)" using f parts2 by simp
  moreover have "run_fold (clone_typedef_list uc vt fresh fresh_list src) (l # ls) (d, m) = Inr (d', m')" using step r by simp
  moreover note entered_append [OF inj e1 e2, folded ts] entered_Cons [OF assms(3) e3 [unfolded lists2(1)]]
    entered_Cons [OF assms(3) e4 [unfolded lists2(2)]]
  moreover have "pi_typedef_lists d' = pi_typedef_lists d @ map fresh_list (l # ls)" using n(1) parts2 by simp
  moreover have "pi_htTypedefs d' = fold (enter_name uc) (map (\<lambda>t. (typedef_name vt src t, fresh (Typedef_ptr t))) (list_typedefs src (l # ls)))
      (pi_htTypedefs d)" using n(2) n1 parts2 by (simp add: ts)
  ultimately show ?case by blast
qed (simp add: list_typedefs_def)

section \<open>Files\<close>

lemma clone_files:
  assumes "0 < ht_size (pi_htFiles src)" "ht_size (pi_htFiles src) \<le> MAX_HASH_TABLE_SIZE" and "inj fresh" and "knows fresh P m"
  shows "\<exists>d' m'. clone_files fresh src (d, m) = Inr (d', m')
    \<and> (enum_part d', struct_part d', typedef_part d') = (enum_part d, struct_part d, typedef_part d)
    \<and> (\<forall>f\<in>set (file_numbers (pi_htFiles src)). pi_files d' (fresh (File_ptr f)) = fileinfo_clone (pi_files src f))
    \<and> knows fresh (P \<union> File_ptr ` set (file_numbers (pi_htFiles src))) m'"
proof -
  have inj: "inj (\<lambda>f. fresh (File_ptr f))" using assms(3) by (auto simp: inj_def)
  obtain t where "HT_clone (Some (pi_htFiles src)) (Some (map_option (\<lambda>f. fresh (File_ptr f)))) 0 = Inr (Some t)"
    using assms(1,2) by (auto simp: HT_clone_def HT_new_ex_def)
  with knows_fold [OF assms(4), of File_ptr] show ?thesis by (simp add: clone_files_def parts fold_update [OF _ inj])
qed

section \<open>Renaming\<close>

definition rename_type :: "(Ptr \<Rightarrow> nat) \<Rightarrow> TypeSpec \<Rightarrow> TypeSpec" where
  "rename_type fresh ts = ts\<lparr>ts_ptr := map_option (\<lambda>n. fresh (target_kind (ts_tflags ts) n)) (ts_ptr ts)\<rparr>"

definition rename_context :: "(Ptr \<Rightarrow> nat) \<Rightarrow> nat option \<times> int \<Rightarrow> nat option \<times> int" where
  "rename_context fresh = (\<lambda>(file, line). (map_option (\<lambda>f. fresh (File_ptr f)) file, line))"

definition rename_struct :: "(Ptr \<Rightarrow> nat) \<Rightarrow> Struct \<Rightarrow> Struct" where
  "rename_struct fresh s = s\<lparr>s_declarations := map_option (map (\<lambda>sd. sd\<lparr>sd_type := rename_type fresh (sd_type sd)\<rparr>)) (s_declarations s)\<rparr>"

definition type_in :: "Ptr set \<Rightarrow> TypeSpec \<Rightarrow> bool" where
  "type_in P ts \<longleftrightarrow> (case ts_ptr ts of None \<Rightarrow> True | Some n \<Rightarrow> target_kind (ts_tflags ts) n \<in> P)"

definition context_in :: "Ptr set \<Rightarrow> nat option \<times> int \<Rightarrow> bool" where
  "context_in P = (\<lambda>(file, line). case file of None \<Rightarrow> True | Some f \<Rightarrow> File_ptr f \<in> P)"

definition struct_in :: "Ptr set \<Rightarrow> Struct \<Rightarrow> bool" where
  "struct_in P s \<longleftrightarrow> (case s_declarations s of None \<Rightarrow> True | Some sds \<Rightarrow> list_all (\<lambda>sd. type_in P (sd_type sd)) sds)"

lemma remap_type_eq: "knows fresh P m \<Longrightarrow> type_in P ts \<Longrightarrow> remap_type m ts = Inr (rename_type fresh ts)"
  by (cases "ts_ptr ts") (simp_all add: remap_type_def REMAP_PTR_def rename_type_def type_in_def knows_def)

lemma remap_context_eq: "knows fresh P m \<Longrightarrow> context_in P c \<Longrightarrow> remap_context m c = Inr (rename_context fresh c)"
  by (cases c; cases "fst c") (simp_all add: remap_context_def REMAP_PTR_def rename_context_def context_in_def knows_def)

lemma remap_declarations_eq:
  "knows fresh P m \<Longrightarrow> list_all (\<lambda>sd. type_in P (sd_type sd)) sds \<Longrightarrow>
   remap_declarations m sds = Inr (map (\<lambda>sd. sd\<lparr>sd_type := rename_type fresh (sd_type sd)\<rparr>) sds)"
  by (induction sds) (simp_all add: remap_type_eq)

text \<open>A stage of the renaming changes each object of a list once.\<close>

lemma remap_stage:
  assumes step: "\<And>q d. ok (objs d q) (place d q) \<Longrightarrow> \<exists>d1. f q d = Inr d1 \<and> frame d1 = frame d
      \<and> objs d1 = (objs d)(q := u (objs d q)) \<and> place d1 = (place d)(q := v (place d q))"
    and "distinct qs" and "\<forall>q\<in>set qs. ok (objs d q) (place d q)"
  shows "\<exists>d'. run_fold f qs d = Inr d' \<and> frame d' = frame d
    \<and> (\<forall>q\<in>set qs. objs d' q = u (objs d q) \<and> place d' q = v (place d q))
    \<and> (\<forall>q. q \<notin> set qs \<longrightarrow> objs d' q = objs d q \<and> place d' q = place d q)"
  using assms(2,3)
proof (induction qs arbitrary: d)
  case (Cons q qs)
  from step [of d q] Cons.prems(2) obtain d1 where d1: "f q d = Inr d1" "frame d1 = frame d"
    "objs d1 = (objs d)(q := u (objs d q))" "place d1 = (place d)(q := v (place d q))" by auto
  have other: "objs d1 x = objs d x \<and> place d1 x = place d x" if "x \<noteq> q" for x using that by (simp add: d1)
  have "\<forall>x\<in>set qs. ok (objs d1 x) (place d1 x)" using Cons.prems other by (metis distinct.simps(2) list.set_intros(2))
  with Cons.IH [of d1] Cons.prems(1) obtain d' where d': "run_fold f qs d1 = Inr d'" "frame d' = frame d1"
    "\<forall>x\<in>set qs. objs d' x = u (objs d1 x) \<and> place d' x = v (place d1 x)"
    "\<forall>x. x \<notin> set qs \<longrightarrow> objs d' x = objs d1 x \<and> place d' x = place d1 x" by auto
  have "objs d' q = u (objs d q) \<and> place d' q = v (place d q)" using d'(4) Cons.prems(1) d1(3,4) by simp
  moreover have "objs d' x = u (objs d x) \<and> place d' x = v (place d x)" if "x \<in> set qs" for x
    using that d'(3) other Cons.prems(1) by (metis distinct.simps(2))
  ultimately show ?case using d1(1,2) d' other by simp
qed simp

lemma unit_fun_eq: "(f :: 'a \<Rightarrow> unit) = g"
  by (rule ext) simp

lemma remap_enums:
  assumes "knows fresh P m" and "distinct qs" and "\<forall>q\<in>set qs. context_in P (enum_context d q)"
  shows "\<exists>d'. run_fold (remap_enum m) qs d = Inr d'
    \<and> (enums (pi_types d'), pi_enums d', pi_htEnums d', struct_part d', typedef_part d', pi_files d')
      = (enums (pi_types d), pi_enums d, pi_htEnums d, struct_part d, typedef_part d, pi_files d)
    \<and> (\<forall>q\<in>set qs. enum_context d' q = rename_context fresh (enum_context d q) \<and> () = ())
    \<and> (\<forall>q. q \<notin> set qs \<longrightarrow> enum_context d' q = enum_context d q \<and> () = ())"
  by (rule remap_stage [where ok = "\<lambda>c _. context_in P c" and v = "\<lambda>_. ()" and place = "\<lambda>_ _. ()", OF _ assms(2)])
    (use assms in \<open>simp_all add: remap_enum_def remap_context_eq parts unit_fun_eq [of "\<lambda>_. ()"]\<close>)

lemma remap_structs:
  assumes "knows fresh P m" and "distinct qs"
    and "\<forall>q\<in>set qs. (case structs (pi_types d) q of None \<Rightarrow> False | Some s \<Rightarrow> struct_in P s) \<and> context_in P (struct_context d q)"
  shows "\<exists>d'. run_fold (remap_struct m) qs d = Inr d'
    \<and> (enum_part d', pi_structs d', pi_htStructs d', typedef_part d', pi_files d')
      = (enum_part d, pi_structs d, pi_htStructs d, typedef_part d, pi_files d)
    \<and> (\<forall>q\<in>set qs. structs (pi_types d') q = map_option (rename_struct fresh) (structs (pi_types d) q)
        \<and> struct_context d' q = rename_context fresh (struct_context d q))
    \<and> (\<forall>q. q \<notin> set qs \<longrightarrow> structs (pi_types d') q = structs (pi_types d) q \<and> struct_context d' q = struct_context d q)"
proof (rule remap_stage [where ok = "\<lambda>s c. (case s of None \<Rightarrow> False | Some s \<Rightarrow> struct_in P s) \<and> context_in P c"
      and objs = "\<lambda>d. structs (pi_types d)" and place = struct_context, OF _ assms(2,3)])
  fix q and d :: ParseData
  assume "(case structs (pi_types d) q of None \<Rightarrow> False | Some s \<Rightarrow> struct_in P s) \<and> context_in P (struct_context d q)"
  then obtain s where s: "structs (pi_types d) q = Some s" "struct_in P s" "context_in P (struct_context d q)"
    by (auto split: option.splits)
  then show "\<exists>d1. remap_struct m q d = Inr d1
      \<and> (enum_part d1, pi_structs d1, pi_htStructs d1, typedef_part d1, pi_files d1)
        = (enum_part d, pi_structs d, pi_htStructs d, typedef_part d, pi_files d)
      \<and> structs (pi_types d1) = (structs (pi_types d))(q := map_option (rename_struct fresh) (structs (pi_types d) q))
      \<and> struct_context d1 = (struct_context d)(q := rename_context fresh (struct_context d q))"
    by (cases "s_declarations s") (auto simp: remap_struct_def struct_at_def remap_context_eq [OF assms(1)]
        remap_declarations_eq [OF assms(1)] rename_struct_def struct_in_def parts Let_def)
qed

lemma remap_typedef_lists:
  assumes "knows fresh P m" and "distinct qs"
    and "\<forall>q\<in>set qs. case typedef_lists (pi_types d) q of None \<Rightarrow> False | Some tdl \<Rightarrow> type_in P (tl_type tdl)"
  shows "\<exists>d'. run_fold (remap_typedef_list m) qs d = Inr d'
    \<and> (enum_part d', struct_part d', typedefs (pi_types d'), typedefs_of d', pi_typedef_lists d', pi_htTypedefs d', pi_files d')
      = (enum_part d, struct_part d, typedefs (pi_types d), typedefs_of d, pi_typedef_lists d, pi_htTypedefs d, pi_files d)
    \<and> (\<forall>q\<in>set qs. typedef_lists (pi_types d') q
          = map_option (\<lambda>tdl. tdl\<lparr>tl_type := rename_type fresh (tl_type tdl)\<rparr>) (typedef_lists (pi_types d) q) \<and> () = ())
    \<and> (\<forall>q. q \<notin> set qs \<longrightarrow> typedef_lists (pi_types d') q = typedef_lists (pi_types d) q \<and> () = ())"
  by (rule remap_stage [where ok = "\<lambda>t _. case t of None \<Rightarrow> False | Some tdl \<Rightarrow> type_in P (tl_type tdl)"
        and v = "\<lambda>_. ()" and place = "\<lambda>_ _. ()", OF _ assms(2)])
    (use assms in \<open>auto simp: remap_typedef_list_def remap_type_eq parts Let_def unit_fun_eq [of "\<lambda>_. ()"] split: option.splits\<close>)

section \<open>The whole copy\<close>

definition listed :: "ParseData \<Rightarrow> Ptr set" where
  "listed pd = Enum_ptr ` set (pi_enums pd) \<union> Struct_ptr ` set (pi_structs pd)
     \<union> Typedef_ptr ` set (list_typedefs pd (pi_typedef_lists pd)) \<union> File_ptr ` set (file_numbers (pi_htFiles pd))"

definition size_ok :: "'v HashTable \<Rightarrow> bool" where
  "size_ok t \<longleftrightarrow> 0 < ht_size t \<and> ht_size t \<le> MAX_HASH_TABLE_SIZE"

text \<open>Every object a list or a table names is there, and every pointer leads to one of them.\<close>

definition parse_data_ok :: "vtables \<Rightarrow> ParseData \<Rightarrow> bool" where
  "parse_data_ok vt pd \<longleftrightarrow> distinct (pi_enums pd) \<and> distinct (pi_structs pd) \<and> distinct (pi_typedef_lists pd)
     \<and> (\<forall>n\<in>set (pi_enums pd). enums (pi_types pd) n \<noteq> None \<and> context_in (listed pd) (enum_context pd n) \<and> NUL \<notin> set (enum_name vt pd n)
          \<and> (\<forall>(s, _)\<in>set (enum_entries vt pd n). NUL \<notin> set s))
     \<and> (\<forall>n\<in>set (pi_structs pd). (case structs (pi_types pd) n of None \<Rightarrow> False | Some s \<Rightarrow> struct_in (listed pd) s)
          \<and> context_in (listed pd) (struct_context pd n) \<and> NUL \<notin> set (struct_name vt pd n))
     \<and> (\<forall>l\<in>set (pi_typedef_lists pd). (case typedef_lists (pi_types pd) l of None \<Rightarrow> False | Some tdl \<Rightarrow> type_in (listed pd) (tl_type tdl))
          \<and> (\<forall>t\<in>set (typedefs_of pd l). typedef_in vt pd l t \<and> NUL \<notin> set (typedef_name vt pd t)))
     \<and> size_ok (pi_htEnumerators pd) \<and> size_ok (pi_htEnums pd) \<and> size_ok (pi_htStructs pd) \<and> size_ok (pi_htTypedefs pd)
     \<and> table_ok (pi_htFiles pd) \<and> table_ok (pi_htPredefined pd)"

text \<open>The first object of a name is found under it.\<close>

definition finds :: "bool \<Rightarrow> 'v HashTable \<Rightarrow> (string \<times> 'v) list \<Rightarrow> bool" where
  "finds uc t xs \<longleftrightarrow> (\<forall>s len. s \<noteq> [] \<longrightarrow> NUL \<notin> set s \<longrightarrow> len = 0 \<or> len = length s \<longrightarrow> HT_get uc t s len 0 = map_of xs s)"

text \<open>The objects, the lists, and the tables that are filled along the lists.\<close>

definition objects_copied :: "bool \<Rightarrow> vtables \<Rightarrow> (Ptr \<Rightarrow> nat) \<Rightarrow> (nat \<Rightarrow> nat) \<Rightarrow> ParseData \<Rightarrow> ParseData \<Rightarrow> bool" where
  "objects_copied uc vt fresh fresh_list pd pd' \<longleftrightarrow>
     pi_enums pd' = map (\<lambda>n. fresh (Enum_ptr n)) (pi_enums pd)
   \<and> pi_structs pd' = map (\<lambda>n. fresh (Struct_ptr n)) (pi_structs pd)
   \<and> pi_typedef_lists pd' = map fresh_list (pi_typedef_lists pd)
   \<and> (\<forall>n\<in>set (pi_enums pd). enums (pi_types pd') (fresh (Enum_ptr n)) = map_option (enumspec_clone vt) (enums (pi_types pd) n)
        \<and> enum_context pd' (fresh (Enum_ptr n)) = rename_context fresh (enum_context pd n))
   \<and> (\<forall>n\<in>set (pi_structs pd). structs (pi_types pd') (fresh (Struct_ptr n))
          = map_option (\<lambda>s. rename_struct fresh (struct_clone vt s)) (structs (pi_types pd) n)
        \<and> struct_context pd' (fresh (Struct_ptr n)) = rename_context fresh (struct_context pd n))
   \<and> (\<forall>l\<in>set (pi_typedef_lists pd). map_option tl_type (typedef_lists (pi_types pd') (fresh_list l))
          = map_option (\<lambda>tdl. rename_type fresh (tl_type tdl)) (typedef_lists (pi_types pd) l)
        \<and> typedefs_of pd' (fresh_list l) = map (\<lambda>t. fresh (Typedef_ptr t)) (typedefs_of pd l)
        \<and> (\<forall>t\<in>set (typedefs_of pd l). typedefs (pi_types pd') (fresh (Typedef_ptr t))
            = map_option (copied_typedef vt fresh_list) (typedefs (pi_types pd) t)))
   \<and> (\<forall>f\<in>set (file_numbers (pi_htFiles pd)). pi_files pd' (fresh (File_ptr f)) = pi_files pd f)
   \<and> finds uc (pi_htEnums pd') (map (\<lambda>n. (enum_name vt pd n, fresh (Enum_ptr n))) (pi_enums pd))
   \<and> finds uc (pi_htStructs pd') (map (\<lambda>n. (struct_name vt pd n, fresh (Struct_ptr n))) (pi_structs pd))
   \<and> finds uc (pi_htTypedefs pd') (map (\<lambda>t. (typedef_name vt pd t, fresh (Typedef_ptr t))) (list_typedefs pd (pi_typedef_lists pd)))"

text \<open>The tables of enumerators, files and predefined macros.\<close>

definition tables_copied :: "bool \<Rightarrow> vtables \<Rightarrow> (Ptr \<Rightarrow> nat) \<Rightarrow> ParseData \<Rightarrow> ParseData \<Rightarrow> bool" where
  "tables_copied uc vt fresh pd pd' \<longleftrightarrow>
     finds uc (pi_htEnumerators pd') (concat (map (enum_entries vt pd) (pi_enums pd)))
   \<and> (\<forall>name len hash. HT_get uc (pi_htFiles pd') name len hash
        = map_option (\<lambda>f. fresh (File_ptr f)) (HT_get uc (pi_htFiles pd) name len hash))
   \<and> (\<forall>name len hash. HT_exists uc (pi_htPredefined pd') name len hash = HT_exists uc (pi_htPredefined pd) name len hash)"

definition copy_of :: "bool \<Rightarrow> vtables \<Rightarrow> (Ptr \<Rightarrow> nat) \<Rightarrow> (nat \<Rightarrow> nat) \<Rightarrow> ParseData \<Rightarrow> ParseData \<Rightarrow> bool" where
  "copy_of uc vt fresh fresh_list pd pd' \<longleftrightarrow> objects_copied uc vt fresh fresh_list pd pd' \<and> tables_copied uc vt fresh pd pd'"

lemma table_size_ok: "table_ok t \<Longrightarrow> size_ok t"
  by (simp add: table_ok_def size_ok_def)

lemma new_table_ok:
  assumes "0 < n" "n \<le> int MAX_HASH_TABLE_SIZE"
  shows "\<exists>t. HT_new_ex n flags = Inr t \<and> table_ok t \<and> table_map t = Map.empty"
proof -
  obtain t :: "'a HashTable" where t: "HT_new_ex n flags = Inr t" using assms by (simp add: HT_new_ex_def)
  from t new_table [OF t] show ?thesis by blast
qed

lemma new_tables_ok:
  assumes "size_ok (pi_htEnumerators pd)" "size_ok (pi_htEnums pd)" "size_ok (pi_htStructs pd)" "size_ok (pi_htTypedefs pd)" "size_ok (pi_htFiles pd)"
  shows "\<exists>d. new_tables (int (ht_size (pi_htEnumerators pd))) (int (ht_size (pi_htEnums pd))) (int (ht_size (pi_htStructs pd)))
       (int (ht_size (pi_htTypedefs pd))) (int (ht_size (pi_htFiles pd))) st = Inr d
     \<and> pi_enums d = [] \<and> pi_structs d = [] \<and> pi_typedef_lists d = []
     \<and> (\<forall>t\<in>{pi_htEnums d, pi_htStructs d, pi_htTypedefs d}. table_ok t \<and> table_map t = Map.empty)"
proof -
  have sizes: "0 < int (ht_size t) \<and> int (ht_size t) \<le> int MAX_HASH_TABLE_SIZE" if "size_ok t" for t using that by (simp add: size_ok_def)
  obtain t1 :: "Enumerator HashTable" where t1: "HT_new_ex (int (ht_size (pi_htEnumerators pd))) HT_AUTOGROW = Inr t1" using new_table_ok sizes assms(1) by blast
  obtain t2 :: "nat HashTable" where t2: "HT_new_ex (int (ht_size (pi_htEnums pd))) HT_AUTOGROW = Inr t2" "table_ok t2" "table_map t2 = Map.empty"
    using new_table_ok sizes assms(2) by blast
  obtain t3 :: "nat HashTable" where t3: "HT_new_ex (int (ht_size (pi_htStructs pd))) HT_AUTOGROW = Inr t3" "table_ok t3" "table_map t3 = Map.empty"
    using new_table_ok sizes assms(3) by blast
  obtain t4 :: "nat HashTable" where t4: "HT_new_ex (int (ht_size (pi_htTypedefs pd))) HT_AUTOGROW = Inr t4" "table_ok t4" "table_map t4 = Map.empty"
    using new_table_ok sizes assms(4) by blast
  obtain t5 :: "nat HashTable" where t5: "HT_new_ex (int (ht_size (pi_htFiles pd))) HT_AUTOGROW = Inr t5" using new_table_ok sizes assms(5) by blast
  obtain t6 :: "unit HashTable" where t6: "HT_new_ex 3 HT_AUTOGROW = Inr t6" using new_table_ok [of 3] by auto
  show ?thesis unfolding new_tables_def t1 t2(1) t3(1) t4(1) t5 t6 using t2 t3 t4 by simp
qed

lemma finds_entered:
  assumes "table_ok t" "table_map t = Map.empty" "\<forall>(s, q)\<in>set xs. NUL \<notin> set s"
  shows "finds uc (fold (enter_name uc) xs t) xs"
  unfolding finds_def using find_name [OF assms] by blast

lemma copied_structs_in: "struct_in P s \<Longrightarrow> struct_in P (struct_clone vt s)"
  by (cases "s_declarations s") (simp_all add: struct_in_def struct_clone_def structdecl_clone_def list_all_iff)

text \<open>The copy before its pointers are renamed.\<close>

definition copied :: "bool \<Rightarrow> vtables \<Rightarrow> (Ptr \<Rightarrow> nat) \<Rightarrow> (nat \<Rightarrow> nat) \<Rightarrow> ParseData \<Rightarrow> ParseData \<Rightarrow> bool" where
  "copied uc vt fresh fresh_list pd d \<longleftrightarrow>
     pi_enums d = map (\<lambda>n. fresh (Enum_ptr n)) (pi_enums pd)
   \<and> pi_structs d = map (\<lambda>n. fresh (Struct_ptr n)) (pi_structs pd)
   \<and> pi_typedef_lists d = map fresh_list (pi_typedef_lists pd)
   \<and> (\<forall>n\<in>set (pi_enums pd). enums (pi_types d) (fresh (Enum_ptr n)) = map_option (enumspec_clone vt) (enums (pi_types pd) n)
        \<and> enum_context d (fresh (Enum_ptr n)) = enum_context pd n)
   \<and> (\<forall>n\<in>set (pi_structs pd). structs (pi_types d) (fresh (Struct_ptr n)) = map_option (struct_clone vt) (structs (pi_types pd) n)
        \<and> struct_context d (fresh (Struct_ptr n)) = struct_context pd n)
   \<and> (\<forall>l\<in>set (pi_typedef_lists pd). typedef_lists (pi_types d) (fresh_list l)
          = map_option (typedef_list_clone vt (fresh_list l)) (typedef_lists (pi_types pd) l)
        \<and> typedefs_of d (fresh_list l) = map (\<lambda>t. fresh (Typedef_ptr t)) (typedefs_of pd l)
        \<and> (\<forall>t\<in>set (typedefs_of pd l). typedefs (pi_types d) (fresh (Typedef_ptr t))
            = map_option (copied_typedef vt fresh_list) (typedefs (pi_types pd) t)))
   \<and> (\<forall>f\<in>set (file_numbers (pi_htFiles pd)). pi_files d (fresh (File_ptr f)) = pi_files pd f)
   \<and> finds uc (pi_htEnums d) (map (\<lambda>n. (enum_name vt pd n, fresh (Enum_ptr n))) (pi_enums pd))
   \<and> finds uc (pi_htStructs d) (map (\<lambda>n. (struct_name vt pd n, fresh (Struct_ptr n))) (pi_structs pd))
   \<and> finds uc (pi_htTypedefs d) (map (\<lambda>t. (typedef_name vt pd t, fresh (Typedef_ptr t))) (list_typedefs pd (pi_typedef_lists pd)))"

lemma fold_append_list: "fold (\<lambda>x ys. ys @ [f x]) xs ys = ys @ map f xs"
  by (induction xs arbitrary: ys) simp_all

lemma clone_parts:
  assumes ok: "parse_data_ok vt pd" and inj: "inj fresh" "inj fresh_list"
    and d0: "pi_enums d0 = []" "pi_structs d0 = []" "pi_typedef_lists d0 = []"
      "\<forall>t\<in>{pi_htEnums d0, pi_htStructs d0, pi_htTypedefs d0}. table_ok t \<and> table_map t = Map.empty"
  shows "\<exists>d1 d2 d3 d4 m. run_fold (clone_enum uc vt fresh pd) (pi_enums pd) (d0, Map.empty) = Inr d1
    \<and> run_fold (clone_struct uc vt fresh pd) (pi_structs pd) d1 = Inr d2
    \<and> run_fold (clone_typedef_list uc vt fresh fresh_list pd) (pi_typedef_lists pd) d2 = Inr d3
    \<and> clone_files fresh pd d3 = Inr (d4, m) \<and> copied uc vt fresh fresh_list pd d4 \<and> knows fresh (listed pd) m"
proof -
  note ok = ok [unfolded parse_data_ok_def]
  let ?ts = "list_typedefs pd (pi_typedef_lists pd)"
  have k0: "knows fresh {} Map.empty" by (simp add: knows_def)
  obtain d1 m1 where r1: "run_fold (clone_enum uc vt fresh pd) (pi_enums pd) (d0, Map.empty) = Inr (d1, m1)"
    and f1: "(struct_part d1, typedef_part d1, pi_htFiles d1) = (struct_part d0, typedef_part d0, pi_htFiles d0)"
    and e1: "entered (\<lambda>n. fresh (Enum_ptr n)) (\<lambda>n. map_option (enumspec_clone vt) (enums (pi_types pd) n)) (pi_enums pd)
        (enums (pi_types d0)) (enums (pi_types d1))"
      "entered (\<lambda>n. fresh (Enum_ptr n)) (enum_context pd) (pi_enums pd) (enum_context d0) (enum_context d1)"
    and l1: "pi_enums d1 = fold (\<lambda>n l. l @ [fresh (Enum_ptr n)]) (pi_enums pd) (pi_enums d0)"
      "pi_htEnums d1 = fold (enter_name uc) (map (\<lambda>n. (enum_name vt pd n, fresh (Enum_ptr n))) (pi_enums pd)) (pi_htEnums d0)"
    and k1: "knows fresh ({} \<union> Enum_ptr ` set (pi_enums pd)) m1"
    using clone_enums [OF _ inj(1) k0, of "pi_enums pd" pd uc vt d0] ok by blast
  obtain d2 m2 where r2: "run_fold (clone_struct uc vt fresh pd) (pi_structs pd) (d1, m1) = Inr (d2, m2)"
    and f2: "(enum_part d2, typedef_part d2, pi_htFiles d2) = (enum_part d1, typedef_part d1, pi_htFiles d1)"
    and e2: "entered (\<lambda>n. fresh (Struct_ptr n)) (\<lambda>n. map_option (struct_clone vt) (structs (pi_types pd) n)) (pi_structs pd)
        (structs (pi_types d1)) (structs (pi_types d2))"
      "entered (\<lambda>n. fresh (Struct_ptr n)) (struct_context pd) (pi_structs pd) (struct_context d1) (struct_context d2)"
    and l2: "pi_structs d2 = fold (\<lambda>n l. l @ [fresh (Struct_ptr n)]) (pi_structs pd) (pi_structs d1)"
      "pi_htStructs d2 = fold (enter_name uc) (map (\<lambda>n. (struct_name vt pd n, fresh (Struct_ptr n))) (pi_structs pd)) (pi_htStructs d1)"
    and k2: "knows fresh ({} \<union> Enum_ptr ` set (pi_enums pd) \<union> Struct_ptr ` set (pi_structs pd)) m2"
    using clone_structs [OF _ inj(1) k1, of "pi_structs pd" pd uc vt d1] ok by (auto split: option.splits)
  obtain d3 m3 where r3: "run_fold (clone_typedef_list uc vt fresh fresh_list pd) (pi_typedef_lists pd) (d2, m2) = Inr (d3, m3)"
    and f3: "(enum_part d3, struct_part d3, pi_htFiles d3) = (enum_part d2, struct_part d2, pi_htFiles d2)"
    and e3: "entered (\<lambda>t. fresh (Typedef_ptr t)) (\<lambda>t. map_option (copied_typedef vt fresh_list) (typedefs (pi_types pd) t)) ?ts
        (typedefs (pi_types d2)) (typedefs (pi_types d3))"
      "entered fresh_list (\<lambda>l. map_option (typedef_list_clone vt (fresh_list l)) (typedef_lists (pi_types pd) l)) (pi_typedef_lists pd)
        (typedef_lists (pi_types d2)) (typedef_lists (pi_types d3))"
      "entered fresh_list (\<lambda>l. map (\<lambda>t. fresh (Typedef_ptr t)) (typedefs_of pd l)) (pi_typedef_lists pd) (typedefs_of d2) (typedefs_of d3)"
    and l3: "pi_typedef_lists d3 = pi_typedef_lists d2 @ map fresh_list (pi_typedef_lists pd)"
      "pi_htTypedefs d3 = fold (enter_name uc) (map (\<lambda>t. (typedef_name vt pd t, fresh (Typedef_ptr t))) ?ts) (pi_htTypedefs d2)"
    and k3: "knows fresh ({} \<union> Enum_ptr ` set (pi_enums pd) \<union> Struct_ptr ` set (pi_structs pd) \<union> Typedef_ptr ` set ?ts) m3"
    using clone_typedef_lists [OF _ inj k2, of "pi_typedef_lists pd" pd vt uc d2] ok by (auto split: option.splits)
  obtain d4 m4 where r4: "clone_files fresh pd (d3, m3) = Inr (d4, m4)"
    and f4: "(enum_part d4, struct_part d4, typedef_part d4) = (enum_part d3, struct_part d3, typedef_part d3)"
    and e4: "\<forall>f\<in>set (file_numbers (pi_htFiles pd)). pi_files d4 (fresh (File_ptr f)) = fileinfo_clone (pi_files pd f)"
    and k4: "knows fresh (listed pd) m4"
    using clone_files [OF _ _ inj(1) k3, of pd d3] ok unfolding table_ok_def listed_def by auto
  have names: "\<forall>(s, q)\<in>set (map (\<lambda>n. (enum_name vt pd n, fresh (Enum_ptr n))) (pi_enums pd)). NUL \<notin> set s"
    "\<forall>(s, q)\<in>set (map (\<lambda>n. (struct_name vt pd n, fresh (Struct_ptr n))) (pi_structs pd)). NUL \<notin> set s"
    "\<forall>(s, q)\<in>set (map (\<lambda>t. (typedef_name vt pd t, fresh (Typedef_ptr t))) ?ts). NUL \<notin> set s"
    using ok by (auto simp: list_typedefs_def)
  note finds_entered [OF _ _ names(1), of "pi_htEnums d0" uc] finds_entered [OF _ _ names(2), of "pi_htStructs d0" uc]
    finds_entered [OF _ _ names(3), of "pi_htTypedefs d0" uc]
  then have "finds uc (pi_htEnums d4) (map (\<lambda>n. (enum_name vt pd n, fresh (Enum_ptr n))) (pi_enums pd))"
    "finds uc (pi_htStructs d4) (map (\<lambda>n. (struct_name vt pd n, fresh (Struct_ptr n))) (pi_structs pd))"
    "finds uc (pi_htTypedefs d4) (map (\<lambda>t. (typedef_name vt pd t, fresh (Typedef_ptr t))) ?ts)"
    using f1 f2 f3 f4 l1 l2 l3 d0(4) by (simp_all add: parts)
  moreover have "\<forall>n\<in>set (pi_enums pd). enums (pi_types d4) (fresh (Enum_ptr n)) = map_option (enumspec_clone vt) (enums (pi_types pd) n)
        \<and> enum_context d4 (fresh (Enum_ptr n)) = enum_context pd n"
    using e1 f2 f3 f4 by (simp add: parts entered_def)
  moreover have "\<forall>n\<in>set (pi_structs pd). structs (pi_types d4) (fresh (Struct_ptr n)) = map_option (struct_clone vt) (structs (pi_types pd) n)
        \<and> struct_context d4 (fresh (Struct_ptr n)) = struct_context pd n"
    using e2 f3 f4 by (simp add: parts entered_def)
  moreover have "\<forall>l\<in>set (pi_typedef_lists pd). typedef_lists (pi_types d4) (fresh_list l)
          = map_option (typedef_list_clone vt (fresh_list l)) (typedef_lists (pi_types pd) l)
        \<and> typedefs_of d4 (fresh_list l) = map (\<lambda>t. fresh (Typedef_ptr t)) (typedefs_of pd l)
        \<and> (\<forall>t\<in>set (typedefs_of pd l). typedefs (pi_types d4) (fresh (Typedef_ptr t))
            = map_option (copied_typedef vt fresh_list) (typedefs (pi_types pd) t))"
    using e3 f4 by (auto simp: parts entered_def list_typedefs_def)
  moreover have "pi_enums d4 = map (\<lambda>n. fresh (Enum_ptr n)) (pi_enums pd)" "pi_structs d4 = map (\<lambda>n. fresh (Struct_ptr n)) (pi_structs pd)"
    "pi_typedef_lists d4 = map fresh_list (pi_typedef_lists pd)"
    using f1 f2 f3 f4 l1 l2 l3 d0 by (simp_all add: parts fold_append_list)
  ultimately have "copied uc vt fresh fresh_list pd d4" using e4 by (simp add: copied_def fileinfo_clone_def)
  with r1 r2 r3 r4 k4 show ?thesis by blast
qed

lemma clone_renames:
  assumes ok: "parse_data_ok vt pd" and inj: "inj fresh" "inj fresh_list"
    and d: "copied uc vt fresh fresh_list pd d" and m: "knows fresh (listed pd) m"
  shows "\<exists>d1 d2 pd'. run_fold (remap_enum m) (pi_enums d) (d\<lparr>pi_htPredefined := ps\<rparr>) = Inr d1
    \<and> run_fold (remap_struct m) (pi_structs d1) d1 = Inr d2 \<and> run_fold (remap_typedef_list m) (pi_typedef_lists d2) d2 = Inr pd'
    \<and> objects_copied uc vt fresh fresh_list pd pd'"
proof -
  note ok = ok [unfolded parse_data_ok_def] and d = d [unfolded copied_def]
  have inj': "inj (\<lambda>n. fresh (Enum_ptr n))" "inj (\<lambda>n. fresh (Struct_ptr n))" using inj(1) by (auto simp: inj_def)
  have dist: "distinct (pi_enums d)" "distinct (pi_structs d)" "distinct (pi_typedef_lists d)"
    using d ok inj' inj(2) by (simp_all add: distinct_map inj_on_subset [of _ UNIV])
  let ?d0 = "d\<lparr>pi_htPredefined := ps\<rparr>"
  have "\<forall>q\<in>set (pi_enums d). context_in (listed pd) (enum_context ?d0 q)" using d ok by simp
  from remap_enums [OF m dist(1) this] obtain d1 where r1: "run_fold (remap_enum m) (pi_enums d) ?d0 = Inr d1"
    and f1: "(enums (pi_types d1), pi_enums d1, pi_htEnums d1, struct_part d1, typedef_part d1, pi_files d1)
      = (enums (pi_types d), pi_enums d, pi_htEnums d, struct_part d, typedef_part d, pi_files d)"
    and e1: "\<forall>q\<in>set (pi_enums d). enum_context d1 q = rename_context fresh (enum_context d q)" by (auto simp: parts)
  have "\<forall>q\<in>set (pi_structs d). (case structs (pi_types d1) q of None \<Rightarrow> False | Some s \<Rightarrow> struct_in (listed pd) s)
      \<and> context_in (listed pd) (struct_context d1 q)"
    using d ok f1 copied_structs_in by (fastforce simp: parts split: option.splits)
  from remap_structs [OF m dist(2) this] obtain d2 where r2: "run_fold (remap_struct m) (pi_structs d) d1 = Inr d2"
    and f2: "(enum_part d2, pi_structs d2, pi_htStructs d2, typedef_part d2, pi_files d2)
      = (enum_part d1, pi_structs d1, pi_htStructs d1, typedef_part d1, pi_files d1)"
    and e2: "\<forall>q\<in>set (pi_structs d). structs (pi_types d2) q = map_option (rename_struct fresh) (structs (pi_types d1) q)
        \<and> struct_context d2 q = rename_context fresh (struct_context d1 q)" by blast
  have "\<forall>q\<in>set (pi_typedef_lists d). case typedef_lists (pi_types d2) q of None \<Rightarrow> False | Some tdl \<Rightarrow> type_in (listed pd) (tl_type tdl)"
    using d ok f1 f2 by (fastforce simp: parts typedef_list_clone_def split: option.splits)
  from remap_typedef_lists [OF m dist(3) this] obtain pd' where r3: "run_fold (remap_typedef_list m) (pi_typedef_lists d) d2 = Inr pd'"
    and f3: "(enum_part pd', struct_part pd', typedefs (pi_types pd'), typedefs_of pd', pi_typedef_lists pd', pi_htTypedefs pd', pi_files pd')
      = (enum_part d2, struct_part d2, typedefs (pi_types d2), typedefs_of d2, pi_typedef_lists d2, pi_htTypedefs d2, pi_files d2)"
    and e3: "\<forall>q\<in>set (pi_typedef_lists d). typedef_lists (pi_types pd') q
          = map_option (\<lambda>tdl. tdl\<lparr>tl_type := rename_type fresh (tl_type tdl)\<rparr>) (typedef_lists (pi_types d2) q)" by blast
  have "enums (pi_types pd') = enums (pi_types d)" "enum_context pd' = enum_context d1" "structs (pi_types pd') = structs (pi_types d2)"
    "struct_context pd' = struct_context d2" "structs (pi_types d1) = structs (pi_types d)" "struct_context d1 = struct_context d"
    "typedef_lists (pi_types d2) = typedef_lists (pi_types d)" "typedefs (pi_types pd') = typedefs (pi_types d)" "typedefs_of pd' = typedefs_of d"
    and same: "pi_enums pd' = pi_enums d" "pi_structs pd' = pi_structs d" "pi_typedef_lists pd' = pi_typedef_lists d" "pi_files pd' = pi_files d"
    "pi_htEnums pd' = pi_htEnums d" "pi_htStructs pd' = pi_htStructs d" "pi_htTypedefs pd' = pi_htTypedefs d"
    using f1 f2 f3 by (simp_all add: parts)
  note eqs = this
  have "\<forall>l\<in>set (pi_typedef_lists pd). map_option tl_type (typedef_lists (pi_types pd') (fresh_list l))
        = map_option (\<lambda>tdl. rename_type fresh (tl_type tdl)) (typedef_lists (pi_types pd) l)"
    using d e3 eqs by (simp add: option.map_comp o_def typedef_list_clone_def)
  then have "objects_copied uc vt fresh fresh_list pd pd'"
    using d e1 e2 eqs by (simp add: objects_copied_def option.map_comp o_def)
  moreover have "pi_structs d1 = pi_structs d" "pi_typedef_lists d2 = pi_typedef_lists d" using f1 f2 by (simp_all add: parts)
  ultimately show ?thesis using r1 r2 r3 by auto
qed

section \<open>The other tables\<close>

text \<open>What every step of a loop keeps, the loop keeps.\<close>

lemma run_fold_keeps:
  assumes "run_fold f xs a = Inr b" and "\<And>x a b. f x a = Inr b \<Longrightarrow> part b = part a"
  shows "part b = part a"
  using assms(1)
proof (induction xs arbitrary: a)
  case (Cons x xs)
  then obtain a1 where "f x a = Inr a1" "run_fold f xs a1 = Inr b" by (auto simp: and_then_Inr)
  then show ?case using Cons.IH assms(2) by metis
qed simp

definition other_tables where
  "other_tables (d :: ParseData) = (pi_htEnumerators d, pi_htFiles d, pi_htPredefined d)"

lemma struct_step_tables: "clone_struct uc vt fresh src n dm = Inr dm' \<Longrightarrow> other_tables (fst dm') = other_tables (fst dm)"
  by (auto simp: clone_struct_def other_tables_def Let_def split: prod.splits option.splits)

lemma typedef_step_tables: "clone_typedef uc vt fresh src l t dm = Inr dm' \<Longrightarrow> other_tables (fst dm') = other_tables (fst dm)"
  by (auto simp: clone_typedef_def other_tables_def Let_def split: prod.splits option.splits)

lemma typedef_list_step_tables:
  assumes "clone_typedef_list uc vt fresh fresh_list src l dm = Inr dm'"
  shows "other_tables (fst dm') = other_tables (fst dm)"
proof -
  obtain d m where dm: "dm = (d, m)" by (cases dm)
  from assms obtain d0 d1 m1 where r: "run_fold (clone_typedef uc vt fresh src (fresh_list l)) (typedefs_of src l) (d0, m) = Inr (d1, m1)"
    and d0: "other_tables d0 = other_tables d" and dm': "other_tables (fst dm') = other_tables d1"
    by (auto simp: clone_typedef_list_def dm Let_def and_then_Inr other_tables_def split: option.splits)
  from run_fold_keeps [OF r, of "\<lambda>dm. other_tables (fst dm)"] typedef_step_tables d0 dm' show ?thesis by (simp add: dm)
qed

lemma remap_tables:
  "remap_enum m q d = Inr d' \<Longrightarrow> other_tables d' = other_tables d"
  "remap_struct m q d = Inr d' \<Longrightarrow> other_tables d' = other_tables d"
  "remap_typedef_list m q d = Inr d' \<Longrightarrow> other_tables d' = other_tables d"
  by (auto simp: remap_enum_def remap_struct_def remap_typedef_list_def other_tables_def Let_def and_then_Inr split: option.splits)

text \<open>The enumerators are entered in order, each under its name; the first one of a name stays.\<close>

definition enter_enumerator :: "bool \<Rightarrow> nat \<Rightarrow> string \<times> Enumerator \<Rightarrow> Enumerator HashTable \<Rightarrow> Enumerator HashTable" where
  "enter_enumerator uc q = (\<lambda>(s, en) t. snd (HT_store uc q t s 0 0 (Some en)))"

lemma enum_step_tables:
  assumes "clone_enum uc vt fresh src n (d, m) = Inr (d', m')"
  shows "pi_htEnumerators d' = fold (enter_enumerator uc (fresh (Enum_ptr n))) (enum_entries vt src n) (pi_htEnumerators d)"
  using assms
  by (auto simp: clone_enum_def enum_entries_def enter_enumerator_def Let_def fold_map o_def split: option.splits)

lemma enter_enumerators:
  assumes "table_ok t" and "\<forall>(s, _)\<in>set xs. NUL \<notin> set s"
  shows "table_ok (fold (enter_enumerator uc q) xs t) \<and> (\<forall>s. table_map (fold (enter_enumerator uc q) xs t) (HASH_DATA uc (length s) s, s)
     = (case table_map t (HASH_DATA uc (length s) s, s) of Some v \<Rightarrow> Some v | None \<Rightarrow> map_option Some (map_of xs s)))"
  using assms
proof (induction xs arbitrary: t)
  case (Cons x xs)
  obtain s en where x: "x = (s, en)" by (cases x)
  have n: "NUL \<notin> set s" using Cons.prems(2) x by simp
  from store_eq [OF Cons.prems(1) plain_key [OF n, of 0 uc], of q "Some en"]
  obtain t' where t': "snd (HT_store uc q t s 0 0 (Some en)) = t'" "table_ok t'"
    "table_map t' = (let k = (HASH_DATA uc (length s) s, s) in
       if k \<in> dom (table_map t) then table_map t else (table_map t)(k \<mapsto> Some en))" by auto
  with Cons.IH [OF t'(2)] Cons.prems(2) x show ?case
    by (auto simp: enter_enumerator_def Let_def split: option.split)
qed (simp split: option.split)

lemma clone_enum_tables:
  assumes "run_fold (clone_enum uc vt fresh src) ns (d, m) = Inr (d', m')" and "table_ok (pi_htEnumerators d)"
    and "\<forall>n\<in>set ns. \<forall>(s, _)\<in>set (enum_entries vt src n). NUL \<notin> set s"
  shows "table_ok (pi_htEnumerators d') \<and> (\<forall>s. table_map (pi_htEnumerators d') (HASH_DATA uc (length s) s, s)
     = (case table_map (pi_htEnumerators d) (HASH_DATA uc (length s) s, s) of Some v \<Rightarrow> Some v
        | None \<Rightarrow> map_option Some (map_of (concat (map (enum_entries vt src) ns)) s)))"
  using assms
proof (induction ns arbitrary: d m)
  case (Cons n ns)
  then obtain d1 m1 where r: "clone_enum uc vt fresh src n (d, m) = Inr (d1, m1)" "run_fold (clone_enum uc vt fresh src) ns (d1, m1) = Inr (d', m')"
    by (auto simp: and_then_Inr)
  have "\<forall>(s, _)\<in>set (enum_entries vt src n). NUL \<notin> set s" using Cons.prems(3) by simp
  note e = enter_enumerators [OF Cons.prems(2) this, of uc "fresh (Enum_ptr n)", folded enum_step_tables [OF r(1)]]
  from Cons.IH [OF r(2)] e Cons.prems(3) show ?case
    by (auto simp: map_add_def split: option.split)
qed (simp split: option.split)

lemma clone_obj_eqs: "clone_obj (Some f) = f" "clone_obj None = (\<lambda>v. v)"
  by (simp_all add: clone_obj_def fun_eq_iff)

lemma copied_tables:
  assumes ok: "parse_data_ok vt pd" and run: "clone_parse_data uc vt fresh fresh_list st pd = Inr pd'"
  shows "tables_copied uc vt fresh pd pd'"
proof -
  from run obtain d0 d1 m1 d2 m2 d3 m3 d4 m4 ps d5 d6 where
    r0: "new_tables (int (ht_size (pi_htEnumerators pd))) (int (ht_size (pi_htEnums pd))) (int (ht_size (pi_htStructs pd)))
       (int (ht_size (pi_htTypedefs pd))) (int (ht_size (pi_htFiles pd))) st = Inr d0"
    and r1: "run_fold (clone_enum uc vt fresh pd) (pi_enums pd) (d0, Map.empty) = Inr (d1, m1)"
    and r2: "run_fold (clone_struct uc vt fresh pd) (pi_structs pd) (d1, m1) = Inr (d2, m2)"
    and r3: "run_fold (clone_typedef_list uc vt fresh fresh_list pd) (pi_typedef_lists pd) (d2, m2) = Inr (d3, m3)"
    and r4: "Parse_Info.clone_files fresh pd (d3, m3) = Inr (d4, m4)"
    and r5: "HT_clone (Some (pi_htPredefined pd)) None 0 = Inr ps"
    and r6: "run_fold (remap_enum m4) (pi_enums d4) (d4\<lparr>pi_htPredefined := the ps\<rparr>) = Inr d5"
    and r7: "run_fold (remap_struct m4) (pi_structs d5) d5 = Inr d6"
    and r8: "run_fold (remap_typedef_list m4) (pi_typedef_lists d6) d6 = Inr pd'"
    by (auto simp: clone_parse_data_def and_then_Inr)
  note ok = ok [unfolded parse_data_ok_def]
  obtain t where "HT_new_ex (int (ht_size (pi_htEnumerators pd))) HT_AUTOGROW = Inr t" "pi_htEnumerators d0 = t"
    using r0 by (auto simp: new_tables_def and_then_Inr)
  with new_table [of _ _ t] have t0: "table_ok (pi_htEnumerators d0)" "table_map (pi_htEnumerators d0) = Map.empty" by auto
  have "\<forall>n\<in>set (pi_enums pd). \<forall>(s, _)\<in>set (enum_entries vt pd n). NUL \<notin> set s" using ok by blast
  note e1 = clone_enum_tables [OF r1 t0(1) this]
  have same: "other_tables d3 = other_tables d1"
    using run_fold_keeps [OF r2, of "\<lambda>dm. other_tables (fst dm)"] run_fold_keeps [OF r3, of "\<lambda>dm. other_tables (fst dm)"]
      struct_step_tables typedef_list_step_tables by simp
  obtain fs where fs: "HT_clone (Some (pi_htFiles pd)) (Some (map_option (\<lambda>f. fresh (File_ptr f)))) 0 = Inr (Some fs)"
    "pi_htFiles d4 = fs" "pi_htEnumerators d4 = pi_htEnumerators d3"
    using r4 by (auto simp: Parse_Info.clone_files_def and_then_Inr split: option.splits)
  have "other_tables pd' = other_tables (d4\<lparr>pi_htPredefined := the ps\<rparr>)"
    using run_fold_keeps [OF r6, of other_tables] run_fold_keeps [OF r7, of other_tables] run_fold_keeps [OF r8, of other_tables]
      remap_tables by metis
  then have pd': "pi_htEnumerators pd' = pi_htEnumerators d1" "pi_htFiles pd' = fs" "pi_htPredefined pd' = the ps"
    using same fs(2,3) by (simp_all add: other_tables_def)
  have "table_ok (pi_htFiles pd)" "table_ok (pi_htPredefined pd)" using ok by simp_all
  with clone_eq [of "pi_htFiles pd" "Some (map_option (\<lambda>f. fresh (File_ptr f)))" 0] clone_eq [of "pi_htPredefined pd" None 0] fs(1) r5
  have c: "table_ok fs" "table_map fs = map_option (map_option (\<lambda>f. fresh (File_ptr f))) \<circ> table_map (pi_htFiles pd)"
    "table_ok (the ps)" "table_map (the ps) = table_map (pi_htPredefined pd)"
    by (auto simp: clone_obj_eqs o_def option.map_ident)
  have "finds uc (pi_htEnumerators pd') (concat (map (enum_entries vt pd) (pi_enums pd)))"
    unfolding finds_def pd'(1)
  proof (intro allI impI)
    fix s :: string and len
    assume "NUL \<notin> set s" "len = 0 \<or> len = length s"
    from get_eq(1) [OF conjunct1 [OF e1] plain_key [OF this, of uc]] e1 t0(2)
    show "HT_get uc (pi_htEnumerators d1) s len 0 = map_of (concat (map (enum_entries vt pd) (pi_enums pd))) s"
      by (cases "map_of (concat (map (enum_entries vt pd) (pi_enums pd))) s") simp_all
  qed
  moreover have "HT_get uc fs name len hash = map_option (\<lambda>f. fresh (File_ptr f)) (HT_get uc (pi_htFiles pd) name len hash)" for name len hash
  proof -
    obtain k h where k: "key_and_hash uc name len hash = (k, h)" by force
    show ?thesis
      using get_eq(1) [OF c(1) k] get_eq(1) [OF \<open>table_ok (pi_htFiles pd)\<close> k] by (cases "table_map (pi_htFiles pd) (h, k)") (simp_all add: c(2))
  qed
  moreover have "HT_exists uc (the ps) name len hash = HT_exists uc (pi_htPredefined pd) name len hash" for name len hash
  proof -
    obtain k h where k: "key_and_hash uc name len hash = (k, h)" by force
    show ?thesis using get_eq(2) [OF c(3) k] get_eq(2) [OF \<open>table_ok (pi_htPredefined pd)\<close> k] by (simp add: c(4))
  qed
  ultimately show ?thesis by (simp add: tables_copied_def pd'(2,3))
qed

lemma clone_copies:
  assumes ok: "parse_data_ok vt pd" and inj: "inj fresh" "inj fresh_list"
  shows "\<exists>pd'. clone_parse_data uc vt fresh fresh_list st pd = Inr pd' \<and> copy_of uc vt fresh fresh_list pd pd'"
proof -
  obtain d0 where d0: "new_tables (int (ht_size (pi_htEnumerators pd))) (int (ht_size (pi_htEnums pd))) (int (ht_size (pi_htStructs pd)))
       (int (ht_size (pi_htTypedefs pd))) (int (ht_size (pi_htFiles pd))) st = Inr d0"
    "pi_enums d0 = []" "pi_structs d0 = []" "pi_typedef_lists d0 = []"
    "\<forall>t\<in>{pi_htEnums d0, pi_htStructs d0, pi_htTypedefs d0}. table_ok t \<and> table_map t = Map.empty"
    using new_tables_ok [of pd st] ok table_size_ok unfolding parse_data_ok_def by blast
  from clone_parts [OF ok inj d0(2-5)] obtain d1 d2 d3 d4 m where
    "run_fold (clone_enum uc vt fresh pd) (pi_enums pd) (d0, Map.empty) = Inr d1"
    "run_fold (clone_struct uc vt fresh pd) (pi_structs pd) d1 = Inr d2"
    "run_fold (clone_typedef_list uc vt fresh fresh_list pd) (pi_typedef_lists pd) d2 = Inr d3"
    "clone_files fresh pd d3 = Inr (d4, m)" and c: "copied uc vt fresh fresh_list pd d4" "knows fresh (listed pd) m" by blast
  moreover obtain ps where "HT_clone (Some (pi_htPredefined pd)) None 0 = Inr ps"
    using ok by (auto simp: parse_data_ok_def table_ok_def HT_clone_def HT_new_ex_def)
  moreover from clone_renames [OF ok inj c] obtain e1 e2 pd' where
    "run_fold (remap_enum m) (pi_enums d4) (d4\<lparr>pi_htPredefined := the ps\<rparr>) = Inr e1"
    "run_fold (remap_struct m) (pi_structs e1) e1 = Inr e2" "run_fold (remap_typedef_list m) (pi_typedef_lists e2) e2 = Inr pd'"
    "objects_copied uc vt fresh fresh_list pd pd'" by blast
  ultimately have "clone_parse_data uc vt fresh fresh_list st pd = Inr pd'" "objects_copied uc vt fresh fresh_list pd pd'"
    using d0(1) by (simp_all add: clone_parse_data_def)
  with copied_tables [OF ok] show ?thesis unfolding copy_of_def by blast
qed

end
