(* ===== verification/Parse_Props.thy ===== *)
theory Parse_Props
  imports Parse_Clone
begin

text \<open>The property of the copies of the parse information, with an example.\<close>

text \<open>
  C10 Copying the parse information of an object succeeds, and gives the original with the
  pointers renamed: every enum, struct, type name and file is copied, whatever pointed at an
  object points at its copy, and the first object of every name is found under it. The table of
  enumerators has the copied enumerators of all enums, the first one of a name staying; every file
  name leads to the copy of its file, and the same macros are predefined.
\<close>

theorem clone_faithful:
  assumes "parse_data_ok vt pd" and "inj fresh" and "inj fresh_list"
  shows "\<exists>pd'. clone_parse_info uc vt fresh fresh_list st dest \<lparr>cpi_data = Some pd, cpi_ready = r\<rparr>
      = Inr \<lparr>cpi_data = Some pd', cpi_ready = r\<rparr> \<and> copy_of uc vt fresh fresh_list pd pd'"
proof -
  from clone_copies [OF assms, of uc st] obtain pd' where "clone_parse_data uc vt fresh fresh_list st pd = Inr pd'"
    "copy_of uc vt fresh fresh_list pd pd'" by blast
  then show ?thesis by (simp add: clone_parse_info_def)
qed

text \<open>
  \<open>enum color { RED }; typedef struct node { struct node *next; enum color c; } node_t;\<close> in the
  file with number 3.
\<close>

definition small_table :: "(nat \<times> string) list \<Rightarrow> nat HashTable" where
  "small_table xs = fold (\<lambda>(n, s). store_name False s n)
     xs \<lparr>ht_count = 0, ht_size = 1, ht_flags = 0, ht_bmask = 1, ht_root = [[], []]\<rparr>"

definition node_data :: ParseData where
  "node_data = (
     \<lparr>pi_types = \<lparr>structs = [7 \<mapsto> struct_new (Some ''node'') 0 T_STRUCT 0 (Some
          [structdecl_new \<lparr>ts_ptr = Some 7, ts_tflags = T_STRUCT\<rparr> (Some [(decl_new (Some ''next'') 0)\<lparr>pointer_flag := True\<rparr>]),
           structdecl_new \<lparr>ts_ptr = Some 2, ts_tflags = T_ENUM\<rparr> (Some [decl_new (Some ''c'') 0])])],
        enums = [2 \<mapsto> enumspec_new (Some ''color'') 0 (Some [enum_new (Some ''RED'') 0 (Some (value_new 0 0))])],
        typedefs = [5 \<mapsto> typedef_new (Some 1) (Some (decl_new (Some ''node_t'') 0))],
        typedef_lists = [1 \<mapsto> typedef_list_new \<lparr>ts_ptr = Some 7, ts_tflags = T_STRUCT\<rparr> None],
        layouter = Simple zero_simple, native_alignment = 0, native_compound_alignment = 0\<rparr>,
      typedefs_of = (\<lambda>_. [5]), pi_files = [3 \<mapsto> fileinfo_new None (Some ''a.c'') 0],
      enum_context = (\<lambda>_. (Some 3, 1)), struct_context = (\<lambda>_. (Some 3, 2)),
      pi_enums = [2], pi_structs = [7], pi_typedef_lists = [1],
      pi_htEnumerators = \<lparr>ht_count = 0, ht_size = 1, ht_flags = 0, ht_bmask = 1, ht_root = [[], []]\<rparr>,
      pi_htEnums = small_table [(2, ''color'')], pi_htStructs = small_table [(7, ''node'')],
      pi_htTypedefs = small_table [(5, ''node_t'')], pi_htFiles = small_table [(3, ''a.c'')],
      pi_htPredefined = \<lparr>ht_count = 0, ht_size = 1, ht_flags = 0, ht_bmask = 1, ht_root = [[], []]\<rparr>, errorStack = Some []\<rparr>)"

definition spread_addresses :: "Ptr \<Rightarrow> nat" where
  "spread_addresses p = (case p of Enum_ptr n \<Rightarrow> 4 * n | Struct_ptr n \<Rightarrow> 4 * n + 1 | Typedef_ptr n \<Rightarrow> 4 * n + 2 | File_ptr n \<Rightarrow> 4 * n + 3)"

lemma spread_inj: "inj spread_addresses"
proof (rule injI)
  show "p = q" if "spread_addresses p = spread_addresses q" for p q
    using that unfolding spread_addresses_def by (cases p; cases q) (simp_all, presburger+)
qed

lemma node_data_ok: "parse_data_ok (\<lambda>_. \<lparr>vt_init = None, vt_clone = None, vt_free = None\<rparr>) node_data"
  by code_simp

theorem clone_faithful_witness:
  "\<exists>pd'. clone_parse_info False (\<lambda>_. \<lparr>vt_init = None, vt_clone = None, vt_free = None\<rparr>) spread_addresses (\<lambda>l. l)
      (pi_types node_data) init_parse_info \<lparr>cpi_data = Some node_data, cpi_ready = True\<rparr> = Inr \<lparr>cpi_data = Some pd', cpi_ready = True\<rparr>
    \<and> copy_of False (\<lambda>_. \<lparr>vt_init = None, vt_clone = None, vt_free = None\<rparr>) spread_addresses (\<lambda>l. l) node_data pd'"
  by (rule clone_faithful [OF node_data_ok spread_inj]) simp

end
