(* ===== verification/Type_Names.thy ===== *)
theory Type_Names
  imports Parse_Clone Pack
begin

text \<open>
  \<^verbatim>\<open>cbc/basic.c\<close> and \<^verbatim>\<open>cbc/type.c\<close>: from the name of a type, with a member behind it, to the type,
  and back. The words of the basic types come from \<^verbatim>\<open>token/parser.pl\<close>.
\<close>

section \<open>Basic types\<close>

datatype BTName = BT_CHAR | BT_SIGNED_CHAR | BT_UNSIGNED_CHAR | BT_SHORT | BT_SIGNED_SHORT | BT_UNSIGNED_SHORT
  | BT_INT | BT_SIGNED_INT | BT_UNSIGNED_INT | BT_LONG | BT_SIGNED_LONG | BT_UNSIGNED_LONG
  | BT_LONG_LONG | BT_SIGNED_LONG_LONG | BT_UNSIGNED_LONG_LONG | BT_FLOAT | BT_DOUBLE | BT_LONG_DOUBLE

type_synonym BasicTypes = "BTName \<Rightarrow> Declarator"

definition basic_types_new :: BasicTypes where
  "basic_types_new = (\<lambda>_. decl_new (Some []) 0)"

definition basic_types_clone :: "vtables \<Rightarrow> BasicTypes \<Rightarrow> BasicTypes" where
  "basic_types_clone vt src = (\<lambda>i. decl_clone vt (src i))"

definition basic_types_reset :: "BasicTypes \<Rightarrow> BasicTypes" where
  "basic_types_reset bt = (\<lambda>i. (bt i)\<lparr>d_size := -1, d_item_size := -1\<rparr>)"

definition basic_type_table :: "(u_32 list \<times> BTName) list" where
  "basic_type_table =
    [([T_CHAR], BT_CHAR), ([T_CHAR OR T_SIGNED], BT_SIGNED_CHAR), ([T_CHAR OR T_UNSIGNED], BT_UNSIGNED_CHAR),
     ([T_SHORT OR T_INT, T_SHORT], BT_SHORT), ([T_SHORT OR T_SIGNED OR T_INT, T_SHORT OR T_SIGNED], BT_SIGNED_SHORT),
     ([T_SHORT OR T_UNSIGNED OR T_INT, T_SHORT OR T_UNSIGNED], BT_UNSIGNED_SHORT),
     ([T_INT], BT_INT), ([T_SIGNED, T_INT OR T_SIGNED], BT_SIGNED_INT), ([T_UNSIGNED, T_INT OR T_UNSIGNED], BT_UNSIGNED_INT),
     ([T_LONG OR T_INT, T_LONG], BT_LONG), ([T_LONG OR T_SIGNED OR T_INT, T_LONG OR T_SIGNED], BT_SIGNED_LONG),
     ([T_LONG OR T_UNSIGNED OR T_INT, T_LONG OR T_UNSIGNED], BT_UNSIGNED_LONG),
     ([T_LONG OR T_LONGLONG OR T_INT, T_LONG OR T_LONGLONG], BT_LONG_LONG),
     ([T_LONG OR T_LONGLONG OR T_SIGNED OR T_INT, T_LONG OR T_LONGLONG OR T_SIGNED], BT_SIGNED_LONG_LONG),
     ([T_LONG OR T_LONGLONG OR T_UNSIGNED OR T_INT, T_LONG OR T_LONGLONG OR T_UNSIGNED], BT_UNSIGNED_LONG_LONG),
     ([T_FLOAT], BT_FLOAT), ([T_DOUBLE], BT_DOUBLE), ([T_LONG OR T_DOUBLE], BT_LONG_DOUBLE)]"

definition basic_type_name :: "u_32 \<Rightarrow> BTName option" where
  "basic_type_name tflags = map_option snd (find (\<lambda>(fs, i). tflags \<in> set fs) basic_type_table)"

definition basic_types_get_declarator :: "BasicTypes \<Rightarrow> u_32 \<Rightarrow> Declarator option" where
  "basic_types_get_declarator bt tflags = map_option bt (basic_type_name tflags)"

text \<open>A second \<open>long\<close> makes it \<open>long long\<close>.\<close>

definition basic_token :: "string \<Rightarrow> u_32 \<Rightarrow> u_32 option" where
  "basic_token w tflags =
     (if w = ''char'' then Some (tflags OR T_CHAR) else if w = ''double'' then Some (tflags OR T_DOUBLE)
      else if w = ''float'' then Some (tflags OR T_FLOAT) else if w = ''int'' then Some (tflags OR T_INT)
      else if w = ''long'' then Some (tflags OR (if has_flag tflags T_LONG then T_LONGLONG else T_LONG))
      else if w = ''short'' then Some (tflags OR T_SHORT) else if w = ''signed'' then Some (tflags OR T_SIGNED)
      else if w = ''unsigned'' then Some (tflags OR T_UNSIGNED) else None)"

lemma shorter_rest: "dropWhile P name = c # s \<Longrightarrow> length (dropWhile Q s) < length name"
  using length_dropWhile_le [of P name] length_dropWhile_le [of Q s] by simp

function basic_words :: "string \<Rightarrow> u_32 \<Rightarrow> u_32 option" where
  "basic_words name tflags = (case dropWhile isspace name of [] \<Rightarrow> Some tflags
     | c # s \<Rightarrow>
         if \<not> isalpha c then None
         else (let w = c # takeWhile isalpha s; r = dropWhile isalpha s in
           if r \<noteq> [] \<and> \<not> isspace (hd r) then None
           else case basic_token w tflags of None \<Rightarrow> None | Some f \<Rightarrow> basic_words r f))"
  by pat_completeness auto
termination
  by (relation "measure (\<lambda>(name, _). length name)") (auto dest: shorter_rest)

declare basic_words.simps [simp del]

definition get_basic_type_spec :: "string \<Rightarrow> TypeSpec option" where
  "get_basic_type_spec name = (case basic_words name 0 of None \<Rightarrow> None
     | Some f \<Rightarrow> if f = 0 then None else Some \<lparr>ts_ptr = None, ts_tflags = f\<rparr>)"

section \<open>Names of parsed types\<close>

datatype type_kind = S_UNKNOWN | S_STRUCT | S_UNION | S_ENUM

definition keyword_at :: "string \<Rightarrow> string \<Rightarrow> bool" where
  "keyword_at kw c \<longleftrightarrow> take (length kw) c = kw \<and> isspace (peek (drop (length kw) c))"

definition type_keyword :: "string \<Rightarrow> type_kind \<times> string" where
  "type_keyword c =
     (if keyword_at ''struct'' c then (S_STRUCT, drop 6 c) else if keyword_at ''union'' c then (S_UNION, drop 5 c)
      else if keyword_at ''enum'' c then (S_ENUM, drop 4 c) else (S_UNKNOWN, c))"

definition word_char :: "char \<Rightarrow> bool" where
  "word_char c \<longleftrightarrow> c = CHR ''_'' \<or> isalnum c"

text \<open>A compound of the other kind is not found.\<close>

definition struct_of_kind :: "CState \<Rightarrow> u_32 \<Rightarrow> nat option \<Rightarrow> Ptr option" where
  "struct_of_kind st flag p = (case p of None \<Rightarrow> None | Some n \<Rightarrow> (case structs st n of None \<Rightarrow> None
     | Some s \<Rightarrow> if has_flag (s_tflags s) flag then Some (Struct_ptr n) else None))"

definition lookup_type :: "bool \<Rightarrow> ParseData \<Rightarrow> type_kind \<Rightarrow> string \<Rightarrow> nat \<Rightarrow> Ptr option" where
  "lookup_type uc pd kind c len = (case kind of
     S_STRUCT \<Rightarrow> struct_of_kind (pi_types pd) T_STRUCT (HT_get uc (pi_htStructs pd) c len 0)
   | S_UNION \<Rightarrow> struct_of_kind (pi_types pd) T_UNION (HT_get uc (pi_htStructs pd) c len 0)
   | S_ENUM \<Rightarrow> map_option Enum_ptr (HT_get uc (pi_htEnums pd) c len 0)
   | S_UNKNOWN \<Rightarrow> (case HT_get uc (pi_htTypedefs pd) c len 0 of Some t \<Rightarrow> Some (Typedef_ptr t)
       | None \<Rightarrow> (case HT_get uc (pi_htStructs pd) c len 0 of Some n \<Rightarrow> Some (Struct_ptr n)
         | None \<Rightarrow> map_option Enum_ptr (HT_get uc (pi_htEnums pd) c len 0))))"

text \<open>With the pointer comes what follows the name, unless the search ended before there was one.\<close>

definition get_type_pointer :: "bool \<Rightarrow> CParseInfo \<Rightarrow> string \<Rightarrow> Ptr option \<times> string option" where
  "get_type_pointer uc cpi name = (case cpi_data cpi of None \<Rightarrow> (None, None)
     | Some pd \<Rightarrow> (let c = dropWhile isspace name in
         if c = [] then (None, None)
         else (case type_keyword c of (kind, c) \<Rightarrow>
           let c = dropWhile isspace c; len = length (takeWhile word_char c) in
           if len = 0 then (None, None)
           else (lookup_type uc pd kind c len, Some (dropWhile isspace (drop len c))))))"

definition pointer_spec :: "CState \<Rightarrow> Ptr \<Rightarrow> TypeSpec run" where
  "pointer_spec st p = (case p of
     Typedef_ptr t \<Rightarrow> Inr \<lparr>ts_ptr = Some t, ts_tflags = T_TYPE\<rparr>
   | Struct_ptr n \<Rightarrow> and_then (struct_at st (Some n)) (\<lambda>s. Inr \<lparr>ts_ptr = Some n, ts_tflags = s_tflags s\<rparr>)
   | Enum_ptr n \<Rightarrow> Inr \<lparr>ts_ptr = Some n, ts_tflags = T_ENUM\<rparr>
   | File_ptr n \<Rightarrow> Inl Fatal_error)"

definition no_state :: CState where
  "no_state = \<lparr>structs = Map.empty, enums = Map.empty, typedefs = Map.empty, typedef_lists = Map.empty,
     layouter = Simple zero_simple, native_alignment = 0, native_compound_alignment = 0\<rparr>"

definition cpi_types :: "CParseInfo \<Rightarrow> CState" where
  "cpi_types cpi = (case cpi_data cpi of None \<Rightarrow> no_state | Some pd \<Rightarrow> pi_types pd)"

definition get_type_spec :: "bool \<Rightarrow> CParseInfo \<Rightarrow> string \<Rightarrow> (TypeSpec \<times> string option) option run" where
  "get_type_spec uc cpi name = (case get_type_pointer uc cpi name of
     (None, _) \<Rightarrow> Inr (map_option (\<lambda>ts. (ts, None)) (get_basic_type_spec name))
   | (Some p, eos) \<Rightarrow> and_then (pointer_spec (cpi_types cpi) p) (\<lambda>ts. Inr (Some (ts, eos))))"

text \<open>Whether a type name leads to something defined.\<close>

fun is_typedef_defined :: "nat \<Rightarrow> CState \<Rightarrow> nat \<Rightarrow> bool run" where
  "is_typedef_defined 0 st t = Inl Out_of_fuel"
| "is_typedef_defined (Suc fuel) st t = and_then (pTypedef st \<lparr>ts_ptr = Some t, ts_tflags = T_TYPE\<rparr>) (\<lambda>(ts, d).
     if pointer_flag d then Inr True
     else if has_flag (ts_tflags ts) T_TYPE then
       (case ts_ptr ts of None \<Rightarrow> Inl Undefined_behaviour | Some t \<Rightarrow> is_typedef_defined fuel st t)
     else if has_flag (ts_tflags ts) T_COMPOUND then
       and_then (struct_at st (ts_ptr ts)) (\<lambda>s. Inr (s_declarations s \<noteq> None))
     else if has_flag (ts_tflags ts) T_ENUM then and_then (enum_at st (ts_ptr ts)) (\<lambda>e. Inr (es_enumerators e \<noteq> None))
     else Inr True)"


section \<open>The type a name stands for\<close>

definition croak_gti :: "ErrorGTI \<Rightarrow> string option \<Rightarrow> bool \<Rightarrow> unit logged" where
  "croak_gti error name warnOnly = (case error of GTI_NO_ERROR \<Rightarrow> quiet ()
     | GTI_NO_STRUCT_DECL \<Rightarrow>
         (let msg = ''Got no struct declarations'' @ (case name of Some n \<Rightarrow> '' in resolution of '' @ single_quoted n
              | None \<Rightarrow> '' in resolution of typedef'')
          in if warnOnly then warned msg () else Inl (Croaked msg)))"

definition UNDEF_STRUCT :: "Struct \<Rightarrow> string" where
  "UNDEF_STRUCT s = ''Got no definition for '' @ single_quoted ((if has_flag (s_tflags s) T_UNION then ''union '' else ''struct '')
     @ s_identifier s)"

abbreviation CBC_GMI_NO_CALC :: u_32 where "CBC_GMI_NO_CALC \<equiv> 0x00000001"

text \<open>What a lookup may change: sizes found on the way are kept in the types and the basic types.\<close>

record Types =
  ty_cpi :: CParseInfo
  ty_basic :: BasicTypes

definition set_types :: "CState \<Rightarrow> Types \<Rightarrow> Types" where
  "set_types st ty = ty\<lparr>ty_cpi := (ty_cpi ty)\<lparr>cpi_data := map_option (\<lambda>pd. pd\<lparr>pi_types := st\<rparr>) (cpi_data (ty_cpi ty))\<rparr>\<rparr>"

definition whole_type :: "TypeSpec \<Rightarrow> Declarator option \<Rightarrow> u_32 \<Rightarrow> u_32 \<Rightarrow> MemberInfo" where
  "whole_type ts d sz flags = \<lparr>mi_type = ts, mi_parent = None, mi_decl = d, mi_level = 0, mi_offset = 0, mi_size = sz, mi_flags = flags\<rparr>"

definition basic_member_info ::
  "nat \<Rightarrow> Host \<Rightarrow> LayoutParam \<Rightarrow> bool \<Rightarrow> TypeSpec \<Rightarrow> Types \<Rightarrow> (MemberInfo \<times> Types) run" where
  "basic_member_info fuel h lp calc ts ty = (case basic_type_name (ts_tflags ts) of
     None \<Rightarrow> (case get_basic_type_spec_string None (ts_tflags ts) of None \<Rightarrow> Inl Undefined_behaviour
       | Some s \<Rightarrow> Inl (Croaked (''Unsupported basic type '' @ single_quoted s)))
   | Some i \<Rightarrow> (let st = cpi_types (ty_cpi ty); d = ty_basic ty i in
       and_then (if calc \<and> d_size d < 0 then
           and_then (get_type_info_generic fuel h lp st ts None) (\<lambda>(err, info, st).
           (let d = d\<lparr>d_size := sint (word_of_int (ti_size info) :: u_32), d_item_size := sint (word_of_int (ti_item_size info) :: u_32)\<rparr> in
           Inr (d, set_types st ty\<lparr>ty_basic := (ty_basic ty)(i := d)\<rparr>)))
         else Inr (d, ty)) (\<lambda>(d, ty).
       Inr (whole_type ts (Some d) (if calc then word_of_int (d_size d) else 0) 0, ty))))"

definition named_type_size ::
  "nat \<Rightarrow> Host \<Rightarrow> LayoutParam \<Rightarrow> CState \<Rightarrow> string \<Rightarrow> Ptr \<Rightarrow> (int \<times> u_32 \<times> CState) run" where
  "named_type_size fuel h lp st name p = (case p of
     Typedef_ptr t \<Rightarrow> and_then (pTypedef st \<lparr>ts_ptr = Some t, ts_tflags = T_TYPE\<rparr>) (\<lambda>(ts, d).
       and_then (get_type_info_generic fuel h lp st ts (Some d)) (\<lambda>(err, info, st).
       and_then (croak_gti err (Some name) False) (\<lambda>_. Inr (ti_size info, ti_flags info, st))))
   | Struct_ptr n \<Rightarrow> and_then (struct_at st (Some n)) (\<lambda>s.
       if s_declarations s = None then Inl (Croaked (UNDEF_STRUCT s))
       else Inr (s_size s, s_tflags s AND (T_HASBITFIELD OR T_UNSAFE_VAL), st))
   | Enum_ptr n \<Rightarrow> and_then (enum_at st (Some n)) (\<lambda>e. and_then (GET_ENUM_SIZE lp e) (\<lambda>sz. Inr (sz, 0, st)))
   | File_ptr n \<Rightarrow> Inl Fatal_error)"

definition member_info_at ::
  "nat \<Rightarrow> Host \<Rightarrow> LayoutParam \<Rightarrow> bool \<Rightarrow> string \<Rightarrow> Ptr option \<Rightarrow> TypeSpec \<Rightarrow> string option \<Rightarrow> Types \<Rightarrow> (MemberInfo \<times> Types) run" where
  "member_info_at fuel h lp calc name p ts eos ty = (let st = cpi_types (ty_cpi ty) in
     case (eos, p) of
       (Some (c # m), _) \<Rightarrow> and_then (unless_croaked (get_member fuel st (whole_type ts None 0 0) (c # m)
           (if calc then 0 else CBC_GM_NO_OFFSET_SIZE_CALC))) (\<lambda>mi. Inr (mi, ty))
     | (_, None) \<Rightarrow> basic_member_info fuel h lp calc ts ty
     | (_, Some p) \<Rightarrow> and_then (named_type_size fuel h lp st name p) (\<lambda>(sz, flags, st).
         Inr (whole_type ts None (if calc then word_of_int sz else 0) flags, set_types st ty)))"

text \<open>No result is the value zero: there is no such type.\<close>

definition get_member_info ::
  "nat \<Rightarrow> bool \<Rightarrow> Host \<Rightarrow> LayoutParam \<Rightarrow> Types \<Rightarrow> string \<Rightarrow> u_32 \<Rightarrow> (MemberInfo \<times> Types) option run" where
  "get_member_info fuel uc h lp ty name gmi_flags =
     and_then (get_type_spec uc (ty_cpi ty) name) (\<lambda>r. case r of None \<Rightarrow> Inr None
     | Some (ts, eos) \<Rightarrow> and_then (member_info_at fuel h lp (\<not> has_flag gmi_flags CBC_GMI_NO_CALC) name
           (fst (get_type_pointer uc (ty_cpi ty) name)) ts eos ty) (\<lambda>x. Inr (Some x)))"

section \<open>The name of a type\<close>

definition dimension_string :: "Value \<Rightarrow> string" where
  "dimension_string v = (if has_flag (v_flags v) V_IS_UNDEF then ''[]'' else ''['' @ decimal (iv v) @ '']'')"

text \<open>A negative level would count from the last dimension.\<close>

definition declarator_suffix :: "Declarator \<Rightarrow> int \<Rightarrow> string run" where
  "declarator_suffix d level =
     (if bitfield_flag d then Inr ('' :'' @ decimal (bf_bits (ext_bitfield d)))
      else and_then (if \<not> array_flag d \<or> level \<ge> dimension_count d then Inr []
            else and_then (run_map (\<lambda>i. dimension_at d (if i < 0 then i + dimension_count d else i)) [level..dimension_count d - 1])
              (\<lambda>vs. Inr ('' '' @ concat (map dimension_string vs)))) (\<lambda>dims.
          Inr ((if pointer_flag d then '' *'' else []) @ dims)))"

definition keyword_name :: "string \<Rightarrow> string \<Rightarrow> string" where
  "keyword_name kw ident = (if ident = [] then kw else kw @ '' '' @ ident)"

definition pointer_name :: "CState \<Rightarrow> Ptr \<Rightarrow> string run" where
  "pointer_name st p = (case p of
     Typedef_ptr t \<Rightarrow> and_then (pTypedef st \<lparr>ts_ptr = Some t, ts_tflags = T_TYPE\<rparr>) (\<lambda>(ts, d). Inr (d_identifier d))
   | Struct_ptr n \<Rightarrow> and_then (struct_at st (Some n)) (\<lambda>s.
       Inr (keyword_name (if has_flag (s_tflags s) T_STRUCT then ''struct'' else ''union'') (s_identifier s)))
   | Enum_ptr n \<Rightarrow> and_then (enum_at st (Some n)) (\<lambda>e. Inr (keyword_name ''enum'' (es_identifier e)))
   | File_ptr n \<Rightarrow> Inl Fatal_error)"

text \<open>The flags of a basic type without a name end in no string to append to.\<close>

definition get_type_name_string :: "CState \<Rightarrow> MemberInfo \<Rightarrow> string option run" where
  "get_type_name_string st mi =
     and_then (case ts_ptr (mi_type mi) of None \<Rightarrow> Inr (get_basic_type_spec_string None (ts_tflags (mi_type mi)))
       | Some n \<Rightarrow> and_then (pointer_name st (target_kind (ts_tflags (mi_type mi)) n)) (\<lambda>s. Inr (Some s))) (\<lambda>sv.
     case mi_decl mi of None \<Rightarrow> Inr sv
     | Some d \<Rightarrow> and_then (declarator_suffix d (mi_level mi)) (\<lambda>s. case sv of
         Some sv \<Rightarrow> Inr (Some (sv @ s)) | None \<Rightarrow> if s = [] then Inr None else Inl Undefined_behaviour))"

end
