(* ===== verification/Name_Props.thy ===== *)
theory Name_Props
  imports Parse_Props Type_Names
begin

text \<open>From the name of a type to the type and back.\<close>

section \<open>The words of a basic type\<close>

definition present :: "(u_32 \<times> string) list \<Rightarrow> u_32 \<Rightarrow> string list" where
  "present spec flags = map snd (filter (\<lambda>(f, w). has_flag f flags) spec)"

definition blank_words :: "string list \<Rightarrow> string" where
  "blank_words ws = concat (map (\<lambda>w. CHR '' '' # w) ws)"

lemma present_simps [simp]: "present [] flags = []"
  "present ((f, w) # spec) flags = (if has_flag f flags then [w] else []) @ present spec flags"
  by (simp_all add: present_def)

lemma blank_words_simps [simp]: "blank_words [] = []" "blank_words (w # ws) = CHR '' '' # w @ blank_words ws"
  by (simp_all add: blank_words_def)

lemma spec_words_more: "spec_words spec flags False (Some s) = Some (s @ blank_words (present spec flags))"
  by (induction spec arbitrary: s) auto

lemma spec_words_all: "spec_words spec flags True None
  = (case present spec flags of [] \<Rightarrow> None | w # ws \<Rightarrow> Some (w @ blank_words ws))"
  by (induction spec) (auto simp: spec_words_more)

fun basic_tokens :: "string list \<Rightarrow> u_32 \<Rightarrow> u_32 option" where
  "basic_tokens [] f = Some f"
| "basic_tokens (w # ws) f = (case basic_token w f of None \<Rightarrow> None | Some f \<Rightarrow> basic_tokens ws f)"

definition word_string :: "string \<Rightarrow> bool" where
  "word_string w \<longleftrightarrow> w \<noteq> [] \<and> list_all isalpha w"

lemma alpha_not_space: "isalpha c \<Longrightarrow> \<not> isspace c"
  by (auto simp: ctype_defs)

lemma not_alpha_blank: "\<not> isalpha CHR '' ''" "isspace CHR '' ''"
  by (simp_all add: ctype_defs)

lemma basic_words_blank: "basic_words (CHR '' '' # s) f = basic_words s f"
  by (subst (1 2) basic_words.simps) (simp add: not_alpha_blank)

lemma basic_words_word:
  assumes "word_string w" and r: "r = [] \<or> isspace (hd r)"
  shows "basic_words (w @ r) f = (case basic_token w f of None \<Rightarrow> None | Some f \<Rightarrow> basic_words r f)"
proof -
  obtain c s where w: "w = c # s" "isalpha c" "list_all isalpha s" using assms(1) by (cases w) (auto simp: word_string_def)
  have r': "takeWhile isalpha r = []" "dropWhile isalpha r = r" using r alpha_not_space by (cases r; auto)+
  have tails: "takeWhile isalpha (s @ r) = s" "dropWhile isalpha (s @ r) = r"
    using w(3) r' by (simp_all add: takeWhile_append2 dropWhile_append2 list_all_iff)
  have stop: "\<not> (r \<noteq> [] \<and> \<not> isspace (hd r))" using r by blast
  have start: "dropWhile isspace (w @ r) = c # s @ r" using w by (simp add: alpha_not_space)
  show ?thesis unfolding basic_words.simps [of "w @ r"] start list.case Let_def tails by (simp only: w stop if_False simp_thms)
qed

lemma basic_words_blank_words: "list_all word_string ws \<Longrightarrow> basic_words (blank_words ws) f = basic_tokens ws f"
proof (induction ws arbitrary: f)
  case Nil
  show ?case by (simp add: basic_words.simps)
next
  case (Cons w ws)
  have "blank_words ws = [] \<or> isspace (hd (blank_words ws))" by (cases ws) (simp_all add: not_alpha_blank)
  then show ?case using Cons by (simp add: basic_words_blank basic_words_word split: option.splits)
qed

lemma basic_words_present:
  assumes "list_all word_string (present spec flags)" "spec_words spec flags True None = Some s"
  shows "basic_words s f = basic_tokens (present spec flags) f"
  using assms basic_words_blank_words [OF assms(1), of f]
  by (auto simp: spec_words_all basic_words_blank split: list.splits)

section \<open>The flags of a basic type\<close>

definition one_bit :: "u_32 \<Rightarrow> bool" where
  "one_bit b \<longleftrightarrow> (\<exists>k. b = push_bit k 1)"

lemma one_bit_and: assumes "one_bit b" shows "x AND b = 0 \<or> x AND b = b"
proof -
  obtain k where k: "b = push_bit k 1" using assms by (auto simp: one_bit_def)
  have "\<And>n. bit (x AND b) n = (bit x k \<and> bit b n)" by (auto simp: k bit_simps)
  then show ?thesis by (cases "bit x k") (auto intro!: bit_eqI)
qed

lemma gather_bit: "one_bit b \<Longrightarrow> (fl AND m) OR (if has_flag b fl then b else 0) = fl AND (m OR b)"
  using one_bit_and [of b fl] by (auto simp: has_flag_def bit.conj_disj_distrib and.commute)

lemma token_step:
  assumes "one_bit b" "basic_token w (fl AND m) = Some ((fl AND m) OR b)"
  shows "basic_tokens ((if has_flag b fl then [w] else []) @ ws) (fl AND m) = basic_tokens ws (fl AND (m OR b))"
  using assms gather_bit [OF assms(1), of fl m] by (cases "has_flag b fl") simp_all

lemma one_bits [simp]: "one_bit T_CHAR" "one_bit T_SHORT" "one_bit T_INT" "one_bit T_LONG" "one_bit T_FLOAT" "one_bit T_DOUBLE"
  "one_bit T_SIGNED" "one_bit T_UNSIGNED" "one_bit T_LONGLONG"
  unfolding one_bit_def
  by (rule exI [of _ 1], simp, rule exI [of _ 2], simp, rule exI [of _ 3], simp, rule exI [of _ 4], simp, rule exI [of _ 5], simp,
    rule exI [of _ 6], simp, rule exI [of _ 7], simp, rule exI [of _ 8], simp, rule exI [of _ 14], simp)

lemma long_step:
  assumes "has_flag T_LONGLONG fl \<longrightarrow> has_flag T_LONG fl" and m: "m AND T_LONG = 0"
  shows "basic_tokens ((if has_flag T_LONGLONG fl then [''long''] else []) @ (if has_flag T_LONG fl then [''long''] else []) @ ws) (fl AND m)
    = basic_tokens ws (fl AND (m OR T_LONGLONG OR T_LONG))"
proof -
  have none: "\<not> has_flag (fl AND m) T_LONG" using m by (simp add: has_flag_def and.assoc)
  have l: "fl AND (m OR T_LONG) = (fl AND m) OR (if has_flag T_LONG fl then T_LONG else 0)" using gather_bit [of T_LONG fl m] by simp
  have ll: "fl AND (m OR T_LONGLONG OR T_LONG)
      = ((fl AND m) OR (if has_flag T_LONG fl then T_LONG else 0)) OR (if has_flag T_LONGLONG fl then T_LONGLONG else 0)"
    using gather_bit [of T_LONGLONG fl "m OR T_LONG"] l by (simp add: or.assoc or.commute or.left_commute)
  have "has_flag ((fl AND m) OR T_LONG) T_LONG" by (simp add: has_flag_def bit.conj_disj_distrib2)
  then show ?thesis using assms none unfolding ll by (auto simp: basic_token_def has_flag_or)
qed

definition basic_flags :: "u_32 \<Rightarrow> bool" where
  "basic_flags fl \<longleftrightarrow> fl \<noteq> 0
     \<and> fl AND (T_SIGNED OR T_UNSIGNED OR T_SHORT OR T_LONGLONG OR T_LONG OR T_CHAR OR T_INT OR T_FLOAT OR T_DOUBLE) = fl
     \<and> (has_flag T_LONGLONG fl \<longrightarrow> has_flag T_LONG fl)"

lemma basic_tokens_present:
  assumes "basic_flags fl"
  shows "basic_tokens (present basic_type_words fl) 0 = Some fl"
proof -
  have void: "\<not> has_flag T_VOID fl"
  proof
    assume "has_flag T_VOID fl"
    then have "fl AND T_VOID \<noteq> 0" by (simp add: has_flag_def and.commute)
    moreover have "fl AND T_VOID = (fl AND 0x41FE) AND T_VOID" using assms by (simp add: basic_flags_def)
    ultimately show False by (simp add: and.assoc)
  qed
  have *: "basic_tokens (present basic_type_words fl) (fl AND 0) = basic_tokens [] (fl AND 0x41FE)"
    unfolding basic_type_words_def present_simps append.assoc
    apply (subst token_step, simp, simp add: basic_token_def)
    apply (subst token_step, simp, simp add: basic_token_def)
    apply (subst token_step, simp, simp add: basic_token_def)
    apply (subst long_step, use assms in \<open>simp add: basic_flags_def\<close>, simp)
    apply (simp only: void if_False append_Nil)
    apply (subst token_step, simp, simp add: basic_token_def)
    apply (subst token_step, simp, simp add: basic_token_def)
    apply (subst token_step, simp, simp add: basic_token_def)
    apply (subst token_step, simp, simp add: basic_token_def)
    apply simp
    done
  then show ?thesis using assms by (simp add: basic_flags_def)
qed

lemma words_present: "list_all word_string (present basic_type_words fl)"
  by (simp add: basic_type_words_def word_string_def ctype_defs)

lemma spec_of_flags:
  assumes "basic_flags fl"
  shows "\<exists>s. get_basic_type_spec_string None fl = Some s \<and> get_basic_type_spec s = Some \<lparr>ts_ptr = None, ts_tflags = fl\<rparr>"
proof -
  note tokens = basic_tokens_present [OF assms]
  then have "present basic_type_words fl \<noteq> []" using assms by (auto simp: basic_flags_def)
  then obtain s where s: "spec_words basic_type_words fl True None = Some s"
    by (cases "present basic_type_words fl") (auto simp: spec_words_all)
  then have "basic_words s 0 = Some fl" using basic_words_present [OF words_present s] tokens by simp
  then show ?thesis using s assms by (auto simp: get_basic_type_spec_string_def get_basic_type_spec_def basic_flags_def)
qed

text \<open>
  C27 The name given to a basic type is read back as the same type: for any combination of the
  words of the basic types, in which \<open>long long\<close> contains \<open>long\<close>, the words written from the
  flags give the flags again.
\<close>

theorem basic_type_roundtrip:
  assumes "basic_flags fl"
  shows "\<exists>s. get_basic_type_spec_string None fl = Some s \<and> get_basic_type_spec s = Some \<lparr>ts_ptr = None, ts_tflags = fl\<rparr>"
  using assms by (rule spec_of_flags)

theorem basic_type_roundtrip_witness:
  "\<exists>s. get_basic_type_spec_string None (T_UNSIGNED OR T_LONGLONG OR T_LONG OR T_INT) = Some s
     \<and> get_basic_type_spec s = Some \<lparr>ts_ptr = None, ts_tflags = T_UNSIGNED OR T_LONGLONG OR T_LONG OR T_INT\<rparr>"
  by (rule basic_type_roundtrip) (simp add: basic_flags_def has_flag_def)

section \<open>Names of parsed types\<close>

text \<open>The type is found in the table of its kind under its name.\<close>

definition named_type :: "bool \<Rightarrow> ParseData \<Rightarrow> TypeSpec \<Rightarrow> bool" where
  "named_type uc pd ts = (case ts_ptr ts of None \<Rightarrow> False
     | Some n \<Rightarrow> (case target_kind (ts_tflags ts) n of
         Typedef_ptr t \<Rightarrow> ts_tflags ts = T_TYPE \<and> (case pTypedef (pi_types pd) ts of Inl _ \<Rightarrow> False
           | Inr (_, d) \<Rightarrow> list_all word_char (d_identifier d)
               \<and> HT_get uc (pi_htTypedefs pd) (d_identifier d) (length (d_identifier d)) 0 = Some n)
       | Struct_ptr n \<Rightarrow> (case structs (pi_types pd) n of None \<Rightarrow> False
           | Some s \<Rightarrow> ts_tflags ts = s_tflags s \<and> has_flag (s_tflags s) T_COMPOUND \<and> list_all word_char (s_identifier s)
               \<and> HT_get uc (pi_htStructs pd) (s_identifier s) (length (s_identifier s)) 0 = Some n)
       | Enum_ptr n \<Rightarrow> ts_tflags ts = T_ENUM \<and> (case enums (pi_types pd) n of None \<Rightarrow> False
           | Some e \<Rightarrow> list_all word_char (es_identifier e)
               \<and> HT_get uc (pi_htEnums pd) (es_identifier e) (length (es_identifier e)) 0 = Some n)
       | File_ptr _ \<Rightarrow> False))"

lemma word_char_not_space: "word_char c \<Longrightarrow> \<not> isspace c"
  by (auto simp: word_char_def ctype_defs)

lemma not_word_char: "\<not> word_char CHR '' ''"
  by (simp add: word_char_def ctype_defs)

lemma identifier_alone:
  assumes "list_all word_char ident"
  shows "dropWhile isspace ident = ident" "takeWhile word_char ident = ident" "\<not> keyword_at kw ident"
proof -
  show "dropWhile isspace ident = ident" using assms word_char_not_space by (cases ident) auto
  show "takeWhile word_char ident = ident" using assms by (simp add: list_all_iff takeWhile_eq_all_conv)
  have "list_all word_char (drop (length kw) ident)" using assms by (simp add: list_all_iff) (meson in_set_dropD)
  then have "\<not> isspace (peek (drop (length kw) ident))" using word_char_not_space by (cases "drop (length kw) ident") auto
  then show "\<not> keyword_at kw ident" by (simp add: keyword_at_def)
qed

lemma type_keyword_alone: "list_all word_char ident \<Longrightarrow> type_keyword ident = (S_UNKNOWN, ident)"
  by (simp add: type_keyword_def identifier_alone)

lemma type_keyword_kind:
  "type_keyword (''struct '' @ ident) = (S_STRUCT, CHR '' '' # ident)"
  "type_keyword (''union '' @ ident) = (S_UNION, CHR '' '' # ident)"
  "type_keyword (''enum '' @ ident) = (S_ENUM, CHR '' '' # ident)"
  by (simp_all add: type_keyword_def keyword_at_def not_alpha_blank)

lemma get_type_pointer_alone:
  assumes "list_all word_char ident" "ident \<noteq> []"
  shows "get_type_pointer uc \<lparr>cpi_data = Some pd, cpi_ready = r\<rparr> ident
    = (lookup_type uc pd S_UNKNOWN ident (length ident), Some [])"
  using assms by (simp add: get_type_pointer_def type_keyword_alone identifier_alone Let_def)

lemma get_type_pointer_kind:
  assumes "list_all word_char ident" "ident \<noteq> []" "dropWhile isspace (kw @ ident) = kw @ ident" "kw \<noteq> []"
    "type_keyword (kw @ ident) = (kind, CHR '' '' # ident)"
  shows "get_type_pointer uc \<lparr>cpi_data = Some pd, cpi_ready = r\<rparr> (kw @ ident) = (lookup_type uc pd kind ident (length ident), Some [])"
  using assms by (simp add: get_type_pointer_def identifier_alone Let_def not_alpha_blank)

lemma not_space_keyword: "\<not> isspace CHR ''s''" "\<not> isspace CHR ''u''" "\<not> isspace CHR ''e''"
  by (simp_all add: ctype_defs)

lemmas named_pointer = get_type_pointer_kind [of _ "''struct ''", OF _ _ _ _ type_keyword_kind(1)]
  get_type_pointer_kind [of _ "''union ''", OF _ _ _ _ type_keyword_kind(2)]
  get_type_pointer_kind [of _ "''enum ''", OF _ _ _ _ type_keyword_kind(3)]

lemma keyword_name_ident: "ident \<noteq> [] \<Longrightarrow> keyword_name kw ident = (kw @ '' '') @ ident"
  by (simp add: keyword_name_def)

lemma name_of_type:
  assumes ok: "named_type uc pd ts" and nm: "pointer_name (pi_types pd) (target_kind (ts_tflags ts) (the (ts_ptr ts))) = Inr name"
    and ident: "name \<notin> {[], ''struct'', ''union'', ''enum''}"
  shows "get_type_spec uc \<lparr>cpi_data = Some pd, cpi_ready = r\<rparr> name = Inr (Some (ts, Some []))"
proof -
  obtain n where n: "ts_ptr ts = Some n" using ok by (auto simp: named_type_def split: option.splits)
  then have ts: "ts = \<lparr>ts_ptr = Some n, ts_tflags = ts_tflags ts\<rparr>" by simp
  show ?thesis
  proof (cases "target_kind (ts_tflags ts) n")
    case (Typedef_ptr t)
    then have t: "t = n" by (auto simp: target_kind_def split: if_splits)
    obtain ts' d where d: "pTypedef (pi_types pd) ts = Inr (ts', d)" and f: "ts_tflags ts = T_TYPE" "list_all word_char (d_identifier d)"
      "HT_get uc (pi_htTypedefs pd) (d_identifier d) (length (d_identifier d)) 0 = Some n"
      using ok n Typedef_ptr by (auto simp: named_type_def split: sum.splits)
    have self: "\<lparr>ts_ptr = Some n, ts_tflags = T_TYPE\<rparr> = ts" using ts f(1) by simp
    have name: "name = d_identifier d" using nm d n f Typedef_ptr t by (simp add: pointer_name_def self)
    show ?thesis using f name ident ts
      by (simp add: get_type_spec_def get_type_pointer_alone lookup_type_def pointer_spec_def self)
  next
    case (Struct_ptr m)
    then have t: "m = n" by (auto simp: target_kind_def split: if_splits)
    obtain s where s: "structs (pi_types pd) n = Some s" and f: "ts_tflags ts = s_tflags s" "has_flag (s_tflags s) T_COMPOUND"
      "list_all word_char (s_identifier s)" "HT_get uc (pi_htStructs pd) (s_identifier s) (length (s_identifier s)) 0 = Some n"
      using ok n Struct_ptr t by (auto simp: named_type_def split: option.splits)
    have name: "name = keyword_name (if has_flag (s_tflags s) T_STRUCT then ''struct'' else ''union'') (s_identifier s)"
      using nm n s Struct_ptr t by (simp add: pointer_name_def struct_at_def)
    have ne: "s_identifier s \<noteq> []" using ident name by (auto simp: keyword_name_def split: if_splits)
    have un: "has_flag (s_tflags s) T_UNION" if "\<not> has_flag (s_tflags s) T_STRUCT"
      using f(2) that bit.conj_disj_distrib [of "s_tflags s" T_STRUCT T_UNION] by (simp add: has_flag_def)
    show ?thesis
      using f s name ne un ts
      by (cases "has_flag (s_tflags s) T_STRUCT")
        (simp_all add: keyword_name_ident get_type_spec_def named_pointer [simplified] not_space_keyword lookup_type_def
          struct_of_kind_def pointer_spec_def struct_at_def cpi_types_def)
  next
    case (Enum_ptr m)
    then have t: "m = n" by (auto simp: target_kind_def split: if_splits)
    obtain e where e: "enums (pi_types pd) n = Some e" and f: "ts_tflags ts = T_ENUM"
      "list_all word_char (es_identifier e)" "HT_get uc (pi_htEnums pd) (es_identifier e) (length (es_identifier e)) 0 = Some n"
      using ok n Enum_ptr t by (auto simp: named_type_def split: option.splits)
    have name: "name = keyword_name ''enum'' (es_identifier e)"
      using nm n e Enum_ptr t by (simp add: pointer_name_def enum_at_def)
    have ne: "es_identifier e \<noteq> []" using ident name by (auto simp: keyword_name_def split: if_splits)
    show ?thesis
      using f e name ne ts
      by (simp add: keyword_name_ident get_type_spec_def named_pointer [simplified] not_space_keyword lookup_type_def pointer_spec_def)
  next
    case (File_ptr m)
    then show ?thesis by (simp add: target_kind_def split: if_splits)
  qed
qed

lemma type_name_string:
  "named_type uc pd ts \<Longrightarrow> get_type_name_string st (whole_type ts None sz fl)
     = and_then (pointer_name st (target_kind (ts_tflags ts) (the (ts_ptr ts)))) (\<lambda>s. Inr (Some s))"
  by (cases "ts_ptr ts"; cases "pointer_name st (target_kind (ts_tflags ts) (the (ts_ptr ts)))")
    (simp_all add: get_type_name_string_def whole_type_def named_type_def)

text \<open>
  C18 The name the object gives to a parsed type leads back to the type: for a type name, a
  struct, a union or an enum that is in the table of its kind under its name, the string made by
  \<open>get_type_name_string\<close> is resolved by \<open>get_type_spec\<close> to the same object with the same flags, and
  nothing is left of the string.
\<close>

theorem type_name_roundtrip:
  assumes "named_type uc pd ts" and "get_type_name_string (pi_types pd) (whole_type ts None sz fl) = Inr (Some name)"
    and "name \<notin> {[], ''struct'', ''union'', ''enum''}"
  shows "get_type_spec uc \<lparr>cpi_data = Some pd, cpi_ready = r\<rparr> name = Inr (Some (ts, Some []))"
  using name_of_type [OF assms(1) _ assms(3)] assms(2) type_name_string [OF assms(1)] by (auto simp: and_then_Inr)

theorem type_name_roundtrip_witness:
  "get_type_spec False \<lparr>cpi_data = Some node_data, cpi_ready = True\<rparr> ''struct node''
     = Inr (Some (\<lparr>ts_ptr = Some 7, ts_tflags = T_STRUCT\<rparr>, Some []))
   \<and> get_type_spec False \<lparr>cpi_data = Some node_data, cpi_ready = True\<rparr> ''node_t''
     = Inr (Some (\<lparr>ts_ptr = Some 5, ts_tflags = T_TYPE\<rparr>, Some []))"
proof (intro conjI type_name_roundtrip)
  show "named_type False node_data \<lparr>ts_ptr = Some 7, ts_tflags = T_STRUCT\<rparr>" by code_simp
  show "named_type False node_data \<lparr>ts_ptr = Some 5, ts_tflags = T_TYPE\<rparr>" by code_simp
  show "get_type_name_string (pi_types node_data) (whole_type \<lparr>ts_ptr = Some 7, ts_tflags = T_STRUCT\<rparr> None 0 0) = Inr (Some ''struct node'')"
    by code_simp
  show "get_type_name_string (pi_types node_data) (whole_type \<lparr>ts_ptr = Some 5, ts_tflags = T_TYPE\<rparr> None 0 0) = Inr (Some ''node_t'')"
    by code_simp
qed simp_all

end
