(* ===== verification/Tag_Values.thy ===== *)
theory Tag_Values
  imports Type_Names
begin

text \<open>
  \<^verbatim>\<open>cbc/tag.c\<close> with the tables and methods \<^verbatim>\<open>token/tag.pl\<close> generates: reading, setting and removing
  the tags of a type from Perl. The objects behind \<open>any\<close> are kept in a store.
\<close>

section \<open>Tables\<close>

datatype CbcTagId = TAG_BYTE_ORDER | TAG_DIMENSION | TAG_FORMAT | TAG_HOOKS

definition gs_TagIdStr :: "(CbcTagId \<times> string) list" where
  "gs_TagIdStr = [(TAG_BYTE_ORDER, ''ByteOrder''), (TAG_DIMENSION, ''Dimension''), (TAG_FORMAT, ''Format''), (TAG_HOOKS, ''Hooks'')]"

definition tag_number :: "CbcTagId \<Rightarrow> u_16" where
  "tag_number i = (case i of TAG_BYTE_ORDER \<Rightarrow> CBC_TAG_BYTE_ORDER | TAG_DIMENSION \<Rightarrow> CBC_TAG_DIMENSION
     | TAG_FORMAT \<Rightarrow> CBC_TAG_FORMAT | TAG_HOOKS \<Rightarrow> CBC_TAG_HOOKS)"

definition tag_id_of :: "u_16 \<Rightarrow> CbcTagId option" where
  "tag_id_of n = map_option fst (find (\<lambda>(i, s). tag_number i = n) gs_TagIdStr)"

definition tag_id_str :: "CbcTagId \<Rightarrow> string" where
  "tag_id_str i = (case i of TAG_BYTE_ORDER \<Rightarrow> ''ByteOrder'' | TAG_DIMENSION \<Rightarrow> ''Dimension''
     | TAG_FORMAT \<Rightarrow> ''Format'' | TAG_HOOKS \<Rightarrow> ''Hooks'')"

definition get_tag_id :: "string \<Rightarrow> CbcTagId option" where
  "get_tag_id tag = map_option fst (find (\<lambda>(i, s). s = tag) gs_TagIdStr)"

definition tag_strings :: "CbcTagId \<Rightarrow> string list" where
  "tag_strings i = (case i of TAG_BYTE_ORDER \<Rightarrow> [''BigEndian'', ''LittleEndian''] | TAG_FORMAT \<Rightarrow> [''String'', ''Binary''] | _ \<Rightarrow> [])"

definition tag_vtable_of :: "CbcTagId \<Rightarrow> bool" where
  "tag_vtable_of i \<longleftrightarrow> i = TAG_HOOKS \<or> i = TAG_DIMENSION"

datatype TagSetRV = TSRV_UPDATE | TSRV_DELETE

record TagTypeInfo =
  tti_type :: string
  tti_mi :: MemberInfo

record TagStore =
  at_hooks :: "nat \<Rightarrow> TypeHooks"
  at_dimension :: "nat \<Rightarrow> DimensionTag"

type_synonym tags = "TagStore \<times> CtTagList"

section \<open>Methods\<close>

text \<open>\<open>fresh\<close> is the address of the object a new tag gets.\<close>

definition new_tag :: "nat \<Rightarrow> CbcTagId \<Rightarrow> TagStore \<Rightarrow> CtTag \<times> TagStore" where
  "new_tag fresh i store =
     (\<lparr>tag_type = tag_number i, tag_flags = 0, tag_any = (if tag_vtable_of i then fresh else 0),
       tag_vtable = (if tag_vtable_of i then Some (unat (tag_number i)) else None)\<rparr>,
      case i of TAG_HOOKS \<Rightarrow> store\<lparr>at_hooks := (at_hooks store)(fresh := hook_new None)\<rparr>
      | TAG_DIMENSION \<Rightarrow> store\<lparr>at_dimension := (at_dimension store)(fresh := dimtag_new None)\<rparr> | _ \<Rightarrow> store)"

definition croak_on_bitfield :: "TagTypeInfo \<Rightarrow> string \<Rightarrow> unit run" where
  "croak_on_bitfield tti tagname = (case mi_decl (tti_mi tti) of None \<Rightarrow> Inr ()
     | Some d \<Rightarrow> if bitfield_flag d then Inl (Croaked (''Cannot use '' @ single_quoted tagname @ '' tag on bitfields'')) else Inr ())"

definition tag_verify :: "nat \<Rightarrow> CState \<Rightarrow> TagTypeInfo \<Rightarrow> CbcTagId \<Rightarrow> unit run" where
  "tag_verify fuel st tti i = (case i of TAG_BYTE_ORDER \<Rightarrow> croak_on_bitfield tti ''ByteOrder''
     | TAG_DIMENSION \<Rightarrow> dimtag_verify fuel st (tti_mi tti) (tti_type tti)
     | TAG_FORMAT \<Rightarrow> croak_on_bitfield tti ''Format'' | TAG_HOOKS \<Rightarrow> Inr ())"

fun find_index :: "string \<Rightarrow> string list \<Rightarrow> nat option" where
  "find_index s [] = None"
| "find_index s (t # ts) = (if s = t then Some 0 else map_option Suc (find_index s ts))"

definition strval_set :: "perl \<Rightarrow> CbcTagId \<Rightarrow> CtTag \<Rightarrow> SV \<Rightarrow> (TagSetRV \<times> CtTag) run" where
  "strval_set pl i tag val =
     (if \<not> SvOK val then Inr (TSRV_DELETE, tag)
      else if SvROK val then Inl (Croaked (''Value for '' @ tag_id_str i @ '' tag must not be a reference''))
      else case find_index (SvPV pl val) (tag_strings i) of
        None \<Rightarrow> Inl (Croaked (''Invalid value '' @ single_quoted (SvPV pl val) @ '' for '' @ tag_id_str i @ '' tag''))
      | Some n \<Rightarrow> Inr (TSRV_UPDATE, tag\<lparr>tag_flags := of_nat n\<rparr>))"

definition hooks_set :: "TagTypeInfo \<Rightarrow> CtTag \<Rightarrow> SV \<Rightarrow> TagStore \<Rightarrow> (TagSetRV \<times> TagStore) run" where
  "hooks_set tti tag val store =
     (if \<not> SvOK val then Inr (TSRV_DELETE, store)
      else case val of
        HVref hooks \<Rightarrow> and_then (find_hooks (tti_type tti) hooks (at_hooks store (tag_any tag))) (\<lambda>(n, th).
          Inr (if n > 0 then (TSRV_UPDATE,
                 store\<lparr>at_hooks := (at_hooks store)(tag_any tag := hook_update (at_hooks store (tag_any tag)) th)\<rparr>)
               else (TSRV_DELETE, store)))
      | _ \<Rightarrow> Inl (Croaked (''Need a hash reference to define hooks for '' @ single_quoted (tti_type tti))))"

definition dimension_set :: "perl \<Rightarrow> nat \<Rightarrow> CState \<Rightarrow> TagTypeInfo \<Rightarrow> CtTag \<Rightarrow> SV \<Rightarrow> TagStore \<Rightarrow> (TagSetRV \<times> TagStore) run" where
  "dimension_set pl fuel st tti tag val store =
     (if \<not> SvOK val then Inr (TSRV_DELETE, store)
      else and_then (dimtag_parse pl fuel st (tti_mi tti) (tti_type tti) val) (\<lambda>dim.
        Inr (TSRV_UPDATE, store\<lparr>at_dimension := (at_dimension store)(tag_any tag := dimtag_update (at_dimension store (tag_any tag)) dim)\<rparr>)))"

definition tag_set :: "perl \<Rightarrow> nat \<Rightarrow> CState \<Rightarrow> TagTypeInfo \<Rightarrow> CbcTagId \<Rightarrow> CtTag \<Rightarrow> SV \<Rightarrow> TagStore \<Rightarrow> (TagSetRV \<times> CtTag \<times> TagStore) run" where
  "tag_set pl fuel st tti i tag val store = (case i of
     TAG_HOOKS \<Rightarrow> and_then (hooks_set tti tag val store) (\<lambda>(rv, store). Inr (rv, tag, store))
   | TAG_DIMENSION \<Rightarrow> and_then (dimension_set pl fuel st tti tag val store) (\<lambda>(rv, store). Inr (rv, tag, store))
   | _ \<Rightarrow> and_then (strval_set pl i tag val) (\<lambda>(rv, tag). Inr (rv, tag, store)))"

definition tag_get :: "CbcTagId \<Rightarrow> CtTag \<Rightarrow> TagStore \<Rightarrow> SV option run" where
  "tag_get i tag store = (case i of
     TAG_HOOKS \<Rightarrow> Inr (Some (HVref (get_hooks (at_hooks store (tag_any tag)))))
   | TAG_DIMENSION \<Rightarrow> dimtag_get (at_dimension store (tag_any tag))
   | _ \<Rightarrow> if unat (tag_flags tag) \<ge> length (tag_strings i) then Inl Fatal_error
       else Inr (Some (newSVpv (tag_strings i ! unat (tag_flags tag)))))"

section \<open>Tags of a type\<close>

text \<open>A tag that is already in the list is changed in place.\<close>

fun write_tag :: "CtTagList \<Rightarrow> u_16 \<Rightarrow> CtTag \<Rightarrow> CtTagList" where
  "write_tag [] n tag = []"
| "write_tag (t # tags) n tag = (if tag_type t = n then tag # tags else t # write_tag tags n tag)"

fun get_tags :: "CtTagList \<Rightarrow> TagStore \<Rightarrow> HV \<Rightarrow> HV run" where
  "get_tags [] store hv = Inr hv"
| "get_tags (tag # tags) store hv = (case tag_id_of (tag_type tag) of None \<Rightarrow> Inl Fatal_error
     | Some i \<Rightarrow> and_then (tag_get i tag store) (\<lambda>sv. case sv of None \<Rightarrow> Inl Undefined_behaviour
         | Some sv \<Rightarrow> get_tags tags store (hv_store hv (tag_id_str i) sv)))"

definition apply_tag :: "perl \<Rightarrow> nat \<Rightarrow> CState \<Rightarrow> TagTypeInfo \<Rightarrow> nat \<Rightarrow> CbcTagId \<Rightarrow> SV \<Rightarrow> tags \<Rightarrow> tags run" where
  "apply_tag pl fuel st tti fresh i val = (\<lambda>(store, tags).
     and_then (case find_tag tags (tag_number i) of
         None \<Rightarrow> (case new_tag fresh i store of (tag, store) \<Rightarrow>
           and_then (tag_set pl fuel st tti i tag val store) (\<lambda>(rv, tag, store). Inr (rv, store, insert_tag tags tag)))
       | Some tag \<Rightarrow> and_then (tag_set pl fuel st tti i tag val store) (\<lambda>(rv, tag, store).
           Inr (rv, store, write_tag tags (tag_number i) tag))) (\<lambda>(rv, store, tags).
     Inr (store, case rv of TSRV_UPDATE \<Rightarrow> tags | TSRV_DELETE \<Rightarrow> snd (remove_tag tags (tag_number i)))))"

text \<open>Without a value the tag is only read; the result is wanted or not.\<close>

definition handle_tag ::
  "perl \<Rightarrow> nat \<Rightarrow> CState \<Rightarrow> TagTypeInfo \<Rightarrow> nat \<Rightarrow> SV \<Rightarrow> SV option \<Rightarrow> bool \<Rightarrow> tags \<Rightarrow> (SV option \<times> tags) run" where
  "handle_tag pl fuel st tti fresh name val want state =
     (if SvROK name then Inl (Croaked ''Tag name must be a string, not a reference'')
      else case get_tag_id (SvPV pl name) of
        None \<Rightarrow> Inl (Croaked (''Invalid tag name '' @ single_quoted (SvPV pl name)))
      | Some i \<Rightarrow>
          and_then (tag_verify fuel st tti i) (\<lambda>_.
          and_then (case val of None \<Rightarrow> Inr state | Some v \<Rightarrow> apply_tag pl fuel st tti fresh i v state) (\<lambda>(store, tags).
          and_then (if \<not> want then Inr None else case find_tag tags (tag_number i) of None \<Rightarrow> Inr (Some Undef)
              | Some tag \<Rightarrow> tag_get i tag store) (\<lambda>rv.
          Inr (rv, store, tags)))))"

definition find_taglist_ptr :: "CState \<Rightarrow> Ptr option \<Rightarrow> CtTagList option run" where
  "find_taglist_ptr st p = (case p of None \<Rightarrow> Inr None
     | Some (Struct_ptr n) \<Rightarrow> and_then (struct_at st (Some n)) (\<lambda>s. Inr (Some (s_tags s)))
     | Some (Enum_ptr n) \<Rightarrow> and_then (enum_at st (Some n)) (\<lambda>e. Inr (Some (es_tags e)))
     | Some (Typedef_ptr t) \<Rightarrow> and_then (pTypedef st \<lparr>ts_ptr = Some t, ts_tflags = T_TYPE\<rparr>) (\<lambda>(ts, d). Inr (Some (d_tags d)))
     | Some (File_ptr n) \<Rightarrow> Inl Fatal_error)"

definition delete_all_tags :: "vtables \<Rightarrow> CtTagList \<Rightarrow> CtTagList" where
  "delete_all_tags vt tags = fst (delete_taglist vt tags)"

section \<open>The list as a map\<close>

datatype TagValue = Flag_tag nat | Hooks_tag TypeHooks | Dimension_tag DimensionTag

definition tag_value :: "TagStore \<Rightarrow> CbcTagId \<Rightarrow> CtTag \<Rightarrow> TagValue" where
  "tag_value store i tag = (case i of TAG_HOOKS \<Rightarrow> Hooks_tag (at_hooks store (tag_any tag))
     | TAG_DIMENSION \<Rightarrow> Dimension_tag (at_dimension store (tag_any tag)) | _ \<Rightarrow> Flag_tag (unat (tag_flags tag)))"

definition tag_view :: "tags \<Rightarrow> CbcTagId \<Rightarrow> TagValue option" where
  "tag_view = (\<lambda>(store, tags) i. map_option (tag_value store i) (find_tag tags (tag_number i)))"

text \<open>What a value means for a tag with an old value; no new value removes the tag.\<close>

definition parse_tag :: "perl \<Rightarrow> nat \<Rightarrow> CState \<Rightarrow> TagTypeInfo \<Rightarrow> CbcTagId \<Rightarrow> TagValue option \<Rightarrow> SV \<Rightarrow> TagValue option run" where
  "parse_tag pl fuel st tti i old val =
     (if \<not> SvOK val then Inr None
      else case i of
        TAG_HOOKS \<Rightarrow> (case val of
            HVref hooks \<Rightarrow> and_then (find_hooks (tti_type tti) hooks (case old of Some (Hooks_tag th) \<Rightarrow> th | _ \<Rightarrow> hook_new None))
              (\<lambda>(n, th). Inr (if n > 0 then Some (Hooks_tag th) else None))
          | _ \<Rightarrow> Inl (Croaked (''Need a hash reference to define hooks for '' @ single_quoted (tti_type tti))))
      | TAG_DIMENSION \<Rightarrow> and_then (dimtag_parse pl fuel st (tti_mi tti) (tti_type tti) val) (\<lambda>d. Inr (Some (Dimension_tag d)))
      | _ \<Rightarrow> if SvROK val then Inl (Croaked (''Value for '' @ tag_id_str i @ '' tag must not be a reference''))
          else case find_index (SvPV pl val) (tag_strings i) of
            None \<Rightarrow> Inl (Croaked (''Invalid value '' @ single_quoted (SvPV pl val) @ '' for '' @ tag_id_str i @ '' tag''))
          | Some n \<Rightarrow> Inr (Some (Flag_tag n)))"

definition show_tag :: "CbcTagId \<Rightarrow> TagValue option \<Rightarrow> SV option run" where
  "show_tag i v = (case v of None \<Rightarrow> Inr (Some Undef)
     | Some (Hooks_tag th) \<Rightarrow> Inr (Some (HVref (get_hooks th)))
     | Some (Dimension_tag d) \<Rightarrow> dimtag_get d
     | Some (Flag_tag n) \<Rightarrow> if n \<ge> length (tag_strings i) then Inl Fatal_error else Inr (Some (newSVpv (tag_strings i ! n))))"

definition map_tag ::
  "perl \<Rightarrow> nat \<Rightarrow> CState \<Rightarrow> TagTypeInfo \<Rightarrow> SV \<Rightarrow> SV option \<Rightarrow> bool \<Rightarrow> (CbcTagId \<Rightarrow> TagValue option) \<Rightarrow>
    (SV option \<times> (CbcTagId \<Rightarrow> TagValue option)) run" where
  "map_tag pl fuel st tti name val want m =
     (if SvROK name then Inl (Croaked ''Tag name must be a string, not a reference'')
      else case get_tag_id (SvPV pl name) of
        None \<Rightarrow> Inl (Croaked (''Invalid tag name '' @ single_quoted (SvPV pl name)))
      | Some i \<Rightarrow>
          and_then (tag_verify fuel st tti i) (\<lambda>_.
          and_then (case val of None \<Rightarrow> Inr m | Some v \<Rightarrow> and_then (parse_tag pl fuel st tti i (m i) v) (\<lambda>v. Inr (m(i := v)))) (\<lambda>m.
          and_then (if want then show_tag i (m i) else Inr None) (\<lambda>rv. Inr (rv, m)))))"

definition value_ok :: "CbcTagId \<Rightarrow> TagValue \<Rightarrow> bool" where
  "value_ok i v = (case v of Flag_tag n \<Rightarrow> n < length (tag_strings i)
     | Hooks_tag th \<Rightarrow> i = TAG_HOOKS \<and> (\<exists>h\<in>set (all_hooks th). hk_sub h \<noteq> None)
     | Dimension_tag d \<Rightarrow> i = TAG_DIMENSION \<and> (\<exists>sv. dimtag_get d = Inr (Some sv)))"

definition tags_ok :: "tags \<Rightarrow> bool" where
  "tags_ok = (\<lambda>(store, tags). unique_tags tags \<and> (\<forall>t\<in>set tags. \<exists>i. tag_type t = tag_number i \<and> value_ok i (tag_value store i t)))"

lemma tag_number_inj [simp]: "tag_number i = tag_number j \<longleftrightarrow> i = j"
  by (cases i; cases j) (simp_all add: tag_number_def)

lemma tag_id_of_number [simp]: "tag_id_of (tag_number i) = Some i"
  by (cases i) (simp_all add: tag_id_of_def gs_TagIdStr_def tag_number_def)

lemma tag_get_view: "tag_get i tag store = show_tag i (Some (tag_value store i tag))"
  by (cases i) (simp_all add: tag_get_def show_tag_def tag_value_def)

lemma find_index_less: "find_index s ts = Some n \<Longrightarrow> n < length ts"
  by (induction ts arbitrary: n) (auto split: if_splits)

lemma find_write_tag: "tag_type tag = n \<Longrightarrow> find_tag tags n = Some t \<Longrightarrow>
   find_tag (write_tag tags n tag) k = (if k = n then Some tag else find_tag tags k)"
  by (induction tags) (auto split: if_splits)

lemma write_tag_types: "tag_type tag = n \<Longrightarrow> map tag_type (write_tag tags n tag) = map tag_type tags"
  by (induction tags) auto

lemma write_tag_set: "x \<in> set (write_tag tags n tag) \<Longrightarrow> x = tag \<or> x \<in> set tags"
  by (induction tags) (auto split: if_splits)

end
