(* ===== verification/Tag_Props.thy ===== *)
theory Tag_Props
  imports Tag_Values
begin

text \<open>Setting, reading and removing tags is reading and updating a map.\<close>

lemma tag_set_view:
  assumes "case old of None \<Rightarrow> i = TAG_HOOKS \<longrightarrow> at_hooks store (tag_any tag) = hook_new None
     | Some v \<Rightarrow> v = tag_value store i tag"
  shows "and_then (tag_set pl fuel st tti i tag val store)
     (\<lambda>(rv, tag, store). Inr (case rv of TSRV_UPDATE \<Rightarrow> Some (tag_value store i tag) | TSRV_DELETE \<Rightarrow> None))
   = parse_tag pl fuel st tti i old val"
proof (cases i)
  case TAG_HOOKS
  then have "(case old of Some (Hooks_tag th) \<Rightarrow> th | _ \<Rightarrow> hook_new None) = at_hooks store (tag_any tag)"
    using assms by (cases old) (auto simp: tag_value_def)
  then show ?thesis using TAG_HOOKS
    by (cases val; cases "find_hooks (tti_type tti) (case val of HVref h \<Rightarrow> h | _ \<Rightarrow> []) (at_hooks store (tag_any tag))")
      (auto simp: tag_set_def hooks_set_def parse_tag_def tag_value_def hook_update_def SvOK_def)
next
  case TAG_DIMENSION
  then show ?thesis
    by (cases "dimtag_parse pl fuel st (tti_mi tti) (tti_type tti) val")
      (simp_all add: tag_set_def dimension_set_def parse_tag_def tag_value_def dimtag_update_def)
qed (auto simp: tag_set_def strval_set_def parse_tag_def tag_value_def tag_strings_def split: option.splits if_splits)

lemma fill_hook_sub: "single_hook_fill key type sub allowed = Inr h \<Longrightarrow> SvOK sub \<Longrightarrow> hk_sub h \<noteq> None"
  by (auto simp: single_hook_fill_def not_code_or_array_ref_def and_then_Inr split: if_splits SV.splits option.splits)

lemma parsed_dimension: "dimtag_parse pl fuel st mi type val = Inr d \<Longrightarrow> \<exists>sv. dimtag_get d = Inr (Some sv)"
proof -
  assume "dimtag_parse pl fuel st mi type val = Inr d"
  then have "SvOK val" and "d = DTT_FLEXIBLE \<or> (\<exists>n. d = DTT_FIXED n) \<or> (\<exists>s. d = DTT_MEMBER s)
      \<or> (\<exists>h allowed. single_hook_fill ''Dimension'' type val allowed = Inr h \<and> d = DTT_HOOK h)"
    by (auto simp: dimtag_parse_def and_then_Inr Let_def single_hook_new_def split: dimension_tag_type.splits if_splits)
  then show ?thesis by (auto simp: dimtag_get_def get_single_hook_def dest: fill_hook_sub split: option.splits)
qed

lemma find_hooks_some: "find_hooks type hv th = Inr (n, th') \<Longrightarrow> n > 0 \<Longrightarrow> \<exists>h\<in>set (all_hooks th'). hk_sub h \<noteq> None"
  by (auto simp: find_hooks_def and_then_Inr filter_empty_conv)

lemma parse_tag_ok: "parse_tag pl fuel st tti i old val = Inr (Some v) \<Longrightarrow> value_ok i v"
proof (cases i)
  case TAG_HOOKS
  assume "parse_tag pl fuel st tti i old val = Inr (Some v)"
  then obtain hv th n th' where "find_hooks (tti_type tti) hv th = Inr (n, th')" "n > 0" "v = Hooks_tag th'"
    using TAG_HOOKS by (auto simp: parse_tag_def and_then_Inr split: if_splits SV.splits)
  then show ?thesis using find_hooks_some TAG_HOOKS by (simp add: value_ok_def)
qed (auto simp: parse_tag_def value_ok_def and_then_Inr find_index_less
      dest: parsed_dimension split: if_splits option.splits)

lemma tag_set_frame:
  assumes "tag_set pl fuel st tti i tag val store = Inr (rv, tag', store')"
  shows "tag_type tag' = tag_type tag" "j \<noteq> i \<Longrightarrow> tag_value store' j t = tag_value store j t"
proof -
  show "tag_type tag' = tag_type tag"
    using assms by (cases i) (auto simp: tag_set_def and_then_Inr strval_set_def split: if_splits option.splits)
  show "j \<noteq> i \<Longrightarrow> tag_value store' j t = tag_value store j t"
    using assms by (cases i; cases j)
      (auto simp: tag_set_def and_then_Inr hooks_set_def dimension_set_def tag_value_def split: if_splits option.splits SV.splits)
qed


lemma view_write: "tag_type tag' = tag_number i \<Longrightarrow> find_tag tags (tag_number i) = Some tag \<Longrightarrow>
    (\<And>j t. j \<noteq> i \<Longrightarrow> tag_value store' j t = tag_value store j t) \<Longrightarrow>
    tag_view (store', write_tag tags (tag_number i) tag') = (tag_view (store, tags))(i \<mapsto> tag_value store' i tag')"
  by (auto simp: tag_view_def find_write_tag fun_eq_iff intro!: option.map_cong0)

lemma view_insert: "tag_type tag' = tag_number i \<Longrightarrow> (\<And>j t. j \<noteq> i \<Longrightarrow> tag_value store' j t = tag_value store j t) \<Longrightarrow>
    tag_view (store', insert_tag tags tag') = (tag_view (store, tags))(i \<mapsto> tag_value store' i tag')"
  by (auto simp: tag_view_def find_tag_insert fun_eq_iff intro!: option.map_cong0)

lemma view_remove: "unique_tags tags \<Longrightarrow> (\<And>j t. j \<noteq> i \<Longrightarrow> tag_value store' j t = tag_value store j t) \<Longrightarrow>
    tag_view (store', snd (remove_tag tags (tag_number i))) = (tag_view (store, tags))(i := None)"
  by (auto simp: tag_view_def remove_tag_other unique_remove_tag fun_eq_iff intro!: option.map_cong0)

lemma new_tag_facts:
  assumes "new_tag fresh i store = (tag, store')"
  shows "tag_type tag = tag_number i" "j \<noteq> i \<Longrightarrow> tag_value store' j t = tag_value store j t"
    "i = TAG_HOOKS \<Longrightarrow> at_hooks store' (tag_any tag) = hook_new None"
  using assms by (cases i; cases j; auto simp: new_tag_def tag_value_def tag_vtable_of_def)+

lemma remove_written: "unique_tags tags \<Longrightarrow> tag_type tag' = n \<Longrightarrow> unique_tags (write_tag tags n tag')"
  by (simp add: unique_tags_def write_tag_types)

lemma apply_tag_view:
  assumes ok: "unique_tags tags"
  shows "and_then (apply_tag pl fuel st tti fresh i val (store, tags)) (\<lambda>s. Inr (tag_view s))
    = and_then (parse_tag pl fuel st tti i (tag_view (store, tags) i) val) (\<lambda>v. Inr ((tag_view (store, tags))(i := v)))"
proof (cases "find_tag tags (tag_number i)")
  case None
  obtain tag store1 where new: "new_tag fresh i store = (tag, store1)" by force
  note facts = new_tag_facts [OF new]
  have parse: "parse_tag pl fuel st tti i (tag_view (store, tags) i) val
    = and_then (tag_set pl fuel st tti i tag val store1)
       (\<lambda>(rv, tag, store). Inr (case rv of TSRV_UPDATE \<Rightarrow> Some (tag_value store i tag) | TSRV_DELETE \<Rightarrow> None))"
    by (rule tag_set_view [symmetric]) (use None facts(3) in \<open>simp add: tag_view_def\<close>)
  show ?thesis
  proof (cases "tag_set pl fuel st tti i tag val store1")
    case (Inr r)
    obtain rv tag' store' where r: "r = (rv, tag', store')" by (cases r)
    note frame = tag_set_frame [OF Inr [unfolded r]]
    have type: "tag_type tag' = tag_number i" using frame(1) facts(1) by simp
    have same: "\<And>j t. j \<noteq> i \<Longrightarrow> tag_value store' j t = tag_value store j t" using frame(2) facts(2) by simp
    have gone: "tag_view (store', tags) = (tag_view (store, tags))(i := None)"
      using same None by (auto simp: tag_view_def fun_eq_iff intro!: option.map_cong0)
    show ?thesis using view_insert [OF type same, of tags] gone parse Inr r type remove_insert_tag [of tags tag'] new None
      by (cases rv) (simp_all add: apply_tag_def)
  qed (use parse new None in \<open>simp add: apply_tag_def\<close>)
next
  case (Some tag)
  have parse: "parse_tag pl fuel st tti i (tag_view (store, tags) i) val
    = and_then (tag_set pl fuel st tti i tag val store)
       (\<lambda>(rv, tag, store). Inr (case rv of TSRV_UPDATE \<Rightarrow> Some (tag_value store i tag) | TSRV_DELETE \<Rightarrow> None))"
    by (rule tag_set_view [symmetric]) (use Some in \<open>simp add: tag_view_def\<close>)
  show ?thesis
  proof (cases "tag_set pl fuel st tti i tag val store")
    case (Inr r)
    obtain rv tag' store' where r: "r = (rv, tag', store')" by (cases r)
    note frame = tag_set_frame [OF Inr [unfolded r]]
    have type: "tag_type tag' = tag_number i" using frame(1) find_tag_type [OF Some] by simp
    have gone: "tag_view (store', snd (remove_tag (write_tag tags (tag_number i) tag') (tag_number i)))
        = (tag_view (store, tags))(i := None)"
      using view_remove [OF remove_written [OF ok type], of i store' store'] view_write [OF type Some frame(2)] by simp
    show ?thesis using view_write [OF type Some frame(2)] gone parse Inr r Some
      by (cases rv) (simp_all add: apply_tag_def)
  qed (use parse Some in \<open>simp add: apply_tag_def\<close>)
qed

lemma find_unique: "unique_tags tags \<Longrightarrow> t \<in> set tags \<Longrightarrow> find_tag tags (tag_type t) = Some t"
  by (induction tags) (auto simp: unique_tags_def)

lemma tags_ok_view:
  "tags_ok s \<longleftrightarrow> unique_tags (snd s) \<and> (\<forall>t\<in>set (snd s). \<exists>i. tag_type t = tag_number i)
     \<and> (\<forall>i v. tag_view s i = Some v \<longrightarrow> value_ok i v)"
proof -
  obtain store tags where s: "s = (store, tags)" by (cases s)
  have "value_ok i (tag_value store i t)" if "unique_tags tags" "\<forall>i v. tag_view s i = Some v \<longrightarrow> value_ok i v"
    "t \<in> set tags" "tag_type t = tag_number i" for i t
    using that find_unique [OF that(1,3)] by (simp add: s tag_view_def)
  moreover have "value_ok i v" if "\<forall>t\<in>set tags. \<exists>i. tag_type t = tag_number i \<and> value_ok i (tag_value store i t)"
    "tag_view s i = Some v" for i v
    using that find_tag_type by (fastforce simp: s tag_view_def)
  ultimately show ?thesis unfolding s tags_ok_def by simp blast
qed

lemma set_tag_shape:
  assumes "unique_tags tags" "\<forall>t\<in>set tags. \<exists>i. tag_type t = tag_number i"
    "apply_tag pl fuel st tti fresh i val (store, tags) = Inr (store', tags')"
  shows "unique_tags tags' \<and> (\<forall>t\<in>set tags'. \<exists>i. tag_type t = tag_number i)"
proof -
  obtain rv tag tags1 where tag: "tag_type tag = tag_number i" "tags' = (case rv of TSRV_UPDATE \<Rightarrow> tags1 | TSRV_DELETE \<Rightarrow> snd (remove_tag tags1 (tag_number i)))"
    and tags1: "tags1 = insert_tag tags tag \<and> find_tag tags (tag_number i) = None \<or> tags1 = write_tag tags (tag_number i) tag"
  proof (cases "find_tag tags (tag_number i)")
    case None
    obtain t store1 where new: "new_tag fresh i store = (t, store1)" by force
    then obtain rv tag store2 where "tag_set pl fuel st tti i t val store1 = Inr (rv, tag, store2)"
      "tags' = (case rv of TSRV_UPDATE \<Rightarrow> insert_tag tags tag | TSRV_DELETE \<Rightarrow> snd (remove_tag (insert_tag tags tag) (tag_number i)))"
      using None assms(3) by (auto simp: apply_tag_def and_then_Inr)
    then show ?thesis using that None tag_set_frame(1) new_tag_facts(1) [OF new] by metis
  next
    case (Some t)
    then obtain rv tag store2 where "tag_set pl fuel st tti i t val store = Inr (rv, tag, store2)"
      "tags' = (case rv of TSRV_UPDATE \<Rightarrow> write_tag tags (tag_number i) tag
        | TSRV_DELETE \<Rightarrow> snd (remove_tag (write_tag tags (tag_number i) tag) (tag_number i)))"
      using assms(3) by (auto simp: apply_tag_def and_then_Inr)
    then show ?thesis using that tag_set_frame(1) find_tag_type [OF Some] by metis
  qed
  have one: "unique_tags tags1" using tags1 tag(1) unique_insert_tag remove_written [OF assms(1) tag(1)] assms(1) by metis
  have known: "\<forall>t\<in>set tags1. \<exists>i. tag_type t = tag_number i"
    using tags1 tag(1) assms(2) by (auto simp: insert_tag_def dest: write_tag_set)
  have sub: "t \<in> set (snd (remove_tag tags1 n)) \<Longrightarrow> t \<in> set tags1" for t n using set_remove_tag by blast
  show ?thesis using one known tag(2) unique_remove_tag [OF one] by (cases rv) (auto dest: sub)
qed

lemma apply_tag_ok:
  assumes ok: "tags_ok s" and run: "apply_tag pl fuel st tti fresh i val s = Inr s'"
  shows "tags_ok s'"
proof -
  obtain store tags where s: "s = (store, tags)" by (cases s)
  note ok = ok [unfolded tags_ok_view]
  have "unique_tags (snd s') \<and> (\<forall>t\<in>set (snd s'). \<exists>i. tag_type t = tag_number i)"
    using set_tag_shape [of tags pl fuel st tti fresh i val store "fst s'" "snd s'"] ok run s by simp
  moreover have "value_ok j v" if "tag_view s' j = Some v" for j v
  proof -
    obtain w where "parse_tag pl fuel st tti i (tag_view s i) val = Inr w" "tag_view s' = (tag_view s)(i := w)"
      using apply_tag_view [of tags pl fuel st tti fresh i val store] ok run s
      by (cases "parse_tag pl fuel st tti i (tag_view s i) val") auto
    then show ?thesis using that ok parse_tag_ok [of pl fuel st tti i "tag_view s i" val] by (cases "j = i") auto
  qed
  ultimately show ?thesis by (simp add: tags_ok_view)
qed

lemma handle_tag_view:
  assumes "unique_tags (snd s)"
  shows "and_then (handle_tag pl fuel st tti fresh name val want s) (\<lambda>(rv, s). Inr (rv, tag_view s))
    = map_tag pl fuel st tti name val want (tag_view s)"
proof -
  have show_it: "(if \<not> want then Inr None else case find_tag tags (tag_number i) of None \<Rightarrow> Inr (Some Undef) | Some tag \<Rightarrow> tag_get i tag store)
     = (if want then show_tag i (tag_view (store, tags) i) else Inr None)" for i store tags
    by (cases "find_tag tags (tag_number i)") (simp_all add: tag_get_view tag_view_def show_tag_def)
  obtain store tags where s: "s = (store, tags)" by (cases s)
  define fin where "fin i m = and_then (if want then show_tag i (m i) else Inr None) (\<lambda>rv. Inr (rv, m))" for i and m :: "CbcTagId \<Rightarrow> TagValue option"
  have rest: "and_then (and_then r (\<lambda>(store, tags). and_then (if \<not> want then Inr None else
        case find_tag tags (tag_number i) of None \<Rightarrow> Inr (Some Undef) | Some tag \<Rightarrow> tag_get i tag store) (\<lambda>rv. Inr (rv, store, tags))))
      (\<lambda>(rv, s). Inr (rv, tag_view s)) = and_then (and_then r (\<lambda>s. Inr (tag_view s))) (fin i)" for r :: "tags run" and i
    by (cases r) (auto simp: show_it fin_def and_then_def split: sum.splits prod.splits)
  show ?thesis
  proof (cases "SvROK name \<or> get_tag_id (SvPV pl name) = None")
    case False
    then obtain i where i: "\<not> SvROK name" "get_tag_id (SvPV pl name) = Some i" by auto
    have "and_then (case val of None \<Rightarrow> Inr s | Some v \<Rightarrow> apply_tag pl fuel st tti fresh i v s) (\<lambda>s. Inr (tag_view s))
      = (case val of None \<Rightarrow> Inr (tag_view s) | Some v \<Rightarrow> and_then (parse_tag pl fuel st tti i (tag_view s i) v) (\<lambda>v. Inr ((tag_view s)(i := v))))"
      using apply_tag_view [of tags] assms s by (simp split: option.split)
    then show ?thesis using i
      by (cases "tag_verify fuel st tti i") (simp_all add: handle_tag_def map_tag_def rest flip: fin_def)
  qed (auto simp: handle_tag_def map_tag_def)
qed

lemma get_tags_view:
  assumes "\<forall>t\<in>set tags. \<exists>i. tag_type t = tag_number i \<and> value_ok i (tag_value store i t)" "unique_tags tags"
    "\<forall>t\<in>set tags. hv_fetch hv (tag_id_str (the (tag_id_of (tag_type t)))) = None"
  shows "\<exists>hv'. get_tags tags store hv = Inr hv' \<and> (\<forall>i. Inr (hv_fetch hv' (tag_id_str i))
    = (case tag_view (store, tags) i of None \<Rightarrow> Inr (hv_fetch hv (tag_id_str i)) | Some v \<Rightarrow> show_tag i (Some v)))"
  using assms
proof (induction tags arbitrary: hv)
  case Nil
  show ?case by (simp add: tag_view_def)
next
  case (Cons t tags)
  obtain i where i: "tag_type t = tag_number i" "value_ok i (tag_value store i t)" using Cons.prems(1) by auto
  then obtain sv where sv: "show_tag i (Some (tag_value store i t)) = Inr (Some sv)"
    by (cases i) (auto simp: show_tag_def value_ok_def tag_value_def tag_strings_def not_le)
  have ids: "tag_id_str j = tag_id_str k \<longleftrightarrow> j = k" for j k by (cases j; cases k) (simp_all add: tag_id_str_def)
  let ?hv = "hv_store hv (tag_id_str i) sv"
  have other: "\<forall>t\<in>set tags. hv_fetch ?hv (tag_id_str (the (tag_id_of (tag_type t)))) = None"
  proof
    fix u assume u: "u \<in> set tags"
    then obtain j where j: "tag_type u = tag_number j" using Cons.prems(1) by auto
    then have "j \<noteq> i" using Cons.prems(2) u i(1) by (force simp: unique_tags_def)
    moreover have "hv_fetch hv (tag_id_str (the (tag_id_of (tag_type u)))) = None" using Cons.prems(3) u by simp
    ultimately show "hv_fetch ?hv (tag_id_str (the (tag_id_of (tag_type u)))) = None"
      using j by (simp add: hv_fetch_store ids)
  qed
  have known: "\<forall>t\<in>set tags. \<exists>i. tag_type t = tag_number i \<and> value_ok i (tag_value store i t)" and "unique_tags tags"
    using Cons.prems(1,2) by (simp_all add: unique_tags_def)
  then obtain hv' where run: "get_tags tags store ?hv = Inr hv'" and view: "\<And>j. Inr (hv_fetch hv' (tag_id_str j))
      = (case tag_view (store, tags) j of None \<Rightarrow> Inr (hv_fetch ?hv (tag_id_str j)) | Some v \<Rightarrow> show_tag j (Some v))"
    using Cons.IH [OF known _ other] by blast
  have none: "find_tag tags (tag_number i) = None"
    using Cons.prems(2) i(1) find_tag_type [of tags "tag_number i"]
    by (cases "find_tag tags (tag_number i)") (force simp: unique_tags_def)+
  have "Inr (hv_fetch hv' (tag_id_str j)) = (case tag_view (store, t # tags) j of None \<Rightarrow> Inr (hv_fetch hv (tag_id_str j))
      | Some v \<Rightarrow> show_tag j (Some v))" for j
    using view [of j] none sv i(1)
    by (cases "j = i"; cases "find_tag tags (tag_number j)") (auto simp: tag_view_def hv_fetch_store ids)
  then show ?case using run i sv by (auto simp: tag_get_view)
qed

text \<open>
  C12 Handling a tag is an operation on a map: with one tag per type, all of them readable,
  \<open>handle_tag\<close> answers and fails exactly as reading and updating a map from tag names to values
  does, whether the tag was there or not, keeps the list that way, and \<open>get_tags\<close> gives a hash of
  exactly the tags there are with the values \<open>handle_tag\<close> reads.
\<close>

theorem tags_refine_map:
  assumes "tags_ok s"
  shows "and_then (handle_tag pl fuel st tti fresh name val want s) (\<lambda>(rv, s). Inr (rv, tag_view s))
      = map_tag pl fuel st tti name val want (tag_view s)
    \<and> (\<forall>rv s'. handle_tag pl fuel st tti fresh name val want s = Inr (rv, s') \<longrightarrow> tags_ok s')
    \<and> (\<exists>hv. get_tags (snd s) (fst s) [] = Inr hv
         \<and> (\<forall>i. Inr (hv_fetch hv (tag_id_str i)) = (if tag_view s i = None then Inr None else show_tag i (tag_view s i))))"
proof (intro conjI allI impI)
  show "and_then (handle_tag pl fuel st tti fresh name val want s) (\<lambda>(rv, s). Inr (rv, tag_view s))
      = map_tag pl fuel st tti name val want (tag_view s)"
    using assms by (intro handle_tag_view) (simp add: tags_ok_view)
  show "tags_ok s'" if "handle_tag pl fuel st tti fresh name val want s = Inr (rv, s')" for rv s'
    using that assms apply_tag_ok by (fastforce simp: handle_tag_def and_then_Inr split: if_splits option.splits)
  show "\<exists>hv. get_tags (snd s) (fst s) [] = Inr hv
         \<and> (\<forall>i. Inr (hv_fetch hv (tag_id_str i)) = (if tag_view s i = None then Inr None else show_tag i (tag_view s i)))"
  proof -
    obtain hv where run: "get_tags (snd s) (fst s) [] = Inr hv" and view: "\<And>i. Inr (hv_fetch hv (tag_id_str i))
        = (case tag_view s i of None \<Rightarrow> Inr (hv_fetch [] (tag_id_str i)) | Some v \<Rightarrow> show_tag i (Some v))"
      using get_tags_view [of "snd s" "fst s" "[]"] assms by (auto simp: tags_ok_def hv_fetch_def split_beta)
    have "Inr (hv_fetch hv (tag_id_str i)) = (if tag_view s i = None then Inr None else show_tag i (tag_view s i))" for i
      using view [of i] by (cases "tag_view s i") (simp_all add: hv_fetch_def)
    then show ?thesis using run by blast
  qed
qed

text \<open>A list with a format tag gets a byte order.\<close>

definition string_perl :: perl where
  "string_perl = \<lparr>SvIV = (\<lambda>_. 0), SvUV = (\<lambda>_. 0), SvNV = (\<lambda>_. 0), SvPV = (\<lambda>sv. case sv of Scalar _ _ (Some s) \<Rightarrow> s | _ \<Rightarrow> []),
     looks_like_number = (\<lambda>_. False), call_sv = (\<lambda>_ _. Inr Undef), nv_bytes = (\<lambda>_ _. []), bytes_nv = (\<lambda>_ _. 0),
     largest_allocation = 1000\<rparr>"

definition format_state :: tags where
  "format_state = (\<lparr>at_hooks = (\<lambda>_. hook_new None), at_dimension = (\<lambda>_. DTT_NONE)\<rparr>,
     [\<lparr>tag_type = CBC_TAG_FORMAT, tag_flags = 1, tag_any = 0, tag_vtable = None\<rparr>])"

definition int_info :: TagTypeInfo where
  "int_info = \<lparr>tti_type = ''int_t'', tti_mi = whole_type \<lparr>ts_ptr = Some 1, ts_tflags = T_TYPE\<rparr> None 4 0\<rparr>"

lemma format_state_ok: "tags_ok format_state"
  by (auto simp: format_state_def tags_ok_def unique_tags_def value_ok_def tag_value_def tag_strings_def tag_number_def
      intro: exI [of _ TAG_FORMAT])

theorem tags_refine_map_witness:
  "map_option (tag_view \<circ> snd) (case handle_tag string_perl 1 no_state int_info 5 (newSVpv ''ByteOrder'') (Some (newSVpv ''LittleEndian'')) True
       format_state of Inl _ \<Rightarrow> None | Inr x \<Rightarrow> Some x)
     = Some ((tag_view format_state)(TAG_BYTE_ORDER \<mapsto> Flag_tag 1))"
proof -
  have "map_tag string_perl 1 no_state int_info (newSVpv ''ByteOrder'') (Some (newSVpv ''LittleEndian'')) True (tag_view format_state)
    = Inr (Some (newSVpv ''LittleEndian''), (tag_view format_state)(TAG_BYTE_ORDER \<mapsto> Flag_tag 1))"
    by (simp add: map_tag_def newSVpv_def SvROK_def SvOK_def string_perl_def get_tag_id_def gs_TagIdStr_def tag_verify_def
        croak_on_bitfield_def int_info_def whole_type_def parse_tag_def tag_strings_def show_tag_def)
  with tags_refine_map [OF format_state_ok, of string_perl 1 no_state int_info 5 "newSVpv ''ByteOrder''" "Some (newSVpv ''LittleEndian'')" True]
  show ?thesis by (auto simp: and_then_Inr)
qed

end
