(* ===== verification/Init_String.thy ===== *)
theory Init_String
  imports Type_Names
begin

text \<open>
  \<^verbatim>\<open>cbc/init.c\<close>: the C initializer for a type, with values from Perl data. The string only grows,
  so every function gives the text it appends. Dimensions are counted from a level that is not
  negative.
\<close>

section \<open>Layout of the text\<close>

definition MAXINDENT :: nat where "MAXINDENT = 16"

definition add_indent :: "nat \<Rightarrow> string" where
  "add_indent level = replicate (if level > MAXINDENT then MAXINDENT else level) (CHR 0x09)"

definition INDENT :: "nat \<Rightarrow> string" where
  "INDENT level = (if level > 0 then add_indent level else [])"

definition APPEND_COMMA :: "bool \<Rightarrow> string" where
  "APPEND_COMMA first = (if first then [] else '','' @ [CHR 0x0A])"

definition ENTER_LEVEL :: "nat \<Rightarrow> string" where
  "ENTER_LEVEL level = INDENT level @ ''{'' @ [CHR 0x0A]"

definition LEAVE_LEVEL :: "nat \<Rightarrow> string" where
  "LEAVE_LEVEL level = [CHR 0x0A] @ INDENT level @ ''}''"

section \<open>Values\<close>

definition log_run :: "'a run \<Rightarrow> 'a logged" where
  "log_run r = and_then r quiet"

definition warn_at :: "IDList \<Rightarrow> string \<Rightarrow> 'a \<Rightarrow> 'a logged" where
  "warn_at idl msg x = log_then (log_run (idl_to_str idl)) (\<lambda>name. warned (single_quoted name @ msg) x)"

type_synonym init_fun = "SV option \<Rightarrow> IDList \<Rightarrow> nat \<Rightarrow> string logged"

definition init_basic :: "perl \<Rightarrow> init_fun" where
  "init_basic pl init idl level = (case init of
     Some sv \<Rightarrow> if SvOK sv then log_then (if SvROK sv then warn_at idl '' should be a scalar value'' () else quiet ()) (\<lambda>_.
         quiet (INDENT level @ SvPV pl sv)) else quiet (INDENT level @ ''0'')
   | None \<Rightarrow> quiet (INDENT level @ ''0''))"

definition init_hash :: "SV option \<Rightarrow> IDList \<Rightarrow> HV option logged" where
  "init_hash init idl = (case init of None \<Rightarrow> quiet None | Some Undef \<Rightarrow> quiet None | Some (HVref h) \<Rightarrow> quiet (Some h)
     | _ \<Rightarrow> warn_at idl '' should be a hash reference'' None)"

definition init_array :: "SV option \<Rightarrow> IDList \<Rightarrow> SV option list logged" where
  "init_array init idl = (case init of None \<Rightarrow> quiet [] | Some Undef \<Rightarrow> quiet [] | Some (AVref av) \<Rightarrow> quiet av
     | _ \<Rightarrow> warn_at idl '' should be an array reference'' [])"

section \<open>Arrays\<close>

fun init_elements :: "init_fun \<Rightarrow> SV option list \<Rightarrow> IDList \<Rightarrow> nat \<Rightarrow> bool \<Rightarrow> int list \<Rightarrow> string logged" where
  "init_elements elem av idl level first [] = quiet []"
| "init_elements elem av idl level first (i # is) =
     log_then (log_run (IDLIST_SET_IX i idl)) (\<lambda>idl.
     log_then (elem (av_fetch av i) idl (level + 1)) (\<lambda>s.
     log_then (init_elements elem av idl level False is) (\<lambda>t. quiet (APPEND_COMMA first @ s @ t))))"

text \<open>One level of braces for each dimension.\<close>

fun init_dimensions :: "init_fun \<Rightarrow> Value list \<Rightarrow> init_fun" where
  "init_dimensions elem [] init idl level = elem init idl level"
| "init_dimensions elem (v # vs) init idl level =
     log_then (init_array init idl) (\<lambda>av.
     log_then (init_elements (init_dimensions elem vs) av (IDLIST_PUSH (IDL_IX None) idl) level True [0..iv v - 1]) (\<lambda>s.
     quiet (ENTER_LEVEL level @ s @ LEAVE_LEVEL level)))"

definition dimensions_from :: "Declarator option \<Rightarrow> int \<Rightarrow> Value list" where
  "dimensions_from decl dimension = (case decl of None \<Rightarrow> []
     | Some d \<Rightarrow> if array_flag d then (case ext_array d of None \<Rightarrow> [] | Some vs \<Rightarrow> drop (nat dimension) vs) else [])"

section \<open>Compounds\<close>

text \<open>Unnamed bit-fields and flexible arrays are left out; of a union only one member is there.\<close>

definition init_skips :: "Declarator \<Rightarrow> bool" where
  "init_skips d \<longleftrightarrow> bitfield_flag d \<and> d_identifier d = [] \<or> array_flag d \<and> d_size d = 0"

type_synonym init_type_fun = "TypeSpec \<Rightarrow> Declarator option \<Rightarrow> int \<Rightarrow> init_fun"
type_synonym init_struct_fun = "nat \<Rightarrow> init_fun"

text \<open>The text, whether the next member is still the first, and whether the compound is complete.\<close>

fun init_declarators ::
  "init_type_fun \<Rightarrow> bool \<Rightarrow> HV option \<Rightarrow> TypeSpec \<Rightarrow> IDList \<Rightarrow> nat \<Rightarrow> bool \<Rightarrow> Declarator list \<Rightarrow> (string \<times> bool \<times> bool) logged" where
  "init_declarators rec_type is_union hash ts idl level first [] = quiet ([], first, False)"
| "init_declarators rec_type is_union hash ts idl level first (d # ds) =
     (if init_skips d then init_declarators rec_type is_union hash ts idl level first ds
      else log_then (log_run (IDLIST_SET_ID (d_identifier d) idl)) (\<lambda>idl.
        log_then (rec_type ts (Some d) 0 (case hash of None \<Rightarrow> None | Some h \<Rightarrow> hv_fetch h (d_identifier d)) idl (level + 1)) (\<lambda>s.
        if is_union then quiet (APPEND_COMMA first @ s, False, True)
        else log_then (init_declarators rec_type is_union hash ts idl level False ds) (\<lambda>(t, f, stop).
          quiet (APPEND_COMMA first @ s @ t, f, stop)))))"

fun init_declarations ::
  "init_type_fun \<Rightarrow> init_struct_fun \<Rightarrow> (TypeSpec \<Rightarrow> nat run) \<Rightarrow> bool \<Rightarrow> SV option \<Rightarrow> HV option \<Rightarrow> IDList \<Rightarrow> nat \<Rightarrow> bool \<Rightarrow>
    StructDeclaration list \<Rightarrow> string logged" where
  "init_declarations rec_type rec_struct follow is_union init hash idl level first [] = quiet []"
| "init_declarations rec_type rec_struct follow is_union init hash idl level first (sd # sds) =
     log_then (case sd_declarators sd of
         Some ds \<Rightarrow> init_declarators rec_type is_union hash (sd_type sd) (IDLIST_PUSH (IDL_ID None) idl) level first ds
       | None \<Rightarrow> log_then (log_run (follow (sd_type sd))) (\<lambda>n.
           log_then (rec_struct n init idl (level + 1)) (\<lambda>s. quiet (APPEND_COMMA first @ s, False, is_union)))) (\<lambda>(s, first, stop).
     if stop then quiet s
     else log_then (init_declarations rec_type rec_struct follow is_union init hash idl level first sds) (\<lambda>t. quiet (s @ t)))"

definition get_init_str_struct_step :: "init_type_fun \<Rightarrow> init_struct_fun \<Rightarrow> nat \<Rightarrow> CState \<Rightarrow> init_struct_fun" where
  "get_init_str_struct_step rec_type rec_struct fuel st n init idl level =
     log_then (log_run (struct_at st (Some n))) (\<lambda>s.
     log_then (init_hash init idl) (\<lambda>hash.
     log_then (init_declarations rec_type rec_struct (FOLLOW_AND_CHECK_TSPTR fuel st) (has_flag (s_tflags s) T_UNION) init hash
         idl level True (struct_declarations s)) (\<lambda>t.
     quiet (ENTER_LEVEL level @ t @ LEAVE_LEVEL level))))"

section \<open>Types\<close>

definition init_scalar ::
  "perl \<Rightarrow> init_type_fun \<Rightarrow> init_struct_fun \<Rightarrow> CState \<Rightarrow> TypeSpec \<Rightarrow> Declarator option \<Rightarrow> init_fun" where
  "init_scalar pl rec_type rec_struct st ts decl init idl level =
     (if is_pointer decl then init_basic pl init idl level
      else if has_flag (ts_tflags ts) T_TYPE then
        log_then (log_run (pTypedef st ts)) (\<lambda>(t, d). rec_type t (Some d) 0 init idl level)
      else if has_flag (ts_tflags ts) T_COMPOUND then
        (case ts_ptr ts of None \<Rightarrow> Inl Undefined_behaviour
         | Some n \<Rightarrow> log_then (log_run (struct_at st (Some n))) (\<lambda>s.
             log_then (if s_declarations s = None then warned (UNDEF_STRUCT s) () else quiet ()) (\<lambda>_. rec_struct n init idl level)))
      else init_basic pl init idl level)"

definition get_init_str_type_step ::
  "perl \<Rightarrow> init_type_fun \<Rightarrow> init_struct_fun \<Rightarrow> CState \<Rightarrow> init_type_fun" where
  "get_init_str_type_step pl rec_type rec_struct st ts decl dimension =
     init_dimensions (init_scalar pl rec_type rec_struct st ts decl) (dimensions_from decl dimension)"

fun get_init_str_type :: "nat \<Rightarrow> perl \<Rightarrow> CState \<Rightarrow> init_type_fun"
and get_init_str_struct :: "nat \<Rightarrow> perl \<Rightarrow> CState \<Rightarrow> init_struct_fun" where
  "get_init_str_type 0 pl st = (\<lambda>_ _ _ _ _ _. Inl Out_of_fuel)"
| "get_init_str_type (Suc fuel) pl st = get_init_str_type_step pl (get_init_str_type fuel pl st) (get_init_str_struct fuel pl st) st"
| "get_init_str_struct 0 pl st = (\<lambda>_ _ _ _. Inl Out_of_fuel)"
| "get_init_str_struct (Suc fuel) pl st =
     get_init_str_struct_step (get_init_str_type fuel pl st) (get_init_str_struct fuel pl st) fuel st"

definition get_initializer_string :: "nat \<Rightarrow> perl \<Rightarrow> CState \<Rightarrow> MemberInfo \<Rightarrow> SV option \<Rightarrow> string \<Rightarrow> string logged" where
  "get_initializer_string fuel pl st mi init name =
     log_then (log_run (IDLIST_SET_ID name (IDLIST_PUSH (IDL_ID None) IDLIST_INIT))) (\<lambda>idl.
     get_init_str_type fuel pl st (mi_type mi) (mi_decl mi) (mi_level mi) init idl 0)"

end
