(* ===== verification/Init_Props.thy ===== *)
theory Init_Props
  imports Init_String Layout_Fuel Layout_Examples
begin

text \<open>The initializer of a type is a tree of braces of the shape of the type.\<close>

section \<open>Trees\<close>

datatype init_tree = Leaf string | Braces "init_tree list"

fun comma_text :: "bool \<Rightarrow> string list \<Rightarrow> string" where
  "comma_text first [] = []"
| "comma_text first (s # ss) = APPEND_COMMA first @ s @ comma_text False ss"

fun show_tree :: "nat \<Rightarrow> init_tree \<Rightarrow> string" where
  "show_tree level (Leaf s) = INDENT level @ s"
| "show_tree level (Braces ts) = ENTER_LEVEL level @ comma_text True (map (show_tree (level + 1)) ts) @ LEAVE_LEVEL level"

lemma comma_text_append: "comma_text first (xs @ ys) = comma_text first xs @ comma_text (first \<and> xs = []) ys"
  by (induction xs arbitrary: first) simp_all

definition named_members :: "TypeSpec \<Rightarrow> Declarator list \<Rightarrow> (TypeSpec \<times> Declarator option) list" where
  "named_members ts ds = map (\<lambda>d. (ts, Some d)) (filter (\<lambda>d. \<not> init_skips d) ds)"

definition only_first :: "bool \<Rightarrow> 'a list \<Rightarrow> 'a list" where
  "only_first b xs = (if b then take 1 xs else xs)"

definition declared_members :: "StructDeclaration list \<Rightarrow> (TypeSpec \<times> Declarator option) list" where
  "declared_members sds = concat (map (\<lambda>sd. case sd_declarators sd of Some ds \<Rightarrow> named_members (sd_type sd) ds | None \<Rightarrow> [(sd_type sd, None)]) sds)"

definition init_members :: "Struct \<Rightarrow> (TypeSpec \<times> Declarator option) list" where
  "init_members s = only_first (has_flag (s_tflags s) T_UNION) (declared_members (struct_declarations s))"

inductive type_shape :: "CState \<Rightarrow> TypeSpec \<Rightarrow> Declarator option \<Rightarrow> Value list \<Rightarrow> init_tree \<Rightarrow> bool"
  and struct_shape :: "CState \<Rightarrow> nat \<Rightarrow> init_tree \<Rightarrow> bool"
  and member_shape :: "CState \<Rightarrow> TypeSpec \<times> Declarator option \<Rightarrow> init_tree \<Rightarrow> bool"
  for st :: CState where
  array_shape: "length trees = nat (iv v) \<Longrightarrow> list_all (type_shape st ts decl vs) trees \<Longrightarrow> type_shape st ts decl (v # vs) (Braces trees)"
| leaf_shape: "is_pointer decl \<or> \<not> has_flag (ts_tflags ts) T_TYPE \<and> \<not> has_flag (ts_tflags ts) T_COMPOUND \<Longrightarrow>
    type_shape st ts decl [] (Leaf s)"
| typedef_shape: "\<not> is_pointer decl \<Longrightarrow> has_flag (ts_tflags ts) T_TYPE \<Longrightarrow> pTypedef st ts = Inr (t, d) \<Longrightarrow>
    type_shape st t (Some d) (dimensions_from (Some d) 0) tree \<Longrightarrow> type_shape st ts decl [] tree"
| compound_shape: "\<not> is_pointer decl \<Longrightarrow> \<not> has_flag (ts_tflags ts) T_TYPE \<Longrightarrow> has_flag (ts_tflags ts) T_COMPOUND \<Longrightarrow>
    ts_ptr ts = Some n \<Longrightarrow> struct_shape st n tree \<Longrightarrow> type_shape st ts decl [] tree"
| members_shape: "structs st n = Some s \<Longrightarrow> list_all2 (member_shape st) (init_members s) trees \<Longrightarrow> struct_shape st n (Braces trees)"
| named_shape: "type_shape st ts (Some d) (dimensions_from (Some d) 0) tree \<Longrightarrow> member_shape st (ts, Some d) tree"
| unnamed_shape: "ts_ptr ts = Some n \<Longrightarrow> struct_shape st n tree \<Longrightarrow> member_shape st (ts, None) tree"

section \<open>Well-formed types\<close>

text \<open>What a type refers to exists; an unnamed member is a compound.\<close>

definition known_compound :: "CState \<Rightarrow> TypeSpec \<Rightarrow> bool" where
  "known_compound st ts \<longleftrightarrow> \<not> has_flag (ts_tflags ts) T_ENUM \<and> (case ts_ptr ts of None \<Rightarrow> False | Some n \<Rightarrow> structs st n \<noteq> None)"

definition known_type :: "CState \<Rightarrow> TypeSpec \<Rightarrow> Declarator option \<Rightarrow> bool" where
  "known_type st ts decl \<longleftrightarrow> is_pointer decl
     \<or> (if has_flag (ts_tflags ts) T_TYPE then (case pTypedef st ts of Inl _ \<Rightarrow> False | Inr _ \<Rightarrow> True)
        else has_flag (ts_tflags ts) T_COMPOUND \<longrightarrow> known_compound st ts)"

definition known_declaration :: "CState \<Rightarrow> StructDeclaration \<Rightarrow> bool" where
  "known_declaration st sd \<longleftrightarrow> (case sd_declarators sd of Some ds \<Rightarrow> list_all (\<lambda>d. known_type st (sd_type sd) (Some d)) ds
     | None \<Rightarrow> \<not> has_flag (ts_tflags (sd_type sd)) T_TYPE \<and> has_flag (ts_tflags (sd_type sd)) T_COMPOUND \<and> known_compound st (sd_type sd))"

definition known_types :: "CState \<Rightarrow> bool" where
  "known_types st \<longleftrightarrow> (\<forall>ts t d. pTypedef st ts = Inr (t, d) \<longrightarrow> known_type st t (Some d))
     \<and> (\<forall>n s. structs st n = Some s \<longrightarrow> list_all (known_declaration st) (struct_declarations s))"

definition idl_set :: "IDList \<Rightarrow> bool" where
  "idl_set idl \<longleftrightarrow> list_all (\<lambda>x. x \<noteq> IDL_ID None \<and> x \<noteq> IDL_IX None) idl"

lemma idl_append_set: "idl_set idl \<Longrightarrow> \<exists>s. idl_append first idl = Inr s"
proof (induction first idl rule: idl_append.induct)
  case (2 first s idl)
  then show ?case by (auto simp: idl_set_def)
next
  case (3 first i idl)
  then show ?case by (auto simp: idl_set_def)
qed (auto simp: idl_set_def)

text \<open>An entry has been pushed, whether it has a value or not.\<close>

definition idl_open :: "IDList \<Rightarrow> bool" where
  "idl_open idl \<longleftrightarrow> idl \<noteq> [] \<and> idl_set (butlast idl)"

lemma idl_open_push: "idl_set idl \<Longrightarrow> idl_open (IDLIST_PUSH x idl)"
  by (simp add: idl_open_def IDLIST_PUSH_def)

lemma idl_set_id: "idl_open idl \<Longrightarrow> \<exists>idl'. IDLIST_SET_ID s idl = Inr idl' \<and> idl_set idl' \<and> idl_open idl'"
  by (simp add: IDLIST_SET_ID_def idl_set_def idl_open_def)

lemma idl_set_ix: "idl_open idl \<Longrightarrow> \<exists>idl'. IDLIST_SET_IX i idl = Inr idl' \<and> idl_set idl' \<and> idl_open idl'"
  by (simp add: IDLIST_SET_IX_def idl_set_def idl_open_def)

lemma warn_at_set: "idl_set idl \<Longrightarrow> \<exists>ws. warn_at idl msg x = Inr (x, ws)"
  using idl_append_set [of idl True]
  by (auto simp: warn_at_def log_run_def idl_to_str_def log_then_def quiet_def warned_def)

lemma init_array_set: "idl_set idl \<Longrightarrow> \<exists>av ws. init_array init idl = Inr (av, ws)"
  using warn_at_set [of idl "'' should be an array reference''" "[]"]
  by (cases init) (auto simp: init_array_def quiet_def split: SV.splits)

lemma init_hash_set: "idl_set idl \<Longrightarrow> \<exists>hash ws. init_hash init idl = Inr (hash, ws)"
  using warn_at_set [of idl "'' should be a hash reference''" None]
  by (cases init) (auto simp: init_hash_def quiet_def split: SV.splits)

section \<open>The text is a tree\<close>

definition shows_as :: "nat \<Rightarrow> string logged \<Rightarrow> (init_tree \<Rightarrow> bool) \<Rightarrow> bool" where
  "shows_as level r S \<longleftrightarrow> (\<exists>t ws. r = Inr (show_tree level t, ws) \<and> S t)"

definition init_good :: "init_fun \<Rightarrow> (init_tree \<Rightarrow> bool) \<Rightarrow> bool" where
  "init_good f S \<longleftrightarrow> (\<forall>init idl level. idl_set idl \<longrightarrow> shows_as level (f init idl level) S)"

lemma log_then_Inr: "log_then (Inr (x, ws)) f = and_then (f x) (\<lambda>(y, ws'). Inr (y, ws @ ws'))"
  by (simp add: log_then_def)

lemma log_run_Inr [simp]: "log_run (Inr x) = Inr (x, [])"
  by (simp add: log_run_def quiet_def)

lemma init_basic_good: "(\<And>s. S (Leaf s)) \<Longrightarrow> init_good (init_basic pl) S"
proof -
  assume S: "\<And>s. S (Leaf s)"
  have "\<exists>s ws. init_basic pl init idl level = Inr (INDENT level @ s, ws)" if "idl_set idl" for init idl level
    using warn_at_set [OF that, of "'' should be a scalar value''" "()"]
    by (auto simp: init_basic_def log_then_def quiet_def split: option.splits)
  then show ?thesis using S by (fastforce simp: init_good_def shows_as_def intro: exI [of _ "Leaf s" for s])
qed

lemma init_goodE:
  assumes "init_good f S" "idl_set idl"
  obtains t ws where "f init idl level = Inr (show_tree level t, ws)" "S t"
  using assms unfolding init_good_def shows_as_def by blast

lemma init_elements_good:
  assumes "init_good elem S" "idl_open idl"
  shows "\<exists>trees ws. init_elements elem av idl level first ixs
     = Inr (comma_text first (map (show_tree (level + 1)) trees), ws) \<and> length trees = length ixs \<and> list_all S trees"
  using assms(2)
proof (induction ixs arbitrary: first idl)
  case Nil
  show ?case by (simp add: quiet_def)
next
  case (Cons i ixs)
  obtain idl' where idl': "IDLIST_SET_IX i idl = Inr idl'" "idl_set idl'" "idl_open idl'" using idl_set_ix [OF Cons.prems] by blast
  obtain t ws where t: "elem (av_fetch av i) idl' (level + 1) = Inr (show_tree (level + 1) t, ws)" "S t"
    using init_goodE [OF assms(1) idl'(2)] by blast
  obtain trees ws' where rest: "init_elements elem av idl' level False ixs = Inr (comma_text False (map (show_tree (level + 1)) trees), ws')"
    "length trees = length ixs" "list_all S trees" using Cons.IH [OF idl'(3)] by blast
  show ?case using t rest by (intro exI [of _ "t # trees"]) (simp add: idl'(1) log_then_Inr quiet_def)
qed

lemma init_dimensions_good:
  assumes "init_good elem (type_shape st ts decl [])"
  shows "init_good (init_dimensions elem vs) (type_shape st ts decl vs)"
proof (induction vs)
  case Nil
  show ?case using assms by (simp add: init_good_def)
next
  case (Cons v vs)
  show ?case unfolding init_good_def
  proof (intro allI impI)
    fix init idl level assume idl: "idl_set idl"
    obtain av ws where av: "init_array init idl = Inr (av, ws)" using init_array_set [OF idl] by blast
    obtain trees ws' where elems: "init_elements (init_dimensions elem vs) av (IDLIST_PUSH (IDL_IX None) idl) level True [0..iv v - 1]
       = Inr (comma_text True (map (show_tree (level + 1)) trees), ws')" "length trees = length [0..iv v - 1]" "list_all (type_shape st ts decl vs) trees"
      using init_elements_good [OF Cons.IH idl_open_push [OF idl]] by blast
    have "length trees = nat (iv v)" using elems(2) by simp
    then have "type_shape st ts decl (v # vs) (Braces trees)" using elems(3) by (rule array_shape)
    then show "shows_as level (init_dimensions elem (v # vs) init idl level) (type_shape st ts decl (v # vs))"
      using av elems(1) by (auto simp: shows_as_def log_then_Inr quiet_def intro!: exI [of _ "Braces trees"])
  qed
qed

section \<open>Compounds\<close>

lemma init_declarators_good:
  assumes good: "\<And>d. d \<in> set ds \<Longrightarrow> init_good (rec_type ts (Some d) 0) (type_shape st ts (Some d) (dimensions_from (Some d) 0))"
    and idl: "idl_open idl"
  shows "\<exists>trees ws. init_declarators rec_type un hash ts idl level first ds
      = Inr ((comma_text first (map (show_tree (level + 1)) trees), first \<and> named_members ts ds = [], un \<and> named_members ts ds \<noteq> []), ws)
    \<and> list_all2 (member_shape st) (only_first un (named_members ts ds)) trees"
  using good idl
proof (induction ds arbitrary: first idl)
  case Nil
  show ?case by (simp add: quiet_def named_members_def only_first_def)
next
  case (Cons d ds)
  show ?case
  proof (cases "init_skips d")
    case True
    then show ?thesis using Cons by (simp add: named_members_def)
  next
    case False
    obtain idl' where idl': "IDLIST_SET_ID (d_identifier d) idl = Inr idl'" "idl_set idl'" "idl_open idl'"
      using idl_set_id [OF Cons.prems(2)] by blast
    obtain t ws where t: "rec_type ts (Some d) 0 (case hash of None \<Rightarrow> None | Some h \<Rightarrow> hv_fetch h (d_identifier d)) idl' (level + 1)
        = Inr (show_tree (level + 1) t, ws)" "type_shape st ts (Some d) (dimensions_from (Some d) 0) t"
      using init_goodE [OF Cons.prems(1) idl'(2)] by (metis list.set_intros(1))
    obtain trees ws' where rest: "init_declarators rec_type un hash ts idl' level False ds
      = Inr ((comma_text False (map (show_tree (level + 1)) trees), False, un \<and> named_members ts ds \<noteq> []), ws')"
      "list_all2 (member_shape st) (only_first un (named_members ts ds)) trees"
      using Cons.IH [OF _ idl'(3), of False] Cons.prems(1) by auto
    show ?thesis
    proof (cases un)
      case True
      then show ?thesis using t False
        by (intro exI [of _ "[t]"]) (simp add: idl'(1) log_then_Inr quiet_def named_members_def only_first_def named_shape)
    next
      case un: False
      then show ?thesis using t rest False
        by (intro exI [of _ "t # trees"]) (simp add: idl'(1) log_then_Inr quiet_def named_members_def only_first_def named_shape)
    qed
  qed
qed

definition struct_good :: "CState \<Rightarrow> (nat \<Rightarrow> bool) \<Rightarrow> init_struct_fun \<Rightarrow> bool" where
  "struct_good st P rec_struct \<longleftrightarrow> (\<forall>n. structs st n \<noteq> None \<and> P n \<longrightarrow> init_good (rec_struct n) (struct_shape st n))"

definition declaration_good :: "CState \<Rightarrow> init_type_fun \<Rightarrow> init_struct_fun \<Rightarrow> StructDeclaration \<Rightarrow> bool" where
  "declaration_good st rec_type rec_struct sd \<longleftrightarrow> (case sd_declarators sd of
     Some ds \<Rightarrow> (\<forall>d\<in>set ds. init_good (rec_type (sd_type sd) (Some d) 0) (type_shape st (sd_type sd) (Some d) (dimensions_from (Some d) 0)))
   | None \<Rightarrow> (\<exists>n. ts_ptr (sd_type sd) = Some n \<and> \<not> has_flag (ts_tflags (sd_type sd)) T_TYPE \<and> has_flag (ts_tflags (sd_type sd)) T_COMPOUND
       \<and> init_good (rec_struct n) (struct_shape st n)))"

lemma init_declarations_good:
  assumes "\<forall>sd\<in>set sds. declaration_good st rec_type rec_struct sd" and idl: "idl_set idl"
  shows "\<exists>trees ws. init_declarations rec_type rec_struct (FOLLOW_AND_CHECK_TSPTR fuel st) un init hash idl level first sds
      = Inr (comma_text first (map (show_tree (level + 1)) trees), ws)
    \<and> list_all2 (member_shape st) (only_first un (declared_members sds)) trees"
  using assms(1)
proof (induction sds arbitrary: first)
  case Nil
  show ?case by (simp add: quiet_def declared_members_def only_first_def)
next
  case (Cons sd sds)
  let ?ms = "case sd_declarators sd of Some ds \<Rightarrow> named_members (sd_type sd) ds | None \<Rightarrow> [(sd_type sd, None)]"
  have "\<exists>trees ws. (case sd_declarators sd of
         Some ds \<Rightarrow> init_declarators rec_type un hash (sd_type sd) (IDLIST_PUSH (IDL_ID None) idl) level first ds
       | None \<Rightarrow> log_then (log_run (FOLLOW_AND_CHECK_TSPTR fuel st (sd_type sd))) (\<lambda>n.
           log_then (rec_struct n init idl (level + 1)) (\<lambda>s. quiet (APPEND_COMMA first @ s, False, un))))
      = Inr ((comma_text first (map (show_tree (level + 1)) trees), first \<and> ?ms = [], un \<and> ?ms \<noteq> []), ws)
    \<and> list_all2 (member_shape st) (only_first un ?ms) trees"
  proof (cases "sd_declarators sd")
    case (Some ds)
    then show ?thesis using Cons.prems init_declarators_good [OF _ idl_open_push [OF idl], of ds rec_type "sd_type sd" st]
      by (simp add: declaration_good_def)
  next
    case None
    then obtain n where n: "ts_ptr (sd_type sd) = Some n" "\<not> has_flag (ts_tflags (sd_type sd)) T_TYPE" "has_flag (ts_tflags (sd_type sd)) T_COMPOUND"
       "init_good (rec_struct n) (struct_shape st n)" using Cons.prems by (auto simp: declaration_good_def)
    obtain t ws where t: "rec_struct n init idl (level + 1) = Inr (show_tree (level + 1) t, ws)" "struct_shape st n t"
      using init_goodE [OF n(4) idl] by blast
    show ?thesis using None n t unnamed_shape [OF n(1) t(2)]
      by (intro exI [of _ "[t]"]) (simp add: FOLLOW_AND_CHECK_TSPTR_def log_then_Inr quiet_def only_first_def)
  qed
  then obtain trees ws where head: "(case sd_declarators sd of
         Some ds \<Rightarrow> init_declarators rec_type un hash (sd_type sd) (IDLIST_PUSH (IDL_ID None) idl) level first ds
       | None \<Rightarrow> log_then (log_run (FOLLOW_AND_CHECK_TSPTR fuel st (sd_type sd))) (\<lambda>n.
           log_then (rec_struct n init idl (level + 1)) (\<lambda>s. quiet (APPEND_COMMA first @ s, False, un))))
      = Inr ((comma_text first (map (show_tree (level + 1)) trees), first \<and> ?ms = [], un \<and> ?ms \<noteq> []), ws)"
    "list_all2 (member_shape st) (only_first un ?ms) trees" by blast
  have members: "declared_members (sd # sds) = ?ms @ declared_members sds" by (simp add: declared_members_def)
  show ?case
  proof (cases "un \<and> ?ms \<noteq> []")
    case True
    then have "only_first un (declared_members (sd # sds)) = only_first un ?ms"
      unfolding members by (cases ?ms) (simp_all add: only_first_def)
    then show ?thesis unfolding init_declarations.simps head(1) using head(2) True
      by (intro exI [of _ trees]) (simp add: log_then_Inr quiet_def)
  next
    case False
    obtain more ws' where rest: "init_declarations rec_type rec_struct (FOLLOW_AND_CHECK_TSPTR fuel st) un init hash idl level (first \<and> ?ms = []) sds
        = Inr (comma_text (first \<and> ?ms = []) (map (show_tree (level + 1)) more), ws')"
      "list_all2 (member_shape st) (only_first un (declared_members sds)) more" using Cons.IH [of "first \<and> ?ms = []"] Cons.prems by auto
    have empty: "trees = [] \<longleftrightarrow> ?ms = []" using head(2) False by (cases ?ms) (auto simp: only_first_def split: if_splits)
    have "list_all2 (member_shape st) (only_first un (declared_members (sd # sds))) (trees @ more)"
      unfolding members using head(2) rest(2) False by (auto simp: only_first_def intro: list_all2_appendI)
    moreover have no: "(un \<and> ?ms \<noteq> []) = False" using False by blast
    ultimately show ?thesis unfolding init_declarations.simps head(1) log_then_Inr prod.case no if_False rest(1) using empty
      by (intro exI [of _ "trees @ more"]) (simp add: log_then_Inr quiet_def comma_text_append)
  qed
qed

section \<open>All types\<close>

lemma get_init_str_struct_step_good:
  assumes "structs st n = Some s" "\<forall>sd\<in>set (struct_declarations s). declaration_good st rec_type rec_struct sd"
  shows "init_good (get_init_str_struct_step rec_type rec_struct fuel st n) (struct_shape st n)"
  unfolding init_good_def
proof (intro allI impI)
  fix init idl level assume idl: "idl_set idl"
  obtain hash ws where hash: "init_hash init idl = Inr (hash, ws)" using init_hash_set [OF idl] by blast
  obtain trees ws' where t: "init_declarations rec_type rec_struct (FOLLOW_AND_CHECK_TSPTR fuel st) (has_flag (s_tflags s) T_UNION) init hash
       idl level True (struct_declarations s) = Inr (comma_text True (map (show_tree (level + 1)) trees), ws')"
    "list_all2 (member_shape st) (init_members s) trees"
    using init_declarations_good [OF assms(2) idl] unfolding init_members_def by blast
  have "struct_shape st n (Braces trees)" using assms(1) t(2) by (rule members_shape)
  then show "shows_as level (get_init_str_struct_step rec_type rec_struct fuel st n init idl level) (struct_shape st n)"
    using hash t(1) assms(1)
    by (auto simp: shows_as_def get_init_str_struct_step_def struct_at_def log_then_Inr quiet_def intro!: exI [of _ "Braces trees"])
qed

lemma and_then_same: "and_then r Inr = r"
  by (cases r) simp_all

lemma init_scalar_good:
  assumes known: "known_type st ts decl"
    and types: "\<And>t d. \<not> is_pointer decl \<Longrightarrow> has_flag (ts_tflags ts) T_TYPE \<Longrightarrow> pTypedef st ts = Inr (t, d) \<Longrightarrow>
      init_good (rec_type t (Some d) 0) (type_shape st t (Some d) (dimensions_from (Some d) 0))"
    and structs: "\<And>n. \<not> is_pointer decl \<Longrightarrow> \<not> has_flag (ts_tflags ts) T_TYPE \<Longrightarrow> has_flag (ts_tflags ts) T_COMPOUND \<Longrightarrow> ts_ptr ts = Some n \<Longrightarrow>
      init_good (rec_struct n) (struct_shape st n)"
  shows "init_good (init_scalar pl rec_type rec_struct st ts decl) (type_shape st ts decl [])"
proof -
  consider (leaf) "is_pointer decl \<or> \<not> has_flag (ts_tflags ts) T_TYPE \<and> \<not> has_flag (ts_tflags ts) T_COMPOUND"
    | (type) "\<not> is_pointer decl" "has_flag (ts_tflags ts) T_TYPE"
    | (compound) "\<not> is_pointer decl" "\<not> has_flag (ts_tflags ts) T_TYPE" "has_flag (ts_tflags ts) T_COMPOUND" by blast
  then show ?thesis
  proof cases
    case leaf
    then have "init_scalar pl rec_type rec_struct st ts decl = init_basic pl" by (intro ext) (auto simp: init_scalar_def)
    then show ?thesis using leaf init_basic_good [of "type_shape st ts decl []" pl] leaf_shape by simp
  next
    case type
    then obtain t d where t: "pTypedef st ts = Inr (t, d)" using known by (auto simp: known_type_def split: sum.splits)
    have eq: "init_scalar pl rec_type rec_struct st ts decl = rec_type t (Some d) 0"
      using type t by (intro ext) (simp add: init_scalar_def log_then_def split_beta and_then_same)
    show ?thesis unfolding eq using types [OF type t] typedef_shape [OF type t]
      unfolding init_good_def shows_as_def by blast
  next
    case compound
    then obtain n s where n: "ts_ptr ts = Some n" "structs st n = Some s"
      using known by (auto simp: known_type_def known_compound_def split: option.splits)
    have "\<exists>ws. init_scalar pl rec_type rec_struct st ts decl init idl level = and_then (rec_struct n init idl level) (\<lambda>(y, ws'). Inr (y, ws @ ws'))"
      for init idl level using compound n
      by (auto simp: init_scalar_def struct_at_def log_then_Inr quiet_def warned_def and_then_def split: sum.splits)
    then show ?thesis using structs [OF compound n(1)] compound_shape [OF compound n(1)]
      unfolding init_good_def shows_as_def by (metis (no_types, lifting) and_then_simps(2) case_prod_conv)
  qed
qed

lemma get_init_str_good:
  assumes ranked: "ranked rs rt st" and known: "known_types st"
  shows "known_type st ts decl \<Longrightarrow> 2 * type_rank rs rt ts decl < fuel \<Longrightarrow>
      init_good (get_init_str_type fuel pl st ts decl dim) (type_shape st ts decl (dimensions_from decl dim))"
    and "structs st n \<noteq> None \<Longrightarrow> 2 * rs n + 1 < fuel \<Longrightarrow> init_good (get_init_str_struct fuel pl st n) (struct_shape st n)"
proof (induction fuel arbitrary: ts decl dim n)
  case (Suc fuel)
  {
    case 1
    show ?case unfolding get_init_str_type.simps get_init_str_type_step_def
    proof (intro init_dimensions_good init_scalar_good)
      show "known_type st ts decl" using 1 by simp
    next
      fix t d assume h: "\<not> is_pointer decl" "has_flag (ts_tflags ts) T_TYPE" "pTypedef st ts = Inr (t, d)"
      then obtain n td l lst where n: "ts_ptr ts = Some n" "typedefs st n = Some td" "td_list td = Some l" "typedef_lists st l = Some lst"
        "td_decl td = Some d" "t = tl_type lst" by (auto simp: pTypedef_def split: option.splits)
      then have "type_rank rs rt t (Some d) \<le> rt n" using ranked by (fastforce simp: ranked_def)
      moreover have "type_rank rs rt ts decl = Suc (rt n)" using h n by (auto simp: type_rank_def is_pointer_def split: option.splits)
      moreover have "known_type st t (Some d)" using known h(3) by (auto simp: known_types_def)
      ultimately show "init_good (get_init_str_type fuel pl st t (Some d) 0) (type_shape st t (Some d) (dimensions_from (Some d) 0))"
        using Suc.IH(1) 1 by simp
    next
      fix n assume h: "\<not> is_pointer decl" "\<not> has_flag (ts_tflags ts) T_TYPE" "has_flag (ts_tflags ts) T_COMPOUND" "ts_ptr ts = Some n"
      then have k: "known_compound st ts" using 1 by (simp add: known_type_def)
      then have "type_rank rs rt ts decl = Suc (rs n)" using h by (auto simp: type_rank_def is_pointer_def known_compound_def split: option.splits)
      then show "init_good (get_init_str_struct fuel pl st n) (struct_shape st n)"
        using Suc.IH(2) 1 k h(4) by (simp add: known_compound_def)
    qed
  next
    case 2
    then obtain s where s: "structs st n = Some s" by auto
    have all: "list_all (declaration_rank rs rt (rs n)) (struct_declarations s)"
      using ranked s by (cases "s_declarations s") (auto simp: ranked_def struct_declarations_def)
    have "declaration_good st (get_init_str_type fuel pl st) (get_init_str_struct fuel pl st) sd" if sd: "sd \<in> set (struct_declarations s)" for sd
    proof -
      have rank: "declaration_rank rs rt (rs n) sd" using all sd by (simp add: list_all_iff)
      have kn: "known_declaration st sd" using known s sd by (auto simp: known_types_def list_all_iff)
      show ?thesis
      proof (cases "sd_declarators sd")
        case (Some ds)
        then show ?thesis using rank kn Suc.IH(1) 2
          by (fastforce simp: declaration_good_def declaration_rank_def known_declaration_def list_all_iff)
      next
        case None
        then obtain m where m: "ts_ptr (sd_type sd) = Some m" "structs st m \<noteq> None" "\<not> has_flag (ts_tflags (sd_type sd)) T_TYPE"
          "has_flag (ts_tflags (sd_type sd)) T_COMPOUND" "\<not> has_flag (ts_tflags (sd_type sd)) T_ENUM"
          using kn by (auto simp: known_declaration_def known_compound_def split: option.splits)
        then have "Suc (rs m) \<le> rs n" using rank None by (simp add: declaration_rank_def type_rank_def)
        then have "init_good (get_init_str_struct fuel pl st m) (struct_shape st m)" using Suc.IH(2) [OF m(2)] 2 by simp
        then show ?thesis using None m by (simp add: declaration_good_def)
      qed
    qed
    then show ?case unfolding get_init_str_struct.simps by (intro get_init_str_struct_step_good [OF s]) simp
  }
qed simp_all

section \<open>Property\<close>

text \<open>
  C13 The initializer of a type ends with a text, whatever data it is given, and the text has
  the shape of the type: braces with as many elements as the dimension for an array, braces with
  the members that can be initialised for a compound (one for a union, none for unnamed
  bit-fields and flexible arrays), and one value for everything else. The types may not contain
  themselves.
\<close>

theorem initializer_shape:
  assumes "ranked rs rt st" and "known_types st" and "known_type st (mi_type mi) (mi_decl mi)"
    and "2 * type_rank rs rt (mi_type mi) (mi_decl mi) < fuel"
  shows "\<exists>tree ws. get_initializer_string fuel pl st mi init name = Inr (show_tree 0 tree, ws)
    \<and> type_shape st (mi_type mi) (mi_decl mi) (dimensions_from (mi_decl mi) (mi_level mi)) tree"
proof -
  have good: "init_good (get_init_str_type fuel pl st (mi_type mi) (mi_decl mi) (mi_level mi))
      (type_shape st (mi_type mi) (mi_decl mi) (dimensions_from (mi_decl mi) (mi_level mi)))"
    using get_init_str_good(1) [OF assms(1,2,3,4)] .
  obtain idl where idl: "IDLIST_SET_ID name (IDLIST_PUSH (IDL_ID None) IDLIST_INIT) = Inr idl" "idl_set idl"
    using idl_set_id [OF idl_open_push, of IDLIST_INIT name] by (auto simp: idl_set_def IDLIST_INIT_def)
  obtain t ws where "get_init_str_type fuel pl st (mi_type mi) (mi_decl mi) (mi_level mi) init idl 0 = Inr (show_tree 0 t, ws)"
    "type_shape st (mi_type mi) (mi_decl mi) (dimensions_from (mi_decl mi) (mi_level mi)) t"
    using init_goodE [OF good idl(2)] by blast
  then show ?thesis using idl(1) by (auto simp: get_initializer_string_def log_then_Inr)
qed

text \<open>\<open>struct cell { int x; int y[2]; int : 3; }\<close>, with a value for the array.\<close>

definition cell_state :: CState where
  "cell_state = no_state\<lparr>structs := [1 \<mapsto> struct_new (Some ''cell'') 0 T_STRUCT 0 (Some
     [structdecl_new \<lparr>ts_ptr = None, ts_tflags = T_INT\<rparr> (Some [decl_new (Some ''x'') 0, array_member ''y'' 2]),
      structdecl_new \<lparr>ts_ptr = None, ts_tflags = T_INT\<rparr> (Some [(decl_new None 0)\<lparr>bitfield_flag := True\<rparr>])])]\<rparr>"

definition cell_values :: SV where
  "cell_values = HVref [(''y'', AVref [Some (newSVpv ''4''), Some (newSVpv ''5'')])]"

definition text_perl :: perl where
  "text_perl = \<lparr>SvIV = (\<lambda>_. 0), SvUV = (\<lambda>_. 0), SvNV = (\<lambda>_. 0), SvPV = (\<lambda>sv. case sv of Scalar _ _ (Some s) \<Rightarrow> s | _ \<Rightarrow> []),
     looks_like_number = (\<lambda>_. False), call_sv = (\<lambda>_ _. Inr Undef), nv_bytes = (\<lambda>_ _. []), bytes_nv = (\<lambda>_ _. 0),
     largest_allocation = 1000\<rparr>"

lemma cell_text: "get_initializer_string 3 text_perl cell_state (whole_type \<lparr>ts_ptr = Some 1, ts_tflags = T_STRUCT\<rparr> None 12 0)
    (Some cell_values) ''struct cell''
  = Inr (show_tree 0 (Braces [Leaf ''0'', Braces [Leaf ''4'', Leaf ''5'']]), [])"
  by code_simp

theorem initializer_shape_witness:
  "\<exists>tree ws. get_initializer_string 3 text_perl cell_state (whole_type \<lparr>ts_ptr = Some 1, ts_tflags = T_STRUCT\<rparr> None 12 0)
      (Some cell_values) ''struct cell'' = Inr (show_tree 0 tree, ws)
    \<and> type_shape cell_state \<lparr>ts_ptr = Some 1, ts_tflags = T_STRUCT\<rparr> None [] tree"
proof -
  let ?mi = "whole_type \<lparr>ts_ptr = Some 1, ts_tflags = T_STRUCT\<rparr> None 12 0"
  have "ranked (\<lambda>_. 0) (\<lambda>_. 0) cell_state" "known_types cell_state"
    by (auto simp: ranked_def known_types_def cell_state_def no_state_def struct_new_def structdecl_new_def array_member_def
      split_beta declaration_rank_def type_rank_def known_declaration_def known_type_def pTypedef_def struct_declarations_def has_flag_def
      split: option.splits)
  moreover have "known_type cell_state (mi_type ?mi) (mi_decl ?mi)" "2 * type_rank (\<lambda>_. 0) (\<lambda>_. 0) (mi_type ?mi) (mi_decl ?mi) < 3"
    by (simp_all add: known_type_def whole_type_def known_compound_def cell_state_def no_state_def has_flag_def is_pointer_def type_rank_def)
  ultimately show ?thesis
    using initializer_shape [of "\<lambda>_. 0" "\<lambda>_. 0" cell_state ?mi 3 text_perl "Some cell_values" "''struct cell''"]
    by (simp add: whole_type_def dimensions_from_def)
qed

end
