(* ===== verification/Type_Defs.thy ===== *)
theory Type_Defs
  imports Type_Names
begin

text \<open>
  \<^verbatim>\<open>cbc/typeinfo.c\<close>: the definitions of parsed types as Perl hashes. Types are given by their
  numbers, under which the parse information keeps the place of their definition.
\<close>

definition null_name :: SV where
  "null_name = newSVpv ''<NULL>''"

text \<open>A pointer, the name and the dimensions.\<close>

definition dimension_strings :: "Declarator \<Rightarrow> string" where
  "dimension_strings d = (if array_flag d then concat (map dimension_string (case ext_array d of None \<Rightarrow> [] | Some vs \<Rightarrow> vs)) else [])"

definition declarator_string :: "Declarator \<Rightarrow> string" where
  "declarator_string d = (if pointer_flag d then ''*'' else []) @ d_identifier d @ dimension_strings d"

definition bitfield_string :: "Declarator \<Rightarrow> string" where
  "bitfield_string d = d_identifier d @ '':'' @ decimal (bf_bits (ext_bitfield d))"

definition context_string :: "ParseData \<Rightarrow> nat option \<times> int \<Rightarrow> SV run" where
  "context_string pd = (\<lambda>(file, line). case file of None \<Rightarrow> Inl Undefined_behaviour
     | Some f \<Rightarrow> (case pi_files pd f of None \<Rightarrow> Inl Undefined_behaviour
         | Some fi \<Rightarrow> Inr (newSVpv (fi_name fi @ ''('' @ decimal line @ '')''))))"

definition get_enumerators_def :: "Enumerator list \<Rightarrow> SV" where
  "get_enumerators_def ens = HVref (fold (\<lambda>e hv. hv_store hv (en_identifier e) (newSViv (iv (en_value e)))) ens [])"

definition store_when :: "bool \<Rightarrow> string \<Rightarrow> SV \<Rightarrow> HV \<Rightarrow> HV" where
  "store_when b key sv hv = (if b then hv_store hv key sv else hv)"

definition get_enum_spec_def :: "ParseData \<Rightarrow> LayoutParam \<Rightarrow> nat \<Rightarrow> SV run" where
  "get_enum_spec_def pd lp n = and_then (enum_at (pi_types pd) (Some n)) (\<lambda>e.
     let hv = store_when (es_identifier e \<noteq> []) ''identifier'' (newSVpv (es_identifier e)) [] in
     and_then (case es_enumerators e of None \<Rightarrow> Inr hv
       | Some ens \<Rightarrow> and_then (GET_ENUM_SIZE lp e) (\<lambda>sz.
           let hv = hv_store hv ''sign'' (newSViv (if has_flag (es_tflags e) T_SIGNED then 1 else 0)) in
           let hv = hv_store hv ''size'' (newSViv sz) in
           Inr (hv_store hv ''enumerators'' (get_enumerators_def ens)))) (\<lambda>hv.
     and_then (context_string pd (enum_context pd n)) (\<lambda>c. Inr (HVref (hv_store hv ''context'' c)))))"

definition get_declarators_def :: "Declarator list \<Rightarrow> SV" where
  "get_declarators_def ds = AVref (map (\<lambda>d. Some (HVref
     (if bitfield_flag d then [(''declarator'', newSVpv (bitfield_string d))]
      else hv_store (hv_store [(''declarator'', newSVpv (declarator_string d))] ''offset'' (newSViv (d_offset d)))
        ''size'' (newSViv (d_size d))))) ds)"

text \<open>Types with a name are given by it, the others by their definition.\<close>

definition get_type_spec_def_step :: "(nat \<Rightarrow> SV run) \<Rightarrow> ParseData \<Rightarrow> LayoutParam \<Rightarrow> TypeSpec \<Rightarrow> SV run" where
  "get_type_spec_def_step rec_struct pd lp ts = (let flags = ts_tflags ts in
     if has_flag flags T_TYPE then
       (case ts_ptr ts of None \<Rightarrow> Inr null_name
        | Some t \<Rightarrow> and_then (pTypedef (pi_types pd) ts) (\<lambda>(_, d).
            Inr (if d_identifier d \<noteq> [] then newSVpv (d_identifier d) else null_name)))
     else if has_flag flags T_ENUM then
       (case ts_ptr ts of None \<Rightarrow> Inr (newSVpv ''enum <NULL>'')
        | Some n \<Rightarrow> and_then (enum_at (pi_types pd) (Some n)) (\<lambda>e.
            if es_identifier e \<noteq> [] then Inr (newSVpv (''enum '' @ es_identifier e)) else get_enum_spec_def pd lp n))
     else if has_flag flags T_COMPOUND then
       (let type = (if has_flag flags T_UNION then ''union '' else ''struct '') in
        case ts_ptr ts of None \<Rightarrow> Inr (newSVpv (type @ ''<NULL>''))
        | Some n \<Rightarrow> and_then (struct_at (pi_types pd) (Some n)) (\<lambda>s.
            if s_identifier s \<noteq> [] then Inr (newSVpv (type @ s_identifier s)) else rec_struct n))
     else Inr (case get_basic_type_spec_string None flags of None \<Rightarrow> null_name | Some s \<Rightarrow> newSVpv s))"

fun get_struct_declarations_def :: "(TypeSpec \<Rightarrow> SV run) \<Rightarrow> StructDeclaration list \<Rightarrow> SV option list run" where
  "get_struct_declarations_def rec_type [] = Inr []"
| "get_struct_declarations_def rec_type (sd # sds) = and_then (rec_type (sd_type sd)) (\<lambda>t.
     let hv = hv_store [] ''type'' t;
       hv = (case sd_declarators sd of None \<Rightarrow> hv | Some ds \<Rightarrow> hv_store hv ''declarators'' (get_declarators_def ds)) in
     and_then (get_struct_declarations_def rec_type sds) (\<lambda>av. Inr (Some (HVref hv) # av)))"

definition get_struct_spec_def_step :: "(TypeSpec \<Rightarrow> SV run) \<Rightarrow> ParseData \<Rightarrow> nat \<Rightarrow> SV run" where
  "get_struct_spec_def_step rec_type pd n = and_then (struct_at (pi_types pd) (Some n)) (\<lambda>s.
     let hv = store_when (s_identifier s \<noteq> []) ''identifier'' (newSVpv (s_identifier s)) [];
       hv = hv_store hv ''type'' (newSVpv (if has_flag (s_tflags s) T_UNION then ''union'' else ''struct'')) in
     and_then (case s_declarations s of None \<Rightarrow> Inr hv
       | Some sds \<Rightarrow>
           let hv = hv_store hv ''size'' (newSViv (s_size s)); hv = hv_store hv ''align'' (newSViv (s_align s));
             hv = hv_store hv ''pack'' (newSViv (s_pack s)) in
           and_then (get_struct_declarations_def rec_type sds) (\<lambda>av. Inr (hv_store hv ''declarations'' (AVref av)))) (\<lambda>hv.
     and_then (context_string pd (struct_context pd n)) (\<lambda>c. Inr (HVref (hv_store hv ''context'' c)))))"

fun get_type_spec_def :: "nat \<Rightarrow> ParseData \<Rightarrow> LayoutParam \<Rightarrow> TypeSpec \<Rightarrow> SV run"
and get_struct_spec_def :: "nat \<Rightarrow> ParseData \<Rightarrow> LayoutParam \<Rightarrow> nat \<Rightarrow> SV run" where
  "get_type_spec_def 0 pd lp = (\<lambda>_. Inl Out_of_fuel)"
| "get_type_spec_def (Suc fuel) pd lp = get_type_spec_def_step (get_struct_spec_def fuel pd lp) pd lp"
| "get_struct_spec_def 0 pd lp = (\<lambda>_. Inl Out_of_fuel)"
| "get_struct_spec_def (Suc fuel) pd lp = get_struct_spec_def_step (get_type_spec_def fuel pd lp) pd"

definition get_typedef_def :: "nat \<Rightarrow> ParseData \<Rightarrow> LayoutParam \<Rightarrow> nat \<Rightarrow> SV run" where
  "get_typedef_def fuel pd lp t = and_then (pTypedef (pi_types pd) \<lparr>ts_ptr = Some t, ts_tflags = T_TYPE\<rparr>) (\<lambda>(ts, d).
     and_then (get_type_spec_def fuel pd lp ts) (\<lambda>sv.
     Inr (HVref (hv_store [(''declarator'', newSVpv (declarator_string d))] ''type'' sv))))"

section \<open>Declarators read back\<close>

text \<open>The name ends at the first bracket; between brackets is a decimal number or nothing.\<close>

definition declared_dimensions :: "Declarator \<Rightarrow> int option list" where
  "declared_dimensions d = (if array_flag d then map (\<lambda>v. if has_flag (v_flags v) V_IS_UNDEF then None else Some (iv v))
     (case ext_array d of None \<Rightarrow> [] | Some vs \<Rightarrow> vs) else [])"

function read_dimensions :: "string \<Rightarrow> int option list" where
  "read_dimensions s = (case s of [] \<Rightarrow> [] | c # t \<Rightarrow>
     (let n = takeWhile (\<lambda>c. c \<noteq> CHR '']'') t in
      (if n = [] then None else Some (leading_number n)) # read_dimensions (drop (length n + 1) t)))"
  by pat_completeness auto
termination by (relation "measure length") auto

declare read_dimensions.simps [simp del]

definition read_declarator :: "string \<Rightarrow> bool \<times> string \<times> int option list" where
  "read_declarator s = (let p = (peek s = CHR ''*''); t = (if p then tl s else s) in
     (p, takeWhile word_char t, read_dimensions (dropWhile word_char t)))"

lemma decimal_chars: "c \<in> set (decimal i) \<Longrightarrow> isdigit c \<or> c = CHR ''-''"
  using decimal_nat_digits [of "nat i"] decimal_nat_digits [of "nat (- i)"] by (auto simp: decimal_def split: if_splits)

lemma decimal_nonempty: "decimal i \<noteq> []"
  using decimal_nat_nonempty by (simp add: decimal_def)

lemma read_dimension_string: "read_dimensions (dimension_string v @ s)
   = (if has_flag (v_flags v) V_IS_UNDEF then None else Some (iv v)) # read_dimensions s"
proof -
  have ne: "\<forall>c\<in>set (decimal (iv v)). c \<noteq> CHR '']''" using decimal_chars [of "CHR '']''" "iv v"] by (auto simp: isdigit_def char_nat_def)
  then have "takeWhile (\<lambda>c. c \<noteq> CHR '']'') (decimal (iv v) @ CHR '']'' # s) = decimal (iv v)" by (simp add: takeWhile_append2)
  moreover have "leading_number (decimal (iv v)) = iv v" using leading_number_decimal [of "[]"] by simp
  ultimately show ?thesis using decimal_nonempty
    by (subst read_dimensions.simps) (simp add: dimension_string_def)
qed

lemma read_dimension_strings: "read_dimensions (dimension_strings d) = declared_dimensions d"
proof -
  have "read_dimensions (concat (map dimension_string vs))
      = map (\<lambda>v. if has_flag (v_flags v) V_IS_UNDEF then None else Some (iv v)) vs" for vs
    by (induction vs) (simp_all add: read_dimension_string, simp add: read_dimensions.simps)
  moreover have "read_dimensions [] = []" by (simp add: read_dimensions.simps)
  ultimately show ?thesis by (simp add: dimension_strings_def declared_dimensions_def split: option.split)
qed

lemma read_declarator_string:
  assumes "list_all word_char (d_identifier d)"
  shows "read_declarator (declarator_string d) = (pointer_flag d, d_identifier d, declared_dimensions d)"
proof -
  have b: "\<not> word_char (CHR ''['')" "\<not> word_char (CHR ''*'')" by (simp_all add: word_char_def ctype_defs)
  have start: "dimension_strings d = [] \<or> (\<exists>s. dimension_strings d = CHR ''['' # s)"
  proof (cases "case ext_array d of None \<Rightarrow> [] | Some vs \<Rightarrow> vs")
    case (Cons v vs)
    then show ?thesis by (auto simp: dimension_strings_def dimension_string_def)
  qed (simp add: dimension_strings_def)
  then have "takeWhile word_char (d_identifier d @ dimension_strings d) = d_identifier d"
    "dropWhile word_char (d_identifier d @ dimension_strings d) = dimension_strings d"
    using assms b by (auto simp: list_all_iff takeWhile_append2 dropWhile_append2)
  moreover have "peek (d_identifier d @ dimension_strings d) \<noteq> CHR ''*''"
    using assms b start by (cases "d_identifier d") auto
  ultimately show ?thesis using read_dimension_strings [of d]
    by (auto simp: read_declarator_def declarator_string_def Let_def)
qed

section \<open>Definitions read back\<close>

datatype member_def = Plain_member bool string "int option list" int int | Bit_member string int

definition member_def_of :: "Declarator \<Rightarrow> member_def" where
  "member_def_of d = (if bitfield_flag d then Bit_member (d_identifier d) (bf_bits (ext_bitfield d))
     else Plain_member (pointer_flag d) (d_identifier d) (declared_dimensions d) (d_offset d) (d_size d))"

definition scalar_int :: "SV option \<Rightarrow> int option" where
  "scalar_int sv = (case sv of Some (Scalar (Some i) None None) \<Rightarrow> Some i | _ \<Rightarrow> None)"

definition read_member :: "SV option \<Rightarrow> member_def option" where
  "read_member sv = (case sv of Some (HVref hv) \<Rightarrow>
       (case hv_fetch hv ''declarator'' of Some (Scalar None None (Some s)) \<Rightarrow>
          (case (scalar_int (hv_fetch hv ''offset''), scalar_int (hv_fetch hv ''size'')) of
             (Some off, Some sz) \<Rightarrow> (case read_declarator s of (p, name, dims) \<Rightarrow> Some (Plain_member p name dims off sz))
           | _ \<Rightarrow> Some (Bit_member (takeWhile word_char s) (leading_number (drop 1 (dropWhile word_char s)))))
        | _ \<Rightarrow> None)
     | _ \<Rightarrow> None)"

text \<open>The members of a declaration; an unnamed one has none.\<close>

definition read_declaration :: "SV option \<Rightarrow> member_def option list option" where
  "read_declaration sv = (case sv of Some (HVref hv) \<Rightarrow>
       (case hv_fetch hv ''declarators'' of Some (AVref av) \<Rightarrow> Some (map read_member av) | _ \<Rightarrow> None)
     | _ \<Rightarrow> None)"

definition named_with_words :: "StructDeclaration \<Rightarrow> bool" where
  "named_with_words sd \<longleftrightarrow> (case sd_declarators sd of None \<Rightarrow> True | Some ds \<Rightarrow> list_all (\<lambda>d. list_all word_char (d_identifier d)) ds)"

lemma read_bitfield:
  assumes "list_all word_char name"
  shows "takeWhile word_char (name @ '':'' @ decimal i) = name \<and> leading_number (drop 1 (dropWhile word_char (name @ '':'' @ decimal i))) = i"
proof -
  have "\<not> word_char (CHR '':'')" by (simp add: word_char_def ctype_defs)
  then show ?thesis using assms leading_number_decimal [of "[]" i] by (simp add: list_all_iff takeWhile_append2 dropWhile_append2)
qed

lemma member_read_back:
  assumes "list_all word_char (d_identifier d)"
  shows "map read_member (case get_declarators_def [d] of AVref av \<Rightarrow> av | _ \<Rightarrow> []) = [Some (member_def_of d)]"
  using read_declarator_string [OF assms] read_bitfield [OF assms]
  by (simp add: get_declarators_def_def read_member_def member_def_of_def newSVpv_def newSViv_def hv_fetch_def scalar_int_def bitfield_string_def)

lemma declarators_read_back:
  assumes "list_all (\<lambda>d. list_all word_char (d_identifier d)) ds"
  shows "map read_member (case get_declarators_def ds of AVref av \<Rightarrow> av | _ \<Rightarrow> []) = map (\<lambda>d. Some (member_def_of d)) ds"
  using assms member_read_back by (induction ds) (simp_all add: get_declarators_def_def)

lemma declarations_read_back:
  assumes "list_all named_with_words sds" "get_struct_declarations_def rec_type sds = Inr av"
  shows "map read_declaration av = map (\<lambda>sd. map_option (map (\<lambda>d. Some (member_def_of d))) (sd_declarators sd)) sds"
  using assms
proof (induction sds arbitrary: av)
  case (Cons sd sds)
  obtain t av' where t: "rec_type (sd_type sd) = Inr t" "get_struct_declarations_def rec_type sds = Inr av'"
    and av: "av = Some (HVref (case sd_declarators sd of None \<Rightarrow> hv_store [] ''type'' t
       | Some ds \<Rightarrow> hv_store (hv_store [] ''type'' t) ''declarators'' (get_declarators_def ds))) # av'"
    using Cons.prems(2) by (cases "sd_declarators sd") (auto simp: and_then_Inr Let_def)
  have "read_declaration (hd av) = map_option (map (\<lambda>d. Some (member_def_of d))) (sd_declarators sd)"
  proof (cases "sd_declarators sd")
    case None
    then show ?thesis by (simp add: av read_declaration_def hv_fetch_def)
  next
    case (Some ds)
    then have "list_all (\<lambda>d. list_all word_char (d_identifier d)) ds" using Cons.prems(1) by (simp add: named_with_words_def)
    from declarators_read_back [OF this] Some show ?thesis
      by (simp add: av Type_Defs.read_declaration_def hv_fetch_def get_declarators_def_def)
  qed
  then show ?case using Cons.IH [OF _ t(2)] Cons.prems(1) by (simp add: av)
qed simp

section \<open>Definitions that can be given\<close>

text \<open>
  What a definition mentions exists, with the file it was found in; compounds without a name do not
  contain themselves.
\<close>

definition context_ok :: "ParseData \<Rightarrow> nat option \<times> int \<Rightarrow> bool" where
  "context_ok pd c \<longleftrightarrow> (case fst c of None \<Rightarrow> False | Some f \<Rightarrow> pi_files pd f \<noteq> None)"

definition enum_def_ok :: "ParseData \<Rightarrow> LayoutParam \<Rightarrow> nat \<Rightarrow> bool" where
  "enum_def_ok pd lp n \<longleftrightarrow> (case enums (pi_types pd) n of None \<Rightarrow> False
     | Some e \<Rightarrow> context_ok pd (enum_context pd n) \<and> (case GET_ENUM_SIZE lp e of Inl _ \<Rightarrow> es_enumerators e = None | Inr _ \<Rightarrow> True))"

definition type_def_ok :: "(nat \<Rightarrow> nat) \<Rightarrow> ParseData \<Rightarrow> LayoutParam \<Rightarrow> nat \<Rightarrow> TypeSpec \<Rightarrow> bool" where
  "type_def_ok rs pd lp k ts \<longleftrightarrow> (case ts_ptr ts of None \<Rightarrow> True
     | Some n \<Rightarrow>
         if has_flag (ts_tflags ts) T_TYPE then (case pTypedef (pi_types pd) ts of Inl _ \<Rightarrow> False | Inr _ \<Rightarrow> True)
         else if has_flag (ts_tflags ts) T_ENUM then enum_def_ok pd lp n
         else has_flag (ts_tflags ts) T_COMPOUND \<longrightarrow>
           (case structs (pi_types pd) n of None \<Rightarrow> False | Some s \<Rightarrow> s_identifier s = [] \<longrightarrow> rs n < k))"

definition defs_ok :: "(nat \<Rightarrow> nat) \<Rightarrow> ParseData \<Rightarrow> LayoutParam \<Rightarrow> bool" where
  "defs_ok rs pd lp \<longleftrightarrow> (\<forall>n s. structs (pi_types pd) n = Some s \<longrightarrow> context_ok pd (struct_context pd n)
     \<and> list_all (\<lambda>sd. type_def_ok rs pd lp (rs n) (sd_type sd)) (struct_declarations s))"

lemma context_string_ok: "context_ok pd c \<Longrightarrow> \<exists>sv. context_string pd c = Inr sv"
  by (cases c) (auto simp: context_ok_def context_string_def split: option.splits)

lemma enum_def_exists: "enum_def_ok pd lp n \<Longrightarrow> \<exists>sv. get_enum_spec_def pd lp n = Inr sv"
  using context_string_ok [of pd "enum_context pd n"]
  by (auto simp: enum_def_ok_def get_enum_spec_def_def enum_at_def Let_def split: option.splits sum.splits)

lemma struct_declarations_exist:
  "(\<And>sd. sd \<in> set sds \<Longrightarrow> \<exists>sv. rec_type (sd_type sd) = Inr sv) \<Longrightarrow> \<exists>av. get_struct_declarations_def rec_type sds = Inr av"
proof (induction sds)
  case (Cons sd sds)
  then show ?case using Cons.prems [of sd] by (fastforce simp: Let_def)
qed simp

lemma struct_def_step_exists:
  assumes "structs (pi_types pd) n = Some s" "context_ok pd (struct_context pd n)"
    "\<And>sd. sd \<in> set (struct_declarations s) \<Longrightarrow> \<exists>sv. rec_type (sd_type sd) = Inr sv"
  shows "\<exists>hv. get_struct_spec_def_step rec_type pd n = Inr (HVref hv)"
  using assms(1) context_string_ok [OF assms(2)] struct_declarations_exist [of "struct_declarations s" rec_type] assms(3)
  by (auto simp: get_struct_spec_def_step_def struct_at_def struct_declarations_def Let_def split: option.splits)

lemma type_def_step_exists:
  assumes ok: "type_def_ok rs pd lp k ts" and rec: "\<And>n. structs (pi_types pd) n \<noteq> None \<Longrightarrow> rs n < k \<Longrightarrow> \<exists>sv. rec_struct n = Inr sv"
  shows "\<exists>sv. get_type_spec_def_step rec_struct pd lp ts = Inr sv"
proof (cases "ts_ptr ts")
  case None
  then show ?thesis by (simp add: get_type_spec_def_step_def Let_def)
next
  case (Some n)
  then show ?thesis using ok rec [of n] enum_def_exists [of pd lp n]
    by (auto simp: get_type_spec_def_step_def type_def_ok_def Let_def struct_at_def enum_at_def enum_def_ok_def
        split: option.splits sum.splits if_splits)
qed

lemma struct_def_exists:
  assumes ok: "defs_ok rs pd lp"
  shows "structs (pi_types pd) n \<noteq> None \<Longrightarrow> 2 * rs n + 1 < fuel \<Longrightarrow> \<exists>hv. get_struct_spec_def fuel pd lp n = Inr (HVref hv)"
proof (induction fuel arbitrary: n rule: less_induct)
  case (less fuel)
  have "fuel = Suc (Suc (fuel - 2)) \<and> 2 * rs n \<le> fuel - 2" using less.prems(2) by arith
  then obtain k where k: "fuel = Suc (Suc k)" "2 * rs n \<le> k" by blast
  obtain s where s: "structs (pi_types pd) n = Some s" using less.prems(1) by auto
  have "context_ok pd (struct_context pd n)" and types: "sd \<in> set (struct_declarations s) \<Longrightarrow> type_def_ok rs pd lp (rs n) (sd_type sd)" for sd
    using ok s by (auto simp: defs_ok_def list_all_iff)
  moreover have "\<exists>sv. get_type_spec_def (Suc k) pd lp (sd_type sd) = Inr sv" if "sd \<in> set (struct_declarations s)" for sd
    unfolding get_type_spec_def.simps
  proof (rule type_def_step_exists [OF types [OF that]])
    show "\<exists>sv. get_struct_spec_def k pd lp m = Inr sv" if "structs (pi_types pd) m \<noteq> None" "rs m < rs n" for m
      using less.IH [of k m] that k by auto
  qed
  ultimately show ?case using struct_def_step_exists [OF s] unfolding k(1) get_struct_spec_def.simps by blast
qed

lemma struct_def_reads:
  assumes s: "structs (pi_types pd) n = Some s" "s_declarations s = Some sds" "list_all named_with_words sds"
    and run: "get_struct_spec_def_step rec_type pd n = Inr (HVref hv)"
  shows "hv_fetch hv ''size'' = Some (newSViv (s_size s)) \<and> hv_fetch hv ''align'' = Some (newSViv (s_align s))
     \<and> hv_fetch hv ''pack'' = Some (newSViv (s_pack s))
     \<and> hv_fetch hv ''type'' = Some (newSVpv (if has_flag (s_tflags s) T_UNION then ''union'' else ''struct''))
     \<and> (\<exists>av. hv_fetch hv ''declarations'' = Some (AVref av)
          \<and> map read_declaration av = map (\<lambda>sd. map_option (map (\<lambda>d. Some (member_def_of d))) (sd_declarators sd)) sds)"
proof -
  obtain av c where av: "get_struct_declarations_def rec_type sds = Inr av"
    and hv: "hv = hv_store (hv_store (hv_store (hv_store (hv_store (hv_store (store_when (s_identifier s \<noteq> []) ''identifier'' (newSVpv (s_identifier s)) [])
       ''type'' (newSVpv (if has_flag (s_tflags s) T_UNION then ''union'' else ''struct''))) ''size'' (newSViv (s_size s)))
       ''align'' (newSViv (s_align s))) ''pack'' (newSViv (s_pack s))) ''declarations'' (AVref av)) ''context'' c"
    using run s by (auto simp: get_struct_spec_def_step_def struct_at_def and_then_Inr Let_def)
  show ?thesis using declarations_read_back [OF s(3) av] by (simp add: hv hv_fetch_store)
qed

text \<open>
  C17 The definition of a compound can always be given, and nothing of its layout is lost in
  it: size, alignment and packing are in the hash, and the members read back from it are those of
  the compound, in order, with their pointers, names, dimensions, offsets and sizes, or the widths
  of bit-fields.
\<close>

theorem definition_roundtrip:
  assumes "defs_ok rs pd lp" and "2 * rs n + 1 < fuel"
    and "structs (pi_types pd) n = Some s" and "s_declarations s = Some sds" and "list_all named_with_words sds"
  shows "\<exists>hv av. get_struct_spec_def fuel pd lp n = Inr (HVref hv)
     \<and> hv_fetch hv ''size'' = Some (newSViv (s_size s)) \<and> hv_fetch hv ''align'' = Some (newSViv (s_align s))
     \<and> hv_fetch hv ''pack'' = Some (newSViv (s_pack s))
     \<and> hv_fetch hv ''declarations'' = Some (AVref av)
     \<and> map read_declaration av = map (\<lambda>sd. map_option (map (\<lambda>d. Some (member_def_of d))) (sd_declarators sd)) sds"
proof -
  obtain hv where hv: "get_struct_spec_def fuel pd lp n = Inr (HVref hv)" using struct_def_exists [OF assms(1)] assms(2,3) by blast
  then obtain k where "get_struct_spec_def_step (get_type_spec_def k pd lp) pd n = Inr (HVref hv)" by (cases fuel) auto
  from struct_def_reads [OF assms(3,4,5) this] hv show ?thesis by blast
qed

text \<open>\<open>struct node { struct node *next; enum color c : 2; }\<close>, defined in line 2 of a file.\<close>

definition defined_struct :: Struct where
  "defined_struct = \<lparr>s_tflags = T_STRUCT, s_refcount = 0, s_align = 8, s_pack = 0, s_size = 16, s_declarations = Some
     [structdecl_new \<lparr>ts_ptr = Some 1, ts_tflags = T_STRUCT\<rparr> (Some [(decl_new (Some ''next'') 0)\<lparr>pointer_flag := True, d_offset := 0, d_size := 8\<rparr>]),
      structdecl_new \<lparr>ts_ptr = None, ts_tflags = T_INT\<rparr>
        (Some [(decl_new (Some ''c'') 0)\<lparr>bitfield_flag := True, ext_bitfield := \<lparr>bf_size = 4, bf_bits = 2, bf_pos = 0\<rparr>\<rparr>])],
     s_tags = [], s_id_len = 4, s_identifier = ''node''\<rparr>"

definition defined_data :: ParseData where
  "defined_data = (let empty = \<lparr>ht_count = 0, ht_size = 1, ht_flags = 0, ht_bmask = 1, ht_root = [[], []]\<rparr> in
     \<lparr>pi_types = no_state\<lparr>structs := [1 \<mapsto> defined_struct]\<rparr>, typedefs_of = (\<lambda>_. []), pi_files = [3 \<mapsto> fileinfo_new None (Some ''a.c'') 0],
      enum_context = (\<lambda>_. (None, 0)), struct_context = (\<lambda>_. (Some 3, 2)), pi_enums = [], pi_structs = [1], pi_typedef_lists = [],
      pi_htEnumerators = \<lparr>ht_count = 0, ht_size = 1, ht_flags = 0, ht_bmask = 1, ht_root = [[], []]\<rparr>,
      pi_htEnums = empty, pi_htStructs = empty, pi_htTypedefs = empty, pi_htFiles = empty,
      pi_htPredefined = \<lparr>ht_count = 0, ht_size = 1, ht_flags = 0, ht_bmask = 1, ht_root = [[], []]\<rparr>, errorStack = Some []\<rparr>)"

lemma defined_data_ok: "defs_ok (\<lambda>_. 0) defined_data lp"
  by (auto simp: Let_def defs_ok_def defined_data_def no_state_def defined_struct_def context_ok_def struct_declarations_def
      structdecl_new_def type_def_ok_def has_flag_def split: if_splits)

theorem definition_roundtrip_witness:
  "\<forall>lp. \<exists>hv av. get_struct_spec_def 2 defined_data lp 1 = Inr (HVref hv)
     \<and> hv_fetch hv ''size'' = Some (newSViv 16) \<and> hv_fetch hv ''align'' = Some (newSViv 8) \<and> hv_fetch hv ''pack'' = Some (newSViv 0)
     \<and> hv_fetch hv ''declarations'' = Some (AVref av)
     \<and> map read_declaration av = [Some [Some (Plain_member True ''next'' [] 0 8)], Some [Some (Bit_member ''c'' 2)]]"
proof
  fix lp
  let ?sds = "the (s_declarations defined_struct)"
  have sds: "s_declarations defined_struct = Some ?sds" by (simp add: defined_struct_def)
  have words: "list_all named_with_words ?sds" by code_simp
  have members: "map (\<lambda>sd. map_option (map (\<lambda>d. Some (member_def_of d))) (sd_declarators sd)) ?sds
      = [Some [Some (Plain_member True ''next'' [] 0 8)], Some [Some (Bit_member ''c'' 2)]]" by code_simp
  have "structs (pi_types defined_data) 1 = Some defined_struct" by (simp add: defined_data_def Let_def)
  from definition_roundtrip [OF defined_data_ok _ this sds words, of 2 lp, unfolded members] show "\<exists>hv av. get_struct_spec_def 2 defined_data lp 1 = Inr (HVref hv)
     \<and> hv_fetch hv ''size'' = Some (newSViv 16) \<and> hv_fetch hv ''align'' = Some (newSViv 8) \<and> hv_fetch hv ''pack'' = Some (newSViv 0)
     \<and> hv_fetch hv ''declarations'' = Some (AVref av)
     \<and> map read_declaration av = [Some [Some (Plain_member True ''next'' [] 0 8)], Some [Some (Bit_member ''c'' 2)]]"
    by (simp add: defined_struct_def)
qed

end
