(* ===== verification/Sourcify.thy ===== *)
theory Sourcify
  imports Type_Defs Init_String
begin

text \<open>
  \<^verbatim>\<open>cbc/sourcify.c\<close>: the parsed types as C source. Two texts grow side by side, \<open>str\<close> with what is
  complete and \<open>s\<close> with the definition being written; a flag on enums and compounds marks those
  that have been written. The macros come from the preprocessor and are a parameter.
\<close>

section \<open>State\<close>

abbreviation T_ALREADY_DUMPED :: u_32 where "T_ALREADY_DUMPED \<equiv> 0x00100000"
abbreviation F_NEWLINE :: u_32 where "F_NEWLINE \<equiv> 0x00000001"
abbreviation F_KEYWORD :: u_32 where "F_KEYWORD \<equiv> 0x00000002"
abbreviation F_DONT_EXPAND :: u_32 where "F_DONT_EXPAND \<equiv> 0x00000004"
abbreviation F_PRAGMA_PACK_POP :: u_32 where "F_PRAGMA_PACK_POP \<equiv> 0x00000008"

record SourcifyConfig =
  sc_context :: bool
  sc_defines :: bool

record SourcifyState =
  ss_flags :: u_32
  ss_pack :: int

record Source =
  so_types :: CState
  so_str :: string
  so_s :: string
  so_ss :: SourcifyState

type_synonym writes = "Source \<Rightarrow> Source run"

definition newline :: string where
  "newline = [CHR 0x0A]"

definition cat :: "string \<Rightarrow> Source \<Rightarrow> Source" where
  "cat t x = x\<lparr>so_s := so_s x @ t\<rparr>"

definition set_flag :: "u_32 \<Rightarrow> Source \<Rightarrow> Source" where
  "set_flag f x = x\<lparr>so_ss := (so_ss x)\<lparr>ss_flags := ss_flags (so_ss x) OR f\<rparr>\<rparr>"

definition clear_flag :: "u_32 \<Rightarrow> Source \<Rightarrow> Source" where
  "clear_flag f x = x\<lparr>so_ss := (so_ss x)\<lparr>ss_flags := ss_flags (so_ss x) AND NOT f\<rparr>\<rparr>"

definition flag_is_set :: "u_32 \<Rightarrow> Source \<Rightarrow> bool" where
  "flag_is_set f x \<longleftrightarrow> has_flag (ss_flags (so_ss x)) f"

definition mark_enum :: "nat \<Rightarrow> CState \<Rightarrow> CState" where
  "mark_enum n st = st\<lparr>enums := (enums st)(n := map_option (\<lambda>e. e\<lparr>es_tflags := es_tflags e OR T_ALREADY_DUMPED\<rparr>) (enums st n))\<rparr>"

definition mark_struct :: "nat \<Rightarrow> CState \<Rightarrow> CState" where
  "mark_struct n st = st\<lparr>structs := (structs st)(n := map_option (\<lambda>s. s\<lparr>s_tflags := s_tflags s OR T_ALREADY_DUMPED\<rparr>) (structs st n))\<rparr>"

definition unmark_enum :: "nat \<Rightarrow> CState \<Rightarrow> CState" where
  "unmark_enum n st = st\<lparr>enums := (enums st)(n := map_option (\<lambda>e. e\<lparr>es_tflags := es_tflags e AND NOT T_ALREADY_DUMPED\<rparr>) (enums st n))\<rparr>"

definition unmark_struct :: "nat \<Rightarrow> CState \<Rightarrow> CState" where
  "unmark_struct n st = st\<lparr>structs := (structs st)(n := map_option (\<lambda>s. s\<lparr>s_tflags := s_tflags s AND NOT T_ALREADY_DUMPED\<rparr>) (structs st n))\<rparr>"

definition on_types :: "(CState \<Rightarrow> CState) \<Rightarrow> Source \<Rightarrow> Source" where
  "on_types f x = x\<lparr>so_types := f (so_types x)\<rparr>"

section \<open>Pieces\<close>

definition CHECK_SET_KEYWORD :: "nat \<Rightarrow> Source \<Rightarrow> Source" where
  "CHECK_SET_KEYWORD level x = set_flag F_KEYWORD (clear_flag F_NEWLINE
     (cat (if flag_is_set F_KEYWORD x then '' '' else INDENT level) x))"

definition start_line :: "Source \<Rightarrow> Source" where
  "start_line x = (if flag_is_set F_NEWLINE x then x else set_flag F_NEWLINE (clear_flag F_KEYWORD (cat newline x)))"

definition line_directive :: "SourcifyConfig \<Rightarrow> ParseData \<Rightarrow> nat option \<times> int \<Rightarrow> writes" where
  "line_directive sc pd = (\<lambda>(file, line) x. if \<not> sc_context sc then Inr x
     else (case file of None \<Rightarrow> Inl Undefined_behaviour
       | Some f \<Rightarrow> (case pi_files pd f of None \<Rightarrow> Inl Undefined_behaviour
           | Some fi \<Rightarrow> Inr (cat (''#line '' @ decimal line @ '' '' @ [CHR 0x22] @ fi_name fi @ [CHR 0x22] @ newline) (start_line x)))))"

definition before_keyword :: "nat \<Rightarrow> Source \<Rightarrow> Source" where
  "before_keyword level x = clear_flag (F_NEWLINE OR F_KEYWORD) (cat (if flag_is_set F_KEYWORD x then '' '' else INDENT level) x)"

definition after_blank :: "string \<Rightarrow> string" where
  "after_blank ident = (if ident = [] then [] else CHR '' '' # ident)"

section \<open>Enums\<close>

text \<open>An enumerator has a number when it does not follow from the last one; the sum does not overflow.\<close>

fun enumerator_lines :: "nat \<Rightarrow> int option \<Rightarrow> Enumerator list \<Rightarrow> string" where
  "enumerator_lines level last_val [] = []"
| "enumerator_lines level last_val (e # es) = (let v = iv (en_value e) in
     (if last_val = None then [] else '','') @ newline @ INDENT level @ [CHR 0x09] @ en_identifier e
     @ (if v = (case last_val of None \<Rightarrow> 0 | Some l \<Rightarrow> l + 1) then [] else '' = '' @ decimal v)
     @ enumerator_lines level (Some v) es)"

definition add_enum_spec_string_rec :: "SourcifyConfig \<Rightarrow> ParseData \<Rightarrow> nat \<Rightarrow> nat \<Rightarrow> writes" where
  "add_enum_spec_string_rec sc pd n level x =
     and_then (enum_at (so_types x) (Some n)) (\<lambda>e.
     and_then (line_directive sc pd (enum_context pd n) (on_types (mark_enum n) x)) (\<lambda>x.
     Inr (cat (''enum'' @ after_blank (es_identifier e)
         @ (case es_enumerators e of None \<Rightarrow> []
            | Some es \<Rightarrow> newline @ INDENT level @ ''{'' @ enumerator_lines level None es @ newline @ INDENT level @ ''}''))
       (before_keyword level x))))"

text \<open>A definition of its own starts with an empty text and is added to what is complete.\<close>

definition on_its_own :: "writes \<Rightarrow> writes" where
  "on_its_own f x = and_then (f (x\<lparr>so_s := [], so_ss := \<lparr>ss_flags = 0, ss_pack = 0\<rparr>\<rparr>)) (\<lambda>y.
     Inr (y\<lparr>so_str := so_str y @ so_s y @ '';'' @ newline
         @ (if flag_is_set F_PRAGMA_PACK_POP y then ''#pragma pack(pop)'' @ newline else []),
       so_s := so_s x, so_ss := so_ss x\<rparr>))"

definition add_enum_spec_string :: "SourcifyConfig \<Rightarrow> ParseData \<Rightarrow> nat \<Rightarrow> writes" where
  "add_enum_spec_string sc pd n = on_its_own (add_enum_spec_string_rec sc pd n 0)"

section \<open>Types\<close>

type_synonym write_struct = "nat \<Rightarrow> nat \<Rightarrow> writes"

definition is_dumped :: "u_32 \<Rightarrow> bool" where
  "is_dumped tflags \<longleftrightarrow> has_flag tflags T_ALREADY_DUMPED"

definition add_type_spec_string_rec ::
  "write_struct \<Rightarrow> SourcifyConfig \<Rightarrow> ParseData \<Rightarrow> TypeSpec \<Rightarrow> nat \<Rightarrow> writes" where
  "add_type_spec_string_rec rec_struct sc pd ts level x = (let flags = ts_tflags ts; st = so_types x in
     if has_flag flags T_TYPE then
       (case ts_ptr ts of None \<Rightarrow> Inr x
        | Some t \<Rightarrow> and_then (pTypedef st ts) (\<lambda>(_, d).
            Inr (if d_identifier d \<noteq> [] then cat (d_identifier d) (CHECK_SET_KEYWORD level x) else x)))
     else if has_flag flags T_ENUM then
       (case ts_ptr ts of None \<Rightarrow> Inr x
        | Some n \<Rightarrow> and_then (enum_at st (Some n)) (\<lambda>e.
            if es_identifier e \<noteq> [] \<and> (is_dumped (es_tflags e) \<or> flag_is_set F_DONT_EXPAND x)
            then Inr (cat (''enum '' @ es_identifier e) (CHECK_SET_KEYWORD level x))
            else add_enum_spec_string_rec sc pd n level x))
     else if has_flag flags T_COMPOUND then
       (case ts_ptr ts of None \<Rightarrow> Inr x
        | Some n \<Rightarrow> and_then (struct_at st (Some n)) (\<lambda>s.
            if s_identifier s \<noteq> [] \<and> (is_dumped (s_tflags s) \<or> flag_is_set F_DONT_EXPAND x)
            then Inr (cat ((if has_flag flags T_UNION then ''union '' else ''struct '') @ s_identifier s) (CHECK_SET_KEYWORD level x))
            else rec_struct n level x))
     else (let x = CHECK_SET_KEYWORD level x in
       case get_basic_type_spec_string (Some (so_s x)) flags of None \<Rightarrow> Inr x | Some t \<Rightarrow> Inr (x\<lparr>so_s := t\<rparr>)))"

definition add_struct_spec_string_with :: "write_struct \<Rightarrow> nat \<Rightarrow> writes" where
  "add_struct_spec_string_with rec_struct n = on_its_own (rec_struct n 0)"

text \<open>The type behind a name, unless there is a pointer on the way.\<close>

fun dumped_type :: "nat \<Rightarrow> CState \<Rightarrow> TypeSpec \<Rightarrow> TypeSpec option run" where
  "dumped_type 0 st ts = Inl Out_of_fuel"
| "dumped_type (Suc fuel) st ts = and_then (pTypedef st ts) (\<lambda>(t, d).
     if pointer_flag d then Inr None
     else if has_flag (ts_tflags t) T_TYPE then dumped_type fuel st t else Inr (Some t))"

definition check_define_type :: "write_struct \<Rightarrow> nat \<Rightarrow> SourcifyConfig \<Rightarrow> ParseData \<Rightarrow> TypeSpec \<Rightarrow> writes" where
  "check_define_type rec_struct depth sc pd ts x = (let st = so_types x in
     and_then (if has_flag (ts_tflags ts) T_TYPE then dumped_type depth st ts else Inr (Some ts)) (\<lambda>r. case r of
       None \<Rightarrow> Inr x
     | Some ts \<Rightarrow>
         if has_flag (ts_tflags ts) T_ENUM then
           (case ts_ptr ts of None \<Rightarrow> Inr x | Some n \<Rightarrow> and_then (enum_at st (Some n)) (\<lambda>e.
              if is_dumped (es_tflags e) then Inr x else add_enum_spec_string sc pd n x))
         else if has_flag (ts_tflags ts) T_COMPOUND then
           (case ts_ptr ts of None \<Rightarrow> Inr x | Some n \<Rightarrow> and_then (struct_at st (Some n)) (\<lambda>s.
              if is_dumped (s_tflags s) then Inr x else add_struct_spec_string_with rec_struct n x))
         else Inr x))"

section \<open>Compounds\<close>

fun join_declarators :: "string list \<Rightarrow> string" where
  "join_declarators [] = []"
| "join_declarators (s # ss) = s @ concat (map (\<lambda>t. '', '' @ t) ss)"

definition member_text :: "Declarator \<Rightarrow> string" where
  "member_text d = (if bitfield_flag d then bitfield_string d else declarator_string d)"

definition needs_definition :: "StructDeclaration \<Rightarrow> bool" where
  "needs_definition sd \<longleftrightarrow> (case sd_declarators sd of None \<Rightarrow> False | Some ds \<Rightarrow> list_ex (\<lambda>d. \<not> pointer_flag d) ds)"

definition add_declaration :: "write_struct \<Rightarrow> nat \<Rightarrow> SourcifyConfig \<Rightarrow> ParseData \<Rightarrow> nat \<Rightarrow> int \<Rightarrow> StructDeclaration \<Rightarrow> writes" where
  "add_declaration rec_struct depth sc pd level pack sd x =
     and_then (add_type_spec_string_rec rec_struct sc pd (sd_type sd) (level + 1)
       (x\<lparr>so_ss := \<lparr>ss_flags = (if needs_definition sd then F_NEWLINE else F_NEWLINE OR F_DONT_EXPAND), ss_pack = pack\<rparr>\<rparr>)) (\<lambda>x.
     let x = clear_flag F_DONT_EXPAND x;
       x = cat ((if flag_is_set F_NEWLINE x then add_indent (level + 1) else if sd_declarators sd \<noteq> None then '' '' else [])
         @ join_declarators (case sd_declarators sd of None \<Rightarrow> [] | Some ds \<Rightarrow> map member_text ds) @ '';'' @ newline
         @ (if flag_is_set F_PRAGMA_PACK_POP x then ''#pragma pack(pop)'' @ newline else [])) x in
     if needs_definition sd then check_define_type rec_struct depth sc pd (sd_type sd) x else Inr x)"

fun add_declarations :: "(StructDeclaration \<Rightarrow> writes) \<Rightarrow> StructDeclaration list \<Rightarrow> writes" where
  "add_declarations add [] x = Inr x"
| "add_declarations add (sd # sds) x = and_then (add sd x) (add_declarations add sds)"

definition add_struct_spec_step :: "write_struct \<Rightarrow> nat \<Rightarrow> SourcifyConfig \<Rightarrow> ParseData \<Rightarrow> write_struct" where
  "add_struct_spec_step rec_struct depth sc pd n level x =
     and_then (struct_at (so_types x) (Some n)) (\<lambda>s.
     let x = on_types (mark_struct n) x;
       pushed = (s_declarations s \<noteq> None \<and> s_pack s \<noteq> 0 \<and> s_pack s \<noteq> ss_pack (so_ss x));
       x = (if pushed then cat (''#pragma pack(push, '' @ decimal (s_pack s) @ '')'' @ newline) (start_line x) else x) in
     and_then (line_directive sc pd (struct_context pd n) x) (\<lambda>x.
     let x = cat ((if has_flag (s_tflags s) T_STRUCT then ''struct'' else ''union'') @ after_blank (s_identifier s)) (before_keyword level x) in
     and_then (case s_declarations s of None \<Rightarrow> Inr x
       | Some sds \<Rightarrow> and_then (add_declarations (add_declaration rec_struct depth sc pd level (if pushed then s_pack s else 0)) sds
             (cat (newline @ INDENT level @ ''{'' @ newline) x)) (\<lambda>y.
           Inr (cat (INDENT level @ ''}'') (y\<lparr>so_ss := so_ss x\<rparr>)))) (\<lambda>x.
     Inr (if pushed then set_flag F_PRAGMA_PACK_POP x else x))))"

text \<open>\<open>depth\<close> bounds the chains of type names.\<close>

fun add_struct_spec_string_rec :: "nat \<Rightarrow> nat \<Rightarrow> SourcifyConfig \<Rightarrow> ParseData \<Rightarrow> write_struct" where
  "add_struct_spec_string_rec 0 depth sc pd = (\<lambda>_ _ _. Inl Out_of_fuel)"
| "add_struct_spec_string_rec (Suc fuel) depth sc pd =
     add_struct_spec_step (add_struct_spec_string_rec fuel depth sc pd) depth sc pd"

definition add_struct_spec_string :: "nat \<Rightarrow> nat \<Rightarrow> SourcifyConfig \<Rightarrow> ParseData \<Rightarrow> nat \<Rightarrow> writes" where
  "add_struct_spec_string fuel depth sc pd = add_struct_spec_string_with (add_struct_spec_string_rec fuel depth sc pd)"

section \<open>Typedefs\<close>

definition typedef_declarator :: "CState \<Rightarrow> nat \<Rightarrow> Declarator run" where
  "typedef_declarator st t = (case typedefs st t of None \<Rightarrow> Inl Undefined_behaviour
     | Some td \<Rightarrow> (case td_decl td of None \<Rightarrow> Inl Undefined_behaviour | Some d \<Rightarrow> Inr d))"

definition add_typedef_list_decl_string :: "CState \<Rightarrow> ParseData \<Rightarrow> nat \<Rightarrow> string run" where
  "add_typedef_list_decl_string st pd l =
     and_then (run_map (typedef_declarator st) (typedefs_of pd l)) (\<lambda>ds. Inr (join_declarators (map declarator_string ds)))"

definition typedef_list_at :: "CState \<Rightarrow> nat \<Rightarrow> TypedefList run" where
  "typedef_list_at st l = (case typedef_lists st l of None \<Rightarrow> Inl Undefined_behaviour | Some tdl \<Rightarrow> Inr tdl)"

definition add_typedef_list_spec_string :: "nat \<Rightarrow> nat \<Rightarrow> SourcifyConfig \<Rightarrow> ParseData \<Rightarrow> nat \<Rightarrow> writes" where
  "add_typedef_list_spec_string fuel depth sc pd l x = and_then (typedef_list_at (so_types x) l) (\<lambda>tdl.
     and_then (add_type_spec_string_rec (add_struct_spec_string_rec fuel depth sc pd) sc pd (tl_type tdl) 0
       (x\<lparr>so_s := ''typedef'', so_ss := \<lparr>ss_flags = F_KEYWORD, ss_pack = 0\<rparr>\<rparr>)) (\<lambda>y.
     and_then (add_typedef_list_decl_string (so_types y) pd l) (\<lambda>decls.
     Inr (y\<lparr>so_str := so_str y @ so_s y @ (if flag_is_set F_NEWLINE y then [] else '' '') @ decls @ '';'' @ newline
         @ (if flag_is_set F_PRAGMA_PACK_POP y then ''#pragma pack(pop)'' @ newline else []),
       so_s := so_s x, so_ss := so_ss x\<rparr>))))"

section \<open>Everything\<close>

text \<open>The first entry of a part comes after the title of the part.\<close>

definition with_title :: "string \<Rightarrow> bool \<Rightarrow> Source \<Rightarrow> Source" where
  "with_title title written_title x = (if written_title then x else x\<lparr>so_str := so_str x @ title\<rparr>)"

fun part :: "string \<Rightarrow> ('x \<Rightarrow> CState \<Rightarrow> bool run) \<Rightarrow> ('x \<Rightarrow> writes) \<Rightarrow> ('x \<Rightarrow> writes) \<Rightarrow> bool \<Rightarrow> 'x list \<Rightarrow> writes" where
  "part title wanted entry finish titled [] x = Inr x"
| "part title wanted entry finish titled (n # ns) x = and_then (wanted n (so_types x)) (\<lambda>b.
     and_then (if b then entry n (with_title title titled x) else Inr x) (\<lambda>x.
     and_then (finish n x) (part title wanted entry finish (titled \<or> b) ns)))"

definition then_newline :: "writes \<Rightarrow> writes" where
  "then_newline f x = and_then (f x) (\<lambda>x. Inr (x\<lparr>so_str := so_str x @ newline\<rparr>))"

text \<open>What a typedef of a named enum or compound needs before everything else.\<close>

definition predeclared :: "CState \<Rightarrow> TypeSpec \<Rightarrow> (string \<times> string) option run" where
  "predeclared st ts = (let flags = ts_tflags ts in
     if has_flag flags T_ENUM then (case ts_ptr ts of None \<Rightarrow> Inr None
       | Some n \<Rightarrow> and_then (enum_at st (Some n)) (\<lambda>e. Inr (if es_identifier e \<noteq> [] then Some (''enum'', es_identifier e) else None)))
     else if has_flag flags T_COMPOUND then (case ts_ptr ts of None \<Rightarrow> Inr None
       | Some n \<Rightarrow> and_then (struct_at st (Some n)) (\<lambda>s. Inr (if s_identifier s \<noteq> []
           then Some (if has_flag (s_tflags s) T_STRUCT then ''struct'' else ''union'', s_identifier s) else None)))
     else Inr None)"

definition plain_typedef :: "TypeSpec \<Rightarrow> bool" where
  "plain_typedef ts \<longleftrightarrow> \<not> has_flag (ts_tflags ts) (T_ENUM OR T_STRUCT OR T_UNION OR T_TYPE)"

definition wanted_predeclaration :: "nat \<Rightarrow> CState \<Rightarrow> bool run" where
  "wanted_predeclaration l st = and_then (typedef_list_at st l) (\<lambda>tdl.
     if plain_typedef (tl_type tdl) then Inr True else and_then (predeclared st (tl_type tdl)) (\<lambda>r. Inr (r \<noteq> None)))"

definition add_predeclaration :: "nat \<Rightarrow> nat \<Rightarrow> SourcifyConfig \<Rightarrow> ParseData \<Rightarrow> nat \<Rightarrow> writes" where
  "add_predeclaration fuel depth sc pd l x = and_then (typedef_list_at (so_types x) l) (\<lambda>tdl.
     if plain_typedef (tl_type tdl) then add_typedef_list_spec_string fuel depth sc pd l x
     else and_then (predeclared (so_types x) (tl_type tdl)) (\<lambda>r. case r of None \<Rightarrow> Inr x
       | Some (what, ident) \<Rightarrow> and_then (add_typedef_list_decl_string (so_types x) pd l) (\<lambda>decls.
           Inr (x\<lparr>so_str := so_str x @ ''typedef '' @ what @ '' '' @ ident @ '' '' @ decls @ '';'' @ newline\<rparr>))))"

definition wanted_typedef :: "nat \<Rightarrow> CState \<Rightarrow> bool run" where
  "wanted_typedef l st = and_then (typedef_list_at st l) (\<lambda>tdl. let ts = tl_type tdl; flags = ts_tflags ts in
     case ts_ptr ts of None \<Rightarrow> Inr False
     | Some n \<Rightarrow>
         and_then (if has_flag flags T_ENUM then and_then (enum_at st (Some n)) (\<lambda>e. Inr (es_identifier e = [])) else Inr False) (\<lambda>b.
         if b then Inr True
         else and_then (if has_flag flags T_COMPOUND then and_then (struct_at st (Some n)) (\<lambda>s. Inr (s_identifier s = [])) else Inr False)
           (\<lambda>b. Inr (b \<or> has_flag flags T_TYPE))))"

definition defined_enum :: "nat \<Rightarrow> CState \<Rightarrow> bool run" where
  "defined_enum n st = and_then (enum_at st (Some n)) (\<lambda>e.
     Inr (es_enumerators e \<noteq> None \<and> es_identifier e \<noteq> [] \<and> \<not> is_dumped (es_tflags e)))"

definition defined_compound :: "nat \<Rightarrow> CState \<Rightarrow> bool run" where
  "defined_compound n st = and_then (struct_at st (Some n)) (\<lambda>s.
     Inr (s_declarations s \<noteq> None \<and> s_identifier s \<noteq> [] \<and> \<not> is_dumped (s_tflags s)))"

definition undefined_enum :: "nat \<Rightarrow> CState \<Rightarrow> bool run" where
  "undefined_enum n st = and_then (enum_at st (Some n)) (\<lambda>e.
     Inr (\<not> is_dumped (es_tflags e) \<and> es_refcount e = 0 \<and> (es_enumerators e \<noteq> None \<or> es_identifier e \<noteq> [])))"

definition undefined_compound :: "nat \<Rightarrow> CState \<Rightarrow> bool run" where
  "undefined_compound n st = and_then (struct_at st (Some n)) (\<lambda>s.
     Inr (\<not> is_dumped (s_tflags s) \<and> s_refcount s = 0 \<and> (s_declarations s \<noteq> None \<or> s_identifier s \<noteq> [])))"

definition add_preprocessor_definitions :: "string list \<Rightarrow> string" where
  "add_preprocessor_definitions macros = (let s = concat (map (\<lambda>m. ''#define '' @ m @ newline) macros) in
     if s = [] then [] else ''/* preprocessor defines */'' @ newline @ newline @ s @ newline)"

definition section_title :: "nat \<Rightarrow> string \<Rightarrow> string" where
  "section_title n t = concat (replicate n newline) @ ''/* '' @ t @ '' */'' @ newline @ newline"

definition get_parsed_definitions :: "nat \<Rightarrow> nat \<Rightarrow> SourcifyConfig \<Rightarrow> ParseData \<Rightarrow> writes" where
  "get_parsed_definitions fuel depth sc pd x =
     and_then (part (section_title 0 ''typedef predeclarations'') wanted_predeclaration (add_predeclaration fuel depth sc pd)
       (\<lambda>_. Inr) False (pi_typedef_lists pd) x) (\<lambda>x.
     and_then (part (section_title 2 ''typedefs'') wanted_typedef (\<lambda>l. then_newline (add_typedef_list_spec_string fuel depth sc pd l))
       (\<lambda>_. Inr) False (pi_typedef_lists pd) x) (\<lambda>x.
     and_then (part (section_title 1 ''defined enums'') defined_enum (\<lambda>n. then_newline (add_enum_spec_string sc pd n))
       (\<lambda>_. Inr) False (pi_enums pd) x) (\<lambda>x.
     and_then (part (section_title 1 ''defined structs and unions'') defined_compound (\<lambda>n. then_newline (add_struct_spec_string fuel depth sc pd n))
       (\<lambda>_. Inr) False (pi_structs pd) x) (\<lambda>x.
     and_then (part (section_title 1 ''undefined enums'') undefined_enum (\<lambda>n. then_newline (add_enum_spec_string sc pd n))
       (\<lambda>n x. Inr (on_types (unmark_enum n) x)) False (pi_enums pd) x) (\<lambda>x.
     part (section_title 1 ''undefined/unnamed structs and unions'') undefined_compound (\<lambda>n. then_newline (add_struct_spec_string fuel depth sc pd n))
       (\<lambda>n x. Inr (on_types (unmark_struct n) x)) False (pi_structs pd) x)))))"

definition get_parsed_definitions_string :: "nat \<Rightarrow> nat \<Rightarrow> SourcifyConfig \<Rightarrow> string list \<Rightarrow> ParseData \<Rightarrow> (string \<times> CState) run" where
  "get_parsed_definitions_string fuel depth sc macros pd =
     and_then (get_parsed_definitions fuel depth sc pd \<lparr>so_types = pi_types pd, so_str = [], so_s = [], so_ss = \<lparr>ss_flags = 0, ss_pack = 0\<rparr>\<rparr>) (\<lambda>x.
     Inr (so_str x @ (if sc_defines sc then add_preprocessor_definitions macros else []), so_types x))"

text \<open>Options are read from a hash; \<open>SvTRUE\<close> is the truth of a Perl value.\<close>

fun get_sourcify_config :: "(SV \<Rightarrow> bool) \<Rightarrow> HV \<Rightarrow> SourcifyConfig \<Rightarrow> SourcifyConfig run" where
  "get_sourcify_config SvTRUE [] sc = Inr sc"
| "get_sourcify_config SvTRUE ((key, sv) # cfg) sc =
     (if key = ''Context'' then get_sourcify_config SvTRUE cfg (sc\<lparr>sc_context := SvTRUE sv\<rparr>)
      else if key = ''Defines'' then get_sourcify_config SvTRUE cfg (sc\<lparr>sc_defines := SvTRUE sv\<rparr>)
      else Inl (Croaked (''Invalid option '' @ single_quoted key)))"

end
