(* ===== verification/Sourcify_Ends.thy ===== *)
theory Sourcify_Ends
  imports Sourcify
begin

text \<open>Writing all types ends, and the marks it leaves on them are taken away again.\<close>

section \<open>Marks\<close>

definition struct_marks :: "Struct \<Rightarrow> Struct \<Rightarrow> bool" where
  "struct_marks s s' \<longleftrightarrow> s' = s \<or> s' = s\<lparr>s_tflags := s_tflags s OR T_ALREADY_DUMPED\<rparr>"

definition enum_marks :: "EnumSpecifier \<Rightarrow> EnumSpecifier \<Rightarrow> bool" where
  "enum_marks e e' \<longleftrightarrow> e' = e \<or> e' = e\<lparr>es_tflags := es_tflags e OR T_ALREADY_DUMPED\<rparr>"

definition marks :: "CState \<Rightarrow> CState \<Rightarrow> bool" where
  "marks st st' \<longleftrightarrow> st' = st\<lparr>structs := structs st', enums := enums st'\<rparr>
     \<and> (\<forall>n. rel_option struct_marks (structs st n) (structs st' n)) \<and> (\<forall>n. rel_option enum_marks (enums st n) (enums st' n))"

lemma struct_marks_refl: "struct_marks s s" and enum_marks_refl: "enum_marks e e"
  by (simp_all add: struct_marks_def enum_marks_def)

lemma marks_refl [simp]: "marks st st"
  by (simp add: marks_def option.rel_refl struct_marks_refl enum_marks_refl)

lemma struct_marks_trans: "struct_marks a b \<Longrightarrow> struct_marks b c \<Longrightarrow> struct_marks a c"
  by (auto simp: struct_marks_def or.assoc)

lemma enum_marks_trans: "enum_marks a b \<Longrightarrow> enum_marks b c \<Longrightarrow> enum_marks a c"
  by (auto simp: enum_marks_def or.assoc)

lemma rel_option_trans:
  "(\<And>a b c. R a b \<Longrightarrow> R b c \<Longrightarrow> R a c) \<Longrightarrow> rel_option R x y \<Longrightarrow> rel_option R y z \<Longrightarrow> rel_option R x z"
  by (cases x; cases y; cases z) auto

lemma marks_trans: assumes "marks a b" "marks b c" shows "marks a c"
proof -
  have "c = a\<lparr>structs := structs c, enums := enums c\<rparr>" using assms by (auto simp: marks_def) (metis CState.surjective CState.update_convs(1,2))
  then show ?thesis
    using assms rel_option_trans [of struct_marks] rel_option_trans [of enum_marks] struct_marks_trans enum_marks_trans
    unfolding marks_def by meson
qed

lemma rel_option_self: "(\<And>a. R a a) \<Longrightarrow> rel_option R x x"
  by (cases x) auto

lemma marks_enum: "marks st (mark_enum n st)"
proof -
  have "rel_option enum_marks (enums st k) (enums (mark_enum n st) k)" for k
    by (cases "enums st k") (auto simp: mark_enum_def enum_marks_def)
  then show ?thesis by (simp add: marks_def mark_enum_def rel_option_self struct_marks_refl)
qed

lemma marks_struct: "marks st (mark_struct n st)"
proof -
  have "rel_option struct_marks (structs st k) (structs (mark_struct n st) k)" for k
    by (cases "structs st k") (auto simp: mark_struct_def struct_marks_def)
  then show ?thesis by (simp add: marks_def mark_struct_def rel_option_self enum_marks_refl)
qed

lemma marks_same: "marks st st' \<Longrightarrow> typedefs st' = typedefs st \<and> typedef_lists st' = typedef_lists st"
  unfolding marks_def by (metis CState.select_convs(3,4) CState.surjective CState.update_convs(1,2))

lemma marks_pTypedef: "marks st st' \<Longrightarrow> pTypedef st' ts = pTypedef st ts"
  by (drule marks_same, elim conjE, simp only: pTypedef_def)

lemma marks_dumped_type: assumes "marks st st'" shows "dumped_type k st' ts = dumped_type k st ts"
proof (induction k arbitrary: ts)
  case (Suc k)
  then show ?case by (cases "pTypedef st ts") (auto simp: marks_pTypedef [OF assms])
qed simp

lemma marked_struct:
  assumes "marks st st'" "structs st n = Some s"
  obtains s' where "structs st' n = Some s'" "struct_marks s s'"
proof -
  have "rel_option struct_marks (Some s) (structs st' n)" using assms by (simp add: marks_def flip: assms(2))
  then show ?thesis using that by (cases "structs st' n") auto
qed

lemma marked_enum:
  assumes "marks st st'" "enums st n = Some e"
  obtains e' where "enums st' n = Some e'" "enum_marks e e'"
proof -
  have "rel_option enum_marks (Some e) (enums st' n)" using assms by (simp add: marks_def flip: assms(2))
  then show ?thesis using that by (cases "enums st' n") auto
qed

lemma struct_marks_facts: "struct_marks s s' \<Longrightarrow> s_declarations s' = s_declarations s \<and> s_identifier s' = s_identifier s
    \<and> (is_dumped (s_tflags s) \<longrightarrow> is_dumped (s_tflags s'))"
  by (auto simp: struct_marks_def is_dumped_def has_flag_or)

section \<open>What is still unwritten\<close>

definition unwritten :: "ParseData \<Rightarrow> CState \<Rightarrow> nat set" where
  "unwritten pd st = {n \<in> set (pi_structs pd). case structs st n of None \<Rightarrow> False | Some s \<Rightarrow> \<not> is_dumped (s_tflags s)}"

definition todo :: "ParseData \<Rightarrow> CState \<Rightarrow> nat" where
  "todo pd st = card (unwritten pd st)"

lemma unwritten_marks: "marks st st' \<Longrightarrow> unwritten pd st' \<subseteq> unwritten pd st"
proof
  fix n assume m: "marks st st'" and n: "n \<in> unwritten pd st'"
  then obtain s' where s': "structs st' n = Some s'" "\<not> is_dumped (s_tflags s')" "n \<in> set (pi_structs pd)"
    by (auto simp: unwritten_def split: option.splits)
  have "rel_option struct_marks (structs st n) (Some s')" using m s'(1) unfolding marks_def by metis
  then obtain s where "structs st n = Some s" "struct_marks s s'" by (cases "structs st n") auto
  then show "n \<in> unwritten pd st" using s' struct_marks_facts by (auto simp: unwritten_def)
qed

lemma finite_unwritten [simp]: "finite (unwritten pd st)"
  by (simp add: unwritten_def)

lemma todo_marks: "marks st st' \<Longrightarrow> todo pd st' \<le> todo pd st"
  unfolding todo_def by (intro card_mono unwritten_marks) simp_all

lemma todo_mark_struct:
  assumes "n \<in> unwritten pd st"
  shows "todo pd (mark_struct n st) < todo pd st"
  unfolding todo_def
proof (rule psubset_card_mono)
  have "n \<notin> unwritten pd (mark_struct n st)"
    by (auto simp: unwritten_def mark_struct_def is_dumped_def has_flag_or has_flag_def split: option.splits)
  then show "unwritten pd (mark_struct n st) \<subset> unwritten pd st" using assms unwritten_marks [OF marks_struct] by blast
qed simp

section \<open>Well-formed types\<close>

text \<open>
  What types refer to is in the lists of the parse information and has a place; chains of type
  names end within \<open>depth\<close>; a compound without a name has a smaller rank than what it is in.
\<close>

definition target_ok :: "ParseData \<Rightarrow> TypeSpec \<Rightarrow> bool" where
  "target_ok pd ts \<longleftrightarrow> (case ts_ptr ts of None \<Rightarrow> True
     | Some n \<Rightarrow> (has_flag (ts_tflags ts) T_ENUM \<longrightarrow> n \<in> set (pi_enums pd))
         \<and> (has_flag (ts_tflags ts) T_COMPOUND \<longrightarrow> n \<in> set (pi_structs pd)))"

definition below :: "(nat \<Rightarrow> nat) \<Rightarrow> nat \<Rightarrow> CState \<Rightarrow> TypeSpec \<Rightarrow> bool" where
  "below rs r st ts \<longleftrightarrow> (case ts_ptr ts of None \<Rightarrow> True
     | Some n \<Rightarrow> (case structs st n of None \<Rightarrow> True | Some s \<Rightarrow> s_identifier s = [] \<longrightarrow> rs n < r))"

definition spec_ok :: "(nat \<Rightarrow> nat) \<Rightarrow> ParseData \<Rightarrow> nat \<Rightarrow> CState \<Rightarrow> nat \<Rightarrow> TypeSpec \<Rightarrow> bool" where
  "spec_ok rs pd depth st r ts \<longleftrightarrow>
     (if has_flag (ts_tflags ts) T_TYPE then
        (case pTypedef st ts of Inl _ \<Rightarrow> False | Inr _ \<Rightarrow> True)
        \<and> (case dumped_type depth st ts of Inl _ \<Rightarrow> False | Inr None \<Rightarrow> True | Inr (Some t) \<Rightarrow> target_ok pd t)
        \<and> \<not> has_flag (ts_tflags ts) T_ENUM \<and> \<not> has_flag (ts_tflags ts) T_COMPOUND
      else target_ok pd ts \<and> (\<not> has_flag (ts_tflags ts) T_ENUM \<longrightarrow> has_flag (ts_tflags ts) T_COMPOUND \<longrightarrow> below rs r st ts))"

definition struct_source_ok :: "(nat \<Rightarrow> nat) \<Rightarrow> nat \<Rightarrow> ParseData \<Rightarrow> nat \<Rightarrow> CState \<Rightarrow> nat \<Rightarrow> bool" where
  "struct_source_ok rs most pd depth st n \<longleftrightarrow> rs n < most \<and> context_ok pd (struct_context pd n)
     \<and> (case structs st n of None \<Rightarrow> False
        | Some s \<Rightarrow> list_all (\<lambda>sd. spec_ok rs pd depth st (rs n) (sd_type sd)) (struct_declarations s))"

definition enum_source_ok :: "ParseData \<Rightarrow> CState \<Rightarrow> nat \<Rightarrow> bool" where
  "enum_source_ok pd st n \<longleftrightarrow> context_ok pd (enum_context pd n) \<and> enums st n \<noteq> None"

definition list_source_ok :: "(nat \<Rightarrow> nat) \<Rightarrow> nat \<Rightarrow> ParseData \<Rightarrow> nat \<Rightarrow> CState \<Rightarrow> nat \<Rightarrow> bool" where
  "list_source_ok rs most pd depth st l \<longleftrightarrow>
     (case typedef_lists st l of None \<Rightarrow> False | Some tdl \<Rightarrow> spec_ok rs pd depth st most (tl_type tdl))
     \<and> list_all (\<lambda>t. case typedefs st t of None \<Rightarrow> False | Some td \<Rightarrow> td_decl td \<noteq> None) (typedefs_of pd l)"

definition source_ok :: "(nat \<Rightarrow> nat) \<Rightarrow> nat \<Rightarrow> ParseData \<Rightarrow> nat \<Rightarrow> CState \<Rightarrow> bool" where
  "source_ok rs most pd depth st \<longleftrightarrow> list_all (struct_source_ok rs most pd depth st) (pi_structs pd)
     \<and> list_all (enum_source_ok pd st) (pi_enums pd) \<and> list_all (list_source_ok rs most pd depth st) (pi_typedef_lists pd)"

lemma source_okD:
  assumes "source_ok rs most pd depth st"
  shows "n \<in> set (pi_structs pd) \<Longrightarrow> struct_source_ok rs most pd depth st n"
    "k \<in> set (pi_enums pd) \<Longrightarrow> enum_source_ok pd st k" "l \<in> set (pi_typedef_lists pd) \<Longrightarrow> list_source_ok rs most pd depth st l"
  using assms by (simp_all add: source_ok_def list_all_iff)

lemma below_marks: assumes "marks st st'" shows "below rs r st' ts = below rs r st ts"
proof (cases "ts_ptr ts")
  case (Some n)
  have "rel_option struct_marks (structs st n) (structs st' n)" using assms by (simp add: marks_def)
  then show ?thesis using Some struct_marks_facts by (cases "structs st n"; cases "structs st' n") (auto simp: below_def)
qed (simp add: below_def)

lemma spec_ok_marks: "marks st st' \<Longrightarrow> spec_ok rs pd depth st' r ts = spec_ok rs pd depth st r ts"
  by (simp add: spec_ok_def marks_pTypedef marks_dumped_type below_marks)

lemma struct_source_ok_marks:
  assumes m: "marks st st'" shows "struct_source_ok rs most pd depth st' n = struct_source_ok rs most pd depth st n"
proof -
  have "rel_option struct_marks (structs st n) (structs st' n)" using m by (simp add: marks_def)
  then show ?thesis using struct_marks_facts
    by (cases "structs st n"; cases "structs st' n") (auto simp: struct_source_ok_def struct_declarations_def spec_ok_marks [OF m])
qed

lemma enum_source_ok_marks: assumes m: "marks st st'" shows "enum_source_ok pd st' n = enum_source_ok pd st n"
proof -
  have "rel_option enum_marks (enums st n) (enums st' n)" using m by (simp add: marks_def)
  then show ?thesis by (cases "enums st n"; cases "enums st' n") (auto simp: enum_source_ok_def)
qed

lemma list_source_ok_marks: assumes "marks st st'" shows "list_source_ok rs most pd depth st' l = list_source_ok rs most pd depth st l"
proof -
  have "typedefs st' = typedefs st" "typedef_lists st' = typedef_lists st" using marks_same [OF assms] by simp_all
  then show ?thesis by (simp only: list_source_ok_def spec_ok_marks [OF assms])
qed

lemma source_ok_marks_iff: "marks st st' \<Longrightarrow> source_ok rs most pd depth st' = source_ok rs most pd depth st"
  unfolding source_ok_def list_all_iff
  using struct_source_ok_marks enum_source_ok_marks list_source_ok_marks by simp

lemma source_ok_marks: "marks st st' \<Longrightarrow> source_ok rs most pd depth st \<Longrightarrow> source_ok rs most pd depth st'"
  by (simp add: source_ok_marks_iff)

section \<open>Steps\<close>

definition step_ok :: "Source \<Rightarrow> Source run \<Rightarrow> bool" where
  "step_ok x r \<longleftrightarrow> (\<exists>y. r = Inr y \<and> marks (so_types x) (so_types y))"

lemma step_ok_Inr [simp]: "step_ok x (Inr y) \<longleftrightarrow> marks (so_types x) (so_types y)"
  by (simp add: step_ok_def)

lemma step_ok_then: "step_ok x r \<Longrightarrow> (\<And>y. marks (so_types x) (so_types y) \<Longrightarrow> step_ok y (f y)) \<Longrightarrow> step_ok x (and_then r f)"
  by (auto simp: step_ok_def) (meson marks_trans)

lemma types_kept [simp]:
  "so_types (cat t x) = so_types x" "so_types (set_flag f x) = so_types x" "so_types (clear_flag f x) = so_types x"
  "so_types (start_line x) = so_types x" "so_types (CHECK_SET_KEYWORD level x) = so_types x" "so_types (before_keyword level x) = so_types x"
  by (simp_all add: cat_def set_flag_def clear_flag_def start_line_def CHECK_SET_KEYWORD_def before_keyword_def)

lemma types_on_types [simp]: "so_types (on_types f x) = f (so_types x)"
  by (simp add: on_types_def)

lemma line_directive_keeps: "context_ok pd c \<Longrightarrow> \<exists>y. line_directive sc pd c x = Inr y \<and> so_types y = so_types x"
  by (cases c) (auto simp: line_directive_def context_ok_def split: option.splits)

lemma add_enum_ok:
  assumes "source_ok rs most pd depth (so_types x)" "n \<in> set (pi_enums pd)"
  shows "step_ok x (add_enum_spec_string_rec sc pd n level x)"
proof -
  obtain e where e: "enums (so_types x) n = Some e" and c: "context_ok pd (enum_context pd n)" using source_okD(2) [OF assms] by (auto simp: enum_source_ok_def)
  obtain y where "line_directive sc pd (enum_context pd n) (on_types (mark_enum n) x) = Inr y" "so_types y = mark_enum n (so_types x)"
    using line_directive_keeps [OF c] by force
  then show ?thesis using e marks_enum by (simp add: add_enum_spec_string_rec_def enum_at_def)
qed

lemma on_its_own_ok: "step_ok (x\<lparr>so_s := [], so_ss := \<lparr>ss_flags = 0, ss_pack = 0\<rparr>\<rparr>) (f (x\<lparr>so_s := [], so_ss := \<lparr>ss_flags = 0, ss_pack = 0\<rparr>\<rparr>))
    \<Longrightarrow> step_ok x (on_its_own f x)"
  by (auto simp: on_its_own_def step_ok_def)

lemma add_enum_own_ok: "source_ok rs most pd depth (so_types x) \<Longrightarrow> n \<in> set (pi_enums pd) \<Longrightarrow> step_ok x (add_enum_spec_string sc pd n x)"
  unfolding add_enum_spec_string_def by (intro on_its_own_ok add_enum_ok) simp_all

section \<open>Compounds\<close>

definition need :: "(nat \<Rightarrow> nat) \<Rightarrow> nat \<Rightarrow> ParseData \<Rightarrow> CState \<Rightarrow> nat \<Rightarrow> nat" where
  "need rs most pd st n = todo pd (mark_struct n st) * most + rs n"

definition budget :: "nat \<Rightarrow> ParseData \<Rightarrow> CState \<Rightarrow> nat \<Rightarrow> nat \<Rightarrow> bool" where
  "budget most pd st r b \<longleftrightarrow> todo pd st * most + r \<le> b"

definition good_rec :: "(nat \<Rightarrow> nat) \<Rightarrow> nat \<Rightarrow> ParseData \<Rightarrow> nat \<Rightarrow> nat \<Rightarrow> write_struct \<Rightarrow> bool" where
  "good_rec rs most pd depth b rec \<longleftrightarrow> (\<forall>n level x. n \<in> set (pi_structs pd) \<and> source_ok rs most pd depth (so_types x)
     \<and> need rs most pd (so_types x) n < b \<longrightarrow> step_ok x (rec n level x))"

lemma budget_marks: "marks st st' \<Longrightarrow> budget most pd st r b \<Longrightarrow> budget most pd st' r b"
  unfolding budget_def using todo_marks [of st st' pd] by (meson add_le_mono1 le_trans mult_le_mono1)

lemma need_small:
  assumes ok: "source_ok rs most pd depth st" and n: "n \<in> set (pi_structs pd)" and b: "budget most pd st r b"
    and s: "structs st n = Some s" and c: "\<not> is_dumped (s_tflags s) \<or> rs n < r"
  shows "need rs most pd st n < b"
proof (cases "rs n < r")
  case True
  have "todo pd (mark_struct n st) * most \<le> todo pd st * most" using todo_marks [OF marks_struct] by (intro mult_le_mono1)
  then show ?thesis using True b unfolding need_def budget_def by linarith
next
  case False
  then have "n \<in> unwritten pd st" using c n s by (simp add: unwritten_def)
  from todo_mark_struct [OF this] have "Suc (todo pd (mark_struct n st)) * most \<le> todo pd st * most" by (intro mult_le_mono1) simp
  moreover have "rs n < most" using source_okD(1) [OF ok n] by (simp add: struct_source_ok_def)
  ultimately show ?thesis using b unfolding need_def budget_def by simp
qed

lemma struct_exists: "source_ok rs most pd depth st \<Longrightarrow> n \<in> set (pi_structs pd) \<Longrightarrow> \<exists>s. structs st n = Some s"
  using source_okD(1) by (fastforce simp: struct_source_ok_def split: option.splits)

lemma enum_exists: "source_ok rs most pd depth st \<Longrightarrow> n \<in> set (pi_enums pd) \<Longrightarrow> \<exists>e. enums st n = Some e"
  using source_okD(2) by (fastforce simp: enum_source_ok_def)

lemma good_call:
  assumes "good_rec rs most pd depth b rec" "source_ok rs most pd depth (so_types x)" "n \<in> set (pi_structs pd)"
    "budget most pd (so_types x) r b" "structs (so_types x) n = Some s" "\<not> is_dumped (s_tflags s) \<or> rs n < r"
  shows "step_ok x (rec n level x)"
  using assms(1-3) need_small [OF assms(2-6)] by (simp add: good_rec_def)

lemma add_type_ok:
  assumes rec: "good_rec rs most pd depth b rec" and ok: "source_ok rs most pd depth (so_types x)"
    and spec: "spec_ok rs pd depth (so_types x) r ts" and b: "budget most pd (so_types x) r b"
  shows "step_ok x (add_type_spec_string_rec rec sc pd ts level x)"
proof -
  consider (type) "has_flag (ts_tflags ts) T_TYPE" | (enum) "\<not> has_flag (ts_tflags ts) T_TYPE" "has_flag (ts_tflags ts) T_ENUM"
    | (compound) "\<not> has_flag (ts_tflags ts) T_TYPE" "\<not> has_flag (ts_tflags ts) T_ENUM" "has_flag (ts_tflags ts) T_COMPOUND"
    | (basic) "\<not> has_flag (ts_tflags ts) T_TYPE" "\<not> has_flag (ts_tflags ts) T_ENUM" "\<not> has_flag (ts_tflags ts) T_COMPOUND" by blast
  then show ?thesis
  proof cases
    case type
    then obtain t d where "pTypedef (so_types x) ts = Inr (t, d)" using spec by (auto simp: spec_ok_def split: sum.splits)
    then show ?thesis using type by (simp add: add_type_spec_string_rec_def Let_def split: option.split)
  next
    case enum
    show ?thesis
    proof (cases "ts_ptr ts")
      case (Some n)
      then have n: "n \<in> set (pi_enums pd)" using enum spec by (simp add: spec_ok_def target_ok_def)
      obtain e where e: "enums (so_types x) n = Some e" using enum_exists [OF ok n] by blast
      show ?thesis using enum Some e add_enum_ok [OF ok n]
        by (simp add: add_type_spec_string_rec_def enum_at_def)
    qed (use enum in \<open>simp add: add_type_spec_string_rec_def\<close>)
  next
    case compound
    show ?thesis
    proof (cases "ts_ptr ts")
      case (Some n)
      then have n: "n \<in> set (pi_structs pd)" and below: "below rs r (so_types x) ts"
        using compound spec by (simp_all add: spec_ok_def target_ok_def)
      obtain s where s: "structs (so_types x) n = Some s" using struct_exists [OF ok n] by blast
      show ?thesis
      proof (cases "s_identifier s \<noteq> [] \<and> (is_dumped (s_tflags s) \<or> flag_is_set F_DONT_EXPAND x)")
        case True
        then show ?thesis using compound Some s by (simp add: add_type_spec_string_rec_def struct_at_def)
      next
        case False
        then have "\<not> is_dumped (s_tflags s) \<or> rs n < r" using below Some s by (auto simp: below_def)
        from good_call [OF rec ok n b s this] show ?thesis using compound Some s False
          by (simp add: add_type_spec_string_rec_def struct_at_def)
      qed
    qed (use compound in \<open>simp add: add_type_spec_string_rec_def\<close>)
  next
    case basic
    then show ?thesis by (simp add: add_type_spec_string_rec_def Let_def split: option.split)
  qed
qed

lemma add_struct_own_ok:
  assumes "good_rec rs most pd depth b rec" "source_ok rs most pd depth (so_types x)" "n \<in> set (pi_structs pd)"
    "budget most pd (so_types x) r b" "structs (so_types x) n = Some s" "\<not> is_dumped (s_tflags s) \<or> rs n < r"
  shows "step_ok x (add_struct_spec_string_with rec n x)"
  unfolding add_struct_spec_string_with_def
  by (intro on_its_own_ok good_call [OF assms(1) _ assms(3) _ _ assms(6)]) (use assms in simp_all)

lemma check_define_type_ok:
  assumes rec: "good_rec rs most pd depth b rec" and ok: "source_ok rs most pd depth (so_types x)"
    and spec: "spec_ok rs pd depth (so_types x) r ts" and b: "budget most pd (so_types x) r b"
  shows "step_ok x (check_define_type rec depth sc pd ts x)"
proof -
  let ?r = "if has_flag (ts_tflags ts) T_TYPE then dumped_type depth (so_types x) ts else Inr (Some ts)"
  obtain t where r: "?r = Inr t" and target: "t = None \<or> (\<exists>u. t = Some u \<and> target_ok pd u)"
    using spec by (auto simp: spec_ok_def split: if_splits sum.splits option.splits)
  show ?thesis
  proof (cases t)
    case None
    then show ?thesis using r by (simp add: check_define_type_def Let_def)
  next
    case (Some u)
    then have u: "target_ok pd u" using target by blast
    show ?thesis
    proof (cases "ts_ptr u")
      case None
      then show ?thesis using r Some by (simp add: check_define_type_def Let_def)
    next
      case ptr: (Some n)
      show ?thesis
      proof (cases "has_flag (ts_tflags u) T_ENUM")
        case True
        then have n: "n \<in> set (pi_enums pd)" using u ptr by (simp add: target_ok_def)
        obtain e where "enums (so_types x) n = Some e" using enum_exists [OF ok n] by blast
        then show ?thesis using r Some ptr True add_enum_own_ok [OF ok n] by (simp add: check_define_type_def Let_def enum_at_def)
      next
        case no_enum: False
        show ?thesis
        proof (cases "has_flag (ts_tflags u) T_COMPOUND")
          case True
          then have n: "n \<in> set (pi_structs pd)" using u ptr no_enum by (simp add: target_ok_def)
          obtain s where s: "structs (so_types x) n = Some s" using struct_exists [OF ok n] by blast
          show ?thesis using r Some ptr True no_enum s add_struct_own_ok [OF rec ok n b s]
            by (simp add: check_define_type_def Let_def struct_at_def)
        qed (use r Some ptr no_enum in \<open>simp add: check_define_type_def Let_def\<close>)
      qed
    qed
  qed
qed

lemma step_ok_from: "so_types y = so_types x \<Longrightarrow> step_ok y r \<Longrightarrow> step_ok x r"
  by (simp add: step_ok_def)

lemma add_declaration_ok:
  assumes rec: "good_rec rs most pd depth b rec" and ok: "source_ok rs most pd depth (so_types x)"
    and spec: "spec_ok rs pd depth (so_types x) r (sd_type sd)" and b: "budget most pd (so_types x) r b"
  shows "step_ok x (add_declaration rec depth sc pd level pack sd x)"
  unfolding add_declaration_def
proof (rule step_ok_then)
  let ?x = "x\<lparr>so_ss := \<lparr>ss_flags = (if needs_definition sd then F_NEWLINE else F_NEWLINE OR F_DONT_EXPAND), ss_pack = pack\<rparr>\<rparr>"
  show "step_ok x (add_type_spec_string_rec rec sc pd (sd_type sd) (level + 1) ?x)"
    by (rule step_ok_from [of ?x]) (simp, rule add_type_ok [OF rec, of _ r], use ok spec b in simp_all)
next
  fix y :: Source assume m: "marks (so_types x) (so_types y)"
  have after: "source_ok rs most pd depth (so_types y)" "spec_ok rs pd depth (so_types y) r (sd_type sd)" "budget most pd (so_types y) r b"
    using source_ok_marks [OF m ok] spec budget_marks [OF m b] by (simp_all add: spec_ok_marks [OF m])
  have "step_ok y (check_define_type rec depth sc pd (sd_type sd) z)" if "so_types z = so_types y" for z :: Source
    by (rule step_ok_from [OF that], rule check_define_type_ok [OF rec, of _ r]) (use after that in simp_all)
  then show "step_ok y (let x = clear_flag F_DONT_EXPAND y;
       x = cat ((if flag_is_set F_NEWLINE x then add_indent (level + 1) else if sd_declarators sd \<noteq> None then '' '' else [])
         @ join_declarators (case sd_declarators sd of None \<Rightarrow> [] | Some ds \<Rightarrow> map member_text ds) @ '';'' @ newline
         @ (if flag_is_set F_PRAGMA_PACK_POP x then ''#pragma pack(pop)'' @ newline else [])) x in
     if needs_definition sd then check_define_type rec depth sc pd (sd_type sd) x else Inr x)"
    by (simp add: Let_def)
qed

lemma add_declarations_ok:
  assumes rec: "good_rec rs most pd depth b rec" and "source_ok rs most pd depth (so_types x)"
    and "list_all (\<lambda>sd. spec_ok rs pd depth (so_types x) r (sd_type sd)) sds" and "budget most pd (so_types x) r b"
  shows "step_ok x (add_declarations (add_declaration rec depth sc pd level pack) sds x)"
  using assms(2-)
proof (induction sds arbitrary: x)
  case (Cons sd sds)
  show ?case unfolding add_declarations.simps
  proof (rule step_ok_then)
    show "step_ok x (add_declaration rec depth sc pd level pack sd x)"
      using Cons.prems by (intro add_declaration_ok [OF rec, of _ r]) simp_all
    show "step_ok y (add_declarations (add_declaration rec depth sc pd level pack) sds y)" if m: "marks (so_types x) (so_types y)" for y
      using Cons.prems source_ok_marks [OF m] budget_marks [OF m] by (intro Cons.IH) (simp_all add: spec_ok_marks [OF m])
  qed
qed simp

lemma add_struct_ok:
  assumes rec: "good_rec rs most pd depth fuel rec" and ok: "source_ok rs most pd depth (so_types x)"
    and n: "n \<in> set (pi_structs pd)" and b: "need rs most pd (so_types x) n < Suc fuel"
  shows "step_ok x (add_struct_spec_step rec depth sc pd n level x)"
proof -
  obtain s where s: "structs (so_types x) n = Some s" and c: "context_ok pd (struct_context pd n)"
    and sds: "list_all (\<lambda>sd. spec_ok rs pd depth (so_types x) (rs n) (sd_type sd)) (struct_declarations s)"
    using source_okD(1) [OF ok n] by (auto simp: struct_source_ok_def split: option.splits)
  let ?st = "mark_struct n (so_types x)"
  have m: "marks (so_types x) ?st" by (rule marks_struct)
  have members: "\<exists>y. add_declarations (add_declaration rec depth sc pd level pack) sds z = Inr y \<and> marks ?st (so_types y)"
    if "so_types z = ?st" "s_declarations s = Some sds" for z :: Source and pack sds
  proof -
    have "step_ok z (add_declarations (add_declaration rec depth sc pd level pack) sds z)"
      using that \<open>list_all _ _\<close> b source_ok_marks [OF m ok]
      by (intro add_declarations_ok [OF rec, of _ "rs n"])
        (simp_all add: struct_declarations_def spec_ok_marks [OF m] budget_def need_def)
    then show ?thesis using that by (auto simp: step_ok_def)
  qed
  define x1 where "x1 = on_types (mark_struct n) x"
  define pushed where "pushed \<longleftrightarrow> s_declarations s \<noteq> None \<and> s_pack s \<noteq> 0 \<and> s_pack s \<noteq> ss_pack (so_ss x1)"
  define x2 where "x2 = (if pushed then cat (''#pragma pack(push, '' @ decimal (s_pack s) @ '')'' @ newline) (start_line x1) else x1)"
  obtain x3 where x3: "line_directive sc pd (struct_context pd n) x2 = Inr x3" "so_types x3 = so_types x2"
    using line_directive_keeps [OF c] by metis
  define x4 where "x4 = cat ((if has_flag (s_tflags s) T_STRUCT then ''struct'' else ''union'') @ after_blank (s_identifier s)) (before_keyword level x3)"
  have t4: "so_types x4 = ?st" using x3(2) by (simp add: x4_def x2_def x1_def)
  define body where "body = (case s_declarations s of None \<Rightarrow> Inr x4
       | Some sds \<Rightarrow> and_then (add_declarations (add_declaration rec depth sc pd level (if pushed then s_pack s else 0)) sds
             (cat (newline @ INDENT level @ ''{'' @ newline) x4)) (\<lambda>y. Inr (cat (INDENT level @ ''}'') (y\<lparr>so_ss := so_ss x4\<rparr>))))"
  have "step_ok x body"
  proof (cases "s_declarations s")
    case None
    then show ?thesis using t4 m by (simp add: body_def)
  next
    case (Some sds)
    obtain y where "add_declarations (add_declaration rec depth sc pd level (if pushed then s_pack s else 0)) sds
        (cat (newline @ INDENT level @ ''{'' @ newline) x4) = Inr y" "marks ?st (so_types y)"
      using members [of "cat (newline @ INDENT level @ ''{'' @ newline) x4", OF _ Some] t4 by auto
    then show ?thesis using Some marks_trans [OF m] by (simp add: body_def)
  qed
  then obtain y where y: "body = Inr y" "marks (so_types x) (so_types y)" by (auto simp: step_ok_def)
  have "add_struct_spec_step rec depth sc pd n level x = and_then body (\<lambda>x. Inr (if pushed then set_flag F_PRAGMA_PACK_POP x else x))"
    using x3(1) by (simp only: add_struct_spec_step_def Let_def struct_at_def s option.case and_then_simps body_def x4_def x2_def
      pushed_def x1_def)
  then show ?thesis using y by simp
qed

lemma add_struct_rec_ok: "good_rec rs most pd depth fuel (add_struct_spec_string_rec fuel depth sc pd)"
proof (induction fuel)
  case (Suc fuel)
  then show ?case using add_struct_ok by (simp add: good_rec_def)
qed (simp add: good_rec_def)

section \<open>The parts of the text\<close>

text \<open>Between the parts only the marks differ from the types as they were at first.\<close>

definition unmark :: "u_32 \<Rightarrow> u_32" where
  "unmark f = f AND NOT T_ALREADY_DUMPED"

definition without_marks :: "CState \<Rightarrow> CState" where
  "without_marks st = st\<lparr>structs := (\<lambda>n. map_option (\<lambda>s. s\<lparr>s_tflags := unmark (s_tflags s)\<rparr>) (structs st n)),
     enums := (\<lambda>n. map_option (\<lambda>e. e\<lparr>es_tflags := unmark (es_tflags e)\<rparr>) (enums st n))\<rparr>"

lemma T_ALREADY_DUMPED_bit: "bit T_ALREADY_DUMPED n \<longleftrightarrow> n = 20"
proof -
  have "T_ALREADY_DUMPED = push_bit 20 1" by simp
  then show ?thesis by (simp only: bit_push_bit_iff bit_1_iff) auto
qed

lemma unmark_or [simp]: "unmark (f OR T_ALREADY_DUMPED) = unmark f"
  unfolding unmark_def by (rule bit_word_eqI) (auto simp only: bit_and_iff bit_or_iff bit_not_iff)

lemma unmark_cases: "unmark f = f \<or> unmark f OR T_ALREADY_DUMPED = f"
proof (cases "bit f 20")
  case True
  have "unmark f OR T_ALREADY_DUMPED = f" unfolding unmark_def
    by (rule bit_word_eqI) (use True in \<open>auto simp only: bit_and_iff bit_or_iff bit_not_iff T_ALREADY_DUMPED_bit possible_bit_word\<close>)
  then show ?thesis ..
next
  case False
  have "unmark f = f" unfolding unmark_def
    by (rule bit_word_eqI) (use False in \<open>auto simp only: bit_and_iff bit_or_iff bit_not_iff T_ALREADY_DUMPED_bit dest: bit_imp_possible_bit\<close>)
  then show ?thesis ..
qed

lemma struct_marks_without: "struct_marks s s' \<Longrightarrow> s'\<lparr>s_tflags := unmark (s_tflags s')\<rparr> = s\<lparr>s_tflags := unmark (s_tflags s)\<rparr>"
  by (auto simp: struct_marks_def)

lemma enum_marks_without: "enum_marks e e' \<Longrightarrow> e'\<lparr>es_tflags := unmark (es_tflags e')\<rparr> = e\<lparr>es_tflags := unmark (es_tflags e)\<rparr>"
  by (auto simp: enum_marks_def)

lemma struct_marks_unmark: "struct_marks (s\<lparr>s_tflags := unmark (s_tflags s)\<rparr>) s"
  using unmark_cases [of "s_tflags s"] by (auto simp: struct_marks_def)

lemma enum_marks_unmark: "enum_marks (e\<lparr>es_tflags := unmark (es_tflags e)\<rparr>) e"
  using unmark_cases [of "es_tflags e"] by (auto simp: enum_marks_def)

lemma rel_option_map_eq: "(\<And>a b. R a b \<Longrightarrow> f b = f a) \<Longrightarrow> rel_option R x y \<Longrightarrow> map_option f y = map_option f x"
  by (cases x; cases y) auto

lemma without_marks_marks: assumes m: "marks st st'" shows "without_marks st' = without_marks st"
proof -
  have "map_option (\<lambda>s. s\<lparr>s_tflags := unmark (s_tflags s)\<rparr>) (structs st' n)
      = map_option (\<lambda>s. s\<lparr>s_tflags := unmark (s_tflags s)\<rparr>) (structs st n)" for n
    by (rule rel_option_map_eq [of struct_marks, OF struct_marks_without]) (use m in \<open>simp_all add: marks_def\<close>)
  moreover have "map_option (\<lambda>e. e\<lparr>es_tflags := unmark (es_tflags e)\<rparr>) (enums st' n)
      = map_option (\<lambda>e. e\<lparr>es_tflags := unmark (es_tflags e)\<rparr>) (enums st n)" for n
    by (rule rel_option_map_eq [of enum_marks, OF enum_marks_without]) (use m in \<open>simp_all add: marks_def\<close>)
  moreover have eq: "st' = st\<lparr>structs := structs st', enums := enums st'\<rparr>" using m by (simp add: marks_def)
  have "st'\<lparr>structs := a, enums := b\<rparr> = st\<lparr>structs := a, enums := b\<rparr>" for a b
    using arg_cong [OF eq, of "\<lambda>x. x\<lparr>structs := a, enums := b\<rparr>"] by simp
  ultimately show ?thesis unfolding without_marks_def by presburger
qed

lemma unmark_struct_eq: "unmark_struct n st = st\<lparr>structs := (structs st)(n := map_option (\<lambda>s. s\<lparr>s_tflags := unmark (s_tflags s)\<rparr>) (structs st n))\<rparr>"
  by (simp only: unmark_struct_def unmark_def)

lemma unmark_enum_eq: "unmark_enum n st = st\<lparr>enums := (enums st)(n := map_option (\<lambda>e. e\<lparr>es_tflags := unmark (es_tflags e)\<rparr>) (enums st n))\<rparr>"
  by (simp only: unmark_enum_def unmark_def)

lemma marks_unmark_struct: "marks (unmark_struct n st) st"
proof -
  have "rel_option struct_marks (structs (unmark_struct n st) k) (structs st k)" for k
    by (cases "structs st k") (auto simp: unmark_struct_eq struct_marks_unmark struct_marks_refl)
  then show ?thesis by (simp add: marks_def unmark_struct_eq rel_option_self enum_marks_refl)
qed

lemma marks_unmark_enum: "marks (unmark_enum n st) st"
proof -
  have "rel_option enum_marks (enums (unmark_enum n st) k) (enums st k)" for k
    by (cases "enums st k") (auto simp: unmark_enum_eq enum_marks_unmark enum_marks_refl)
  then show ?thesis by (simp add: marks_def unmark_enum_eq rel_option_self struct_marks_refl)
qed

text \<open>An operation keeps the types up to marks; unlike \<open>step_ok\<close> this holds of the last two parts as well.\<close>

definition keeps :: "Source \<Rightarrow> Source run \<Rightarrow> bool" where
  "keeps x r \<longleftrightarrow> (\<exists>y. r = Inr y \<and> without_marks (so_types y) = without_marks (so_types x)
     \<and> (\<forall>rs most pd depth. source_ok rs most pd depth (so_types x) \<longrightarrow> source_ok rs most pd depth (so_types y)))"

lemma keeps_step: "step_ok x r \<Longrightarrow> keeps x r"
  by (auto simp: step_ok_def keeps_def without_marks_marks source_ok_marks)

lemma keeps_Inr [simp]: "keeps x (Inr x)"
  by (simp add: keeps_def)

lemma keeps_from: "so_types y = so_types x \<Longrightarrow> keeps y r \<Longrightarrow> keeps x r"
  by (simp add: keeps_def)

lemma keeps_then:
  "keeps x r \<Longrightarrow> (\<And>y. (\<And>rs most pd depth. source_ok rs most pd depth (so_types x) \<Longrightarrow> source_ok rs most pd depth (so_types y)) \<Longrightarrow> keeps y (f y))
    \<Longrightarrow> keeps x (and_then r f)"
  unfolding keeps_def by (elim exE conjE) (simp, metis)

lemma keeps_unmark_struct: "keeps x (Inr (on_types (unmark_struct n) x))"
  using without_marks_marks [OF marks_unmark_struct] source_ok_marks_iff [OF marks_unmark_struct] by (simp add: keeps_def)

lemma keeps_unmark_enum: "keeps x (Inr (on_types (unmark_enum n) x))"
  using without_marks_marks [OF marks_unmark_enum] source_ok_marks_iff [OF marks_unmark_enum] by (simp add: keeps_def)

lemma types_with_title [simp]: "so_types (with_title t b x) = so_types x"
  by (simp add: with_title_def)

lemma keeps_then_newline: "keeps x (f x) \<Longrightarrow> keeps x (then_newline f x)"
  by (auto simp: then_newline_def keeps_def)

lemma part_keeps:
  assumes "\<And>n st. n \<in> set ns \<Longrightarrow> source_ok rs most pd depth st \<Longrightarrow> \<exists>b. wanted n st = Inr b"
    and "\<And>n x. n \<in> set ns \<Longrightarrow> source_ok rs most pd depth (so_types x) \<Longrightarrow> keeps x (entry n x)"
    and "\<And>n x. keeps x (finish n x)"
    and "source_ok rs most pd depth (so_types x)"
  shows "keeps x (part title wanted entry finish titled ns x)"
  using assms
proof (induction ns arbitrary: x titled)
  case (Cons n ns)
  obtain b where b: "wanted n (so_types x) = Inr b" using Cons.prems(1) [of n] Cons.prems(4) by auto
  have e: "keeps x (if b then entry n (with_title title titled x) else Inr x)"
    using Cons.prems(2) [of n "with_title title titled x"] Cons.prems(4) keeps_from [of "with_title title titled x" x] by simp
  show ?case unfolding part.simps b and_then_simps
  proof (rule keeps_then [OF e])
    fix y :: Source
    assume y: "\<And>rs most pd depth. source_ok rs most pd depth (so_types x) \<Longrightarrow> source_ok rs most pd depth (so_types y)"
    show "keeps y (and_then (finish n y) (part title wanted entry finish (titled \<or> b) ns))"
      by (rule keeps_then [OF Cons.prems(3)], rule Cons.IH) (use Cons.prems y in auto)
  qed
qed simp

section \<open>Entries of the parts\<close>

definition enough :: "nat \<Rightarrow> ParseData \<Rightarrow> nat \<Rightarrow> bool" where
  "enough most pd fuel \<longleftrightarrow> (length (pi_structs pd) + 1) * most \<le> fuel"

lemma todo_bound: "todo pd st \<le> length (pi_structs pd)"
proof -
  have "todo pd st \<le> card (set (pi_structs pd))" unfolding todo_def by (rule card_mono) (auto simp: unwritten_def)
  then show ?thesis using card_length le_trans by blast
qed

lemma enough_budget: assumes "enough most pd fuel" shows "budget most pd st most fuel"
proof -
  have "todo pd st * most \<le> length (pi_structs pd) * most" by (intro mult_le_mono1 todo_bound)
  moreover have "length (pi_structs pd) * most + most \<le> fuel" using assms by (simp add: enough_def)
  ultimately show ?thesis unfolding budget_def by linarith
qed

lemma compound_entry_ok:
  assumes "enough most pd fuel" and ok: "source_ok rs most pd depth (so_types x)" and n: "n \<in> set (pi_structs pd)"
  shows "keeps x (add_struct_spec_string fuel depth sc pd n x)"
proof -
  obtain s where "structs (so_types x) n = Some s" using struct_exists [OF ok n] by blast
  moreover have "rs n < most" using source_okD(1) [OF ok n] by (simp add: struct_source_ok_def)
  ultimately show ?thesis unfolding add_struct_spec_string_def
    by (intro keeps_step add_struct_own_ok [OF add_struct_rec_ok ok n enough_budget [OF assms(1)]]) simp_all
qed

lemma run_map_all: "list_all (\<lambda>x. \<exists>y. f x = Inr y) xs \<Longrightarrow> \<exists>ys. run_map f xs = Inr ys"
  by (induction xs) auto

lemma list_decl_ok: assumes "list_source_ok rs most pd depth st l" shows "\<exists>t. add_typedef_list_decl_string st pd l = Inr t"
proof -
  have "list_all (\<lambda>t. \<exists>d. typedef_declarator st t = Inr d) (typedefs_of pd l)"
    using assms by (auto simp: list_source_ok_def typedef_declarator_def list_all_iff split: option.splits)
  from run_map_all [OF this] show ?thesis by (auto simp: add_typedef_list_decl_string_def)
qed

lemma list_entry_ok:
  assumes "enough most pd fuel" and ok: "source_ok rs most pd depth (so_types x)" and l: "l \<in> set (pi_typedef_lists pd)"
  shows "keeps x (add_typedef_list_spec_string fuel depth sc pd l x)"
proof -
  let ?x = "x\<lparr>so_s := ''typedef'', so_ss := \<lparr>ss_flags = F_KEYWORD, ss_pack = 0\<rparr>\<rparr>"
  obtain tdl where tdl: "typedef_lists (so_types x) l = Some tdl" "spec_ok rs pd depth (so_types x) most (tl_type tdl)"
    using source_okD(3) [OF ok l] by (auto simp: list_source_ok_def split: option.splits)
  have "step_ok ?x (add_type_spec_string_rec (add_struct_spec_string_rec fuel depth sc pd) sc pd (tl_type tdl) 0 ?x)"
    using ok tdl(2) enough_budget [OF assms(1)] by (intro add_type_ok [OF add_struct_rec_ok, of _ most]) simp_all
  then obtain y where y: "add_type_spec_string_rec (add_struct_spec_string_rec fuel depth sc pd) sc pd (tl_type tdl) 0 ?x = Inr y"
    "marks (so_types x) (so_types y)" by (auto simp: step_ok_def)
  obtain t where "add_typedef_list_decl_string (so_types y) pd l = Inr t"
    using list_decl_ok [OF source_okD(3) [OF source_ok_marks [OF y(2) ok] l]] by blast
  then have "step_ok x (add_typedef_list_spec_string fuel depth sc pd l x)"
    using tdl(1) y by (simp add: add_typedef_list_spec_string_def typedef_list_at_def)
  then show ?thesis by (rule keeps_step)
qed

lemma predeclared_ok:
  assumes ok: "source_ok rs most pd depth st" and target: "target_ok pd ts"
  shows "\<exists>r. predeclared st ts = Inr r"
proof (cases "ts_ptr ts")
  case None
  then show ?thesis by (auto simp: predeclared_def Let_def)
next
  case (Some n)
  show ?thesis
  proof (cases "has_flag (ts_tflags ts) T_ENUM")
    case True
    then show ?thesis using Some target enum_exists [OF ok, of n] by (auto simp: predeclared_def target_ok_def enum_at_def)
  next
    case False
    then show ?thesis using Some target struct_exists [OF ok, of n] by (auto simp: predeclared_def target_ok_def struct_at_def)
  qed
qed

lemma list_target:
  assumes "spec_ok rs pd depth st r ts"
  shows "has_flag (ts_tflags ts) T_ENUM \<or> has_flag (ts_tflags ts) T_COMPOUND \<Longrightarrow> target_ok pd ts"
  using assms by (auto simp: spec_ok_def split: if_splits)

lemma list_predeclared_ok:
  assumes ok: "source_ok rs most pd depth st" and spec: "spec_ok rs pd depth st r ts"
  shows "\<exists>r. predeclared st ts = Inr r"
proof (cases "has_flag (ts_tflags ts) T_ENUM \<or> has_flag (ts_tflags ts) T_COMPOUND")
  case True
  then show ?thesis using predeclared_ok [OF ok list_target [OF spec]] by blast
qed (simp add: predeclared_def)

lemma list_found:
  assumes ok: "source_ok rs most pd depth st" and l: "l \<in> set (pi_typedef_lists pd)"
  obtains tdl where "typedef_lists st l = Some tdl" "spec_ok rs pd depth st most (tl_type tdl)"
  using source_okD(3) [OF ok l] that by (auto simp: list_source_ok_def split: option.splits)

lemma wanted_predeclaration_ok:
  assumes ok: "source_ok rs most pd depth st" and l: "l \<in> set (pi_typedef_lists pd)"
  shows "\<exists>b. wanted_predeclaration l st = Inr b"
proof -
  obtain tdl where tdl: "typedef_lists st l = Some tdl" "spec_ok rs pd depth st most (tl_type tdl)" using list_found [OF ok l] .
  then show ?thesis using list_predeclared_ok [OF ok tdl(2)] by (auto simp: wanted_predeclaration_def typedef_list_at_def)
qed

lemma add_predeclaration_ok:
  assumes "enough most pd fuel" and ok: "source_ok rs most pd depth (so_types x)" and l: "l \<in> set (pi_typedef_lists pd)"
  shows "keeps x (add_predeclaration fuel depth sc pd l x)"
proof -
  obtain tdl where tdl: "typedef_lists (so_types x) l = Some tdl" "spec_ok rs pd depth (so_types x) most (tl_type tdl)" using list_found [OF ok l] .
  obtain r where r: "predeclared (so_types x) (tl_type tdl) = Inr r" using list_predeclared_ok [OF ok tdl(2)] by blast
  obtain t where t: "add_typedef_list_decl_string (so_types x) pd l = Inr t" using list_decl_ok [OF source_okD(3) [OF ok l]] by blast
  show ?thesis
  proof (cases "plain_typedef (tl_type tdl)")
    case True
    then show ?thesis using tdl(1) list_entry_ok [OF assms] by (simp add: add_predeclaration_def typedef_list_at_def)
  next
    case False
    then show ?thesis using tdl(1) r t by (auto simp: add_predeclaration_def typedef_list_at_def keeps_def split: option.split)
  qed
qed

lemma wanted_typedef_ok:
  assumes ok: "source_ok rs most pd depth st" and l: "l \<in> set (pi_typedef_lists pd)"
  shows "\<exists>b. wanted_typedef l st = Inr b"
proof -
  obtain tdl where tdl: "typedef_lists st l = Some tdl" "spec_ok rs pd depth st most (tl_type tdl)" using list_found [OF ok l] .
  let ?ts = "tl_type tdl"
  show ?thesis
  proof (cases "ts_ptr ?ts")
    case None
    then show ?thesis using tdl(1) by (auto simp: wanted_typedef_def typedef_list_at_def Let_def)
  next
    case (Some n)
    have e: "\<exists>b. (if has_flag (ts_tflags ?ts) T_ENUM then and_then (enum_at st (Some n)) (\<lambda>e. Inr (es_identifier e = [])) else Inr False) = Inr b"
      using list_target [OF tdl(2)] Some enum_exists [OF ok, of n] by (auto simp: target_ok_def enum_at_def)
    have s: "\<exists>b. (if has_flag (ts_tflags ?ts) T_COMPOUND then and_then (struct_at st (Some n)) (\<lambda>s. Inr (s_identifier s = [])) else Inr False) = Inr b"
      using list_target [OF tdl(2)] Some struct_exists [OF ok, of n] by (auto simp: target_ok_def struct_at_def)
    from e s show ?thesis using tdl(1) Some by (auto simp: wanted_typedef_def typedef_list_at_def Let_def)
  qed
qed

lemma wanted_enum_ok:
  assumes "source_ok rs most pd depth st" "n \<in> set (pi_enums pd)"
  shows "\<exists>b. defined_enum n st = Inr b" "\<exists>b. undefined_enum n st = Inr b"
  using enum_exists [OF assms] by (auto simp: defined_enum_def undefined_enum_def enum_at_def)

lemma wanted_compound_ok:
  assumes "source_ok rs most pd depth st" "n \<in> set (pi_structs pd)"
  shows "\<exists>b. defined_compound n st = Inr b" "\<exists>b. undefined_compound n st = Inr b"
  using struct_exists [OF assms] by (auto simp: defined_compound_def undefined_compound_def struct_at_def)

lemma get_parsed_definitions_ok:
  assumes en: "enough most pd fuel" and ok: "source_ok rs most pd depth (so_types x)"
  shows "keeps x (get_parsed_definitions fuel depth sc pd x)"
  unfolding get_parsed_definitions_def
proof (intro keeps_then)
  note ent = list_entry_ok [OF en] compound_entry_ok [OF en] keeps_step [OF add_enum_own_ok] add_predeclaration_ok [OF en]
  note wan = wanted_predeclaration_ok wanted_typedef_ok wanted_enum_ok wanted_compound_ok
  show "keeps x (part (section_title 0 ''typedef predeclarations'') wanted_predeclaration (add_predeclaration fuel depth sc pd)
       (\<lambda>_. Inr) False (pi_typedef_lists pd) x)"
    by (rule part_keeps [of _ rs most pd depth]) (use ent wan ok in auto)
  fix x1 :: Source assume "\<And>rs most pd depth. source_ok rs most pd depth (so_types x) \<Longrightarrow> source_ok rs most pd depth (so_types x1)"
  then have ok1: "source_ok rs most pd depth (so_types x1)" using ok by blast
  show "keeps x1 (part (section_title 2 ''typedefs'') wanted_typedef (\<lambda>l. then_newline (add_typedef_list_spec_string fuel depth sc pd l))
       (\<lambda>_. Inr) False (pi_typedef_lists pd) x1)"
    by (rule part_keeps [of _ rs most pd depth]) (use ent wan ok1 keeps_then_newline in auto)
  fix x2 :: Source assume "\<And>rs most pd depth. source_ok rs most pd depth (so_types x1) \<Longrightarrow> source_ok rs most pd depth (so_types x2)"
  then have ok2: "source_ok rs most pd depth (so_types x2)" using ok1 by blast
  show "keeps x2 (part (section_title 1 ''defined enums'') defined_enum (\<lambda>n. then_newline (add_enum_spec_string sc pd n))
       (\<lambda>_. Inr) False (pi_enums pd) x2)"
    by (rule part_keeps [of _ rs most pd depth]) (use ent wan ok2 keeps_then_newline in auto)
  fix x3 :: Source assume "\<And>rs most pd depth. source_ok rs most pd depth (so_types x2) \<Longrightarrow> source_ok rs most pd depth (so_types x3)"
  then have ok3: "source_ok rs most pd depth (so_types x3)" using ok2 by blast
  show "keeps x3 (part (section_title 1 ''defined structs and unions'') defined_compound
       (\<lambda>n. then_newline (add_struct_spec_string fuel depth sc pd n)) (\<lambda>_. Inr) False (pi_structs pd) x3)"
    by (rule part_keeps [of _ rs most pd depth]) (use ent wan ok3 keeps_then_newline in auto)
  fix x4 :: Source assume "\<And>rs most pd depth. source_ok rs most pd depth (so_types x3) \<Longrightarrow> source_ok rs most pd depth (so_types x4)"
  then have ok4: "source_ok rs most pd depth (so_types x4)" using ok3 by blast
  show "keeps x4 (part (section_title 1 ''undefined enums'') undefined_enum (\<lambda>n. then_newline (add_enum_spec_string sc pd n))
       (\<lambda>n x. Inr (on_types (unmark_enum n) x)) False (pi_enums pd) x4)"
    by (rule part_keeps [of _ rs most pd depth]) (use ent wan ok4 keeps_then_newline keeps_unmark_enum in auto)
  fix x5 :: Source assume "\<And>rs most pd depth. source_ok rs most pd depth (so_types x4) \<Longrightarrow> source_ok rs most pd depth (so_types x5)"
  then have ok5: "source_ok rs most pd depth (so_types x5)" using ok4 by blast
  show "keeps x5 (part (section_title 1 ''undefined/unnamed structs and unions'') undefined_compound
       (\<lambda>n. then_newline (add_struct_spec_string fuel depth sc pd n)) (\<lambda>n x. Inr (on_types (unmark_struct n) x)) False (pi_structs pd) x5)"
    by (rule part_keeps [of _ rs most pd depth]) (use ent wan ok5 keeps_then_newline keeps_unmark_struct in auto)
qed

section \<open>The whole text\<close>

text \<open>
  C14 Writing all parsed types as C source ends: when what the types refer to is in the lists, chains of type
  names end, and compounds without a name are not inside themselves (named ones may refer to each other in cycles, which the mark
  on written types breaks), then one level of recursion for each rank of each compound is enough, a text is returned, and
  the types are as they were but for the marks.
\<close>

theorem sourcify_terminates:
  assumes "source_ok rs most pd depth (pi_types pd)" and "(length (pi_structs pd) + 1) * most \<le> fuel"
  shows "\<exists>text st. get_parsed_definitions_string fuel depth sc macros pd = Inr (text, st) \<and> without_marks st = without_marks (pi_types pd)"
proof -
  let ?x = "\<lparr>so_types = pi_types pd, so_str = [], so_s = [], so_ss = \<lparr>ss_flags = 0, ss_pack = 0\<rparr>\<rparr>"
  have "keeps ?x (get_parsed_definitions fuel depth sc pd ?x)"
    using assms by (intro get_parsed_definitions_ok) (simp_all add: enough_def)
  then show ?thesis by (auto simp: keeps_def get_parsed_definitions_string_def)
qed

text \<open>
  \<^verbatim>\<open>struct s { struct s *p; }; struct { struct s x; } v;\<close>. The second compound has no name and nothing refers to it, so
  it is written in the last part, where the mark of the first has just been taken away.
\<close>

definition list_node :: Struct where
  "list_node = \<lparr>s_tflags = T_STRUCT, s_refcount = 1, s_align = 8, s_pack = 0, s_size = 8, s_declarations = Some
     [structdecl_new \<lparr>ts_ptr = Some 1, ts_tflags = T_STRUCT\<rparr> (Some [(decl_new (Some ''p'') 0)\<lparr>pointer_flag := True\<rparr>])],
     s_tags = [], s_id_len = 1, s_identifier = ''s''\<rparr>"

definition nameless :: Struct where
  "nameless = \<lparr>s_tflags = T_STRUCT, s_refcount = 0, s_align = 8, s_pack = 0, s_size = 8, s_declarations = Some
     [structdecl_new \<lparr>ts_ptr = Some 1, ts_tflags = T_STRUCT\<rparr> (Some [decl_new (Some ''x'') 0])],
     s_tags = [], s_id_len = 0, s_identifier = []\<rparr>"

definition sourced_data :: ParseData where
  "sourced_data = defined_data\<lparr>pi_types := no_state\<lparr>structs := [1 \<mapsto> list_node, 2 \<mapsto> nameless]\<rparr>, pi_structs := [1, 2]\<rparr>"

lemma sourced_data_ok: "source_ok id 3 sourced_data 0 (pi_types sourced_data)"
  by (simp add: source_ok_def sourced_data_def defined_data_def Let_def struct_source_ok_def context_ok_def no_state_def
      list_node_def nameless_def struct_declarations_def structdecl_new_def spec_ok_def target_ok_def below_def has_flag_def)

theorem sourcify_terminates_witness:
  "\<exists>text st. get_parsed_definitions_string 9 0 \<lparr>sc_context = True, sc_defines = True\<rparr> [''X 1''] sourced_data = Inr (text, st)
     \<and> without_marks st = without_marks (pi_types sourced_data)"
proof -
  have "length (pi_structs sourced_data) = 2" by (simp add: sourced_data_def)
  then show ?thesis using sourcify_terminates [OF sourced_data_ok, of 9 "\<lparr>sc_context = True, sc_defines = True\<rparr>" "[''X 1'']"] by simp
qed

lemma sourcify_defines_twice:
  "case get_parsed_definitions_string 9 0 \<lparr>sc_context = False, sc_defines = False\<rparr> [] sourced_data of Inl _ \<Rightarrow> False
   | Inr (text, st) \<Rightarrow>
       text = newline @ ''/* defined structs and unions */'' @ newline @ newline
         @ ''struct s'' @ newline @ ''{'' @ newline @ [CHR 0x09] @ ''struct s *p;'' @ newline @ ''};'' @ newline @ newline
         @ newline @ ''/* undefined/unnamed structs and unions */'' @ newline @ newline
         @ ''struct'' @ newline @ ''{'' @ newline
         @ [CHR 0x09] @ ''struct s'' @ newline @ [CHR 0x09] @ ''{'' @ newline @ [CHR 0x09, CHR 0x09] @ ''struct s *p;'' @ newline
         @ [CHR 0x09] @ ''} x;'' @ newline @ ''};'' @ newline @ newline
       \<and> (case structs st 1 of None \<Rightarrow> False | Some s \<Rightarrow> is_dumped (s_tflags s))"
  by code_simp

end
