(* ===== verification/Options.thy ===== *)
theory Options
  imports Type_Names Hash_Props
begin

text \<open>
  \<^verbatim>\<open>cbc/option.c\<close>: the options of an object, set from Perl values and given back. The names come from
  \<^verbatim>\<open>token/config.pl\<close>, \<^verbatim>\<open>token/parser.pl\<close> and \<^verbatim>\<open>token/blproperty.pl\<close>. An operation that fails leaves
  behind what it has changed until then, so it answers with the object as well as with the failure.
\<close>

section \<open>State\<close>

datatype CKeywordToken = SKIP_TOK | Keyword_token string

record CParseConfig =
  cfg_layout :: LayoutParam
  bflayouter :: BitfieldLayouter
  cfg_unsigned_chars :: bool
  cfg_unsigned_bitfields :: bool
  issue_warnings :: bool
  disable_parser :: bool
  has_cpp_comments :: bool
  has_macro_vaargs :: bool
  has_std_c :: bool
  has_std_c_hosted :: bool
  is_std_c_hosted :: bool
  std_c_version :: int
  cfg_keywords :: u_32
  disabled_list :: "string list"
  cfg_includes :: "string list"
  cfg_defines :: "string list"
  cfg_assertions :: "string list"
  keyword_table :: "CKeywordToken HashTable"

text \<open>\<open>ixhash\<close> names the Perl module that orders the members of hashes, once it is loaded.\<close>

record Converter =
  ob_cfg :: CParseConfig
  ob_cpi :: CParseInfo
  ob_enumType :: EnumType
  order_members :: bool
  ixhash :: "string option"
  ob_basic :: BasicTypes

type_synonym 'a change = "Converter \<Rightarrow> 'a logged \<times> Converter"

definition ch_run :: "'a logged \<Rightarrow> 'a change" where
  "ch_run r c = (r, c)"

definition ch_then :: "'a change \<Rightarrow> ('a \<Rightarrow> 'b change) \<Rightarrow> 'b change" where
  "ch_then m f c = (case m c of (Inl e, c) \<Rightarrow> (Inl e, c)
     | (Inr (x, ws), c) \<Rightarrow> (case f x c of (r, c) \<Rightarrow> (log_then (Inr (x, ws)) (\<lambda>_. r), c)))"

definition ch_cfg :: "(CParseConfig \<Rightarrow> CParseConfig) \<Rightarrow> unit change" where
  "ch_cfg f c = (quiet (), c\<lparr>ob_cfg := f (ob_cfg c)\<rparr>)"

section \<open>Checking values\<close>

fun choices :: "string \<Rightarrow> string \<Rightarrow> string list \<Rightarrow> string" where
  "choices sep last_sep [] = []"
| "choices sep last_sep [x] = x"
| "choices sep last_sep [x, y] = x @ last_sep @ y"
| "choices sep last_sep (x # y # z # zs) = x @ sep @ choices sep last_sep (y # z # zs)"

definition check_integer_option :: "perl \<Rightarrow> int list \<Rightarrow> SV \<Rightarrow> string \<Rightarrow> int run" where
  "check_integer_option pl options sv name =
     (if SvROK sv then Inl (Croaked (name @ '' must be an integer value, not a reference''))
      else let v = sint (SvIV pl sv) in
        if v \<in> set options then Inr v
        else Inl (Croaked (name @ '' must be '' @ choices '', '' '' or '' (map decimal options) @ '', not '' @ decimal v)))"

definition get_string_option :: "perl \<Rightarrow> ('v \<times> string) list \<Rightarrow> 'v \<Rightarrow> SV option \<Rightarrow> string \<Rightarrow> ('v \<times> string) run" where
  "get_string_option pl options val sv name = (case sv of
     Some sv \<Rightarrow>
       if SvROK sv then Inl (Croaked (name @ '' must be a string value, not a reference''))
       else (let s = c_string (SvPV pl sv) in case find (\<lambda>(v, t). t = s) options of Some opt \<Rightarrow> Inr opt
         | None \<Rightarrow> Inl (Croaked (name @ '' must be '' @ single_quoted (choices [CHR 0x27, CHR '','', CHR '' '', CHR 0x27]
             ([CHR 0x27] @ '' or '' @ [CHR 0x27]) (map snd options)) @ '', not '' @ single_quoted s)))
   | None \<Rightarrow> (case find (\<lambda>(v, t). v = val) options of Some opt \<Rightarrow> Inr opt | None \<Rightarrow> Inl Fatal_error))"

definition ByteOrderOption :: "(CByteOrder \<times> string) list" where
  "ByteOrderOption = [(CBO_BIG_ENDIAN, ''BigEndian''), (CBO_LITTLE_ENDIAN, ''LittleEndian'')]"

definition EnumTypeOption :: "(EnumType \<times> string) list" where
  "EnumTypeOption = [(ET_INTEGER, ''Integer''), (ET_STRING, ''String''), (ET_BOTH, ''Both'')]"

section \<open>Keywords\<close>

definition keyword_flags :: "(string \<times> u_32) list" where
  "keyword_flags = [(''auto'', 0x1), (''const'', 0x2), (''double'', 0x4), (''enum'', 0x8), (''extern'', 0x10), (''float'', 0x20),
     (''inline'', 0x40), (''long'', 0x80), (''register'', 0x100), (''restrict'', 0x200), (''short'', 0x400), (''signed'', 0x800),
     (''static'', 0x1000), (''unsigned'', 0x2000), (''void'', 0x4000), (''volatile'', 0x8000), (''asm'', 0x10000)]"

definition HAS_ALL_KEYWORDS :: u_32 where
  "HAS_ALL_KEYWORDS = 0x0001FFFF"

definition other_keywords :: "string list" where
  "other_keywords = [''break'', ''case'', ''char'', ''continue'', ''default'', ''do'', ''else'', ''for'', ''goto'', ''if'', ''int'',
     ''return'', ''sizeof'', ''struct'', ''switch'', ''typedef'', ''union'', ''while'']"

definition get_c_keyword_token :: "string \<Rightarrow> CKeywordToken option" where
  "get_c_keyword_token name = (if name \<in> set (map fst keyword_flags @ other_keywords) then Some (Keyword_token name) else None)"

definition token_name :: "CKeywordToken \<Rightarrow> string option" where
  "token_name t = (case t of SKIP_TOK \<Rightarrow> None | Keyword_token name \<Rightarrow> Some name)"

fun disable_keywords :: "perl \<Rightarrow> SV option list \<Rightarrow> u_32 \<Rightarrow> string list \<Rightarrow> (u_32 \<times> string list) run" where
  "disable_keywords pl [] kws list = Inr (kws, list)"
| "disable_keywords pl (None # av) kws list = Inl Fatal_error"
| "disable_keywords pl (Some sv # av) kws list = (let s = c_string (SvPV pl sv) in case map_of keyword_flags s of
     None \<Rightarrow> Inl (Croaked (''Cannot disable unknown keyword '' @ single_quoted s))
   | Some flag \<Rightarrow> disable_keywords pl av (kws AND NOT flag) (list @ [s]))"

definition string_list_ref :: "string list \<Rightarrow> SV" where
  "string_list_ref ss = AVref (map (\<lambda>s. Some (newSVpv s)) ss)"

text \<open>A value is given back when it is wanted.\<close>

definition wanted :: "bool \<Rightarrow> (CParseConfig \<Rightarrow> SV run) \<Rightarrow> SV option change" where
  "wanted want f c = (if want then and_then (f (ob_cfg c)) (\<lambda>sv. quiet (Some sv)) else quiet None, c)"

definition disabled_keywords :: "perl \<Rightarrow> SV option \<Rightarrow> bool \<Rightarrow> SV option change" where
  "disabled_keywords pl sv want = ch_then
     (case sv of None \<Rightarrow> ch_run (quiet ())
      | Some (AVref av) \<Rightarrow> (case disable_keywords pl av HAS_ALL_KEYWORDS [] of Inl e \<Rightarrow> ch_run (Inl e)
          | Inr (kws, list) \<Rightarrow> ch_cfg (\<lambda>cfg. cfg\<lparr>cfg_keywords := kws, disabled_list := list\<rparr>))
      | Some sv \<Rightarrow> ch_run (Inl (Croaked (if SvROK sv then ''DisabledKeywords wants an array reference''
          else ''DisabledKeywords wants a reference to an array of strings''))))
     (\<lambda>_. wanted want (\<lambda>cfg. Inr (string_list_ref (disabled_list cfg))))"

definition cannot_use :: "string \<Rightarrow> fault" where
  "cannot_use s = Croaked (''Cannot use '' @ single_quoted s @ '' as a keyword'')"

definition keyword_token :: "perl \<Rightarrow> SV \<Rightarrow> CKeywordToken run" where
  "keyword_token pl v =
     (if \<not> SvOK v then Inr SKIP_TOK
      else if SvROK v then Inl (Croaked ''Cannot use a reference as a keyword'')
      else case get_c_keyword_token (c_string (SvPV pl v)) of None \<Rightarrow> Inl (cannot_use (c_string (SvPV pl v))) | Some t \<Rightarrow> Inr t)"

definition keyword_key :: "string \<Rightarrow> string run" where
  "keyword_key key = (let s = c_string key in
     if s = [] then Inl (Croaked ''Cannot use empty string as a keyword'')
     else if dropWhile (\<lambda>c. c = CHR ''_'' \<or> isalpha c) s \<noteq> [] then Inl (cannot_use s) else Inr key)"

fun map_keywords :: "bool \<Rightarrow> perl \<Rightarrow> HV \<Rightarrow> CKeywordToken HashTable \<Rightarrow> CKeywordToken HashTable run" where
  "map_keywords uc pl [] t = Inr t"
| "map_keywords uc pl ((key, v) # hv) t = and_then (keyword_key key) (\<lambda>key. and_then (keyword_token pl v) (\<lambda>tok.
     map_keywords uc pl hv (snd (HT_store uc (ht_count t) t key (length key) 0 (Some tok)))))"

definition keyword_entries :: "CKeywordToken entry list \<Rightarrow> HV run" where
  "keyword_entries es = and_then (run_map (\<lambda>(key, len, tok). case tok of None \<Rightarrow> Inl Undefined_behaviour
       | Some t \<Rightarrow> Inr (key, case token_name t of None \<Rightarrow> Undef | Some name \<Rightarrow> newSVpv name)) es)
     (\<lambda>kvs. Inr (fold (\<lambda>(k, v) hv. hv_store hv k v) kvs []))"

definition keyword_hash :: "CKeywordToken HashTable \<Rightarrow> HV run" where
  "keyword_hash t = and_then (HT_foreach (ht_count t + 1) \<lparr>hi_node = [], hi_bucket = [], hi_remain = 0\<rparr> (Some t)) keyword_entries"

definition keyword_map :: "bool \<Rightarrow> perl \<Rightarrow> SV option \<Rightarrow> bool \<Rightarrow> SV option change" where
  "keyword_map uc pl sv want = ch_then
     (case sv of None \<Rightarrow> ch_run (quiet ())
      | Some (HVref hv) \<Rightarrow> (case and_then (HT_new_ex 4 HT_AUTOGROW) (map_keywords uc pl hv) of Inl e \<Rightarrow> ch_run (Inl e)
          | Inr t \<Rightarrow> ch_cfg (\<lambda>cfg. cfg\<lparr>keyword_table := t\<rparr>))
      | Some sv \<Rightarrow> ch_run (Inl (Croaked ''KeywordMap wants a hash reference'')))
     (\<lambda>_. wanted want (\<lambda>cfg. and_then (keyword_hash (keyword_table cfg)) (\<lambda>hv. Inr (HVref hv))))"

section \<open>The bit-field layouter\<close>

datatype BLPVType = BLPVT_is_int | BLPVT_is_str

record BLOption =
  bo_prop :: BLProperty
  bo_type :: BLPVType
  bo_allowed :: "BLPropValue list"

definition bl_options :: "BitfieldLayouter \<Rightarrow> BLOption list" where
  "bl_options bl = (case bl of Simple _ \<Rightarrow> [\<lparr>bo_prop = BLP_BLOCK_SIZE, bo_type = BLPVT_is_int, bo_allowed = []\<rparr>] | _ \<Rightarrow> [])"

definition property_names :: "(BLProperty \<times> string) list" where
  "property_names = [(BLP_ALIGN, ''Align''), (BLP_BLOCK_SIZE, ''BlockSize''), (BLP_BYTE_ORDER, ''ByteOrder''),
     (BLP_MAX_ALIGN, ''MaxAlign''), (BLP_OFFSET, ''Offset'')]"

definition propval_names :: "(BLPropValStr \<times> string) list" where
  "propval_names = [(BLPV_BIG_ENDIAN, ''BigEndian''), (BLPV_LITTLE_ENDIAN, ''LittleEndian'')]"

definition bl_property :: "string \<Rightarrow> BLProperty" where
  "bl_property s = (case find (\<lambda>(p, t). t = s) property_names of None \<Rightarrow> INVALID_BLPROPERTY | Some (p, t) \<Rightarrow> p)"

definition bl_propval :: "string \<Rightarrow> BLPropValStr" where
  "bl_propval s = (case find (\<lambda>(p, t). t = s) propval_names of None \<Rightarrow> INVALID_BLPROPVAL | Some (p, t) \<Rightarrow> p)"

definition bl_property_string :: "BLProperty \<Rightarrow> string option" where
  "bl_property_string p = map_of property_names p"

definition bl_propval_string :: "BLPropValStr \<Rightarrow> string option" where
  "bl_propval_string p = map_of propval_names p"

definition prop_value :: "perl \<Rightarrow> BLPVType \<Rightarrow> SV \<Rightarrow> BLPropValue" where
  "prop_value pl t v = (case t of BLPVT_is_int \<Rightarrow> BLPVT_INT (sint (SvIV pl v)) | BLPVT_is_str \<Rightarrow> BLPVT_STR (bl_propval (c_string (SvPV pl v))))"

definition invalid_value :: "perl \<Rightarrow> SV \<Rightarrow> string \<Rightarrow> fault" where
  "invalid_value pl v prop = Croaked (''Invalid value '' @ single_quoted (c_string (SvPV pl v)) @ '' for option '' @ single_quoted prop)"

definition set_bl_option :: "perl \<Rightarrow> string \<Rightarrow> SV \<Rightarrow> BitfieldLayouter \<Rightarrow> BitfieldLayouter run" where
  "set_bl_option pl key v bl = (let prop = c_string key in
     case find (\<lambda>opt. bo_prop opt = bl_property prop) (bl_options bl) of
       None \<Rightarrow> Inl (Croaked (''Invalid option '' @ single_quoted prop @ '' for bitfield layout engine '' @ single_quoted (bl_class_name bl)))
     | Some opt \<Rightarrow> (let val = prop_value pl (bo_type opt) v in
         if bo_allowed opt \<noteq> [] \<and> val \<notin> set (bo_allowed opt) then Inl (invalid_value pl v prop)
         else and_then (bl_set bl (bo_prop opt) val) (\<lambda>(err, bl). case err of
             BLE_NO_ERROR \<Rightarrow> Inr bl
           | BLE_INVALID_PROPERTY \<Rightarrow> Inl (invalid_value pl v prop)
           | _ \<Rightarrow> Inl Fatal_error)))"

text \<open>The layouter as far as it got, and whether all options could be set.\<close>

fun set_bl_options :: "perl \<Rightarrow> HV \<Rightarrow> BitfieldLayouter \<Rightarrow> unit run \<times> BitfieldLayouter" where
  "set_bl_options pl [] bl = (Inr (), bl)"
| "set_bl_options pl ((key, v) # hv) bl =
     (if c_string key = ''Engine'' then set_bl_options pl hv bl
      else case set_bl_option pl key v bl of Inl e \<Rightarrow> (Inl e, bl) | Inr bl \<Rightarrow> set_bl_options pl hv bl)"

definition get_bl_option :: "BitfieldLayouter \<Rightarrow> BLOption \<Rightarrow> (string \<times> SV) run" where
  "get_bl_option bl opt = (case bl_get bl (bo_prop opt) of
     (BLE_NO_ERROR, Some val) \<Rightarrow> (case bl_property_string (bo_prop opt) of None \<Rightarrow> Inl Assertion_failed
       | Some name \<Rightarrow> (case (bo_type opt, val) of
           (BLPVT_is_int, BLPVT_INT i) \<Rightarrow> Inr (name, newSViv i)
         | (BLPVT_is_str, BLPVT_STR s) \<Rightarrow> (case bl_propval_string s of None \<Rightarrow> Inl Assertion_failed | Some t \<Rightarrow> Inr (name, newSVpv t))
         | _ \<Rightarrow> Inl Assertion_failed))
   | _ \<Rightarrow> Inl Fatal_error)"

definition layouter_hash :: "BitfieldLayouter \<Rightarrow> SV run" where
  "layouter_hash bl = and_then (run_map (get_bl_option bl) (bl_options bl)) (\<lambda>kvs.
     Inr (HVref (fold (\<lambda>(k, v) hv. hv_store hv k v) kvs [(''Engine'', newSVpv (bl_class_name bl))])))"

text \<open>A new engine takes the place of the old one when all its options are set; without one the engine that is there is changed.\<close>

definition set_bitfields :: "perl \<Rightarrow> HV \<Rightarrow> unit change" where
  "set_bitfields pl hv c = (case hv_fetch hv ''Engine'' of
     Some sv \<Rightarrow> (let name = c_string (SvPV pl sv) in case bl_create name of
         None \<Rightarrow> ch_run (Inl (Croaked (''Unknown bitfield layout engine '' @ single_quoted name))) c
       | Some new \<Rightarrow> (case set_bl_options pl hv new of
           (Inl e, _) \<Rightarrow> ch_run (Inl e) c
         | (Inr _, bl) \<Rightarrow> ch_cfg (\<lambda>cfg. cfg\<lparr>bflayouter := bl\<rparr>) c))
   | None \<Rightarrow> (case set_bl_options pl hv (bflayouter (ob_cfg c)) of (r, bl) \<Rightarrow>
       ch_then (ch_cfg (\<lambda>cfg. cfg\<lparr>bflayouter := bl\<rparr>)) (\<lambda>_. ch_run (and_then r quiet)) c))"

definition bitfields_option :: "perl \<Rightarrow> SV option \<Rightarrow> bool \<Rightarrow> SV option change" where
  "bitfields_option pl sv want = ch_then
     (case sv of None \<Rightarrow> ch_run (quiet ()) | Some (HVref hv) \<Rightarrow> set_bitfields pl hv
      | Some sv \<Rightarrow> ch_run (Inl (Croaked ''Bitfields wants a hash reference'')))
     (\<lambda>_. wanted want (\<lambda>cfg. layouter_hash (bflayouter cfg)))"

section \<open>Lists of strings\<close>

text \<open>The strings that have been read until a slot of the array is found empty.\<close>

fun push_strings :: "perl \<Rightarrow> SV option list \<Rightarrow> string list \<Rightarrow> unit run \<times> string list" where
  "push_strings pl [] list = (Inr (), list)"
| "push_strings pl (None # av) list = (Inl Fatal_error, list)"
| "push_strings pl (Some sv # av) list = push_strings pl av (list @ [c_string (SvPV pl sv)])"

text \<open>The old strings are gone before the value is looked at.\<close>

definition handle_string_list ::
  "perl \<Rightarrow> string \<Rightarrow> (CParseConfig \<Rightarrow> string list) \<Rightarrow> (string list \<Rightarrow> CParseConfig \<Rightarrow> CParseConfig) \<Rightarrow> SV option \<Rightarrow> bool \<Rightarrow> SV option change" where
  "handle_string_list pl option get set_list sv want = ch_then
     (case sv of None \<Rightarrow> ch_run (quiet ())
      | Some sv \<Rightarrow> ch_then (ch_cfg (set_list [])) (\<lambda>_. case sv of
            AVref av \<Rightarrow> (case push_strings pl av [] of (r, list) \<Rightarrow> ch_then (ch_cfg (set_list list)) (\<lambda>_. ch_run (and_then r quiet)))
          | sv \<Rightarrow> ch_run (Inl (Croaked (option @ (if SvROK sv then '' wants an array reference''
              else '' wants a reference to an array of strings''))))))
     (\<lambda>_. wanted want (\<lambda>cfg. Inr (string_list_ref (get cfg))))"

section \<open>Ordered members\<close>

text \<open>\<open>loads\<close> tells which modules Perl can load; the first of the list is the one the user prefers, when there is one.\<close>

definition default_modules :: "string list" where
  "default_modules = [''Tie::Hash::Indexed'', ''Hash::Ordered'', ''Tie::IxHash'']"

definition no_module :: string where
  "no_module = ''Couldn't load a module for member ordering (consider installing '' @ choices '', '' '' or '' default_modules @ '')''"

definition load_indexed_hash_module :: "(string \<Rightarrow> bool) \<Rightarrow> string option \<Rightarrow> bool change" where
  "load_indexed_hash_module loads preferred c =
     (if ixhash c \<noteq> None then (quiet True, c)
      else let ws = (case preferred of None \<Rightarrow> [] | Some m \<Rightarrow> if loads m then []
          else [''Couldn't load '' @ m @ '' for member ordering, trying default modules'']) in
        case find loads ((case preferred of None \<Rightarrow> [] | Some m \<Rightarrow> [m]) @ default_modules) of
          Some m \<Rightarrow> (Inr (True, ws), c\<lparr>ixhash := Some m\<rparr>)
        | None \<Rightarrow> (Inr (False, ws @ [no_module]), c))"

section \<open>One option\<close>

datatype ConfigOption = OPTION_UnsignedBitfields | OPTION_UnsignedChars | OPTION_Warnings | OPTION_PointerSize | OPTION_EnumSize
  | OPTION_IntSize | OPTION_CharSize | OPTION_ShortSize | OPTION_LongSize | OPTION_LongLongSize | OPTION_FloatSize
  | OPTION_DoubleSize | OPTION_LongDoubleSize | OPTION_Alignment | OPTION_CompoundAlignment | OPTION_Include | OPTION_Define
  | OPTION_Assert | OPTION_DisabledKeywords | OPTION_KeywordMap | OPTION_ByteOrder | OPTION_EnumType | OPTION_HasCPPComments
  | OPTION_HasMacroVAARGS | OPTION_OrderMembers | OPTION_Bitfields | OPTION_StdCVersion | OPTION_HostedC

definition option_names :: "(ConfigOption \<times> string) list" where
  "option_names = [(OPTION_UnsignedBitfields, ''UnsignedBitfields''), (OPTION_UnsignedChars, ''UnsignedChars''),
     (OPTION_Warnings, ''Warnings''), (OPTION_PointerSize, ''PointerSize''), (OPTION_EnumSize, ''EnumSize''), (OPTION_IntSize, ''IntSize''),
     (OPTION_CharSize, ''CharSize''), (OPTION_ShortSize, ''ShortSize''), (OPTION_LongSize, ''LongSize''),
     (OPTION_LongLongSize, ''LongLongSize''), (OPTION_FloatSize, ''FloatSize''), (OPTION_DoubleSize, ''DoubleSize''),
     (OPTION_LongDoubleSize, ''LongDoubleSize''), (OPTION_Alignment, ''Alignment''), (OPTION_CompoundAlignment, ''CompoundAlignment''),
     (OPTION_Include, ''Include''), (OPTION_Define, ''Define''), (OPTION_Assert, ''Assert''), (OPTION_DisabledKeywords, ''DisabledKeywords''),
     (OPTION_KeywordMap, ''KeywordMap''), (OPTION_ByteOrder, ''ByteOrder''), (OPTION_EnumType, ''EnumType''),
     (OPTION_HasCPPComments, ''HasCPPComments''), (OPTION_HasMacroVAARGS, ''HasMacroVAARGS''), (OPTION_OrderMembers, ''OrderMembers''),
     (OPTION_Bitfields, ''Bitfields''), (OPTION_StdCVersion, ''StdCVersion''), (OPTION_HostedC, ''HostedC'')]"

definition get_config_option :: "string \<Rightarrow> ConfigOption option" where
  "get_config_option s = map_option fst (find (\<lambda>(p, t). t = s) option_names)"

definition option_name :: "ConfigOption \<Rightarrow> string" where
  "option_name opt = the (map_of option_names opt)"

record HandleOptionResult =
  option_modified :: bool
  impacts_layout :: bool
  impacts_preproc :: bool

definition flag_value :: "bool \<Rightarrow> int" where
  "flag_value b = (if b then 1 else 0)"

text \<open>The conditional operator binds weaker than the comparison: any number but 0 and 1 counts as a change.\<close>

definition FLAG_OPTION ::
  "perl \<Rightarrow> string \<Rightarrow> (Converter \<Rightarrow> bool) \<Rightarrow> (bool \<Rightarrow> Converter \<Rightarrow> Converter) \<Rightarrow> SV option \<Rightarrow> bool \<Rightarrow> (SV option \<times> bool) change" where
  "FLAG_OPTION pl name get set_flag sv want c = (case sv of
       None \<Rightarrow> (quiet (if want then Some (newSViv (flag_value (get c))) else None, False), c)
     | Some v \<Rightarrow>
         if SvROK v then (Inl (Croaked (name @ '' must be a boolean value, not a reference'')), c)
         else (let i = sint (SvIV pl v); changed = (flag_value (get c) \<noteq> i); c = (if changed then set_flag (i \<noteq> 0) c else c) in
           (quiet (if want then Some (newSViv (flag_value (get c))) else None, changed), c)))"

definition IVAL_OPTION ::
  "perl \<Rightarrow> string \<Rightarrow> int list \<Rightarrow> (LayoutParam \<Rightarrow> int) \<Rightarrow> (int \<Rightarrow> LayoutParam \<Rightarrow> LayoutParam) \<Rightarrow> SV option \<Rightarrow> bool \<Rightarrow> (SV option \<times> bool) change" where
  "IVAL_OPTION pl name options get set_int sv want c = (let give = (\<lambda>c. if want then Some (newSViv (get (cfg_layout (ob_cfg c)))) else None) in
     case sv of None \<Rightarrow> (quiet (give c, False), c)
     | Some v \<Rightarrow> (case check_integer_option pl options v name of Inl e \<Rightarrow> (Inl e, c)
         | Inr i \<Rightarrow> (let changed = (get (cfg_layout (ob_cfg c)) \<noteq> i);
             c = (if changed then c\<lparr>ob_cfg := (ob_cfg c)\<lparr>cfg_layout := set_int i (cfg_layout (ob_cfg c))\<rparr>\<rparr> else c) in
             (quiet (give c, changed), c))))"

text \<open>Whether the option is defined is set before the value is looked at.\<close>

definition TRISTATE_OPTION ::
  "string \<Rightarrow> string \<Rightarrow> (CParseConfig \<Rightarrow> bool) \<Rightarrow> (bool \<Rightarrow> CParseConfig \<Rightarrow> CParseConfig) \<Rightarrow> (CParseConfig \<Rightarrow> int) \<Rightarrow>
    (SV \<Rightarrow> int) \<Rightarrow> (int \<Rightarrow> CParseConfig \<Rightarrow> CParseConfig) \<Rightarrow> SV option \<Rightarrow> bool \<Rightarrow> (SV option \<times> bool) change" where
  "TRISTATE_OPTION name kind state set_state get iv_of set_int sv want c =
     (let give = (\<lambda>c. if want then Some (if state (ob_cfg c) then newSViv (get (ob_cfg c)) else Undef) else None) in
     case sv of None \<Rightarrow> (quiet (give c, False), c)
     | Some v \<Rightarrow> (let isdef = SvOK v; changed = (isdef \<noteq> state (ob_cfg c)); c = c\<lparr>ob_cfg := set_state isdef (ob_cfg c)\<rparr> in
         if \<not> isdef then (quiet (give c, changed), c)
         else if SvROK v then (Inl (Croaked (name @ '' must be undef or '' @ kind @ '' value, not a reference'')), c)
         else (let differs = (get (ob_cfg c) \<noteq> iv_of v); c = (if differs then c\<lparr>ob_cfg := set_int (iv_of v) (ob_cfg c)\<rparr> else c) in
           (quiet (give c, changed \<or> differs), c))))"

definition STRING_OPTION ::
  "perl \<Rightarrow> ('v \<times> string) list \<Rightarrow> string \<Rightarrow> (Converter \<Rightarrow> 'v) \<Rightarrow> ('v \<Rightarrow> Converter \<Rightarrow> Converter) \<Rightarrow> SV option \<Rightarrow> bool \<Rightarrow> (SV option \<times> bool) change" where
  "STRING_OPTION pl options name get set_val sv want c = (let give = (\<lambda>c. if want
         then and_then (get_string_option pl options (get c) None name) (\<lambda>(v, s). Inr (Some (newSVpv s))) else Inr None) in
     case sv of None \<Rightarrow> (and_then (give c) (\<lambda>r. quiet (r, False)), c)
     | Some v \<Rightarrow> (case get_string_option pl options (get c) (Some v) name of Inl e \<Rightarrow> (Inl e, c)
         | Inr (val, s) \<Rightarrow> (let changed = (get c \<noteq> val); c = (if changed then set_val val c else c) in
             (and_then (give c) (\<lambda>r. quiet (r, changed)), c))))"

text \<open>Lists and tables count as changed whenever a value is given.\<close>

definition SET_OPTION :: "SV option \<Rightarrow> SV option change \<Rightarrow> (SV option \<times> bool) change" where
  "SET_OPTION sv op = ch_then op (\<lambda>r. ch_run (quiet (r, sv \<noteq> None)))"

definition IntSizeOption :: "int list" where
  "IntSizeOption = [0, 1, 2, 4, 8]"

definition EnumSizeOption :: "int list" where
  "EnumSizeOption = [-1, 0, 1, 2, 4, 8]"

definition FloatSizeOption :: "int list" where
  "FloatSizeOption = [0, 1, 2, 4, 8, 12, 16]"

definition AlignmentOption :: "int list" where
  "AlignmentOption = [0, 1, 2, 4, 8, 16]"

definition in_cfg :: "(CParseConfig \<Rightarrow> CParseConfig) \<Rightarrow> Converter \<Rightarrow> Converter" where
  "in_cfg f c = c\<lparr>ob_cfg := f (ob_cfg c)\<rparr>"

definition set_option :: "bool \<Rightarrow> perl \<Rightarrow> ConfigOption \<Rightarrow> SV option \<Rightarrow> bool \<Rightarrow> (SV option \<times> bool) change" where
  "set_option uc pl opt sv want = (let name = option_name opt in case opt of
     OPTION_OrderMembers \<Rightarrow> FLAG_OPTION pl name order_members (\<lambda>b. order_members_update (\<lambda>_. b)) sv want
   | OPTION_Warnings \<Rightarrow> FLAG_OPTION pl name (\<lambda>c. issue_warnings (ob_cfg c)) (\<lambda>b. in_cfg (issue_warnings_update (\<lambda>_. b))) sv want
   | OPTION_HasCPPComments \<Rightarrow> FLAG_OPTION pl name (\<lambda>c. has_cpp_comments (ob_cfg c)) (\<lambda>b. in_cfg (has_cpp_comments_update (\<lambda>_. b))) sv want
   | OPTION_HasMacroVAARGS \<Rightarrow> FLAG_OPTION pl name (\<lambda>c. has_macro_vaargs (ob_cfg c)) (\<lambda>b. in_cfg (has_macro_vaargs_update (\<lambda>_. b))) sv want
   | OPTION_UnsignedChars \<Rightarrow> FLAG_OPTION pl name (\<lambda>c. cfg_unsigned_chars (ob_cfg c)) (\<lambda>b. in_cfg (cfg_unsigned_chars_update (\<lambda>_. b))) sv want
   | OPTION_UnsignedBitfields \<Rightarrow> FLAG_OPTION pl name (\<lambda>c. cfg_unsigned_bitfields (ob_cfg c))
       (\<lambda>b. in_cfg (cfg_unsigned_bitfields_update (\<lambda>_. b))) sv want
   | OPTION_PointerSize \<Rightarrow> IVAL_OPTION pl name IntSizeOption ptr_size (\<lambda>i. ptr_size_update (\<lambda>_. i)) sv want
   | OPTION_EnumSize \<Rightarrow> IVAL_OPTION pl name EnumSizeOption enum_size (\<lambda>i. enum_size_update (\<lambda>_. i)) sv want
   | OPTION_IntSize \<Rightarrow> IVAL_OPTION pl name IntSizeOption int_size (\<lambda>i. int_size_update (\<lambda>_. i)) sv want
   | OPTION_CharSize \<Rightarrow> IVAL_OPTION pl name IntSizeOption char_size (\<lambda>i. char_size_update (\<lambda>_. i)) sv want
   | OPTION_ShortSize \<Rightarrow> IVAL_OPTION pl name IntSizeOption short_size (\<lambda>i. short_size_update (\<lambda>_. i)) sv want
   | OPTION_LongSize \<Rightarrow> IVAL_OPTION pl name IntSizeOption long_size (\<lambda>i. long_size_update (\<lambda>_. i)) sv want
   | OPTION_LongLongSize \<Rightarrow> IVAL_OPTION pl name IntSizeOption long_long_size (\<lambda>i. long_long_size_update (\<lambda>_. i)) sv want
   | OPTION_FloatSize \<Rightarrow> IVAL_OPTION pl name FloatSizeOption float_size (\<lambda>i. float_size_update (\<lambda>_. i)) sv want
   | OPTION_DoubleSize \<Rightarrow> IVAL_OPTION pl name FloatSizeOption double_size (\<lambda>i. double_size_update (\<lambda>_. i)) sv want
   | OPTION_LongDoubleSize \<Rightarrow> IVAL_OPTION pl name FloatSizeOption long_double_size (\<lambda>i. long_double_size_update (\<lambda>_. i)) sv want
   | OPTION_Alignment \<Rightarrow> IVAL_OPTION pl name AlignmentOption alignment (\<lambda>i. alignment_update (\<lambda>_. i)) sv want
   | OPTION_CompoundAlignment \<Rightarrow> IVAL_OPTION pl name AlignmentOption compound_alignment (\<lambda>i. compound_alignment_update (\<lambda>_. i)) sv want
   | OPTION_HostedC \<Rightarrow> TRISTATE_OPTION name ''a boolean'' has_std_c_hosted (\<lambda>b. has_std_c_hosted_update (\<lambda>_. b))
       (\<lambda>cfg. flag_value (is_std_c_hosted cfg)) (\<lambda>v. sint (SvIV pl v)) (\<lambda>i. is_std_c_hosted_update (\<lambda>_. i \<noteq> 0)) sv want
   | OPTION_StdCVersion \<Rightarrow> TRISTATE_OPTION name ''an integer'' has_std_c (\<lambda>b. has_std_c_update (\<lambda>_. b))
       std_c_version (\<lambda>v. sint (SvIV pl v)) (\<lambda>i. std_c_version_update (\<lambda>_. i)) sv want
   | OPTION_Include \<Rightarrow> SET_OPTION sv (handle_string_list pl name cfg_includes (\<lambda>l. cfg_includes_update (\<lambda>_. l)) sv want)
   | OPTION_Define \<Rightarrow> SET_OPTION sv (handle_string_list pl name cfg_defines (\<lambda>l. cfg_defines_update (\<lambda>_. l)) sv want)
   | OPTION_Assert \<Rightarrow> SET_OPTION sv (handle_string_list pl name cfg_assertions (\<lambda>l. cfg_assertions_update (\<lambda>_. l)) sv want)
   | OPTION_DisabledKeywords \<Rightarrow> SET_OPTION sv (disabled_keywords pl sv want)
   | OPTION_KeywordMap \<Rightarrow> SET_OPTION sv (keyword_map uc pl sv want)
   | OPTION_ByteOrder \<Rightarrow> STRING_OPTION pl ByteOrderOption name (\<lambda>c. lp_byte_order (cfg_layout (ob_cfg c)))
       (\<lambda>v. in_cfg (cfg_layout_update (lp_byte_order_update (\<lambda>_. v)))) sv want
   | OPTION_EnumType \<Rightarrow> STRING_OPTION pl EnumTypeOption name ob_enumType (\<lambda>v. ob_enumType_update (\<lambda>_. v)) sv want
   | OPTION_Bitfields \<Rightarrow> SET_OPTION sv (bitfields_option pl sv want))"

definition option_impacts_layout :: "ConfigOption \<Rightarrow> bool" where
  "option_impacts_layout opt \<longleftrightarrow> opt \<in> {OPTION_PointerSize, OPTION_EnumSize, OPTION_IntSize, OPTION_CharSize, OPTION_ShortSize, OPTION_LongSize,
     OPTION_LongLongSize, OPTION_FloatSize, OPTION_DoubleSize, OPTION_LongDoubleSize, OPTION_Alignment, OPTION_CompoundAlignment,
     OPTION_ByteOrder, OPTION_Bitfields}"

definition option_impacts_preproc :: "ConfigOption \<Rightarrow> bool" where
  "option_impacts_preproc opt \<longleftrightarrow> opt \<in> {OPTION_HasCPPComments, OPTION_HasMacroVAARGS, OPTION_HostedC, OPTION_StdCVersion,
     OPTION_Include, OPTION_Define, OPTION_Assert}"

text \<open>What Perl provides besides its values: the modules for ordered hashes, and whether a plain \<open>char\<close> is unsigned, for the hash sums.\<close>

record interpreter =
  in_perl :: perl
  plain_char_unsigned :: bool
  loads_module :: "string \<Rightarrow> bool"
  preferred_module :: "string option"

definition handle_option :: "interpreter \<Rightarrow> SV \<Rightarrow> SV option \<Rightarrow> bool \<Rightarrow> (SV option \<times> HandleOptionResult) change" where
  "handle_option env opt sv want c =
     (if SvROK opt then (Inl (Croaked ''Option name must be a string, not a reference''), c)
      else let name = c_string (SvPV (in_perl env) opt) in case get_config_option name of
        None \<Rightarrow> (Inl (Croaked (''Invalid option '' @ single_quoted name)), c)
      | Some opt \<Rightarrow> ch_then (set_option (plain_char_unsigned env) (in_perl env) opt sv want) (\<lambda>(r, changed).
          ch_then (\<lambda>c. if opt = OPTION_OrderMembers \<and> sv \<noteq> None \<and> order_members c \<and> ixhash c = None
              then load_indexed_hash_module (loads_module env) (preferred_module env) c else (quiet True, c)) (\<lambda>_.
          ch_run (quiet (r, \<lparr>option_modified = changed, impacts_layout = option_impacts_layout opt,
            impacts_preproc = option_impacts_preproc opt\<rparr>)))) c)"

section \<open>All options\<close>

definition get_configuration_of :: "Converter \<Rightarrow> ConfigOption \<Rightarrow> SV run" where
  "get_configuration_of c opt = (let cfg = ob_cfg c; lp = cfg_layout cfg; flag = (\<lambda>b. Inr (newSViv (flag_value b))); ival = (\<lambda>i. Inr (newSViv i)) in case opt of
     OPTION_OrderMembers \<Rightarrow> flag (order_members c) | OPTION_Warnings \<Rightarrow> flag (issue_warnings cfg)
   | OPTION_HasCPPComments \<Rightarrow> flag (has_cpp_comments cfg) | OPTION_HasMacroVAARGS \<Rightarrow> flag (has_macro_vaargs cfg)
   | OPTION_UnsignedChars \<Rightarrow> flag (cfg_unsigned_chars cfg) | OPTION_UnsignedBitfields \<Rightarrow> flag (cfg_unsigned_bitfields cfg)
   | OPTION_PointerSize \<Rightarrow> ival (ptr_size lp) | OPTION_EnumSize \<Rightarrow> ival (enum_size lp) | OPTION_IntSize \<Rightarrow> ival (int_size lp)
   | OPTION_CharSize \<Rightarrow> ival (char_size lp) | OPTION_ShortSize \<Rightarrow> ival (short_size lp) | OPTION_LongSize \<Rightarrow> ival (long_size lp)
   | OPTION_LongLongSize \<Rightarrow> ival (long_long_size lp) | OPTION_FloatSize \<Rightarrow> ival (float_size lp) | OPTION_DoubleSize \<Rightarrow> ival (double_size lp)
   | OPTION_LongDoubleSize \<Rightarrow> ival (long_double_size lp) | OPTION_Alignment \<Rightarrow> ival (alignment lp)
   | OPTION_CompoundAlignment \<Rightarrow> ival (compound_alignment lp)
   | OPTION_HostedC \<Rightarrow> Inr (if has_std_c_hosted cfg then newSViv (flag_value (is_std_c_hosted cfg)) else Undef)
   | OPTION_StdCVersion \<Rightarrow> Inr (if has_std_c cfg then newSViv (std_c_version cfg) else Undef)
   | OPTION_Include \<Rightarrow> Inr (string_list_ref (cfg_includes cfg)) | OPTION_Define \<Rightarrow> Inr (string_list_ref (cfg_defines cfg))
   | OPTION_Assert \<Rightarrow> Inr (string_list_ref (cfg_assertions cfg)) | OPTION_DisabledKeywords \<Rightarrow> Inr (string_list_ref (disabled_list cfg))
   | OPTION_KeywordMap \<Rightarrow> and_then (keyword_hash (keyword_table cfg)) (\<lambda>hv. Inr (HVref hv))
   | OPTION_ByteOrder \<Rightarrow> (case find (\<lambda>(v, t). v = lp_byte_order lp) ByteOrderOption of None \<Rightarrow> Inl Fatal_error | Some (v, s) \<Rightarrow> Inr (newSVpv s))
   | OPTION_EnumType \<Rightarrow> (case find (\<lambda>(v, t). v = ob_enumType c) EnumTypeOption of None \<Rightarrow> Inl Fatal_error | Some (v, s) \<Rightarrow> Inr (newSVpv s))
   | OPTION_Bitfields \<Rightarrow> layouter_hash (bflayouter cfg))"

definition configuration_order :: "ConfigOption list" where
  "configuration_order = [OPTION_OrderMembers, OPTION_Warnings, OPTION_HasCPPComments, OPTION_HasMacroVAARGS, OPTION_UnsignedChars,
     OPTION_UnsignedBitfields, OPTION_PointerSize, OPTION_EnumSize, OPTION_IntSize, OPTION_CharSize, OPTION_ShortSize, OPTION_LongSize,
     OPTION_LongLongSize, OPTION_FloatSize, OPTION_DoubleSize, OPTION_LongDoubleSize, OPTION_Alignment, OPTION_CompoundAlignment,
     OPTION_HostedC, OPTION_StdCVersion, OPTION_Include, OPTION_Define, OPTION_Assert, OPTION_DisabledKeywords, OPTION_KeywordMap,
     OPTION_ByteOrder, OPTION_EnumType, OPTION_Bitfields]"

definition get_configuration :: "Converter \<Rightarrow> SV run" where
  "get_configuration c = and_then (run_map (get_configuration_of c) configuration_order) (\<lambda>vs.
     Inr (HVref (fold (\<lambda>(k, v) hv. hv_store hv k v) (zip (map option_name configuration_order) vs) [])))"

end
