(* ===== verification/Objects.thy ===== *)
theory Objects
  imports Options
begin

text \<open>
  \<^verbatim>\<open>cbc/object.c\<close> and the methods of \<^verbatim>\<open>xsubs/\<close> that create and configure an object: what a new object is, what a copy
  shares, and when sizes that were computed under other options are forgotten.
\<close>

section \<open>New objects\<close>

text \<open>The defaults come from the compiler; it knows the order of bytes, too.\<close>

definition default_layout :: "Host \<Rightarrow> CByteOrder \<Rightarrow> LayoutParam" where
  "default_layout h bo = \<lparr>alignment = 1, compound_alignment = 1, char_size = sizeof_char h, int_size = sizeof_int h, short_size = sizeof_short h,
     long_size = sizeof_long h, long_long_size = sizeof_long_long h, enum_size = sizeof_int h, ptr_size = sizeof_ptr h,
     float_size = sizeof_float h, double_size = sizeof_double h, long_double_size = sizeof_long_double h, lp_byte_order = bo\<rparr>"

definition cbc_new :: "Host \<Rightarrow> CByteOrder \<Rightarrow> Converter run" where
  "cbc_new h bo = (case bl_create ''Generic'' of None \<Rightarrow> Inl Undefined_behaviour
     | Some bl \<Rightarrow> and_then (HT_new_ex 1 0) (\<lambda>t.
         Inr \<lparr>ob_cfg = \<lparr>cfg_layout = default_layout h bo, bflayouter = bl, cfg_unsigned_chars = False, cfg_unsigned_bitfields = False,
             issue_warnings = False, disable_parser = False, has_cpp_comments = True, has_macro_vaargs = True, has_std_c = True,
             has_std_c_hosted = True, is_std_c_hosted = True, std_c_version = 199901, cfg_keywords = HAS_ALL_KEYWORDS,
             disabled_list = [], cfg_includes = [], cfg_defines = [], cfg_assertions = [], keyword_table = t\<rparr>,
           ob_cpi = init_parse_info, ob_enumType = ET_INTEGER, order_members = False, ixhash = None, ob_basic = basic_types_new\<rparr>))"

section \<open>Copies\<close>

text \<open>The types of an object are laid out with its own layouter.\<close>

definition ob_types :: "Converter \<Rightarrow> CState" where
  "ob_types c = (cpi_types (ob_cpi c))\<lparr>layouter := bflayouter (ob_cfg c)\<rparr>"

definition clone_string_list :: "string list \<Rightarrow> string list" where
  "clone_string_list ss = map c_string ss"

definition cbc_clone :: "bool \<Rightarrow> vtables \<Rightarrow> (Ptr \<Rightarrow> nat) \<Rightarrow> (nat \<Rightarrow> nat) \<Rightarrow> Converter \<Rightarrow> Converter run" where
  "cbc_clone uc vt fresh fresh_list c = (let cfg = ob_cfg c; bl = bl_clone (bflayouter cfg) in
     and_then (HT_clone (Some (keyword_table cfg)) None 0) (\<lambda>t. case t of None \<Rightarrow> Inl Undefined_behaviour | Some t \<Rightarrow>
     and_then (clone_parse_info uc vt fresh fresh_list (no_state\<lparr>layouter := bl\<rparr>) init_parse_info (ob_cpi c)) (\<lambda>cpi.
     Inr (c\<lparr>ob_cfg := cfg\<lparr>bflayouter := bl, cfg_includes := clone_string_list (cfg_includes cfg), cfg_defines := clone_string_list (cfg_defines cfg),
           cfg_assertions := clone_string_list (cfg_assertions cfg), disabled_list := clone_string_list (disabled_list cfg), keyword_table := t\<rparr>,
         ob_cpi := cpi, ob_basic := basic_types_clone vt (ob_basic c)\<rparr>))))"

section \<open>Configuration\<close>

text \<open>Whether any option has changed, and whether any touches the layout or the preprocessor.\<close>

fun set_options :: "interpreter \<Rightarrow> (SV \<times> SV) list \<Rightarrow> HandleOptionResult \<Rightarrow> HandleOptionResult change" where
  "set_options env [] res = ch_run (quiet res)"
| "set_options env ((opt, v) # args) res = ch_then (handle_option env opt (Some v) False) (\<lambda>(_, r).
     set_options env args \<lparr>option_modified = option_modified res \<or> option_modified r, impacts_layout = impacts_layout res \<or> impacts_layout r,
       impacts_preproc = impacts_preproc res \<or> impacts_preproc r\<rparr>)"

text \<open>Sizes are computed again when they are next needed; the preprocessor has no state here.\<close>

definition forget_layout :: "Converter \<Rightarrow> Converter" where
  "forget_layout c = c\<lparr>ob_basic := basic_types_reset (ob_basic c),
     ob_cpi := (if parse_available (ob_cpi c) \<and> cpi_ready (ob_cpi c) then reset_parse_info (ob_cpi c) else ob_cpi c)\<rparr>"

fun pairs :: "'a list \<Rightarrow> ('a \<times> 'a) list" where
  "pairs (x # y # zs) = (x, y) # pairs zs"
| "pairs _ = []"

datatype Gimme = G_VOID | G_SCALAR | G_ARRAY

definition useless_use :: "string \<Rightarrow> string" where
  "useless_use name = ''Useless use of '' @ name @ '' in void context''"

text \<open>Without arguments all options are given back, with one argument one of them.\<close>

definition configure :: "interpreter \<Rightarrow> Gimme \<Rightarrow> SV list \<Rightarrow> SV option change" where
  "configure env context args c =
     (if length args \<le> 1 \<and> context = G_VOID then (warned (useless_use ''configure'') None, c)
      else case args of
        [] \<Rightarrow> (and_then (get_configuration c) (\<lambda>sv. quiet (Some sv)), c)
      | [opt] \<Rightarrow> ch_then (handle_option env opt None True) (\<lambda>(r, _). ch_run (quiet r)) c
      | _ \<Rightarrow> if odd (length args) then (Inl (Croaked ''Invalid number of arguments to configure''), c)
          else ch_then (set_options env (pairs args) \<lparr>option_modified = False, impacts_layout = False, impacts_preproc = False\<rparr>) (\<lambda>res c.
            (quiet None, if option_modified res \<and> impacts_layout res then forget_layout c else c)) c)"

definition new_converter :: "interpreter \<Rightarrow> Host \<Rightarrow> CByteOrder \<Rightarrow> bool \<Rightarrow> bool \<Rightarrow> SV list \<Rightarrow> Converter logged" where
  "new_converter env h bo gs_DisableParser gs_OrderMembers args =
     (if odd (length args) then Inl (Croaked ''Number of configuration arguments to new must be even'')
      else and_then (cbc_new h bo) (\<lambda>c.
        let c = c\<lparr>ob_cfg := (ob_cfg c)\<lparr>disable_parser := gs_DisableParser\<rparr>, order_members := gs_OrderMembers\<rparr> in
        case ch_then (\<lambda>c. (if gs_DisableParser then warned ''Convert::Binary::C parser is DISABLED'' () else quiet (), c)) (\<lambda>_.
             ch_then (set_options env (pairs args) \<lparr>option_modified = False, impacts_layout = False, impacts_preproc = False\<rparr>) (\<lambda>_ c.
             if gs_OrderMembers \<and> order_members c then load_indexed_hash_module (loads_module env) (preferred_module env) c else (quiet True, c))) c of
          (r, c) \<Rightarrow> log_then r (\<lambda>_. quiet c)))"

end
