(* ===== verification/Option_Steps.thy ===== *)
theory Option_Steps
  imports Objects
begin

text \<open>
  What setting an option can do to an object: every step of \<^verbatim>\<open>cbc/option.c\<close> changes the option it is for and nothing else, and
  keeps the options what they may be, also when it fails.
\<close>

section \<open>Steps that change the object\<close>

lemma ch_run_simps [simp]: "ch_run r c = (r, c)"
  by (simp add: ch_run_def)

lemma ch_cfg_simps [simp]: "ch_cfg f c = (quiet (), c\<lparr>ob_cfg := f (ob_cfg c)\<rparr>)"
  by (simp add: ch_cfg_def)

lemma log_then_quiet [simp]: "log_then (Inr (x, [])) f = f x" "log_then (quiet x) f = f x"
  by (cases "f x"; auto simp: log_then_def quiet_def)+

lemma ch_then_simps [simp]:
  "m c = (Inl e, c') \<Longrightarrow> ch_then m f c = (Inl e, c')"
  "m c = (quiet x, c') \<Longrightarrow> ch_then m f c = f x c'"
  by (simp_all add: ch_then_def quiet_def split: prod.split)

lemma ch_then_state: "snd (ch_then m f c) = (case fst (m c) of Inl e \<Rightarrow> snd (m c) | Inr (x, ws) \<Rightarrow> snd (f x (snd (m c))))"
  by (auto simp: ch_then_def split: prod.split sum.split)

text \<open>A relation between the object before and after, also when a step fails.\<close>

definition ch_moves :: "(Converter \<Rightarrow> Converter \<Rightarrow> bool) \<Rightarrow> 'a change \<Rightarrow> bool" where
  "ch_moves R m \<longleftrightarrow> (\<forall>c. R c (snd (m c)))"

definition preorder_rel :: "(Converter \<Rightarrow> Converter \<Rightarrow> bool) \<Rightarrow> bool" where
  "preorder_rel R \<longleftrightarrow> reflp R \<and> transp R"

lemma preorder_relD: "preorder_rel R \<Longrightarrow> R c c" "preorder_rel R \<Longrightarrow> R a b \<Longrightarrow> R b c \<Longrightarrow> R a c"
  by (auto simp: preorder_rel_def reflp_def dest: transpD)

lemma ch_movesD: "ch_moves R m \<Longrightarrow> R c (snd (m c))"
  by (simp add: ch_moves_def)

lemma ch_movesI: "(\<And>c. R c (snd (m c))) \<Longrightarrow> ch_moves R m"
  by (simp add: ch_moves_def)

lemma ch_moves_then: "preorder_rel R \<Longrightarrow> ch_moves R m \<Longrightarrow> (\<And>x. ch_moves R (f x)) \<Longrightarrow> ch_moves R (ch_then m f)"
  by (auto simp: ch_moves_def ch_then_state split: sum.split intro: preorder_relD)

lemma ch_moves_run: "preorder_rel R \<Longrightarrow> ch_moves R (ch_run r)"
  by (simp add: ch_moves_def preorder_relD)

lemma ch_moves_cfg: "(\<And>c. R c (c\<lparr>ob_cfg := f (ob_cfg c)\<rparr>)) \<Longrightarrow> ch_moves R (ch_cfg f)"
  by (simp add: ch_moves_def)

lemma ch_moves_wanted: "preorder_rel R \<Longrightarrow> ch_moves R (wanted want f)"
  by (simp add: ch_moves_def wanted_def preorder_relD)

section \<open>The macros\<close>

lemma flag_moves:
  assumes R: "preorder_rel R" and "\<And>b c. R c (set_flag b c)"
  shows "ch_moves R (FLAG_OPTION pl name get set_flag sv want)"
  using assms(2) preorder_relD(1) [OF R] by (auto simp: ch_moves_def FLAG_OPTION_def Let_def split: option.split)

lemma ival_moves:
  assumes R: "preorder_rel R"
    and "\<And>i c. i \<in> set options \<Longrightarrow> R c (c\<lparr>ob_cfg := (ob_cfg c)\<lparr>cfg_layout := set_int i (cfg_layout (ob_cfg c))\<rparr>\<rparr>)"
  shows "ch_moves R (IVAL_OPTION pl name options get set_int sv want)"
  using assms(2) preorder_relD(1) [OF R]
  by (cases sv) (auto simp: ch_moves_def IVAL_OPTION_def Let_def check_integer_option_def)

lemma find_Some: "find P xs = Some x \<Longrightarrow> x \<in> set xs \<and> P x"
  by (induction xs) (auto split: if_splits)

lemma get_string_option_Inr: "get_string_option pl options val sv name = Inr (v, s) \<Longrightarrow> (v, s) \<in> set options"
  by (auto simp: get_string_option_def Let_def split: option.splits if_splits dest!: find_Some)

lemma string_moves:
  assumes R: "preorder_rel R" and "\<And>v s c. (v, s) \<in> set options \<Longrightarrow> R c (set_val v c)"
  shows "ch_moves R (STRING_OPTION pl options name get set_val sv want)"
proof (rule ch_movesI)
  fix c
  show "R c (snd (STRING_OPTION pl options name get set_val sv want c))"
  proof (cases sv)
    case (Some v)
    then show ?thesis using assms(2) preorder_relD(1) [OF R] get_string_option_Inr [of pl options "get c" "Some v" name]
      by (auto simp: STRING_OPTION_def Let_def split: sum.split)
  qed (simp add: STRING_OPTION_def Let_def preorder_relD(1) [OF R])
qed

lemma tristate_moves:
  assumes R: "preorder_rel R" and state: "\<And>b c. R c (in_cfg (set_state b) c)" and val: "\<And>v c. R c (in_cfg (set_int (iv_of v)) c)"
  shows "ch_moves R (TRISTATE_OPTION name kind state set_state get iv_of set_int sv want)"
proof (rule ch_movesI)
  fix c
  show "R c (snd (TRISTATE_OPTION name kind state set_state get iv_of set_int sv want c))"
  proof (cases sv)
    case (Some v)
    have "R c (in_cfg (set_int (iv_of v)) (in_cfg (set_state b) c))" for b
      using preorder_relD(2) [OF R state val] .
    then show ?thesis using Some state by (auto simp: TRISTATE_OPTION_def Let_def in_cfg_def)
  qed (simp add: TRISTATE_OPTION_def Let_def preorder_relD(1) [OF R])
qed

lemma set_moves: "preorder_rel R \<Longrightarrow> ch_moves R op \<Longrightarrow> ch_moves R (SET_OPTION sv op)"
  by (simp add: SET_OPTION_def ch_moves_then ch_moves_run)

section \<open>Lists, keywords and the layouter\<close>

definition plain :: "string \<Rightarrow> bool" where
  "plain s \<longleftrightarrow> c_string s = s"

lemma plain_c_string [simp]: "plain (c_string s)"
  by (simp add: plain_def c_string_def takeWhile_idem)

lemma push_strings_plain: "\<forall>s\<in>set list. plain s \<Longrightarrow> \<forall>s\<in>set (snd (push_strings pl av list)). plain s"
  by (induction pl av list rule: push_strings.induct) auto

lemma list_moves:
  assumes R: "preorder_rel R" and set_list: "\<And>l c. \<forall>s\<in>set l. plain s \<Longrightarrow> R c (in_cfg (set_list l) c)"
  shows "ch_moves R (handle_string_list pl name get set_list sv want)"
proof -
  have step: "ch_moves R (ch_cfg (set_list l))" if "\<forall>s\<in>set l. plain s" for l
    using set_list [OF that] by (intro ch_moves_cfg) (simp add: in_cfg_def)
  have "ch_moves R (case push_strings pl av [] of (r, list) \<Rightarrow> ch_then (ch_cfg (set_list list)) (\<lambda>_. ch_run (and_then r quiet)))" for av
    using push_strings_plain [of "[]" pl av] by (auto split: prod.split intro!: ch_moves_then [OF R] ch_moves_run [OF R] step)
  then show ?thesis unfolding handle_string_list_def
    by (intro ch_moves_then [OF R] ch_moves_wanted [OF R])
      (auto split: option.split SV.split intro!: ch_moves_then [OF R] ch_moves_run [OF R] step)
qed

text \<open>Every disabled keyword is one, and exactly their flags are missing.\<close>

definition disabled_ok :: "u_32 \<Rightarrow> string list \<Rightarrow> bool" where
  "disabled_ok kws list \<longleftrightarrow> (\<forall>s\<in>set list. plain s \<and> map_of keyword_flags s \<noteq> None) \<and>
     kws = fold (\<lambda>s kws. kws AND NOT (the (map_of keyword_flags s))) list HAS_ALL_KEYWORDS"

lemma disable_keywords_ok:
  "disabled_ok kws list \<Longrightarrow> disable_keywords pl av kws list = Inr (kws', list') \<Longrightarrow> disabled_ok kws' list'"
  by (induction pl av kws list rule: disable_keywords.induct)
    (auto simp: Let_def disabled_ok_def split: option.splits)

lemma disabled_moves:
  assumes R: "preorder_rel R"
    and set_list: "\<And>kws l c. disabled_ok kws l \<Longrightarrow> R c (in_cfg (\<lambda>cfg. cfg\<lparr>cfg_keywords := kws, disabled_list := l\<rparr>) c)"
  shows "ch_moves R (disabled_keywords pl sv want)"
proof -
  have "ch_moves R (case disable_keywords pl av HAS_ALL_KEYWORDS [] of Inl e \<Rightarrow> ch_run (Inl e)
      | Inr (kws, list) \<Rightarrow> ch_cfg (\<lambda>cfg. cfg\<lparr>cfg_keywords := kws, disabled_list := list\<rparr>))" for av
    using disable_keywords_ok [of HAS_ALL_KEYWORDS "[]" pl av] set_list
    by (auto simp: disabled_ok_def in_cfg_def split: sum.split intro!: ch_moves_run [OF R] ch_moves_cfg)
  then show ?thesis unfolding disabled_keywords_def
    by (intro ch_moves_then [OF R] ch_moves_wanted [OF R]) (auto split: option.split SV.split intro!: ch_moves_run [OF R])
qed


section \<open>The keyword table\<close>

definition token_ok :: "CKeywordToken \<Rightarrow> bool" where
  "token_ok tok \<longleftrightarrow> (case tok of SKIP_TOK \<Rightarrow> True | Keyword_token s \<Rightarrow> get_c_keyword_token s = Some tok)"

definition token_sv :: "CKeywordToken \<Rightarrow> SV" where
  "token_sv tok = (case token_name tok of None \<Rightarrow> Undef | Some name \<Rightarrow> newSVpv name)"

definition keywords_ok :: "bool \<Rightarrow> CKeywordToken HashTable \<Rightarrow> bool" where
  "keywords_ok uc t \<longleftrightarrow> table_ok t \<and> (\<forall>h k v. table_map t (h, k) = Some v \<longrightarrow>
     keyword_key k = Inr k \<and> h = HASH_DATA uc (length k) k \<and> (\<exists>tok. v = Some tok \<and> token_ok tok))"

definition keyword_of :: "bool \<Rightarrow> CKeywordToken HashTable \<Rightarrow> string \<Rightarrow> CKeywordToken option" where
  "keyword_of uc t k = Option.bind (table_map t (HASH_DATA uc (length k) k, k)) id"

lemma keywords_okD:
  "keywords_ok uc t \<Longrightarrow> table_ok t"
  "keywords_ok uc t \<Longrightarrow> table_map t (h, k) = Some v \<Longrightarrow> keyword_key k = Inr k \<and> h = HASH_DATA uc (length k) k \<and> (\<exists>tok. v = Some tok \<and> token_ok tok)"
  by (simp_all add: keywords_ok_def)

lemma keyword_of_Some: "keywords_ok uc t \<Longrightarrow> keyword_of uc t k = Some tok \<longleftrightarrow> table_map t (HASH_DATA uc (length k) k, k) = Some (Some tok)"
  by (auto simp: keyword_of_def bind_eq_Some_conv)

lemma keyword_of_None: "keywords_ok uc t \<Longrightarrow> keyword_of uc t k = None \<longleftrightarrow> table_map t (HASH_DATA uc (length k) k, k) = None"
proof (cases "table_map t (HASH_DATA uc (length k) k, k)")
  case (Some v)
  assume "keywords_ok uc t"
  from keywords_okD(2) [OF this Some] obtain tok where "v = Some tok" by blast
  with Some show ?thesis by (simp add: keyword_of_def)
qed (simp add: keyword_of_def)

lemma keyword_key_Inr: "keyword_key k = Inr k' \<Longrightarrow> k' = k \<and> k \<noteq> []"
proof -
  have key: "(let s = c_string k in if s = [] then Inl e else if P s then Inl (f s) else Inr k) = Inr k' \<Longrightarrow> k' = k \<and> c_string k \<noteq> []" for P e f
    by (simp add: Let_def split: if_splits)
  show "keyword_key k = Inr k' \<Longrightarrow> k' = k \<and> k \<noteq> []"
    unfolding keyword_key_def by (drule key) (auto simp: c_string_def)
qed

lemma new_keywords:
  assumes "0 < sz" and "sz \<le> 16"
  shows "\<exists>t. HT_new_ex sz flags = Inr t \<and> keywords_ok uc t \<and> keyword_of uc t = Map.empty"
proof -
  let ?t = "\<lparr>ht_count = 0, ht_size = nat sz, ht_flags = flags, ht_bmask = size_mask (nat sz), ht_root = replicate (2 ^ nat sz) []\<rparr>"
  have t: "table_ok (?t :: CKeywordToken HashTable)" using assms by (simp add: table_ok_def empty_buckets_ok)
  have "table_map ?t = (Map.empty :: _ \<Rightarrow> CKeywordToken option option)" using empty_count [OF t] by simp
  then show ?thesis using assms t by (auto simp: HT_new_ex_def keywords_ok_def keyword_of_def fun_eq_iff)
qed

lemma store_keyword:
  assumes t: "keywords_ok uc t" and k: "keyword_key k = Inr k" and tok: "token_ok tok"
  shows "keywords_ok uc (snd (HT_store uc a t k (length k) 0 (Some tok)))"
    and "keyword_of uc (snd (HT_store uc a t k (length k) 0 (Some tok))) =
      (if keyword_of uc t k = None then (keyword_of uc t)(k \<mapsto> tok) else keyword_of uc t)"
proof -
  have "k \<noteq> []" using keyword_key_Inr [OF k] by simp
  then have "key_and_hash uc k (length k) 0 = (k, HASH_DATA uc (length k) k)" by (simp add: key_and_hash_def)
  from store_eq [OF keywords_okD(1) [OF t] this, of a "Some tok"] obtain t' n where
    st: "HT_store uc a t k (length k) 0 (Some tok) = (n, t')" and ok: "table_ok t'"
    and m: "table_map t' = (if (HASH_DATA uc (length k) k, k) \<in> dom (table_map t) then table_map t
      else (table_map t)((HASH_DATA uc (length k) k, k) \<mapsto> Some tok))" by blast
  show "keywords_ok uc (snd (HT_store uc a t k (length k) 0 (Some tok)))"
    using t ok tok k by (auto simp: st m keywords_ok_def)
  show "keyword_of uc (snd (HT_store uc a t k (length k) 0 (Some tok))) =
      (if keyword_of uc t k = None then (keyword_of uc t)(k \<mapsto> tok) else keyword_of uc t)"
    using keyword_of_None [OF t, of k] by (auto simp: st m keyword_of_def fun_eq_iff)
qed

lemma keyword_token_ok: "keyword_token pl v = Inr tok \<Longrightarrow> token_ok tok"
proof -
  have "token_ok tok" if g: "get_c_keyword_token s = Some tok" for s
  proof -
    have "tok = Keyword_token s" using g by (simp add: get_c_keyword_token_def split: if_splits)
    with g show ?thesis by (simp add: token_ok_def)
  qed
  moreover have "token_ok SKIP_TOK" by (simp add: token_ok_def)
  ultimately show "keyword_token pl v = Inr tok \<Longrightarrow> token_ok tok" by (simp add: keyword_token_def split: if_splits option.splits)
qed

lemma map_keywords_ok: "keywords_ok uc t \<Longrightarrow> map_keywords uc pl hv t = Inr t' \<Longrightarrow> keywords_ok uc t'"
proof (induction hv arbitrary: t)
  case (Cons kv hv)
  obtain key v where kv: "kv = (key, v)" by (cases kv)
  from Cons.prems(2) obtain tok where key: "keyword_key key = Inr key" and tok: "keyword_token pl v = Inr tok"
    and rest: "map_keywords uc pl hv (snd (HT_store uc (ht_count t) t key (length key) 0 (Some tok))) = Inr t'"
    by (auto simp: kv and_then_Inr dest: keyword_key_Inr)
  show ?case by (rule Cons.IH [OF store_keyword(1) [OF Cons.prems(1) key keyword_token_ok [OF tok]] rest])
qed simp

lemma keyword_moves:
  assumes R: "preorder_rel R" and table: "\<And>t c. keywords_ok uc t \<Longrightarrow> R c (in_cfg (\<lambda>cfg. cfg\<lparr>keyword_table := t\<rparr>) c)"
  shows "ch_moves R (keyword_map uc pl sv want)"
proof -
  have "keywords_ok uc t" if "and_then (HT_new_ex 4 HT_AUTOGROW) (map_keywords uc pl hv) = Inr t" for hv t
    using that new_keywords [of 4 HT_AUTOGROW uc] map_keywords_ok by (auto simp: and_then_Inr)
  then have "ch_moves R (case and_then (HT_new_ex 4 HT_AUTOGROW) (map_keywords uc pl hv) of Inl e \<Rightarrow> ch_run (Inl e)
          | Inr t \<Rightarrow> ch_cfg (\<lambda>cfg. cfg\<lparr>keyword_table := t\<rparr>))" for hv
    using table by (auto simp: in_cfg_def split: sum.split intro!: ch_moves_run [OF R] ch_moves_cfg)
  then show ?thesis unfolding keyword_map_def
    by (intro ch_moves_then [OF R] ch_moves_wanted [OF R]) (auto split: option.split SV.split intro!: ch_moves_run [OF R])
qed


section \<open>The layouter\<close>

text \<open>What the properties of an engine hold fits into the integers of Perl.\<close>

definition layouter_ok :: "BitfieldLayouter \<Rightarrow> bool" where
  "layouter_ok bl \<longleftrightarrow> (case bl of Simple s \<Rightarrow> - (2 ^ 63) \<le> block_size s \<and> block_size s < 2 ^ 63 | _ \<Rightarrow> True)"

lemma sint_range: "- (2 ^ 63) \<le> sint (w :: 64 word)" "sint (w :: 64 word) < 2 ^ 63"
  using sint_greater_eq [of w] sint_less [of w] by simp_all

lemma created_ok: "bl_create name = Some bl \<Longrightarrow> layouter_ok bl"
  by (auto simp: bl_create_def layouter_ok_def Simple_init_def split: if_splits)

lemma set_bl_option_ok: "layouter_ok bl \<Longrightarrow> set_bl_option pl key v bl = Inr bl' \<Longrightarrow> layouter_ok bl'"
  using sint_range [of "SvIV pl v"]
  by (cases bl) (auto simp: set_bl_option_def Let_def bl_options_def and_then_Inr bl_set_def Simple_set_def prop_value_def layouter_ok_def
    split: if_splits BLError.splits)

lemma set_bl_options_ok: "layouter_ok bl \<Longrightarrow> layouter_ok (snd (set_bl_options pl hv bl))"
  by (induction pl hv bl rule: set_bl_options.induct) (auto split: sum.split dest: set_bl_option_ok)

lemma bitfields_moves:
  assumes R: "preorder_rel R"
    and bl: "\<And>bl c. (layouter_ok (bflayouter (ob_cfg c)) \<longrightarrow> layouter_ok bl) \<Longrightarrow> R c (in_cfg (\<lambda>cfg. cfg\<lparr>bflayouter := bl\<rparr>) c)"
  shows "ch_moves R (bitfields_option pl sv want)"
proof -
  have "R c (snd (set_bitfields pl hv c))" for hv c
  proof (cases "hv_fetch hv ''Engine''")
    case None
    obtain r b where s: "set_bl_options pl hv (bflayouter (ob_cfg c)) = (r, b)" by force
    have "R c (in_cfg (\<lambda>cfg. cfg\<lparr>bflayouter := b\<rparr>) c)"
      using set_bl_options_ok [of "bflayouter (ob_cfg c)" pl hv] s by (intro bl) simp
    then show ?thesis by (simp add: set_bitfields_def None s in_cfg_def ch_then_state quiet_def)
  next
    case (Some sv)
    show ?thesis
    proof (cases "bl_create (c_string (SvPV pl sv))")
      case (Some new)
      obtain r b where s: "set_bl_options pl hv new = (r, b)" by force
      have "R c (in_cfg (\<lambda>cfg. cfg\<lparr>bflayouter := b\<rparr>) c)"
        using set_bl_options_ok [OF created_ok [OF Some], of pl hv] s by (intro bl) simp
      then show ?thesis using \<open>hv_fetch hv ''Engine'' = Some sv\<close> Some s
        by (simp add: set_bitfields_def Let_def in_cfg_def preorder_relD(1) [OF R] split: sum.split)
    qed (simp add: set_bitfields_def Some Let_def preorder_relD(1) [OF R])
  qed
  then have "ch_moves R (set_bitfields pl hv)" for hv by (simp add: ch_movesI)
  then show ?thesis unfolding bitfields_option_def
    by (intro ch_moves_then [OF R] ch_moves_wanted [OF R]) (auto split: option.split SV.split intro!: ch_moves_run [OF R])
qed


section \<open>What an option leaves as it is\<close>

text \<open>Everything but the option itself, the module that is loaded for ordered hashes, and the value of a standard that is undefined.\<close>

definition only_option :: "ConfigOption \<Rightarrow> Converter \<Rightarrow> Converter \<Rightarrow> bool" where
  "only_option opt c c' \<longleftrightarrow> (\<forall>opt'. opt' \<noteq> opt \<longrightarrow> get_configuration_of c' opt' = get_configuration_of c opt') \<and>
     ob_cpi c' = ob_cpi c \<and> ob_basic c' = ob_basic c \<and> disable_parser (ob_cfg c') = disable_parser (ob_cfg c)"

lemma only_option_preorder: "preorder_rel (only_option opt)"
  by (auto simp: preorder_rel_def only_option_def intro!: reflpI transpI)

lemmas option_moves = flag_moves ival_moves string_moves tristate_moves list_moves disabled_moves keyword_moves bitfields_moves

lemma all_options: "opt \<in> set configuration_order"
  by (cases opt) (simp_all add: configuration_order_def)

lemma only_optionI:
  assumes "list_all (\<lambda>opt'. opt' \<noteq> opt \<longrightarrow> get_configuration_of c' opt' = get_configuration_of c opt') configuration_order"
    and "ob_cpi c' = ob_cpi c" and "ob_basic c' = ob_basic c" and "disable_parser (ob_cfg c') = disable_parser (ob_cfg c)"
  shows "only_option opt c c'"
  using assms all_options by (auto simp: only_option_def list_all_iff)

lemma option_frame: "ch_moves (only_option opt) (set_option uc pl opt sv want)"
  unfolding set_option_def Let_def
  by (cases opt; simp only: ConfigOption.case; intro set_moves option_moves only_option_preorder only_optionI;
    simp add: configuration_order_def get_configuration_of_def in_cfg_def)


section \<open>The invariant of the options\<close>

definition layout_options_ok :: "LayoutParam \<Rightarrow> bool" where
  "layout_options_ok lp \<longleftrightarrow> {ptr_size lp, int_size lp, char_size lp, short_size lp, long_size lp, long_long_size lp} \<subseteq> set IntSizeOption \<and>
     enum_size lp \<in> set EnumSizeOption \<and> {float_size lp, double_size lp, long_double_size lp} \<subseteq> set FloatSizeOption \<and>
     {alignment lp, compound_alignment lp} \<subseteq> set AlignmentOption"

definition options_ok :: "bool \<Rightarrow> Converter \<Rightarrow> bool" where
  "options_ok uc c \<longleftrightarrow> (let cfg = ob_cfg c in layout_options_ok (cfg_layout cfg) \<and> layouter_ok (bflayouter cfg) \<and>
     - (2 ^ 63) \<le> std_c_version cfg \<and> std_c_version cfg < 2 ^ 63 \<and>
     (\<forall>s\<in>set (cfg_includes cfg @ cfg_defines cfg @ cfg_assertions cfg). plain s) \<and>
     disabled_ok (cfg_keywords cfg) (disabled_list cfg) \<and> keywords_ok uc (keyword_table cfg))"

abbreviation keeps_options :: "bool \<Rightarrow> Converter \<Rightarrow> Converter \<Rightarrow> bool" where
  "keeps_options uc c c' \<equiv> options_ok uc c \<longrightarrow> options_ok uc c'"

lemma keeps_options_preorder: "preorder_rel (keeps_options uc)"
  by (auto simp: preorder_rel_def intro!: reflpI transpI)

lemma option_keeps: "ch_moves (keeps_options uc) (set_option uc pl opt sv want)"
  unfolding set_option_def Let_def
  by (cases opt; simp only: ConfigOption.case; intro set_moves option_moves keeps_options_preorder;
    auto simp: options_ok_def layout_options_ok_def in_cfg_def Let_def sint_range [simplified])

lemma handle_option_moves:
  assumes R: "preorder_rel R" and option: "\<And>opt. ch_moves R (set_option (plain_char_unsigned env) (in_perl env) opt sv want)"
    and module: "\<And>m c. R c (c\<lparr>ixhash := Some m\<rparr>)"
  shows "ch_moves R (handle_option env name sv want)"
proof -
  have "ch_moves R (load_indexed_hash_module loads preferred)" for loads preferred
    by (rule ch_movesI) (auto simp: load_indexed_hash_module_def Let_def module preorder_relD(1) [OF R] split: option.split)
  then have "ch_moves R (\<lambda>c. if b c then load_indexed_hash_module loads preferred c else (quiet True, c))" for b loads preferred
    using preorder_relD(1) [OF R] by (auto simp: ch_moves_def)
  then have "ch_moves R (ch_then (set_option (plain_char_unsigned env) (in_perl env) opt sv want) (\<lambda>(r, changed).
          ch_then (\<lambda>c. if opt = OPTION_OrderMembers \<and> sv \<noteq> None \<and> order_members c \<and> ixhash c = None
              then load_indexed_hash_module (loads_module env) (preferred_module env) c else (quiet True, c)) (\<lambda>_.
          ch_run (quiet (r, \<lparr>option_modified = changed, impacts_layout = option_impacts_layout opt,
            impacts_preproc = option_impacts_preproc opt\<rparr>)))))" for opt
    by (intro ch_moves_then [OF R] option) (auto split: prod.split intro!: ch_moves_then [OF R] ch_moves_run [OF R])
  then show ?thesis
    by (auto simp: ch_moves_def handle_option_def Let_def preorder_relD(1) [OF R] split: option.split)
qed

lemma set_options_moves:
  assumes R: "preorder_rel R" and option: "\<And>name sv. ch_moves R (handle_option env name sv False)"
  shows "ch_moves R (set_options env args res)"
proof (induction args arbitrary: res)
  case Nil
  show ?case using ch_moves_run [OF R, of "quiet res"] by (simp add: ch_moves_def)
next
  case (Cons arg args)
  then show ?case by (cases arg) (auto intro!: ch_moves_then [OF R] option split: prod.split)
qed

lemma keeps_module: "keeps_options uc c (c\<lparr>ixhash := Some m\<rparr>)"
  by (simp add: options_ok_def)

lemma configure_keeps: "ch_moves (keeps_options (plain_char_unsigned env)) (configure env gimme args)"
proof (rule ch_movesI, rule impI)
  fix c assume c: "options_ok (plain_char_unsigned env) c"
  have one: "ch_moves (keeps_options (plain_char_unsigned env)) (handle_option env name sv want)" for name sv want
    by (rule handle_option_moves [OF keeps_options_preorder option_keeps keeps_module])
  have all: "ch_moves (keeps_options (plain_char_unsigned env)) (set_options env args res)" for args res
    by (rule set_options_moves [OF keeps_options_preorder one])
  have forget: "options_ok uc c \<Longrightarrow> options_ok uc (forget_layout c)" for uc c by (simp add: options_ok_def forget_layout_def)
  show "options_ok (plain_char_unsigned env) (snd (configure env gimme args c))"
    using c one [THEN ch_movesD, rule_format, OF c] all [THEN ch_movesD, rule_format, OF c] forget
    by (auto simp: configure_def ch_then_state simp del: set_options.simps pairs.simps split: list.split sum.split)
qed


text \<open>The sizes of the host are such that options could set them.\<close>

definition host_sizes_ok :: "Host \<Rightarrow> bool" where
  "host_sizes_ok h \<longleftrightarrow> {sizeof_ptr h, sizeof_int h, sizeof_char h, sizeof_short h, sizeof_long h, sizeof_long_long h} \<subseteq> set IntSizeOption \<and>
     {sizeof_float h, sizeof_double h, sizeof_long_double h} \<subseteq> set FloatSizeOption"

lemma cbc_new_ok:
  assumes "host_sizes_ok h"
  shows "\<exists>c. cbc_new h bo = Inr c \<and> options_ok uc c"
proof -
  obtain t where "HT_new_ex 1 0 = Inr t" "keywords_ok uc t" using new_keywords [of 1 0 uc] by auto
  moreover have "sizeof_int h \<in> set EnumSizeOption" using assms by (auto simp: host_sizes_ok_def IntSizeOption_def EnumSizeOption_def)
  moreover have "1 \<in> set AlignmentOption" by (simp add: AlignmentOption_def)
  ultimately show ?thesis using assms
    by (simp add: cbc_new_def bl_create_def options_ok_def Let_def layout_options_ok_def default_layout_def host_sizes_ok_def layouter_ok_def disabled_ok_def)
qed

lemma new_converter_ok:
  assumes h: "host_sizes_ok h" and new: "new_converter env h bo dis om args = Inr (c, ws)"
  shows "options_ok (plain_char_unsigned env) c"
proof -
  let ?R = "keeps_options (plain_char_unsigned env)"
  obtain c0 where c0: "cbc_new h bo = Inr c0" "options_ok (plain_char_unsigned env) c0" using cbc_new_ok [OF h] by blast
  define c1 where "c1 = c0\<lparr>ob_cfg := (ob_cfg c0)\<lparr>disable_parser := dis\<rparr>, order_members := om\<rparr>"
  have c1: "options_ok (plain_char_unsigned env) c1" using c0(2) by (simp add: c1_def options_ok_def Let_def)
  have one: "ch_moves ?R (handle_option env name sv want)" for name sv want
    by (rule handle_option_moves [OF keeps_options_preorder option_keeps keeps_module])
  have all: "ch_moves ?R (set_options env args res)" for args res
    by (rule set_options_moves [OF keeps_options_preorder one])
  have module: "ch_moves ?R (\<lambda>c. if om \<and> order_members c then load_indexed_hash_module (loads_module env) (preferred_module env) c else (quiet True, c))"
    by (rule ch_movesI) (auto simp: load_indexed_hash_module_def Let_def options_ok_def split: option.split)
  have warn: "ch_moves ?R (\<lambda>c. (if dis then warned ''Convert::Binary::C parser is DISABLED'' () else quiet (), c))" by (rule ch_movesI) simp
  let ?m = "ch_then (\<lambda>c. (if dis then warned ''Convert::Binary::C parser is DISABLED'' () else quiet (), c)) (\<lambda>_.
             ch_then (set_options env (pairs args) \<lparr>option_modified = False, impacts_layout = False, impacts_preproc = False\<rparr>) (\<lambda>_ c.
             if om \<and> order_members c then load_indexed_hash_module (loads_module env) (preferred_module env) c else (quiet True, c)))"
  have "ch_moves ?R ?m" by (intro ch_moves_then [OF keeps_options_preorder] warn all module)
  then have "options_ok (plain_char_unsigned env) (snd (?m c1))" using c1 by (blast dest: ch_movesD)
  moreover have "snd (?m c1) = c" using new c0(1) unfolding new_converter_def Let_def c1_def [symmetric]
    by (auto simp: c1_def [symmetric] log_then_def and_then_Inr quiet_def split: if_splits prod.splits)
  ultimately show ?thesis by simp
qed

lemma clone_keywords:
  assumes "keywords_ok uc t"
  shows "\<exists>t'. HT_clone (Some t) None a = Inr (Some t') \<and> keywords_ok uc t' \<and> keyword_of uc t' = keyword_of uc t"
proof -
  have "clone_obj None = (id :: CKeywordToken option \<Rightarrow> _)" by (simp add: fun_eq_iff clone_obj_def)
  with clone_eq [OF keywords_okD(1) [OF assms], of None a] obtain c where
    c: "HT_clone (Some t) None a = Inr (Some c)" "table_ok c" "table_map c = table_map t" by (auto simp: option.map_id0)
  with assms show ?thesis by (auto simp: keywords_ok_def keyword_of_def)
qed

lemma clone_plain: "\<forall>s\<in>set ss. plain s \<Longrightarrow> clone_string_list ss = ss"
  by (induction ss) (auto simp: clone_string_list_def plain_def)

lemma cbc_clone_ok:
  assumes c: "options_ok uc c" and clone: "cbc_clone uc' vt fresh fresh_list c = Inr d"
  shows "options_ok uc d" and "opt \<noteq> OPTION_KeywordMap \<Longrightarrow> get_configuration_of d opt = get_configuration_of c opt"
    and "keyword_of uc (keyword_table (ob_cfg d)) = keyword_of uc (keyword_table (ob_cfg c))"
proof -
  have strings: "clone_string_list (cfg_includes (ob_cfg c)) = cfg_includes (ob_cfg c)" "clone_string_list (cfg_defines (ob_cfg c)) = cfg_defines (ob_cfg c)"
      "clone_string_list (cfg_assertions (ob_cfg c)) = cfg_assertions (ob_cfg c)" "clone_string_list (disabled_list (ob_cfg c)) = disabled_list (ob_cfg c)"
    using c by (auto simp: options_ok_def Let_def disabled_ok_def intro!: clone_plain)
  have "keywords_ok uc (keyword_table (ob_cfg c))" using c by (simp add: options_ok_def Let_def)
  from clone_keywords [OF this, of 0] obtain t' where t': "HT_clone (Some (keyword_table (ob_cfg c))) None 0 = Inr (Some t')" "keywords_ok uc t'"
    "keyword_of uc t' = keyword_of uc (keyword_table (ob_cfg c))" by blast
  from clone obtain cpi where d: "d = c\<lparr>ob_cfg := (ob_cfg c)\<lparr>keyword_table := t'\<rparr>, ob_cpi := cpi, ob_basic := basic_types_clone vt (ob_basic c)\<rparr>"
    by (auto simp: cbc_clone_def Let_def t'(1) and_then_Inr strings bl_clone_def)
  show "options_ok uc d" using c t'(2) by (simp add: d options_ok_def Let_def)
  show "opt \<noteq> OPTION_KeywordMap \<Longrightarrow> get_configuration_of d opt = get_configuration_of c opt"
    by (cases opt) (simp_all add: d get_configuration_of_def)
  show "keyword_of uc (keyword_table (ob_cfg d)) = keyword_of uc (keyword_table (ob_cfg c))" using t'(3) by (simp add: d)
qed

end
