(* ===== verification/Option_Values.thy ===== *)
theory Option_Values
  imports Option_Steps
begin

text \<open>
  The values of options as Perl sees them: reading an option gives what \<open>get_configuration_of\<close> gives, and setting an option to
  a value that was read from some object makes it what it is there.
\<close>

section \<open>Reading\<close>

lemma flag_read: "FLAG_OPTION pl name get set_flag None True c = (quiet (Some (newSViv (flag_value (get c))), False), c)"
  by (simp add: FLAG_OPTION_def)

lemma ival_read: "IVAL_OPTION pl name options get set_int None True c = (quiet (Some (newSViv (get (cfg_layout (ob_cfg c)))), False), c)"
  by (simp add: IVAL_OPTION_def)

lemma tristate_read: "TRISTATE_OPTION name kind state set_state get iv_of set_int None True c =
    (quiet (Some (if state (ob_cfg c) then newSViv (get (ob_cfg c)) else Undef), False), c)"
  by (simp add: TRISTATE_OPTION_def)

lemma string_read: "find (\<lambda>(v, t). v = get c) options = Some (v, s) \<Longrightarrow>
    STRING_OPTION pl options name get set_val None True c = (quiet (Some (newSVpv s), False), c)"
  by (simp add: STRING_OPTION_def get_string_option_def)

lemma quiet_then: "ch_then (\<lambda>c. (quiet x, c)) f = f x"
  by (rule ext) simp

lemma set_read: "op c = (r, c) \<Longrightarrow> SET_OPTION None op c = (log_then r (\<lambda>x. quiet (x, False)), c)"
  by (auto simp: SET_OPTION_def ch_then_def log_then_def and_then_def split: sum.split prod.split)

lemma wanted_read: "ch_then (ch_run (quiet ())) (\<lambda>_. wanted True f) c = (and_then (f (ob_cfg c)) (\<lambda>sv. quiet (Some sv)), c)"
  by (simp add: wanted_def)

lemma log_then_Inr_quiet: "log_then (and_then r (\<lambda>sv. quiet (Some sv))) (\<lambda>x. quiet (x, False)) = and_then r (\<lambda>sv. quiet (Some sv, False))"
  by (cases r) (simp_all add: log_then_def quiet_def)

lemma option_read:
  "set_option uc pl opt None True c = (and_then (get_configuration_of c opt) (\<lambda>sv. quiet (Some sv, False)), c)"
proof -
  have order: "find (\<lambda>(v, t). v = bo) ByteOrderOption = Some (bo, if bo = CBO_BIG_ENDIAN then ''BigEndian'' else ''LittleEndian'')" for bo
    by (cases bo) (simp_all add: ByteOrderOption_def)
  have et: "find (\<lambda>(v, t). v = e) EnumTypeOption = Some (e, case e of ET_INTEGER \<Rightarrow> ''Integer'' | ET_STRING \<Rightarrow> ''String'' | ET_BOTH \<Rightarrow> ''Both'')" for e
    by (cases e) (simp_all add: EnumTypeOption_def)
  show ?thesis unfolding set_option_def Let_def
    by (cases opt; simp only: ConfigOption.case)
      (simp_all add: get_configuration_of_def flag_read ival_read tristate_read string_read [OF order] string_read [OF et] order et
        set_read handle_string_list_def disabled_keywords_def keyword_map_def bitfields_option_def wanted_read log_then_Inr_quiet)
qed


section \<open>Setting to what was read\<close>

text \<open>The part of Perl that the values need: numbers and strings made for it are read back.\<close>

definition perl_scalars :: "perl \<Rightarrow> bool" where
  "perl_scalars pl \<longleftrightarrow> (\<forall>i. SvIV pl (newSViv i) = word_of_int i) \<and> (\<forall>s. SvPV pl (newSVpv s) = s)"

text \<open>Two values are the same when they are equal or, for hashes, have the same entries.\<close>

definition same_value :: "SV \<Rightarrow> SV \<Rightarrow> bool" where
  "same_value a b \<longleftrightarrow> (case (a, b) of (HVref h, HVref h') \<Rightarrow> hv_fetch h = hv_fetch h' | _ \<Rightarrow> a = b)"

lemma same_value_refl [simp]: "same_value a a"
  by (cases a) (simp_all add: same_value_def)

definition sets :: "(Converter \<Rightarrow> SV run) \<Rightarrow> SV \<Rightarrow> (SV option \<times> bool) change \<Rightarrow> bool" where
  "sets get sv m \<longleftrightarrow> (\<forall>d. \<exists>ch d' sv'. m d = (quiet (None, ch), d') \<and> get d' = Inr sv' \<and> same_value sv' sv)"

lemma setsI: "(\<And>d. m d = (quiet (None, ch d), d' d)) \<Longrightarrow> (\<And>d. get (d' d) = Inr sv) \<Longrightarrow> sets get sv m"
  unfolding sets_def using same_value_refl by blast

lemma newSV_simps [simp]: "\<not> SvROK (newSViv i)" "\<not> SvROK (newSVpv s)" "SvOK (newSViv i)" "SvOK (newSVpv s)" "\<not> SvOK Undef" "\<not> SvROK Undef"
  by (simp_all add: newSViv_def newSVpv_def SvROK_def SvOK_def)

lemma perl_scalarsD: "perl_scalars pl \<Longrightarrow> SvPV pl (newSVpv s) = s"
    "perl_scalars pl \<Longrightarrow> - (2 ^ 63) \<le> i \<Longrightarrow> i < 2 ^ 63 \<Longrightarrow> sint (SvIV pl (newSViv i)) = i"
  by (simp_all add: perl_scalars_def sint_sbintrunc' signed_take_bit_int_eq_self)

lemma flag_sets:
  assumes pl: "perl_scalars pl" and "\<And>b d. get (set_flag b d) = b"
  shows "sets (\<lambda>c. Inr (newSViv (flag_value (get c)))) (newSViv (flag_value b)) (FLAG_OPTION pl name get set_flag (Some (newSViv (flag_value b))) False)"
proof -
  have "sint (SvIV pl (newSViv (flag_value b))) = flag_value b" by (rule perl_scalarsD(2) [OF pl]) (simp_all add: flag_value_def)
  moreover have "flag_value x = flag_value y \<longleftrightarrow> x = y" "flag_value x \<noteq> 0 \<longleftrightarrow> x" for x y by (simp_all add: flag_value_def)
  ultimately show ?thesis using assms(2)
    by (intro setsI [where ch = "\<lambda>d. get d \<noteq> b" and d' = "\<lambda>d. if get d \<noteq> b then set_flag b d else d"])
      (auto simp: FLAG_OPTION_def Let_def)
qed

lemma ival_sets:
  assumes pl: "perl_scalars pl" and i: "i \<in> set options" "- (2 ^ 63) \<le> i" "i < 2 ^ 63" and "\<And>i lp. get (set_int i lp) = i"
  shows "sets (\<lambda>c. Inr (newSViv (get (cfg_layout (ob_cfg c))))) (newSViv i) (IVAL_OPTION pl name options get set_int (Some (newSViv i)) False)"
  using assms
  by (intro setsI [where ch = "\<lambda>d. get (cfg_layout (ob_cfg d)) \<noteq> i" and d' = "\<lambda>d. if get (cfg_layout (ob_cfg d)) \<noteq> i
      then d\<lparr>ob_cfg := (ob_cfg d)\<lparr>cfg_layout := set_int i (cfg_layout (ob_cfg d))\<rparr>\<rparr> else d"])
    (auto simp: IVAL_OPTION_def check_integer_option_def Let_def perl_scalarsD)

lemma string_sets:
  assumes pl: "perl_scalars pl" and s: "find (\<lambda>(v, t). t = s) options = Some (v, s)" and p: "plain s"
    and v: "\<And>d. get (set_val v d) = v" and out: "\<And>c. get c = v \<Longrightarrow> out c = Inr (newSVpv s)"
  shows "sets out (newSVpv s) (STRING_OPTION pl options name get set_val (Some (newSVpv s)) False)"
  using assms
  by (intro setsI [where ch = "\<lambda>d. get d \<noteq> v" and d' = "\<lambda>d. if get d \<noteq> v then set_val v d else d"])
    (auto simp: STRING_OPTION_def get_string_option_def Let_def perl_scalarsD plain_def)

lemma tristate_sets:
  assumes "\<And>b cfg. state (set_state b cfg) = b" "\<And>i cfg. state (set_int i cfg) = state cfg" "\<And>cfg. get (set_int (iv_of (newSViv i)) cfg) = i"
    and "iv_of (newSViv i) = i"
  shows "sets (\<lambda>c. Inr (if state (ob_cfg c) then newSViv (get (ob_cfg c)) else Undef)) (if b then newSViv i else Undef)
    (TRISTATE_OPTION name kind state set_state get iv_of set_int (Some (if b then newSViv i else Undef)) False)"
  unfolding sets_def
  by (rule allI, cases b) (use assms in \<open>auto simp: TRISTATE_OPTION_def Let_def intro: same_value_refl\<close>)


lemma push_strings_plain_all:
  "perl_scalars pl \<Longrightarrow> \<forall>s\<in>set ss. plain s \<Longrightarrow> push_strings pl (map (\<lambda>s. Some (newSVpv s)) ss) list = (Inr (), list @ ss)"
  by (induction ss arbitrary: list) (auto simp: perl_scalarsD plain_def)

lemma list_sets:
  assumes pl: "perl_scalars pl" and p: "\<forall>s\<in>set ss. plain s" and "\<And>l cfg. get (set_list l cfg) = l"
  shows "sets (\<lambda>c. Inr (string_list_ref (get (ob_cfg c)))) (string_list_ref ss)
    (SET_OPTION (Some (string_list_ref ss)) (handle_string_list pl name get set_list (Some (string_list_ref ss)) False))"
  by (intro setsI [where ch = "\<lambda>d. True" and d' = "\<lambda>d. in_cfg (\<lambda>cfg. set_list ss (set_list [] cfg)) d"])
    (auto simp: SET_OPTION_def handle_string_list_def string_list_ref_def push_strings_plain_all [OF pl p] assms(3) wanted_def in_cfg_def)

lemma disable_keywords_all:
  assumes pl: "perl_scalars pl"
  shows "\<forall>s\<in>set ss. plain s \<and> map_of keyword_flags s \<noteq> None \<Longrightarrow> disable_keywords pl (map (\<lambda>s. Some (newSVpv s)) ss) kws list =
    Inr (fold (\<lambda>s kws. kws AND NOT (the (map_of keyword_flags s))) ss kws, list @ ss)"
  by (induction ss arbitrary: kws list) (auto simp: perl_scalarsD [OF pl] plain_def)

lemma disabled_sets:
  assumes pl: "perl_scalars pl" and ok: "disabled_ok kws ss"
  shows "sets (\<lambda>c. Inr (string_list_ref (disabled_list (ob_cfg c)))) (string_list_ref ss)
    (SET_OPTION (Some (string_list_ref ss)) (disabled_keywords pl (Some (string_list_ref ss)) False))"
proof -
  have run: "disable_keywords pl (map (\<lambda>s. Some (newSVpv s)) ss) HAS_ALL_KEYWORDS [] = Inr (kws, ss)"
    using disable_keywords_all [OF pl, of ss] ok by (simp add: disabled_ok_def)
  show ?thesis
    by (intro setsI [where ch = "\<lambda>d. True" and d' = "\<lambda>d. in_cfg (\<lambda>cfg. cfg\<lparr>cfg_keywords := kws, disabled_list := ss\<rparr>) d"])
      (auto simp: SET_OPTION_def disabled_keywords_def string_list_ref_def run wanted_def in_cfg_def)
qed

text \<open>The hash of all keywords, and the table that is built from it.\<close>

lemma hv_fetch_Nil [simp]: "hv_fetch [] = Map.empty"
  by (simp add: hv_fetch_def fun_eq_iff)

lemma fetch_fold_store: "hv_fetch (fold (\<lambda>(k, v) hv. hv_store hv k v) kvs hv) = hv_fetch hv ++ map_of (rev kvs)"
  by (induction kvs arbitrary: hv) (auto simp: hv_fetch_store)

lemma keys_store: "map fst (hv_store hv k v) = (if k \<in> set (map fst hv) then map fst hv else map fst hv @ [k])"
  by (induction hv k v rule: hv_store.induct) auto

lemma distinct_fold_store: "distinct (map fst hv) \<Longrightarrow> distinct (map fst (fold (\<lambda>(k, v) hv. hv_store hv k v) kvs hv))"
  by (induction kvs arbitrary: hv) (auto simp: keys_store)

lemma map_of_rev_distinct: "distinct (map fst kvs) \<Longrightarrow> map_of (rev kvs) = map_of kvs"
  by (simp add: map_of_inject_set rev_map [symmetric])

lemma run_map_Inr: "\<forall>x\<in>set xs. f x = Inr (g x) \<Longrightarrow> run_map f xs = Inr (map g xs)"
  by (induction xs) auto

lemma keyword_hash_eq:
  assumes t: "keywords_ok uc t"
  shows "\<exists>hv. keyword_hash t = Inr hv \<and> distinct (map fst hv) \<and> hv_fetch hv = (\<lambda>k. map_option token_sv (keyword_of uc t k))"
proof -
  let ?ns = "concat (ht_root t)"
  let ?f = "\<lambda>n. (hn_key n, token_sv (the (hn_obj n)))"
  let ?hv = "fold (\<lambda>(k, v) hv. hv_store hv k v) (map ?f ?ns) []"
  have map: "table_map t key = Some v \<longleftrightarrow> (\<exists>n\<in>set ?ns. node_key n = key \<and> hn_obj n = v)" for key v
    using table_map_Some [OF keywords_okD(1) [OF t]] by (simp add: nodes_def)
  have node: "hn_hash n = HASH_DATA uc (length (hn_key n)) (hn_key n) \<and> (\<exists>tok. hn_obj n = Some tok)" if "n \<in> set ?ns" for n
    using map [of "(hn_hash n, hn_key n)" "hn_obj n"] that keywords_okD(2) [OF t, of "hn_hash n" "hn_key n" "hn_obj n"]
    by (auto simp: node_key_def)
  have "distinct (map node_key ?ns)" using keywords_okD(1) [OF t] buckets_distinct by (auto simp: table_ok_def)
  moreover have "map node_key ?ns = map (\<lambda>k. (HASH_DATA uc (length k) k, k)) (map hn_key ?ns)" using node by (simp add: node_key_def)
  ultimately have "distinct (map (\<lambda>k. (HASH_DATA uc (length k) k, k)) (map hn_key ?ns))" by (simp only:)
  then have dist: "distinct (map hn_key ?ns)" by (rule iffD1 [OF distinct_map, THEN conjunct1])
  have "keyword_hash t = Inr ?hv"
  proof -
    have "run_map (\<lambda>(key, len, tok). case tok of None \<Rightarrow> Inl Undefined_behaviour
        | Some t \<Rightarrow> Inr (key, case token_name t of None \<Rightarrow> Undef | Some name \<Rightarrow> newSVpv name)) (map entry_of ?ns) =
        Inr (map (\<lambda>(key, len, tok). (key, token_sv (the tok))) (map entry_of ?ns))"
      by (rule run_map_Inr) (use node in \<open>fastforce simp: entry_of_def token_sv_def\<close>)
    then show ?thesis using foreach_eq [OF keywords_okD(1) [OF t], of "ht_count t + 1"]
      by (simp add: keyword_hash_def keyword_entries_def entry_of_def comp_def)
  qed
  moreover have "hv_fetch ?hv k = map_option token_sv (keyword_of uc t k)" for k
  proof -
    have f: "hv_fetch ?hv k = map_of (map ?f ?ns) k"
      using dist by (simp add: fetch_fold_store hv_fetch_def map_of_rev_distinct comp_def)
    show ?thesis
    proof (cases "keyword_of uc t k")
      case None
      then have "\<forall>n\<in>set ?ns. hn_key n \<noteq> k" using keyword_of_None [OF t, of k] map [of "(HASH_DATA uc (length k) k, k)"] node
        by (auto simp: node_key_def)
      then have "map_of (map ?f ?ns) k = None" by (simp only: map_of_eq_None_iff set_map image_image fst_conv) blast
      with None f show ?thesis by simp
    next
      case (Some tok)
      then obtain n where "n \<in> set ?ns" "hn_key n = k" "hn_obj n = Some tok"
        using keyword_of_Some [OF t, of k tok] map [of "(HASH_DATA uc (length k) k, k)"] by (auto simp: node_key_def)
      then have "(k, token_sv tok) \<in> set (map ?f ?ns)" by force
      then have "map_of (map ?f ?ns) k = Some (token_sv tok)" using dist by (simp add: comp_def del: set_map)
      with Some f show ?thesis by simp
    qed
  qed
  ultimately show ?thesis using distinct_fold_store [of "[]" "map ?f ?ns"] by auto
qed


lemma token_read_back:
  assumes pl: "perl_scalars pl" and tok: "token_ok tok"
  shows "keyword_token pl (token_sv tok) = Inr tok"
proof (cases tok)
  case SKIP_TOK
  then show ?thesis by (simp add: token_sv_def token_name_def keyword_token_def)
next
  case (Keyword_token s)
  have names: "\<forall>s\<in>set (map fst keyword_flags @ other_keywords). plain s" by code_simp
  have s: "get_c_keyword_token s = Some tok" using tok Keyword_token by (simp add: token_ok_def)
  then have "s \<in> set (map fst keyword_flags @ other_keywords)" unfolding get_c_keyword_token_def by (meson option.distinct(1))
  with names have "c_string s = s" unfolding plain_def by blast
  with s Keyword_token show ?thesis by (simp add: token_sv_def token_name_def keyword_token_def perl_scalarsD [OF pl])
qed

lemma map_keywords_all:
  assumes pl: "perl_scalars pl"
  shows "keywords_ok uc t \<Longrightarrow> distinct (map fst hv) \<Longrightarrow>
    \<forall>(k, v)\<in>set hv. keyword_key k = Inr k \<and> (\<exists>tok. token_ok tok \<and> v = token_sv tok) \<and> keyword_of uc t k = None \<Longrightarrow>
    \<exists>t'. map_keywords uc pl hv t = Inr t' \<and> keywords_ok uc t' \<and>
      (\<lambda>k. map_option token_sv (keyword_of uc t' k)) = (\<lambda>k. map_option token_sv (keyword_of uc t k)) ++ map_of hv"
proof (induction hv arbitrary: t)
  case (Cons kv hv)
  obtain k v where kv: "kv = (k, v)" by (cases kv)
  from Cons.prems(3) obtain tok where k: "keyword_key k = Inr k" "keyword_of uc t k = None" and tok: "token_ok tok" "v = token_sv tok"
    by (auto simp: kv)
  let ?t = "snd (HT_store uc (ht_count t) t k (length k) 0 (Some tok))"
  note st = store_keyword [OF Cons.prems(1) k(1) tok(1), of "ht_count t"]
  have new: "keyword_of uc ?t = (keyword_of uc t)(k \<mapsto> tok)" using st(2) k(2) by simp
  have "\<forall>(k', v)\<in>set hv. keyword_key k' = Inr k' \<and> (\<exists>tok. token_ok tok \<and> v = token_sv tok) \<and> keyword_of uc ?t k' = None"
    using Cons.prems(2,3) by (auto simp: kv new intro!: image_eqI dest!: bspec)
  from Cons.IH [OF st(1) _ this] Cons.prems(2) obtain t' where
    t': "map_keywords uc pl hv ?t = Inr t'" "keywords_ok uc t'"
      "(\<lambda>k. map_option token_sv (keyword_of uc t' k)) = (\<lambda>k. map_option token_sv (keyword_of uc ?t k)) ++ map_of hv" by auto
  have "k \<notin> set (map fst hv)" using Cons.prems(2) by (simp add: kv)
  then have "map_of hv k = None" by (simp add: map_of_eq_None_iff)
  then have eq: "(\<lambda>k'. map_option token_sv (keyword_of uc ?t k')) ++ map_of hv = (\<lambda>k. map_option token_sv (keyword_of uc t k)) ++ map_of (kv # hv)"
    by (auto simp: fun_eq_iff new kv tok(2) map_add_def split: option.split)
  have "map_keywords uc pl (kv # hv) t = Inr t'" using t'(1) by (simp add: kv k(1) tok(2) token_read_back [OF pl tok(1)])
  with t'(2) t'(3) [unfolded eq] show ?case by blast
qed auto

lemma keyword_sets:
  assumes pl: "perl_scalars pl" and t: "keywords_ok uc t" and hv: "keyword_hash t = Inr hv"
  shows "sets (\<lambda>c. and_then (keyword_hash (keyword_table (ob_cfg c))) (\<lambda>hv. Inr (HVref hv))) (HVref hv)
    (SET_OPTION (Some (HVref hv)) (keyword_map uc pl (Some (HVref hv)) False))"
proof -
  obtain t0 where t0: "HT_new_ex 4 HT_AUTOGROW = Inr t0" "keywords_ok uc t0" "keyword_of uc t0 = Map.empty"
    using new_keywords [of 4 HT_AUTOGROW uc] by auto
  from keyword_hash_eq [OF t] hv have d: "distinct (map fst hv)" and f: "hv_fetch hv = (\<lambda>k. map_option token_sv (keyword_of uc t k))" by auto
  have "keyword_key k = Inr k \<and> (\<exists>tok. token_ok tok \<and> v = token_sv tok)" if "(k, v) \<in> set hv" for k v
  proof -
    have "hv_fetch hv k = Some v" using that d by (simp add: hv_fetch_def)
    then obtain tok where "keyword_of uc t k = Some tok" "v = token_sv tok" by (auto simp: f)
    then show ?thesis using keyword_of_Some [OF t, of k tok] keywords_okD(2) [OF t] by blast
  qed
  then have "\<forall>(k, v)\<in>set hv. keyword_key k = Inr k \<and> (\<exists>tok. token_ok tok \<and> v = token_sv tok) \<and> keyword_of uc t0 k = None"
    by (auto simp: t0(3))
  from map_keywords_all [OF pl t0(2) d this] obtain t' where t': "map_keywords uc pl hv t0 = Inr t'" "keywords_ok uc t'"
      "(\<lambda>k. map_option token_sv (keyword_of uc t' k)) = map_of hv" by (auto simp: t0(3))
  from keyword_hash_eq [OF t'(2)] obtain hv' where hv': "keyword_hash t' = Inr hv'" "hv_fetch hv' = hv_fetch hv"
    by (auto simp: t'(3) hv_fetch_def fun_eq_iff)
  have "SET_OPTION (Some (HVref hv)) (keyword_map uc pl (Some (HVref hv)) False) d = (quiet (None, True), in_cfg (\<lambda>cfg. cfg\<lparr>keyword_table := t'\<rparr>) d)" for d
    by (simp add: SET_OPTION_def keyword_map_def t0(1) t'(1) wanted_def in_cfg_def)
  then show ?thesis using hv' by (auto simp: sets_def in_cfg_def same_value_def)
qed


lemma block_size_set:
  "set_bl_options pl [(''Engine'', sv), (''BlockSize'', v)] (Simple b) = (Inr (), Simple (b\<lparr>block_size := sint (SvIV pl v)\<rparr>))"
proof -
  have c: "c_string ''Engine'' = ''Engine''" "c_string ''BlockSize'' = ''BlockSize''" by code_simp+
  have p: "bl_property ''BlockSize'' = BLP_BLOCK_SIZE" by code_simp
  show ?thesis by (simp add: c p set_bl_option_def bl_options_def prop_value_def bl_set_def Simple_set_def)
qed

lemma bitfields_sets:
  assumes pl: "perl_scalars pl" and bl: "layouter_ok bl" and sv: "layouter_hash bl = Inr sv"
  shows "sets (\<lambda>c. layouter_hash (bflayouter (ob_cfg c))) sv (SET_OPTION (Some sv) (bitfields_option pl (Some sv) False))"
proof -
  have plain_names: "c_string ''Engine'' = ''Engine''" "c_string ''Generic'' = ''Generic''" "c_string ''Microsoft'' = ''Microsoft''" "c_string ''Simple'' = ''Simple''"
    by code_simp+
  have set: "sets (\<lambda>c. layouter_hash (bflayouter (ob_cfg c))) (HVref hv) (SET_OPTION (Some (HVref hv)) (bitfields_option pl (Some (HVref hv)) False))"
    if "hv_fetch hv ''Engine'' = Some (newSVpv name)" "c_string name = name" "bl_create name = Some new"
      "set_bl_options pl hv new = (Inr (), b)" "layouter_hash b = Inr (HVref hv)" for hv name new b
    using that by (intro setsI [where ch = "\<lambda>d. True" and d' = "\<lambda>d. in_cfg (\<lambda>cfg. cfg\<lparr>bflayouter := b\<rparr>) d"])
      (simp_all add: SET_OPTION_def bitfields_option_def set_bitfields_def perl_scalarsD [OF pl] wanted_def in_cfg_def)
  show ?thesis
  proof (cases bl)
    case (Generic g)
    then have hv: "sv = HVref [(''Engine'', newSVpv ''Generic'')]" using sv by (simp add: layouter_hash_def bl_options_def bl_class_name_def)
    show ?thesis unfolding hv
      by (rule set [of _ "''Generic''" "Generic (Generic_init zero_generic)" "Generic (Generic_init zero_generic)"])
        (simp_all add: hv_fetch_def plain_names bl_create_def layouter_hash_def bl_options_def bl_class_name_def)
  next
    case (Microsoft g)
    then have hv: "sv = HVref [(''Engine'', newSVpv ''Microsoft'')]" using sv by (simp add: layouter_hash_def bl_options_def bl_class_name_def)
    show ?thesis unfolding hv
      by (rule set [of _ "''Microsoft''" "Microsoft (Microsoft_init zero_generic)" "Microsoft (Microsoft_init zero_generic)"])
        (simp_all add: hv_fetch_def plain_names bl_create_def layouter_hash_def bl_options_def bl_class_name_def)
  next
    case (Simple b)
    have hash: "layouter_hash (Simple b) = Inr (HVref [(''Engine'', newSVpv ''Simple''), (''BlockSize'', newSViv (block_size b))])" for b
    proof -
      have "bl_property_string BLP_BLOCK_SIZE = Some ''BlockSize''" by code_simp
      then show ?thesis by (simp add: layouter_hash_def bl_options_def bl_class_name_def get_bl_option_def bl_get_def Simple_get_def)
    qed
    then have hv: "sv = HVref [(''Engine'', newSVpv ''Simple''), (''BlockSize'', newSViv (block_size b))]" using sv Simple by simp
    have "sint (SvIV pl (newSViv (block_size b))) = block_size b" using bl Simple by (simp add: layouter_ok_def perl_scalarsD [OF pl])
    then show ?thesis unfolding hv
      by (intro set [of _ "''Simple''" "Simple (Simple_init zero_simple)" "Simple ((Simple_init zero_simple)\<lparr>block_size := block_size b\<rparr>)"])
        (simp_all add: hv_fetch_def plain_names bl_create_def hash block_size_set del: set_bl_options.simps)
  qed
qed


lemma option_sets:
  assumes pl: "perl_scalars pl" and c: "options_ok uc c" and sv: "get_configuration_of c opt = Inr sv"
  shows "sets (\<lambda>c. get_configuration_of c opt) sv (set_option uc pl opt (Some sv) False)"
proof -
  have small: "i \<in> set IntSizeOption \<union> set EnumSizeOption \<union> set FloatSizeOption \<union> set AlignmentOption \<Longrightarrow> - (2 ^ 63) \<le> i \<and> i < 2 ^ 63" for i
    by (auto simp: IntSizeOption_def EnumSizeOption_def FloatSizeOption_def AlignmentOption_def)
  have order: "plain ''BigEndian''" "plain ''LittleEndian''" "plain ''Integer''" "plain ''String''" "plain ''Both''" by code_simp+
  have ival: "sets (\<lambda>c. Inr (newSViv (get (cfg_layout (ob_cfg c))))) (newSViv (get (cfg_layout (ob_cfg c))))
      (IVAL_OPTION pl name options get set_int (Some (newSViv (get (cfg_layout (ob_cfg c))))) False)"
    if "get (cfg_layout (ob_cfg c)) \<in> set options" "options \<in> {IntSizeOption, EnumSizeOption, FloatSizeOption, AlignmentOption}"
      "\<And>i lp. get (set_int i lp) = i" for name options get set_int
    using that small by (intro ival_sets [OF pl]) auto
  note c = c [unfolded options_ok_def Let_def layout_options_ok_def]
  show ?thesis
  proof (cases opt)
    case OPTION_ByteOrder
    show ?thesis using sv unfolding OPTION_ByteOrder
      by (cases "lp_byte_order (cfg_layout (ob_cfg c))")
        (auto simp: get_configuration_of_def set_option_def Let_def ByteOrderOption_def in_cfg_def order intro!: string_sets [OF pl, where v = "lp_byte_order (cfg_layout (ob_cfg c))"])
  next
    case OPTION_EnumType
    show ?thesis using sv unfolding OPTION_EnumType
      by (cases "ob_enumType c")
        (auto simp: get_configuration_of_def set_option_def Let_def EnumTypeOption_def order intro!: string_sets [OF pl, where v = "ob_enumType c"])
  next
    case OPTION_HostedC
    have z: "(flag_value b = 0) = (\<not> b)" for b by (simp add: flag_value_def)
    have iv: "sint (SvIV pl (newSViv (flag_value b))) = flag_value b" for b by (rule perl_scalarsD(2) [OF pl]) (simp_all add: flag_value_def)
    note back_again = z iv
    have "sv = (if has_std_c_hosted (ob_cfg c) then newSViv (flag_value (is_std_c_hosted (ob_cfg c))) else Undef)"
      using sv by (simp add: OPTION_HostedC get_configuration_of_def Let_def split: if_splits)
    note sv = this
    show ?thesis unfolding OPTION_HostedC sv get_configuration_of_def set_option_def Let_def ConfigOption.case
      by (rule tristate_sets) (simp_all add: back_again)
  next
    case OPTION_StdCVersion
    have back_again: "sint (SvIV pl (newSViv (std_c_version (ob_cfg c)))) = std_c_version (ob_cfg c)" using c by (intro perl_scalarsD(2) [OF pl]) auto
    have "sv = (if has_std_c (ob_cfg c) then newSViv (std_c_version (ob_cfg c)) else Undef)"
      using sv by (simp add: OPTION_StdCVersion get_configuration_of_def Let_def split: if_splits)
    note sv = this
    show ?thesis unfolding OPTION_StdCVersion sv get_configuration_of_def set_option_def Let_def ConfigOption.case
      by (rule tristate_sets) (simp_all add: back_again)
  next
    case OPTION_KeywordMap
    then obtain hv where "keyword_hash (keyword_table (ob_cfg c)) = Inr hv" "sv = HVref hv"
      using sv by (auto simp: get_configuration_of_def Let_def and_then_Inr)
    then show ?thesis using keyword_sets [OF pl, of uc "keyword_table (ob_cfg c)" hv] c
      by (simp add: OPTION_KeywordMap get_configuration_of_def set_option_def Let_def)
  next
    case OPTION_DisabledKeywords
    then have "sv = string_list_ref (disabled_list (ob_cfg c))" using sv by (simp add: get_configuration_of_def)
    then show ?thesis using disabled_sets [OF pl, of "cfg_keywords (ob_cfg c)" "disabled_list (ob_cfg c)"] c
      by (simp add: OPTION_DisabledKeywords get_configuration_of_def set_option_def Let_def)
  next
    case OPTION_Bitfields
    then show ?thesis using bitfields_sets [OF pl, of "bflayouter (ob_cfg c)" sv] c sv
      by (simp add: get_configuration_of_def set_option_def Let_def)
  qed (use c sv in \<open>auto simp: get_configuration_of_def set_option_def Let_def in_cfg_def
      intro!: flag_sets [OF pl] ival list_sets [OF pl]\<close>)
qed

end
