(* ===== verification/Option_Props.thy ===== *)
theory Option_Props
  imports Option_Values Layout_Examples "HOL-Library.Multiset"
begin

text \<open>
  The options as a whole: the configuration of one object makes another one configured alike, options are independent of
  each other, and sizes are computed again after a change that touches them.
\<close>

section \<open>The whole configuration\<close>

lemma option_names_back: "c_string (option_name opt) = option_name opt" "get_config_option (option_name opt) = Some opt"
proof -
  have "\<forall>(opt, s)\<in>set option_names. plain s" "list_all (\<lambda>opt. get_config_option (option_name opt) = Some opt) configuration_order"
      "list_all (\<lambda>opt. plain (option_name opt)) configuration_order" by code_simp+
  then show "c_string (option_name opt) = option_name opt" "get_config_option (option_name opt) = Some opt"
    using all_options [of opt] by (auto simp: list_all_iff plain_def)
qed

lemma configuration_exists:
  assumes "options_ok uc c"
  shows "\<exists>sv. get_configuration_of c opt = Inr sv"
proof -
  have "\<exists>sv. layouter_hash bl = Inr sv" for bl
  proof (cases bl)
    case (Simple b)
    have "bl_property_string BLP_BLOCK_SIZE = Some ''BlockSize''" by code_simp
    with Simple show ?thesis by (simp add: layouter_hash_def bl_options_def get_bl_option_def bl_get_def Simple_get_def)
  qed (simp_all add: layouter_hash_def bl_options_def)
  then obtain sv where bl: "layouter_hash (bflayouter (ob_cfg c)) = Inr sv" by blast
  obtain hv where kw: "keyword_hash (keyword_table (ob_cfg c)) = Inr hv"
    using keyword_hash_eq [of uc "keyword_table (ob_cfg c)"] assms by (auto simp: options_ok_def Let_def)
  obtain bo where bo: "find (\<lambda>(v, t). v = lp_byte_order (cfg_layout (ob_cfg c))) ByteOrderOption = Some bo"
    by (cases "lp_byte_order (cfg_layout (ob_cfg c))") (simp_all add: ByteOrderOption_def)
  obtain et where et: "find (\<lambda>(v, t). v = ob_enumType c) EnumTypeOption = Some et"
    by (cases "ob_enumType c") (simp_all add: EnumTypeOption_def)
  show ?thesis by (cases opt) (simp_all add: get_configuration_of_def Let_def bl kw bo et split: prod.split)
qed

definition option_value :: "Converter \<Rightarrow> ConfigOption \<Rightarrow> SV" where
  "option_value c opt = (case get_configuration_of c opt of Inl _ \<Rightarrow> Undef | Inr sv \<Rightarrow> sv)"

lemma option_value: "options_ok uc c \<Longrightarrow> get_configuration_of c opt = Inr (option_value c opt)"
  using configuration_exists [of uc c opt] by (auto simp: option_value_def)

lemma fold_store_new:
  "distinct (map fst kvs) \<Longrightarrow> set (map fst kvs) \<inter> set (map fst hv) = {} \<Longrightarrow> fold (\<lambda>(k, v) hv. hv_store hv k v) kvs hv = hv @ kvs"
proof (induction kvs arbitrary: hv)
  case (Cons kv kvs)
  obtain k v where kv: "kv = (k, v)" by (cases kv)
  have "hv_fetch hv k = None" using Cons.prems(2) by (auto simp: kv hv_fetch_def map_of_eq_None_iff)
  then show ?case using Cons by (auto simp: kv hv_store_new)
qed simp

lemma names_distinct: "distinct (map option_name configuration_order)"
  by code_simp

lemma get_configuration_values:
  assumes "\<And>opt. get_configuration_of c opt = Inr (f opt)"
  shows "get_configuration c = Inr (HVref (map (\<lambda>opt. (option_name opt, f opt)) configuration_order))"
proof -
  have "run_map (get_configuration_of c) configuration_order = Inr (map f configuration_order)"
    by (rule run_map_Inr) (simp add: assms)
  moreover have "zip (map option_name configuration_order) (map f configuration_order) =
      map (\<lambda>opt. (option_name opt, f opt)) configuration_order" by (simp add: zip_map_map zip_same_conv_map)
  ultimately show ?thesis
    using fold_store_new [of "map (\<lambda>opt. (option_name opt, f opt)) configuration_order" "[]"] names_distinct
    by (simp add: get_configuration_def comp_def)
qed

lemma get_configuration_eq:
  "options_ok uc c \<Longrightarrow> get_configuration c = Inr (HVref (map (\<lambda>opt. (option_name opt, option_value c opt)) configuration_order))"
  by (rule get_configuration_values) (rule option_value)

lemma module_values:
  "\<exists>b ws d'. load_indexed_hash_module loads preferred d = (Inr (b, ws), d') \<and> (\<forall>opt. get_configuration_of d' opt = get_configuration_of d opt)"
proof -
  have "get_configuration_of (d\<lparr>ixhash := m\<rparr>) opt = get_configuration_of d opt" for m opt by (cases opt) (simp_all add: get_configuration_of_def)
  then show ?thesis by (auto simp: load_indexed_hash_module_def Let_def quiet_def split: option.split)
qed

lemma handle_option_sets:
  assumes pl: "perl_scalars (in_perl env)" and c: "options_ok (plain_char_unsigned env) c"
  shows "\<exists>r ws d'. handle_option env (newSVpv (option_name opt)) (Some (option_value c opt)) False d = (Inr (r, ws), d') \<and>
    (\<exists>sv'. get_configuration_of d' opt = Inr sv' \<and> same_value sv' (option_value c opt)) \<and>
    (\<forall>opt'. opt' \<noteq> opt \<longrightarrow> get_configuration_of d' opt' = get_configuration_of d opt')"
proof -
  let ?set = "set_option (plain_char_unsigned env) (in_perl env) opt (Some (option_value c opt)) False"
  obtain ch d1 sv' where d1: "?set d = (quiet (None, ch), d1)" "get_configuration_of d1 opt = Inr sv'" "same_value sv' (option_value c opt)"
    using option_sets [OF pl c option_value [OF c]] unfolding sets_def by blast
  have frame: "opt' \<noteq> opt \<Longrightarrow> get_configuration_of d1 opt' = get_configuration_of d opt'" for opt'
    using ch_movesD [OF option_frame, where c = d] d1(1) by (metis only_option_def snd_conv)
  obtain b ws d2 where d2: "(if opt = OPTION_OrderMembers \<and> Some (option_value c opt) \<noteq> None \<and> order_members d1 \<and> ixhash d1 = None
      then load_indexed_hash_module (loads_module env) (preferred_module env) d1 else (quiet True, d1)) = (Inr (b, ws), d2)"
      "\<forall>opt. get_configuration_of d2 opt = get_configuration_of d1 opt"
    using module_values [of "loads_module env" "preferred_module env" d1]
    by (cases "opt = OPTION_OrderMembers \<and> order_members d1 \<and> ixhash d1 = None") (auto simp: quiet_def)
  have "handle_option env (newSVpv (option_name opt)) (Some (option_value c opt)) False d =
      (Inr ((None, \<lparr>option_modified = ch, impacts_layout = option_impacts_layout opt, impacts_preproc = option_impacts_preproc opt\<rparr>), ws), d2)"
    using d2(1) by (simp add: handle_option_def perl_scalarsD [OF pl] option_names_back d1(1)) (simp add: ch_then_def quiet_def log_then_def)
  then show ?thesis using d1(2,3) d2(2) frame by auto
qed

lemma set_options_sets:
  assumes pl: "perl_scalars (in_perl env)" and c: "options_ok (plain_char_unsigned env) c"
  shows "distinct opts \<Longrightarrow> \<exists>r ws d'. set_options env (map (\<lambda>opt. (newSVpv (option_name opt), option_value c opt)) opts) res d = (Inr (r, ws), d') \<and>
    (\<forall>opt\<in>set opts. \<exists>sv'. get_configuration_of d' opt = Inr sv' \<and> same_value sv' (option_value c opt)) \<and>
    (\<forall>opt. opt \<notin> set opts \<longrightarrow> get_configuration_of d' opt = get_configuration_of d opt)"
proof (induction opts arbitrary: res d)
  case (Cons opt opts)
  obtain x r ws d1 where d1: "handle_option env (newSVpv (option_name opt)) (Some (option_value c opt)) False d = (Inr ((x, r), ws), d1)"
      "\<exists>sv'. get_configuration_of d1 opt = Inr sv' \<and> same_value sv' (option_value c opt)"
      "\<forall>opt'. opt' \<noteq> opt \<longrightarrow> get_configuration_of d1 opt' = get_configuration_of d opt'"
    using handle_option_sets [OF pl c, of opt d] by auto
  define res' where "res' = \<lparr>option_modified = option_modified res \<or> option_modified r, impacts_layout = impacts_layout res \<or> impacts_layout r,
       impacts_preproc = impacts_preproc res \<or> impacts_preproc r\<rparr>"
  have "distinct opts" "opt \<notin> set opts" using Cons.prems by auto
  from Cons.IH [OF this(1), of res' d1] this(2) obtain r' ws' d2 where
    d2: "set_options env (map (\<lambda>opt. (newSVpv (option_name opt), option_value c opt)) opts) res' d1 = (Inr (r', ws'), d2)"
      "\<forall>opt\<in>set opts. \<exists>sv'. get_configuration_of d2 opt = Inr sv' \<and> same_value sv' (option_value c opt)"
      "\<forall>opt. opt \<notin> set opts \<longrightarrow> get_configuration_of d2 opt = get_configuration_of d1 opt" by blast
  have "set_options env (map (\<lambda>opt. (newSVpv (option_name opt), option_value c opt)) (opt # opts)) res d = (Inr (r', ws @ ws'), d2)"
    using d1(1) d2(1) by (simp add: ch_then_def res'_def [symmetric] log_then_def)
  moreover have "opt' \<notin> set (opt # opts) \<Longrightarrow> get_configuration_of d2 opt' = get_configuration_of d opt'" for opt' using d1(3) d2(3) by simp
  moreover have "opt' \<in> set (opt # opts) \<Longrightarrow> \<exists>sv'. get_configuration_of d2 opt' = Inr sv' \<and> same_value sv' (option_value c opt')" for opt'
    using d1(2) d2(2,3) \<open>opt \<notin> set opts\<close> by auto
  ultimately show ?case by blast
qed (simp add: quiet_def)


lemma known_option_moves:
  assumes pl: "perl_scalars (in_perl env)"
  shows "ch_moves (only_option opt) (handle_option env (newSVpv (option_name opt)) sv want)"
proof -
  have "only_option opt c (c\<lparr>ixhash := Some m\<rparr>)" for c m
    by (rule only_optionI) (simp_all add: configuration_order_def get_configuration_of_def)
  then have "ch_moves (only_option opt) (load_indexed_hash_module loads preferred)" for loads preferred
    by (auto simp: ch_moves_def load_indexed_hash_module_def Let_def preorder_relD(1) [OF only_option_preorder] split: option.split)
  then have "ch_moves (only_option opt) (\<lambda>c. if b c then load_indexed_hash_module loads preferred c else (quiet True, c))" for b loads preferred
    using preorder_relD(1) [OF only_option_preorder] by (auto simp: ch_moves_def)
  then have "ch_moves (only_option opt) (ch_then (set_option (plain_char_unsigned env) (in_perl env) opt sv want) (\<lambda>(r, changed).
          ch_then (\<lambda>c. if opt = OPTION_OrderMembers \<and> sv \<noteq> None \<and> order_members c \<and> ixhash c = None
              then load_indexed_hash_module (loads_module env) (preferred_module env) c else (quiet True, c)) (\<lambda>_.
          ch_run (quiet (r, \<lparr>option_modified = changed, impacts_layout = option_impacts_layout opt,
            impacts_preproc = option_impacts_preproc opt\<rparr>)))))"
    by (intro ch_moves_then [OF only_option_preorder] option_frame) (auto split: prod.split intro!: ch_moves_then [OF only_option_preorder]
      ch_moves_run [OF only_option_preorder])
  then show ?thesis by (simp add: ch_moves_def handle_option_def perl_scalarsD [OF pl] option_names_back)
qed

section \<open>When sizes are forgotten\<close>

definition same_layout :: "Converter \<Rightarrow> Converter \<Rightarrow> bool" where
  "same_layout c c' \<longleftrightarrow> cfg_layout (ob_cfg c') = cfg_layout (ob_cfg c) \<and> bflayouter (ob_cfg c') = bflayouter (ob_cfg c)"

lemma same_layout_preorder: "preorder_rel same_layout"
  by (auto simp: preorder_rel_def same_layout_def intro!: reflpI transpI)

lemma ival_changes: "IVAL_OPTION pl name options get set_int sv want c = (Inr ((x, False), ws), c') \<Longrightarrow> c' = c"
  by (cases sv) (auto simp: IVAL_OPTION_def Let_def quiet_def split: sum.splits if_splits)

lemma string_changes: "STRING_OPTION pl options name get set_val sv want c = (Inr ((x, False), ws), c') \<Longrightarrow> c' = c"
  by (cases sv) (auto simp: STRING_OPTION_def Let_def quiet_def and_then_Inr split: sum.splits if_splits)

lemma set_changes: "SET_OPTION sv op c = (Inr ((x, ch), ws), c') \<Longrightarrow> ch = (sv \<noteq> None)"
  by (auto simp: SET_OPTION_def ch_then_def log_then_def quiet_def and_then_Inr split: sum.splits prod.splits)

lemma option_changes_layout:
  assumes "set_option uc pl opt (Some v) want c = (Inr ((x, ch), ws), c')" and "\<not> (ch \<and> option_impacts_layout opt)"
  shows "same_layout c c'"
proof (cases "option_impacts_layout opt")
  case True
  with assms have "set_option uc pl opt (Some v) want c = (Inr ((x, False), ws), c')" by simp
  with True have "c' = c"
    by (cases opt) (auto simp: option_impacts_layout_def set_option_def Let_def dest: ival_changes string_changes set_changes)
  then show ?thesis by (simp add: same_layout_def)
next
  case False
  have "ch_moves same_layout (set_option uc pl opt (Some v) want)"
    using False unfolding set_option_def Let_def
    by (cases opt; simp only: ConfigOption.case; (intro set_moves option_moves same_layout_preorder)?;
      simp add: same_layout_def in_cfg_def option_impacts_layout_def)
  from ch_movesD [OF this, of c] show ?thesis by (simp add: assms(1))
qed

lemma module_layout:
  "load_indexed_hash_module loads preferred c = (r, c') \<Longrightarrow> same_layout c c' \<and> ob_cpi c' = ob_cpi c \<and> ob_basic c' = ob_basic c"
  by (auto simp: load_indexed_hash_module_def same_layout_def Let_def split: if_splits option.splits)

lemma ch_then_Inr:
  "ch_then m f c = (Inr (y, ws), c') \<longleftrightarrow>
   (\<exists>x ws1 c1 ws2. m c = (Inr (x, ws1), c1) \<and> f x c1 = (Inr (y, ws2), c') \<and> ws = ws1 @ ws2)"
  by (auto simp: ch_then_def log_then_def and_then_Inr split: sum.splits prod.splits)

lemma handle_option_layout:
  assumes "handle_option env name (Some v) want c = (Inr ((x, r), ws), c')"
  shows "(same_layout c c' \<or> option_modified r \<and> impacts_layout r) \<and> ob_cpi c' = ob_cpi c \<and> ob_basic c' = ob_basic c"
proof -
  from assms obtain opt ch ws1 c1 b ws2 where
    set: "set_option (plain_char_unsigned env) (in_perl env) opt (Some v) want c = (Inr ((x, ch), ws1), c1)"
    and r: "r = \<lparr>option_modified = ch, impacts_layout = option_impacts_layout opt, impacts_preproc = option_impacts_preproc opt\<rparr>"
    and "(if opt = OPTION_OrderMembers \<and> order_members c1 \<and> ixhash c1 = None
        then load_indexed_hash_module (loads_module env) (preferred_module env) c1 else (quiet True, c1)) = (Inr (b, ws2), c')"
  proof -
    from assms obtain opt where "ch_then (set_option (plain_char_unsigned env) (in_perl env) opt (Some v) want) (\<lambda>(r, changed).
          ch_then (\<lambda>c. if opt = OPTION_OrderMembers \<and> Some v \<noteq> None \<and> order_members c \<and> ixhash c = None
              then load_indexed_hash_module (loads_module env) (preferred_module env) c else (quiet True, c)) (\<lambda>_.
          ch_run (quiet (r, \<lparr>option_modified = changed, impacts_layout = option_impacts_layout opt,
            impacts_preproc = option_impacts_preproc opt\<rparr>)))) c = (Inr ((x, r), ws), c')"
      by (simp add: handle_option_def Let_def split: if_splits option.splits)
    then show ?thesis by (auto simp: quiet_def ch_then_Inr intro: that split del: if_split)
  qed
  then have "same_layout c1 c'" "ob_cpi c' = ob_cpi c1" "ob_basic c' = ob_basic c1"
    using module_layout [of "loads_module env" "preferred_module env" c1] by (auto simp: same_layout_def split: if_splits)
  moreover have "same_layout c c1 \<or> ch \<and> option_impacts_layout opt" using option_changes_layout [OF set] by blast
  moreover have "only_option opt c c1" using ch_movesD [OF option_frame, where c = c] set by (metis snd_conv)
  then have "ob_cpi c1 = ob_cpi c" "ob_basic c1 = ob_basic c" by (simp_all add: only_option_def)
  ultimately show ?thesis by (auto simp: r same_layout_def)
qed

lemma set_options_layout:
  "set_options env args res c = (Inr (res', ws), c') \<Longrightarrow>
   (same_layout c c' \<or> option_modified res' \<and> impacts_layout res') \<and> (option_modified res \<longrightarrow> option_modified res') \<and>
   (impacts_layout res \<longrightarrow> impacts_layout res') \<and> ob_cpi c' = ob_cpi c \<and> ob_basic c' = ob_basic c"
proof (induction args arbitrary: res c ws)
  case (Cons arg args)
  obtain name v where arg: "arg = (name, v)" by (cases arg)
  from Cons.prems obtain x r ws1 c1 ws2 where one: "handle_option env name (Some v) False c = (Inr ((x, r), ws1), c1)"
    and rest: "set_options env args \<lparr>option_modified = option_modified res \<or> option_modified r, impacts_layout = impacts_layout res \<or> impacts_layout r,
       impacts_preproc = impacts_preproc res \<or> impacts_preproc r\<rparr> c1 = (Inr (res', ws2), c')"
    by (auto simp: arg ch_then_Inr)
  show ?case using handle_option_layout [OF one] Cons.IH [OF rest] by (auto simp: same_layout_def)
qed (simp add: quiet_def same_layout_def)

lemma read_handle_option:
  assumes "perl_scalars (in_perl env)"
  shows "handle_option env (newSVpv (option_name opt)) None True c =
    (and_then (get_configuration_of c opt) (\<lambda>sv. quiet (Some sv, \<lparr>option_modified = False, impacts_layout = option_impacts_layout opt,
      impacts_preproc = option_impacts_preproc opt\<rparr>)), c)"
  by (cases "get_configuration_of c opt")
    (simp_all add: handle_option_def perl_scalarsD [OF assms] option_names_back option_read Let_def)

lemma read_only: "snd (handle_option env name None True c) = c"
proof (cases "SvROK name")
  case False
  show ?thesis
  proof (cases "get_config_option (c_string (SvPV (in_perl env) name))")
    case (Some opt)
    show ?thesis
      by (cases "get_configuration_of c opt") (simp_all add: handle_option_def False Some option_read)
  qed (simp add: handle_option_def False)
qed (simp add: handle_option_def)

lemma configured_layout:
  assumes "configure env gimme args c = (Inr (r, ws), c')"
  shows "same_layout c c' \<and> ob_cpi c' = ob_cpi c \<and> ob_basic c' = ob_basic c \<or>
    ob_cpi c' = ob_cpi (forget_layout c) \<and> ob_basic c' = ob_basic (forget_layout c)"
proof (cases "length args \<le> 1")
  case True
  then consider "args = []" | opt where "args = [opt]" by (cases args) auto
  then show ?thesis
  proof cases
    case 1
    with assms show ?thesis by (simp add: configure_def same_layout_def split: if_splits)
  next
    case 2
    have "snd (handle_option env opt None True c) = c" by (rule read_only)
    with 2 assms have "c' = c" by (auto simp: configure_def ch_then_Inr warned_def split: if_splits)
    then show ?thesis by (simp add: same_layout_def)
  qed
next
  case False
  then obtain x y zs where args: "args = x # y # zs" by (cases args; cases "tl args") auto
  have "even (length zs)" using assms by (rule_tac ccontr) (simp add: configure_def args)
  with assms obtain res ws1 c1 where
    opts: "set_options env (pairs args) \<lparr>option_modified = False, impacts_layout = False, impacts_preproc = False\<rparr> c = (Inr (res, ws1), c1)"
    and c': "c' = (if option_modified res \<and> impacts_layout res then forget_layout c1 else c1)"
    by (auto simp: configure_def args ch_then_Inr quiet_def simp del: pairs.simps set_options.simps split del: if_split intro: that)
  from set_options_layout [OF opts] show ?thesis by (auto simp: c' forget_layout_def same_layout_def)
qed


section \<open>Objects and copies of configurations\<close>

text \<open>The objects a program can have: made, configured (whether that succeeds or not) and copied.\<close>

inductive configured_object :: "interpreter \<Rightarrow> Host \<Rightarrow> CByteOrder \<Rightarrow> Converter \<Rightarrow> bool" for env h bo where
  created: "new_converter env h bo dis om args = Inr (c, ws) \<Longrightarrow> configured_object env h bo c"
| configured: "configured_object env h bo c \<Longrightarrow> configured_object env h bo (snd (configure env gimme args c))"
| copied: "configured_object env h bo c \<Longrightarrow> cbc_clone uc vt fresh fresh_list c = Inr d \<Longrightarrow> configured_object env h bo d"

lemma configured_object_ok:
  assumes "host_sizes_ok h" and "configured_object env h bo c"
  shows "options_ok (plain_char_unsigned env) c"
  using assms(2)
proof induction
  case (created dis om args c ws)
  then show ?case by (rule new_converter_ok [OF assms(1)])
next
  case (configured c gimme args)
  then show ?case using ch_movesD [OF configure_keeps] by blast
next
  case (copied c uc vt fresh fresh_list d)
  show ?case by (rule cbc_clone_ok(1) [OF copied.IH copied.hyps(2)])
qed

lemma pairs_concat: "pairs (concat (map (\<lambda>(name, v). [f name, v]) kvs)) = map (\<lambda>(name, v). (f name, v)) kvs"
  by (induction kvs) auto

lemma length_concat_pairs: "length (concat (map (\<lambda>(name, v). [f name, v]) kvs)) = 2 * length kvs"
  by (induction kvs) auto

lemma hv_fetch_related:
  "\<forall>x. R (f x) (g x) \<Longrightarrow> rel_option R (hv_fetch (map (\<lambda>x. (name x, f x)) xs) k) (hv_fetch (map (\<lambda>x. (name x, g x)) xs) k)"
  by (induction xs) (auto simp: hv_fetch_def)

lemma forget_layout_values: "get_configuration_of (forget_layout c) opt = get_configuration_of c opt"
  by (cases opt) (simp_all add: get_configuration_of_def forget_layout_def)

lemma configuration_transferred:
  assumes pl: "perl_scalars (in_perl env)" and c: "options_ok (plain_char_unsigned env) c"
    and hv: "get_configuration c = Inr (HVref hv)" and kvs: "mset kvs = mset hv"
  shows "\<exists>ws d' hv'. configure env gimme (concat (map (\<lambda>(name, v). [newSVpv name, v]) kvs)) d = (Inr (None, ws), d') \<and>
    get_configuration d' = Inr (HVref hv') \<and> (\<forall>name. rel_option same_value (hv_fetch hv' name) (hv_fetch hv name))"
proof -
  let ?entry = "\<lambda>opt. (option_name opt, option_value c opt)"
  let ?known = "\<lambda>(name, v :: SV). the (get_config_option name)"
  have hv: "hv = map ?entry configuration_order" using hv get_configuration_eq [OF c] by simp
  define opts where "opts = map ?known kvs"
  
  have same: "mset opts = mset configuration_order"
    using kvs by (simp add: opts_def hv image_mset.compositionality comp_def option_names_back)
  have "distinct configuration_order" by code_simp
  then have opts: "distinct opts" "set opts = UNIV" using mset_eq_imp_distinct_iff [OF same] mset_eq_setD [OF same] all_options by auto
  have "\<forall>kv\<in>set kvs. ?entry (?known kv) = kv" using mset_eq_setD [OF kvs] by (auto simp: hv option_names_back)
  then have kvs_opts: "kvs = map ?entry opts" by (simp add: opts_def map_idI)
  let ?args = "concat (map (\<lambda>(name, v). [newSVpv name, v]) kvs)"
  obtain r ws d1 where d1: "set_options env (map (\<lambda>opt. (newSVpv (option_name opt), option_value c opt)) opts)
        \<lparr>option_modified = False, impacts_layout = False, impacts_preproc = False\<rparr> d = (Inr (r, ws), d1)"
      "\<forall>opt. \<exists>sv'. get_configuration_of d1 opt = Inr sv' \<and> same_value sv' (option_value c opt)"
    using set_options_sets [OF pl c opts(1), of "\<lparr>option_modified = False, impacts_layout = False, impacts_preproc = False\<rparr>" d] opts(2) by auto
  from d1(2) obtain f where f: "get_configuration_of d1 opt = Inr (f opt)" "same_value (f opt) (option_value c opt)" for opt by metis
  define d' where "d' = (if option_modified r \<and> impacts_layout r then forget_layout d1 else d1)"
  have "get_configuration_of d' opt = Inr (f opt)" for opt using f(1) by (simp add: d'_def forget_layout_values)
  from get_configuration_values [OF this] have conf: "get_configuration d' = Inr (HVref (map (\<lambda>opt. (option_name opt, f opt)) configuration_order))" .
  have "length kvs = 28" using mset_eq_length [OF kvs] by (simp add: hv configuration_order_def)
  then have len: "length ?args = 56" by (simp add: length_concat_pairs)
  then obtain x y zs where args: "?args = x # y # zs" by (cases ?args; cases "tl ?args") auto
  have paired: "pairs ?args = map (\<lambda>opt. (newSVpv (option_name opt), option_value c opt)) opts"
    unfolding pairs_concat by (simp add: kvs_opts)
  have "configure env gimme ?args d = (Inr (None, ws), d')"
    using d1(1) len paired unfolding args
    by (simp add: configure_def d'_def del: pairs.simps set_options.simps) (simp add: ch_then_def quiet_def log_then_def)
  moreover have "rel_option same_value (hv_fetch (map (\<lambda>opt. (option_name opt, f opt)) configuration_order) name) (hv_fetch hv name)" for name
    unfolding hv by (rule hv_fetch_related) (simp add: f(2))
  ultimately show ?thesis using conf by blast
qed


lemma run_map_each: "run_map f xs = Inr ys \<Longrightarrow> x \<in> set xs \<Longrightarrow> \<exists>y. f x = Inr y"
  by (induction xs arbitrary: ys) (auto simp: and_then_Inr)

lemma configuration_read:
  assumes pl: "perl_scalars (in_perl env)" and gimme: "gimme \<noteq> G_VOID" and hv: "get_configuration c = Inr (HVref hv)" and sv: "hv_fetch hv name = Some sv"
  shows "configure env gimme [newSVpv name] c = (Inr (Some sv, []), c)"
proof -
  have each: "get_configuration_of c opt = Inr (option_value c opt)" for opt
    using run_map_each [of "get_configuration_of c" configuration_order _ opt] hv all_options
    by (fastforce simp: get_configuration_def and_then_Inr option_value_def)
  have "(name, sv) \<in> set (map (\<lambda>opt. (option_name opt, option_value c opt)) configuration_order)"
    using get_configuration_values [OF each] hv sv by (auto simp: hv_fetch_def dest: map_of_SomeD)
  then obtain opt where "name = option_name opt" "sv = option_value c opt" by auto
  then show ?thesis using gimme by (simp add: configure_def read_handle_option [OF pl] each) (simp add: quiet_def)
qed

section \<open>An example\<close>

definition plain_perl :: perl where
  "plain_perl = \<lparr>SvIV = (\<lambda>sv. case sv of Scalar (Some i) _ _ \<Rightarrow> word_of_int i | _ \<Rightarrow> 0), SvUV = (\<lambda>_. 0), SvNV = (\<lambda>_. 0),
     SvPV = (\<lambda>sv. case sv of Scalar _ _ (Some s) \<Rightarrow> s | _ \<Rightarrow> []), looks_like_number = (\<lambda>_. False), call_sv = (\<lambda>_ _. Inr Undef),
     nv_bytes = (\<lambda>_ _. []), bytes_nv = (\<lambda>_ _. 0), largest_allocation = 1000\<rparr>"

definition plain_interpreter :: interpreter where
  "plain_interpreter = \<lparr>in_perl = plain_perl, plain_char_unsigned = False, loads_module = (\<lambda>m. m = ''Tie::IxHash''), preferred_module = None\<rparr>"

definition sample_options :: "SV list" where
  "sample_options = [newSVpv ''IntSize'', newSViv 2, newSVpv ''StdCVersion'', Undef, newSVpv ''OrderMembers'', newSViv 1,
     newSVpv ''Include'', AVref [Some (newSVpv ''/usr/include'')],
     newSVpv ''Bitfields'', HVref [(''Engine'', newSVpv ''Simple''), (''BlockSize'', newSViv 4)],
     newSVpv ''KeywordMap'', HVref [(''_c'', newSVpv ''const''), (''x'', Undef)]]"

definition new_sample :: "SV list \<Rightarrow> Converter logged" where
  "new_sample args = new_converter plain_interpreter x64 CBO_LITTLE_ENDIAN False False args"

lemma plain_perl_scalars: "perl_scalars (in_perl plain_interpreter)"
  by (simp add: perl_scalars_def plain_interpreter_def plain_perl_def newSViv_def newSVpv_def)

lemma x64_sizes_ok: "host_sizes_ok x64"
  by code_simp

lemma sample_made: "\<exists>c. new_sample sample_options = Inr (c, [])"
proof -
  have "case new_sample sample_options of Inr (_, ws) \<Rightarrow> ws = [] | _ \<Rightarrow> False" by code_simp
  then show ?thesis by (auto split: sum.splits)
qed

lemma empty_made: "\<exists>c. new_sample [] = Inr (c, [])"
proof -
  have "case new_sample [] of Inr (_, ws) \<Rightarrow> ws = [] | _ \<Rightarrow> False" by code_simp
  then show ?thesis by (auto split: sum.splits)
qed

section \<open>The properties\<close>

text \<open>
  C16 Whatever calls of \<open>new\<close>, \<open>configure\<close> and \<open>clone\<close> have made an object, also calls of \<open>configure\<close> that failed half-way, its options
  have values that could be set (sizes and alignments are among the allowed ones, the strings end where C ends them, the flags of the keywords are
  those that are not disabled, the keyword table is well-formed with valid words and tokens), so all of them can be read.
\<close>

theorem options_invariant:
  assumes "host_sizes_ok h" and "configured_object env h bo c"
  shows "options_ok (plain_char_unsigned env) c \<and> (\<exists>hv. get_configuration c = Inr (HVref hv))"
  using configured_object_ok [OF assms] get_configuration_eq by blast

lemma options_invariant_witness:
  "\<exists>c. new_sample sample_options = Inr (c, []) \<and> (let c' = snd (configure plain_interpreter G_VOID [newSVpv ''IntSize'', newSViv 3] c) in
     options_ok (plain_char_unsigned plain_interpreter) c' \<and> (\<exists>hv. get_configuration c' = Inr (HVref hv)))"
  using sample_made options_invariant [OF x64_sizes_ok configured_object.configured [OF configured_object.created]]
  unfolding Let_def new_sample_def by blast

text \<open>
  C15 Giving the configuration of one object to \<open>configure\<close> of another, in whatever order Perl lists the hash, succeeds and makes
  its configuration the same: every option has the same value, and hashes among the values have the same entries.
\<close>

theorem configuration_transfer:
  assumes "perl_scalars (in_perl env)" and "host_sizes_ok h" and "configured_object env h bo c"
    and "get_configuration c = Inr (HVref hv)" and "mset kvs = mset hv"
  shows "\<exists>ws d' hv'. configure env gimme (concat (map (\<lambda>(name, v). [newSVpv name, v]) kvs)) d = (Inr (None, ws), d') \<and>
    get_configuration d' = Inr (HVref hv') \<and> (\<forall>name. rel_option same_value (hv_fetch hv' name) (hv_fetch hv name))"
  using configuration_transferred [OF assms(1) configured_object_ok [OF assms(2,3)] assms(4,5)] .

lemma configuration_transfer_witness:
  "\<exists>c hv d. new_sample sample_options = Inr (c, []) \<and> get_configuration c = Inr (HVref hv) \<and> new_sample [] = Inr (d, []) \<and>
     (\<exists>ws d' hv'. configure plain_interpreter G_VOID (concat (map (\<lambda>(name, v). [newSVpv name, v]) (rev hv))) d = (Inr (None, ws), d') \<and>
       get_configuration d' = Inr (HVref hv') \<and> (\<forall>name. rel_option same_value (hv_fetch hv' name) (hv_fetch hv name)))"
proof -
  obtain c where c: "new_sample sample_options = Inr (c, [])" using sample_made by blast
  have obj: "configured_object plain_interpreter x64 CBO_LITTLE_ENDIAN c"
    using configured_object.created c unfolding new_sample_def .
  obtain hv where hv: "get_configuration c = Inr (HVref hv)"
    using get_configuration_eq [OF configured_object_ok [OF x64_sizes_ok obj]] by blast
  obtain d where d: "new_sample [] = Inr (d, [])" using empty_made by blast
  show ?thesis using c hv d configuration_transfer [OF plain_perl_scalars x64_sizes_ok obj hv, of "rev hv" G_VOID d] by (simp only: mset_rev) blast
qed

text \<open>
  C24 Setting or reading one option, whether it succeeds or fails, leaves every other option and the parsed types of the object as they are.
\<close>

theorem option_independent:
  assumes "perl_scalars (in_perl env)" and "opt' \<noteq> opt" and "handle_option env (newSVpv (option_name opt)) sv want c = (r, c')"
  shows "get_configuration_of c' opt' = get_configuration_of c opt' \<and> ob_cpi c' = ob_cpi c"
proof -
  have "ch_moves (only_option opt) (handle_option env (newSVpv (option_name opt)) sv want)" by (rule known_option_moves [OF assms(1)])
  from ch_movesD [OF this, of c] show ?thesis using assms(2,3) by (simp add: only_option_def)
qed

lemma option_independent_witness:
  "\<exists>c. new_sample [] = Inr (c, []) \<and> (let c' = snd (handle_option plain_interpreter (newSVpv (option_name OPTION_Include)) (Some Undef) False c) in
     get_configuration_of c' OPTION_Define = get_configuration_of c OPTION_Define \<and> ob_cpi c' = ob_cpi c)"
proof -
  obtain c where c: "new_sample [] = Inr (c, [])" using empty_made by blast
  have ne: "OPTION_Define \<noteq> OPTION_Include" by simp
  show ?thesis using c option_independent [OF plain_perl_scalars ne prod.collapse [symmetric], of "Some Undef" False c] unfolding Let_def by blast
qed

text \<open>
  C25 Reading one option gives the entry that the hash of all options has for its name, without a warning and without changing the object.
\<close>

theorem configure_reads:
  assumes "perl_scalars (in_perl env)" and "gimme \<noteq> G_VOID" and "get_configuration c = Inr (HVref hv)" and "hv_fetch hv name = Some sv"
  shows "configure env gimme [newSVpv name] c = (Inr (Some sv, []), c)"
  using configuration_read [OF assms] .

lemma configure_reads_witness:
  "\<exists>c hv sv. new_sample sample_options = Inr (c, []) \<and> get_configuration c = Inr (HVref hv) \<and> hv_fetch hv ''IntSize'' = Some sv \<and>
     configure plain_interpreter G_SCALAR [newSVpv ''IntSize''] c = (Inr (Some sv, []), c)"
proof -
  obtain c where c: "new_sample sample_options = Inr (c, [])" using sample_made by blast
  have "configured_object plain_interpreter x64 CBO_LITTLE_ENDIAN c" using configured_object.created c unfolding new_sample_def .
  then have hv: "get_configuration c = Inr (HVref (map (\<lambda>opt. (option_name opt, option_value c opt)) configuration_order))"
    by (rule get_configuration_eq [OF configured_object_ok [OF x64_sizes_ok]])
  have "''IntSize'' \<in> set (map option_name configuration_order)" by code_simp
  then have "hv_fetch (map (\<lambda>opt. (option_name opt, option_value c opt)) configuration_order) ''IntSize'' \<noteq> None"
    by (simp add: hv_fetch_def map_of_eq_None_iff image_image)
  then obtain sv where sv: "hv_fetch (map (\<lambda>opt. (option_name opt, option_value c opt)) configuration_order) ''IntSize'' = Some sv" by blast
  show ?thesis using c hv sv configure_reads [OF plain_perl_scalars Gimme.distinct(2) hv sv] by blast
qed

definition no_entries :: "'v HashTable" where
  "no_entries = \<lparr>ht_count = 0, ht_size = 1, ht_flags = 0, ht_bmask = 1, ht_root = [[], []]\<rparr>"

text \<open>
  The parse information after its layout is forgotten: every listed compound has lost its size
  and alignment, every listed typedef its size, and nothing else is different.
\<close>

definition types_forgotten :: "ParseData \<Rightarrow> ParseData \<Rightarrow> bool" where
  "types_forgotten pd pd' \<longleftrightarrow>
     (\<forall>n. structs (pi_types pd') n = (if n \<in> set (pi_structs pd) then map_option (\<lambda>s. s\<lparr>s_align := 0, s_size := 0\<rparr>) (structs (pi_types pd) n)
        else structs (pi_types pd) n))
   \<and> (\<forall>t. typedefs (pi_types pd') t = (if t \<in> set (concat (map (typedefs_of pd) (pi_typedef_lists pd)))
        then map_option (\<lambda>td. td\<lparr>td_decl := map_option (\<lambda>d. d\<lparr>d_size := -1, d_item_size := -1\<rparr>) (td_decl td)\<rparr>) (typedefs (pi_types pd) t)
        else typedefs (pi_types pd) t))
   \<and> enums (pi_types pd') = enums (pi_types pd) \<and> typedef_lists (pi_types pd') = typedef_lists (pi_types pd)
   \<and> pd'\<lparr>pi_types := pi_types pd\<rparr> = pd"

definition layout_forgotten :: "Converter \<Rightarrow> Converter \<Rightarrow> bool" where
  "layout_forgotten c c' \<longleftrightarrow> (\<forall>i. ob_basic c' i = (ob_basic c i)\<lparr>d_size := -1, d_item_size := -1\<rparr>)
   \<and> (case cpi_data (ob_cpi c) of
       Some pd \<Rightarrow> if cpi_ready (ob_cpi c)
         then \<not> cpi_ready (ob_cpi c') \<and> (\<exists>pd'. cpi_data (ob_cpi c') = Some pd' \<and> types_forgotten pd pd')
         else ob_cpi c' = ob_cpi c
     | None \<Rightarrow> ob_cpi c' = ob_cpi c)"

lemma reset_structs:
  "structs (fold reset_struct ns st) n = (if n \<in> set ns then map_option (\<lambda>s. s\<lparr>s_align := 0, s_size := 0\<rparr>) (structs st n) else structs st n)"
  "typedefs (fold reset_struct ns st) = typedefs st" "enums (fold reset_struct ns st) = enums st"
  "typedef_lists (fold reset_struct ns st) = typedef_lists st"
  by (induction ns arbitrary: st) (auto simp: reset_struct_def option.map_comp o_def)

lemma reset_typedefs:
  "typedefs (fold (set_typedef_size m k) ts st) t = (if t \<in> set ts
     then map_option (\<lambda>td. td\<lparr>td_decl := map_option (\<lambda>d. d\<lparr>d_size := m, d_item_size := k\<rparr>) (td_decl td)\<rparr>) (typedefs st t) else typedefs st t)"
  "structs (fold (set_typedef_size m k) ts st) = structs st" "enums (fold (set_typedef_size m k) ts st) = enums st"
  "typedef_lists (fold (set_typedef_size m k) ts st) = typedef_lists st"
  by (induction ts arbitrary: st) (auto simp: set_typedef_size_def option.map_comp o_def)

lemma forgotten:
  "ob_cpi c' = ob_cpi (forget_layout c) \<Longrightarrow> ob_basic c' = ob_basic (forget_layout c) \<Longrightarrow> layout_forgotten c c'"
  by (cases "cpi_data (ob_cpi c)")
    (simp_all add: layout_forgotten_def forget_layout_def basic_types_reset_def parse_available_def reset_parse_info_def
      types_forgotten_def reset_structs reset_typedefs)

text \<open>
  C23 After a call of \<open>configure\<close> that succeeds, either the sizes, alignments, byte order and bit-field engine are what they were and
  nothing that was computed has changed, or what was computed from them is gone: the sizes of the basic types, and, when the
  parsed types have all been laid out, the size and alignment of every compound and the size of every typedef. (When they have
  not, as after parsing, the layouts that \<open>sizeof\<close> made while parsing are kept.)
\<close>

theorem configure_forgets:
  assumes "configure env gimme args c = (Inr (r, ws), c')"
  shows "cfg_layout (ob_cfg c') = cfg_layout (ob_cfg c) \<and> bflayouter (ob_cfg c') = bflayouter (ob_cfg c) \<and> ob_cpi c' = ob_cpi c \<and> ob_basic c' = ob_basic c \<or>
    layout_forgotten c c'"
  using configured_layout [OF assms] forgotten [of c' c] by (auto simp: same_layout_def)

text \<open>\<open>struct pair { char c; int i; };\<close> with its layout.\<close>

definition pair_data :: ParseData where
  "pair_data = \<lparr>pi_types = store [(struct_new (Some ''pair'') 0 T_STRUCT 0 (Some
       [declare_members T_CHAR None [decl_new (Some ''c'') 0], declare_members T_INT None [decl_new (Some ''i'') 0]]))\<lparr>s_align := 4, s_size := 8\<rparr>],
     typedefs_of = (\<lambda>_. []), pi_files = Map.empty, enum_context = (\<lambda>_. (None, 0)), struct_context = (\<lambda>_. (None, 0)),
     pi_enums = [], pi_structs = [0], pi_typedef_lists = [], pi_htEnumerators = no_entries, pi_htEnums = no_entries,
     pi_htStructs = no_entries, pi_htTypedefs = no_entries, pi_htFiles = no_entries, pi_htPredefined = no_entries, errorStack = Some []\<rparr>"

definition with_pair :: "Converter \<Rightarrow> Converter" where
  "with_pair c = c\<lparr>ob_cpi := \<lparr>cpi_data = Some pair_data, cpi_ready = True\<rparr>\<rparr>"

lemma int_size_configured:
  "case new_sample [] of Inr (c, _) \<Rightarrow> int_size (cfg_layout (ob_cfg (with_pair c))) = 4 \<and>
     (case configure plain_interpreter G_VOID [newSVpv ''IntSize'', newSViv 2] (with_pair c) of (Inr (None, ws), c') \<Rightarrow> int_size (cfg_layout (ob_cfg c')) = 2 | _ \<Rightarrow> False)
   | _ \<Rightarrow> False"
  by code_simp

lemma configure_forgets_witness:
  "\<exists>c ws c' pd' s. new_sample [] = Inr (c, []) \<and> configure plain_interpreter G_VOID [newSVpv ''IntSize'', newSViv 2] (with_pair c) = (Inr (None, ws), c') \<and>
     \<not> cpi_ready (ob_cpi c') \<and> cpi_data (ob_cpi c') = Some pd' \<and> structs (pi_types pd') 0 = Some s \<and> s_align s = 0 \<and> s_size s = 0"
proof -
  obtain c where c: "new_sample [] = Inr (c, [])" using empty_made by blast
  obtain r c' where run: "configure plain_interpreter G_VOID [newSVpv ''IntSize'', newSViv 2] (with_pair c) = (r, c')" by force
  have sizes: "int_size (cfg_layout (ob_cfg (with_pair c))) = 4"
      "case r of Inr (None, ws) \<Rightarrow> int_size (cfg_layout (ob_cfg c')) = 2 | _ \<Rightarrow> False"
    using int_size_configured by (simp_all only: c run sum.case prod.case)
  then obtain ws where "r = Inr (None, ws)" "int_size (cfg_layout (ob_cfg c')) = 2"
    by (cases r; cases "fst (projr r)") (auto split: prod.splits option.splits)
  note c' = run [unfolded this(1)] and sizes = sizes(1) this(2)
  have "cfg_layout (ob_cfg c') \<noteq> cfg_layout (ob_cfg (with_pair c))" using sizes by auto
  with configure_forgets [OF c'] have "layout_forgotten (with_pair c) c'" by blast
  then obtain pd' where pd': "\<not> cpi_ready (ob_cpi c')" "cpi_data (ob_cpi c') = Some pd'" "types_forgotten pair_data pd'"
    by (auto simp: layout_forgotten_def with_pair_def)
  have "structs (pi_types pair_data) 0 \<noteq> None" "0 \<in> set (pi_structs pair_data)" by (simp_all add: pair_data_def store_def)
  with pd'(3) obtain s where "structs (pi_types pd') 0 = Some s" "s_align s = 0 \<and> s_size s = 0"
    by (auto simp: types_forgotten_def)
  with c c' pd' show ?thesis by blast
qed

section \<open>Where setting options goes wrong\<close>

text \<open>A call that fails at its second option has set the first, and forgets nothing although a size is different.\<close>

lemma configure_fails_stale:
  "case new_sample [] of Inr (c, _) \<Rightarrow> (case configure plain_interpreter G_VOID [newSVpv ''IntSize'', newSViv 2, newSVpv ''LongSize'', newSViv 3] c of
     (r, c') \<Rightarrow> r = Inl (Croaked ''LongSize must be 0, 1, 2, 4 or 8, not 3'') \<and> int_size (cfg_layout (ob_cfg c)) = 4 \<and> int_size (cfg_layout (ob_cfg c')) = 2)
   | _ \<Rightarrow> False"
  by code_simp

text \<open>A list of strings is emptied by a value that is refused.\<close>

lemma refused_list_is_lost:
  "case new_sample [newSVpv ''Include'', AVref [Some (newSVpv ''inc'')]] of Inr (c, _) \<Rightarrow>
     (case configure plain_interpreter G_VOID [newSVpv ''Include'', newSVpv ''inc''] c of
       (r, c') \<Rightarrow> r = Inl (Croaked ''Include wants a reference to an array of strings'') \<and> cfg_includes (ob_cfg c) = [''inc''] \<and> cfg_includes (ob_cfg c') = [])
   | _ \<Rightarrow> False"
  by code_simp

text \<open>A standard that was undefined is defined by a value that is refused.\<close>

lemma refused_version_is_defined:
  "case new_sample [newSVpv ''StdCVersion'', Undef] of Inr (c, _) \<Rightarrow>
     (case configure plain_interpreter G_VOID [newSVpv ''StdCVersion'', AVref []] c of
       (r, c') \<Rightarrow> r = Inl (Croaked ''StdCVersion must be undef or an integer value, not a reference'') \<and>
         \<not> has_std_c (ob_cfg c) \<and> has_std_c (ob_cfg c'))
   | _ \<Rightarrow> False"
  by code_simp

text \<open>A block size of zero is accepted.\<close>

lemma block_size_zero:
  "case new_sample [newSVpv ''Bitfields'', HVref [(''Engine'', newSVpv ''Simple''), (''BlockSize'', newSViv 0)]] of Inr (c, _) \<Rightarrow>
     (case bflayouter (ob_cfg c) of Simple s \<Rightarrow> block_size s = 0 | _ \<Rightarrow> False)
   | _ \<Rightarrow> False"
  by code_simp

end
