(* ===== verification/Spec2Isabelle.thy ===== *)
theory Spec2Isabelle
  imports Byte_Order_32 Layout_Examples Hash_Props List_Props Member_Props Pack_Props Name_Props Tag_Props Init_Props Type_Defs Sourcify_Ends Option_Props
begin

text \<open>
  Convert::Binary::C reads C declarations and converts between packed binary data and Perl values. This library
  models its own C code: the C type library (\<^verbatim>\<open>src/ctlib\<close>), its containers (\<^verbatim>\<open>src/util\<close>) and the Perl side
  (\<^verbatim>\<open>src/cbc\<close>), with the tables that the scripts in \<^verbatim>\<open>src/token\<close> generate.

  \<^bold>\<open>How the parts interact.\<close> The parser fills the parse information (\<open>CParseInfo\<close>): lists and hash tables of enums,
  compounds and typedefs. Sizes and offsets are computed on demand by the layouter, which runs a bit-field engine.
  Member expressions, packing and unpacking, initializers, definitions and source text walk the laid out types; tags on
  types and members change how values are converted, and hooks call back into Perl.

  \<^bold>\<open>Conventions.\<close> A type object is a number into the partial functions of a \<open>CState\<close>, so sharing and mutation of
  types are explicit; lists and hash nodes that are mutated in place have stores of their own. An operation that can
  fail returns a \<open>run\<close>: \<open>Inl\<close> with \<open>Croaked\<close> (a Perl exception), \<open>Fatal_error\<close> (the program is ended),
  \<open>Undefined_behaviour\<close> (the C code reads or writes where it must not, divides by zero or shifts too far) or
  \<open>Out_of_fuel\<close>, and \<open>Inr\<close> with the result. Warnings are collected in order (\<open>logged\<close>, \<open>pk\<close>). Unsigned C integers
  that can wrap are words or carry an explicit conversion (\<open>cast_u\<close>, \<open>cast_s\<close>); signed arithmetic is unbounded.
  Recursion over types is not structural and takes fuel; that a fuel given by the ranks of the types is enough is proved
  for layout (\<open>layout_terminates\<close>, which also shows that no engine loops endlessly while bit-fields are no wider than
  their types), packing (part of \<open>pack_roundtrip\<close> and \<open>unpack_in_bounds\<close>), initializers, definitions
  and source text, and \<open>too_wide\<close> shows the one loop of the code that does not end otherwise.

  \<^bold>\<open>Theories.\<close>
  \<^item> \<open>CBC_Prelude\<close>, \<open>C_Library\<close>, \<open>Perl_Values\<close>, \<open>Simulation\<close>: C integers, the monad of failing runs, strings and characters of the C library,
    Perl values as a data type, and the locale \<open>simulation\<close> of operation sequences against an abstract state.
  \<^item> \<open>Byte_Order\<close>, \<open>Byte_Order_Facts\<close>, \<open>Byte_Order_32\<close> (\<^verbatim>\<open>ctlib/byteorder.c\<close>): the access macros of every build, bit-field
    extraction and insertion, decimal output and number parsing; round trips, locality and independence of fields,
    agreement of the builds with and without 64-bit integers and of big- and little-endian hosts.
  \<^item> \<open>Ct_Tags\<close>, \<open>C_Types\<close> (\<^verbatim>\<open>ctlib/cttags.c\<close>, \<^verbatim>\<open>ctlib/cttype.c\<close>): tag lists as maps, constructors, copies, enum sizes.
  \<^item> \<open>Bitfields\<close>, \<open>Bitfield_Facts\<close>, \<open>Bitfield_Laws\<close> (\<^verbatim>\<open>ctlib/bitfields.c\<close>): the Generic, Microsoft and Simple engines; the locale
    \<open>layout_engine\<close> is the contract of an engine and is interpreted for the three and for the dispatching \<open>bl_push\<close>.
  \<^item> \<open>Layout\<close>, \<open>Layout_Facts\<close>, \<open>Struct_Layout\<close>, \<open>Layout_Laws\<close>, \<open>Union_Layout\<close>, \<open>Layout_Fuel\<close>, \<open>Layout_Examples\<close> (\<^verbatim>\<open>ctlib/layout.c\<close>): type
    information and layout of compounds, mutually recursive; soundness, termination, and ways it goes wrong. The
    soundness of a struct is stated for member compounds that have been laid out before it: \<open>nested_layout_overlaps\<close>
    shows that the recursive layout of a member breaks a run of bit-fields that is open. Zero-width fields that packing
    puts below their type's alignment are excluded as well, since \<open>packed_zero_width_overlap\<close> shows that they overlap.
  \<^item> \<open>Linked_List\<close>, \<open>List_Facts\<close>, \<open>List_Ops\<close>, \<open>List_Sort\<close>, \<open>List_Props\<close> (\<^verbatim>\<open>util/list.c\<close>): rings in a store, refined to sequences;
    the quick sort on links.
  \<^item> \<open>Hash_Table\<close>, \<open>Hash_Facts\<close>, \<open>Hash_Map\<close>, \<open>Hash_Ops\<close>, \<open>Hash_Dictionary\<close>, \<open>Hash_Props\<close> (\<^verbatim>\<open>util/hash.c\<close>): buckets in order of hash and
    key, growing and shrinking; the locale \<open>dictionary\<close> and its interpretation by the table.
  \<^item> \<open>Member_Expr\<close>, \<open>Member\<close>, \<open>Get_Member\<close>, \<open>Member_Sound\<close>, \<open>Member_Facts\<close>, \<open>Member_Walk\<close>, \<open>Member_Search\<close>, \<open>Member_Props\<close> (\<^verbatim>\<open>cbc/member.c\<close>):
    names of members for offsets, the state machine that splits member expressions, and the lookup that inverts the names.
  \<^item> \<open>Id_List\<close>, \<open>Hooks\<close>, \<open>Dimension\<close> (\<^verbatim>\<open>cbc/idl.c\<close>, \<^verbatim>\<open>cbc/hook.c\<close>, \<^verbatim>\<open>cbc/dimension.c\<close>): paths for messages, hooks, dimension tags.
  \<^item> \<open>Pack_State\<close>, \<open>Pack_Values\<close>, \<open>Pack\<close>, \<open>Unpack\<close>, with \<open>Pack_Bits\<close>, \<open>Pack_Fits\<close>, \<open>Pack_Leaves\<close>, \<open>Pack_Scalars\<close>, \<open>Pack_Compounds\<close>,
    \<open>Pack_Roundtrip\<close>, \<open>Unpack_Safe\<close>, \<open>Pack_Props\<close> (\<^verbatim>\<open>cbc/pack.c\<close>): conversion along a type; values that fit come back,
    bytes of others stay, and nothing outside the buffer is read.
  \<^item> \<open>Parse_Info\<close>, \<open>Parse_Clone\<close>, \<open>Parse_Props\<close> (\<^verbatim>\<open>ctlib/ctparse.c\<close>, \<^verbatim>\<open>ctlib/fileinfo.c\<close>, \<^verbatim>\<open>ctlib/cterror.c\<close>): life cycle of the
    parse information and its deep copy with renamed pointers and tables of names. The preprocessor that belongs to
    the parse information, and is copied with it, is not modelled.
  \<^item> \<open>Type_Names\<close>, \<open>Name_Props\<close> (\<^verbatim>\<open>cbc/basic.c\<close>, \<^verbatim>\<open>cbc/type.c\<close>, \<^verbatim>\<open>cbc/util.c\<close>): names of types, read and written.
  \<^item> \<open>Tag_Values\<close>, \<open>Tag_Props\<close> (\<^verbatim>\<open>cbc/tag.c\<close>): setting and reading tags by name, refined to a map.
  \<^item> \<open>Init_String\<close>, \<open>Init_Props\<close> (\<^verbatim>\<open>cbc/init.c\<close>): C initializers and their shape.
  \<^item> \<open>Type_Defs\<close> (\<^verbatim>\<open>cbc/typeinfo.c\<close>): definitions as Perl values, read back.
  \<^item> \<open>Sourcify\<close>, \<open>Sourcify_Ends\<close> (\<^verbatim>\<open>cbc/sourcify.c\<close>): all types as C source; it ends although types refer to each other.
  \<^item> \<open>Options\<close>, \<open>Objects\<close> (\<^verbatim>\<open>cbc/option.c\<close>, \<^verbatim>\<open>cbc/object.c\<close>, \<^verbatim>\<open>xsubs/cbc.xs\<close>, \<^verbatim>\<open>xsubs/configure.xs\<close>): the object
    (\<open>Converter\<close>), its options set and read as Perl values, new objects and copies.
  \<^item> \<open>Option_Steps\<close>, \<open>Option_Values\<close>, \<open>Option_Props\<close>: what every option keeps, what it changes and what reading it gives; a
    configuration read from one object configures another one alike, and sizes are forgotten when they may have changed.

  \<^bold>\<open>Parameters.\<close> The host compiler (\<open>Host\<close>: sizes, alignments, signedness of \<open>char\<close>), floating point conversion, the string, number and
  truth values of Perl scalars and the effect of Perl code (\<open>perl\<close>), what \<open>stat\<close> reports, and the macros of the preprocessor are
  arguments of the definitions that use them.

  \<^bold>\<open>Not modelled.\<close> The preprocessor \<^verbatim>\<open>src/ucpp\<close> is a copy of another program. The grammar of \<^verbatim>\<open>ctlib/parser.y\<close> and
  \<^verbatim>\<open>ctlib/pragma.y\<close> is run by a parser that bison generates. \<^verbatim>\<open>util/memalloc.c\<close> counts allocations in debug builds, \<^verbatim>\<open>ctlib/ctdebug.c\<close> and
  \<^verbatim>\<open>cbc/debug.c\<close> print, and \<^verbatim>\<open>cbc/macros.c\<close> asks the preprocessor. Reference counts, magic and the freeing of memory have no counterpart
  where a value is copied.
\<close>

end
